(* ===== verification/Prelude.thy ===== *)
theory Prelude
  imports Main "HOL-Library.Word" "HOL-Library.Sublist"
begin

text \<open>
  What every component of the model shares: Go's machine integers, instants and durations
  of package \<^verbatim>\<open>time\<close>, the little-endian and big-endian codecs of
  \<^verbatim>\<open>encoding/binary\<close>, the string helpers of package \<^verbatim>\<open>strings\<close> and the
  rule collections the components fill.

  An instant (\<open>gotime\<close>) is the number of nanoseconds since the Unix epoch; the zero value
  of \<^verbatim>\<open>time.Time\<close> is the instant January 1, year 1. A duration is an \<^verbatim>\<open>int64\<close> count of
  nanoseconds, written as an \<open>int\<close>; products of durations wrap (\<open>i64\<close>) and the difference
  of two instants saturates, as \<^verbatim>\<open>Time.Sub\<close> does. A Go string is a list of bytes, a HOL
  \<open>string\<close>.
\<close>

unbundle bit_operations_syntax

named_theorems go_defs
named_theorems go_inv

subsection \<open>Integers of 64 bits\<close>

definition i64_max :: int where "i64_max = 9223372036854775807"

definition i64_min :: int where "i64_min = - 9223372036854775808"

definition in_i64 :: "int \<Rightarrow> bool" where
  "in_i64 x \<longleftrightarrow> i64_min \<le> x \<and> x \<le> i64_max"

definition i64 :: "int \<Rightarrow> int" where
  "i64 x = (x + 9223372036854775808) mod 18446744073709551616 - 9223372036854775808"

lemma i64_id: "in_i64 x \<Longrightarrow> i64 x = x"
  by (simp add: i64_def in_i64_def i64_max_def i64_min_def)

lemma in_i64_i64: "in_i64 (i64 x)"
proof -
  have "0 \<le> (x + 9223372036854775808) mod 18446744073709551616"
    and "(x + 9223372036854775808) mod 18446744073709551616 < (18446744073709551616::int)"
    by simp_all
  then show ?thesis
    by (simp add: i64_def in_i64_def i64_max_def i64_min_def)
qed

lemma i64_double_id: "0 \<le> x \<Longrightarrow> x \<le> 4611686018427387903 \<Longrightarrow> i64 (2 * x) = 2 * x"
  by (rule i64_id) (simp add: in_i64_def i64_max_def i64_min_def)

text \<open>Go's integer division truncates towards zero.\<close>

definition go_div :: "int \<Rightarrow> int \<Rightarrow> int" where
  "go_div a b = sgn a * sgn b * (\<bar>a\<bar> div \<bar>b\<bar>)"

lemma go_div_nonneg: "0 \<le> a \<Longrightarrow> 0 < b \<Longrightarrow> go_div a b = a div b"
  by (cases "a = 0") (simp_all add: go_div_def)

subsection \<open>Instants and durations\<close>

type_synonym gotime = int
type_synonym duration = int

definition nanos :: int where "nanos = 1000000000"

definition seconds :: "int \<Rightarrow> duration" where "seconds n = i64 (n * nanos)"

definition minutes :: "int \<Rightarrow> duration" where "minutes n = i64 (n * (60 * nanos))"

definition zero_time :: gotime where "zero_time = - 62135596800 * nanos"

definition is_zero_time :: "gotime \<Rightarrow> bool" where
  "is_zero_time t \<longleftrightarrow> t = zero_time"

definition time_add :: "gotime \<Rightarrow> duration \<Rightarrow> gotime" where "time_add t d = t + d"

definition time_sub :: "gotime \<Rightarrow> gotime \<Rightarrow> duration" where
  "time_sub t u = max i64_min (min i64_max (t - u))"

definition time_after :: "gotime \<Rightarrow> gotime \<Rightarrow> bool" where "time_after t u \<longleftrightarrow> u < t"

definition time_before :: "gotime \<Rightarrow> gotime \<Rightarrow> bool" where "time_before t u \<longleftrightarrow> t < u"

definition unix_secs :: "gotime \<Rightarrow> int" where "unix_secs t = t div nanos"

lemmas time_defs [go_defs] = time_add_def time_after_def time_before_def is_zero_time_def

lemma seconds_eq: "0 \<le> n \<Longrightarrow> n \<le> 9223372036 \<Longrightarrow> seconds n = n * 1000000000"
  by (simp add: seconds_def nanos_def i64_id in_i64_def i64_max_def i64_min_def)

lemma minutes_eq: "0 \<le> n \<Longrightarrow> n \<le> 153722867 \<Longrightarrow> minutes n = n * 60000000000"
  by (simp add: minutes_def nanos_def i64_id in_i64_def i64_max_def i64_min_def)

lemma time_sub_ge: "in_i64 d \<Longrightarrow> i64_min < d \<Longrightarrow> d \<le> time_sub t u \<longleftrightarrow> d \<le> t - u"
  by (auto simp: time_sub_def in_i64_def)

lemma time_sub_lt: "in_i64 d \<Longrightarrow> i64_min < d \<Longrightarrow> time_sub t u < d \<longleftrightarrow> t - u < d"
  using time_sub_ge [of d t u] by linarith

lemma time_sub_gt: "in_i64 d \<Longrightarrow> d < i64_max \<Longrightarrow> d < time_sub t u \<longleftrightarrow> d < t - u"
  by (auto simp: time_sub_def in_i64_def)

lemma time_sub_le: "in_i64 d \<Longrightarrow> d < i64_max \<Longrightarrow> time_sub t u \<le> d \<longleftrightarrow> t - u \<le> d"
  using time_sub_gt [of d t u] by linarith

lemma time_sub_eq: "in_i64 (t - u) \<Longrightarrow> time_sub t u = t - u"
  by (simp add: time_sub_def in_i64_def)

lemma time_sub_nonneg: "u \<le> t \<Longrightarrow> 0 \<le> time_sub t u"
  by (simp add: time_sub_def i64_max_def)

lemma in_i64_time_sub: "in_i64 (time_sub t u)"
  by (simp add: time_sub_def in_i64_def i64_max_def i64_min_def)

subsection \<open>Lists of instants in order of arrival\<close>

text \<open>
  Every sliding window of the program appends the current instant to a list and later
  drops a prefix: the list is sorted, and dropping the old prefix is the same as keeping
  the young elements.
\<close>

lemma sorted_append_last:
  "sorted (ts :: int list) \<Longrightarrow> \<forall>t\<in>set ts. t \<le> now \<Longrightarrow> sorted (ts @ [now])"
  by (simp add: sorted_append)

lemma dropWhile_sorted_filter:
  "sorted (ts :: int list) \<Longrightarrow> dropWhile (\<lambda>t. t < c) ts = filter (\<lambda>t. c \<le> t) ts"
proof (induction ts)
  case (Cons t ts)
  show ?case
  proof (cases "t < c")
    case False
    with Cons.prems have "\<forall>x\<in>set (t # ts). c \<le> x" by auto
    then have "filter (\<lambda>t. c \<le> t) (t # ts) = t # ts"
      by (simp add: filter_id_conv)
    with False show ?thesis by simp
  qed (use Cons in simp)
qed simp

lemma sorted_dropWhile': "sorted (ts :: int list) \<Longrightarrow> sorted (dropWhile P ts)"
  by (metis dropWhile_eq_drop sorted_wrt_drop)

subsection \<open>Maps\<close>

text \<open>
  A Go map is a HOL map. \<open>map_filter_vals\<close> is the loop that ranges over a map and deletes
  the entries a test selects.
\<close>

definition map_keep :: "('v \<Rightarrow> bool) \<Rightarrow> ('k \<rightharpoonup> 'v) \<Rightarrow> ('k \<rightharpoonup> 'v)" where
  "map_keep P m k = (case m k of None \<Rightarrow> None | Some v \<Rightarrow> if P v then Some v else None)"

lemma map_keep_Some [simp]: "map_keep P m k = Some v \<longleftrightarrow> m k = Some v \<and> P v"
  by (auto simp: map_keep_def split: option.splits)

lemma map_keep_None: "map_keep P m k = None \<longleftrightarrow> (\<forall>v. m k = Some v \<longrightarrow> \<not> P v)"
  by (auto simp: map_keep_def split: option.splits)

lemma dom_map_keep: "dom (map_keep P m) = {k. \<exists>v. m k = Some v \<and> P v}"
  by auto

lemma map_keep_twice: "map_keep P (map_keep Q m) = map_keep (\<lambda>v. P v \<and> Q v) m"
  by (rule ext) (auto simp: map_keep_def split: option.splits)

subsection \<open>Byte order\<close>

type_synonym u8 = "8 word"
type_synonym u16 = "16 word"
type_synonym u32 = "32 word"
type_synonym u64 = "64 word"

text \<open>\<^verbatim>\<open>binary.LittleEndian.PutUint32\<close>, \<^verbatim>\<open>PutUint64\<close> and their readers.\<close>

definition le_bytes :: "nat \<Rightarrow> 'a::len word \<Rightarrow> u8 list" where
  "le_bytes n w = map (\<lambda>i. ucast (drop_bit (8 * i) w)) [0..<n]"

fun le_word :: "u8 list \<Rightarrow> 'a::len word" where
  "le_word [] = 0"
| "le_word (b # bs) = ucast b OR push_bit 8 (le_word bs)"

definition be_bytes :: "nat \<Rightarrow> 'a::len word \<Rightarrow> u8 list" where
  "be_bytes n w = rev (le_bytes n w)"

definition be_word :: "u8 list \<Rightarrow> 'a::len word" where
  "be_word bs = le_word (rev bs)"

lemma length_le_bytes [simp]: "length (le_bytes n w) = n"
  by (simp add: le_bytes_def)

lemma length_be_bytes [simp]: "length (be_bytes n w) = n"
  by (simp add: be_bytes_def)

lemma le_bytes_Suc: "le_bytes (Suc n) w = ucast w # le_bytes n (drop_bit 8 w)"
proof -
  have "[0..<Suc n] = 0 # map Suc [0..<n]"
    by (metis upt_conv_Cons map_Suc_upt zero_less_Suc)
  then show ?thesis
    by (simp add: le_bytes_def del: upt_Suc) (simp add: o_def add.commute)
qed

lemma bit_le_word_le_bytes:
  "bit (le_word (le_bytes n (w :: 'a::len word)) :: 'a word) k \<longleftrightarrow> bit w k \<and> k < 8 * n"
proof (induction n arbitrary: w k)
  case 0
  then show ?case by (simp add: le_bytes_def)
next
  case (Suc n)
  show ?case
    by (auto simp: le_bytes_Suc bit_or_iff bit_push_bit_iff bit_ucast_iff bit_drop_bit_eq
        Suc.IH dest: bit_imp_le_length)
qed

lemma le_word_le_bytes:
  assumes "LENGTH('a) \<le> 8 * n"
  shows "le_word (le_bytes n (w :: 'a::len word)) = w"
  by (rule bit_word_eqI) (use assms in \<open>auto simp: bit_le_word_le_bytes\<close>)

lemma be_word_be_bytes:
  "LENGTH('a) \<le> 8 * n \<Longrightarrow> be_word (be_bytes n (w :: 'a::len word)) = w"
  by (simp add: be_word_def be_bytes_def le_word_le_bytes)

lemma bit_le_word_bound: "bit (le_word bs :: 'a::len word) k \<Longrightarrow> k < 8 * length bs"
proof (induction bs arbitrary: k)
  case (Cons b bs)
  then consider "bit (ucast b :: 'a word) k" | "8 \<le> k" "bit (le_word bs :: 'a word) (k - 8)"
    by (auto simp: bit_or_iff bit_push_bit_iff)
  then show ?case
  proof cases
    case 1
    then have "k < 8" by (auto simp: bit_ucast_iff dest: bit_imp_le_length)
    then show ?thesis by simp
  next
    case 2
    with Cons.IH [of "k - 8"] show ?thesis by simp
  qed
qed simp

lemma le_bytes_le_word:
  "8 * length bs \<le> LENGTH('a) \<Longrightarrow> le_bytes (length bs) (le_word bs :: 'a::len word) = bs"
proof (induction bs)
  case (Cons b bs)
  let ?w = "le_word bs :: 'a word"
  have len: "8 * length bs + 8 \<le> LENGTH('a)" using Cons.prems by simp
  have low: "ucast (ucast b OR push_bit 8 ?w) = b"
    by (rule bit_word_eqI) (use len in \<open>auto simp: bit_ucast_iff bit_or_iff bit_push_bit_iff\<close>)
  have high: "drop_bit 8 (ucast b OR push_bit 8 ?w) = ?w"
  proof (rule bit_word_eqI)
    fix k assume "k < LENGTH('a)"
    have "\<not> bit (ucast b :: 'a word) (8 + k)" by (auto simp: bit_ucast_iff dest: bit_imp_le_length)
    moreover have "8 + k < LENGTH('a)" if "bit ?w k" using bit_le_word_bound [OF that] len by simp
    ultimately show "bit (drop_bit 8 (ucast b OR push_bit 8 ?w)) k \<longleftrightarrow> bit ?w k"
      by (auto simp: bit_drop_bit_eq bit_or_iff bit_push_bit_iff)
  qed
  show ?case
    unfolding le_word.simps list.size add_Suc_right add_0_right le_bytes_Suc low high
    using Cons.IH len by simp
qed (simp add: le_bytes_def)

subsection \<open>Rows that satisfy a predicate\<close>

lemma find_SomeD: "find P xs = Some x \<Longrightarrow> x \<in> set xs \<and> P x"
  by (auto simp: find_Some_iff)

lemma find_unique: "distinct (map f xs) \<Longrightarrow> x \<in> set xs \<Longrightarrow> find (\<lambda>y. f y = f x) xs = Some x"
  by (induction xs) force+

lemma length_filter_imp: "(\<And>x. P x \<Longrightarrow> Q x) \<Longrightarrow> length (filter P xs) \<le> length (filter Q xs)"
  by (induction xs) auto

end
