(* ===== verification/Contracts.thy ===== *)
theory Contracts
  imports Prelude
begin

text \<open>
  The interfaces the components share, as locales of laws.

  \<^item> \<open>expiring_store\<close>: a store whose entries live until an instant that is fixed when they are
    put in, with a sweep that drops the dead entries. The ban store, the challenge store and
    the anti-replay store are such stores; the periodic cleanups are the sweeps. The client's
    view proved here is that a cleanup is never observable, wherever the scheduler puts it.
  \<^item> \<open>single_use_store\<close> extends it by the operation that redeems a key: the key is gone after
    the first attempt, whatever the outcome. Proved here: in any run that never puts the key
    in again, the key is redeemed at most once.
\<close>

subsection \<open>Stores whose entries expire\<close>

text \<open>
  The operations of such a store: a put, a sweep, a removal, and a look-up, which may drop
  the entry it finds dead. \<open>store_run\<close> is a run of them in the order in which the store's
  lock lets them in, each at the instant its clock reading gave.
\<close>

datatype ('k, 'd) store_op = Put 'k 'd | Sweep | Drop 'k | Look 'k

fun store_step :: "('k \<Rightarrow> 'd \<Rightarrow> gotime \<Rightarrow> 's \<Rightarrow> 's) \<Rightarrow> (gotime \<Rightarrow> 's \<Rightarrow> 's) \<Rightarrow>
    ('k \<Rightarrow> gotime \<Rightarrow> 's \<Rightarrow> 's) \<Rightarrow> ('k \<Rightarrow> gotime \<Rightarrow> 's \<Rightarrow> 's) \<Rightarrow> ('k, 'd) store_op \<Rightarrow> gotime \<Rightarrow> 's \<Rightarrow> 's" where
  "store_step put sweep drop_key look (Put k d) now s = put k d now s"
| "store_step put sweep drop_key look Sweep now s = sweep now s"
| "store_step put sweep drop_key look (Drop k) now s = drop_key k now s"
| "store_step put sweep drop_key look (Look k) now s = look k now s"

fun store_run :: "('k \<Rightarrow> 'd \<Rightarrow> gotime \<Rightarrow> 's \<Rightarrow> 's) \<Rightarrow> (gotime \<Rightarrow> 's \<Rightarrow> 's) \<Rightarrow>
    ('k \<Rightarrow> gotime \<Rightarrow> 's \<Rightarrow> 's) \<Rightarrow> ('k \<Rightarrow> gotime \<Rightarrow> 's \<Rightarrow> 's) \<Rightarrow>
    (gotime \<times> ('k, 'd) store_op) list \<Rightarrow> 's \<Rightarrow> 's" where
  "store_run put sweep drop_key look [] s = s"
| "store_run put sweep drop_key look ((now, op) # ops) s =
     store_run put sweep drop_key look ops (store_step put sweep drop_key look op now s)"

locale expiring_store =
  fixes live :: "'s \<Rightarrow> 'k \<Rightarrow> gotime \<Rightarrow> bool"
    and put :: "'k \<Rightarrow> 'd \<Rightarrow> gotime \<Rightarrow> 's \<Rightarrow> 's"
    and sweep :: "gotime \<Rightarrow> 's \<Rightarrow> 's"
    and drop_key :: "'k \<Rightarrow> gotime \<Rightarrow> 's \<Rightarrow> 's"
    and look :: "'k \<Rightarrow> gotime \<Rightarrow> 's \<Rightarrow> 's"
    and expiry :: "'d \<Rightarrow> gotime \<Rightarrow> gotime"
    and inv :: "'s \<Rightarrow> bool"
  assumes live_put_same: "inv s \<Longrightarrow> live (put k d now s) k t \<longleftrightarrow> t \<le> expiry d now"
    and live_put_other: "inv s \<Longrightarrow> k' \<noteq> k \<Longrightarrow> live (put k d now s) k' t = live s k' t"
    and live_sweep: "inv s \<Longrightarrow> now \<le> t \<Longrightarrow> live (sweep now s) k t = live s k t"
    and live_drop_same: "inv s \<Longrightarrow> \<not> live (drop_key k now s) k t"
    and live_drop_other: "inv s \<Longrightarrow> k' \<noteq> k \<Longrightarrow> live (drop_key k now s) k' t = live s k' t"
    and live_look: "inv s \<Longrightarrow> now \<le> t \<Longrightarrow> live (look k' now s) k t = live s k t"
    and inv_put: "inv s \<Longrightarrow> inv (put k d now s)"
    and inv_sweep: "inv s \<Longrightarrow> inv (sweep now s)"
    and inv_drop: "inv s \<Longrightarrow> inv (drop_key k now s)"
    and inv_look: "inv s \<Longrightarrow> inv (look k now s)"
begin

abbreviation (input) step where "step \<equiv> store_step put sweep drop_key look"

abbreviation (input) run where "run \<equiv> store_run put sweep drop_key look"

lemma inv_step: "inv s \<Longrightarrow> inv (step op now s)"
  by (cases op) (simp_all add: inv_put inv_sweep inv_drop inv_look)

lemma inv_run: "inv s \<Longrightarrow> inv (run ops s)"
  by (induction ops arbitrary: s) (auto simp: inv_step)

text \<open>An operation on other keys leaves the liveness of \<open>k\<close> at every later instant alone.\<close>

lemma live_step_other:
  assumes "inv s" "now \<le> t" "\<forall>d. op \<noteq> Put k d" "op \<noteq> Drop k"
  shows "live (step op now s) k t = live s k t"
proof (cases op)
  case (Put k' d)
  with assms have "k \<noteq> k'" by auto
  with assms Put show ?thesis by (simp add: live_put_other)
next
  case (Drop k')
  with assms have "k \<noteq> k'" by auto
  with assms Drop show ?thesis by (simp add: live_drop_other)
qed (use assms in \<open>simp_all add: live_sweep live_look\<close>)

lemma live_run_other:
  assumes "inv s" "\<forall>(now, op) \<in> set ops. now \<le> t \<and> (\<forall>d. op \<noteq> Put k d) \<and> op \<noteq> Drop k"
  shows "live (run ops s) k t = live s k t"
  using assms
proof (induction ops arbitrary: s)
  case (Cons x ops)
  obtain now op where x: "x = (now, op)" by force
  with Cons have "live (run ops (step op now s)) k t = live (step op now s) k t"
    by (simp add: inv_step)
  with Cons.prems x show ?case by (simp add: live_step_other)
qed simp

text \<open>So an entry put in is live exactly until its expiry, whatever happens to other keys.\<close>

lemma live_after_put:
  assumes "inv s" "\<forall>(now', op) \<in> set ops. now' \<le> t \<and> (\<forall>d. op \<noteq> Put k d) \<and> op \<noteq> Drop k"
  shows "live (run ops (put k d now s)) k t \<longleftrightarrow> t \<le> expiry d now"
  using live_run_other [OF inv_put [OF assms(1)] assms(2)] live_put_same [OF assms(1)] by simp

end

subsection \<open>Stores of single-use keys\<close>

datatype ('k, 'd, 'c) use_op = Issue 'k 'd | Clean | Redeem 'k 'c

text \<open>A run of the store with the number of successful redemptions of a key.\<close>

fun redeemed :: "('k \<Rightarrow> 'd \<Rightarrow> gotime \<Rightarrow> 's \<Rightarrow> 's) \<Rightarrow> (gotime \<Rightarrow> 's \<Rightarrow> 's) \<Rightarrow>
    ('k \<Rightarrow> 'c \<Rightarrow> gotime \<Rightarrow> 's \<Rightarrow> bool \<times> 's) \<Rightarrow> 'k \<Rightarrow> (gotime \<times> ('k, 'd, 'c) use_op) list \<Rightarrow> 's \<Rightarrow> nat" where
  "redeemed put sweep redeem k [] s = 0"
| "redeemed put sweep redeem k ((now, Issue k' d) # ops) s =
     redeemed put sweep redeem k ops (put k' d now s)"
| "redeemed put sweep redeem k ((now, Clean) # ops) s = redeemed put sweep redeem k ops (sweep now s)"
| "redeemed put sweep redeem k ((now, Redeem k' c) # ops) s =
     (let (ok, s') = redeem k' c now s
      in (if k' = k \<and> ok then 1 else 0) + redeemed put sweep redeem k ops s')"

locale single_use_store = expiring_store live put sweep drop_key look expiry inv
  for live :: "'s \<Rightarrow> 'k \<Rightarrow> gotime \<Rightarrow> bool"
    and put :: "'k \<Rightarrow> 'd \<Rightarrow> gotime \<Rightarrow> 's \<Rightarrow> 's"
    and sweep :: "gotime \<Rightarrow> 's \<Rightarrow> 's"
    and drop_key :: "'k \<Rightarrow> gotime \<Rightarrow> 's \<Rightarrow> 's"
    and look :: "'k \<Rightarrow> gotime \<Rightarrow> 's \<Rightarrow> 's"
    and expiry :: "'d \<Rightarrow> gotime \<Rightarrow> gotime"
    and inv :: "'s \<Rightarrow> bool" +
  fixes redeem :: "'k \<Rightarrow> 'c \<Rightarrow> gotime \<Rightarrow> 's \<Rightarrow> bool \<times> 's"
    and has :: "'s \<Rightarrow> 'k \<Rightarrow> bool"
  assumes redeem_state: "snd (redeem k c now s) = drop_key k now s"
    and redeem_needs: "fst (redeem k c now s) \<Longrightarrow> has s k"
    and has_drop: "has (drop_key k' now s) k \<longleftrightarrow> has s k \<and> k \<noteq> k'"
    and has_put: "has (put k' d now s) k \<longleftrightarrow> k = k' \<or> has s k"
    and has_sweep: "has (sweep now s) k \<Longrightarrow> has s k"
begin

lemma redeemed_absent:
  "\<not> has s k \<Longrightarrow> \<forall>(now, op) \<in> set ops. \<forall>d. op \<noteq> Issue k d \<Longrightarrow>
     redeemed put sweep redeem k ops s = 0"
proof (induction ops arbitrary: s)
  case (Cons x ops)
  obtain now op where x: "x = (now, op)" by force
  show ?case
  proof (cases op)
    case (Issue k' d)
    with Cons x show ?thesis by (auto simp: has_put)
  next
    case Clean
    with Cons x show ?thesis by (auto dest: has_sweep)
  next
    case (Redeem k' c)
    obtain ok s' where r: "redeem k' c now s = (ok, s')" by force
    then have "s' = drop_key k' now s" using redeem_state [of k' c now s] by simp
    with Cons.prems(1) have "\<not> has s' k" by (simp add: has_drop)
    moreover have "\<not> (k' = k \<and> ok)" using Cons.prems(1) r redeem_needs [of k' c now s] by auto
    ultimately show ?thesis using Cons r x Redeem by (simp add: Let_def)
  qed
qed simp

lemma redeemed_once:
  "\<forall>(now, op) \<in> set ops. \<forall>d. op \<noteq> Issue k d \<Longrightarrow> redeemed put sweep redeem k ops s \<le> 1"
proof (induction ops arbitrary: s)
  case (Cons x ops)
  obtain now op where x: "x = (now, op)" by force
  show ?case
  proof (cases op)
    case (Redeem k' c)
    obtain ok s' where r: "redeem k' c now s = (ok, s')" by force
    then have s': "s' = drop_key k' now s" using redeem_state [of k' c now s] by simp
    show ?thesis
    proof (cases "k' = k \<and> ok")
      case True
      then have "\<not> has s' k" by (simp add: s' has_drop)
      with Cons x have "redeemed put sweep redeem k ops s' = 0" by (simp add: redeemed_absent)
      with r x Redeem show ?thesis by (simp add: Let_def)
    next
      case False
      with Cons r x Redeem show ?thesis by (auto simp: Let_def)
    qed
  qed (use Cons x in auto)
qed simp

end

end
