(* ===== verification/Strings.thy ===== *)
theory Strings
  imports Prelude
begin

text \<open>
  What the program uses of packages \<^verbatim>\<open>strings\<close>, \<^verbatim>\<open>strconv\<close> and
  \<^verbatim>\<open>encoding/hex\<close>, on strings as lists of bytes: trimming, searching, splitting,
  lower case, decimal and hexadecimal text. The round trips of the decimal and of the
  hexadecimal forms, and the facts on the last occurrence of a separator, are what the
  cookie formats rest on.
\<close>

subsection \<open>Bytes and characters\<close>

definition byte_of :: "char \<Rightarrow> u8" where "byte_of c = word_of_nat (of_char c)"

definition chr_of :: "u8 \<Rightarrow> char" where "chr_of w = char_of (unat w)"

definition bytes_of :: "string \<Rightarrow> u8 list" where "bytes_of s = map byte_of s"

definition string_of :: "u8 list \<Rightarrow> string" where "string_of bs = map chr_of bs"

lemma of_char_less [simp]: "(of_char c :: nat) < 256"
  by (metis of_char_mod_256 mod_less_divisor zero_less_numeral)

lemma chr_of_byte_of [simp]: "chr_of (byte_of c) = c"
  by (simp add: chr_of_def byte_of_def unat_of_nat)

lemma unat_u8_less [simp]: "unat (w :: u8) < 256"
proof -
  have "unat w < 2 ^ LENGTH(8)" by (rule unsigned_less)
  then show ?thesis by simp
qed

lemma byte_of_chr_of [simp]: "byte_of (chr_of w) = w"
  by (simp add: chr_of_def byte_of_def)

lemma string_of_bytes_of [simp]: "string_of (bytes_of s) = s"
  by (simp add: string_of_def bytes_of_def o_def)

lemma bytes_of_string_of [simp]: "bytes_of (string_of bs) = bs"
  by (simp add: string_of_def bytes_of_def o_def)

lemma bytes_of_inject [simp]: "bytes_of s = bytes_of t \<longleftrightarrow> s = t"
  by (metis string_of_bytes_of)

subsection \<open>TrimSpace, TrimRight, TrimPrefix\<close>

text \<open>The UTF-8 encodings of the characters \<^verbatim>\<open>unicode.IsSpace\<close> accepts.\<close>

definition space_runes :: "string list" where
  "space_runes = [[CHR 0x20], [CHR 0x09], [CHR 0x0A], [CHR 0x0B], [CHR 0x0C], [CHR 0x0D],
     [CHR 0xC2, CHR 0x85], [CHR 0xC2, CHR 0xA0], [CHR 0xE1, CHR 0x9A, CHR 0x80]]
   @ map (\<lambda>n. [CHR 0xE2, CHR 0x80, char_of n]) ([128..<139] @ [168, 169, 175 :: nat])
   @ [[CHR 0xE2, CHR 0x81, CHR 0x9F], [CHR 0xE3, CHR 0x80, CHR 0x80]]"

lemma space_runes_nonempty: "p \<in> set space_runes \<Longrightarrow> p \<noteq> []"
  by (auto simp: space_runes_def)

fun trim_with :: "string list \<Rightarrow> nat \<Rightarrow> string \<Rightarrow> string" where
  "trim_with ps 0 s = s"
| "trim_with ps (Suc n) s =
     (case find (\<lambda>p. prefix p s) ps of None \<Rightarrow> s | Some p \<Rightarrow> trim_with ps n (drop (length p) s))"

definition trim_left_space :: "string \<Rightarrow> string" where
  "trim_left_space s = trim_with space_runes (length s) s"

definition trim_right_space :: "string \<Rightarrow> string" where
  "trim_right_space s = rev (trim_with (map rev space_runes) (length s) (rev s))"

definition trim_space :: "string \<Rightarrow> string" where
  "trim_space s = trim_right_space (trim_left_space s)"

definition trim_right_char :: "char \<Rightarrow> string \<Rightarrow> string" where
  "trim_right_char c s = rev (dropWhile (\<lambda>x. x = c) (rev s))"

definition trim_prefix :: "string \<Rightarrow> string \<Rightarrow> string" where
  "trim_prefix p s = (if prefix p s then drop (length p) s else s)"

lemma trim_space_Nil [simp]: "trim_space [] = []"
  by (simp add: trim_space_def trim_left_space_def trim_right_space_def)

text \<open>Text of visible ASCII characters has nothing to trim.\<close>

definition visible :: "char \<Rightarrow> bool" where
  "visible c \<longleftrightarrow> (let n = of_char c :: nat in 33 \<le> n \<and> n \<le> 126)"

lemma trim_with_stop:
  assumes "\<forall>p\<in>set ps. \<not> prefix p s"
  shows "trim_with ps n s = s"
proof -
  have "find (\<lambda>p. prefix p s) ps = None" using assms by (auto simp: find_None_iff)
  then show ?thesis by (cases n) simp_all
qed

lemma space_rune_ends: "p \<in> set space_runes \<Longrightarrow> \<not> visible (hd p) \<and> \<not> visible (last p)"
  unfolding space_runes_def by (auto simp: visible_def upt_rec)

lemma trim_visible:
  assumes "\<forall>c\<in>set s. visible c"
  shows "trim_space s = s"
proof -
  have "\<not> prefix p s" if "p \<in> set space_runes" for p
  proof
    assume "prefix p s"
    with space_runes_nonempty [OF that] have "hd p \<in> set s" by (metis hd_in_set set_mono_prefix subsetD)
    with assms space_rune_ends [OF that] show False by blast
  qed
  moreover have "\<not> prefix p (rev s)" if p: "p \<in> set (map rev space_runes)" for p
  proof
    assume "prefix p (rev s)"
    moreover obtain q where q: "q \<in> set space_runes" "p = rev q" using p by auto
    ultimately have "last q \<in> set s"
      using space_runes_nonempty [OF q(1)] by (metis hd_in_set hd_rev rev_is_Nil_conv set_mono_prefix set_rev subsetD)
    with assms space_rune_ends [OF q(1)] show False by blast
  qed
  ultimately show ?thesis
    by (simp add: trim_space_def trim_left_space_def trim_right_space_def trim_with_stop)
qed

text \<open>Trimming keeps the visible characters.\<close>

lemma space_rune_invisible: "p \<in> set space_runes \<Longrightarrow> c \<in> set p \<Longrightarrow> \<not> visible c"
  unfolding space_runes_def by (auto simp: visible_def upt_rec)

lemma trim_with_keeps:
  assumes "\<And>p c. p \<in> set ps \<Longrightarrow> c \<in> set p \<Longrightarrow> \<not> visible c" "c \<in> set s" "visible c"
  shows "c \<in> set (trim_with ps n s)"
  using assms(2)
proof (induction n arbitrary: s)
  case (Suc n)
  show ?case
  proof (cases "find (\<lambda>p. prefix p s) ps")
    case (Some p)
    then have p: "p \<in> set ps" "prefix p s" by (auto simp: find_Some_iff)
    then obtain t where "s = p @ t" by (auto simp: prefix_def)
    with Suc.prems assms(1) [OF p(1)] assms(3) have "c \<in> set (drop (length p) s)" by auto
    with Some Suc.IH show ?thesis by simp
  qed (use Suc.prems in simp)
qed simp

lemma trim_keeps_visible: "c \<in> set s \<Longrightarrow> visible c \<Longrightarrow> c \<in> set (trim_space s)"
proof -
  assume "c \<in> set s" "visible c"
  then have "c \<in> set (trim_left_space s)"
    unfolding trim_left_space_def by (intro trim_with_keeps) (use space_rune_invisible in blast)
  then show "c \<in> set (trim_space s)"
    unfolding trim_space_def trim_right_space_def set_rev
    by (intro trim_with_keeps) (use space_rune_invisible \<open>visible c\<close> in auto)
qed

subsection \<open>Index, LastIndex, Contains, Split, Cut\<close>

fun index_of :: "char \<Rightarrow> string \<Rightarrow> nat option" where
  "index_of c [] = None"
| "index_of c (x # xs) = (if x = c then Some 0 else map_option Suc (index_of c xs))"

definition last_index :: "char \<Rightarrow> string \<Rightarrow> nat option" where
  "last_index c s = map_option (\<lambda>i. length s - 1 - i) (index_of c (rev s))"

fun contains_sub :: "string \<Rightarrow> string \<Rightarrow> bool" where
  "contains_sub p [] = (p = [])"
| "contains_sub p (x # xs) = (prefix p (x # xs) \<or> contains_sub p xs)"

fun split_on :: "char \<Rightarrow> string \<Rightarrow> string list" where
  "split_on c [] = [[]]"
| "split_on c (x # xs) =
     (if x = c then [] # split_on c xs
      else (case split_on c xs of [] \<Rightarrow> [[x]] | w # ws \<Rightarrow> (x # w) # ws))"

definition before_sep :: "char \<Rightarrow> string \<Rightarrow> string" where
  "before_sep c s = takeWhile (\<lambda>x. x \<noteq> c) s"

lemma index_of_None: "index_of c s = None \<longleftrightarrow> c \<notin> set s"
  by (induction s) auto

lemma index_of_append:
  "c \<notin> set p \<Longrightarrow> index_of c (p @ c # q) = Some (length p)"
  by (induction p) auto

lemma split_on_none: "c \<notin> set s \<Longrightarrow> split_on c s = [s]"
  by (induction s) auto

lemma split_on_at: "c \<notin> set s \<Longrightarrow> split_on c (s @ c # r) = s # split_on c r"
  by (induction s) auto

lemma takeWhile_sep: "c \<notin> set p \<Longrightarrow> takeWhile (\<lambda>x. x \<noteq> c) (p @ c # q) = p"
  by (induction p) auto

lemma sep_inject: "c \<notin> set p \<Longrightarrow> c \<notin> set p' \<Longrightarrow> p @ c # q = p' @ c # q' \<longleftrightarrow> p = p' \<and> q = q'"
  using takeWhile_sep [of c p q] takeWhile_sep [of c p' q'] by auto

lemma last_sep_inject:
  assumes "c \<notin> set q" "c \<notin> set q'" "p @ c # q = p' @ c # q'"
  shows "p = p' \<and> q = q'"
proof -
  have "rev q @ c # rev p = rev q' @ c # rev p'"
    using arg_cong [OF assms(3), of rev] by simp
  then show ?thesis using sep_inject [of c "rev q" "rev q'"] assms(1,2) by simp
qed

lemma last_index_None: "last_index c s = None \<longleftrightarrow> c \<notin> set s"
  by (simp add: last_index_def index_of_None)

lemma last_index_append:
  assumes "c \<notin> set q"
  shows "last_index c (p @ c # q) = Some (length p)"
proof -
  have "index_of c (rev (p @ c # q)) = Some (length q)"
    using index_of_append [of c "rev q" "rev p"] assms by simp
  then show ?thesis by (simp add: last_index_def)
qed

lemma contains_sub_iff: "contains_sub p s \<longleftrightarrow> (\<exists>a b. s = a @ p @ b)"
proof (induction s)
  case (Cons x xs)
  show ?case
  proof
    assume "contains_sub p (x # xs)"
    then consider "prefix p (x # xs)" | "contains_sub p xs" by auto
    then show "\<exists>a b. x # xs = a @ p @ b"
    proof cases
      case 1
      then obtain b where "x # xs = [] @ p @ b" by (auto simp: prefix_def)
      then show ?thesis by blast
    next
      case 2
      with Cons.IH obtain a b where "x # xs = (x # a) @ p @ b" by auto
      then show ?thesis by blast
    qed
  next
    assume "\<exists>a b. x # xs = a @ p @ b"
    then obtain a b where e: "x # xs = a @ p @ b" by blast
    show "contains_sub p (x # xs)"
    proof (cases a)
      case Nil
      with e have "prefix p (x # xs)" by (simp add: prefix_def)
      then show ?thesis by simp
    next
      case (Cons y ys)
      with e have "xs = ys @ p @ b" by simp
      with Cons.IH show ?thesis by auto
    qed
  qed
qed auto

subsection \<open>Lower case\<close>

text \<open>
  \<^verbatim>\<open>strings.ToLower\<close> maps code points. Seen through the ASCII bytes of the result, it
  maps \<^verbatim>\<open>A..Z\<close>, and the two non-ASCII characters whose lower case is ASCII: U+0130
  (bytes C4 B0) to \<^verbatim>\<open>i\<close> and U+212A (bytes E2 84 AA) to \<^verbatim>\<open>k\<close>. The other non-ASCII
  characters stay non-ASCII, and are kept as they are: no comparison with an ASCII pattern
  sees the difference.
\<close>

definition lower_char :: "char \<Rightarrow> char" where
  "lower_char c = (let n = of_char c :: nat in if 65 \<le> n \<and> n \<le> 90 then char_of (n + 32) else c)"

fun go_lower :: "string \<Rightarrow> string" where
  "go_lower [] = []"
| "go_lower (c # cs) =
     (if prefix [CHR 0xC4, CHR 0xB0] (c # cs) then CHR ''i'' # go_lower (drop 1 cs)
      else if prefix [CHR 0xE2, CHR 0x84, CHR 0xAA] (c # cs) then CHR ''k'' # go_lower (drop 2 cs)
      else lower_char c # go_lower cs)"

text \<open>
  \<^verbatim>\<open>strings.ToUpper\<close>, seen in the same way: the characters outside ASCII whose upper case is
  ASCII are U+0131 (bytes C4 B1, to \<^verbatim>\<open>I\<close>) and U+017F (bytes C5 BF, to \<^verbatim>\<open>S\<close>).
\<close>

definition upper_char :: "char \<Rightarrow> char" where
  "upper_char c = (let n = of_char c :: nat in if 97 \<le> n \<and> n \<le> 122 then char_of (n - 32) else c)"

fun go_upper :: "string \<Rightarrow> string" where
  "go_upper [] = []"
| "go_upper (c # cs) =
     (if prefix [CHR 0xC4, CHR 0xB1] (c # cs) then CHR ''I'' # go_upper (drop 1 cs)
      else if prefix [CHR 0xC5, CHR 0xBF] (c # cs) then CHR ''S'' # go_upper (drop 1 cs)
      else upper_char c # go_upper cs)"

subsection \<open>Fields, Join, Index of a substring\<close>

text \<open>
  \<^verbatim>\<open>strings.Fields\<close>: the first argument counts the bytes still to skip of a space that takes
  more than one, the second is the field read so far, reversed.
\<close>

definition field_done :: "string \<Rightarrow> string list" where
  "field_done w = (if w = [] then [] else [rev w])"

fun fields_loop :: "nat \<Rightarrow> string \<Rightarrow> string \<Rightarrow> string list" where
  "fields_loop k w [] = field_done w"
| "fields_loop (Suc k) w (c # cs) = fields_loop k w cs"
| "fields_loop 0 w (c # cs) =
     (case find (\<lambda>p. prefix p (c # cs)) space_runes of
        Some p \<Rightarrow> field_done w @ fields_loop (length p - 1) [] cs
      | None \<Rightarrow> fields_loop 0 (c # w) cs)"

definition go_fields :: "string \<Rightarrow> string list" where
  "go_fields s = fields_loop 0 [] s"

definition join_with :: "string \<Rightarrow> string list \<Rightarrow> string" where
  "join_with sep xs = (case xs of [] \<Rightarrow> [] | y # ys \<Rightarrow> y @ concat (map (\<lambda>z. sep @ z) ys))"

fun index_sub :: "string \<Rightarrow> string \<Rightarrow> nat option" where
  "index_sub p [] = (if p = [] then Some 0 else None)"
| "index_sub p (x # xs) = (if prefix p (x # xs) then Some 0 else map_option Suc (index_sub p xs))"

lemma join_with_Cons: "join_with sep (x # xs) = x @ (if xs = [] then [] else sep @ join_with sep xs)"
  by (cases xs) (simp_all add: join_with_def)

lemma no_space_prefix: "visible c \<Longrightarrow> find (\<lambda>p. prefix p (c # cs)) space_runes = None"
proof -
  assume c: "visible c"
  have "\<not> prefix p (c # cs)" if "p \<in> set space_runes" for p
    using c space_rune_ends [OF that] space_runes_nonempty [OF that] by (cases p) auto
  then show ?thesis by (simp add: find_None_iff)
qed

lemma fields_word: "\<forall>c\<in>set v. visible c \<Longrightarrow> fields_loop 0 w (v @ r) = fields_loop 0 (rev v @ w) r"
proof (induction v arbitrary: w)
  case (Cons c v)
  then have "fields_loop 0 w ((c # v) @ r) = fields_loop 0 (c # w) (v @ r)"
    using no_space_prefix [of c "v @ r"] by simp
  with Cons show ?case by simp
qed simp

lemma fields_space: "fields_loop 0 w (CHR '' '' # r) = field_done w @ fields_loop 0 [] r"
  by (simp add: space_runes_def)

text \<open>Words of visible characters joined by a space are read back.\<close>

lemma fields_join:
  assumes "\<forall>w\<in>set ws. w \<noteq> [] \<and> (\<forall>c\<in>set w. visible c)"
  shows "go_fields (join_with '' '' ws) = ws"
  using assms unfolding go_fields_def
proof (induction ws)
  case (Cons w ws)
  then show ?case
    using fields_word [of w "[]" "if ws = [] then [] else '' '' @ join_with '' '' ws"]
    by (auto simp: join_with_Cons fields_space field_done_def simp del: fields_loop.simps(3))
qed (simp add: join_with_def field_done_def)

lemma fields_join_suffix:
  assumes "\<forall>w\<in>set ws. w \<noteq> [] \<and> (\<forall>c\<in>set w. visible c)"
  shows "go_fields (join_with '' '' ws @ '' '' @ r) = ws @ go_fields r"
  using assms unfolding go_fields_def
proof (induction ws)
  case Nil
  then show ?case by (simp add: join_with_def fields_space field_done_def del: fields_loop.simps)
next
  case (Cons w ws)
  then have IH: "fields_loop 0 [] (join_with '' '' ws @ '' '' @ r) = ws @ fields_loop 0 [] r" by simp
  show ?case
  proof (cases "ws = []")
    case True
    then show ?thesis using Cons.prems fields_word [of w "[]" "'' '' @ r"]
      by (simp add: join_with_Cons fields_space field_done_def del: fields_loop.simps(3))
  next
    case False
    then show ?thesis using Cons.prems fields_word [of w "[]" "'' '' @ join_with '' '' ws @ '' '' @ r"] IH
      by (simp add: join_with_Cons fields_space field_done_def del: fields_loop.simps(3))
  qed
qed

text \<open>A text that begins and ends with a visible character has nothing to trim.\<close>

lemma join_chars:
  "\<forall>w\<in>set ws. \<forall>c\<in>set w. visible c \<Longrightarrow> c \<in> set (join_with '' '' ws) \<Longrightarrow> visible c \<or> c = CHR '' ''"
  by (induction ws) (auto simp: join_with_Cons join_with_def split: if_splits)

lemma join_ends:
  "ws \<noteq> [] \<Longrightarrow> \<forall>w\<in>set ws. w \<noteq> [] \<and> (\<forall>c\<in>set w. visible c) \<Longrightarrow>
     join_with '' '' ws \<noteq> [] \<and> visible (hd (join_with '' '' ws)) \<and> visible (last (join_with '' '' ws))"
proof (induction ws)
  case (Cons w ws)
  then have "w \<noteq> []" "visible (hd w)" "visible (last w)" by simp_all
  with Cons show ?case by (cases "ws = []") (simp_all add: join_with_Cons)
qed simp

lemma visible_no_prefix:
  assumes "s \<noteq> []" "visible (hd s)" "p \<in> set space_runes"
  shows "\<not> prefix p s"
  using space_rune_ends [OF assms(3)] space_runes_nonempty [OF assms(3)] assms(1,2) by (cases p; cases s) auto

lemma trim_ends:
  assumes "s \<noteq> []" "visible (hd s)" "visible (last s)"
  shows "trim_space s = s"
proof -
  have "\<not> prefix p s" if "p \<in> set space_runes" for p
    using visible_no_prefix [OF assms(1,2) that] .
  moreover have "\<not> prefix p (rev s)" if "p \<in> set (map rev space_runes)" for p
  proof -
    from that obtain q where q: "q \<in> set space_runes" "p = rev q" by auto
    have "last q = last s" if "prefix (rev q) (rev s)"
      using that space_runes_nonempty [OF q(1)] by (auto simp: prefix_def hd_rev [symmetric])
    with space_rune_ends [OF q(1)] assms(3) q(2) show ?thesis by auto
  qed
  ultimately show ?thesis
    by (simp add: trim_space_def trim_left_space_def trim_right_space_def trim_with_stop)
qed

lemma trim_space_first:
  assumes "s \<noteq> []" "visible (hd s)" "visible (last s)"
  shows "trim_space (CHR '' '' # s) = s"
proof -
  have stop: "trim_with space_runes n s = s" for n
    by (rule trim_with_stop) (use visible_no_prefix [OF assms(1,2)] in blast)
  have "find (\<lambda>p. prefix p (CHR '' '' # s)) space_runes = Some '' ''" by (simp add: space_runes_def)
  then have "trim_space (CHR '' '' # s) = trim_space s"
    by (simp add: trim_space_def trim_left_space_def stop)
  with trim_ends [OF assms] show ?thesis by simp
qed

subsection \<open>Decimal text\<close>

definition digit_char :: "int \<Rightarrow> char" where "digit_char d = char_of (48 + d)"

definition digit_val :: "char \<Rightarrow> int option" where
  "digit_val c = (let n = of_char c in if 48 \<le> n \<and> n \<le> 57 then Some (n - 48) else None)"

function fmt_nat :: "int \<Rightarrow> string" where
  "fmt_nat n = (if n < 10 then [digit_char n] else fmt_nat (n div 10) @ [digit_char (n mod 10)])"
  by pat_completeness auto
termination
  by (relation "measure nat") auto

declare fmt_nat.simps [simp del]

text \<open>\<^verbatim>\<open>strconv.FormatInt(n, 10)\<close>, and the \<^verbatim>\<open>%d\<close> of \<^verbatim>\<open>fmt\<close>.\<close>

definition fmt_int :: "int \<Rightarrow> string" where
  "fmt_int n = (if n < 0 then CHR ''-'' # fmt_nat (- n) else fmt_nat n)"

fun digits_acc :: "int \<Rightarrow> string \<Rightarrow> int option" where
  "digits_acc acc [] = Some acc"
| "digits_acc acc (c # cs) =
     (case digit_val c of None \<Rightarrow> None | Some d \<Rightarrow> digits_acc (10 * acc + d) cs)"

definition parse_digits :: "string \<Rightarrow> int option" where
  "parse_digits s = (if s = [] then None else digits_acc 0 s)"

text \<open>
  \<^verbatim>\<open>strconv.ParseInt(s, 10, 64)\<close> and \<^verbatim>\<open>strconv.Atoi\<close>: an optional sign, at least one
  digit, nothing else, and a value of 64 bits; anything else is an error.
\<close>

definition parse_sign :: "string \<Rightarrow> bool \<times> string" where
  "parse_sign s = (case s of [] \<Rightarrow> (False, [])
     | c # r \<Rightarrow> if c = CHR ''-'' then (True, r) else if c = CHR ''+'' then (False, r) else (False, s))"

definition parse_int64 :: "string \<Rightarrow> int option" where
  "parse_int64 s =
     (let (neg, ds) = parse_sign s
      in case parse_digits ds of
           None \<Rightarrow> None
         | Some n \<Rightarrow> (let v = (if neg then - n else n) in if in_i64 v then Some v else None))"

lemma of_char_char_of_int:
  assumes "0 \<le> (n::int)" "n < 256"
  shows "of_char (char_of n :: char) = n"
  using assms by (simp add: take_bit_int_eq_self)

lemma digit_val_digit_char [simp]: "0 \<le> d \<Longrightarrow> d < 10 \<Longrightarrow> digit_val (digit_char d) = Some d"
  by (simp add: digit_val_def digit_char_def of_char_char_of_int)

lemma digits_acc_append:
  "digits_acc acc (xs @ ys) = (case digits_acc acc xs of None \<Rightarrow> None | Some a \<Rightarrow> digits_acc a ys)"
  by (induction xs arbitrary: acc) (auto split: option.splits)

lemma fmt_nat_nonempty [simp]: "fmt_nat n \<noteq> []"
  by (subst fmt_nat.simps) simp

lemma digits_acc_fmt_nat: "0 \<le> n \<Longrightarrow> digits_acc 0 (fmt_nat n) = Some n"
proof (induction n rule: fmt_nat.induct)
  case (1 n)
  show ?case
  proof (cases "n < 10")
    case True
    with 1 show ?thesis by (subst fmt_nat.simps) simp
  next
    case False
    with 1 have "digits_acc 0 (fmt_nat (n div 10)) = Some (n div 10)" by simp
    with False show ?thesis by (subst fmt_nat.simps) (simp add: digits_acc_append)
  qed
qed

lemma parse_digits_fmt_nat [simp]: "0 \<le> n \<Longrightarrow> parse_digits (fmt_nat n) = Some n"
  by (simp add: parse_digits_def digits_acc_fmt_nat)

lemma fmt_nat_digits: "0 \<le> n \<Longrightarrow> c \<in> set (fmt_nat n) \<Longrightarrow> \<exists>d. 0 \<le> d \<and> d < 10 \<and> c = digit_char d"
proof (induction n rule: fmt_nat.induct)
  case (1 n)
  show ?case
  proof (cases "n < 10")
    case True
    with "1.prems" show ?thesis by (subst (asm) fmt_nat.simps) auto
  next
    case False
    with "1.prems" have "c \<in> set (fmt_nat (n div 10)) \<or> c = digit_char (n mod 10)"
      by (subst (asm) fmt_nat.simps) auto
    moreover have "0 \<le> n mod 10 \<and> n mod 10 < 10" by simp
    moreover have "0 \<le> n div 10" using "1.prems" by simp
    ultimately show ?thesis using False "1.IH" by blast
  qed
qed

lemma digit_char_neq:
  "0 \<le> d \<Longrightarrow> d < 10 \<Longrightarrow> digit_char d \<noteq> CHR '':''" "0 \<le> d \<Longrightarrow> d < 10 \<Longrightarrow> digit_char d \<noteq> CHR ''-''"
  "0 \<le> d \<Longrightarrow> d < 10 \<Longrightarrow> digit_char d \<noteq> CHR ''+''" "0 \<le> d \<Longrightarrow> d < 10 \<Longrightarrow> digit_char d \<noteq> CHR ''/''"
  by (auto simp: digit_char_def take_bit_int_eq_self
      dest!: arg_cong [where f = "of_char :: char \<Rightarrow> int"])

lemma colon_not_in_fmt_nat: "0 \<le> n \<Longrightarrow> CHR '':'' \<notin> set (fmt_nat n)"
  using fmt_nat_digits digit_char_neq(1) by metis

lemma fmt_int_no_colon: "CHR '':'' \<notin> set (fmt_int n)"
  by (simp add: fmt_int_def colon_not_in_fmt_nat)

text \<open>Printing and reading a 64-bit number in decimal are inverse.\<close>

lemma parse_fmt_int: "in_i64 n \<Longrightarrow> parse_int64 (fmt_int n) = Some n"
proof (cases "n < 0")
  case True
  moreover assume "in_i64 n"
  ultimately show ?thesis by (simp add: parse_int64_def fmt_int_def parse_sign_def)
next
  case False
  moreover assume "in_i64 n"
  moreover obtain c r where f: "fmt_nat n = c # r" by (metis fmt_nat_nonempty neq_Nil_conv)
  moreover obtain d where "0 \<le> d" "d < 10" "c = digit_char d"
    using fmt_nat_digits [of n c] False f by auto
  then have "parse_sign (c # r) = (False, c # r)"
    by (simp add: parse_sign_def digit_char_neq)
  moreover have "parse_digits (c # r) = Some n"
    using parse_digits_fmt_nat [of n] False f by simp
  ultimately show ?thesis by (simp add: parse_int64_def fmt_int_def)
qed

end
