(* ===== verification/Ban.thy ===== *)
theory Ban
  imports Contracts Strings "HOL-Library.AList"
begin

text \<open>
  The ban engine, \<^verbatim>\<open>internal/client/ban/engine.go\<close>: a map from IP to ban entry, and the
  blocklist file the XDP programs are loaded from. The map is an association list with
  distinct keys, whose order is the (unspecified) order in which Go ranges over the map: the
  properties speak of sets of lines only. The file system is part of the state: whether the
  file can be opened and how many lines can be written before an error. A failure of either
  is logged and dropped by the code.
\<close>

record ban_entry =
  be_ip :: string
  be_expires :: gotime
  be_reason :: string

record disk =
  open_ok :: bool
  writable :: nat
  blocklist :: "string list"

record ban_engine =
  ban_store :: "(string \<times> ban_entry) list"
  blocklist_path :: string
  sync_command :: "string list"
  ban_disk :: disk
  sync_runs :: nat

datatype sync_result = Sync_skipped | Sync_ran

definition new_ban_engine :: "string \<Rightarrow> string list \<Rightarrow> disk \<Rightarrow> ban_engine" where
  "new_ban_engine path cmd d =
     \<lparr>ban_store = [], blocklist_path = path, sync_command = cmd, ban_disk = d, sync_runs = 0\<rparr>"

definition block_line :: "string \<Rightarrow> string" where
  "block_line ip = ip @ ''/32'' @ [CHR 0x0A]"

definition expired_at :: "gotime \<Rightarrow> ban_entry \<Rightarrow> bool" where
  "expired_at now e = time_after now (be_expires e)"

text \<open>
  The sync command, already split into fields, is started when there is one; its exit status
  and its one-second timeout only choose the text of the log line.
\<close>

definition sync_to_xdp :: "ban_engine \<Rightarrow> sync_result \<times> ban_engine" where
  "sync_to_xdp e = (if sync_command e = [] then (Sync_skipped, e)
     else (Sync_ran, e\<lparr>sync_runs := Suc (sync_runs e)\<rparr>))"

definition append_to_blocklist :: "string \<Rightarrow> ban_engine \<Rightarrow> ban_engine" where
  "append_to_blocklist ip e =
     (if blocklist_path e = [] then e
      else if \<not> open_ok (ban_disk e) then e
      else if writable (ban_disk e) = 0 then e
      else e\<lparr>ban_disk := (ban_disk e)\<lparr>blocklist := blocklist (ban_disk e) @ [block_line ip]\<rparr>\<rparr>)"

definition rebuild_blocklist :: "gotime \<Rightarrow> ban_engine \<Rightarrow> ban_engine" where
  "rebuild_blocklist now e =
     (if blocklist_path e = [] then e
      else
        let lines = map (\<lambda>(k, b). block_line (be_ip b)) (filter (\<lambda>(k, b). \<not> expired_at now b) (ban_store e))
        in if \<not> open_ok (ban_disk e) then e
           else e\<lparr>ban_disk := (ban_disk e)\<lparr>blocklist := take (writable (ban_disk e)) lines\<rparr>\<rparr>)"

definition is_banned :: "string \<Rightarrow> gotime \<Rightarrow> ban_engine \<Rightarrow> bool \<times> ban_engine" where
  "is_banned ip now e =
     (case map_of (ban_store e) ip of
        None \<Rightarrow> (False, e)
      | Some b \<Rightarrow> if expired_at now b then (False, e\<lparr>ban_store := AList.delete ip (ban_store e)\<rparr>)
                  else (True, e))"

definition ban :: "string \<Rightarrow> duration \<Rightarrow> string \<Rightarrow> gotime \<Rightarrow> ban_engine \<Rightarrow> ban_engine" where
  "ban ip d reason now e =
     (let entry = \<lparr>be_ip = ip, be_expires = time_add now d, be_reason = reason\<rparr>;
          e1 = e\<lparr>ban_store := AList.update ip entry (ban_store e)\<rparr>;
          e2 = append_to_blocklist ip e1
      in snd (sync_to_xdp e2))"

definition unban :: "string \<Rightarrow> gotime \<Rightarrow> ban_engine \<Rightarrow> ban_engine" where
  "unban ip now e =
     (let e1 = e\<lparr>ban_store := AList.delete ip (ban_store e)\<rparr>
      in snd (sync_to_xdp (rebuild_blocklist now e1)))"

text \<open>\<open>now\<close> is the clock read by the loop, \<open>now'\<close> the one read by the rebuild.\<close>

definition cleanup_expired :: "gotime \<Rightarrow> gotime \<Rightarrow> ban_engine \<Rightarrow> ban_engine" where
  "cleanup_expired now now' e =
     (let e1 = e\<lparr>ban_store := filter (\<lambda>(k, b). \<not> expired_at now b) (ban_store e)\<rparr>
      in snd (sync_to_xdp (rebuild_blocklist now' e1)))"

definition get_ban_entry :: "string \<Rightarrow> gotime \<Rightarrow> ban_engine \<Rightarrow> ban_entry option" where
  "get_ban_entry ip now e =
     (case map_of (ban_store e) ip of
        None \<Rightarrow> None
      | Some b \<Rightarrow> if expired_at now b then None else Some b)"

definition banned_count :: "gotime \<Rightarrow> ban_engine \<Rightarrow> nat" where
  "banned_count now e = length (filter (\<lambda>(k, b). \<not> expired_at now b) (ban_store e))"

subsection \<open>Well-formedness\<close>

definition ban_inv :: "ban_engine \<Rightarrow> bool" where
  "ban_inv e \<longleftrightarrow> distinct (map fst (ban_store e)) \<and> (\<forall>(k, b)\<in>set (ban_store e). be_ip b = k)"

lemma map_of_filter_vals:
  "distinct (map fst al) \<Longrightarrow> map_of (filter (\<lambda>(k, v). P v) al) = map_keep P (map_of al)"
proof (induction al)
  case (Cons kv al)
  obtain k v where kv: "kv = (k, v)" by force
  with Cons.prems have "map_of al k = None" by (auto simp: map_of_eq_None_iff)
  with Cons kv show ?case
    by (auto simp: fun_eq_iff map_keep_def split: option.splits)
qed (simp add: fun_eq_iff map_keep_def)

lemma sync_frame [simp]:
  "ban_store (snd (sync_to_xdp e)) = ban_store e"
  "ban_disk (snd (sync_to_xdp e)) = ban_disk e"
  "blocklist_path (snd (sync_to_xdp e)) = blocklist_path e"
  by (simp_all add: sync_to_xdp_def)

lemma file_frame [simp]:
  "ban_store (append_to_blocklist ip e) = ban_store e"
  "ban_store (rebuild_blocklist now e) = ban_store e"
  "blocklist_path (append_to_blocklist ip e) = blocklist_path e"
  "blocklist_path (rebuild_blocklist now e) = blocklist_path e"
  by (simp_all add: append_to_blocklist_def rebuild_blocklist_def Let_def)

lemma ban_store_ban [simp]:
  "ban_store (ban ip d r now e) =
     AList.update ip \<lparr>be_ip = ip, be_expires = now + d, be_reason = r\<rparr> (ban_store e)"
  by (simp add: ban_def Let_def time_add_def)

lemma ban_store_unban [simp]: "ban_store (unban ip now e) = AList.delete ip (ban_store e)"
  by (simp add: unban_def Let_def)

lemma ban_store_cleanup [simp]:
  "ban_store (cleanup_expired now now' e) = filter (\<lambda>(k, b). \<not> expired_at now b) (ban_store e)"
  by (simp add: cleanup_expired_def Let_def)

lemma ban_inv_delete: "ban_inv e \<Longrightarrow> ban_store e' = AList.delete ip (ban_store e) \<Longrightarrow> ban_inv e'"
  by (auto simp: ban_inv_def AList.delete_eq distinct_map_filter)

lemma ban_inv_ban: "ban_inv e \<Longrightarrow> ban_inv (ban ip d r now e)"
proof -
  assume i: "ban_inv e"
  let ?al = "AList.update ip \<lparr>be_ip = ip, be_expires = now + d, be_reason = r\<rparr> (ban_store e)"
  from i have d: "distinct (map fst ?al)" by (simp add: ban_inv_def distinct_update)
  have "be_ip b = k" if "(k, b) \<in> set ?al" for k b
  proof -
    from that d have "map_of ?al k = Some b" by (simp add: map_of_is_SomeI)
    then have "(if k = ip then Some \<lparr>be_ip = ip, be_expires = now + d, be_reason = r\<rparr>
        else map_of (ban_store e) k) = Some b"
      by (simp add: update_conv' split: if_splits)
    with i show ?thesis
      by (auto simp: ban_inv_def dest: map_of_SomeD split: if_splits)
  qed
  with d show ?thesis by (auto simp: ban_inv_def)
qed

lemma ban_inv_cleanup: "ban_inv e \<Longrightarrow> ban_inv (cleanup_expired now now' e)"
  by (auto simp: ban_inv_def distinct_map_filter)

lemma ban_inv_unban: "ban_inv e \<Longrightarrow> ban_inv (unban ip now e)"
  by (rule ban_inv_delete) simp_all

lemma ban_inv_is_banned: "ban_inv e \<Longrightarrow> ban_inv (snd (is_banned ip now e))"
  by (auto simp: is_banned_def split: option.splits intro: ban_inv_delete)

lemma ban_inv_new: "ban_inv (new_ban_engine p c d)"
  by (simp add: ban_inv_def new_ban_engine_def)

lemma is_banned_iff:
  "fst (is_banned ip now e) \<longleftrightarrow> (\<exists>b. map_of (ban_store e) ip = Some b \<and> now \<le> be_expires b)"
  by (auto simp: is_banned_def expired_at_def time_after_def split: option.splits)

lemma get_ban_entry_iff: "fst (is_banned ip now e) \<longleftrightarrow> get_ban_entry ip now e \<noteq> None"
  by (auto simp: is_banned_def get_ban_entry_def split: option.splits)

subsection \<open>The ban store is an expiring store\<close>

definition put_ban :: "string \<Rightarrow> duration \<times> string \<Rightarrow> gotime \<Rightarrow> ban_engine \<Rightarrow> ban_engine" where
  "put_ban ip dr now e = ban ip (fst dr) (snd dr) now e"

definition look_up :: "string \<Rightarrow> gotime \<Rightarrow> ban_engine \<Rightarrow> ban_engine" where
  "look_up ip now e = snd (is_banned ip now e)"

definition ban_run :: "(gotime \<times> (string, duration \<times> string) store_op) list \<Rightarrow> ban_engine \<Rightarrow> ban_engine" where
  "ban_run = store_run put_ban (\<lambda>now. cleanup_expired now now) unban look_up"

lemma look_up_live:
  "now \<le> t \<Longrightarrow> fst (is_banned k t (look_up k' now e)) = fst (is_banned k t e)"
  by (auto simp: look_up_def is_banned_def expired_at_def time_after_def delete_conv'
      split: option.splits)

interpretation bans: expiring_store
  "\<lambda>e ip t. fst (is_banned ip t e)" put_ban "\<lambda>now. cleanup_expired now now" unban look_up
  "\<lambda>dr now. now + fst dr" ban_inv
proof (unfold_locales, goal_cases)
  case (3 s now t k)
  then show ?case
    by (auto simp: is_banned_iff map_of_filter_vals ban_inv_def expired_at_def time_after_def)
next
  case (6 s now t k' k)
  then show ?case by (simp add: look_up_live)
next
  case (10 s k now)
  then show ?case by (simp add: look_up_def ban_inv_is_banned)
qed (simp_all add: is_banned_iff put_ban_def update_conv' delete_conv' ban_inv_ban
       ban_inv_cleanup ban_inv_unban)

text \<open>
  C5. An address banned for \<open>d\<close> nanoseconds is banned at exactly the instants up to
  \<open>now + d\<close>, whatever bans and unbans of other addresses, cleanups and look-ups of any
  address are interleaved: no cleanup or lazy deletion ends a ban early, none keeps it alive.
\<close>

theorem ban_lasts_exactly:
  assumes "ban_inv e"
    and "\<forall>(now', op) \<in> set ops. now' \<le> t \<and> (\<forall>dr. op \<noteq> Put ip dr) \<and> op \<noteq> Drop ip"
  shows "fst (is_banned ip t (ban_run ops (ban ip d reason now e))) \<longleftrightarrow> t \<le> now + d"
  using bans.live_after_put [OF assms, of "(d, reason)" now]
  by (simp add: ban_run_def put_ban_def)

theorem ban_lasts_exactly_witness:
  "fst (is_banned ''10.0.0.1'' 50
     (ban_run [(20, Put ''10.0.0.2'' (1, ''x'')), (30, Sweep), (30, Look ''10.0.0.1'')]
       (ban ''10.0.0.1'' 60 ''flood'' 10 (new_ban_engine ''bl'' [] \<lparr>open_ok = True, writable = 9, blocklist = []\<rparr>))))
   \<longleftrightarrow> (50::int) \<le> 10 + 60"
  by (rule ban_lasts_exactly) (simp_all add: ban_inv_new)

subsection \<open>The blocklist file\<close>

definition live_ips :: "gotime \<Rightarrow> ban_engine \<Rightarrow> string set" where
  "live_ips t e = {ip. fst (is_banned ip t e)}"

definition disk_works :: "ban_engine \<Rightarrow> bool" where
  "disk_works e \<longleftrightarrow> blocklist_path e \<noteq> [] \<and> open_ok (ban_disk e) \<and>
     length (ban_store e) < writable (ban_disk e)"

definition file_covers :: "gotime \<Rightarrow> ban_engine \<Rightarrow> bool" where
  "file_covers t e \<longleftrightarrow> block_line ` live_ips t e \<subseteq> set (blocklist (ban_disk e))"

lemma live_ips_alt:
  "ban_inv e \<Longrightarrow> live_ips t e = (\<lambda>(k, b). be_ip b) ` {(k, b) \<in> set (ban_store e). \<not> expired_at t b}"
  by (force simp: live_ips_def is_banned_iff ban_inv_def expired_at_def time_after_def
      dest: map_of_SomeD)

lemma rebuild_lines:
  assumes "ban_inv e" "disk_works e"
  shows "set (blocklist (ban_disk (rebuild_blocklist now e))) = block_line ` live_ips now e"
proof -
  let ?l = "filter (\<lambda>(k, b). \<not> expired_at now b) (ban_store e)"
  have "length ?l \<le> length (ban_store e)" by (rule length_filter_le)
  then have "length ?l \<le> writable (ban_disk e)"
    using assms(2) unfolding disk_works_def by linarith
  then show ?thesis
    using assms by (auto simp: rebuild_blocklist_def disk_works_def live_ips_alt image_iff split_def)
qed

lemma ban_disk_ban:
  "ban_disk (ban ip d r now e) = ban_disk (append_to_blocklist ip e)"
  "append_to_blocklist ip (e\<lparr>ban_store := al\<rparr>) = (append_to_blocklist ip e)\<lparr>ban_store := al\<rparr>"
  by (simp_all add: ban_def append_to_blocklist_def sync_to_xdp_def Let_def)

lemma live_ips_unban: "live_ips t (unban ip now e) = live_ips t e - {ip}"
  by (auto simp: live_ips_def is_banned_iff delete_conv')

lemma live_ips_cleanup:
  "ban_inv e \<Longrightarrow> now \<le> t \<Longrightarrow> live_ips t (cleanup_expired now now' e) = live_ips t e"
  by (auto simp: live_ips_def is_banned_iff map_of_filter_vals ban_inv_def expired_at_def
      time_after_def)

lemma ban_disk_unban:
  "ban_disk (unban ip now e) = ban_disk (rebuild_blocklist now (e\<lparr>ban_store := AList.delete ip (ban_store e)\<rparr>))"
  by (simp add: unban_def Let_def)

lemma ban_disk_cleanup:
  "ban_disk (cleanup_expired now now' e) = ban_disk (rebuild_blocklist now'
     (e\<lparr>ban_store := filter (\<lambda>(k, b). \<not> expired_at now b) (ban_store e)\<rparr>))"
  by (simp add: cleanup_expired_def Let_def)

lemma disk_works_shrink:
  "disk_works e \<Longrightarrow> length al \<le> length (ban_store e) \<Longrightarrow> disk_works (e\<lparr>ban_store := al\<rparr>)"
  by (simp add: disk_works_def)

text \<open>
  With a disk that takes the lines, the file holds exactly the lines of the addresses
  banned at that instant, after an \<open>Unban\<close> and after a periodic cleanup: no ban is lost
  and no lifted or expired one stays.
\<close>

theorem rewritten_blocklist_exact:
  assumes "ban_inv e" "disk_works e"
  shows "set (blocklist (ban_disk (unban ip now e))) = block_line ` (live_ips now e - {ip}) \<and>
    set (blocklist (ban_disk (cleanup_expired now now e))) = block_line ` live_ips now e"
proof -
  let ?u = "e\<lparr>ban_store := AList.delete ip (ban_store e)\<rparr>"
  let ?c = "e\<lparr>ban_store := filter (\<lambda>(k, b). \<not> expired_at now b) (ban_store e)\<rparr>"
  have "ban_inv ?u" using assms(1) by (rule ban_inv_delete) simp
  moreover have "ban_inv ?c" using assms(1) by (auto simp: ban_inv_def distinct_map_filter)
  moreover have "disk_works ?u" "disk_works ?c"
    by (rule disk_works_shrink [OF assms(2)], simp add: length_delete_le)+
  moreover have "live_ips now ?u = live_ips now e - {ip}"
    using live_ips_unban [of now ip now e] by (simp add: live_ips_def is_banned_iff)
  moreover have "live_ips now ?c = live_ips now e"
    using live_ips_cleanup [OF assms(1), of now now now] by (simp add: live_ips_def is_banned_iff)
  ultimately show ?thesis by (simp only: ban_disk_unban ban_disk_cleanup rebuild_lines)
qed

definition demo_bans :: ban_engine where
  "demo_bans = ban ''10.0.0.1'' 60 ''flood'' 10
     (new_ban_engine ''bl'' [] \<lparr>open_ok = True, writable = 9, blocklist = []\<rparr>)"

lemma demo_bans_ok: "ban_inv demo_bans" "disk_works demo_bans" "file_covers t demo_bans"
proof -
  show "ban_inv demo_bans" by (simp add: demo_bans_def ban_inv_ban ban_inv_new)
  show "disk_works demo_bans"
    by (simp add: demo_bans_def disk_works_def new_ban_engine_def ban_def append_to_blocklist_def
        sync_to_xdp_def)
  show "file_covers t demo_bans"
    by (auto simp: demo_bans_def file_covers_def live_ips_def is_banned_iff ban_disk_ban
        append_to_blocklist_def new_ban_engine_def split: if_splits)
qed

theorem rewritten_blocklist_exact_witness:
  "set (blocklist (ban_disk (unban ''10.0.0.1'' 20 demo_bans)))
     = block_line ` (live_ips 20 demo_bans - {''10.0.0.1''}) \<and>
   set (blocklist (ban_disk (cleanup_expired 20 20 demo_bans))) = block_line ` live_ips 20 demo_bans"
  by (rule rewritten_blocklist_exact) (rule demo_bans_ok)+

lemma covers_ban:
  assumes "disk_works e" "file_covers t e"
  shows "file_covers t (ban ip d reason now e)"
  using assms
  by (auto simp: file_covers_def live_ips_def is_banned_iff ban_disk_ban append_to_blocklist_def
      disk_works_def update_conv' image_subset_iff split: if_splits)

lemma covers_rebuild:
  assumes "ban_inv e" "disk_works e" "now \<le> t"
  shows "block_line ` live_ips t e \<subseteq> set (blocklist (ban_disk (rebuild_blocklist now e)))"
  unfolding rebuild_lines [OF assms(1,2)] using assms(3)
  by (auto simp: live_ips_def is_banned_iff)

lemma covers_unban:
  assumes "ban_inv e" "disk_works e" "now \<le> t"
  shows "file_covers t (unban ip now e)"
proof -
  let ?u = "e\<lparr>ban_store := AList.delete ip (ban_store e)\<rparr>"
  have "ban_inv ?u" using assms(1) by (rule ban_inv_delete) simp
  moreover have "disk_works ?u"
    by (rule disk_works_shrink [OF assms(2)]) (simp add: length_delete_le)
  moreover have "live_ips t ?u = live_ips t (unban ip now e)"
    by (simp add: live_ips_def is_banned_iff)
  ultimately show ?thesis using covers_rebuild [of ?u now t] assms(3)
    by (simp add: file_covers_def ban_disk_unban)
qed

lemma covers_cleanup:
  assumes "ban_inv e" "disk_works e" "now' \<le> t"
  shows "file_covers t (cleanup_expired now now' e)"
proof -
  let ?c = "e\<lparr>ban_store := filter (\<lambda>(k, b). \<not> expired_at now b) (ban_store e)\<rparr>"
  have "ban_inv ?c" using assms(1) by (auto simp: ban_inv_def distinct_map_filter)
  moreover have "disk_works ?c"
    by (rule disk_works_shrink [OF assms(2)]) simp
  moreover have "live_ips t ?c = live_ips t (cleanup_expired now now' e)"
    by (simp add: live_ips_def is_banned_iff)
  ultimately show ?thesis using covers_rebuild [of ?c now' t] assms(3)
    by (simp add: file_covers_def ban_disk_cleanup)
qed

lemma covers_look_up:
  assumes "file_covers t e" "now \<le> t"
  shows "file_covers t (look_up ip now e)"
proof -
  have "ban_disk (look_up ip now e) = ban_disk e"
    by (simp add: look_up_def is_banned_def split: option.splits)
  moreover have "live_ips t (look_up ip now e) = live_ips t e"
    using assms(2) by (simp add: live_ips_def look_up_live)
  ultimately show ?thesis using assms(1) by (simp add: file_covers_def)
qed

text \<open>
  The file never lacks an address that is banned: every operation whose disk writes
  succeed keeps the file a superset of the bans that are live at any later instant.
\<close>

theorem blocklist_covers_bans:
  assumes "ban_inv e" "disk_works e" "file_covers t e" "now \<le> t"
  shows "file_covers t (store_step put_ban (\<lambda>now. cleanup_expired now now) unban look_up op now e)"
  using assms
  by (cases op) (simp_all add: put_ban_def covers_ban covers_unban covers_cleanup covers_look_up)

theorem blocklist_covers_bans_witness:
  "file_covers 40 (store_step put_ban (\<lambda>now. cleanup_expired now now) unban look_up
     (Put ''10.0.0.2'' (7, ''x'')) 30 demo_bans)"
  by (rule blocklist_covers_bans) (simp_all add: demo_bans_ok)

end
