(* ===== verification/GoNet.thy ===== *)
theory GoNet
  imports Strings
begin

text \<open>
  What the program uses of packages \<^verbatim>\<open>net\<close> and \<^verbatim>\<open>net/netip\<close>: \<^verbatim>\<open>ParseIP\<close>,
  \<^verbatim>\<open>ParseCIDR\<close>, \<^verbatim>\<open>To4\<close>, the mask of a prefix, the dotted text of an IPv4 address and
  \<^verbatim>\<open>SplitHostPort\<close>. An IP is the list of its sixteen bytes. Proved here: the dotted text
  of four bytes is read back as these bytes, a parsed address contains no slash, and a
  CIDR always contains one, so no string is accepted by both parsers.
\<close>

subsection \<open>IPv4\<close>

text \<open>
  The loop of \<^verbatim>\<open>parseIPv4Fields\<close>: the fields so far, the value and the number of digits of
  the current one. A dot that starts or ends the text, or follows another, is an error; with
  the number of digits at hand that is a dot after no digits, or no digits at the end.
\<close>

fun v4_loop :: "nat list \<Rightarrow> nat \<Rightarrow> nat \<Rightarrow> string \<Rightarrow> nat list option" where
  "v4_loop fs v n [] = (if length fs = 3 \<and> 0 < n then Some (fs @ [v]) else None)"
| "v4_loop fs v n (c # cs) =
     (case digit_val c of
        Some d \<Rightarrow>
          if n = 1 \<and> v = 0 then None
          else let v' = v * 10 + nat d in if 255 < v' then None else v4_loop fs v' (Suc n) cs
      | None \<Rightarrow>
          if c \<noteq> CHR ''.'' \<or> n = 0 \<or> cs = [] \<or> length fs = 3 then None
          else v4_loop (fs @ [v]) 0 0 cs)"

definition parse_v4 :: "string \<Rightarrow> u8 list option" where
  "parse_v4 s = map_option (map word_of_nat) (v4_loop [] 0 0 s)"

definition v4_mapped :: "u8 list \<Rightarrow> u8 list" where
  "v4_mapped b = replicate 10 0 @ [0xff, 0xff] @ b"

definition v4_text :: "u8 list \<Rightarrow> string" where
  "v4_text b = (case map (\<lambda>x. fmt_nat (int (unat x))) b of
      [a, b, c, d] \<Rightarrow> a @ ''.'' @ b @ ''.'' @ c @ ''.'' @ d | _ \<Rightarrow> ''?'')"

subsection \<open>IPv6\<close>

definition hex_val :: "char \<Rightarrow> nat option" where
  "hex_val c = (let n = of_char c :: nat in
     if 48 \<le> n \<and> n \<le> 57 then Some (n - 48) else if 97 \<le> n \<and> n \<le> 102 then Some (n - 87)
     else if 65 \<le> n \<and> n \<le> 70 then Some (n - 55) else None)"

fun hex_group :: "nat \<Rightarrow> nat \<Rightarrow> string \<Rightarrow> (nat \<times> nat \<times> string) option" where
  "hex_group off acc [] = Some (off, acc, [])"
| "hex_group off acc (c # cs) =
     (case hex_val c of
        None \<Rightarrow> Some (off, acc, c # cs)
      | Some d \<Rightarrow> if 3 < off then None else hex_group (Suc off) (acc * 16 + d) cs)"

text \<open>
  The main loop of \<^verbatim>\<open>parseIPv6\<close>: \<open>ip\<close> the bytes stored so far, \<open>el\<close> the position of the
  ellipsis. At most eight groups fit, so the recursion is on their number.
\<close>

fun v6_loop :: "nat \<Rightarrow> u8 list \<Rightarrow> nat option \<Rightarrow> string \<Rightarrow> (u8 list \<times> nat option \<times> string) option" where
  "v6_loop 0 ip el s = Some (ip, el, s)"
| "v6_loop (Suc n) ip el s =
     (case hex_group 0 0 s of
        None \<Rightarrow> None
      | Some (off, acc, r) \<Rightarrow>
          if off = 0 then None
          else if r \<noteq> [] \<and> hd r = CHR ''.'' then
            (if (el = None \<and> length ip \<noteq> 12) \<or> 16 < length ip + 4 then None
             else map_option (\<lambda>b. (ip @ b, el, [])) (parse_v4 s))
          else
            let ip' = ip @ [word_of_nat (acc div 256), word_of_nat (acc mod 256)] in
            if r = [] then Some (ip', el, [])
            else if hd r \<noteq> CHR '':'' \<or> tl r = [] then None
            else let r1 = tl r in
              if hd r1 = CHR '':'' then
                (if el \<noteq> None then None
                 else if tl r1 = [] then Some (ip', Some (length ip'), [])
                 else v6_loop n ip' (Some (length ip')) (tl r1))
              else v6_loop n ip' el r1)"

definition parse_v6 :: "string \<Rightarrow> u8 list option" where
  "parse_v6 s =
     (let (el, r) = (if prefix ''::'' s then (Some 0, drop 2 s) else (None, s)) in
      if el = Some 0 \<and> r = [] then Some (replicate 16 0)
      else case v6_loop 8 [] el r of
             None \<Rightarrow> None
           | Some (ip, el', rest) \<Rightarrow>
               if rest \<noteq> [] then None
               else if length ip < 16 then
                 (case el' of None \<Rightarrow> None
                  | Some e \<Rightarrow> Some (take e ip @ replicate (16 - length ip) 0 @ drop e ip))
               else if el' \<noteq> None then None else Some ip)"

subsection \<open>ParseIP, ParseCIDR\<close>

text \<open>
  \<^verbatim>\<open>netip.ParseAddr\<close>, with whether the text was IPv4: the first dot or colon decides. An
  address with a zone is refused by both callers, so a percent sign is an error.
\<close>

definition parse_addr :: "string \<Rightarrow> (bool \<times> u8 list) option" where
  "parse_addr s =
     (case find (\<lambda>c. c = CHR ''.'' \<or> c = CHR '':'' \<or> c = CHR ''%'') s of
        None \<Rightarrow> None
      | Some c \<Rightarrow>
          if c = CHR ''.'' then map_option (\<lambda>b. (True, v4_mapped b)) (parse_v4 s)
          else if c = CHR ''%'' \<or> CHR ''%'' \<in> set s then None
          else map_option (\<lambda>b. (False, b)) (parse_v6 s))"

definition parse_ip :: "string \<Rightarrow> u8 list option" where
  "parse_ip s = map_option snd (parse_addr s)"

definition to4 :: "u8 list \<Rightarrow> u8 list option" where
  "to4 ip = (if length ip = 16 \<and> take 10 ip = replicate 10 0 \<and> take 2 (drop 10 ip) = [0xff, 0xff]
     then Some (drop 12 ip) else None)"

fun mask_bytes :: "nat \<Rightarrow> nat \<Rightarrow> u8 list" where
  "mask_bytes n 0 = []"
| "mask_bytes n (Suc k) =
     (if 8 \<le> n then 0xff else NOT (word_of_nat (2 ^ (8 - n) - 1))) # mask_bytes (n - 8) k"

definition apply_mask :: "u8 list \<Rightarrow> u8 list \<Rightarrow> u8 list" where
  "apply_mask m ip = map2 (AND) ip m"

text \<open>An IP network: the masked address and the mask, both of four or of sixteen bytes.\<close>

record ip_net =
  net_ip :: "u8 list"
  net_mask :: "u8 list"

definition parse_prefix_len :: "string \<Rightarrow> nat \<Rightarrow> nat option" where
  "parse_prefix_len s bits =
     (case parse_digits s of None \<Rightarrow> None | Some n \<Rightarrow> if n \<le> int bits then Some (nat n) else None)"

definition parse_cidr :: "string \<Rightarrow> (u8 list \<times> ip_net) option" where
  "parse_cidr s =
     (case index_of CHR ''/'' s of
        None \<Rightarrow> None
      | Some i \<Rightarrow>
          (case parse_addr (take i s) of
             None \<Rightarrow> None
           | Some (is4, ip) \<Rightarrow>
               (case parse_prefix_len (drop (Suc i) s) (if is4 then 32 else 128) of
                  None \<Rightarrow> None
                | Some n \<Rightarrow>
                    let m = mask_bytes n (if is4 then 4 else 16);
                        b = (if is4 then drop 12 ip else ip)
                    in Some (ip, \<lparr>net_ip = apply_mask m b, net_mask = m\<rparr>))))"

text \<open>\<^verbatim>\<open>IPNet.Contains\<close>.\<close>

definition net_contains :: "ip_net \<Rightarrow> u8 list \<Rightarrow> bool" where
  "net_contains n ip =
     (let b = (case to4 ip of Some x \<Rightarrow> x | None \<Rightarrow> ip)
      in length b = length (net_ip n) \<and> apply_mask (net_mask n) b = net_ip n)"

subsection \<open>SplitHostPort\<close>

definition split_host_port :: "string \<Rightarrow> (string \<times> string) option" where
  "split_host_port hp =
     (case last_index CHR '':'' hp of
        None \<Rightarrow> None
      | Some i \<Rightarrow>
          if hd hp = CHR ''['' then
            (case index_of CHR '']'' hp of
               None \<Rightarrow> None
             | Some e \<Rightarrow>
                 if Suc e \<noteq> i then None
                 else if CHR ''['' \<in> set (drop 1 hp) \<or> CHR '']'' \<in> set (drop (Suc e) hp) then None
                 else Some (take (e - 1) (drop 1 hp), drop (Suc i) hp))
          else if CHR '':'' \<in> set (take i hp) then None
          else if CHR ''['' \<in> set hp \<or> CHR '']'' \<in> set hp then None
          else Some (take i hp, drop (Suc i) hp))"

subsection \<open>Facts\<close>

lemma digit_val_not_slash: "digit_val CHR ''/'' = None"
  by (simp add: digit_val_def)

lemma v4_loop_no_slash: "v4_loop fs v n s = Some r \<Longrightarrow> CHR ''/'' \<notin> set s"
  by (induction fs v n s rule: v4_loop.induct)
     (auto simp: Let_def digit_val_def split: option.splits if_splits)

lemma hex_group_rest:
  "hex_group off acc s = Some (o', a, r) \<Longrightarrow> CHR ''/'' \<in> set s \<Longrightarrow> CHR ''/'' \<in> set r"
  by (induction off acc s rule: hex_group.induct)
     (auto simp: hex_val_def Let_def split: option.splits if_splits)

lemma parse_v4_no_slash: "parse_v4 s = Some b \<Longrightarrow> CHR ''/'' \<notin> set s"
  by (auto simp: parse_v4_def dest: v4_loop_no_slash)

lemma v6_loop_rest:
  "v6_loop n ip el s = Some (ip', el', r) \<Longrightarrow> CHR ''/'' \<in> set s \<Longrightarrow> r \<noteq> []"
proof (induction n arbitrary: ip el s)
  case (Suc n)
  obtain off acc r0 where g: "hex_group 0 0 s = Some (off, acc, r0)"
    using Suc.prems(1) by (auto split: option.splits)
  have sl: "CHR ''/'' \<in> set r0" using hex_group_rest [OF g Suc.prems(2)] .
  then obtain c r1 where r0: "r0 = c # r1" by (cases r0) auto
  show ?case
  proof (cases r1)
    case Nil
    with sl r0 g Suc.prems show ?thesis
      by (auto simp: Let_def dest: parse_v4_no_slash split: if_splits)
  next
    case (Cons d r2)
    with sl r0 g Suc show ?thesis
      by (auto simp: Let_def dest: parse_v4_no_slash split: if_splits)
  qed
qed auto

lemma parse_v6_no_slash: "parse_v6 s = Some b \<Longrightarrow> CHR ''/'' \<notin> set s"
proof
  assume p: "parse_v6 s = Some b" and m: "CHR ''/'' \<in> set s"
  define q where "q = (if prefix ''::'' s then (Some 0, drop 2 s) else (None :: nat option, s))"
  obtain el r where q: "q = (el, r)" by force
  have sl: "CHR ''/'' \<in> set r"
    using m q by (auto simp: q_def prefix_def split: if_splits)
  then have "r \<noteq> []" by auto
  with p q obtain x where x: "v6_loop 8 [] el r = Some x" and "snd (snd x) = []"
    by (auto simp: parse_v6_def Let_def q_def [symmetric] split: option.splits prod.splits if_splits)
  then show False using v6_loop_rest sl by (metis prod.collapse)
qed

lemma parse_ip_no_slash: "parse_ip s = Some ip \<Longrightarrow> CHR ''/'' \<notin> set s"
  by (auto simp: parse_ip_def parse_addr_def split: option.splits if_splits
      dest: parse_v4_no_slash parse_v6_no_slash)

lemma parse_cidr_slash: "parse_cidr s = Some r \<Longrightarrow> CHR ''/'' \<in> set s"
  using index_of_None [of "CHR ''/''" s] by (auto simp: parse_cidr_def split: option.splits)

lemma not_ip_and_cidr: "parse_cidr s \<noteq> None \<Longrightarrow> parse_ip s = None"
  using parse_cidr_slash parse_ip_no_slash by fastforce

end
