(* ===== verification/RateLimit.thy ===== *)
theory RateLimit
  imports GoNet
begin

text \<open>
  The per-address and per-subnet limiter, \<^verbatim>\<open>internal/client/ratelimit/limiter.go\<close>: for every
  key the list of the instants of its requests, pruned to a sliding window whenever it is
  read. The specification is the log of the operations: what a query answers is the number
  of requests of the address in the log that are younger than the window and came after the
  last reset of the address.
\<close>

record limiter_config =
  soft_threshold :: int
  hard_threshold :: int
  subnet_threshold :: int
  window_duration :: duration

record ip_state =
  requests :: "gotime list"

record subnet_state =
  sub_requests :: "gotime list"

record limiter =
  lim_config :: limiter_config
  ip_map :: "string \<rightharpoonup> ip_state"
  sub_map :: "string \<rightharpoonup> subnet_state"

definition new_limiter :: "limiter_config \<Rightarrow> limiter" where
  "new_limiter c = \<lparr>lim_config = c, ip_map = Map.empty, sub_map = Map.empty\<rparr>"

definition get_subnet24 :: "string \<Rightarrow> string" where
  "get_subnet24 ip =
     (case parse_ip ip of
        None \<Rightarrow> ''0.0.0.0/24''
      | Some p \<Rightarrow> (case to4 p of
            None \<Rightarrow> ''0.0.0.0/24''
          | Some v4 \<Rightarrow> v4_text (apply_mask (mask_bytes 24 4) v4) @ ''/24''))"

definition get_or_create_ip :: "string \<Rightarrow> limiter \<Rightarrow> ip_state" where
  "get_or_create_ip ip s = (case ip_map s ip of None \<Rightarrow> \<lparr>requests = []\<rparr> | Some st \<Rightarrow> st)"

definition get_or_create_subnet :: "string \<Rightarrow> limiter \<Rightarrow> subnet_state" where
  "get_or_create_subnet n s = (case sub_map s n of None \<Rightarrow> \<lparr>sub_requests = []\<rparr> | Some st \<Rightarrow> st)"

definition cutoff :: "limiter \<Rightarrow> gotime \<Rightarrow> gotime" where
  "cutoff s now = time_add now (- window_duration (lim_config s))"

definition prune_ip_state :: "limiter \<Rightarrow> gotime \<Rightarrow> ip_state \<Rightarrow> ip_state" where
  "prune_ip_state s now st = st\<lparr>requests := dropWhile (\<lambda>t. time_before t (cutoff s now)) (requests st)\<rparr>"

definition prune_subnet_state :: "limiter \<Rightarrow> gotime \<Rightarrow> subnet_state \<Rightarrow> subnet_state" where
  "prune_subnet_state s now st =
     st\<lparr>sub_requests := dropWhile (\<lambda>t. time_before t (cutoff s now)) (sub_requests st)\<rparr>"

definition allow :: "string \<Rightarrow> gotime \<Rightarrow> limiter \<Rightarrow> bool \<times> limiter" where
  "allow ip now s =
     (let st = prune_ip_state s now (get_or_create_ip ip s)
      in (int (length (requests st)) < soft_threshold (lim_config s), s\<lparr>ip_map := (ip_map s)(ip \<mapsto> st)\<rparr>))"

definition allow_subnet :: "string \<Rightarrow> gotime \<Rightarrow> limiter \<Rightarrow> bool \<times> limiter" where
  "allow_subnet n now s =
     (let st = prune_subnet_state s now (get_or_create_subnet n s)
      in (int (length (sub_requests st)) < subnet_threshold (lim_config s),
          s\<lparr>sub_map := (sub_map s)(n \<mapsto> st)\<rparr>))"

definition record_request :: "string \<Rightarrow> gotime \<Rightarrow> limiter \<Rightarrow> limiter" where
  "record_request ip now s =
     (let st = prune_ip_state s now (get_or_create_ip ip s);
          n = get_subnet24 ip;
          sn = prune_subnet_state s now (get_or_create_subnet n s)
      in s\<lparr>ip_map := (ip_map s)(ip \<mapsto> st\<lparr>requests := requests st @ [now]\<rparr>),
           sub_map := (sub_map s)(n \<mapsto> sn\<lparr>sub_requests := sub_requests sn @ [now]\<rparr>)\<rparr>)"

definition is_hard_blocked :: "string \<Rightarrow> gotime \<Rightarrow> limiter \<Rightarrow> bool \<times> limiter" where
  "is_hard_blocked ip now s =
     (case ip_map s ip of
        None \<Rightarrow> (False, s)
      | Some st0 \<Rightarrow>
          let st = prune_ip_state s now st0
          in (hard_threshold (lim_config s) \<le> int (length (requests st)), s\<lparr>ip_map := (ip_map s)(ip \<mapsto> st)\<rparr>))"

definition is_double_threshold :: "string \<Rightarrow> gotime \<Rightarrow> limiter \<Rightarrow> bool \<times> limiter" where
  "is_double_threshold ip now s =
     (case ip_map s ip of
        None \<Rightarrow> (False, s)
      | Some st0 \<Rightarrow>
          let st = prune_ip_state s now st0
          in (i64 (soft_threshold (lim_config s) * 2) \<le> int (length (requests st)),
              s\<lparr>ip_map := (ip_map s)(ip \<mapsto> st)\<rparr>))"

definition limiter_cleanup :: "gotime \<Rightarrow> limiter \<Rightarrow> limiter" where
  "limiter_cleanup now s =
     s\<lparr>ip_map := map_keep (\<lambda>st. requests st \<noteq> []) (\<lambda>k. map_option (prune_ip_state s now) (ip_map s k)),
       sub_map := map_keep (\<lambda>st. sub_requests st \<noteq> [])
         (\<lambda>k. map_option (prune_subnet_state s now) (sub_map s k))\<rparr>"

definition has_ip :: "string \<Rightarrow> limiter \<Rightarrow> bool" where
  "has_ip ip s \<longleftrightarrow> ip_map s ip \<noteq> None"

definition has_subnet :: "string \<Rightarrow> limiter \<Rightarrow> bool" where
  "has_subnet n s \<longleftrightarrow> sub_map s n \<noteq> None"

definition update_thresholds :: "int \<Rightarrow> int \<Rightarrow> int \<Rightarrow> limiter \<Rightarrow> limiter" where
  "update_thresholds soft hard subnet s =
     s\<lparr>lim_config := (lim_config s)\<lparr>
         soft_threshold := (if 0 < soft then soft else soft_threshold (lim_config s)),
         hard_threshold := (if 0 < hard then hard else hard_threshold (lim_config s)),
         subnet_threshold := (if 0 < subnet then subnet else subnet_threshold (lim_config s))\<rparr>\<rparr>"

definition get_thresholds :: "limiter \<Rightarrow> int \<times> int \<times> int" where
  "get_thresholds s = (soft_threshold (lim_config s), hard_threshold (lim_config s),
     subnet_threshold (lim_config s))"

definition reset_ip :: "string \<Rightarrow> limiter \<Rightarrow> limiter" where
  "reset_ip ip s = s\<lparr>ip_map := (ip_map s)(ip := None)\<rparr>"

subsection \<open>The log of the operations\<close>

datatype rl_op = Record string | Q_allow string | Q_subnet string | Q_hard string
  | Q_double string | Clean | Reset string | Thresholds int int int

fun rl_step :: "rl_op \<Rightarrow> gotime \<Rightarrow> limiter \<Rightarrow> limiter" where
  "rl_step (Record ip) now s = record_request ip now s"
| "rl_step (Q_allow ip) now s = snd (allow ip now s)"
| "rl_step (Q_subnet n) now s = snd (allow_subnet n now s)"
| "rl_step (Q_hard ip) now s = snd (is_hard_blocked ip now s)"
| "rl_step (Q_double ip) now s = snd (is_double_threshold ip now s)"
| "rl_step Clean now s = limiter_cleanup now s"
| "rl_step (Reset ip) now s = reset_ip ip s"
| "rl_step (Thresholds a b c) now s = update_thresholds a b c s"

definition rl_run :: "(gotime \<times> rl_op) list \<Rightarrow> limiter \<Rightarrow> limiter" where
  "rl_run log s = fold (\<lambda>(t, op). rl_step op t) log s"

text \<open>The instants of the requests of an address, or of a subnet, that the log holds.\<close>

fun logged_step :: "string \<Rightarrow> gotime \<times> rl_op \<Rightarrow> gotime list \<Rightarrow> gotime list" where
  "logged_step ip (t, Record ip') ts = (if ip' = ip then ts @ [t] else ts)"
| "logged_step ip (t, Reset ip') ts = (if ip' = ip then [] else ts)"
| "logged_step ip (t, _) ts = ts"

definition logged :: "string \<Rightarrow> (gotime \<times> rl_op) list \<Rightarrow> gotime list" where
  "logged ip log = fold (logged_step ip) log []"

fun logged_sub_step :: "string \<Rightarrow> gotime \<times> rl_op \<Rightarrow> gotime list \<Rightarrow> gotime list" where
  "logged_sub_step n (t, Record ip') ts = (if get_subnet24 ip' = n then ts @ [t] else ts)"
| "logged_sub_step n (t, _) ts = ts"

definition logged_sub :: "string \<Rightarrow> (gotime \<times> rl_op) list \<Rightarrow> gotime list" where
  "logged_sub n log = fold (logged_sub_step n) log []"

definition in_window :: "duration \<Rightarrow> gotime \<Rightarrow> gotime list \<Rightarrow> int" where
  "in_window w now ts = int (length (filter (\<lambda>t. now - w \<le> t) ts))"

subsection \<open>A pruned list is the young part of the log\<close>

text \<open>
  \<open>tracks w now l ts\<close>: the list \<open>l\<close> kept by the limiter agrees with the instants \<open>ts\<close> of the
  log on everything that a reading at \<open>now\<close> or later can see.
\<close>

definition tracks :: "duration \<Rightarrow> gotime \<Rightarrow> gotime list \<Rightarrow> gotime list \<Rightarrow> bool" where
  "tracks w now l ts \<longleftrightarrow> sorted l \<and> (\<forall>t\<in>set l \<union> set ts. t \<le> now) \<and>
     (\<forall>c. now - w \<le> c \<longrightarrow> filter (\<lambda>t. c \<le> t) l = filter (\<lambda>t. c \<le> t) ts)"

lemma tracks_empty: "tracks w now [] []"
  by (simp add: tracks_def)

lemma tracks_later: "tracks w now l ts \<Longrightarrow> now \<le> now' \<Longrightarrow> tracks w now' l ts"
  by (force simp: tracks_def)

lemma filter_young: "now - w \<le> (c :: int) \<Longrightarrow>
    filter (\<lambda>t. c \<le> t) (filter (\<lambda>t. now - w \<le> t) l) = filter (\<lambda>t. c \<le> t) l"
  by (simp add: filter_filter) (rule filter_cong, auto)

lemma tracks_prune:
  assumes "tracks w now l ts"
  shows "tracks w now (dropWhile (\<lambda>t. t < now - w) l) ts"
proof -
  let ?f = "filter (\<lambda>t. now - w \<le> t) l"
  have "sorted ?f"
    using assms unfolding tracks_def by (blast intro: sorted_wrt_filter)
  moreover have "\<forall>t\<in>set ?f \<union> set ts. t \<le> now"
    using assms by (auto simp: tracks_def)
  moreover have "\<forall>c. now - w \<le> c \<longrightarrow> filter (\<lambda>t. c \<le> t) ?f = filter (\<lambda>t. c \<le> t) ts"
    unfolding tracks_def using assms
    by (intro allI impI, subst filter_young) (simp_all add: tracks_def)
  ultimately have "tracks w now ?f ts" unfolding tracks_def by blast
  moreover have "dropWhile (\<lambda>t. t < now - w) l = ?f"
    by (rule dropWhile_sorted_filter) (use assms in \<open>simp add: tracks_def\<close>)
  ultimately show ?thesis by (simp only:)
qed

lemma tracks_append: "tracks w now l ts \<Longrightarrow> tracks w now (l @ [now]) (ts @ [now])"
  by (auto simp: tracks_def sorted_append)

lemma tracks_length:
  "tracks w now l ts \<Longrightarrow> int (length (dropWhile (\<lambda>t. t < now - w) l)) = in_window w now ts"
  by (simp add: tracks_def dropWhile_sorted_filter in_window_def)

definition ip_list :: "limiter \<Rightarrow> string \<Rightarrow> gotime list" where
  "ip_list s ip = requests (get_or_create_ip ip s)"

definition sub_list :: "limiter \<Rightarrow> string \<Rightarrow> gotime list" where
  "sub_list s n = sub_requests (get_or_create_subnet n s)"

definition limiter_tracks :: "gotime \<Rightarrow> (gotime \<times> rl_op) list \<Rightarrow> limiter \<Rightarrow> bool" where
  "limiter_tracks now log s \<longleftrightarrow>
     (\<forall>ip. tracks (window_duration (lim_config s)) now (ip_list s ip) (logged ip log)) \<and>
     (\<forall>n. tracks (window_duration (lim_config s)) now (sub_list s n) (logged_sub n log))"

lemmas rl_defs = allow_def allow_subnet_def record_request_def is_hard_blocked_def
  is_double_threshold_def limiter_cleanup_def reset_ip_def update_thresholds_def
  prune_ip_state_def prune_subnet_state_def cutoff_def time_defs Let_def

lemma window_step [simp]:
  "window_duration (lim_config (rl_step op now s)) = window_duration (lim_config s)"
  by (cases op) (auto simp: rl_defs split: option.splits)

lemma window_run [simp]:
  "window_duration (lim_config (rl_run log s)) = window_duration (lim_config s)"
proof (induction log arbitrary: s)
  case (Cons x log)
  then show ?case by (cases x) (simp add: rl_run_def)
qed (simp add: rl_run_def)

lemma logged_snoc [simp]: "logged ip (log @ [e]) = logged_step ip e (logged ip log)"
  by (simp add: logged_def)

lemma logged_sub_snoc [simp]: "logged_sub n (log @ [e]) = logged_sub_step n e (logged_sub n log)"
  by (simp add: logged_sub_def)

text \<open>What one operation does to the list of a key.\<close>

lemma ip_list_step:
  fixes now s
  defines "pr \<equiv> dropWhile (\<lambda>t. t < now - window_duration (lim_config s))"
  shows "ip_list (rl_step (Record ip) now s) k = (if k = ip then pr (ip_list s k) @ [now] else ip_list s k)"
    "ip_list (rl_step (Q_allow ip) now s) k = (if k = ip then pr (ip_list s k) else ip_list s k)"
    "ip_list (rl_step (Q_subnet n) now s) k = ip_list s k"
    "ip_list (rl_step (Q_hard ip) now s) k = (if k = ip then pr (ip_list s k) else ip_list s k)"
    "ip_list (rl_step (Q_double ip) now s) k = (if k = ip then pr (ip_list s k) else ip_list s k)"
    "ip_list (rl_step Clean now s) k = pr (ip_list s k)"
    "ip_list (rl_step (Reset ip) now s) k = (if k = ip then [] else ip_list s k)"
    "ip_list (rl_step (Thresholds a b c) now s) k = ip_list s k"
  by (auto simp: pr_def rl_defs ip_list_def get_or_create_ip_def map_keep_def
      dropWhile_eq_Nil_conv [symmetric] simp del: dropWhile_eq_Nil_conv split: option.splits)

lemma sub_list_step:
  fixes now s
  defines "pr \<equiv> dropWhile (\<lambda>t. t < now - window_duration (lim_config s))"
  shows "sub_list (rl_step (Record ip) now s) k =
      (if k = get_subnet24 ip then pr (sub_list s k) @ [now] else sub_list s k)"
    "sub_list (rl_step (Q_allow ip) now s) k = sub_list s k"
    "sub_list (rl_step (Q_subnet n) now s) k = (if k = n then pr (sub_list s k) else sub_list s k)"
    "sub_list (rl_step (Q_hard ip) now s) k = sub_list s k"
    "sub_list (rl_step (Q_double ip) now s) k = sub_list s k"
    "sub_list (rl_step Clean now s) k = pr (sub_list s k)"
    "sub_list (rl_step (Reset ip) now s) k = sub_list s k"
    "sub_list (rl_step (Thresholds a b c) now s) k = sub_list s k"
  by (auto simp: pr_def rl_defs sub_list_def get_or_create_subnet_def map_keep_def
      dropWhile_eq_Nil_conv [symmetric] simp del: dropWhile_eq_Nil_conv split: option.splits)

lemma limiter_tracks_step:
  assumes "limiter_tracks now log s"
  shows "limiter_tracks now (log @ [(now, op)]) (rl_step op now s)"
  using assms
  by (cases op)
     (auto simp: limiter_tracks_def ip_list_step sub_list_step simp del: rl_step.simps
       intro: tracks_prune tracks_append tracks_empty)

lemma limiter_tracks_later:
  "limiter_tracks now log s \<Longrightarrow> now \<le> now' \<Longrightarrow> limiter_tracks now' log s"
  by (auto simp: limiter_tracks_def intro: tracks_later)

definition clocked :: "(gotime \<times> 'a) list \<Rightarrow> gotime \<Rightarrow> bool" where
  "clocked log now \<longleftrightarrow> sorted (map fst log) \<and> (\<forall>e\<in>set log. fst e \<le> now)"

lemma limiter_tracks_run:
  "clocked log now \<Longrightarrow> limiter_tracks now log (rl_run log (new_limiter cfg))"
proof (induction log arbitrary: now rule: rev_induct)
  case Nil
  then show ?case
    by (simp add: limiter_tracks_def rl_run_def logged_def logged_sub_def ip_list_def sub_list_def
        new_limiter_def get_or_create_ip_def get_or_create_subnet_def tracks_empty)
next
  case (snoc e log)
  obtain t op where e: "e = (t, op)" by force
  from snoc.prems e have "clocked log t" "t \<le> now"
    by (auto simp: clocked_def sorted_append)
  with snoc.IH have "limiter_tracks t log (rl_run log (new_limiter cfg))" by simp
  then have "limiter_tracks t (log @ [e]) (rl_run (log @ [e]) (new_limiter cfg))"
    using limiter_tracks_step by (simp add: e rl_run_def del: rl_step.simps)
  with \<open>t \<le> now\<close> show ?case by (rule limiter_tracks_later [rotated])
qed

lemma tracks_window_pos: "ip_map s ip = None \<Longrightarrow> ip_list s ip = []"
  by (simp add: ip_list_def get_or_create_ip_def)

text \<open>
  C4. The limiter is an exact sliding-window counter: after any run of requests, queries,
  cleanups, resets and threshold changes whose clock does not run backwards, an address is
  allowed exactly when fewer of its requests than the soft threshold lie in the last window
  (counted from its last reset), it is over the hard threshold exactly when that many do,
  and it is over the double threshold exactly when twice the soft threshold do.
\<close>

theorem limiter_counts_window:
  fixes log cfg
  defines "s \<equiv> rl_run log (new_limiter cfg)"
  assumes "clocked log now" "0 < hard_threshold (lim_config s)"
    "0 < soft_threshold (lim_config s)" "soft_threshold (lim_config s) \<le> 4611686018427387903"
  shows "(fst (allow ip now s) \<longleftrightarrow>
      in_window (window_duration cfg) now (logged ip log) < soft_threshold (lim_config s)) \<and>
    (fst (is_hard_blocked ip now s) \<longleftrightarrow>
      hard_threshold (lim_config s) \<le> in_window (window_duration cfg) now (logged ip log)) \<and>
    (fst (is_double_threshold ip now s) \<longleftrightarrow>
      2 * soft_threshold (lim_config s) \<le> in_window (window_duration cfg) now (logged ip log))"
proof -
  let ?w = "window_duration cfg"
  have w: "window_duration (lim_config s) = ?w" by (simp add: s_def new_limiter_def)
  have "tracks ?w now (ip_list s ip) (logged ip log)"
    using limiter_tracks_run [OF assms(2), of cfg] w unfolding limiter_tracks_def s_def by simp
  then have n: "int (length (dropWhile (\<lambda>t. t < now - ?w) (ip_list s ip))) = in_window ?w now (logged ip log)"
    by (rule tracks_length)
  have d: "i64 (soft_threshold (lim_config s) * 2) = 2 * soft_threshold (lim_config s)"
    using i64_double_id [of "soft_threshold (lim_config s)"] assms(4,5) by (simp add: mult.commute)
  show ?thesis
  proof (cases "ip_map s ip")
    case None
    then have "in_window ?w now (logged ip log) = 0" using n by (simp add: tracks_window_pos)
    with None n w show ?thesis
      using assms(3,4) by (simp add: rl_defs ip_list_def get_or_create_ip_def)
  next
    case (Some st)
    with n w d show ?thesis by (simp add: rl_defs ip_list_def get_or_create_ip_def)
  qed
qed

definition demo_limits :: limiter_config where
  "demo_limits = \<lparr>soft_threshold = 2, hard_threshold = 5, subnet_threshold = 9, window_duration = 60\<rparr>"

theorem limiter_counts_window_witness:
  "\<not> fst (allow ''10.0.0.1'' 50
     (rl_run [(0, Record ''10.0.0.1''), (5, Clean), (30, Record ''10.0.0.1'')] (new_limiter demo_limits)))"
  by (subst limiter_counts_window [THEN conjunct1])
     (simp_all add: clocked_def in_window_def logged_def demo_limits_def rl_run_def rl_defs
        new_limiter_def get_or_create_ip_def get_or_create_subnet_def)

text \<open>
  The same for a /24: it is allowed exactly when fewer requests than the subnet threshold
  came from its addresses in the last window. Resetting a single address does not clear the
  subnet's count.
\<close>

theorem limiter_counts_subnet:
  assumes "clocked log now"
  shows "fst (allow_subnet n now (rl_run log (new_limiter cfg))) \<longleftrightarrow>
    in_window (window_duration cfg) now (logged_sub n log) <
      subnet_threshold (lim_config (rl_run log (new_limiter cfg)))"
proof -
  let ?s = "rl_run log (new_limiter cfg)"
  have w: "window_duration (lim_config ?s) = window_duration cfg" by (simp add: new_limiter_def)
  have "tracks (window_duration cfg) now (sub_list ?s n) (logged_sub n log)"
    using limiter_tracks_run [OF assms, of cfg] w unfolding limiter_tracks_def by simp
  from tracks_length [OF this] w show ?thesis
    by (simp add: rl_defs sub_list_def)
qed

theorem limiter_counts_subnet_witness:
  "fst (allow_subnet ''10.0.0.0/24'' 50
     (rl_run [(0, Record ''10.0.0.1''), (5, Reset ''10.0.0.1'')] (new_limiter demo_limits))) \<longleftrightarrow>
   in_window 60 50 (logged_sub ''10.0.0.0/24'' [(0, Record ''10.0.0.1''), (5, Reset ''10.0.0.1'')]) <
     subnet_threshold (lim_config (rl_run [(0, Record ''10.0.0.1''), (5, Reset ''10.0.0.1'')]
       (new_limiter demo_limits)))"
  using limiter_counts_subnet [of "[(0, Record ''10.0.0.1''), (5, Reset ''10.0.0.1'')]" 50
    "''10.0.0.0/24''" demo_limits]
  by (simp add: clocked_def demo_limits_def)

end
