(* ===== verification/Crypto.thy ===== *)
theory Crypto
  imports Strings
begin

text \<open>
  The standard-library codecs and digests the program calls: FNV-1a (\<^verbatim>\<open>hash/fnv\<close>),
  SHA-256 (\<^verbatim>\<open>crypto/sha256\<close>), HMAC (\<^verbatim>\<open>crypto/hmac\<close>), hexadecimal
  (\<^verbatim>\<open>encoding/hex\<close>) and base64url with and without padding
  (\<^verbatim>\<open>encoding/base64\<close>). They are written as executable functions on bytes. What the
  components use of them is here too: the length of a MAC, the alphabet of the
  hexadecimal form and the round trips of base64.
\<close>

subsection \<open>FNV-1a\<close>

definition fnv1a32 :: "string \<Rightarrow> u32" where
  "fnv1a32 s = fold (\<lambda>b h. (h XOR ucast b) * 16777619) (bytes_of s) 2166136261"

definition fnv1a64 :: "string \<Rightarrow> u64" where
  "fnv1a64 s = fold (\<lambda>b h. (h XOR ucast b) * 1099511628211) (bytes_of s) 14695981039346656037"

subsection \<open>SHA-256\<close>

definition sha_k :: "u32 list" where
    "sha_k = [1116352408, 1899447441, 3049323471, 3921009573, 961987163, 1508970993, 2453635748,
    2870763221, 3624381080, 310598401, 607225278, 1426881987, 1925078388, 2162078206, 2614888103,
    3248222580, 3835390401, 4022224774, 264347078, 604807628, 770255983, 1249150122, 1555081692,
    1996064986, 2554220882, 2821834349, 2952996808, 3210313671, 3336571891, 3584528711, 113926993,
    338241895, 666307205, 773529912, 1294757372, 1396182291, 1695183700, 1986661051, 2177026350,
    2456956037, 2730485921, 2820302411, 3259730800, 3345764771, 3516065817, 3600352804, 4094571909,
    275423344, 430227734, 506948616, 659060556, 883997877, 958139571, 1322822218, 1537002063,
    1747873779, 1955562222, 2024104815, 2227730452, 2361852424, 2428436474, 2756734187, 3204031479,
    3329325298]"

definition sha_init :: "u32 list" where
    "sha_init = [1779033703, 3144134277, 1013904242, 2773480762, 1359893119, 2600822924, 528734635,
    1541459225]"

definition rotr :: "nat \<Rightarrow> u32 \<Rightarrow> u32" where
  "rotr n x = drop_bit n x OR push_bit (32 - n) x"

fun sha_schedule :: "nat \<Rightarrow> u32 list \<Rightarrow> u32 list" where
  "sha_schedule 0 ws = ws"
| "sha_schedule (Suc n) ws =
     (let t = length ws; w15 = ws ! (t - 15); w2 = ws ! (t - 2);
          s0 = rotr 7 w15 XOR rotr 18 w15 XOR drop_bit 3 w15;
          s1 = rotr 17 w2 XOR rotr 19 w2 XOR drop_bit 10 w2
      in sha_schedule n (ws @ [ws ! (t - 16) + s0 + ws ! (t - 7) + s1]))"

fun sha_round :: "u32 list \<Rightarrow> u32 \<times> u32 \<Rightarrow> u32 list" where
  "sha_round [a, b, c, d, e, f, g, h] (k, w) =
     (let s1 = rotr 6 e XOR rotr 11 e XOR rotr 25 e;
          ch = (e AND f) XOR (NOT e AND g);
          t1 = h + s1 + ch + k + w;
          s0 = rotr 2 a XOR rotr 13 a XOR rotr 22 a;
          mj = (a AND b) XOR (a AND c) XOR (b AND c)
      in [t1 + (s0 + mj), a, b, c, d + t1, e, f, g])"
| "sha_round st _ = st"

definition sha_block :: "u32 list \<Rightarrow> u8 list \<Rightarrow> u32 list" where
  "sha_block st blk =
     (let ws = sha_schedule 48 (map (\<lambda>i. be_word (take 4 (drop (4 * i) blk))) [0..<16])
      in map2 (+) st (foldl sha_round st (zip sha_k ws)))"

definition sha_pad :: "u8 list \<Rightarrow> u8 list" where
  "sha_pad m = m @ 0x80 # replicate ((119 - length m mod 64) mod 64) 0
     @ be_bytes 8 (word_of_nat (8 * length m) :: u64)"

fun chunks64 :: "nat \<Rightarrow> u8 list \<Rightarrow> u8 list list" where
  "chunks64 0 m = []"
| "chunks64 (Suc n) m = take 64 m # chunks64 n (drop 64 m)"

definition sha256 :: "u8 list \<Rightarrow> u8 list" where
  "sha256 m = (let p = sha_pad m in
     concat (map (be_bytes 4) (foldl sha_block sha_init (chunks64 (length p div 64) p))))"

definition hmac_sha256 :: "u8 list \<Rightarrow> u8 list \<Rightarrow> u8 list" where
  "hmac_sha256 key m =
     (let k0 = (if 64 < length key then sha256 key else key);
          k = k0 @ replicate (64 - length k0) 0
      in sha256 (map (\<lambda>b. b XOR 0x5c) k @ sha256 (map (\<lambda>b. b XOR 0x36) k @ m)))"

lemma length_sha_round: "length st = 8 \<Longrightarrow> length (sha_round st kw) = 8"
  by (cases "(st, kw)" rule: sha_round.cases) (auto simp: Let_def)

lemma length_fold_sha_round: "length st = 8 \<Longrightarrow> length (foldl sha_round st kws) = 8"
  by (induction kws arbitrary: st) (simp_all add: length_sha_round)

lemma length_sha_block: "length st = 8 \<Longrightarrow> length (sha_block st blk) = 8"
  by (simp add: sha_block_def Let_def length_fold_sha_round)

lemma length_fold_sha_block: "length st = 8 \<Longrightarrow> length (foldl sha_block st bs) = 8"
  by (induction bs arbitrary: st) (simp_all add: length_sha_block)

lemma length_concat_be4: "length (concat (map (be_bytes 4) (ws :: u32 list))) = 4 * length ws"
  by (induction ws) simp_all

lemma length_sha256 [simp]: "length (sha256 m) = 32"
  by (simp add: sha256_def Let_def length_concat_be4 length_fold_sha_block sha_init_def)

lemma length_hmac_sha256 [simp]: "length (hmac_sha256 k m) = 32"
  by (simp add: hmac_sha256_def Let_def)

subsection \<open>Hexadecimal\<close>

definition hex_digit :: "nat \<Rightarrow> char" where
  "hex_digit d = (if d < 10 then char_of (48 + d) else char_of (87 + d))"

definition hex_encode :: "u8 list \<Rightarrow> string" where
  "hex_encode bs = concat (map (\<lambda>b. [hex_digit (unat b div 16), hex_digit (unat b mod 16)]) bs)"

lemma hex_digit_neq_colon: "d < 16 \<Longrightarrow> hex_digit d \<noteq> CHR '':''"
  by (auto simp: hex_digit_def dest!: arg_cong [where f = "of_char :: char \<Rightarrow> nat"]
      split: if_splits)

lemma colon_not_in_hex: "CHR '':'' \<notin> set (hex_encode bs)"
proof -
  have "unat b div 16 < 16" for b :: u8
    using unat_u8_less [of b] by linarith
  then have "hex_digit (unat b div 16) \<noteq> CHR '':''" "hex_digit (unat b mod 16) \<noteq> CHR '':''"
    for b :: u8
    by (simp_all add: hex_digit_neq_colon)
  then show ?thesis by (fastforce simp: hex_encode_def)
qed

subsection \<open>Base64, URL alphabet\<close>

definition b64_char :: "nat \<Rightarrow> char" where
  "b64_char n = (if n < 26 then char_of (65 + n) else if n < 52 then char_of (71 + n)
     else if n < 62 then char_of (n - 4) else if n = 62 then CHR ''-'' else CHR ''_'')"

definition b64_val :: "char \<Rightarrow> nat option" where
  "b64_val c = (let n = of_char c :: nat in
     if 65 \<le> n \<and> n \<le> 90 then Some (n - 65) else if 97 \<le> n \<and> n \<le> 122 then Some (n - 71)
     else if 48 \<le> n \<and> n \<le> 57 then Some (n + 4) else if n = 45 then Some 62
     else if n = 95 then Some 63 else None)"

text \<open>The alphabet characters of a group of one, two or three bytes.\<close>

fun b64_raw :: "nat list \<Rightarrow> string" where
  "b64_raw [] = []"
| "b64_raw [a] = [b64_char (a div 4), b64_char (a mod 4 * 16)]"
| "b64_raw [a, b] = [b64_char (a div 4), b64_char (a mod 4 * 16 + b div 16), b64_char (b mod 16 * 4)]"
| "b64_raw (a # b # c # r) = b64_char (a div 4) # b64_char (a mod 4 * 16 + b div 16)
     # b64_char (b mod 16 * 4 + c div 64) # b64_char (c mod 64) # b64_raw r"

text \<open>
  The decoder reads groups of four; a last group of two or three characters holds one or two
  bytes, and the unused low bits are ignored, as \<^verbatim>\<open>encoding/base64\<close> does outside its
  strict mode. A single left-over character is an error.
\<close>

fun b64_groups :: "nat list \<Rightarrow> nat list option" where
  "b64_groups [] = Some []"
| "b64_groups [w] = None"
| "b64_groups [w, x] = Some [w * 4 + x div 16]"
| "b64_groups [w, x, y] = Some [w * 4 + x div 16, x mod 16 * 16 + y div 4]"
| "b64_groups (w # x # y # z # r) =
     map_option (\<lambda>bs. (w * 4 + x div 16) # (x mod 16 * 16 + y div 4) # (y mod 4 * 64 + z) # bs)
       (b64_groups r)"

fun b64_vals :: "string \<Rightarrow> nat list option" where
  "b64_vals [] = Some []"
| "b64_vals (c # cs) = (case b64_val c of None \<Rightarrow> None | Some v \<Rightarrow> map_option ((#) v) (b64_vals cs))"

definition drop_newlines :: "string \<Rightarrow> string" where
  "drop_newlines s = filter (\<lambda>c. c \<noteq> CHR 0x0A \<and> c \<noteq> CHR 0x0D) s"

text \<open>\<^verbatim>\<open>base64.RawURLEncoding\<close>.\<close>

definition b64_raw_encode :: "u8 list \<Rightarrow> string" where
  "b64_raw_encode bs = b64_raw (map unat bs)"

definition b64_raw_decode :: "string \<Rightarrow> u8 list option" where
  "b64_raw_decode s = Option.bind (b64_vals (drop_newlines s))
     (\<lambda>vs. map_option (map word_of_nat) (b64_groups vs))"

text \<open>\<^verbatim>\<open>base64.URLEncoding\<close>: the last group is filled up to four characters with \<^verbatim>\<open>=\<close>.\<close>

definition b64_encode :: "u8 list \<Rightarrow> string" where
  "b64_encode bs = (let r = b64_raw_encode bs in r @ replicate ((4 - length r mod 4) mod 4) CHR ''='')"

definition b64_decode :: "string \<Rightarrow> u8 list option" where
  "b64_decode s =
     (let t = drop_newlines s; body = takeWhile (\<lambda>c. c \<noteq> CHR ''='') t; pad = drop (length body) t
      in if pad = replicate ((4 - length body mod 4) mod 4) CHR ''=''
         then b64_raw_decode body else None)"

lemma b64_val_char [simp]: "n < 64 \<Longrightarrow> b64_val (b64_char n) = Some n"
  by (auto simp: b64_val_def b64_char_def Let_def)

lemma pack_div [simp]: "(y::nat) < n \<Longrightarrow> (x * n + y) div n = x"
  by simp

lemma pack_mod [simp]: "(y::nat) < n \<Longrightarrow> (x * n + y) mod n = y"
  by simp

lemma b64_bounds:
  assumes "(a::nat) < 256" "b < 256" "c < 256"
  shows "a div 4 < 64" "b div 16 < 16" "c div 64 < 4" "a mod 4 * 16 < 64" "b mod 16 * 4 < 64"
    "a mod 4 * 16 + b div 16 < 64" "b mod 16 * 4 + c div 64 < 64" "c mod 64 < 64"
  using assms by auto

lemma b64_char_plain:
  "n < 64 \<Longrightarrow> b64_char n \<noteq> CHR ''='' \<and> b64_char n \<noteq> CHR 0x0A \<and> b64_char n \<noteq> CHR 0x0D"
  by (rule ccontr) (auto dest!: b64_val_char simp: b64_val_def)

lemma b64_raw_plain:
  "\<forall>b\<in>set bs. b < 256 \<Longrightarrow> c \<in> set (b64_raw bs) \<Longrightarrow>
     c \<noteq> CHR ''='' \<and> c \<noteq> CHR 0x0A \<and> c \<noteq> CHR 0x0D"
  by (induction bs rule: b64_raw.induct) (auto intro!: b64_char_plain)

lemma b64_round: "\<forall>b\<in>set bs. b < 256 \<Longrightarrow>
    Option.bind (b64_vals (b64_raw bs)) b64_groups = Some bs"
proof (induction bs rule: b64_raw.induct)
  case (4 a b c r)
  then obtain vs where v: "b64_vals (b64_raw r) = Some vs" and g: "b64_groups vs = Some r"
    by (auto simp: bind_eq_Some_conv)
  from 4 have lt: "a < 256" "b < 256" "c < 256" by auto
  note bnd = b64_bounds [OF lt]
  show ?case using v g bnd by simp
next
  case (3 a b)
  then have lt: "a < 256" "b < 256" "(0::nat) < 256" by auto
  show ?case using b64_bounds [OF lt] by simp
next
  case (2 a)
  then have lt: "a < 256" "(0::nat) < 256" "(0::nat) < 256" by auto
  show ?case using b64_bounds [OF lt] by simp
qed simp

lemma drop_newlines_raw:
  "\<forall>b\<in>set bs. b < 256 \<Longrightarrow> drop_newlines (b64_raw bs) = b64_raw bs"
  by (auto simp: drop_newlines_def filter_id_conv dest: b64_raw_plain)

lemma unat_lt_256: "\<forall>b\<in>set (map unat (bs :: u8 list)). b < 256"
  by auto

lemma b64_raw_roundtrip: "b64_raw_decode (b64_raw_encode bs) = Some bs"
proof -
  have "Option.bind (b64_vals (b64_raw (map unat bs))) b64_groups = Some (map unat bs)"
    by (rule b64_round) (rule unat_lt_256)
  then show ?thesis
    by (auto simp: b64_raw_decode_def b64_raw_encode_def drop_newlines_raw [OF unat_lt_256]
        bind_eq_Some_conv o_def)
qed

lemma takeWhile_raw:
  "takeWhile (\<lambda>c. c \<noteq> CHR ''='') (b64_raw_encode bs @ replicate k CHR ''='') = b64_raw_encode bs"
proof -
  have "\<forall>c\<in>set (b64_raw_encode bs). c \<noteq> CHR ''=''"
    using b64_raw_plain [OF unat_lt_256] by (auto simp: b64_raw_encode_def)
  then show ?thesis by (cases k) (simp_all add: takeWhile_append2)
qed

lemma b64_roundtrip: "b64_decode (b64_encode bs) = Some bs"
proof -
  let ?r = "b64_raw_encode bs" and ?p = "replicate ((4 - length (b64_raw_encode bs) mod 4) mod 4) CHR ''=''"
  have "drop_newlines (?r @ ?p) = ?r @ ?p"
    using drop_newlines_raw [OF unat_lt_256, of bs]
    by (simp add: drop_newlines_def b64_raw_encode_def)
  then show ?thesis
    by (simp add: b64_decode_def b64_encode_def Let_def takeWhile_raw b64_raw_roundtrip)
qed


subsection \<open>Base64, standard alphabet\<close>

text \<open>
  \<^verbatim>\<open>base64.StdEncoding\<close> has \<^verbatim>\<open>+\<close> and \<^verbatim>\<open>/\<close> where the URL alphabet has \<^verbatim>\<open>-\<close> and \<^verbatim>\<open>_\<close>.
\<close>

definition to_std :: "char \<Rightarrow> char" where
  "to_std c = (if c = CHR ''-'' then CHR ''+'' else if c = CHR ''_'' then CHR ''/'' else c)"

definition to_url :: "char \<Rightarrow> char" where
  "to_url c = (if c = CHR ''+'' then CHR ''-'' else if c = CHR ''/'' then CHR ''_'' else c)"

definition b64_std_encode :: "u8 list \<Rightarrow> string" where
  "b64_std_encode bs = map to_std (b64_encode bs)"

definition b64_std_decode :: "string \<Rightarrow> u8 list option" where
  "b64_std_decode s =
     (if CHR ''-'' \<in> set s \<or> CHR ''_'' \<in> set s then None else b64_decode (map to_url s))"

definition b64_alphabet :: "char \<Rightarrow> bool" where
  "b64_alphabet c \<longleftrightarrow> visible c \<and> c \<noteq> CHR ''+'' \<and> c \<noteq> CHR ''/''"

lemma b64_char_alphabet: "n < 64 \<Longrightarrow> b64_alphabet (b64_char n)"
  by (auto simp: b64_alphabet_def b64_char_def visible_def Let_def) (auto dest!: arg_cong [where f = "of_char :: char \<Rightarrow> nat"])

lemma b64_raw_alphabet: "\<forall>b\<in>set bs. b < 256 \<Longrightarrow> c \<in> set (b64_raw bs) \<Longrightarrow> b64_alphabet c"
  by (induction bs rule: b64_raw.induct) (auto intro!: b64_char_alphabet)

lemma b64_encode_alphabet: "c \<in> set (b64_encode bs) \<Longrightarrow> b64_alphabet c"
  using b64_raw_alphabet [OF unat_lt_256, of c bs]
  by (auto simp: b64_encode_def b64_raw_encode_def Let_def b64_alphabet_def visible_def)

lemma b64_std_visible: "c \<in> set (b64_std_encode bs) \<Longrightarrow> visible c"
  using b64_encode_alphabet by (auto simp: b64_std_encode_def to_std_def b64_alphabet_def visible_def)

lemma b64_std_roundtrip: "b64_std_decode (b64_std_encode bs) = Some bs"
proof -
  have "to_url (to_std c) = c" if "c \<in> set (b64_encode bs)" for c
    using b64_encode_alphabet [OF that] by (auto simp: to_url_def to_std_def b64_alphabet_def)
  then have "map to_url (map to_std (b64_encode bs)) = b64_encode bs" by (simp add: map_idI)
  moreover have "to_std c \<noteq> CHR ''-'' \<and> to_std c \<noteq> CHR ''_''" for c
    by (simp add: to_std_def)
  then have "CHR ''-'' \<notin> set (b64_std_encode bs)" "CHR ''_'' \<notin> set (b64_std_encode bs)"
    by (auto simp: b64_std_encode_def) metis+
  ultimately show ?thesis by (simp add: b64_std_decode_def b64_std_encode_def b64_roundtrip)
qed

end
