(* ===== verification/CookieLimit.thy ===== *)
theory CookieLimit
  imports Crypto
begin

text \<open>
  The per-cookie limiter, \<^verbatim>\<open>internal/client/ratelimit/cookie_limiter.go\<close>: fixed windows
  keyed by the FNV-1a hash of the cookie, and the map of the revoked hashes. Proved here: how
  many requests one cookie can get through in any interval of the length of the window, and
  for how long a revocation is guaranteed to hold.
\<close>

record cookie_counter =
  cc_count :: int
  window_start :: gotime

record cookie_limiter =
  counters :: "u64 \<rightharpoonup> cookie_counter"
  revoked :: "u64 \<rightharpoonup> gotime"
  cl_threshold :: int
  cl_window :: duration

definition new_cookie_limiter :: "int \<Rightarrow> duration \<Rightarrow> cookie_limiter" where
  "new_cookie_limiter thr w =
     \<lparr>counters = Map.empty, revoked = Map.empty, cl_threshold = thr, cl_window = w\<rparr>"

definition hash_cookie :: "string \<Rightarrow> u64" where
  "hash_cookie c = fnv1a64 c"

definition record_and_check :: "string \<Rightarrow> gotime \<Rightarrow> cookie_limiter \<Rightarrow> bool \<times> cookie_limiter" where
  "record_and_check cookie now s =
     (let h = hash_cookie cookie in
      if revoked s h \<noteq> None then (False, s)
      else
        let c0 = (case counters s h of None \<Rightarrow> \<lparr>cc_count = 0, window_start = now\<rparr> | Some c \<Rightarrow> c);
            c1 = (if cl_window s \<le> time_sub now (window_start c0)
                  then c0\<lparr>cc_count := 0, window_start := now\<rparr> else c0);
            c2 = c1\<lparr>cc_count := cc_count c1 + 1\<rparr>
        in if cl_threshold s < cc_count c2
           then (False, s\<lparr>counters := (counters s)(h := None), revoked := (revoked s)(h \<mapsto> now)\<rparr>)
           else (True, s\<lparr>counters := (counters s)(h \<mapsto> c2)\<rparr>))"

definition is_revoked :: "string \<Rightarrow> cookie_limiter \<Rightarrow> bool" where
  "is_revoked cookie s \<longleftrightarrow> revoked s (hash_cookie cookie) \<noteq> None"

definition cookie_cleanup :: "gotime \<Rightarrow> cookie_limiter \<Rightarrow> cookie_limiter" where
  "cookie_cleanup now s =
     (let expiry = i64 (2 * cl_window s)
      in s\<lparr>counters := map_keep (\<lambda>c. \<not> cl_window s \<le> time_sub now (window_start c)) (counters s),
           revoked := map_keep (\<lambda>t. \<not> expiry \<le> time_sub now t) (revoked s)\<rparr>)"

datatype cl_op = Check string | Sweep_cookies

fun cl_step :: "cl_op \<Rightarrow> gotime \<Rightarrow> cookie_limiter \<Rightarrow> bool \<times> cookie_limiter" where
  "cl_step (Check c) now s = record_and_check c now s"
| "cl_step Sweep_cookies now s = (False, cookie_cleanup now s)"

text \<open>The number of requests of the cookies of hash \<open>h\<close> that get through in a run.\<close>

fun passes :: "u64 \<Rightarrow> (gotime \<times> cl_op) list \<Rightarrow> cookie_limiter \<Rightarrow> int" where
  "passes h [] s = 0"
| "passes h ((now, op) # ops) s =
     (let (ok, s') = cl_step op now s
      in (case op of Check c \<Rightarrow> if ok \<and> hash_cookie c = h then 1 else 0 | Sweep_cookies \<Rightarrow> 0)
         + passes h ops s')"

subsection \<open>Invariant\<close>

definition cl_config_ok :: "cookie_limiter \<Rightarrow> bool" where
  "cl_config_ok s \<longleftrightarrow> 0 \<le> cl_threshold s \<and> 0 < cl_window s \<and> cl_window s \<le> 4611686018427387903"

definition cl_inv :: "cookie_limiter \<Rightarrow> bool" where
  "cl_inv s \<longleftrightarrow> cl_config_ok s \<and> (\<forall>h c. counters s h = Some c \<longrightarrow>
     0 \<le> cc_count c \<and> cc_count c \<le> cl_threshold s \<and> revoked s h = None)"

lemma window_in_i64: "cl_config_ok s \<Longrightarrow> in_i64 (cl_window s) \<and> i64_min < cl_window s \<and>
    in_i64 (2 * cl_window s) \<and> i64_min < 2 * cl_window s \<and> i64 (2 * cl_window s) = 2 * cl_window s"
  by (auto simp: cl_config_ok_def in_i64_def i64_max_def i64_min_def i64_double_id)

lemma window_over:
  "cl_config_ok s \<Longrightarrow> cl_window s \<le> time_sub now u \<longleftrightarrow> u + cl_window s \<le> now"
  using time_sub_ge [of "cl_window s" now u] window_in_i64 [of s] by linarith

lemma revocation_over:
  "cl_config_ok s \<Longrightarrow> i64 (2 * cl_window s) \<le> time_sub now u \<longleftrightarrow> u + 2 * cl_window s \<le> now"
  using time_sub_ge [of "2 * cl_window s" now u] window_in_i64 [of s] by simp linarith

lemma cl_inv_step: "cl_inv s \<Longrightarrow> cl_inv (snd (cl_step op now s))"
  by (cases op)
     (auto simp: cl_inv_def cl_config_ok_def record_and_check_def cookie_cleanup_def Let_def
        map_keep_None split: option.splits if_splits)

lemma cl_inv_new: "0 \<le> thr \<Longrightarrow> 0 < w \<Longrightarrow> w \<le> 4611686018427387903 \<Longrightarrow> cl_inv (new_cookie_limiter thr w)"
  by (simp add: cl_inv_def cl_config_ok_def new_cookie_limiter_def)

lemma cl_config_step [simp]:
  "cl_threshold (snd (cl_step op now s)) = cl_threshold s"
  "cl_window (snd (cl_step op now s)) = cl_window s"
  by (cases op; auto simp: record_and_check_def cookie_cleanup_def Let_def split: option.splits)+

subsection \<open>A revocation holds for twice the window\<close>

lemma revoked_step:
  assumes "cl_inv s" "revoked s h = Some tr" "now < tr + 2 * cl_window s"
  shows "revoked (snd (cl_step op now s)) h = Some tr"
    and "op = Check c \<Longrightarrow> hash_cookie c = h \<Longrightarrow> \<not> fst (cl_step op now s)"
proof -
  have "cl_config_ok s" using assms(1) by (simp add: cl_inv_def)
  then show "revoked (snd (cl_step op now s)) h = Some tr"
    using assms(2,3) revocation_over [of s now tr]
    by (cases op) (auto simp: record_and_check_def cookie_cleanup_def Let_def split: option.splits)
  show "op = Check c \<Longrightarrow> hash_cookie c = h \<Longrightarrow> \<not> fst (cl_step op now s)"
    using assms(2) by (simp add: record_and_check_def Let_def)
qed

lemma passes_Cons:
  "passes h ((now, op) # ops) s =
     (case op of Check c \<Rightarrow> if fst (cl_step op now s) \<and> hash_cookie c = h then 1 else 0
      | Sweep_cookies \<Rightarrow> 0) + passes h ops (snd (cl_step op now s))"
  by (cases op) (simp_all add: Let_def split: prod.splits)

lemma passes_revoked:
  assumes "cl_inv s" "revoked s h = Some tr" "\<forall>(now, op)\<in>set ops. now < tr + 2 * cl_window s"
  shows "passes h ops s = 0"
  using assms
proof (induction ops arbitrary: s)
  case (Cons x ops)
  obtain now op where x: "x = (now, op)" by force
  let ?s = "snd (cl_step op now s)"
  have r: "now < tr + 2 * cl_window s" using Cons.prems(3) x by auto
  have "passes h ops ?s = 0"
    using Cons x revoked_step(1) [OF Cons.prems(1,2) r, of op]
    by (intro Cons.IH) (auto intro: cl_inv_step)
  with revoked_step(2) [OF Cons.prems(1,2) r] show ?case
    by (cases op) (auto simp: x passes_Cons simp del: passes.simps(2) cl_step.simps)
qed simp

text \<open>
  Once a cookie went over its threshold, at \<open>tr\<close>, no request with that cookie gets through
  before \<open>tr + 2 * window\<close>, however the requests and the cleanups are interleaved.
\<close>

theorem revoked_cookie_blocked:
  assumes "cl_inv s" "fst (record_and_check cookie tr s) = False"
    and "revoked s (hash_cookie cookie) = None"
    and "\<forall>(now, op)\<in>set ops. now < tr + 2 * cl_window s"
  shows "passes (hash_cookie cookie) ops (snd (record_and_check cookie tr s)) = 0"
proof -
  let ?s = "snd (record_and_check cookie tr s)"
  have "cl_inv ?s" using cl_inv_step [OF assms(1), of "Check cookie" tr] by simp
  moreover have "revoked ?s (hash_cookie cookie) = Some tr"
    using assms(2,3) by (auto simp: record_and_check_def Let_def split: option.splits if_splits)
  moreover have "cl_window ?s = cl_window s"
    using cl_config_step(2) [of "Check cookie" tr s] by simp
  ultimately show ?thesis using assms(4) by (simp add: passes_revoked)
qed

theorem revoked_cookie_blocked_witness:
  "passes (hash_cookie ''c'') [(5, Sweep_cookies), (119, Check ''c'')]
     (snd (record_and_check ''c'' 0 (new_cookie_limiter 0 60))) = 0"
  by (rule revoked_cookie_blocked)
     (simp_all add: cl_inv_new, simp_all add: record_and_check_def new_cookie_limiter_def Let_def
        time_sub_def i64_max_def i64_min_def)

subsection \<open>How much one cookie gets through\<close>

definition used :: "cookie_limiter \<Rightarrow> u64 \<Rightarrow> int" where
  "used s h = (case counters s h of None \<Rightarrow> 0 | Some c \<Rightarrow> cc_count c)"

definition young :: "gotime \<Rightarrow> cookie_limiter \<Rightarrow> u64 \<Rightarrow> bool" where
  "young a s h \<longleftrightarrow> (\<forall>c. counters s h = Some c \<longrightarrow> a \<le> window_start c)"

text \<open>
  One check of the cookie: it is refused, or it counts. A counter that started after \<open>a\<close> is
  neither reset nor dropped before \<open>a + window\<close>.
\<close>

lemma check_step:
  assumes "cl_inv s" "a \<le> now" "now < a + cl_window s" "young a s h"
  shows "young a (snd (cl_step op now s)) h"
    and "(case op of Check c \<Rightarrow> if fst (cl_step op now s) \<and> hash_cookie c = h then 1 else 0
          | Sweep_cookies \<Rightarrow> 0) + (cl_threshold s - used (snd (cl_step op now s)) h)
         \<le> cl_threshold s - used s h
       \<or> (\<exists>tr\<ge>a. revoked (snd (cl_step op now s)) h = Some tr) \<and> \<not> fst (cl_step op now s)"
proof -
  have c: "cl_config_ok s" using assms(1) by (simp add: cl_inv_def)
  have nz: "cl_window s \<noteq> 0" "\<not> cl_window s \<le> 0" using c by (auto simp: cl_config_ok_def)
  have nr: "\<not> cl_window s \<le> time_sub now (window_start x)" if "counters s h = Some x" for x
    using that assms(3,4) window_over [OF c, of now "window_start x"] by (auto simp: young_def)
  show "young a (snd (cl_step op now s)) h"
    using assms(2,4) by (cases op)
      (auto simp: young_def record_and_check_def cookie_cleanup_def Let_def
        split: option.splits if_splits)
  show "(case op of Check c \<Rightarrow> if fst (cl_step op now s) \<and> hash_cookie c = h then 1 else 0
          | Sweep_cookies \<Rightarrow> 0) + (cl_threshold s - used (snd (cl_step op now s)) h)
         \<le> cl_threshold s - used s h
       \<or> (\<exists>tr\<ge>a. revoked (snd (cl_step op now s)) h = Some tr) \<and> \<not> fst (cl_step op now s)"
  proof (cases op)
    case (Check cookie)
    then show ?thesis
      using assms(2) nr nz window_over [OF c, of now now]
      by (auto simp: used_def record_and_check_def Let_def split: option.splits)
  next
    case Sweep_cookies
    then show ?thesis
      using nr by (auto simp: used_def cookie_cleanup_def map_keep_def Let_def split: option.splits)
  qed
qed

lemma used_bounds: "cl_inv s \<Longrightarrow> 0 \<le> used s h \<and> used s h \<le> cl_threshold s"
  by (auto simp: used_def cl_inv_def cl_config_ok_def split: option.splits)

lemma passes_young:
  assumes "cl_inv s" "young a s h" "\<forall>(now, op)\<in>set ops. a \<le> now \<and> now < a + cl_window s"
  shows "passes h ops s \<le> cl_threshold s - used s h"
  using assms
proof (induction ops arbitrary: s)
  case (Cons x ops)
  obtain now op where x: "x = (now, op)" by force
  let ?s = "snd (cl_step op now s)"
  from Cons.prems x have n: "a \<le> now" "now < a + cl_window s" by auto
  have i: "cl_inv ?s" using Cons.prems(1) by (rule cl_inv_step)
  have IH: "passes h ops ?s \<le> cl_threshold s - used ?s h"
    using Cons.IH [OF i check_step(1) [OF Cons.prems(1) n Cons.prems(2)]] Cons.prems(3) x by simp
  from check_step(2) [OF Cons.prems(1) n Cons.prems(2), of op] show ?case
  proof
    assume "(\<exists>tr\<ge>a. revoked ?s h = Some tr) \<and> \<not> fst (cl_step op now s)"
    then obtain tr where "a \<le> tr" "revoked ?s h = Some tr" and f: "\<not> fst (cl_step op now s)" by auto
    moreover have "0 < cl_window s" using Cons.prems(1) by (simp add: cl_inv_def cl_config_ok_def)
    ultimately have "passes h ops ?s = 0"
      using Cons.prems(3) x by (intro passes_revoked [OF i]) auto
    with f used_bounds [OF Cons.prems(1), of h] show ?thesis
      by (cases op) (auto simp: x passes_Cons simp del: passes.simps(2) cl_step.simps)
  next
    assume "(case op of Check c \<Rightarrow> if fst (cl_step op now s) \<and> hash_cookie c = h then 1 else 0
          | Sweep_cookies \<Rightarrow> 0) + (cl_threshold s - used ?s h) \<le> cl_threshold s - used s h"
    with IH show ?thesis by (simp add: x passes_Cons del: passes.simps(2) cl_step.simps)
  qed
qed (use used_bounds in auto)

text \<open>An old counter counts on until it is over the threshold, or its window is found over.\<close>

lemma check_old:
  assumes "cl_inv s" "\<not> young a s h" "a \<le> now"
  shows "young a (snd (cl_step op now s)) h \<and>
       (case op of Check c \<Rightarrow> if fst (cl_step op now s) \<and> hash_cookie c = h then 1 else 0
        | Sweep_cookies \<Rightarrow> 0) + (cl_threshold s - used (snd (cl_step op now s)) h) \<le> cl_threshold s
     \<or> \<not> young a (snd (cl_step op now s)) h \<and>
       (case op of Check c \<Rightarrow> if fst (cl_step op now s) \<and> hash_cookie c = h then 1 else 0
        | Sweep_cookies \<Rightarrow> 0) + (cl_threshold s - used (snd (cl_step op now s)) h)
          \<le> cl_threshold s - used s h"
proof -
  obtain c where c: "counters s h = Some c" "window_start c < a" "revoked s h = None"
    "0 \<le> cc_count c" "cc_count c \<le> cl_threshold s"
    using assms(1,2) by (auto simp: young_def cl_inv_def not_le)
  show ?thesis
  proof (cases op)
    case (Check cookie)
    with c assms(3) show ?thesis
      by (auto simp: young_def used_def record_and_check_def Let_def split: option.splits)
  next
    case Sweep_cookies
    with c show ?thesis
      by (auto simp: young_def used_def cookie_cleanup_def map_keep_def Let_def split: option.splits)
  qed
qed

lemma passes_old:
  assumes "cl_inv s" "\<forall>(now, op)\<in>set ops. a \<le> now \<and> now < a + cl_window s"
  shows "passes h ops s \<le> (if young a s h then 0 else cl_threshold s) + (cl_threshold s - used s h)"
  using assms
proof (induction ops arbitrary: s)
  case (Cons x ops)
  obtain now op where x: "x = (now, op)" by force
  let ?s = "snd (cl_step op now s)"
  from Cons.prems x have n: "a \<le> now" by auto
  have i: "cl_inv ?s" using Cons.prems(1) by (rule cl_inv_step)
  have IH: "passes h ops ?s \<le> (if young a ?s h then 0 else cl_threshold s) + (cl_threshold s - used ?s h)"
    using Cons.IH [OF i] Cons.prems(2) unfolding x cl_config_step by simp
  show ?case
  proof (cases "young a s h")
    case True
    then show ?thesis using passes_young [OF Cons.prems(1) True Cons.prems(2)] by simp
  next
    case False
    from check_old [OF Cons.prems(1) False n, of op] IH used_bounds [OF Cons.prems(1), of h] False
    show ?thesis by (auto simp: x passes_Cons simp del: passes.simps(2) cl_step.simps split: if_splits)
  qed
next
  case Nil
  then show ?case using used_bounds [OF Nil.prems(1), of h] by auto
qed

text \<open>
  C7. From any reachable state, in any interval as long as the window, at most twice the
  threshold of the requests of one cookie get through (the windows are fixed, so a burst can
  straddle two of them), and at most the threshold when the interval starts with no counter.
\<close>

theorem cookie_passes_bounded:
  assumes "cl_inv s" "\<forall>(now, op)\<in>set ops. a \<le> now \<and> now < a + cl_window s"
  shows "passes h ops s \<le> (if counters s h = None then cl_threshold s else 2 * cl_threshold s)"
  using passes_old [OF assms, of h] used_bounds [OF assms(1), of h]
  by (auto simp: young_def split: if_splits)

theorem cookie_passes_bounded_witness:
  "passes (hash_cookie ''c'') [(5, Check ''c''), (5, Check ''c''), (6, Sweep_cookies), (64, Check ''c'')]
     (new_cookie_limiter 2 60) \<le> 2"
  using cookie_passes_bounded [of "new_cookie_limiter 2 60"
      "[(5, Check ''c''), (5, Check ''c''), (6, Sweep_cookies), (64, Check ''c'')]" 5 "hash_cookie ''c''"]
  by (simp add: cl_inv_new del: passes.simps) (simp add: new_cookie_limiter_def del: passes.simps)

text \<open>
  A revocation is forgotten by the first cleanup at or after \<open>tr + 2 * window\<close>: the same
  cookie gets through again. With the client's window of 60 seconds that is two minutes after
  the revocation, while the cookie itself stays valid for five.
\<close>

theorem revoked_cookie_back:
  assumes "cl_inv s" "revoked s (hash_cookie cookie) = Some tr" "1 \<le> cl_threshold s"
    and "tr + 2 * cl_window s \<le> now" "now \<le> now'"
  shows "fst (record_and_check cookie now' (cookie_cleanup now s))"
proof -
  have c: "cl_config_ok s" using assms(1) by (simp add: cl_inv_def)
  have "revoked (cookie_cleanup now s) (hash_cookie cookie) = None"
    using assms(2,4) revocation_over [OF c, of now tr]
    by (simp add: cookie_cleanup_def Let_def map_keep_None)
  moreover have "counters (cookie_cleanup now s) (hash_cookie cookie) = None"
    using assms(1,2) by (auto simp: cookie_cleanup_def Let_def map_keep_None cl_inv_def)
  moreover have "cl_threshold (cookie_cleanup now s) = cl_threshold s"
    by (simp add: cookie_cleanup_def Let_def)
  ultimately show ?thesis using assms(3) by (simp add: record_and_check_def Let_def)
qed

lemma revoked_cookie_back_start:
  "cl_inv ((new_cookie_limiter 1 60)\<lparr>revoked := [hash_cookie ''c'' \<mapsto> 0]\<rparr>)"
  by (simp add: cl_inv_def cl_config_ok_def new_cookie_limiter_def)

theorem revoked_cookie_back_witness:
  "fst (record_and_check ''c'' 121 (cookie_cleanup 120
     ((new_cookie_limiter 1 60)\<lparr>revoked := [hash_cookie ''c'' \<mapsto> 0]\<rparr>)))"
  by (rule revoked_cookie_back [where tr = 0])
     (simp_all add: revoked_cookie_back_start, simp_all add: new_cookie_limiter_def)

end
