(* ===== verification/Escalation.thy ===== *)
theory Escalation
  imports Prelude
begin

text \<open>
  The escalation engine, \<^verbatim>\<open>internal/client/escalation/engine.go\<close>: a challenge level from 0 to
  4 for every address, raised by failures and lowered by the time without an escalation.
  \<open>get_level\<close> divides by the cooldown: with a cooldown of zero that is a run-time panic, the
  value \<open>None\<close> here. The code reads under one lock and writes under another; here it is one step.
\<close>

record esc_config =
  failure_threshold :: int
  failure_window :: duration
  cooldown :: duration

record esc_state =
  level :: int
  failure_count :: int
  last_failure :: gotime
  last_escalation :: gotime
  last_activity :: gotime

record esc_engine =
  esc_states :: "string \<rightharpoonup> esc_state"
  allowlist :: "string list"
  esc_conf :: esc_config

definition new_esc_engine :: "esc_config \<Rightarrow> string list \<Rightarrow> esc_engine" where
  "new_esc_engine c admins = \<lparr>esc_states = Map.empty, allowlist = admins, esc_conf = c\<rparr>"

definition get_level :: "string \<Rightarrow> gotime \<Rightarrow> esc_engine \<Rightarrow> (int \<times> esc_engine) option" where
  "get_level ip now e =
     (if ip \<in> set (allowlist e) then Some (0, e)
      else case esc_states e ip of
        None \<Rightarrow> Some (1, e)
      | Some st \<Rightarrow>
          if 0 < level st \<and> \<not> is_zero_time (last_escalation st) then
            if cooldown (esc_conf e) = 0 then None
            else
              let elapsed = time_sub now (last_escalation st);
                  steps = go_div elapsed (cooldown (esc_conf e))
              in if 0 < steps then
                   let l = max 0 (level st - steps)
                   in Some (l, e\<lparr>esc_states := (esc_states e)(ip \<mapsto>
                        st\<lparr>level := l, last_escalation := now, last_activity := now\<rparr>)\<rparr>)
                 else Some (level st, e)
          else Some (level st, e))"

definition fresh_state :: esc_state where
  "fresh_state = \<lparr>level = 1, failure_count = 0, last_failure = zero_time,
     last_escalation = zero_time, last_activity = zero_time\<rparr>"

definition esc_fail :: "esc_config \<Rightarrow> gotime \<Rightarrow> esc_state \<Rightarrow> esc_state" where
  "esc_fail c now st =
     (let st1 = (if \<not> is_zero_time (last_failure st) \<and> failure_window c < time_sub now (last_failure st)
                 then st\<lparr>failure_count := 0\<rparr> else st);
          st2 = st1\<lparr>failure_count := failure_count st1 + 1, last_failure := now, last_activity := now\<rparr>
      in if failure_threshold c < failure_count st2 \<and> level st2 < 4
         then st2\<lparr>level := level st2 + 1, last_escalation := now, failure_count := 0\<rparr>
         else st2)"

definition record_failure :: "string \<Rightarrow> gotime \<Rightarrow> esc_engine \<Rightarrow> esc_engine" where
  "record_failure ip now e =
     (let st = (case esc_states e ip of None \<Rightarrow> fresh_state | Some st \<Rightarrow> st)
      in e\<lparr>esc_states := (esc_states e)(ip \<mapsto> esc_fail (esc_conf e) now st)\<rparr>)"

definition record_success :: "string \<Rightarrow> gotime \<Rightarrow> esc_engine \<Rightarrow> esc_engine" where
  "record_success ip now e =
     (case esc_states e ip of
        None \<Rightarrow> e
      | Some st \<Rightarrow> e\<lparr>esc_states := (esc_states e)(ip \<mapsto> st\<lparr>failure_count := 0, last_activity := now\<rparr>)\<rparr>)"

definition esc_cleanup :: "gotime \<Rightarrow> esc_engine \<Rightarrow> esc_engine" where
  "esc_cleanup now e =
     e\<lparr>esc_states := map_keep (\<lambda>st. \<not> i64 (2 * cooldown (esc_conf e)) < time_sub now (last_activity st))
        (esc_states e)\<rparr>"

subsection \<open>Runs and the invariant\<close>

datatype esc_op = Level_of string | Failure string | Success string | Sweep_states

definition after_level :: "string \<Rightarrow> gotime \<Rightarrow> esc_engine \<Rightarrow> esc_engine" where
  "after_level ip now e = (case get_level ip now e of None \<Rightarrow> e | Some (l, e') \<Rightarrow> e')"

fun esc_step :: "gotime \<times> esc_op \<Rightarrow> esc_engine \<Rightarrow> esc_engine" where
  "esc_step (now, Level_of ip) e = after_level ip now e"
| "esc_step (now, Failure ip) e = record_failure ip now e"
| "esc_step (now, Success ip) e = record_success ip now e"
| "esc_step (now, Sweep_states) e = esc_cleanup now e"

definition esc_run :: "(gotime \<times> esc_op) list \<Rightarrow> esc_engine \<Rightarrow> esc_engine" where
  "esc_run ops e = fold esc_step ops e"

text \<open>
  The invariant, with the number \<open>n ip\<close> of failures recorded so far: levels stay in 0..4, a
  level above 1 and the pending failures are paid for by failures, one level costing one more
  than the threshold.
\<close>

definition state_ok :: "esc_config \<Rightarrow> int \<Rightarrow> esc_state \<Rightarrow> bool" where
  "state_ok c n st \<longleftrightarrow> 0 \<le> level st \<and> level st \<le> 4 \<and> 0 \<le> failure_count st \<and>
     (level st - 1) * (failure_threshold c + 1) + failure_count st \<le> n"

definition esc_inv :: "(string \<Rightarrow> int) \<Rightarrow> esc_engine \<Rightarrow> bool" where
  "esc_inv n e \<longleftrightarrow> 0 \<le> failure_threshold (esc_conf e) \<and> (\<forall>ip. 0 \<le> n ip) \<and>
     (\<forall>ip st. esc_states e ip = Some st \<longrightarrow> state_ok (esc_conf e) (n ip) st)"

fun failures :: "string \<Rightarrow> (gotime \<times> esc_op) list \<Rightarrow> int" where
  "failures ip [] = 0"
| "failures ip ((t, Failure ip') # ops) = (if ip' = ip then 1 else 0) + failures ip ops"
| "failures ip (_ # ops) = failures ip ops"

lemma state_ok_fresh: "0 \<le> failure_threshold c \<Longrightarrow> 0 \<le> n \<Longrightarrow> state_ok c n fresh_state"
  by (simp add: state_ok_def fresh_state_def)

lemma state_ok_fail:
  assumes "state_ok c n st" "0 \<le> failure_threshold c"
  shows "state_ok c (n + 1) (esc_fail c now st)"
proof -
  have "(level st - 1) * (failure_threshold c + 1) \<le> n"
    and "(level st - 1) * (failure_threshold c + 1) + failure_count st \<le> n"
    using assms(1) by (auto simp: state_ok_def)
  then show ?thesis
    using assms by (auto simp: state_ok_def esc_fail_def Let_def algebra_simps)
qed

lemma state_ok_lower:
  assumes "state_ok c n st" "0 \<le> l" "l \<le> level st" "0 \<le> failure_threshold c"
  shows "state_ok c n (st\<lparr>level := l, last_escalation := a, last_activity := b\<rparr>)"
proof -
  have "(l - 1) * (failure_threshold c + 1) \<le> (level st - 1) * (failure_threshold c + 1)"
    using assms(3,4) by (simp add: mult_right_mono)
  moreover have "(level st - 1) * (failure_threshold c + 1) + failure_count st \<le> n"
    using assms(1) by (simp add: state_ok_def)
  ultimately have "(l - 1) * (failure_threshold c + 1) + failure_count st \<le> n" by linarith
  with assms show ?thesis by (simp add: state_ok_def)
qed

lemma esc_conf_step [simp]: "esc_conf (esc_step op e) = esc_conf e"
  by (cases "(op, e)" rule: esc_step.cases)
     (auto simp: after_level_def get_level_def record_failure_def record_success_def
       esc_cleanup_def Let_def split: option.splits if_splits)

lemma esc_inv_step:
  assumes "esc_inv n e"
  shows "esc_inv (\<lambda>ip. n ip + failures ip [op]) (esc_step op e)"
proof (cases "(op, e)" rule: esc_step.cases)
  case (1 now ip e')
  with assms show ?thesis
    by (auto simp: esc_inv_def after_level_def get_level_def Let_def
        split: option.splits if_splits intro!: state_ok_lower)
next
  case (2 now ip e')
  with assms show ?thesis
    by (auto simp: esc_inv_def record_failure_def Let_def
        split: option.splits if_splits intro!: state_ok_fail state_ok_fresh)
next
  case (3 now ip e')
  with assms show ?thesis
    by (fastforce simp: esc_inv_def record_success_def state_ok_def split: option.splits if_splits)
next
  case (4 now e')
  with assms show ?thesis by (auto simp: esc_inv_def esc_cleanup_def)
qed

lemma failures_Cons: "failures ip (op # ops) = failures ip [op] + failures ip ops"
  by (cases "(ip, op # ops)" rule: failures.cases) auto

lemma failures_nonneg: "0 \<le> failures ip ops"
  by (induction ip ops rule: failures.induct) auto

lemma esc_inv_run: "esc_inv n e \<Longrightarrow> esc_inv (\<lambda>ip. n ip + failures ip ops) (esc_run ops e)"
proof (induction ops arbitrary: n e)
  case (Cons op ops)
  from Cons.IH [OF esc_inv_step [OF Cons.prems]] show ?case
    by (simp add: esc_run_def failures_Cons [of _ op ops] add.assoc)
qed (simp add: esc_run_def)

lemma esc_inv_new: "0 \<le> failure_threshold c \<Longrightarrow> esc_inv (\<lambda>_. 0) (new_esc_engine c admins)"
  by (simp add: esc_inv_def new_esc_engine_def)

lemma esc_conf_run [simp]: "esc_conf (esc_run ops e) = esc_conf e"
  by (induction ops arbitrary: e) (simp_all add: esc_run_def)

lemma get_level_le:
  assumes "get_level ip now e = Some (l, e')" "esc_inv n e"
  shows "0 \<le> l \<and> l \<le> 4 \<and> (l - 1) * (failure_threshold (esc_conf e) + 1) \<le> n ip"
proof -
  let ?T = "failure_threshold (esc_conf e)"
  have T: "0 \<le> ?T" "0 \<le> n ip" using assms(2) by (auto simp: esc_inv_def)
  consider "l = 0" | "l = 1" | st where "esc_states e ip = Some st" "0 \<le> l" "l \<le> level st"
    using assms(1) assms(2)
    by (auto simp: get_level_def Let_def esc_inv_def state_ok_def split: option.splits if_splits)
  then show ?thesis
  proof cases
    case 3
    then have ok: "state_ok (esc_conf e) (n ip) st" using assms(2) by (simp add: esc_inv_def)
    have "(l - 1) * (?T + 1) \<le> (level st - 1) * (?T + 1)"
      using 3 T by (simp add: mult_right_mono)
    with ok 3 show ?thesis by (auto simp: state_ok_def)
  qed (use T in auto)
qed

text \<open>
  C6. Whatever the order of failures, successes, look-ups and cleanups, a level is between 0
  and 4, and every level above the first costs an address more failed challenges than the
  threshold: with \<open>n\<close> failures it is at most \<open>1 + n div (threshold + 1)\<close>. Failures of other
  addresses never raise it.
\<close>

theorem level_paid_by_failures:
  assumes "0 \<le> failure_threshold c"
    and "get_level ip now (esc_run ops (new_esc_engine c admins)) = Some (l, e')"
  shows "0 \<le> l \<and> l \<le> min 4 (1 + failures ip ops div (failure_threshold c + 1))"
proof -
  let ?T = "failure_threshold c"
  have "esc_inv (\<lambda>ip. 0 + failures ip ops) (esc_run ops (new_esc_engine c admins))"
    using esc_inv_run [OF esc_inv_new [OF assms(1)]] .
  from get_level_le [OF assms(2) this]
  have l: "0 \<le> l" "l \<le> 4" "(l - 1) * (?T + 1) \<le> failures ip ops"
    by (auto simp: new_esc_engine_def)
  have "l - 1 = (l - 1) * (?T + 1) div (?T + 1)" using assms(1) by simp
  also have "\<dots> \<le> failures ip ops div (?T + 1)"
    using l(3) assms(1) by (intro zdiv_mono1) auto
  finally show ?thesis using l by simp
qed

definition demo_esc :: esc_config where
  "demo_esc = \<lparr>failure_threshold = 1, failure_window = 300, cooldown = 100\<rparr>"

theorem level_paid_by_failures_witness:
  "0 \<le> (2::int) \<and> 2 \<le> min 4 (1 + failures ''a'' [(1, Failure ''a''), (2, Failure ''b''), (3, Failure ''a'')]
     div (failure_threshold demo_esc + 1))"
  by (rule level_paid_by_failures [where now = 5 and admins = "[]"])
     (simp_all add: demo_esc_def esc_run_def record_failure_def new_esc_engine_def get_level_def
        esc_fail_def fresh_state_def Let_def time_defs zero_time_def nanos_def time_sub_def
        i64_max_def i64_min_def go_div_def)

subsection \<open>Failures in a row\<close>

text \<open>The state of an address after failures at the instants \<open>ts\<close>, none too far apart.\<close>

fun close_by :: "duration \<Rightarrow> gotime list \<Rightarrow> bool" where
  "close_by w (t # t' # ts) = (t \<le> t' \<and> t' - t \<le> w \<and> close_by w (t' # ts))"
| "close_by w _ = True"

definition fail_run :: "esc_config \<Rightarrow> gotime list \<Rightarrow> esc_state" where
  "fail_run c ts = fold (esc_fail c) ts fresh_state"

lemma close_by_snoc:
  "close_by w (ts @ [t]) \<longleftrightarrow> close_by w ts \<and> (ts \<noteq> [] \<longrightarrow> last ts \<le> t \<and> t - last ts \<le> w)"
  by (induction w ts rule: close_by.induct) auto

lemma last_failure_run: "last_failure (fail_run c ts) = (if ts = [] then zero_time else last ts)"
  by (induction ts rule: rev_induct)
     (simp_all add: fail_run_def fresh_state_def esc_fail_def Let_def)

lemma fail_run_snoc:
  assumes "close_by (failure_window c) (ts @ [t])" "in_i64 (failure_window c)"
    "failure_window c < i64_max" "0 \<le> failure_threshold c"
  shows "fail_run c (ts @ [t]) =
    (let st = fail_run c ts; n = failure_count st + 1
     in if failure_threshold c < n \<and> level st < 4
        then st\<lparr>failure_count := 0, last_failure := t, last_activity := t, level := level st + 1,
                last_escalation := t\<rparr>
        else st\<lparr>failure_count := n, last_failure := t, last_activity := t\<rparr>)"
proof -
  let ?st = "fail_run c ts"
  have "is_zero_time (last_failure ?st) \<or> \<not> failure_window c < time_sub t (last_failure ?st)"
  proof (cases "ts = []")
    case False
    then have "t - last ts \<le> failure_window c" using assms(1) by (simp add: close_by_snoc)
    then show ?thesis
      using False assms(2,3) time_sub_gt [of "failure_window c" t "last ts"]
      by (simp add: last_failure_run)
  qed (simp add: last_failure_run is_zero_time_def)
  then show ?thesis by (auto simp: fail_run_def esc_fail_def Let_def)
qed

text \<open>
  Failures in a row, none further than the failure window from the one before, raise the
  level by one at every \<open>threshold + 1\<close>st of them, until level 4: the bound of the previous
  theorem is reached.
\<close>

theorem failures_in_a_row:
  assumes "close_by (failure_window c) ts" "in_i64 (failure_window c)"
    "failure_window c < i64_max" "0 \<le> failure_threshold c"
  shows "level (fail_run c ts) = min 4 (1 + int (length ts) div (failure_threshold c + 1))"
proof -
  let ?k = "failure_threshold c + 1"
  have "level (fail_run c ts) = min 4 (1 + int (length ts) div ?k) \<and>
    (level (fail_run c ts) < 4 \<longrightarrow> failure_count (fail_run c ts) = int (length ts) mod ?k)"
    using assms(1)
  proof (induction ts rule: rev_induct)
    case (snoc t ts)
    define n where "n = int (length ts)"
    define m where "m = n mod ?k"
    define q where "q = n div ?k"
    have k: "0 < ?k" using assms(4) by simp
    have n: "n = q * ?k + m" "0 \<le> m" "m < ?k"
      using k unfolding m_def q_def by (simp_all only: div_mult_mod_eq pos_mod_sign pos_mod_bound)
    have IH: "level (fail_run c ts) = min 4 (1 + q) \<and>
        (level (fail_run c ts) < 4 \<longrightarrow> failure_count (fail_run c ts) = m)"
      using snoc by (simp add: close_by_snoc n_def m_def q_def)
    have d: "(n + 1) div ?k = (if m + 1 = ?k then q + 1 else q)"
      and r: "(n + 1) mod ?k = (if m + 1 = ?k then 0 else m + 1)"
    proof -
      have "n + 1 = (if m + 1 = ?k then (q + 1) * ?k + 0 else q * ?k + (m + 1))"
        using n(1) by (simp add: algebra_simps)
      then show "(n + 1) div ?k = (if m + 1 = ?k then q + 1 else q)"
        and "(n + 1) mod ?k = (if m + 1 = ?k then 0 else m + 1)"
        using n k by (auto split: if_splits)
    qed
    have l: "int (length (ts @ [t])) = n + 1" by (simp add: n_def)
    have q0: "0 \<le> q" using k by (simp add: q_def n_def pos_imp_zdiv_nonneg_iff)
    show ?case
      unfolding l d r using IH n(2,3) q0
      by (auto simp: fail_run_snoc [OF snoc.prems assms(2-4)] Let_def min_def split: if_splits)
  qed (simp add: fail_run_def fresh_state_def)
  then show ?thesis ..
qed

theorem failures_in_a_row_witness: "level (fail_run demo_esc [1, 2, 200, 500]) = 3"
  using failures_in_a_row [of demo_esc "[1, 2, 200, 500]"]
  by (simp add: demo_esc_def in_i64_def i64_max_def i64_min_def)

subsection \<open>De-escalation\<close>

lemma get_level_panics_iff:
  "get_level ip now e = None \<longleftrightarrow> ip \<notin> set (allowlist e) \<and> cooldown (esc_conf e) = 0 \<and>
     (\<exists>st. esc_states e ip = Some st \<and> 0 < level st \<and> \<not> is_zero_time (last_escalation st))"
  by (auto simp: get_level_def Let_def split: option.splits)

text \<open>
  An address that escalated to level \<open>l\<close> at \<open>t0\<close> is, when it is next looked at, \<open>k\<close> full
  cooldowns later, at level \<open>max 0 (l - k)\<close>; the look-up restarts the cooldown, so a second
  look-up at the same instant sees the same level.
\<close>

theorem cooldown_lowers_level:
  assumes "ip \<notin> set (allowlist e)" "esc_states e ip = Some st" "0 < level st"
    and "\<not> is_zero_time (last_escalation st)" "0 < cooldown (esc_conf e)"
    and "last_escalation st \<le> now" "in_i64 (now - last_escalation st)"
  shows "\<exists>e'. get_level ip now e =
      Some (max 0 (level st - (now - last_escalation st) div cooldown (esc_conf e)), e') \<and>
    get_level ip now e' = Some (max 0 (level st - (now - last_escalation st) div cooldown (esc_conf e)), e')"
proof -
  let ?k = "(now - last_escalation st) div cooldown (esc_conf e)"
  have k: "go_div (time_sub now (last_escalation st)) (cooldown (esc_conf e)) = ?k" "0 \<le> ?k"
    using assms by (simp_all add: go_div_nonneg time_sub_eq pos_imp_zdiv_nonneg_iff)
  have z: "go_div (time_sub now now) (cooldown (esc_conf e)) = 0"
    by (simp add: go_div_def time_sub_def i64_max_def i64_min_def)
  show ?thesis
    using assms k z by (auto simp: get_level_def Let_def max_def)
qed

definition demo_engine :: esc_engine where
  "demo_engine = \<lparr>esc_states = [''a'' \<mapsto> \<lparr>level = 4, failure_count = 0, last_failure = 0,
     last_escalation = 0, last_activity = 0\<rparr>], allowlist = [], esc_conf = demo_esc\<rparr>"

theorem cooldown_lowers_level_witness:
  "\<exists>e'. get_level ''a'' 250 demo_engine = Some (2, e') \<and> get_level ''a'' 250 e' = Some (2, e')"
  using cooldown_lowers_level [of "''a''" demo_engine _ 250]
  by (simp add: demo_engine_def demo_esc_def is_zero_time_def zero_time_def nanos_def in_i64_def
      i64_max_def i64_min_def)

text \<open>
  The cleanup is not neutral: it drops the state of an address that was idle for more than
  two cooldowns, and with it the level. An address that reached level 4 and stays away for
  between two and three cooldowns is at level 2 without a cleanup, and a new visitor at
  level 1 after one.
\<close>

theorem cleanup_forgets_level:
  assumes "ip \<notin> set (allowlist e)" "esc_states e ip = Some st" "level st = 4"
    and "last_escalation st = start" "last_activity st = start" "\<not> is_zero_time start"
    and "0 < cooldown (esc_conf e)" "cooldown (esc_conf e) \<le> 3000000000000000000"
    and "start + 2 * cooldown (esc_conf e) < now" "now < start + 3 * cooldown (esc_conf e)"
  shows "map_option fst (get_level ip now e) = Some 2 \<and>
    map_option fst (get_level ip now (esc_cleanup now e)) = Some 1"
proof -
  let ?c = "cooldown (esc_conf e)"
  have d: "(now - start) div ?c = 2"
    using assms(7,9,10) by (intro int_div_pos_eq [where r = "now - start - 2 * ?c"]) auto
  have i: "in_i64 (now - start)" using assms(7-10) by (simp add: in_i64_def i64_max_def i64_min_def)
  have "i64 (2 * ?c) = 2 * ?c" using assms(7,8) by (simp add: i64_double_id)
  then have "i64 (2 * ?c) < time_sub now start" using assms(9) i by (simp add: time_sub_eq)
  then have "esc_states (esc_cleanup now e) ip = None"
    using assms(2,5) by (simp add: esc_cleanup_def map_keep_None)
  then have a: "map_option fst (get_level ip now (esc_cleanup now e)) = Some 1"
    using assms(1) by (simp add: get_level_def esc_cleanup_def)
  have "start \<le> now" using assms(7,9) by linarith
  then have "\<exists>e'. get_level ip now e = Some (2, e')"
    using cooldown_lowers_level [OF assms(1,2), of now] assms(3,4,6,7) i d by auto
  with a show ?thesis by auto
qed

theorem cleanup_forgets_level_witness:
  "map_option fst (get_level ''a'' 250 demo_engine) = Some 2 \<and>
   map_option fst (get_level ''a'' 250 (esc_cleanup 250 demo_engine)) = Some 1"
  by (rule cleanup_forgets_level [where start = 0])
     (simp_all add: demo_engine_def demo_esc_def is_zero_time_def zero_time_def nanos_def, simp_all)

end
