(* ===== verification/Http.thy ===== *)
theory Http
  imports Strings
begin

text \<open>
  The requests the client's handlers see. Header names are the canonical ones of
  \<^verbatim>\<open>Header.Get\<close>, which answers the empty string for a missing header. The path and the
  request URI are what \<^verbatim>\<open>net/http\<close> parsed, the cookie is what \<^verbatim>\<open>r.Cookie\<close> found under the
  name of the access cookie, and the three bodies are what \<^verbatim>\<open>encoding/json\<close> decodes of the
  body into the struct of the respective verify handler, \<open>None\<close> when decoding fails.

  Also here: the escape of text for a JavaScript string literal, with the proof that no text
  can leave the literal or the script element it is put in.
\<close>

record fp_json =
  fp_canvas :: string
  fp_webgl :: string
  fp_tz :: "int option"
  fp_wd :: "bool option"

record transparent_json =
  tj_token :: string
  tj_solution :: string
  tj_fp :: "fp_json option"

record pow_json =
  pj_token :: string
  pj_nonce :: string

record http_request =
  rq_method :: string
  rq_path :: string
  rq_uri :: string
  rq_header :: "string \<Rightarrow> string"
  rq_remote :: string
  rq_cookie :: "string option"
  rq_transparent :: "transparent_json option"
  rq_pow :: "pow_json option"
  rq_hold :: "string option"

definition plain_get :: "string \<Rightarrow> string \<Rightarrow> http_request" where
  "plain_get path remote = \<lparr>rq_method = ''GET'', rq_path = path, rq_uri = path,
     rq_header = (\<lambda>k. if k = ''User-Agent'' then ''Mozilla/5.0'' else []),
     rq_remote = remote, rq_cookie = None, rq_transparent = None, rq_pow = None, rq_hold = None\<rparr>"

subsection \<open>JavaScript string literals\<close>

definition between :: "nat \<Rightarrow> nat \<Rightarrow> nat \<Rightarrow> bool" where
  "between a n b \<longleftrightarrow> a \<le> n \<and> n \<le> b"

text \<open>The length of the valid UTF-8 sequence of more than one byte a text starts with, or 0.\<close>

definition rune_size :: "nat list \<Rightarrow> nat" where
  "rune_size bs = (case bs of
       a # b # r \<Rightarrow>
         if between 194 a 223 \<and> between 128 b 191 then 2
         else (case r of
             c # r' \<Rightarrow>
               if between 128 c 191 \<and>
                  (a = 224 \<and> between 160 b 191 \<or> a = 237 \<and> between 128 b 159 \<or>
                   between 225 a 239 \<and> a \<noteq> 237 \<and> between 128 b 191) then 3
               else (case r' of
                   d # _ \<Rightarrow>
                     if between 128 c 191 \<and> between 128 d 191 \<and>
                        (a = 240 \<and> between 144 b 191 \<or> a = 244 \<and> between 128 b 143 \<or>
                         between 241 a 243 \<and> between 128 b 191) then 4 else 0
                 | [] \<Rightarrow> 0)
           | [] \<Rightarrow> 0)
     | _ \<Rightarrow> 0)"

definition hex_low :: "nat \<Rightarrow> char" where
  "hex_low d = (if d < 10 then char_of (48 + d) else char_of (87 + d))"

definition escape_ascii :: "char \<Rightarrow> string" where
  "escape_ascii c = (let n = of_char c :: nat in
     if c = CHR 0x22 \<or> c = CHR 0x5C then [CHR 0x5C, c]
     else if n = 8 then [CHR 0x5C, CHR ''b''] else if n = 12 then [CHR 0x5C, CHR ''f'']
     else if n = 10 then [CHR 0x5C, CHR ''n''] else if n = 13 then [CHR 0x5C, CHR ''r'']
     else if n = 9 then [CHR 0x5C, CHR ''t'']
     else if n < 32 \<or> c = CHR ''<'' \<or> c = CHR ''>'' \<or> c = CHR ''&''
     then [CHR 0x5C, CHR ''u'', CHR ''0'', CHR ''0'', hex_low (n div 16), hex_low (n mod 16)]
     else [c])"

text \<open>\<^verbatim>\<open>json.Marshal\<close> of a string without its quotes. The fuel is the length of the text.\<close>

fun js_escape_n :: "nat \<Rightarrow> string \<Rightarrow> string" where
  "js_escape_n 0 s = []"
| "js_escape_n (Suc n) [] = []"
| "js_escape_n (Suc n) (c # cs) =
     (if of_char c < (128 :: nat) then escape_ascii c @ js_escape_n n cs
      else let k = rune_size (map of_char (c # cs)) in
        if k = 0 then [CHR 0x5C] @ ''ufffd'' @ js_escape_n n cs
        else if prefix [CHR 0xE2, CHR 0x80, CHR 0xA8] (c # cs)
          then [CHR 0x5C] @ ''u2028'' @ js_escape_n n (drop 2 cs)
        else if prefix [CHR 0xE2, CHR 0x80, CHR 0xA9] (c # cs)
          then [CHR 0x5C] @ ''u2029'' @ js_escape_n n (drop 2 cs)
        else take k (c # cs) @ js_escape_n n (drop k (c # cs)))"

definition js_string_escape :: "string \<Rightarrow> string" where
  "js_string_escape s = js_escape_n (length s) s"

text \<open>The rest of a script after the string literal whose inside it starts with.\<close>

fun after_literal :: "string \<Rightarrow> string option" where
  "after_literal [] = None"
| "after_literal (c # cs) =
     (if c = CHR 0x22 then Some cs
      else if c = CHR 0x5C then (case cs of [] \<Rightarrow> None | _ # r \<Rightarrow> after_literal r)
      else after_literal cs)"

definition harmless :: "char \<Rightarrow> bool" where
  "harmless c \<longleftrightarrow> c \<noteq> CHR ''<'' \<and> c \<noteq> CHR ''>'' \<and> c \<noteq> CHR ''&'' \<and> (32 :: nat) \<le> of_char c"

definition inert :: "string \<Rightarrow> bool" where
  "inert s \<longleftrightarrow> (\<forall>r. after_literal (s @ r) = after_literal r) \<and> (\<forall>c\<in>set s. harmless c)"

lemma inert_Nil: "inert []"
  by (simp add: inert_def)

lemma inert_append: "inert s \<Longrightarrow> inert t \<Longrightarrow> inert (s @ t)"
  by (auto simp: inert_def)

lemma inert_high: "\<forall>c\<in>set s. (128 :: nat) \<le> of_char c \<Longrightarrow> inert s"
proof (induction s)
  case (Cons c s)
  then have "c \<noteq> CHR 0x22" "c \<noteq> CHR 0x5C" "harmless c" by (auto simp: harmless_def)
  with Cons show ?case by (simp add: inert_def)
qed (simp add: inert_Nil)

lemma of_hex_low: "d < 16 \<Longrightarrow> (of_char (hex_low d) :: nat) = (if d < 10 then 48 + d else 87 + d)"
  by (simp add: hex_low_def)

lemma hex_low_plain:
  assumes "d < 16" shows "hex_low d \<noteq> CHR 0x22" "hex_low d \<noteq> CHR 0x5C" "harmless (hex_low d)"
  using of_hex_low [OF assms] assms by (auto simp: harmless_def split: if_splits)

lemma inert_hex:
  assumes "d < 16" "e < 16"
  shows "inert [CHR 0x5C, CHR ''u'', CHR ''0'', CHR ''0'', hex_low d, hex_low e]"
  using hex_low_plain [OF assms(1)] hex_low_plain [OF assms(2)]
  by (simp add: inert_def harmless_def)

lemma inert_pair: "harmless x \<Longrightarrow> inert [CHR 0x5C, x]"
  by (simp add: inert_def harmless_def)

lemma inert_single: "harmless x \<Longrightarrow> x \<noteq> CHR 0x22 \<Longrightarrow> x \<noteq> CHR 0x5C \<Longrightarrow> inert [x]"
  by (simp add: inert_def)

lemma harmless_escapes: "harmless CHR 0x22" "harmless CHR 0x5C" "harmless CHR ''b''"
  "harmless CHR ''f''" "harmless CHR ''n''" "harmless CHR ''r''" "harmless CHR ''t''"
  by (simp_all add: harmless_def)

lemma inert_escape_ascii: "of_char c < (128 :: nat) \<Longrightarrow> inert (escape_ascii c)"
proof -
  assume "of_char c < (128 :: nat)"
  then have "(of_char c :: nat) div 16 < 16" "(of_char c :: nat) mod 16 < 16" by simp_all
  note hex = inert_hex [OF this]
  show ?thesis
    unfolding escape_ascii_def Let_def
    by (intro if_split [where P = inert, THEN iffD2] conjI impI;
        (rule hex | rule inert_pair | rule inert_single)?)
       (auto simp: harmless_escapes harmless_def)
qed

lemma inert_u:
  "inert r \<Longrightarrow> inert ([CHR 0x5C] @ ''ufffd'' @ r)" "inert r \<Longrightarrow> inert ([CHR 0x5C] @ ''u2028'' @ r)"
  "inert r \<Longrightarrow> inert ([CHR 0x5C] @ ''u2029'' @ r)"
  by (simp_all add: inert_def harmless_def)

lemma rune_high: "rune_size bs = k \<Longrightarrow> n \<in> set (take k bs) \<Longrightarrow> 128 \<le> n"
  by (auto simp: rune_size_def between_def split: list.splits if_splits)

lemma inert_js_escape_n: "inert (js_escape_n n s)"
proof (induction n s rule: js_escape_n.induct)
  case (3 n c cs)
  let ?k = "rune_size (map of_char (c # cs))"
  have "inert (take ?k (c # cs))"
  proof (rule inert_high, rule ballI)
    fix x assume "x \<in> set (take ?k (c # cs))"
    then have "(of_char x :: nat) \<in> set (take ?k (map of_char (c # cs)))"
      by (metis image_eqI set_map take_map)
    then show "(128 :: nat) \<le> of_char x" by (rule rune_high [OF refl])
  qed
  then have tk: "inert (take ?k (c # cs) @ js_escape_n n (drop ?k (c # cs)))"
    if "\<not> of_char c < (128 :: nat)" "?k \<noteq> 0"
      "\<not> prefix [CHR 0xE2, CHR 0x80, CHR 0xA8] (c # cs)"
      "\<not> prefix [CHR 0xE2, CHR 0x80, CHR 0xA9] (c # cs)"
    using that "3.IH"(5) by (intro inert_append) auto
  show ?case
    unfolding js_escape_n.simps Let_def
    by (intro if_split [where P = inert, THEN iffD2] conjI impI)
       (use 3 tk in \<open>auto intro: inert_append inert_escape_ascii inert_u simp del: append_Cons\<close>)
qed (simp_all add: inert_Nil)

text \<open>
  A request URI, a token or any other text put between the quotes of a JavaScript literal
  after \<^verbatim>\<open>jsStringEscape\<close> ends exactly at the closing quote of the template, and contains no
  angle bracket, ampersand or control character: it can neither leave the literal nor close
  the script element.
\<close>

theorem js_escape_confined:
  "after_literal (js_string_escape s @ CHR 0x22 # r) = Some r \<and>
   (\<forall>c\<in>set (js_string_escape s). harmless c)"
  using inert_js_escape_n [of "length s" s] by (simp add: js_string_escape_def inert_def)

theorem js_escape_confined_witness:
  "after_literal (js_string_escape [CHR 0x22, CHR ''<''] @ CHR 0x22 # '';'') = Some '';''"
  using js_escape_confined by blast

end
