(* ===== verification/Challenge.thy ===== *)
theory Challenge
  imports Contracts Crypto Http
begin

text \<open>
  The challenges, \<^verbatim>\<open>internal/client/challenge\<close>: the store of issued tokens and the proof of
  work (\<^verbatim>\<open>pow.go\<close>), the hold captcha (\<^verbatim>\<open>hold.go\<close>) and the transparent JavaScript challenge
  (\<^verbatim>\<open>transparent.go\<close>). Tokens and salts come from \<^verbatim>\<open>crypto/rand\<close> and are arguments of
  the operations that draw them. A page is the values its template is filled with.
\<close>

subsection \<open>The store\<close>

record challenge_entry =
  ce_token :: string
  ce_salt :: string
  ce_ip :: string
  ce_difficulty :: int
  ce_issued :: gotime
  ce_expires :: gotime

record challenge_store =
  ch_items :: "string \<rightharpoonup> challenge_entry"

definition new_store :: challenge_store where
  "new_store = \<lparr>ch_items = Map.empty\<rparr>"

text \<open>\<open>Issue\<close> reads the clock twice, for the two instants of the entry.\<close>

definition issue :: "string \<Rightarrow> string \<Rightarrow> string \<Rightarrow> int \<Rightarrow> duration \<Rightarrow> gotime \<Rightarrow> gotime \<Rightarrow>
    challenge_store \<Rightarrow> challenge_entry \<times> challenge_store" where
  "issue token salt ip difficulty ttl now now' s =
     (let e = \<lparr>ce_token = token, ce_salt = salt, ce_ip = ip, ce_difficulty = difficulty,
               ce_issued = now, ce_expires = time_add now' ttl\<rparr>
      in (e, s\<lparr>ch_items := (ch_items s)(token \<mapsto> e)\<rparr>))"

definition issue_at :: "string \<Rightarrow> string \<Rightarrow> string \<Rightarrow> int \<Rightarrow> duration \<Rightarrow> gotime \<Rightarrow>
    challenge_store \<Rightarrow> challenge_entry \<times> challenge_store" where
  "issue_at token salt ip difficulty ttl issued s =
     (let e = \<lparr>ce_token = token, ce_salt = salt, ce_ip = ip, ce_difficulty = difficulty,
               ce_issued = issued, ce_expires = time_add issued ttl\<rparr>
      in (e, s\<lparr>ch_items := (ch_items s)(token \<mapsto> e)\<rparr>))"

definition take_token :: "string \<Rightarrow> string \<Rightarrow> gotime \<Rightarrow> challenge_store \<Rightarrow>
    challenge_entry option \<times> challenge_store" where
  "take_token token ip now s =
     (case ch_items s token of
        None \<Rightarrow> (None, s)
      | Some e \<Rightarrow>
          let s' = s\<lparr>ch_items := (ch_items s)(token := None)\<rparr>
          in if ce_ip e \<noteq> ip \<or> time_after now (ce_expires e) then (None, s') else (Some e, s'))"

definition challenge_cleanup :: "gotime \<Rightarrow> challenge_store \<Rightarrow> challenge_store" where
  "challenge_cleanup now s =
     s\<lparr>ch_items := map_keep (\<lambda>e. \<not> time_after now (ce_expires e)) (ch_items s)\<rparr>"

definition store_has :: "string \<Rightarrow> challenge_store \<Rightarrow> bool" where
  "store_has token s \<longleftrightarrow> ch_items s token \<noteq> None"

subsection \<open>Proof of work\<close>

definition default_difficulty :: int where "default_difficulty = 4"

definition valid_pow :: "string \<Rightarrow> string \<Rightarrow> string \<Rightarrow> int \<Rightarrow> bool" where
  "valid_pow token salt nonce difficulty =
     (if difficulty \<le> 0 then True
      else let input = token @ '':'' @ salt @ '':'' @ nonce;
               hash = hex_encode (sha256 (bytes_of input))
           in prefix (replicate (nat difficulty) CHR ''0'') hash)"

datatype page =
  Transparent_page string string string
| Pow_page string string int string
| Hold_page string string string

definition next_url :: "string \<Rightarrow> string \<Rightarrow> string" where
  "next_url own uri = (if uri = [] \<or> uri = own then ''/'' else uri)"

text \<open>The texts of a page are the escaped token, salt and next URL.\<close>

definition serve_challenge_page :: "http_request \<Rightarrow> int \<Rightarrow> duration \<Rightarrow> string \<Rightarrow> string \<Rightarrow> string \<Rightarrow>
    gotime \<Rightarrow> gotime \<Rightarrow> challenge_store \<Rightarrow> page \<times> challenge_store" where
  "serve_challenge_page r difficulty ttl ip token salt now now' s =
     (let difficulty = (if difficulty \<le> 0 then default_difficulty else difficulty);
          ttl = (if ttl \<le> 0 then seconds 90 else ttl);
          (e, s') = issue token salt ip difficulty ttl now now' s
      in (Pow_page (js_string_escape (ce_token e)) (js_string_escape (ce_salt e)) (ce_difficulty e)
            (js_string_escape (next_url ''/__kiro/challenge'' (rq_uri r))), s'))"

datatype verdict = Verified | Refused nat string

definition verify_challenge :: "http_request \<Rightarrow> string \<Rightarrow> gotime \<Rightarrow> challenge_store \<Rightarrow>
    verdict \<times> challenge_store" where
  "verify_challenge r ip now s =
     (if rq_method r \<noteq> ''POST'' then (Refused 405 ''method not allowed'', s)
      else case rq_pow r of
        None \<Rightarrow> (Refused 400 ''invalid request body'', s)
      | Some req \<Rightarrow>
          (case take_token (pj_token req) ip now s of
             (None, s') \<Rightarrow> (Refused 403 ''challenge expired or invalid'', s')
           | (Some e, s') \<Rightarrow>
               if valid_pow (pj_token req) (ce_salt e) (pj_nonce req) (ce_difficulty e)
               then (Verified, s')
               else (Refused 403 ''proof of work failed'', s')))"

record pow_handler =
  ph_difficulty :: int
  ph_ttl :: duration

definition new_pow_handler :: "int \<Rightarrow> duration \<Rightarrow> pow_handler" where
  "new_pow_handler difficulty ttl =
     \<lparr>ph_difficulty = (if difficulty \<le> 0 then default_difficulty else difficulty),
      ph_ttl = (if ttl \<le> 0 then seconds 90 else ttl)\<rparr>"

subsection \<open>Hold captcha\<close>

definition default_hold_seconds :: int where "default_hold_seconds = 2"

definition valid_hold :: "gotime \<Rightarrow> gotime \<Rightarrow> int \<Rightarrow> bool" where
  "valid_hold issued verify hold =
     (if hold \<le> 0 then True else seconds hold \<le> time_sub verify issued)"

function digits_onto :: "int \<Rightarrow> string \<Rightarrow> string" where
  "digits_onto n ds = (if 0 < n then digits_onto (n div 10) (digit_char (n mod 10) # ds) else ds)"
  by pat_completeness auto
termination
  by (relation "measure (nat \<circ> fst)") auto

declare digits_onto.simps [simp del]

text \<open>Not for the least \<^verbatim>\<open>int\<close>, whose negation is itself and recurses for ever.\<close>

definition int_to_str :: "int \<Rightarrow> string" where
  "int_to_str n = (if n = 0 then ''0'' else if n < 0 then CHR ''-'' # digits_onto (- n) [] else digits_onto n [])"

definition serve_hold_page :: "http_request \<Rightarrow> int \<Rightarrow> duration \<Rightarrow> string \<Rightarrow> string \<Rightarrow> string \<Rightarrow>
    gotime \<Rightarrow> gotime \<Rightarrow> challenge_store \<Rightarrow> page \<times> challenge_store" where
  "serve_hold_page r hold ttl ip token salt now now' s =
     (let hold = (if hold \<le> 0 then default_hold_seconds else hold);
          ttl = (if ttl \<le> 0 then seconds 90 else ttl);
          (e, s') = issue token salt ip 0 ttl now now' s
      in (Hold_page (js_string_escape (ce_token e)) (int_to_str hold)
            (js_string_escape (next_url ''/__kiro/hold'' (rq_uri r))), s'))"

text \<open>\<open>now\<close> is the clock of \<open>Take\<close>, \<open>now'\<close> the one the hold time is measured with.\<close>

definition verify_hold :: "http_request \<Rightarrow> string \<Rightarrow> gotime \<Rightarrow> gotime \<Rightarrow> challenge_store \<Rightarrow>
    verdict \<times> challenge_store" where
  "verify_hold r ip now now' s =
     (if rq_method r \<noteq> ''POST'' then (Refused 405 ''method not allowed'', s)
      else case rq_hold r of
        None \<Rightarrow> (Refused 400 ''invalid request body'', s)
      | Some token \<Rightarrow>
          (case take_token token ip now s of
             (None, s') \<Rightarrow> (Refused 403 ''challenge expired or invalid'', s')
           | (Some e, s') \<Rightarrow>
               if valid_hold (ce_issued e) now' default_hold_seconds then (Verified, s')
               else (Refused 403 ''hold duration too short'', s')))"

subsection \<open>Transparent challenge\<close>

definition serve_transparent_page :: "http_request \<Rightarrow> duration \<Rightarrow> string \<Rightarrow> string \<Rightarrow> string \<Rightarrow>
    gotime \<Rightarrow> gotime \<Rightarrow> challenge_store \<Rightarrow> page \<times> challenge_store" where
  "serve_transparent_page r ttl ip token salt now now' s =
     (let ttl = (if ttl \<le> 0 then seconds 30 else ttl);
          (e, s') = issue token salt ip 0 ttl now now' s
      in (Transparent_page (js_string_escape (ce_token e)) (js_string_escape (ce_salt e))
            (js_string_escape (next_url ''/__kiro/transparent/verify'' (rq_uri r))), s'))"

text \<open>
  The third component tells whether the handler reported a failure to the escalation engine:
  it does for every refusal that comes after the decoding of the body.
\<close>

definition verify_transparent :: "http_request \<Rightarrow> string \<Rightarrow> gotime \<Rightarrow> gotime \<Rightarrow> challenge_store \<Rightarrow>
    verdict \<times> challenge_store \<times> bool" where
  "verify_transparent r ip now now' s =
     (if rq_method r \<noteq> ''POST'' then (Refused 405 ''method not allowed'', s, False)
      else case rq_transparent r of
        None \<Rightarrow> (Refused 400 ''invalid request body'', s, False)
      | Some req \<Rightarrow>
          (case take_token (tj_token req) ip now s of
             (None, s') \<Rightarrow> (Refused 403 ''challenge expired or invalid'', s', True)
           | (Some e, s') \<Rightarrow>
               if go_div (time_sub now' (ce_issued e)) 1000000 < 20
               then (Refused 403 ''solve time too fast'', s', True)
               else case tj_fp req of
                 None \<Rightarrow> (Refused 403 ''missing fingerprint'', s', True)
               | Some fp \<Rightarrow>
                   if fp_wd fp = Some True then (Refused 403 ''automation detected'', s', True)
                   else if fp_canvas fp = [] \<or> fp_webgl fp = []
                   then (Refused 403 ''incomplete fingerprint'', s', True)
                   else (Verified, s', False)))"

subsection \<open>The store is a store of single-use tokens\<close>

definition token_live :: "challenge_store \<Rightarrow> string \<Rightarrow> gotime \<Rightarrow> bool" where
  "token_live s k t \<longleftrightarrow> (\<exists>e. ch_items s k = Some e \<and> \<not> time_after t (ce_expires e))"

record issue_data =
  id_salt :: string
  id_ip :: string
  id_difficulty :: int
  id_ttl :: duration

definition put_token :: "string \<Rightarrow> issue_data \<Rightarrow> gotime \<Rightarrow> challenge_store \<Rightarrow> challenge_store" where
  "put_token k d now s = snd (issue k (id_salt d) (id_ip d) (id_difficulty d) (id_ttl d) now now s)"

definition drop_token :: "string \<Rightarrow> gotime \<Rightarrow> challenge_store \<Rightarrow> challenge_store" where
  "drop_token k now s = s\<lparr>ch_items := (ch_items s)(k := None)\<rparr>"

definition redeem_token :: "string \<Rightarrow> string \<Rightarrow> gotime \<Rightarrow> challenge_store \<Rightarrow> bool \<times> challenge_store" where
  "redeem_token k ip now s = (let (e, s') = take_token k ip now s in (e \<noteq> None, s'))"

lemmas challenge_defs = token_live_def put_token_def drop_token_def redeem_token_def issue_def
  take_token_def challenge_cleanup_def store_has_def time_defs

interpretation tokens: single_use_store
  token_live put_token challenge_cleanup drop_token "\<lambda>_ _ s. s" "\<lambda>d now. now + id_ttl d"
  "\<lambda>_. True" redeem_token "\<lambda>s k. store_has k s"
  by unfold_locales (auto simp: challenge_defs Let_def fun_upd_idem split: option.splits if_splits)

lemma take_token_Some:
  "take_token k ip now s = (Some e, s') \<longleftrightarrow>
     ch_items s k = Some e \<and> ce_ip e = ip \<and> now \<le> ce_expires e \<and> s' = drop_token k now s"
  by (auto simp: challenge_defs Let_def split: option.splits if_splits)

lemma take_token_eq:
  "take_token k ip now s =
     ((case ch_items s k of None \<Rightarrow> None
       | Some e \<Rightarrow> if ce_ip e = ip \<and> now \<le> ce_expires e then Some e else None), drop_token k now s)"
  by (auto simp: challenge_defs Let_def fun_upd_idem split: option.splits)

lemma take_token_drops: "snd (take_token k ip now s) = drop_token k now s"
  by (auto simp: challenge_defs Let_def fun_upd_idem split: option.splits)

text \<open>
  C8. Replay protection: in any run of issues, cleanups and verification attempts that never
  issues the token again, at most one attempt redeems a given token, whichever addresses
  attempt it and whether or not the attempts carry a correct answer.
\<close>

theorem token_single_use:
  assumes "\<forall>(now, op) \<in> set ops. \<forall>d. op \<noteq> Issue k d"
  shows "redeemed put_token challenge_cleanup redeem_token k ops s \<le> 1"
  using assms by (rule tokens.redeemed_once)

theorem token_single_use_witness:
  "redeemed put_token challenge_cleanup redeem_token ''k''
     [(1, Redeem ''k'' ''1.2.3.4''), (2, Clean), (3, Redeem ''k'' ''1.2.3.4'')]
     (put_token ''k'' \<lparr>id_salt = ''s'', id_ip = ''1.2.3.4'', id_difficulty = 0, id_ttl = 9\<rparr> 0 new_store) \<le> 1"
  by (rule token_single_use) simp

text \<open>
  The proof-of-work endpoint accepts exactly a POST with a decodable body that names an
  unexpired token issued to the same address and a nonce whose hash with token and salt
  starts with the required number of zeros. Whatever the answer, the token named is gone
  afterwards.
\<close>

theorem verify_challenge_exact:
  "(fst (verify_challenge r ip now s) = Verified \<longleftrightarrow>
     rq_method r = ''POST'' \<and> (\<exists>req e. rq_pow r = Some req \<and> ch_items s (pj_token req) = Some e \<and>
       ce_ip e = ip \<and> now \<le> ce_expires e \<and>
       valid_pow (pj_token req) (ce_salt e) (pj_nonce req) (ce_difficulty e))) \<and>
   snd (verify_challenge r ip now s) =
     (if rq_method r = ''POST'' then (case rq_pow r of None \<Rightarrow> s | Some req \<Rightarrow> drop_token (pj_token req) now s)
      else s)"
  by (auto simp: verify_challenge_def take_token_eq split: option.splits)

text \<open>
  The hold endpoint never accepts before two seconds have passed since the token was
  issued, and it measures against the fixed default: the hold time the page was configured
  with plays no role in it.
\<close>

theorem verify_hold_exact:
  "fst (verify_hold r ip now now' s) = Verified \<longleftrightarrow>
     rq_method r = ''POST'' \<and> (\<exists>token e. rq_hold r = Some token \<and> ch_items s token = Some e \<and>
       ce_ip e = ip \<and> now \<le> ce_expires e \<and> 2 * nanos \<le> now' - ce_issued e)"
proof -
  have v: "valid_hold i n default_hold_seconds \<longleftrightarrow> 2 * nanos \<le> n - i" for i n
    using time_sub_ge [of "2 * nanos" n i]
    by (simp add: valid_hold_def default_hold_seconds_def seconds_def nanos_def i64_def
        in_i64_def i64_max_def i64_min_def)
  show ?thesis by (auto simp: verify_hold_def take_token_eq v split: option.splits)
qed

text \<open>
  The transparent endpoint accepts exactly a token of the same address, unexpired and at
  least 20 milliseconds old, with a fingerprint whose canvas and renderer texts are not empty
  and that does not admit to being driven by automation. The solution the page computes is
  never looked at.
\<close>

theorem verify_transparent_exact:
  assumes "rq_method r = ''POST''" "rq_transparent r = Some req"
    and "ch_items s (tj_token req) = Some e" "ce_ip e = ip" "now \<le> ce_expires e"
    and "ce_issued e \<le> now'" "in_i64 (now' - ce_issued e)"
  shows "(fst (verify_transparent r ip now now' s) = Verified \<longleftrightarrow>
       20 * 1000000 \<le> now' - ce_issued e \<and> (\<exists>fp. tj_fp req = Some fp \<and> fp_wd fp \<noteq> Some True \<and>
       fp_canvas fp \<noteq> [] \<and> fp_webgl fp \<noteq> [])) \<and>
    verify_transparent (r\<lparr>rq_transparent := Some (req\<lparr>tj_solution := any\<rparr>)\<rparr>) ip now now' s =
      verify_transparent r ip now now' s"
proof -
  have t: "take_token (tj_token req) ip now s = (Some e, drop_token (tj_token req) now s)"
    using assms(3-5) by (simp add: take_token_Some)
  have d: "go_div (time_sub now' (ce_issued e)) 1000000 < 20 \<longleftrightarrow> now' - ce_issued e < 20 * 1000000"
    using assms(6,7) by (auto simp: time_sub_eq go_div_nonneg)
  show ?thesis
    using assms(1,2) t d by (auto simp: verify_transparent_def split: option.splits)
qed

definition demo_request :: "string \<Rightarrow> http_request" where
  "demo_request token = (plain_get ''/__kiro/transparent/verify'' ''1.2.3.4:5'')
     \<lparr>rq_method := ''POST'', rq_transparent := Some \<lparr>tj_token = token, tj_solution = ''0'',
        tj_fp = Some \<lparr>fp_canvas = ''c'', fp_webgl = ''w'', fp_tz = None, fp_wd = None\<rparr>\<rparr>\<rparr>"

definition demo_store :: "string \<Rightarrow> challenge_store" where
  "demo_store token = snd (issue token ''s'' ''1.2.3.4'' 0 30000000000 0 0 new_store)"

theorem verify_transparent_exact_witness:
  "fst (verify_transparent (demo_request ''k'') ''1.2.3.4'' 30000000 30000000 (demo_store ''k'')) = Verified"
  using verify_transparent_exact [of "demo_request ''k''" _ "demo_store ''k''" _ "''1.2.3.4''" 30000000
      30000000]
  by (simp add: demo_request_def demo_store_def issue_def new_store_def plain_get_def time_add_def
      in_i64_def i64_max_def i64_min_def Let_def)

lemma length_hex_encode: "length (hex_encode bs) = 2 * length bs"
  by (induction bs) (simp_all add: hex_encode_def)

text \<open>
  A difficulty above 64 cannot be solved: the hash has only 64 digits, so the endpoint
  refuses every nonce. The configuration sets no upper bound of its own.
\<close>

theorem pow_unsolvable: "64 < difficulty \<Longrightarrow> \<not> valid_pow token salt nonce difficulty"
  by (auto simp: valid_pow_def length_hex_encode dest!: prefix_length_le)

theorem pow_unsolvable_witness: "\<not> valid_pow ''t'' ''s'' ''n'' 65"
  by (rule pow_unsolvable) simp

subsection \<open>Decimal text of the hold time\<close>

lemma digits_onto_fmt: "0 < n \<Longrightarrow> digits_onto n ds = fmt_nat n @ ds"
proof (induction n ds rule: digits_onto.induct)
  case (1 n ds)
  show ?case
  proof (cases "n < 10")
    case True
    with 1 show ?thesis
      by (subst digits_onto.simps, subst digits_onto.simps, subst fmt_nat.simps) simp
  next
    case False
    with 1 have "digits_onto (n div 10) (digit_char (n mod 10) # ds) =
        fmt_nat (n div 10) @ digit_char (n mod 10) # ds" by simp
    with 1 False show ?thesis by (subst digits_onto.simps, subst fmt_nat.simps) simp
  qed
qed

lemma int_to_str_fmt: "int_to_str n = fmt_int n"
proof -
  have "fmt_nat 0 = ''0''" by (subst fmt_nat.simps) (simp add: digit_char_def char_of_def)
  then show ?thesis by (auto simp: int_to_str_def fmt_int_def digits_onto_fmt)
qed

end
