(* ===== verification/LoopDetect.thy ===== *)
theory LoopDetect
  imports Strings
begin

text \<open>
  The redirect-loop detector, \<^verbatim>\<open>internal/client/challenge/loopdetect.go\<close>: for an address and
  a kind of challenge the instants at which the challenge page was served. More than three of
  them in ten seconds are taken for a redirect loop.
\<close>

record loop_detector =
  ld_records :: "string \<rightharpoonup> gotime list"

definition new_loop_detector :: loop_detector where
  "new_loop_detector = \<lparr>ld_records = Map.empty\<rparr>"

definition loop_key :: "string \<Rightarrow> string \<Rightarrow> string" where
  "loop_key ip kind = ip @ '':'' @ kind"

definition should_bypass :: "string \<Rightarrow> string \<Rightarrow> gotime \<Rightarrow> loop_detector \<Rightarrow> bool" where
  "should_bypass ip kind now d =
     (case ld_records d (loop_key ip kind) of
        None \<Rightarrow> False
      | Some ts \<Rightarrow>
          let cut = time_add now (- seconds 10)
          in 3 < length (filter (\<lambda>t. time_after t cut) ts))"

definition record_loop :: "string \<Rightarrow> string \<Rightarrow> gotime \<Rightarrow> loop_detector \<Rightarrow> loop_detector" where
  "record_loop ip kind now d =
     (let key = loop_key ip kind;
          ts = (case ld_records d key of None \<Rightarrow> [] | Some ts \<Rightarrow> ts);
          cut = time_add now (- seconds 10);
          fresh = filter (\<lambda>t. time_after t cut) ts
      in d\<lparr>ld_records := (ld_records d)(key \<mapsto> fresh @ [now])\<rparr>)"

definition loop_cleanup :: "gotime \<Rightarrow> loop_detector \<Rightarrow> loop_detector" where
  "loop_cleanup now d =
     (let cut = time_add now (- seconds 30)
      in d\<lparr>ld_records := map_keep (\<lambda>ts. \<exists>t\<in>set ts. time_after t cut) (ld_records d)\<rparr>)"

subsection \<open>What the detector counts\<close>

datatype ld_op = Page string string | Clean_loops

fun ld_step :: "gotime \<times> ld_op \<Rightarrow> loop_detector \<Rightarrow> loop_detector" where
  "ld_step (now, Page ip kind) d = record_loop ip kind now d"
| "ld_step (now, Clean_loops) d = loop_cleanup now d"

definition ld_run :: "(gotime \<times> ld_op) list \<Rightarrow> loop_detector \<Rightarrow> loop_detector" where
  "ld_run ops d = fold ld_step ops d"

fun pages :: "string \<Rightarrow> (gotime \<times> ld_op) list \<Rightarrow> gotime list" where
  "pages key [] = []"
| "pages key ((t, Page ip kind) # ops) = (if loop_key ip kind = key then [t] else []) @ pages key ops"
| "pages key ((t, Clean_loops) # ops) = pages key ops"

definition recent :: "gotime \<Rightarrow> gotime list \<Rightarrow> gotime list" where
  "recent now ts = filter (\<lambda>t. now - 10 * nanos < t) ts"

definition kept :: "loop_detector \<Rightarrow> string \<Rightarrow> gotime list" where
  "kept d key = (case ld_records d key of None \<Rightarrow> [] | Some ts \<Rightarrow> ts)"

lemma ten: "seconds 10 = 10 * nanos" "seconds 30 = 30 * nanos"
  by (simp_all add: seconds_eq nanos_def)

lemma pages_append: "pages key (xs @ ys) = pages key xs @ pages key ys"
  by (induction key xs rule: pages.induct) auto

lemma recent_recent: "now \<le> now' \<Longrightarrow> recent now' (recent now ts) = recent now' ts"
  by (auto simp: recent_def intro: filter_cong)

lemma kept_step:
  "kept (record_loop ip kind now d) key =
     (if key = loop_key ip kind then recent now (kept d key) @ [now] else kept d key)"
  "kept (loop_cleanup now d) key =
     (if \<exists>t\<in>set (kept d key). now - 30 * nanos < t then kept d key else [])"
  by (auto simp: kept_def record_loop_def loop_cleanup_def recent_def ten time_defs Let_def
      map_keep_def split: option.splits)

lemma recent_append: "recent now (xs @ ys) = recent now xs @ recent now ys"
  by (simp add: recent_def)

lemma kept_tracks:
  assumes "sorted (map fst ops)" "\<forall>e\<in>set ops. fst e \<le> now"
  shows "recent now (kept (ld_run ops new_loop_detector) key) = recent now (pages key ops)"
  using assms
proof (induction ops arbitrary: now rule: rev_induct)
  case Nil
  then show ?case by (simp add: ld_run_def kept_def new_loop_detector_def)
next
  case (snoc e ops)
  obtain t op where e: "e = (t, op)" by force
  let ?d = "ld_run ops new_loop_detector"
  from snoc.prems e have t: "t \<le> now" "sorted (map fst ops)" "\<forall>x\<in>set ops. fst x \<le> t"
    by (auto simp: sorted_append)
  have IH: "recent now (kept ?d key) = recent now (pages key ops)"
    using snoc.IH [OF t(2), of now] t by force
  have run: "ld_run (ops @ [e]) new_loop_detector = ld_step (t, op) ?d" by (simp add: ld_run_def e)
  show ?case
  proof (cases op)
    case (Page ip kind)
    then show ?thesis
      using IH t(1) unfolding run by (auto simp: e kept_step pages_append recent_append recent_recent recent_def [of _ "[]"])
  next
    case Clean_loops
    have "recent now (kept ?d key) = []" if "\<not> (\<exists>x\<in>set (kept ?d key). t - 30 * nanos < x)"
      using that t(1) by (force simp: recent_def filter_empty_conv nanos_def)
    then show ?thesis
      unfolding run using IH Clean_loops by (auto simp: e kept_step pages_append recent_def [of _ "[]"])
  qed
qed

text \<open>
  The detector reports a loop exactly when more than three pages of the kind were served to
  the address within the last ten seconds: the cleanup every thirty seconds, which drops
  whole lists, never drops an instant that still counts.
\<close>

theorem loop_iff_four_pages:
  assumes "sorted (map fst ops)" "\<forall>e\<in>set ops. fst e \<le> now"
  shows "should_bypass ip kind now (ld_run ops new_loop_detector) \<longleftrightarrow>
    3 < length (recent now (pages (loop_key ip kind) ops))"
  unfolding kept_tracks [OF assms, of "loop_key ip kind", symmetric]
  by (auto simp: should_bypass_def kept_def recent_def ten time_defs Let_def split: option.splits)

theorem loop_iff_four_pages_witness:
  "should_bypass ''a'' ''pow'' 8 (ld_run [(1, Page ''a'' ''pow''), (2, Page ''a'' ''pow''), (3, Clean_loops),
     (4, Page ''a'' ''pow''), (5, Page ''a'' ''pow'')] new_loop_detector)"
  by (subst loop_iff_four_pages) (simp_all add: recent_def nanos_def)

end
