(* ===== verification/Cookie.thy ===== *)
theory Cookie
  imports Crypto
begin

text \<open>
  The access cookies, \<^verbatim>\<open>internal/client/cookie\<close>: the first format (\<^verbatim>\<open>hmac.go\<close>), a text
  \<^verbatim>\<open>ip:expiry:mac\<close> in base64, and the second (\<^verbatim>\<open>manager_v2.go\<close>), 57 bytes with the hashes
  of the address and of the TLS fingerprint. Of HMAC the proofs use only that it is a function
  with results of 32 bytes: what is shown is which texts the validators accept, that they
  accept what the generators made, and nothing about the strength of the MAC.
\<close>

subsection \<open>First format\<close>

datatype cookie_error = Invalid_format | Hmac_mismatch | Ip_mismatch | Expired | Empty_ip | Empty_secret

definition compute_hmac :: "string \<Rightarrow> u8 list \<Rightarrow> u8 list" where
  "compute_hmac payload key = hmac_sha256 key (bytes_of payload)"

definition generate_cookie :: "string \<Rightarrow> u8 list \<Rightarrow> duration \<Rightarrow> gotime \<Rightarrow> cookie_error + string" where
  "generate_cookie ip secret ttl now =
     (if ip = [] then Inl Empty_ip
      else if secret = [] then Inl Empty_secret
      else
        let expiry = fmt_int (unix_secs (time_add now ttl));
            payload = ip @ '':'' @ expiry;
            sig_hex = hex_encode (compute_hmac payload secret);
            raw = ip @ '':'' @ expiry @ '':'' @ sig_hex
        in Inr (b64_encode (bytes_of raw)))"

definition validate_cookie :: "string \<Rightarrow> string \<Rightarrow> u8 list \<Rightarrow> gotime \<Rightarrow> cookie_error + unit" where
  "validate_cookie cookie ip secret now =
     (if ip = [] then Inl Empty_ip
      else if secret = [] then Inl Empty_secret
      else case b64_decode cookie of
        None \<Rightarrow> Inl Invalid_format
      | Some bytes \<Rightarrow>
          let raw = string_of bytes in
          if index_of CHR '':'' raw = None then Inl Invalid_format
          else case last_index CHR '':'' raw of
            None \<Rightarrow> Inl Invalid_format
          | Some i \<Rightarrow>
              let sig_hex = drop (Suc i) raw; remaining = take i raw
              in case last_index CHR '':'' remaining of
                   None \<Rightarrow> Inl Invalid_format
                 | Some j \<Rightarrow>
                     let cookie_ip = take j remaining; expiry = drop (Suc j) remaining in
                     if cookie_ip \<noteq> ip then Inl Ip_mismatch
                     else case parse_int64 expiry of
                       None \<Rightarrow> Inl Invalid_format
                     | Some u \<Rightarrow>
                         if u < unix_secs now then Inl Expired
                         else
                           let expected = hex_encode (compute_hmac (cookie_ip @ '':'' @ expiry) secret)
                           in if bytes_of sig_hex \<noteq> bytes_of expected then Inl Hmac_mismatch
                              else Inr ())"

lemma last_index_split:
  assumes "last_index c s = Some i"
  shows "s = take i s @ c # drop (Suc i) s \<and> c \<notin> set (drop (Suc i) s) \<and> i < length s"
proof -
  obtain p q where s: "s = p @ c # q" "c \<notin> set q"
    using assms last_index_None [of c s] split_list_last [of c s] by auto
  then have "i = length p" using last_index_append [of c q p] assms by simp
  with s show ?thesis by simp
qed

text \<open>
  The texts the validator accepts: exactly \<open>ip:expiry:mac\<close> with the MAC of \<open>ip:expiry\<close>.
\<close>

lemma validate_cookie_iff:
  assumes "ip \<noteq> []" "secret \<noteq> []"
  shows "validate_cookie cookie ip secret now = Inr () \<longleftrightarrow>
    (\<exists>expiry u. b64_decode cookie = Some (bytes_of (ip @ '':'' @ expiry @ '':'' @
        hex_encode (compute_hmac (ip @ '':'' @ expiry) secret))) \<and>
      CHR '':'' \<notin> set expiry \<and> parse_int64 expiry = Some u \<and> unix_secs now \<le> u)"
    (is "?l \<longleftrightarrow> ?r")
proof
  assume ?l
  then obtain bytes i j where d: "b64_decode cookie = Some bytes"
    and i: "last_index CHR '':'' (string_of bytes) = Some i"
    and j: "last_index CHR '':'' (take i (string_of bytes)) = Some j"
    using assms by (auto simp: validate_cookie_def Let_def split: option.splits if_splits)
  let ?raw = "string_of bytes" and ?rem = "take i (string_of bytes)"
  from \<open>?l\<close> d i j assms obtain u where
    a: "take j ?rem = ip" "parse_int64 (drop (Suc j) ?rem) = Some u" "unix_secs now \<le> u"
      "drop (Suc i) ?raw = hex_encode (compute_hmac (ip @ '':'' @ drop (Suc j) ?rem) secret)"
    by (auto simp: validate_cookie_def Let_def split: option.splits if_splits)
  have "?raw = ?rem @ CHR '':'' # drop (Suc i) ?raw" using last_index_split [OF i] by blast
  moreover have r: "?rem = ip @ CHR '':'' # drop (Suc j) ?rem" "CHR '':'' \<notin> set (drop (Suc j) ?rem)"
    using last_index_split [OF j] a(1) by auto
  ultimately have "?raw = ip @ '':'' @ drop (Suc j) ?rem @ '':'' @
      hex_encode (compute_hmac (ip @ '':'' @ drop (Suc j) ?rem) secret)"
    using a(4) by (metis append.assoc append_Cons append_Nil)
  then have "bytes = bytes_of (ip @ '':'' @ drop (Suc j) ?rem @ '':'' @
      hex_encode (compute_hmac (ip @ '':'' @ drop (Suc j) ?rem) secret))"
    by (metis bytes_of_string_of)
  with d a(2,3) r(2) show ?r
    by (intro exI [of _ "drop (Suc j) ?rem"] exI [of _ u]) (simp only: simp_thms)
next
  assume ?r
  then obtain expiry u where e: "b64_decode cookie = Some (bytes_of (ip @ '':'' @ expiry @ '':'' @
        hex_encode (compute_hmac (ip @ '':'' @ expiry) secret)))"
    "CHR '':'' \<notin> set expiry" "parse_int64 expiry = Some u" "unix_secs now \<le> u" by blast
  let ?sig = "hex_encode (compute_hmac (ip @ '':'' @ expiry) secret)"
  have "last_index CHR '':'' ((ip @ CHR '':'' # expiry) @ CHR '':'' # ?sig) = Some (length (ip @ CHR '':'' # expiry))"
    by (rule last_index_append) (rule colon_not_in_hex)
  moreover have "last_index CHR '':'' (ip @ CHR '':'' # expiry) = Some (length ip)"
    using e(2) by (rule last_index_append)
  moreover have "index_of CHR '':'' (ip @ CHR '':'' # expiry @ CHR '':'' # ?sig) \<noteq> None"
    by (simp add: index_of_None)
  ultimately show ?l using e assms by (simp add: validate_cookie_def Let_def)
qed

text \<open>
  A cookie made for an address validates for that address and that secret exactly until
  its expiry second is over; in between no validation error is possible.
\<close>

theorem cookie_roundtrip:
  assumes "generate_cookie ip secret ttl now = Inr c" "in_i64 (unix_secs (now + ttl))"
  shows "validate_cookie c ip secret now' = Inr () \<longleftrightarrow> unix_secs now' \<le> unix_secs (now + ttl)"
proof -
  let ?e = "fmt_int (unix_secs (now + ttl))"
  let ?raw = "\<lambda>x. ip @ '':'' @ x @ '':'' @ hex_encode (compute_hmac (ip @ '':'' @ x) secret)"
  from assms(1) have n: "ip \<noteq> []" "secret \<noteq> []" and "c = b64_encode (bytes_of (?raw ?e))"
    by (auto simp: generate_cookie_def time_add_def Let_def split: if_splits)
  then have d: "b64_decode c = Some (bytes_of (?raw ?e))" by (simp only: b64_roundtrip)
  have p: "parse_int64 ?e = Some (unix_secs (now + ttl))" using assms(2) by (rule parse_fmt_int)
  have "x = ?e" if "CHR '':'' \<notin> set x" "?raw ?e = ?raw x" for x
    using that sep_inject [OF fmt_int_no_colon that(1)] by simp
  with d p n fmt_int_no_colon show ?thesis
    by (subst validate_cookie_iff [OF n]) (metis bytes_of_inject option.inject)
qed

theorem cookie_roundtrip_witness:
  "validate_cookie (case generate_cookie ''1.2.3.4'' [7] 300000000000 0 of Inr c \<Rightarrow> c | Inl _ \<Rightarrow> [])
     ''1.2.3.4'' [7] 300000000000 = Inr ()"
proof -
  obtain c where c: "generate_cookie ''1.2.3.4'' [7] 300000000000 0 = Inr c"
    by (simp add: generate_cookie_def Let_def)
  have "in_i64 (unix_secs (0 + 300000000000))"
    by (simp add: unix_secs_def nanos_def in_i64_def i64_max_def i64_min_def)
  from cookie_roundtrip [OF c this] c show ?thesis by simp
qed

text \<open>
  Forging a cookie means forging the MAC: a text that validates for an address under a
  secret decodes to \<open>ip:expiry:mac\<close> with the MAC of \<open>ip:expiry\<close> under that secret. Neither the
  address nor the expiry of a validated text can be changed without changing the MACed text:
  the split is unambiguous even for IPv6 addresses, which contain the separator.
\<close>

theorem cookie_accepts_only_maced:
  assumes "validate_cookie cookie ip secret now = Inr ()"
  shows "(\<exists>expiry u. b64_decode cookie = Some (bytes_of (ip @ '':'' @ expiry @ '':'' @
        hex_encode (compute_hmac (ip @ '':'' @ expiry) secret))) \<and>
      CHR '':'' \<notin> set expiry \<and> parse_int64 expiry = Some u \<and> unix_secs now \<le> u) \<and>
    (\<forall>ip' secret' now'. validate_cookie cookie ip' secret' now' = Inr () \<longrightarrow> ip' = ip)"
proof -
  have ne: "ip \<noteq> [] \<and> secret \<noteq> []" if "validate_cookie c ip secret now = Inr ()" for c ip secret now
    using that by (auto simp: validate_cookie_def split: if_splits)
  note iff = validate_cookie_iff [OF conjunct1 [OF ne] conjunct2 [OF ne], THEN iffD1]
  have "ip' = ip" if v: "validate_cookie cookie ip' secret' now' = Inr ()" for ip' secret' now'
  proof -
    obtain e h where 1: "b64_decode cookie = Some (bytes_of (ip @ '':'' @ e @ '':'' @ hex_encode h))"
        "CHR '':'' \<notin> set e"
      using iff [OF assms assms assms] by blast
    obtain e' h' where 2: "b64_decode cookie = Some (bytes_of (ip' @ '':'' @ e' @ '':'' @ hex_encode h'))"
        "CHR '':'' \<notin> set e'"
      using iff [OF v v v] by blast
    from 1 2 have "(ip @ '':'' @ e) @ CHR '':'' # hex_encode h = (ip' @ '':'' @ e') @ CHR '':'' # hex_encode h'"
      by simp
    then have "ip @ CHR '':'' # e = ip' @ CHR '':'' # e'"
      using last_sep_inject [OF colon_not_in_hex colon_not_in_hex] by simp
    from last_sep_inject [OF 1(2) 2(2) this] show ?thesis by simp
  qed
  with iff [OF assms assms assms] show ?thesis by blast
qed

theorem cookie_accepts_only_maced_witness:
  "\<exists>expiry. CHR '':'' \<notin> set expiry \<and> b64_decode (case generate_cookie ''::1'' [7] 300000000000 0 of
      Inr c \<Rightarrow> c | Inl _ \<Rightarrow> []) = Some (bytes_of (''::1'' @ '':'' @ expiry @ '':'' @
        hex_encode (compute_hmac (''::1'' @ '':'' @ expiry) [7])))"
proof -
  let ?e = "fmt_int (unix_secs (time_add 0 300000000000))"
  let ?raw = "''::1'' @ '':'' @ ?e @ '':'' @ hex_encode (compute_hmac (''::1'' @ '':'' @ ?e) [7])"
  have g: "generate_cookie ''::1'' [7] 300000000000 0 = Inr (b64_encode (bytes_of ?raw))"
    by (simp add: generate_cookie_def Let_def)
  have "in_i64 (unix_secs (time_add 0 300000000000))"
    by (simp add: unix_secs_def nanos_def in_i64_def i64_max_def i64_min_def time_add_def)
  then have "\<exists>u. parse_int64 ?e = Some u \<and> unix_secs 0 \<le> u"
    by (simp add: parse_fmt_int) (simp add: unix_secs_def nanos_def time_add_def)
  then have "validate_cookie (b64_encode (bytes_of ?raw)) ''::1'' [7] 0 = Inr ()"
    by (subst validate_cookie_iff) (auto simp: b64_roundtrip fmt_int_no_colon)
  from cookie_accepts_only_maced [OF this] show ?thesis
    unfolding g sum.case by blast
qed

subsection \<open>Second format\<close>

record cookie_manager =
  cm_secret :: "u8 list"
  cm_default_ttl :: duration

datatype v2_error = V2_format | V2_version | V2_hmac | V2_ip | V2_tls | V2_expired
  | V2_empty_ip | V2_empty_secret | V2_random

definition v2_head :: "string \<Rightarrow> string \<Rightarrow> int \<Rightarrow> u8 list \<Rightarrow> u8 list" where
  "v2_head ip fp expiry nonce =
     [0x02] @ be_bytes 4 (fnv1a32 ip) @ be_bytes 4 (if fp = [] then 0 else fnv1a32 fp) @
     be_bytes 8 (word_of_int expiry :: u64) @ nonce"

text \<open>The nonce is the eight bytes \<^verbatim>\<open>randFunc\<close> wrote, or its error.\<close>

definition generate_v2 :: "cookie_manager \<Rightarrow> string \<Rightarrow> string \<Rightarrow> duration \<Rightarrow> gotime \<Rightarrow>
    u8 list option \<Rightarrow> v2_error + string" where
  "generate_v2 m ip fp ttl now nonce =
     (if ip = [] then Inl V2_empty_ip
      else if cm_secret m = [] then Inl V2_empty_secret
      else case nonce of
        None \<Rightarrow> Inl V2_random
      | Some n \<Rightarrow>
          let head = v2_head ip fp (unix_secs (time_add now ttl)) (take 8 (n @ replicate 8 0))
          in Inr (b64_raw_encode (head @ hmac_sha256 (cm_secret m) head)))"

definition byte_range :: "nat \<Rightarrow> nat \<Rightarrow> 'a list \<Rightarrow> 'a list" where
  "byte_range i j xs = take (j - i) (drop i xs)"

definition validate_v2 :: "cookie_manager \<Rightarrow> string \<Rightarrow> string \<Rightarrow> string \<Rightarrow> gotime \<Rightarrow>
    v2_error + duration" where
  "validate_v2 m cookie ip fp now =
     (if ip = [] then Inl V2_empty_ip
      else if cm_secret m = [] then Inl V2_empty_secret
      else case b64_raw_decode cookie of
        None \<Rightarrow> Inl V2_format
      | Some p \<Rightarrow>
          if length p \<noteq> 57 then Inl V2_format
          else if p ! 0 \<noteq> 0x02 then Inl V2_version
          else if drop 25 p \<noteq> hmac_sha256 (cm_secret m) (take 25 p) then Inl V2_hmac
          else if (be_word (byte_range 1 5 p) :: u32) \<noteq> fnv1a32 ip then Inl V2_ip
          else if fp \<noteq> [] \<and> (be_word (byte_range 5 9 p) :: u32) \<noteq> fnv1a32 fp then Inl V2_tls
          else
            let expiry = sint (be_word (byte_range 9 17 p) :: u64); n = unix_secs now
            in if expiry < n then Inl V2_expired else Inr (seconds (i64 (expiry - n))))"

definition should_refresh :: "duration \<Rightarrow> duration \<Rightarrow> bool" where
  "should_refresh remaining total_ttl = (if total_ttl \<le> 0 then False else remaining < go_div total_ttl 2)"

lemma sint_word_of_i64: "in_i64 x \<Longrightarrow> sint (word_of_int x :: u64) = x"
  by (simp add: in_i64_def i64_max_def i64_min_def signed_of_int
      signed_take_bit_int_eq_self)

lemma length_v2_head: "length n = 8 \<Longrightarrow> length (v2_head ip fp e n) = 25"
  by (simp add: v2_head_def)

lemma v2_head_slices:
  assumes "length n = 8"
  shows "(v2_head ip fp e n @ mac) ! 0 = 0x02 \<and>
    take 25 (v2_head ip fp e n @ mac) = v2_head ip fp e n \<and>
    drop 25 (v2_head ip fp e n @ mac) = mac \<and>
    byte_range 1 5 (v2_head ip fp e n @ mac) = be_bytes 4 (fnv1a32 ip) \<and>
    byte_range 5 9 (v2_head ip fp e n @ mac) = be_bytes 4 (if fp = [] then 0 else fnv1a32 fp) \<and>
    byte_range 9 17 (v2_head ip fp e n @ mac) = be_bytes 8 (word_of_int e :: u64)"
  using assms by (simp add: v2_head_def byte_range_def)

text \<open>What the validator answers to a cookie of the generator.\<close>

lemma validate_generated:
  assumes "generate_v2 m ip fp ttl now nonce = Inr c" "in_i64 (unix_secs (now + ttl))"
    and "fp' = fp \<or> fp' = []"
  shows "validate_v2 m c ip fp' now' =
    (if unix_secs (now + ttl) < unix_secs now' then Inl V2_expired
     else Inr (seconds (i64 (unix_secs (now + ttl) - unix_secs now'))))"
proof -
  obtain n0 where n0: "nonce = Some n0" using assms(1) by (auto simp: generate_v2_def split: option.splits if_splits)
  define n where "n = take 8 (n0 @ replicate 8 0)"
  let ?e = "unix_secs (now + ttl)"
  let ?h = "v2_head ip fp ?e n"
  from assms(1) n0 have ne: "ip \<noteq> []" "cm_secret m \<noteq> []"
    and c: "c = b64_raw_encode (?h @ hmac_sha256 (cm_secret m) ?h)"
    by (auto simp: generate_v2_def time_add_def Let_def n_def split: if_splits)
  have l: "length n = 8" by (simp add: n_def)
  note sl = v2_head_slices [OF l, of ip fp ?e "hmac_sha256 (cm_secret m) ?h"] length_v2_head [OF l, of ip fp ?e]
  have "b64_raw_decode c = Some (?h @ hmac_sha256 (cm_secret m) ?h)"
    unfolding c by (rule b64_raw_roundtrip)
  moreover have "(be_word (be_bytes 4 (w :: u32)) :: u32) = w" for w by (rule be_word_be_bytes) simp
  moreover have "(be_word (be_bytes 8 (w :: u64)) :: u64) = w" for w by (rule be_word_be_bytes) simp
  ultimately show ?thesis
    using ne assms(2,3)
    by (auto simp: validate_v2_def sl sint_word_of_i64 Let_def simp del: One_nat_def)
qed

text \<open>
  C9. A second-format cookie made for an address and a fingerprint validates under the same
  secret, for the same address and fingerprint, exactly until its expiry second is over, and
  the validator answers the remaining seconds; with an empty fingerprint it validates as well,
  whatever fingerprint it was made for.
\<close>

theorem cookie_v2_roundtrip:
  assumes "generate_v2 m ip fp ttl now nonce = Inr c" "in_i64 (unix_secs (now + ttl))"
    and "fp' = fp \<or> fp' = []"
  shows "validate_v2 m c ip fp' now' =
    (if unix_secs (now + ttl) < unix_secs now' then Inl V2_expired
     else Inr (seconds (i64 (unix_secs (now + ttl) - unix_secs now'))))"
  using assms by (rule validate_generated)

definition demo_manager :: cookie_manager where
  "demo_manager = \<lparr>cm_secret = [7], cm_default_ttl = 300000000000\<rparr>"

definition demo_v2 :: "string \<Rightarrow> string \<Rightarrow> string" where
  "demo_v2 ip fp =
     (case generate_v2 demo_manager ip fp 300000000000 0 (Some [1, 2, 3, 4, 5, 6, 7, 8]) of
        Inr c \<Rightarrow> c | Inl _ \<Rightarrow> [])"

lemma demo_v2_made:
  "ip \<noteq> [] \<Longrightarrow> generate_v2 demo_manager ip fp 300000000000 0 (Some [1, 2, 3, 4, 5, 6, 7, 8]) =
     Inr (demo_v2 ip fp)"
  by (simp add: demo_v2_def generate_v2_def demo_manager_def Let_def)

lemma demo_v2_time: "in_i64 (unix_secs (0 + 300000000000))"
  by (simp add: unix_secs_def nanos_def in_i64_def i64_max_def i64_min_def)

lemma v2_demo_validates:
  "ip \<noteq> [] \<Longrightarrow> validate_v2 demo_manager (demo_v2 ip fp) ip fp 100000000000 = Inr 200000000000"
  using validate_generated [OF demo_v2_made demo_v2_time, of ip fp fp 100000000000]
  by (simp add: unix_secs_def nanos_def seconds_def i64_def)

theorem cookie_v2_roundtrip_witness:
  "validate_v2 demo_manager (demo_v2 ''1.2.3.4'' ''f'') ''1.2.3.4'' ''f'' 100000000000 = Inr 200000000000"
  using cookie_v2_roundtrip [OF demo_v2_made demo_v2_time, of "''1.2.3.4''" "''f''" "''f''" 100000000000]
  by (simp add: unix_secs_def nanos_def seconds_def i64_def)

text \<open>
  What an accepted second-format cookie is bound to: 57 bytes whose first 25 carry the MAC
  under the secret, and of the address only its 32-bit FNV hash. So the same cookie is also
  accepted from every address with the same hash, and, whatever TLS fingerprint it was made
  for, from a client that sends no fingerprint header.
\<close>

theorem cookie_v2_binding:
  assumes "validate_v2 m c ip fp now = Inr d"
  shows "(\<exists>p. b64_raw_decode c = Some p \<and> length p = 57 \<and>
      drop 25 p = hmac_sha256 (cm_secret m) (take 25 p)) \<and>
    (\<forall>ip'. ip' \<noteq> [] \<and> fnv1a32 ip' = fnv1a32 ip \<longrightarrow> validate_v2 m c ip' [] now = Inr d)"
  using assms by (auto simp: validate_v2_def Let_def split: option.splits if_splits)

lemma fnv_collision: "fnv1a32 ''44.116.89.93'' = fnv1a32 ''82.207.74.50''"
  by code_simp

theorem cookie_v2_binding_witness:
  "validate_v2 demo_manager (demo_v2 ''82.207.74.50'' ''f'') ''44.116.89.93'' [] 100000000000 =
     Inr 200000000000"
proof -
  have "validate_v2 demo_manager (demo_v2 ''82.207.74.50'' ''f'') ''82.207.74.50'' ''f'' 100000000000 =
      Inr 200000000000"
    by (rule v2_demo_validates) simp
  from cookie_v2_binding [OF this] show ?thesis using fnv_collision by simp
qed

end
