(* ===== verification/Detect.thy ===== *)
theory Detect
  imports GoNet Crypto Http
begin

text \<open>
  What the client reads off a request before any state is consulted: the automation filter on
  the User-Agent (\<^verbatim>\<open>internal/client/ua/detector.go\<close>), the client address behind Cloudflare
  (\<^verbatim>\<open>internal/client/cf/extractor.go\<close>), the TLS fingerprint headers
  (\<^verbatim>\<open>internal/client/fingerprint/tls.go\<close>), and the address of the lockdown middleware
  (\<^verbatim>\<open>ClientIP\<close> in \<^verbatim>\<open>internal/client/client_waf.go\<close>).
\<close>

subsection \<open>User-Agent\<close>

definition known_attack_patterns :: "string list" where
  "known_attack_patterns = [''sqlmap'', ''python-requests'', ''python-urllib'', ''libwww-perl'',
     ''httpclient'', ''go-http-client'', ''nikto'', ''masscan'']"

definition known_prefix_patterns :: "string list" where
  "known_prefix_patterns = [''curl/'', ''wget/'']"

definition is_automation_ua :: "string \<Rightarrow> bool" where
  "is_automation_ua ua =
     (if ua = [] then True
      else let low = go_lower ua in
        if list_ex (\<lambda>p. contains_sub p low) known_attack_patterns then True
        else list_ex (\<lambda>p. prefix p low) known_prefix_patterns)"

definition ascii :: "string \<Rightarrow> bool" where
  "ascii s \<longleftrightarrow> (\<forall>c\<in>set s. of_char c < (128 :: nat))"

lemma go_lower_append: "ascii p \<Longrightarrow> go_lower (a @ p) = go_lower a @ go_lower p"
proof (induction a rule: go_lower.induct)
  case (2 c cs)
  have np: "prefix (x # y) (c # cs @ p) \<longleftrightarrow> prefix (x # y) (c # cs)"
    if "\<forall>z\<in>set y. (128 :: nat) \<le> of_char z" for x y
  proof -
    have "prefix y (cs @ p) \<longleftrightarrow> prefix y cs"
      using that 2(4)
    proof (induction cs arbitrary: y)
      case Nil
      then show ?case by (cases p; cases y) (auto simp: ascii_def)
    next
      case (Cons d ds)
      then show ?case by (cases y) auto
    qed
    then show ?thesis by simp
  qed
  have pre: "prefix [CHR 0xC4, CHR 0xB0] (c # cs @ p) \<longleftrightarrow> prefix [CHR 0xC4, CHR 0xB0] (c # cs)"
    "prefix [CHR 0xE2, CHR 0x84, CHR 0xAA] (c # cs @ p) \<longleftrightarrow> prefix [CHR 0xE2, CHR 0x84, CHR 0xAA] (c # cs)"
    by (rule np; simp)+
  have dr: "drop 1 (cs @ p) = drop 1 cs @ p" if "prefix [CHR 0xC4, CHR 0xB0] (c # cs)"
    using that by (auto simp: prefix_def)
  have dr': "drop 2 (cs @ p) = drop 2 cs @ p" if "prefix [CHR 0xE2, CHR 0x84, CHR 0xAA] (c # cs)"
    using that by (auto simp: prefix_def)
  show ?case
    unfolding append_Cons go_lower.simps pre using 2 dr dr' by (auto simp del: drop_Suc_Cons)
qed simp

text \<open>
  No text around the name of a known tool, and no mix of upper and lower case in it, gets
  past the automation filter; an absent User-Agent does not either.
\<close>

theorem attack_tool_blocked:
  assumes "ascii tool" "go_lower tool \<in> set known_attack_patterns" "ascii after"
  shows "is_automation_ua (before @ tool @ after) \<and> is_automation_ua []"
proof -
  have "ascii (tool @ after)" using assms(1,3) by (auto simp: ascii_def)
  then have "go_lower (before @ tool @ after) = go_lower before @ go_lower tool @ go_lower after"
    using assms(3) by (simp add: go_lower_append)
  then have "contains_sub (go_lower tool) (go_lower (before @ tool @ after))"
    by (auto simp: contains_sub_iff)
  with assms(2) show ?thesis
    by (auto simp: is_automation_ua_def Let_def list_ex_iff)
qed

theorem attack_tool_blocked_witness: "is_automation_ua (''Mozilla/5.0 '' @ ''sQLmaP'' @ ''/1.7'')"
  by (rule attack_tool_blocked [THEN conjunct1]) code_simp+

subsection \<open>Cloudflare\<close>

definition cloudflare_ipv4_ranges :: "string list" where
  "cloudflare_ipv4_ranges = [''173.245.48.0/20'', ''103.21.244.0/22'', ''103.22.200.0/22'',
     ''103.31.4.0/22'', ''141.101.64.0/18'', ''108.162.192.0/18'', ''190.93.240.0/20'',
     ''188.114.96.0/20'', ''197.234.240.0/22'', ''198.41.128.0/17'', ''162.158.0.0/15'',
     ''104.16.0.0/13'', ''104.24.0.0/14'', ''172.64.0.0/13'', ''131.0.72.0/22'']"

record cf_extractor =
  trusted_ranges :: "ip_net list"
  trust_mode :: string

definition new_cf_extractor :: "string \<Rightarrow> cf_extractor" where
  "new_cf_extractor mode =
     \<lparr>trusted_ranges = List.map_filter (\<lambda>c. map_option snd (parse_cidr c)) cloudflare_ipv4_ranges,
      trust_mode = (if mode \<noteq> ''permissive'' then ''strict'' else mode)\<rparr>"

definition extract_ip_from_addr :: "string \<Rightarrow> string" where
  "extract_ip_from_addr addr =
     (if addr = [] then []
      else case split_host_port addr of None \<Rightarrow> addr | Some (h, _) \<Rightarrow> h)"

definition is_in_cloudflare_range :: "cf_extractor \<Rightarrow> string \<Rightarrow> bool" where
  "is_in_cloudflare_range e s =
     (case parse_ip s of None \<Rightarrow> False | Some ip \<Rightarrow> list_ex (\<lambda>n. net_contains n ip) (trusted_ranges e))"

definition is_cloudflare_peer :: "cf_extractor \<Rightarrow> string \<Rightarrow> bool" where
  "is_cloudflare_peer e remote = is_in_cloudflare_range e (extract_ip_from_addr remote)"

definition extract_client_ip :: "cf_extractor \<Rightarrow> http_request \<Rightarrow> string" where
  "extract_client_ip e r =
     (let cf_ip = trim_space (rq_header r ''Cf-Connecting-Ip'') in
      if cf_ip = [] then extract_ip_from_addr (rq_remote r)
      else if trust_mode e = ''permissive'' then cf_ip
      else let peer = extract_ip_from_addr (rq_remote r)
           in if is_in_cloudflare_range e peer then cf_ip else peer)"

text \<open>
  In every mode but \<^verbatim>\<open>permissive\<close> a peer outside the Cloudflare ranges is known by the
  address of its connection: no header it sends can change the address the limiter, the bans
  and the cookies work with.
\<close>

theorem strict_mode_unspoofable:
  assumes "mode \<noteq> ''permissive''" "\<not> is_cloudflare_peer (new_cf_extractor mode) (rq_remote r)"
  shows "extract_client_ip (new_cf_extractor mode) (r\<lparr>rq_header := h\<rparr>) =
    extract_ip_from_addr (rq_remote r)"
  using assms by (simp add: extract_client_ip_def is_cloudflare_peer_def new_cf_extractor_def Let_def)

definition demo_peer :: http_request where
  "demo_peer = plain_get ''/'' ''8.8.8.8:4711''"

lemma demo_peer_outside: "\<not> is_cloudflare_peer (new_cf_extractor ''strict'') ''8.8.8.8:4711''"
  by code_simp

theorem strict_mode_unspoofable_witness:
  "extract_client_ip (new_cf_extractor ''strict'') (demo_peer\<lparr>rq_header := (\<lambda>_. ''1.1.1.1'')\<rparr>) = ''8.8.8.8''"
proof -
  have "extract_ip_from_addr ''8.8.8.8:4711'' = ''8.8.8.8''" by code_simp
  then show ?thesis
    using strict_mode_unspoofable [of "''strict''" demo_peer] demo_peer_outside
    by (simp add: demo_peer_def plain_get_def)
qed

text \<open>Every listed range parses: the extractor trusts all fifteen.\<close>

lemma all_ranges_kept: "length (trusted_ranges (new_cf_extractor mode)) = 15"
proof -
  have "length (List.map_filter (\<lambda>c. map_option snd (parse_cidr c)) cloudflare_ipv4_ranges) = 15"
    by code_simp
  then show ?thesis by (simp add: new_cf_extractor_def)
qed

subsection \<open>TLS fingerprint\<close>

definition hash_fingerprint :: "string \<Rightarrow> string" where
  "hash_fingerprint raw = hex_encode (sha256 (bytes_of raw))"

definition extract_fingerprint :: "http_request \<Rightarrow> string" where
  "extract_fingerprint r =
     (let fp = rq_header r ''X-Tls-Fingerprint'' in
      if fp \<noteq> [] then fp
      else let ja3 = rq_header r ''Cf-Ja3'' in if ja3 \<noteq> [] then hash_fingerprint ja3 else [])"

subsection \<open>The address of the lockdown middleware\<close>

definition client_ip :: "http_request \<Rightarrow> string" where
  "client_ip r =
     (let forwarded = trim_space (rq_header r ''X-Forwarded-For'');
          first = trim_space (before_sep CHR '','' forwarded)
      in if forwarded \<noteq> [] \<and> first \<noteq> [] then first
         else
           let addr = rq_remote r in
           case last_index CHR '':'' addr of
             None \<Rightarrow> addr
           | Some idx \<Rightarrow>
               if idx = 0 then addr
               else if hd addr = CHR ''['' then
                 (case index_of CHR '']'' addr of
                    None \<Rightarrow> take idx addr
                  | Some e \<Rightarrow> if 0 < e then take (e - 1) (drop 1 addr) else take idx addr)
               else take idx addr)"

end
