(* ===== verification/ProxyHandler.thy ===== *)
theory ProxyHandler
  imports Ban RateLimit CookieLimit Escalation Challenge LoopDetect Cookie Detect
begin

text \<open>
  The request handler, \<^verbatim>\<open>internal/client/proxy.go\<close>: the guards of \<^verbatim>\<open>ServeHTTP\<close> in their
  order, the choice of a challenge, the three verify endpoints. Its fields may be nil, as they
  are before \<^verbatim>\<open>RunWithConfig\<close> sets them; a call through a nil field the code does not guard
  is a run-time panic, an outcome here. The clock readings of one request are one instant, and
  the requests are handled one after the other, each step being atomic under its component's
  lock. What the backend answers is not modelled: the outcome is that the request was passed
  on.
\<close>

subsection \<open>State and replies\<close>

record proxy_config =
  pc_secret :: "u8 list"
  pc_cookie_ttl :: duration
  pc_difficulty :: int
  pc_hold_seconds :: int
  pc_ban_duration :: duration
  pc_challenge_ttl :: duration
  pc_challenge_all :: bool
  pc_transparent_ttl :: duration

record proxy =
  px_limiter :: "limiter option"
  px_ban :: "ban_engine option"
  px_store :: challenge_store
  px_mgr_v2 :: "cookie_manager option"
  px_cookie_limiter :: "cookie_limiter option"
  px_esc :: "esc_engine option"
  px_loop :: "loop_detector option"
  px_cf :: "cf_extractor option"
  px_tls :: bool
  px_conf :: proxy_config

datatype outcome = Forwarded | Forbidden | Served page | Verify_ok | Verify_refused nat string | Panicked

record reply =
  rp_outcome :: outcome
  rp_cookie :: "(string \<times> int) option"

text \<open>The random values a request may draw: a token, a salt and the nonce of a cookie.\<close>

record draws =
  dr_token :: string
  dr_salt :: string
  dr_nonce :: "u8 list option"

definition proxy_defaults :: "proxy_config \<Rightarrow> proxy_config" where
  "proxy_defaults c = \<lparr>pc_secret = pc_secret c,
     pc_cookie_ttl = (if pc_cookie_ttl c \<le> 0 then minutes 5 else pc_cookie_ttl c),
     pc_difficulty = (if pc_difficulty c \<le> 0 then default_difficulty else pc_difficulty c),
     pc_hold_seconds = (if pc_hold_seconds c \<le> 0 then default_hold_seconds else pc_hold_seconds c),
     pc_ban_duration = (if pc_ban_duration c \<le> 0 then minutes 15 else pc_ban_duration c),
     pc_challenge_ttl = (if pc_challenge_ttl c \<le> 0 then seconds 90 else pc_challenge_ttl c),
     pc_challenge_all = pc_challenge_all c,
     pc_transparent_ttl = (if pc_transparent_ttl c \<le> 0 then seconds 30 else pc_transparent_ttl c)\<rparr>"

definition new_proxy_handler :: "proxy_config \<Rightarrow> limiter option \<Rightarrow> ban_engine option \<Rightarrow>
    challenge_store \<Rightarrow> proxy" where
  "new_proxy_handler c lim b st =
     \<lparr>px_limiter = lim, px_ban = b, px_store = st, px_mgr_v2 = None, px_cookie_limiter = None,
      px_esc = None, px_loop = None, px_cf = None, px_tls = False, px_conf = proxy_defaults c\<rparr>"

subsection \<open>Reading the request\<close>

definition handler_ip :: "http_request \<Rightarrow> proxy \<Rightarrow> string" where
  "handler_ip r p = (case px_cf p of Some e \<Rightarrow> extract_client_ip e r | None \<Rightarrow> client_ip r)"

definition handler_fp :: "http_request \<Rightarrow> proxy \<Rightarrow> string" where
  "handler_fp r p = (if px_tls p then extract_fingerprint r else [])"

definition has_valid_cookie_v2 :: "http_request \<Rightarrow> string \<Rightarrow> gotime \<Rightarrow> proxy \<Rightarrow> string option" where
  "has_valid_cookie_v2 r ip now p =
     (case rq_cookie r of
        None \<Rightarrow> None
      | Some c \<Rightarrow>
          if (case px_cookie_limiter p of None \<Rightarrow> False | Some l \<Rightarrow> is_revoked c l) then None
          else case px_mgr_v2 p of
            Some m \<Rightarrow> (case validate_v2 m c ip (handler_fp r p) now of Inr _ \<Rightarrow> Some c | Inl _ \<Rightarrow> None)
          | None \<Rightarrow> (case validate_cookie c ip (pc_secret (px_conf p)) now of Inr _ \<Rightarrow> Some c | Inl _ \<Rightarrow> None))"

definition has_valid_cookie :: "http_request \<Rightarrow> string \<Rightarrow> gotime \<Rightarrow> proxy \<Rightarrow> bool" where
  "has_valid_cookie r ip now p =
     (case rq_cookie r of None \<Rightarrow> False
      | Some c \<Rightarrow> validate_cookie c ip (pc_secret (px_conf p)) now = Inr ())"

text \<open>The cookie a reply sets: its value and its age in seconds, or none when making it failed.\<close>

definition set_access_cookie :: "string \<Rightarrow> gotime \<Rightarrow> proxy \<Rightarrow> (string \<times> int) option" where
  "set_access_cookie ip now p =
     (case generate_cookie ip (pc_secret (px_conf p)) (pc_cookie_ttl (px_conf p)) now of
        Inl _ \<Rightarrow> None | Inr c \<Rightarrow> Some (c, go_div (pc_cookie_ttl (px_conf p)) nanos))"

definition set_access_cookie_v2 :: "http_request \<Rightarrow> string \<Rightarrow> gotime \<Rightarrow> draws \<Rightarrow> proxy \<Rightarrow>
    (string \<times> int) option" where
  "set_access_cookie_v2 r ip now d p =
     (case px_mgr_v2 p of
        Some m \<Rightarrow>
          (case generate_v2 m ip (handler_fp r p) (pc_cookie_ttl (px_conf p)) now (dr_nonce d) of
             Inl _ \<Rightarrow> None | Inr c \<Rightarrow> Some (c, go_div (pc_cookie_ttl (px_conf p)) nanos))
      | None \<Rightarrow> set_access_cookie ip now p)"

definition maybe_refresh_cookie :: "http_request \<Rightarrow> string \<Rightarrow> gotime \<Rightarrow> draws \<Rightarrow> proxy \<Rightarrow>
    (string \<times> int) option" where
  "maybe_refresh_cookie r ip now d p =
     (case px_mgr_v2 p of
        None \<Rightarrow> None
      | Some m \<Rightarrow>
          (case rq_cookie r of
             None \<Rightarrow> None
           | Some c \<Rightarrow>
               (case validate_v2 m c ip (handler_fp r p) now of
                  Inl _ \<Rightarrow> None
                | Inr remaining \<Rightarrow>
                    if should_refresh remaining (pc_cookie_ttl (px_conf p))
                    then set_access_cookie_v2 r ip now d p else None)))"

subsection \<open>The limiter through the handler\<close>

definition ask_limiter :: "(string \<Rightarrow> gotime \<Rightarrow> limiter \<Rightarrow> bool \<times> limiter) \<Rightarrow> string \<Rightarrow> gotime \<Rightarrow>
    proxy \<Rightarrow> bool \<times> proxy" where
  "ask_limiter q ip now p =
     (case px_limiter p of
        None \<Rightarrow> (False, p)
      | Some l \<Rightarrow> (let (b, l') = q ip now l in (b, p\<lparr>px_limiter := Some l'\<rparr>)))"

text \<open>\<^verbatim>\<open>h.rateLimiter != nil && !h.rateLimiter.Allow(ip)\<close>.\<close>

definition over_soft :: "string \<Rightarrow> gotime \<Rightarrow> proxy \<Rightarrow> bool \<times> proxy" where
  "over_soft ip now p =
     (case px_limiter p of
        None \<Rightarrow> (False, p)
      | Some l \<Rightarrow> (let (b, l') = allow ip now l in (\<not> b, p\<lparr>px_limiter := Some l'\<rparr>)))"

definition rate_limit_level :: "string \<Rightarrow> gotime \<Rightarrow> proxy \<Rightarrow> int \<times> proxy" where
  "rate_limit_level ip now p =
     (let (hard, p) = ask_limiter is_hard_blocked ip now p in
      if hard then (4, p)
      else let (double, p) = ask_limiter is_double_threshold ip now p in
        if double then (3, p)
        else let (soft, p) = over_soft ip now p in if soft then (2, p) else (0, p))"

definition escalation_level :: "string \<Rightarrow> gotime \<Rightarrow> proxy \<Rightarrow> (int \<times> proxy) option" where
  "escalation_level ip now p =
     (case px_esc p of
        None \<Rightarrow> Some (if pc_challenge_all (px_conf p) then 1 else 0, p)
      | Some e \<Rightarrow>
          (case get_level ip now e of
             None \<Rightarrow> None
           | Some (l, e') \<Rightarrow>
               Some (if \<not> pc_challenge_all (px_conf p) \<and> l = 1 then 0 else l, p\<lparr>px_esc := Some e'\<rparr>)))"

definition get_escalation_level :: "string \<Rightarrow> gotime \<Rightarrow> proxy \<Rightarrow> (int \<times> proxy) option" where
  "get_escalation_level ip now p =
     (let (rl, p) = rate_limit_level ip now p in
      case escalation_level ip now p of
        None \<Rightarrow> None
      | Some (el, p) \<Rightarrow> Some (if el < rl then rl else el, p))"

definition should_bypass_loop :: "string \<Rightarrow> string \<Rightarrow> gotime \<Rightarrow> proxy \<Rightarrow> bool" where
  "should_bypass_loop ip kind now p =
     (case px_loop p of None \<Rightarrow> False | Some d \<Rightarrow> should_bypass ip kind now d)"

definition note_loop :: "string \<Rightarrow> string \<Rightarrow> gotime \<Rightarrow> proxy \<Rightarrow> proxy" where
  "note_loop ip kind now p =
     (case px_loop p of None \<Rightarrow> p | Some d \<Rightarrow> p\<lparr>px_loop := Some (record_loop ip kind now d)\<rparr>)"

definition plain :: "outcome \<Rightarrow> reply" where
  "plain out = \<lparr>rp_outcome = out, rp_cookie = None\<rparr>"

subsection \<open>Serving a challenge\<close>

definition serve_challenge_for_level :: "http_request \<Rightarrow> string \<Rightarrow> gotime \<Rightarrow> draws \<Rightarrow> proxy \<Rightarrow>
    reply \<times> proxy" where
  "serve_challenge_for_level r ip now d p0 =
     (case get_escalation_level ip now p0 of
        None \<Rightarrow> (plain Panicked, snd (rate_limit_level ip now p0))
      | Some (lvl, p1) \<Rightarrow>
          let (limited, p) = over_soft ip now p1;
              bypass = (\<lambda>kind. \<not> limited \<and> should_bypass_loop ip kind now p);
              pass = (\<lparr>rp_outcome = Forwarded, rp_cookie = set_access_cookie_v2 r ip now d p\<rparr>, p);
              show_page = (\<lambda>kind serve.
                let q = note_loop ip kind now p; (pg, st) = serve (px_store q)
                in (plain (Served pg), q\<lparr>px_store := st\<rparr>))
          in if lvl = 0 then (plain Forwarded, p)
             else if lvl = 1 then
               if bypass ''transparent'' then pass
               else show_page ''transparent'' (serve_transparent_page r
                 (pc_transparent_ttl (px_conf p)) ip (dr_token d) (dr_salt d) now now)
             else if lvl = 2 then
               if bypass ''pow'' then pass
               else show_page ''pow'' (serve_challenge_page r (pc_difficulty (px_conf p))
                 (pc_challenge_ttl (px_conf p)) ip (dr_token d) (dr_salt d) now now)
             else if lvl = 3 then
               if bypass ''hold'' then pass
               else show_page ''hold'' (serve_hold_page r (pc_hold_seconds (px_conf p))
                 (pc_challenge_ttl (px_conf p)) ip (dr_token d) (dr_salt d) now now)
             else case px_ban p of
               None \<Rightarrow> (plain Panicked, p)
             | Some b \<Rightarrow> (plain Forbidden,
                 p\<lparr>px_ban := Some (ban ip (pc_ban_duration (px_conf p)) ''escalation_level_4'' now b)\<rparr>))"

subsection \<open>The verify endpoints\<close>

text \<open>What the three endpoints do after a correct answer.\<close>

definition after_success :: "http_request \<Rightarrow> string \<Rightarrow> gotime \<Rightarrow> draws \<Rightarrow> proxy \<Rightarrow> reply \<times> proxy" where
  "after_success r ip now d p =
     (let p1 = (case px_limiter p of None \<Rightarrow> p | Some l \<Rightarrow> p\<lparr>px_limiter := Some (reset_ip ip l)\<rparr>);
          c = set_access_cookie_v2 r ip now d p1;
          p2 = (case px_esc p1 of None \<Rightarrow> p1 | Some e \<Rightarrow> p1\<lparr>px_esc := Some (record_success ip now e)\<rparr>)
      in (\<lparr>rp_outcome = Verify_ok, rp_cookie = c\<rparr>, p2))"

text \<open>
  The engine is passed as an interface value. A nil engine makes a non-nil interface, the check
  against nil in \<^verbatim>\<open>VerifyTransparent\<close> succeeds, and the call on the nil pointer panics.
\<close>

definition handle_transparent_verify :: "http_request \<Rightarrow> string \<Rightarrow> gotime \<Rightarrow> draws \<Rightarrow> proxy \<Rightarrow>
    reply \<times> proxy" where
  "handle_transparent_verify r ip now d p =
     (case verify_transparent r ip now now (px_store p) of
        (Verified, st, _) \<Rightarrow> after_success r ip now d (p\<lparr>px_store := st\<rparr>)
      | (Refused code msg, st, failed) \<Rightarrow>
          if \<not> failed then (plain (Verify_refused code msg), p\<lparr>px_store := st\<rparr>)
          else case px_esc p of
            None \<Rightarrow> (plain Panicked, p\<lparr>px_store := st\<rparr>)
          | Some e \<Rightarrow> (plain (Verify_refused code msg),
              p\<lparr>px_store := st, px_esc := Some (record_failure ip now e)\<rparr>))"

definition handle_challenge_verify :: "http_request \<Rightarrow> string \<Rightarrow> gotime \<Rightarrow> draws \<Rightarrow> proxy \<Rightarrow>
    reply \<times> proxy" where
  "handle_challenge_verify r ip now d p =
     (case verify_challenge r ip now (px_store p) of
        (Verified, st) \<Rightarrow> after_success r ip now d (p\<lparr>px_store := st\<rparr>)
      | (Refused code msg, st) \<Rightarrow> (plain (Verify_refused code msg), p\<lparr>px_store := st\<rparr>))"

definition handle_hold_verify :: "http_request \<Rightarrow> string \<Rightarrow> gotime \<Rightarrow> draws \<Rightarrow> proxy \<Rightarrow>
    reply \<times> proxy" where
  "handle_hold_verify r ip now d p =
     (case verify_hold r ip now now (px_store p) of
        (Verified, st) \<Rightarrow> after_success r ip now d (p\<lparr>px_store := st\<rparr>)
      | (Refused code msg, st) \<Rightarrow> (plain (Verify_refused code msg), p\<lparr>px_store := st\<rparr>))"

subsection \<open>ServeHTTP\<close>

definition ask_ban :: "string \<Rightarrow> gotime \<Rightarrow> proxy \<Rightarrow> bool \<times> proxy" where
  "ask_ban ip now p =
     (case px_ban p of
        None \<Rightarrow> (False, p)
      | Some b \<Rightarrow> (let (banned, b') = is_banned ip now b in (banned, p\<lparr>px_ban := Some b'\<rparr>)))"

definition count_request :: "string \<Rightarrow> gotime \<Rightarrow> proxy \<Rightarrow> proxy" where
  "count_request ip now p =
     (case px_limiter p of None \<Rightarrow> p | Some l \<Rightarrow> p\<lparr>px_limiter := Some (record_request ip now l)\<rparr>)"

definition check_cookie_rate :: "string \<Rightarrow> gotime \<Rightarrow> proxy \<Rightarrow> bool \<times> proxy" where
  "check_cookie_rate c now p =
     (case px_cookie_limiter p of
        None \<Rightarrow> (True, p)
      | Some l \<Rightarrow> if c = [] then (True, p)
          else (let (ok, l') = record_and_check c now l in (ok, p\<lparr>px_cookie_limiter := Some l'\<rparr>)))"

definition serve_protected :: "http_request \<Rightarrow> string \<Rightarrow> gotime \<Rightarrow> draws \<Rightarrow> proxy \<Rightarrow> reply \<times> proxy" where
  "serve_protected r ip now d p =
     (if is_automation_ua (rq_header r ''User-Agent'') then (plain Forbidden, p)
      else let (banned, p) = ask_ban ip now p in
      if banned then (plain Forbidden, p)
      else let p = count_request ip now p; (hard, p) = ask_limiter is_hard_blocked ip now p in
      if hard then (plain Forbidden,
        (case px_ban p of None \<Rightarrow> p
         | Some b \<Rightarrow> p\<lparr>px_ban := Some (ban ip (pc_ban_duration (px_conf p)) ''rate_limit_hard_block'' now b)\<rparr>))
      else let (soft, p) = over_soft ip now p in
      if soft then serve_challenge_for_level r ip now d p
      else case has_valid_cookie_v2 r ip now p of
        None \<Rightarrow> serve_challenge_for_level r ip now d p
      | Some c \<Rightarrow>
          let (ok, p) = check_cookie_rate c now p in
          if \<not> ok then serve_challenge_for_level r ip now d p
          else (\<lparr>rp_outcome = Forwarded, rp_cookie = maybe_refresh_cookie r ip now d p\<rparr>, p))"

definition serve_http :: "http_request \<Rightarrow> gotime \<Rightarrow> draws \<Rightarrow> proxy \<Rightarrow> reply \<times> proxy" where
  "serve_http r now d p =
     (let ip = handler_ip r p in
      if rq_path r = ''/__kiro/challenge/verify'' then handle_challenge_verify r ip now d p
      else if rq_path r = ''/__kiro/hold/verify'' then handle_hold_verify r ip now d p
      else if rq_path r = ''/__kiro/transparent/verify'' then handle_transparent_verify r ip now d p
      else serve_protected r ip now d p)"

end
