(* ===== verification/ProxyFacts.thy ===== *)
theory ProxyFacts
  imports ProxyHandler
begin

text \<open>
  The properties of the request handler: when a request can reach the backend, what the two
  thresholds and the bans guarantee whatever cookie or path the client shows up with, what a
  solved challenge buys, and what the loop detector gives away.
\<close>

subsection \<open>The limiter as one request sees it\<close>

text \<open>
  The number of requests of the address in the window. The queries prune, so they change the
  limiter, but not what any further query at the same instant answers.
\<close>

definition load :: "string \<Rightarrow> gotime \<Rightarrow> limiter \<Rightarrow> int" where
  "load ip now l = int (length (requests (prune_ip_state l now (get_or_create_ip ip l))))"

definition same_view :: "string \<Rightarrow> gotime \<Rightarrow> limiter \<Rightarrow> limiter \<Rightarrow> bool" where
  "same_view ip now l l' \<longleftrightarrow> lim_config l' = lim_config l \<and> load ip now l' = load ip now l \<and>
     (ip_map l ip \<noteq> None \<longrightarrow> ip_map l' ip \<noteq> None)"

lemma same_view_refl: "same_view ip now l l"
  by (simp add: same_view_def)

lemma same_view_trans: "same_view ip now l l' \<Longrightarrow> same_view ip now l' l'' \<Longrightarrow> same_view ip now l l''"
  by (auto simp: same_view_def)

lemma queries_view:
  "same_view ip now l (snd (allow ip now l))"
  "same_view ip now l (snd (is_hard_blocked ip now l))"
  "same_view ip now l (snd (is_double_threshold ip now l))"
  by (auto simp: same_view_def load_def rl_defs get_or_create_ip_def dropWhile_idem
      split: option.splits)

lemma queries_answer:
  "fst (allow ip now l) \<longleftrightarrow> load ip now l < soft_threshold (lim_config l)"
  "ip_map l ip \<noteq> None \<Longrightarrow> fst (is_hard_blocked ip now l) \<longleftrightarrow> hard_threshold (lim_config l) \<le> load ip now l"
  "ip_map l ip \<noteq> None \<Longrightarrow> fst (is_double_threshold ip now l) \<longleftrightarrow>
     i64 (soft_threshold (lim_config l) * 2) \<le> load ip now l"
  by (auto simp: load_def rl_defs get_or_create_ip_def)

lemma load_recorded:
  assumes "0 \<le> window_duration (lim_config l)"
  shows "load ip now (record_request ip now l) = load ip now l + 1"
    "ip_map (record_request ip now l) ip \<noteq> None"
    "lim_config (record_request ip now l) = lim_config l"
proof -
  let ?P = "\<lambda>t. t < now - window_duration (lim_config l)"
  have "dropWhile ?P (dropWhile ?P xs @ [now]) = dropWhile ?P xs @ [now]" for xs
    using assms by (cases "dropWhile ?P xs") (auto simp: dropWhile_append dropWhile_idem hd_dropWhile dest!: dropWhile_eq_Cons_conv [THEN iffD1])
  then show "load ip now (record_request ip now l) = load ip now l + 1"
    by (simp add: load_def rl_defs get_or_create_ip_def)
qed (simp_all add: rl_defs)

text \<open>A state of the handler whose limiter answers like \<open>l\<close>.\<close>

definition limited_as :: "string \<Rightarrow> gotime \<Rightarrow> limiter \<Rightarrow> proxy \<Rightarrow> bool" where
  "limited_as ip now l q \<longleftrightarrow>
     (\<exists>l'. px_limiter q = Some l' \<and> same_view ip now l l' \<and> ip_map l' ip \<noteq> None)"

lemma limited_as_ask:
  assumes "limited_as ip now l q" "ip_map l ip \<noteq> None"
  shows "fst (ask_limiter is_hard_blocked ip now q) \<longleftrightarrow> hard_threshold (lim_config l) \<le> load ip now l"
    "fst (ask_limiter is_double_threshold ip now q) \<longleftrightarrow>
       i64 (soft_threshold (lim_config l) * 2) \<le> load ip now l"
    "fst (over_soft ip now q) \<longleftrightarrow> soft_threshold (lim_config l) \<le> load ip now l"
    "limited_as ip now l (snd (ask_limiter is_hard_blocked ip now q))"
    "limited_as ip now l (snd (ask_limiter is_double_threshold ip now q))"
    "limited_as ip now l (snd (over_soft ip now q))"
proof -
  obtain l' where q: "px_limiter q = Some l'" and v: "same_view ip now l l'" "ip_map l' ip \<noteq> None"
    using assms(1) by (auto simp: limited_as_def)
  have c: "lim_config l' = lim_config l" "load ip now l' = load ip now l"
    using v by (simp_all add: same_view_def)
  note qv = queries_view [of ip now l']
  have ex: "same_view ip now l l'' \<and> ip_map l'' ip \<noteq> None" if "same_view ip now l' l''" for l''
    using that v by (auto intro: same_view_trans simp: same_view_def)
  show "fst (ask_limiter is_hard_blocked ip now q) \<longleftrightarrow> hard_threshold (lim_config l) \<le> load ip now l"
    "fst (ask_limiter is_double_threshold ip now q) \<longleftrightarrow>
       i64 (soft_threshold (lim_config l) * 2) \<le> load ip now l"
    "fst (over_soft ip now q) \<longleftrightarrow> soft_threshold (lim_config l) \<le> load ip now l"
    using queries_answer [where ip = ip and now = now and l = l'] v(2) c
    by (auto simp: ask_limiter_def over_soft_def q split: prod.splits)
  show "limited_as ip now l (snd (ask_limiter is_hard_blocked ip now q))"
    "limited_as ip now l (snd (ask_limiter is_double_threshold ip now q))"
    "limited_as ip now l (snd (over_soft ip now q))"
    using ex [OF qv(1)] ex [OF qv(2)] ex [OF qv(3)]
    by (auto simp: ask_limiter_def over_soft_def q limited_as_def split: prod.splits)
qed

subsection \<open>One protected request\<close>

definition verify_path :: "http_request \<Rightarrow> bool" where
  "verify_path r \<longleftrightarrow> rq_path r \<in> {''/__kiro/challenge/verify'', ''/__kiro/hold/verify'',
     ''/__kiro/transparent/verify''}"

text \<open>
  What the guards decide on: the ban, and the limiter once the request has been counted.
\<close>

definition counted :: "string \<Rightarrow> gotime \<Rightarrow> limiter \<Rightarrow> limiter" where
  "counted ip now l = record_request ip now l"

definition window_ok :: "limiter \<Rightarrow> bool" where
  "window_ok l \<longleftrightarrow> 0 \<le> window_duration (lim_config l)"

lemma limited_as_counted:
  assumes "window_ok l" "px_limiter p = Some l"
  shows "limited_as ip now (counted ip now l) (count_request ip now p)"
    "ip_map (counted ip now l) ip \<noteq> None" "load ip now (counted ip now l) = load ip now l + 1"
    "lim_config (counted ip now l) = lim_config l"
  using assms load_recorded [of l ip now]
  by (auto simp: limited_as_def count_request_def same_view_refl counted_def window_ok_def)

lemma serve_http_protected:
  "\<not> verify_path r \<Longrightarrow> serve_http r now d p = serve_protected r (handler_ip r p) now d p"
  by (simp add: serve_http_def verify_path_def Let_def)

lemma ask_ban_frame:
  "ask_ban ip now p = (b, q) \<Longrightarrow> px_limiter q = px_limiter p \<and> px_conf q = px_conf p \<and>
     px_store q = px_store p \<and> px_cookie_limiter q = px_cookie_limiter p \<and> px_esc q = px_esc p \<and>
     px_loop q = px_loop p \<and> px_mgr_v2 q = px_mgr_v2 p"
  by (auto simp: ask_ban_def split: option.splits prod.splits)

lemma rate_level_limited:
  assumes "limited_as ip now l q" "ip_map l ip \<noteq> None"
  shows "fst (rate_limit_level ip now q) =
      (if hard_threshold (lim_config l) \<le> load ip now l then 4
       else if i64 (soft_threshold (lim_config l) * 2) \<le> load ip now l then 3
       else if soft_threshold (lim_config l) \<le> load ip now l then 2 else 0)"
    and "limited_as ip now l (snd (rate_limit_level ip now q))"
proof -
  obtain h q1 where 1: "ask_limiter is_hard_blocked ip now q = (h, q1)" by force
  note a1 = limited_as_ask [OF assms, unfolded 1]
  obtain b q2 where 2: "ask_limiter is_double_threshold ip now q1 = (b, q2)" by force
  note a2 = limited_as_ask [OF _ assms(2), of now q1, unfolded 2]
  obtain c q3 where 3: "over_soft ip now q2 = (c, q3)" by force
  note a3 = limited_as_ask [OF _ assms(2), of now q2, unfolded 3]
  show "fst (rate_limit_level ip now q) =
      (if hard_threshold (lim_config l) \<le> load ip now l then 4
       else if i64 (soft_threshold (lim_config l) * 2) \<le> load ip now l then 3
       else if soft_threshold (lim_config l) \<le> load ip now l then 2 else 0)"
    and "limited_as ip now l (snd (rate_limit_level ip now q))"
    using a1 a2 a3 by (auto simp: rate_limit_level_def 1 2 3)
qed

text \<open>
  The challenge of an address over its soft threshold: never the backend, never a cookie.
\<close>

lemma challenge_over_soft:
  assumes "limited_as ip now l q" "ip_map l ip \<noteq> None"
    and "soft_threshold (lim_config l) \<le> load ip now l"
  shows "rp_outcome (fst (serve_challenge_for_level r ip now d q)) \<noteq> Forwarded \<and>
    rp_cookie (fst (serve_challenge_for_level r ip now d q)) = None"
proof -
  obtain rl q1 where rl: "rate_limit_level ip now q = (rl, q1)" by force
  have l2: "2 \<le> rl" and v1: "limited_as ip now l q1"
    using rate_level_limited [OF assms(1,2)] assms(3) by (auto simp: rl split: if_splits)
  show ?thesis
  proof (cases "escalation_level ip now q1")
    case None
    then show ?thesis
      by (simp add: serve_challenge_for_level_def get_escalation_level_def rl plain_def)
  next
    case (Some x)
    then obtain el q2 where x: "escalation_level ip now q1 = Some (el, q2)" by (cases x) auto
    have v2: "limited_as ip now l q2"
      using x v1 by (auto simp: escalation_level_def limited_as_def split: option.splits)
    define lvl where "lvl = (if el < rl then rl else el)"
    have g: "get_escalation_level ip now q = Some (lvl, q2)"
      by (simp add: get_escalation_level_def rl x lvl_def)
    have n: "lvl \<noteq> 0" "lvl \<noteq> 1" using l2 by (auto simp: lvl_def)
    obtain lim q3 where o3: "over_soft ip now q2 = (lim, q3)" by force
    have "lim" using limited_as_ask(3) [OF v2 assms(2)] assms(3) o3 by simp
    with o3 g n show ?thesis
      by (auto simp: serve_challenge_for_level_def plain_def Let_def split: prod.splits option.splits)
  qed
qed

text \<open>
  C2. Nobody floods through a cookie: from the request on with which an address reaches its
  soft threshold in the window, no request of it to a protected path reaches the backend and
  none is answered with an access cookie, with whatever valid cookie it comes and whatever the
  loop detector has seen.
\<close>

theorem soft_limit_blocks:
  assumes "\<not> verify_path r" "px_limiter p = Some l" "window_ok l"
    and "soft_threshold (lim_config l) \<le> load (handler_ip r p) now l + 1"
  shows "rp_outcome (fst (serve_http r now d p)) \<noteq> Forwarded \<and>
    rp_cookie (fst (serve_http r now d p)) = None"
proof -
  let ?ip = "handler_ip r p"
  obtain b q0 where b: "ask_ban ?ip now p = (b, q0)" by force
  have q0: "px_limiter q0 = Some l" using ask_ban_frame [OF b] assms(2) by simp
  let ?l = "counted ?ip now l"
  note c = limited_as_counted [OF assms(3) q0, of ?ip now]
  obtain h q1 where h: "ask_limiter is_hard_blocked ?ip now (count_request ?ip now q0) = (h, q1)" by force
  note a1 = limited_as_ask [OF c(1,2), unfolded h]
  obtain s q2 where s: "over_soft ?ip now q1 = (s, q2)" by force
  have v1: "limited_as ?ip now ?l q1" using a1(4) by simp
  note a2 = limited_as_ask [OF v1 c(2), unfolded s]
  have soft: "soft_threshold (lim_config ?l) \<le> load ?ip now ?l" using assms(4) c(3,4) by simp
  then have "s" using a2(3) by simp
  moreover have "limited_as ?ip now ?l q2" using a2(6) by simp
  ultimately show ?thesis
    using challenge_over_soft [OF _ c(2) soft] h s b
    by (auto simp: serve_http_protected [OF assms(1)] serve_protected_def plain_def Let_def
        split: prod.splits)
qed

definition demo_conf :: proxy_config where
  "demo_conf = \<lparr>pc_secret = [7], pc_cookie_ttl = 300000000000, pc_difficulty = 4, pc_hold_seconds = 2,
     pc_ban_duration = 900000000000, pc_challenge_ttl = 90000000000, pc_challenge_all = True,
     pc_transparent_ttl = 30000000000\<rparr>"

definition demo_proxy :: "int \<Rightarrow> int \<Rightarrow> proxy" where
  "demo_proxy soft hard = new_proxy_handler demo_conf
     (Some (new_limiter \<lparr>soft_threshold = soft, hard_threshold = hard, subnet_threshold = 9,
        window_duration = 60000000000\<rparr>))
     (Some (new_ban_engine [] [] \<lparr>open_ok = True, writable = 9, blocklist = []\<rparr>)) new_store"

definition demo_draws :: draws where
  "demo_draws = \<lparr>dr_token = ''t'', dr_salt = ''s'', dr_nonce = Some [1, 2, 3, 4, 5, 6, 7, 8]\<rparr>"

theorem soft_limit_blocks_witness:
  "rp_outcome (fst (serve_http (plain_get ''/'' ''1.2.3.4:5'') 0 demo_draws (demo_proxy 1 9))) \<noteq> Forwarded"
  by (rule soft_limit_blocks [THEN conjunct1])
     (auto simp: verify_path_def plain_get_def demo_proxy_def new_proxy_handler_def window_ok_def
        new_limiter_def load_def rl_defs get_or_create_ip_def)

text \<open>
  With the request that reaches the hard threshold the address is answered 403 and banned
  for exactly the configured time, even with a valid cookie, if it was not filtered or banned
  before and the ban engine is there.
\<close>

theorem hard_limit_bans:
  assumes "\<not> verify_path r" "px_limiter p = Some l" "window_ok l" "px_ban p = Some b" "ban_inv b"
    and "\<not> is_automation_ua (rq_header r ''User-Agent'')" "\<not> fst (is_banned (handler_ip r p) now b)"
    and "hard_threshold (lim_config l) \<le> load (handler_ip r p) now l + 1"
  shows "rp_outcome (fst (serve_http r now d p)) = Forbidden \<and>
    (\<exists>b'. px_ban (snd (serve_http r now d p)) = Some b' \<and>
      (\<forall>t. fst (is_banned (handler_ip r p) t b') \<longleftrightarrow> t \<le> now + pc_ban_duration (px_conf p)))"
proof -
  let ?ip = "handler_ip r p"
  obtain x q0 where b: "ask_ban ?ip now p = (x, q0)" by force
  obtain b1 where q0: "\<not> x" "px_ban q0 = Some b1" "ban_inv b1"
    using b assms(4,5,7) ban_inv_is_banned [OF assms(5), of ?ip now]
    by (auto simp: ask_ban_def split: prod.splits)
  have f: "px_limiter q0 = Some l" "px_conf q0 = px_conf p" using ask_ban_frame [OF b] assms(2) by auto
  let ?l = "counted ?ip now l"
  note c = limited_as_counted [OF assms(3) f(1), of ?ip now]
  obtain h q1 where h: "ask_limiter is_hard_blocked ?ip now (count_request ?ip now q0) = (h, q1)" by force
  have "h" using limited_as_ask(1) [OF c(1,2), unfolded h] assms(8) c(3,4) by simp
  moreover have "px_ban q1 = Some b1" "px_conf q1 = px_conf p"
    using h q0(2) f by (auto simp: ask_limiter_def count_request_def split: option.splits prod.splits)
  moreover have "fst (is_banned ?ip t (ban ?ip du re now b1)) \<longleftrightarrow> t \<le> now + du" for t du re
    using bans.live_put_same [OF q0(3), where k = ?ip and d = "(du, re)" and now = now and t = t] by (simp add: put_ban_def)
  ultimately show ?thesis
    using b q0(1) h assms(6)
    by (simp add: serve_http_protected [OF assms(1)] serve_protected_def plain_def Let_def)
qed

theorem hard_limit_bans_witness:
  "rp_outcome (fst (serve_http (plain_get ''/'' ''1.2.3.4:5'') 0 demo_draws (demo_proxy 1 1))) = Forbidden"
proof -
  have "\<not> is_automation_ua ''Mozilla/5.0''" by code_simp
  then show ?thesis
    by (intro hard_limit_bans [THEN conjunct1])
       (auto simp: verify_path_def plain_get_def demo_proxy_def new_proxy_handler_def window_ok_def
          new_limiter_def load_def rl_defs get_or_create_ip_def ban_inv_def is_banned_def new_ban_engine_def)
qed

text \<open>
  A banned address gets 403 on every protected path, and the request changes nothing but
  the reading of the ban: it is not counted, it uses no challenge and no cookie. The three
  verify endpoints are outside the ban, so a banned client can still redeem a token for a
  cookie.
\<close>

theorem banned_gets_403:
  assumes "\<not> verify_path r" "px_ban p = Some b" "fst (is_banned (handler_ip r p) now b)"
  shows "rp_outcome (fst (serve_http r now d p)) = Forbidden \<and>
    rp_cookie (fst (serve_http r now d p)) = None \<and>
    (\<exists>b'. snd (serve_http r now d p) = p\<lparr>px_ban := Some b'\<rparr>)"
proof -
  let ?ip = "handler_ip r p"
  obtain b' where "is_banned ?ip now b = (True, b')"
    using assms(3) by (metis (full_types) prod.collapse)
  then have "ask_ban ?ip now p = (True, p\<lparr>px_ban := Some b'\<rparr>)"
    by (simp add: ask_ban_def assms(2))
  moreover have "p = p\<lparr>px_ban := Some b\<rparr>" using assms(2) by simp
  ultimately show ?thesis
    by (simp add: serve_http_protected [OF assms(1)] serve_protected_def plain_def) metis
qed

theorem banned_gets_403_witness:
  "rp_outcome (fst (serve_http (plain_get ''/'' ''1.2.3.4:5'') 5 demo_draws
     ((demo_proxy 9 9)\<lparr>px_ban := Some (ban (handler_ip (plain_get ''/'' ''1.2.3.4:5'') (demo_proxy 9 9)) 60 ''x'' 0
        (new_ban_engine [] [] \<lparr>open_ok = True, writable = 9, blocklist = []\<rparr>))\<rparr>))) = Forbidden"
  by (rule banned_gets_403 [THEN conjunct1])
     (auto simp: verify_path_def plain_get_def is_banned_iff handler_ip_def demo_proxy_def
        new_proxy_handler_def new_ban_engine_def)

subsection \<open>Who reaches the backend\<close>

text \<open>Which parts of the state the steps before the challenge touch.\<close>

lemma limiter_frame:
  "\<exists>x. snd (ask_limiter f ip now p) = p\<lparr>px_limiter := x\<rparr>"
  "\<exists>x. snd (over_soft ip now p) = p\<lparr>px_limiter := x\<rparr>"
  "\<exists>x. count_request ip now p = p\<lparr>px_limiter := x\<rparr>"
  "\<exists>x. snd (ask_ban ip now p) = p\<lparr>px_ban := x\<rparr>"
  "\<exists>x. snd (check_cookie_rate c now p) = p\<lparr>px_cookie_limiter := x\<rparr>"
proof -
  have e: "p = p\<lparr>px_limiter := px_limiter p\<rparr>" "p = p\<lparr>px_ban := px_ban p\<rparr>"
    "p = p\<lparr>px_cookie_limiter := px_cookie_limiter p\<rparr>" by simp_all
  show "\<exists>x. snd (ask_limiter f ip now p) = p\<lparr>px_limiter := x\<rparr>"
    "\<exists>x. snd (over_soft ip now p) = p\<lparr>px_limiter := x\<rparr>"
    "\<exists>x. count_request ip now p = p\<lparr>px_limiter := x\<rparr>"
    "\<exists>x. snd (ask_ban ip now p) = p\<lparr>px_ban := x\<rparr>"
    "\<exists>x. snd (check_cookie_rate c now p) = p\<lparr>px_cookie_limiter := x\<rparr>"
    by (auto simp: ask_limiter_def over_soft_def count_request_def ask_ban_def check_cookie_rate_def
        intro: e split: option.splits prod.splits)
qed

lemma handler_fp_frame [simp]:
  "handler_fp r (p\<lparr>px_limiter := x\<rparr>) = handler_fp r p" "handler_fp r (p\<lparr>px_ban := y\<rparr>) = handler_fp r p"
  "handler_fp r (p\<lparr>px_esc := z\<rparr>) = handler_fp r p"
  by (simp_all add: handler_fp_def)

lemma cookie_frame [simp]:
  "has_valid_cookie_v2 r ip now (p\<lparr>px_limiter := x\<rparr>) = has_valid_cookie_v2 r ip now p"
  "has_valid_cookie_v2 r ip now (p\<lparr>px_ban := y\<rparr>) = has_valid_cookie_v2 r ip now p"
  "set_access_cookie_v2 r ip now d (p\<lparr>px_limiter := x\<rparr>) = set_access_cookie_v2 r ip now d p"
  "set_access_cookie_v2 r ip now d (p\<lparr>px_ban := y\<rparr>) = set_access_cookie_v2 r ip now d p"
  "set_access_cookie_v2 r ip now d (p\<lparr>px_esc := z\<rparr>) = set_access_cookie_v2 r ip now d p"
  by (simp_all add: has_valid_cookie_v2_def set_access_cookie_v2_def set_access_cookie_def
      cong: option.case_cong sum.case_cong if_cong)

lemma rate_level_frame: "\<exists>x. snd (rate_limit_level ip now p) = p\<lparr>px_limiter := x\<rparr>"
proof -
  obtain h q1 where 1: "ask_limiter is_hard_blocked ip now p = (h, q1)" by force
  obtain b q2 where 2: "ask_limiter is_double_threshold ip now q1 = (b, q2)" by force
  obtain c q3 where 3: "over_soft ip now q2 = (c, q3)" by force
  have "\<exists>x. q1 = p\<lparr>px_limiter := x\<rparr>" "\<exists>x. q2 = q1\<lparr>px_limiter := x\<rparr>" "\<exists>x. q3 = q2\<lparr>px_limiter := x\<rparr>"
    using limiter_frame(1) [of is_hard_blocked ip now p] limiter_frame(1) [of is_double_threshold ip now q1]
      limiter_frame(2) [of ip now q2] by (simp_all add: 1 2 3)
  then show ?thesis by (auto simp: rate_limit_level_def 1 2 3)
qed

lemma escalation_level_limiter:
  "map_option fst (escalation_level ip now (p\<lparr>px_limiter := x\<rparr>)) = map_option fst (escalation_level ip now p)"
  "map_option fst (escalation_level ip now (p\<lparr>px_ban := y\<rparr>)) = map_option fst (escalation_level ip now p)"
  "map_option fst (escalation_level ip now (p\<lparr>px_cookie_limiter := z\<rparr>)) = map_option fst (escalation_level ip now p)"
  by (simp_all add: escalation_level_def split: option.splits)

lemma escalation_frame:
  "escalation_level ip now p = Some (l, q) \<Longrightarrow> \<exists>x. q = p\<lparr>px_esc := x\<rparr>"
proof (cases "px_esc p")
  case None
  assume "escalation_level ip now p = Some (l, q)"
  with None have "q = p" by (simp add: escalation_level_def)
  then show ?thesis by (intro exI [of _ "px_esc p"]) simp
qed (auto simp: escalation_level_def split: option.splits)

definition challenge_kinds :: "string list" where
  "challenge_kinds = [''transparent'', ''pow'', ''hold'']"

definition unchallenged :: "string \<Rightarrow> gotime \<Rightarrow> proxy \<Rightarrow> bool" where
  "unchallenged ip now p \<longleftrightarrow> (\<exists>l\<le>0. map_option fst (escalation_level ip now p) = Some l)"

definition looping :: "string \<Rightarrow> gotime \<Rightarrow> proxy \<Rightarrow> bool" where
  "looping ip now p \<longleftrightarrow> (\<exists>k\<in>set challenge_kinds. should_bypass_loop ip k now p)"

lemma challenge_forwarded:
  assumes "rp_outcome (fst (serve_challenge_for_level r ip now d q)) = Forwarded"
  shows "unchallenged ip now q \<or> looping ip now q"
proof -
  obtain rl q1 where rl: "rate_limit_level ip now q = (rl, q1)" by force
  then obtain x where q1: "q1 = q\<lparr>px_limiter := x\<rparr>" using rate_level_frame [of ip now q] by auto
  obtain el q2 where x: "escalation_level ip now q1 = Some (el, q2)"
    using assms by (auto simp: serve_challenge_for_level_def get_escalation_level_def rl plain_def
        split: option.splits)
  then obtain y where q2: "q2 = q1\<lparr>px_esc := y\<rparr>" using escalation_frame by blast
  define lvl where "lvl = (if el < rl then rl else el)"
  have g: "get_escalation_level ip now q = Some (lvl, q2)"
    by (simp add: get_escalation_level_def rl x lvl_def)
  obtain lim q3 where o3: "over_soft ip now q2 = (lim, q3)" by force
  then obtain z where q3: "q3 = q2\<lparr>px_limiter := z\<rparr>" using limiter_frame(2) [of ip now q2] by auto
  have loop: "should_bypass_loop ip k now q3 = should_bypass_loop ip k now q" for k
    by (simp add: should_bypass_loop_def q1 q2 q3)
  have el: "map_option fst (escalation_level ip now q) = Some el"
    using x escalation_level_limiter(1) [where p = q] unfolding q1 by (metis fst_conv option.map(2))
  have rl0: "0 \<le> rl" using rl by (auto simp: rate_limit_level_def Let_def split: prod.splits if_splits)
  show ?thesis
  proof (cases "lvl = 0")
    case True
    then have "el \<le> 0" using rl0 by (auto simp: lvl_def split: if_splits)
    with el show ?thesis by (auto simp: unchallenged_def)
  next
    case False
    have "looping ip now q"
      using assms g o3 False loop
      by (auto simp: serve_challenge_for_level_def plain_def Let_def looping_def challenge_kinds_def
          split: if_splits option.splits prod.splits)
    then show ?thesis ..
  qed
qed

lemma verify_not_forwarded:
  "rp_outcome (fst (handle_challenge_verify r ip now d p)) \<noteq> Forwarded"
  "rp_outcome (fst (handle_hold_verify r ip now d p)) \<noteq> Forwarded"
  "rp_outcome (fst (handle_transparent_verify r ip now d p)) \<noteq> Forwarded"
  by (auto simp: handle_challenge_verify_def handle_hold_verify_def handle_transparent_verify_def
      after_success_def plain_def Let_def split: prod.splits verdict.splits option.splits)

text \<open>
  C1. Whatever reaches the backend passed all the guards: it is not to a verify endpoint, its
  User-Agent is no tool, its address is not banned and stays below both thresholds with this
  request; and it carries a valid, unrevoked cookie, or its address is not to be challenged
  (an administrator's, or a new one when new visitors are not challenged), or the loop
  detector lets it pass.
\<close>

theorem forwarded_only_if:
  assumes "rp_outcome (fst (serve_http r now d p)) = Forwarded" "px_limiter p = Some l" "window_ok l"
  shows "\<not> verify_path r \<and> \<not> is_automation_ua (rq_header r ''User-Agent'') \<and>
    \<not> fst (ask_ban (handler_ip r p) now p) \<and>
    load (handler_ip r p) now l + 1 < min (hard_threshold (lim_config l)) (soft_threshold (lim_config l)) \<and>
    (has_valid_cookie_v2 r (handler_ip r p) now p \<noteq> None \<or> unchallenged (handler_ip r p) now p \<or>
      looping (handler_ip r p) now p)"
proof -
  let ?ip = "handler_ip r p"
  have nv: "\<not> verify_path r"
    using assms(1) verify_not_forwarded
    by (auto simp: serve_http_def verify_path_def Let_def split: if_splits)
  have fw: "rp_outcome (fst (serve_protected r ?ip now d p)) = Forwarded"
    using assms(1) by (simp add: serve_http_protected [OF nv])
  obtain x q0 where b: "ask_ban ?ip now p = (x, q0)" by force
  then obtain xb where q0: "q0 = p\<lparr>px_ban := xb\<rparr>" using limiter_frame(4) [of ?ip now p] by auto
  have q0l: "px_limiter q0 = Some l" using assms(2) by (simp add: q0)
  let ?l = "counted ?ip now l"
  note c = limited_as_counted [OF assms(3) q0l, of ?ip now]
  obtain xc where qc: "count_request ?ip now q0 = q0\<lparr>px_limiter := xc\<rparr>"
    using limiter_frame(3) by blast
  obtain h q1 where h: "ask_limiter is_hard_blocked ?ip now (count_request ?ip now q0) = (h, q1)" by force
  then obtain xh where q1: "q1 = q0\<lparr>px_limiter := xh\<rparr>"
    using limiter_frame(1) [of is_hard_blocked ?ip now "count_request ?ip now q0"] by (auto simp: qc)
  note a1 = limited_as_ask [OF c(1,2), unfolded h]
  obtain s q2 where s: "over_soft ?ip now q1 = (s, q2)" by force
  then obtain xs where q2: "q2 = q0\<lparr>px_limiter := xs\<rparr>"
    using limiter_frame(2) [of ?ip now q1] by (auto simp: q1)
  have v1: "limited_as ?ip now ?l q1" using a1(4) by simp
  note a2 = limited_as_ask [OF v1 c(2), unfolded s]
  have v2: "limited_as ?ip now ?l q2" using a2(6) by simp
  have g: "\<not> is_automation_ua (rq_header r ''User-Agent'')" "\<not> x" "\<not> h"
    using fw b h by (auto simp: serve_protected_def plain_def Let_def split: prod.splits if_splits)
  have ns: "\<not> s"
  proof
    assume "s"
    then have "soft_threshold (lim_config ?l) \<le> load ?ip now ?l" using a2(3) by simp
    then show False
      using challenge_over_soft [OF v2 c(2)] fw b h s g \<open>s\<close>
      by (auto simp: serve_protected_def Let_def split: prod.splits if_splits)
  qed
  have thr: "load ?ip now l + 1 < min (hard_threshold (lim_config l)) (soft_threshold (lim_config l))"
    using g(3) ns a1(1) a2(3) c(3,4) by auto
  have ck: "has_valid_cookie_v2 r ?ip now q2 = has_valid_cookie_v2 r ?ip now p"
    by (simp add: q2 q0)
  have "has_valid_cookie_v2 r ?ip now p \<noteq> None \<or> unchallenged ?ip now p \<or> looping ?ip now p"
  proof (cases "has_valid_cookie_v2 r ?ip now q2")
    case None
    then have "rp_outcome (fst (serve_challenge_for_level r ?ip now d q2)) = Forwarded"
      using fw b h s g ns by (simp add: serve_protected_def Let_def)
    from challenge_forwarded [OF this] show ?thesis
      by (simp add: unchallenged_def looping_def should_bypass_loop_def q2 q0 escalation_level_limiter)
  qed (use ck in auto)
  with nv g b thr show ?thesis by simp
qed

definition open_proxy :: proxy where
  "open_proxy = (demo_proxy 5 9)\<lparr>px_conf := demo_conf\<lparr>pc_challenge_all := False\<rparr>\<rparr>"

lemma mozilla_ok: "\<not> is_automation_ua ''Mozilla/5.0''"
  by code_simp

lemma open_proxy_forwards:
  "rp_outcome (fst (serve_http (plain_get ''/'' ''1.2.3.4:5'') 0 demo_draws open_proxy)) = Forwarded"
  using mozilla_ok
  by (simp add: serve_http_def serve_protected_def plain_get_def open_proxy_def demo_proxy_def
      new_proxy_handler_def ask_ban_def is_banned_def new_ban_engine_def count_request_def
      ask_limiter_def over_soft_def rl_defs get_or_create_ip_def get_or_create_subnet_def new_limiter_def
      has_valid_cookie_v2_def serve_challenge_for_level_def get_escalation_level_def rate_limit_level_def
      escalation_level_def demo_conf_def plain_def i64_def)

theorem forwarded_only_if_witness:
  "\<not> fst (ask_ban (handler_ip (plain_get ''/'' ''1.2.3.4:5'') open_proxy) 0 open_proxy)"
  using forwarded_only_if [OF open_proxy_forwards]
  by (simp add: open_proxy_def demo_proxy_def new_proxy_handler_def window_ok_def new_limiter_def)

subsection \<open>What the loop detector gives away\<close>

lemma reaches_challenge:
  assumes "\<not> verify_path r" "\<not> is_automation_ua (rq_header r ''User-Agent'')"
    and "\<not> fst (ask_ban (handler_ip r p) now p)" "px_limiter p = Some l" "window_ok l"
    and "load (handler_ip r p) now l + 1 < hard_threshold (lim_config l)"
    and "load (handler_ip r p) now l + 1 < soft_threshold (lim_config l)"
    and "has_valid_cookie_v2 r (handler_ip r p) now p = None"
  shows "\<exists>x y. serve_http r now d p =
      serve_challenge_for_level r (handler_ip r p) now d (p\<lparr>px_ban := x, px_limiter := y\<rparr>) \<and>
    limited_as (handler_ip r p) now (counted (handler_ip r p) now l) (p\<lparr>px_ban := x, px_limiter := y\<rparr>)"
proof -
  let ?ip = "handler_ip r p"
  obtain x q0 where b: "ask_ban ?ip now p = (x, q0)" by force
  then obtain xb where q0: "q0 = p\<lparr>px_ban := xb\<rparr>" using limiter_frame(4) [of ?ip now p] by auto
  have q0l: "px_limiter q0 = Some l" using assms(4) by (simp add: q0)
  let ?l = "counted ?ip now l"
  note c = limited_as_counted [OF assms(5) q0l, of ?ip now]
  obtain xc where qc: "count_request ?ip now q0 = q0\<lparr>px_limiter := xc\<rparr>"
    using limiter_frame(3) by blast
  obtain h q1 where h: "ask_limiter is_hard_blocked ?ip now (count_request ?ip now q0) = (h, q1)" by force
  then obtain xh where q1: "q1 = q0\<lparr>px_limiter := xh\<rparr>"
    using limiter_frame(1) [of is_hard_blocked ?ip now "count_request ?ip now q0"] by (auto simp: qc)
  note a1 = limited_as_ask [OF c(1,2), unfolded h]
  obtain s q2 where s: "over_soft ?ip now q1 = (s, q2)" by force
  then obtain xs where q2: "q2 = p\<lparr>px_ban := xb, px_limiter := xs\<rparr>"
    using limiter_frame(2) [of ?ip now q1] by (auto simp: q1 q0)
  have v1: "limited_as ?ip now ?l q1" using a1(4) by simp
  note a2 = limited_as_ask [OF v1 c(2), unfolded s]
  have "\<not> h" "\<not> s" using a1(1) a2(3) c(3,4) assms(6,7) by auto
  moreover have "has_valid_cookie_v2 r ?ip now q2 = None"
    using assms(8) by (simp add: q2)
  moreover have "\<not> x" using assms(3) b by simp
  moreover have "limited_as ?ip now ?l q2" using a2(6) by simp
  ultimately show ?thesis
    using assms(2) b h s
    by (intro exI [of _ xb] exI [of _ xs])
       (simp add: serve_http_protected [OF assms(1)] serve_protected_def Let_def q2 [symmetric])
qed

text \<open>
  A client below the thresholds that was served the transparent page more than three times
  in ten seconds, and answered none of them, is passed to the backend on its next request, and
  is given an access cookie as if it had solved the challenge.
\<close>

theorem loop_gives_cookie:
  assumes "\<not> verify_path r" "\<not> is_automation_ua (rq_header r ''User-Agent'')"
    and "\<not> fst (ask_ban (handler_ip r p) now p)" "px_limiter p = Some l" "window_ok l"
    and "load (handler_ip r p) now l + 1 < hard_threshold (lim_config l)"
    and "load (handler_ip r p) now l + 1 < soft_threshold (lim_config l)"
    and "soft_threshold (lim_config l) \<le> 4611686018427387903"
    and "rq_cookie r = None" "map_option fst (escalation_level (handler_ip r p) now p) = Some 1"
    and "should_bypass_loop (handler_ip r p) ''transparent'' now p"
  shows "fst (serve_http r now d p) =
    \<lparr>rp_outcome = Forwarded, rp_cookie = set_access_cookie_v2 r (handler_ip r p) now d p\<rparr>"
proof -
  let ?ip = "handler_ip r p" and ?l = "counted (handler_ip r p) now l"
  have "has_valid_cookie_v2 r ?ip now p = None" using assms(9) by (simp add: has_valid_cookie_v2_def)
  from reaches_challenge [OF assms(1-7) this, of d]
  obtain x y where sv: "serve_http r now d p = serve_challenge_for_level r ?ip now d (p\<lparr>px_ban := x, px_limiter := y\<rparr>)"
    and v: "limited_as ?ip now ?l (p\<lparr>px_ban := x, px_limiter := y\<rparr>)" by blast
  let ?q = "p\<lparr>px_ban := x, px_limiter := y\<rparr>"
  have lc: "ip_map ?l ?ip \<noteq> None" "load ?ip now ?l = load ?ip now l + 1" "lim_config ?l = lim_config l"
    using load_recorded [of l ?ip now] assms(5) by (auto simp: counted_def window_ok_def)
  have ld: "0 \<le> load ?ip now l" by (simp add: load_def)
  have "i64 (soft_threshold (lim_config l) * 2) = 2 * soft_threshold (lim_config l)"
    using i64_double_id [of "soft_threshold (lim_config l)"] assms(7,8) ld by (simp add: mult.commute)
  then obtain q1 where rl: "rate_limit_level ?ip now ?q = (0, q1)" "limited_as ?ip now ?l q1"
    using rate_level_limited [OF v lc(1)] lc assms(6,7) ld
    by (cases "rate_limit_level ?ip now ?q") (auto split: if_splits)
  obtain z where q1: "q1 = ?q\<lparr>px_limiter := z\<rparr>" using rate_level_frame [of ?ip now ?q] rl(1) by auto
  have "map_option fst (escalation_level ?ip now q1) = Some 1"
    using assms(10) by (simp only: q1 escalation_level_limiter)
  then obtain q2 where e: "escalation_level ?ip now q1 = Some (1, q2)" by auto
  then obtain w where q2: "q2 = q1\<lparr>px_esc := w\<rparr>" using escalation_frame by blast
  obtain lim q3 where o3: "over_soft ?ip now q2 = (lim, q3)" by force
  then obtain z' where q3: "q3 = q2\<lparr>px_limiter := z'\<rparr>" using limiter_frame(2) [of ?ip now q2] by auto
  have "limited_as ?ip now ?l q2" using rl(2) by (simp add: limited_as_def q2)
  then have "\<not> lim" using limited_as_ask(3) [OF _ lc(1)] o3 lc assms(7) by fastforce
  moreover have "should_bypass_loop ?ip ''transparent'' now q3"
    using assms(11) by (simp add: should_bypass_loop_def q3 q2 q1)
  moreover have "set_access_cookie_v2 r ?ip now d q3 = set_access_cookie_v2 r ?ip now d p"
    by (simp add: q3 q2 q1)
  ultimately show ?thesis
    by (simp add: sv serve_challenge_for_level_def get_escalation_level_def rl(1) e o3 Let_def)
qed

definition looped_proxy :: proxy where
  "looped_proxy = (demo_proxy 20 90)\<lparr>px_loop := Some (fold (record_loop ''1.2.3.4'' ''transparent'')
     [1, 2, 3, 4] new_loop_detector)\<rparr>"

lemma demo_client_ip: "client_ip (plain_get ''/'' ''1.2.3.4:5'') = ''1.2.3.4''"
  by code_simp

lemma looped_proxy_bypass: "should_bypass_loop ''1.2.3.4'' ''transparent'' 5 looped_proxy"
  by code_simp

lemma looped_proxy_parts:
  "px_limiter looped_proxy = Some (new_limiter \<lparr>soft_threshold = 20, hard_threshold = 90,
     subnet_threshold = 9, window_duration = 60000000000\<rparr>)"
  "px_ban looped_proxy = Some (new_ban_engine [] [] \<lparr>open_ok = True, writable = 9, blocklist = []\<rparr>)"
  "px_esc looped_proxy = None" "pc_challenge_all (px_conf looped_proxy)"
  "handler_ip (plain_get ''/'' ''1.2.3.4:5'') looped_proxy = ''1.2.3.4''"
  by (simp_all add: looped_proxy_def demo_proxy_def new_proxy_handler_def demo_conf_def
      proxy_defaults_def handler_ip_def demo_client_ip)

theorem loop_gives_cookie_witness:
  "rp_outcome (fst (serve_http (plain_get ''/'' ''1.2.3.4:5'') 5 demo_draws looped_proxy)) = Forwarded"
  by (subst loop_gives_cookie, unfold looped_proxy_parts)
     (auto simp: verify_path_def plain_get_def mozilla_ok looped_proxy_bypass window_ok_def
        looped_proxy_parts new_limiter_def load_def rl_defs get_or_create_ip_def ask_ban_def
        is_banned_def new_ban_engine_def escalation_level_def)

subsection \<open>What a solved challenge buys\<close>

definition solved :: "http_request \<Rightarrow> string \<Rightarrow> gotime \<Rightarrow> proxy \<Rightarrow> bool" where
  "solved r ip now p \<longleftrightarrow>
     rq_path r = ''/__kiro/challenge/verify'' \<and> fst (verify_challenge r ip now (px_store p)) = Verified \<or>
     rq_path r = ''/__kiro/hold/verify'' \<and> fst (verify_hold r ip now now (px_store p)) = Verified \<or>
     rq_path r = ''/__kiro/transparent/verify'' \<and> fst (verify_transparent r ip now now (px_store p)) = Verified"

lemma handler_ip_frame [simp]:
  "handler_ip r (p\<lparr>px_store := st\<rparr>) = handler_ip r p" "handler_fp r (p\<lparr>px_store := st\<rparr>) = handler_fp r p"
  by (simp_all add: handler_ip_def handler_fp_def)

lemma solved_step:
  assumes "solved r (handler_ip r p) now p"
  shows "\<exists>st. serve_http r now d p = after_success r (handler_ip r p) now d (p\<lparr>px_store := st\<rparr>)"
  using assms
  by (auto simp: solved_def serve_http_def handle_challenge_verify_def handle_hold_verify_def
      handle_transparent_verify_def Let_def split: prod.splits verdict.splits)

lemma after_success_parts:
  assumes "after_success r ip now d p = (rep, q)"
  shows "rep = \<lparr>rp_outcome = Verify_ok, rp_cookie = set_access_cookie_v2 r ip now d p\<rparr>"
    "px_limiter q = map_option (reset_ip ip) (px_limiter p)" "px_mgr_v2 q = px_mgr_v2 p"
    "px_cookie_limiter q = px_cookie_limiter p" "px_tls q = px_tls p"
  using assms
  by (cases "px_limiter p"; cases "px_esc p"; auto simp: after_success_def Let_def)+

text \<open>
  C3. A client that solved its challenge is let in: the answer carries a cookie, the count of
  the address starts again at zero, and a later request of the same address that presents the
  cookie, with the same TLS fingerprint or none, passes the cookie check until the cookie
  expires, as long as the cookie limiter has not revoked it.
\<close>

theorem solved_challenge_admits:
  assumes "solved r (handler_ip r p) now p" "handler_ip r p \<noteq> []"
    and "px_mgr_v2 p = Some m" "cm_secret m \<noteq> []" "dr_nonce d = Some n"
    and "in_i64 (unix_secs (now + pc_cookie_ttl (px_conf p)))"
  shows "\<exists>c age q. serve_http r now d p = (\<lparr>rp_outcome = Verify_ok, rp_cookie = Some (c, age)\<rparr>, q) \<and>
    (\<forall>l. px_limiter q = Some l \<longrightarrow> load (handler_ip r p) now l = 0) \<and>
    (\<forall>r' now'. rq_cookie r' = Some c \<and> handler_fp r' q \<in> {handler_fp r p, []} \<and>
       unix_secs now' \<le> unix_secs (now + pc_cookie_ttl (px_conf p)) \<and>
       (\<forall>cl. px_cookie_limiter q = Some cl \<longrightarrow> \<not> is_revoked c cl) \<longrightarrow>
       has_valid_cookie_v2 r' (handler_ip r p) now' q = Some c)"
proof -
  let ?ip = "handler_ip r p" and ?ttl = "pc_cookie_ttl (px_conf p)"
  obtain st where sv: "serve_http r now d p = after_success r ?ip now d (p\<lparr>px_store := st\<rparr>)"
    using solved_step [OF assms(1)] by blast
  obtain rep q where q: "after_success r ?ip now d (p\<lparr>px_store := st\<rparr>) = (rep, q)" by force
  note parts = after_success_parts [OF q]
  obtain c where g: "generate_v2 m ?ip (handler_fp r p) ?ttl now (Some n) = Inr c"
    using assms(2,4) by (simp add: generate_v2_def Let_def)
  then have ck: "set_access_cookie_v2 r ?ip now d (p\<lparr>px_store := st\<rparr>) = Some (c, go_div ?ttl nanos)"
    using assms(3,5) by (simp add: set_access_cookie_v2_def)
  have "load ?ip now l = 0" if "px_limiter q = Some l" for l
    using that parts(2) by (auto simp: load_def rl_defs get_or_create_ip_def)
  moreover have "has_valid_cookie_v2 r' ?ip now' q = Some c"
    if "rq_cookie r' = Some c" "handler_fp r' q \<in> {handler_fp r p, []}"
      "unix_secs now' \<le> unix_secs (now + ?ttl)" "\<forall>cl. px_cookie_limiter q = Some cl \<longrightarrow> \<not> is_revoked c cl"
    for r' now'
  proof -
    have "validate_v2 m c ?ip (handler_fp r' q) now' =
        Inr (seconds (i64 (unix_secs (now + ?ttl) - unix_secs now')))"
      using validate_generated [OF g assms(6)] that(2,3) by auto
    then show ?thesis
      using that(1,4) parts(3) assms(3) by (auto simp: has_valid_cookie_v2_def split: option.splits)
  qed
  ultimately show ?thesis using sv q parts(1) ck by auto
qed

definition solver_proxy :: proxy where
  "solver_proxy = (demo_proxy 20 90)\<lparr>px_store := demo_store ''k'', px_mgr_v2 := Some demo_manager\<rparr>"

definition solver_request :: http_request where
  "solver_request = (demo_request ''k'')\<lparr>rq_remote := ''1.2.3.4:5''\<rparr>"

lemma solver_ip: "handler_ip solver_request solver_proxy = ''1.2.3.4''"
proof -
  have "client_ip solver_request = client_ip (plain_get ''/'' ''1.2.3.4:5'')"
    by (simp add: client_ip_def solver_request_def demo_request_def plain_get_def)
  then show ?thesis
    by (simp add: handler_ip_def solver_proxy_def demo_proxy_def new_proxy_handler_def demo_client_ip)
qed

theorem solved_challenge_admits_witness:
  "\<exists>c age q. serve_http solver_request 30000000 demo_draws solver_proxy =
     (\<lparr>rp_outcome = Verify_ok, rp_cookie = Some (c, age)\<rparr>, q)"
proof -
  have "solved solver_request (handler_ip solver_request solver_proxy) 30000000 solver_proxy"
    unfolding solver_ip
    by (simp add: solved_def solver_request_def solver_proxy_def demo_request_def demo_store_def
        plain_get_def verify_transparent_def take_token_eq issue_def new_store_def time_add_def
        time_sub_def go_div_def i64_max_def i64_min_def Let_def)
  moreover have "pc_cookie_ttl (px_conf solver_proxy) = 300000000000" "px_mgr_v2 solver_proxy = Some demo_manager"
    by (simp_all add: solver_proxy_def demo_proxy_def new_proxy_handler_def proxy_defaults_def demo_conf_def)
  ultimately show ?thesis
    using solved_challenge_admits [of solver_request solver_proxy 30000000 demo_manager demo_draws]
    by (simp add: solver_ip demo_manager_def demo_draws_def unix_secs_def nanos_def in_i64_def
        i64_max_def i64_min_def) blast
qed

subsection \<open>A nil engine\<close>

text \<open>
  A handler straight from \<^verbatim>\<open>NewProxyHandler\<close>, whose escalation engine is still nil,
  panics on a wrong answer to the transparent challenge: the check of the interface against
  nil in \<^verbatim>\<open>VerifyTransparent\<close> does not protect the call. The token is consumed all the same.
\<close>

theorem nil_engine_panics:
  assumes "px_esc p = None" "rq_path r = ''/__kiro/transparent/verify''" "rq_method r = ''POST''"
    and "rq_transparent r = Some req" "ch_items (px_store p) (tj_token req) = None"
  shows "fst (serve_http r now d p) = plain Panicked"
  using assms
  by (simp add: serve_http_def handle_transparent_verify_def verify_transparent_def take_token_eq)

theorem nil_engine_panics_witness:
  "fst (serve_http (demo_request ''unknown'') 0 demo_draws (new_proxy_handler demo_conf None None new_store)) =
     plain Panicked"
  by (rule nil_engine_panics)
     (simp_all add: demo_request_def plain_get_def new_proxy_handler_def new_store_def)

end
