(* ===== verification/AntiReplay.thy ===== *)
theory AntiReplay
  imports Contracts
begin

text \<open>
  The single-use token validator, \<^verbatim>\<open>internal/client/challenge/antireplay.go\<close>: a second
  implementation of the contract of single-use stores, with its own errors. Unlike the
  challenge store it answers the instant of issue with the errors too.
\<close>

record replay_entry =
  re_ip :: string
  re_issued :: gotime
  re_expires :: gotime

record replay_validator =
  rv_items :: "string \<rightharpoonup> replay_entry"

datatype replay_error = Token_not_found | Ip_mismatch | Token_expired

definition new_validator :: replay_validator where
  "new_validator = \<lparr>rv_items = Map.empty\<rparr>"

definition issue_token :: "string \<Rightarrow> string \<Rightarrow> duration \<Rightarrow> gotime \<Rightarrow> replay_validator \<Rightarrow>
    (string \<times> gotime) \<times> replay_validator" where
  "issue_token token ip ttl now v =
     (let e = \<lparr>re_ip = ip, re_issued = now, re_expires = time_add now ttl\<rparr>
      in ((token, now), v\<lparr>rv_items := (rv_items v)(token \<mapsto> e)\<rparr>))"

definition consume_token :: "string \<Rightarrow> string \<Rightarrow> gotime \<Rightarrow> replay_validator \<Rightarrow>
    (gotime \<times> replay_error option) \<times> replay_validator" where
  "consume_token token ip now v =
     (let entry = rv_items v token;
          v' = v\<lparr>rv_items := (rv_items v)(token := None)\<rparr>
      in case entry of
           None \<Rightarrow> ((zero_time, Some Token_not_found), v')
         | Some e \<Rightarrow>
             if re_ip e \<noteq> ip then ((re_issued e, Some Ip_mismatch), v')
             else if time_after now (re_expires e) then ((re_issued e, Some Token_expired), v')
             else ((re_issued e, None), v'))"

definition validator_has :: "string \<Rightarrow> replay_validator \<Rightarrow> bool" where
  "validator_has token v \<longleftrightarrow> rv_items v token \<noteq> None"

definition validator_cleanup :: "gotime \<Rightarrow> replay_validator \<Rightarrow> replay_validator" where
  "validator_cleanup now v =
     v\<lparr>rv_items := map_keep (\<lambda>e. \<not> time_after now (re_expires e)) (rv_items v)\<rparr>"

subsection \<open>The contract\<close>

definition replay_live :: "replay_validator \<Rightarrow> string \<Rightarrow> gotime \<Rightarrow> bool" where
  "replay_live v k t \<longleftrightarrow> (\<exists>e. rv_items v k = Some e \<and> \<not> time_after t (re_expires e))"

definition put_replay :: "string \<Rightarrow> string \<times> duration \<Rightarrow> gotime \<Rightarrow> replay_validator \<Rightarrow> replay_validator" where
  "put_replay k d now v = snd (issue_token k (fst d) (snd d) now v)"

definition drop_replay :: "string \<Rightarrow> gotime \<Rightarrow> replay_validator \<Rightarrow> replay_validator" where
  "drop_replay k now v = v\<lparr>rv_items := (rv_items v)(k := None)\<rparr>"

definition redeem_replay :: "string \<Rightarrow> string \<Rightarrow> gotime \<Rightarrow> replay_validator \<Rightarrow> bool \<times> replay_validator" where
  "redeem_replay k ip now v = (let ((_, err), v') = consume_token k ip now v in (err = None, v'))"

lemmas replay_defs = replay_live_def put_replay_def drop_replay_def redeem_replay_def
  issue_token_def consume_token_def validator_cleanup_def validator_has_def time_defs

interpretation replays: single_use_store
  replay_live put_replay validator_cleanup drop_replay "\<lambda>_ _ v. v" "\<lambda>d now. now + snd d"
  "\<lambda>_. True" redeem_replay "\<lambda>v k. validator_has k v"
  by unfold_locales (auto simp: replay_defs Let_def split: option.splits if_splits)

definition owner_is :: "string \<Rightarrow> string \<Rightarrow> replay_validator \<Rightarrow> bool" where
  "owner_is k ip v \<longleftrightarrow> (\<forall>e. rv_items v k = Some e \<longrightarrow> re_ip e = ip)"

lemma owner_step:
  "owner_is k ip v \<Longrightarrow> \<forall>d. op \<noteq> Put k d \<Longrightarrow>
     owner_is k ip (store_step put_replay validator_cleanup drop_replay (\<lambda>_ _ v. v) op now v)"
  by (cases op) (auto simp: owner_is_def replay_defs Let_def)

lemma owner_run:
  "owner_is k ip v \<Longrightarrow> \<forall>(now, op) \<in> set ops. \<forall>d. op \<noteq> Put k d \<Longrightarrow>
     owner_is k ip (store_run put_replay validator_cleanup drop_replay (\<lambda>_ _ v. v) ops v)"
  by (induction ops arbitrary: v) (auto simp: owner_step)

text \<open>
  A token of the validator is consumed successfully at most once in any run that does not
  issue it again, and exactly when it was issued to the same address and has not expired:
  whatever happened to other tokens and whenever the cleanup ran in between.
\<close>

theorem replay_token_once:
  assumes "\<forall>(now', op) \<in> set ops. now' \<le> t \<and> (\<forall>d. op \<noteq> Put k d) \<and> op \<noteq> Drop k"
    and "\<forall>(now', op) \<in> set ops'. \<forall>d. op \<noteq> Issue k d"
  shows "(redeemed put_replay validator_cleanup redeem_replay k ops' v \<le> 1) \<and>
    (fst (redeem_replay k ip t (store_run put_replay validator_cleanup drop_replay (\<lambda>_ _ v. v) ops
        (put_replay k (ip, ttl) now v))) \<longleftrightarrow> t \<le> now + ttl)"
proof
  show "redeemed put_replay validator_cleanup redeem_replay k ops' v \<le> 1"
    using assms(2) by (rule replays.redeemed_once)
  let ?v = "store_run put_replay validator_cleanup drop_replay (\<lambda>_ _ v. v) ops (put_replay k (ip, ttl) now v)"
  have live: "replay_live ?v k t \<longleftrightarrow> t \<le> now + ttl"
    using replays.live_after_put [OF TrueI assms(1), of "(ip, ttl)" now v] by simp
  have "owner_is k ip (put_replay k (ip, ttl) now v)"
    by (simp add: owner_is_def replay_defs Let_def)
  then have "owner_is k ip ?v" by (rule owner_run) (use assms(1) in auto)
  with live show "fst (redeem_replay k ip t ?v) \<longleftrightarrow> t \<le> now + ttl"
    by (auto simp: owner_is_def replay_defs Let_def split: option.splits)
qed

theorem replay_token_once_witness:
  "fst (redeem_replay ''k'' ''a'' 5 (store_run put_replay validator_cleanup drop_replay (\<lambda>_ _ v. v)
     [(3, Sweep), (4, Drop ''j'')] (put_replay ''k'' (''a'', 9) 0 new_validator)))"
  by (subst replay_token_once [where ops' = "[]" and v = new_validator, THEN conjunct2]) simp_all

end
