(* ===== verification/LicenseDb.thy ===== *)
theory LicenseDb
  imports Strings
begin

text \<open>
  The master's database, \<^verbatim>\<open>internal/master/db\<close> and \<^verbatim>\<open>internal/master/models\<close>: the rows of the
  tables the API works on and what each query of the source does to them. Whether a statement
  fails, and with which error of the driver, is an argument: the database itself is not part
  of the repository. Every method wraps the driver's error with \<^verbatim>\<open>%w\<close>, which makes a new
  error value; the tests of the handlers compare error values, so errors keep their layers.

  A row holds what the columns hold: how the driver writes an instant as text, and how
  \<^verbatim>\<open>time.Parse\<close> reads the text of the last heartbeat back, is not modelled.

  The orderings by \<^verbatim>\<open>created_at\<close> leave rows of the same instant in the order of their ids.
\<close>

subsection \<open>Errors and rows\<close>

datatype go_error = Deadline_exceeded | Canceled | Driver_error string | Message string
  | Wrapped string go_error

record license =
  li_id :: int
  li_license_id :: string
  li_key :: string
  li_customer_id :: string
  li_customer_name :: string
  li_client_ip :: string
  li_fingerprint :: string
  li_plan :: string
  li_status :: string
  li_valid_days :: int
  li_created :: gotime
  li_expires :: gotime
  li_last_heartbeat :: gotime
  li_notes :: string

record release =
  rl_id :: int
  rl_component :: string
  rl_channel :: string
  rl_version :: string
  rl_url :: string
  rl_sha256 :: string
  rl_notes :: string
  rl_min_version :: string
  rl_created :: gotime

record heartbeat =
  hb_license_id :: string
  hb_node_id :: string
  hb_client_ip :: string
  hb_fingerprint :: string
  hb_created :: gotime

record admin_session =
  as_token :: string
  as_ip :: string
  as_created :: gotime
  as_expires :: gotime

record login_attempt =
  la_ip :: string
  la_success :: bool
  la_at :: gotime

record master_db =
  db_licenses :: "license list"
  db_next_id :: int
  db_releases :: "release list"
  db_next_release :: int
  db_heartbeats :: "heartbeat list"
  db_attempts :: "login_attempt list"
  db_sessions :: "admin_session list"

type_synonym fault = "go_error option"

definition failing :: "string \<Rightarrow> fault \<Rightarrow> 'a \<Rightarrow> go_error + 'a" where
  "failing what f x = (case f of Some e \<Rightarrow> Inl (Wrapped what e) | None \<Rightarrow> Inr x)"

subsection \<open>Licences\<close>

definition get_license_by_key :: "fault \<Rightarrow> string \<Rightarrow> master_db \<Rightarrow> go_error + license option" where
  "get_license_by_key f key d =
     failing ''db: get license by key'' f (find (\<lambda>l. li_key l = key) (db_licenses d))"

definition get_license_by_license_id :: "fault \<Rightarrow> string \<Rightarrow> master_db \<Rightarrow> go_error + license option" where
  "get_license_by_license_id f lid d =
     failing ''db: get license by license_id'' f (find (\<lambda>l. li_license_id l = lid) (db_licenses d))"

definition get_license_by_id :: "fault \<Rightarrow> int \<Rightarrow> master_db \<Rightarrow> go_error + license option" where
  "get_license_by_id f i d =
     failing ''db: get license by id'' f (find (\<lambda>l. li_id l = i) (db_licenses d))"

definition list_licenses :: "fault \<Rightarrow> master_db \<Rightarrow> go_error + license list" where
  "list_licenses f d = failing ''db: list licenses'' f (sort_key (\<lambda>l. - li_created l) (db_licenses d))"

definition create_license :: "fault \<Rightarrow> license \<Rightarrow> master_db \<Rightarrow> (go_error + license) \<times> master_db" where
  "create_license f l d =
     (case f of
        Some e \<Rightarrow> (Inl (Wrapped ''db: create license'' e), d)
      | None \<Rightarrow>
          if list_ex (\<lambda>x. li_license_id x = li_license_id l \<or> li_key x = li_key l) (db_licenses d)
          then (Inl (Wrapped ''db: create license'' (Driver_error ''UNIQUE constraint failed'')), d)
          else let l' = l\<lparr>li_id := db_next_id d\<rparr>
               in (Inr l', d\<lparr>db_licenses := db_licenses d @ [l'], db_next_id := db_next_id d + 1\<rparr>))"

definition map_rows :: "(license \<Rightarrow> bool) \<Rightarrow> (license \<Rightarrow> license) \<Rightarrow> master_db \<Rightarrow> master_db" where
  "map_rows P g d = d\<lparr>db_licenses := map (\<lambda>x. if P x then g x else x) (db_licenses d)\<rparr>"

definition has_row :: "(license \<Rightarrow> bool) \<Rightarrow> master_db \<Rightarrow> bool" where
  "has_row P d = list_ex P (db_licenses d)"

definition update_license :: "fault \<Rightarrow> license \<Rightarrow> master_db \<Rightarrow> (go_error + unit) \<times> master_db" where
  "update_license f l d =
     (case f of
        Some e \<Rightarrow> (Inl (Wrapped ''db: update license'' e), d)
      | None \<Rightarrow>
          if \<not> has_row (\<lambda>x. li_id x = li_id l) d then (Inl (Message ''db: update license: not found''), d)
          else (Inr (), map_rows (\<lambda>x. li_id x = li_id l)
            (\<lambda>x. x\<lparr>li_customer_name := li_customer_name l, li_client_ip := li_client_ip l,
                  li_fingerprint := li_fingerprint l, li_plan := li_plan l, li_status := li_status l,
                  li_valid_days := li_valid_days l, li_expires := li_expires l, li_notes := li_notes l\<rparr>) d))"

definition delete_license :: "fault \<Rightarrow> int \<Rightarrow> master_db \<Rightarrow> (go_error + unit) \<times> master_db" where
  "delete_license f i d =
     (case f of
        Some e \<Rightarrow> (Inl (Wrapped ''db: delete license'' e), d)
      | None \<Rightarrow>
          if \<not> has_row (\<lambda>x. li_id x = i) d then (Inl (Message ''db: delete license: not found''), d)
          else (Inr (), d\<lparr>db_licenses := filter (\<lambda>x. li_id x \<noteq> i) (db_licenses d)\<rparr>))"

definition day :: duration where "day = 86400 * nanos"

text \<open>SQLite's \<^verbatim>\<open>datetime('now', ...)\<close> has whole seconds.\<close>

definition renew_license :: "fault \<Rightarrow> int \<Rightarrow> gotime \<Rightarrow> master_db \<Rightarrow> (go_error + unit) \<times> master_db" where
  "renew_license f i now d =
     (case f of
        Some e \<Rightarrow> (Inl (Wrapped ''db: renew license'' e), d)
      | None \<Rightarrow>
          if \<not> has_row (\<lambda>x. li_id x = i) d then (Inl (Message ''db: renew license: not found''), d)
          else (Inr (), map_rows (\<lambda>x. li_id x = i)
            (\<lambda>x. x\<lparr>li_expires := unix_secs now * nanos + li_valid_days x * day, li_status := ''active''\<rparr>) d))"

definition rotate_license_key :: "fault \<Rightarrow> string option \<Rightarrow> int \<Rightarrow> master_db \<Rightarrow>
    (go_error + string) \<times> master_db" where
  "rotate_license_key f new_key i d =
     (case new_key of
        None \<Rightarrow> (Inl (Wrapped ''db: rotate key generate'' (Driver_error ''rand'')), d)
      | Some k \<Rightarrow>
          (case f of
             Some e \<Rightarrow> (Inl (Wrapped ''db: rotate license key'' e), d)
           | None \<Rightarrow>
               if \<not> has_row (\<lambda>x. li_id x = i) d then (Inl (Message ''db: rotate license key: not found''), d)
               else if has_row (\<lambda>x. li_id x \<noteq> i \<and> li_key x = k) d
               then (Inl (Wrapped ''db: rotate license key'' (Driver_error ''UNIQUE constraint failed'')), d)
               else (Inr k, map_rows (\<lambda>x. li_id x = i) (\<lambda>x. x\<lparr>li_key := k\<rparr>) d)))"

definition revoke_license :: "fault \<Rightarrow> int \<Rightarrow> master_db \<Rightarrow> (go_error + unit) \<times> master_db" where
  "revoke_license f i d =
     (case f of
        Some e \<Rightarrow> (Inl (Wrapped ''db: revoke license'' e), d)
      | None \<Rightarrow>
          if \<not> has_row (\<lambda>x. li_id x = i) d then (Inl (Message ''db: revoke license: not found''), d)
          else (Inr (), map_rows (\<lambda>x. li_id x = i) (\<lambda>x. x\<lparr>li_status := ''revoked''\<rparr>) d))"

definition update_license_heartbeat :: "fault \<Rightarrow> string \<Rightarrow> gotime \<Rightarrow> master_db \<Rightarrow>
    (go_error + unit) \<times> master_db" where
  "update_license_heartbeat f lid t d =
     (case f of
        Some e \<Rightarrow> (Inl (Wrapped ''db: update license heartbeat'' e), d)
      | None \<Rightarrow> (Inr (), map_rows (\<lambda>x. li_license_id x = lid) (\<lambda>x. x\<lparr>li_last_heartbeat := t\<rparr>) d))"

definition update_license_status :: "fault \<Rightarrow> string \<Rightarrow> string \<Rightarrow> master_db \<Rightarrow>
    (go_error + unit) \<times> master_db" where
  "update_license_status f lid st d =
     (case f of
        Some e \<Rightarrow> (Inl (Wrapped ''db: update license status'' e), d)
      | None \<Rightarrow> (Inr (), map_rows (\<lambda>x. li_license_id x = lid) (\<lambda>x. x\<lparr>li_status := st\<rparr>) d))"

definition count_licenses_by_status :: "fault \<Rightarrow> master_db \<Rightarrow> go_error + (string \<rightharpoonup> nat)" where
  "count_licenses_by_status f d = failing ''db: count licenses by status'' f
     (\<lambda>st. let n = length (filter (\<lambda>l. li_status l = st) (db_licenses d)) in if n = 0 then None else Some n)"

subsection \<open>Releases and heartbeats\<close>

definition create_release :: "fault \<Rightarrow> release \<Rightarrow> master_db \<Rightarrow> (go_error + release) \<times> master_db" where
  "create_release f r d =
     (case f of
        Some e \<Rightarrow> (Inl (Wrapped ''db: create release'' e), d)
      | None \<Rightarrow>
          if list_ex (\<lambda>x. rl_component x = rl_component r \<and> rl_channel x = rl_channel r \<and>
               rl_version x = rl_version r) (db_releases d)
          then (Inl (Wrapped ''db: create release'' (Driver_error ''UNIQUE constraint failed'')), d)
          else let r' = r\<lparr>rl_id := db_next_release d\<rparr>
               in (Inr r', d\<lparr>db_releases := db_releases d @ [r'], db_next_release := db_next_release d + 1\<rparr>))"

definition get_release_by_id :: "fault \<Rightarrow> int \<Rightarrow> master_db \<Rightarrow> go_error + release option" where
  "get_release_by_id f i d = failing ''db: get release by id'' f (find (\<lambda>r. rl_id r = i) (db_releases d))"

definition delete_release :: "fault \<Rightarrow> int \<Rightarrow> master_db \<Rightarrow> (go_error + unit) \<times> master_db" where
  "delete_release f i d =
     (case f of
        Some e \<Rightarrow> (Inl (Wrapped ''db: delete release'' e), d)
      | None \<Rightarrow>
          if \<not> list_ex (\<lambda>r. rl_id r = i) (db_releases d)
          then (Inl (Message ''db: delete release: not found''), d)
          else (Inr (), d\<lparr>db_releases := filter (\<lambda>r. rl_id r \<noteq> i) (db_releases d)\<rparr>))"

definition list_releases :: "fault \<Rightarrow> master_db \<Rightarrow> go_error + release list" where
  "list_releases f d = failing ''db: list releases'' f (sort_key (\<lambda>r. - rl_created r) (db_releases d))"

definition get_latest_release :: "fault \<Rightarrow> string \<Rightarrow> string \<Rightarrow> master_db \<Rightarrow> go_error + release option" where
  "get_latest_release f c ch d = failing ''db: get latest release'' f
     (case sort_key (\<lambda>r. - rl_created r)
        (filter (\<lambda>r. rl_component r = c \<and> rl_channel r = ch) (db_releases d)) of
        [] \<Rightarrow> None | r # _ \<Rightarrow> Some r)"

definition log_heartbeat :: "fault \<Rightarrow> heartbeat \<Rightarrow> master_db \<Rightarrow> (go_error + unit) \<times> master_db" where
  "log_heartbeat f h d =
     (case f of
        Some e \<Rightarrow> (Inl (Wrapped ''db: log heartbeat'' e), d)
      | None \<Rightarrow> (Inr (), d\<lparr>db_heartbeats := db_heartbeats d @ [h]\<rparr>))"

definition list_heartbeats :: "fault \<Rightarrow> nat \<Rightarrow> master_db \<Rightarrow> go_error + heartbeat list" where
  "list_heartbeats f limit d = failing ''db: list heartbeats'' f
     (take limit (sort_key (\<lambda>h. - hb_created h) (db_heartbeats d)))"

definition list_heartbeats_by_license :: "fault \<Rightarrow> string \<Rightarrow> nat \<Rightarrow> master_db \<Rightarrow> go_error + heartbeat list" where
  "list_heartbeats_by_license f lid limit d = failing ''db: list heartbeats by license'' f
     (take limit (sort_key (\<lambda>h. - hb_created h) (filter (\<lambda>h. hb_license_id h = lid) (db_heartbeats d))))"

definition count_recent_heartbeats :: "fault \<Rightarrow> gotime \<Rightarrow> master_db \<Rightarrow> go_error + nat" where
  "count_recent_heartbeats f since d = failing ''db: count recent heartbeats'' f
     (length (filter (\<lambda>h. since \<le> hb_created h) (db_heartbeats d)))"

subsection \<open>Administrators\<close>

definition log_login_attempt :: "fault \<Rightarrow> string \<Rightarrow> bool \<Rightarrow> gotime \<Rightarrow> master_db \<Rightarrow>
    (go_error + unit) \<times> master_db" where
  "log_login_attempt f ip ok now d =
     (case f of
        Some e \<Rightarrow> (Inl (Wrapped ''db: log login attempt'' e), d)
      | None \<Rightarrow> (Inr (), d\<lparr>db_attempts := db_attempts d @ [\<lparr>la_ip = ip, la_success = ok, la_at = now\<rparr>]\<rparr>))"

definition failed_since :: "string \<Rightarrow> gotime \<Rightarrow> master_db \<Rightarrow> nat" where
  "failed_since ip since d =
     length (filter (\<lambda>a. la_ip a = ip \<and> \<not> la_success a \<and> since \<le> la_at a) (db_attempts d))"

definition count_failed_attempts :: "fault \<Rightarrow> string \<Rightarrow> gotime \<Rightarrow> master_db \<Rightarrow> go_error + nat" where
  "count_failed_attempts f ip since d =
     failing ''db: count failed attempts'' f (failed_since ip since d)"

definition create_session :: "fault \<Rightarrow> admin_session \<Rightarrow> master_db \<Rightarrow> (go_error + unit) \<times> master_db" where
  "create_session f s d =
     (case f of
        Some e \<Rightarrow> (Inl (Wrapped ''db: create session'' e), d)
      | None \<Rightarrow>
          if list_ex (\<lambda>x. as_token x = as_token s) (db_sessions d)
          then (Inl (Wrapped ''db: create session'' (Driver_error ''UNIQUE constraint failed'')), d)
          else (Inr (), d\<lparr>db_sessions := db_sessions d @ [s]\<rparr>))"

definition get_session_by_token :: "fault \<Rightarrow> string \<Rightarrow> gotime \<Rightarrow> master_db \<Rightarrow>
    go_error + admin_session option" where
  "get_session_by_token f token now d = failing ''db: get session by token'' f
     (find (\<lambda>s. as_token s = token \<and> now < as_expires s) (db_sessions d))"

definition delete_session :: "fault \<Rightarrow> string \<Rightarrow> master_db \<Rightarrow> (go_error + unit) \<times> master_db" where
  "delete_session f token d =
     (case f of
        Some e \<Rightarrow> (Inl (Wrapped ''db: delete session'' e), d)
      | None \<Rightarrow> (Inr (), d\<lparr>db_sessions := filter (\<lambda>s. as_token s \<noteq> token) (db_sessions d)\<rparr>))"

definition clean_expired_sessions :: "fault \<Rightarrow> gotime \<Rightarrow> master_db \<Rightarrow> (go_error + unit) \<times> master_db" where
  "clean_expired_sessions f now d =
     (case f of
        Some e \<Rightarrow> (Inl (Wrapped ''db: clean expired sessions'' e), d)
      | None \<Rightarrow> (Inr (), d\<lparr>db_sessions := filter (\<lambda>s. now < as_expires s) (db_sessions d)\<rparr>))"

subsection \<open>The table invariant\<close>

text \<open>What the constraints of the schema promise of the licences, and the row of a licence id.\<close>

definition table_ok :: "master_db \<Rightarrow> bool" where
  "table_ok d \<longleftrightarrow> distinct (map li_id (db_licenses d)) \<and> distinct (map li_license_id (db_licenses d)) \<and>
     distinct (map li_key (db_licenses d)) \<and> (\<forall>l\<in>set (db_licenses d). li_id l < db_next_id d)"

definition row_of :: "string \<Rightarrow> master_db \<Rightarrow> license option" where
  "row_of lid d = find (\<lambda>l. li_license_id l = lid) (db_licenses d)"

lemma map_rows_keys:
  assumes "\<And>x. li_id (g x) = li_id x \<and> li_license_id (g x) = li_license_id x \<and> li_key (g x) = li_key x"
  shows "table_ok (map_rows P g d) = table_ok d"
proof -
  define h where "h x = (if P x then g x else x)" for x
  have h: "li_id (h x) = li_id x" "li_license_id (h x) = li_license_id x" "li_key (h x) = li_key x" for x
    using assms by (simp_all add: h_def)
  then have "li_id \<circ> h = li_id" "li_license_id \<circ> h = li_license_id" "li_key \<circ> h = li_key" by auto
  moreover have "map_rows P g d = d\<lparr>db_licenses := map h (db_licenses d)\<rparr>"
    by (simp add: map_rows_def h_def [abs_def])
  ultimately show ?thesis by (simp add: table_ok_def h)
qed

lemma table_ok_updates:
  "table_ok d \<Longrightarrow> table_ok (snd (update_license f l d))"
  "table_ok d \<Longrightarrow> table_ok (snd (renew_license f i now d))"
  "table_ok d \<Longrightarrow> table_ok (snd (revoke_license f i d))"
  "table_ok d \<Longrightarrow> table_ok (snd (update_license_heartbeat f lid t d))"
  "table_ok d \<Longrightarrow> table_ok (snd (update_license_status f lid st d))"
  by (simp_all add: update_license_def renew_license_def revoke_license_def update_license_heartbeat_def
      update_license_status_def map_rows_keys split: option.splits)

lemma table_ok_delete: "table_ok d \<Longrightarrow> table_ok (snd (delete_license f i d))"
  by (auto simp: table_ok_def delete_license_def distinct_map_filter split: option.splits)

lemma table_ok_create: "table_ok d \<Longrightarrow> table_ok (snd (create_license f l d))"
  by (force simp: table_ok_def create_license_def list_ex_iff Let_def split: option.splits)

lemma table_ok_rotate:
  assumes "table_ok d" shows "table_ok (snd (rotate_license_key f k i d))"
proof (cases "fst (rotate_license_key f k i d)")
  case (Inl e)
  then show ?thesis using assms by (auto simp: rotate_license_key_def split: option.splits if_splits)
next
  case (Inr new)
  define g where "g x = (if li_id x = i then x\<lparr>li_key := new\<rparr> else x)" for x :: license
  have g: "li_id (g x) = li_id x" "li_license_id (g x) = li_license_id x"
    "li_key (g x) = (if li_id x = i then new else li_key x)" for x
    by (simp_all add: g_def)
  from Inr have d': "snd (rotate_license_key f k i d) = d\<lparr>db_licenses := map g (db_licenses d)\<rparr>"
    and fresh: "\<forall>x\<in>set (db_licenses d). li_id x \<noteq> i \<longrightarrow> li_key x \<noteq> new"
    by (auto simp: rotate_license_key_def map_rows_def has_row_def list_ex_iff g_def [abs_def]
        split: option.splits if_splits)
  have "distinct (map (li_key \<circ> g) xs)"
    if "distinct (map li_id xs)" "distinct (map li_key xs)" "set xs \<subseteq> set (db_licenses d)" for xs
    using that
  proof (induction xs)
    case (Cons x xs)
    have "li_key (g x) \<noteq> li_key (g y)" if "y \<in> set xs" for y
    proof -
      have "li_id y \<noteq> li_id x" "li_key y \<noteq> li_key x" using Cons.prems(1,2) that by (auto simp: image_iff)
      then show ?thesis using Cons.prems(3) that fresh by (auto simp: g)
    qed
    with Cons show ?case by auto
  qed simp
  moreover have "li_id \<circ> g = li_id" "li_license_id \<circ> g = li_license_id" by (auto simp: g)
  ultimately show ?thesis using assms unfolding d' by (simp add: table_ok_def g)
qed

end
