(* ===== verification/Plan.thy ===== *)
theory Plan
  imports LicenseDb Crypto
begin

text \<open>
  The plan manager, \<^verbatim>\<open>internal/master/plan\<close>. It works on a licence store behind an interface
  (\<^verbatim>\<open>LicenseStore\<close>), a record of operations here, and reports to an optional history store,
  whose errors are only logged. The locale \<open>license_store\<close> states what the manager relies on;
  it is interpreted on the master's database.
\<close>

record plan_limits =
  pl_max_domains :: int
  pl_xdp :: bool
  pl_ota :: bool
  pl_rpm :: int

definition community_limits :: plan_limits where
  "community_limits = \<lparr>pl_max_domains = 1, pl_xdp = False, pl_ota = False, pl_rpm = 60\<rparr>"

definition pro_limits :: plan_limits where
  "pro_limits = \<lparr>pl_max_domains = 5, pl_xdp = True, pl_ota = True, pl_rpm = 120\<rparr>"

definition enterprise_limits :: plan_limits where
  "enterprise_limits = \<lparr>pl_max_domains = 0, pl_xdp = True, pl_ota = True, pl_rpm = 0\<rparr>"

definition limits_for_plan :: "string \<Rightarrow> plan_limits" where
  "limits_for_plan p = (if p = ''pro'' then pro_limits
     else if p = ''enterprise'' then enterprise_limits else community_limits)"

record downgrade_event =
  de_license_id :: string
  de_previous :: string
  de_at :: gotime
  de_reason :: string

record requested_config =
  rc_domains :: int
  rc_xdp :: bool
  rc_ota :: bool
  rc_rpm :: int

record plan_change =
  ch_from :: string
  ch_to :: string
  ch_at :: gotime
  ch_reason :: string

record 's license_store_ops =
  st_create :: "license \<Rightarrow> 's \<Rightarrow> (go_error + license) \<times> 's"
  st_get :: "string \<Rightarrow> 's \<Rightarrow> go_error + license option"
  st_update :: "license \<Rightarrow> 's \<Rightarrow> (go_error + unit) \<times> 's"
  st_list :: "'s \<Rightarrow> go_error + license list"

type_synonym 'h history = "(string \<Rightarrow> plan_change \<Rightarrow> 'h \<Rightarrow> 'h) option"

definition note_change :: "'h history \<Rightarrow> string \<Rightarrow> plan_change \<Rightarrow> 'h \<Rightarrow> 'h" where
  "note_change rec lid c h = (case rec of None \<Rightarrow> h | Some f \<Rightarrow> f lid c h)"

text \<open>The id and the key are drawn at random; a failing generator is an error.\<close>

definition create_community_license :: "'s license_store_ops \<Rightarrow> u8 list option \<Rightarrow> u8 list option \<Rightarrow>
    string \<Rightarrow> string \<Rightarrow> string \<Rightarrow> gotime \<Rightarrow> 's \<Rightarrow> (go_error + license) \<times> 's" where
  "create_community_license ops id_bytes key_bytes customer name fp now s =
     (case id_bytes of
        None \<Rightarrow> (Inl (Wrapped ''plan: generate license_id'' (Driver_error ''rand'')), s)
      | Some ib \<Rightarrow>
          (case key_bytes of
             None \<Rightarrow> (Inl (Wrapped ''plan: generate license_key'' (Driver_error ''rand'')), s)
           | Some kb \<Rightarrow>
               let l = \<lparr>li_id = 0, li_license_id = hex_encode ib, li_key = hex_encode kb,
                        li_customer_id = customer, li_customer_name = name, li_client_ip = [],
                        li_fingerprint = fp, li_plan = ''community'', li_status = ''active'',
                        li_valid_days = 0, li_created = now, li_expires = zero_time,
                        li_last_heartbeat = zero_time, li_notes = []\<rparr>
               in case st_create ops l s of
                    (Inl e, s') \<Rightarrow> (Inl (Wrapped ''plan: create community license'' e), s')
                  | (Inr l', s') \<Rightarrow> (Inr l', s')))"

definition due :: "gotime \<Rightarrow> license \<Rightarrow> bool" where
  "due now l \<longleftrightarrow> li_plan l \<noteq> ''community'' \<and>
     \<not> (is_zero_time (li_expires l) \<or> time_after (li_expires l) now) \<and> li_status l \<noteq> ''suspended''"

definition downgraded :: "license \<Rightarrow> license" where
  "downgraded l = l\<lparr>li_plan := ''community'', li_status := ''downgraded'', li_expires := zero_time,
     li_valid_days := 0\<rparr>"

definition expiry_event :: "gotime \<Rightarrow> license \<Rightarrow> downgrade_event" where
  "expiry_event now l = \<lparr>de_license_id = li_license_id l, de_previous = li_plan l, de_at = now,
     de_reason = ''expired''\<rparr>"

definition expiry_change :: "gotime \<Rightarrow> license \<Rightarrow> plan_change" where
  "expiry_change now l = \<lparr>ch_from = li_plan l, ch_to = ''community'', ch_at = now, ch_reason = ''expired''\<rparr>"

text \<open>
  The loop over the listed rows: \<open>cancel\<close> is the number of the iteration whose look at the
  context finds it done. The results are the events so far, the error, and the two stores.
\<close>

fun check_loop :: "'s license_store_ops \<Rightarrow> 'h history \<Rightarrow> nat option \<Rightarrow> gotime \<Rightarrow> nat \<Rightarrow> license list \<Rightarrow>
    's \<times> 'h \<Rightarrow> (downgrade_event list \<times> go_error option) \<times> 's \<times> 'h" where
  "check_loop ops rec cancel now i [] sh = (([], None), sh)"
| "check_loop ops rec cancel now i (l # ls) (s, h) =
     (if cancel = Some i then (([], Some Canceled), (s, h))
      else if \<not> due now l then check_loop ops rec cancel now (Suc i) ls (s, h)
      else case st_update ops (downgraded l) s of
        (Inl e, s') \<Rightarrow> (([], Some (Wrapped ''plan: downgrade license'' e)), (s', h))
      | (Inr _, s') \<Rightarrow>
          let h' = note_change rec (li_license_id l) (expiry_change now l) h;
              ((es, err), sh') = check_loop ops rec cancel now (Suc i) ls (s', h')
          in ((expiry_event now l # es, err), sh'))"

definition check_expiry :: "'s license_store_ops \<Rightarrow> 'h history \<Rightarrow> nat option \<Rightarrow> gotime \<Rightarrow> 's \<times> 'h \<Rightarrow>
    (downgrade_event list \<times> go_error option) \<times> 's \<times> 'h" where
  "check_expiry ops rec cancel now sh =
     (case st_list ops (fst sh) of
        Inl e \<Rightarrow> (([], Some (Wrapped ''plan: check expiry list'' e)), sh)
      | Inr ls \<Rightarrow> check_loop ops rec cancel now 0 ls sh)"

definition upgrade_plan :: "'s license_store_ops \<Rightarrow> 'h history \<Rightarrow> string \<Rightarrow> string \<Rightarrow> int \<Rightarrow> gotime \<Rightarrow>
    's \<times> 'h \<Rightarrow> go_error option \<times> 's \<times> 'h" where
  "upgrade_plan ops rec lid new_plan days now sh =
     (case sh of (s, h) \<Rightarrow>
      if new_plan \<noteq> ''pro'' \<and> new_plan \<noteq> ''enterprise'' then (Some (Message ''plan: invalid upgrade target''), sh)
      else if days \<le> 0 then (Some (Message ''plan: validDays must be positive''), sh)
      else case st_get ops lid s of
        Inl e \<Rightarrow> (Some (Wrapped ''plan: upgrade get license'' e), sh)
      | Inr None \<Rightarrow> (Some (Message ''plan: license not found''), sh)
      | Inr (Some l) \<Rightarrow>
          let l' = l\<lparr>li_plan := new_plan, li_status := ''active'', li_valid_days := days,
                     li_expires := now + days * day\<rparr>
          in case st_update ops l' s of
               (Inl e, s') \<Rightarrow> (Some (Wrapped ''plan: upgrade license'' e), (s', h))
             | (Inr _, s') \<Rightarrow>
                 (None, (s', note_change rec (li_license_id l) \<lparr>ch_from = li_plan l, ch_to = new_plan,
                    ch_at = now, ch_reason = ''admin_upgrade''\<rparr> h)))"

definition downgrade_to_community :: "'s license_store_ops \<Rightarrow> 'h history \<Rightarrow> string \<Rightarrow> gotime \<Rightarrow>
    's \<times> 'h \<Rightarrow> go_error option \<times> 's \<times> 'h" where
  "downgrade_to_community ops rec lid now sh =
     (case sh of (s, h) \<Rightarrow>
      (case st_get ops lid s of
        Inl e \<Rightarrow> (Some (Wrapped ''plan: downgrade get license'' e), sh)
      | Inr None \<Rightarrow> (Some (Message ''plan: license not found''), sh)
      | Inr (Some l) \<Rightarrow>
          (case st_update ops (downgraded l) s of
             (Inl e, s') \<Rightarrow> (Some (Wrapped ''plan: downgrade license'' e), (s', h))
           | (Inr _, s') \<Rightarrow>
               (None, (s', note_change rec lid \<lparr>ch_from = li_plan l, ch_to = ''community'',
                  ch_at = now, ch_reason = ''admin_downgrade''\<rparr> h)))))"

definition enforce_plan_limits :: "string \<Rightarrow> requested_config \<Rightarrow> go_error option" where
  "enforce_plan_limits plan c =
     (let l = limits_for_plan plan in
      if 0 < pl_max_domains l \<and> pl_max_domains l < rc_domains c then Some (Message ''plan: domains exceed the limit'')
      else if rc_xdp c \<and> \<not> pl_xdp l then Some (Message ''plan: XDP not available'')
      else if rc_ota c \<and> \<not> pl_ota l then Some (Message ''plan: OTA not available'')
      else if 0 < pl_rpm l \<and> pl_rpm l < rc_rpm c then Some (Message ''plan: custom RPM exceeds the limit'')
      else None)"

subsection \<open>The licence store the manager relies on\<close>

text \<open>
  An update never changes the columns of the identity: the row keeps its id, key, customer,
  instant of creation and last heartbeat, whatever the updated struct holds there.
\<close>

definition same_identity :: "license \<Rightarrow> license \<Rightarrow> bool" where
  "same_identity l k \<longleftrightarrow> li_id l = li_id k \<and> li_license_id l = li_license_id k \<and> li_key l = li_key k \<and>
     li_customer_id l = li_customer_id k \<and> li_created l = li_created k \<and>
     li_last_heartbeat l = li_last_heartbeat k"

text \<open>The rows a pass looks at before it is cancelled.\<close>

definition seen :: "nat option \<Rightarrow> nat \<Rightarrow> license list \<Rightarrow> license list" where
  "seen cancel i ls = (case cancel of None \<Rightarrow> ls | Some j \<Rightarrow> take (j - i) ls)"

lemma not_due_downgraded: "\<not> due now (downgraded l)"
  by (simp add: due_def downgraded_def)

lemma due_changes: "due now l \<Longrightarrow> l = downgraded l \<Longrightarrow> False"
  by (metis not_due_downgraded)

locale license_store =
  fixes ops :: "'s license_store_ops"
    and row :: "'s \<Rightarrow> string \<Rightarrow> license option"
    and inv :: "'s \<Rightarrow> bool"
  assumes list_rows: "inv s \<Longrightarrow> \<exists>ls. st_list ops s = Inr ls \<and> distinct (map li_license_id ls) \<and>
      (\<forall>l. l \<in> set ls \<longleftrightarrow> row s (li_license_id l) = Some l)"
    and get_row: "inv s \<Longrightarrow> st_get ops lid s = Inr (row s lid)"
    and row_id: "inv s \<Longrightarrow> row s lid = Some l \<Longrightarrow> li_license_id l = lid"
    and update_row: "inv s \<Longrightarrow> row s (li_license_id l) = Some k \<Longrightarrow> same_identity l k \<Longrightarrow>
      \<exists>s'. st_update ops l s = (Inr (), s') \<and> inv s' \<and> row s' = (row s)(li_license_id l \<mapsto> l)"
begin

lemma same_identity_downgraded: "same_identity (downgraded l) l"
  by (simp add: same_identity_def downgraded_def)

lemma loop_result:
  assumes "inv s" "distinct (map li_license_id ls)" "\<forall>l\<in>set ls. row s (li_license_id l) = Some l"
    and "\<forall>j. cancel = Some j \<longrightarrow> i \<le> j"
  shows "\<exists>s' h'. check_loop ops rec cancel now i ls (s, h) =
      ((map (expiry_event now) (filter (due now) (seen cancel i ls)),
        if seen cancel i ls = ls then None else Some Canceled), (s', h')) \<and> inv s' \<and>
    row s' = (\<lambda>k. case row s k of None \<Rightarrow> None
      | Some l \<Rightarrow> Some (if l \<in> set (seen cancel i ls) \<and> due now l then downgraded l else l))"
  using assms
proof (induction ls arbitrary: s h i)
  case Nil
  then show ?case by (simp add: seen_def option.case_eq_if fun_eq_iff)
next
  case (Cons l ls)
  show ?case
  proof (cases "cancel = Some i")
    case True
    with Cons.prems(1) show ?thesis by (simp add: seen_def option.case_eq_if fun_eq_iff)
  next
    case nc: False
    then have nc': "\<forall>j. cancel = Some j \<longrightarrow> Suc i \<le> j" using Cons.prems(4) by (metis Suc_leI le_neq_implies_less)
    have sc: "seen cancel i (l # ls) = l # seen cancel (Suc i) ls"
      using Cons.prems(4) nc by (cases cancel) (auto simp: seen_def take_Cons' Suc_diff_Suc)
    let ?seen = "set (seen cancel (Suc i) ls)"
    have seen_ls: "?seen \<subseteq> set ls" by (auto simp: seen_def split: option.splits dest: in_set_takeD)
    have l: "row s (li_license_id l) = Some l" using Cons.prems(3) by simp
    have ids: "li_license_id l \<notin> li_license_id ` set ls" using Cons.prems(2) by simp
    show ?thesis
    proof (cases "due now l")
      case False
      from Cons.IH [of s "Suc i" h] Cons.prems nc'
      obtain s' h' where r: "check_loop ops rec cancel now (Suc i) ls (s, h) =
          ((map (expiry_event now) (filter (due now) (seen cancel (Suc i) ls)),
            if seen cancel (Suc i) ls = ls then None else Some Canceled), (s', h'))" "inv s'"
        "row s' = (\<lambda>k. case row s k of None \<Rightarrow> None
           | Some x \<Rightarrow> Some (if x \<in> ?seen \<and> due now x then downgraded x else x))"
        by auto
      have "row s' = (\<lambda>k. case row s k of None \<Rightarrow> None
           | Some x \<Rightarrow> Some (if x \<in> set (seen cancel i (l # ls)) \<and> due now x then downgraded x else x))"
        using False by (auto simp: r(3) sc fun_eq_iff split: option.splits)
      with r(1,2) False nc show ?thesis by (intro exI [of _ s'] exI [of _ h']) (simp add: sc)
    next
      case True
      have lid: "li_license_id (downgraded l) = li_license_id l" by (simp add: downgraded_def)
      obtain s1 where u: "st_update ops (downgraded l) s = (Inr (), s1)" "inv s1"
        "row s1 = (row s)(li_license_id l \<mapsto> downgraded l)"
        using update_row [OF Cons.prems(1) _ same_identity_downgraded [of l]] l unfolding lid by blast
      have rest: "\<forall>x\<in>set ls. row s1 (li_license_id x) = Some x"
      proof
        fix x assume x: "x \<in> set ls"
        then have "li_license_id x \<noteq> li_license_id l" using ids by (metis imageI)
        with x Cons.prems(3) show "row s1 (li_license_id x) = Some x" by (simp add: u(3))
      qed
      from Cons.IH [OF u(2) _ rest nc', of "note_change rec (li_license_id l) (expiry_change now l) h"] Cons.prems(2)
      obtain s' h' where r: "check_loop ops rec cancel now (Suc i) ls
          (s1, note_change rec (li_license_id l) (expiry_change now l) h) =
          ((map (expiry_event now) (filter (due now) (seen cancel (Suc i) ls)),
            if seen cancel (Suc i) ls = ls then None else Some Canceled), (s', h'))" "inv s'"
        "row s' = (\<lambda>k. case row s1 k of None \<Rightarrow> None
           | Some x \<Rightarrow> Some (if x \<in> ?seen \<and> due now x then downgraded x else x))"
        by auto
      have "row s' k = (case row s k of None \<Rightarrow> None
           | Some x \<Rightarrow> Some (if x \<in> set (seen cancel i (l # ls)) \<and> due now x then downgraded x else x))" for k
      proof (cases "k = li_license_id l")
        case True
        with l not_due_downgraded \<open>due now l\<close> show ?thesis by (simp add: r(3) u(3) sc)
      next
        case False
        then have "x \<noteq> l" if "row s k = Some x" for x
          using row_id [OF Cons.prems(1) that] by auto
        with False show ?thesis by (auto simp: r(3) u(3) sc split: option.splits)
      qed
      with r(1,2) u(1) True nc show ?thesis by (intro exI [of _ s'] exI [of _ h']) (auto simp: sc)
    qed
  qed
qed

text \<open>
  One pass, cancelled or not, downgrades exactly the due rows it has looked at, keeps every
  other row as it is, and reports each downgraded row once.
\<close>

lemma check_expiry_pass:
  assumes "inv s"
  shows "\<exists>es err s' h' did. check_expiry ops rec cancel now (s, h) = ((es, err), (s', h')) \<and> inv s' \<and>
    (cancel = None \<longrightarrow> err = None) \<and> (err = None \<longrightarrow> (\<forall>l. did l)) \<and>
    row s' = (\<lambda>k. map_option (\<lambda>l. if due now l \<and> did l then downgraded l else l) (row s k)) \<and>
    set es = {expiry_event now l | k l. row s k = Some l \<and> due now l \<and> did l} \<and>
    distinct (map de_license_id es)"
proof -
  obtain ls where ls: "st_list ops s = Inr ls" "distinct (map li_license_id ls)"
    "\<forall>l. l \<in> set ls \<longleftrightarrow> row s (li_license_id l) = Some l"
    using list_rows [OF assms] by blast
  let ?seen = "seen cancel 0 ls"
  have sub: "set ?seen \<subseteq> set ls" and dist: "distinct (map li_license_id ?seen)"
    using ls(2) by (auto simp: seen_def take_map [symmetric] split: option.splits dest: in_set_takeD)
  from loop_result [OF assms ls(2), of cancel 0 rec now h] ls(3)
  obtain s' h' where r: "check_loop ops rec cancel now 0 ls (s, h) =
      ((map (expiry_event now) (filter (due now) ?seen), if ?seen = ls then None else Some Canceled), (s', h'))"
    "inv s'" "row s' = (\<lambda>k. case row s k of None \<Rightarrow> None
       | Some l \<Rightarrow> Some (if l \<in> set ?seen \<and> due now l then downgraded l else l))" by auto
  have mem: "l \<in> set ls" if "row s k = Some l" for k l
    using that ls(3) row_id [OF assms that] by simp
  define did where "did l = (?seen = ls \<or> l \<in> set ?seen)" for l
  have did: "did l \<longleftrightarrow> l \<in> set ?seen" if "row s k = Some l" for k l
    using mem [OF that] by (auto simp: did_def)
  have "row s' = (\<lambda>k. map_option (\<lambda>l. if due now l \<and> did l then downgraded l else l) (row s k))"
    using did by (auto simp: r(3) fun_eq_iff split: option.splits)
  moreover have "de_license_id \<circ> expiry_event now = li_license_id" by (auto simp: expiry_event_def)
  then have "distinct (map de_license_id (map (expiry_event now) (filter (due now) ?seen)))"
    using dist by (simp add: distinct_map_filter)
  moreover have "set (map (expiry_event now) (filter (due now) ?seen)) =
      {expiry_event now l | k l. row s k = Some l \<and> due now l \<and> did l}"
  proof -
    have "l \<in> set ?seen \<longleftrightarrow> (\<exists>k. row s k = Some l \<and> did l)" for l
      using ls(3) sub did by blast
    moreover have "set (map (expiry_event now) (filter (due now) ?seen)) =
        {expiry_event now l | l. l \<in> set ?seen \<and> due now l}" by auto
    ultimately show ?thesis by blast
  qed
  moreover have "cancel = None \<longrightarrow> ?seen = ls" by (simp add: seen_def)
  moreover have "?seen = ls \<longrightarrow> (\<forall>l. did l)" by (simp add: did_def)
  ultimately show ?thesis using r(1,2) ls(1)
    by (intro exI [of _ "map (expiry_event now) (filter (due now) ?seen)"]
        exI [of _ "if ?seen = ls then None else Some Canceled"] exI [of _ s'] exI [of _ h'] exI [of _ did])
       (simp add: check_expiry_def)
qed

lemma check_expiry_full:
  assumes "inv s"
  shows "\<exists>es s' h'. check_expiry ops rec None now (s, h) = ((es, None), (s', h')) \<and> inv s' \<and>
    (\<forall>k. row s' k = map_option (\<lambda>l. if due now l then downgraded l else l) (row s k))"
proof -
  obtain es s' h' did where "check_expiry ops rec None now (s, h) = ((es, None), (s', h'))" "inv s'" "\<forall>l. did l"
    "row s' = (\<lambda>k. map_option (\<lambda>l. if due now l \<and> did l then downgraded l else l) (row s k))"
    using check_expiry_pass [OF assms, of rec None now h] by auto
  then show ?thesis by (intro exI [of _ es] exI [of _ s'] exI [of _ h']) simp
qed

text \<open>A pass that was cut short is completed by the next one, with nothing lost or done twice.\<close>

lemma check_expiry_resumes:
  assumes "inv s"
  shows "\<exists>es err s1 h1 es' s2 h2. check_expiry ops rec cancel now (s, h) = ((es, err), (s1, h1)) \<and>
    check_expiry ops rec None now (s1, h1) = ((es', None), (s2, h2)) \<and> inv s2 \<and>
    (\<forall>k. row s2 k = map_option (\<lambda>l. if due now l then downgraded l else l) (row s k)) \<and>
    set (es @ es') = {expiry_event now l | k l. row s k = Some l \<and> due now l} \<and> distinct (es @ es')"
proof -
  obtain es err s1 h1 did where p1: "check_expiry ops rec cancel now (s, h) = ((es, err), (s1, h1))" "inv s1"
    "row s1 = (\<lambda>k. map_option (\<lambda>l. if due now l \<and> did l then downgraded l else l) (row s k))"
    "set es = {expiry_event now l | k l. row s k = Some l \<and> due now l \<and> did l}" "distinct (map de_license_id es)"
    using check_expiry_pass [OF assms, of rec cancel now h] by blast
  obtain es' s2 h2 where p2: "check_expiry ops rec None now (s1, h1) = ((es', None), (s2, h2))" "inv s2"
    "row s2 = (\<lambda>k. map_option (\<lambda>l. if due now l then downgraded l else l) (row s1 k))"
    "set es' = {expiry_event now l | k l. row s1 k = Some l \<and> due now l}" "distinct (map de_license_id es')"
    using check_expiry_pass [OF p1(2), of rec None now h1] by auto
  have row1: "row s1 k = Some l \<and> due now l \<longleftrightarrow> row s k = Some l \<and> due now l \<and> \<not> did l" for k l
    by (auto simp: p1(3) not_due_downgraded dest: due_changes)
  have "row s2 k = map_option (\<lambda>l. if due now l then downgraded l else l) (row s k)" for k
    by (cases "row s k") (simp_all add: p2(3) p1(3) not_due_downgraded)
  moreover have u: "set es' = {expiry_event now l | k l. row s k = Some l \<and> due now l \<and> \<not> did l}"
    unfolding p2(4) row1 by blast
  moreover have "set es \<inter> set es' = {}"
  proof -
    have "l = l'" if "row s k = Some l" "row s k' = Some l'" "expiry_event now l = expiry_event now l'" for k l k' l'
      using that row_id [OF assms that(1)] row_id [OF assms that(2)] by (simp add: expiry_event_def)
    then show ?thesis unfolding u p1(4) by blast
  qed
  moreover have "set es \<union> set es' = {expiry_event now l | k l. row s k = Some l \<and> due now l}"
    unfolding u p1(4) by blast
  moreover have "distinct es" "distinct es'" using p1(5) p2(5) by (auto simp: distinct_map)
  ultimately show ?thesis using p1(1) p2(1,2)
    by (intro exI [of _ es] exI [of _ err] exI [of _ s1] exI [of _ h1] exI [of _ es'] exI [of _ s2] exI [of _ h2])
       simp
qed

lemma upgrade_result:
  assumes "inv s" "row s lid = Some l" "new_plan = ''pro'' \<or> new_plan = ''enterprise''" "0 < days"
  shows "\<exists>s' h'. upgrade_plan ops rec lid new_plan days now (s, h) = (None, (s', h')) \<and> inv s' \<and>
    row s' = (row s)(lid \<mapsto> l\<lparr>li_plan := new_plan, li_status := ''active'', li_valid_days := days,
      li_expires := now + days * day\<rparr>)"
proof -
  let ?l = "l\<lparr>li_plan := new_plan, li_status := ''active'', li_valid_days := days, li_expires := now + days * day\<rparr>"
  have id: "li_license_id l = lid" using row_id [OF assms(1,2)] .
  obtain s' where "st_update ops ?l s = (Inr (), s')" "inv s'" "row s' = (row s)(lid \<mapsto> ?l)"
    using update_row [OF assms(1), of ?l l] assms(2) id by (auto simp: same_identity_def)
  with assms get_row [OF assms(1), of lid] show ?thesis by (auto simp: upgrade_plan_def Let_def)
qed

end

subsection \<open>The master's database as the store\<close>

text \<open>The store the manager is given: the methods of the database, none of whose statements fails.\<close>

definition db_store :: "master_db license_store_ops" where
  "db_store = \<lparr>st_create = create_license None, st_get = get_license_by_license_id None,
     st_update = update_license None, st_list = list_licenses None\<rparr>"

lemma find_id_Some:
  "find (\<lambda>l. li_license_id l = lid) xs = Some l \<Longrightarrow> l \<in> set xs \<and> li_license_id l = lid"
  by (auto simp: find_Some_iff)

lemma find_id_mem:
  "distinct (map li_license_id xs) \<Longrightarrow>
   l \<in> set xs \<longleftrightarrow> find (\<lambda>x. li_license_id x = li_license_id l) xs = Some l"
  by (induction xs) force+

lemma find_map_row:
  assumes "distinct (map li_license_id xs)" "k \<in> set xs" "li_license_id l = li_license_id k"
    "li_license_id k \<notin> li_license_id ` {x \<in> set xs. x \<noteq> k}"
    and g: "g k = l" "\<And>x. x \<in> set xs \<Longrightarrow> x \<noteq> k \<Longrightarrow> g x = x"
  shows "find (\<lambda>x. li_license_id x = lid) (map g xs) =
    (if lid = li_license_id l then Some l else find (\<lambda>x. li_license_id x = lid) xs)"
  using assms
proof (induction xs)
  case (Cons x xs)
  show ?case
  proof (cases "x = k")
    case True
    then have "k \<notin> set xs" using Cons.prems(1) by force
    then have "map g xs = xs" using Cons.prems(6) by (intro map_idI) auto
    with True Cons.prems show ?thesis by auto
  next
    case False
    then have "g x = x" "li_license_id x \<noteq> li_license_id k" using Cons.prems by auto
    moreover have "find (\<lambda>x. li_license_id x = lid) (map g xs) =
      (if lid = li_license_id l then Some l else find (\<lambda>x. li_license_id x = lid) xs)"
      using Cons.prems False by (intro Cons.IH) auto
    ultimately show ?thesis using Cons.prems(3) by auto
  qed
qed simp

interpretation licences: license_store db_store "\<lambda>d k. row_of k d" table_ok
proof (unfold_locales, goal_cases)
  case (1 d)
  have "distinct (map li_license_id (sort_key (\<lambda>l. - li_created l) (db_licenses d)))"
    using 1 by (simp add: table_ok_def distinct_map)
  with 1 find_id_mem [of "db_licenses d"] show ?case
    by (simp add: db_store_def list_licenses_def failing_def row_of_def table_ok_def)
next
  case (2 d lid)
  show ?case by (simp add: db_store_def get_license_by_license_id_def failing_def row_of_def)
next
  case (3 d lid l)
  then show ?case using find_id_Some unfolding row_of_def by blast
next
  case (4 d l k)
  have k: "k \<in> set (db_licenses d)" "li_license_id k = li_license_id l"
    using find_id_Some 4(2) unfolding row_of_def by metis+
  have idk: "li_id k = li_id l" using 4(3) by (simp add: same_identity_def)
  define g where "g x = (if li_id x = li_id l then
      x\<lparr>li_customer_name := li_customer_name l, li_client_ip := li_client_ip l,
        li_fingerprint := li_fingerprint l, li_plan := li_plan l, li_status := li_status l,
        li_valid_days := li_valid_days l, li_expires := li_expires l, li_notes := li_notes l\<rparr> else x)" for x :: license
  have upd: "update_license None l d = (Inr (), d\<lparr>db_licenses := map g (db_licenses d)\<rparr>)"
    using k(1) idk by (auto simp: update_license_def has_row_def list_ex_iff map_rows_def g_def [abs_def])
  have "g k = l" using 4(3) by (simp add: g_def same_identity_def)
  moreover have "g x = x" if "x \<in> set (db_licenses d)" "x \<noteq> k" for x
  proof -
    have "li_id x \<noteq> li_id k" using that k(1) 4(1) unfolding table_ok_def distinct_map by (auto dest: inj_onD)
    then show ?thesis by (simp add: g_def idk)
  qed
  moreover have "li_license_id k \<notin> li_license_id ` {x \<in> set (db_licenses d). x \<noteq> k}"
    using 4(1) k(1) unfolding table_ok_def distinct_map by (auto dest: inj_onD)
  ultimately have "row_of lid (d\<lparr>db_licenses := map g (db_licenses d)\<rparr>) =
      (if lid = li_license_id l then Some l else row_of lid d)" for lid
    using find_map_row [of "db_licenses d" k l g lid] k 4(1) by (simp add: row_of_def table_ok_def)
  moreover have "table_ok (d\<lparr>db_licenses := map g (db_licenses d)\<rparr>)"
    using table_ok_updates(1) [OF 4(1), of None l] upd by simp
  ultimately show ?case using upd by (intro exI conjI) (auto simp: db_store_def fun_eq_iff)
qed

subsection \<open>Properties\<close>

definition sample_license :: license where
  "sample_license = \<lparr>li_id = 1, li_license_id = ''L1'', li_key = ''K1'', li_customer_id = ''fp'',
     li_customer_name = ''host'', li_client_ip = [], li_fingerprint = [], li_plan = ''pro'',
     li_status = ''active'', li_valid_days = 30, li_created = 0, li_expires = 1000,
     li_last_heartbeat = zero_time, li_notes = []\<rparr>"

definition sample_db :: master_db where
  "sample_db = \<lparr>db_licenses = [sample_license,
       sample_license\<lparr>li_id := 2, li_license_id := ''L2'', li_key := ''K2'', li_status := ''suspended''\<rparr>,
       sample_license\<lparr>li_id := 3, li_license_id := ''L3'', li_key := ''K3'', li_expires := 100000\<rparr>],
     db_next_id = 4, db_releases = [], db_next_release = 1, db_heartbeats = [], db_attempts = [], db_sessions = []\<rparr>"

lemma sample_db_ok: "table_ok sample_db"
  by (simp add: table_ok_def sample_db_def sample_license_def)

text \<open>
  C10. The expiry check is resumable and touches nothing it should not. Whatever iteration a
  pass over the master's database is cancelled at, the next full pass completes it: afterwards
  every licence that was due (a paid plan, a non-zero expiry that is not in the future, not
  suspended) is a perpetual community licence with status downgraded, every other row is as it
  was before the first pass, and the events the two passes report name each downgraded licence
  exactly once, with its old plan.
\<close>

theorem expiry_passes_complete:
  assumes "table_ok d"
  shows "\<exists>es err d1 h1 es' d2 h2.
    check_expiry db_store rec cancel now (d, h) = ((es, err), (d1, h1)) \<and>
    check_expiry db_store rec None now (d1, h1) = ((es', None), (d2, h2)) \<and> table_ok d2 \<and>
    (\<forall>k. row_of k d2 = map_option (\<lambda>l. if due now l then downgraded l else l) (row_of k d)) \<and>
    set (es @ es') = {expiry_event now l | k l. row_of k d = Some l \<and> due now l} \<and> distinct (es @ es')"
  by (rule licences.check_expiry_resumes [OF assms])

theorem expiry_passes_complete_witness:
  "\<exists>es err d1 h1 es' d2 h2.
    check_expiry db_store None (Some 1) 5000 (sample_db, ()) = ((es, err), (d1, h1)) \<and>
    check_expiry db_store (None :: unit history) None 5000 (d1, h1) = ((es', None), (d2, h2)) \<and> table_ok d2 \<and>
    (\<forall>k. row_of k d2 = map_option (\<lambda>l. if due 5000 l then downgraded l else l) (row_of k sample_db)) \<and>
    set (es @ es') = {expiry_event 5000 l | k l. row_of k sample_db = Some l \<and> due 5000 l} \<and> distinct (es @ es')"
  by (rule expiry_passes_complete [OF sample_db_ok])

text \<open>
  An upgrade to a paid plan lasts exactly the days it was bought for. After upgrading a
  licence of the master's database, with any positive number of days, an expiry check at an
  instant before now + days leaves the upgraded row (same id, key, customer and fingerprint,
  new plan, status active), and a check at or after that instant leaves the same identity with
  the community plan.
\<close>

theorem upgrade_lasts_its_days:
  assumes "table_ok d" "row_of lid d = Some l" "plan = ''pro'' \<or> plan = ''enterprise''" "0 < days" "0 \<le> now"
  shows "\<exists>d1 h1. upgrade_plan db_store rec lid plan days now (d, h) = (None, (d1, h1)) \<and>
    (\<forall>t. \<exists>es d2 h2. check_expiry db_store rec None t (d1, h1) = ((es, None), (d2, h2)) \<and>
      row_of lid d2 = Some (if t < now + days * day
        then l\<lparr>li_plan := plan, li_status := ''active'', li_valid_days := days, li_expires := now + days * day\<rparr>
        else l\<lparr>li_plan := ''community'', li_status := ''downgraded'', li_expires := zero_time, li_valid_days := 0\<rparr>))"
proof -
  let ?l = "l\<lparr>li_plan := plan, li_status := ''active'', li_valid_days := days, li_expires := now + days * day\<rparr>"
  obtain d1 h1 where u: "upgrade_plan db_store rec lid plan days now (d, h) = (None, (d1, h1))"
    "table_ok d1" "row_of lid d1 = Some ?l"
    using licences.upgrade_result [OF assms(1-4), of rec now h] by (auto simp: fun_eq_iff)
  have nz: "\<not> is_zero_time (now + days * day)"
    using assms(4,5) by (simp add: is_zero_time_def zero_time_def day_def nanos_def)
  have due: "due t ?l \<longleftrightarrow> now + days * day \<le> t" for t
    using assms(3) nz by (auto simp: due_def time_after_def)
  have row: "(if due t ?l then downgraded ?l else ?l) = (if t < now + days * day then ?l
      else l\<lparr>li_plan := ''community'', li_status := ''downgraded'', li_expires := zero_time, li_valid_days := 0\<rparr>)" for t
    by (simp add: due downgraded_def not_le)
  have "\<exists>es d2 h2. check_expiry db_store rec None t (d1, h1) = ((es, None), (d2, h2)) \<and>
      row_of lid d2 = Some (if due t ?l then downgraded ?l else ?l)" for t
    using licences.check_expiry_full [OF u(2), of rec t h1] u(3) by fastforce
  with u(1) show ?thesis unfolding row by blast
qed

theorem upgrade_lasts_its_days_witness:
  "\<exists>d1 h1. upgrade_plan db_store (None :: unit history) ''L2'' ''enterprise'' 7 2000 (sample_db, ()) = (None, (d1, h1)) \<and>
    (\<forall>t. \<exists>es d2 h2. check_expiry db_store (None :: unit history) None t (d1, h1) = ((es, None), (d2, h2)) \<and>
      row_of ''L2'' d2 = Some (let l = sample_license\<lparr>li_id := 2, li_license_id := ''L2'', li_key := ''K2'', li_status := ''suspended''\<rparr>
       in if t < 2000 + 7 * day
        then l\<lparr>li_plan := ''enterprise'', li_status := ''active'', li_valid_days := 7, li_expires := 2000 + 7 * day\<rparr>
        else l\<lparr>li_plan := ''community'', li_status := ''downgraded'', li_expires := zero_time, li_valid_days := 0\<rparr>))"
  unfolding Let_def
  by (rule upgrade_lasts_its_days) (simp_all add: sample_db_ok, simp add: row_of_def sample_db_def sample_license_def)

end
