(* ===== verification/MasterApi.thy ===== *)
theory MasterApi
  imports Plan Http
begin

text \<open>
  The master's HTTP API for the client nodes, \<^verbatim>\<open>internal/master/handlers\<close>: the heartbeat, the
  update check, the registration with its limiter, the health check, and the two functions the
  handlers share (\<^verbatim>\<open>extractClientIP\<close>, \<^verbatim>\<open>IsContextTimeout\<close>). A handler is a function of the
  method, the decoded body (\<open>None\<close> when \<^verbatim>\<open>encoding/json\<close> fails), the clock, the faults of the
  database statements and the database; its result is the response and the database.
\<close>

subsection \<open>Requests and responses\<close>

record heartbeat_request =
  hq_key :: string
  hq_node :: string
  hq_fp :: string

record plan_config =
  pc_rpm :: int
  pc_subnet_rpm :: int
  pc_max_domains :: int
  pc_xdp :: bool
  pc_ota :: bool

record heartbeat_response =
  hr_valid :: bool
  hr_lock :: bool
  hr_status :: string
  hr_plan :: string
  hr_expires :: "gotime option"
  hr_config :: "plan_config option"
  hr_reason :: string

text \<open>
  \<open>hr_expires\<close> is the instant the RFC 3339 text of the answer names, which has whole seconds, and
  \<open>None\<close> where the field is left out.
\<close>

record update_request =
  uq_component :: string
  uq_channel :: string
  uq_current :: string

record release_info =
  ri_version :: string
  ri_url :: string
  ri_sha256 :: string
  ri_notes :: string

record register_request =
  gq_hostname :: string
  gq_fingerprint :: string

record register_response =
  gr_key :: string
  gr_id :: string
  gr_plan :: string
  gr_status :: string

datatype master_body = Plain string | Error_json string | Timeout_json
  | Heartbeat_json heartbeat_response | Update_json "release_info option"
  | Register_json register_response | Health_json string

type_synonym master_response = "int \<times> master_body"

definition bad_payload :: master_response where
  "bad_payload = (400, Error_json ''invalid payload'')"

definition internal_error :: master_response where
  "internal_error = (500, Error_json ''internal error'')"

definition not_allowed :: master_response where
  "not_allowed = (405, Plain ''method not allowed'')"

definition plan_configs :: "string \<Rightarrow> plan_config option" where
  "plan_configs p =
     (if p = ''community'' then Some \<lparr>pc_rpm = 60, pc_subnet_rpm = 600, pc_max_domains = 1, pc_xdp = False, pc_ota = False\<rparr>
      else if p = ''pro'' then Some \<lparr>pc_rpm = 120, pc_subnet_rpm = 1800, pc_max_domains = 5, pc_xdp = True, pc_ota = True\<rparr>
      else if p = ''enterprise'' then Some \<lparr>pc_rpm = 0, pc_subnet_rpm = 0, pc_max_domains = 0, pc_xdp = True, pc_ota = True\<rparr>
      else None)"

definition is_context_timeout :: "go_error \<Rightarrow> bool" where
  "is_context_timeout e \<longleftrightarrow> e = Deadline_exceeded \<or> e = Canceled"

definition write_db_timeout :: master_response where
  "write_db_timeout = (503, Timeout_json)"

text \<open>The address the master takes a request to come from: three headers, then the peer.\<close>

definition master_client_ip :: "http_request \<Rightarrow> string" where
  "master_client_ip r =
     (let cf = rq_header r ''Cf-Connecting-Ip''; xff = rq_header r ''X-Forwarded-For'';
          xri = rq_header r ''X-Real-Ip'' in
      if cf \<noteq> [] then cf
      else if xff \<noteq> [] then before_sep CHR '','' xff
      else if xri \<noteq> [] then xri
      else case last_index CHR '':'' (rq_remote r) of None \<Rightarrow> rq_remote r | Some i \<Rightarrow> take i (rq_remote r))"

subsection \<open>The heartbeat\<close>

record heartbeat_faults =
  hf_lookup :: fault
  hf_fallback :: fault
  hf_status :: fault
  hf_log :: fault
  hf_touch :: fault

definition no_faults :: heartbeat_faults where
  "no_faults = \<lparr>hf_lookup = None, hf_fallback = None, hf_status = None, hf_log = None, hf_touch = None\<rparr>"

definition license_expired :: "gotime \<Rightarrow> license \<Rightarrow> bool" where
  "license_expired now l \<longleftrightarrow> \<not> is_zero_time (li_expires l) \<and> time_before (li_expires l) now"

definition locked_response :: "string \<Rightarrow> string \<Rightarrow> string \<Rightarrow> master_response" where
  "locked_response status plan reason = (200, Heartbeat_json
     \<lparr>hr_valid = False, hr_lock = True, hr_status = status, hr_plan = plan, hr_expires = None,
      hr_config = None, hr_reason = reason\<rparr>)"

text \<open>The key of the request is looked up as a key, then, whatever that look-up's error, as a licence id.\<close>

definition find_license :: "heartbeat_faults \<Rightarrow> string \<Rightarrow> master_db \<Rightarrow> go_error + license option" where
  "find_license f key d =
     (case get_license_by_key (hf_lookup f) key d of
        Inl e \<Rightarrow> Inl e
      | Inr (Some l) \<Rightarrow> Inr (Some l)
      | Inr None \<Rightarrow> (case get_license_by_license_id (hf_fallback f) key d of Inl _ \<Rightarrow> Inr None | Inr r \<Rightarrow> Inr r))"

text \<open>The second half of the handler: the beat is recorded and the answer built.\<close>

definition answer_heartbeat :: "heartbeat_faults \<Rightarrow> http_request \<Rightarrow> heartbeat_request \<Rightarrow> gotime \<Rightarrow> bool \<Rightarrow>
    license \<Rightarrow> master_db \<Rightarrow> master_response \<times> master_db" where
  "answer_heartbeat f r q now expired l d =
     (let hb = \<lparr>hb_license_id = li_license_id l, hb_node_id = hq_node q, hb_client_ip = master_client_ip r,
                hb_fingerprint = hq_fp q, hb_created = now\<rparr>;
          (logged, d1) = log_heartbeat (hf_log f) hb d
      in if (case logged of Inl e \<Rightarrow> is_context_timeout e | Inr _ \<Rightarrow> False) then (write_db_timeout, d1)
      else let (touched, d2) = update_license_heartbeat (hf_touch f) (li_license_id l) now d1
      in if (case touched of Inl e \<Rightarrow> is_context_timeout e | Inr _ \<Rightarrow> False) then (write_db_timeout, d2)
      else let plan_name = if expired then ''community'' else li_plan l
      in ((200, Heartbeat_json \<lparr>hr_valid = \<not> expired, hr_lock = False,
             hr_status = (if expired then ''expired'' else li_status l), hr_plan = plan_name,
             hr_expires = Some (unix_secs (li_expires l) * nanos), hr_config = plan_configs plan_name, hr_reason = []\<rparr>), d2))"

definition handle_heartbeat :: "heartbeat_faults \<Rightarrow> http_request \<Rightarrow> heartbeat_request option \<Rightarrow> gotime \<Rightarrow>
    master_db \<Rightarrow> master_response \<times> master_db" where
  "handle_heartbeat f r body now d =
     (if rq_method r \<noteq> ''POST'' then (not_allowed, d)
      else case body of
        None \<Rightarrow> (bad_payload, d)
      | Some q \<Rightarrow>
          if hq_key q = [] \<or> hq_node q = [] then (bad_payload, d)
          else case find_license f (hq_key q) d of
            Inl e \<Rightarrow> (if is_context_timeout e then write_db_timeout else internal_error, d)
          | Inr None \<Rightarrow> (locked_response [] [] [], d)
          | Inr (Some l) \<Rightarrow>
              if li_status l = ''revoked'' then (locked_response ''revoked'' (li_plan l) ''license_revoked'', d)
              else if li_status l = ''suspended''
              then ((200, Heartbeat_json \<lparr>hr_valid = False, hr_lock = False, hr_status = ''suspended'',
                      hr_plan = li_plan l, hr_expires = None, hr_config = None,
                      hr_reason = ''license_suspended''\<rparr>), d)
              else let expired = license_expired now l;
                       mark = expired \<and> li_status l = ''active'';
                       l' = (if mark then l\<lparr>li_status := ''expired''\<rparr> else l);
                       d1 = (if mark then snd (update_license_status (hf_status f) (li_license_id l) ''expired'' d) else d)
                in if li_fingerprint l' \<noteq> [] \<and> hq_fp q \<noteq> [] \<and> li_fingerprint l' \<noteq> hq_fp q
                   then (locked_response [] [] ''binary_integrity_mismatch'', d1)
                   else answer_heartbeat f r q now expired l' d1)"

subsection \<open>The update check and the health check\<close>

definition handle_update_check :: "fault \<Rightarrow> http_request \<Rightarrow> update_request option \<Rightarrow> master_db \<Rightarrow> master_response" where
  "handle_update_check f r body d =
     (if rq_method r \<noteq> ''POST'' then not_allowed
      else case body of
        None \<Rightarrow> bad_payload
      | Some q \<Rightarrow>
          if uq_component q = [] \<or> uq_channel q = [] then bad_payload
          else case get_latest_release f (uq_component q) (uq_channel q) d of
            Inl e \<Rightarrow> (if is_context_timeout e then write_db_timeout else internal_error)
          | Inr None \<Rightarrow> (200, Update_json None)
          | Inr (Some rl) \<Rightarrow>
              if rl_version rl = uq_current q then (200, Update_json None)
              else (200, Update_json (Some \<lparr>ri_version = rl_version rl, ri_url = rl_url rl,
                      ri_sha256 = rl_sha256 rl, ri_notes = rl_notes rl\<rparr>)))"

definition handle_healthz :: "http_request \<Rightarrow> master_response" where
  "handle_healthz r = (if rq_method r \<noteq> ''GET'' then not_allowed else (200, Health_json ''ok''))"

subsection \<open>Registration\<close>

record rate_entry =
  re_count :: int
  re_reset :: gotime

record register_limiter =
  rr_entries :: "string \<rightharpoonup> rate_entry"
  rr_limit :: int
  rr_window :: duration

definition new_register_limiter :: "int \<Rightarrow> duration \<Rightarrow> register_limiter" where
  "new_register_limiter limit window = \<lparr>rr_entries = Map.empty, rr_limit = limit, rr_window = window\<rparr>"

definition register_allow :: "string \<Rightarrow> gotime \<Rightarrow> register_limiter \<Rightarrow> bool \<times> register_limiter" where
  "register_allow ip now rl =
     (let fresh = (True, rl\<lparr>rr_entries := (rr_entries rl)(ip \<mapsto> \<lparr>re_count = 1, re_reset = time_add now (rr_window rl)\<rparr>)\<rparr>)
      in case rr_entries rl ip of
        None \<Rightarrow> fresh
      | Some e \<Rightarrow>
          if time_after now (re_reset e) then fresh
          else if rr_limit rl \<le> re_count e then (False, rl)
          else (True, rl\<lparr>rr_entries := (rr_entries rl)(ip \<mapsto> e\<lparr>re_count := re_count e + 1\<rparr>)\<rparr>))"

definition handle_register :: "'s license_store_ops \<Rightarrow> u8 list option \<Rightarrow> u8 list option \<Rightarrow> http_request \<Rightarrow>
    register_request option \<Rightarrow> gotime \<Rightarrow> register_limiter \<times> 's \<Rightarrow> master_response \<times> register_limiter \<times> 's" where
  "handle_register ops id_bytes key_bytes r body now st =
     (case st of (rl, s) \<Rightarrow>
      if rq_method r \<noteq> ''POST'' then (not_allowed, (rl, s))
      else let (ok, rl') = register_allow (master_client_ip r) now rl
      in if \<not> ok then ((429, Error_json ''rate limit exceeded, max 10 registrations per hour''), (rl', s))
      else case body of
        None \<Rightarrow> (bad_payload, (rl', s))
      | Some q \<Rightarrow>
          if gq_hostname q = [] \<or> gq_fingerprint q = []
          then ((400, Error_json ''hostname and fingerprint are required''), (rl', s))
          else case create_community_license ops id_bytes key_bytes (gq_fingerprint q) (gq_hostname q)
                 (gq_fingerprint q) now s of
            (Inl e, s') \<Rightarrow> ((500, Error_json ''failed to create license''), (rl', s'))
          | (Inr l, s') \<Rightarrow> ((200, Register_json \<lparr>gr_key = li_key l, gr_id = li_license_id l,
                gr_plan = ''community'', gr_status = ''active''\<rparr>), (rl', s')))"

subsection \<open>Facts about the heartbeat\<close>

definition licence_for :: "string \<Rightarrow> master_db \<Rightarrow> license option" where
  "licence_for key d = (case find (\<lambda>l. li_key l = key) (db_licenses d) of
     Some l \<Rightarrow> Some l | None \<Rightarrow> row_of key d)"

definition binary_mismatch :: "heartbeat_request \<Rightarrow> license \<Rightarrow> bool" where
  "binary_mismatch q l \<longleftrightarrow> li_fingerprint l \<noteq> [] \<and> hq_fp q \<noteq> [] \<and> li_fingerprint l \<noteq> hq_fp q"

lemma find_license_faultless:
  "hf_lookup f = None \<Longrightarrow> hf_fallback f = None \<Longrightarrow> find_license f key d = Inr (licence_for key d)"
  by (simp add: find_license_def get_license_by_key_def get_license_by_license_id_def failing_def
      licence_for_def row_of_def split: option.splits)

text \<open>Every method of the database wraps the error it returns, so no handler sees a bare one.\<close>

lemma wrapped_errors:
  "fst (log_heartbeat g hb d) = Inl e \<Longrightarrow> \<not> is_context_timeout e"
  "fst (update_license_heartbeat g lid now d) = Inl e \<Longrightarrow> \<not> is_context_timeout e"
  "find_license f key d = Inl e \<Longrightarrow> \<not> is_context_timeout e"
  "get_latest_release g c ch d = Inl e \<Longrightarrow> \<not> is_context_timeout e"
  by (auto simp: is_context_timeout_def log_heartbeat_def update_license_heartbeat_def find_license_def
      get_license_by_key_def get_latest_release_def failing_def split: option.splits sum.splits)

lemma answer_heartbeat_eq:
  "answer_heartbeat f r q now expired l d =
     ((200, Heartbeat_json \<lparr>hr_valid = \<not> expired, hr_lock = False,
        hr_status = (if expired then ''expired'' else li_status l),
        hr_plan = (if expired then ''community'' else li_plan l),
        hr_expires = Some (unix_secs (li_expires l) * nanos),
        hr_config = plan_configs (if expired then ''community'' else li_plan l), hr_reason = []\<rparr>),
      snd (update_license_heartbeat (hf_touch f) (li_license_id l) now
        (snd (log_heartbeat (hf_log f) \<lparr>hb_license_id = li_license_id l, hb_node_id = hq_node q,
           hb_client_ip = master_client_ip r, hb_fingerprint = hq_fp q, hb_created = now\<rparr> d))))"
proof -
  have 1: "(case fst (log_heartbeat g hb e) of Inl x \<Rightarrow> is_context_timeout x | Inr _ \<Rightarrow> False) = False" for g hb e
    by (auto dest: wrapped_errors(1) split: sum.splits)
  have 2: "(case fst (update_license_heartbeat g lid now e) of Inl x \<Rightarrow> is_context_timeout x | Inr _ \<Rightarrow> False) = False"
    for g lid e by (auto dest: wrapped_errors(2) split: sum.splits)
  show ?thesis by (simp add: answer_heartbeat_def Let_def case_prod_unfold 1 2)
qed

lemma answer_heartbeat_db:
  "\<exists>g hb. snd (answer_heartbeat f r q now expired l d) =
     snd (update_license_heartbeat (hf_touch f) (li_license_id l) now (snd (log_heartbeat g hb d)))"
  unfolding answer_heartbeat_eq snd_conv by blast

lemma find_map_same:
  assumes "\<And>x. P (g x) = P x"
  shows "find P (map g xs) = map_option g (find P xs)"
  using assms by (induction xs) auto

lemma row_of_map_rows:
  assumes "\<And>x. li_license_id (g x) = li_license_id x"
  shows "row_of k (map_rows P g d) = map_option (\<lambda>x. if P x then g x else x) (row_of k d)"
  by (simp add: row_of_def map_rows_def find_map_same assms)

lemma row_of_touch:
  "row_of k (snd (update_license_heartbeat g lid now d)) =
     map_option (\<lambda>x. if li_license_id x = lid \<and> g = None then x\<lparr>li_last_heartbeat := now\<rparr> else x) (row_of k d)"
  by (cases g) (simp_all add: update_license_heartbeat_def row_of_map_rows option.map_ident)

lemma row_of_status:
  "row_of k (snd (update_license_status g lid st d)) =
     map_option (\<lambda>x. if li_license_id x = lid \<and> g = None then x\<lparr>li_status := st\<rparr> else x) (row_of k d)"
  by (cases g) (simp_all add: update_license_status_def row_of_map_rows option.map_ident)

lemma row_of_log: "row_of k (snd (log_heartbeat g hb d)) = row_of k d"
  by (cases g) (simp_all add: log_heartbeat_def row_of_def)

lemma table_ok_log: "table_ok (snd (log_heartbeat g hb d)) = table_ok d"
  by (cases g) (simp_all add: log_heartbeat_def table_ok_def)

text \<open>The database after a heartbeat: the rows are the old ones but for two columns of one row.\<close>

definition beat_of :: "license \<Rightarrow> license \<Rightarrow> gotime \<Rightarrow> bool" where
  "beat_of l l' now \<longleftrightarrow> l' = l\<lparr>li_status := li_status l', li_last_heartbeat := li_last_heartbeat l'\<rparr> \<and>
     (li_last_heartbeat l' = li_last_heartbeat l \<or> li_last_heartbeat l' = now) \<and>
     (li_status l' = li_status l \<or>
      li_status l = ''active'' \<and> li_status l' = ''expired'' \<and> license_expired now l)"

lemma beat_of_refl: "beat_of l l now"
  by (simp add: beat_of_def)

lemma licence_for_row:
  assumes "table_ok d" "licence_for key d = Some l"
  shows "row_of (li_license_id l) d = Some l"
proof -
  have "l \<in> set (db_licenses d)"
    using assms(2) by (auto simp: licence_for_def row_of_def find_Some_iff split: option.splits)
  then show ?thesis using assms(1) find_id_mem unfolding table_ok_def row_of_def by blast
qed

lemma heartbeat_known:
  assumes "rq_method r = ''POST''" "hq_key q \<noteq> []" "hq_node q \<noteq> []" "hf_lookup f = None" "hf_fallback f = None"
    and "licence_for (hq_key q) d = Some l" "li_status l \<noteq> ''revoked''" "li_status l \<noteq> ''suspended''"
  shows "handle_heartbeat f r (Some q) now d =
    (let expired = license_expired now l; mark = expired \<and> li_status l = ''active'';
         l' = (if mark then l\<lparr>li_status := ''expired''\<rparr> else l);
         d1 = (if mark then snd (update_license_status (hf_status f) (li_license_id l) ''expired'' d) else d)
     in if binary_mismatch q l then (locked_response [] [] ''binary_integrity_mismatch'', d1)
        else answer_heartbeat f r q now expired l' d1)"
  using assms by (simp add: handle_heartbeat_def find_license_faultless binary_mismatch_def Let_def)

lemma heartbeat_refused:
  assumes "rq_method r = ''POST''" "hq_key q \<noteq> []" "hq_node q \<noteq> []" "hf_lookup f = None" "hf_fallback f = None"
    and "\<And>l. licence_for (hq_key q) d = Some l \<Longrightarrow> li_status l = ''revoked'' \<or> li_status l = ''suspended''"
  shows "handle_heartbeat f r (Some q) now d =
    ((case licence_for (hq_key q) d of None \<Rightarrow> locked_response [] [] []
      | Some l \<Rightarrow> if li_status l = ''revoked'' then locked_response ''revoked'' (li_plan l) ''license_revoked''
          else (200, Heartbeat_json \<lparr>hr_valid = False, hr_lock = False, hr_status = ''suspended'',
            hr_plan = li_plan l, hr_expires = None, hr_config = None, hr_reason = ''license_suspended''\<rparr>)), d)"
  using assms by (auto simp: handle_heartbeat_def find_license_faultless split: option.splits)

definition marked :: "fault \<Rightarrow> license \<Rightarrow> gotime \<Rightarrow> master_db \<Rightarrow> master_db" where
  "marked g l now d = (if license_expired now l \<and> li_status l = ''active''
     then snd (update_license_status g (li_license_id l) ''expired'' d) else d)"

lemma heartbeat_writes:
  assumes "d' = snd (handle_heartbeat f r body now d)"
  shows "d' = d \<or> (\<exists>q l. body = Some q \<and> licence_for (hq_key q) d = Some l \<and>
    (let d1 = marked (hf_status f) l now d in d' = d1 \<or> (\<exists>g hb. d' =
       snd (update_license_heartbeat (hf_touch f) (li_license_id l) now (snd (log_heartbeat g hb d1))))))"
proof (cases "\<exists>q l. rq_method r = ''POST'' \<and> body = Some q \<and> find_license f (hq_key q) d = Inr (Some l) \<and>
      li_status l \<noteq> ''revoked'' \<and> li_status l \<noteq> ''suspended'' \<and> hq_key q \<noteq> [] \<and> hq_node q \<noteq> []")
  case False
  then show ?thesis
    unfolding assms handle_heartbeat_def by (auto split: option.splits sum.splits)
next
  case True
  then obtain q l where q: "rq_method r = ''POST''" "body = Some q" "find_license f (hq_key q) d = Inr (Some l)"
    "li_status l \<noteq> ''revoked''" "li_status l \<noteq> ''suspended''" "hq_key q \<noteq> []" "hq_node q \<noteq> []" by blast
  have l: "licence_for (hq_key q) d = Some l"
    using q(3) by (auto simp: find_license_def get_license_by_key_def get_license_by_license_id_def
        failing_def licence_for_def row_of_def split: option.splits sum.splits)
  let ?exp = "license_expired now l"
  let ?l = "if ?exp \<and> li_status l = ''active'' then l\<lparr>li_status := ''expired''\<rparr> else l"
  have res: "handle_heartbeat f r body now d =
      (if binary_mismatch q l then (locked_response [] [] ''binary_integrity_mismatch'', marked (hf_status f) l now d)
       else answer_heartbeat f r q now ?exp ?l (marked (hf_status f) l now d))"
    using q by (simp add: handle_heartbeat_def binary_mismatch_def Let_def marked_def)
  have "li_license_id ?l = li_license_id l" by simp
  with answer_heartbeat_db [of f r q now ?exp ?l "marked (hf_status f) l now d"] q(2) l
  show ?thesis unfolding assms res Let_def by (cases "binary_mismatch q l") auto
qed

lemma row_of_marked:
  "row_of k (marked g l now d) = map_option (\<lambda>x. if license_expired now l \<and> li_status l = ''active'' \<and>
     li_license_id x = li_license_id l \<and> g = None then x\<lparr>li_status := ''expired''\<rparr> else x) (row_of k d)"
  by (cases "row_of k d") (simp_all add: row_of_status marked_def)

lemma table_ok_marked: "table_ok d \<Longrightarrow> table_ok (marked g l now d)"
  by (simp add: marked_def table_ok_updates(5))

lemma licence_for_key:
  assumes "table_ok d" "l \<in> set (db_licenses d)"
  shows "licence_for (li_key l) d = Some l"
  using assms find_unique [of li_key "db_licenses d" l] by (simp add: licence_for_def table_ok_def)

lemma row_unique:
  assumes "table_ok d" "licence_for key d = Some l" "row_of k d = Some x"
  shows "x = l \<or> li_license_id x \<noteq> li_license_id l"
  using licence_for_row [OF assms(1,2)] assms(3) licences.row_id [OF assms(1) assms(3)] by auto

subsection \<open>Properties of the heartbeat\<close>

definition beat_request :: http_request where
  "beat_request = (plain_get ''/api/v1/heartbeat'' ''10.0.0.1:4000'')\<lparr>rq_method := ''POST''\<rparr>"

definition beat_body :: "string \<Rightarrow> heartbeat_request" where
  "beat_body key = \<lparr>hq_key = key, hq_node = ''node'', hq_fp = []\<rparr>"

text \<open>
  C11. What the master answers a heartbeat, whatever fails among the writes. With the look-ups
  working, a well-formed heartbeat is answered valid exactly when the licence its key names (as
  a key, or else as a licence id) exists, is neither revoked nor suspended, has not passed its
  expiry, and does not have a fingerprint that differs from a reported one; and it is answered
  with a lock exactly when there is no such licence, it is revoked, or it is not suspended and
  the fingerprints differ. In particular a suspended or an expired licence never locks.
\<close>

theorem heartbeat_verdict:
  assumes "rq_method r = ''POST''" "hq_key q \<noteq> []" "hq_node q \<noteq> []" "hf_lookup f = None" "hf_fallback f = None"
  shows "\<exists>h. fst (handle_heartbeat f r (Some q) now d) = (200, Heartbeat_json h) \<and>
    (hr_valid h \<longleftrightarrow> (\<exists>l. licence_for (hq_key q) d = Some l \<and> li_status l \<noteq> ''revoked'' \<and>
       li_status l \<noteq> ''suspended'' \<and> \<not> license_expired now l \<and> \<not> binary_mismatch q l)) \<and>
    (hr_lock h \<longleftrightarrow> (case licence_for (hq_key q) d of None \<Rightarrow> True
       | Some l \<Rightarrow> li_status l = ''revoked'' \<or> li_status l \<noteq> ''suspended'' \<and> binary_mismatch q l))"
proof (cases "licence_for (hq_key q) d")
  case None
  then show ?thesis using heartbeat_refused [OF assms, of d now] by (simp add: locked_response_def)
next
  case (Some l)
  show ?thesis
  proof (cases "li_status l = ''revoked'' \<or> li_status l = ''suspended''")
    case True
    then show ?thesis using heartbeat_refused [OF assms, of d now] Some by (auto simp: locked_response_def)
  next
    case False
    then show ?thesis using heartbeat_known [OF assms Some] Some
      by (cases "binary_mismatch q l") (simp_all add: locked_response_def Let_def answer_heartbeat_eq)
  qed
qed

theorem heartbeat_verdict_witness:
  "\<exists>h. fst (handle_heartbeat no_faults beat_request (Some (beat_body ''L3'')) 5000 sample_db) = (200, Heartbeat_json h) \<and>
    (hr_valid h \<longleftrightarrow> (\<exists>l. licence_for ''L3'' sample_db = Some l \<and> li_status l \<noteq> ''revoked'' \<and>
       li_status l \<noteq> ''suspended'' \<and> \<not> license_expired 5000 l \<and> \<not> binary_mismatch (beat_body ''L3'') l)) \<and>
    (hr_lock h \<longleftrightarrow> (case licence_for ''L3'' sample_db of None \<Rightarrow> True
       | Some l \<Rightarrow> li_status l = ''revoked'' \<or> li_status l \<noteq> ''suspended'' \<and> binary_mismatch (beat_body ''L3'') l))"
  using heartbeat_verdict [of beat_request "beat_body ''L3''" no_faults 5000 sample_db]
  by (simp add: beat_request_def beat_body_def no_faults_def plain_get_def)

text \<open>
  A heartbeat changes at most two columns of one row. Whatever the request, the clock and
  the faults of the statements, the licence table stays well formed, no licence appears or
  vanishes, and a row that changes is the row of the licence the request's key names: its last
  heartbeat may become now, and its status may go from active to expired when its expiry has
  passed. Plan, expiry, key and fingerprint are never touched.
\<close>

theorem heartbeat_changes:
  assumes "table_ok d"
  shows "case handle_heartbeat f r body now d of (_, d') \<Rightarrow> table_ok d' \<and>
    (\<forall>k. rel_option (\<lambda>l l'. beat_of l l' now \<and>
        (l' \<noteq> l \<longrightarrow> (\<exists>q. body = Some q \<and> licence_for (hq_key q) d = Some l))) (row_of k d) (row_of k d'))"
proof -
  define d' where "d' = snd (handle_heartbeat f r body now d)"
  from heartbeat_writes [OF d'_def] consider "d' = d"
    | q l where "body = Some q" "licence_for (hq_key q) d = Some l" "d' = marked (hf_status f) l now d"
    | q l g hb where "body = Some q" "licence_for (hq_key q) d = Some l" "d' = snd (update_license_heartbeat
        (hf_touch f) (li_license_id l) now (snd (log_heartbeat g hb (marked (hf_status f) l now d))))"
    unfolding Let_def by blast
  then have "table_ok d' \<and> (\<forall>k. rel_option (\<lambda>l l'. beat_of l l' now \<and>
        (l' \<noteq> l \<longrightarrow> (\<exists>q. body = Some q \<and> licence_for (hq_key q) d = Some l))) (row_of k d) (row_of k d'))"
  proof cases
    case 1
    then show ?thesis using assms by (simp add: option.rel_refl beat_of_refl)
  next
    case 2
    have "rel_option (\<lambda>x x'. beat_of x x' now \<and> (x' \<noteq> x \<longrightarrow> licence_for (hq_key q) d = Some x))
        (row_of k d) (row_of k d')" for k
      using row_unique [OF assms 2(2), of k] 2(2) unfolding 2(3) row_of_marked
      by (cases "row_of k d") (auto simp: beat_of_def)
    with 2 show ?thesis by (simp add: table_ok_marked assms)
  next
    case 3
    have "rel_option (\<lambda>x x'. beat_of x x' now \<and> (x' \<noteq> x \<longrightarrow> licence_for (hq_key q) d = Some x))
        (row_of k d) (row_of k d')" for k
      using row_unique [OF assms 3(2), of k] 3(2) unfolding 3(3) row_of_touch row_of_log row_of_marked
      by (cases "row_of k d") (auto simp: beat_of_def)
    with 3 show ?thesis by (simp add: table_ok_marked assms table_ok_log table_ok_updates(4))
  qed
  then show ?thesis by (simp add: d'_def case_prod_unfold)
qed

theorem heartbeat_changes_witness:
  "case handle_heartbeat no_faults beat_request (Some (beat_body ''K1'')) 5000 sample_db of (_, d') \<Rightarrow> table_ok d' \<and>
    (\<forall>k. rel_option (\<lambda>l l'. beat_of l l' 5000 \<and>
        (l' \<noteq> l \<longrightarrow> (\<exists>q. Some (beat_body ''K1'') = Some q \<and> licence_for (hq_key q) sample_db = Some l)))
      (row_of k sample_db) (row_of k d'))"
  by (rule heartbeat_changes [OF sample_db_ok])

text \<open>
  The timeout answer 503 is unreachable. The heartbeat and the update check answer it only
  on an error that is the context's own, and every method of the database wraps the error it
  returns: whatever the statements fail with, deadline exceeded included, no heartbeat and no
  update check is answered with status 503; and a look-up that runs out of time is answered
  with 500.
\<close>

theorem timeouts_never_reported:
  "fst (fst (handle_heartbeat f r body now d)) \<noteq> 503 \<and> fst (handle_update_check g r ubody d) \<noteq> 503 \<and>
   fst (handle_heartbeat (f\<lparr>hf_lookup := Some Deadline_exceeded\<rparr>)
     (r\<lparr>rq_method := ''POST''\<rparr>) (Some \<lparr>hq_key = ''K'', hq_node = ''n'', hq_fp = []\<rparr>) now d) = internal_error"
proof (intro conjI)
  show "fst (fst (handle_heartbeat f r body now d)) \<noteq> 503"
    by (auto simp: handle_heartbeat_def not_allowed_def bad_payload_def locked_response_def internal_error_def
        answer_heartbeat_eq Let_def dest: wrapped_errors(3) split: option.splits sum.splits if_splits)
  show "fst (handle_update_check g r ubody d) \<noteq> 503"
    by (auto simp: handle_update_check_def not_allowed_def bad_payload_def internal_error_def
        dest: wrapped_errors(4) split: option.splits sum.splits if_splits)
qed (simp add: handle_heartbeat_def find_license_def get_license_by_key_def failing_def is_context_timeout_def)

text \<open>
  A revocation does not outlive the paid period. A revoked licence on a paid plan with an
  expiry is locked by every heartbeat, and the expiry check at any instant from its expiry on
  turns it into a perpetual community licence with status downgraded, after which every
  heartbeat whose fingerprint does not contradict the row's is answered valid and unlocked.
\<close>

theorem revocation_ends_with_expiry:
  assumes "table_ok d" "licence_for key d = Some l" "li_status l = ''revoked''" "li_plan l \<noteq> ''community''"
    and "\<not> is_zero_time (li_expires l)" "li_expires l \<le> t" "key = li_key l" "key \<noteq> []" "node \<noteq> []"
    and "rq_method r = ''POST''" "li_fingerprint l = [] \<or> fp = [] \<or> fp = li_fingerprint l"
  shows "(\<exists>h. fst (handle_heartbeat no_faults r (Some \<lparr>hq_key = key, hq_node = node, hq_fp = fp\<rparr>) now d) =
      (200, Heartbeat_json h) \<and> hr_lock h) \<and>
    (\<exists>es d' h'. check_expiry db_store rec None t (d, h0) = ((es, None), (d', h')) \<and>
      (\<exists>h. fst (handle_heartbeat no_faults r (Some \<lparr>hq_key = key, hq_node = node, hq_fp = fp\<rparr>) later d') =
        (200, Heartbeat_json h) \<and> hr_valid h \<and> \<not> hr_lock h \<and> hr_status h = ''downgraded''))"
proof (intro conjI)
  let ?q = "\<lparr>hq_key = key, hq_node = node, hq_fp = fp\<rparr>"
  show "\<exists>h. fst (handle_heartbeat no_faults r (Some ?q) now d) = (200, Heartbeat_json h) \<and> hr_lock h"
    using heartbeat_refused [of r ?q no_faults d now] assms by (simp add: no_faults_def locked_response_def)
  obtain es d' h' where c: "check_expiry db_store rec None t (d, h0) = ((es, None), (d', h'))" "table_ok d'"
    "\<And>k. row_of k d' = map_option (\<lambda>l. if due t l then downgraded l else l) (row_of k d)"
    using licences.check_expiry_full [OF assms(1), of rec t h0] by blast
  have "due t l" using assms(3-6) by (simp add: due_def time_after_def)
  then have "row_of (li_license_id l) d' = Some (downgraded l)"
    using licence_for_row [OF assms(1,2)] by (simp add: c(3))
  then have "downgraded l \<in> set (db_licenses d')" by (auto simp: row_of_def find_Some_iff)
  then have lf: "licence_for key d' = Some (downgraded l)"
    using licence_for_key [OF c(2)] assms(7) by (fastforce simp: downgraded_def)
  have "\<not> binary_mismatch ?q (downgraded l)" "\<not> license_expired later (downgraded l)"
    using assms(11) by (auto simp: binary_mismatch_def downgraded_def license_expired_def is_zero_time_def)
  then have "\<exists>h. fst (handle_heartbeat no_faults r (Some ?q) later d') = (200, Heartbeat_json h) \<and> hr_valid h \<and>
      \<not> hr_lock h \<and> hr_status h = ''downgraded''"
    using heartbeat_known [of r ?q no_faults d' "downgraded l" later] lf assms(8-10)
    by (simp add: no_faults_def answer_heartbeat_eq) (simp add: downgraded_def)
  with c(1) show "\<exists>es d' h'. check_expiry db_store rec None t (d, h0) = ((es, None), (d', h')) \<and>
      (\<exists>h. fst (handle_heartbeat no_faults r (Some ?q) later d') =
        (200, Heartbeat_json h) \<and> hr_valid h \<and> \<not> hr_lock h \<and> hr_status h = ''downgraded'')" by blast
qed

theorem revocation_ends_with_expiry_witness:
  "(\<exists>h. fst (handle_heartbeat no_faults beat_request (Some \<lparr>hq_key = ''K1'', hq_node = ''n'', hq_fp = []\<rparr>) 10
      (snd (revoke_license None 1 sample_db))) = (200, Heartbeat_json h) \<and> hr_lock h) \<and>
    (\<exists>es d' h'. check_expiry db_store (None :: unit history) None 1000 (snd (revoke_license None 1 sample_db), ()) =
        ((es, None), (d', h')) \<and>
      (\<exists>h. fst (handle_heartbeat no_faults beat_request (Some \<lparr>hq_key = ''K1'', hq_node = ''n'', hq_fp = []\<rparr>) 2000 d') =
        (200, Heartbeat_json h) \<and> hr_valid h \<and> \<not> hr_lock h \<and> hr_status h = ''downgraded''))"
  by (rule revocation_ends_with_expiry [where l = "sample_license\<lparr>li_status := ''revoked''\<rparr>"])
     (simp add: table_ok_updates(3) sample_db_ok,
      simp_all add: licence_for_def revoke_license_def has_row_def map_rows_def sample_db_def sample_license_def
       beat_request_def is_zero_time_def zero_time_def nanos_def)

subsection \<open>Registration\<close>

fun register_run :: "(string \<times> gotime) list \<Rightarrow> register_limiter \<Rightarrow> bool list \<times> register_limiter" where
  "register_run [] rl = ([], rl)"
| "register_run ((ip, t) # rs) rl =
     (let (ok, rl') = register_allow ip t rl; (oks, rl'') = register_run rs rl' in (ok # oks, rl''))"

definition granted :: "string \<Rightarrow> (string \<times> gotime) list \<Rightarrow> register_limiter \<Rightarrow> nat" where
  "granted ip rs rl = length (filter (\<lambda>((i, _), ok). i = ip \<and> ok) (zip rs (fst (register_run rs rl))))"

definition asked :: "string \<Rightarrow> (string \<times> gotime) list \<Rightarrow> nat" where
  "asked ip rs = length (filter (\<lambda>(i, _). i = ip) rs)"

lemma asked_simps [simp]: "asked ip [] = 0" "asked ip ((i, t) # rs) = (if i = ip then 1 else 0) + asked ip rs"
  by (auto simp: asked_def)

lemma granted_Cons:
  "granted ip ((i, t) # rs) rl = (if i = ip \<and> fst (register_allow i t rl) then 1 else 0) +
     granted ip rs (snd (register_allow i t rl))"
  by (auto simp: granted_def Let_def case_prod_unfold)

lemma register_allow_other:
  "ip \<noteq> i \<Longrightarrow> rr_entries (snd (register_allow i t rl)) ip = rr_entries rl ip"
  "rr_limit (snd (register_allow i t rl)) = rr_limit rl" "rr_window (snd (register_allow i t rl)) = rr_window rl"
  by (auto simp: register_allow_def Let_def split: option.splits)

text \<open>Within the window that is open, the entry counts what was granted and stops at the limit.\<close>

lemma granted_window:
  assumes "rr_entries rl ip = Some e" "\<forall>(i, t)\<in>set rs. t \<le> re_reset e"
  shows "int (granted ip rs rl) = max 0 (min (int (asked ip rs)) (rr_limit rl - re_count e))"
  using assms
proof (induction rs arbitrary: rl e)
  case Nil
  then show ?case by (simp add: granted_def)
next
  case (Cons x rs)
  obtain i t where x: "x = (i, t)" by (cases x)
  show ?case
  proof (cases "i = ip")
    case False
    then show ?thesis using Cons.IH [of "snd (register_allow i t rl)" e] Cons.prems
      by (simp add: x granted_Cons register_allow_other)
  next
    case True
    have t: "\<not> time_after t (re_reset e)" using Cons.prems(2) by (simp add: x time_after_def not_less)
    show ?thesis
    proof (cases "rr_limit rl \<le> re_count e")
      case le: True
      then have "register_allow ip t rl = (False, rl)" using Cons.prems(1) t by (simp add: register_allow_def)
      then show ?thesis using Cons.IH [of rl e] Cons.prems True le by (simp add: x granted_Cons)
    next
      case lt: False
      let ?e = "e\<lparr>re_count := re_count e + 1\<rparr>"
      have a: "register_allow ip t rl = (True, rl\<lparr>rr_entries := (rr_entries rl)(ip \<mapsto> ?e)\<rparr>)"
        using Cons.prems(1) t lt by (simp add: register_allow_def)
      have "int (granted ip rs (rl\<lparr>rr_entries := (rr_entries rl)(ip \<mapsto> ?e)\<rparr>)) =
          max 0 (min (int (asked ip rs)) (rr_limit rl - re_count ?e))"
        using Cons.IH [of "rl\<lparr>rr_entries := (rr_entries rl)(ip \<mapsto> ?e)\<rparr>" ?e] Cons.prems(2) by simp
      then show ?thesis using True lt by (simp add: x granted_Cons a max_def min_def)
    qed
  qed
qed

text \<open>
  The registration limiter grants an address exactly its limit per window. From the first
  request of an address the limiter has no open window for, at instant t, and for any requests
  of any addresses that follow no later than t plus the window, the address is granted its
  first \<open>limit\<close> requests and no other, whatever the other addresses do; and a request after
  the window is granted again.
\<close>

theorem registrations_limited:
  assumes "rr_entries rl ip = None \<or> (\<exists>e. rr_entries rl ip = Some e \<and> re_reset e < t)"
    and "1 \<le> rr_limit rl" "\<forall>(i, u)\<in>set rs. u \<le> t + rr_window rl"
  shows "int (granted ip ((ip, t) # rs) rl) = min (int (asked ip ((ip, t) # rs))) (rr_limit rl) \<and>
    (t + rr_window rl < u \<longrightarrow> fst (register_allow ip u (snd (register_allow ip t rl))))"
proof -
  let ?e = "\<lparr>re_count = 1, re_reset = t + rr_window rl\<rparr>"
  have a: "register_allow ip t rl = (True, rl\<lparr>rr_entries := (rr_entries rl)(ip \<mapsto> ?e)\<rparr>)"
    using assms(1) by (auto simp: register_allow_def time_after_def time_add_def Let_def)
  have "int (granted ip rs (rl\<lparr>rr_entries := (rr_entries rl)(ip \<mapsto> ?e)\<rparr>)) =
      max 0 (min (int (asked ip rs)) (rr_limit rl - 1))"
    using granted_window [of "rl\<lparr>rr_entries := (rr_entries rl)(ip \<mapsto> ?e)\<rparr>" ip ?e rs] assms(3) by simp
  then have "int (granted ip ((ip, t) # rs) rl) = min (int (asked ip ((ip, t) # rs))) (rr_limit rl)"
    using assms(2) by (simp add: granted_Cons a max_def min_def)
  moreover have "fst (register_allow ip u (snd (register_allow ip t rl)))" if "t + rr_window rl < u"
    unfolding a using that by (simp add: register_allow_def time_after_def Let_def)
  ultimately show ?thesis by blast
qed

theorem registrations_limited_witness:
  "int (granted ''a'' ((''a'', 5) # [(''b'', 6), (''a'', 7), (''a'', 8), (''a'', 9)]) (new_register_limiter 3 100)) =
     min (int (asked ''a'' ((''a'', 5) # [(''b'', 6), (''a'', 7), (''a'', 8), (''a'', 9)])))
       (rr_limit (new_register_limiter 3 100)) \<and>
   fst (register_allow ''a'' 200 (snd (register_allow ''a'' 5 (new_register_limiter 3 100))))"
  using registrations_limited [of "new_register_limiter 3 100" "''a''" 5
      "[(''b'', 6), (''a'', 7), (''a'', 8), (''a'', 9)]" 200]
  by (simp add: new_register_limiter_def)

end
