(* ===== verification/AdminAuth.thy ===== *)
theory AdminAuth
  imports MasterApi
begin

text \<open>
  The guards of the master's admin panel, \<^verbatim>\<open>internal/master/handlers/admin_auth.go\<close>: the address
  allowlist, the brute-force check, the session check, login and logout. A middleware is a
  function of the handler it wraps. The random token of a session is an argument, \<open>None\<close> when
  the generator fails; the constant-time comparison of the key is equality. Pages are kept as
  the data they are rendered from, redirects with the kind of message they carry.
\<close>

record admin_config =
  ac_key :: string
  ac_allowed :: "string list"
  ac_ttl :: duration

datatype set_cookie = Set_session string int | Clear_session

record dashboard_stats =
  ds_licenses :: nat
  ds_active :: nat
  ds_suspended :: nat
  ds_revoked :: nat
  ds_expired :: nat
  ds_recent :: nat

datatype admin_page = Login_form | Login_failed | Dashboard dashboard_stats "heartbeat list"
  | Licence_list "license list" | Licence_form "license option" | Release_list "release list"
  | Release_form | Heartbeat_list "heartbeat list"

datatype admin_response = Status_text int string | Page int admin_page
  | See_other string "set_cookie option" | Flash string bool

text \<open>What the statements of one admin request fail with.\<close>

record admin_faults =
  af_count :: fault
  af_lock :: fault
  af_session :: fault
  af_attempt :: fault
  af_create :: fault
  af_read :: fault
  af_read2 :: fault
  af_read3 :: fault
  af_write :: fault

definition no_admin_faults :: admin_faults where
  "no_admin_faults = \<lparr>af_count = None, af_lock = None, af_session = None, af_attempt = None,
     af_create = None, af_read = None, af_read2 = None, af_read3 = None, af_write = None\<rparr>"

record admin_request =
  aq_http :: http_request
  aq_session :: "string option"
  aq_form :: "(string \<Rightarrow> string option) option"

type_synonym admin_handler = "admin_request \<Rightarrow> gotime \<Rightarrow> master_db \<Rightarrow> admin_response \<times> master_db"

definition form_value :: "(string \<Rightarrow> string option) \<Rightarrow> string \<Rightarrow> string" where
  "form_value form k = (case form k of None \<Rightarrow> [] | Some v \<Rightarrow> v)"

definition not_found :: admin_response where "not_found = Status_text 404 ''404 page not found''"

definition server_error :: admin_response where "server_error = Status_text 500 ''internal server error''"

definition method_refused :: admin_response where "method_refused = Status_text 405 ''method not allowed''"

subsection \<open>Middlewares\<close>

definition is_ip_allowed :: "string \<Rightarrow> string list \<Rightarrow> bool" where
  "is_ip_allowed ip allowed \<longleftrightarrow> allowed = [] \<or> list_ex (\<lambda>a. a = ip) allowed"

definition admin_ip_allowlist :: "admin_config \<Rightarrow> admin_handler \<Rightarrow> admin_handler" where
  "admin_ip_allowlist cfg next_handler r now d =
     (if is_ip_allowed (master_client_ip (aq_http r)) (ac_allowed cfg) then next_handler r now d
      else (not_found, d))"

definition admin_brute_force :: "admin_faults \<Rightarrow> admin_handler \<Rightarrow> admin_handler" where
  "admin_brute_force f next_handler r now d =
     (let ip = master_client_ip (aq_http r) in
      case count_failed_attempts (af_count f) ip (time_add now (- minutes 10)) d of
        Inl _ \<Rightarrow> (server_error, d)
      | Inr n \<Rightarrow>
          if 5 \<le> n then
            (case count_failed_attempts (af_lock f) ip (time_add now (- minutes 30)) d of
               Inl _ \<Rightarrow> (server_error, d)
             | Inr m \<Rightarrow> if 5 \<le> m then (Status_text 429 ''too many failed attempts, try again later'', d)
                 else next_handler r now d)
          else next_handler r now d)"

definition admin_session_check :: "admin_faults \<Rightarrow> admin_handler \<Rightarrow> admin_handler" where
  "admin_session_check f next_handler r now d =
     (case aq_session r of
        None \<Rightarrow> (See_other ''/admin/login'' None, d)
      | Some token \<Rightarrow>
          if token = [] then (See_other ''/admin/login'' None, d)
          else case get_session_by_token (af_session f) token now d of
            Inl _ \<Rightarrow> (See_other ''/admin/login'' None, d)
          | Inr None \<Rightarrow> (See_other ''/admin/login'' (Some Clear_session), d)
          | Inr (Some _) \<Rightarrow> next_handler r now d)"

subsection \<open>Login and logout\<close>

definition handle_admin_login :: "admin_faults \<Rightarrow> u8 list option \<Rightarrow> admin_config \<Rightarrow> admin_handler" where
  "handle_admin_login f token_bytes cfg r now d =
     (if rq_method (aq_http r) = ''GET'' then (Page 200 Login_form, d)
      else if rq_method (aq_http r) \<noteq> ''POST'' then (method_refused, d)
      else case aq_form r of
        None \<Rightarrow> (Status_text 400 ''bad request'', d)
      | Some form \<Rightarrow>
          let ip = master_client_ip (aq_http r) in
          if form_value form ''admin_key'' \<noteq> ac_key cfg
          then (Page 401 Login_failed, snd (log_login_attempt (af_attempt f) ip False now d))
          else let d1 = snd (log_login_attempt (af_attempt f) ip True now d) in
            case token_bytes of
              None \<Rightarrow> (server_error, d1)
            | Some tb \<Rightarrow>
                let token = hex_encode tb;
                    ttl = (if ac_ttl cfg = 0 then 43200 * nanos else ac_ttl cfg);
                    session = \<lparr>as_token = token, as_ip = ip, as_created = now, as_expires = time_add now ttl\<rparr>
                in case create_session (af_create f) session d1 of
                     (Inl _, d2) \<Rightarrow> (server_error, d2)
                   | (Inr _, d2) \<Rightarrow> (See_other ''/admin/'' (Some (Set_session token (go_div ttl nanos))), d2))"

definition handle_admin_logout :: "admin_faults \<Rightarrow> admin_handler" where
  "handle_admin_logout f r now d =
     (if rq_method (aq_http r) \<noteq> ''POST'' then (method_refused, d)
      else let d' = (case aq_session r of
             None \<Rightarrow> d | Some t \<Rightarrow> if t = [] then d else snd (delete_session (af_write f) t d))
        in (See_other ''/admin/login'' (Some Clear_session), d'))"

definition login_route :: "admin_faults \<Rightarrow> u8 list option \<Rightarrow> admin_config \<Rightarrow> admin_handler" where
  "login_route f token_bytes cfg =
     admin_ip_allowlist cfg (admin_brute_force f (handle_admin_login f token_bytes cfg))"

definition session_protected :: "admin_faults \<Rightarrow> admin_config \<Rightarrow> admin_handler \<Rightarrow> admin_handler" where
  "session_protected f cfg h = admin_ip_allowlist cfg (admin_session_check f h)"

subsection \<open>Runs of logins and logouts\<close>

text \<open>
  The requests that touch the sessions and the attempts, in the order in which they are served.
\<close>

datatype admin_event = Login admin_faults "u8 list option" admin_request gotime
  | Logout admin_faults admin_request gotime

fun admin_step :: "admin_config \<Rightarrow> admin_event \<Rightarrow> master_db \<Rightarrow> master_db" where
  "admin_step cfg (Login f tb r t) d = snd (login_route f tb cfg r t d)"
| "admin_step cfg (Logout f r t) d = snd (session_protected f cfg (handle_admin_logout f) r t d)"

definition admin_run :: "admin_config \<Rightarrow> admin_event list \<Rightarrow> master_db \<Rightarrow> master_db" where
  "admin_run cfg es d = fold (admin_step cfg) es d"

lemma admin_run_snoc: "admin_run cfg (es @ [e]) d = admin_step cfg e (admin_run cfg es d)"
  by (simp add: admin_run_def)

definition session_ttl :: "admin_config \<Rightarrow> duration" where
  "session_ttl cfg = (if ac_ttl cfg = 0 then 43200 * nanos else ac_ttl cfg)"

definition right_key :: "admin_config \<Rightarrow> admin_request \<Rightarrow> bool" where
  "right_key cfg r \<longleftrightarrow> (\<exists>form. aq_form r = Some form \<and> form_value form ''admin_key'' = ac_key cfg)"

lemma sessions_of_attempt: "db_sessions (snd (log_login_attempt f ip ok now d)) = db_sessions d"
  by (simp add: log_login_attempt_def split: option.split)

lemma sessions_of_create:
  "s \<in> set (db_sessions (snd (create_session f x d))) \<Longrightarrow> s \<in> set (db_sessions d) \<or> s = x"
  by (auto simp: create_session_def split: option.splits if_splits)

text \<open>A session a login adds carries the token it drew, and the login had the right key.\<close>

lemma login_adds:
  assumes "s \<in> set (db_sessions (snd (login_route f tb cfg r t d)))" "s \<notin> set (db_sessions d)"
  shows "\<exists>b. tb = Some b \<and> as_token s = hex_encode b \<and> as_created s = t \<and> as_expires s = t + session_ttl cfg \<and>
    right_key cfg r \<and> is_ip_allowed (master_client_ip (aq_http r)) (ac_allowed cfg)"
proof -
  let ?h = "handle_admin_login f tb cfg r t d"
  have route: "is_ip_allowed (master_client_ip (aq_http r)) (ac_allowed cfg)" "s \<in> set (db_sessions (snd ?h))"
    using assms by (auto simp: login_route_def admin_ip_allowlist_def admin_brute_force_def Let_def
        split: if_splits sum.splits)
  obtain form where form: "aq_form r = Some form" "form_value form ''admin_key'' = ac_key cfg"
    using route(2) assms(2) by (auto simp: handle_admin_login_def Let_def sessions_of_attempt split: if_splits option.splits)
  obtain b where b: "tb = Some b"
    using route(2) assms(2) form by (auto simp: handle_admin_login_def Let_def sessions_of_attempt split: if_splits option.splits)
  let ?s = "\<lparr>as_token = hex_encode b, as_ip = master_client_ip (aq_http r), as_created = t,
    as_expires = time_add t (if ac_ttl cfg = 0 then 43200 * nanos else ac_ttl cfg)\<rparr>"
  let ?d1 = "snd (log_login_attempt (af_attempt f) (master_client_ip (aq_http r)) True t d)"
  have "snd ?h = d \<or> snd ?h = snd (create_session (af_create f) ?s ?d1)"
    using form b by (auto simp: handle_admin_login_def Let_def case_prod_unfold split: sum.splits)
  then have "s = ?s" using route(2) assms(2) sessions_of_create [of s "af_create f" ?s ?d1]
    by (auto simp: sessions_of_attempt)
  then show ?thesis using route(1) form b by (auto simp: right_key_def session_ttl_def time_add_def)
qed

lemma logout_keeps: "s \<in> set (db_sessions (snd (session_protected f cfg (handle_admin_logout f) r t d))) \<Longrightarrow>
  s \<in> set (db_sessions d)"
  by (auto simp: session_protected_def admin_ip_allowlist_def admin_session_check_def handle_admin_logout_def
      delete_session_def Let_def split: if_splits option.splits sum.splits)

lemma session_from_login:
  assumes "s \<in> set (db_sessions (admin_run cfg es d))" "db_sessions d = []"
  shows "\<exists>f b r t. Login f (Some b) r t \<in> set es \<and> as_token s = hex_encode b \<and>
    as_expires s = t + session_ttl cfg \<and> right_key cfg r \<and>
    is_ip_allowed (master_client_ip (aq_http r)) (ac_allowed cfg)"
  using assms(1)
proof (induction es rule: rev_induct)
  case Nil
  then show ?case using assms(2) by (simp add: admin_run_def)
next
  case (snoc e es)
  show ?case
  proof (cases "s \<in> set (db_sessions (admin_run cfg es d))")
    case True
    then show ?thesis using snoc.IH by fastforce
  next
    case False
    show ?thesis
    proof (cases e)
      case (Login f tb r t)
      then show ?thesis using login_adds [of s f tb cfg r t "admin_run cfg es d"] snoc.prems False
        by (auto simp: admin_run_snoc)
    next
      case (Logout f r t)
      then show ?thesis using logout_keeps snoc.prems False by (auto simp: admin_run_snoc)
    qed
  qed
qed

subsection \<open>Properties of the guards\<close>

definition login_request :: "string \<Rightarrow> admin_request" where
  "login_request key = \<lparr>aq_http = (plain_get ''/admin/login'' ''10.0.0.9:5000'')\<lparr>rq_method := ''POST''\<rparr>,
     aq_session = None, aq_form = Some (\<lambda>k. if k = ''admin_key'' then Some key else None)\<rparr>"

definition empty_db :: master_db where
  "empty_db = \<lparr>db_licenses = [], db_next_id = 1, db_releases = [], db_next_release = 1, db_heartbeats = [],
     db_attempts = [], db_sessions = []\<rparr>"

definition sample_admin :: admin_config where
  "sample_admin = \<lparr>ac_key = ''secret'', ac_allowed = [], ac_ttl = 0\<rparr>"

text \<open>
  The panel opens only to a session a login made. From a database without sessions, after
  any run of logins and logouts, with any faults: a request to a session-protected handler is
  refused (404, or a redirect to the login page) without running the handler and without any
  change, unless it comes from an allowed address with a token that a login of the run drew,
  which sent the right key from an allowed address, less than the session's lifetime ago.
\<close>

theorem panel_needs_login:
  assumes "db_sessions d = []"
  shows "is_ip_allowed (master_client_ip (aq_http r)) (ac_allowed cfg) \<and>
    (\<exists>g b q t. Login g (Some b) q t \<in> set es \<and> aq_session r = Some (hex_encode b) \<and> right_key cfg q \<and>
       is_ip_allowed (master_client_ip (aq_http q)) (ac_allowed cfg) \<and> now < t + session_ttl cfg) \<or>
    (\<forall>h. \<exists>refusal\<in>{not_found, See_other ''/admin/login'' None, See_other ''/admin/login'' (Some Clear_session)}.
       session_protected f cfg h r now (admin_run cfg es d) = (refusal, admin_run cfg es d))"
proof (cases "is_ip_allowed (master_client_ip (aq_http r)) (ac_allowed cfg) \<and>
    (\<exists>token s. aq_session r = Some token \<and>
      get_session_by_token (af_session f) token now (admin_run cfg es d) = Inr (Some s))")
  case True
  then obtain s where s: "s \<in> set (db_sessions (admin_run cfg es d))" "now < as_expires s"
    "aq_session r = Some (as_token s)"
    by (auto simp: get_session_by_token_def failing_def split: option.splits dest!: find_SomeD)
  then show ?thesis using session_from_login [OF s(1) assms] True by auto
next
  case False
  then have "\<exists>refusal\<in>{not_found, See_other ''/admin/login'' None, See_other ''/admin/login'' (Some Clear_session)}.
      session_protected f cfg h r now (admin_run cfg es d) = (refusal, admin_run cfg es d)" for h
    by (auto simp: session_protected_def admin_ip_allowlist_def admin_session_check_def
        split: option.split sum.split)
  then show ?thesis by blast
qed

theorem panel_needs_login_witness:
  "let es = [Login no_admin_faults (Some [1, 2]) (login_request ''secret'') 0,
             Login no_admin_faults (Some [3, 4]) (login_request ''wrong'') 1];
       r = (login_request [])\<lparr>aq_session := Some (hex_encode [3, 4])\<rparr> in
   is_ip_allowed (master_client_ip (aq_http r)) (ac_allowed sample_admin) \<and>
    (\<exists>g b q t. Login g (Some b) q t \<in> set es \<and> aq_session r = Some (hex_encode b) \<and> right_key sample_admin q \<and>
       is_ip_allowed (master_client_ip (aq_http q)) (ac_allowed sample_admin) \<and> 5 < t + session_ttl sample_admin) \<or>
    (\<forall>h. \<exists>refusal\<in>{not_found, See_other ''/admin/login'' None, See_other ''/admin/login'' (Some Clear_session)}.
       session_protected no_admin_faults sample_admin h r 5 (admin_run sample_admin es empty_db) =
         (refusal, admin_run sample_admin es empty_db))"
  unfolding Let_def by (rule panel_needs_login) (simp add: empty_db_def)

subsection \<open>Wrong keys\<close>

lemma brute_force_eq:
  assumes "af_count f = None" "af_lock f = None"
  shows "admin_brute_force f h r now d =
    (if 5 \<le> failed_since (master_client_ip (aq_http r)) (now - 600 * nanos) d
     then (Status_text 429 ''too many failed attempts, try again later'', d) else h r now d)"
proof -
  let ?ip = "master_client_ip (aq_http r)"
  have m: "time_add now (- minutes 10) = now - 600 * nanos" "time_add now (- minutes 30) = now - 1800 * nanos"
    by (simp_all add: time_add_def minutes_eq nanos_def)
  have "failed_since ?ip (now - 600 * nanos) d \<le> failed_since ?ip (now - 1800 * nanos) d"
    unfolding failed_since_def by (rule length_filter_imp) (auto simp: nanos_def)
  then show ?thesis using assms
    by (simp add: admin_brute_force_def count_failed_attempts_def failing_def m)
qed

text \<open>The failures of an address between two instants that the attempts of a database record.\<close>

definition failures_between :: "string \<Rightarrow> gotime \<Rightarrow> gotime \<Rightarrow> master_db \<Rightarrow> nat" where
  "failures_between ip a b d = length (filter (\<lambda>x. la_ip x = ip \<and> \<not> la_success x \<and> a \<le> la_at x \<and> la_at x \<le> b) (db_attempts d))"

definition attempts_until :: "gotime \<Rightarrow> master_db \<Rightarrow> bool" where
  "attempts_until t d \<longleftrightarrow> (\<forall>x\<in>set (db_attempts d). la_at x \<le> t)"

fun event_time :: "admin_event \<Rightarrow> gotime" where
  "event_time (Login f tb r t) = t"
| "event_time (Logout f r t) = t"

fun counts_work :: "admin_event \<Rightarrow> bool" where
  "counts_work (Login f tb r t) \<longleftrightarrow> af_count f = None \<and> af_lock f = None"
| "counts_work (Logout f r t) \<longleftrightarrow> True"

lemma attempts_of_create: "db_attempts (snd (create_session f x d)) = db_attempts d"
  by (simp add: create_session_def split: option.split)

lemma attempts_of_login: "db_attempts (snd (handle_admin_login f tb cfg r t d)) = db_attempts d \<or>
  (\<exists>ok. db_attempts (snd (handle_admin_login f tb cfg r t d)) =
     db_attempts d @ [\<lparr>la_ip = master_client_ip (aq_http r), la_success = ok, la_at = t\<rparr>])"
  by (auto simp: handle_admin_login_def Let_def log_login_attempt_def create_session_def case_prod_unfold
      split: option.split)

lemma attempts_of_step:
  "counts_work e \<Longrightarrow> db_attempts (admin_step cfg e d) = db_attempts d \<or>
   (\<exists>ip ok. db_attempts (admin_step cfg e d) = db_attempts d @ [\<lparr>la_ip = ip, la_success = ok, la_at = event_time e\<rparr>] \<and>
      failed_since ip (event_time e - 600 * nanos) d < 5)"
proof (induction e)
  case (Login f tb r t)
  then show ?case using attempts_of_login [of f tb cfg r t d]
    by (auto simp: login_route_def admin_ip_allowlist_def brute_force_eq)
next
  case (Logout f r t)
  have "db_attempts (snd (session_protected f cfg (handle_admin_logout f) r t d)) = db_attempts d"
    by (auto simp: session_protected_def admin_ip_allowlist_def admin_session_check_def handle_admin_logout_def
      delete_session_def Let_def split: option.split sum.split)
  then show ?case by simp
qed

lemma attempts_until_run:
  assumes "\<forall>e\<in>set es. counts_work e \<and> event_time e \<le> t" "db_attempts d = []"
  shows "attempts_until t (admin_run cfg es d)"
  using assms(1)
proof (induction es rule: rev_induct)
  case Nil
  then show ?case using assms(2) by (simp add: admin_run_def attempts_until_def)
next
  case (snoc e es)
  then show ?case using attempts_of_step [of e cfg "admin_run cfg es d"]
    by (auto simp: admin_run_snoc attempts_until_def)
qed

lemma failures_window:
  assumes "\<forall>e\<in>set es. counts_work e" "sorted (map event_time es)" "db_attempts d = []"
  shows "failures_between ip a (a + 600 * nanos) (admin_run cfg es d) \<le> 5"
  using assms(1,2)
proof (induction es rule: rev_induct)
  case Nil
  then show ?case using assms(3) by (simp add: admin_run_def failures_between_def)
next
  case (snoc e es)
  let ?d = "admin_run cfg es d" and ?t = "event_time e"
  have IH: "failures_between ip a (a + 600 * nanos) ?d \<le> 5" using snoc by (simp add: sorted_append)
  have until: "attempts_until ?t ?d"
    by (rule attempts_until_run) (use snoc.prems assms(3) in \<open>auto simp: sorted_append\<close>)
  have win: "failures_between ip a (a + 600 * nanos) ?d \<le> failed_since ip (?t - 600 * nanos) ?d" if "?t \<le> a + 600 * nanos"
    unfolding failures_between_def failed_since_def by (rule length_filter_imp) (use that in auto)
  have "counts_work e" using snoc.prems by simp
  then consider "db_attempts (admin_step cfg e ?d) = db_attempts ?d"
    | i ok where "db_attempts (admin_step cfg e ?d) = db_attempts ?d @ [\<lparr>la_ip = i, la_success = ok, la_at = ?t\<rparr>]"
        "failed_since i (?t - 600 * nanos) ?d < 5"
    using attempts_of_step by blast
  then show ?case
  proof cases
    case 1
    then show ?thesis using IH by (simp add: admin_run_snoc failures_between_def)
  next
    case 2
    then have "failures_between ip a (a + 600 * nanos) (admin_step cfg e ?d) =
        failures_between ip a (a + 600 * nanos) ?d + (if i = ip \<and> \<not> ok \<and> a \<le> ?t \<and> ?t \<le> a + 600 * nanos then 1 else 0)"
      by (simp add: failures_between_def)
    moreover have "failures_between ip a (a + 600 * nanos) ?d < 5" if "i = ip" "?t \<le> a + 600 * nanos"
      using win [OF that(2)] 2(2) that(1) by simp
    ultimately show ?thesis using IH unfolding admin_run_snoc by (auto split: if_splits)
  qed
qed

text \<open>
  Wrong keys are limited to five in ten minutes for each claimed address, and only for ten
  minutes. In any run of logins and logouts served in the order of their instants, with working
  counts, no address gets more than five failed logins into any window of ten minutes; and a
  login that claims an address is turned away for its failures exactly as long as five of them
  are at most ten minutes old, whatever failed in the rest of the thirty minutes the second
  query looks at.
\<close>

theorem wrong_keys_limited:
  assumes "\<forall>e\<in>set es. counts_work e" "sorted (map event_time es)" "db_attempts d = []"
    and "af_count f = None" "af_lock f = None" "is_ip_allowed (master_client_ip (aq_http r)) (ac_allowed cfg)"
  shows "failures_between ip a (a + 600 * nanos) (admin_run cfg es d) \<le> 5 \<and>
    login_route f tb cfg r now (admin_run cfg es d) =
      (if 5 \<le> failed_since (master_client_ip (aq_http r)) (now - 600 * nanos) (admin_run cfg es d)
       then (Status_text 429 ''too many failed attempts, try again later'', admin_run cfg es d)
       else handle_admin_login f tb cfg r now (admin_run cfg es d))"
  using failures_window [OF assms(1-3), of ip a cfg] assms(4-6)
  by (simp add: login_route_def admin_ip_allowlist_def brute_force_eq)

theorem wrong_keys_limited_witness:
  "let es = map (Login no_admin_faults None (login_request ''guess'')) [0, 1, 2, 3, 4, 5, 6] in
   failures_between ''10.0.0.9'' 0 (0 + 600 * nanos) (admin_run sample_admin es empty_db) \<le> 5 \<and>
    login_route no_admin_faults None sample_admin (login_request ''guess'') 900000000000 (admin_run sample_admin es empty_db) =
      (if 5 \<le> failed_since (master_client_ip (aq_http (login_request ''guess''))) (900000000000 - 600 * nanos)
           (admin_run sample_admin es empty_db)
       then (Status_text 429 ''too many failed attempts, try again later'', admin_run sample_admin es empty_db)
       else handle_admin_login no_admin_faults None sample_admin (login_request ''guess'') 900000000000
         (admin_run sample_admin es empty_db))"
  unfolding Let_def
  by (rule wrong_keys_limited) (simp_all add: no_admin_faults_def empty_db_def is_ip_allowed_def sample_admin_def)

text \<open>
  The addresses the panel trusts are the client's word. Whoever sends the header
  CF-Connecting-IP passes the allowlist by naming an allowed address, and is never turned away
  by the brute-force check while it names an address with fewer than five recent failures:
  with the header set, both guards depend on its value only, and not on the peer.
\<close>

theorem admin_address_is_claimed:
  assumes "a \<noteq> []" "ac_allowed cfg = [] \<or> a \<in> set (ac_allowed cfg)"
    and "failed_since a (now - 600 * nanos) d < 5" "af_count f = None" "af_lock f = None"
    and "rq_header (aq_http r) ''Cf-Connecting-Ip'' = a"
  shows "login_route f tb cfg r now d = handle_admin_login f tb cfg r now d \<and>
    master_client_ip (aq_http r) = a"
proof -
  have "master_client_ip (aq_http r) = a" using assms(1,6) by (simp add: master_client_ip_def)
  moreover have "is_ip_allowed a (ac_allowed cfg)" using assms(2) by (auto simp: is_ip_allowed_def list_ex_iff)
  ultimately show ?thesis using assms(3-5) by (simp add: login_route_def admin_ip_allowlist_def brute_force_eq)
qed

theorem admin_address_is_claimed_witness:
  "let cfg = sample_admin\<lparr>ac_allowed := [''192.0.2.1'']\<rparr>;
       r = (login_request ''guess'')\<lparr>aq_http := (plain_get ''/admin/login'' ''198.51.100.7:99'')
         \<lparr>rq_method := ''POST'', rq_header := (\<lambda>k. if k = ''Cf-Connecting-Ip'' then ''192.0.2.1'' else [])\<rparr>\<rparr> in
   login_route no_admin_faults None cfg r 5 empty_db = handle_admin_login no_admin_faults None cfg r 5 empty_db \<and>
   master_client_ip (aq_http r) = ''192.0.2.1''"
  unfolding Let_def
  by (rule admin_address_is_claimed) (simp_all add: no_admin_faults_def empty_db_def failed_since_def)

end
