(* ===== verification/AdminPanel.thy ===== *)
theory AdminPanel
  imports AdminAuth
begin

text \<open>
  The pages of the admin panel, \<^verbatim>\<open>internal/master/handlers/admin.go\<close>: the handlers of licences,
  releases, heartbeats and the dashboard, the dispatch of a licence's actions, and the routes
  with their guards; and the licence check of the downloads, \<^verbatim>\<open>download.go\<close>. A flash redirect is
  kept as its base and whether it reports success. The form of a request is \<open>None\<close> when it does
  not parse. Templates always render.
\<close>

definition form_trim :: "(string \<Rightarrow> string option) \<Rightarrow> string \<Rightarrow> string" where
  "form_trim form k = trim_space (form_value form k)"

text \<open>The days of a form: 365 unless a positive number is given.\<close>

definition form_days :: "string \<Rightarrow> int" where
  "form_days s = (if s = [] then 365 else case parse_int64 s of None \<Rightarrow> 365 | Some v \<Rightarrow> if 0 < v then v else 365)"

subsection \<open>Licences\<close>

definition licenses_flash :: "bool \<Rightarrow> admin_response" where
  "licenses_flash ok = Flash ''/admin/licenses'' ok"

definition admin_licenses_list :: "admin_faults \<Rightarrow> admin_handler" where
  "admin_licenses_list f r now d =
     (case list_licenses (af_read f) d of Inl _ \<Rightarrow> (server_error, d) | Inr ls \<Rightarrow> (Page 200 (Licence_list ls), d))"

definition admin_license_create :: "admin_faults \<Rightarrow> u8 list option \<Rightarrow> u8 list option \<Rightarrow> admin_handler" where
  "admin_license_create f id_bytes key_bytes r now d =
     (case aq_form r of
        None \<Rightarrow> (licenses_flash False, d)
      | Some form \<Rightarrow>
          let customer = form_trim form ''customer_id''; plan = form_trim form ''plan'';
              days = form_days (form_trim form ''valid_days'') in
          if customer = [] then (licenses_flash False, d)
          else case (id_bytes, key_bytes) of
            (Some ib, Some kb) \<Rightarrow>
              let l = \<lparr>li_id = 0, li_license_id = hex_encode ib, li_key = hex_encode kb,
                       li_customer_id = customer, li_customer_name = form_trim form ''customer_name'',
                       li_client_ip = [], li_fingerprint = [],
                       li_plan = (if plan = [] then ''community'' else plan), li_status = ''active'',
                       li_valid_days = days, li_created = now, li_expires = now + days * day,
                       li_last_heartbeat = zero_time, li_notes = form_trim form ''notes''\<rparr>
              in (case create_license (af_write f) l d of
                    (Inl _, d') \<Rightarrow> (licenses_flash False, d') | (Inr _, d') \<Rightarrow> (licenses_flash True, d'))
          | _ \<Rightarrow> (licenses_flash False, d))"

definition handle_admin_licenses :: "admin_faults \<Rightarrow> u8 list option \<Rightarrow> u8 list option \<Rightarrow> admin_handler" where
  "handle_admin_licenses f ib kb r now d =
     (if rq_method (aq_http r) = ''GET'' then admin_licenses_list f r now d
      else if rq_method (aq_http r) = ''POST'' then admin_license_create f ib kb r now d
      else (method_refused, d))"

text \<open>Read the row, change it, write it back.\<close>

definition edit_license :: "admin_faults \<Rightarrow> int \<Rightarrow> (license \<Rightarrow> license) \<Rightarrow> master_db \<Rightarrow> admin_response \<times> master_db" where
  "edit_license f i g d =
     (case get_license_by_id (af_read f) i d of
        Inr (Some l) \<Rightarrow>
          (case update_license (af_write f) (g l) d of
             (Inl _, d') \<Rightarrow> (licenses_flash False, d') | (Inr _, d') \<Rightarrow> (licenses_flash True, d'))
      | _ \<Rightarrow> (licenses_flash False, d))"

definition license_from_form :: "(string \<Rightarrow> string option) \<Rightarrow> license \<Rightarrow> license" where
  "license_from_form form l =
     (let l = (let v = form_trim form ''customer_name'' in if v \<noteq> [] then l\<lparr>li_customer_name := v\<rparr> else l);
          l = (let v = form_trim form ''client_ip'' in if v \<noteq> [] then l\<lparr>li_client_ip := v\<rparr> else l);
          l = (let v = form_trim form ''plan'' in if v \<noteq> [] then l\<lparr>li_plan := v\<rparr> else l);
          l = (let v = form_trim form ''status'' in if v \<noteq> [] then l\<lparr>li_status := v\<rparr> else l);
          l = (case parse_int64 (form_trim form ''valid_days'') of
                 Some n \<Rightarrow> if 0 < n then l\<lparr>li_valid_days := n\<rparr> else l | None \<Rightarrow> l);
          l = (if form ''notes'' \<noteq> None then l\<lparr>li_notes := form_trim form ''notes''\<rparr> else l)
      in l)"

definition admin_license_update :: "admin_faults \<Rightarrow> int \<Rightarrow> admin_handler" where
  "admin_license_update f i r now d =
     (case aq_form r of None \<Rightarrow> (licenses_flash False, d)
      | Some form \<Rightarrow> edit_license f i (license_from_form form) d)"

definition admin_license_activate :: "admin_faults \<Rightarrow> int \<Rightarrow> admin_handler" where
  "admin_license_activate f i r now d = edit_license f i (\<lambda>l. l\<lparr>li_status := ''active''\<rparr>) d"

definition admin_license_suspend :: "admin_faults \<Rightarrow> int \<Rightarrow> admin_handler" where
  "admin_license_suspend f i r now d = edit_license f i (\<lambda>l. l\<lparr>li_status := ''suspended''\<rparr>) d"

definition admin_license_upgrade :: "admin_faults \<Rightarrow> int \<Rightarrow> admin_handler" where
  "admin_license_upgrade f i r now d =
     (case aq_form r of None \<Rightarrow> (licenses_flash False, d)
      | Some form \<Rightarrow>
          let plan = form_trim form ''plan''; days = form_days (form_trim form ''valid_days'') in
          if plan \<noteq> ''pro'' \<and> plan \<noteq> ''enterprise'' then (licenses_flash False, d)
          else edit_license f i (\<lambda>l. l\<lparr>li_plan := plan, li_status := ''active'', li_valid_days := days,
                 li_expires := now + days * day\<rparr>) d)"

definition flash_of :: "(go_error + 'a) \<times> master_db \<Rightarrow> admin_response \<times> master_db" where
  "flash_of res = (case res of (Inl _, d) \<Rightarrow> (licenses_flash False, d) | (Inr _, d) \<Rightarrow> (licenses_flash True, d))"

definition admin_license_delete :: "admin_faults \<Rightarrow> int \<Rightarrow> admin_handler" where
  "admin_license_delete f i r now d = flash_of (delete_license (af_write f) i d)"

definition admin_license_renew :: "admin_faults \<Rightarrow> int \<Rightarrow> admin_handler" where
  "admin_license_renew f i r now d = flash_of (renew_license (af_write f) i now d)"

definition admin_license_rotate :: "admin_faults \<Rightarrow> u8 list option \<Rightarrow> int \<Rightarrow> admin_handler" where
  "admin_license_rotate f key_bytes i r now d =
     flash_of (rotate_license_key (af_write f) (map_option hex_encode key_bytes) i d)"

definition admin_license_revoke :: "admin_faults \<Rightarrow> int \<Rightarrow> admin_handler" where
  "admin_license_revoke f i r now d = flash_of (revoke_license (af_write f) i d)"

definition admin_license_edit_form :: "admin_faults \<Rightarrow> int \<Rightarrow> admin_handler" where
  "admin_license_edit_form f i r now d =
     (case get_license_by_id (af_read f) i d of
        Inr (Some l) \<Rightarrow> (Page 200 (Licence_form (Some l)), d) | _ \<Rightarrow> (licenses_flash False, d))"

definition handle_admin_license_action :: "admin_faults \<Rightarrow> u8 list option \<Rightarrow> admin_handler" where
  "handle_admin_license_action f kb r now d =
     (let path = trim_prefix ''/admin/licenses/'' (rq_path (aq_http r));
          name = before_sep CHR ''/'' path; action = drop (Suc (length name)) path;
          m = rq_method (aq_http r) in
      if name = [] then (not_found, d)
      else if name = ''new'' \<and> m = ''GET'' then (Page 200 (Licence_form None), d)
      else case parse_int64 name of
        None \<Rightarrow> (not_found, d)
      | Some i \<Rightarrow>
          if action = ''renew'' \<and> m = ''POST'' then admin_license_renew f i r now d
          else if action = ''rotate'' \<and> m = ''POST'' then admin_license_rotate f kb i r now d
          else if action = ''revoke'' \<and> m = ''POST'' then admin_license_revoke f i r now d
          else if action = ''delete'' \<and> m = ''POST'' then admin_license_delete f i r now d
          else if action = ''activate'' \<and> m = ''POST'' then admin_license_activate f i r now d
          else if action = ''suspend'' \<and> m = ''POST'' then admin_license_suspend f i r now d
          else if action = ''upgrade'' \<and> m = ''POST'' then admin_license_upgrade f i r now d
          else if action = ''edit'' \<and> m = ''GET'' then admin_license_edit_form f i r now d
          else if action = [] \<and> m = ''PUT'' then admin_license_update f i r now d
          else if action = [] \<and> m = ''POST'' then
            (case aq_form r of
               None \<Rightarrow> (Status_text 400 ''bad request'', d)
             | Some form \<Rightarrow>
                 if form_value form ''_method'' = ''DELETE'' then admin_license_delete f i r now d
                 else admin_license_update f i r now d)
          else if action = [] \<and> m = ''DELETE'' then admin_license_delete f i r now d
          else if action = [] \<and> m = ''GET'' then admin_license_edit_form f i r now d
          else (not_found, d))"

subsection \<open>Releases, heartbeats and the dashboard\<close>

definition releases_flash :: "bool \<Rightarrow> admin_response" where
  "releases_flash ok = Flash ''/admin/releases'' ok"

definition admin_release_create :: "admin_faults \<Rightarrow> admin_handler" where
  "admin_release_create f r now d =
     (case aq_form r of
        None \<Rightarrow> (releases_flash False, d)
      | Some form \<Rightarrow>
          let component = form_trim form ''component''; channel = form_trim form ''channel'';
              version = form_trim form ''version''; url = form_trim form ''artifact_url'';
              sha = form_trim form ''sha256''; min_version = form_trim form ''min_version'' in
          if component = [] \<or> version = [] \<or> url = [] \<or> sha = [] then (releases_flash False, d)
          else case create_release (af_write f)
              \<lparr>rl_id = 0, rl_component = component, rl_channel = (if channel = [] then ''stable'' else channel),
               rl_version = version, rl_url = url, rl_sha256 = sha, rl_notes = form_trim form ''notes'',
               rl_min_version = (if min_version = [] then ''0.0.0'' else min_version), rl_created = now\<rparr> d of
            (Inl _, d') \<Rightarrow> (releases_flash False, d') | (Inr _, d') \<Rightarrow> (releases_flash True, d'))"

definition handle_admin_releases :: "admin_faults \<Rightarrow> admin_handler" where
  "handle_admin_releases f r now d =
     (if rq_method (aq_http r) = ''GET''
      then (case list_releases (af_read f) d of Inl _ \<Rightarrow> (server_error, d) | Inr rs \<Rightarrow> (Page 200 (Release_list rs), d))
      else if rq_method (aq_http r) = ''POST'' then admin_release_create f r now d
      else (method_refused, d))"

definition admin_release_delete :: "admin_faults \<Rightarrow> int \<Rightarrow> admin_handler" where
  "admin_release_delete f i r now d =
     (case delete_release (af_write f) i d of
        (Inl _, d') \<Rightarrow> (releases_flash False, d') | (Inr _, d') \<Rightarrow> (releases_flash True, d'))"

definition handle_admin_release_action :: "admin_faults \<Rightarrow> admin_handler" where
  "handle_admin_release_action f r now d =
     (let name = before_sep CHR ''/'' (trim_prefix ''/admin/releases/'' (rq_path (aq_http r)));
          m = rq_method (aq_http r) in
      if name = [] then (not_found, d)
      else if name = ''new'' \<and> m = ''GET'' then (Page 200 Release_form, d)
      else case parse_int64 name of
        None \<Rightarrow> (not_found, d)
      | Some i \<Rightarrow>
          if m = ''DELETE'' then admin_release_delete f i r now d
          else if m = ''POST'' \<and> (\<exists>form. aq_form r = Some form \<and> form_value form ''_method'' = ''DELETE'')
          then admin_release_delete f i r now d
          else (not_found, d))"

definition handle_admin_heartbeats :: "admin_faults \<Rightarrow> admin_handler" where
  "handle_admin_heartbeats f r now d =
     (if rq_method (aq_http r) \<noteq> ''GET'' then (method_refused, d)
      else case list_heartbeats (af_read f) 100 d of
        Inl _ \<Rightarrow> (server_error, d) | Inr hs \<Rightarrow> (Page 200 (Heartbeat_list hs), d))"

definition dashboard_of :: "(string \<rightharpoonup> nat) \<Rightarrow> nat \<Rightarrow> nat \<Rightarrow> dashboard_stats" where
  "dashboard_of m n recent =
     (let count = (\<lambda>st. case m st of None \<Rightarrow> 0 | Some k \<Rightarrow> k)
      in \<lparr>ds_licenses = n, ds_active = count ''active'', ds_suspended = count ''suspended'',
          ds_revoked = count ''revoked'', ds_expired = count ''expired'', ds_recent = recent\<rparr>)"

text \<open>A statement of the dashboard that fails leaves zeros or an empty list, and is logged.\<close>

definition handle_admin_dashboard :: "admin_faults \<Rightarrow> admin_handler" where
  "handle_admin_dashboard f r now d =
     (if rq_method (aq_http r) \<noteq> ''GET'' then (method_refused, d)
      else if rq_path (aq_http r) \<noteq> ''/admin/'' then (not_found, d)
      else
        let (counts, n) = (case count_licenses_by_status (af_read f) d of
                Inl _ \<Rightarrow> (Map.empty, 0) | Inr m \<Rightarrow> (m, length (db_licenses d)));
            recent = (case count_recent_heartbeats (af_read2 f) (time_add now (- minutes 60)) d of
                Inl _ \<Rightarrow> 0 | Inr k \<Rightarrow> k);
            beats = (case list_heartbeats (af_read3 f) 10 d of Inl _ \<Rightarrow> [] | Inr hs \<Rightarrow> hs)
        in (Page 200 (Dashboard (dashboard_of counts n recent) beats), d))"

subsection \<open>The routes\<close>

record admin_draws =
  dr_token :: "u8 list option"
  dr_id :: "u8 list option"
  dr_key :: "u8 list option"

text \<open>\<^verbatim>\<open>net/http\<close>'s multiplexer takes an exact pattern before the longest prefix that ends in a slash.\<close>

definition admin_routes :: "admin_faults \<Rightarrow> admin_draws \<Rightarrow> admin_config \<Rightarrow> admin_handler" where
  "admin_routes f dr cfg r now d =
     (let path = rq_path (aq_http r) in
      if path = ''/admin/login'' then login_route f (dr_token dr) cfg r now d
      else if path = ''/admin/logout'' then session_protected f cfg (handle_admin_logout f) r now d
      else if path = ''/admin/licenses''
      then session_protected f cfg (handle_admin_licenses f (dr_id dr) (dr_key dr)) r now d
      else if prefix ''/admin/licenses/'' path
      then session_protected f cfg (handle_admin_license_action f (dr_key dr)) r now d
      else if path = ''/admin/releases'' then session_protected f cfg (handle_admin_releases f) r now d
      else if prefix ''/admin/releases/'' path
      then session_protected f cfg (handle_admin_release_action f) r now d
      else if path = ''/admin/heartbeats'' then session_protected f cfg (handle_admin_heartbeats f) r now d
      else if prefix ''/admin/'' path then session_protected f cfg (handle_admin_dashboard f) r now d
      else (not_found, d))"

subsection \<open>Downloads\<close>

definition validate_license_key :: "heartbeat_faults \<Rightarrow> http_request \<Rightarrow> gotime \<Rightarrow> master_db \<Rightarrow> bool" where
  "validate_license_key f r now d =
     (let key = rq_header r ''X-License-Key'' in
      key \<noteq> [] \<and>
      (case find_license f key d of
         Inl _ \<Rightarrow> False
       | Inr None \<Rightarrow> False
       | Inr (Some l) \<Rightarrow> li_status l = ''active'' \<and> (is_zero_time (li_expires l) \<or> time_after (li_expires l) now)))"

text \<open>
  What a download route does: the file system answers whether the artifact exists; the log line
  takes the first eight bytes of the key, which a shorter key does not have.
\<close>

datatype download_outcome = Refused int | Served | Crashed

definition handle_download :: "heartbeat_faults \<Rightarrow> bool \<Rightarrow> http_request \<Rightarrow> gotime \<Rightarrow> master_db \<Rightarrow> download_outcome" where
  "handle_download f present r now d =
     (if rq_method r \<noteq> ''GET'' then Refused 405
      else if \<not> validate_license_key f r now d then Refused 401
      else if \<not> present then Refused 404
      else if length (rq_header r ''X-License-Key'') < 8 then Crashed
      else Served)"

subsection \<open>What the routes keep\<close>

definition same_tables :: "master_db \<Rightarrow> master_db \<Rightarrow> bool" where
  "same_tables d d' \<longleftrightarrow> db_licenses d' = db_licenses d \<and> db_releases d' = db_releases d \<and>
     db_heartbeats d' = db_heartbeats d"

lemma login_keeps_tables: "same_tables d (snd (login_route f tb cfg r now d))"
  by (auto simp: login_route_def admin_ip_allowlist_def admin_brute_force_def handle_admin_login_def
      log_login_attempt_def create_session_def same_tables_def Let_def case_prod_unfold split: option.split sum.split)

definition session_live :: "admin_faults \<Rightarrow> admin_config \<Rightarrow> admin_request \<Rightarrow> gotime \<Rightarrow> master_db \<Rightarrow> bool" where
  "session_live f cfg r now d \<longleftrightarrow> is_ip_allowed (master_client_ip (aq_http r)) (ac_allowed cfg) \<and>
     (\<exists>token s. aq_session r = Some token \<and> token \<noteq> [] \<and> get_session_by_token (af_session f) token now d = Inr (Some s))"

lemma session_protected_cases:
  "session_protected f cfg h r now d = (if session_live f cfg r now d then h r now d
     else (fst (session_protected f cfg (\<lambda>_ _ d. (not_found, d)) r now d), d))"
  by (auto simp: session_protected_def admin_ip_allowlist_def admin_session_check_def session_live_def
      split: option.splits sum.splits)

lemma edit_license_table: "table_ok d \<Longrightarrow> table_ok (snd (edit_license f i g d))"
  using table_ok_updates(1) by (auto simp: edit_license_def split: option.split sum.split prod.split)
    (metis snd_conv)+

lemma flash_of_snd: "snd (flash_of res) = snd res"
  by (simp add: flash_of_def split: prod.split sum.split)

lemma table_ok_other:
  "table_ok (d\<lparr>db_sessions := x\<rparr>) = table_ok d" "table_ok (d\<lparr>db_releases := y, db_next_release := n\<rparr>) = table_ok d"
  "table_ok (d\<lparr>db_releases := y\<rparr>) = table_ok d"
  by (simp_all add: table_ok_def)

lemma license_action_table: "table_ok d \<Longrightarrow> table_ok (snd (handle_admin_license_action f kb r now d))"
  by (simp add: handle_admin_license_action_def Let_def admin_license_renew_def admin_license_rotate_def
      admin_license_revoke_def admin_license_delete_def admin_license_activate_def admin_license_suspend_def
      admin_license_upgrade_def admin_license_update_def admin_license_edit_form_def flash_of_snd edit_license_table
      table_ok_updates table_ok_delete table_ok_rotate split: option.split sum.split)

lemma licenses_table: "table_ok d \<Longrightarrow> table_ok (snd (handle_admin_licenses f ib kb r now d))"
  using table_ok_create
  by (auto simp: handle_admin_licenses_def admin_licenses_list_def admin_license_create_def Let_def
      split: option.split sum.split prod.split) (metis snd_conv)+

lemma releases_table:
  "table_ok (snd (handle_admin_releases f r now d)) = table_ok d"
  "table_ok (snd (handle_admin_release_action f r now d)) = table_ok d"
  by (auto simp: handle_admin_releases_def admin_release_create_def handle_admin_release_action_def
      admin_release_delete_def create_release_def delete_release_def Let_def table_ok_other
      split: option.splits sum.split prod.split)

lemma same_tables_refl: "same_tables d d"
  by (simp add: same_tables_def)

lemma table_ok_same: "same_tables d d' \<Longrightarrow> db_next_id d' = db_next_id d \<Longrightarrow> table_ok d' = table_ok d"
  by (simp add: table_ok_def same_tables_def)

lemma login_next_id: "db_next_id (snd (login_route f tb cfg r now d)) = db_next_id d"
  by (auto simp: login_route_def admin_ip_allowlist_def admin_brute_force_def handle_admin_login_def
      log_login_attempt_def create_session_def Let_def case_prod_unfold split: option.split sum.split)

lemma logout_table: "table_ok (snd (handle_admin_logout f r now d)) = table_ok d"
  by (simp add: handle_admin_logout_def delete_session_def Let_def table_ok_other split: option.split)

lemma protected_table:
  assumes "table_ok d" "table_ok (snd (h r now d))"
  shows "table_ok (snd (session_protected f cfg h r now d))"
  by (subst session_protected_cases) (use assms in simp)

lemma heartbeats_dashboard_same:
  "snd (handle_admin_heartbeats f r now d) = d" "snd (handle_admin_dashboard f r now d) = d"
  by (simp_all add: handle_admin_heartbeats_def handle_admin_dashboard_def Let_def case_prod_unfold split: sum.split)

subsection \<open>Properties of the panel\<close>

definition panel_request :: "string \<Rightarrow> string \<Rightarrow> admin_request" where
  "panel_request m path = (login_request [])\<lparr>aq_http := (plain_get path ''10.0.0.9:5000'')\<lparr>rq_method := m\<rparr>\<rparr>"

definition no_draws :: admin_draws where
  "no_draws = \<lparr>dr_token = None, dr_id = None, dr_key = None\<rparr>"

text \<open>
  Every admin route keeps the constraints of the licence table, and none changes a licence,
  a release or a heartbeat without a live session. Whatever the route, the method, the form, the
  random draws and the faults: ids, licence ids and keys stay unique; and when the request's
  address is not allowed or its token is not that of an unexpired session, the three tables
  are untouched.
\<close>

theorem admin_routes_guarded:
  assumes "table_ok d"
  shows "table_ok (snd (admin_routes f dr cfg r now d)) \<and>
    (\<not> session_live f cfg r now d \<longrightarrow> same_tables d (snd (admin_routes f dr cfg r now d)))"
proof
  have "table_ok (snd (login_route f (dr_token dr) cfg r now d))"
    using assms table_ok_same [OF login_keeps_tables login_next_id] by blast
  then show "table_ok (snd (admin_routes f dr cfg r now d))"
    using assms by (simp add: admin_routes_def Let_def protected_table logout_table licenses_table
        license_action_table releases_table heartbeats_dashboard_same)
  show "\<not> session_live f cfg r now d \<longrightarrow> same_tables d (snd (admin_routes f dr cfg r now d))"
  proof
    assume dead: "\<not> session_live f cfg r now d"
    have same: "same_tables d (snd (session_protected f cfg h r now d))" for h
      by (subst session_protected_cases) (simp add: dead same_tables_refl)
    show "same_tables d (snd (admin_routes f dr cfg r now d))"
      by (simp add: admin_routes_def Let_def login_keeps_tables same same_tables_refl)
  qed
qed

theorem admin_routes_guarded_witness:
  "table_ok (snd (admin_routes no_admin_faults no_draws sample_admin (panel_request ''POST'' ''/admin/licenses/1/revoke'') 5 sample_db)) \<and>
   same_tables sample_db (snd (admin_routes no_admin_faults no_draws sample_admin
     (panel_request ''POST'' ''/admin/licenses/1/revoke'') 5 sample_db))"
  using admin_routes_guarded [OF sample_db_ok, of no_admin_faults no_draws sample_admin
      "panel_request ''POST'' ''/admin/licenses/1/revoke''" 5]
  by (simp add: session_live_def panel_request_def login_request_def)

text \<open>
  Renewing a perpetual licence ends it. A licence with zero valid days, which is what a
  registration and a downgrade give, has no expiry; the renew action of the panel sets its
  expiry to the current second, so the licence, whatever its status was, is answered not
  valid by every heartbeat from one second later on.
\<close>

theorem renewing_perpetual_ends_it:
  assumes "table_ok d" "l \<in> set (db_licenses d)" "li_valid_days l = 0" "0 \<le> now" "now + nanos \<le> t"
    and "af_write f = None" "rq_method r = ''POST''" "node \<noteq> []" "li_key l \<noteq> []"
  shows "\<exists>d'. admin_license_renew f (li_id l) q now d = (licenses_flash True, d') \<and>
    (\<exists>h. fst (handle_heartbeat no_faults r (Some \<lparr>hq_key = li_key l, hq_node = node, hq_fp = []\<rparr>) t d') =
      (200, Heartbeat_json h) \<and> \<not> hr_valid h \<and> hr_status h = ''expired'' \<and> hr_plan h = ''community'')"
proof -
  let ?l = "l\<lparr>li_expires := unix_secs now * nanos, li_status := ''active''\<rparr>"
  define d' where "d' = snd (renew_license None (li_id l) now d)"
  have row: "has_row (\<lambda>x. li_id x = li_id l) d" using assms(2) by (auto simp: has_row_def list_ex_iff)
  have res: "admin_license_renew f (li_id l) q now d = (licenses_flash True, d')"
    using row assms(6) by (simp add: admin_license_renew_def flash_of_def d'_def renew_license_def)
  have "?l \<in> set (db_licenses d')"
    using assms(2,3) row by (auto simp: d'_def renew_license_def map_rows_def image_iff intro!: bexI [of _ l])
  then have lf: "licence_for (li_key l) d' = Some ?l"
    using licence_for_key [of d' ?l] table_ok_updates(2) [OF assms(1)] by (simp add: d'_def)
  have "0 \<le> unix_secs now * nanos" "unix_secs now * nanos \<le> now"
    using assms(4) div_mult_mod_eq [of now nanos] pos_mod_sign [of nanos now]
    unfolding unix_secs_def nanos_def by (auto simp: pos_imp_zdiv_nonneg_iff)
  then have "license_expired t ?l"
    using assms(5) by (simp add: license_expired_def is_zero_time_def zero_time_def time_before_def nanos_def)
  moreover have "\<not> binary_mismatch \<lparr>hq_key = li_key l, hq_node = node, hq_fp = []\<rparr> ?l" by (simp add: binary_mismatch_def)
  ultimately show ?thesis
    using heartbeat_known [of r "\<lparr>hq_key = li_key l, hq_node = node, hq_fp = []\<rparr>" no_faults d' ?l t] lf res assms(7-9)
    by (simp add: no_faults_def answer_heartbeat_eq)
qed

definition community_db :: master_db where
  "community_db = empty_db\<lparr>db_licenses := [sample_license\<lparr>li_plan := ''community'', li_valid_days := 0,
     li_expires := zero_time\<rparr>], db_next_id := 2\<rparr>"

theorem renewing_perpetual_ends_it_witness:
  "let l = sample_license\<lparr>li_plan := ''community'', li_valid_days := 0, li_expires := zero_time\<rparr> in
   \<exists>d'. admin_license_renew no_admin_faults (li_id l) (panel_request ''POST'' ''/admin/licenses/1/renew'') 10 community_db =
      (licenses_flash True, d') \<and>
    (\<exists>h. fst (handle_heartbeat no_faults beat_request (Some \<lparr>hq_key = li_key l, hq_node = ''n'', hq_fp = []\<rparr>) 2000000000 d') =
      (200, Heartbeat_json h) \<and> \<not> hr_valid h \<and> hr_status h = ''expired'' \<and> hr_plan h = ''community'')"
  unfolding Let_def
  by (rule renewing_perpetual_ends_it)
     (simp_all add: community_db_def empty_db_def table_ok_def sample_license_def nanos_def no_admin_faults_def
       beat_request_def)

lemma licence_for_mem: "licence_for key d = Some l \<Longrightarrow> l \<in> set (db_licenses d) \<and> (li_key l = key \<or> li_license_id l = key)"
  by (auto simp: licence_for_def row_of_def split: option.splits dest: find_SomeD)

definition download_request :: "string \<Rightarrow> http_request" where
  "download_request key = (plain_get ''/api/v1/download/info'' ''10.0.0.1:4000'')
     \<lparr>rq_header := (\<lambda>k. if k = ''X-License-Key'' then key else [])\<rparr>"

text \<open>
  A download is stricter than a heartbeat, and never crashes on a real key. When every key
  and licence id of the table has at least eight bytes, a download whose artifact is present
  and whose look-ups work is served or refused with 401 (or 405), never crashed; when it is
  served, a heartbeat with the same key and no fingerprint is answered valid at that instant;
  but a licence the expiry check downgraded is refused, though its heartbeats are valid.
\<close>

theorem download_stricter_than_heartbeat:
  assumes "\<forall>l\<in>set (db_licenses d). 8 \<le> length (li_key l) \<and> 8 \<le> length (li_license_id l)"
    and "rq_method r = ''GET''" "rq_method b = ''POST''" "node \<noteq> []" "key = rq_header r ''X-License-Key''"
  shows "handle_download no_faults True r now d \<in> {Served, Refused 401} \<and>
    (handle_download no_faults True r now d = Served \<longrightarrow>
      (\<exists>h. fst (handle_heartbeat no_faults b (Some \<lparr>hq_key = key, hq_node = node, hq_fp = []\<rparr>) now d) =
        (200, Heartbeat_json h) \<and> hr_valid h)) \<and>
    (\<forall>l. licence_for key d = Some (downgraded l) \<and> key \<noteq> [] \<longrightarrow> handle_download no_faults True r now d = Refused 401 \<and>
      (\<exists>h. fst (handle_heartbeat no_faults b (Some \<lparr>hq_key = key, hq_node = node, hq_fp = []\<rparr>) now d) =
        (200, Heartbeat_json h) \<and> hr_valid h))"
proof -
  let ?q = "\<lparr>hq_key = key, hq_node = node, hq_fp = []\<rparr>"
  have fl: "find_license no_faults key d = Inr (licence_for key d)"
    by (rule find_license_faultless) (simp_all add: no_faults_def)
  have len: "licence_for key d = Some l \<Longrightarrow> 8 \<le> length key" for l
    using licence_for_mem [of key d l] assms(1) by auto
  have beat: "\<exists>h. fst (handle_heartbeat no_faults b (Some ?q) now d) = (200, Heartbeat_json h) \<and> hr_valid h"
    if "licence_for key d = Some l" "li_status l \<noteq> ''revoked''" "li_status l \<noteq> ''suspended''"
      "\<not> license_expired now l" "key \<noteq> []" for l
    using heartbeat_known [of b ?q no_faults d l now] that assms(3,4)
    by (simp add: no_faults_def binary_mismatch_def answer_heartbeat_eq)
  have served: "handle_download no_faults True r now d = (if key \<noteq> [] \<and> (\<exists>l. licence_for key d = Some l \<and>
      li_status l = ''active'' \<and> (is_zero_time (li_expires l) \<or> time_after (li_expires l) now)) then Served else Refused 401)"
  proof (cases "licence_for key d")
    case None
    then show ?thesis using assms(2) fl
      by (simp add: handle_download_def validate_license_key_def Let_def assms(5) [symmetric])
  next
    case (Some l)
    then show ?thesis using len [OF Some] assms(2) fl
      by (simp add: handle_download_def validate_license_key_def Let_def assms(5) [symmetric])
  qed
  have down: "\<not> license_expired now (downgraded l)" "li_status (downgraded l) = ''downgraded''" for l
    by (simp_all add: license_expired_def downgraded_def is_zero_time_def)
  have current: "\<not> license_expired now l" if "is_zero_time (li_expires l) \<or> time_after (li_expires l) now" for l
    using that by (auto simp: license_expired_def time_after_def time_before_def)
  have "\<exists>h. fst (handle_heartbeat no_faults b (Some ?q) now d) = (200, Heartbeat_json h) \<and> hr_valid h"
    if "handle_download no_faults True r now d = Served"
  proof -
    have "key \<noteq> [] \<and> (\<exists>l. licence_for key d = Some l \<and> li_status l = ''active'' \<and>
        (is_zero_time (li_expires l) \<or> time_after (li_expires l) now))"
      using that unfolding served by (rule contrapos_pp) simp
    then obtain l where l: "licence_for key d = Some l" "li_status l = ''active''" "key \<noteq> []"
      "is_zero_time (li_expires l) \<or> time_after (li_expires l) now" by blast
    show ?thesis by (rule beat [OF l(1)]) (simp_all add: l(2,3) current [OF l(4)])
  qed
  moreover have "handle_download no_faults True r now d = Refused 401"
    "\<exists>h. fst (handle_heartbeat no_faults b (Some ?q) now d) = (200, Heartbeat_json h) \<and> hr_valid h"
    if "licence_for key d = Some (downgraded l)" "key \<noteq> []" for l
    using beat [OF that(1)] that by (simp_all add: served down)
  moreover have "handle_download no_faults True r now d \<in> {Served, Refused 401}" by (simp add: served)
  ultimately show ?thesis by blast
qed

theorem download_stricter_than_heartbeat_witness:
  "let d = sample_db\<lparr>db_licenses := [sample_license\<lparr>li_key := ''0123456789'', li_license_id := ''abcdefghij''\<rparr>]\<rparr>;
       r = download_request ''0123456789'' in
   handle_download no_faults True r 10 d = Served \<and>
   (\<exists>h. fst (handle_heartbeat no_faults beat_request (Some \<lparr>hq_key = ''0123456789'', hq_node = ''n'', hq_fp = []\<rparr>) 10 d) =
      (200, Heartbeat_json h) \<and> hr_valid h)"
proof -
  let ?d = "sample_db\<lparr>db_licenses := [sample_license\<lparr>li_key := ''0123456789'', li_license_id := ''abcdefghij''\<rparr>]\<rparr>"
  have "handle_download no_faults True (download_request ''0123456789'') 10 ?d = Served"
    by (simp add: handle_download_def validate_license_key_def find_license_faultless no_faults_def licence_for_def
        download_request_def plain_get_def sample_db_def sample_license_def time_after_def Let_def)
  then show ?thesis
    using download_stricter_than_heartbeat [of ?d "download_request ''0123456789''" beat_request "''n''" "''0123456789''" 10]
    by (simp add: sample_db_def sample_license_def download_request_def plain_get_def beat_request_def)
qed

end
