(* ===== verification/Lockdown.thy ===== *)
theory Lockdown
  imports AdminPanel GoNet RateLimit Detect
begin

text \<open>
  The client's side of the licence protocol: the lockdown manager and its middleware
  (\<^verbatim>\<open>internal/client/errors.go\<close>, \<^verbatim>\<open>client_waf.go\<close>) and the heartbeat and update loops
  (\<^verbatim>\<open>loops.go\<close>) with the plan enforcement callback of \<^verbatim>\<open>RunWithConfig\<close>. An exchange with the
  master is what \<^verbatim>\<open>http.Client\<close> and \<^verbatim>\<open>encoding/json\<close> make of it. The last section joins the two
  sides: the exchange is the answer of the master's heartbeat handler.
\<close>

subsection \<open>The lockdown manager\<close>

record lockdown =
  lk_failures :: int
  lk_locked :: bool
  lk_reason :: string
  lk_time :: gotime
  lk_admins :: "string list"
  lk_suspended :: bool
  lk_plan :: string

definition new_lockdown :: "string list \<Rightarrow> lockdown" where
  "new_lockdown admins = \<lparr>lk_failures = 0, lk_locked = False, lk_reason = [], lk_time = zero_time,
     lk_admins = admins, lk_suspended = False, lk_plan = []\<rparr>"

definition lock_client :: "string \<Rightarrow> gotime \<Rightarrow> lockdown \<Rightarrow> lockdown" where
  "lock_client reason now l =
     (if \<not> lk_locked l then l\<lparr>lk_locked := True, lk_reason := reason, lk_time := now\<rparr> else l)"

definition unlock_client :: "lockdown \<Rightarrow> lockdown" where
  "unlock_client l = l\<lparr>lk_locked := False, lk_reason := [], lk_time := zero_time, lk_failures := 0\<rparr>"

definition is_admin_ip :: "string \<Rightarrow> lockdown \<Rightarrow> bool" where
  "is_admin_ip ip l = list_ex (\<lambda>a. a = ip) (lk_admins l)"

definition record_heartbeat_failure :: "gotime \<Rightarrow> lockdown \<Rightarrow> lockdown" where
  "record_heartbeat_failure now l =
     (let l = l\<lparr>lk_failures := lk_failures l + 1\<rparr> in
      if 3 \<le> lk_failures l \<and> \<not> lk_locked l
      then l\<lparr>lk_locked := True, lk_reason := ''heartbeat_failed_3_consecutive'', lk_time := now\<rparr>
      else l)"

definition record_heartbeat_success :: "lockdown \<Rightarrow> lockdown" where
  "record_heartbeat_success l =
     (let l = (if lk_locked l then l\<lparr>lk_locked := False, lk_reason := [], lk_time := zero_time\<rparr> else l)
      in l\<lparr>lk_failures := 0\<rparr>)"

definition get_lock_info :: "lockdown \<Rightarrow> bool \<times> string \<times> gotime \<times> int" where
  "get_lock_info l = (lk_locked l, lk_reason l, lk_time l, lk_failures l)"

definition set_suspended :: "bool \<Rightarrow> lockdown \<Rightarrow> lockdown" where
  "set_suspended b l = l\<lparr>lk_suspended := b\<rparr>"

definition set_cached_plan :: "string \<Rightarrow> lockdown \<Rightarrow> lockdown" where
  "set_cached_plan p l = l\<lparr>lk_plan := p\<rparr>"

text \<open>A locked client answers 503, but for the addresses on its list.\<close>

datatype 'a guarded = Unavailable | Passed 'a

definition lockdown_middleware :: "lockdown \<Rightarrow> (http_request \<Rightarrow> 'a) \<Rightarrow> http_request \<Rightarrow> 'a guarded" where
  "lockdown_middleware l next_handler r =
     (if lk_locked l \<and> \<not> is_admin_ip (client_ip r) l then Unavailable else Passed (next_handler r))"

subsection \<open>The heartbeat loop\<close>

record loop_response =
  lo_valid :: bool
  lo_lock :: bool
  lo_reason :: string
  lo_status :: string
  lo_expires :: "gotime option"
  lo_config :: "plan_config option"

datatype exchange = Unsent | Bad_status int | Undecodable | Answer loop_response

definition send_heartbeat :: "(plan_config \<Rightarrow> 'e \<Rightarrow> 'e) option \<Rightarrow> exchange \<Rightarrow> gotime \<Rightarrow> lockdown \<times> 'e \<Rightarrow> lockdown \<times> 'e" where
  "send_heartbeat on_plan x now st =
     (case st of (l, e) \<Rightarrow>
      (case x of
         Answer a \<Rightarrow>
           if lo_lock a then (record_heartbeat_failure now l, e)
           else
             let e' = (case (lo_config a, on_plan) of (Some c, Some f) \<Rightarrow> f c e | _ \<Rightarrow> e)
             in (record_heartbeat_success l, e')
       | _ \<Rightarrow> (record_heartbeat_failure now l, e)))"

definition heartbeat_interval :: "duration \<Rightarrow> duration" where
  "heartbeat_interval i = (if i \<le> 0 then 60 * nanos else i)"

text \<open>What the loop's \<^verbatim>\<open>select\<close> finds ready, in turn: a tick, with the exchange it leads to, or the end.\<close>

datatype loop_event = Tick exchange gotime | Context_done

fun heartbeat_ticks :: "(plan_config \<Rightarrow> 'e \<Rightarrow> 'e) option \<Rightarrow> loop_event list \<Rightarrow> lockdown \<times> 'e \<Rightarrow> lockdown \<times> 'e" where
  "heartbeat_ticks on_plan [] st = st"
| "heartbeat_ticks on_plan (Context_done # evs) st = st"
| "heartbeat_ticks on_plan (Tick x now # evs) st = heartbeat_ticks on_plan evs (send_heartbeat on_plan x now st)"

definition start_heartbeat_loop :: "(plan_config \<Rightarrow> 'e \<Rightarrow> 'e) option \<Rightarrow> exchange \<Rightarrow> gotime \<Rightarrow> loop_event list \<Rightarrow>
    lockdown \<times> 'e \<Rightarrow> lockdown \<times> 'e" where
  "start_heartbeat_loop on_plan x now evs st = heartbeat_ticks on_plan evs (send_heartbeat on_plan x now st)"

subsection \<open>Plan enforcement\<close>

text \<open>What the callback of \<^verbatim>\<open>RunWithConfig\<close> works on; the XDP components start at most once.\<close>

record node =
  nd_limiter :: limiter
  nd_xdp_func :: bool
  nd_xdp_started :: bool

definition on_plan_config :: "plan_config \<Rightarrow> node \<Rightarrow> node" where
  "on_plan_config c n =
     (let n = (if 0 < pc_rpm c \<or> 0 < pc_subnet_rpm c
               then n\<lparr>nd_limiter := update_thresholds (pc_rpm c) 0 (pc_subnet_rpm c) (nd_limiter n)\<rparr> else n)
      in if \<not> pc_xdp c then n
         else if nd_xdp_func n then n\<lparr>nd_xdp_started := True\<rparr> else n)"

subsection \<open>The update loop\<close>

record update_notice =
  un_current :: string
  un_version :: string
  un_url :: string

datatype update_exchange = No_answer | Update_status int | Update_garbled | Update_answer bool "release_info option"

text \<open>The notice the loop writes, if any: an announcement, nothing is installed.\<close>

definition check_for_update :: "string \<Rightarrow> update_exchange \<Rightarrow> update_notice option" where
  "check_for_update current x =
     (case x of
        Update_answer available (Some ri) \<Rightarrow>
          if available then Some \<lparr>un_current = current, un_version = ri_version ri, un_url = ri_url ri\<rparr> else None
      | _ \<Rightarrow> None)"

subsection \<open>Runs of heartbeats\<close>

fun failed_exchange :: "exchange \<Rightarrow> bool" where
  "failed_exchange (Answer a) = lo_lock a"
| "failed_exchange _ = True"

definition beats :: "(plan_config \<Rightarrow> 'e \<Rightarrow> 'e) option \<Rightarrow> (exchange \<times> gotime) list \<Rightarrow> lockdown \<times> 'e \<Rightarrow> lockdown \<times> 'e" where
  "beats on_plan xs st = fold (\<lambda>(x, now). send_heartbeat on_plan x now) xs st"

lemma beats_snoc: "beats on_plan (xs @ [(x, now)]) st = send_heartbeat on_plan x now (beats on_plan xs st)"
  by (simp add: beats_def)

lemma ticks_as_beats:
  "start_heartbeat_loop on_plan x now (map (\<lambda>(x, now). Tick x now) xs) st = beats on_plan ((x, now) # xs) st"
proof -
  have "heartbeat_ticks on_plan (map (\<lambda>(x, now). Tick x now) xs) st = beats on_plan xs st" for st
    by (induction xs arbitrary: st) (simp_all add: beats_def case_prod_unfold)
  then show ?thesis by (simp add: start_heartbeat_loop_def beats_def)
qed

lemma ticks_after_done: "heartbeat_ticks on_plan (evs @ Context_done # later) st = heartbeat_ticks on_plan (evs @ [Context_done]) st"
  by (induction on_plan evs st rule: heartbeat_ticks.induct) auto

text \<open>The failures since the last success.\<close>

definition failures_in_row :: "(exchange \<times> gotime) list \<Rightarrow> nat" where
  "failures_in_row xs = length (takeWhile (failed_exchange \<circ> fst) (rev xs))"

lemma failures_in_row_snoc:
  "failures_in_row (xs @ [(x, now)]) = (if failed_exchange x then Suc (failures_in_row xs) else 0)"
  by (simp add: failures_in_row_def)

lemma send_failed: "failed_exchange x \<Longrightarrow> send_heartbeat on_plan x now (l, e) = (record_heartbeat_failure now l, e)"
  by (cases x) (simp_all add: send_heartbeat_def)

lemma send_ok: "\<not> failed_exchange x \<Longrightarrow> fst (send_heartbeat on_plan x now (l, e)) = record_heartbeat_success l"
  by (cases x) (simp_all add: send_heartbeat_def Let_def)

lemma lockdown_tracks:
  "lk_failures (fst (beats on_plan xs (new_lockdown admins, e))) = int (failures_in_row xs) \<and>
   (lk_locked (fst (beats on_plan xs (new_lockdown admins, e))) \<longleftrightarrow> 3 \<le> failures_in_row xs) \<and>
   lk_admins (fst (beats on_plan xs (new_lockdown admins, e))) = admins \<and>
   \<not> lk_suspended (fst (beats on_plan xs (new_lockdown admins, e)))"
proof (induction xs rule: rev_induct)
  case Nil
  then show ?case by (simp add: beats_def failures_in_row_def new_lockdown_def)
next
  case (snoc y xs)
  obtain x now where y: "y = (x, now)" by (cases y)
  obtain l e' where st: "beats on_plan xs (new_lockdown admins, e) = (l, e')"
    by (cases "beats on_plan xs (new_lockdown admins, e)")
  show ?case
  proof (cases "failed_exchange x")
    case True
    then show ?thesis using snoc.IH
      by (auto simp: y st beats_snoc send_failed failures_in_row_snoc record_heartbeat_failure_def Let_def)
  next
    case False
    then show ?thesis using snoc.IH send_ok [OF False, of on_plan now l e']
      by (auto simp: y st beats_snoc failures_in_row_snoc record_heartbeat_success_def Let_def)
  qed
qed

subsection \<open>Properties of the lockdown\<close>

definition plain_answer :: "bool \<Rightarrow> exchange" where
  "plain_answer lock = Answer \<lparr>lo_valid = \<not> lock, lo_lock = lock, lo_reason = [], lo_status = [],
     lo_expires = None, lo_config = None\<rparr>"

text \<open>
  The client is locked exactly by three failures in a row. Whatever the exchanges of the
  heartbeat loop were (nothing sent, a status other than 200, a body that does not decode, an
  answer), after the first heartbeat and any ticks the client is locked exactly when the last
  three were all failures or answers with lock; its counter is the number of failures since the
  last success; one success unlocks it; it is never suspended; and exchanges that would follow
  the end of the context change nothing.
\<close>

theorem locked_by_three_failures:
  "let st = start_heartbeat_loop on_plan x now (map (\<lambda>(x, now). Tick x now) xs) (new_lockdown admins, e);
       row = failures_in_row ((x, now) # xs) in
   (lk_locked (fst st) \<longleftrightarrow> 3 \<le> row) \<and> lk_failures (fst st) = int row \<and> \<not> lk_suspended (fst st) \<and>
   \<not> lk_locked (fst (send_heartbeat on_plan (plain_answer False) later st)) \<and>
   start_heartbeat_loop on_plan x now (map (\<lambda>(x, now). Tick x now) xs @ Context_done # evs) (new_lockdown admins, e) = st"
proof -
  let ?st = "start_heartbeat_loop on_plan x now (map (\<lambda>(x, now). Tick x now) xs) (new_lockdown admins, e)"
  have "heartbeat_ticks on_plan (map (\<lambda>(x, now). Tick x now) xs @ Context_done # evs) s =
      heartbeat_ticks on_plan (map (\<lambda>(x, now). Tick x now) xs) s" for s :: "lockdown \<times> 'a"
    by (induction xs arbitrary: s) (simp_all add: case_prod_unfold)
  moreover have "\<not> lk_locked (fst (send_heartbeat on_plan (plain_answer False) later (l, n)))" for l and n :: 'a
    using send_ok [of "plain_answer False" on_plan later l n]
    by (simp add: plain_answer_def record_heartbeat_success_def Let_def)
  then have "\<not> lk_locked (fst (send_heartbeat on_plan (plain_answer False) later ?st))"
    by (metis prod.collapse)
  ultimately show ?thesis
    using lockdown_tracks [of on_plan "(x, now) # xs" admins e]
    unfolding Let_def ticks_as_beats [symmetric] by (simp add: start_heartbeat_loop_def)
qed

lemma locked_refuses:
  assumes "lk_locked l" "\<forall>a\<in>set (lk_admins l). parse_cidr a \<noteq> None" "parse_ip (client_ip r) \<noteq> None"
  shows "lockdown_middleware l h r = Unavailable"
proof -
  have "\<not> is_admin_ip (client_ip r) l"
    using assms(2,3) not_ip_and_cidr by (auto simp: is_admin_ip_def list_ex_iff)
  with assms(1) show ?thesis by (simp add: lockdown_middleware_def)
qed

lemma client_of_plain: "client_ip (plain_get ''/'' ''10.0.0.9:5000'') = ''10.0.0.9''"
  by code_simp

text \<open>
  The admin list of a validated configuration never matches an address. The validation
  accepts an admin entry only when it parses as a CIDR block, the lockdown compares entries as
  texts: when every entry parses as a block, a locked client refuses every request whose
  client address parses as an address, the administrators' own included; while a request whose
  header X-Forwarded-For is the text of an entry passes, whoever sends it.
\<close>

theorem admin_blocks_match_no_address:
  assumes "lk_locked l" "\<forall>a\<in>set (lk_admins l). parse_cidr a \<noteq> None"
  shows "(\<forall>r. parse_ip (client_ip r) \<noteq> None \<longrightarrow> lockdown_middleware l h r = Unavailable) \<and>
    (\<forall>a r. a \<in> set (lk_admins l) \<and> trim_space a = a \<and> CHR '','' \<notin> set a \<and> a \<noteq> [] \<and>
       rq_header r ''X-Forwarded-For'' = a \<longrightarrow> lockdown_middleware l h r = Passed (h r))"
proof (intro conjI allI impI)
  fix r :: http_request assume "parse_ip (client_ip r) \<noteq> None"
  then show "lockdown_middleware l h r = Unavailable" by (rule locked_refuses [OF assms])
next
  fix a and r :: http_request assume a: "a \<in> set (lk_admins l) \<and> trim_space a = a \<and> CHR '','' \<notin> set a \<and> a \<noteq> [] \<and>
       rq_header r ''X-Forwarded-For'' = a"
  then have "before_sep CHR '','' a = a" by (simp add: before_sep_def takeWhile_eq_all_conv) (metis)
  then have "client_ip r = a" using a by (simp add: client_ip_def Let_def)
  then show "lockdown_middleware l h r = Passed (h r)"
    using a by (simp add: lockdown_middleware_def is_admin_ip_def list_ex_iff)
qed

theorem admin_blocks_match_no_address_witness:
  "let l = (new_lockdown [''10.0.0.0/8''])\<lparr>lk_locked := True\<rparr> in
   lockdown_middleware l (\<lambda>_. True) (plain_get ''/'' ''10.0.0.9:5000'') = Unavailable"
proof -
  let ?l = "(new_lockdown [''10.0.0.0/8''])\<lparr>lk_locked := True\<rparr>" and ?r = "plain_get ''/'' ''10.0.0.9:5000''"
  have "\<forall>a\<in>set (lk_admins ?l). parse_cidr a \<noteq> None"
    by (simp add: new_lockdown_def parse_cidr_def parse_prefix_len_def parse_digits_def digit_val_def Let_def
        parse_addr_def parse_v4_def)
  moreover have "client_ip ?r = ''10.0.0.9''" by (rule client_of_plain)
  moreover have "parse_ip ''10.0.0.9'' \<noteq> None"
    by (simp add: parse_ip_def parse_addr_def parse_v4_def digit_val_def)
  ultimately show ?thesis
    using admin_blocks_match_no_address [of ?l "\<lambda>_. True"] unfolding Let_def by simp
qed

subsection \<open>The client and the master together\<close>

text \<open>
  One heartbeat of a client with the licence key and the node id of its configuration; the
  fingerprint is sent empty (\<^verbatim>\<open>RunWithConfig\<close>). A lost heartbeat never reaches the master.
\<close>

definition exchange_of :: "master_response \<Rightarrow> exchange" where
  "exchange_of resp =
     (if fst resp \<noteq> 200 then Bad_status (fst resp)
      else case snd resp of
        Heartbeat_json h \<Rightarrow> Answer \<lparr>lo_valid = hr_valid h, lo_lock = hr_lock h, lo_reason = hr_reason h,
          lo_status = hr_status h, lo_expires = hr_expires h, lo_config = hr_config h\<rparr>
      | _ \<Rightarrow> Undecodable)"

definition loop_request :: "string \<Rightarrow> http_request" where
  "loop_request remote = (plain_get ''/api/v1/heartbeat'' remote)\<lparr>rq_method := ''POST'',
     rq_header := (\<lambda>k. if k = ''User-Agent'' then ''KiroWAF-Heartbeat/1.0'' else [])\<rparr>"

datatype beat_event = Lost gotime | Delivered heartbeat_faults string gotime

fun beat_step :: "string \<Rightarrow> string \<Rightarrow> beat_event \<Rightarrow> master_db \<times> lockdown \<times> node \<Rightarrow> master_db \<times> lockdown \<times> node" where
  "beat_step key node_id (Lost now) (d, st) = (d, send_heartbeat (Some on_plan_config) Unsent now st)"
| "beat_step key node_id (Delivered f remote now) (d, st) =
     (let (resp, d') = handle_heartbeat f (loop_request remote)
            (Some \<lparr>hq_key = key, hq_node = node_id, hq_fp = []\<rparr>) now d
      in (d', send_heartbeat (Some on_plan_config) (exchange_of resp) now st))"

definition beat_run :: "string \<Rightarrow> string \<Rightarrow> beat_event list \<Rightarrow> master_db \<times> lockdown \<times> node \<Rightarrow> master_db \<times> lockdown \<times> node" where
  "beat_run key node_id evs st = fold (beat_step key node_id) evs st"

text \<open>A key the master has no licence for, or a revoked one.\<close>

definition refused_key :: "string \<Rightarrow> master_db \<Rightarrow> bool" where
  "refused_key key d \<longleftrightarrow> (case licence_for key d of None \<Rightarrow> True | Some l \<Rightarrow> li_status l = ''revoked'')"

definition named_key :: "string \<Rightarrow> master_db \<Rightarrow> bool" where
  "named_key key d \<longleftrightarrow> key \<in> set (map li_key (db_licenses d))"

text \<open>
  What counts against the client: a lost heartbeat, one whose look-up fails (answered 500), one under
  a refused key, and one under a licence id in place of the key whose second look-up fails.
\<close>

fun missed :: "string \<Rightarrow> master_db \<Rightarrow> beat_event \<Rightarrow> bool" where
  "missed key d (Lost now) = True"
| "missed key d (Delivered f remote now) \<longleftrightarrow>
     hf_lookup f \<noteq> None \<or> refused_key key d \<or> \<not> named_key key d \<and> hf_fallback f \<noteq> None"

lemma licence_for_map_rows:
  assumes "\<And>x. li_license_id (g x) = li_license_id x \<and> li_key (g x) = li_key x"
  shows "licence_for key (map_rows P g d) = map_option (\<lambda>x. if P x then g x else x) (licence_for key d)"
  using row_of_map_rows [of g key P d] assms
  by (simp add: licence_for_def map_rows_def find_map_same row_of_def split: option.splits)

lemma refused_key_writes:
  assumes "\<And>x. li_license_id (g x) = li_license_id x \<and> li_key (g x) = li_key x"
    and "\<And>x. P x \<Longrightarrow> licence_for key d = Some x \<Longrightarrow> (li_status (g x) = ''revoked'') = (li_status x = ''revoked'')"
  shows "refused_key key (map_rows P g d) = refused_key key d"
  using assms(2) by (cases "licence_for key d") (auto simp: refused_key_def licence_for_map_rows [OF assms(1)])

lemma refused_key_log: "refused_key key (snd (log_heartbeat g hb d)) = refused_key key d"
  by (cases g) (simp_all add: log_heartbeat_def refused_key_def licence_for_def row_of_def split: option.splits)

lemma refused_key_touch: "refused_key key (snd (update_license_heartbeat g lid now d)) = refused_key key d"
  by (cases g) (simp_all add: update_license_heartbeat_def refused_key_writes)

lemma refused_key_marked:
  assumes "licence_for key d = Some l" "table_ok d"
  shows "refused_key key (marked g l now d) = refused_key key d"
proof (cases g)
  case None
  have "refused_key key (map_rows (\<lambda>x. li_license_id x = li_license_id l) (\<lambda>x. x\<lparr>li_status := ''expired''\<rparr>) d) =
      refused_key key d" if "li_status l = ''active''"
    by (rule refused_key_writes) (use assms(1) that in auto)
  then show ?thesis by (simp add: None marked_def update_license_status_def)
next
  case (Some e)
  then show ?thesis by (simp add: marked_def update_license_status_def)
qed

lemma table_ok_heartbeat: "table_ok d \<Longrightarrow> table_ok (snd (handle_heartbeat f r body now d))"
  using heartbeat_writes [OF refl, of f r body now d]
  by (auto simp: Let_def table_ok_marked table_ok_log table_ok_updates(4))

lemma named_key_rows: "(\<And>x. li_key (g x) = li_key x) \<Longrightarrow> named_key key (map_rows P g d) = named_key key d"
proof -
  assume "\<And>x. li_key (g x) = li_key x"
  then have "li_key \<circ> (\<lambda>x. if P x then g x else x) = li_key" by (simp add: fun_eq_iff)
  then show ?thesis by (simp add: named_key_def map_rows_def del: set_map)
qed

lemma named_key_writes:
  "named_key key (marked g l now d) = named_key key d"
  "named_key key (snd (log_heartbeat g hb d)) = named_key key d"
  "named_key key (snd (update_license_heartbeat g lid now d)) = named_key key d"
  by (simp_all add: marked_def update_license_status_def update_license_heartbeat_def named_key_rows split: option.split)
    (simp add: named_key_def log_heartbeat_def split: option.split)

lemma named_key_heartbeat: "named_key key (snd (handle_heartbeat f r body now d)) = named_key key d"
  using heartbeat_writes [OF refl, of f r body now d] by (auto simp: Let_def named_key_writes)

lemma refused_key_heartbeat:
  assumes "table_ok d" "body = Some q" "hq_key q = key"
  shows "refused_key key (snd (handle_heartbeat f r body now d)) = refused_key key d"
  using heartbeat_writes [OF refl, of f r body now d] assms
  by (auto simp: Let_def refused_key_touch refused_key_log refused_key_marked)

lemma find_license_cases:
  "find_license f key d =
     (case hf_lookup f of Some e \<Rightarrow> Inl (Wrapped ''db: get license by key'' e)
      | None \<Rightarrow> Inr (if named_key key d \<or> hf_fallback f = None then licence_for key d else None))"
proof -
  have "named_key key d \<longleftrightarrow> find (\<lambda>l. li_key l = key) (db_licenses d) \<noteq> None"
    by (auto simp: named_key_def find_None_iff)
  then show ?thesis
    by (cases "find (\<lambda>l. li_key l = key) (db_licenses d)")
      (simp_all add: find_license_def get_license_by_key_def get_license_by_license_id_def failing_def licence_for_def
        row_of_def split: option.split)
qed

lemma delivered_failed:
  assumes "key \<noteq> []" "node_id \<noteq> []"
  shows "failed_exchange (exchange_of (fst (handle_heartbeat f (loop_request remote)
    (Some \<lparr>hq_key = key, hq_node = node_id, hq_fp = []\<rparr>) now d))) = missed key d (Delivered f remote now)"
proof -
  let ?h = "handle_heartbeat f (loop_request remote) (Some \<lparr>hq_key = key, hq_node = node_id, hq_fp = []\<rparr>) now d"
  have head: "?h = (case find_license f key d of
            Inl e \<Rightarrow> (if is_context_timeout e then write_db_timeout else internal_error, d)
          | Inr None \<Rightarrow> (locked_response [] [] [], d)
          | Inr (Some l) \<Rightarrow>
              if li_status l = ''revoked'' then (locked_response ''revoked'' (li_plan l) ''license_revoked'', d)
              else if li_status l = ''suspended''
              then ((200, Heartbeat_json \<lparr>hr_valid = False, hr_lock = False, hr_status = ''suspended'',
                      hr_plan = li_plan l, hr_expires = None, hr_config = None,
                      hr_reason = ''license_suspended''\<rparr>), d)
              else answer_heartbeat f (loop_request remote) \<lparr>hq_key = key, hq_node = node_id, hq_fp = []\<rparr> now (license_expired now l)
                (if license_expired now l \<and> li_status l = ''active'' then l\<lparr>li_status := ''expired''\<rparr> else l)
                (if license_expired now l \<and> li_status l = ''active''
                 then snd (update_license_status (hf_status f) (li_license_id l) ''expired'' d) else d))"
    using assms by (simp add: handle_heartbeat_def loop_request_def Let_def split: sum.split option.split)
  show ?thesis
  proof (cases "hf_lookup f")
    case (Some e)
    then show ?thesis
      by (simp add: head find_license_cases exchange_of_def write_db_timeout_def internal_error_def)
  next
    case None
    then show ?thesis
      by (cases "licence_for key d")
        (auto simp: head find_license_cases exchange_of_def locked_response_def answer_heartbeat_eq refused_key_def)
  qed
qed

lemma beat_step_state:
  assumes "table_ok d" "key \<noteq> []" "node_id \<noteq> []"
  shows "\<exists>x now. snd (beat_step key node_id e (d, st)) = send_heartbeat (Some on_plan_config) x now st \<and>
      failed_exchange x = missed key d e \<and>
    table_ok (fst (beat_step key node_id e (d, st))) \<and>
    missed key (fst (beat_step key node_id e (d, st))) = missed key d"
proof (cases e)
  case (Lost now)
  then show ?thesis using assms(1) by (intro exI [of _ Unsent] exI [of _ now]) simp
next
  case (Delivered f remote now)
  let ?res = "handle_heartbeat f (loop_request remote) (Some \<lparr>hq_key = key, hq_node = node_id, hq_fp = []\<rparr>) now d"
  have "missed key (snd ?res) = missed key d"
    using named_key_heartbeat refused_key_heartbeat [OF assms(1), of "Some \<lparr>hq_key = key, hq_node = node_id, hq_fp = []\<rparr>"]
    by (intro ext) (case_tac x; simp)
  then show ?thesis
    using Delivered assms delivered_failed [of key node_id f remote now d] table_ok_heartbeat
    by (intro exI [of _ "exchange_of (fst ?res)"] exI [of _ now]) (simp add: case_prod_unfold Let_def)
qed

text \<open>The run as heartbeats of the client alone, with the verdicts of the master.\<close>

lemma beat_run_beats:
  assumes "table_ok d" "key \<noteq> []" "node_id \<noteq> []"
  shows "\<exists>xs. snd (beat_run key node_id evs (d, st)) = beats (Some on_plan_config) xs st \<and>
    map (\<lambda>b. failed_exchange (fst b)) xs = map (missed key d) evs \<and>
    table_ok (fst (beat_run key node_id evs (d, st))) \<and>
    missed key (fst (beat_run key node_id evs (d, st))) = missed key d"
proof (induction evs rule: rev_induct)
  case Nil
  then show ?case using assms(1) by (simp add: beat_run_def beats_def)
next
  case (snoc e evs)
  then obtain xs where xs: "snd (beat_run key node_id evs (d, st)) = beats (Some on_plan_config) xs st"
    "map (\<lambda>b. failed_exchange (fst b)) xs = map (missed key d) evs"
    "table_ok (fst (beat_run key node_id evs (d, st)))"
    "missed key (fst (beat_run key node_id evs (d, st))) = missed key d" by auto
  have run: "beat_run key node_id (evs @ [e]) (d, st) = beat_step key node_id e
      (fst (beat_run key node_id evs (d, st)), beats (Some on_plan_config) xs st)"
    by (simp add: beat_run_def flip: xs(1))
  obtain x now where x: "snd (beat_run key node_id (evs @ [e]) (d, st)) =
      send_heartbeat (Some on_plan_config) x now (beats (Some on_plan_config) xs st)"
    "failed_exchange x = missed key d e" "table_ok (fst (beat_run key node_id (evs @ [e]) (d, st)))"
    "missed key (fst (beat_run key node_id (evs @ [e]) (d, st))) = missed key d"
    using beat_step_state [OF xs(3) assms(2,3), of e "beats (Some on_plan_config) xs st"]
    unfolding run xs(4) by auto
  then show ?case using xs(2) by (intro exI [of _ "xs @ [(x, now)]"]) (simp add: beats_snoc)
qed

definition fresh_node :: node where
  "fresh_node = \<lparr>nd_limiter = new_limiter \<lparr>soft_threshold = 120, hard_threshold = 300, subnet_threshold = 1200,
     window_duration = 60 * nanos\<rparr>, nd_xdp_func = False, nd_xdp_started = False\<rparr>"

text \<open>
  At the end of any sequence of heartbeats the client is locked exactly when the last three were
  missed. A suspended licence is not missed: its answer counts as a success, though the comments of
  \<^verbatim>\<open>handleHeartbeat\<close> and of \<^verbatim>\<open>SetSuspended\<close> say that it stops the client (nothing calls \<^verbatim>\<open>SetSuspended\<close>).
\<close>

lemma lock_counts_missed:
  assumes "table_ok d" "key \<noteq> []" "node_id \<noteq> []"
  shows "lk_locked (fst (snd (beat_run key node_id evs (d, new_lockdown admins, n)))) \<longleftrightarrow>
    3 \<le> length (takeWhile (missed key d) (rev evs))"
proof -
  obtain xs where xs: "snd (beat_run key node_id evs (d, new_lockdown admins, n)) =
      beats (Some on_plan_config) xs (new_lockdown admins, n)"
    "map (\<lambda>b. failed_exchange (fst b)) xs = map (missed key d) evs"
    using beat_run_beats [OF assms, where st = "(new_lockdown admins, n)"] by blast
  have "length (takeWhile P ys) = length (takeWhile id (map P ys))" for P :: "'b \<Rightarrow> bool" and ys
    by (induction ys) auto
  then have "failures_in_row xs = length (takeWhile id (rev (map (\<lambda>b. failed_exchange (fst b)) xs)))"
    by (simp add: failures_in_row_def rev_map comp_def)
  also have "\<dots> = length (takeWhile (missed key d) (rev evs))"
    unfolding xs(2) by (induction evs rule: rev_induct) (auto simp: rev_map)
  finally show ?thesis using lockdown_tracks [of "Some on_plan_config" xs admins n] xs(1) by simp
qed

text \<open>
  C13. The lock follows the master. For a client whose key and node id are not empty, a licence table
  with distinct ids and keys, and a key that is not that of a suspended licence, over any sequence of
  heartbeats, each lost or delivered to the master at any instant with any faults of its queries: at
  the end the client is locked exactly when the last three heartbeats were each lost, answered with
  an error because their look-up failed, or sent under a key that is unknown or revoked. So a licence
  that is expired or downgraded never locks a client that reaches the master, one that is refused
  locks it at the third heartbeat, and the counters never decide otherwise.
\<close>

theorem lock_follows_master:
  assumes "table_ok d" "key \<noteq> []" "node_id \<noteq> []"
    and "\<forall>l\<in>set (db_licenses d). key \<in> {li_key l, li_license_id l} \<longrightarrow> li_status l \<noteq> ''suspended''"
  shows "lk_locked (fst (snd (beat_run key node_id evs (d, new_lockdown admins, n)))) \<longleftrightarrow>
    3 \<le> length (takeWhile (missed key d) (rev evs))"
  by (rule lock_counts_missed) (rule assms)+

theorem lock_follows_master_witness:
  "lk_locked (fst (snd (beat_run ''K3'' ''n'' [Delivered no_faults ''10.0.0.1:1'' 5, Lost 6,
      Delivered (no_faults\<lparr>hf_lookup := Some Canceled\<rparr>) ''10.0.0.1:1'' 7, Lost 8]
      (sample_db, new_lockdown [], fresh_node))))"
  by (subst lock_follows_master) (simp_all add: sample_db_ok no_faults_def, simp add: sample_db_def sample_license_def)

text \<open>
  The unlimited plan lifts no limit of a running client. The enterprise plan is sent with
  zero limits, which stand for unlimited; the callback applies only positive ones, so a
  heartbeat that is answered with the enterprise configuration leaves the limiter's thresholds
  as they were, those of an earlier community answer included, which had set 60 requests per
  address and 600 per subnet.
\<close>

theorem enterprise_keeps_old_limits:
  assumes "plan_configs ''community'' = Some c" "plan_configs ''enterprise'' = Some e"
  shows "get_thresholds (nd_limiter (on_plan_config e (on_plan_config c n))) =
      (60, hard_threshold (lim_config (nd_limiter n)), 600) \<and>
    nd_limiter (on_plan_config e n) = nd_limiter n"
  using assms by (auto simp: plan_configs_def on_plan_config_def update_thresholds_def get_thresholds_def Let_def)

theorem enterprise_keeps_old_limits_witness:
  "get_thresholds (nd_limiter (on_plan_config (the (plan_configs ''enterprise''))
     (on_plan_config (the (plan_configs ''community'')) fresh_node))) = (60, 300, 600)"
  using enterprise_keeps_old_limits [of "the (plan_configs ''community'')" "the (plan_configs ''enterprise'')" fresh_node]
  by (simp add: plan_configs_def fresh_node_def new_limiter_def)

end
