(* ===== verification/ClientConfig.thy ===== *)
theory ClientConfig
  imports Lockdown Strings
begin

text \<open>
  The client's configuration, \<^verbatim>\<open>internal/client/config_load.go\<close>, \<^verbatim>\<open>config_yaml.go\<close> and
  \<^verbatim>\<open>config_validate.go\<close>: a YAML file, the environment over it, defaults for what is zero, and
  the validation that reports every failure. The environment is a function, empty for an unset
  variable. What \<^verbatim>\<open>yaml.v3\<close> makes of the file and what \<^verbatim>\<open>url.Parse\<close> makes of a text (the scheme
  and the host, \<open>None\<close> for an error) are arguments.
\<close>

record client_config =
  cc_listen :: string
  cc_backend :: string
  cc_master :: string
  cc_license :: string
  cc_secret :: string
  cc_node :: string
  cc_pow :: int
  cc_hold :: int
  cc_rpm :: int
  cc_subnet :: int
  cc_hard :: int
  cc_ttl :: int
  cc_blocklist :: string
  cc_sync :: string
  cc_heartbeat :: int
  cc_update :: int
  cc_admins :: "string list"
  cc_challenge_all :: bool
  cc_transparent :: int
  cc_cookie_ttl :: int
  cc_esc_threshold :: int
  cc_esc_cooldown :: int
  cc_cookie_rate :: int
  cc_trust :: string
  cc_countries :: string
  cc_geoip :: string

record client_section =
  cs_secret :: string
  cs_master :: string
  cs_listen :: string
  cs_node :: string
  cs_pow :: int
  cs_hold :: int
  cs_rpm :: int
  cs_subnet :: int
  cs_hard :: int
  cs_ttl :: int
  cs_blocklist :: string
  cs_sync :: string
  cs_heartbeat :: int
  cs_update :: int
  cs_challenge_all :: bool
  cs_transparent :: int
  cs_cookie_ttl :: int
  cs_esc_threshold :: int
  cs_esc_cooldown :: int
  cs_cookie_rate :: int
  cs_trust :: string
  cs_countries :: string
  cs_geoip :: string

record client_yaml =
  cy_license :: string
  cy_allow_ips :: "string list"
  cy_backends :: "string list"
  cy_profile :: string
  cy_client :: client_section

record profile_rates =
  pr_rpm :: int
  pr_subnet :: int
  pr_hard :: int

definition protection_profile :: "string \<Rightarrow> profile_rates option" where
  "protection_profile p =
     (if p = ''light'' then Some \<lparr>pr_rpm = 200, pr_subnet = 3000, pr_hard = 600\<rparr>
      else if p = ''balanced'' then Some \<lparr>pr_rpm = 120, pr_subnet = 1800, pr_hard = 360\<rparr>
      else if p = ''strict'' then Some \<lparr>pr_rpm = 60, pr_subnet = 900, pr_hard = 180\<rparr>
      else if p = ''lockdown'' then Some \<lparr>pr_rpm = 30, pr_subnet = 450, pr_hard = 90\<rparr>
      else None)"

definition profile_or_balanced :: "string \<Rightarrow> profile_rates" where
  "profile_or_balanced p = (case protection_profile p of Some r \<Rightarrow> r
     | None \<Rightarrow> if p \<noteq> [] then \<lparr>pr_rpm = 120, pr_subnet = 1800, pr_hard = 360\<rparr>
         else \<lparr>pr_rpm = 0, pr_subnet = 0, pr_hard = 0\<rparr>)"

definition load_from_yaml :: "client_yaml \<Rightarrow> client_config" where
  "load_from_yaml y =
     (let s = cy_client y; p = profile_or_balanced (cy_profile y) in
      \<lparr>cc_listen = cs_listen s,
       cc_backend = (case cy_backends y of [] \<Rightarrow> [] | b # _ \<Rightarrow> b),
       cc_master = cs_master s,
       cc_license = cy_license y,
       cc_secret = cs_secret s,
       cc_node = cs_node s,
       cc_pow = cs_pow s,
       cc_hold = cs_hold s,
       cc_rpm = (if cs_rpm s \<noteq> 0 then cs_rpm s else pr_rpm p),
       cc_subnet = (if cs_subnet s \<noteq> 0 then cs_subnet s else pr_subnet p),
       cc_hard = (if cs_hard s \<noteq> 0 then cs_hard s else pr_hard p),
       cc_ttl = cs_ttl s,
       cc_blocklist = cs_blocklist s,
       cc_sync = cs_sync s,
       cc_heartbeat = cs_heartbeat s,
       cc_update = cs_update s,
       cc_admins = cy_allow_ips y,
       cc_challenge_all = cs_challenge_all s,
       cc_transparent = cs_transparent s,
       cc_cookie_ttl = cs_cookie_ttl s,
       cc_esc_threshold = cs_esc_threshold s,
       cc_esc_cooldown = cs_esc_cooldown s,
       cc_cookie_rate = cs_cookie_rate s,
       cc_trust = cs_trust s,
       cc_countries = cs_countries s,
       cc_geoip = cs_geoip s\<rparr>)"

subsection \<open>The environment\<close>

type_synonym environ = "string \<Rightarrow> string"

definition env_trimmed :: "environ \<Rightarrow> string \<Rightarrow> string" where
  "env_trimmed env k = trim_space (env k)"

definition env_trimmed_int :: "environ \<Rightarrow> string \<Rightarrow> int" where
  "env_trimmed_int env k =
     (let v = env_trimmed env k in if v = [] then 0 else case parse_int64 v of None \<Rightarrow> 0 | Some n \<Rightarrow> n)"

definition split_ips :: "string \<Rightarrow> string list" where
  "split_ips v = filter (\<lambda>s. s \<noteq> []) (map trim_space (split_on CHR '','' v))"

definition over_str :: "environ \<Rightarrow> string \<Rightarrow> (string \<Rightarrow> client_config \<Rightarrow> client_config) \<Rightarrow> client_config \<Rightarrow> client_config" where
  "over_str env k upd c = (let v = env_trimmed env k in if v \<noteq> [] then upd v c else c)"

definition over_int :: "environ \<Rightarrow> string \<Rightarrow> (int \<Rightarrow> client_config \<Rightarrow> client_config) \<Rightarrow> client_config \<Rightarrow> client_config" where
  "over_int env k upd c = (let v = env_trimmed_int env k in if 0 < v then upd v c else c)"

definition apply_env_overrides :: "environ \<Rightarrow> client_config \<Rightarrow> client_config" where
  "apply_env_overrides env = fold (\<lambda>f. f)
    [over_str env ''KIRO_LICENSE_KEY'' (\<lambda>v c. c\<lparr>cc_license := v\<rparr>),
     over_str env ''KIRO_BACKEND_URL'' (\<lambda>v c. c\<lparr>cc_backend := v\<rparr>),
     over_str env ''KIRO_MASTER_URL'' (\<lambda>v c. c\<lparr>cc_master := v\<rparr>),
     over_str env ''KIRO_CLIENT_COOKIE_SECRET'' (\<lambda>v c. c\<lparr>cc_secret := v\<rparr>),
     over_str env ''KIRO_CLIENT_LISTEN'' (\<lambda>v c. c\<lparr>cc_listen := v\<rparr>),
     over_str env ''KIRO_NODE_ID'' (\<lambda>v c. c\<lparr>cc_node := v\<rparr>),
     over_str env ''KIRO_ADMIN_IPS'' (\<lambda>v c. c\<lparr>cc_admins := split_ips v\<rparr>),
     over_int env ''KIRO_RPM_PER_IP'' (\<lambda>v c. c\<lparr>cc_rpm := v\<rparr>),
     over_int env ''KIRO_SUBNET_RPM'' (\<lambda>v c. c\<lparr>cc_subnet := v\<rparr>),
     over_int env ''KIRO_HARD_BLOCK_AFTER'' (\<lambda>v c. c\<lparr>cc_hard := v\<rparr>),
     over_int env ''KIRO_POW_DIFFICULTY'' (\<lambda>v c. c\<lparr>cc_pow := v\<rparr>),
     over_int env ''KIRO_HOLD_SECONDS'' (\<lambda>v c. c\<lparr>cc_hold := v\<rparr>),
     over_int env ''KIRO_BLOCK_TTL_SECONDS'' (\<lambda>v c. c\<lparr>cc_ttl := v\<rparr>),
     over_str env ''KIRO_XDP_BLOCKLIST_FILE'' (\<lambda>v c. c\<lparr>cc_blocklist := v\<rparr>),
     over_str env ''KIRO_XDP_SYNC_COMMAND'' (\<lambda>v c. c\<lparr>cc_sync := v\<rparr>),
     over_int env ''KIRO_HEARTBEAT_SECONDS'' (\<lambda>v c. c\<lparr>cc_heartbeat := v\<rparr>),
     over_int env ''KIRO_UPDATE_SECONDS'' (\<lambda>v c. c\<lparr>cc_update := v\<rparr>),
     over_str env ''KIRO_CHALLENGE_ALL_NEW'' (\<lambda>v c. c\<lparr>cc_challenge_all := (v = ''true'' \<or> v = ''1'')\<rparr>),
     over_int env ''KIRO_TRANSPARENT_TTL'' (\<lambda>v c. c\<lparr>cc_transparent := v\<rparr>),
     over_int env ''KIRO_COOKIE_SHORT_TTL'' (\<lambda>v c. c\<lparr>cc_cookie_ttl := v\<rparr>),
     over_int env ''KIRO_ESCALATION_THRESHOLD'' (\<lambda>v c. c\<lparr>cc_esc_threshold := v\<rparr>),
     over_int env ''KIRO_ESCALATION_COOLDOWN'' (\<lambda>v c. c\<lparr>cc_esc_cooldown := v\<rparr>),
     over_int env ''KIRO_COOKIE_RATE_LIMIT'' (\<lambda>v c. c\<lparr>cc_cookie_rate := v\<rparr>),
     over_str env ''KIRO_CF_TRUST_MODE'' (\<lambda>v c. c\<lparr>cc_trust := v\<rparr>),
     over_str env ''KIRO_XDP_BLOCKED_COUNTRIES'' (\<lambda>v c. c\<lparr>cc_countries := v\<rparr>),
     over_str env ''KIRO_GEOIP_CSV_PATH'' (\<lambda>v c. c\<lparr>cc_geoip := v\<rparr>)]"

definition has_legacy_env_vars :: "environ \<Rightarrow> bool" where
  "has_legacy_env_vars env = list_ex (\<lambda>k. trim_space (env k) \<noteq> [])
     [''KIRO_LICENSE_KEY'', ''KIRO_BACKEND_URL'', ''KIRO_MASTER_URL'', ''KIRO_CLIENT_COOKIE_SECRET'']"

subsection \<open>Defaults\<close>

definition get_hostname :: "string option \<Rightarrow> string" where
  "get_hostname host = (case host of None \<Rightarrow> ''kiro-client'' | Some h \<Rightarrow> if h = [] then ''kiro-client'' else h)"

definition fill_str :: "(client_config \<Rightarrow> string) \<Rightarrow> (client_config \<Rightarrow> client_config) \<Rightarrow> client_config \<Rightarrow> client_config" where
  "fill_str sel upd c = (if sel c = [] then upd c else c)"

definition fill_int :: "(client_config \<Rightarrow> int) \<Rightarrow> (client_config \<Rightarrow> client_config) \<Rightarrow> client_config \<Rightarrow> client_config" where
  "fill_int sel upd c = (if sel c = 0 then upd c else c)"

definition apply_defaults :: "string option \<Rightarrow> client_config \<Rightarrow> client_config" where
  "apply_defaults host = fold (\<lambda>f. f)
    [fill_str cc_listen (\<lambda>c. c\<lparr>cc_listen := '':8090''\<rparr>),
     fill_str cc_node (\<lambda>c. c\<lparr>cc_node := get_hostname host\<rparr>),
     fill_int cc_pow (\<lambda>c. c\<lparr>cc_pow := 4\<rparr>),
     fill_int cc_hold (\<lambda>c. c\<lparr>cc_hold := 2\<rparr>),
     fill_int cc_ttl (\<lambda>c. c\<lparr>cc_ttl := 900\<rparr>),
     fill_str cc_blocklist (\<lambda>c. c\<lparr>cc_blocklist := ''/var/lib/kiro/xdp-blocklist.txt''\<rparr>),
     fill_str cc_sync (\<lambda>c. c\<lparr>cc_sync := ''/usr/local/bin/kiro-xdp-sync''\<rparr>),
     fill_int cc_heartbeat (\<lambda>c. c\<lparr>cc_heartbeat := 60\<rparr>),
     fill_int cc_update (\<lambda>c. c\<lparr>cc_update := 300\<rparr>),
     fill_int cc_transparent (\<lambda>c. c\<lparr>cc_transparent := 30\<rparr>),
     fill_int cc_cookie_ttl (\<lambda>c. c\<lparr>cc_cookie_ttl := 300\<rparr>),
     fill_int cc_esc_threshold (\<lambda>c. c\<lparr>cc_esc_threshold := 3\<rparr>),
     fill_int cc_esc_cooldown (\<lambda>c. c\<lparr>cc_esc_cooldown := 600\<rparr>),
     fill_int cc_cookie_rate (\<lambda>c. c\<lparr>cc_cookie_rate := 300\<rparr>),
     fill_str cc_trust (\<lambda>c. c\<lparr>cc_trust := ''strict''\<rparr>),
     fill_int cc_rpm (\<lambda>c. c\<lparr>cc_rpm := 120\<rparr>),
     fill_int cc_subnet (\<lambda>c. c\<lparr>cc_subnet := 1800\<rparr>),
     fill_int cc_hard (\<lambda>c. c\<lparr>cc_hard := 360\<rparr>)]"

subsection \<open>The older loader from the environment alone\<close>

definition env_default :: "environ \<Rightarrow> string \<Rightarrow> string \<Rightarrow> string" where
  "env_default env k fallback = (let v = trim_space (env k) in if v \<noteq> [] then v else fallback)"

text \<open>Digits only, and no check of the range: the sum wraps.\<close>

fun env_digits :: "int \<Rightarrow> string \<Rightarrow> int option" where
  "env_digits n [] = Some n"
| "env_digits n (c # cs) =
     (case digit_val c of None \<Rightarrow> None | Some d \<Rightarrow> env_digits (i64 (n * 10 + d)) cs)"

definition env_int :: "environ \<Rightarrow> string \<Rightarrow> int \<Rightarrow> int" where
  "env_int env k fallback =
     (let v = trim_space (env k) in
      if v = [] then fallback else case env_digits 0 v of None \<Rightarrow> fallback | Some n \<Rightarrow> n)"

definition load_config :: "string option \<Rightarrow> environ \<Rightarrow> client_config" where
  "load_config host env =
     \<lparr>cc_listen = env_default env ''KIRO_CLIENT_LISTEN'' '':8090'',
      cc_backend = env ''KIRO_BACKEND_URL'',
      cc_master = env ''KIRO_MASTER_URL'',
      cc_license = env ''KIRO_LICENSE_KEY'',
      cc_secret = env ''KIRO_CLIENT_COOKIE_SECRET'',
      cc_node = env_default env ''KIRO_NODE_ID'' (get_hostname host),
      cc_pow = env_int env ''KIRO_POW_DIFFICULTY'' 4,
      cc_hold = env_int env ''KIRO_HOLD_SECONDS'' 2,
      cc_rpm = env_int env ''KIRO_RPM_PER_IP'' 120,
      cc_subnet = env_int env ''KIRO_SUBNET_RPM'' 1800,
      cc_hard = env_int env ''KIRO_HARD_BLOCK_AFTER'' 360,
      cc_ttl = env_int env ''KIRO_BLOCK_TTL_SECONDS'' 900,
      cc_blocklist = env_default env ''KIRO_XDP_BLOCKLIST_FILE'' ''/var/lib/kiro/xdp-blocklist.txt'',
      cc_sync = env_default env ''KIRO_XDP_SYNC_COMMAND'' [],
      cc_heartbeat = env_int env ''KIRO_HEARTBEAT_SECONDS'' 60,
      cc_update = env_int env ''KIRO_UPDATE_SECONDS'' 300,
      cc_admins = split_ips (trim_space (env ''KIRO_ADMIN_IPS'')),
      cc_challenge_all = (env ''KIRO_CHALLENGE_ALL_NEW'' = ''true'' \<or> env ''KIRO_CHALLENGE_ALL_NEW'' = ''1''),
      cc_transparent = env_int env ''KIRO_TRANSPARENT_TTL'' 30,
      cc_cookie_ttl = env_int env ''KIRO_COOKIE_SHORT_TTL'' 300,
      cc_esc_threshold = env_int env ''KIRO_ESCALATION_THRESHOLD'' 3,
      cc_esc_cooldown = env_int env ''KIRO_ESCALATION_COOLDOWN'' 600,
      cc_cookie_rate = env_int env ''KIRO_COOKIE_RATE_LIMIT'' 300,
      cc_trust = env_default env ''KIRO_CF_TRUST_MODE'' ''strict'',
      cc_countries = env_default env ''KIRO_XDP_BLOCKED_COUNTRIES'' [],
      cc_geoip = env_default env ''KIRO_GEOIP_CSV_PATH'' []\<rparr>"

subsection \<open>Validation\<close>

datatype reason = Required | Bad_url | No_host | Bad_cidr string | Not_positive

record field_error =
  fe_field :: string
  fe_reason :: reason

type_synonym url_parser = "string \<Rightarrow> (string \<times> string) option"

definition validate_url :: "url_parser \<Rightarrow> string \<Rightarrow> reason option" where
  "validate_url parse s =
     (case parse s of
        None \<Rightarrow> Some Bad_url
      | Some (scheme, host) \<Rightarrow>
          if scheme \<noteq> ''http'' \<and> scheme \<noteq> ''https'' then Some Bad_url
          else if host = [] then Some No_host else None)"

definition blank :: "string \<Rightarrow> bool" where "blank s \<longleftrightarrow> trim_space s = []"

definition required :: "string \<Rightarrow> string \<Rightarrow> field_error list" where
  "required field v = (if blank v then [\<lparr>fe_field = field, fe_reason = Required\<rparr>] else [])"

definition url_errors :: "url_parser \<Rightarrow> string \<Rightarrow> string \<Rightarrow> field_error list" where
  "url_errors parse field v =
     (if blank v then []
      else case validate_url parse v of None \<Rightarrow> [] | Some e \<Rightarrow> [\<lparr>fe_field = field, fe_reason = e\<rparr>])"

fun cidr_errors :: "nat \<Rightarrow> string list \<Rightarrow> field_error list" where
  "cidr_errors i [] = []"
| "cidr_errors i (a # as) =
     (if parse_cidr a = None
      then [\<lparr>fe_field = ''admin.allow_ips['' @ fmt_int (int i) @ '']'', fe_reason = Bad_cidr a\<rparr>] else [])
     @ cidr_errors (Suc i) as"

definition positive :: "string \<Rightarrow> int \<Rightarrow> field_error list" where
  "positive field n = (if n < 0 then [\<lparr>fe_field = field, fe_reason = Not_positive\<rparr>] else [])"

definition validate_client_config :: "url_parser \<Rightarrow> client_config \<Rightarrow> field_error list" where
  "validate_client_config parse c =
     required ''license_key'' (cc_license c) @ required ''cookie_secret'' (cc_secret c) @
     required ''client.master_url'' (cc_master c) @ required ''backend_url'' (cc_backend c) @
     url_errors parse ''client.master_url'' (cc_master c) @ url_errors parse ''backend_url'' (cc_backend c) @
     cidr_errors 0 (cc_admins c) @
     positive ''client.rpm_per_ip'' (cc_rpm c) @ positive ''client.subnet_rpm'' (cc_subnet c) @
     positive ''client.hard_block_after'' (cc_hard c) @ positive ''client.block_ttl_seconds'' (cc_ttl c) @
     positive ''client.heartbeat_seconds'' (cc_heartbeat c) @ positive ''client.update_seconds'' (cc_update c)"

subsection \<open>Loading\<close>

datatype yaml_file = Absent | Inaccessible | Unreadable | Unparsable | Parsed client_yaml

datatype load_error = No_source | Access_error | Parse_error | Invalid "field_error list"

definition zero_config :: client_config where
  "zero_config = \<lparr>cc_listen = [],
     cc_backend = [],
     cc_master = [],
     cc_license = [],
     cc_secret = [],
     cc_node = [],
     cc_pow = 0,
     cc_hold = 0,
     cc_rpm = 0,
     cc_subnet = 0,
     cc_hard = 0,
     cc_ttl = 0,
     cc_blocklist = [],
     cc_sync = [],
     cc_heartbeat = 0,
     cc_update = 0,
     cc_admins = [],
     cc_challenge_all = False,
     cc_transparent = 0,
     cc_cookie_ttl = 0,
     cc_esc_threshold = 0,
     cc_esc_cooldown = 0,
     cc_cookie_rate = 0,
     cc_trust = [],
     cc_countries = [],
     cc_geoip = []\<rparr>"

definition load_client_config :: "url_parser \<Rightarrow> string option \<Rightarrow> environ \<Rightarrow> yaml_file \<Rightarrow> load_error + client_config" where
  "load_client_config parse host env file =
     (let finish = (\<lambda>c.
        let c = apply_defaults host (apply_env_overrides env c); errs = validate_client_config parse c
        in if errs \<noteq> [] then Inl (Invalid errs) else Inr c)
      in case file of
        Parsed y \<Rightarrow> finish (load_from_yaml y)
      | Unreadable \<Rightarrow> Inl Parse_error
      | Unparsable \<Rightarrow> Inl Parse_error
      | Absent \<Rightarrow> if has_legacy_env_vars env then finish zero_config else Inl No_source
      | Inaccessible \<Rightarrow> Inl Access_error)"

subsection \<open>One step at a time\<close>

lemma over_frame:
  "(\<And>v c. g (upd v c) = g c) \<Longrightarrow> g (over_str env k upd c) = g c"
  by (simp add: over_str_def Let_def)

lemma over_int_frame:
  "(\<And>v c. g (updi v c) = g c) \<Longrightarrow> g (over_int env k updi c) = g c"
  by (simp add: over_int_def Let_def)

lemma fill_frame:
  "(\<And>c. g (upd c) = g c) \<Longrightarrow> g (fill_str sel upd c) = g c"
  "(\<And>c. g (upd c) = g c) \<Longrightarrow> g (fill_int seli upd c) = g c"
  by (simp_all add: fill_str_def fill_int_def)

lemma fill_own: "g (fill_int g upd c) = (if g c = 0 then g (upd c) else g c)"
  by (simp add: fill_int_def)

lemma over_own:
  "g (over_str env k upd c) = (if env_trimmed env k \<noteq> [] then g (upd (env_trimmed env k) c) else g c)"
  "g (over_int env k updi c) = (if 0 < env_trimmed_int env k then g (updi (env_trimmed_int env k) c) else g c)"
  by (simp_all add: over_str_def over_int_def Let_def)

lemmas rpm_steps = over_frame [of cc_rpm] over_int_frame [of cc_rpm] fill_frame [of cc_rpm]
lemmas subnet_steps = over_frame [of cc_subnet] over_int_frame [of cc_subnet] fill_frame [of cc_subnet]
lemmas hard_steps = over_frame [of cc_hard] over_int_frame [of cc_hard] fill_frame [of cc_hard]
lemmas ttl_steps = over_frame [of cc_ttl] over_int_frame [of cc_ttl] fill_frame [of cc_ttl]
lemmas heartbeat_steps = over_frame [of cc_heartbeat] over_int_frame [of cc_heartbeat] fill_frame [of cc_heartbeat]
lemmas update_steps = over_frame [of cc_update] over_int_frame [of cc_update] fill_frame [of cc_update]
lemmas secret_steps = over_frame [of cc_secret] over_int_frame [of cc_secret] fill_frame [of cc_secret]
lemmas license_steps = over_frame [of cc_license] over_int_frame [of cc_license] fill_frame [of cc_license]
lemmas master_steps = over_frame [of cc_master] over_int_frame [of cc_master] fill_frame [of cc_master]
lemmas backend_steps = over_frame [of cc_backend] over_int_frame [of cc_backend] fill_frame [of cc_backend]
lemmas admins_steps = over_frame [of cc_admins] over_int_frame [of cc_admins] fill_frame [of cc_admins]

text \<open>What the environment and the defaults make of the fields the validation bounds.\<close>

definition env_or :: "environ \<Rightarrow> string \<Rightarrow> int \<Rightarrow> int" where
  "env_or env k n = (if 0 < env_trimmed_int env k then env_trimmed_int env k else n)"

lemma overridden:
  "cc_rpm (apply_env_overrides env c) = env_or env ''KIRO_RPM_PER_IP'' (cc_rpm c)"
  "cc_subnet (apply_env_overrides env c) = env_or env ''KIRO_SUBNET_RPM'' (cc_subnet c)"
  "cc_hard (apply_env_overrides env c) = env_or env ''KIRO_HARD_BLOCK_AFTER'' (cc_hard c)"
  "cc_ttl (apply_env_overrides env c) = env_or env ''KIRO_BLOCK_TTL_SECONDS'' (cc_ttl c)"
  "cc_heartbeat (apply_env_overrides env c) = env_or env ''KIRO_HEARTBEAT_SECONDS'' (cc_heartbeat c)"
  "cc_update (apply_env_overrides env c) = env_or env ''KIRO_UPDATE_SECONDS'' (cc_update c)"
  subgoal by (simp add: apply_env_overrides_def rpm_steps env_or_def over_own(2) [of cc_rpm env "''KIRO_RPM_PER_IP''"])
  subgoal by (simp add: apply_env_overrides_def subnet_steps env_or_def over_own(2) [of cc_subnet env "''KIRO_SUBNET_RPM''"])
  subgoal by (simp add: apply_env_overrides_def hard_steps env_or_def over_own(2) [of cc_hard env "''KIRO_HARD_BLOCK_AFTER''"])
  subgoal by (simp add: apply_env_overrides_def ttl_steps env_or_def over_own(2) [of cc_ttl env "''KIRO_BLOCK_TTL_SECONDS''"])
  subgoal by (simp add: apply_env_overrides_def heartbeat_steps env_or_def over_own(2) [of cc_heartbeat env "''KIRO_HEARTBEAT_SECONDS''"])
  subgoal by (simp add: apply_env_overrides_def update_steps env_or_def over_own(2) [of cc_update env "''KIRO_UPDATE_SECONDS''"])
  done

lemma defaulted:
  "cc_rpm (apply_defaults host c) = (if cc_rpm c = 0 then 120 else cc_rpm c)"
  "cc_subnet (apply_defaults host c) = (if cc_subnet c = 0 then 1800 else cc_subnet c)"
  "cc_hard (apply_defaults host c) = (if cc_hard c = 0 then 360 else cc_hard c)"
  "cc_ttl (apply_defaults host c) = (if cc_ttl c = 0 then 900 else cc_ttl c)"
  "cc_heartbeat (apply_defaults host c) = (if cc_heartbeat c = 0 then 60 else cc_heartbeat c)"
  "cc_update (apply_defaults host c) = (if cc_update c = 0 then 300 else cc_update c)"
  subgoal by (simp add: apply_defaults_def rpm_steps fill_own [of cc_rpm])
  subgoal by (simp add: apply_defaults_def subnet_steps fill_own [of cc_subnet])
  subgoal by (simp add: apply_defaults_def hard_steps fill_own [of cc_hard])
  subgoal by (simp add: apply_defaults_def ttl_steps fill_own [of cc_ttl])
  subgoal by (simp add: apply_defaults_def heartbeat_steps fill_own [of cc_heartbeat])
  subgoal by (simp add: apply_defaults_def update_steps fill_own [of cc_update])
  done

definition env_text :: "environ \<Rightarrow> string \<Rightarrow> string \<Rightarrow> string" where
  "env_text env k s = (if env_trimmed env k \<noteq> [] then env_trimmed env k else s)"

lemma overridden_text:
  "cc_license (apply_env_overrides env c) = env_text env ''KIRO_LICENSE_KEY'' (cc_license c)"
  "cc_secret (apply_env_overrides env c) = env_text env ''KIRO_CLIENT_COOKIE_SECRET'' (cc_secret c)"
  "cc_master (apply_env_overrides env c) = env_text env ''KIRO_MASTER_URL'' (cc_master c)"
  "cc_backend (apply_env_overrides env c) = env_text env ''KIRO_BACKEND_URL'' (cc_backend c)"
  "cc_admins (apply_env_overrides env c) = (if env_trimmed env ''KIRO_ADMIN_IPS'' \<noteq> []
     then split_ips (env_trimmed env ''KIRO_ADMIN_IPS'') else cc_admins c)"
  subgoal by (simp add: apply_env_overrides_def license_steps env_text_def over_own(1) [of cc_license env "''KIRO_LICENSE_KEY''"])
  subgoal by (simp add: apply_env_overrides_def secret_steps env_text_def over_own(1) [of cc_secret env "''KIRO_CLIENT_COOKIE_SECRET''"])
  subgoal by (simp add: apply_env_overrides_def master_steps env_text_def over_own(1) [of cc_master env "''KIRO_MASTER_URL''"])
  subgoal by (simp add: apply_env_overrides_def backend_steps env_text_def over_own(1) [of cc_backend env "''KIRO_BACKEND_URL''"])
  subgoal by (simp add: apply_env_overrides_def admins_steps over_own(1) [of cc_admins env "''KIRO_ADMIN_IPS''"])
  done

lemma defaulted_text:
  "cc_license (apply_defaults host c) = cc_license c"
  "cc_secret (apply_defaults host c) = cc_secret c"
  "cc_master (apply_defaults host c) = cc_master c"
  "cc_backend (apply_defaults host c) = cc_backend c"
  "cc_admins (apply_defaults host c) = cc_admins c"
  subgoal by (simp add: apply_defaults_def license_steps)
  subgoal by (simp add: apply_defaults_def secret_steps)
  subgoal by (simp add: apply_defaults_def master_steps)
  subgoal by (simp add: apply_defaults_def backend_steps)
  subgoal by (simp add: apply_defaults_def admins_steps)
  done

subsection \<open>What a loaded configuration satisfies\<close>

definition usable_url :: "url_parser \<Rightarrow> string \<Rightarrow> bool" where
  "usable_url parse s \<longleftrightarrow> \<not> blank s \<and>
     (\<exists>scheme host. parse s = Some (scheme, host) \<and> (scheme = ''http'' \<or> scheme = ''https'') \<and> host \<noteq> [])"

lemma validate_url_ok: "validate_url parse s = None \<longleftrightarrow>
  (\<exists>scheme host. parse s = Some (scheme, host) \<and> (scheme = ''http'' \<or> scheme = ''https'') \<and> host \<noteq> [])"
  by (auto simp: validate_url_def split: option.splits)

lemma cidr_errors_ok: "cidr_errors i as = [] \<longleftrightarrow> (\<forall>a\<in>set as. parse_cidr a \<noteq> None)"
  by (induction i as rule: cidr_errors.induct) auto

lemma url_errors_ok: "required f s = [] \<and> url_errors parse f s = [] \<longleftrightarrow> usable_url parse s"
  by (auto simp: required_def url_errors_def usable_url_def validate_url_ok [symmetric] split: option.splits)

lemma validate_ok: "validate_client_config parse c = [] \<longleftrightarrow>
  \<not> blank (cc_license c) \<and> \<not> blank (cc_secret c) \<and> usable_url parse (cc_master c) \<and> usable_url parse (cc_backend c) \<and>
  (\<forall>a\<in>set (cc_admins c). parse_cidr a \<noteq> None) \<and> 0 \<le> cc_rpm c \<and> 0 \<le> cc_subnet c \<and> 0 \<le> cc_hard c \<and>
  0 \<le> cc_ttl c \<and> 0 \<le> cc_heartbeat c \<and> 0 \<le> cc_update c"
  unfolding url_errors_ok [symmetric, of parse "cc_master c" "''client.master_url''"]
    url_errors_ok [symmetric, of parse "cc_backend c" "''backend_url''"]
  by (auto simp: validate_client_config_def cidr_errors_ok required_def positive_def)

text \<open>The configuration before the validation.\<close>

definition merged :: "string option \<Rightarrow> environ \<Rightarrow> client_config \<Rightarrow> client_config" where
  "merged host env c = apply_defaults host (apply_env_overrides env c)"

lemma load_cases: "load_client_config parse host env file =
  (case (case file of Parsed y \<Rightarrow> Inr (load_from_yaml y) | Unreadable \<Rightarrow> Inl Parse_error | Unparsable \<Rightarrow> Inl Parse_error
     | Inaccessible \<Rightarrow> Inl Access_error
     | Absent \<Rightarrow> if has_legacy_env_vars env then Inr zero_config else Inl No_source) of
    Inl e \<Rightarrow> Inl e
  | Inr c \<Rightarrow> if validate_client_config parse (merged host env c) = [] then Inr (merged host env c)
      else Inl (Invalid (validate_client_config parse (merged host env c))))"
  by (simp add: load_client_config_def Let_def merged_def split: yaml_file.split)

lemma load_Inr: "load_client_config parse host env file = Inr c \<Longrightarrow>
  \<exists>c0. c = merged host env c0 \<and> validate_client_config parse c = []"
  by (auto simp: load_cases split: yaml_file.splits sum.splits if_splits)

lemma merged_nonzero:
  "cc_rpm (merged host env c) \<noteq> 0" "cc_subnet (merged host env c) \<noteq> 0" "cc_hard (merged host env c) \<noteq> 0"
  "cc_ttl (merged host env c) \<noteq> 0" "cc_heartbeat (merged host env c) \<noteq> 0" "cc_update (merged host env c) \<noteq> 0"
  by (simp_all add: merged_def defaulted)

definition demo_section :: client_section where
  "demo_section = \<lparr>cs_secret = ''s3cret'', cs_master = ''http://m'', cs_listen = [], cs_node = [], cs_pow = 0, cs_hold = 0,
     cs_rpm = 0, cs_subnet = 77, cs_hard = 0, cs_ttl = 0, cs_blocklist = [], cs_sync = [], cs_heartbeat = 0, cs_update = 0,
     cs_challenge_all = False, cs_transparent = 0, cs_cookie_ttl = 0, cs_esc_threshold = 0, cs_esc_cooldown = 0,
     cs_cookie_rate = 0, cs_trust = [], cs_countries = [], cs_geoip = []\<rparr>"

definition demo_yaml :: client_yaml where
  "demo_yaml = \<lparr>cy_license = ''L'', cy_allow_ips = [''10.0.0.0/8''], cy_backends = [''http://b''], cy_profile = ''strict'',
     cy_client = demo_section\<rparr>"

definition demo_env :: environ where
  "demo_env k = (if k = ''KIRO_HARD_BLOCK_AFTER'' then ''500'' else [])"

definition demo_parse :: url_parser where
  "demo_parse s = (if prefix ''http://'' s then Some (''http'', drop 7 s) else None)"

lemma demo_trims: "trim_space ''500'' = ''500''" "trim_space ''http://m'' = ''http://m''"
  "trim_space ''http://b'' = ''http://b''" "trim_space ''L'' = ''L''" "trim_space ''s3cret'' = ''s3cret''"
  by (code_simp, code_simp, code_simp, code_simp, code_simp)

lemma demo_five_hundred: "parse_int64 ''500'' = Some 500"
  by (simp add: parse_int64_def parse_sign_def parse_digits_def digit_val_def in_i64_def i64_min_def i64_max_def)

lemma demo_texts:
  "env_trimmed demo_env k = (if k = ''KIRO_HARD_BLOCK_AFTER'' then ''500'' else [])"
  "env_trimmed_int demo_env k = (if k = ''KIRO_HARD_BLOCK_AFTER'' then 500 else 0)"
  by (simp_all add: env_trimmed_def env_trimmed_int_def demo_env_def demo_trims demo_five_hundred)

lemma demo_loads: "\<exists>c. load_client_config demo_parse None demo_env (Parsed demo_yaml) = Inr c"
proof -
  have "parse_cidr ''10.0.0.0/8'' \<noteq> None"
    by (simp add: parse_cidr_def parse_prefix_len_def parse_digits_def digit_val_def Let_def parse_addr_def parse_v4_def)
  then have "validate_client_config demo_parse (merged None demo_env (load_from_yaml demo_yaml)) = []"
    by (simp add: validate_ok merged_def defaulted defaulted_text overridden overridden_text env_text_def env_or_def
        demo_texts demo_trims usable_url_def demo_parse_def blank_def load_from_yaml_def demo_yaml_def demo_section_def
        profile_or_balanced_def protection_profile_def Let_def)
  then show ?thesis by (simp add: load_cases)
qed

text \<open>
  C14. What the loader accepts is sound in the fields it checks, and it checks no other. Of a
  configuration that loads, from a file or the environment, licence, secret, master and backend
  are usable, every admin entry is a CIDR block, and the three rate limits, the ban time and the
  two intervals are positive. And the validation accepts a configuration exactly when licence,
  secret, master and backend are usable, the admin entries are blocks and those six numbers are not
  negative: the other fields, the listen address and the node id, the difficulty, the hold and cookie
  times, the escalation and the GeoIP settings among them, can have any value, also negative numbers.
\<close>

theorem loaded_config_sound:
  assumes "load_client_config parse host env file = Inr c"
  shows "\<not> blank (cc_license c) \<and> \<not> blank (cc_secret c) \<and> usable_url parse (cc_master c) \<and>
    usable_url parse (cc_backend c) \<and> (\<forall>a\<in>set (cc_admins c). parse_cidr a \<noteq> None) \<and>
    0 < cc_rpm c \<and> 0 < cc_subnet c \<and> 0 < cc_hard c \<and> 0 < cc_ttl c \<and> 0 < cc_heartbeat c \<and> 0 < cc_update c \<and>
    (\<forall>c'. validate_client_config parse c' = [] \<longleftrightarrow>
       \<not> blank (cc_license c') \<and> \<not> blank (cc_secret c') \<and> usable_url parse (cc_master c') \<and>
       usable_url parse (cc_backend c') \<and> list_all (\<lambda>a. parse_cidr a \<noteq> None) (cc_admins c') \<and>
       list_all (\<lambda>n. 0 \<le> n) [cc_rpm c', cc_subnet c', cc_hard c', cc_ttl c', cc_heartbeat c', cc_update c'])"
proof -
  obtain c0 where c: "c = merged host env c0" "validate_client_config parse c = []"
    using load_Inr [OF assms] by blast
  note ok = c(2) [unfolded validate_ok]
  from ok merged_nonzero [where host = host and env = env and c = c0]
  show ?thesis unfolding c(1) [symmetric] by (auto simp: less_le validate_ok list_all_iff)
qed

theorem loaded_config_sound_witness:
  "\<exists>c. load_client_config demo_parse None demo_env (Parsed demo_yaml) = Inr c \<and>
    0 < cc_rpm c \<and> (\<forall>a\<in>set (cc_admins c). parse_cidr a \<noteq> None) \<and>
    validate_client_config demo_parse (c\<lparr>cc_listen := [], cc_pow := 65, cc_cookie_ttl := - 1, cc_geoip := ''x''\<rparr>) = []"
proof -
  obtain c where c: "load_client_config demo_parse None demo_env (Parsed demo_yaml) = Inr c" using demo_loads by blast
  note sound = loaded_config_sound [OF c]
  have "validate_client_config demo_parse (c\<lparr>cc_listen := [], cc_pow := 65, cc_cookie_ttl := - 1, cc_geoip := ''x''\<rparr>) = []"
    using sound by (simp add: list_all_iff)
  then show ?thesis using c sound by blast
qed

text \<open>
  The rate limits come from the environment before the file, the file's client section before
  its protection profile, and the profile before the balanced defaults. Of a configuration that
  loads from a file, each of the three limits is the environment's number when that is positive,
  else the client section's when it is not zero, else the profile's, where an unknown or empty
  profile counts as balanced.
\<close>

theorem rate_limit_precedence:
  assumes "load_client_config parse host env (Parsed y) = Inr c"
  shows "let s = cy_client y; p = (case protection_profile (cy_profile y) of
      Some p \<Rightarrow> p | None \<Rightarrow> \<lparr>pr_rpm = 120, pr_subnet = 1800, pr_hard = 360\<rparr>) in
    cc_rpm c = env_or env ''KIRO_RPM_PER_IP'' (if cs_rpm s \<noteq> 0 then cs_rpm s else pr_rpm p) \<and>
    cc_subnet c = env_or env ''KIRO_SUBNET_RPM'' (if cs_subnet s \<noteq> 0 then cs_subnet s else pr_subnet p) \<and>
    cc_hard c = env_or env ''KIRO_HARD_BLOCK_AFTER'' (if cs_hard s \<noteq> 0 then cs_hard s else pr_hard p)"
proof -
  have "c = merged host env (load_from_yaml y)" using assms by (auto simp: load_cases split: if_splits)
  then show ?thesis
    by (auto simp: merged_def defaulted overridden env_or_def load_from_yaml_def Let_def profile_or_balanced_def
        protection_profile_def)
qed

theorem rate_limit_precedence_witness:
  "\<exists>c. load_client_config demo_parse None demo_env (Parsed demo_yaml) = Inr c \<and>
    cc_rpm c = 60 \<and> cc_subnet c = 77 \<and> cc_hard c = 500"
proof -
  obtain c where c: "load_client_config demo_parse None demo_env (Parsed demo_yaml) = Inr c" using demo_loads by blast
  with rate_limit_precedence [OF c] show ?thesis
    by (simp add: Let_def demo_yaml_def demo_section_def protection_profile_def env_or_def demo_texts)
qed

text \<open>
  No administrator survives a lockdown. Once a client runs on a configuration that loaded and
  is locked, it refuses every request whose client address is an IP address: the entries the
  loader accepts are CIDR blocks, and the lockdown compares them as texts with the address.
\<close>

theorem lockdown_admits_no_admin:
  assumes "load_client_config parse host env file = Inr c" "lk_admins l = cc_admins c" "lk_locked l"
    and "parse_ip (client_ip r) \<noteq> None"
  shows "lockdown_middleware l h r = Unavailable"
proof -
  have "\<forall>a\<in>set (lk_admins l). parse_cidr a \<noteq> None"
    using load_Inr [OF assms(1)] assms(2) by (auto simp: validate_ok)
  then show ?thesis using locked_refuses assms(3,4) by blast
qed

theorem lockdown_admits_no_admin_witness:
  "\<exists>c. load_client_config demo_parse None demo_env (Parsed demo_yaml) = Inr c \<and>
    lockdown_middleware ((new_lockdown (cc_admins c))\<lparr>lk_locked := True\<rparr>) (\<lambda>_. True)
      (plain_get ''/'' ''10.0.0.9:5000'') = Unavailable"
proof -
  obtain c where c: "load_client_config demo_parse None demo_env (Parsed demo_yaml) = Inr c" using demo_loads by blast
  have "parse_ip (client_ip (plain_get ''/'' ''10.0.0.9:5000'')) \<noteq> None"
    using client_of_plain by (simp add: parse_ip_def parse_addr_def parse_v4_def digit_val_def)
  with lockdown_admits_no_admin [OF c, of "(new_lockdown (cc_admins c))\<lparr>lk_locked := True\<rparr>"
      "plain_get ''/'' ''10.0.0.9:5000''" "\<lambda>_. True"] c
  show ?thesis by (simp add: new_lockdown_def)
qed

end
