(* ===== verification/Slots.thy ===== *)
theory Slots
  imports Prelude "HOL-Library.Multiset"
begin

text \<open>
  Bounded resources that goroutines take a slot of: the contract (a locale on a channel that is
  used as a counting semaphore) and its first provider, the request semaphore of
  \<^verbatim>\<open>internal/client/proxy/semaphore.go\<close> with the two middlewares of that file. The other
  provider is the connection pool (theory ConnPool).

  A goroutine is an element of a list; a step of the program is a step of one of them. A
  channel of empty structs is its capacity and its length: a send needs length < capacity, a
  receive needs length > 0, or the goroutine blocks.
\<close>

subsection \<open>Sums over the goroutines\<close>

text \<open>What a step of goroutine \<open>i\<close> changes in a sum is what it changes in its own summand.\<close>

lemma sum_frame:
  fixes f :: "'a \<Rightarrow> 'b::comm_monoid_add"
  assumes "i < length xs"
  obtains r where "sum_list (map f xs) = r + f (xs ! i)"
    and "\<And>y. sum_list (map f (xs[i := y])) = r + f y"
proof
  have xs: "xs = take i xs @ xs ! i # drop (Suc i) xs" by (rule id_take_nth_drop [OF assms])
  show "sum_list (map f xs) = sum_list (map f (take i xs)) + sum_list (map f (drop (Suc i) xs)) + f (xs ! i)"
    by (subst xs) (simp add: ac_simps)
  show "sum_list (map f (xs[i := y])) =
      sum_list (map f (take i xs)) + sum_list (map f (drop (Suc i) xs)) + f y" for y
    using assms by (simp add: upd_conv_take_nth_drop ac_simps)
qed

lemma sum_list_ge_member: "i < length xs \<Longrightarrow> f (xs ! i) \<le> (sum_list (map f xs) :: nat)"
  by (metis elem_le_sum_list length_map nth_map)

subsection \<open>The contract of a channel used as a semaphore\<close>

text \<open>
  \<open>slot_move used cap held p p'\<close>: what one goroutine may do to a channel of capacity \<open>cap\<close>
  that holds \<open>used\<close> tokens: send one when there is room, receive one when there is one, or
  leave it alone; \<open>held\<close> is the number of tokens the goroutine answers for.
\<close>

definition slot_move :: "nat \<Rightarrow> nat \<Rightarrow> nat \<Rightarrow> nat \<Rightarrow> nat \<Rightarrow> bool" where
  "slot_move cap used held used' held' \<longleftrightarrow>
     used < cap \<and> used' = Suc used \<and> held' = Suc held \<or>
     0 < used \<and> used = Suc used' \<and> held = Suc held' \<or>
     used' = used \<and> held' = held"

locale slot_discipline =
  fixes step :: "'s \<Rightarrow> 's \<Rightarrow> bool"
    and procs :: "'s \<Rightarrow> 'p list"
    and used :: "'s \<Rightarrow> nat"
    and holds :: "'p \<Rightarrow> nat"
    and cap :: "'s \<Rightarrow> nat"
  assumes step_moves: "step s s' \<Longrightarrow> \<exists>i p'. i < length (procs s) \<and> procs s' = (procs s)[i := p'] \<and>
      cap s' = cap s \<and> slot_move (cap s) (used s) (holds (procs s ! i)) (used s') (holds p')"
begin

definition slots_kept :: "'s \<Rightarrow> bool" where
  "slots_kept s \<longleftrightarrow> used s = sum_list (map holds (procs s)) \<and> used s \<le> cap s"

lemma slots_kept_step:
  assumes "slots_kept s" "step s s'"
  shows "slots_kept s'"
proof -
  obtain i p' where i: "i < length (procs s)" "procs s' = (procs s)[i := p']" "cap s' = cap s"
    and mv: "slot_move (cap s) (used s) (holds (procs s ! i)) (used s') (holds p')"
    using step_moves [OF assms(2)] by blast
  obtain r where "sum_list (map holds (procs s)) = r + holds (procs s ! i)"
    and "sum_list (map holds (procs s')) = r + holds p'"
    using sum_frame [OF i(1)] i(2) by metis
  with assms(1) mv i(3) show ?thesis by (auto simp: slots_kept_def slot_move_def)
qed

lemma slots_kept_run: "step\<^sup>*\<^sup>* s s' \<Longrightarrow> slots_kept s \<Longrightarrow> slots_kept s'"
  by (induction rule: rtranclp_induct) (auto intro: slots_kept_step)

text \<open>The receive that gives a slot back never blocks.\<close>

lemma release_ready:
  assumes "slots_kept s" "i < length (procs s)" "0 < holds (procs s ! i)"
  shows "0 < used s"
  using assms sum_list_ge_member [of i "procs s" holds] by (simp add: slots_kept_def)

end

subsection \<open>The request semaphore\<close>

record semaphore =
  sm_cap :: nat
  sm_len :: nat

definition default_max_goroutines :: int where "default_max_goroutines = 10000"

definition new_semaphore :: "int \<Rightarrow> semaphore" where
  "new_semaphore mx =
     (let m = (if mx \<le> 0 then default_max_goroutines else mx)
      in \<lparr>sm_cap = nat m, sm_len = 0\<rparr>)"

definition acquire :: "semaphore \<Rightarrow> bool \<times> semaphore" where
  "acquire s = (if sm_len s < sm_cap s then (True, s\<lparr>sm_len := Suc (sm_len s)\<rparr>) else (False, s))"

text \<open>\<open>None\<close>: the receive blocks.\<close>

definition sem_release :: "semaphore \<Rightarrow> semaphore option" where
  "sem_release s = (if sm_len s = 0 then None else Some (s\<lparr>sm_len := sm_len s - 1\<rparr>))"

definition sem_len :: "semaphore \<Rightarrow> nat" where "sem_len s = sm_len s"

definition sem_cap :: "semaphore \<Rightarrow> nat" where "sem_cap s = sm_cap s"

subsection \<open>The middlewares\<close>

text \<open>
  What a handler did to the response: the status and body it has written, if any, and whether
  it panicked. \<^verbatim>\<open>http.Error\<close> after a written header only appends its text.
\<close>

record handler_run =
  hr_status :: "nat option"
  hr_body :: string
  hr_panic :: bool

definition http_error :: "string \<Rightarrow> nat \<Rightarrow> handler_run \<Rightarrow> handler_run" where
  "http_error msg code r =
     r\<lparr>hr_status := Some (case hr_status r of None \<Rightarrow> code | Some c \<Rightarrow> c), hr_body := hr_body r @ msg @ [CHR 0x0A]\<rparr>"

definition recover_middleware :: "handler_run \<Rightarrow> handler_run" where
  "recover_middleware r =
     (if hr_panic r then http_error ''internal server error'' 500 (r\<lparr>hr_panic := False\<rparr>) else r)"

definition no_run :: handler_run where
  "no_run = \<lparr>hr_status = None, hr_body = [], hr_panic = False\<rparr>"

text \<open>
  One request in \<^verbatim>\<open>SemaphoreMiddleware\<close>: it has arrived, it is refused with its answer, it is
  in the next handler, or it is over. The deferred release runs after a panic as after a
  return, and a panic goes on to the caller.
\<close>

datatype request_thread = Arrived | Serving | Over handler_run

record server_state =
  sv_sem :: semaphore
  sv_threads :: "request_thread list"

inductive middleware_step :: "semaphore \<times> request_thread \<Rightarrow> semaphore \<times> request_thread \<Rightarrow> bool" where
  admitted: "acquire s = (True, s') \<Longrightarrow> middleware_step (s, Arrived) (s', Serving)"
| refused: "acquire s = (False, s') \<Longrightarrow>
    middleware_step (s, Arrived)
      (s', Over (http_error ''Service Unavailable: goroutine limit reached'' 503 no_run))"
| served: "sem_release s = Some s' \<Longrightarrow> middleware_step (s, Serving) (s', Over r)"

inductive_cases middleware_stepE: "middleware_step (s, t) (s', t')"

inductive server_step :: "server_state \<Rightarrow> server_state \<Rightarrow> bool" where
  "i < length (sv_threads w) \<Longrightarrow> middleware_step (sv_sem w, sv_threads w ! i) (s', t') \<Longrightarrow>
     server_step w (w\<lparr>sv_sem := s', sv_threads := (sv_threads w)[i := t']\<rparr>)"

fun in_handler :: "request_thread \<Rightarrow> nat" where
  "in_handler Serving = 1"
| "in_handler t = 0"

definition server_start :: "int \<Rightarrow> nat \<Rightarrow> server_state" where
  "server_start mx n = \<lparr>sv_sem = new_semaphore mx, sv_threads = replicate n Arrived\<rparr>"

lemma middleware_moves:
  assumes "middleware_step (s, t) (s', t')"
  shows "sm_cap s' = sm_cap s \<and> slot_move (sm_cap s) (sm_len s) (in_handler t) (sm_len s') (in_handler t')"
  using assms
  by (cases rule: middleware_stepE)
    (auto simp: acquire_def sem_release_def slot_move_def split: if_splits)

interpretation requests: slot_discipline server_step sv_threads "\<lambda>w. sm_len (sv_sem w)" in_handler
    "\<lambda>w. sm_cap (sv_sem w)"
proof
  fix s s' assume "server_step s s'"
  then obtain i s1 t1 where "i < length (sv_threads s)"
      "middleware_step (sv_sem s, sv_threads s ! i) (s1, t1)"
      "s' = s\<lparr>sv_sem := s1, sv_threads := (sv_threads s)[i := t1]\<rparr>"
    by (cases rule: server_step.cases) auto
  with middleware_moves [OF this(2)]
  show "\<exists>i p'. i < length (sv_threads s) \<and> sv_threads s' = (sv_threads s)[i := p'] \<and>
      sm_cap (sv_sem s') = sm_cap (sv_sem s) \<and>
      slot_move (sm_cap (sv_sem s)) (sm_len (sv_sem s)) (in_handler (sv_threads s ! i))
        (sm_len (sv_sem s')) (in_handler p')"
    by auto
qed

lemma server_start_kept: "requests.slots_kept (server_start mx n)"
  by (simp add: requests.slots_kept_def server_start_def new_semaphore_def Let_def sum_list_replicate)

text \<open>
  However many requests arrive and however they interleave, at most the configured number
  of them (10000 when the configuration is not positive) are in the handler at the same time,
  the semaphore counts exactly those, and a request that leaves the handler, by a return or by
  a panic, never waits for its release.
\<close>

theorem requests_bounded:
  assumes "server_step\<^sup>*\<^sup>* (server_start mx n) w"
  shows "sum_list (map in_handler (sv_threads w)) = sem_len (sv_sem w) \<and>
    int (sem_len (sv_sem w)) \<le> (if mx \<le> 0 then 10000 else mx) \<and>
    (\<forall>i < length (sv_threads w). sv_threads w ! i = Serving \<longrightarrow> sem_release (sv_sem w) \<noteq> None)"
proof -
  have kept: "requests.slots_kept w"
    by (rule requests.slots_kept_run [OF assms server_start_kept])
  have "sm_cap (sv_sem w) = sm_cap (sv_sem (server_start mx n))"
    using assms
  proof (induction rule: rtranclp_induct)
    case (step y z)
    with requests.step_moves [OF step(2)] show ?case by auto
  qed simp
  then have cap: "sm_cap (sv_sem w) = nat (if mx \<le> 0 then 10000 else mx)"
    by (simp add: server_start_def new_semaphore_def default_max_goroutines_def Let_def)
  have "sem_release (sv_sem w) \<noteq> None" if "i < length (sv_threads w)" "sv_threads w ! i = Serving" for i
    using requests.release_ready [OF kept that(1)] that(2) by (simp add: sem_release_def)
  with kept cap show ?thesis by (auto simp: requests.slots_kept_def sem_len_def)
qed

lemma one_request_served: "server_step\<^sup>*\<^sup>* (server_start 1 2)
    \<lparr>sv_sem = \<lparr>sm_cap = 1, sm_len = 1\<rparr>, sv_threads = [Serving, Arrived]\<rparr>"
proof (rule r_into_rtranclp)
  have "middleware_step (\<lparr>sm_cap = 1, sm_len = 0\<rparr>, Arrived) (\<lparr>sm_cap = 1, sm_len = 1\<rparr>, Serving)"
    by (rule admitted) (simp add: acquire_def)
  then show "server_step (server_start 1 2)
      \<lparr>sv_sem = \<lparr>sm_cap = 1, sm_len = 1\<rparr>, sv_threads = [Serving, Arrived]\<rparr>"
    using server_step.intros [of 0 "server_start 1 2" "\<lparr>sm_cap = 1, sm_len = 1\<rparr>" Serving]
    by (simp add: server_start_def new_semaphore_def numeral_2_eq_2)
qed

theorem requests_bounded_witness: "sem_len \<lparr>sm_cap = 1, sm_len = 1\<rparr> = (1::nat)"
  using requests_bounded [OF one_request_served] by simp

text \<open>A panicking handler: the client gets 500 unless the handler had already answered.\<close>

lemma recovered_status:
  "hr_panic r \<Longrightarrow> hr_panic (recover_middleware r) = False \<and>
     hr_status (recover_middleware r) = Some (case hr_status r of None \<Rightarrow> 500 | Some c \<Rightarrow> c)"
  by (simp add: recover_middleware_def http_error_def)

subsection \<open>Server timeouts\<close>

record server_config =
  sc_read :: duration
  sc_write :: duration
  sc_idle :: duration

definition default_server_config :: server_config where
  "default_server_config = \<lparr>sc_read = seconds 30, sc_write = seconds 60, sc_idle = seconds 120\<rparr>"

definition apply_to :: "server_config \<Rightarrow> server_config \<Rightarrow> server_config" where
  "apply_to c srv =
     (let s1 = (if 0 < sc_read c then srv\<lparr>sc_read := sc_read c\<rparr> else srv);
          s2 = (if 0 < sc_write c then s1\<lparr>sc_write := sc_write c\<rparr> else s1)
      in (if 0 < sc_idle c then s2\<lparr>sc_idle := sc_idle c\<rparr> else s2))"

definition new_configured_server :: server_config where
  "new_configured_server =
     apply_to default_server_config \<lparr>sc_read = 0, sc_write = 0, sc_idle = 0\<rparr>"

lemma configured_server_times_out:
  "new_configured_server = default_server_config"
  by (simp add: new_configured_server_def apply_to_def default_server_config_def seconds_def i64_def nanos_def)

end
