(* ===== verification/ConnPool.thy ===== *)
theory ConnPool
  imports Slots
begin

text \<open>
  The backend connection pool, \<^verbatim>\<open>internal/client/proxy/connpool.go\<close>, with the interleavings of
  its operations. The pool's fields are a record; a section under the mutex, an atomic
  operation, a channel operation and a system call are one step each, and a goroutine's
  program counter is a value of \<open>goroutine\<close>. A connection is a number, and the open ones are
  kept beside the pool (\<open>net_open\<close>), so that a connection that nobody closes is visible.

  Arguments of the steps: the clock, the outcome of the dial, the expiry of the caller's
  context. A client gives back what it got, once, by Put or Discard; a nil connection, which
  both ignore, is not modelled.
\<close>

subsection \<open>The pool\<close>

datatype pool_error = Pool_exhausted | Backend_unreachable | Pool_closed | Context_error | Other_error

record pool_config =
  max_idle :: int
  max_total :: int
  idle_timeout :: duration
  queue_timeout :: duration
  dial_timeout :: duration

definition default_pool_config :: pool_config where
  "default_pool_config = \<lparr>max_idle = 256, max_total = 1024, idle_timeout = seconds 90,
     queue_timeout = seconds 1, dial_timeout = seconds 5\<rparr>"

record pool_conn =
  pc_conn :: nat
  created_at :: gotime
  idle_since :: gotime

record conn_pool =
  cp_config :: pool_config
  cp_idle :: "pool_conn list"
  total_out :: u32
  cp_sem :: nat
  cp_waiters :: u32
  cp_closed :: bool
  net_open :: "nat set"
  net_next :: nat

definition new_conn_pool :: "pool_config \<Rightarrow> conn_pool" where
  "new_conn_pool c0 =
     (let c1 = (if max_idle c0 \<le> 0 then c0\<lparr>max_idle := 256\<rparr> else c0);
          c2 = (if max_total c1 \<le> 0 then c1\<lparr>max_total := 1024\<rparr> else c1);
          c3 = (if max_total c2 < max_idle c2 then c2\<lparr>max_idle := max_total c2\<rparr> else c2);
          c4 = (if idle_timeout c3 \<le> 0 then c3\<lparr>idle_timeout := seconds 90\<rparr> else c3);
          c5 = (if queue_timeout c4 \<le> 0 then c4\<lparr>queue_timeout := seconds 1\<rparr> else c4);
          c6 = (if dial_timeout c5 \<le> 0 then c5\<lparr>dial_timeout := seconds 5\<rparr> else c5)
      in \<lparr>cp_config = c6, cp_idle = [], total_out = 0, cp_sem = 0, cp_waiters = 0, cp_closed = False,
          net_open = {}, net_next = 0\<rparr>)"

abbreviation pool_cap :: "conn_pool \<Rightarrow> nat" where "pool_cap p \<equiv> nat (max_total (cp_config p))"

abbreviation close_conn :: "nat \<Rightarrow> conn_pool \<Rightarrow> conn_pool" where
  "close_conn c p \<equiv> p\<lparr>net_open := net_open p - {c}\<rparr>"

abbreviation expired :: "gotime \<Rightarrow> conn_pool \<Rightarrow> pool_conn \<Rightarrow> bool" where
  "expired now p pc \<equiv> idle_timeout (cp_config p) < time_sub now (idle_since pc)"

text \<open>The loop of \<^verbatim>\<open>getIdle\<close>: every round takes the last element off the slice.\<close>

function get_idle :: "gotime \<Rightarrow> conn_pool \<Rightarrow> nat option \<times> conn_pool" where
  "get_idle now p =
     (if 0 < length (cp_idle p) then
        let pc = last (cp_idle p);
            p1 = p\<lparr>cp_idle := butlast (cp_idle p)\<rparr>
        in if expired now p pc then get_idle now (close_conn (pc_conn pc) p1)
           else (Some (pc_conn pc), p1\<lparr>total_out := total_out p1 + 1\<rparr>)
      else (None, p))"
  by auto
termination
  by (relation "measure (\<lambda>(now, p). length (cp_idle p))") simp_all

declare get_idle.simps [simp del]

definition sweep_idle :: "gotime \<Rightarrow> conn_pool \<Rightarrow> nat \<times> conn_pool" where
  "sweep_idle now p =
     (let old = filter (expired now p) (cp_idle p);
          remaining = filter (\<lambda>pc. \<not> expired now p pc) (cp_idle p)
      in (length old, p\<lparr>cp_idle := remaining, net_open := net_open p - set (map pc_conn old)\<rparr>))"

definition cleanup_idle :: "gotime \<Rightarrow> conn_pool \<Rightarrow> nat \<times> conn_pool" where
  "cleanup_idle now p = (if cp_closed p then (0, p) else sweep_idle now p)"

record pool_stats =
  idle_conns :: int
  active_conns :: int
  total_conns :: int
  stat_waiters :: int
  stat_max_idle :: int
  stat_max_total :: int

text \<open>
  What \<^verbatim>\<open>Stats\<close> puts together from its three readings; \<^verbatim>\<open>int\<close> of an
  \<^verbatim>\<open>int32\<close> is its signed value.
\<close>

definition pool_stats_of :: "conn_pool \<Rightarrow> nat \<Rightarrow> u32 \<Rightarrow> u32 \<Rightarrow> pool_stats" where
  "pool_stats_of p idle active waiters =
     \<lparr>idle_conns = int idle, active_conns = sint active, total_conns = int idle + sint active,
      stat_waiters = sint waiters, stat_max_idle = max_idle (cp_config p), stat_max_total = max_total (cp_config p)\<rparr>"

text \<open>The status that \<^verbatim>\<open>HandlePoolError\<close> answers; \<open>None\<close>: not handled.\<close>

fun handle_pool_error :: "pool_error option \<Rightarrow> nat option" where
  "handle_pool_error None = None"
| "handle_pool_error (Some Pool_exhausted) = Some 503"
| "handle_pool_error (Some Backend_unreachable) = Some 502"
| "handle_pool_error (Some Pool_closed) = Some 503"
| "handle_pool_error (Some Context_error) = None"
| "handle_pool_error (Some Other_error) = None"

subsection \<open>The steps of its operations\<close>

text \<open>
  Where a goroutine is. The flag of the slot states says that the goroutine came through
  \<^verbatim>\<open>waitForConn\<close> and still counts as a waiter.
\<close>

datatype goroutine =
    Resting
  | Getting
  | Queued gotime
  | Slotted bool
  | Dialling bool
  | Dial_failed bool
  | Dialled bool nat
  | Using nat
  | Put_counted nat
  | Put_open nat
  | Put_closing nat
  | Releasing
  | Cleaning
  | Close_begun
  | Closing "nat list"
  | Idle_read nat
  | Active_read nat u32

datatype pool_event = Tau | Got nat | Failed pool_error | Reported pool_stats

definition leave_wait :: "bool \<Rightarrow> conn_pool \<Rightarrow> conn_pool" where
  "leave_wait waited p = (if waited then p\<lparr>cp_waiters := cp_waiters p - 1\<rparr> else p)"

text \<open>\<^verbatim>\<open>Get\<close>: the closed check, then the select with a default.\<close>

inductive get_step :: "gotime \<Rightarrow> duration option \<Rightarrow> pool_event \<Rightarrow> conn_pool \<times> goroutine \<Rightarrow>
    conn_pool \<times> goroutine \<Rightarrow> bool" for now remaining where
  get_closed: "cp_closed p \<Longrightarrow> get_step now remaining (Failed Pool_closed) (p, Resting) (p, Resting)"
| get_begin: "\<not> cp_closed p \<Longrightarrow> get_step now remaining Tau (p, Resting) (p, Getting)"
| get_slot: "cp_sem p < pool_cap p \<Longrightarrow>
    get_step now remaining Tau (p, Getting) (p\<lparr>cp_sem := Suc (cp_sem p)\<rparr>, Slotted False)"
| get_full: "\<not> cp_sem p < pool_cap p \<Longrightarrow>
    get_step now remaining Tau (p, Getting)
      (p\<lparr>cp_waiters := cp_waiters p + 1\<rparr>,
       Queued (time_add now (case remaining of None \<Rightarrow> queue_timeout (cp_config p)
                             | Some d \<Rightarrow> if d < queue_timeout (cp_config p) then d
                                         else queue_timeout (cp_config p))))"

text \<open>
  The select of \<^verbatim>\<open>waitForConn\<close>: whichever of its three cases is ready. A return drops the
  waiter count (the deferred decrement).
\<close>

inductive wait_step :: "gotime \<Rightarrow> pool_event \<Rightarrow> conn_pool \<times> goroutine \<Rightarrow>
    conn_pool \<times> goroutine \<Rightarrow> bool" for now where
  wait_slot: "cp_sem p < pool_cap p \<Longrightarrow>
    wait_step now Tau (p, Queued d) (p\<lparr>cp_sem := Suc (cp_sem p)\<rparr>, Slotted True)"
| wait_timeout: "d \<le> now \<Longrightarrow>
    wait_step now (Failed Pool_exhausted) (p, Queued d) (leave_wait True p, Resting)"
| wait_cancelled: "wait_step now (Failed Context_error) (p, Queued d) (leave_wait True p, Resting)"

text \<open>With a slot, in \<^verbatim>\<open>Get\<close> and in \<^verbatim>\<open>waitForConn\<close> alike: an idle connection, or a dial.\<close>

inductive slot_step :: "gotime \<Rightarrow> pool_event \<Rightarrow> conn_pool \<times> goroutine \<Rightarrow>
    conn_pool \<times> goroutine \<Rightarrow> bool" for now where
  slot_idle: "get_idle now p = (Some c, p') \<Longrightarrow>
    slot_step now (Got c) (p, Slotted w) (leave_wait w p', Using c)"
| slot_none: "get_idle now p = (None, p') \<Longrightarrow> slot_step now Tau (p, Slotted w) (p', Dialling w)"
| dial_ok: "slot_step now Tau (p, Dialling w)
    (p\<lparr>net_open := insert (net_next p) (net_open p), net_next := Suc (net_next p)\<rparr>,
     Dialled w (net_next p))"
| dial_fails: "slot_step now Tau (p, Dialling w) (p, Dial_failed w)"
| dial_counted: "slot_step now (Got c) (p, Dialled w c)
    (leave_wait w (p\<lparr>total_out := total_out p + 1\<rparr>), Using c)"
| dial_released: "0 < cp_sem p \<Longrightarrow>
    slot_step now (Failed Backend_unreachable) (p, Dial_failed w)
      (leave_wait w (p\<lparr>cp_sem := cp_sem p - 1\<rparr>), Resting)"

inductive put_step :: "gotime \<Rightarrow> conn_pool \<times> goroutine \<Rightarrow> conn_pool \<times> goroutine \<Rightarrow> bool" for now where
  put_begin: "put_step now (p, Using c) (p\<lparr>total_out := total_out p - 1\<rparr>, Put_counted c)"
| put_sees_closed: "cp_closed p \<Longrightarrow> put_step now (p, Put_counted c) (p, Put_closing c)"
| put_sees_open: "\<not> cp_closed p \<Longrightarrow> put_step now (p, Put_counted c) (p, Put_open c)"
| put_kept: "int (length (cp_idle p)) < max_idle (cp_config p) \<Longrightarrow>
    put_step now (p, Put_open c)
      (p\<lparr>cp_idle := cp_idle p @ [\<lparr>pc_conn = c, created_at = now, idle_since = now\<rparr>]\<rparr>, Releasing)"
| put_full: "\<not> int (length (cp_idle p)) < max_idle (cp_config p) \<Longrightarrow>
    put_step now (p, Put_open c) (p, Put_closing c)"
| put_closes: "put_step now (p, Put_closing c) (close_conn c p, Releasing)"
| put_releases: "0 < cp_sem p \<Longrightarrow>
    put_step now (p, Releasing) (p\<lparr>cp_sem := cp_sem p - 1\<rparr>, Resting)"

text \<open>\<^verbatim>\<open>Discard\<close> goes on with the close and the release.\<close>

inductive discard_step :: "conn_pool \<times> goroutine \<Rightarrow> conn_pool \<times> goroutine \<Rightarrow> bool" where
  discard_begin: "discard_step (p, Using c) (p\<lparr>total_out := total_out p - 1\<rparr>, Put_closing c)"

inductive cleanup_step :: "gotime \<Rightarrow> conn_pool \<times> goroutine \<Rightarrow> conn_pool \<times> goroutine \<Rightarrow> bool" for now where
  cleanup_begin: "\<not> cp_closed p \<Longrightarrow> cleanup_step now (p, Resting) (p, Cleaning)"
| cleanup_sweeps: "cleanup_step now (p, Cleaning) (snd (sweep_idle now p), Resting)"

inductive close_step :: "conn_pool \<times> goroutine \<Rightarrow> conn_pool \<times> goroutine \<Rightarrow> bool" where
  close_begin: "\<not> cp_closed p \<Longrightarrow> close_step (p, Resting) (p\<lparr>cp_closed := True\<rparr>, Close_begun)"
| close_takes: "close_step (p, Close_begun) (p\<lparr>cp_idle := []\<rparr>, Closing (map pc_conn (cp_idle p)))"
| close_one: "close_step (p, Closing (c # cs)) (close_conn c p, Closing cs)"
| close_done: "close_step (p, Closing []) (p, Resting)"

text \<open>\<^verbatim>\<open>Stats\<close> reads under the mutex, then one counter, then the other.\<close>

inductive stats_step :: "pool_event \<Rightarrow> conn_pool \<times> goroutine \<Rightarrow> conn_pool \<times> goroutine \<Rightarrow> bool" where
  stats_idle: "stats_step Tau (p, Resting) (p, Idle_read (length (cp_idle p)))"
| stats_active: "stats_step Tau (p, Idle_read i) (p, Active_read i (total_out p))"
| stats_waiters: "stats_step (Reported (pool_stats_of p i a (cp_waiters p))) (p, Active_read i a) (p, Resting)"

inductive goroutine_step :: "gotime \<Rightarrow> pool_event \<Rightarrow> conn_pool \<times> goroutine \<Rightarrow>
    conn_pool \<times> goroutine \<Rightarrow> bool" for now where
  "get_step now remaining e s s' \<Longrightarrow> goroutine_step now e s s'"
| "wait_step now e s s' \<Longrightarrow> goroutine_step now e s s'"
| "slot_step now e s s' \<Longrightarrow> goroutine_step now e s s'"
| "put_step now s s' \<Longrightarrow> goroutine_step now Tau s s'"
| "discard_step s s' \<Longrightarrow> goroutine_step now Tau s s'"
| "cleanup_step now s s' \<Longrightarrow> goroutine_step now Tau s s'"
| "close_step s s' \<Longrightarrow> goroutine_step now Tau s s'"
| "stats_step e s s' \<Longrightarrow> goroutine_step now e s s'"

inductive_cases goroutine_stepE: "goroutine_step now e (p, g) (p', g')"
inductive_cases get_stepE: "get_step now remaining e (p, g) (p', g')"
inductive_cases wait_stepE: "wait_step now e (p, g) (p', g')"
inductive_cases slot_stepE: "slot_step now e (p, g) (p', g')"
inductive_cases put_stepE: "put_step now (p, g) (p', g')"
inductive_cases discard_stepE: "discard_step (p, g) (p', g')"
inductive_cases cleanup_stepE: "cleanup_step now (p, g) (p', g')"
inductive_cases close_stepE: "close_step (p, g) (p', g')"
inductive_cases stats_stepE: "stats_step e (p, g) (p', g')"

lemmas pool_stepEs = goroutine_stepE get_stepE wait_stepE slot_stepE put_stepE discard_stepE
  cleanup_stepE close_stepE stats_stepE

lemmas goroutine_intros = goroutine_step.intros get_step.intros wait_step.intros slot_step.intros
  put_step.intros discard_step.intros cleanup_step.intros close_step.intros stats_step.intros

record pool_world =
  pw_pool :: conn_pool
  pw_procs :: "goroutine list"

inductive pool_step :: "pool_world \<Rightarrow> pool_world \<Rightarrow> bool" where
  "i < length (pw_procs w) \<Longrightarrow> goroutine_step now e (pw_pool w, pw_procs w ! i) (p', g') \<Longrightarrow>
     pool_step w (w\<lparr>pw_pool := p', pw_procs := (pw_procs w)[i := g']\<rparr>)"

definition pool_start :: "pool_config \<Rightarrow> nat \<Rightarrow> pool_world" where
  "pool_start c n = \<lparr>pw_pool = new_conn_pool c, pw_procs = replicate n Resting\<rparr>"


subsection \<open>Taking an idle connection\<close>

text \<open>
  What the loop of \<^verbatim>\<open>getIdle\<close> comes to: the most recent connection that has not expired is
  handed out, the more recently returned ones are closed, the older ones are not looked at.
\<close>

definition get_idle_spec :: "gotime \<Rightarrow> conn_pool \<Rightarrow> nat option \<times> conn_pool" where
  "get_idle_spec now p =
     (let stale = takeWhile (expired now p) (rev (cp_idle p));
          p1 = p\<lparr>net_open := net_open p - set (map pc_conn stale)\<rparr>
      in case dropWhile (expired now p) (rev (cp_idle p)) of
           [] \<Rightarrow> (None, p1\<lparr>cp_idle := []\<rparr>)
         | pc # rest \<Rightarrow> (Some (pc_conn pc), p1\<lparr>cp_idle := rev rest, total_out := total_out p + 1\<rparr>))"

lemma get_idle_eq: "get_idle now p = get_idle_spec now p"
proof (induction now p rule: get_idle.induct)
  case (1 now p)
  show ?case
  proof (cases "cp_idle p" rule: rev_cases)
    case Nil
    then show ?thesis by (simp add: get_idle.simps [of now p] get_idle_spec_def)
  next
    case (snoc ys pc)
    let ?p1 = "p\<lparr>cp_idle := ys\<rparr>"
    show ?thesis
    proof (cases "expired now p pc")
      case True
      have "get_idle now p = get_idle now (close_conn (pc_conn pc) ?p1)"
        by (subst get_idle.simps) (simp add: snoc True Let_def)
      also have "\<dots> = get_idle_spec now (close_conn (pc_conn pc) ?p1)"
        by (rule 1) (use snoc True in simp_all)
      also have "\<dots> = get_idle_spec now p"
        using snoc True by (simp add: get_idle_spec_def Let_def Diff_insert2 [symmetric] cong: list.case_cong)
      finally show ?thesis .
    next
      case False
      with snoc show ?thesis
        by (simp add: get_idle.simps [of now p] get_idle_spec_def Let_def)
    qed
  qed
qed

lemma get_idle_frame:
  assumes "get_idle now p = (r, p')"
  shows "cp_sem p' = cp_sem p" "cp_config p' = cp_config p" "cp_closed p' = cp_closed p"
    "cp_waiters p' = cp_waiters p" "net_next p' = net_next p"
    "r = None \<Longrightarrow> cp_idle p' = [] \<and> total_out p' = total_out p"
    "r = Some c \<Longrightarrow> length (cp_idle p') < length (cp_idle p) \<and> total_out p' = total_out p + 1"
proof -
  have len: "length rest < length (cp_idle p)"
    if "dropWhile (expired now p) (rev (cp_idle p)) = pc # rest" for pc rest
    using that length_dropWhile_le [of "expired now p" "rev (cp_idle p)"] by simp
  show "cp_sem p' = cp_sem p" "cp_config p' = cp_config p" "cp_closed p' = cp_closed p"
    "cp_waiters p' = cp_waiters p" "net_next p' = net_next p"
    "r = None \<Longrightarrow> cp_idle p' = [] \<and> total_out p' = total_out p"
    using assms by (auto simp: get_idle_eq get_idle_spec_def Let_def split: list.splits)
  show "r = Some c \<Longrightarrow> length (cp_idle p') < length (cp_idle p) \<and> total_out p' = total_out p + 1"
    using assms len by (auto simp: get_idle_eq get_idle_spec_def Let_def split: list.splits)
qed

subsection \<open>Every open connection is somewhere\<close>

text \<open>The connections a goroutine still has to deal with.\<close>

fun carried :: "goroutine \<Rightarrow> nat multiset" where
  "carried (Dialled w c) = {#c#}"
| "carried (Using c) = {#c#}"
| "carried (Put_counted c) = {#c#}"
| "carried (Put_open c) = {#c#}"
| "carried (Put_closing c) = {#c#}"
| "carried (Closing cs) = mset cs"
| "carried g = {#}"

abbreviation idle_bag :: "conn_pool \<Rightarrow> nat multiset" where
  "idle_bag p \<equiv> mset (map pc_conn (cp_idle p))"

definition sockets_kept :: "nat multiset \<Rightarrow> conn_pool \<Rightarrow> goroutine \<Rightarrow> bool" where
  "sockets_kept M p g \<longleftrightarrow> finite (net_open p) \<and> (\<forall>c\<in>net_open p. c < net_next p) \<and>
     M + idle_bag p + carried g = mset_set (net_open p)"

lemma mset_set_close_all:
  "finite A \<Longrightarrow> M + mset cs = mset_set A \<Longrightarrow> M = mset_set (A - set cs)"
proof (induction cs arbitrary: A)
  case (Cons c cs)
  have "c \<in># mset_set A" by (simp flip: Cons.prems(2))
  then have "mset_set A = add_mset c (mset_set (A - {c}))"
    using Cons.prems(1) by (simp add: mset_set.remove)
  with Cons.prems have "M + mset cs = mset_set (A - {c})" by simp
  then have "M = mset_set (A - {c} - set cs)" using Cons.IH [of "A - {c}"] Cons.prems(1) by simp
  then show ?case by (simp add: Diff_insert2 [symmetric])
qed simp

lemma sockets_close:
  assumes "sockets_kept M p g" "net_open p' = net_open p - set cs" "net_next p' = net_next p"
    "idle_bag p + carried g = idle_bag p' + carried g' + mset cs"
  shows "sockets_kept M p' g'"
proof -
  from assms(1,4) have "M + idle_bag p' + carried g' + mset cs = mset_set (net_open p)"
    by (simp add: sockets_kept_def add.assoc)
  with assms show ?thesis
    using mset_set_close_all [of "net_open p" "M + idle_bag p' + carried g'" cs]
    by (auto simp: sockets_kept_def)
qed

lemma sockets_move:
  assumes "sockets_kept M p g" "net_open p' = net_open p" "net_next p' = net_next p"
    "idle_bag p + carried g = idle_bag p' + carried g'"
  shows "sockets_kept M p' g'"
  using assms sockets_close [of M p g p' "[]" g'] by simp

lemma sockets_get_idle:
  assumes "get_idle now p = (r, p')" "sockets_kept M p g" "carried g = {#}"
    "carried g' = (case r of None \<Rightarrow> {#} | Some c \<Rightarrow> {#c#})"
  shows "sockets_kept M p' g'"
proof (rule sockets_close [OF assms(2)])
  let ?stale = "takeWhile (expired now p) (rev (cp_idle p))"
  have "mset (cp_idle p) = mset (?stale @ dropWhile (expired now p) (rev (cp_idle p)))" by simp
  also have "\<dots> = mset ?stale + mset (dropWhile (expired now p) (rev (cp_idle p)))"
    by (rule mset_append)
  finally have bag: "idle_bag p = mset (map pc_conn ?stale) +
      mset (map pc_conn (dropWhile (expired now p) (rev (cp_idle p))))"
    by (metis image_mset_union mset_map)
  show "net_open p' = net_open p - set (map pc_conn ?stale)" "net_next p' = net_next p"
    using assms(1) by (auto simp: get_idle_eq get_idle_spec_def Let_def split: list.splits)
  show "idle_bag p + carried g = idle_bag p' + carried g' + mset (map pc_conn ?stale)"
    unfolding bag using assms(1,3,4)
    by (auto simp: get_idle_eq get_idle_spec_def Let_def rev_map [symmetric] simp del: mset_map split: list.splits)
qed


lemma sockets_dial:
  assumes "sockets_kept M p (Dialling w)"
  shows "sockets_kept M (p\<lparr>net_open := insert (net_next p) (net_open p), net_next := Suc (net_next p)\<rparr>)
    (Dialled w (net_next p))"
  using assms by (auto simp: sockets_kept_def less_Suc_eq)

lemma sockets_step:
  assumes "goroutine_step now e (p, g) (p', g')" "sockets_kept M p g"
  shows "sockets_kept M p' g'"
  using assms(1)
proof (elim pool_stepEs)
  fix c w p1 assume *: "get_idle now p = (Some c, p1)" "g = Slotted w" "p' = leave_wait w p1" "g' = Using c"
  have "sockets_kept M p1 (Using c)"
    by (rule sockets_get_idle [OF *(1) assms(2)]) (simp_all add: *)
  then show ?thesis unfolding * by (rule sockets_move) (simp_all add: leave_wait_def)
next
  fix w assume *: "get_idle now p = (None, p')" "g = Slotted w" "g' = Dialling w"
  show ?thesis by (rule sockets_get_idle [OF *(1) assms(2)]) (simp_all add: *)
next
  assume *: "p' = snd (sweep_idle now p)" "g = Cleaning" "g' = Resting"
  have bag: "mset (cp_idle p) = mset (filter (expired now p) (cp_idle p)) +
      mset (filter (\<lambda>pc. \<not> expired now p pc) (cp_idle p))"
    by (simp add: mset_filter)
  show ?thesis
    unfolding *
    by (rule sockets_close [OF assms(2), where cs = "map pc_conn (filter (expired now p) (cp_idle p))"])
      (simp_all add: sweep_idle_def Let_def * bag ac_simps del: mset_filter)
next
  fix c assume *: "p' = close_conn c p" "g = Put_closing c" "g' = Releasing"
  show ?thesis unfolding *
    by (rule sockets_close [OF assms(2), where cs = "[c]"]) (simp_all add: *)
next
  fix c cs assume *: "p' = close_conn c p" "g = Closing (c # cs)" "g' = Closing cs"
  show ?thesis unfolding *
    by (rule sockets_close [OF assms(2), where cs = "[c]"]) (simp_all add: *)
next
  fix w assume *: "g = Dialling w"
    "p' = p\<lparr>net_open := insert (net_next p) (net_open p), net_next := Suc (net_next p)\<rparr>"
    "g' = Dialled w (net_next p)"
  then show ?thesis using sockets_dial assms(2) by simp
qed (use assms(2) in \<open>simp_all add: sockets_kept_def leave_wait_def\<close>)


subsection \<open>Slots, counters and room\<close>

text \<open>
  What a goroutine contributes to each number: the slots it holds, whether its connection
  counts as checked out, whether it counts as waiting, and the connections it has in hand or
  is dialling.
\<close>

fun slots :: "goroutine \<Rightarrow> nat" where
  "slots Resting = 0" | "slots Getting = 0" | "slots (Queued d) = 0"
| "slots Cleaning = 0" | "slots Close_begun = 0" | "slots (Closing cs) = 0"
| "slots (Idle_read i) = 0" | "slots (Active_read i a) = 0"
| "slots g = 1"

fun checked_out :: "goroutine \<Rightarrow> nat" where
  "checked_out (Using c) = 1"
| "checked_out g = 0"

fun waiting :: "goroutine \<Rightarrow> nat" where
  "waiting (Queued d) = 1"
| "waiting (Slotted w) = of_bool w"
| "waiting (Dialling w) = of_bool w"
| "waiting (Dial_failed w) = of_bool w"
| "waiting (Dialled w c) = of_bool w"
| "waiting g = 0"

fun in_hand :: "goroutine \<Rightarrow> nat" where
  "in_hand (Dialling w) = 1"
| "in_hand (Dialled w c) = 1"
| "in_hand (Using c) = 1"
| "in_hand (Put_counted c) = 1"
| "in_hand (Put_open c) = 1"
| "in_hand (Put_closing c) = 1"
| "in_hand g = 0"

lemma in_hand_le_slots: "in_hand g \<le> slots g"
  by (cases g) simp_all

lemma sweep_idle_fields [simp]:
  "cp_config (snd (sweep_idle now p)) = cp_config p" "cp_sem (snd (sweep_idle now p)) = cp_sem p"
  "total_out (snd (sweep_idle now p)) = total_out p" "cp_waiters (snd (sweep_idle now p)) = cp_waiters p"
  "cp_closed (snd (sweep_idle now p)) = cp_closed p"
  "length (cp_idle (snd (sweep_idle now p))) \<le> length (cp_idle p)"
  by (simp_all add: sweep_idle_def Let_def)

lemma slots_step:
  assumes "goroutine_step now e (p, g) (p', g')"
  shows "cp_config p' = cp_config p \<and> slot_move (pool_cap p) (cp_sem p) (slots g) (cp_sem p') (slots g')"
  using assms
  by (elim pool_stepEs) (auto simp: slot_move_def leave_wait_def get_idle_frame)

lemma counters_step:
  assumes "goroutine_step now e (p, g) (p', g')"
  shows "total_out p' + word_of_nat (checked_out g) = total_out p + word_of_nat (checked_out g')"
    and "cp_waiters p' + word_of_nat (waiting g) = cp_waiters p + word_of_nat (waiting g')"
  using assms
  by (elim pool_stepEs; auto simp: leave_wait_def get_idle_frame)+

lemma room_step:
  assumes "goroutine_step now e (p, g) (p', g')" "length (cp_idle p) \<le> nat (max_idle (cp_config p))"
  shows "length (cp_idle p') \<le> nat (max_idle (cp_config p))"
    and "length (cp_idle p') + in_hand g' \<le> length (cp_idle p) + in_hand g \<or> cp_idle p' = []"
proof -
  have "length (cp_idle p') \<le> length (cp_idle p) \<and> length (cp_idle p') + in_hand g' \<le> length (cp_idle p) + in_hand g
      \<or> cp_idle p' = []
      \<or> int (length (cp_idle p)) < max_idle (cp_config p) \<and> length (cp_idle p') = Suc (length (cp_idle p)) \<and>
        in_hand g = 1 \<and> in_hand g' = 0"
    using assms(1)
    by (elim pool_stepEs)
      (auto simp: leave_wait_def get_idle_frame less_eq_Suc_le dest: get_idle_frame(7))
  then show "length (cp_idle p') \<le> nat (max_idle (cp_config p))"
    and "length (cp_idle p') + in_hand g' \<le> length (cp_idle p) + in_hand g \<or> cp_idle p' = []"
    using assms(2) by auto
qed


interpretation pool: slot_discipline pool_step pw_procs "\<lambda>w. cp_sem (pw_pool w)" slots
    "\<lambda>w. pool_cap (pw_pool w)"
proof
  fix w w' assume "pool_step w w'"
  then obtain i now e p' g' where i: "i < length (pw_procs w)"
      "goroutine_step now e (pw_pool w, pw_procs w ! i) (p', g')"
      "w' = w\<lparr>pw_pool := p', pw_procs := (pw_procs w)[i := g']\<rparr>"
    by (cases rule: pool_step.cases) auto
  with slots_step [OF i(2)]
  show "\<exists>i q. i < length (pw_procs w) \<and> pw_procs w' = (pw_procs w)[i := q] \<and>
      pool_cap (pw_pool w') = pool_cap (pw_pool w) \<and>
      slot_move (pool_cap (pw_pool w)) (cp_sem (pw_pool w)) (slots (pw_procs w ! i))
        (cp_sem (pw_pool w')) (slots q)"
    by auto
qed

subsection \<open>The invariant of the pool\<close>

abbreviation over_all :: "(goroutine \<Rightarrow> 'a::comm_monoid_add) \<Rightarrow> pool_world \<Rightarrow> 'a" where
  "over_all f w \<equiv> sum_list (map f (pw_procs w))"

definition pool_inv :: "pool_config \<Rightarrow> pool_world \<Rightarrow> bool" where
  "pool_inv c w \<longleftrightarrow>
     cp_config (pw_pool w) = c \<and> pool.slots_kept w \<and>
     total_out (pw_pool w) = word_of_nat (over_all checked_out w) \<and>
     cp_waiters (pw_pool w) = word_of_nat (over_all waiting w) \<and>
     length (cp_idle (pw_pool w)) \<le> nat (max_idle c) \<and>
     length (cp_idle (pw_pool w)) + over_all in_hand w \<le> nat (max_total c) \<and>
     sockets_kept (over_all carried w) (pw_pool w) Resting"

lemma cancel_mid: "a + b = r + b + c \<Longrightarrow> a = r + (c :: 'a::cancel_comm_monoid_add)"
  by (metis add.assoc add.commute add_right_cancel)

lemma sum_list_zeros: "sum_list (replicate n 0) = (0 :: 'a::comm_monoid_add)"
  by (induction n) simp_all

lemma over_all_le: "(\<And>g. f g \<le> h g) \<Longrightarrow> over_all f w \<le> (over_all h w :: nat)"
  by (simp add: sum_list_mono)

lemma pool_inv_step:
  assumes "pool_inv c w" "pool_step w w'"
  shows "pool_inv c w'"
proof -
  let ?p = "pw_pool w" and ?p' = "pw_pool w'"
  obtain i now e p' g' where i: "i < length (pw_procs w)"
      and st: "goroutine_step now e (?p, pw_procs w ! i) (?p', g')"
      and w': "pw_procs w' = (pw_procs w)[i := g']"
    using assms(2) by (cases rule: pool_step.cases) auto
  let ?g = "pw_procs w ! i"
  have conf: "cp_config ?p' = cp_config ?p" using slots_step [OF st] by simp
  have kept: "pool.slots_kept w'"
    using assms pool.slots_kept_step by (auto simp: pool_inv_def)
  obtain ro where ro: "over_all checked_out w = ro + checked_out ?g" "over_all checked_out w' = ro + checked_out g'"
    using sum_frame [OF i, of checked_out] w' by metis
  have out: "total_out ?p' = word_of_nat (over_all checked_out w')"
  proof -
    have "total_out ?p' + word_of_nat (checked_out ?g) = word_of_nat ro + word_of_nat (checked_out ?g) + word_of_nat (checked_out g')"
      using counters_step(1) [OF st] assms(1) ro(1) by (simp add: pool_inv_def)
    from cancel_mid [OF this] show ?thesis by (simp add: ro(2))
  qed
  obtain rw where rw: "over_all waiting w = rw + waiting ?g" "over_all waiting w' = rw + waiting g'"
    using sum_frame [OF i, of waiting] w' by metis
  have wait: "cp_waiters ?p' = word_of_nat (over_all waiting w')"
  proof -
    have "cp_waiters ?p' + word_of_nat (waiting ?g) = word_of_nat rw + word_of_nat (waiting ?g) + word_of_nat (waiting g')"
      using counters_step(2) [OF st] assms(1) rw(1) by (simp add: pool_inv_def)
    from cancel_mid [OF this] show ?thesis by (simp add: rw(2))
  qed
  have idle: "length (cp_idle ?p') \<le> nat (max_idle c)"
    using room_step(1) [OF st] assms(1) by (simp add: pool_inv_def)
  have room: "length (cp_idle ?p') + over_all in_hand w' \<le> nat (max_total c)"
  proof (cases "cp_idle ?p' = []")
    case True
    with kept conf assms(1) over_all_le [of in_hand slots w', OF in_hand_le_slots] show ?thesis
      by (simp add: pool.slots_kept_def pool_inv_def)
  next
    case False
    obtain rh where "over_all in_hand w = rh + in_hand ?g" "over_all in_hand w' = rh + in_hand g'"
      using sum_frame [OF i, of in_hand] w' by metis
    with False room_step(2) [OF st] assms(1) show ?thesis by (simp add: pool_inv_def)
  qed
  obtain rc where rc: "over_all carried w = rc + carried ?g" "over_all carried w' = rc + carried g'"
    using sum_frame [OF i, of carried] w' by metis
  have "sockets_kept rc ?p ?g"
    using assms(1) rc(1) by (simp add: pool_inv_def sockets_kept_def ac_simps)
  from sockets_step [OF st this]
  have "sockets_kept (over_all carried w') ?p' Resting"
    using rc(2) by (simp add: sockets_kept_def ac_simps)
  with conf kept out wait idle room assms(1) show ?thesis by (simp add: pool_inv_def)
qed

lemma new_pool_config:
  "let c = cp_config (new_conn_pool c0) in 0 < max_idle c \<and> max_idle c \<le> max_total c \<and> 0 < queue_timeout c"
  by (simp add: new_conn_pool_def Let_def seconds_def i64_def nanos_def)

lemma pool_inv_start: "pool_inv (cp_config (new_conn_pool c)) (pool_start c n)"
  by (simp add: pool_inv_def pool_start_def new_conn_pool_def pool.slots_kept_def sockets_kept_def Let_def
      sum_list_zeros)

lemma pool_inv_run:
  assumes "pool_step\<^sup>*\<^sup>* (pool_start c n) w"
  shows "pool_inv (cp_config (new_conn_pool c)) w"
  using assms by (induction rule: rtranclp_induct) (auto intro: pool_inv_start pool_inv_step)


subsection \<open>What the pool guarantees\<close>

fun dialling :: "goroutine \<Rightarrow> nat" where
  "dialling (Dialling w) = 1"
| "dialling g = 0"

fun being_closed :: "goroutine \<Rightarrow> nat" where
  "being_closed (Closing cs) = length cs"
| "being_closed g = 0"

lemma run_keeps_number:
  "pool_step\<^sup>*\<^sup>* w w' \<Longrightarrow> length (pw_procs w') = length (pw_procs w)"
  by (induction rule: rtranclp_induct) (auto elim!: pool_step.cases)

lemma over_all_add: "over_all (\<lambda>g. f g + h g) w = over_all f w + over_all h w"
  by (simp add: sum_list_addf)

lemma over_all_bound: "(\<And>g. f g \<le> 1) \<Longrightarrow> over_all f w \<le> (length (pw_procs w) :: nat)"
  using sum_list_mono [of "pw_procs w" f "\<lambda>_. 1"] by (simp add: sum_list_triv)

lemma size_over_all: "size (over_all f w :: nat multiset) = over_all (\<lambda>g. size (f g)) w"
proof -
  have "size (sum_list (map f gs) :: nat multiset) = sum_list (map (\<lambda>g. size (f g)) gs)" for gs
    by (induction gs) simp_all
  then show ?thesis by simp
qed

lemma sint_small: "n < 2 ^ 31 \<Longrightarrow> sint (word_of_nat n :: u32) = int n"
  by (simp add: signed_of_nat signed_take_bit_int_eq_self)

lemma open_sockets:
  assumes "pool_inv c w"
  shows "card (net_open (pw_pool w)) \<le> nat (max_total c) + over_all being_closed w"
proof -
  let ?p = "pw_pool w"
  from assms have "size (mset_set (net_open ?p)) = size (over_all carried w + idle_bag ?p)"
    by (simp add: pool_inv_def sockets_kept_def)
  then have "card (net_open ?p) = length (cp_idle ?p) + over_all (\<lambda>g. size (carried g)) w"
    by (simp add: size_over_all)
  also have "\<dots> \<le> length (cp_idle ?p) + over_all (\<lambda>g. in_hand g + being_closed g) w"
  proof (intro add_left_mono over_all_le)
    show "size (carried g) \<le> in_hand g + being_closed g" for g by (cases g) simp_all
  qed
  finally show ?thesis using assms by (simp add: pool_inv_def over_all_add)
qed

text \<open>The counters are exact, and no sum leaves its bound.\<close>

lemma pool_numbers:
  assumes "pool_inv cfg w" "0 < max_total cfg" "0 < max_idle cfg"
    "max_total cfg < 2 ^ 31" "length (pw_procs w) < 2 ^ 31"
  shows "sint (total_out (pw_pool w)) = int (over_all checked_out w)"
    and "sint (cp_waiters (pw_pool w)) = int (over_all waiting w)"
    and "int (length (cp_idle (pw_pool w))) \<le> max_idle cfg"
    and "int (length (cp_idle (pw_pool w)) + over_all checked_out w + over_all dialling w) \<le> max_total cfg"
proof -
  let ?p = "pw_pool w"
  have hand: "over_all (\<lambda>g. checked_out g + dialling g) w \<le> over_all in_hand w"
  proof (rule over_all_le)
    show "checked_out g + dialling g \<le> in_hand g" for g by (cases g) simp_all
  qed
  have "over_all waiting w \<le> length (pw_procs w)"
  proof (rule over_all_bound)
    show "waiting g \<le> 1" for g by (cases g) simp_all
  qed
  then show "sint (cp_waiters ?p) = int (over_all waiting w)"
    using assms(1,5) by (simp add: pool_inv_def sint_small)
  have "over_all checked_out w < 2 ^ 31"
  proof -
    have "over_all in_hand w \<le> nat (max_total cfg)" using assms(1) by (simp add: pool_inv_def)
    moreover have "nat (max_total cfg) < 2 ^ 31" using assms(2,4) by (simp add: nat_less_iff)
    ultimately show ?thesis using hand unfolding over_all_add by linarith
  qed
  then show "sint (total_out ?p) = int (over_all checked_out w)"
    using assms(1) by (simp add: pool_inv_def sint_small del: power_numeral)
  have "length (cp_idle ?p) \<le> nat (max_idle cfg)"
    and "length (cp_idle ?p) + over_all in_hand w \<le> nat (max_total cfg)"
    using assms(1) by (simp_all add: pool_inv_def)
  then show "int (length (cp_idle ?p)) \<le> max_idle cfg"
    and "int (length (cp_idle ?p) + over_all checked_out w + over_all dialling w) \<le> max_total cfg"
    using hand assms(2,3) unfolding over_all_add by linarith+
qed

text \<open>What a goroutine inside Stats has read was exact, and so within the limits.\<close>

fun readings_bounded :: "pool_config \<Rightarrow> goroutine \<Rightarrow> bool" where
  "readings_bounded c (Idle_read i) = (int i \<le> max_idle c)"
| "readings_bounded c (Active_read i a) = (int i \<le> max_idle c \<and> 0 \<le> sint a \<and> sint a \<le> max_total c)"
| "readings_bounded c g = True"

lemma readings_step:
  assumes "goroutine_step now e (p, g) (p', g')" "readings_bounded c g"
    "int (length (cp_idle p)) \<le> max_idle c" "0 \<le> sint (total_out p)" "sint (total_out p) \<le> max_total c"
  shows "readings_bounded c g'"
  using assms by (elim pool_stepEs) auto

lemma readings_run:
  assumes "pool_step\<^sup>*\<^sup>* (pool_start c n) w" "cfg = cp_config (new_conn_pool c)" "max_total cfg < 2 ^ 31" "n < 2 ^ 31"
  shows "\<forall>g \<in> set (pw_procs w). readings_bounded cfg g"
  using assms(1)
proof (induction rule: rtranclp_induct)
  case base
  show ?case by (simp add: pool_start_def)
next
  case (step w w')
  have inv: "pool_inv cfg w" using pool_inv_run [OF step(1)] assms(2) by simp
  have "length (pw_procs w) < 2 ^ 31" using run_keeps_number [OF step(1)] assms(4) by (simp add: pool_start_def)
  note numbers = pool_numbers [OF inv _ _ assms(3) this]
  obtain i now e p' g' where i: "i < length (pw_procs w)"
      and st: "goroutine_step now e (pw_pool w, pw_procs w ! i) (p', g')"
      and w': "pw_procs w' = (pw_procs w)[i := g']"
    using step(2) by (cases rule: pool_step.cases) auto
  have "readings_bounded cfg g'"
    by (rule readings_step [OF st])
      (use step(3) i numbers new_pool_config [of c] assms(2) in \<open>auto simp: Let_def\<close>)
  then show ?case using step(3) w' by (auto dest!: set_update_subset_insert [THEN subsetD])
qed

text \<open>
  C15. The pool never holds or uses more than the configured number of connections: in every
  interleaving of Get, Put, Discard, CleanupIdle, Stats and Close by fewer than 2^31 goroutines, with
  a total below 2^31, the idle connections stay within MaxIdleConns and, with those checked out or
  being dialled, within MaxTotalConns (the defaults replace settings that are not positive), the open
  sockets exceed that at most by those that Close is still closing, and the two counters are exact.
  Stats takes its three numbers at three instants, each of them exact when it is read: so each is
  within its limit, but their sum is not (see below).
\<close>

theorem pool_bounded:
  assumes run: "pool_step\<^sup>*\<^sup>* (pool_start c n) w" and cfg: "cfg = cp_config (new_conn_pool c)"
    and small: "max_total cfg < 2 ^ 31" "n < 2 ^ 31"
  shows "int (length (cp_idle (pw_pool w))) \<le> max_idle cfg \<and>
    int (length (cp_idle (pw_pool w)) + over_all checked_out w + over_all dialling w) \<le> max_total cfg \<and>
    int (card (net_open (pw_pool w))) \<le> max_total cfg + int (over_all being_closed w) \<and>
    sint (total_out (pw_pool w)) = int (over_all checked_out w) \<and>
    sint (cp_waiters (pw_pool w)) = int (over_all waiting w) \<and>
    (\<forall>g now st s'. g \<in> set (pw_procs w) \<longrightarrow> goroutine_step now (Reported st) (pw_pool w, g) s' \<longrightarrow>
       idle_conns st \<le> max_idle cfg \<and> 0 \<le> active_conns st \<and> active_conns st \<le> max_total cfg \<and>
       total_conns st = idle_conns st + active_conns st \<and> stat_waiters st = int (over_all waiting w))"
proof -
  let ?p = "pw_pool w"
  have inv: "pool_inv cfg w" using pool_inv_run [OF run] cfg by simp
  have pos: "0 < max_total cfg" "0 < max_idle cfg"
    using new_pool_config [of c] cfg by (simp_all add: Let_def)
  have "length (pw_procs w) < 2 ^ 31" using run_keeps_number [OF run] small(2) by (simp add: pool_start_def)
  note numbers = pool_numbers [OF inv pos small(1) this]
  have report: "idle_conns st \<le> max_idle cfg \<and> 0 \<le> active_conns st \<and> active_conns st \<le> max_total cfg \<and>
       total_conns st = idle_conns st + active_conns st \<and> stat_waiters st = int (over_all waiting w)"
    if "g \<in> set (pw_procs w)" "goroutine_step now (Reported st) (?p, g) s'" for g now st s'
  proof -
    note reports = that(2) and member = that(1)
    obtain i a where "g = Active_read i a" "st = pool_stats_of ?p i a (cp_waiters ?p)"
      using reports by (cases s') (auto elim!: pool_stepEs)
    then show ?thesis using readings_run [OF run cfg small] member numbers(2) by (auto simp: pool_stats_of_def)
  qed
  have "int (card (net_open ?p)) \<le> max_total cfg + int (over_all being_closed w)"
    using open_sockets [OF inv] pos by linarith
  then show ?thesis using numbers report by blast
qed

text \<open>A chain of steps, one goroutine at a time.\<close>

lemma step_at:
  assumes "i < length gs" "goroutine_step now e (p, gs ! i) (p', g')"
    "pool_step\<^sup>*\<^sup>* \<lparr>pw_pool = p', pw_procs = gs[i := g']\<rparr> w"
  shows "pool_step\<^sup>*\<^sup>* \<lparr>pw_pool = p, pw_procs = gs\<rparr> w"
proof -
  have "pool_step \<lparr>pw_pool = p, pw_procs = gs\<rparr> \<lparr>pw_pool = p', pw_procs = gs[i := g']\<rparr>"
    using pool_step.intros [of i "\<lparr>pw_pool = p, pw_procs = gs\<rparr>" now e p' g'] assms(1,2) by simp
  then show ?thesis using assms(3) by (rule converse_rtranclp_into_rtranclp)
qed


text \<open>
  Two goroutines on a pool with the default settings: the first gets a connection and gives it
  back, and the second closes the pool between the closed check of that Put and its append.
\<close>

abbreviation two :: "conn_pool \<Rightarrow> goroutine \<Rightarrow> goroutine \<Rightarrow> pool_world" where
  "two p a b \<equiv> \<lparr>pw_pool = p, pw_procs = [a, b]\<rparr>"

lemmas step_first = step_at [where i = 0 and gs = "[a, b]" for a b, simplified]
lemmas step_second = step_at [where i = 1 and gs = "[a, b]" for a b, simplified]

definition race_pool :: "nat \<Rightarrow> u32 \<Rightarrow> pool_conn list \<Rightarrow> bool \<Rightarrow> nat set \<Rightarrow> conn_pool" where
  "race_pool sem out idle closed socks =
     \<lparr>cp_config = default_pool_config, cp_idle = idle, total_out = out, cp_sem = sem, cp_waiters = 0,
      cp_closed = closed, net_open = socks, net_next = card socks\<rparr>"

lemma race_start: "pool_start default_pool_config 2 = two (race_pool 0 0 [] False {}) Resting Resting"
  by (simp add: pool_start_def new_conn_pool_def race_pool_def default_pool_config_def seconds_def i64_def
      nanos_def Let_def numeral_2_eq_2)

lemma default_pool_fixed: "cp_config (new_conn_pool default_pool_config) = default_pool_config"
  by (simp add: new_conn_pool_def default_pool_config_def seconds_def i64_def nanos_def Let_def)

lemma race_get:
  assumes "pool_step\<^sup>*\<^sup>* (two (race_pool 1 1 [] False {0}) (Using 0) Resting) w"
  shows "pool_step\<^sup>*\<^sup>* (two (race_pool 0 0 [] False {}) Resting Resting) w"
proof -
  let ?p = "race_pool 1 0 [] False"
  have idle: "get_idle 0 (?p {}) = (None, ?p {})"
    by (simp add: get_idle_eq get_idle_spec_def race_pool_def)
  have counted: "slot_step 0 (Got 0) (?p {0}, Dialled False 0) (race_pool 1 1 [] False {0}, Using 0)"
    using dial_counted [of 0 0 "?p {0}" False] by (simp add: race_pool_def leave_wait_def)
  have dial: "slot_step 0 Tau (?p {}, Dialling False) (?p {0}, Dialled False 0)"
    using dial_ok [of 0 "?p {}" False] by (simp add: race_pool_def)
  have slot: "get_step 0 None Tau (race_pool 0 0 [] False {}, Getting) (?p {}, Slotted False)"
    using get_slot [of "race_pool 0 0 [] False {}" 0 None] by (simp add: race_pool_def default_pool_config_def)
  have start: "get_step 0 None Tau (race_pool 0 0 [] False {}, Resting) (race_pool 0 0 [] False {}, Getting)"
    by (rule get_begin) (simp add: race_pool_def)
  note step_first [OF goroutine_step.intros(3) [OF counted] assms]
  note step_first [OF goroutine_step.intros(3) [OF dial] this]
  note step_first [OF goroutine_step.intros(3) [OF slot_none [OF idle]] this]
  note step_first [OF goroutine_step.intros(1) [OF slot] this]
  from step_first [OF goroutine_step.intros(1) [OF start] this] show ?thesis .
qed

theorem pool_bounded_witness:
  "card (net_open (race_pool 1 1 [] False {0})) = 1 \<and> sint (total_out (race_pool 1 1 [] False {0})) = 1"
proof -
  have "pool_step\<^sup>*\<^sup>* (pool_start default_pool_config 2) (two (race_pool 1 1 [] False {0}) (Using 0) Resting)"
    unfolding race_start by (rule race_get) simp
  from pool_bounded [OF this refl] show ?thesis
    by (simp add: default_pool_fixed race_pool_def default_pool_config_def)
qed

text \<open>
  A pool for one connection reports two: the connection is idle when Stats reads the list, and checked
  out when it reads the counter.
\<close>

definition tiny_config :: pool_config where
  "tiny_config = default_pool_config\<lparr>max_idle := 1, max_total := 1\<rparr>"

definition tiny_pool :: "nat \<Rightarrow> u32 \<Rightarrow> pool_conn list \<Rightarrow> nat set \<Rightarrow> conn_pool" where
  "tiny_pool sem out idle socks =
     \<lparr>cp_config = tiny_config, cp_idle = idle, total_out = out, cp_sem = sem, cp_waiters = 0,
      cp_closed = False, net_open = socks, net_next = card socks\<rparr>"

lemma tiny_start: "pool_start tiny_config 2 = two (tiny_pool 0 0 [] {}) Resting Resting"
  by (simp add: pool_start_def new_conn_pool_def tiny_pool_def tiny_config_def default_pool_config_def seconds_def
      i64_def nanos_def Let_def numeral_2_eq_2)

lemma tiny_get:
  assumes "get_idle 0 (tiny_pool 1 0 idle socks) = (Some c, tiny_pool 1 1 idle' socks)"
    "pool_step\<^sup>*\<^sup>* (two (tiny_pool 1 1 idle' socks) (Using c) b) w"
  shows "pool_step\<^sup>*\<^sup>* (two (tiny_pool 0 0 idle socks) Resting b) w"
proof -
  have got: "slot_step 0 (Got c) (tiny_pool 1 0 idle socks, Slotted False) (tiny_pool 1 1 idle' socks, Using c)"
    using slot_idle [OF assms(1), of False] by (simp add: leave_wait_def)
  have slot: "get_step 0 None Tau (tiny_pool 0 0 idle socks, Getting) (tiny_pool 1 0 idle socks, Slotted False)"
    using get_slot [of "tiny_pool 0 0 idle socks" 0 None] by (simp add: tiny_pool_def tiny_config_def)
  have start: "get_step 0 None Tau (tiny_pool 0 0 idle socks, Resting) (tiny_pool 0 0 idle socks, Getting)"
    by (rule get_begin) (simp add: tiny_pool_def)
  note step_first [OF goroutine_step.intros(3) [OF got] assms(2)]
  note step_first [OF goroutine_step.intros(1) [OF slot] this]
  from step_first [OF goroutine_step.intros(1) [OF start] this] show ?thesis .
qed

lemma tiny_dial:
  assumes "pool_step\<^sup>*\<^sup>* (two (tiny_pool 1 1 [] {0}) (Using 0) b) w"
  shows "pool_step\<^sup>*\<^sup>* (two (tiny_pool 0 0 [] {}) Resting b) w"
proof -
  have idle: "get_idle 0 (tiny_pool 1 0 [] {}) = (None, tiny_pool 1 0 [] {})"
    by (simp add: get_idle_eq get_idle_spec_def tiny_pool_def)
  have counted: "slot_step 0 (Got 0) (tiny_pool 1 0 [] {0}, Dialled False 0) (tiny_pool 1 1 [] {0}, Using 0)"
    using dial_counted [of 0 0 "tiny_pool 1 0 [] {0}" False] by (simp add: tiny_pool_def leave_wait_def)
  have dial: "slot_step 0 Tau (tiny_pool 1 0 [] {}, Dialling False) (tiny_pool 1 0 [] {0}, Dialled False 0)"
    using dial_ok [of 0 "tiny_pool 1 0 [] {}" False] by (simp add: tiny_pool_def)
  have slot: "get_step 0 None Tau (tiny_pool 0 0 [] {}, Getting) (tiny_pool 1 0 [] {}, Slotted False)"
    using get_slot [of "tiny_pool 0 0 [] {}" 0 None] by (simp add: tiny_pool_def tiny_config_def)
  have start: "get_step 0 None Tau (tiny_pool 0 0 [] {}, Resting) (tiny_pool 0 0 [] {}, Getting)"
    by (rule get_begin) (simp add: tiny_pool_def)
  note step_first [OF goroutine_step.intros(3) [OF counted] assms]
  note step_first [OF goroutine_step.intros(3) [OF dial] this]
  note step_first [OF goroutine_step.intros(3) [OF slot_none [OF idle]] this]
  note step_first [OF goroutine_step.intros(1) [OF slot] this]
  from step_first [OF goroutine_step.intros(1) [OF start] this] show ?thesis .
qed

lemma tiny_put:
  assumes "pool_step\<^sup>*\<^sup>* (two (tiny_pool 0 0 [\<lparr>pc_conn = 0, created_at = 0, idle_since = 0\<rparr>] {0}) Resting b) w"
  shows "pool_step\<^sup>*\<^sup>* (two (tiny_pool 1 1 [] {0}) (Using 0) b) w"
proof -
  let ?pc = "\<lparr>pc_conn = 0, created_at = 0, idle_since = 0\<rparr>"
  have released: "put_step 0 (tiny_pool 1 0 [?pc] {0}, Releasing) (tiny_pool 0 0 [?pc] {0}, Resting)"
    using put_releases [of "tiny_pool 1 0 [?pc] {0}" 0] by (simp add: tiny_pool_def)
  have kept: "put_step 0 (tiny_pool 1 0 [] {0}, Put_open 0) (tiny_pool 1 0 [?pc] {0}, Releasing)"
    using put_kept [of "tiny_pool 1 0 [] {0}" 0 0] by (simp add: tiny_pool_def tiny_config_def)
  have sees: "put_step 0 (tiny_pool 1 0 [] {0}, Put_counted 0) (tiny_pool 1 0 [] {0}, Put_open 0)"
    by (rule put_sees_open) (simp add: tiny_pool_def)
  have counted: "put_step 0 (tiny_pool 1 1 [] {0}, Using 0) (tiny_pool 1 0 [] {0}, Put_counted 0)"
    using put_begin [of 0 "tiny_pool 1 1 [] {0}" 0] by (simp add: tiny_pool_def)
  note step_first [OF goroutine_step.intros(4) [OF released] assms]
  note step_first [OF goroutine_step.intros(4) [OF kept] this]
  note step_first [OF goroutine_step.intros(4) [OF sees] this]
  from step_first [OF goroutine_step.intros(4) [OF counted] this] show ?thesis .
qed

lemma stats_above_limit:
  "\<exists>w st s'. pool_step\<^sup>*\<^sup>* (pool_start tiny_config 2) w \<and>
     goroutine_step 0 (Reported st) (pw_pool w, pw_procs w ! 1) s' \<and> total_conns st = 2 \<and> stat_max_total st = 1"
proof -
  let ?pc = "\<lparr>pc_conn = 0, created_at = 0, idle_since = 0\<rparr>"
  let ?w = "two (tiny_pool 1 1 [] {0}) (Using 0) (Active_read 1 1)"
  let ?st = "pool_stats_of (tiny_pool 1 1 [] {0}) 1 1 0"
  have idle: "get_idle 0 (tiny_pool 1 0 [?pc] {0}) = (Some 0, tiny_pool 1 1 [] {0})"
    by (simp add: get_idle_eq get_idle_spec_def tiny_pool_def tiny_config_def default_pool_config_def seconds_def
        i64_def nanos_def time_sub_def i64_min_def i64_max_def)
  have read1: "stats_step Tau (tiny_pool 0 0 [?pc] {0}, Resting) (tiny_pool 0 0 [?pc] {0}, Idle_read 1)"
    using stats_idle [of "tiny_pool 0 0 [?pc] {0}"] by (simp add: tiny_pool_def)
  have read2: "stats_step Tau (tiny_pool 1 1 [] {0}, Idle_read 1) (tiny_pool 1 1 [] {0}, Active_read 1 1)"
    using stats_active [of "tiny_pool 1 1 [] {0}" 1] by (simp add: tiny_pool_def)
  have "pool_step\<^sup>*\<^sup>* (two (tiny_pool 1 1 [] {0}) (Using 0) (Idle_read 1)) ?w"
    by (rule step_second [OF goroutine_step.intros(8) [OF read2] rtranclp.rtrancl_refl])
  then have "pool_step\<^sup>*\<^sup>* (two (tiny_pool 0 0 [?pc] {0}) Resting (Idle_read 1)) ?w" by (rule tiny_get [OF idle])
  then have "pool_step\<^sup>*\<^sup>* (two (tiny_pool 0 0 [?pc] {0}) Resting Resting) ?w"
    by (rule step_second [OF goroutine_step.intros(8) [OF read1]])
  then have run: "pool_step\<^sup>*\<^sup>* (pool_start tiny_config 2) ?w" unfolding tiny_start by (intro tiny_dial tiny_put)
  have "goroutine_step 0 (Reported ?st) (pw_pool ?w, pw_procs ?w ! 1) (pw_pool ?w, Resting)"
    using goroutine_step.intros(8) [OF stats_waiters [of "tiny_pool 1 1 [] {0}" 1 1]] by (simp add: tiny_pool_def)
  moreover have "total_conns ?st = 2 \<and> stat_max_total ?st = 1"
    by (simp add: pool_stats_of_def tiny_pool_def tiny_config_def)
  ultimately show ?thesis using run by blast
qed


subsection \<open>What Close leaves open\<close>

lemma closed_step: "goroutine_step now e (p, g) (p', g') \<Longrightarrow> cp_closed p \<Longrightarrow> cp_closed p'"
  by (elim pool_stepEs) (auto simp: leave_wait_def get_idle_frame)

lemma drained_step:
  assumes "goroutine_step now e (p, g) (p', g')" "cp_closed p" "cp_idle p = []" "\<forall>c. g \<noteq> Put_open c"
  shows "cp_idle p' = [] \<and> (\<forall>c. g' \<noteq> Put_open c)"
  using assms
  by (elim pool_stepEs) (auto simp: leave_wait_def sweep_idle_def get_idle_eq get_idle_spec_def)

definition drained :: "pool_world \<Rightarrow> bool" where
  "drained w \<longleftrightarrow> cp_closed (pw_pool w) \<and> cp_idle (pw_pool w) = [] \<and>
     (\<forall>g\<in>set (pw_procs w). \<forall>c. g \<noteq> Put_open c)"

lemma drained_pool_step:
  assumes "pool_step w w'" "drained w"
  shows "drained w'"
proof -
  obtain i now e p' g' where i: "i < length (pw_procs w)"
      and st: "goroutine_step now e (pw_pool w, pw_procs w ! i) (p', g')"
      and w': "w' = w\<lparr>pw_pool := p', pw_procs := (pw_procs w)[i := g']\<rparr>"
    using assms(1) by (cases rule: pool_step.cases) auto
  from i have "pw_procs w ! i \<in> set (pw_procs w)" by simp
  with drained_step [OF st] closed_step [OF st] assms(2)
  have "cp_closed p' \<and> cp_idle p' = [] \<and> (\<forall>c. g' \<noteq> Put_open c)" by (auto simp: drained_def)
  with assms(2) w' show ?thesis
    by (auto simp: drained_def dest!: set_update_subset_insert [THEN subsetD])
qed

lemma drained_run: "pool_step\<^sup>*\<^sup>* w w' \<Longrightarrow> drained w \<Longrightarrow> drained w'"
  by (induction rule: rtranclp_induct) (auto intro: drained_pool_step)

lemma drained_all_closed:
  assumes "pool_inv c w" "drained w" "set (pw_procs w) \<subseteq> {Resting}"
  shows "net_open (pw_pool w) = {}"
proof -
  have "sum_list (map carried gs) = {#}" if "set gs \<subseteq> {Resting}" for gs
    using that by (induction gs) auto
  then have "mset_set (net_open (pw_pool w)) = {#} \<and> finite (net_open (pw_pool w))"
    using assms by (auto simp: pool_inv_def sockets_kept_def drained_def)
  then show ?thesis by (auto simp: mset_set_empty_iff)
qed

lemma race_close:
  "pool_step\<^sup>*\<^sup>* (pool_start default_pool_config 2)
     (two (race_pool 0 0 [\<lparr>pc_conn = 0, created_at = 0, idle_since = 0\<rparr>] True {0}) Resting Resting)"
  (is "pool_step\<^sup>*\<^sup>* _ (two (race_pool 0 0 [?pc] True {0}) Resting Resting)")
proof -
  let ?p = "\<lambda>closed. race_pool 1 0 [] closed {0}"
  have released: "put_step 0 (race_pool 1 0 [?pc] True {0}, Releasing) (race_pool 0 0 [?pc] True {0}, Resting)"
    using put_releases [of "race_pool 1 0 [?pc] True {0}" 0] by (simp add: race_pool_def)
  have kept: "put_step 0 (?p True, Put_open 0) (race_pool 1 0 [?pc] True {0}, Releasing)"
    using put_kept [of "?p True" 0 0] by (simp add: race_pool_def default_pool_config_def)
  have takes: "close_step (?p True, Close_begun) (?p True, Closing [])"
    using close_takes [of "?p True"] by (simp add: race_pool_def)
  have starts: "close_step (?p False, Resting) (?p True, Close_begun)"
    using close_begin [of "?p False"] by (simp add: race_pool_def)
  have sees: "put_step 0 (?p False, Put_counted 0) (?p False, Put_open 0)"
    by (rule put_sees_open) (simp add: race_pool_def)
  have counted: "put_step 0 (race_pool 1 1 [] False {0}, Using 0) (?p False, Put_counted 0)"
    using put_begin [of 0 "race_pool 1 1 [] False {0}" 0] by (simp add: race_pool_def)
  note step_first [OF goroutine_step.intros(4) [OF released] rtranclp.rtrancl_refl]
  note step_first [OF goroutine_step.intros(4) [OF kept] this]
  note step_second [OF goroutine_step.intros(7) [OF close_done] this]
  note step_second [OF goroutine_step.intros(7) [OF takes] this]
  note step_second [OF goroutine_step.intros(7) [OF starts] this]
  note step_first [OF goroutine_step.intros(4) [OF sees] this]
  note step_first [OF goroutine_step.intros(4) [OF counted] this]
  from race_get [OF this] show ?thesis unfolding race_start .
qed

text \<open>Where every goroutine rests or is inside Stats, a closed pool stays as it is.\<close>

fun only_looks :: "goroutine \<Rightarrow> bool" where
  "only_looks Resting = True"
| "only_looks (Idle_read i) = True"
| "only_looks (Active_read i a) = True"
| "only_looks g = False"

lemma looking_step:
  assumes "goroutine_step now e (p, g) (p', g')" "cp_closed p" "only_looks g"
  shows "p' = p \<and> only_looks g'"
  using assms by (elim pool_stepEs) auto

lemma closed_and_quiet_final:
  assumes "pool_step\<^sup>*\<^sup>* u v" "cp_closed (pw_pool u)" "list_all only_looks (pw_procs u)"
  shows "pw_pool v = pw_pool u \<and> list_all only_looks (pw_procs v)"
  using assms(1)
proof (induction rule: rtranclp_induct)
  case (step w w')
  obtain i now e p' g' where i: "i < length (pw_procs w)"
      and st: "goroutine_step now e (pw_pool w, pw_procs w ! i) (p', g')"
      and w': "w' = w\<lparr>pw_pool := p', pw_procs := (pw_procs w)[i := g']\<rparr>"
    using step(2) by (cases rule: pool_step.cases) auto
  have "p' = pw_pool w \<and> only_looks g'"
    by (rule looking_step [OF st]) (use step(3) assms(2) i in \<open>auto simp: list_all_length\<close>)
  then show ?case using step(3) w' using i by (auto simp: list_all_length nth_list_update)
qed (use assms(3) in simp)

text \<open>
  After Close has taken the idle connections, and when no Put is between its check of the
  closed flag and its append, nothing goes back to the idle list any more, and once the
  goroutines are done every socket is closed. Without that condition it is false: a Put that
  saw the pool open and appends after Close leaves a socket in the idle list that no later
  step can close (the run ends in a state after which nothing changes the pool).
\<close>

theorem close_closes_all_but_racing_puts:
  assumes "pool_step\<^sup>*\<^sup>* (pool_start c n) w" "drained w" "pool_step\<^sup>*\<^sup>* w w'"
    "set (pw_procs w') \<subseteq> {Resting}"
  shows "net_open (pw_pool w') = {} \<and>
    (\<exists>u. pool_step\<^sup>*\<^sup>* (pool_start default_pool_config 2) u \<and> cp_closed (pw_pool u) \<and>
       set (pw_procs u) = {Resting} \<and> net_open (pw_pool u) = {0} \<and>
       (\<forall>v. pool_step\<^sup>*\<^sup>* u v \<longrightarrow> net_open (pw_pool v) = {0}))"
proof
  have "pool_inv (cp_config (new_conn_pool c)) w'"
    by (rule pool_inv_run [OF rtranclp_trans [OF assms(1,3)]])
  then show "net_open (pw_pool w') = {}"
    by (rule drained_all_closed) (use assms drained_run in auto)
  let ?u = "two (race_pool 0 0 [\<lparr>pc_conn = 0, created_at = 0, idle_since = 0\<rparr>] True {0}) Resting Resting"
  have "net_open (pw_pool v) = {0}" if "pool_step\<^sup>*\<^sup>* ?u v" for v
    using closed_and_quiet_final [OF that] by (simp add: race_pool_def)
  then show "\<exists>u. pool_step\<^sup>*\<^sup>* (pool_start default_pool_config 2) u \<and> cp_closed (pw_pool u) \<and>
       set (pw_procs u) = {Resting} \<and> net_open (pw_pool u) = {0} \<and>
       (\<forall>v. pool_step\<^sup>*\<^sup>* u v \<longrightarrow> net_open (pw_pool v) = {0})"
    by (intro exI [of _ ?u] conjI race_close) (auto simp: race_pool_def)
qed

lemma closed_at_once:
  "pool_step\<^sup>*\<^sup>* (pool_start default_pool_config 2) (two (race_pool 0 0 [] True {}) (Closing []) Resting)"
proof -
  have takes: "close_step (race_pool 0 0 [] True {}, Close_begun) (race_pool 0 0 [] True {}, Closing [])"
    using close_takes [of "race_pool 0 0 [] True {}"] by (simp add: race_pool_def)
  have starts: "close_step (race_pool 0 0 [] False {}, Resting) (race_pool 0 0 [] True {}, Close_begun)"
    using close_begin [of "race_pool 0 0 [] False {}"] by (simp add: race_pool_def)
  note step_first [OF goroutine_step.intros(7) [OF takes] rtranclp.rtrancl_refl]
  from step_first [OF goroutine_step.intros(7) [OF starts] this] show ?thesis unfolding race_start .
qed

theorem close_closes_all_but_racing_puts_witness: "net_open (race_pool 0 0 [] True {}) = {}"
proof -
  have "drained (two (race_pool 0 0 [] True {}) (Closing []) Resting)"
    by (simp add: drained_def race_pool_def)
  moreover have "pool_step\<^sup>*\<^sup>* (two (race_pool 0 0 [] True {}) (Closing []) Resting)
      (two (race_pool 0 0 [] True {}) Resting Resting)"
    by (rule step_first [OF goroutine_step.intros(7) [OF close_done] rtranclp.rtrancl_refl])
  ultimately show ?thesis
    using close_closes_all_but_racing_puts [OF closed_at_once] by force
qed


subsection \<open>Every operation comes to an end\<close>

text \<open>
  A bound on the own steps that are left of the operation a goroutine is in; a goroutine that
  is resting or has a connection in use waits for its caller.
\<close>

fun steps_left :: "pool_config \<Rightarrow> goroutine \<Rightarrow> nat" where
  "steps_left c Resting = 0"
| "steps_left c (Using x) = 0"
| "steps_left c Getting = 5"
| "steps_left c (Queued d) = 4"
| "steps_left c (Slotted w) = 3"
| "steps_left c (Dialling w) = 2"
| "steps_left c (Dialled w x) = 1"
| "steps_left c (Dial_failed w) = 1"
| "steps_left c (Put_counted x) = 4"
| "steps_left c (Put_open x) = 3"
| "steps_left c (Put_closing x) = 2"
| "steps_left c Releasing = 1"
| "steps_left c Cleaning = 1"
| "steps_left c Close_begun = nat (max_idle c) + 2"
| "steps_left c (Closing xs) = Suc (length xs)"
| "steps_left c (Idle_read i) = 2"
| "steps_left c (Active_read i a) = 1"

lemma steps_left_falls:
  assumes "goroutine_step now e (p, g) (p', g')" "0 < steps_left (cp_config p) g"
    "length (cp_idle p) \<le> nat (max_idle (cp_config p))"
  shows "steps_left (cp_config p) g' < steps_left (cp_config p) g"
  using assms by (elim pool_stepEs) auto

lemma step_ready:
  assumes "0 < steps_left (cp_config p) g" "0 < slots g \<Longrightarrow> 0 < cp_sem p"
    "case g of Queued d \<Rightarrow> d \<le> now | _ \<Rightarrow> True"
  shows "\<exists>e p' g'. goroutine_step now e (p, g) (p', g') \<and> e \<noteq> Failed Context_error"
proof (cases g)
  case Getting
  then show ?thesis
    by (cases "cp_sem p < pool_cap p")
      (blast intro: goroutine_step.intros(1) get_slot, blast intro: goroutine_step.intros(1) get_full)
next
  case (Queued d)
  with assms(3) show ?thesis by (auto intro!: exI goroutine_step.intros(2) wait_timeout)
next
  case (Slotted w)
  obtain r p' where "get_idle now p = (r, p')" by force
  with Slotted show ?thesis
    by (cases r) (blast intro: goroutine_step.intros(3) slot_none, blast intro: goroutine_step.intros(3) slot_idle)
next
  case (Put_counted c)
  then show ?thesis
    by (cases "cp_closed p")
      (blast intro: goroutine_step.intros(4) put_sees_closed, blast intro: goroutine_step.intros(4) put_sees_open)
next
  case (Put_open c)
  then show ?thesis
    by (cases "int (length (cp_idle p)) < max_idle (cp_config p)")
      (blast intro: goroutine_step.intros(4) put_kept, blast intro: goroutine_step.intros(4) put_full)
next
  case (Closing cs)
  then show ?thesis
    by (cases cs)
      (blast intro: goroutine_step.intros(7) close_done, blast intro: goroutine_step.intros(7) close_one)
next
  case (Dialling w)
  then show ?thesis by (blast intro: goroutine_step.intros(3) dial_fails)
next
  case (Dial_failed w)
  with assms(2) show ?thesis by (fastforce intro: goroutine_step.intros(3) dial_released)
next
  case (Dialled w c)
  then show ?thesis by (blast intro: goroutine_step.intros(3) dial_counted)
next
  case (Put_closing c)
  then show ?thesis by (blast intro: goroutine_step.intros(4) put_closes)
next
  case Releasing
  with assms(2) show ?thesis by (fastforce intro: goroutine_step.intros(4) put_releases)
next
  case Cleaning
  then show ?thesis by (blast intro: goroutine_step.intros(6) cleanup_sweeps)
next
  case Close_begun
  then show ?thesis by (blast intro: goroutine_step.intros(7) close_takes)
next
  case (Idle_read i)
  then show ?thesis by (blast intro: goroutine_step.intros(8) stats_active)
next
  case (Active_read i a)
  have "goroutine_step now (Reported (pool_stats_of p i a (cp_waiters p))) (p, g) (p, Resting)"
    unfolding Active_read by (rule goroutine_step.intros(8) [OF stats_waiters])
  then show ?thesis by blast
qed (use assms(1) in simp_all)

text \<open>
  C16. No operation hangs. Wherever the scheduler has brought the pool, a goroutine inside an
  operation can take its next step at once, or, in the queue of a full pool, from the end of
  its queue timeout on: in particular the receive that gives a slot back never blocks. And
  every own step brings the end of its operation nearer, by a measure of at most MaxIdleConns
  + 5.
\<close>

theorem operations_end:
  assumes run: "pool_step\<^sup>*\<^sup>* (pool_start c n) w" and i: "i < length (pw_procs w)"
    and busy: "0 < steps_left cfg (pw_procs w ! i)" and cfg: "cfg = cp_config (new_conn_pool c)"
  shows "(\<exists>t. \<forall>now. now < t \<or> (\<exists>e p' g'. goroutine_step now e (pw_pool w, pw_procs w ! i) (p', g') \<and>
      e \<noteq> Failed Context_error)) \<and>
    (\<forall>now e p' g'. goroutine_step now e (pw_pool w, pw_procs w ! i) (p', g') \<longrightarrow>
      steps_left cfg g' < steps_left cfg (pw_procs w ! i))"
proof -
  let ?p = "pw_pool w" and ?g = "pw_procs w ! i"
  have inv: "pool_inv cfg w" using pool_inv_run [OF run] cfg by simp
  then have sem: "0 < slots ?g \<Longrightarrow> 0 < cp_sem ?p"
    using pool.release_ready i by (auto simp: pool_inv_def)
  have conf: "cp_config ?p = cfg" using inv by (simp add: pool_inv_def)
  define t where "t = (case ?g of Queued d \<Rightarrow> d | _ \<Rightarrow> 0)"
  have "now < t \<or> (\<exists>e p' g'. goroutine_step now e (?p, ?g) (p', g') \<and> e \<noteq> Failed Context_error)" for now
  proof (cases "now < t")
    case False
    then have "case ?g of Queued d \<Rightarrow> d \<le> now | _ \<Rightarrow> True" by (simp add: t_def split: goroutine.splits)
    with step_ready [of ?p ?g now] busy sem conf show ?thesis by simp
  qed simp
  moreover have "steps_left cfg g' < steps_left cfg ?g"
    if "goroutine_step now e (?p, ?g) (p', g')" for now e p' g'
    using steps_left_falls [OF that] busy inv conf by (simp add: pool_inv_def)
  ultimately show ?thesis by blast
qed

theorem operations_end_witness:
  "\<exists>now e p' g'. goroutine_step now e (race_pool 0 0 [] True {}, Closing []) (p', g')"
proof -
  obtain t where "\<forall>now. now < t \<or> (\<exists>e p' g'. goroutine_step now e (race_pool 0 0 [] True {}, Closing []) (p', g') \<and>
      e \<noteq> Failed Context_error)"
    using operations_end [OF closed_at_once, of 0, OF _ _ refl] by auto
  from this [rule_format, of t] show ?thesis by auto
qed

end
