(* ===== verification/HotPath.thy ===== *)
theory HotPath
  imports Strings
begin

text \<open>
  The allocation-free parts of the proxy core: the header inspection and the routing of
  \<^verbatim>\<open>internal/client/proxy/hotpath.go\<close>, the buffer pool of \<^verbatim>\<open>pool.go\<close> and the memory settings of
  \<^verbatim>\<open>gc.go\<close>. No other file of the client calls them yet. A header map gives the values of a
  canonical header name, in order.
\<close>

subsection \<open>Header inspection\<close>

type_synonym header_map = "string \<Rightarrow> string list"

record route_decision =
  rd_action :: u8
  rd_backend :: u16
  rd_flags :: u8

definition route_proxy :: u8 where "route_proxy = 0"
definition route_challenge :: u8 where "route_challenge = 1"
definition route_block :: u8 where "route_block = 2"
definition route_rate_limit :: u8 where "route_rate_limit = 3"

definition flag_websocket :: u8 where "flag_websocket = push_bit 0 1"
definition flag_keep_alive :: u8 where "flag_keep_alive = push_bit 1 1"
definition flag_has_body :: u8 where "flag_has_body = push_bit 2 1"

abbreviation set_flag :: "u8 \<Rightarrow> route_decision \<Rightarrow> route_decision" where
  "set_flag f d \<equiv> d\<lparr>rd_flags := rd_flags d OR f\<rparr>"

definition inspect_headers :: "header_map \<Rightarrow> route_decision \<Rightarrow> route_decision" where
  "inspect_headers h d =
     (let d0 = d\<lparr>rd_action := route_proxy, rd_backend := 0, rd_flags := 0\<rparr>;
          d1 = (case h ''Connection'' of [] \<Rightarrow> d0
                | conn # _ \<Rightarrow>
                    let e = (if 7 \<le> length conn \<and> (conn ! 0 = CHR ''u'' \<or> conn ! 0 = CHR ''U'')
                             then set_flag flag_websocket d0 else d0)
                    in (if 10 \<le> length conn \<and> (conn ! 0 = CHR ''k'' \<or> conn ! 0 = CHR ''K'')
                        then set_flag flag_keep_alive e else e));
          d2 = (case h ''Content-Length'' of [] \<Rightarrow> d1
                | cl # _ \<Rightarrow> if 0 < length cl \<and> cl ! 0 \<noteq> CHR ''0'' then set_flag flag_has_body d1 else d1)
      in (if 0 < length (h ''Transfer-Encoding'') then set_flag flag_has_body d2 else d2))"

text \<open>The copying loop: the buffer of \<open>sz\<close> bytes, whether a byte was seen, what was written.\<close>

fun client_ip_loop :: "nat \<Rightarrow> bool \<Rightarrow> string \<Rightarrow> string \<Rightarrow> string" where
  "client_ip_loop sz started buf [] = buf"
| "client_ip_loop sz started buf (ch # xff) =
     (if \<not> length buf < sz then buf
      else if ch = CHR '','' then buf
      else if ch = CHR '' '' \<and> \<not> started then client_ip_loop sz started buf xff
      else client_ip_loop sz True (buf @ [ch]) xff)"

function trim_end :: "string \<Rightarrow> nat \<Rightarrow> nat" where
  "trim_end buf n = (if 0 < n \<and> buf ! (n - 1) = CHR '' '' then trim_end buf (n - 1) else n)"
  by auto
termination
  by (relation "measure snd") auto

declare trim_end.simps [simp del]

text \<open>The number of bytes written, and the buffer's front.\<close>

definition inspect_client_ip :: "header_map \<Rightarrow> nat \<Rightarrow> nat \<times> string" where
  "inspect_client_ip h sz =
     (case h ''X-Forwarded-For'' of [] \<Rightarrow> (0, [])
      | xff # _ \<Rightarrow>
          if length xff = 0 then (0, [])
          else let buf = client_ip_loop sz False [] xff in (trim_end buf (length buf), buf))"

definition match_route :: "string \<Rightarrow> route_decision \<Rightarrow> route_decision" where
  "match_route path d =
     (if length path < 7 \<or> path ! 0 \<noteq> CHR ''/'' then d\<lparr>rd_action := route_proxy\<rparr>
      else if 7 \<le> length path \<and> path ! 1 = CHR ''_'' \<and> path ! 2 = CHR ''_'' \<and> path ! 3 = CHR ''k'' \<and>
              path ! 4 = CHR ''i'' \<and> path ! 5 = CHR ''r'' \<and> path ! 6 = CHR ''o''
      then d\<lparr>rd_action := route_challenge\<rparr>
      else d\<lparr>rd_action := route_proxy\<rparr>)"

text \<open>The flags, read back: one bit for each of the three findings.\<close>

lemma inspected_flags:
  "flag_has_body AND rd_flags (inspect_headers h d) = flag_has_body \<longleftrightarrow>
     h ''Transfer-Encoding'' \<noteq> [] \<or> (\<exists>cl r. h ''Content-Length'' = cl # r \<and> cl \<noteq> [] \<and> cl ! 0 \<noteq> CHR ''0'')"
  by (auto simp: inspect_headers_def Let_def flag_has_body_def flag_websocket_def flag_keep_alive_def
      route_proxy_def split: list.split)

lemma match_route_prefix:
  "match_route path d = d\<lparr>rd_action := if prefix ''/__kiro'' path then route_challenge else route_proxy\<rparr>"
proof (cases "7 \<le> length path")
  case True
  then obtain a b c e f g h r where "path = a # b # c # e # f # g # h # r"
    by (auto simp: eval_nat_numeral Suc_le_length_iff)
  then show ?thesis by (auto simp: match_route_def)
next
  case False
  then have "\<not> prefix ''/__kiro'' path" using prefix_length_le by fastforce
  with False show ?thesis by (simp add: match_route_def)
qed

subsection \<open>The first forwarded address\<close>

lemma client_ip_loop_started:
  "client_ip_loop sz True buf xff = buf @ take (sz - length buf) (before_sep CHR '','' xff)"
proof (induction xff arbitrary: buf)
  case (Cons ch xff)
  show ?case
  proof (cases "length buf < sz \<and> ch \<noteq> CHR '',''")
    case True
    then have "sz - length buf = Suc (sz - Suc (length buf))" by (simp add: Suc_diff_Suc)
    with True Cons show ?thesis by (simp add: before_sep_def)
  qed (auto simp: before_sep_def)
qed (simp add: before_sep_def)

lemma client_ip_loop_front:
  "client_ip_loop sz False [] xff = take sz (dropWhile (\<lambda>c. c = CHR '' '') (before_sep CHR '','' xff))"
proof (induction xff)
  case (Cons ch xff)
  then show ?case
    by (cases sz) (auto simp: before_sep_def client_ip_loop_started)
qed (simp add: before_sep_def)

lemma trim_end_take: "n \<le> length buf \<Longrightarrow> take (trim_end buf n) buf = trim_right_char CHR '' '' (take n buf)"
proof (induction n)
  case (Suc n)
  then have "take (Suc n) buf = take n buf @ [buf ! n]" by (simp add: take_Suc_conv_app_nth)
  with Suc show ?case
    by (subst trim_end.simps) (auto simp: trim_right_char_def)
qed (subst trim_end.simps, simp add: trim_right_char_def)

lemma trim_end_le: "trim_end buf n \<le> n"
proof (induction n)
  case (Suc n)
  then show ?case by (subst trim_end.simps) auto
qed (subst trim_end.simps, simp)

text \<open>
  The byte loop of InspectClientIP is the usual reading of X-Forwarded-For: the text before
  the first comma of the first value, without surrounding spaces, cut to the buffer (a longer
  text is cut before its trailing spaces are trimmed); it never writes past the buffer.
\<close>

theorem inspect_client_ip_reference:
  "inspect_client_ip h sz = (n, buf) \<Longrightarrow>
     n \<le> sz \<and> take n buf = (case h ''X-Forwarded-For'' of [] \<Rightarrow> []
       | xff # _ \<Rightarrow> trim_right_char CHR '' '' (take sz (dropWhile (\<lambda>c. c = CHR '' '') (hd (split_on CHR '','' xff)))))"
proof -
  assume r: "inspect_client_ip h sz = (n, buf)"
  have seg: "split_on CHR '','' xff \<noteq> [] \<and> hd (split_on CHR '','' xff) = before_sep CHR '','' xff" for xff
    by (induction xff) (auto simp: before_sep_def split: list.splits)
  show ?thesis
  proof (cases "h ''X-Forwarded-For''")
    case Nil
    with r show ?thesis by (simp add: inspect_client_ip_def)
  next
    case (Cons xff rest)
    show ?thesis
    proof (cases xff)
      case Nil
      with r Cons show ?thesis by (simp add: inspect_client_ip_def trim_right_char_def)
    next
      case (Cons a b)
      let ?buf = "client_ip_loop sz False [] xff"
      from r \<open>h ''X-Forwarded-For'' = xff # rest\<close> Cons have "buf = ?buf" "n = trim_end ?buf (length ?buf)"
        by (auto simp: inspect_client_ip_def Let_def simp del: client_ip_loop.simps)
      moreover have "length ?buf \<le> sz" by (simp add: client_ip_loop_front)
      moreover have "n \<le> length ?buf" using calculation(2) by (simp add: trim_end_le)
      ultimately show ?thesis
        using \<open>h ''X-Forwarded-For'' = xff # rest\<close> trim_end_take [of "length ?buf" ?buf]
        by (simp add: seg client_ip_loop_front [symmetric])
    qed
  qed
qed

theorem inspect_client_ip_reference_witness:
  "take 8 '' 1.2.3.4 '' = '' 1.2.3.4'' \<and>
   take 7 ''1.2.3.4 '' = trim_right_char CHR '' '' (take 16 (dropWhile (\<lambda>c. c = CHR '' '') (hd (split_on CHR '','' ''  1.2.3.4 , 5.6.7.8''))))"
proof -
  have "inspect_client_ip (\<lambda>_. [''  1.2.3.4 , 5.6.7.8'']) 16 = (7, ''1.2.3.4 '')"
    by (simp add: inspect_client_ip_def trim_end.simps)
  from inspect_client_ip_reference [OF this] show ?thesis by simp
qed

subsection \<open>The buffer pool\<close>

text \<open>
  A buffer is its length and capacity. \<^verbatim>\<open>sync.Pool\<close> may drop what it holds and hand out any
  of it; the model keeps what was put in and lets the caller's choice name one of them.
\<close>

record buffer =
  bf_len :: nat
  bf_cap :: nat

record buffer_pool =
  bp_size :: nat
  bp_items :: "buffer list"

definition max_buffer_size :: int where "max_buffer_size = 256 * 1024"

definition new_buffer_pool :: "int \<Rightarrow> buffer_pool" where
  "new_buffer_pool sz =
     (let s1 = (if sz \<le> 0 then 32 * 1024 else sz);
          s2 = (if max_buffer_size < s1 then max_buffer_size else s1)
      in \<lparr>bp_size = nat s2, bp_items = []\<rparr>)"

definition pool_get :: "nat option \<Rightarrow> buffer_pool \<Rightarrow> buffer \<times> buffer_pool" where
  "pool_get choice bp =
     (case choice of
        Some i \<Rightarrow> if i < length (bp_items bp)
                  then (bp_items bp ! i, bp\<lparr>bp_items := take i (bp_items bp) @ drop (Suc i) (bp_items bp)\<rparr>)
                  else (\<lparr>bf_len = bp_size bp, bf_cap = bp_size bp\<rparr>, bp)
      | None \<Rightarrow> (\<lparr>bf_len = bp_size bp, bf_cap = bp_size bp\<rparr>, bp))"

text \<open>\<open>None\<close>: the reslice beyond the capacity panics.\<close>

definition pool_put :: "buffer option \<Rightarrow> buffer_pool \<Rightarrow> buffer_pool option" where
  "pool_put buf bp =
     (case buf of None \<Rightarrow> Some bp
      | Some b \<Rightarrow>
          if max_buffer_size < int (bf_cap b) then Some bp
          else if bf_cap b < bp_size bp then None
          else Some (bp\<lparr>bp_items := b\<lparr>bf_len := bp_size bp\<rparr> # bp_items bp\<rparr>))"

definition pool_ok :: "buffer_pool \<Rightarrow> bool" where
  "pool_ok bp \<longleftrightarrow> 0 < bp_size bp \<and> int (bp_size bp) \<le> max_buffer_size \<and>
     (\<forall>b\<in>set (bp_items bp). bf_len b = bp_size bp \<and> bp_size bp \<le> bf_cap b \<and> int (bf_cap b) \<le> max_buffer_size)"

lemma new_pool_ok: "pool_ok (new_buffer_pool sz)"
  by (simp add: pool_ok_def new_buffer_pool_def max_buffer_size_def Let_def)

lemma pool_get_ok:
  assumes "pool_ok bp" "pool_get choice bp = (b, bp')"
  shows "pool_ok bp' \<and> bf_len b = bp_size bp \<and> bp_size bp \<le> bf_cap b"
proof -
  have "set (take i xs @ drop (Suc i) xs) \<subseteq> set xs" for i and xs :: "buffer list"
    using set_take_subset [of i xs] set_drop_subset [of "Suc i" xs] by auto
  then show ?thesis
    using assms by (fastforce simp: pool_get_def pool_ok_def split: option.splits if_splits)
qed

text \<open>A buffer that came from the pool, grown or not, goes back without a panic.\<close>

lemma pool_put_ok:
  assumes "pool_ok bp" "bp_size bp \<le> bf_cap b"
  shows "\<exists>bp'. pool_put (Some b) bp = Some bp' \<and> pool_ok bp' \<and> bp_size bp' = bp_size bp"
  using assms by (auto simp: pool_put_def pool_ok_def)

subsection \<open>Memory limits\<close>

definition suffix_multiplier :: "string \<Rightarrow> int" where
  "suffix_multiplier s =
     (let u = go_upper s
      in if u = [] \<or> u = ''B'' then 1
         else if u = ''KB'' then 1000
         else if u = ''KIB'' then 1024
         else if u = ''MB'' then 1000 * 1000
         else if u = ''MIB'' then 1024 * 1024
         else if u = ''GB'' then 1000 * 1000 * 1000
         else if u = ''GIB'' then 1024 * 1024 * 1024
         else 1)"

text \<open>
  \<open>float_bytes\<close> stands for \<^verbatim>\<open>int64(f * float64(multiplier))\<close> of what \<^verbatim>\<open>strconv.ParseFloat\<close>
  reads, if it reads a number.
\<close>

definition parse_mem_limit :: "(string \<Rightarrow> int \<Rightarrow> int option) \<Rightarrow> string \<Rightarrow> int option" where
  "parse_mem_limit float_bytes s0 =
     (let s = trim_space s0
      in if s = [] then None
         else let numeric = (\<lambda>c. digit_val c \<noteq> None \<or> c = CHR ''.'');
                  num_str = takeWhile numeric s;
                  sfx = trim_space (dropWhile numeric s)
              in if num_str = [] then None
                 else case parse_int64 num_str of
                        None \<Rightarrow> float_bytes num_str (suffix_multiplier sfx)
                      | Some v \<Rightarrow> Some (i64 (v * suffix_multiplier sfx)))"

record gc_config =
  gc_gogc :: int
  gc_memlimit :: int

definition configure_gc :: "(string \<Rightarrow> int \<Rightarrow> int option) \<Rightarrow> (string \<Rightarrow> string) \<Rightarrow> gc_config" where
  "configure_gc float_bytes env =
     (let cfg = \<lparr>gc_gogc = 200, gc_memlimit = 512 * 1024 * 1024\<rparr>;
          gogc = trim_space (env ''GOGC'');
          cfg1 = (if gogc \<noteq> [] then case parse_int64 gogc of None \<Rightarrow> cfg | Some v \<Rightarrow> cfg\<lparr>gc_gogc := v\<rparr> else cfg);
          lim = trim_space (env ''GOMEMLIMIT'')
      in (if lim \<noteq> [] then case parse_mem_limit float_bytes lim of None \<Rightarrow> cfg1 | Some v \<Rightarrow> cfg1\<lparr>gc_memlimit := v\<rparr>
          else cfg1))"

lemma digit_char_visible: "0 \<le> d \<Longrightarrow> d < 10 \<Longrightarrow> visible (digit_char d)"
proof -
  assume d: "0 \<le> d" "d < 10"
  have "int (of_char (digit_char d)) = 48 + d"
    using d of_char_char_of_int [of "48 + d"] of_nat_of_char [where 'a = int, of "digit_char d"]
    unfolding digit_char_def by simp
  with d show ?thesis unfolding visible_def Let_def by linarith
qed

text \<open>
  A number with one of the suffixes is read as its number of bytes, as long as that fits in 64
  bits; beyond, it wraps: ten thousand million GB is a negative limit, which
  \<^verbatim>\<open>debug.SetMemoryLimit\<close> takes as a question and not as a setting.
\<close>

lemma mem_limit_read:
  assumes "0 \<le> n" "in_i64 n" "sfx \<in> set [[], ''B'', ''KB'', ''KiB'', ''MB'', ''MiB'', ''GB'', ''GiB'']"
  shows "parse_mem_limit fb (fmt_nat n @ sfx) = Some (i64 (n * suffix_multiplier sfx))"
proof -
  let ?num = "\<lambda>c. digit_val c \<noteq> None \<or> c = CHR ''.''"
  have digits: "visible c \<and> ?num c" if "c \<in> set (fmt_nat n)" for c
    using fmt_nat_digits [OF assms(1) that] digit_char_visible by fastforce
  have vis: "\<forall>c\<in>set sfx. visible c" using assms(3) by (auto simp: visible_def)
  have stop: "sfx = [] \<or> \<not> ?num (hd sfx)" using assms(3) by (auto simp: digit_val_def)
  have "takeWhile ?num sfx = [] \<and> dropWhile ?num sfx = sfx" using stop by (cases sfx) auto
  then have "takeWhile ?num (fmt_nat n @ sfx) = fmt_nat n" and "dropWhile ?num (fmt_nat n @ sfx) = sfx"
    using digits takeWhile_append2 [of "fmt_nat n" ?num sfx] dropWhile_append2 [of "fmt_nat n" ?num sfx]
    by simp_all
  moreover have "trim_space (fmt_nat n @ sfx) = fmt_nat n @ sfx"
    by (rule trim_visible) (use digits vis in auto)
  moreover have "parse_int64 (fmt_nat n) = Some n"
    using parse_fmt_int [OF assms(2)] assms(1) by (simp add: fmt_int_def)
  moreover have "trim_space sfx = sfx" using vis by (rule trim_visible)
  ultimately show ?thesis by (simp add: parse_mem_limit_def Let_def)
qed

lemma mem_limit_wraps: "parse_mem_limit fb (fmt_nat 10000000000 @ ''GB'') = Some (- 8446744073709551616)"
  by (subst mem_limit_read) (simp_all add: in_i64_def i64_def i64_max_def i64_min_def suffix_multiplier_def upper_char_def)

end
