(* ===== verification/Monitor.thy ===== *)
theory Monitor
  imports Strings Complex_Main
begin

text \<open>
  The health monitor of the client, \<^verbatim>\<open>internal/client/monitor/\<close>: its configuration
  (\<^verbatim>\<open>config.go\<close>), the failure tracker (\<^verbatim>\<open>types.go\<close>), the check cycle with the restart
  escalation (\<^verbatim>\<open>monitor.go\<close>), the check of the kernel program (\<^verbatim>\<open>xdp_checker.go\<close>) and the
  alerts (\<^verbatim>\<open>alert.go\<close>).

  The outcomes of the HTTP request, of systemctl and of ip(8) and every clock reading are
  arguments; the alerts sent are part of the result. The loop of \<^verbatim>\<open>run\<close> is a fold of the
  check cycle over the ticks. A threshold multiplier, a \<^verbatim>\<open>float64\<close>, is a rational number.
\<close>

subsection \<open>Configuration\<close>

record monitor_plan =
  pl_name :: string
  pl_domains :: int
  pl_xdp :: bool
  pl_ota :: bool
  pl_rpm :: int

record monitor_config =
  check_interval :: duration
  health_endpoint :: string
  health_timeout :: duration
  max_consec :: int
  max_restart :: int
  restart_cooldown :: duration
  offline_threshold :: duration
  reconnect_interval :: duration
  max_backoff :: duration
  snapshot_interval :: duration
  snapshot_max :: int
  snapshot_path :: string
  emergency_duration :: duration
  emergency_threshold :: rat
  ddos_threshold :: rat
  ddos_window :: duration
  plan_limits_of :: monitor_plan

definition default_monitor_config :: monitor_config where
  "default_monitor_config = \<lparr>check_interval = seconds 10, health_endpoint = ''/__kiro/health'',
     health_timeout = seconds 5, max_consec = 3, max_restart = 3, restart_cooldown = seconds 60,
     offline_threshold = seconds 60, reconnect_interval = seconds 30, max_backoff = minutes 5,
     snapshot_interval = seconds 60, snapshot_max = 64 * 1024 * 1024,
     snapshot_path = ''/var/lib/kiro/snapshots/'', emergency_duration = minutes 5,
     emergency_threshold = 5, ddos_threshold = 10, ddos_window = seconds 10,
     plan_limits_of = \<lparr>pl_name = [], pl_domains = 0, pl_xdp = False, pl_ota = False, pl_rpm = 0\<rparr>\<rparr>"

definition monitor_defaults :: "monitor_config \<Rightarrow> monitor_config" where
  "monitor_defaults cfg =
     (let d = default_monitor_config
      in cfg\<lparr>check_interval := if check_interval cfg \<le> 0 then check_interval d else check_interval cfg,
             health_endpoint := if health_endpoint cfg = [] then health_endpoint d else health_endpoint cfg,
             health_timeout := if health_timeout cfg \<le> 0 then health_timeout d else health_timeout cfg,
             max_consec := if max_consec cfg \<le> 0 then max_consec d else max_consec cfg,
             max_restart := if max_restart cfg \<le> 0 then max_restart d else max_restart cfg,
             restart_cooldown := if restart_cooldown cfg \<le> 0 then restart_cooldown d else restart_cooldown cfg,
             offline_threshold := if offline_threshold cfg \<le> 0 then offline_threshold d else offline_threshold cfg,
             reconnect_interval := if reconnect_interval cfg \<le> 0 then reconnect_interval d else reconnect_interval cfg,
             max_backoff := if max_backoff cfg \<le> 0 then max_backoff d else max_backoff cfg,
             snapshot_interval := if snapshot_interval cfg \<le> 0 then snapshot_interval d else snapshot_interval cfg,
             snapshot_max := if snapshot_max cfg \<le> 0 then snapshot_max d else snapshot_max cfg,
             snapshot_path := if snapshot_path cfg = [] then snapshot_path d else snapshot_path cfg,
             emergency_duration := if emergency_duration cfg \<le> 0 then emergency_duration d else emergency_duration cfg,
             emergency_threshold := if emergency_threshold cfg \<le> 0 then emergency_threshold d else emergency_threshold cfg,
             ddos_threshold := if ddos_threshold cfg \<le> 0 then ddos_threshold d else ddos_threshold cfg,
             ddos_window := if ddos_window cfg \<le> 0 then ddos_window d else ddos_window cfg\<rparr>)"

lemma monitor_defaults_positive:
  "0 < max_consec (monitor_defaults c) \<and> 0 < max_restart (monitor_defaults c) \<and>
   0 < check_interval (monitor_defaults c) \<and> 0 < snapshot_max (monitor_defaults c)"
  by (simp add: monitor_defaults_def default_monitor_config_def Let_def seconds_def i64_def nanos_def)

lemma monitor_defaults_keeps_default: "monitor_defaults default_monitor_config = default_monitor_config"
  by (simp add: monitor_defaults_def default_monitor_config_def Let_def seconds_def minutes_def i64_def nanos_def)

subsection \<open>The failure tracker\<close>

record failure_tracker =
  ft_count :: int
  ft_first :: gotime
  ft_last :: gotime
  ft_window :: duration

definition new_failure_tracker :: "duration \<Rightarrow> failure_tracker" where
  "new_failure_tracker w = \<lparr>ft_count = 0, ft_first = zero_time, ft_last = zero_time, ft_window = w\<rparr>"

definition ft_record :: "gotime \<Rightarrow> failure_tracker \<Rightarrow> failure_tracker" where
  "ft_record now t =
     (let t1 = (if 0 < ft_count t \<and> ft_window t < time_sub now (ft_first t)
                then t\<lparr>ft_count := 0, ft_first := zero_time\<rparr> else t);
          t2 = t1\<lparr>ft_count := ft_count t1 + 1, ft_last := now\<rparr>
      in (if ft_count t2 = 1 then t2\<lparr>ft_first := now\<rparr> else t2))"

definition should_escalate :: "int \<Rightarrow> gotime \<Rightarrow> failure_tracker \<Rightarrow> bool \<times> failure_tracker" where
  "should_escalate threshold now t =
     (if ft_count t < threshold then (False, t)
      else if 0 < ft_window t \<and> ft_window t < time_sub now (ft_first t)
      then (False, t\<lparr>ft_count := 0, ft_first := zero_time\<rparr>)
      else (True, t))"

definition ft_reset :: "failure_tracker \<Rightarrow> failure_tracker" where
  "ft_reset t = t\<lparr>ft_count := 0, ft_first := zero_time, ft_last := zero_time\<rparr>"

subsection \<open>Alerts\<close>

record alert_payload =
  al_type :: string
  al_node :: string
  al_message :: string
  al_time :: gotime
  al_severity :: string

record alert_sender =
  as_master :: string
  as_license :: string
  as_node :: string
  as_timeout :: duration

definition new_alert_sender :: "string \<Rightarrow> string \<Rightarrow> string \<Rightarrow> duration \<Rightarrow> alert_sender" where
  "new_alert_sender master licence node t =
     \<lparr>as_master = master, as_license = licence, as_node = node,
      as_timeout = if t \<le> 0 then seconds 10 else t\<rparr>"

text \<open>The request that the sending goroutine makes: URL, licence key header, payload.\<close>

definition send_alert_async :: "string \<Rightarrow> string \<Rightarrow> gotime \<Rightarrow> alert_sender \<Rightarrow> string \<times> string \<times> alert_payload" where
  "send_alert_async alert_type message now s =
     (as_master s @ ''/api/v1/alert'', as_license s,
      \<lparr>al_type = alert_type, al_node = as_node s, al_message = message, al_time = now,
       al_severity = if alert_type = ''restart_failed'' \<or> alert_type = ''xdp_reload_failed''
                     then ''critical'' else ''warning''\<rparr>)"

definition send_alert :: "string \<Rightarrow> string \<Rightarrow> gotime \<Rightarrow> alert_sender \<Rightarrow> (string \<times> string \<times> alert_payload) option" where
  "send_alert alert_type message now s =
     (if as_master s = [] then None else Some (send_alert_async alert_type message now s))"

subsection \<open>The check of the kernel program\<close>

record xdp_checker =
  xc_interface :: string
  xc_object :: string
  xc_failures :: failure_tracker
  xc_last_attempt :: gotime
  xc_cooldown :: duration
  xc_max :: int

definition new_xdp_checker :: "string \<Rightarrow> string \<Rightarrow> xdp_checker" where
  "new_xdp_checker iface obj =
     \<lparr>xc_interface = iface, xc_object = obj, xc_failures = new_failure_tracker (minutes 5),
      xc_last_attempt = zero_time, xc_cooldown = seconds 60, xc_max = 3\<rparr>"

text \<open>
  What ip(8) answers: the output of \<^verbatim>\<open>ip link show\<close> when it succeeds, and whether the attach
  command did.
\<close>

definition is_xdp_attached :: "string option \<Rightarrow> xdp_checker \<Rightarrow> bool" where
  "is_xdp_attached link_show x =
     (if xc_interface x = [] then False
      else case link_show of None \<Rightarrow> False
           | Some out \<Rightarrow> contains_sub ''xdp'' out \<or> contains_sub ''prog/xdp'' out)"

record reload_outcome =
  ro_attach_ok :: bool
  ro_link_show :: "string option"

datatype reload_error = No_interface | No_object | Attach_failed | Not_detected | In_cooldown

definition reload_xdp :: "reload_outcome \<Rightarrow> xdp_checker \<Rightarrow> reload_error option" where
  "reload_xdp o1 x =
     (if xc_interface x = [] then Some No_interface
      else if xc_object x = [] then Some No_object
      else if \<not> ro_attach_ok o1 then Some Attach_failed
      else if \<not> is_xdp_attached (ro_link_show o1) x then Some Not_detected
      else None)"

text \<open>
  The clock readings of one call: of the escalation test, of the cooldown test, of the start,
  of the record, of the second escalation test. Result: the error, whether an alert was sent.
\<close>

record detach_clock =
  dc_escalate :: gotime
  dc_elapsed :: gotime
  dc_start :: gotime
  dc_record :: gotime
  dc_again :: gotime

definition handle_detached :: "detach_clock \<Rightarrow> reload_outcome \<Rightarrow> xdp_checker \<Rightarrow>
    (reload_error option \<times> bool) \<times> xdp_checker" where
  "handle_detached clk o1 x =
     (let (esc, t) = should_escalate (xc_max x) (dc_escalate clk) (xc_failures x);
          x1 = x\<lparr>xc_failures := t\<rparr>
      in if esc \<and> time_sub (dc_elapsed clk) (xc_last_attempt x1) < xc_cooldown x1
         then ((Some In_cooldown, False), x1)
         else
           let x2 = (if esc then x1\<lparr>xc_failures := ft_reset (xc_failures x1)\<rparr> else x1);
               x3 = x2\<lparr>xc_last_attempt := dc_start clk\<rparr>
           in case reload_xdp o1 x3 of
                Some e \<Rightarrow>
                  let t1 = ft_record (dc_record clk) (xc_failures x3);
                      (again, t2) = should_escalate (xc_max x3) (dc_again clk) t1
                  in ((Some e, again), x3\<lparr>xc_failures := t2\<rparr>)
              | None \<Rightarrow> ((None, False), x3\<lparr>xc_failures := ft_reset (xc_failures x3)\<rparr>))"

record xdp_stats =
  xs_total :: u64
  xs_passed :: u64
  xs_dropped :: u64

text \<open>The parser looks only at whether there is any output.\<close>

definition parse_xdp_stats :: "string \<Rightarrow> xdp_stats option" where
  "parse_xdp_stats out =
     (if out = [] \<or> out = ''[]'' then None else Some \<lparr>xs_total = 0, xs_passed = 0, xs_dropped = 0\<rparr>)"

definition check_xdp :: "string option \<Rightarrow> string option \<Rightarrow> xdp_checker \<Rightarrow> bool \<times> xdp_stats option" where
  "check_xdp link_show map_dump x =
     (let attached = is_xdp_attached link_show x
      in (attached, if attached then (case map_dump of None \<Rightarrow> None | Some out \<Rightarrow> parse_xdp_stats out) else None))"

subsection \<open>The check cycle\<close>

record monitor_status =
  ms_attached :: bool
  ms_healthy :: bool
  ms_consec :: int
  ms_last_check :: gotime

record health_monitor =
  hm_config :: monitor_config
  hm_status :: monitor_status
  hm_health :: failure_tracker
  hm_restart :: failure_tracker
  hm_xdp :: "xdp_checker option"

definition new_monitor :: "monitor_config \<Rightarrow> xdp_checker option \<Rightarrow> health_monitor" where
  "new_monitor config xdp =
     (let cfg = monitor_defaults config
      in \<lparr>hm_config = cfg,
          hm_status = \<lparr>ms_attached = False, ms_healthy = False, ms_consec = 0, ms_last_check = zero_time\<rparr>,
          hm_health = new_failure_tracker (i64 (check_interval cfg * i64 (max_consec cfg + 1))),
          hm_restart = new_failure_tracker (minutes 5), hm_xdp = xdp\<rparr>)"

text \<open>
  What \<^verbatim>\<open>restartService\<close> finds: systemctl restart, whether the context ended in the two
  seconds of waiting, and the output of \<^verbatim>\<open>systemctl is-active\<close> (\<open>None\<close>: it failed).
\<close>

record restart_outcome =
  rs_restart_ok :: bool
  rs_cancelled :: bool
  rs_is_active :: "string option"

definition check_service_active :: "string option \<Rightarrow> bool" where
  "check_service_active out = (case out of None \<Rightarrow> False | Some s \<Rightarrow> trim_space s = ''active'')"

definition restart_service :: "restart_outcome \<Rightarrow> bool" where
  "restart_service r =
     (if \<not> rs_restart_ok r then False
      else if rs_cancelled r then False
      else check_service_active (rs_is_active r))"

text \<open>
  One tick: the clock of the check and of the tracker, the status code of the endpoint (none:
  the request failed), the clock of the escalation test, whether the context ended in the
  cooldown, the restart, and the clock of a failed restart.
\<close>

record tick =
  tk_now :: gotime
  tk_code :: "nat option"
  tk_escalate :: gotime
  tk_cancelled :: bool
  tk_restart :: restart_outcome
  tk_failed :: gotime

definition check_binary_health :: "nat option \<Rightarrow> bool" where
  "check_binary_health code = (case code of None \<Rightarrow> False | Some c \<Rightarrow> c = 200)"

text \<open>The result says whether an alert was sent and whether a restart was attempted.\<close>

definition handle_restart_needed :: "tick \<Rightarrow> health_monitor \<Rightarrow> (bool \<times> bool) \<times> health_monitor" where
  "handle_restart_needed tk m =
     (let (esc, t) = should_escalate (max_restart (hm_config m)) (tk_escalate tk) (hm_restart m);
          m1 = m\<lparr>hm_restart := t\<rparr>
      in if esc \<and> tk_cancelled tk then ((True, False), m1)
         else
           let m2 = (if esc then m1\<lparr>hm_restart := ft_reset (hm_restart m1)\<rparr> else m1)
           in if \<not> restart_service (tk_restart tk)
              then ((esc, True), m2\<lparr>hm_restart := ft_record (tk_failed tk) (hm_restart m2)\<rparr>)
              else ((esc, True),
                    m2\<lparr>hm_restart := ft_reset (hm_restart m2), hm_health := ft_reset (hm_health m2),
                       hm_status := (hm_status m2)\<lparr>ms_consec := 0, ms_healthy := True\<rparr>\<rparr>))"

definition perform_health_check :: "tick \<Rightarrow> health_monitor \<Rightarrow> (bool \<times> bool) \<times> health_monitor" where
  "perform_health_check tk m =
     (let healthy = check_binary_health (tk_code tk);
          st = (hm_status m)\<lparr>ms_last_check := tk_now tk, ms_healthy := healthy\<rparr>
      in if healthy
         then ((False, False), m\<lparr>hm_status := st\<lparr>ms_consec := 0\<rparr>, hm_health := ft_reset (hm_health m)\<rparr>)
         else
           let t = ft_record (tk_now tk) (hm_health m);
               m1 = m\<lparr>hm_health := t, hm_status := st\<lparr>ms_consec := ft_count t\<rparr>\<rparr>
           in if max_consec (hm_config m) \<le> ft_count t then handle_restart_needed tk m1
              else ((False, False), m1))"

definition perform_xdp_check :: "string option \<Rightarrow> string option \<Rightarrow> detach_clock \<Rightarrow> reload_outcome \<Rightarrow> health_monitor \<Rightarrow>
    bool \<times> health_monitor" where
  "perform_xdp_check link_show map_dump clk o1 m =
     (case hm_xdp m of None \<Rightarrow> (False, m)
      | Some x \<Rightarrow>
          let attached = fst (check_xdp link_show map_dump x);
              m1 = m\<lparr>hm_status := (hm_status m)\<lparr>ms_attached := attached\<rparr>\<rparr>
          in if attached then (False, m1)
             else let ((err, alert), x') = handle_detached clk o1 x;
                      m2 = m1\<lparr>hm_xdp := Some x'\<rparr>
                  in (alert, if err = None then m2\<lparr>hm_status := (hm_status m2)\<lparr>ms_attached := True\<rparr>\<rparr> else m2))"


text \<open>The loop of \<^verbatim>\<open>run\<close>, as far as the binary is concerned: alerts and restarts of each tick.\<close>

fun monitor_run :: "tick list \<Rightarrow> health_monitor \<Rightarrow> (bool \<times> bool) list \<times> health_monitor" where
  "monitor_run [] m = ([], m)"
| "monitor_run (tk # tks) m =
     (let (r, m1) = perform_health_check tk m; (rs, m2) = monitor_run tks m1 in (r # rs, m2))"

subsection \<open>What the tracker counts\<close>

lemma time_sub_bound: "time_sub a b \<le> w \<Longrightarrow> w < i64_max \<Longrightarrow> a - b \<le> w"
  by (auto simp: time_sub_def i64_max_def i64_min_def min_def max_def split: if_splits)

lemma drop_snoc_last: "n \<le> length xs \<Longrightarrow> drop (length (xs @ [x]) - Suc n) (xs @ [x]) = drop (length xs - n) xs @ [x]"
  by simp

text \<open>The failures counted are the last ones recorded, and \<open>ft_first\<close> is not after them.\<close>

definition ft_tracks :: "gotime list \<Rightarrow> failure_tracker \<Rightarrow> bool" where
  "ft_tracks ts t \<longleftrightarrow> 0 \<le> ft_count t \<and> nat (ft_count t) \<le> length ts \<and>
     (\<forall>x\<in>set (drop (length ts - nat (ft_count t)) ts). ft_first t \<le> x)"

lemma tracks_record:
  assumes "ft_tracks ts t" "\<forall>x\<in>set ts. x \<le> now"
  shows "ft_tracks (ts @ [now]) (ft_record now t)"
proof -
  let ?k = "nat (ft_count t)"
  have first: "ft_first t \<le> now" if "0 < ft_count t"
  proof -
    from that assms(1) have "drop (length ts - ?k) ts \<noteq> []" by (auto simp: ft_tracks_def)
    then obtain x where "x \<in> set (drop (length ts - ?k) ts)" by (metis last_in_set)
    moreover from this have "x \<in> set ts" by (rule in_set_dropD)
    ultimately show ?thesis using assms by (fastforce simp: ft_tracks_def)
  qed
  show ?thesis
  proof (cases "0 < ft_count t \<and> ft_window t < time_sub now (ft_first t) \<or> ft_count t = 0")
    case True
    then show ?thesis by (auto simp: ft_record_def ft_tracks_def Let_def)
  next
    case False
    with assms(1) have k: "0 < ft_count t" "nat (ft_count t + 1) = Suc ?k" "?k \<le> length ts"
      by (auto simp: ft_tracks_def nat_add_distrib)
    with False first assms(1) show ?thesis
      using drop_snoc_last [of ?k ts now] by (auto simp: ft_record_def ft_tracks_def Let_def)
  qed
qed

lemma ft_record_window [simp]: "ft_window (ft_record now t) = ft_window t"
  by (simp add: ft_record_def Let_def)

lemma tracks_run:
  assumes "sorted ts"
  shows "ft_tracks ts (fold ft_record ts (new_failure_tracker w)) \<and>
    ft_window (fold ft_record ts (new_failure_tracker w)) = w"
  using assms
proof (induction ts rule: rev_induct)
  case (snoc x ts)
  then have "ft_tracks (ts @ [x]) (ft_record x (fold ft_record ts (new_failure_tracker w)))"
    by (intro tracks_record) (auto simp: sorted_append)
  with snoc show ?case by (simp add: sorted_append)
qed (simp add: ft_tracks_def new_failure_tracker_def)

definition four_failures :: "gotime list" where
  "four_failures = map (\<lambda>k. k * (60 * nanos)) [0, 4, 6, 7]"

lemma tracker_forgets:
  "(\<forall>t\<in>set (drop 1 four_failures). 8 * (60 * nanos) - t \<le> minutes 5) \<and>
   \<not> fst (should_escalate 3 (8 * (60 * nanos)) (fold ft_record four_failures (new_failure_tracker (minutes 5))))"
  by code_simp

text \<open>
  An escalation is never unfounded: when the tracker escalates at a threshold of n, the
  last n recorded failures all lie within the window. But it is not complete: the tracker
  starts a new sequence when the first failure of the old one leaves the window and forgets
  the younger ones, so that three failures within five minutes may not escalate.
\<close>

theorem escalation_sound_not_complete:
  assumes "sorted ts" "\<forall>t\<in>set ts. t \<le> now" "0 < w" "w < i64_max" "0 < n"
    "fst (should_escalate n now (fold ft_record ts (new_failure_tracker w)))"
  shows "n \<le> int (length ts) \<and> (\<forall>t\<in>set (drop (length ts - nat n) ts). now - t \<le> w) \<and>
    (\<forall>t\<in>set (drop 1 four_failures). 8 * (60 * nanos) - t \<le> minutes 5) \<and>
    \<not> fst (should_escalate 3 (8 * (60 * nanos)) (fold ft_record four_failures (new_failure_tracker (minutes 5))))"
proof (intro conjI)
  let ?t = "fold ft_record ts (new_failure_tracker w)"
  have tr: "ft_tracks ts ?t" "ft_window ?t = w" using tracks_run [OF assms(1)] by simp_all
  from assms(6,3) tr(2) have n: "n \<le> ft_count ?t" "time_sub now (ft_first ?t) \<le> w"
    by (auto simp: should_escalate_def split: if_splits)
  with tr(1) show "n \<le> int (length ts)" by (auto simp: ft_tracks_def)
  have "now - ft_first ?t \<le> w" using n(2) assms(4) by (rule time_sub_bound)
  moreover have "set (drop (length ts - nat n) ts) \<subseteq> set (drop (length ts - nat (ft_count ?t)) ts)"
    by (rule set_drop_subset_set_drop) (use n(1) in simp)
  ultimately show "\<forall>t\<in>set (drop (length ts - nat n) ts). now - t \<le> w"
    using tr(1) by (fastforce simp: ft_tracks_def)
qed (use tracker_forgets in blast)+

theorem escalation_sound_not_complete_witness:
  "(3::int) \<le> int (length [0, 10 * nanos, 20 * nanos])"
  using escalation_sound_not_complete [of "[0, 10 * nanos, 20 * nanos]" "30 * nanos" "minutes 5" 3]
  by (simp add: should_escalate_def ft_record_def new_failure_tracker_def nanos_def minutes_def i64_def
      time_sub_def i64_max_def i64_min_def)


subsection \<open>When the service is restarted\<close>

definition unhealthy :: "tick \<Rightarrow> bool" where
  "unhealthy tk \<longleftrightarrow> \<not> check_binary_health (tk_code tk)"

lemma monitor_run_append:
  "monitor_run (xs @ ys) m =
     (let (rs, m1) = monitor_run xs m; (rs', m2) = monitor_run ys m1 in (rs @ rs', m2))"
  by (induction xs arbitrary: m) (simp_all split: prod.split)

lemma monitor_run_length: "length (fst (monitor_run tks m)) = length tks"
  by (induction tks arbitrary: m) (simp_all add: case_prod_beta Let_def)

lemma healthy_check: "\<not> unhealthy tk \<Longrightarrow>
    fst (perform_health_check tk m) = (False, False) \<and>
    hm_config (snd (perform_health_check tk m)) = hm_config m \<and>
    ft_window (hm_health (snd (perform_health_check tk m))) = ft_window (hm_health m) \<and>
    ft_count (hm_health (snd (perform_health_check tk m))) = 0"
  by (simp add: unhealthy_def perform_health_check_def ft_reset_def Let_def)

lemma restart_keeps:
  assumes "handle_restart_needed tk m = (r, m')"
  shows "hm_config m' = hm_config m \<and> ft_window (hm_health m') = ft_window (hm_health m) \<and>
    (hm_health m' = hm_health m \<or> ft_count (hm_health m') = 0) \<and>
    (snd r \<or> fst r \<and> tk_cancelled tk)"
  using assms
  by (auto simp: handle_restart_needed_def ft_reset_def Let_def split: prod.splits if_splits)

lemma unhealthy_check:
  assumes "unhealthy tk" "perform_health_check tk m = (r, m')" "t = ft_record (tk_now tk) (hm_health m)"
  shows "hm_config m' = hm_config m \<and> ft_window (hm_health m') = ft_window (hm_health m) \<and>
       (hm_health m' = t \<or> ft_count (hm_health m') = 0) \<and>
       (if max_consec (hm_config m) \<le> ft_count t then snd r \<or> fst r \<and> tk_cancelled tk
        else r = (False, False) \<and> hm_health m' = t)"
proof -
  define m1 where "m1 = m\<lparr>hm_health := t,
    hm_status := (hm_status m)\<lparr>ms_last_check := tk_now tk, ms_healthy := False, ms_consec := ft_count t\<rparr>\<rparr>"
  have "(if max_consec (hm_config m) \<le> ft_count t then handle_restart_needed tk m1
      else ((False, False), m1)) = (r, m')"
    using assms by (auto simp: perform_health_check_def unhealthy_def Let_def m1_def)
  moreover have "hm_config m1 = hm_config m" "hm_health m1 = t" "ft_window t = ft_window (hm_health m)"
    by (simp_all add: m1_def assms(3))
  ultimately show ?thesis using restart_keeps [of tk m1 r m'] by (auto split: if_splits)
qed

text \<open>The failures the tracker counts are checks in a row.\<close>

definition streak :: "tick list \<Rightarrow> int \<Rightarrow> bool" where
  "streak hist k \<longleftrightarrow> 0 \<le> k \<and> nat k \<le> length hist \<and> (\<forall>tk\<in>set (drop (length hist - nat k) hist). unhealthy tk)"

lemma streak_snoc:
  assumes "streak hist k" "unhealthy tk" "0 \<le> j" "j \<le> k + 1"
  shows "streak (hist @ [tk]) j"
proof (cases "j = 0")
  case False
  with assms have "nat j \<noteq> 0" "nat j - 1 \<le> nat k" "nat k \<le> length hist" by (auto simp: streak_def)
  then have "set (drop (length hist - (nat j - 1)) hist) \<subseteq> set (drop (length hist - nat k) hist)"
    by (intro set_drop_subset_set_drop) simp
  moreover have "length (hist @ [tk]) - nat j = length hist - (nat j - 1)" using \<open>nat j \<noteq> 0\<close> by simp
  moreover have "nat j \<le> Suc (length hist)" using \<open>nat j - 1 \<le> nat k\<close> \<open>nat k \<le> length hist\<close> by linarith
  ultimately show ?thesis using assms \<open>nat j \<noteq> 0\<close> by (auto simp: streak_def)
qed (simp add: streak_def)

lemma ft_record_count: "0 \<le> ft_count t \<Longrightarrow> 1 \<le> ft_count (ft_record now t) \<and> ft_count (ft_record now t) \<le> ft_count t + 1"
  by (simp add: ft_record_def Let_def)

lemma streak_run:
  assumes "streak hist (ft_count (hm_health m))" "monitor_run tks m = (rs, m')"
  shows "streak (hist @ tks) (ft_count (hm_health m')) \<and> hm_config m' = hm_config m"
  using assms
proof (induction tks arbitrary: hist m rs)
  case (Cons tk tks)
  obtain r m1 where p: "perform_health_check tk m = (r, m1)" by (cases "perform_health_check tk m")
  obtain rs' where run: "monitor_run tks m1 = (rs', m')" and "rs = r # rs'"
    using Cons.prems(2) p by (auto split: prod.splits)
  have step: "streak (hist @ [tk]) (ft_count (hm_health m1)) \<and> hm_config m1 = hm_config m"
  proof (cases "unhealthy tk")
    case True
    have "0 \<le> ft_count (hm_health m)" using Cons.prems(1) by (simp add: streak_def)
    from ft_record_count [OF this, of "tk_now tk"] unhealthy_check [OF True p refl]
    have "0 \<le> ft_count (hm_health m1) \<and> ft_count (hm_health m1) \<le> ft_count (hm_health m) + 1 \<and>
        hm_config m1 = hm_config m"
      using \<open>0 \<le> ft_count (hm_health m)\<close> by auto
    with streak_snoc [OF Cons.prems(1) True] show ?thesis by blast
  next
    case False
    from healthy_check [OF this, of m] p show ?thesis by (simp add: streak_def)
  qed
  with Cons.IH [of "hist @ [tk]" m1 rs'] run show ?case by simp
qed simp

lemma restart_needs_streak:
  assumes "streak hist (ft_count (hm_health m))" "perform_health_check tk m = (r, m')" "fst r \<or> snd r"
    "0 < max_consec (hm_config m)"
  shows "streak (hist @ [tk]) (max_consec (hm_config m))"
proof -
  have bad: "unhealthy tk"
  proof (rule ccontr)
    assume "\<not> unhealthy tk"
    from healthy_check [OF this, of m] assms(2,3) show False by simp
  qed
  have "0 \<le> ft_count (hm_health m)" using assms(1) by (simp add: streak_def)
  then have "max_consec (hm_config m) \<le> ft_count (hm_health m) + 1"
    using unhealthy_check [OF bad assms(2) refl] assms(3) ft_record_count [of "hm_health m" "tk_now tk"]
    by (auto split: if_splits)
  with streak_snoc [OF assms(1) bad] assms(4) show ?thesis by simp
qed


lemma time_sub_within: "a - b \<le> w \<Longrightarrow> in_i64 w \<Longrightarrow> time_sub a b \<le> w"
  by (auto simp: time_sub_def in_i64_def i64_max_def i64_min_def min_def max_def split: if_splits)

lemma ft_record_next:
  assumes "1 \<le> ft_count t" "now - ft_first t \<le> ft_window t" "in_i64 (ft_window t)"
  shows "ft_count (ft_record now t) = ft_count t + 1 \<and> ft_first (ft_record now t) = ft_first t"
  using assms time_sub_within [of now "ft_first t" "ft_window t"] by (simp add: ft_record_def Let_def)

definition quiet_until_last :: "(bool \<times> bool) list \<Rightarrow> tick list \<Rightarrow> bool" where
  "quiet_until_last out tks \<longleftrightarrow> (\<forall>r\<in>set (butlast out). r = (False, False)) \<and>
     (snd (last out) \<or> fst (last out) \<and> tk_cancelled (last tks))"

lemma count_up:
  assumes "1 \<le> ft_count (hm_health m)" "ft_count (hm_health m) + int (length tks) = max_consec (hm_config m)"
    "tks \<noteq> []" "in_i64 (ft_window (hm_health m))"
    "\<forall>tk\<in>set tks. unhealthy tk \<and> tk_now tk - ft_first (hm_health m) \<le> ft_window (hm_health m)"
  shows "quiet_until_last (fst (monitor_run tks m)) tks"
  using assms
proof (induction tks arbitrary: m)
  case (Cons tk tks)
  obtain r m1 where p: "perform_health_check tk m = (r, m1)" by (cases "perform_health_check tk m")
  let ?t = "ft_record (tk_now tk) (hm_health m)"
  have next_t: "ft_count ?t = ft_count (hm_health m) + 1 \<and> ft_first ?t = ft_first (hm_health m)"
    using Cons.prems by (intro ft_record_next) auto
  have bad: "unhealthy tk" using Cons.prems(5) by simp
  show ?case
  proof (cases tks)
    case Nil
    with unhealthy_check [OF bad p refl] next_t Cons.prems(2) p show ?thesis
      by (simp add: quiet_until_last_def)
  next
    case (Cons tk2 rest)
    with unhealthy_check [OF bad p refl] next_t Cons.prems(2)
    have m1: "r = (False, False)" "hm_health m1 = ?t" "hm_config m1 = hm_config m" by (simp_all split: if_splits)
    have "quiet_until_last (fst (monitor_run tks m1)) tks"
      by (rule Cons.IH) (use Cons.prems m1 next_t Cons in auto)
    moreover have "fst (monitor_run tks m1) \<noteq> []" using monitor_run_length [of tks m1] Cons by auto
    ultimately show ?thesis
      using p m1(1) Cons by (simp add: quiet_until_last_def case_prod_beta Let_def)
  qed
qed simp

lemma count_from_zero:
  assumes "ft_count (hm_health m) = 0" "int (length tks) = max_consec (hm_config m)" "tks \<noteq> []"
    "in_i64 (ft_window (hm_health m))"
    "\<forall>tk\<in>set tks. unhealthy tk \<and> tk_now tk - tk_now (hd tks) \<le> ft_window (hm_health m)"
  shows "quiet_until_last (fst (monitor_run tks m)) tks"
proof -
  obtain tk rest where tks: "tks = tk # rest" using assms(3) by (cases tks) auto
  obtain r m1 where p: "perform_health_check tk m = (r, m1)" by (cases "perform_health_check tk m")
  let ?t = "ft_record (tk_now tk) (hm_health m)"
  have t: "ft_count ?t = 1" "ft_first ?t = tk_now tk" using assms(1) by (simp_all add: ft_record_def Let_def)
  have bad: "unhealthy tk" using assms(5) tks by simp
  show ?thesis
  proof (cases rest)
    case Nil
    with unhealthy_check [OF bad p refl] t assms(2) p tks show ?thesis by (simp add: quiet_until_last_def)
  next
    case (Cons tk2 more_tks)
    with unhealthy_check [OF bad p refl] t assms(2) tks
    have m1: "r = (False, False)" "hm_health m1 = ?t" "hm_config m1 = hm_config m" by (simp_all split: if_splits)
    have "quiet_until_last (fst (monitor_run rest m1)) rest"
      by (rule count_up) (use assms m1 t tks Cons in auto)
    moreover have "fst (monitor_run rest m1) \<noteq> []" using monitor_run_length [of rest m1] Cons by auto
    ultimately show ?thesis
      using p m1(1) Cons tks by (simp add: quiet_until_last_def case_prod_beta Let_def)
  qed
qed

lemma run_keeps_window: "ft_window (hm_health (snd (monitor_run tks m))) = ft_window (hm_health m)"
proof (induction tks arbitrary: m)
  case (Cons tk tks)
  obtain r m1 where p: "perform_health_check tk m = (r, m1)" by (cases "perform_health_check tk m")
  have "ft_window (hm_health m1) = ft_window (hm_health m)"
  proof (cases "unhealthy tk")
    case True
    from unhealthy_check [OF True p refl] show ?thesis by blast
  next
    case False
    from healthy_check [OF False, of m] p show ?thesis by simp
  qed
  with Cons p show ?case by (simp add: case_prod_beta Let_def)
qed simp

text \<open>
  When the service is restarted. Whatever the checks before, a restart (or its alert) comes
  only after MaxConsecFailures unhealthy checks in a row; and after a healthy check, a
  successful restart or the start, the first MaxConsecFailures unhealthy checks that the clock
  puts into one tracker window end in a restart at the last of them and not before, unless the
  context ends in the cooldown.
\<close>

theorem monitor_restarts:
  assumes run: "monitor_run before (new_monitor cfg x) = (rs, m)" and n: "n = nat (max_consec (monitor_defaults cfg))"
  shows "(\<forall>tk r m'. perform_health_check tk m = (r, m') \<and> (fst r \<or> snd r) \<longrightarrow>
      n \<le> length before + 1 \<and> (\<forall>u\<in>set (drop (length before + 1 - n) (before @ [tk])). unhealthy u)) \<and>
    (\<forall>tks. ft_count (hm_health m) = 0 \<and> length tks = n \<and>
      (\<forall>tk\<in>set tks. unhealthy tk \<and> tk_now tk - tk_now (hd tks) \<le> ft_window (hm_health m)) \<longrightarrow>
      quiet_until_last (fst (monitor_run tks m)) tks)"
proof -
  have start: "streak [] (ft_count (hm_health (new_monitor cfg x)))"
    by (simp add: streak_def new_monitor_def new_failure_tracker_def Let_def)
  have st: "streak before (ft_count (hm_health m))" "hm_config m = monitor_defaults cfg"
    using streak_run [OF start run] by (simp_all add: new_monitor_def Let_def)
  have pos: "0 < max_consec (hm_config m)" using st(2) monitor_defaults_positive by simp
  have win: "in_i64 (ft_window (hm_health m))"
    using run_keeps_window [of before "new_monitor cfg x"] run
    by (simp add: new_monitor_def new_failure_tracker_def Let_def in_i64_i64)
  have "n \<le> length before + 1 \<and> (\<forall>u\<in>set (drop (length before + 1 - n) (before @ [tk])). unhealthy u)"
    if "perform_health_check tk m = (r, m')" "fst r \<or> snd r" for tk r m'
    using restart_needs_streak [OF st(1) that pos] st(2) n by (simp add: streak_def)
  moreover have "quiet_until_last (fst (monitor_run tks m)) tks"
    if "ft_count (hm_health m) = 0" "length tks = n"
      "\<forall>tk\<in>set tks. unhealthy tk \<and> tk_now tk - tk_now (hd tks) \<le> ft_window (hm_health m)" for tks
    by (rule count_from_zero) (use that n pos st(2) win in auto)
  ultimately show ?thesis by blast
qed


definition sick_tick :: "gotime \<Rightarrow> tick" where
  "sick_tick t = \<lparr>tk_now = t, tk_code = None, tk_escalate = t, tk_cancelled = False,
     tk_restart = \<lparr>rs_restart_ok = False, rs_cancelled = False, rs_is_active = None\<rparr>, tk_failed = t\<rparr>"

theorem monitor_restarts_witness:
  "quiet_until_last
     (fst (monitor_run (map sick_tick [0, 10 * nanos, 20 * nanos]) (new_monitor default_monitor_config None)))
     (map sick_tick [0, 10 * nanos, 20 * nanos])"
proof -
  let ?m = "new_monitor default_monitor_config None" and ?n = "nat (max_consec (monitor_defaults default_monitor_config))"
  have "monitor_run [] ?m = ([], ?m)" by simp
  from conjunct2 [OF monitor_restarts [OF this refl], rule_format,
      of "map sick_tick [0, 10 * nanos, 20 * nanos]"]
  show ?thesis
    by (simp add: monitor_defaults_keeps_default new_monitor_def new_failure_tracker_def Let_def sick_tick_def
        unhealthy_def check_binary_health_def)
      (simp add: default_monitor_config_def nanos_def seconds_def i64_def)
qed

text \<open>
  A long outage with the default settings, a check every ten seconds and restarts that fail:
  after three attempts the sixth failure leaves the tracker's window of forty seconds, the
  count of consecutive failures falls to one, and the next two failures restart nothing.
\<close>

lemma outage_pauses_restarts:
  "map snd (fst (monitor_run (map (\<lambda>k. sick_tick (k * 10 * nanos)) [0, 1, 2, 3, 4, 5, 6, 7])
     (new_monitor default_monitor_config None))) =
   [False, False, True, True, True, False, False, True]"
  by code_simp

end
