(* ===== verification/Offline.thy ===== *)
theory Offline
  imports Monitor
begin

text \<open>
  Offline mode, \<^verbatim>\<open>internal/client/monitor/offline.go\<close>: the client goes offline after a time
  without contact to the master, tries to reconnect with an exponential backoff, and comes
  back with the first contact. The callbacks (configuration sync, report, mode change) are
  events of the result; the outcome of the connectivity check is an argument. The offline
  manager is driven by one goroutine, so an operation is one step.
\<close>

datatype operation_mode = Mode_online | Mode_offline | Mode_emergency

record offline_report =
  or_start :: gotime
  or_end :: gotime
  or_attempts :: int
  or_duration :: duration

datatype offline_event = Sync_config | Report offline_report | Mode_change operation_mode

record offline_state =
  os_offline :: bool
  os_since :: gotime
  os_last_attempt :: gotime
  os_attempts :: int
  os_backoff :: duration

record offline_manager =
  om_config :: monitor_config
  om_state :: offline_state
  om_last_contact :: gotime
  om_attempts :: int
  om_backoff :: duration

definition new_offline_manager :: "monitor_config \<Rightarrow> gotime \<Rightarrow> offline_manager" where
  "new_offline_manager config now =
     \<lparr>om_config = config,
      om_state = \<lparr>os_offline = False, os_since = zero_time, os_last_attempt = zero_time, os_attempts = 0,
                  os_backoff = 0\<rparr>,
      om_last_contact = now, om_attempts = 0, om_backoff = reconnect_interval config\<rparr>"

definition offline_report_of :: "gotime \<Rightarrow> gotime \<Rightarrow> int \<Rightarrow> offline_report" where
  "offline_report_of start stop attempts =
     \<lparr>or_start = start, or_end = stop, or_attempts = attempts, or_duration = time_sub stop start\<rparr>"

text \<open>The two clock readings: of the contact, and of the end that is reported.\<close>

definition record_master_contact :: "gotime \<Rightarrow> gotime \<Rightarrow> offline_manager \<Rightarrow> offline_event list \<times> offline_manager" where
  "record_master_contact now stop om =
     (let was_offline = os_offline (om_state om);
          since = os_since (om_state om);
          attempts = os_attempts (om_state om);
          om1 = om\<lparr>om_last_contact := now\<rparr>
      in if was_offline
         then ([Sync_config, Report (offline_report_of since stop attempts), Mode_change Mode_online],
               om1\<lparr>om_state := (om_state om1)\<lparr>os_offline := False, os_attempts := 0\<rparr>,
                   om_backoff := reconnect_interval (om_config om1), om_attempts := 0\<rparr>)
         else ([], om1))"

definition check_offline_status :: "offline_manager \<Rightarrow> bool" where
  "check_offline_status om = os_offline (om_state om)"

definition evaluate_connectivity :: "gotime \<Rightarrow> offline_manager \<Rightarrow> (bool \<times> offline_event list) \<times> offline_manager" where
  "evaluate_connectivity now om =
     (if os_offline (om_state om) then ((False, []), om)
      else if time_sub now (om_last_contact om) \<le> offline_threshold (om_config om) then ((False, []), om)
      else ((True, [Mode_change Mode_offline]),
            om\<lparr>om_state := (om_state om)\<lparr>os_offline := True, os_since := now, os_attempts := 0\<rparr>,
               om_backoff := reconnect_interval (om_config om)\<rparr>))"

definition next_backoff :: "duration \<Rightarrow> offline_manager \<Rightarrow> duration" where
  "next_backoff current om =
     (let n = i64 (current * 2)
      in if max_backoff (om_config om) < n then max_backoff (om_config om) else n)"

text \<open>The result says whether the client is online, and whether a connection was tried.\<close>

definition attempt_reconnect :: "gotime \<Rightarrow> bool \<Rightarrow> gotime \<Rightarrow> gotime \<Rightarrow> offline_manager \<Rightarrow>
    (bool \<times> bool \<times> offline_event list) \<times> offline_manager" where
  "attempt_reconnect now check_ok contact stop om =
     (if \<not> os_offline (om_state om) then ((True, False, []), om)
      else
        let last_attempt = os_last_attempt (om_state om); backoff = om_backoff om
        in if \<not> is_zero_time last_attempt \<and> time_sub now last_attempt < backoff then ((False, False, []), om)
           else
             let om1 = om\<lparr>om_state := (om_state om)\<lparr>os_last_attempt := now,
                               os_attempts := os_attempts (om_state om) + 1\<rparr>\<rparr>;
                 om2 = om1\<lparr>om_attempts := os_attempts (om_state om1)\<rparr>
             in if \<not> check_ok
                then let b = next_backoff (om_backoff om2) om2
                     in ((False, True, []), om2\<lparr>om_backoff := b, om_state := (om_state om2)\<lparr>os_backoff := b\<rparr>\<rparr>)
                else let (evs, om3) = record_master_contact contact stop om2 in ((True, True, evs), om3))"

fun backoff_loop :: "duration \<Rightarrow> nat \<Rightarrow> duration \<Rightarrow> duration" where
  "backoff_loop mx 0 b = b"
| "backoff_loop mx (Suc k) b = (let b1 = i64 (b * 2) in if mx < b1 then mx else backoff_loop mx k b1)"

definition calculate_backoff :: "duration \<Rightarrow> duration \<Rightarrow> int \<Rightarrow> duration" where
  "calculate_backoff base mx attempt =
     (if attempt \<le> 0 then base else backoff_loop mx (nat (attempt - 1)) base)"

definition time_since_last_contact :: "gotime \<Rightarrow> offline_manager \<Rightarrow> duration" where
  "time_since_last_contact now om = time_sub now (om_last_contact om)"

subsection \<open>The backoff\<close>

lemma i64_twice: "0 \<le> b \<Longrightarrow> b < 4611686018427387904 \<Longrightarrow> i64 (b * 2) = 2 * b"
  using i64_double_id [of b] by (simp add: mult.commute)

text \<open>The documented formula, which needs a base that is not above the maximum.\<close>

lemma backoff_loop_min:
  assumes "0 \<le> b" "b \<le> mx" "mx < 4611686018427387904"
  shows "backoff_loop mx k b = min (b * 2 ^ k) mx"
  using assms
proof (induction k arbitrary: b)
  case (Suc k)
  have "2 * b = b * 2 ^ 1" by simp
  also have "\<dots> \<le> b * 2 ^ Suc k" using Suc.prems(1) by (intro mult_left_mono) (simp_all add: self_le_power)
  finally have "2 * b \<le> b * 2 ^ Suc k" .
  with Suc show ?case by (auto simp: Let_def i64_twice min_def)
qed simp

lemma calculate_backoff_min:
  assumes "0 \<le> base" "base \<le> mx" "mx < 4611686018427387904" "0 < n"
  shows "calculate_backoff base mx n = min (base * 2 ^ nat (n - 1)) mx"
  using assms by (simp add: calculate_backoff_def backoff_loop_min)

text \<open>
  Above the maximum it does not hold: the first attempt then waits longer than the maximum.
\<close>

lemma first_backoff_above_maximum: "mx < base \<Longrightarrow> mx < calculate_backoff base mx 1"
  by (simp add: calculate_backoff_def)

lemma backoff_loop_capped: "0 < mx \<Longrightarrow> mx < 4611686018427387904 \<Longrightarrow> backoff_loop mx k mx = mx"
  by (cases k) (simp_all add: Let_def i64_twice)

text \<open>One more round at the end of the loop is one \<open>next_backoff\<close>.\<close>

lemma backoff_loop_Suc:
  assumes "0 < b" "b < 4611686018427387904" "0 < mx" "mx < 4611686018427387904"
  shows "backoff_loop mx (Suc k) b = (let c = i64 (backoff_loop mx k b * 2) in if mx < c then mx else c)"
  using assms
proof (induction k arbitrary: b)
  case (Suc k)
  show ?case
  proof (cases "mx < 2 * b")
    case True
    with Suc.prems show ?thesis by (simp add: Let_def i64_twice)
  next
    case False
    with Suc.prems have "0 < 2 * b" "2 * b < 4611686018427387904" by auto
    from Suc.IH [OF this] Suc.prems False show ?thesis
      by (simp add: Let_def i64_twice)
  qed
qed (simp add: Let_def i64_twice)

subsection \<open>Runs of the manager\<close>

datatype offline_op = Contact gotime gotime | Evaluate gotime | Reconnect gotime bool gotime gotime

fun offline_step :: "offline_op \<Rightarrow> offline_manager \<Rightarrow> offline_manager" where
  "offline_step (Contact now stop) om = snd (record_master_contact now stop om)"
| "offline_step (Evaluate now) om = snd (evaluate_connectivity now om)"
| "offline_step (Reconnect now ok contact stop) om = snd (attempt_reconnect now ok contact stop om)"

definition sane_backoff :: "monitor_config \<Rightarrow> bool" where
  "sane_backoff c \<longleftrightarrow> 0 < reconnect_interval c \<and> reconnect_interval c < 4611686018427387904 \<and>
     0 < max_backoff c \<and> max_backoff c < 4611686018427387904"

definition backoff_inv :: "monitor_config \<Rightarrow> offline_manager \<Rightarrow> bool" where
  "backoff_inv c om \<longleftrightarrow> om_config om = c \<and> 0 \<le> os_attempts (om_state om) \<and>
     (if os_offline (om_state om)
      then om_backoff om = calculate_backoff (reconnect_interval c) (max_backoff c) (os_attempts (om_state om) + 1)
      else os_attempts (om_state om) = 0 \<and> om_backoff om = reconnect_interval c)"

lemma next_backoff_calculated:
  assumes "sane_backoff c" "om_config om = c" "0 \<le> n"
  shows "next_backoff (calculate_backoff (reconnect_interval c) (max_backoff c) (n + 1)) om =
    calculate_backoff (reconnect_interval c) (max_backoff c) (n + 1 + 1)"
proof -
  have "nat (n + 1) = Suc (nat n)" using assms(3) by simp
  with assms show ?thesis
    using backoff_loop_Suc [of "reconnect_interval c" "max_backoff c" "nat n"]
    by (simp add: next_backoff_def calculate_backoff_def sane_backoff_def add.commute Let_def del: backoff_loop.simps)
qed

lemma backoff_inv_step:
  assumes "sane_backoff c" "backoff_inv c om"
  shows "backoff_inv c (offline_step op om)"
proof (cases op)
  case (Contact now stop)
  with assms(2) show ?thesis by (simp add: backoff_inv_def record_master_contact_def Let_def split: if_splits)
next
  case (Evaluate now)
  with assms(2) show ?thesis
    by (simp add: backoff_inv_def evaluate_connectivity_def calculate_backoff_def split: if_splits)
next
  case (Reconnect now ok contact stop)
  show ?thesis
  proof (cases "os_offline (om_state om)")
    case True
    with assms(2) have "om_backoff om = calculate_backoff (reconnect_interval c) (max_backoff c) (os_attempts (om_state om) + 1)"
      "om_config om = c" "0 \<le> os_attempts (om_state om)" by (simp_all add: backoff_inv_def)
    with True Reconnect assms next_backoff_calculated [OF assms(1), of _ "os_attempts (om_state om)"]
    show ?thesis
      by (auto simp: backoff_inv_def attempt_reconnect_def record_master_contact_def Let_def)
  next
    case False
    with Reconnect assms(2) show ?thesis by (simp add: attempt_reconnect_def)
  qed
qed

lemma backoff_inv_run:
  assumes "sane_backoff c"
  shows "backoff_inv c (fold offline_step ops (new_offline_manager c t0))"
proof -
  have "backoff_inv c (fold offline_step ops om)" if "backoff_inv c om" for om
    using that by (induction ops arbitrary: om) (auto simp: backoff_inv_step [OF assms])
  moreover have "backoff_inv c (new_offline_manager c t0)"
    by (simp add: backoff_inv_def new_offline_manager_def)
  ultimately show ?thesis by simp
qed

text \<open>
  The reconnection schedule. Whatever contacts, evaluations and attempts went before, the
  state machine waits exactly as the closed formula says: offline with k failed attempts it
  tries again only when min(interval * 2^k, maximum) have passed since the last attempt, the
  first attempt ever being free, and then it does try; a failure leaves it offline with one
  attempt more, a success brings it online with the schedule reset.
\<close>

theorem reconnect_schedule:
  assumes "sane_backoff c" "reconnect_interval c \<le> max_backoff c"
    "om = fold offline_step ops (new_offline_manager c t0)" "check_offline_status om"
    "attempt_reconnect now ok contact stop om = ((online, tried, evs), om')" "k = os_attempts (om_state om)"
    "latest = os_last_attempt (om_state om)"
  shows "(tried \<longleftrightarrow> is_zero_time latest \<or>
      min (reconnect_interval c * 2 ^ nat k) (max_backoff c) \<le> time_sub now latest) \<and>
    (online \<longleftrightarrow> tried \<and> ok) \<and> (online \<longleftrightarrow> \<not> check_offline_status om') \<and>
    os_attempts (om_state om') = (if online then 0 else if tried then k + 1 else k)"
proof -
  have inv: "backoff_inv c om" using backoff_inv_run [OF assms(1)] assms(3) by simp
  have off: "os_offline (om_state om)" using assms(4) by (simp add: check_offline_status_def)
  have wait: "min (reconnect_interval c * 2 ^ nat k) (max_backoff c) = om_backoff om"
    using inv off assms(1,2,6) calculate_backoff_min [of "reconnect_interval c" "max_backoff c" "k + 1"]
    by (simp add: backoff_inv_def sane_backoff_def)
  show ?thesis
  proof (cases "\<not> is_zero_time latest \<and> time_sub now latest < om_backoff om")
    case True
    with off assms(5,6,7) wait show ?thesis
      by (simp add: attempt_reconnect_def check_offline_status_def)
  next
    case False
    with off assms(5,6,7) wait show ?thesis
      by (cases ok) (auto simp: attempt_reconnect_def record_master_contact_def check_offline_status_def Let_def)
  qed
qed

theorem reconnect_schedule_witness:
  "fst (fst (attempt_reconnect (70 * nanos) True 0 0
     (fold offline_step [Evaluate (61 * nanos)] (new_offline_manager default_monitor_config 0))))"
proof -
  let ?om = "fold offline_step [Evaluate (61 * nanos)] (new_offline_manager default_monitor_config 0)"
  have sane: "sane_backoff default_monitor_config"
    "reconnect_interval default_monitor_config \<le> max_backoff default_monitor_config"
    by (simp_all add: sane_backoff_def default_monitor_config_def seconds_def minutes_def nanos_def i64_def)
  have om: "check_offline_status ?om" "is_zero_time (os_last_attempt (om_state ?om))"
    by (simp_all add: check_offline_status_def evaluate_connectivity_def new_offline_manager_def
        default_monitor_config_def seconds_def minutes_def nanos_def i64_def time_sub_def i64_max_def i64_min_def
        is_zero_time_def zero_time_def)
  obtain online tried evs om' where r: "attempt_reconnect (70 * nanos) True 0 0 ?om = ((online, tried, evs), om')"
    by (metis prod.exhaust)
  from reconnect_schedule [OF sane refl om(1) r refl refl] om(2) r show ?thesis by simp
qed

text \<open>Offline mode begins only after the threshold without a contact, and a contact ends it.\<close>

lemma goes_offline_iff:
  "fst (fst (evaluate_connectivity now om)) \<longleftrightarrow>
     \<not> check_offline_status om \<and> offline_threshold (om_config om) < time_since_last_contact now om"
  by (simp add: evaluate_connectivity_def check_offline_status_def time_since_last_contact_def)

lemma contact_brings_online: "\<not> check_offline_status (snd (record_master_contact now stop om))"
  by (simp add: record_master_contact_def check_offline_status_def Let_def)

text \<open>The backoff that \<^verbatim>\<open>GetState\<close> reports is not reset with the schedule.\<close>

lemma reported_backoff_stale:
  "os_offline (om_state om) \<Longrightarrow>
     os_backoff (om_state (snd (record_master_contact now stop om))) = os_backoff (om_state om) \<and>
     om_backoff (snd (record_master_contact now stop om)) = reconnect_interval (om_config om)"
  by (simp add: record_master_contact_def Let_def)

end
