(* ===== verification/Traffic.thy ===== *)
theory Traffic
  imports Monitor
begin

text \<open>
  Traffic analysis and its consequences, \<^verbatim>\<open>internal/client/monitor/traffic.go\<close>: the sliding
  window of samples with the emergency and DDoS tests, the emergency mode with its halved rate
  limit, the DDoS detector, and the enforcement of plan limits. Counters are \<^verbatim>\<open>uint64\<close>; the
  rounding of a \<^verbatim>\<open>float64\<close> is an argument. Callbacks are results.
\<close>

subsection \<open>The analyzer\<close>

record traffic_sample =
  ts_time :: gotime
  ts_rps :: u64

record traffic_analyzer =
  ta_window :: duration
  ta_samples :: "traffic_sample list"
  ta_plan :: u64
  ta_emergency :: rat
  ta_ddos :: rat

definition new_traffic_analyzer :: "duration \<Rightarrow> u64 \<Rightarrow> rat \<Rightarrow> rat \<Rightarrow> traffic_analyzer" where
  "new_traffic_analyzer window plan em dd =
     \<lparr>ta_window = if window \<le> 0 then ddos_window default_monitor_config else window, ta_samples = [],
      ta_plan = plan,
      ta_emergency = if em \<le> 0 then emergency_threshold default_monitor_config else em,
      ta_ddos = if dd \<le> 0 then ddos_threshold default_monitor_config else dd\<rparr>"

text \<open>The loop stops at the first sample of the window; everything before it goes.\<close>

definition sample_in_window :: "gotime \<Rightarrow> traffic_sample \<Rightarrow> bool" where
  "sample_in_window start s \<longleftrightarrow> time_after (ts_time s) start \<or> ts_time s = start"

definition prune_old_samples :: "gotime \<Rightarrow> traffic_analyzer \<Rightarrow> traffic_analyzer" where
  "prune_old_samples now a =
     (let start = time_add now (- ta_window a)
      in a\<lparr>ta_samples := dropWhile (\<lambda>s. \<not> sample_in_window start s) (ta_samples a)\<rparr>)"

definition record_sample :: "gotime \<Rightarrow> u64 \<Rightarrow> traffic_analyzer \<Rightarrow> traffic_analyzer" where
  "record_sample now rps a =
     prune_old_samples now (a\<lparr>ta_samples := ta_samples a @ [\<lparr>ts_time = now, ts_rps = rps\<rparr>]\<rparr>)"

fun window_total :: "gotime \<Rightarrow> traffic_sample list \<Rightarrow> u64 \<times> u64 \<Rightarrow> u64 \<times> u64" where
  "window_total start [] acc = acc"
| "window_total start (s # ss) (tot, cnt) =
     window_total start ss (if sample_in_window start s then (tot + ts_rps s, cnt + 1) else (tot, cnt))"

definition current_rate :: "gotime \<Rightarrow> traffic_analyzer \<Rightarrow> u64" where
  "current_rate now a =
     (if ta_samples a = [] then 0
      else let (tot, cnt) = window_total (time_add now (- ta_window a)) (ta_samples a) (0, 0)
           in if cnt = 0 then 0 else tot div cnt)"

text \<open>\<^verbatim>\<open>uint64(float64(plan) * m)\<close> with the rounding \<open>rnd\<close>.\<close>

definition scaled_threshold :: "(rat \<Rightarrow> rat) \<Rightarrow> u64 \<Rightarrow> rat \<Rightarrow> u64" where
  "scaled_threshold rnd plan m = word_of_int \<lfloor>rnd (rnd (of_int (uint plan)) * m)\<rfloor>"

definition is_emergency :: "(rat \<Rightarrow> rat) \<Rightarrow> gotime \<Rightarrow> traffic_analyzer \<Rightarrow> bool" where
  "is_emergency rnd now a =
     (if ta_plan a = 0 then False
      else scaled_threshold rnd (ta_plan a) (ta_emergency a) < current_rate now a)"

definition is_ddos :: "(rat \<Rightarrow> rat) \<Rightarrow> gotime \<Rightarrow> traffic_analyzer \<Rightarrow> bool" where
  "is_ddos rnd now a =
     (if ta_plan a = 0 then False
      else scaled_threshold rnd (ta_plan a) (ta_ddos a) < current_rate now a)"

definition set_plan_threshold :: "u64 \<Rightarrow> traffic_analyzer \<Rightarrow> traffic_analyzer" where
  "set_plan_threshold t a = a\<lparr>ta_plan := t\<rparr>"

definition sample_count :: "traffic_analyzer \<Rightarrow> nat" where
  "sample_count a = length (ta_samples a)"

subsection \<open>What the analyzer reports\<close>

definition observe :: "(gotime \<times> u64) list \<Rightarrow> traffic_analyzer \<Rightarrow> traffic_analyzer" where
  "observe obs a = fold (\<lambda>(t, r). record_sample t r) obs a"

definition window_log :: "gotime \<Rightarrow> duration \<Rightarrow> (gotime \<times> u64) list \<Rightarrow> u64 list" where
  "window_log now w obs = map snd (filter (\<lambda>(t, r). now - w \<le> t) obs)"

lemma record_sample_fields [simp]:
  "ta_window (record_sample t r a) = ta_window a" "ta_plan (record_sample t r a) = ta_plan a"
  "ta_emergency (record_sample t r a) = ta_emergency a" "ta_ddos (record_sample t r a) = ta_ddos a"
  by (simp_all add: record_sample_def prune_old_samples_def Let_def)

lemma observe_fields [simp]:
  "ta_window (observe obs a) = ta_window a" "ta_plan (observe obs a) = ta_plan a"
  "ta_emergency (observe obs a) = ta_emergency a" "ta_ddos (observe obs a) = ta_ddos a"
  by (induction obs arbitrary: a) (auto simp: observe_def)

text \<open>Nothing that a later look at the window could see is ever pruned.\<close>

lemma samples_kept:
  assumes "sorted (map fst obs @ [now])" "0 \<le> ta_window a" "ta_samples a = []"
  shows "map ts_rps (filter (sample_in_window (now - ta_window a)) (ta_samples (observe obs a))) = window_log now (ta_window a) obs"
  using assms(1)
proof (induction obs arbitrary: now rule: rev_induct)
  case Nil
  then show ?case using assms(3) by (simp add: observe_def window_log_def)
next
  case (snoc x obs)
  obtain t r where x: "x = (t, r)" by force
  let ?w = "ta_window a" and ?a = "observe obs a"
  let ?old = "ta_samples ?a @ [\<lparr>ts_time = t, ts_rps = r\<rparr>]"
  have le: "t \<le> now" using snoc.prems x by (simp add: sorted_append)
  have srt: "sorted (map fst obs @ [now])" using snoc.prems x by (auto simp: sorted_append)
  have drop: "filter (sample_in_window (now - ?w)) (dropWhile (\<lambda>s. \<not> sample_in_window (t - ?w) s) ss) = filter (sample_in_window (now - ?w)) ss"
    for ss
    by (induction ss) (use le in \<open>auto simp: sample_in_window_def time_after_def\<close>)
  have "observe (obs @ [x]) a = record_sample t r ?a" by (simp add: observe_def x)
  then have "filter (sample_in_window (now - ?w)) (ta_samples (observe (obs @ [x]) a)) = filter (sample_in_window (now - ?w)) ?old"
    by (simp add: record_sample_def prune_old_samples_def time_add_def Let_def drop del: filter_append)
  moreover have "sample_in_window (now - ?w) \<lparr>ts_time = t, ts_rps = r\<rparr> \<longleftrightarrow> now - ?w \<le> t"
    by (auto simp: sample_in_window_def time_after_def)
  ultimately show ?case using snoc.IH [OF srt] x by (simp add: window_log_def)
qed

lemma window_total_sum:
  "window_total start ss (tot, cnt) =
     (tot + sum_list (map ts_rps (filter (sample_in_window start) ss)), cnt + word_of_nat (length (filter (sample_in_window start) ss)))"
  by (induction ss arbitrary: tot cnt) (simp_all add: ac_simps)

lemma uint_sum_list:
  fixes xs :: "u64 list"
  assumes "sum_list (map uint xs) < 2 ^ 64"
  shows "uint (sum_list xs) = sum_list (map uint xs)"
  using assms
proof (induction xs)
  case (Cons x xs)
  have "0 \<le> sum_list (map uint xs)" by (rule sum_list_nonneg) auto
  moreover have "0 \<le> uint x" by simp
  ultimately have "sum_list (map uint xs) < 2 ^ 64" "uint x + sum_list (map uint xs) < 2 ^ 64"
    using Cons.prems by (simp_all only: list.map sum_list.Cons)
  with Cons.IH \<open>0 \<le> sum_list (map uint xs)\<close> show ?case
    by (simp add: uint_word_ariths)
qed simp

lemma current_rate_logged:
  assumes "sorted (map fst obs @ [now])" "0 \<le> ta_window a" "ta_samples a = []"
    "sum_list (map uint (window_log now (ta_window a) obs)) < 2 ^ 64" "length obs < 2 ^ 64"
  shows "uint (current_rate now (observe obs a)) =
    sum_list (map uint (window_log now (ta_window a) obs)) div int (length (window_log now (ta_window a) obs))"
proof -
  let ?w = "ta_window a" and ?a = "observe obs a" and ?l = "window_log now (ta_window a) obs"
  let ?f = "filter (sample_in_window (now - ?w)) (ta_samples ?a)"
  have l: "map ts_rps ?f = ?l" by (rule samples_kept [OF assms(1-3)])
  have len: "length ?f = length ?l" using l by (metis length_map)
  have "length ?l \<le> length obs" by (simp add: window_log_def)
  with assms(5) have small: "length ?l < 2 ^ 64" by simp
  have cnt: "uint (word_of_nat (length ?l) :: u64) = int (length ?l)"
    using small by (simp add: unsigned_of_nat take_bit_nat_eq_self)
  show ?thesis
  proof (cases "?l = []")
    case True
    then have "?f = []" using len by simp
    with True show ?thesis
      by (simp add: current_rate_def window_total_sum time_add_def)
  next
    case False
    then have "ta_samples ?a \<noteq> []" using len by auto
    moreover have "(word_of_nat (length ?l) :: u64) \<noteq> 0"
    proof
      assume "(word_of_nat (length ?l) :: u64) = 0"
      with cnt have "int (length ?l) = 0" by simp
      with False show False by simp
    qed
    ultimately show ?thesis
      using uint_sum_list [OF assms(4)] cnt l len
      by (simp add: current_rate_def window_total_sum time_add_def uint_div)
  qed
qed

lemma scaled_exact:
  assumes "\<forall>i. \<bar>i\<bar> \<le> 2 ^ 53 \<longrightarrow> rnd (of_int i) = of_int i" "0 \<le> m" "uint plan * m \<le> 2 ^ 53" "1 \<le> m"
  shows "uint (scaled_threshold rnd plan (of_int m)) = uint plan * m"
proof -
  have "0 \<le> uint plan" by simp
  then have "uint plan \<le> uint plan * m" using assms(4) by (simp add: mult_le_cancel_left1)
  then have "\<bar>uint plan\<bar> \<le> 2 ^ 53" using assms(3) by simp
  then have "rnd (of_int (uint plan)) = of_int (uint plan)" using assms(1) by blast
  moreover have "rnd (of_int (uint plan * m)) = of_int (uint plan * m)"
    using assms(1,2,3) by (intro assms(1) [rule_format]) simp
  ultimately have "rnd (rnd (of_int (uint plan)) * of_int m) = of_int (uint plan * m)"
    by (simp only: of_int_mult)
  then have "\<lfloor>rnd (rnd (of_int (uint plan)) * of_int m)\<rfloor> = uint plan * m"
    by (simp only: floor_of_int)
  moreover define k where "k = uint plan * m"
  ultimately have fl: "\<lfloor>rnd (rnd (of_int (uint plan)) * of_int m)\<rfloor> = k" by simp
  have "0 \<le> k" "k \<le> 2 ^ 53" using assms(2,3) by (simp_all add: k_def)
  then have "uint (word_of_int k :: u64) = k" by (simp add: unsigned_of_int take_bit_int_eq_self)
  then show ?thesis unfolding scaled_threshold_def fl k_def .
qed

text \<open>
  The DDoS and the emergency test are what they are documented to be: over any sequence of
  samples (the clock not running backwards, the sum in 64 bits), they answer whether the
  average of the samples of the last window exceeds ten, respectively five times the plan's
  threshold, whatever the pruning has removed; never on a plan without a threshold. The
  rounding of floating point is only assumed to be exact on integers up to 2^53.
\<close>

theorem attack_tests_exact:
  assumes "sorted (map fst obs @ [now])" "sum_list (map uint l) < 2 ^ 64" "length obs < 2 ^ 64"
    "a = new_traffic_analyzer w plan 0 0" "l = window_log now (ta_window a) obs"
    "\<forall>i. \<bar>i\<bar> \<le> 2 ^ 53 \<longrightarrow> rnd (of_int i) = of_int i" "uint plan * 10 \<le> 2 ^ 53"
  shows "(is_ddos rnd now (observe obs a) \<longleftrightarrow>
      plan \<noteq> 0 \<and> 10 * uint plan < sum_list (map uint l) div int (length l)) \<and>
    (is_emergency rnd now (observe obs a) \<longleftrightarrow>
      plan \<noteq> 0 \<and> 5 * uint plan < sum_list (map uint l) div int (length l))"
proof -
  have a: "ta_plan a = plan" "ta_emergency a = of_int 5" "ta_ddos a = of_int 10" "0 \<le> ta_window a" "ta_samples a = []"
    using assms(4) by (simp_all add: new_traffic_analyzer_def default_monitor_config_def seconds_def i64_def nanos_def)
  have rate: "uint (current_rate now (observe obs a)) = sum_list (map uint l) div int (length l)"
    using current_rate_logged [OF assms(1) a(4,5)] assms(2,3,5) by simp
  have "0 \<le> uint plan" by simp
  then have "uint (scaled_threshold rnd plan (of_int 10)) = uint plan * 10"
    and "uint (scaled_threshold rnd plan (of_int 5)) = uint plan * 5"
    using assms(7) by (intro scaled_exact [OF assms(6)]; simp)+
  with rate a show ?thesis
    by (simp add: is_ddos_def is_emergency_def word_less_def mult.commute)
qed

theorem attack_tests_exact_witness:
  "is_ddos id 10 (observe [(0, 2000)] (new_traffic_analyzer 100 150 0 0)) \<and>
   is_emergency id 10 (observe [(0, 2000)] (new_traffic_analyzer 100 150 0 0))"
proof -
  have l: "[2000] = window_log 10 (ta_window (new_traffic_analyzer 100 150 0 0)) [(0, 2000)]"
    by (simp add: window_log_def new_traffic_analyzer_def)
  have "sorted (map fst [(0::gotime, 2000::u64)] @ [10])" "sum_list (map uint [2000::u64]) < 2 ^ 64"
    "length [(0::gotime, 2000::u64)] < 2 ^ 64" "uint (150::u64) * 10 \<le> 2 ^ 53"
    "\<forall>i. \<bar>i\<bar> \<le> 2 ^ 53 \<longrightarrow> id (of_int i :: rat) = of_int i"
    by simp_all
  from attack_tests_exact [OF this(1,2,3) refl l this(5,4)]
  have "is_ddos id 10 (observe [(0, 2000)] (new_traffic_analyzer 100 150 0 0)) =
      ((150::u64) \<noteq> 0 \<and> 10 * uint (150::u64) < sum_list (map uint [2000::u64]) div int (length [2000::u64])) \<and>
    is_emergency id 10 (observe [(0, 2000)] (new_traffic_analyzer 100 150 0 0)) =
      ((150::u64) \<noteq> 0 \<and> 5 * uint (150::u64) < sum_list (map uint [2000::u64]) div int (length [2000::u64]))" .
  moreover have "(150::u64) \<noteq> 0" "10 * uint (150::u64) < sum_list (map uint [2000::u64]) div int (length [2000::u64])"
    "5 * uint (150::u64) < sum_list (map uint [2000::u64]) div int (length [2000::u64])"
    by simp_all
  ultimately show ?thesis by blast
qed

subsection \<open>Emergency mode\<close>

record emergency_recovery =
  er_active :: bool
  er_since :: gotime
  er_duration :: duration
  er_original :: u64
  er_reduced :: u64

definition new_emergency_recovery :: "duration \<Rightarrow> u64 \<Rightarrow> emergency_recovery" where
  "new_emergency_recovery d limit =
     \<lparr>er_active = False, er_since = zero_time,
      er_duration = if d \<le> 0 then emergency_duration default_monitor_config else d,
      er_original = limit, er_reduced = limit div 2\<rparr>"

text \<open>The callbacks: the limit that is put into force, if any.\<close>

definition er_activate :: "gotime \<Rightarrow> emergency_recovery \<Rightarrow> u64 option \<times> emergency_recovery" where
  "er_activate now e =
     (if er_active e then (None, e)
      else (Some (er_reduced e), e\<lparr>er_active := True, er_since := now\<rparr>))"

definition er_check_expiry :: "gotime \<Rightarrow> emergency_recovery \<Rightarrow> (bool \<times> u64 option) \<times> emergency_recovery" where
  "er_check_expiry now e =
     (if \<not> er_active e then ((False, None), e)
      else if time_sub now (er_since e) < er_duration e then ((False, None), e)
      else ((True, Some (er_original e)), e\<lparr>er_active := False\<rparr>))"

definition current_rate_limit :: "emergency_recovery \<Rightarrow> u64" where
  "current_rate_limit e = (if er_active e then er_reduced e else er_original e)"

definition remaining_duration :: "gotime \<Rightarrow> emergency_recovery \<Rightarrow> duration" where
  "remaining_duration now e =
     (if \<not> er_active e then 0
      else let r = i64 (er_duration e - time_sub now (er_since e)) in if r < 0 then 0 else r)"

datatype emergency_op = Crash gotime | Expiry gotime

fun emergency_step :: "emergency_op \<Rightarrow> emergency_recovery \<Rightarrow> emergency_recovery" where
  "emergency_step (Crash now) e = snd (er_activate now e)"
| "emergency_step (Expiry now) e = snd (er_check_expiry now e)"

fun op_time :: "emergency_op \<Rightarrow> gotime" where
  "op_time (Crash now) = now"
| "op_time (Expiry now) = now"

lemma emergency_holds:
  assumes "er_active e" "\<forall>op\<in>set ops. time_sub (op_time op) (er_since e) < er_duration e"
  shows "fold emergency_step ops e = e"
  using assms(2)
proof (induction ops)
  case (Cons op ops)
  then have "emergency_step op e = e"
    using assms(1) by (cases op) (simp_all add: er_activate_def er_check_expiry_def)
  with Cons show ?case by simp
qed simp

text \<open>
  An emergency halves the limit from its activation on, whatever crashes and checks follow
  within the duration; the first check after it restores the limit.
\<close>

lemma emergency_halves_for_duration:
  assumes "\<not> er_active e" "e1 = snd (er_activate t e)"
    "\<forall>op\<in>set ops. time_sub (op_time op) t < er_duration e" "er_duration e \<le> time_sub now t"
  shows "current_rate_limit (fold emergency_step ops e1) = er_reduced e \<and>
    current_rate_limit (snd (er_check_expiry now (fold emergency_step ops e1))) = er_original e"
proof -
  have e1: "e1 = e\<lparr>er_active := True, er_since := t\<rparr>" using assms(1,2) by (simp add: er_activate_def)
  have "fold emergency_step ops e1 = e1" by (rule emergency_holds) (use assms(3) in \<open>simp_all add: e1\<close>)
  with assms(4) e1 show ?thesis by (simp add: current_rate_limit_def er_check_expiry_def)
qed

text \<open>A limit of one request is halved to none.\<close>

lemma emergency_limit_of_one: "er_reduced (new_emergency_recovery d 1) = 0"
  by (simp add: new_emergency_recovery_def)

subsection \<open>The DDoS detector\<close>

record ddos_detector =
  dd_active :: bool
  dd_since :: gotime
  dd_alert_sent :: bool

text \<open>Result: whether strict mode was asked for, whether the alert went out.\<close>

definition dd_detect :: "bool \<Rightarrow> bool \<Rightarrow> gotime \<Rightarrow> ddos_detector \<Rightarrow> (bool \<times> bool) \<times> ddos_detector" where
  "dd_detect has_strict has_alert now d =
     (if dd_active d then ((False, False), d)
      else let d1 = d\<lparr>dd_active := True, dd_since := now, dd_alert_sent := False\<rparr>
           in ((has_strict, has_alert), if has_alert then d1\<lparr>dd_alert_sent := True\<rparr> else d1))"

definition dd_clear :: "ddos_detector \<Rightarrow> ddos_detector" where
  "dd_clear d = (if \<not> dd_active d then d else d\<lparr>dd_active := False\<rparr>)"

text \<open>One alert for each attack: the detector is quiet until the attack is cleared.\<close>

lemma one_alert_per_attack:
  "fst (dd_detect s al now' (snd (dd_detect s al now d))) = (False, False)"
  "\<not> dd_active d \<Longrightarrow> fst (dd_detect s al now d) = (s, al)"
  by (simp_all add: dd_detect_def Let_def)

subsection \<open>Plan limits\<close>

record monitor_request =
  rc_domains :: int
  rc_xdp :: bool
  rc_ota :: bool
  rc_rpm :: int

record plan_violation =
  pv_field :: string
  pv_requested :: string
  pv_limit :: string
  pv_message :: string

definition enforce_limits :: "monitor_plan \<Rightarrow> monitor_request \<Rightarrow> (string \<times> plan_violation list) option" where
  "enforce_limits plan c =
     (let v1 = (if 0 < pl_domains plan \<and> pl_domains plan < rc_domains c
                then [\<lparr>pv_field = ''domains'', pv_requested = fmt_int (rc_domains c), pv_limit = fmt_int (pl_domains plan),
                       pv_message = ''requested '' @ fmt_int (rc_domains c) @ '' domains exceeds plan limit of '' @ fmt_int (pl_domains plan)\<rparr>]
                else []);
          v2 = (if rc_xdp c \<and> \<not> pl_xdp plan
                then [\<lparr>pv_field = ''xdp_enabled'', pv_requested = ''true'', pv_limit = ''false'',
                       pv_message = ''XDP filtering is not available on plan '' @ pl_name plan\<rparr>] else []);
          v3 = (if rc_ota c \<and> \<not> pl_ota plan
                then [\<lparr>pv_field = ''ota_enabled'', pv_requested = ''true'', pv_limit = ''false'',
                       pv_message = ''OTA updates are not available on plan '' @ pl_name plan\<rparr>] else []);
          v4 = (if 0 < pl_rpm plan \<and> pl_rpm plan < rc_rpm c
                then [\<lparr>pv_field = ''custom_rpm'', pv_requested = fmt_int (rc_rpm c), pv_limit = fmt_int (pl_rpm plan),
                       pv_message = ''requested '' @ fmt_int (rc_rpm c) @ '' RPM exceeds plan limit of '' @ fmt_int (pl_rpm plan) @ '' RPM''\<rparr>]
                else []);
          vs = v1 @ v2 @ v3 @ v4
      in if vs = [] then None else Some (pl_name plan, vs))"

definition within_plan :: "monitor_plan \<Rightarrow> monitor_request \<Rightarrow> bool" where
  "within_plan plan c \<longleftrightarrow> (pl_domains plan \<le> 0 \<or> rc_domains c \<le> pl_domains plan) \<and> (rc_xdp c \<longrightarrow> pl_xdp plan) \<and>
     (rc_ota c \<longrightarrow> pl_ota plan) \<and> (pl_rpm plan \<le> 0 \<or> rc_rpm c \<le> pl_rpm plan)"

lemma enforce_limits_iff: "enforce_limits plan c = None \<longleftrightarrow> within_plan plan c"
  by (auto simp: enforce_limits_def within_plan_def Let_def)

end
