(* ===== verification/Snapshot.thy ===== *)
theory Snapshot
  imports Monitor "HOL-Library.Multiset"
begin

text \<open>
  The periodic state snapshot, \<^verbatim>\<open>internal/client/monitor/snapshot.go\<close>: encode, cut to the size
  limit by dropping the older half of the rate buckets, then of the sessions, then of the
  bans, and replace the file by way of a temporary one.

  A Go map is its entries in some iteration order; \<^verbatim>\<open>sort.Slice\<close> is a stable sort of that
  order, which covers every outcome, as the iteration order is arbitrary. JSON and gzip are an
  argument \<open>pack\<close> (\<open>None\<close>: an error), the failures of the disk are an argument.
\<close>

record rate_bucket =
  rb_ip :: string
  rb_count :: int
  rb_end :: gotime

record session_data =
  sd_token :: string
  sd_created :: gotime
  sd_expires :: gotime

record snapshot_ban =
  sb_ip :: string
  sb_expires :: gotime
  sb_reason :: string

record health_snapshot =
  hs_time :: gotime
  hs_rates :: "(string \<times> rate_bucket) list"
  hs_sessions :: "(string \<times> session_data) list"
  hs_bans :: "snapshot_ban list"
  hs_xdp :: xdp_stats

definition truncate_rates :: "(string \<times> rate_bucket) list \<Rightarrow> (string \<times> rate_bucket) list" where
  "truncate_rates st =
     (if length st \<le> 1 then []
      else let entries = sort_key (rb_end \<circ> snd) st in drop (length entries div 2) entries)"

definition truncate_sessions :: "(string \<times> session_data) list \<Rightarrow> (string \<times> session_data) list" where
  "truncate_sessions st =
     (if length st \<le> 1 then []
      else let entries = sort_key (sd_created \<circ> snd) st in drop (length entries div 2) entries)"

definition truncate_bans :: "snapshot_ban list \<Rightarrow> snapshot_ban list" where
  "truncate_bans bans =
     (if length bans \<le> 1 then []
      else let sorted_bans = sort_key sb_expires bans in drop (length sorted_bans div 2) sorted_bans)"

definition has_entries :: "health_snapshot \<Rightarrow> bool" where
  "has_entries s \<longleftrightarrow> hs_rates s \<noteq> [] \<or> hs_sessions s \<noteq> [] \<or> hs_bans s \<noteq> []"

definition truncate_once :: "health_snapshot \<Rightarrow> health_snapshot" where
  "truncate_once s =
     (if 0 < length (hs_rates s) then s\<lparr>hs_rates := truncate_rates (hs_rates s)\<rparr>
      else if 0 < length (hs_sessions s) then s\<lparr>hs_sessions := truncate_sessions (hs_sessions s)\<rparr>
      else if 0 < length (hs_bans s) then s\<lparr>hs_bans := truncate_bans (hs_bans s)\<rparr>
      else s)"

definition entries_of :: "health_snapshot \<Rightarrow> nat" where
  "entries_of s = length (hs_rates s) + length (hs_sessions s) + length (hs_bans s)"

lemma half_smaller: "Suc 0 < n \<Longrightarrow> n - n div 2 < (n :: nat)"
  by (simp add: div_greater_zero_iff)

lemma truncate_once_smaller: "has_entries s \<Longrightarrow> entries_of (truncate_once s) < entries_of s"
  by (auto simp: has_entries_def entries_of_def truncate_once_def truncate_rates_def truncate_sessions_def
      truncate_bans_def half_smaller not_le Let_def)

function truncate_snapshot :: "(health_snapshot \<Rightarrow> u8 list option) \<Rightarrow> int \<Rightarrow> health_snapshot \<Rightarrow> u8 list option" where
  "truncate_snapshot pack mx s =
     (if has_entries s
      then let s' = truncate_once s
           in case pack s' of None \<Rightarrow> None
              | Some compressed \<Rightarrow> if int (length compressed) \<le> mx then Some compressed
                                  else truncate_snapshot pack mx s'
      else case pack s of None \<Rightarrow> None
           | Some compressed \<Rightarrow> if mx < int (length compressed) then None else Some compressed)"
  by auto
termination
  by (relation "measure (\<lambda>(pack, mx, s). entries_of s)") (auto simp: truncate_once_smaller)

declare truncate_snapshot.simps [simp del]

subsection \<open>Writing the file\<close>

record snapshot_disk =
  sk_file :: "u8 list option"
  sk_tmp :: "u8 list option"

text \<open>How far the write gets; a failed write may leave a part in the temporary file.\<close>

datatype disk_outcome = Disk_ok | Mkdir_fails | Write_fails "u8 list" | Rename_fails

definition write_snapshot_file :: "disk_outcome \<Rightarrow> u8 list \<Rightarrow> snapshot_disk \<Rightarrow> bool \<times> snapshot_disk" where
  "write_snapshot_file outcome dat d =
     (case outcome of
        Mkdir_fails \<Rightarrow> (False, d)
      | Write_fails part \<Rightarrow> (False, d\<lparr>sk_tmp := Some part\<rparr>)
      | Rename_fails \<Rightarrow> (False, d\<lparr>sk_tmp := None\<rparr>)
      | Disk_ok \<Rightarrow> (True, d\<lparr>sk_file := Some dat, sk_tmp := None\<rparr>))"

record snapshot_writer =
  sw_config :: monitor_config
  sw_last :: gotime
  sw_disk :: snapshot_disk

definition new_snapshot_writer :: "monitor_config \<Rightarrow> snapshot_disk \<Rightarrow> snapshot_writer" where
  "new_snapshot_writer config d = \<lparr>sw_config = monitor_defaults config, sw_last = zero_time, sw_disk = d\<rparr>"

definition write_snapshot :: "(health_snapshot \<Rightarrow> u8 list option) \<Rightarrow> health_snapshot \<Rightarrow> gotime \<Rightarrow> gotime \<Rightarrow>
    disk_outcome \<Rightarrow> snapshot_writer \<Rightarrow> snapshot_writer" where
  "write_snapshot pack provided now done_at outcome sw =
     (let snapshot = provided\<lparr>hs_time := now\<rparr>
      in case pack snapshot of None \<Rightarrow> sw
         | Some compressed \<Rightarrow>
             let fitted = (if snapshot_max (sw_config sw) < int (length compressed)
                           then truncate_snapshot pack (snapshot_max (sw_config sw)) snapshot
                           else Some compressed)
             in case fitted of None \<Rightarrow> sw
                | Some dat \<Rightarrow>
                    let (ok, d) = write_snapshot_file outcome dat (sw_disk sw);
                        sw1 = sw\<lparr>sw_disk := d\<rparr>
                    in if ok then sw1\<lparr>sw_last := done_at\<rparr> else sw1)"

subsection \<open>What is kept\<close>

text \<open>Every entry dropped is at most as new as every entry kept.\<close>

lemma newest_half_kept:
  fixes key :: "'a \<Rightarrow> int"
  assumes "x \<in> set (take k (sort_key key xs))" "y \<in> set (drop k (sort_key key xs))"
  shows "key x \<le> key y"
proof -
  have "sorted (map key (take k (sort_key key xs)) @ map key (drop k (sort_key key xs)))"
    by (simp flip: map_append)
  with assms show ?thesis by (auto simp: sorted_append)
qed

lemma truncate_rates_newest:
  "mset st = mset (truncate_rates st) + mset (take (length st - length (truncate_rates st)) (sort_key (rb_end \<circ> snd) st))"
proof (cases "length st \<le> 1")
  case False
  let ?e = "sort_key (rb_end \<circ> snd) st"
  have "mset st = mset (drop (length st div 2) ?e) + mset (take (length st div 2) ?e)"
    by (metis append_take_drop_id mset_append mset_sort add.commute)
  moreover have "length st - (length st - length st div 2) = length st div 2" by simp
  ultimately show ?thesis using False by (simp add: truncate_rates_def Let_def)
qed (auto simp: truncate_rates_def)

lemma truncated_prefers:
  "hs_bans (truncate_once s) \<noteq> hs_bans s \<Longrightarrow> hs_rates s = [] \<and> hs_sessions s = []"
  "hs_sessions (truncate_once s) \<noteq> hs_sessions s \<Longrightarrow> hs_rates s = []"
  by (auto simp: truncate_once_def split: if_splits)

subsection \<open>What is written\<close>

text \<open>The data a number of truncations, the fewest that do, leave within the limit.\<close>

definition fitting :: "(health_snapshot \<Rightarrow> u8 list option) \<Rightarrow> int \<Rightarrow> health_snapshot \<Rightarrow> nat \<Rightarrow> u8 list \<Rightarrow> bool" where
  "fitting pack mx s k c \<longleftrightarrow> pack ((truncate_once ^^ k) s) = Some c \<and> int (length c) \<le> mx \<and>
     (\<forall>j<k. \<exists>b. pack ((truncate_once ^^ j) s) = Some b \<and> mx < int (length b))"

lemma truncate_once_done: "\<not> has_entries s \<Longrightarrow> truncate_once s = s"
  by (simp add: has_entries_def truncate_once_def)

lemma funpow_Suc_swap: "(f ^^ Suc k) x = (f ^^ k) (f x)"
  by (simp add: funpow_swap1)

lemma truncate_snapshot_fits:
  assumes "pack s = Some b" "mx < int (length b)"
  shows "case truncate_snapshot pack mx s of
      Some c \<Rightarrow> \<exists>k. fitting pack mx s k c
    | None \<Rightarrow> \<not> (\<exists>k c. fitting pack mx s k c)"
  using assms
proof (induction pack mx s arbitrary: b rule: truncate_snapshot.induct)
  case (1 pack mx s)
  let ?s = "truncate_once s"
  have first: "fitting pack mx s (Suc k) c \<longleftrightarrow> fitting pack mx ?s k c" for k c
    using 1(2,3) by (auto simp: fitting_def funpow_Suc_swap All_less_Suc2 simp del: funpow.simps)
  have zero: "\<not> fitting pack mx s 0 c" for c using 1(2,3) by (auto simp: fitting_def)
  show ?case
  proof (cases "has_entries s")
    case False
    then have "(truncate_once ^^ k) s = s" for k by (induction k) (simp_all add: truncate_once_done)
    then have "\<not> fitting pack mx s k c" for k c using 1(2,3) by (auto simp: fitting_def)
    with False 1(2,3) show ?thesis by (simp add: truncate_snapshot.simps [of pack mx s])
  next
    case has: True
    show ?thesis
    proof (cases "pack ?s")
      case None
      have "\<not> fitting pack mx ?s k c" for k c using None by (cases k) (auto simp: fitting_def)
      then have "\<not> fitting pack mx s k c" for k c using zero first by (cases k) auto
      with has None show ?thesis by (simp add: truncate_snapshot.simps [of pack mx s])
    next
      case (Some c)
      show ?thesis
      proof (cases "int (length c) \<le> mx")
        case True
        then have "fitting pack mx ?s 0 c" using Some by (simp add: fitting_def)
        then have "fitting pack mx s (Suc 0) c" using first by blast
        with has Some True show ?thesis by (auto simp: truncate_snapshot.simps [of pack mx s])
      next
        case False
        then have big: "mx < int (length c)" by simp
        have eq: "truncate_snapshot pack mx s = truncate_snapshot pack mx ?s"
          using has Some False by (simp add: truncate_snapshot.simps [of pack mx s])
        have IH: "case truncate_snapshot pack mx ?s of Some c \<Rightarrow> \<exists>k. fitting pack mx ?s k c
            | None \<Rightarrow> \<not> (\<exists>k c. fitting pack mx ?s k c)"
          using 1(1) [OF has refl Some False Some big] .
        show ?thesis
        proof (cases "truncate_snapshot pack mx ?s")
          case None
          with IH have "\<not> fitting pack mx s k c" for k c using zero first by (cases k) auto
          with eq None show ?thesis by simp
        next
          case (Some d)
          with IH first eq show ?thesis by auto
        qed
      qed
    qed
  qed
qed

text \<open>
  After every snapshot cycle the file on disk is the previous one, or a complete new
  snapshot within the size limit, made with the fewest truncations that fit; the time of the
  last snapshot moves exactly with the file. A snapshot is given up only if the disk or the
  encoder fails or even the empty state is too large.
\<close>

theorem snapshot_whole_and_bounded:
  assumes "sw' = write_snapshot pack provided now t outcome sw" "s = provided\<lparr>hs_time := now\<rparr>"
    "mx = snapshot_max (sw_config sw)"
  shows "(\<exists>k c. fitting pack mx s k c \<and> outcome = Disk_ok \<and>
      sk_file (sw_disk sw') = Some c \<and> sw_last sw' = t) \<or>
    sk_file (sw_disk sw') = sk_file (sw_disk sw) \<and> sw_last sw' = sw_last sw \<and>
      (outcome \<noteq> Disk_ok \<or> \<not> (\<exists>k c. fitting pack mx s k c))"
proof (cases "pack s")
  case None
  then have "\<not> fitting pack mx s k c" for k c by (cases k) (auto simp: fitting_def)
  with None assms show ?thesis by (simp add: write_snapshot_def)
next
  case (Some b)
  define fitted where "fitted = (if mx < int (length b) then truncate_snapshot pack mx s else Some b)"
  have f: "case fitted of Some c \<Rightarrow> \<exists>k. fitting pack mx s k c | None \<Rightarrow> \<not> (\<exists>k c. fitting pack mx s k c)"
  proof (cases "mx < int (length b)")
    case True
    with truncate_snapshot_fits [of pack s b mx, OF Some True] show ?thesis by (simp add: fitted_def)
  next
    case False
    then have "fitting pack mx s 0 b" using Some by (simp add: fitting_def)
    with False show ?thesis by (auto simp: fitted_def)
  qed
  have sw': "sw' = (case fitted of None \<Rightarrow> sw
      | Some dat \<Rightarrow> let (ok, d) = write_snapshot_file outcome dat (sw_disk sw); sw1 = sw\<lparr>sw_disk := d\<rparr>
                   in if ok then sw1\<lparr>sw_last := t\<rparr> else sw1)"
    using Some assms by (simp add: write_snapshot_def fitted_def Let_def cong: option.case_cong)
  show ?thesis
  proof (cases fitted)
    case None
    with f sw' show ?thesis by simp
  next
    case (Some c)
    with f obtain k where "fitting pack mx s k c" by auto
    with sw' Some show ?thesis
      by (cases outcome) (auto simp: write_snapshot_file_def Let_def)
  qed
qed

definition demo_pack :: "health_snapshot \<Rightarrow> u8 list option" where
  "demo_pack s = Some (replicate (100 * entries_of s + 20) 0)"

definition demo_snapshot :: health_snapshot where
  "demo_snapshot = \<lparr>hs_time = 0,
     hs_rates = map (\<lambda>t. (fmt_nat t, \<lparr>rb_ip = fmt_nat t, rb_count = 1, rb_end = t\<rparr>)) [3, 1, 2],
     hs_sessions = [], hs_bans = [\<lparr>sb_ip = ''192.0.2.1'', sb_expires = 9, sb_reason = []\<rparr>],
     hs_xdp = \<lparr>xs_total = 0, xs_passed = 0, xs_dropped = 0\<rparr>\<rparr>"

lemma truncation_demo:
  "map fst (hs_rates (truncate_once demo_snapshot)) = [''2'', ''3''] \<and>
   map_option length (truncate_snapshot demo_pack 250 demo_snapshot) = Some 220"
  by code_simp


definition demo_writer :: snapshot_writer where
  "demo_writer = new_snapshot_writer (default_monitor_config\<lparr>snapshot_max := 250\<rparr>) \<lparr>sk_file = None, sk_tmp = None\<rparr>"

lemma demo_written:
  "sk_file (sw_disk (write_snapshot demo_pack demo_snapshot 0 7 Disk_ok demo_writer)) \<noteq> None"
  "snapshot_max (sw_config demo_writer) = 250" "sk_file (sw_disk demo_writer) = None"
  "demo_snapshot\<lparr>hs_time := 0\<rparr> = demo_snapshot"
     apply code_simp
  by (simp_all add: demo_writer_def new_snapshot_writer_def monitor_defaults_def Let_def demo_snapshot_def)

theorem snapshot_whole_and_bounded_witness:
  "\<exists>k c. fitting demo_pack 250 demo_snapshot k c"
  using snapshot_whole_and_bounded
    [of "write_snapshot demo_pack demo_snapshot 0 7 Disk_ok demo_writer" demo_pack demo_snapshot 0 7 Disk_ok demo_writer,
      OF refl refl refl] demo_written
  by auto

end
