(* ===== verification/LicenseFile.thy ===== *)
theory LicenseFile
  imports Crypto
begin

text \<open>
  Signed licence files and revocation lists, \<^verbatim>\<open>internal/shared/licenseverify/license.go\<close>, and
  the machine fingerprint they are bound to, \<^verbatim>\<open>internal/shared/machinefingerprint/fingerprint.go\<close>.

  Arguments that stand for code outside the repository: Ed25519 (a record \<open>ed25519\<close> of its
  operations), the JSON encoding of a payload (\<open>None\<close>: an error), the PEM and X.509 parsers and
  \<^verbatim>\<open>time.Parse\<close> for RFC 3339. A day of \<^verbatim>\<open>AddDate\<close> is 24 hours, as it is in UTC and in a fixed zone; where
  the offset of the text is that of the machine's own zone, a change to or from summer time within
  the days of grace moves their end by an hour. Every error return is a value of \<open>license_error\<close>.
\<close>

record ed25519 =
  ed_sign :: "u8 list \<Rightarrow> u8 list \<Rightarrow> u8 list"
  ed_verify :: "u8 list \<Rightarrow> u8 list \<Rightarrow> u8 list \<Rightarrow> bool"

definition public_key_size :: nat where "public_key_size = 32"
definition private_key_size :: nat where "private_key_size = 64"

definition signature_prefix :: string where "signature_prefix = ''ed25519:''"

record machine_binding =
  mb_machine :: string
  mb_mac :: string
  mb_fingerprint :: string

record license_payload =
  lp_license :: string
  lp_customer :: string
  lp_server :: string
  lp_plan :: string
  lp_modes :: "string list"
  lp_features :: "string list"
  lp_binding :: machine_binding
  lp_issued :: string
  lp_expires :: string
  lp_grace :: int
  lp_channel :: string
  lp_bundle :: string

record license_file =
  lf_payload :: license_payload
  lf_signature :: string

record revoked_license =
  rv_license :: string
  rv_customer :: string
  rv_server :: string
  rv_reason :: string
  rv_at :: string

record revocation_payload =
  rp_generated :: string
  rp_revoked :: "revoked_license list"

record revocation_file =
  rf_payload :: revocation_payload
  rf_signature :: string

datatype license_error =
    License_id_required | Server_id_required | Signature_required | Key_size | Signature_format
  | Signature_base64 | Encoding_failed | Signature_wrong
  | Unreadable_file | Unparsable_file
  | Generated_required | Generated_invalid | Revoked_id_required | Revoked_duplicate
  | Revoked_at_required | Revoked_at_invalid | License_revoked
  | Mode_not_allowed | Feature_missing string | Binding_required | Binding_mismatch
  | Expiry_invalid | Grace_negative | License_expired | License_expired_beyond_grace
  | Not_a_key | Not_ed25519

record verify_options =
  vo_mode :: string
  vo_features :: "string list"
  vo_fingerprint :: string
  vo_revocations :: string
  vo_no_grace :: bool
  vo_now :: gotime

record license_result =
  lr_license :: string
  lr_server :: string
  lr_plan :: string
  lr_valid :: bool
  lr_expired :: bool
  lr_features :: "string list"

text \<open>The code outside the repository.\<close>

record 'p sign_env =
  se_ed :: ed25519
  se_encode :: "'p \<Rightarrow> u8 list option"
  se_time :: "string \<Rightarrow> gotime option"

subsection \<open>Signatures and keys\<close>

definition encode_signature :: "u8 list \<Rightarrow> string" where
  "encode_signature s = signature_prefix @ b64_std_encode s"

text \<open>The check that the licence, the revocation list and the update manifest share.\<close>

definition check_signature :: "ed25519 \<Rightarrow> u8 list option \<Rightarrow> string \<Rightarrow> u8 list \<Rightarrow> license_error option" where
  "check_signature ed canonical signature key =
     (let t = trim_space signature
      in if \<not> prefix signature_prefix t then Some Signature_format
         else case b64_std_decode (trim_prefix signature_prefix t) of
                None \<Rightarrow> Some Signature_base64
              | Some sig \<Rightarrow>
                  (case canonical of None \<Rightarrow> Some Encoding_failed
                   | Some msg \<Rightarrow> if \<not> ed_verify ed key msg sig then Some Signature_wrong else None))"

text \<open>\<open>pem\<close> and \<open>x509\<close> stand for \<^verbatim>\<open>pem.Decode\<close> and the PKIX parser (\<open>Inl\<close>: another kind of key).\<close>

definition parse_public_key :: "(string \<Rightarrow> u8 list option) \<Rightarrow> (u8 list \<Rightarrow> (unit + u8 list) option) \<Rightarrow> string \<Rightarrow>
    license_error + u8 list" where
  "parse_public_key pem x509 raw =
     (let t = trim_space raw
      in if prefix signature_prefix t
         then case b64_std_decode (trim_prefix signature_prefix t) of
                None \<Rightarrow> Inl Signature_base64
              | Some key \<Rightarrow> if length key \<noteq> public_key_size then Inl Key_size else Inr key
         else case pem raw of
                None \<Rightarrow> Inl Not_a_key
              | Some blk \<Rightarrow> (case x509 blk of None \<Rightarrow> Inl Not_a_key | Some (Inl _) \<Rightarrow> Inl Not_ed25519
                             | Some (Inr key) \<Rightarrow> Inr key))"

definition encode_public_key :: "u8 list \<Rightarrow> string" where
  "encode_public_key key = signature_prefix @ b64_std_encode key"

subsection \<open>Revocation lists\<close>

fun validate_revoked :: "(string \<Rightarrow> gotime option) \<Rightarrow> string set \<Rightarrow> revoked_license list \<Rightarrow> license_error option" where
  "validate_revoked tm seen [] = None"
| "validate_revoked tm seen (r # rs) =
     (if trim_space (rv_license r) = [] then Some Revoked_id_required
      else if rv_license r \<in> seen then Some Revoked_duplicate
      else if trim_space (rv_at r) = [] then Some Revoked_at_required
      else if tm (rv_at r) = None then Some Revoked_at_invalid
      else validate_revoked tm (insert (rv_license r) seen) rs)"

definition validate_revocation_payload :: "(string \<Rightarrow> gotime option) \<Rightarrow> revocation_payload \<Rightarrow> license_error option" where
  "validate_revocation_payload tm p =
     (if trim_space (rp_generated p) = [] then Some Generated_required
      else if tm (rp_generated p) = None then Some Generated_invalid
      else validate_revoked tm {} (rp_revoked p))"

definition sign_revocation_list :: "revocation_payload sign_env \<Rightarrow> revocation_payload \<Rightarrow> u8 list \<Rightarrow>
    license_error + revocation_file" where
  "sign_revocation_list e p key =
     (if length key \<noteq> private_key_size then Inl Key_size
      else case validate_revocation_payload (se_time e) p of Some err \<Rightarrow> Inl err
      | None \<Rightarrow>
          (case se_encode e p of None \<Rightarrow> Inl Encoding_failed
           | Some msg \<Rightarrow> Inr \<lparr>rf_payload = p, rf_signature = encode_signature (ed_sign (se_ed e) key msg)\<rparr>))"

definition verify_revocation_list :: "revocation_payload sign_env \<Rightarrow> revocation_file \<Rightarrow> u8 list \<Rightarrow>
    license_error + revocation_payload" where
  "verify_revocation_list e f key =
     (if length key \<noteq> public_key_size then Inl Key_size
      else case validate_revocation_payload (se_time e) (rf_payload f) of Some err \<Rightarrow> Inl err
      | None \<Rightarrow>
          (case check_signature (se_ed e) (se_encode e (rf_payload f)) (rf_signature f) key of
             Some err \<Rightarrow> Inl err | None \<Rightarrow> Inr (rf_payload f)))"

text \<open>The files on disk: unreadable, not JSON, or a decoded list.\<close>

datatype 'f stored_file = Missing_file | Bad_file | Good_file 'f

definition verify_revocation_list_file :: "revocation_payload sign_env \<Rightarrow> revocation_file stored_file \<Rightarrow> u8 list \<Rightarrow>
    license_error + revocation_payload" where
  "verify_revocation_list_file e f key =
     (case f of Missing_file \<Rightarrow> Inl Unreadable_file | Bad_file \<Rightarrow> Inl Unparsable_file
      | Good_file rf \<Rightarrow> verify_revocation_list e rf key)"

fun revoked_in :: "(string \<Rightarrow> gotime option) \<Rightarrow> string \<Rightarrow> gotime \<Rightarrow> revoked_license list \<Rightarrow> license_error option" where
  "revoked_in tm lic now [] = None"
| "revoked_in tm lic now (r # rs) =
     (if rv_license r \<noteq> lic then revoked_in tm lic now rs
      else case tm (rv_at r) of None \<Rightarrow> Some Revoked_at_invalid
           | Some t \<Rightarrow> if \<not> time_after t now then Some License_revoked else revoked_in tm lic now rs)"

definition verify_not_revoked_file :: "revocation_payload sign_env \<Rightarrow> string \<Rightarrow> revocation_file stored_file \<Rightarrow>
    u8 list \<Rightarrow> gotime \<Rightarrow> license_error option" where
  "verify_not_revoked_file e lic f key now =
     (case verify_revocation_list_file e f key of Inl err \<Rightarrow> Some err
      | Inr p \<Rightarrow> revoked_in (se_time e) lic now (rp_revoked p))"

subsection \<open>Licences\<close>

definition normalize_hash :: "string \<Rightarrow> string" where
  "normalize_hash v = (let t = trim_space v in if prefix ''sha256:'' t then t else ''sha256:'' @ t)"

definition verify_machine_binding :: "machine_binding \<Rightarrow> string \<Rightarrow> license_error option" where
  "verify_machine_binding b actual =
     (if actual = [] then None
      else if trim_space (mb_fingerprint b) = [] then Some Binding_required
      else if normalize_hash (mb_fingerprint b) \<noteq> normalize_hash actual then Some Binding_mismatch
      else None)"

definition days :: "int \<Rightarrow> duration" where "days n = n * (86400 * nanos)"

text \<open>The zero \<^verbatim>\<open>Now\<close> is replaced by the clock reading \<open>clock\<close>.\<close>

definition verify_license :: "license_payload sign_env \<Rightarrow> revocation_payload sign_env \<Rightarrow>
    (string \<Rightarrow> revocation_file stored_file) \<Rightarrow> gotime \<Rightarrow> license_file \<Rightarrow> u8 list \<Rightarrow> verify_options \<Rightarrow>
    license_error + license_result" where
  "verify_license e er disk clock f key opts =
     (let now = (if is_zero_time (vo_now opts) then clock else vo_now opts);
          p = lf_payload f
      in if trim_space (lp_license p) = [] then Inl License_id_required
         else if trim_space (lp_server p) = [] then Inl Server_id_required
         else if trim_space (lf_signature f) = [] then Inl Signature_required
         else if length key \<noteq> public_key_size then Inl Key_size
         else case check_signature (se_ed e) (se_encode e p) (lf_signature f) key of Some err \<Rightarrow> Inl err
         | None \<Rightarrow>
         (case (if vo_revocations opts \<noteq> []
                then verify_not_revoked_file er (lp_license p) (disk (vo_revocations opts)) key now else None) of
            Some err \<Rightarrow> Inl err
          | None \<Rightarrow>
            if vo_mode opts \<noteq> [] \<and> vo_mode opts \<notin> set (lp_modes p) then Inl Mode_not_allowed
            else case find (\<lambda>x. x \<notin> set (lp_features p)) (vo_features opts) of Some x \<Rightarrow> Inl (Feature_missing x)
            | None \<Rightarrow>
            (case verify_machine_binding (lp_binding p) (vo_fingerprint opts) of Some err \<Rightarrow> Inl err
             | None \<Rightarrow>
               (case se_time e (lp_expires p) of None \<Rightarrow> Inl Expiry_invalid
                | Some expiry \<Rightarrow>
                    if lp_grace p < 0 then Inl Grace_negative
                    else
                      let deadline = (if \<not> vo_no_grace opts then time_add expiry (days (lp_grace p)) else expiry)
                      in if time_after now deadline
                         then (if vo_no_grace opts then Inl License_expired else Inl License_expired_beyond_grace)
                         else Inr \<lparr>lr_license = lp_license p, lr_server = lp_server p, lr_plan = lp_plan p,
                                   lr_valid = True, lr_expired = time_after now expiry, lr_features = lp_features p\<rparr>))))"

definition verify_license_file :: "license_payload sign_env \<Rightarrow> revocation_payload sign_env \<Rightarrow>
    (string \<Rightarrow> revocation_file stored_file) \<Rightarrow> gotime \<Rightarrow> license_file stored_file \<Rightarrow>
    (license_error + u8 list) option \<Rightarrow> verify_options \<Rightarrow> license_error + license_result" where
  "verify_license_file e er disk clock f key opts =
     (case f of Missing_file \<Rightarrow> Inl Unreadable_file | Bad_file \<Rightarrow> Inl Unparsable_file
      | Good_file lf \<Rightarrow>
          (case key of None \<Rightarrow> Inl Unreadable_file | Some (Inl err) \<Rightarrow> Inl err
           | Some (Inr k) \<Rightarrow> verify_license e er disk clock lf k opts))"

subsection \<open>Fingerprints\<close>

definition fingerprint_hex :: "string list \<Rightarrow> string" where
  "fingerprint_hex parts = hex_encode (sha256 (bytes_of (concat (map (\<lambda>p. p @ [CHR 0x00]) parts))))"

definition fingerprint_hash :: "string list \<Rightarrow> string" where
  "fingerprint_hash parts = ''sha256:'' @ fingerprint_hex parts"

definition hash_value :: "string \<Rightarrow> string" where
  "hash_value v = ''sha256:'' @ hex_encode (sha256 (bytes_of v))"

record machine_snapshot =
  sn_machine :: string
  sn_host :: string
  sn_kernel :: string
  sn_mac :: string
  sn_macs :: "string list"

definition machine_fingerprint :: "string \<Rightarrow> machine_snapshot \<Rightarrow> string" where
  "machine_fingerprint salt s =
     fingerprint_hash [sn_machine s, sn_mac s, hash_value (join_with '','' (sn_macs s)), sn_host s, sn_kernel s, salt]"

definition machine_binding_of :: "string \<Rightarrow> machine_snapshot \<Rightarrow> machine_binding" where
  "machine_binding_of salt s =
     \<lparr>mb_machine = hash_value (sn_machine s), mb_mac = hash_value (sn_mac s),
      mb_fingerprint = machine_fingerprint salt s\<rparr>"


subsection \<open>What an accepted licence has\<close>

text \<open>A text that carries a valid signature of a message.\<close>

definition carries_signature :: "ed25519 \<Rightarrow> u8 list \<Rightarrow> u8 list \<Rightarrow> string \<Rightarrow> bool" where
  "carries_signature ed key msg text1 \<longleftrightarrow> (\<exists>body sig. trim_space text1 = signature_prefix @ body \<and>
     b64_std_decode body = Some sig \<and> ed_verify ed key msg sig)"

lemma check_signature_iff:
  "check_signature ed canonical text1 key = None \<longleftrightarrow>
     (\<exists>msg. canonical = Some msg \<and> carries_signature ed key msg text1)"
  by (auto simp: check_signature_def carries_signature_def trim_prefix_def prefix_def Let_def
      split: option.splits if_splits)

lemma revoked_in_iff:
  "revoked_in tm lic now rs = None \<longleftrightarrow>
     (\<forall>r\<in>set rs. rv_license r = lic \<longrightarrow> (\<exists>t. tm (rv_at r) = Some t \<and> now < t))"
  by (induction rs) (auto simp: time_after_def split: option.splits)

lemma validate_revoked_times:
  "validate_revoked tm seen rs = None \<Longrightarrow> r \<in> set rs \<Longrightarrow> \<exists>t. tm (rv_at r) = Some t"
  by (induction rs arbitrary: seen) (auto split: if_splits)

lemma verify_list_ok:
  "verify_revocation_list e f key = Inr p \<longleftrightarrow> p = rf_payload f \<and> length key = public_key_size \<and>
     validate_revocation_payload (se_time e) p = None \<and>
     (\<exists>msg. se_encode e p = Some msg \<and> carries_signature (se_ed e) key msg (rf_signature f))"
  by (auto simp: verify_revocation_list_def check_signature_iff [symmetric] split: option.splits)

text \<open>
  C18. A licence is accepted only if it is genuine, in force and for this machine: its signature
  text decodes to a valid signature of the very payload; the revocation list, when one is
  configured, is itself genuine and revokes the licence at no time up to now; the required
  mode and features are in it; the fingerprint matches when one is given; and now is not after
  its expiry, extended by the grace days unless they are switched off. The result says expired
  exactly in the grace period.
\<close>

theorem accepted_license_genuine:
  assumes "verify_license e er disk clock f key opts = Inr res" "p = lf_payload f"
    "now = (if is_zero_time (vo_now opts) then clock else vo_now opts)"
  shows "(\<exists>msg. se_encode e p = Some msg \<and> carries_signature (se_ed e) key msg (lf_signature f)) \<and>
    (vo_revocations opts = [] \<or> (\<exists>rf msg. disk (vo_revocations opts) = Good_file rf \<and>
       se_encode er (rf_payload rf) = Some msg \<and> carries_signature (se_ed er) key msg (rf_signature rf) \<and>
       (\<forall>r\<in>set (rp_revoked (rf_payload rf)). rv_license r \<noteq> lp_license p \<or>
          (\<exists>t. se_time er (rv_at r) = Some t \<and> now < t)))) \<and>
    (vo_mode opts = [] \<or> vo_mode opts \<in> set (lp_modes p)) \<and> set (vo_features opts) \<subseteq> set (lp_features p) \<and>
    (vo_fingerprint opts = [] \<or> normalize_hash (mb_fingerprint (lp_binding p)) = normalize_hash (vo_fingerprint opts)) \<and>
    (\<exists>expiry. se_time e (lp_expires p) = Some expiry \<and>
       now \<le> (if vo_no_grace opts then expiry else expiry + days (lp_grace p)) \<and>
       (lr_expired res \<longleftrightarrow> expiry < now)) \<and>
    lr_license res = lp_license p \<and> lr_plan res = lp_plan p \<and> lr_valid res"
proof -
  have sig: "check_signature (se_ed e) (se_encode e p) (lf_signature f) key = None"
    and rev: "vo_revocations opts = [] \<or> verify_not_revoked_file er (lp_license p) (disk (vo_revocations opts)) key now = None"
    and mode: "vo_mode opts = [] \<or> vo_mode opts \<in> set (lp_modes p)"
    and feat: "find (\<lambda>x. x \<notin> set (lp_features p)) (vo_features opts) = None"
    and mach: "verify_machine_binding (lp_binding p) (vo_fingerprint opts) = None"
    and rest: "\<exists>expiry. se_time e (lp_expires p) = Some expiry \<and>
       \<not> time_after now (if \<not> vo_no_grace opts then time_add expiry (days (lp_grace p)) else expiry) \<and>
       res = \<lparr>lr_license = lp_license p, lr_server = lp_server p, lr_plan = lp_plan p,
              lr_valid = True, lr_expired = time_after now expiry, lr_features = lp_features p\<rparr>"
    using assms unfolding verify_license_def Let_def
    by (simp_all split: if_splits option.splits)
  have "\<exists>rf msg. disk (vo_revocations opts) = Good_file rf \<and>
       se_encode er (rf_payload rf) = Some msg \<and> carries_signature (se_ed er) key msg (rf_signature rf) \<and>
       (\<forall>r\<in>set (rp_revoked (rf_payload rf)). rv_license r \<noteq> lp_license p \<or>
          (\<exists>t. se_time er (rv_at r) = Some t \<and> now < t))" if "vo_revocations opts \<noteq> []"
    using rev that
    by (auto simp: verify_not_revoked_file_def verify_revocation_list_file_def verify_list_ok revoked_in_iff
        split: sum.splits stored_file.splits)
  moreover have "set (vo_features opts) \<subseteq> set (lp_features p)" using feat by (auto simp: find_None_iff)
  moreover have "vo_fingerprint opts = [] \<or> normalize_hash (mb_fingerprint (lp_binding p)) = normalize_hash (vo_fingerprint opts)"
    using mach by (simp add: verify_machine_binding_def split: if_splits)
  moreover have "\<exists>msg. se_encode e p = Some msg \<and> carries_signature (se_ed e) key msg (lf_signature f)"
    using sig by (simp add: check_signature_iff)
  ultimately show ?thesis using mode rest by (auto simp: time_after_def time_add_def)
qed


lemma trim_encoded: "trim_space (encode_signature s) = signature_prefix @ b64_std_encode s"
proof -
  have "\<forall>c\<in>set (signature_prefix @ b64_std_encode s). visible c"
    using b64_std_visible [of _ s] by (auto simp: signature_prefix_def visible_def)
  then show ?thesis unfolding encode_signature_def by (rule trim_visible)
qed

lemma encoded_carries:
  "ed_verify ed key msg s \<Longrightarrow> carries_signature ed key msg (encode_signature s)"
  by (auto simp: carries_signature_def trim_encoded b64_std_roundtrip)

definition demo_ed :: ed25519 where
  "demo_ed = \<lparr>ed_sign = (\<lambda>key msg. msg), ed_verify = (\<lambda>key msg sig. sig = msg)\<rparr>"

definition demo_license_env :: "license_payload sign_env" where
  "demo_license_env = \<lparr>se_ed = demo_ed, se_encode = (\<lambda>p. Some (bytes_of (lp_license p @ lp_expires p))),
     se_time = (\<lambda>t. if t = ''soon'' then Some 100 else None)\<rparr>"

definition demo_list_env :: "revocation_payload sign_env" where
  "demo_list_env = \<lparr>se_ed = demo_ed, se_encode = (\<lambda>p. Some (bytes_of (rp_generated p))),
     se_time = (\<lambda>t. if t = ''soon'' then Some 100 else None)\<rparr>"

definition demo_license :: license_file where
  "demo_license = \<lparr>lf_payload = \<lparr>lp_license = ''L1'', lp_customer = ''C'', lp_server = ''S'', lp_plan = ''pro'',
     lp_modes = [''waf''], lp_features = [''xdp''], lp_binding = \<lparr>mb_machine = [], mb_mac = [], mb_fingerprint = ''f''\<rparr>,
     lp_issued = [], lp_expires = ''soon'', lp_grace = 1, lp_channel = [], lp_bundle = []\<rparr>,
     lf_signature = encode_signature (bytes_of ''L1soon'')\<rparr>"

definition demo_verify :: verify_options where
  "demo_verify = \<lparr>vo_mode = ''waf'', vo_features = [''xdp''], vo_fingerprint = [], vo_revocations = [],
     vo_no_grace = False, vo_now = 150\<rparr>"

lemma demo_license_accepted:
  "verify_license demo_license_env demo_list_env (\<lambda>_. Missing_file) 0 demo_license (replicate 32 0) demo_verify =
   Inr \<lparr>lr_license = ''L1'', lr_server = ''S'', lr_plan = ''pro'', lr_valid = True, lr_expired = True, lr_features = [''xdp'']\<rparr>"
proof -
  have "check_signature demo_ed (Some (bytes_of ''L1soon'')) (encode_signature (bytes_of ''L1soon'')) (replicate 32 0) = None"
    unfolding check_signature_iff
    by (intro exI [of _ "bytes_of ''L1soon''"] conjI refl encoded_carries) (simp add: demo_ed_def)
  moreover have "trim_space (encode_signature (bytes_of ''L1soon'')) \<noteq> []"
    by (simp add: trim_encoded signature_prefix_def)
  moreover have "trim_space ''L1'' = ''L1''" "trim_space ''S'' = ''S''"
    by (intro trim_visible; simp add: visible_def)+
  ultimately show ?thesis
    by (simp add: verify_license_def demo_license_def demo_verify_def demo_license_env_def public_key_size_def
        verify_machine_binding_def time_after_def time_add_def days_def nanos_def is_zero_time_def zero_time_def Let_def)
qed

theorem accepted_license_genuine_witness:
  "carries_signature demo_ed (replicate 32 0) (bytes_of ''L1soon'') (lf_signature demo_license)"
  using conjunct1 [OF accepted_license_genuine [OF demo_license_accepted refl refl]]
  by (auto simp: demo_license_env_def demo_license_def)

text \<open>
  A signed revocation list verifies: what SignRevocationList makes of a payload,
  VerifyRevocationList accepts under the matching public key and gives back unchanged,
  whatever the signature bytes are.
\<close>

theorem revocation_list_roundtrip:
  assumes "sign_revocation_list e p secret = Inr f" "length key = public_key_size"
    "\<And>msg. ed_verify (se_ed e) key msg (ed_sign (se_ed e) secret msg)"
  shows "verify_revocation_list e f key = Inr p"
proof -
  from assms(1) obtain msg where "validate_revocation_payload (se_time e) p = None" "se_encode e p = Some msg"
      "f = \<lparr>rf_payload = p, rf_signature = encode_signature (ed_sign (se_ed e) secret msg)\<rparr>"
    by (auto simp: sign_revocation_list_def split: if_splits option.splits)
  with assms(2,3) show ?thesis by (simp add: verify_list_ok encoded_carries)
qed

theorem revocation_list_roundtrip_witness:
  "verify_revocation_list demo_list_env
     \<lparr>rf_payload = \<lparr>rp_generated = ''soon'', rp_revoked = []\<rparr>, rf_signature = encode_signature (bytes_of ''soon'')\<rparr>
     (replicate 32 1) = Inr \<lparr>rp_generated = ''soon'', rp_revoked = []\<rparr>"
proof (rule revocation_list_roundtrip)
  have "trim_space ''soon'' = ''soon''" by (rule trim_visible) (simp add: visible_def)
  then show "sign_revocation_list demo_list_env \<lparr>rp_generated = ''soon'', rp_revoked = []\<rparr> (replicate 64 2) =
    Inr \<lparr>rf_payload = \<lparr>rp_generated = ''soon'', rp_revoked = []\<rparr>, rf_signature = encode_signature (bytes_of ''soon'')\<rparr>"
    by (simp add: sign_revocation_list_def private_key_size_def demo_list_env_def demo_ed_def
        validate_revocation_payload_def)
qed (simp_all add: demo_list_env_def demo_ed_def public_key_size_def)

text \<open>
  Nothing bounds the age of a list: a list from before the revocation, genuinely signed, is as
  good as the current one, so an operator who keeps an old list keeps a revoked licence.
\<close>

lemma old_list_accepted:
  assumes "verify_revocation_list e f key = Inr p" "\<forall>r\<in>set (rp_revoked p). rv_license r \<noteq> lic"
  shows "verify_not_revoked_file e lic (Good_file f) key now = None"
  using assms by (simp add: verify_not_revoked_file_def verify_revocation_list_file_def revoked_in_iff)

text \<open>The parts of a fingerprint are told apart as long as none contains a zero byte.\<close>

lemma takeWhile_zero: "CHR 0x00 \<notin> set p \<Longrightarrow> takeWhile (\<lambda>c. c \<noteq> CHR 0x00) (p @ CHR 0x00 # r) = p"
  by (induction p) auto

lemma fingerprint_parts_apart:
  assumes "\<forall>p\<in>set ps. CHR 0x00 \<notin> set p" "\<forall>p\<in>set qs. CHR 0x00 \<notin> set p"
    "concat (map (\<lambda>p. p @ [CHR 0x00]) ps) = concat (map (\<lambda>p. p @ [CHR 0x00]) qs)"
  shows "ps = qs"
  using assms
proof (induction ps arbitrary: qs)
  case Nil
  then show ?case by (cases qs) auto
next
  case (Cons p ps)
  then obtain q qs' where qs: "qs = q # qs'" by (cases qs) auto
  have eq: "p @ CHR 0x00 # concat (map (\<lambda>p. p @ [CHR 0x00]) ps) = q @ CHR 0x00 # concat (map (\<lambda>p. p @ [CHR 0x00]) qs')"
    using Cons.prems(3) qs by simp
  have plain: "CHR 0x00 \<notin> set p" "CHR 0x00 \<notin> set q" using Cons.prems(1,2) qs by simp_all
  from arg_cong [OF eq, of "takeWhile (\<lambda>c. c \<noteq> CHR 0x00)"] have "p = q"
    unfolding takeWhile_zero [OF plain(1)] takeWhile_zero [OF plain(2)] .
  from eq have "concat (map (\<lambda>p. p @ [CHR 0x00]) ps) = concat (map (\<lambda>p. p @ [CHR 0x00]) qs')"
    unfolding \<open>p = q\<close> by (simp only: same_append_eq list.inject)
  then have "ps = qs'" by (rule Cons.IH [rotated 2]) (use Cons.prems(1,2) qs in simp_all)
  with qs \<open>p = q\<close> show ?case by simp
qed

end
