(* ===== verification/UpdateManifest.thy ===== *)
theory UpdateManifest
  imports LicenseFile
begin

text \<open>
  Signed update manifests, \<^verbatim>\<open>internal/shared/update/manifest.go\<close>, and the order of dotted
  versions, \<^verbatim>\<open>version.go\<close>. Ed25519, the JSON encodings and \<^verbatim>\<open>time.Parse\<close> are the arguments of
  theory LicenseFile; an error is named by the message the code gives.
\<close>

subsection \<open>Versions\<close>

definition version_part :: "string \<Rightarrow> int" where
  "version_part raw =
     (let part = trim_space raw
      in if part = [] then 0
         else case parse_int64 (takeWhile (\<lambda>c. digit_val c \<noteq> None) part) of None \<Rightarrow> 0 | Some n \<Rightarrow> n)"

definition version_parts :: "string \<Rightarrow> int list" where
  "version_parts version = map version_part (split_on CHR ''.'' (trim_prefix ''v'' (trim_space version)))"

definition part_at :: "int list \<Rightarrow> nat \<Rightarrow> int" where
  "part_at xs i = (if i < length xs then xs ! i else 0)"

fun version_loop :: "int list \<Rightarrow> int list \<Rightarrow> nat list \<Rightarrow> int" where
  "version_loop aa bb [] = 0"
| "version_loop aa bb (i # is) =
     (if part_at aa i < part_at bb i then -1
      else if part_at bb i < part_at aa i then 1
      else version_loop aa bb is)"

definition compare_dotted_version :: "string \<Rightarrow> string \<Rightarrow> int" where
  "compare_dotted_version a b =
     (let aa = version_parts a; bb = version_parts b
      in version_loop aa bb [0..<(if length aa < length bb then length bb else length aa)])"

text \<open>The reference: the lexicographic order of the sequences padded with zeros.\<close>

definition version_less :: "(nat \<Rightarrow> int) \<Rightarrow> (nat \<Rightarrow> int) \<Rightarrow> bool" where
  "version_less f g \<longleftrightarrow> (\<exists>i. (\<forall>j<i. f j = g j) \<and> f i < g i)"

lemma version_less_linear: "version_less f g \<or> f = g \<or> version_less g f"
proof (cases "f = g")
  case False
  then have "\<exists>i. f i \<noteq> g i" by auto
  then obtain i where i: "f i \<noteq> g i" "\<And>j. j < i \<Longrightarrow> f j = g j"
    using exists_least_iff [of "\<lambda>i. f i \<noteq> g i"] by auto
  have "\<forall>j<i. f j = g j" "\<forall>j<i. g j = f j" using i(2) by metis+
  moreover from i(1) have "f i < g i \<or> g i < f i" by linarith
  ultimately show ?thesis unfolding version_less_def by blast
qed simp

lemma version_less_trans: "version_less f g \<Longrightarrow> version_less g h \<Longrightarrow> version_less f h"
proof -
  assume "version_less f g" "version_less g h"
  then obtain i k where i: "\<forall>j<i. f j = g j" "f i < g i" and k: "\<forall>j<k. g j = h j" "g k < h k"
    by (auto simp: version_less_def)
  show ?thesis
    unfolding version_less_def
    by (rule exI [of _ "min i k"]) (use i k in \<open>cases i k rule: linorder_cases; auto simp: min_def\<close>)
qed

lemma version_less_irrefl: "\<not> version_less f f"
  by (simp add: version_less_def)

lemma version_loop_upt:
  "version_loop aa bb [k..<n] =
     (if \<exists>i\<in>{k..<n}. (\<forall>j\<in>{k..<i}. part_at aa j = part_at bb j) \<and> part_at aa i < part_at bb i then -1
      else if \<exists>i\<in>{k..<n}. (\<forall>j\<in>{k..<i}. part_at aa j = part_at bb j) \<and> part_at bb i < part_at aa i then 1
      else 0)"
proof (induction "n - k" arbitrary: k)
  case (Suc d)
  then have up: "[k..<n] = k # [Suc k..<n]" by (simp add: upt_rec)
  have split_at: "(\<exists>i\<in>{k..<n}. (\<forall>j\<in>{k..<i}. part_at aa j = part_at bb j) \<and> P i) \<longleftrightarrow>
      P k \<or> part_at aa k = part_at bb k \<and> (\<exists>i\<in>{Suc k..<n}. (\<forall>j\<in>{Suc k..<i}. part_at aa j = part_at bb j) \<and> P i)" for P
  proof -
    have "k < n" using Suc.hyps(2) by simp
    then have "{k..<n} = insert k {Suc k..<n}" by auto
    moreover have "{k..<i} = insert k {Suc k..<i}" if "i \<in> {Suc k..<n}" for i using that by auto
    ultimately show ?thesis by auto
  qed
  have "d = n - Suc k" using Suc.hyps(2) by simp
  from Suc.hyps(1) [OF this] show ?case
    unfolding up version_loop.simps split_at by auto
qed simp

lemma compare_iff:
  "compare_dotted_version a b = -1 \<longleftrightarrow> version_less (part_at (version_parts a)) (part_at (version_parts b))"
  "compare_dotted_version a b = 1 \<longleftrightarrow> version_less (part_at (version_parts b)) (part_at (version_parts a))"
  "compare_dotted_version a b = 0 \<longleftrightarrow> part_at (version_parts a) = part_at (version_parts b)"
proof -
  let ?f = "part_at (version_parts a)" and ?g = "part_at (version_parts b)"
  define n where "n = (if length (version_parts a) < length (version_parts b) then length (version_parts b)
      else length (version_parts a))"
  have beyond: "?f i = ?g i" if "n \<le> i" for i using that by (auto simp: part_at_def n_def split: if_splits)
  have in_range: "(\<exists>i\<in>{0..<n}. (\<forall>j\<in>{0..<i}. ?f j = ?g j) \<and> P i) \<longleftrightarrow> (\<exists>i. (\<forall>j<i. ?f j = ?g j) \<and> P i)"
    if "\<And>i. P i \<Longrightarrow> ?f i \<noteq> ?g i" for P
    using that beyond by (metis atLeast0LessThan lessThan_iff not_le)
  have lt: "(\<exists>i\<in>{0..<n}. (\<forall>j\<in>{0..<i}. ?f j = ?g j) \<and> ?f i < ?g i) \<longleftrightarrow> version_less ?f ?g"
    unfolding version_less_def by (rule in_range) simp
  have gt: "(\<exists>i\<in>{0..<n}. (\<forall>j\<in>{0..<i}. ?f j = ?g j) \<and> ?g i < ?f i) \<longleftrightarrow> version_less ?g ?f"
    unfolding version_less_def by (subst in_range) (auto simp: eq_commute)
  have eq: "compare_dotted_version a b = (if version_less ?f ?g then -1 else if version_less ?g ?f then 1 else 0)"
    unfolding compare_dotted_version_def Let_def n_def [symmetric] version_loop_upt lt gt by simp
  have asym: "\<not> (version_less ?f ?g \<and> version_less ?g ?f)"
    using version_less_trans version_less_irrefl by blast
  show "compare_dotted_version a b = -1 \<longleftrightarrow> version_less ?f ?g" by (simp add: eq)
  show "compare_dotted_version a b = 1 \<longleftrightarrow> version_less ?g ?f" using asym by (simp add: eq)
  show "compare_dotted_version a b = 0 \<longleftrightarrow> ?f = ?g"
    using version_less_linear [of ?f ?g] version_less_irrefl by (auto simp: eq)
qed


subsection \<open>Manifests\<close>

record artifact =
  ar_name :: string
  ar_url :: string
  ar_sha :: string
  ar_signature :: string

record policy_bundle =
  pb_version :: string
  pb_url :: string
  pb_sha :: string

record rollback_policy =
  rk_supported :: bool
  rk_keep :: int

record compatibility_row =
  cw_target :: string
  cw_status :: string
  cw_notes :: string

record release_notes_info =
  ri_changelog :: "string list"
  ri_migration :: string
  ri_rollback :: string
  ri_compat :: "compatibility_row list"

record manifest_payload =
  mp_product :: string
  mp_version :: string
  mp_channel :: string
  mp_released :: string
  mp_min_agent :: string
  mp_artifacts :: "artifact list"
  mp_bundle :: "policy_bundle option"
  mp_rollback :: rollback_policy
  mp_release :: "release_notes_info option"
  mp_notes :: "string list"

record manifest_file =
  mf_payload :: manifest_payload
  mf_signature :: string

record manifest_options =
  mo_product :: string
  mo_channel :: string
  mo_current :: string
  mo_downgrade :: bool
  mo_need_rollback :: bool
  mo_need_artifacts :: bool
  mo_need_release :: bool
  mo_need_signature :: bool

record manifest_result =
  mr_product :: string
  mr_version :: string
  mr_channel :: string
  mr_artifacts :: "artifact list"
  mr_rollback :: bool
  mr_release :: "release_notes_info option"

datatype manifest_error =
    Key_wrong_size | Product_required | Version_required | Channel_required | Released_required | Released_invalid
  | Keep_negative | Artifact_name_required nat | Artifact_url_required nat | Artifact_sha_required nat
  | Bundle_version_required | Bundle_url_required | Bundle_sha_required
  | Release_required | Changelog_required | Changelog_empty nat | Migration_required | Rollback_note_required
  | Compat_required | Compat_target nat | Compat_status nat
  | Signature_invalid license_error | Product_mismatch | Channel_mismatch | No_rollback | No_artifacts
  | Artifact_unsigned nat | Artifact_signature nat license_error | Downgrade | Cannot_encode

definition validate_artifact :: "nat \<Rightarrow> artifact \<Rightarrow> manifest_error option" where
  "validate_artifact i a =
     (if trim_space (ar_name a) = [] then Some (Artifact_name_required i)
      else if trim_space (ar_url a) = [] then Some (Artifact_url_required i)
      else if trim_space (ar_sha a) = [] then Some (Artifact_sha_required i)
      else None)"

fun first_error :: "(nat \<Rightarrow> 'a \<Rightarrow> manifest_error option) \<Rightarrow> nat \<Rightarrow> 'a list \<Rightarrow> manifest_error option" where
  "first_error chk i [] = None"
| "first_error chk i (x # xs) = (case chk i x of Some e \<Rightarrow> Some e | None \<Rightarrow> first_error chk (Suc i) xs)"

definition check_compat :: "nat \<Rightarrow> compatibility_row \<Rightarrow> manifest_error option" where
  "check_compat i r =
     (if trim_space (cw_target r) = [] then Some (Compat_target i)
      else if trim_space (cw_status r) \<in> {''pass'', ''warn'', ''unsupported'', ''not_tested''} then None
      else Some (Compat_status i))"

definition validate_release_info :: "release_notes_info option \<Rightarrow> manifest_error option" where
  "validate_release_info release =
     (case release of None \<Rightarrow> Some Release_required
      | Some r \<Rightarrow>
          if ri_changelog r = [] then Some Changelog_required
          else case first_error (\<lambda>i x. if trim_space x = [] then Some (Changelog_empty i) else None) 0 (ri_changelog r) of
                 Some e \<Rightarrow> Some e
               | None \<Rightarrow>
                   if trim_space (ri_migration r) = [] then Some Migration_required
                   else if trim_space (ri_rollback r) = [] then Some Rollback_note_required
                   else if ri_compat r = [] then Some Compat_required
                   else first_error check_compat 0 (ri_compat r))"

definition validate_payload :: "(string \<Rightarrow> gotime option) \<Rightarrow> manifest_payload \<Rightarrow> manifest_error option" where
  "validate_payload tm p =
     (if trim_space (mp_product p) = [] then Some Product_required
      else if trim_space (mp_version p) = [] then Some Version_required
      else if trim_space (mp_channel p) = [] then Some Channel_required
      else if trim_space (mp_released p) = [] then Some Released_required
      else if tm (mp_released p) = None then Some Released_invalid
      else if rk_keep (mp_rollback p) < 0 then Some Keep_negative
      else case first_error validate_artifact 0 (mp_artifacts p) of Some e \<Rightarrow> Some e
      | None \<Rightarrow>
        (case (case mp_bundle p of None \<Rightarrow> None
               | Some b \<Rightarrow> if trim_space (pb_version b) = [] then Some Bundle_version_required
                           else if trim_space (pb_url b) = [] then Some Bundle_url_required
                           else if trim_space (pb_sha b) = [] then Some Bundle_sha_required else None) of
           Some e \<Rightarrow> Some e
         | None \<Rightarrow> if mp_release p \<noteq> None then validate_release_info (mp_release p) else None))"

definition normalize_sha256 :: "string \<Rightarrow> string" where
  "normalize_sha256 v = go_lower (trim_prefix ''sha256:'' (trim_space v))"

text \<open>What an artifact's signature covers; \<open>enc\<close> is the JSON encoding of the two fields.\<close>

definition artifact_message :: "(string \<Rightarrow> string \<Rightarrow> u8 list option) \<Rightarrow> artifact \<Rightarrow> u8 list option" where
  "artifact_message enc a = enc (trim_space (ar_name a)) (''sha256:'' @ normalize_sha256 (ar_sha a))"

definition verify_artifact_signature :: "ed25519 \<Rightarrow> (string \<Rightarrow> string \<Rightarrow> u8 list option) \<Rightarrow> artifact \<Rightarrow> u8 list \<Rightarrow>
    license_error option" where
  "verify_artifact_signature ed enc a key =
     (if length key \<noteq> public_key_size then Some Key_size
      else check_signature ed (artifact_message enc a) (ar_signature a) key)"

definition sign_artifact :: "ed25519 \<Rightarrow> (string \<Rightarrow> string \<Rightarrow> u8 list option) \<Rightarrow> artifact \<Rightarrow> u8 list \<Rightarrow>
    manifest_error + string" where
  "sign_artifact ed enc a secret =
     (if length secret \<noteq> private_key_size then Inl Key_wrong_size
      else let url = (if trim_space (ar_url a) \<noteq> [] then ar_url a else ''file://artifact'')
           in case validate_artifact 0 (a\<lparr>ar_url := url\<rparr>) of Some e \<Rightarrow> Inl e
              | None \<Rightarrow> (case artifact_message enc a of None \<Rightarrow> Inl Cannot_encode
                         | Some msg \<Rightarrow> Inr (encode_signature (ed_sign ed secret msg))))"

definition check_artifact :: "ed25519 \<Rightarrow> (string \<Rightarrow> string \<Rightarrow> u8 list option) \<Rightarrow> u8 list \<Rightarrow> bool \<Rightarrow> nat \<Rightarrow> artifact \<Rightarrow>
    manifest_error option" where
  "check_artifact ed enc key need i a =
     (if need \<and> trim_space (ar_signature a) = [] then Some (Artifact_unsigned i)
      else if trim_space (ar_signature a) \<noteq> []
      then map_option (Artifact_signature i) (verify_artifact_signature ed enc a key)
      else None)"

definition sign_manifest :: "manifest_payload sign_env \<Rightarrow> manifest_payload \<Rightarrow> u8 list \<Rightarrow> manifest_error + manifest_file" where
  "sign_manifest e p secret =
     (if length secret \<noteq> private_key_size then Inl Key_wrong_size
      else case validate_payload (se_time e) p of Some err \<Rightarrow> Inl err
      | None \<Rightarrow> (case se_encode e p of None \<Rightarrow> Inl Cannot_encode
                 | Some msg \<Rightarrow> Inr \<lparr>mf_payload = p, mf_signature = encode_signature (ed_sign (se_ed e) secret msg)\<rparr>))"

definition verify_manifest :: "manifest_payload sign_env \<Rightarrow> (string \<Rightarrow> string \<Rightarrow> u8 list option) \<Rightarrow> manifest_file \<Rightarrow>
    u8 list \<Rightarrow> manifest_options \<Rightarrow> manifest_error + manifest_result" where
  "verify_manifest e enc f key opts =
     (let p = mf_payload f
      in if length key \<noteq> public_key_size then Inl Key_wrong_size
         else case validate_payload (se_time e) p of Some err \<Rightarrow> Inl err
         | None \<Rightarrow>
         (case check_signature (se_ed e) (se_encode e p) (mf_signature f) key of Some err \<Rightarrow> Inl (Signature_invalid err)
          | None \<Rightarrow>
            if mo_product opts \<noteq> [] \<and> mp_product p \<noteq> mo_product opts then Inl Product_mismatch
            else if mo_channel opts \<noteq> [] \<and> mp_channel p \<noteq> mo_channel opts then Inl Channel_mismatch
            else if mo_need_rollback opts \<and> \<not> rk_supported (mp_rollback p) then Inl No_rollback
            else if mo_need_artifacts opts \<and> mp_artifacts p = [] then Inl No_artifacts
            else case (if mo_need_release opts then validate_release_info (mp_release p) else None) of Some err \<Rightarrow> Inl err
            | None \<Rightarrow>
            (case first_error (check_artifact (se_ed e) enc key (mo_need_signature opts)) 0 (mp_artifacts p) of
               Some err \<Rightarrow> Inl err
             | None \<Rightarrow>
                if mo_current opts \<noteq> [] \<and> \<not> mo_downgrade opts \<and> compare_dotted_version (mp_version p) (mo_current opts) < 0
                then Inl Downgrade
                else Inr \<lparr>mr_product = mp_product p, mr_version = mp_version p, mr_channel = mp_channel p,
                          mr_artifacts = mp_artifacts p, mr_rollback = rk_supported (mp_rollback p),
                          mr_release = mp_release p\<rparr>)))"

text \<open>The check of a downloaded file; \<open>file\<close> is its contents, if it can be read.\<close>

datatype artifact_check = Artifact_ok | Artifact_bad manifest_error | Artifact_unreadable | Checksum_mismatch
  | Artifact_badly_signed license_error

definition verify_artifact_file :: "artifact \<Rightarrow> u8 list option \<Rightarrow> artifact_check" where
  "verify_artifact_file a file =
     (case validate_artifact 0 a of Some e \<Rightarrow> Artifact_bad e
      | None \<Rightarrow> (case file of None \<Rightarrow> Artifact_unreadable
                 | Some bytes \<Rightarrow> if hex_encode (sha256 bytes) \<noteq> normalize_sha256 (ar_sha a) then Checksum_mismatch
                                 else Artifact_ok))"

definition verify_artifact_file_with_key :: "ed25519 \<Rightarrow> (string \<Rightarrow> string \<Rightarrow> u8 list option) \<Rightarrow> artifact \<Rightarrow>
    u8 list option \<Rightarrow> u8 list \<Rightarrow> artifact_check" where
  "verify_artifact_file_with_key ed enc a file key =
     (if verify_artifact_file a file \<noteq> Artifact_ok then verify_artifact_file a file
      else if trim_space (ar_signature a) = [] then Artifact_ok
      else case verify_artifact_signature ed enc a key of None \<Rightarrow> Artifact_ok | Some e \<Rightarrow> Artifact_badly_signed e)"

definition artifact_sha256 :: "u8 list \<Rightarrow> string" where
  "artifact_sha256 bytes = ''sha256:'' @ hex_encode (sha256 bytes)"


subsection \<open>What an accepted manifest has\<close>

lemma compare_values: "compare_dotted_version a b = -1 \<or> compare_dotted_version a b = 0 \<or> compare_dotted_version a b = 1"
  using version_less_linear unfolding compare_iff by blast

lemma compare_le_iff:
  "compare_dotted_version a b \<le> 0 \<longleftrightarrow> \<not> version_less (part_at (version_parts b)) (part_at (version_parts a))"
  using compare_values [of a b] by (auto simp: compare_iff(2) [symmetric])

lemma compare_trans:
  "compare_dotted_version a b \<le> 0 \<Longrightarrow> compare_dotted_version b c \<le> 0 \<Longrightarrow> compare_dotted_version a c \<le> 0"
  unfolding compare_le_iff using version_less_linear version_less_trans by metis

text \<open>
  C19. The order of versions is the lexicographic order of their parts, padded with zeros: the
  comparison of two texts is -1, 1 or 0 as the first is below, above or equal in it, so it is
  antisymmetric and every two versions compare; equal means equal up to trailing zero parts.
\<close>

theorem version_order:
  "(compare_dotted_version a b = -1 \<longleftrightarrow> version_less (part_at (version_parts a)) (part_at (version_parts b))) \<and>
   (compare_dotted_version a b = 1 \<longleftrightarrow> version_less (part_at (version_parts b)) (part_at (version_parts a))) \<and>
   (compare_dotted_version a b = 0 \<longleftrightarrow> (\<forall>i. part_at (version_parts a) i = part_at (version_parts b) i)) \<and>
   compare_dotted_version b a = - compare_dotted_version a b"
proof -
  have "compare_dotted_version b a = - compare_dotted_version a b"
  proof -
    consider "compare_dotted_version a b = -1" | "compare_dotted_version a b = 1" | "compare_dotted_version a b = 0"
      using compare_values by blast
    then show ?thesis
    proof cases
      case 1
      with compare_iff(1) [of a b] compare_iff(2) [of b a] show ?thesis by simp
    next
      case 2
      with compare_iff(2) [of a b] compare_iff(1) [of b a] show ?thesis by simp
    next
      case 3
      with compare_iff(3) [of a b] compare_iff(3) [of b a] show ?thesis by simp
    qed
  qed
  with compare_iff [of a b] show ?thesis by (simp add: fun_eq_iff)
qed

lemma first_error_iff:
  "first_error chk k xs = None \<longleftrightarrow> (\<forall>i<length xs. chk (k + i) (xs ! i) = None)"
proof (induction xs arbitrary: k)
  case (Cons x xs)
  have "(\<forall>i<length (x # xs). chk (k + i) ((x # xs) ! i) = None) \<longleftrightarrow>
      chk k x = None \<and> (\<forall>i<length xs. chk (Suc k + i) (xs ! i) = None)"
    by (auto simp: less_Suc_eq_0_disj)
  with Cons show ?case by (simp split: option.splits)
qed simp

lemma first_error_set:
  assumes "\<And>i. chk i x = None \<Longrightarrow> good x" "first_error chk k xs = None" "x \<in> set xs"
  shows "good x"
  using assms by (auto simp: first_error_iff in_set_conv_nth)

lemma valid_payload_facts:
  assumes "validate_payload tm p = None"
  shows "trim_space (mp_product p) \<noteq> []" "trim_space (mp_version p) \<noteq> []" "trim_space (mp_channel p) \<noteq> []"
    "tm (mp_released p) \<noteq> None" "0 \<le> rk_keep (mp_rollback p)" "first_error validate_artifact 0 (mp_artifacts p) = None"
    "mp_release p \<noteq> None \<Longrightarrow> validate_release_info (mp_release p) = None"
  using assms unfolding validate_payload_def by (simp_all split: if_splits option.splits)

lemma valid_artifact_facts:
  "validate_artifact i a = None \<longleftrightarrow> trim_space (ar_name a) \<noteq> [] \<and> trim_space (ar_url a) \<noteq> [] \<and> trim_space (ar_sha a) \<noteq> []"
  by (simp add: validate_artifact_def)

lemma artifact_signature_iff:
  "verify_artifact_signature ed enc a key = None \<longleftrightarrow> length key = public_key_size \<and>
     (\<exists>msg. artifact_message enc a = Some msg \<and> carries_signature ed key msg (ar_signature a))"
  by (simp add: verify_artifact_signature_def check_signature_iff)

text \<open>
  C20. A manifest is accepted only if its signature text decodes to a valid signature of the very
  payload, product and channel are the wanted ones, it can be rolled back and has artifacts and
  release notes where these are required, every artifact has a name, an address and a checksum
  and, where it is signed or must be, a valid signature of its name and checksum, and its version
  is not below the current one, downgrades excepted. The result reports what the payload says.
\<close>

theorem accepted_manifest_genuine:
  assumes "verify_manifest e enc f key opts = Inr res" "p = mf_payload f"
  shows "(\<exists>msg. se_encode e p = Some msg \<and> carries_signature (se_ed e) key msg (mf_signature f)) \<and>
    (mo_product opts = [] \<or> mp_product p = mo_product opts) \<and>
    (mo_channel opts = [] \<or> mp_channel p = mo_channel opts) \<and>
    (mo_need_rollback opts \<longrightarrow> rk_supported (mp_rollback p)) \<and>
    (mo_need_artifacts opts \<longrightarrow> (mp_artifacts p \<noteq> [])) \<and>
    (mo_need_release opts \<longrightarrow> (validate_release_info (mp_release p) = None)) \<and>
    (\<forall>a\<in>set (mp_artifacts p). trim_space (ar_name a) \<noteq> [] \<and> trim_space (ar_url a) \<noteq> [] \<and> trim_space (ar_sha a) \<noteq> [] \<and>
       (mo_need_signature opts \<or> trim_space (ar_signature a) \<noteq> [] \<longrightarrow>
          (\<exists>msg. artifact_message enc a = Some msg \<and> carries_signature (se_ed e) key msg (ar_signature a)))) \<and>
    (mo_current opts = [] \<or> mo_downgrade opts \<or>
       \<not> version_less (part_at (version_parts (mp_version p))) (part_at (version_parts (mo_current opts)))) \<and>
    mr_version res = mp_version p \<and> mr_artifacts res = mp_artifacts p \<and> mr_rollback res = rk_supported (mp_rollback p)"
proof -
  have valid: "validate_payload (se_time e) p = None"
    and sig: "check_signature (se_ed e) (se_encode e p) (mf_signature f) key = None"
    and prod: "mo_product opts = [] \<or> mp_product p = mo_product opts"
    and chan: "mo_channel opts = [] \<or> mp_channel p = mo_channel opts"
    and roll: "mo_need_rollback opts \<longrightarrow> rk_supported (mp_rollback p)"
    and arts: "mo_need_artifacts opts \<longrightarrow> (mp_artifacts p \<noteq> [])"
    and rel: "mo_need_release opts \<longrightarrow> (validate_release_info (mp_release p) = None)"
    and each: "first_error (check_artifact (se_ed e) enc key (mo_need_signature opts)) 0 (mp_artifacts p) = None"
    and down: "mo_current opts = [] \<or> mo_downgrade opts \<or> compare_dotted_version (mp_version p) (mo_current opts) \<noteq> -1"
    and res: "mr_version res = mp_version p" "mr_artifacts res = mp_artifacts p" "mr_rollback res = rk_supported (mp_rollback p)"
    using assms unfolding verify_manifest_def Let_def
    by (auto split: if_splits option.splits)
  have "trim_space (ar_name a) \<noteq> [] \<and> trim_space (ar_url a) \<noteq> [] \<and> trim_space (ar_sha a) \<noteq> []" if "a \<in> set (mp_artifacts p)" for a
    by (rule first_error_set [OF _ valid_payload_facts(6) [OF valid] that]) (simp add: valid_artifact_facts)
  moreover have "mo_need_signature opts \<or> trim_space (ar_signature a) \<noteq> [] \<longrightarrow>
      (\<exists>msg. artifact_message enc a = Some msg \<and> carries_signature (se_ed e) key msg (ar_signature a))"
    if "a \<in> set (mp_artifacts p)" for a
    by (rule first_error_set [OF _ each that]) (auto simp: check_artifact_def artifact_signature_iff split: if_splits)
  ultimately show ?thesis
    using sig prod chan roll arts rel down res by (simp add: check_signature_iff compare_iff)
qed


definition demo_manifest_env :: "manifest_payload sign_env" where
  "demo_manifest_env = \<lparr>se_ed = demo_ed, se_encode = (\<lambda>p. Some (bytes_of (mp_product p @ mp_version p))),
     se_time = (\<lambda>t. if t = ''now'' then Some 100 else None)\<rparr>"

definition demo_encoding :: "string \<Rightarrow> string \<Rightarrow> u8 list option" where
  "demo_encoding name sha = Some (bytes_of (name @ sha))"

definition demo_artifact :: artifact where
  "demo_artifact = \<lparr>ar_name = ''agent'', ar_url = ''u'', ar_sha = ''00'',
     ar_signature = encode_signature (bytes_of ''agentsha256:00'')\<rparr>"

definition demo_payload :: manifest_payload where
  "demo_payload = \<lparr>mp_product = ''kiro'', mp_version = ''1.2'', mp_channel = ''stable'', mp_released = ''now'',
     mp_min_agent = [], mp_artifacts = [demo_artifact], mp_bundle = None,
     mp_rollback = \<lparr>rk_supported = True, rk_keep = 1\<rparr>, mp_release = None, mp_notes = []\<rparr>"

definition demo_manifest :: manifest_file where
  "demo_manifest = \<lparr>mf_payload = demo_payload, mf_signature = encode_signature (bytes_of ''kiro1.2'')\<rparr>"

definition demo_wanted :: manifest_options where
  "demo_wanted = \<lparr>mo_product = ''kiro'', mo_channel = ''stable'', mo_current = ''v1.1.9'', mo_downgrade = False,
     mo_need_rollback = True, mo_need_artifacts = True, mo_need_release = False, mo_need_signature = True\<rparr>"

lemma demo_manifest_trims:
  "trim_space ''kiro'' = ''kiro''" "trim_space ''1.2'' = ''1.2''" "trim_space ''stable'' = ''stable''"
  "trim_space ''now'' = ''now''" "trim_space ''agent'' = ''agent''" "trim_space ''u'' = ''u''" "trim_space ''00'' = ''00''"
  by (intro trim_visible; simp add: visible_def)+

lemma demo_payload_valid: "validate_payload (se_time demo_manifest_env) demo_payload = None"
  by (simp add: validate_payload_def demo_payload_def demo_manifest_trims demo_manifest_env_def validate_artifact_def demo_artifact_def)

lemma demo_digits_trim:
  "trim_space ''1'' = ''1''" "trim_space ''2'' = ''2''" "trim_space ''9'' = ''9''" "trim_space ''v1.1.9'' = ''v1.1.9''"
  by (intro trim_visible; simp add: visible_def)+

lemma demo_parts: "version_part ''1'' = 1" "version_part ''2'' = 2" "version_part ''9'' = 9"
  by (simp_all add: version_part_def demo_digits_trim digit_val_def parse_int64_def parse_sign_def parse_digits_def in_i64_def
      i64_min_def i64_max_def)

lemma demo_version_parts: "version_parts ''1.2'' = [1, 2]" "version_parts ''v1.1.9'' = [1, 1, 9]"
  by (simp_all add: version_parts_def demo_manifest_trims demo_digits_trim trim_prefix_def demo_parts)

lemma demo_versions: "compare_dotted_version ''1.2'' ''v1.1.9'' = 1" "compare_dotted_version ''v1.1.9'' ''1.2'' = -1"
  by (simp_all add: compare_dotted_version_def demo_version_parts upt_rec part_at_def)

lemma demo_artifact_message: "artifact_message demo_encoding demo_artifact = Some (bytes_of ''agentsha256:00'')"
proof -
  have "normalize_sha256 ''00'' = ''00''"
    by (simp add: normalize_sha256_def demo_manifest_trims trim_prefix_def lower_char_def)
  then show ?thesis by (simp add: artifact_message_def demo_artifact_def demo_encoding_def demo_manifest_trims)
qed

lemma demo_carries: "check_signature demo_ed (Some (bytes_of t)) (encode_signature (bytes_of t)) key = None"
  unfolding check_signature_iff
  by (intro exI [of _ "bytes_of t"] conjI refl encoded_carries) (simp add: demo_ed_def)

lemma demo_manifest_accepted:
  "verify_manifest demo_manifest_env demo_encoding demo_manifest (replicate 32 0) demo_wanted =
   Inr \<lparr>mr_product = ''kiro'', mr_version = ''1.2'', mr_channel = ''stable'', mr_artifacts = [demo_artifact],
        mr_rollback = True, mr_release = None\<rparr>"
proof -
  have "check_artifact demo_ed demo_encoding (replicate 32 0) True 0 demo_artifact = None"
    unfolding check_artifact_def verify_artifact_signature_def demo_artifact_message
    by (simp add: demo_artifact_def demo_carries public_key_size_def trim_encoded signature_prefix_def)
  moreover have "check_signature demo_ed (se_encode demo_manifest_env demo_payload) (mf_signature demo_manifest) (replicate 32 0) = None"
    using demo_carries [of "''kiro1.2''"] by (simp add: demo_manifest_env_def demo_payload_def demo_manifest_def)
  moreover have "se_ed demo_manifest_env = demo_ed" "mf_payload demo_manifest = demo_payload"
    by (simp_all add: demo_manifest_env_def demo_manifest_def)
  ultimately show ?thesis
    by (simp add: verify_manifest_def demo_payload_valid public_key_size_def demo_wanted_def demo_versions)
      (simp add: demo_payload_def demo_versions)
qed

theorem accepted_manifest_genuine_witness:
  "\<not> version_less (part_at (version_parts ''1.2'')) (part_at (version_parts ''v1.1.9''))"
  using accepted_manifest_genuine [OF demo_manifest_accepted refl]
  by (simp add: demo_manifest_def demo_payload_def demo_wanted_def)

text \<open>What the caller's options ask of a genuine manifest.\<close>

definition meets_options :: "manifest_options \<Rightarrow> manifest_payload \<Rightarrow> bool" where
  "meets_options opts p \<longleftrightarrow>
     mo_product opts \<in> {[], mp_product p} \<and> mo_channel opts \<in> {[], mp_channel p} \<and>
     (mo_need_rollback opts \<longrightarrow> rk_supported (mp_rollback p)) \<and>
     (mo_need_artifacts opts \<longrightarrow> mp_artifacts p \<noteq> []) \<and>
     (mo_need_release opts \<longrightarrow> validate_release_info (mp_release p) = None) \<and>
     (mo_need_signature opts \<longrightarrow> list_all (\<lambda>a. trim_space (ar_signature a) \<noteq> []) (mp_artifacts p)) \<and>
     (mo_current opts = [] \<or> mo_downgrade opts \<or>
        \<not> version_less (part_at (version_parts (mp_version p))) (part_at (version_parts (mo_current opts))))"

text \<open>
  C37. Signing and verifying agree. Assumed is a public key of the right length that accepts what the
  secret key signs. A manifest that SignManifest makes of a payload, whose artifacts are unsigned or
  signed by SignArtifact with the same key, is accepted by Verify exactly when the payload meets the
  options of the caller: the wanted product and channel, a rollback, artifacts, release notes and
  artifact signatures where they are required, and no downgrade unless it is allowed. The result
  reports the payload.
\<close>

theorem signed_manifest_verifies:
  assumes "sign_manifest e p secret = Inr f" "length key = public_key_size"
    "\<And>msg. ed_verify (se_ed e) key msg (ed_sign (se_ed e) secret msg)"
    "\<forall>a\<in>set (mp_artifacts p). trim_space (ar_signature a) = [] \<or> sign_artifact (se_ed e) enc a secret = Inr (ar_signature a)"
  shows "case verify_manifest e enc f key opts of
      Inl _ \<Rightarrow> \<not> meets_options opts p
    | Inr res \<Rightarrow> meets_options opts p \<and> mr_version res = mp_version p \<and> mr_artifacts res = mp_artifacts p \<and>
        mr_release res = mp_release p"
proof -
  from assms(1) obtain msg where f: "validate_payload (se_time e) p = None" "se_encode e p = Some msg"
      "f = \<lparr>mf_payload = p, mf_signature = encode_signature (ed_sign (se_ed e) secret msg)\<rparr>"
    by (auto simp: sign_manifest_def split: if_splits option.splits)
  have sig: "check_signature (se_ed e) (Some msg) (encode_signature (ed_sign (se_ed e) secret msg)) key = None"
    unfolding check_signature_iff by (intro exI [of _ msg] conjI refl encoded_carries assms(3))
  have each: "check_artifact (se_ed e) enc key need i a = None \<longleftrightarrow> (need \<longrightarrow> trim_space (ar_signature a) \<noteq> [])"
    if "a \<in> set (mp_artifacts p)" for i a need
  proof (cases "trim_space (ar_signature a) = []")
    case False
    with assms(4) that obtain m where "artifact_message enc a = Some m" "ar_signature a = encode_signature (ed_sign (se_ed e) secret m)"
      by (fastforce simp: sign_artifact_def Let_def split: if_splits option.splits)
    then have "verify_artifact_signature (se_ed e) enc a key = None"
      unfolding artifact_signature_iff using assms(2,3) by (auto intro: encoded_carries)
    with False show ?thesis by (simp add: check_artifact_def)
  qed (simp add: check_artifact_def)
  have all: "first_error (check_artifact (se_ed e) enc key (mo_need_signature opts)) 0 (mp_artifacts p) = None \<longleftrightarrow>
      (mo_need_signature opts \<longrightarrow> list_all (\<lambda>a. trim_space (ar_signature a) \<noteq> []) (mp_artifacts p))"
    using each by (auto simp: first_error_iff list_all_length)
  have older: "compare_dotted_version a b < 0 \<longleftrightarrow> version_less (part_at (version_parts a)) (part_at (version_parts b))" for a b
    using compare_values [of a b] by (auto simp: compare_iff(1) [symmetric])
  have "verify_manifest e enc f key opts = Inr \<lparr>mr_product = mp_product p, mr_version = mp_version p, mr_channel = mp_channel p,
      mr_artifacts = mp_artifacts p, mr_rollback = rk_supported (mp_rollback p), mr_release = mp_release p\<rparr>"
    if met: "meets_options opts p"
  proof -
    have guards: "(mo_product opts \<noteq> [] \<and> mp_product p \<noteq> mo_product opts) = False"
      "(mo_channel opts \<noteq> [] \<and> mp_channel p \<noteq> mo_channel opts) = False"
      "(mo_need_rollback opts \<and> \<not> rk_supported (mp_rollback p)) = False" "(mo_need_artifacts opts \<and> mp_artifacts p = []) = False"
      "(if mo_need_release opts then validate_release_info (mp_release p) else None) = None"
      "first_error (check_artifact (se_ed e) enc key (mo_need_signature opts)) 0 (mp_artifacts p) = None"
      "(mo_current opts \<noteq> [] \<and> \<not> mo_downgrade opts \<and> compare_dotted_version (mp_version p) (mo_current opts) < 0) = False"
      using met all by (auto simp: meets_options_def older)
    show ?thesis
      unfolding verify_manifest_def Let_def f(2,3) manifest_file.select_convs by (simp only: assms(2) f(1) sig guards option.case simp_thms if_False)
  qed
  moreover have "meets_options opts p" if ok: "verify_manifest e enc f key opts = Inr res" for res
  proof -
    have "first_error (check_artifact (se_ed e) enc key (mo_need_signature opts)) 0 (mp_artifacts p) = None"
      "mo_product opts = [] \<or> mp_product p = mo_product opts" "mo_channel opts = [] \<or> mp_channel p = mo_channel opts"
      "mo_need_rollback opts \<longrightarrow> rk_supported (mp_rollback p)" "mo_need_artifacts opts \<longrightarrow> mp_artifacts p \<noteq> []"
      "mo_need_release opts \<longrightarrow> validate_release_info (mp_release p) = None"
      "mo_current opts = [] \<or> mo_downgrade opts \<or> \<not> compare_dotted_version (mp_version p) (mo_current opts) < 0"
      using ok unfolding verify_manifest_def Let_def f(3) manifest_file.select_convs
      by (simp_all split: if_split_asm option.split_asm)
    then show ?thesis using all by (auto simp: meets_options_def older)
  qed
  ultimately show ?thesis by (fastforce split: sum.split)
qed

theorem signed_manifest_verifies_witness:
  "\<exists>res. verify_manifest demo_manifest_env demo_encoding demo_manifest (replicate 32 0) demo_wanted = Inr res \<and>
     mr_version res = ''1.2'' \<and> mr_release res = None"
proof -
  have signed: "sign_manifest demo_manifest_env demo_payload (replicate 64 0) = Inr demo_manifest"
    using demo_payload_valid
    by (simp add: sign_manifest_def private_key_size_def demo_manifest_def demo_manifest_env_def demo_ed_def demo_payload_def)
  have "sign_artifact demo_ed demo_encoding demo_artifact (replicate 64 0) = Inr (ar_signature demo_artifact)"
    unfolding sign_artifact_def demo_artifact_message
    by (simp add: private_key_size_def validate_artifact_def demo_artifact_def demo_manifest_trims demo_ed_def)
  then have artifacts: "\<forall>a\<in>set (mp_artifacts demo_payload). trim_space (ar_signature a) = [] \<or>
      sign_artifact (se_ed demo_manifest_env) demo_encoding a (replicate 64 0) = Inr (ar_signature a)"
    by (simp add: demo_payload_def demo_manifest_env_def)
  have verifies: "ed_verify (se_ed demo_manifest_env) (replicate 32 0) msg (ed_sign (se_ed demo_manifest_env) (replicate 64 0) msg)" for msg
    by (simp add: demo_manifest_env_def demo_ed_def)
  have "\<not> version_less (part_at (version_parts ''1.2'')) (part_at (version_parts ''v1.1.9''))"
    using demo_versions(1) compare_iff(1) [of "''1.2''" "''v1.1.9''"] by simp
  moreover have "trim_space (ar_signature demo_artifact) \<noteq> []"
    by (simp add: demo_artifact_def trim_encoded signature_prefix_def)
  ultimately have wanted: "meets_options demo_wanted demo_payload"
    by (simp add: meets_options_def demo_wanted_def demo_payload_def)
  show ?thesis
    using signed_manifest_verifies [OF signed _ verifies artifacts, of demo_wanted] wanted
    by (simp add: public_key_size_def demo_payload_def split: sum.splits)
qed

end
