(* ===== verification/GoPath.thy ===== *)
theory GoPath
  imports Strings
begin

text \<open>
  What the program uses of package \<^verbatim>\<open>path/filepath\<close> on a Unix system: the lexical
  \<^verbatim>\<open>Clean\<close>, \<^verbatim>\<open>Join\<close> and \<^verbatim>\<open>IsAbs\<close>. A path is seen through its elements; a clean path has
  no empty element, no dot, and double dots only at the front of a relative path. Symbolic links
  play no part in these functions.
\<close>

definition is_abs :: "string \<Rightarrow> bool" where "is_abs p = prefix ''/'' p"

definition path_elems :: "string \<Rightarrow> string list" where
  "path_elems p = filter (\<lambda>e. e \<noteq> [] \<and> e \<noteq> ''.'') (split_on CHR ''/'' p)"

text \<open>The elements that are kept, the last one first.\<close>

definition push_elem :: "bool \<Rightarrow> string list \<Rightarrow> string \<Rightarrow> string list" where
  "push_elem rooted st e =
     (if e = ''..''
      then (case st of [] \<Rightarrow> if rooted then [] else [e]
            | t # r \<Rightarrow> if t = ''..'' then e # st else r)
      else e # st)"

definition clean_elems :: "bool \<Rightarrow> string list \<Rightarrow> string list" where
  "clean_elems rooted es = rev (foldl (push_elem rooted) [] es)"

definition clean_path :: "string \<Rightarrow> string" where
  "clean_path p =
     (let body = join_with ''/'' (clean_elems (is_abs p) (path_elems p))
      in if is_abs p then ''/'' @ body else if body = [] then ''.'' else body)"

definition join_paths :: "string list \<Rightarrow> string" where
  "join_paths ps = (case dropWhile (\<lambda>p. p = []) ps of [] \<Rightarrow> [] | qs \<Rightarrow> clean_path (join_with ''/'' qs))"

lemma is_abs_hd: "is_abs p \<longleftrightarrow> p \<noteq> [] \<and> hd p = CHR ''/''"
  by (cases p) (auto simp: is_abs_def)

text \<open>An element of a path as it is after cleaning.\<close>

definition path_name :: "string \<Rightarrow> bool" where
  "path_name e \<longleftrightarrow> e \<noteq> [] \<and> e \<noteq> ''.'' \<and> CHR ''/'' \<notin> set e"

subsection \<open>Splitting and joining\<close>

lemma split_on_word: "c \<notin> set w \<Longrightarrow> split_on c w = [w]"
  by (induction w) auto

lemma split_on_sep: "c \<notin> set w \<Longrightarrow> split_on c (w @ c # s) = w # split_on c s"
  by (induction w) auto

lemma split_on_nonempty [simp]: "split_on c s \<noteq> []"
  by (induction s) (auto split: list.splits)

lemma split_on_words: "w \<in> set (split_on c s) \<Longrightarrow> c \<notin> set w"
  by (induction s arbitrary: w) (auto split: list.splits if_splits)

lemma split_on_join:
  assumes "\<forall>w\<in>set ws. c \<notin> set w" "ws \<noteq> []"
  shows "split_on c (join_with [c] ws) = ws"
  using assms
proof (induction ws)
  case (Cons w ws)
  then show ?case by (cases "ws = []") (simp_all add: join_with_Cons split_on_word split_on_sep)
qed simp

lemma split_on_append_sep: "split_on c (s @ c # t) = split_on c s @ split_on c t"
proof (induction s)
  case (Cons x s)
  then show ?case by (cases "split_on c s") auto
qed simp

lemma path_elems_names: "e \<in> set (path_elems p) \<Longrightarrow> path_name e"
  using split_on_words by (auto simp: path_elems_def path_name_def)

lemma path_elems_append: "path_elems (p @ ''/'' @ q) = path_elems p @ path_elems q"
  by (simp add: path_elems_def split_on_append_sep)

lemma path_elems_Nil [simp]: "path_elems [] = []"
  by (simp add: path_elems_def)

lemma path_elems_slash [simp]: "path_elems (CHR ''/'' # p) = path_elems p"
  using path_elems_append [of "[]" p] by simp

lemma path_elems_join:
  assumes "\<forall>e\<in>set es. path_name e"
  shows "path_elems (join_with ''/'' es) = es"
proof (cases "es = []")
  case False
  then have "split_on CHR ''/'' (join_with ''/'' es) = es"
    by (intro split_on_join) (use assms in \<open>auto simp: path_name_def\<close>)
  moreover have "filter (\<lambda>e. e \<noteq> [] \<and> e \<noteq> ''.'') es = es"
    using assms by (auto simp: path_name_def filter_id_conv)
  ultimately show ?thesis by (simp add: path_elems_def)
qed (simp add: join_with_def)

subsection \<open>Cleaning\<close>

lemma push_elem_names: "\<forall>e\<in>set (e # st). path_name e \<Longrightarrow> \<forall>x\<in>set (push_elem rooted st e). path_name x"
  by (auto simp: push_elem_def split: list.splits)

lemma foldl_push_names:
  "\<forall>e\<in>set es. path_name e \<Longrightarrow> \<forall>e\<in>set st. path_name e \<Longrightarrow> \<forall>x\<in>set (foldl (push_elem rooted) st es). path_name x"
proof (induction es arbitrary: st)
  case (Cons e es)
  have "\<forall>x\<in>set (push_elem rooted st e). path_name x"
    by (rule push_elem_names) (use Cons.prems in simp)
  with Cons.prems(1) show ?case using Cons.IH [of "push_elem rooted st e"] by simp
qed simp

lemma clean_elems_names: "\<forall>e\<in>set es. path_name e \<Longrightarrow> \<forall>x\<in>set (clean_elems rooted es). path_name x"
  using foldl_push_names [of es "[]" rooted] by (simp add: clean_elems_def)

lemma foldl_push_no_parent: "''..'' \<notin> set st \<Longrightarrow> ''..'' \<notin> set (foldl (push_elem True) st es)"
proof (induction es arbitrary: st)
  case (Cons e es)
  have "''..'' \<notin> set (push_elem True st e)" using Cons.prems by (auto simp: push_elem_def split: list.splits)
  then show ?case using Cons.IH by simp
qed simp

lemma clean_elems_no_parent: "''..'' \<notin> set (clean_elems True es)"
  using foldl_push_no_parent [of "[]" es] by (simp add: clean_elems_def)

lemma foldl_push_plain: "''..'' \<notin> set es \<Longrightarrow> foldl (push_elem rooted) st es = rev es @ st"
  by (induction es arbitrary: st) (auto simp: push_elem_def)

lemma clean_elems_plain: "''..'' \<notin> set es \<Longrightarrow> clean_elems rooted es = es"
  by (simp add: clean_elems_def foldl_push_plain)

text \<open>In a cleaned relative path the double dots come first.\<close>


definition parents_first :: "string list \<Rightarrow> bool" where
  "parents_first es \<longleftrightarrow> (\<exists>k ws. es = replicate k ''..'' @ ws \<and> ''..'' \<notin> set ws)"

lemma push_parents_first:
  assumes "parents_first (rev st)"
  shows "parents_first (rev (push_elem False st e))"
proof -
  from assms obtain k ws where st: "rev st = replicate k ''..'' @ ws" "''..'' \<notin> set ws" by (auto simp: parents_first_def)
  show ?thesis
  proof (cases "e = ''..''")
    case False
    then have "rev (push_elem False st e) = replicate k ''..'' @ (ws @ [e])" "''..'' \<notin> set (ws @ [e])"
      using st by (simp_all add: push_elem_def)
    then show ?thesis unfolding parents_first_def by blast
  next
    case True
    show ?thesis
    proof (cases ws rule: rev_cases)
      case Nil
      then have "st = replicate k ''..''" using st(1) by (metis append_Nil2 rev_replicate rev_rev_ident)
      then have "rev (push_elem False st e) = replicate (Suc k) ''..''"
        using True by (cases k) (auto simp: push_elem_def replicate_append_same)
      then show ?thesis unfolding parents_first_def by (metis append_Nil2 empty_iff list.set(1))
    next
      case (snoc vs v)
      then have "st = v # rev (replicate k ''..'' @ vs)" using st(1) by (metis append.assoc rev_eq_Cons_iff rev_rev_ident)
      then have "rev (push_elem False st e) = replicate k ''..'' @ vs" "''..'' \<notin> set vs"
        using True st(2) snoc by (auto simp: push_elem_def)
      then show ?thesis unfolding parents_first_def by blast
    qed
  qed
qed

lemma clean_elems_parents_first: "parents_first (clean_elems False es)"
proof -
  have "parents_first (rev (foldl (push_elem False) st es))" if "parents_first (rev st)" for st
    using that
  proof (induction es arbitrary: st)
    case (Cons e es)
    then show ?case using push_parents_first [of st e] by simp
  qed simp
  moreover have "parents_first []" unfolding parents_first_def by (intro exI [of _ 0] exI [of _ "[]"]) simp
  ultimately show ?thesis by (simp add: clean_elems_def)
qed

lemma foldl_push_parents: "foldl (push_elem False) (replicate j ''..'') (replicate k ''..'') = replicate (j + k) ''..''"
proof (induction k arbitrary: j)
  case (Suc k)
  have "push_elem False (replicate j ''..'') ''..'' = replicate (Suc j) ''..''"
    by (cases j) (simp_all add: push_elem_def)
  then show ?case using Suc.IH [of "Suc j"] by simp
qed simp

lemma clean_elems_stable:
  assumes "parents_first es"
  shows "clean_elems False es = es"
proof -
  from assms obtain k ws where es: "es = replicate k ''..'' @ ws" "''..'' \<notin> set ws" by (auto simp: parents_first_def)
  then show ?thesis using foldl_push_parents [of 0 k] foldl_push_plain [of ws False "replicate k ''..''"]
    by (simp add: clean_elems_def)
qed

lemma clean_clean_elems: "clean_elems rooted (clean_elems rooted es) = clean_elems rooted es"
proof (cases rooted)
  case True
  then show ?thesis using clean_elems_plain clean_elems_no_parent by simp
next
  case False
  then show ?thesis using clean_elems_stable clean_elems_parents_first by simp
qed

lemma clean_path_elems: "path_elems (clean_path p) = clean_elems (is_abs p) (path_elems p)"
proof -
  have names: "\<forall>e\<in>set (clean_elems (is_abs p) (path_elems p)). path_name e"
    by (rule clean_elems_names) (simp add: path_elems_names)
  show ?thesis
    using path_elems_join [OF names] by (auto simp: clean_path_def Let_def path_elems_def)
qed

lemma join_with_empty_iff: "\<forall>e\<in>set es. path_name e \<Longrightarrow> join_with ''/'' es = [] \<longleftrightarrow> es = []"
  by (cases es) (auto simp: join_with_def path_name_def)

lemma is_abs_clean [simp]: "is_abs (clean_path p) = is_abs p"
proof (cases "is_abs p")
  case False
  let ?es = "clean_elems False (path_elems p)"
  have names: "\<forall>e\<in>set ?es. path_name e" by (rule clean_elems_names) (simp add: path_elems_names)
  have "\<not> is_abs (join_with ''/'' ?es)"
  proof (cases ?es)
    case (Cons e es)
    then have "e \<noteq> []" "CHR ''/'' \<notin> set e" using names by (auto simp: path_name_def)
    then show ?thesis using Cons by (cases e) (auto simp: join_with_def is_abs_hd)
  qed (simp add: is_abs_def join_with_def)
  with False show ?thesis by (simp add: clean_path_def Let_def is_abs_def)
qed (simp add: clean_path_def Let_def is_abs_def)

lemma clean_path_nonempty [simp]: "clean_path p \<noteq> []"
  by (simp add: clean_path_def Let_def)

lemma clean_path_idem: "clean_path (clean_path p) = clean_path p"
  by (simp add: clean_path_def [of "clean_path p"] clean_path_elems clean_clean_elems)
    (simp add: clean_path_def Let_def)

lemma join_two:
  assumes "p \<noteq> []"
  shows "join_paths [p, q] = clean_path (p @ ''/'' @ q)"
  using assms by (simp add: join_paths_def join_with_def)

end
