(* ===== verification/Updater.thy ===== *)
theory Updater
  imports Crypto
begin

text \<open>
  The over-the-air updater of the client, \<^verbatim>\<open>internal/client/updater/updater.go\<close> and
  \<^verbatim>\<open>systemd.go\<close>: the check, the verified download, the replacement of the binary with a
  backup, and the rollback after a failed health check.

  The files are a map from paths; a rename works within one mounted file system and needs the
  directory of its target, as rename(2) does. Failures the disk may add, the master's answers,
  the clock and systemctl are arguments. Every error return of the code is a value of
  \<open>update_error\<close>.
\<close>

subsection \<open>Files\<close>

record disk_file =
  df_data :: "u8 list"
  df_mode :: nat

record file_system =
  fs_files :: "string \<rightharpoonup> disk_file"
  fs_dir :: "string \<Rightarrow> bool"
  fs_mount :: "string \<Rightarrow> nat"

datatype fs_error = Not_exist | Cross_device | Disk_error

definition os_chmod :: "string \<Rightarrow> nat \<Rightarrow> bool \<Rightarrow> file_system \<Rightarrow> fs_error option \<times> file_system" where
  "os_chmod path mode faulty fs =
     (case fs_files fs path of None \<Rightarrow> (Some Not_exist, fs)
      | Some f \<Rightarrow> if faulty then (Some Disk_error, fs)
                  else (None, fs\<lparr>fs_files := (fs_files fs)(path \<mapsto> f\<lparr>df_mode := mode\<rparr>)\<rparr>))"

definition os_rename :: "string \<Rightarrow> string \<Rightarrow> bool \<Rightarrow> file_system \<Rightarrow> fs_error option \<times> file_system" where
  "os_rename src dst faulty fs =
     (case fs_files fs src of None \<Rightarrow> (Some Not_exist, fs)
      | Some f \<Rightarrow>
          if \<not> fs_dir fs dst then (Some Not_exist, fs)
          else if fs_mount fs src \<noteq> fs_mount fs dst then (Some Cross_device, fs)
          else if faulty then (Some Disk_error, fs)
          else if src = dst then (None, fs)
          else (None, fs\<lparr>fs_files := (fs_files fs)(src := None, dst \<mapsto> f)\<rparr>))"

definition os_remove :: "string \<Rightarrow> file_system \<Rightarrow> file_system" where
  "os_remove path fs = fs\<lparr>fs_files := (fs_files fs)(path := None)\<rparr>"

text \<open>
  \<^verbatim>\<open>copyFile\<close>: the target is created with the mode of the source or truncated with its own;
  opening it may fail, and the copy may stop after some bytes.
\<close>

datatype copy_outcome = Copy_ok | Copy_open_fails | Copy_stops nat

definition copy_file :: "string \<Rightarrow> string \<Rightarrow> copy_outcome \<Rightarrow> file_system \<Rightarrow> fs_error option \<times> file_system" where
  "copy_file src dst outcome fs =
     (case fs_files fs src of None \<Rightarrow> (Some Not_exist, fs)
      | Some f \<Rightarrow>
          if \<not> fs_dir fs dst then (Some Not_exist, fs)
          else
            let mode = (case fs_files fs dst of None \<Rightarrow> df_mode f | Some g \<Rightarrow> df_mode g);
                dat = (if src = dst then [] else df_data f)
            in case outcome of
                 Copy_open_fails \<Rightarrow> (Some Disk_error, fs)
               | Copy_stops n \<Rightarrow>
                   (Some Disk_error, fs\<lparr>fs_files := (fs_files fs)(dst \<mapsto> \<lparr>df_data = take n dat, df_mode = mode\<rparr>)\<rparr>)
               | Copy_ok \<Rightarrow> (None, fs\<lparr>fs_files := (fs_files fs)(dst \<mapsto> \<lparr>df_data = dat, df_mode = mode\<rparr>)\<rparr>))"

subsection \<open>The updater\<close>

record updater_config =
  uc_master :: string
  uc_license :: string
  uc_component :: string
  uc_channel :: string
  uc_version :: string
  uc_poll :: duration
  uc_download :: duration
  uc_health :: duration
  uc_binary :: string
  uc_backup :: string

record update_info =
  ui_version :: string
  ui_url :: string
  ui_sha :: string
  ui_notes :: string

datatype updater_status = Idle | Downloading | Applying | Rolling_back

record update_state =
  us_current :: string
  us_previous :: string
  us_last_check :: gotime
  us_last_update :: gotime
  us_backup :: string
  us_status :: updater_status

record ota_updater =
  ota_config :: updater_config
  ota_state :: update_state
  ota_client_timeout :: duration
  ota_pushed :: bool

definition clamp_poll_interval :: "duration \<Rightarrow> duration" where
  "clamp_poll_interval d =
     (if d \<le> 0 then seconds 300 else if d < seconds 60 then seconds 60
      else if seconds 86400 < d then seconds 86400 else d)"

definition new_ota_updater :: "updater_config \<Rightarrow> ota_updater" where
  "new_ota_updater c0 =
     (let c = c0\<lparr>uc_poll := clamp_poll_interval (uc_poll c0),
                 uc_download := if uc_download c0 \<le> 0 then minutes 5 else uc_download c0,
                 uc_health := if uc_health c0 \<le> 0 then seconds 30 else uc_health c0\<rparr>
      in \<lparr>ota_config = c,
          ota_state = \<lparr>us_current = uc_version c, us_previous = [], us_last_check = zero_time,
                       us_last_update = zero_time, us_backup = uc_backup c, us_status = Idle\<rparr>,
          ota_client_timeout = seconds 30, ota_pushed = False\<rparr>)"

abbreviation set_status :: "updater_status \<Rightarrow> ota_updater \<Rightarrow> ota_updater" where
  "set_status st u \<equiv> u\<lparr>ota_state := (ota_state u)\<lparr>us_status := st\<rparr>\<rparr>"

datatype update_error =
    Request_failed | Bad_status nat | Bad_response
  | Nil_info | Empty_url | Empty_sha | Temp_failed | Write_failed | Sha_mismatch
  | Empty_new_path | Empty_binary_path | Empty_backup_path
  | Chmod_failed fs_error | Backup_failed fs_error | Rename_failed fs_error
  | Backup_missing | Backup_unreadable
  | Check_cancelled | Rollback_failed update_error | Restart_failed | Rolled_back

record check_request =
  cr_endpoint :: string
  cr_key :: string
  cr_component :: string
  cr_channel :: string
  cr_version :: string

definition check_request_of :: "ota_updater \<Rightarrow> check_request" where
  "check_request_of u =
     (let c = ota_config u
      in \<lparr>cr_endpoint = trim_right_char CHR ''/'' (uc_master c) @ ''/api/v1/update/check'', cr_key = uc_license c,
          cr_component = uc_component c, cr_channel = uc_channel c, cr_version = uc_version c\<rparr>)"

text \<open>The answer: none, a status, a body that does not decode, or the two decoded fields.\<close>

datatype check_answer = No_answer | Status_answer nat | Undecodable | Decoded bool "update_info option"

definition check_for_update_ota :: "check_answer \<Rightarrow> gotime \<Rightarrow> ota_updater \<Rightarrow>
    (update_error + update_info option) \<times> ota_updater" where
  "check_for_update_ota answer now u =
     (case answer of
        No_answer \<Rightarrow> (Inl Request_failed, u)
      | Status_answer code \<Rightarrow> (if code \<noteq> 200 then Inl (Bad_status code) else Inl Bad_response, u)
      | Undecodable \<Rightarrow> (Inl Bad_response, u)
      | Decoded avail info \<Rightarrow>
          let u1 = u\<lparr>ota_state := (ota_state u)\<lparr>us_last_check := now\<rparr>\<rparr>
          in if \<not> avail \<or> info = None then (Inr None, u1) else (Inr info, u1))"

text \<open>
  What the download server does: its status, what it sends and how long that takes. The
  request runs under the timeout of the HTTP client and under the download timeout.
\<close>

record download_answer =
  da_status :: "nat option"
  da_body :: "u8 list"
  da_takes :: duration
  da_complete :: bool

definition download_and_verify :: "update_info option \<Rightarrow> download_answer \<Rightarrow> string option \<Rightarrow> bool \<Rightarrow>
    ota_updater \<Rightarrow> file_system \<Rightarrow> (update_error + string) \<times> ota_updater \<times> file_system" where
  "download_and_verify info answer tmp close_ok u fs =
     (case info of None \<Rightarrow> (Inl Nil_info, u, fs)
      | Some i \<Rightarrow>
          if ui_url i = [] then (Inl Empty_url, u, fs)
          else if ui_sha i = [] then (Inl Empty_sha, u, fs)
          else
            let limit = min (uc_download (ota_config u)) (ota_client_timeout u);
                idle = set_status Idle u
            in case da_status answer of
                 None \<Rightarrow> (Inl Request_failed, idle, fs)
               | Some code \<Rightarrow>
                   if code \<noteq> 200 then (Inl (Bad_status code), idle, fs)
                   else case tmp of
                     None \<Rightarrow> (Inl Temp_failed, idle, fs)
                   | Some tmp_path \<Rightarrow>
                       let fs1 = fs\<lparr>fs_files := (fs_files fs)(tmp_path \<mapsto> \<lparr>df_data = da_body answer, df_mode = 384\<rparr>)\<rparr>
                       in if \<not> da_complete answer \<or> limit < da_takes answer
                          then (Inl Write_failed, idle, os_remove tmp_path fs1)
                          else if \<not> close_ok then (Inl Write_failed, idle, os_remove tmp_path fs1)
                          else if hex_encode (sha256 (da_body answer)) \<noteq> go_lower (trim_space (ui_sha i))
                          then (Inl Sha_mismatch, idle, os_remove tmp_path fs1)
                          else (Inr tmp_path, idle, fs1))"

definition apply_update :: "string \<Rightarrow> bool \<Rightarrow> copy_outcome \<Rightarrow> bool \<Rightarrow> gotime \<Rightarrow> ota_updater \<Rightarrow> file_system \<Rightarrow>
    update_error option \<times> ota_updater \<times> file_system" where
  "apply_update new_path chmod_fault copied rename_fault now u fs =
     (let c = ota_config u
      in if new_path = [] then (Some Empty_new_path, u, fs)
         else if uc_binary c = [] then (Some Empty_binary_path, u, fs)
         else if uc_backup c = [] then (Some Empty_backup_path, u, fs)
         else
           let idle = set_status Idle u
           in case os_chmod new_path 493 chmod_fault fs of
                (Some e, fs1) \<Rightarrow> (Some (Chmod_failed e), idle, fs1)
              | (None, fs1) \<Rightarrow>
                  let (err, fs2) = copy_file (uc_binary c) (uc_backup c) copied fs1
                  in if err \<noteq> None \<and> err \<noteq> Some Not_exist then (Some (Backup_failed (the err)), idle, fs2)
                     else case os_rename new_path (uc_binary c) rename_fault fs2 of
                            (Some e, fs3) \<Rightarrow> (Some (Rename_failed e), idle, fs3)
                          | (None, fs3) \<Rightarrow>
                              (None, idle\<lparr>ota_state := (ota_state idle)\<lparr>us_previous := us_current (ota_state idle),
                                                                      us_last_update := now\<rparr>\<rparr>, fs3))"

text \<open>\<open>stat_fault\<close>: the stat of the backup fails although it exists.\<close>

definition rollback_update :: "bool \<Rightarrow> bool \<Rightarrow> ota_updater \<Rightarrow> file_system \<Rightarrow>
    update_error option \<times> ota_updater \<times> file_system" where
  "rollback_update stat_fault rename_fault u fs =
     (let c = ota_config u
      in if uc_backup c = [] then (Some Empty_backup_path, u, fs)
         else if uc_binary c = [] then (Some Empty_binary_path, u, fs)
         else if fs_files fs (uc_backup c) = None then (Some Backup_missing, set_status Idle u, fs)
         else if stat_fault then (Some Backup_unreadable, set_status Idle u, fs)
         else case os_rename (uc_backup c) (uc_binary c) rename_fault fs of
                (Some e, fs1) \<Rightarrow> (Some (Rename_failed e), set_status Idle u, fs1)
              | (None, fs1) \<Rightarrow>
                  (None, u\<lparr>ota_state := (ota_state u)\<lparr>us_current := us_previous (ota_state u), us_previous := [],
                                                     us_status := Idle\<rparr>\<rparr>, fs1))"

text \<open>
  One round of the health check: the clock of the loop test, whether the context had ended
  before, the probe (\<open>None\<close>: an error), whether the context ended in the wait.
\<close>

record probe_round =
  pr_now :: gotime
  pr_cancelled :: bool
  pr_active :: "bool option"
  pr_cancelled_wait :: bool

datatype probe_result = Probe_passed | Probe_cancelled | Probe_timed_out

text \<open>\<open>None\<close>: the rounds given do not reach the end of the loop.\<close>

fun probe_loop :: "gotime \<Rightarrow> probe_round list \<Rightarrow> probe_result option" where
  "probe_loop deadline [] = None"
| "probe_loop deadline (r # rounds) =
     (if \<not> time_before (pr_now r) deadline then Some Probe_timed_out
      else if pr_cancelled r then Some Probe_cancelled
      else if pr_active r = Some True then Some Probe_passed
      else if pr_cancelled_wait r then Some Probe_cancelled
      else probe_loop deadline rounds)"

definition health_check_and_rollback :: "gotime \<Rightarrow> probe_round list \<Rightarrow> bool \<Rightarrow> bool \<Rightarrow> bool \<Rightarrow> ota_updater \<Rightarrow> file_system \<Rightarrow>
    (update_error option \<times> ota_updater \<times> file_system) option" where
  "health_check_and_rollback start rounds stat_fault rename_fault restart_ok u fs =
     (let timeout = (if uc_health (ota_config u) \<le> 0 then seconds 30 else uc_health (ota_config u))
      in case probe_loop (time_add start timeout) rounds of
           None \<Rightarrow> None
         | Some Probe_passed \<Rightarrow> Some (None, u, fs)
         | Some Probe_cancelled \<Rightarrow> Some (Some Check_cancelled, u, fs)
         | Some Probe_timed_out \<Rightarrow>
             (case rollback_update stat_fault rename_fault u fs of
                (Some e, u1, fs1) \<Rightarrow> Some (Some (Rollback_failed e), u1, fs1)
              | (None, u1, fs1) \<Rightarrow>
                  if \<not> restart_ok then Some (Some Restart_failed, u1, fs1) else Some (Some Rolled_back, u1, fs1)))"

text \<open>systemctl: the output of \<^verbatim>\<open>is-active\<close> when it succeeds, and the restart.\<close>

definition check_systemd_active :: "string \<Rightarrow> string option \<Rightarrow> bool option" where
  "check_systemd_active service out =
     (if service = [] then None
      else case out of None \<Rightarrow> Some False | Some s \<Rightarrow> Some (trim_space s = ''active''))"

definition restart_systemd_service :: "string \<Rightarrow> bool \<Rightarrow> bool" where
  "restart_systemd_service service ok = (if service = [] then False else ok)"

text \<open>The loop: a push while one is pending is dropped; a tick or a pending push checks.\<close>

definition trigger_update_check :: "ota_updater \<Rightarrow> ota_updater" where
  "trigger_update_check u = (if ota_pushed u then u else u\<lparr>ota_pushed := True\<rparr>)"

definition perform_update_check :: "check_answer \<Rightarrow> gotime \<Rightarrow> ota_updater \<Rightarrow> ota_updater" where
  "perform_update_check answer now u = snd (check_for_update_ota answer now u)"

datatype run_event = Ticked check_answer gotime | Pushed check_answer gotime | Trigger

fun updater_run :: "run_event list \<Rightarrow> ota_updater \<Rightarrow> ota_updater" where
  "updater_run [] u = u"
| "updater_run (Ticked answer now # evs) u = updater_run evs (perform_update_check answer now u)"
| "updater_run (Pushed answer now # evs) u =
     updater_run evs (if ota_pushed u then perform_update_check answer now (u\<lparr>ota_pushed := False\<rparr>) else u)"
| "updater_run (Trigger # evs) u = updater_run evs (trigger_update_check u)"


subsection \<open>The download\<close>

lemma new_ota_client_timeout: "ota_client_timeout (new_ota_updater c) = seconds 30"
  by (simp add: new_ota_updater_def Let_def)

text \<open>
  What the download hands over is what the master announced: a path is returned only for a
  file whose SHA-256, in hexadecimal, is the announced one (case and surrounding space aside)
  and that arrived within the smaller of the download timeout and the 30 seconds of the HTTP
  client; in every other case the files are as before, the partial file removed.
\<close>

theorem download_verified:
  assumes "download_and_verify info answer tmp close_ok u fs = (r, u', fs')"
    "case tmp of None \<Rightarrow> True | Some t \<Rightarrow> fs_files fs t = None"
  shows "case r of
      Inr path \<Rightarrow> \<exists>i f. info = Some i \<and> tmp = Some path \<and> fs_files fs' = (fs_files fs)(path \<mapsto> f) \<and>
        hex_encode (sha256 (df_data f)) = go_lower (trim_space (ui_sha i)) \<and>
        da_takes answer \<le> min (uc_download (ota_config u)) (ota_client_timeout u)
    | Inl e \<Rightarrow> fs_files fs' = fs_files fs"
  using assms
  by (auto simp: download_and_verify_def os_remove_def Let_def fun_upd_idem split: option.splits if_splits)
    (rule exI [of _ "\<lparr>df_data = da_body answer, df_mode = 384\<rparr>"], simp add: min_def split: if_splits)

definition demo_info :: update_info where
  "demo_info = \<lparr>ui_version = ''2.0'', ui_url = ''http://m/a'',
     ui_sha = '' '' @ hex_encode (sha256 []), ui_notes = []\<rparr>"

definition demo_ota :: ota_updater where
  "demo_ota = new_ota_updater \<lparr>uc_master = ''http://m/'', uc_license = ''k'', uc_component = ''client'',
     uc_channel = ''stable'', uc_version = ''1.0'', uc_poll = 0, uc_download = 0, uc_health = 0,
     uc_binary = ''/bin/w'', uc_backup = ''/var/w.bak''\<rparr>"

definition demo_fs :: file_system where
  "demo_fs = \<lparr>fs_files = [''/bin/w'' \<mapsto> \<lparr>df_data = [1, 2], df_mode = 493\<rparr>, ''/tmp/u'' \<mapsto> \<lparr>df_data = [7], df_mode = 384\<rparr>],
     fs_dir = (\<lambda>_. True), fs_mount = (\<lambda>_. 0)\<rparr>"

theorem download_verified_witness:
  "fs_files (snd (snd (download_and_verify (Some demo_info)
     \<lparr>da_status = Some 404, da_body = [], da_takes = 0, da_complete = True\<rparr> (Some ''/tmp/v'') True demo_ota demo_fs)))
   = fs_files demo_fs"
proof -
  let ?a = "\<lparr>da_status = Some 404, da_body = [], da_takes = 0, da_complete = True\<rparr>"
  have r: "download_and_verify (Some demo_info) ?a (Some ''/tmp/v'') True demo_ota demo_fs =
      (Inl (Bad_status 404), set_status Idle demo_ota, demo_fs)"
    by (simp add: download_and_verify_def demo_info_def hex_encode_def Let_def)
  have "case Some ''/tmp/v'' of None \<Rightarrow> True | Some t \<Rightarrow> fs_files demo_fs t = None"
    by (simp add: demo_fs_def)
  from download_verified [OF r this] r show ?thesis by simp
qed

subsection \<open>Replacement and rollback\<close>

lemma os_chmod_ok:
  "os_chmod path mode faulty fs = (None, fs') \<Longrightarrow> \<exists>f. fs_files fs path = Some f \<and>
     fs' = fs\<lparr>fs_files := (fs_files fs)(path \<mapsto> f\<lparr>df_mode := mode\<rparr>)\<rparr>"
  by (auto simp: os_chmod_def split: option.splits if_splits)

lemma os_chmod_fails: "os_chmod path mode faulty fs = (Some e, fs') \<Longrightarrow> fs' = fs"
  by (auto simp: os_chmod_def split: option.splits if_splits)

lemma os_rename_ok:
  "os_rename src dst faulty fs = (None, fs') \<Longrightarrow> src \<noteq> dst \<Longrightarrow> fs_files fs' dst = fs_files fs src \<and>
     fs_files fs src \<noteq> None \<and> (\<forall>p. p \<noteq> src \<longrightarrow> p \<noteq> dst \<longrightarrow> fs_files fs' p = fs_files fs p)"
  by (auto simp: os_rename_def split: option.splits if_splits)

lemma os_rename_fails: "os_rename src dst faulty fs = (Some e, fs') \<Longrightarrow> fs' = fs"
  by (auto simp: os_rename_def split: option.splits if_splits)

lemma copy_file_other: "p \<noteq> dst \<Longrightarrow> fs_files (snd (copy_file src dst o1 fs)) p = fs_files fs p"
  by (auto simp: copy_file_def Let_def split: option.splits copy_outcome.splits)

lemma copy_file_result:
  assumes "fs_files fs src = Some f" "fs_dir fs dst" "src \<noteq> dst"
  shows "fst (copy_file src dst o1 fs) \<noteq> Some Not_exist"
    and "fst (copy_file src dst o1 fs) = None \<Longrightarrow>
      \<exists>m. fs_files (snd (copy_file src dst o1 fs)) dst = Some \<lparr>df_data = df_data f, df_mode = m\<rparr>"
  using assms by (auto simp: copy_file_def Let_def split: copy_outcome.splits)

lemma apply_success:
  assumes "apply_update new_path cf copied rf now u fs = (None, u1, fs1)"
  shows "\<exists>f fsa err fsb. fs_files fs new_path = Some f \<and>
    fsa = fs\<lparr>fs_files := (fs_files fs)(new_path \<mapsto> f\<lparr>df_mode := 493\<rparr>)\<rparr> \<and>
    copy_file (uc_binary (ota_config u)) (uc_backup (ota_config u)) copied fsa = (err, fsb) \<and>
    (err = None \<or> err = Some Not_exist) \<and> os_rename new_path (uc_binary (ota_config u)) rf fsb = (None, fs1) \<and>
    ota_config u1 = ota_config u \<and> us_previous (ota_state u1) = us_current (ota_state u)"
  using assms
  by (auto simp: apply_update_def Let_def split: if_splits prod.splits option.splits dest!: os_chmod_ok)

lemma apply_failure:
  assumes "apply_update new_path cf copied rf now u fs = (Some e, u1, fs1)"
    "p \<noteq> new_path" "p \<noteq> uc_backup (ota_config u)"
  shows "fs_files fs1 p = fs_files fs p"
  using assms copy_file_other [OF assms(3), of "uc_binary (ota_config u)" copied]
  by (auto simp: apply_update_def Let_def split: if_splits prod.splits option.splits
      dest!: os_chmod_ok os_chmod_fails os_rename_fails) (metis fun_upd_other snd_conv file_system.select_convs(1) file_system.surjective file_system.update_convs(1))+




text \<open>
  Without the backup directory an update goes through unprotected: the missing directory is
  taken for a missing binary (both are "does not exist"), so the binary is replaced, no backup
  is made, and every rollback afterwards fails and leaves the new binary.
\<close>

theorem update_without_backup_directory:
  assumes "bin = uc_binary (ota_config u)" "bak = uc_backup (ota_config u)" "bin \<noteq> []" "bak \<noteq> []" "new_path \<noteq> []"
    "bin \<noteq> bak" "new_path \<noteq> bin" "new_path \<noteq> bak" "fs_files fs new_path = Some f"
    "\<not> fs_dir fs bak" "fs_files fs bak = None" "fs_dir fs bin" "fs_mount fs new_path = fs_mount fs bin"
    "apply_update new_path False copied False now u fs = (r, u1, fs1)"
    "rollback_update sf rf' u1 fs1 = (r', u2, fs2)"
  shows "r = None \<and> fs_files fs1 bin = Some (f\<lparr>df_mode := 493\<rparr>) \<and> r' = Some Backup_missing \<and>
    fs_files fs2 bin = Some (f\<lparr>df_mode := 493\<rparr>)"
  using assms
  by (auto simp: apply_update_def rollback_update_def os_chmod_def copy_file_def os_rename_def Let_def
      split: option.splits prod.splits if_splits)

theorem update_without_backup_directory_witness:
  "fst (apply_update ''/tmp/u'' False Copy_ok False 0 demo_ota (demo_fs\<lparr>fs_dir := (\<lambda>p. p \<noteq> ''/var/w.bak'')\<rparr>)) = None"
proof -
  let ?fs = "demo_fs\<lparr>fs_dir := (\<lambda>p. p \<noteq> ''/var/w.bak'')\<rparr>"
  obtain r u1 fs1 where a: "apply_update ''/tmp/u'' False Copy_ok False 0 demo_ota ?fs = (r, u1, fs1)"
    by (metis prod.exhaust)
  obtain r' u2 fs2 where b: "rollback_update False False u1 fs1 = (r', u2, fs2)" by (metis prod.exhaust)
  from update_without_backup_directory [OF refl refl _ _ _ _ _ _ _ _ _ _ _ a b, of "\<lparr>df_data = [7], df_mode = 384\<rparr>"] a
  show ?thesis by (simp add: demo_ota_def new_ota_updater_def demo_fs_def Let_def)
qed

text \<open>
  The download goes to the directory for temporary files; when that is another file system
  than the one of the binary, every update fails at the rename.
\<close>

lemma update_across_devices:
  assumes "fs_mount fs new_path \<noteq> fs_mount fs (uc_binary (ota_config u))"
  shows "fst (apply_update new_path cf copied rf now u fs) \<noteq> None"
proof
  assume "fst (apply_update new_path cf copied rf now u fs) = None"
  then obtain u1 fs1 where a: "apply_update new_path cf copied rf now u fs = (None, u1, fs1)"
    by (metis prod.exhaust_sel)
  from apply_success [OF a] obtain f fsb err where
    b: "copy_file (uc_binary (ota_config u)) (uc_backup (ota_config u)) copied
       (fs\<lparr>fs_files := (fs_files fs)(new_path \<mapsto> f\<lparr>df_mode := 493\<rparr>)\<rparr>) = (err, fsb)"
      "os_rename new_path (uc_binary (ota_config u)) rf fsb = (None, fs1)" by blast
  from b(1) have "fs_mount fsb = fs_mount fs"
    by (auto simp: copy_file_def Let_def split: option.splits if_splits copy_outcome.splits)
  with b(2) assms show False by (auto simp: os_rename_def split: option.splits if_splits)
qed

text \<open>The version reported after an update is still the old one.\<close>

lemma version_not_updated:
  "apply_update new_path cf copied rf now u fs = (None, u1, fs1) \<Longrightarrow>
     us_current (ota_state u1) = us_current (ota_state u) \<and> us_previous (ota_state u1) = us_current (ota_state u)"
  by (auto simp: apply_update_def Let_def split: if_splits prod.splits option.splits)

subsection \<open>The health check\<close>

text \<open>The rounds are at least two seconds apart.\<close>

fun spaced :: "gotime \<Rightarrow> probe_round list \<Rightarrow> bool" where
  "spaced t [] = True"
| "spaced t (r # rounds) = (t \<le> pr_now r \<and> spaced (pr_now r + 2 * nanos) rounds)"

lemma probe_loop_ends:
  "spaced t rounds \<Longrightarrow> deadline \<le> t + int (length rounds - 1) * (2 * nanos) \<Longrightarrow> rounds \<noteq> [] \<Longrightarrow>
     probe_loop deadline rounds \<noteq> None"
proof (induction rounds arbitrary: t)
  case (Cons r rounds)
  show ?case
  proof (cases "rounds = []")
    case True
    with Cons.prems show ?thesis by (auto simp: time_before_def)
  next
    case False
    then have len: "int (length (r # rounds) - 1) = int (length rounds - 1) + 1" by (cases rounds) auto
    have "deadline \<le> (pr_now r + 2 * nanos) + int (length rounds - 1) * (2 * nanos)"
      using Cons.prems(1,2) unfolding len by (simp add: algebra_simps)
    with Cons.IH [of "pr_now r + 2 * nanos"] Cons.prems False show ?thesis by auto
  qed
qed simp

text \<open>
  The health check comes to an end, within half the timeout in seconds plus two rounds of
  probes (the rounds being two seconds apart), and it rolls back exactly when no probe before
  the deadline found the service active and the context did not end.
\<close>

theorem health_check_ends:
  assumes "spaced start rounds" "uc_health (ota_config u) = timeout" "0 < timeout"
    "timeout \<le> int (length rounds - 1) * (2 * nanos)" "rounds \<noteq> []"
  shows "\<exists>r u' fs'. health_check_and_rollback start rounds sf rf ok u fs = Some (r, u', fs') \<and>
    (r = None \<longrightarrow> fs' = fs \<and> (\<exists>p\<in>set rounds. pr_active p = Some True \<and> pr_now p < start + timeout)) \<and>
    (fs' \<noteq> fs \<longrightarrow> r \<noteq> None \<and> (\<exists>p\<in>set rounds. start + timeout \<le> pr_now p))"
proof -
  have passed: "probe_loop d rs = Some Probe_passed \<Longrightarrow> \<exists>p\<in>set rs. pr_active p = Some True \<and> pr_now p < d" for d rs
    by (induction rs) (auto simp: time_before_def split: if_splits)
  have timed: "probe_loop d rs = Some Probe_timed_out \<Longrightarrow> \<exists>p\<in>set rs. d \<le> pr_now p" for d rs
    by (induction rs) (auto simp: time_before_def split: if_splits)
  obtain res where p: "probe_loop (start + timeout) rounds = Some res"
    using probe_loop_ends [OF assms(1) _ assms(5), of "start + timeout"] assms(4) by auto
  obtain r1 u1 fs1 where rb: "rollback_update sf rf u fs = (r1, u1, fs1)" by (metis prod.exhaust)
  show ?thesis
  proof (cases res)
    case Probe_passed
    with p passed assms show ?thesis by (auto simp: health_check_and_rollback_def time_add_def)
  next
    case Probe_cancelled
    with p assms show ?thesis by (auto simp: health_check_and_rollback_def time_add_def)
  next
    case Probe_timed_out
    with p rb timed assms show ?thesis
      by (cases r1; cases ok) (auto simp: health_check_and_rollback_def time_add_def)
  qed
qed

theorem health_check_ends_witness:
  "health_check_and_rollback 0 (map (\<lambda>k. \<lparr>pr_now = k * 2 * nanos, pr_cancelled = False, pr_active = Some False,
     pr_cancelled_wait = False\<rparr>) [0..15]) False False True demo_ota demo_fs \<noteq> None"
proof -
  let ?rounds = "map (\<lambda>k. \<lparr>pr_now = k * 2 * nanos, pr_cancelled = False, pr_active = Some False,
     pr_cancelled_wait = False\<rparr>) [0..15]"
  have upto: "[0..15::int] = [0,1,2,3,4,5,6,7,8,9,10,11,12,13,14,15]" by (simp add: upto.simps)
  have "spaced 0 ?rounds" "?rounds \<noteq> []" "seconds 30 \<le> int (length ?rounds - 1) * (2 * nanos)"
    unfolding upto by (simp_all add: nanos_def seconds_def i64_def)
  moreover have "uc_health (ota_config demo_ota) = seconds 30" "0 < seconds 30"
    by (simp_all add: demo_ota_def new_ota_updater_def Let_def seconds_def i64_def nanos_def)
  ultimately show ?thesis using health_check_ends [of 0 ?rounds demo_ota "seconds 30"] by blast
qed

end
