(* ===== verification/FileSteps.thy ===== *)
theory FileSteps
  imports GoPath Updater
begin

text \<open>
  Files replaced through a temporary file, one system call at a time: the pattern of
  \<^verbatim>\<open>copyFile\<close> in \<^verbatim>\<open>internal/shared/update/apply.go\<close>, of
  \<^verbatim>\<open>DownloadURL\<close> in \<^verbatim>\<open>download.go\<close> and of \<^verbatim>\<open>WriteJSONAtomic\<close>
  in \<^verbatim>\<open>internal/shared/storage/storage.go\<close>.

  Every call takes its outcome from a script. It succeeds, with the number that CreateTemp draws
  or the number of bytes a write stores; it fails, a write after some bytes; or, where the script
  ends, the process is killed before it. Temporary files are files of the disk, and stay there when
  the process is killed. A disk knows which files were never synced: none of the three functions
  calls Sync, so what a killed process has written is in the page cache, and is lost when the
  machine loses its power. Directories are not kept, a path is the name of one file, and only this
  process writes.
\<close>

subsection \<open>The disk and the calls\<close>

record apply_disk =
  ad_files :: "string \<rightharpoonup> disk_file"
  ad_unsynced :: "string set"

datatype op_outcome = Op_ok nat | Op_fails nat
datatype disk_answer = Stopped | Failed | Fine

type_synonym scripted = "apply_disk \<times> op_outcome list"

definition and_then :: "(scripted \<Rightarrow> disk_answer \<times> scripted) \<Rightarrow> (scripted \<Rightarrow> disk_answer \<times> scripted) \<Rightarrow>
    scripted \<Rightarrow> disk_answer \<times> scripted" where
  "and_then f g s = (case f s of (Fine, s1) \<Rightarrow> g s1 | (Stopped, s1) \<Rightarrow> (Stopped, s1) | (Failed, s1) \<Rightarrow> (Failed, s1))"

definition attempt :: "(apply_disk \<Rightarrow> apply_disk) \<Rightarrow> scripted \<Rightarrow> disk_answer \<times> scripted" where
  "attempt change = (\<lambda>(fs, script).
     (case script of
        [] \<Rightarrow> (Stopped, fs, [])
      | Op_fails n # os \<Rightarrow> (Failed, fs, os)
      | Op_ok n # os \<Rightarrow> (Fine, change fs, os)))"

definition delete_file :: "string \<Rightarrow> apply_disk \<Rightarrow> apply_disk" where
  "delete_file path fs = fs\<lparr>ad_files := (ad_files fs)(path := None), ad_unsynced := ad_unsynced fs - {path}\<rparr>"

definition store_file :: "string \<Rightarrow> disk_file \<Rightarrow> apply_disk \<Rightarrow> apply_disk" where
  "store_file path f fs = fs\<lparr>ad_files := (ad_files fs)(path \<mapsto> f), ad_unsynced := insert path (ad_unsynced fs)\<rparr>"

definition change_mode :: "string \<Rightarrow> nat \<Rightarrow> apply_disk \<Rightarrow> apply_disk" where
  "change_mode path m fs =
     (case ad_files fs path of None \<Rightarrow> fs | Some f \<Rightarrow> fs\<lparr>ad_files := (ad_files fs)(path \<mapsto> f\<lparr>df_mode := m\<rparr>)\<rparr>)"

definition move_file :: "string \<Rightarrow> string \<Rightarrow> apply_disk \<Rightarrow> apply_disk" where
  "move_file src dst fs =
     (case ad_files fs src of
        None \<Rightarrow> fs
      | Some f \<Rightarrow> if src = dst then fs
                  else fs\<lparr>ad_files := (ad_files fs)(src := None, dst \<mapsto> f),
                          ad_unsynced := (if src \<in> ad_unsynced fs then insert dst (ad_unsynced fs)
                                          else ad_unsynced fs - {dst}) - {src}\<rparr>)"

definition remove_file :: "string \<Rightarrow> scripted \<Rightarrow> disk_answer \<times> scripted" where
  "remove_file path s = (if ad_files (fst s) path = None then (Failed, s) else attempt (delete_file path) s)"

definition mkdir_all :: "scripted \<Rightarrow> disk_answer \<times> scripted" where
  "mkdir_all = attempt id"

definition dir_name :: "string \<Rightarrow> string" where
  "dir_name path = clean_path (case last_index CHR ''/'' path of None \<Rightarrow> [] | Some i \<Rightarrow> take (Suc i) path)"

definition temp_name :: "string \<Rightarrow> string \<Rightarrow> string \<Rightarrow> nat \<Rightarrow> string" where
  "temp_name dir pre suf n =
     (if dir \<noteq> [] \<and> List.last dir = CHR ''/'' then dir else dir @ ''/'') @ pre @ fmt_nat (int n) @ suf"

text \<open>
  \<^verbatim>\<open>os.CreateTemp\<close> draws a number until the name is free, at most 10000 times; the file is
  created empty, for its owner only.
\<close>

fun create_temp :: "string \<Rightarrow> string \<Rightarrow> string \<Rightarrow> nat \<Rightarrow> scripted \<Rightarrow> disk_answer \<times> string \<times> scripted" where
  "create_temp dir pre suf tries (fs, []) = (Stopped, [], fs, [])"
| "create_temp dir pre suf tries (fs, Op_fails n # os) = (Failed, [], fs, os)"
| "create_temp dir pre suf tries (fs, Op_ok n # os) =
     (let tmp = temp_name dir pre suf n
      in if ad_files fs tmp = None then (Fine, tmp, store_file tmp \<lparr>df_data = [], df_mode = 384\<rparr> fs, os)
         else if Suc tries < 10000 then create_temp dir pre suf (Suc tries) (fs, os)
         else (Failed, [], fs, os))"

definition add_bytes :: "string \<Rightarrow> u8 list \<Rightarrow> apply_disk \<Rightarrow> apply_disk" where
  "add_bytes path bs fs =
     (case ad_files fs path of None \<Rightarrow> fs | Some f \<Rightarrow> store_file path (f\<lparr>df_data := df_data f @ bs\<rparr>) fs)"

text \<open>A copy writes a piece at a time; each piece has at least one byte.\<close>

fun write_out :: "string \<Rightarrow> u8 list \<Rightarrow> scripted \<Rightarrow> disk_answer \<times> scripted" where
  "write_out tmp [] (fs, script) = (Fine, fs, script)"
| "write_out tmp (b # bs) (fs, []) = (Stopped, fs, [])"
| "write_out tmp (b # bs) (fs, Op_fails n # os) = (Failed, add_bytes tmp (take n (b # bs)) fs, os)"
| "write_out tmp (b # bs) (fs, Op_ok n # os) = write_out tmp (drop n bs) (add_bytes tmp (b # take n bs) fs, os)"

subsection \<open>The pattern\<close>

definition or_discard :: "string \<Rightarrow> (scripted \<Rightarrow> disk_answer \<times> scripted) \<Rightarrow> scripted \<Rightarrow> disk_answer \<times> scripted" where
  "or_discard tmp f s =
     (case f s of
        (Failed, s1) \<Rightarrow> (case remove_file tmp s1 of (Stopped, s2) \<Rightarrow> (Stopped, s2) | (_, s2) \<Rightarrow> (Failed, s2))
      | (r, s1) \<Rightarrow> (r, s1))"

text \<open>The file is closed also where the write failed; \<open>ok\<close> says that the source of the bytes ended without an error.\<close>

definition write_and_close :: "string \<Rightarrow> u8 list \<Rightarrow> bool \<Rightarrow> scripted \<Rightarrow> disk_answer \<times> scripted" where
  "write_and_close tmp bs ok s =
     (case write_out tmp bs s of
        (Stopped, s1) \<Rightarrow> (Stopped, s1)
      | (r, s1) \<Rightarrow> (case attempt id s1 of (Fine, s2) \<Rightarrow> (if ok then r else Failed, s2) | (q, s2) \<Rightarrow> (q, s2)))"

definition set_mode :: "string \<Rightarrow> nat option \<Rightarrow> scripted \<Rightarrow> disk_answer \<times> scripted" where
  "set_mode tmp perm s = (case perm of None \<Rightarrow> (Fine, s) | Some m \<Rightarrow> attempt (change_mode tmp m) s)"

definition place_file :: "string \<Rightarrow> string \<Rightarrow> u8 list \<Rightarrow> bool \<Rightarrow> nat option \<Rightarrow> scripted \<Rightarrow> disk_answer \<times> scripted" where
  "place_file tmp dst bs ok perm =
     or_discard tmp (and_then (write_and_close tmp bs ok)
       (and_then (set_mode tmp perm) (attempt (move_file tmp dst))))"

definition write_through :: "string \<Rightarrow> string \<Rightarrow> string \<Rightarrow> u8 list \<Rightarrow> bool \<Rightarrow> nat option \<Rightarrow> scripted \<Rightarrow>
    disk_answer \<times> scripted" where
  "write_through pre suf dst bs ok perm =
     and_then mkdir_all (\<lambda>s.
       (case create_temp (dir_name dst) pre suf 0 s of
          (Fine, tmp, s1) \<Rightarrow> place_file tmp dst bs ok perm s1
        | (r, _, s1) \<Rightarrow> (r, s1)))"

subsection \<open>What the pattern does\<close>

definition keeps :: "string set \<Rightarrow> apply_disk \<Rightarrow> apply_disk \<Rightarrow> bool" where
  "keeps D fs fs' \<longleftrightarrow> (\<forall>p. p \<notin> D \<longrightarrow> ad_files fs p \<noteq> None \<longrightarrow>
     ad_files fs' p = ad_files fs p \<and> (p \<in> ad_unsynced fs' \<longleftrightarrow> p \<in> ad_unsynced fs))"

lemma keepsD: "keeps D fs fs' \<Longrightarrow> p \<notin> D \<Longrightarrow> ad_files fs p = Some f \<Longrightarrow> ad_files fs' p = Some f"
  by (simp add: keeps_def)

lemma keeps_unsynced: "keeps D fs fs' \<Longrightarrow> p \<notin> D \<Longrightarrow> ad_files fs p = Some f \<Longrightarrow> p \<in> ad_unsynced fs' \<longleftrightarrow> p \<in> ad_unsynced fs"
  by (simp add: keeps_def)

lemma keeps_refl [simp]: "keeps D fs fs"
  by (simp add: keeps_def)

lemma keeps_trans: "keeps D fs fs' \<Longrightarrow> keeps E fs' fs'' \<Longrightarrow> keeps (D \<union> E) fs fs''"
  by (simp add: keeps_def)

lemma keeps_mono: "keeps D fs fs' \<Longrightarrow> D \<subseteq> E \<Longrightarrow> keeps E fs fs'"
  by (auto simp: keeps_def)

lemma attempt_cases:
  obtains os where "attempt change (fs, script) = (Stopped, fs, os)"
  | os where "attempt change (fs, script) = (Failed, fs, os)"
  | os where "attempt change (fs, script) = (Fine, change fs, os)"
  by (cases script; cases "hd script") (auto simp: attempt_def)

text \<open>What happens to one file, \<open>tmp\<close>, while all others stay as they are.\<close>

definition only :: "string \<Rightarrow> apply_disk \<Rightarrow> apply_disk \<Rightarrow> bool" where
  "only tmp fs fs' \<longleftrightarrow> (\<forall>p. p \<noteq> tmp \<longrightarrow> ad_files fs' p = ad_files fs p \<and> (p \<in> ad_unsynced fs' \<longleftrightarrow> p \<in> ad_unsynced fs))"

lemma only_refl [simp]: "only tmp fs fs"
  by (simp add: only_def)

lemma only_trans: "only tmp fs fs' \<Longrightarrow> only tmp fs' fs'' \<Longrightarrow> only tmp fs fs''"
  by (simp add: only_def)

lemma only_changes [simp]:
  "only tmp fs (delete_file tmp fs)" "only tmp fs (store_file tmp f fs)" "only tmp fs (change_mode tmp m fs)"
  "only tmp fs (add_bytes tmp bs fs)"
  by (auto simp: only_def delete_file_def store_file_def change_mode_def add_bytes_def split: option.splits)

lemma move_file_elsewhere:
  "p \<noteq> src \<Longrightarrow> p \<noteq> dst \<Longrightarrow>
    ad_files (move_file src dst fs) p = ad_files fs p \<and> (p \<in> ad_unsynced (move_file src dst fs) \<longleftrightarrow> p \<in> ad_unsynced fs)"
  by (auto simp: move_file_def split: option.splits)

lemma write_out_only:
  assumes "write_out tmp bs (fs, script) = (r, fs', rest)" "ad_files fs tmp = Some f" "tmp \<in> ad_unsynced fs"
  shows "only tmp fs fs' \<and> tmp \<in> ad_unsynced fs' \<and> ad_files fs' tmp \<noteq> None \<and>
    (r = Fine \<longrightarrow> ad_files fs' tmp = Some (f\<lparr>df_data := df_data f @ bs\<rparr>))"
  using assms
proof (induction tmp bs "(fs, script)" arbitrary: fs script f rule: write_out.induct)
  case (4 tmp b bs fs n os)
  let ?g = "f\<lparr>df_data := df_data f @ b # take n bs\<rparr>"
  have stored: "add_bytes tmp (b # take n bs) fs = store_file tmp ?g fs" using 4(3) by (simp add: add_bytes_def)
  have "only tmp (add_bytes tmp (b # take n bs) fs) fs' \<and> tmp \<in> ad_unsynced fs' \<and> ad_files fs' tmp \<noteq> None \<and>
    (r = Fine \<longrightarrow> ad_files fs' tmp = Some (?g\<lparr>df_data := df_data ?g @ drop n bs\<rparr>))"
    by (rule 4(1)) (use 4(2) in \<open>simp_all add: stored, simp_all add: store_file_def\<close>)
  then show ?case using only_trans [OF only_changes(4) [of tmp fs "b # take n bs"]] by auto
qed (auto simp: add_bytes_def store_file_def only_def)

lemma write_and_close_only:
  assumes "write_and_close tmp bs ok (fs, script) = (r, fs', rest)" "ad_files fs tmp = Some f" "tmp \<in> ad_unsynced fs"
  shows "only tmp fs fs' \<and> tmp \<in> ad_unsynced fs' \<and> ad_files fs' tmp \<noteq> None \<and>
    (r = Fine \<longrightarrow> ok \<and> ad_files fs' tmp = Some (f\<lparr>df_data := df_data f @ bs\<rparr>))"
proof -
  obtain q d os where w: "write_out tmp bs (fs, script) = (q, d, os)" by (metis prod_cases3)
  note out = write_out_only [OF w assms(2,3)]
  show ?thesis
    by (rule attempt_cases [of id d os]; cases q)
      (use assms(1) out in \<open>auto simp: write_and_close_def w split: if_splits\<close>)
qed

lemma place_file_effect:
  assumes "place_file tmp dst bs ok perm (fs, script) = (r, fs', rest)" "ad_files fs tmp = Some \<lparr>df_data = [], df_mode = 384\<rparr>"
    "tmp \<in> ad_unsynced fs"
  shows "(\<forall>p. p \<noteq> tmp \<and> p \<noteq> dst \<longrightarrow> ad_files fs' p = ad_files fs p \<and> (p \<in> ad_unsynced fs' \<longleftrightarrow> p \<in> ad_unsynced fs))"
    and "r \<noteq> Fine \<Longrightarrow> only tmp fs fs'"
    and "r = Fine \<Longrightarrow> ok \<and> ad_files fs' dst = Some \<lparr>df_data = bs, df_mode = (case perm of None \<Rightarrow> 384 | Some m \<Rightarrow> m)\<rparr> \<and>
       dst \<in> ad_unsynced fs'"
proof -
  let ?f = "\<lparr>df_data = [], df_mode = 384\<rparr> :: disk_file"
  let ?m = "case perm of None \<Rightarrow> 384 | Some m \<Rightarrow> m"
  let ?inner = "and_then (write_and_close tmp bs ok) (and_then (set_mode tmp perm) (attempt (move_file tmp dst)))"
  obtain q d os where w: "write_and_close tmp bs ok (fs, script) = (q, d, os)" by (metis prod_cases3)
  note close = write_and_close_only [OF w assms(2,3)]
  obtain q1 d1 os1 where m: "set_mode tmp perm (d, os) = (q1, d1, os1)" by (metis prod_cases3)
  have mode: "only tmp fs d1 \<and> tmp \<in> ad_unsynced d1 \<and> ad_files d1 tmp \<noteq> None \<and>
      (q = Fine \<longrightarrow> q1 = Fine \<longrightarrow> ad_files d1 tmp = Some \<lparr>df_data = bs, df_mode = ?m\<rparr>)"
  proof (cases perm)
    case None
    then show ?thesis using m close by (auto simp: set_mode_def)
  next
    case (Some k)
    show ?thesis
      by (rule attempt_cases [of "change_mode tmp k" d os])
        (use m close only_trans [OF _ only_changes(3), of tmp fs d] in
          \<open>auto simp: Some set_mode_def change_mode_def split: option.splits\<close>)
  qed
  have inner: "\<exists>s2 os2. ?inner (fs, script) = (s2, os2) \<and>
      ((s2 = Fine \<and> ok \<and> (\<exists>d2. only tmp fs d2 \<and> tmp \<in> ad_unsynced d2 \<and>
          ad_files d2 tmp = Some \<lparr>df_data = bs, df_mode = ?m\<rparr> \<and> fst os2 = move_file tmp dst d2)) \<or>
       (s2 \<noteq> Fine \<and> only tmp fs (fst os2)))"
    by (cases q; cases q1; rule attempt_cases [of "move_file tmp dst" d1 os1])
      (use w close m mode in \<open>auto simp: and_then_def\<close>)
  then obtain s2 d2 os2 where i: "?inner (fs, script) = (s2, d2, os2)"
    and fine: "s2 = Fine \<Longrightarrow> ok \<and> (\<exists>d3. only tmp fs d3 \<and> tmp \<in> ad_unsynced d3 \<and>
          ad_files d3 tmp = Some \<lparr>df_data = bs, df_mode = ?m\<rparr> \<and> d2 = move_file tmp dst d3)"
    and bad: "s2 \<noteq> Fine \<Longrightarrow> only tmp fs d2" by (metis fst_conv surj_pair)
  have discard: "only tmp d2 d' \<and> r' \<noteq> Fine"
    if "(case remove_file tmp (d2, os2) of (Stopped, s3) \<Rightarrow> (Stopped, s3) | (_, s3) \<Rightarrow> (Failed, s3)) = (r', d', rest')"
    for r' d' rest'
    by (rule attempt_cases [of "delete_file tmp" d2 os2])
      (use that in \<open>auto simp: remove_file_def split: if_splits\<close>)
  have cases: "(s2 = Fine \<and> r = Fine \<and> fs' = d2) \<or> (s2 \<noteq> Fine \<and> r \<noteq> Fine \<and> only tmp fs fs')"
    using assms(1) bad discard [of r fs' rest] only_trans [of tmp fs d2 fs']
    by (cases s2) (auto simp: place_file_def or_discard_def i)
  show "\<forall>p. p \<noteq> tmp \<and> p \<noteq> dst \<longrightarrow> ad_files fs' p = ad_files fs p \<and> (p \<in> ad_unsynced fs' \<longleftrightarrow> p \<in> ad_unsynced fs)"
    using cases fine move_file_elsewhere [of _ tmp dst] by (auto simp: only_def)
  show "r \<noteq> Fine \<Longrightarrow> only tmp fs fs'" using cases by auto
  show "r = Fine \<Longrightarrow> ok \<and> ad_files fs' dst = Some \<lparr>df_data = bs, df_mode = ?m\<rparr> \<and> dst \<in> ad_unsynced fs'"
    using cases fine by (auto simp: move_file_def)
qed

lemma create_temp_effect:
  assumes "create_temp dir pre suf tries (fs, script) = (r, tmp, fs', rest)"
  shows "(r \<noteq> Fine \<longrightarrow> fs' = fs) \<and>
    (r = Fine \<longrightarrow> ad_files fs tmp = None \<and> fs' = store_file tmp \<lparr>df_data = [], df_mode = 384\<rparr> fs)"
  using assms
  by (induction dir pre suf tries "(fs, script)" arbitrary: fs script rule: create_temp.induct)
    (auto simp: Let_def split: if_splits)

text \<open>
  Whatever its calls answer and wherever the process is killed, only the destination changes of the
  files that were there, and it changes only to the whole new content.
\<close>

lemma write_through_effect:
  assumes "write_through pre suf dst bs ok perm (fs, script) = (r, fs', rest)"
  shows "keeps (if r = Fine then {dst} else {}) fs fs'"
    and "r = Fine \<Longrightarrow> ok \<and> ad_files fs' dst = Some \<lparr>df_data = bs, df_mode = (case perm of None \<Rightarrow> 384 | Some m \<Rightarrow> m)\<rparr> \<and>
       dst \<in> ad_unsynced fs'"
    and "finite (dom (ad_files fs)) \<Longrightarrow> finite (dom (ad_files fs'))"
proof -
  have "(r \<noteq> Fine \<and> fs' = fs) \<or> (\<exists>tmp os. ad_files fs tmp = None \<and>
      place_file tmp dst bs ok perm (store_file tmp \<lparr>df_data = [], df_mode = 384\<rparr> fs, os) = (r, fs', rest))"
  proof (rule attempt_cases [of id fs script])
    fix os assume m: "attempt id (fs, script) = (Fine, id fs, os)"
    obtain q tmp d os1 where c: "create_temp (dir_name dst) pre suf 0 (fs, os) = (q, tmp, d, os1)" by (metis prod_cases4)
    show ?thesis using assms create_temp_effect [OF c] m
      by (cases q) (auto simp: write_through_def and_then_def mkdir_all_def c)
  qed (use assms in \<open>auto simp: write_through_def and_then_def mkdir_all_def\<close>)
  then consider (kept) "r \<noteq> Fine" "fs' = fs" | (placed) tmp os where "ad_files fs tmp = None"
      "place_file tmp dst bs ok perm (store_file tmp \<lparr>df_data = [], df_mode = 384\<rparr> fs, os) = (r, fs', rest)" by blast
  then have "keeps (if r = Fine then {dst} else {}) fs fs' \<and>
    (r = Fine \<longrightarrow> ok \<and> ad_files fs' dst = Some \<lparr>df_data = bs, df_mode = (case perm of None \<Rightarrow> 384 | Some m \<Rightarrow> m)\<rparr> \<and>
       dst \<in> ad_unsynced fs') \<and>
    (\<exists>tmp. dom (ad_files fs') \<subseteq> insert tmp (insert dst (dom (ad_files fs))))"
  proof cases
    case placed
    note eff = place_file_effect [OF placed(2)]
    have eff1: "\<forall>p. p \<noteq> tmp \<and> p \<noteq> dst \<longrightarrow> ad_files fs' p = ad_files fs p \<and> (p \<in> ad_unsynced fs' \<longleftrightarrow> p \<in> ad_unsynced fs)"
      using eff(1) by (simp add: store_file_def)
    have eff2: "r \<noteq> Fine \<Longrightarrow> p \<noteq> tmp \<Longrightarrow> ad_files fs' p = ad_files fs p \<and> (p \<in> ad_unsynced fs' \<longleftrightarrow> p \<in> ad_unsynced fs)" for p
      using eff(2) by (simp add: store_file_def only_def)
    have "keeps (if r = Fine then {dst} else {}) fs fs'"
      unfolding keeps_def using eff1 eff2 placed(1) by (metis empty_iff insert_iff)
    moreover have "dom (ad_files fs') \<subseteq> insert tmp (insert dst (dom (ad_files fs)))"
      using eff1 by (auto simp: dom_def)
    ultimately show ?thesis using eff(3) by (auto simp: store_file_def)
  qed auto
  then show "keeps (if r = Fine then {dst} else {}) fs fs'"
    and "r = Fine \<Longrightarrow> ok \<and> ad_files fs' dst = Some \<lparr>df_data = bs, df_mode = (case perm of None \<Rightarrow> 384 | Some m \<Rightarrow> m)\<rparr> \<and>
       dst \<in> ad_unsynced fs'"
    and "finite (dom (ad_files fs)) \<Longrightarrow> finite (dom (ad_files fs'))"
    by (auto intro: finite_subset)
qed

text \<open>A disk with finitely many files has room: the pattern succeeds on it when no call fails.\<close>

lemma fmt_nat_inj: "inj (\<lambda>n. fmt_nat (int n))"
  by (rule injI) (metis of_nat_0_le_iff of_nat_eq_iff option.inject parse_digits_fmt_nat)

lemma temp_name_free:
  assumes "finite (dom (ad_files fs))"
  obtains n where "ad_files fs (temp_name dir pre suf n) = None"
proof -
  have "inj (temp_name dir pre suf)" using fmt_nat_inj by (auto simp: inj_def temp_name_def)
  then have "infinite (range (temp_name dir pre suf))" using finite_imageD infinite_UNIV_nat by blast
  then have "\<not> range (temp_name dir pre suf) \<subseteq> dom (ad_files fs)" using assms infinite_super by blast
  then show thesis using that by auto
qed

lemma write_through_works:
  assumes "finite (dom (ad_files fs))"
  obtains script fs' where "write_through pre suf dst bs True perm (fs, script @ os) = (Fine, fs', os)"
proof -
  obtain n where free: "ad_files fs (temp_name (dir_name dst) pre suf n) = None"
    using temp_name_free [OF assms] by blast
  let ?tmp = "temp_name (dir_name dst) pre suf n"
  let ?d = "store_file ?tmp \<lparr>df_data = [], df_mode = 384\<rparr> fs"
  obtain w d where w: "write_out ?tmp bs (?d, w @ q) = (Fine, d, q)" for q
  proof (cases bs)
    case Nil
    then show thesis using that [of "[]" ?d] by simp
  next
    case (Cons b r)
    show thesis by (rule that [of "[Op_ok (length r)]" "add_bytes ?tmp bs ?d"]) (simp add: Cons)
  qed
  show thesis
    by (rule that [of "[Op_ok 0, Op_ok n] @ w @ [Op_ok 0] @ (case perm of None \<Rightarrow> [] | Some m \<Rightarrow> [Op_ok 0]) @ [Op_ok 0]"
          "move_file ?tmp dst (case perm of None \<Rightarrow> d | Some m \<Rightarrow> change_mode ?tmp m d)"])
      (use free in \<open>simp add: write_through_def and_then_def mkdir_all_def attempt_def place_file_def or_discard_def
         write_and_close_def set_mode_def w Let_def split: option.split\<close>)
qed

subsection \<open>A loss of power\<close>

text \<open>
  What a machine finds that lost its power before anything was written back: of a file that was
  never synced, a first part.
\<close>

definition power_cut :: "nat \<Rightarrow> apply_disk \<Rightarrow> apply_disk" where
  "power_cut n fs =
     \<lparr>ad_files = (\<lambda>p. map_option (\<lambda>f. if p \<in> ad_unsynced fs then f\<lparr>df_data := take n (df_data f)\<rparr> else f) (ad_files fs p)),
      ad_unsynced = {}\<rparr>"

lemma power_cut_empties: "p \<in> ad_unsynced fs \<Longrightarrow> ad_files fs p = Some f \<Longrightarrow> map_option df_data (ad_files (power_cut 0 fs) p) = Some []"
  by (simp add: power_cut_def)

lemma power_cut_keeps: "p \<notin> ad_unsynced fs \<Longrightarrow> ad_files (power_cut n fs) p = ad_files fs p"
  by (simp add: power_cut_def map_option_case split: option.split)

end
