(* ===== verification/UpdateApply.thy ===== *)
theory UpdateApply
  imports UpdateManifest FileSteps
begin

text \<open>
  Download and application of update artifacts, \<^verbatim>\<open>internal/shared/update/download.go\<close> and
  \<^verbatim>\<open>apply.go\<close>, over the file calls of FileSteps: every call succeeds, fails, or is the
  one before which the process is killed. The JSON text of the pending entry is written and read by
  the arguments \<open>enc\<close> and \<open>dec\<close>.
\<close>

subsection \<open>Names\<close>

definition base_name :: "string \<Rightarrow> string" where
  "base_name path =
     (if path = [] then ''.''
      else let p = trim_right_char CHR ''/'' path
           in if p = [] then ''/''
              else (case last_index CHR ''/'' p of None \<Rightarrow> p | Some i \<Rightarrow> drop (Suc i) p))"

definition safe_download_name :: "string \<Rightarrow> string" where
  "safe_download_name raw =
     (let name = trim_space raw
      in if name = [] \<or> name = ''.'' \<or> name = ''/'' then ''artifact.bin''
         else map (\<lambda>c. if c = CHR ''/'' then CHR ''_'' else c) (base_name name))"

definition join_path :: "string \<Rightarrow> string \<Rightarrow> string" where
  "join_path dir name = dir @ ''/'' @ name"

subsection \<open>The pending entry\<close>

record pending_update =
  pu_target :: string
  pu_artifact :: string
  pu_snapshot :: string
  pu_version :: string
  pu_applied :: string

type_synonym pending_writer = "pending_update \<Rightarrow> u8 list"
type_synonym pending_reader = "u8 list \<Rightarrow> pending_update option"

definition pending_path :: "string \<Rightarrow> string" where
  "pending_path dir = join_path dir ''pending-update.json''"

definition copy_over :: "string \<Rightarrow> string \<Rightarrow> nat \<Rightarrow> scripted \<Rightarrow> disk_answer \<times> scripted" where
  "copy_over dst src perm s =
     (case ad_files (fst s) src of
        None \<Rightarrow> (Failed, s)
      | Some f \<Rightarrow> and_then (attempt id) (write_through ''.tmp-update-'' [] dst (df_data f) True (Some perm)) s)"

definition write_json_atomic :: "string \<Rightarrow> u8 list \<Rightarrow> scripted \<Rightarrow> disk_answer \<times> scripted" where
  "write_json_atomic path json = write_through ''.tmp-'' ''.json'' path json True None"

definition read_pending :: "pending_reader \<Rightarrow> string \<Rightarrow> scripted \<Rightarrow> pending_update option" where
  "read_pending dec dir s = (case ad_files (fst s) (pending_path dir) of None \<Rightarrow> None | Some f \<Rightarrow> dec (df_data f))"

subsection \<open>Apply, confirm, roll back\<close>

record apply_options =
  ao_target :: string
  ao_artifact :: string
  ao_state :: string
  ao_version :: string

datatype apply_error =
    Target_required | Artifact_required | State_required | Mkdir_failed | Snapshot_failed | Pending_failed
  | Copy_failed | Health_failed | Rollback_error

datatype apply_outcome = Process_killed | Applied "apply_error option" bool

definition rollback_pending :: "pending_reader \<Rightarrow> string \<Rightarrow> scripted \<Rightarrow> disk_answer \<times> scripted" where
  "rollback_pending dec dir s =
     (if trim_space dir = [] then (Failed, s)
      else and_then (attempt id) (\<lambda>s0.
        (case read_pending dec dir s0 of
           None \<Rightarrow> (Failed, s0)
         | Some p \<Rightarrow>
             if trim_space (pu_target p) = [] \<or> trim_space (pu_snapshot p) = [] then (Failed, s0)
             else and_then (copy_over (pu_target p) (pu_snapshot p) 493) (remove_file (pending_path dir)) s0)) s)"

definition confirm_pending :: "string \<Rightarrow> scripted \<Rightarrow> disk_answer \<times> scripted" where
  "confirm_pending dir s =
     (if trim_space dir = [] then (Failed, s)
      else if ad_files (fst s) (pending_path dir) = None then (Fine, s) else remove_file (pending_path dir) s)"

definition snapshot_path :: "apply_options \<Rightarrow> string \<Rightarrow> string" where
  "snapshot_path opts stamp =
     join_path (join_path (ao_state opts) ''update-rollback'') (base_name (ao_target opts) @ ''.'' @ stamp @ ''.bak'')"

definition pending_of :: "apply_options \<Rightarrow> string \<Rightarrow> string \<Rightarrow> pending_update" where
  "pending_of opts stamp at = \<lparr>pu_target = ao_target opts, pu_artifact = ao_artifact opts,
      pu_snapshot = snapshot_path opts stamp, pu_version = ao_version opts, pu_applied = at\<rparr>"

text \<open>
  \<open>stamp\<close> and \<open>at\<close> are the two renderings of the time; \<open>health\<close> is the result of the health check,
  where there is one. The flag of the result is the code's \<^verbatim>\<open>RolledBack\<close>. The last part,
  from the copy of the artifact on, is a definition of its own.
\<close>

definition install_step :: "pending_reader \<Rightarrow> apply_options \<Rightarrow> bool option \<Rightarrow> scripted \<Rightarrow> apply_outcome \<times> scripted" where
  "install_step dec opts health s2 =
     (case copy_over (ao_target opts) (ao_artifact opts) 493 s2 of
        (Stopped, s3) \<Rightarrow> (Process_killed, s3)
      | (Failed, s3) \<Rightarrow>
          (case rollback_pending dec (ao_state opts) s3 of
             (Stopped, s4) \<Rightarrow> (Process_killed, s4)
           | (_, s4) \<Rightarrow> (Applied (Some Copy_failed) True, s4))
      | (Fine, s3) \<Rightarrow>
          if health \<noteq> Some False then (Applied None False, s3)
          else (case rollback_pending dec (ao_state opts) s3 of
                  (Stopped, s4) \<Rightarrow> (Process_killed, s4)
                | (Failed, s4) \<Rightarrow> (Applied (Some Rollback_error) True, s4)
                | (Fine, s4) \<Rightarrow> (Applied (Some Health_failed) True, s4)))"

definition apply_file_with_rollback :: "pending_writer \<Rightarrow> pending_reader \<Rightarrow> apply_options \<Rightarrow> string \<Rightarrow> string \<Rightarrow>
    bool option \<Rightarrow> scripted \<Rightarrow> apply_outcome \<times> scripted" where
  "apply_file_with_rollback enc dec opts stamp at health s =
     (if trim_space (ao_target opts) = [] then (Applied (Some Target_required) False, s)
      else if trim_space (ao_artifact opts) = [] then (Applied (Some Artifact_required) False, s)
      else if trim_space (ao_state opts) = [] then (Applied (Some State_required) False, s)
      else case mkdir_all s of
             (Stopped, s0) \<Rightarrow> (Process_killed, s0)
           | (Failed, s0) \<Rightarrow> (Applied (Some Mkdir_failed) False, s0)
           | (Fine, s0) \<Rightarrow>
           (case copy_over (snapshot_path opts stamp) (ao_target opts) 420 s0 of
              (Stopped, s1) \<Rightarrow> (Process_killed, s1)
            | (Failed, s1) \<Rightarrow> (Applied (Some Snapshot_failed) False, s1)
            | (Fine, s1) \<Rightarrow>
            (case write_json_atomic (pending_path (ao_state opts)) (enc (pending_of opts stamp at)) s1 of
               (Stopped, s2) \<Rightarrow> (Process_killed, s2)
             | (Failed, s2) \<Rightarrow> (Applied (Some Pending_failed) False, s2)
             | (Fine, s2) \<Rightarrow> install_step dec opts health s2)))"

subsection \<open>Downloads\<close>

record download_result =
  dr_url :: string
  dr_path :: string
  dr_size :: nat
  dr_sha :: string

datatype download_error =
    Url_required | Path_required | Download_failed | Download_killed | Manifest_unreadable | Dir_required | Empty_artifact_url

text \<open>
  \<open>parse\<close> is \<^verbatim>\<open>url.Parse\<close>, giving the scheme and the path; \<open>http\<close> is the answer of the
  server, its status, the bytes of its body that arrive, and whether the body ends without an error.
  A source is the bytes it gives and whether it ends without an error.
\<close>

type_synonym url_scheme = "string \<Rightarrow> (string \<times> string) option"
type_synonym web = "string \<Rightarrow> (nat \<times> u8 list \<times> bool) option"

definition copy_local_path :: "apply_disk \<Rightarrow> string \<Rightarrow> u8 list \<times> bool" where
  "copy_local_path fs path = (case ad_files fs path of None \<Rightarrow> ([], False) | Some f \<Rightarrow> (df_data f, True))"

definition copy_file_url :: "apply_disk \<Rightarrow> string \<Rightarrow> u8 list \<times> bool" where
  "copy_file_url fs path = (if path = [] then ([], False) else copy_local_path fs path)"

definition copy_url :: "url_scheme \<Rightarrow> web \<Rightarrow> apply_disk \<Rightarrow> string \<Rightarrow> u8 list \<times> bool" where
  "copy_url parse http fs raw =
     (case parse raw of
        None \<Rightarrow> ([], False)
      | Some (scheme, path) \<Rightarrow>
          if scheme = ''file'' then copy_file_url fs path
          else if scheme = [] then copy_local_path fs raw
          else if scheme = ''http'' \<or> scheme = ''https''
          then (case http raw of
                  None \<Rightarrow> ([], False)
                | Some (status, body, complete) \<Rightarrow> if status < 200 \<or> status \<ge> 300 then ([], False) else (body, complete))
          else ([], False))"

text \<open>
  The file is opened again for its hash. A local source is read before the temporary file is made:
  the two are different files.
\<close>

definition download_url :: "url_scheme \<Rightarrow> web \<Rightarrow> string \<Rightarrow> string \<Rightarrow> scripted \<Rightarrow>
    (download_error + download_result) \<times> scripted" where
  "download_url parse http raw path s =
     (let url = trim_space raw
      in if url = [] then (Inl Url_required, s)
         else if trim_space path = [] then (Inl Path_required, s)
         else let (body, complete) = copy_url parse http (fst s) url
              in case and_then (write_through ''.tmp-download-'' [] path body complete (Some 420)) (attempt id) s of
                   (Stopped, s1) \<Rightarrow> (Inl Download_killed, s1)
                 | (Failed, s1) \<Rightarrow> (Inl Download_failed, s1)
                 | (Fine, s1) \<Rightarrow>
                     (case ad_files (fst s1) path of
                        None \<Rightarrow> (Inl Download_failed, s1)
                      | Some f \<Rightarrow>
                          (Inr \<lparr>dr_url = url, dr_path = path, dr_size = length body, dr_sha = artifact_sha256 (df_data f)\<rparr>, s1)))"

definition artifact_file_name :: "artifact \<Rightarrow> string" where
  "artifact_file_name a =
     safe_download_name (if trim_space (ar_name a) \<noteq> [] then ar_name a
                         else if trim_space (base_name (ar_url a)) \<noteq> [] then base_name (ar_url a) else [])"

fun fetch_artifacts :: "url_scheme \<Rightarrow> web \<Rightarrow> string \<Rightarrow> artifact list \<Rightarrow> scripted \<Rightarrow>
    (download_error + download_result list) \<times> scripted" where
  "fetch_artifacts parse http dir [] s = (Inr [], s)"
| "fetch_artifacts parse http dir (a # rest) s =
     (if trim_space (ar_url a) = [] then (Inl Empty_artifact_url, s)
      else case download_url parse http (ar_url a) (join_path dir (artifact_file_name a)) s of
             (Inl e, s1) \<Rightarrow> (Inl e, s1)
           | (Inr r, s1) \<Rightarrow>
               (case fetch_artifacts parse http dir rest s1 of
                  (Inl e, s2) \<Rightarrow> (Inl e, s2)
                | (Inr rs, s2) \<Rightarrow> (Inr (r # rs), s2)))"

text \<open>\<open>dec\<close> decodes the manifest.\<close>

definition fetch_manifest_and_artifacts :: "url_scheme \<Rightarrow> web \<Rightarrow> (u8 list \<Rightarrow> manifest_file option) \<Rightarrow> string \<Rightarrow> string \<Rightarrow>
    scripted \<Rightarrow> (download_error + download_result \<times> download_result list) \<times> scripted" where
  "fetch_manifest_and_artifacts parse http dec url dir s =
     (if trim_space dir = [] then (Inl Dir_required, s)
      else let path = join_path dir ''manifest.json''
           in case download_url parse http url path s of
                (Inl e, s1) \<Rightarrow> (Inl e, s1)
              | (Inr m, s1) \<Rightarrow>
                  (case map_option (\<lambda>f. dec (df_data f)) (ad_files (fst s1) path) of
                     Some (Some file) \<Rightarrow>
                       (case fetch_artifacts parse http dir (mp_artifacts (mf_payload file)) s1 of
                          (Inl e, s2) \<Rightarrow> (Inl e, s2)
                        | (Inr rs, s2) \<Rightarrow> (Inr (m, rs), s2))
                   | _ \<Rightarrow> (Inl Manifest_unreadable, s1)))"

subsection \<open>What an installation leaves behind\<close>

lemma snapshot_not_blank: "trim_space (snapshot_path opts stamp) \<noteq> []"
proof -
  have "CHR ''/'' \<in> set (snapshot_path opts stamp)" by (simp add: snapshot_path_def join_path_def)
  then have "CHR ''/'' \<in> set (trim_space (snapshot_path opts stamp))" by (rule trim_keeps_visible) (simp add: visible_def)
  then show ?thesis by auto
qed

lemma snapshot_not_pending: "snapshot_path opts stamp \<noteq> pending_path (ao_state opts)"
  by (simp add: snapshot_path_def pending_path_def join_path_def)

lemma copy_over_effect:
  assumes "copy_over dst src perm (fs, script) = (r, fs', rest)" "ad_files fs src = Some f"
  shows "keeps (if r = Fine then {dst} else {}) fs fs'"
    and "r = Fine \<Longrightarrow> ad_files fs' dst = Some (f\<lparr>df_mode := perm\<rparr>) \<and> dst \<in> ad_unsynced fs'"
    and "finite (dom (ad_files fs)) \<Longrightarrow> finite (dom (ad_files fs'))"
proof -
  have "(r \<noteq> Fine \<and> fs' = fs) \<or>
      (\<exists>os. write_through ''.tmp-update-'' [] dst (df_data f) True (Some perm) (fs, os) = (r, fs', rest))"
    by (rule attempt_cases [of id fs script])
      (use assms in \<open>auto simp: copy_over_def and_then_def split: disk_answer.splits prod.splits\<close>)
  then show "keeps (if r = Fine then {dst} else {}) fs fs'"
    and "r = Fine \<Longrightarrow> ad_files fs' dst = Some (f\<lparr>df_mode := perm\<rparr>) \<and> dst \<in> ad_unsynced fs'"
    and "finite (dom (ad_files fs)) \<Longrightarrow> finite (dom (ad_files fs'))"
    by (auto dest: write_through_effect)
qed

text \<open>The disks a rollback can leave, where it finds its entry and its snapshot.\<close>

lemma rollback_effect:
  assumes "rollback_pending dec dir (fs, script) = (r, fs', rest)"
    "read_pending dec dir (fs, os) = Some p" "ad_files fs (pu_snapshot p) = Some g"
    "trim_space dir \<noteq> []" "trim_space (pu_target p) \<noteq> []" "trim_space (pu_snapshot p) \<noteq> []"
    "pending_path dir \<noteq> pu_target p"
  shows "(r \<noteq> Fine \<and> keeps {} fs fs') \<or>
    (keeps {pu_target p, pending_path dir} fs fs' \<and> ad_files fs' (pu_target p) = Some (g\<lparr>df_mode := 493\<rparr>) \<and>
     (r = Fine \<longrightarrow> ad_files fs' (pending_path dir) = None))"
    and "finite (dom (ad_files fs)) \<Longrightarrow> finite (dom (ad_files fs'))"
proof -
  let ?step = "and_then (copy_over (pu_target p) (pu_snapshot p) 493) (remove_file (pending_path dir))"
  have "(r \<noteq> Fine \<and> fs' = fs) \<or> (\<exists>os. ?step (fs, os) = (r, fs', rest))"
    by (rule attempt_cases [of id fs script])
      (use assms in \<open>auto simp: rollback_pending_def and_then_def read_pending_def split: option.splits\<close>)
  then have "((r \<noteq> Fine \<and> keeps {} fs fs') \<or>
    (keeps {pu_target p, pending_path dir} fs fs' \<and> ad_files fs' (pu_target p) = Some (g\<lparr>df_mode := 493\<rparr>) \<and>
     (r = Fine \<longrightarrow> ad_files fs' (pending_path dir) = None))) \<and> (finite (dom (ad_files fs)) \<longrightarrow> finite (dom (ad_files fs')))"
  proof
    assume "\<exists>os. ?step (fs, os) = (r, fs', rest)"
    then obtain os q d os1 where step: "?step (fs, os) = (r, fs', rest)"
      and c: "copy_over (pu_target p) (pu_snapshot p) 493 (fs, os) = (q, d, os1)" by (metis prod_cases3)
    note eff = copy_over_effect [OF c assms(3)]
    show ?thesis
    proof (cases "q = Fine")
      case True
      then have rm: "remove_file (pending_path dir) (d, os1) = (r, fs', rest)" using step c by (simp add: and_then_def)
      have "fs' = d \<and> r \<noteq> Fine \<or> fs' = delete_file (pending_path dir) d"
        by (rule attempt_cases [of "delete_file (pending_path dir)" d os1])
          (use rm in \<open>auto simp: remove_file_def split: if_splits\<close>)
      then show ?thesis using eff True assms(7) by (auto simp: keeps_def delete_file_def)
    next
      case False
      then show ?thesis using step c eff(1,3) by (cases q) (auto simp: and_then_def)
    qed
  qed auto
  then show "(r \<noteq> Fine \<and> keeps {} fs fs') \<or>
    (keeps {pu_target p, pending_path dir} fs fs' \<and> ad_files fs' (pu_target p) = Some (g\<lparr>df_mode := 493\<rparr>) \<and>
     (r = Fine \<longrightarrow> ad_files fs' (pending_path dir) = None))"
    and "finite (dom (ad_files fs)) \<Longrightarrow> finite (dom (ad_files fs'))" by blast+
qed

lemma rollback_works:
  assumes "finite (dom (ad_files fs))" "read_pending dec dir (fs, os) = Some p" "ad_files fs (pu_snapshot p) = Some g"
    "trim_space dir \<noteq> []" "trim_space (pu_target p) \<noteq> []" "trim_space (pu_snapshot p) \<noteq> []"
    "pending_path dir \<noteq> pu_target p"
  shows "\<exists>script fs' rest. rollback_pending dec dir (fs, script) = (Fine, fs', rest)"
proof -
  obtain script d where w: "write_through ''.tmp-update-'' [] (pu_target p) (df_data g) True (Some 493) (fs, script @ [Op_ok 0]) =
      (Fine, d, [Op_ok 0])"
    using write_through_works [OF assms(1)] by blast
  have "ad_files fs (pending_path dir) \<noteq> None" using assms(2) by (auto simp: read_pending_def split: option.splits)
  then have "ad_files d (pending_path dir) \<noteq> None"
    using write_through_effect(1) [OF w] assms(7) by (auto simp: keeps_def)
  then have "rollback_pending dec dir (fs, Op_ok 0 # Op_ok 0 # script @ [Op_ok 0]) = (Fine, delete_file (pending_path dir) d, [])"
    using assms(2-6) w
    by (simp add: rollback_pending_def and_then_def read_pending_def copy_over_def attempt_def remove_file_def)
  then show ?thesis by blast
qed

text \<open>
  The target is the old or the new file whole. A rollback can restore the old one: it can succeed,
  and whenever it does, the old content is back and the entry is gone.
\<close>

definition old_or_new :: "apply_options \<Rightarrow> apply_disk \<Rightarrow> disk_file \<Rightarrow> disk_file \<Rightarrow> bool" where
  "old_or_new opts d old new \<longleftrightarrow> (\<exists>f. ad_files d (ao_target opts) = Some f \<and> df_data f \<in> {df_data old, df_data new})"

definition can_restore :: "pending_reader \<Rightarrow> apply_options \<Rightarrow> apply_disk \<Rightarrow> disk_file \<Rightarrow> bool" where
  "can_restore dec opts d old \<longleftrightarrow>
     (\<exists>script d' rest. rollback_pending dec (ao_state opts) (d, script) = (Fine, d', rest)) \<and>
     (\<forall>script d' rest. rollback_pending dec (ao_state opts) (d, script) = (Fine, d', rest) \<longrightarrow>
        map_option df_data (ad_files d' (ao_target opts)) = Some (df_data old) \<and>
        ad_files d' (pending_path (ao_state opts)) = None)"

text \<open>The entry of this installation and its snapshot are on the disk.\<close>

definition recorded :: "pending_reader \<Rightarrow> apply_options \<Rightarrow> string \<Rightarrow> string \<Rightarrow> disk_file \<Rightarrow> apply_disk \<Rightarrow> bool" where
  "recorded dec opts stamp at old d \<longleftrightarrow> finite (dom (ad_files d)) \<and>
     (\<exists>f. ad_files d (pending_path (ao_state opts)) = Some f \<and> dec (df_data f) = Some (pending_of opts stamp at)) \<and>
     map_option df_data (ad_files d (snapshot_path opts stamp)) = Some (df_data old)"

lemma pending_of_fields [simp]:
  "pu_target (pending_of opts stamp at) = ao_target opts" "pu_snapshot (pending_of opts stamp at) = snapshot_path opts stamp"
  by (simp_all add: pending_of_def)

lemma recorded_reads:
  assumes "recorded dec opts stamp at old d"
  shows "read_pending dec (ao_state opts) (d, os) = Some (pending_of opts stamp at)"
    and "\<exists>g. ad_files d (pu_snapshot (pending_of opts stamp at)) = Some g \<and> df_data g = df_data old"
  using assms by (auto simp: recorded_def read_pending_def)

lemma recorded_restores:
  assumes "recorded dec opts stamp at old d" "trim_space (ao_target opts) \<noteq> []" "trim_space (ao_state opts) \<noteq> []"
    "pending_path (ao_state opts) \<noteq> ao_target opts"
  shows "can_restore dec opts d old"
proof -
  note reads = recorded_reads [OF assms(1)]
  obtain g where g: "ad_files d (pu_snapshot (pending_of opts stamp at)) = Some g" "df_data g = df_data old" using reads(2) by blast
  have "finite (dom (ad_files d))" using assms(1) by (simp add: recorded_def)
  note works = rollback_works [OF this reads(1) g(1) assms(3)]
  have "map_option df_data (ad_files d' (ao_target opts)) = Some (df_data old) \<and> ad_files d' (pending_path (ao_state opts)) = None"
    if "rollback_pending dec (ao_state opts) (d, script) = (Fine, d', rest)" for script d' rest
    using rollback_effect(1) [OF that reads(1) g(1) assms(3)] assms(2,4) g(2) snapshot_not_blank [of opts stamp] by auto
  then show ?thesis using works assms(2,4) snapshot_not_blank [of opts stamp] by (auto simp: can_restore_def)
qed

lemma recorded_keeps:
  assumes "recorded dec opts stamp at old d" "keeps D d d'" "finite (dom (ad_files d'))"
    "pending_path (ao_state opts) \<notin> D" "snapshot_path opts stamp \<notin> D"
  shows "recorded dec opts stamp at old d'"
proof -
  obtain f g where "ad_files d (pending_path (ao_state opts)) = Some f" "dec (df_data f) = Some (pending_of opts stamp at)"
    "ad_files d (snapshot_path opts stamp) = Some g" "df_data g = df_data old"
    using assms(1) by (auto simp: recorded_def)
  then show ?thesis using keepsD [OF assms(2)] assms(3-5) by (auto simp: recorded_def)
qed

lemma recorded_rollback:
  assumes "recorded dec opts stamp at old d" "rollback_pending dec (ao_state opts) (d, script) = (r, d', rest)"
    "trim_space (ao_target opts) \<noteq> []" "trim_space (ao_state opts) \<noteq> []" "pending_path (ao_state opts) \<noteq> ao_target opts"
  shows "(r \<noteq> Fine \<and> keeps {} d d' \<and> recorded dec opts stamp at old d') \<or>
    (keeps {ao_target opts, pending_path (ao_state opts)} d d' \<and>
     map_option df_data (ad_files d' (ao_target opts)) = Some (df_data old))"
proof -
  note reads = recorded_reads [OF assms(1)]
  obtain g where g: "ad_files d (pu_snapshot (pending_of opts stamp at)) = Some g" "df_data g = df_data old" using reads(2) by blast
  note eff = rollback_effect [OF assms(2) reads(1) g(1) assms(4)]
  have "recorded dec opts stamp at old d'" if "keeps {} d d'"
    by (rule recorded_keeps [OF assms(1) that]) (use eff(2) assms snapshot_not_blank [of opts stamp] in \<open>auto simp: recorded_def\<close>)
  then show ?thesis using eff(1) assms(3,5) g(2) snapshot_not_blank [of opts stamp] by auto
qed

text \<open>What is said of the end of an installation.\<close>

definition safe_end :: "pending_reader \<Rightarrow> apply_options \<Rightarrow> disk_file \<Rightarrow> disk_file \<Rightarrow> bool option \<Rightarrow> apply_outcome \<Rightarrow> apply_disk \<Rightarrow> bool" where
  "safe_end dec opts old new health out d \<longleftrightarrow>
     old_or_new opts d old new \<and>
     (map_option df_data (ad_files d (ao_target opts)) = Some (df_data old) \<or> can_restore dec opts d old) \<and>
     (out = Applied None False \<longrightarrow> health \<noteq> Some False \<and> ad_files d (ao_target opts) = Some (new\<lparr>df_mode := 493\<rparr>)) \<and>
     (out \<notin> {Process_killed, Applied None False, Applied (Some Rollback_error) True} \<longrightarrow>
        map_option df_data (ad_files d (ao_target opts)) = Some (df_data old))"

lemma old_is_safe:
  assumes "map_option df_data (ad_files d (ao_target opts)) = Some (df_data old)" "out \<noteq> Applied None False"
  shows "safe_end dec opts old new health out d"
  using assms by (auto simp: safe_end_def old_or_new_def)

lemma rolled_back_safe:
  assumes "recorded dec opts stamp at old d" "rollback_pending dec (ao_state opts) (d, script) = (r, d', rest)"
    "trim_space (ao_target opts) \<noteq> []" "trim_space (ao_state opts) \<noteq> []" "pending_path (ao_state opts) \<noteq> ao_target opts"
    "ad_files d (ao_target opts) = Some f" "df_data f \<in> {df_data old, df_data new}" "out \<noteq> Applied None False"
    "df_data f = df_data old \<or> r = Fine \<or> out \<in> {Process_killed, Applied (Some Rollback_error) True}"
  shows "safe_end dec opts old new health out d' \<and> keeps {ao_target opts, pending_path (ao_state opts)} d d'"
  using recorded_rollback [OF assms(1-5)]
proof
  assume kept: "r \<noteq> Fine \<and> keeps {} d d' \<and> recorded dec opts stamp at old d'"
  then have "ad_files d' (ao_target opts) = Some f" using assms(6) by (auto intro: keepsD)
  moreover have "can_restore dec opts d' old" using kept recorded_restores assms(3-5) by blast
  ultimately show ?thesis using kept assms(7-9) keeps_mono [of "{}" d d'] by (auto simp: safe_end_def old_or_new_def)
next
  assume "keeps {ao_target opts, pending_path (ao_state opts)} d d' \<and>
    map_option df_data (ad_files d' (ao_target opts)) = Some (df_data old)"
  then show ?thesis using old_is_safe assms(8) by blast
qed

lemma install_step_safe:
  assumes "recorded dec opts stamp at old B" "install_step dec opts health (B, script) = (out, d, rest)"
    "ad_files B (ao_target opts) = Some old" "ad_files B (ao_artifact opts) = Some new"
    "trim_space (ao_target opts) \<noteq> []" "trim_space (ao_state opts) \<noteq> []" "pending_path (ao_state opts) \<noteq> ao_target opts"
    "snapshot_path opts stamp \<noteq> ao_target opts"
  shows "safe_end dec opts old new health out d \<and> keeps {ao_target opts, pending_path (ao_state opts)} B d"
proof -
  obtain q T os where c: "copy_over (ao_target opts) (ao_artifact opts) 493 (B, script) = (q, T, os)" by (metis prod_cases3)
  obtain r R os1 where rb: "rollback_pending dec (ao_state opts) (T, os) = (r, R, os1)" by (metis prod_cases3)
  note eff = copy_over_effect [OF c assms(4)]
  have "recorded dec opts stamp at old T"
    by (rule recorded_keeps [OF assms(1) eff(1) eff(3)]) (use assms in \<open>auto simp: recorded_def\<close>)
  note undone = rolled_back_safe [OF this rb assms(5-7)]
  have chain: "keeps {ao_target opts, pending_path (ao_state opts)} B E"
    if "keeps {ao_target opts, pending_path (ao_state opts)} T E" for E
    using that eff(1) by (auto simp: keeps_def split: if_splits)
  show ?thesis
  proof (cases q)
    case Fine
    then have T: "ad_files T (ao_target opts) = Some (new\<lparr>df_mode := 493\<rparr>)" using eff(2) by simp
    have restore: "can_restore dec opts T old"
      by (rule recorded_restores [OF \<open>recorded dec opts stamp at old T\<close> assms(5-7)])
    show ?thesis
    proof (cases "health = Some False")
      case True
      then have "d = R \<and> (r = Stopped \<and> out = Process_killed \<or> r = Failed \<and> out = Applied (Some Rollback_error) True \<or>
          r = Fine \<and> out = Applied (Some Health_failed) True)"
        using assms(2) Fine c rb by (cases r) (auto simp: install_step_def)
      then show ?thesis using undone [OF T, of new out health] chain by auto
    next
      case False
      then have "out = Applied None False \<and> d = T" using assms(2) Fine c by (auto simp: install_step_def)
      then show ?thesis using T False restore chain [of T] by (simp add: safe_end_def old_or_new_def)
    qed
  next
    case Stopped
    then have "out = Process_killed \<and> d = T \<and> ad_files T (ao_target opts) = Some old"
      using assms(2,3) c eff(1) by (auto simp: install_step_def keeps_def)
    then show ?thesis using old_is_safe [of T opts old] chain [of T] by simp
  next
    case Failed
    then have T: "ad_files T (ao_target opts) = Some old" using assms(3) eff(1) by (auto intro: keepsD)
    have "d = R \<and> (out = Process_killed \<or> out = Applied (Some Copy_failed) True)"
      using assms(2) Failed c rb by (cases r) (auto simp: install_step_def)
    then show ?thesis using undone [OF T, of new out health] chain by auto
  qed
qed

text \<open>
  C25. Installing an update survives every failure of a call and a kill of the process before any of
  them. Assumed are a disk with finitely many files, an old program at the target and an artifact, a
  snapshot and an entry whose paths are neither of these two, and a JSON text of the entry that is read back as it was
  written. Wherever the installation ends, the target is the old or the new content whole, and where
  it is not the old one, the entry on the disk lets a rollback put the old content back. It reports
  success with the flag off only when the new file is in place and the health check, where there is
  one, passed; every other report except a failed rollback leaves the old content. No other file that
  was there is touched. The claim is of a kill of the process, whose writes stay in the page cache;
  after a loss of power it fails (see below).
\<close>

theorem apply_crash_safe:
  assumes "trim_space (ao_target opts) \<noteq> []" "trim_space (ao_artifact opts) \<noteq> []" "trim_space (ao_state opts) \<noteq> []"
    "finite (dom (ad_files fs))" "ad_files fs (ao_target opts) = Some old" "ad_files fs (ao_artifact opts) = Some new"
    "{snapshot_path opts stamp, pending_path (ao_state opts)} \<inter> {ao_target opts, ao_artifact opts} = {}"
    "dec (enc (pending_of opts stamp at)) = Some (pending_of opts stamp at)"
    "apply_file_with_rollback enc dec opts stamp at health (fs, script) = (out, fs', rest)"
  shows "safe_end dec opts old new health out fs' \<and>
    keeps {ao_target opts, snapshot_path opts stamp, pending_path (ao_state opts)} fs fs'"
proof -
  let ?D = "{ao_target opts, snapshot_path opts stamp, pending_path (ao_state opts)}"
  have early: "safe_end dec opts old new health out fs' \<and> keeps ?D fs fs'"
    if "keeps {snapshot_path opts stamp} fs fs'" "out \<noteq> Applied None False"
    using old_is_safe [of fs' opts old] that keeps_mono [OF that(1), of ?D] keepsD [OF that(1) _ assms(5)] assms(7) by auto
  show ?thesis
  proof (rule attempt_cases [of id fs script])
    fix os assume m: "attempt id (fs, script) = (Fine, id fs, os)"
    obtain q A os1 where c: "copy_over (snapshot_path opts stamp) (ao_target opts) 420 (fs, os) = (q, A, os1)"
      by (metis prod_cases3)
    obtain w B os2 where j: "write_json_atomic (pending_path (ao_state opts)) (enc (pending_of opts stamp at)) (A, os1) = (w, B, os2)"
      by (metis prod_cases3)
    note snap = copy_over_effect [OF c assms(5)]
    note json = write_through_effect [OF j [unfolded write_json_atomic_def]]
    show ?thesis
    proof (cases "q = Fine \<and> w = Fine")
      case True
      have kept: "keeps {snapshot_path opts stamp} fs A" "keeps {pending_path (ao_state opts)} A B"
        using snap(1) json(1) True by simp_all
      have B: "ad_files B (ao_target opts) = Some old" "ad_files B (ao_artifact opts) = Some new"
        by (rule keepsD [OF kept(2) _ keepsD [OF kept(1)]]; use assms(5-7) in simp)+
      have "ad_files B (snapshot_path opts stamp) = Some (old\<lparr>df_mode := 420\<rparr>)"
        by (rule keepsD [OF kept(2)]) (use snap(2) True snapshot_not_pending in auto)
      then have rec: "recorded dec opts stamp at old B"
        using json(2,3) snap(3) True assms(4,8) by (auto simp: recorded_def)
      have run: "install_step dec opts health (B, os2) = (out, fs', rest)"
        using assms(1-3,9) m c j True by (simp add: apply_file_with_rollback_def mkdir_all_def)
      have "safe_end dec opts old new health out fs' \<and> keeps {ao_target opts, pending_path (ao_state opts)} B fs'"
        by (rule install_step_safe [OF rec run B assms(1,3)]) (use assms(7) in auto)
      moreover have "keeps ?D fs fs'" if "keeps {ao_target opts, pending_path (ao_state opts)} B fs'"
        using keeps_trans [OF keeps_trans [OF kept] that] by (rule keeps_mono) auto
      ultimately show ?thesis by blast
    next
      case False
      have "out \<noteq> Applied None False \<and> fs' = (if q = Fine then B else A)"
        using assms(1-3,9) m c j False
        by (cases q; cases w) (auto simp: apply_file_with_rollback_def mkdir_all_def)
      moreover have "keeps {snapshot_path opts stamp} fs A" using snap(1) by (auto intro: keeps_mono split: if_splits)
      moreover have "w \<noteq> Fine \<Longrightarrow> keeps {} A B" using json(1) by simp
      ultimately show ?thesis using early False keeps_trans [of "{snapshot_path opts stamp}" fs A "{}" B] by auto
    qed
  qed (use early assms(1-3,9) in \<open>auto simp: apply_file_with_rollback_def mkdir_all_def\<close>)
qed

definition sample_apply :: apply_options where
  "sample_apply = \<lparr>ao_target = ''/k'', ao_artifact = ''/n'', ao_state = ''/s'', ao_version = ''2''\<rparr>"

definition sample_disk :: apply_disk where
  "sample_disk = \<lparr>ad_files = [''/k'' \<mapsto> \<lparr>df_data = [1], df_mode = 493\<rparr>, ''/n'' \<mapsto> \<lparr>df_data = [2], df_mode = 420\<rparr>],
     ad_unsynced = {}\<rparr>"

definition sample_enc :: pending_writer where
  "sample_enc p = [7]"

definition sample_dec :: pending_reader where
  "sample_dec bs = (if bs = [7] then Some (pending_of sample_apply ''1'' ''2'') else None)"

text \<open>The first \<open>n\<close> calls succeed.\<close>

definition sample_run :: "bool option \<Rightarrow> nat \<Rightarrow> op_outcome list \<Rightarrow> apply_outcome \<times> scripted" where
  "sample_run health n script =
     apply_file_with_rollback sample_enc sample_dec sample_apply ''1'' ''2'' health (sample_disk, replicate n (Op_ok 0) @ script)"

text \<open>Killed before the last rename, the installation leaves the old file, an entry and a temporary file.\<close>

lemma apply_crash_safe_witness:
  "safe_end sample_dec sample_apply \<lparr>df_data = [1], df_mode = 493\<rparr> \<lparr>df_data = [2], df_mode = 420\<rparr> None
     (fst (sample_run None 19 [])) (fst (snd (sample_run None 19 [])))"
proof -
  obtain out fs' rest where
    run: "apply_file_with_rollback sample_enc sample_dec sample_apply ''1'' ''2'' None (sample_disk, replicate 19 (Op_ok 0)) =
      (out, fs', rest)" by (metis prod_cases3)
  have fields: "ao_target sample_apply = ''/k''" "ao_artifact sample_apply = ''/n''" "ao_state sample_apply = ''/s''"
    "trim_space ''/k'' \<noteq> []" "trim_space ''/n'' \<noteq> []" "trim_space ''/s'' \<noteq> []"
    by (simp_all add: sample_apply_def trim_visible visible_def)
  have disk: "finite (dom (ad_files sample_disk))" "ad_files sample_disk ''/k'' = Some \<lparr>df_data = [1], df_mode = 493\<rparr>"
    "ad_files sample_disk ''/n'' = Some \<lparr>df_data = [2], df_mode = 420\<rparr>"
    "sample_dec (sample_enc (pending_of sample_apply ''1'' ''2'')) = Some (pending_of sample_apply ''1'' ''2'')"
    by (simp_all add: sample_disk_def sample_dec_def sample_enc_def)
  have "{snapshot_path sample_apply ''1'', pending_path ''/s''} \<inter> {''/k'', ''/n''} = {}"
    by (simp add: snapshot_path_def pending_path_def join_path_def)
  then show ?thesis
    using apply_crash_safe [where opts = sample_apply and stamp = "''1''" and at = "''2''", OF _ _ _ disk(1) _ _ _ disk(4) run]
      disk(2,3) fields run by (simp add: sample_run_def)
qed

text \<open>
  The flag that says the old file is back is set as well when the rollback failed: the target still
  holds the new file.
\<close>

lemma rolled_back_flag_lies:
  "case sample_run (Some False) 20 [Op_fails 0] of
     (out, fs', _) \<Rightarrow> out = Applied (Some Rollback_error) True \<and> map_option df_data (ad_files fs' ''/k'') = Some [2]"
  by code_simp

text \<open>
  Nothing is synced: after an installation that reported success, a loss of power can leave the
  program empty, and its snapshot and the entry too, so that there is nothing to roll back to.
\<close>

lemma power_cut_loses_update:
  "case sample_run None 20 [] of
     (out, fs', _) \<Rightarrow> out = Applied None False \<and> map_option df_data (ad_files fs' ''/k'') = Some [2] \<and>
       (\<forall>p \<in> {''/k'', snapshot_path sample_apply ''1'', pending_path ''/s''}.
          map_option df_data (ad_files (power_cut 0 fs') p) = Some [])"
  by code_simp

subsection \<open>Downloaded names and hashes\<close>

lemma trim_right_char_last: "trim_right_char c s \<noteq> [] \<Longrightarrow> List.last (trim_right_char c s) \<noteq> c"
proof -
  assume "trim_right_char c s \<noteq> []"
  then have "hd (dropWhile (\<lambda>x. x = c) (rev s)) \<noteq> c"
    using hd_dropWhile [of "\<lambda>x. x = c" "rev s"] unfolding trim_right_char_def by fastforce
  then show ?thesis by (simp add: trim_right_char_def last_rev)
qed

lemma base_name_flat: "base_name path = ''/'' \<or> (base_name path \<noteq> [] \<and> CHR ''/'' \<notin> set (base_name path))"
proof (cases "path = [] \<or> trim_right_char CHR ''/'' path = []")
  case False
  let ?p = "trim_right_char CHR ''/'' path"
  show ?thesis
  proof (cases "CHR ''/'' \<in> set ?p")
    case True
    then obtain a b where ab: "?p = a @ CHR ''/'' # b" "CHR ''/'' \<notin> set b" using split_list_last by metis
    then have "b \<noteq> []" using trim_right_char_last [of "CHR ''/''" path] False by auto
    then show ?thesis using False ab last_index_append [OF ab(2), of a] by (simp add: base_name_def Let_def)
  next
    case flat: False
    then have "last_index CHR ''/'' ?p = None" by (simp add: last_index_None)
    then show ?thesis using False flat by (simp add: base_name_def Let_def)
  qed
qed (auto simp: base_name_def Let_def)

lemma safe_name_flat: "safe_download_name raw \<noteq> [] \<and> CHR ''/'' \<notin> set (safe_download_name raw)"
  using base_name_flat [of "trim_space raw"] by (auto simp: safe_download_name_def Let_def)

lemma safe_name_parent: "safe_download_name ''a/..'' = ''..''"
  by (simp add: safe_download_name_def base_name_def trim_visible visible_def Let_def trim_right_char_def last_index_def)

lemma names_collide: "safe_download_name ''linux/kiro'' = safe_download_name ''kiro''"
  by (simp add: safe_download_name_def base_name_def trim_visible visible_def Let_def trim_right_char_def last_index_def)

lemma download_url_ok:
  assumes "download_url parse http raw path (fs, script) = (Inr r, fs', rest)"
  shows "\<exists>body. dr_path r = path \<and> dr_sha r = artifact_sha256 body \<and> dr_size r = length body \<and>
    copy_url parse http fs (trim_space raw) = (body, True) \<and> keeps {path} fs fs' \<and>
    ad_files fs' path = Some \<lparr>df_data = body, df_mode = 420\<rparr>"
proof -
  obtain body complete where b: "copy_url parse http fs (trim_space raw) = (body, complete)" by fastforce
  obtain q d os where w: "write_through ''.tmp-download-'' [] path body complete (Some 420) (fs, script) = (q, d, os)"
    by (metis prod_cases3)
  have "q = Fine \<and> fs' = d \<and> (\<exists>f. ad_files d path = Some f \<and>
      r = \<lparr>dr_url = trim_space raw, dr_path = path, dr_size = length body, dr_sha = artifact_sha256 (df_data f)\<rparr>)"
    by (rule attempt_cases [of id d os]; cases q)
      (use assms in \<open>auto simp: download_url_def Let_def b and_then_def w split: if_splits option.splits\<close>)
  then show ?thesis using write_through_effect [OF w] by (auto simp: b)
qed

lemma fetch_artifacts_elsewhere:
  assumes "fetch_artifacts parse http dir arts s = (Inr rs, s')" "ad_files (fst s) path = Some f"
    "path \<notin> (\<lambda>a. join_path dir (artifact_file_name a)) ` set arts"
  shows "ad_files (fst s') path = Some f"
  using assms
proof (induction arts arbitrary: s rs)
  case (Cons a arts)
  obtain r s1 rs1 where d: "download_url parse http (ar_url a) (join_path dir (artifact_file_name a)) s = (Inr r, s1)"
    and f: "fetch_artifacts parse http dir arts s1 = (Inr rs1, s')"
    using Cons.prems(1) by (auto split: if_splits prod.splits sum.splits)
  have "ad_files (fst s1) path = Some f"
    using download_url_ok [of parse http "ar_url a" "join_path dir (artifact_file_name a)" "fst s" "snd s" r "fst s1" "snd s1"] d
      Cons.prems(2,3) by (auto intro: keepsD)
  then show ?case using Cons.IH [OF f] Cons.prems(3) by simp
qed simp

text \<open>
  After a successful download of artifacts with different file names, every reported file is on
  the disk with the reported size, and its content has the reported SHA-256.
\<close>

theorem fetched_files_match:
  assumes "fetch_artifacts parse http dir arts s = (Inr rs, s')" "distinct (map artifact_file_name arts)" "r \<in> set rs"
  shows "\<exists>f. ad_files (fst s') (dr_path r) = Some f \<and> artifact_sha256 (df_data f) = dr_sha r \<and> length (df_data f) = dr_size r"
  using assms
proof (induction arts arbitrary: s rs)
  case (Cons a arts)
  let ?path = "join_path dir (artifact_file_name a)"
  obtain q s1 qs where d: "download_url parse http (ar_url a) ?path s = (Inr q, s1)"
    and f: "fetch_artifacts parse http dir arts s1 = (Inr qs, s')" and rs: "rs = q # qs"
    using Cons.prems(1) by (auto split: if_splits prod.splits sum.splits)
  obtain body where body: "dr_path q = ?path" "dr_sha q = artifact_sha256 body" "dr_size q = length body"
    "ad_files (fst s1) ?path = Some \<lparr>df_data = body, df_mode = 420\<rparr>"
    using download_url_ok [of parse http "ar_url a" ?path "fst s" "snd s" q "fst s1" "snd s1"] d by auto
  have "?path \<notin> (\<lambda>a. join_path dir (artifact_file_name a)) ` set arts"
    using Cons.prems(2) by (auto simp: join_path_def)
  then have "ad_files (fst s') ?path = Some \<lparr>df_data = body, df_mode = 420\<rparr>"
    by (rule fetch_artifacts_elsewhere [OF f body(4)])
  then show ?case using Cons.IH [OF f] Cons.prems(2,3) body by (auto simp: rs)
qed simp

lemma fetched_files_match_witness:
  "\<exists>script. case fetch_artifacts (\<lambda>u. Some ([], u)) (\<lambda>_. None) ''/d''
      [\<lparr>ar_name = ''x'', ar_url = ''/n'', ar_sha = [], ar_signature = []\<rparr>] (sample_disk, script) of
     (Inr rs, s') \<Rightarrow> rs \<noteq> [] \<and> (\<exists>f. ad_files (fst s') (dr_path (hd rs)) = Some f \<and> artifact_sha256 (df_data f) = dr_sha (hd rs))
   | _ \<Rightarrow> False"
proof -
  let ?a = "\<lparr>ar_name = ''x'', ar_url = ''/n'', ar_sha = [], ar_signature = []\<rparr>"
  let ?path = "join_path ''/d'' (artifact_file_name ?a)"
  have "trim_space ?path \<noteq> []"
    using trim_keeps_visible [of "CHR ''/''" ?path] by (auto simp: join_path_def visible_def)
  moreover have "trim_space ''/n'' = ''/n''" by (simp add: trim_visible visible_def)
  moreover have "ad_files sample_disk ''/n'' = Some \<lparr>df_data = [2], df_mode = 420\<rparr>" "finite (dom (ad_files sample_disk))"
    by (simp_all add: sample_disk_def)
  moreover obtain script d where w: "write_through ''.tmp-download-'' [] ?path [2] True (Some 420) (sample_disk, script @ [Op_ok 0]) =
      (Fine, d, [Op_ok 0])"
    using write_through_works calculation(4) by blast
  moreover have "\<exists>f. ad_files d ?path = Some f" using write_through_effect(2) [OF w] by simp
  ultimately obtain r s' where run: "fetch_artifacts (\<lambda>u. Some ([], u)) (\<lambda>_. None) ''/d'' [?a] (sample_disk, script @ [Op_ok 0]) = (Inr [r], s')"
    by (auto simp: download_url_def copy_url_def copy_local_path_def and_then_def attempt_def Let_def)
  show ?thesis
    by (rule exI [of _ "script @ [Op_ok 0]"]) (use fetched_files_match [OF run, of r] in \<open>auto simp: run simp del: fetch_artifacts.simps\<close>)
qed

end
