(* ===== verification/EventLog.thy ===== *)
theory EventLog
  imports Strings
begin

text \<open>
  The event log, \<^verbatim>\<open>internal/shared/eventlog/eventlog.go\<close>: JSON lines appended to a file, with a
  limit per key and window and a rotation by size through numbered backups.

  The files are a map from paths; the file of the limit's state is kept decoded beside them (missing,
  unreadable, or its windows), a start time as the parsed one. What the disk refuses is an argument.
\<close>

record log_options =
  lo_max :: int
  lo_backups :: int
  lo_key :: string
  lo_window :: duration
  lo_limit :: int

record rate_window =
  rw_start :: "gotime option"
  rw_count :: int

datatype rate_file = Rate_missing | Rate_unreadable | Rate_windows "string \<rightharpoonup> rate_window"

record event_log =
  el_files :: "string \<rightharpoonup> string"
  el_rate :: rate_file

record log_faults =
  lf_stat :: "string \<Rightarrow> bool"
  lf_rename :: "string \<Rightarrow> bool"
  lf_remove :: bool
  lf_open :: bool
  lf_cut :: "nat option"
  lf_state :: bool

datatype log_result = Log_error | Log_suppressed | Log_written bool string

subsection \<open>The limit\<close>

text \<open>The start of a window is stored with the precision of RFC 3339, a second.\<close>

definition stamp_second :: "gotime \<Rightarrow> gotime" where
  "stamp_second now = now - now mod nanos"

definition current_window :: "log_options \<Rightarrow> gotime \<Rightarrow> rate_window option \<Rightarrow> rate_window" where
  "current_window opts now w =
     (case w of None \<Rightarrow> \<lparr>rw_start = Some (stamp_second now), rw_count = 0\<rparr>
      | Some v \<Rightarrow>
          (case rw_start v of None \<Rightarrow> \<lparr>rw_start = Some (stamp_second now), rw_count = 0\<rparr>
           | Some s \<Rightarrow> if \<not> time_before now (time_add s (lo_window opts))
                       then \<lparr>rw_start = Some (stamp_second now), rw_count = 0\<rparr> else v))"

text \<open>Allowed, with the state to be saved; None after an error of reading the state.\<close>

definition check_rate_limit :: "log_options \<Rightarrow> gotime \<Rightarrow> rate_file \<Rightarrow> (bool \<times> rate_file option) option" where
  "check_rate_limit opts now rate =
     (if trim_space (lo_key opts) = [] \<or> lo_limit opts \<le> 0 \<or> lo_window opts \<le> 0 then Some (True, None)
      else if rate = Rate_unreadable then None
      else
        let windows = (case rate of Rate_windows ws \<Rightarrow> ws | _ \<Rightarrow> Map.empty);
            key = trim_space (lo_key opts); w = current_window opts now (windows key)
        in if lo_limit opts \<le> rw_count w then Some (False, Some (Rate_windows (windows(key \<mapsto> w))))
           else Some (True, Some (Rate_windows (windows(key \<mapsto> w\<lparr>rw_count := rw_count w + 1\<rparr>)))))"

subsection \<open>The rotation\<close>

definition backup_path :: "string \<Rightarrow> nat \<Rightarrow> string" where
  "backup_path path i = path @ ''.'' @ fmt_int (int i)"

text \<open>The loop over the indices from the given one down to one: false after an error.\<close>

fun shift_backups :: "log_faults \<Rightarrow> string \<Rightarrow> nat \<Rightarrow> (string \<rightharpoonup> string) \<Rightarrow> bool \<times> (string \<rightharpoonup> string)" where
  "shift_backups flt path 0 fs = (True, fs)"
| "shift_backups flt path (Suc i) fs =
     (let src = backup_path path (Suc i); dst = backup_path path (Suc (Suc i))
      in if lf_stat flt src then (False, fs)
         else (case fs src of
                 None \<Rightarrow> shift_backups flt path i fs
               | Some content \<Rightarrow>
                   let fs1 = (if lf_remove flt then fs else fs(dst := None))
                   in if lf_rename flt src then (False, fs1)
                      else shift_backups flt path i (fs1(src := None, dst \<mapsto> content))))"

text \<open>Rotated, and the path of the newest backup; None after an error.\<close>

definition rotate_if_needed :: "log_faults \<Rightarrow> log_options \<Rightarrow> string \<Rightarrow> nat \<Rightarrow> (string \<rightharpoonup> string) \<Rightarrow>
    (bool \<times> string) option \<times> (string \<rightharpoonup> string)" where
  "rotate_if_needed flt opts path incoming fs =
     (if lo_max opts \<le> 0 then (Some (False, []), fs)
      else if lf_stat flt path then (None, fs)
      else (case fs path of
              None \<Rightarrow> (Some (False, []), fs)
            | Some content \<Rightarrow>
                if int (length content) + int incoming \<le> lo_max opts then (Some (False, []), fs)
                else if lo_backups opts \<le> 0
                then (if lf_remove flt then (None, fs) else (Some (True, []), fs(path := None)))
                else (case shift_backups flt path (nat (lo_backups opts - 1)) fs of
                        (False, fs1) \<Rightarrow> (None, fs1)
                      | (True, fs1) \<Rightarrow>
                          let first = backup_path path 1; fs2 = (if lf_remove flt then fs1 else fs1(first := None))
                          in if lf_rename flt path then (None, fs2)
                             else (Some (True, first), fs2(path := None, first \<mapsto> content)))))"

definition content_of :: "(string \<rightharpoonup> string) \<Rightarrow> string \<Rightarrow> string" where
  "content_of fs path = (case fs path of None \<Rightarrow> [] | Some t \<Rightarrow> t)"

text \<open>\<^verbatim>\<open>AppendJSONL\<close> with the encoded line, its newline included (None: the value does not encode).\<close>

definition append_event :: "log_faults \<Rightarrow> log_options \<Rightarrow> string \<Rightarrow> gotime \<Rightarrow> string option \<Rightarrow> event_log \<Rightarrow> log_result \<times> event_log" where
  "append_event flt opts path0 now payload l =
     (let path = trim_space path0
      in if path = [] then (Log_error, l)
         else (case check_rate_limit opts now (el_rate l) of
                 None \<Rightarrow> (Log_error, l)
               | Some (False, _) \<Rightarrow> (Log_suppressed, l)
               | Some (True, state) \<Rightarrow>
                   (case payload of
                      None \<Rightarrow> (Log_error, l)
                    | Some line \<Rightarrow>
                        (case rotate_if_needed flt opts path (length line) (el_files l) of
                           (None, fs) \<Rightarrow> (Log_error, l\<lparr>el_files := fs\<rparr>)
                         | (Some (rotated, old), fs) \<Rightarrow>
                             if lf_open flt then (Log_error, l\<lparr>el_files := fs\<rparr>)
                             else
                               let before = content_of fs path
                               in (case lf_cut flt of
                                     Some n \<Rightarrow> (Log_error, l\<lparr>el_files := fs(path \<mapsto> before @ take n line)\<rparr>)
                                   | None \<Rightarrow>
                                       let l1 = l\<lparr>el_files := fs(path \<mapsto> before @ line)\<rparr>
                                       in (case state of
                                             None \<Rightarrow> (Log_written rotated old, l1)
                                           | Some st \<Rightarrow>
                                               if lf_state flt then (Log_error, l1)
                                               else (Log_written rotated old, l1\<lparr>el_rate := st\<rparr>)))))))"

subsection \<open>The files as one sequence\<close>

fun joined :: "(nat \<Rightarrow> string) \<Rightarrow> nat \<Rightarrow> string" where
  "joined c 0 = []"
| "joined c (Suc n) = c (Suc n) @ joined c n"

text \<open>The oldest backup first, the file itself last.\<close>

definition whole_log :: "string \<Rightarrow> nat \<Rightarrow> (string \<rightharpoonup> string) \<Rightarrow> string" where
  "whole_log path n fs = joined (\<lambda>i. content_of fs (backup_path path i)) n @ content_of fs path"

lemma joined_shift: "(\<And>i. 1 \<le> i \<Longrightarrow> i \<le> n \<Longrightarrow> c' (Suc i) = c i) \<Longrightarrow> joined c' (Suc n) = joined c n @ c' 1"
  by (induction n) auto

lemma joined_cong: "(\<And>i. 1 \<le> i \<Longrightarrow> i \<le> n \<Longrightarrow> c i = c' i) \<Longrightarrow> joined c n = joined c' n"
  by (induction n) auto

lemma fmt_int_inject_nat: "fmt_int (int i) = fmt_int (int j) \<Longrightarrow> i = j"
proof -
  assume "fmt_int (int i) = fmt_int (int j)"
  then have "fmt_nat (int i) = fmt_nat (int j)" by (simp add: fmt_int_def)
  then show ?thesis by (metis of_nat_0_le_iff of_nat_eq_iff option.inject parse_digits_fmt_nat)
qed

lemma backup_path_eq [simp]: "backup_path path i = backup_path path j \<longleftrightarrow> i = j"
  by (auto simp: backup_path_def dest: fmt_int_inject_nat)

lemma backup_path_not_path [simp]: "backup_path path i \<noteq> path" "path \<noteq> backup_path path i"
  by (simp_all add: backup_path_def)

lemma shift_result:
  assumes "shift_backups flt path m fs = (True, fs')"
  shows "(\<forall>i. 1 \<le> i \<and> i \<le> m \<longrightarrow> fs' (backup_path path (Suc i)) =
            (if fs (backup_path path i) \<noteq> None then fs (backup_path path i)
             else if i = m then fs (backup_path path (Suc m)) else None)) \<and>
         (\<forall>p. (\<forall>i. 1 \<le> i \<and> i \<le> Suc m \<longrightarrow> p \<noteq> backup_path path i) \<longrightarrow> fs' p = fs p)"
  using assms
proof (induction m arbitrary: fs)
  case (Suc m)
  let ?src = "backup_path path (Suc m)" and ?dst = "backup_path path (Suc (Suc m))"
  show ?case
  proof (cases "fs ?src")
    case None
    then have "shift_backups flt path m fs = (True, fs')" using Suc.prems by (simp add: Let_def split: if_splits)
    note IH = Suc.IH [OF this]
    have other: "fs' p = fs p" if "\<forall>i. 1 \<le> i \<and> i \<le> Suc m \<longrightarrow> p \<noteq> backup_path path i" for p
      using IH that by blast
    have "fs' ?dst = fs ?dst" by (rule other) simp
    moreover have "fs' p = fs p" if "\<forall>i. 1 \<le> i \<and> i \<le> Suc (Suc m) \<longrightarrow> p \<noteq> backup_path path i" for p
      using that by (intro other) simp
    ultimately show ?thesis using IH None by (auto simp: le_Suc_eq)
  next
    case (Some content)
    define fs1 where "fs1 = fs(?src := None, ?dst \<mapsto> content)"
    have "shift_backups flt path m fs1 = (True, fs')"
      using Suc.prems Some by (auto simp: Let_def fs1_def fun_upd_twist split: if_splits)
    note IH = Suc.IH [OF this]
    have other: "fs' p = fs1 p" if "\<forall>i. 1 \<le> i \<and> i \<le> Suc m \<longrightarrow> p \<noteq> backup_path path i" for p
      using IH that by blast
    have "fs' ?dst = fs1 ?dst" by (rule other) simp
    moreover have "fs' p = fs p" if "\<forall>i. 1 \<le> i \<and> i \<le> Suc (Suc m) \<longrightarrow> p \<noteq> backup_path path i" for p
    proof -
      have "fs' p = fs1 p" using that by (intro other) simp
      moreover have "fs1 p = fs p" using that by (auto simp: fs1_def)
      ultimately show ?thesis by simp
    qed
    moreover have "fs1 (backup_path path i) = fs (backup_path path i)" if "i \<le> m" for i
      using that by (simp add: fs1_def)
    ultimately show ?thesis using IH Some by (auto simp: le_Suc_eq fs1_def)
  qed
qed simp

lemma joined_top: "joined c n = (if n = 0 then [] else c n @ joined c (n - 1))"
  by (cases n) simp_all

text \<open>What a rotation does to the sequence: the oldest part is dropped, if any.\<close>

lemma rotate_sequence:
  assumes run: "rotate_if_needed flt opts path k fs = (Some (rotated, first), fs')" and n: "n = nat (lo_backups opts)"
  shows "\<exists>lost. whole_log path n fs = lost @ whole_log path n fs' \<and>
    (lost = [] \<or> (rotated \<and> lost = (if n = 0 then content_of fs path else content_of fs (backup_path path n))))"
proof (cases rotated)
  case False
  then have "fs' = fs" using run
    by (auto simp: rotate_if_needed_def Let_def split: if_splits option.splits prod.splits bool.splits)
  then show ?thesis by simp
next
  case True
  then obtain content where content: "fs path = Some content"
    using run by (auto simp: rotate_if_needed_def split: if_splits option.splits)
  show ?thesis
  proof (cases "lo_backups opts \<le> 0")
    case neg: True
    then have "fs' = fs(path := None)" using run True content
      by (auto simp: rotate_if_needed_def split: if_splits)
    then show ?thesis using neg n True by (simp add: whole_log_def content_of_def)
  next
    case False
    define m where "m = nat (lo_backups opts - 1)"
    have nm: "n = Suc m" using False n by (simp add: m_def)
    obtain fs1 where shift: "shift_backups flt path m fs = (True, fs1)"
        and fs': "fs' = fs1(path := None, backup_path path 1 \<mapsto> content)"
      using run True content False
      by (auto simp: rotate_if_needed_def m_def Let_def fun_upd_twist split: if_splits prod.splits bool.splits)
    let ?c = "\<lambda>i. content_of fs (backup_path path i)" and ?c' = "\<lambda>i. content_of fs' (backup_path path i)"
    have moved: "?c' (Suc i) = (if fs (backup_path path i) \<noteq> None then ?c i else if i = m then ?c (Suc m) else [])"
      if "1 \<le> i" "i \<le> m" for i
      using shift_result [OF shift] that by (auto simp: fs' content_of_def)
    have first: "?c' 1 = content" "content_of fs' path = []" by (simp_all add: fs' content_of_def)
    show ?thesis
    proof (cases "m = 0 \<or> fs (backup_path path m) \<noteq> None")
      case True
      have "joined ?c' (Suc m) = joined ?c m @ ?c' 1"
        by (rule joined_shift) (use moved True in \<open>auto simp: content_of_def\<close>)
      then have "whole_log path n fs = ?c n @ whole_log path n fs'"
        using content first by (simp add: whole_log_def nm content_of_def)
      then show ?thesis using \<open>rotated\<close> nm by auto
    next
      case False
      then obtain k where k: "m = Suc k" by (cases m) auto
      have "joined ?c' (Suc k) = joined ?c k @ ?c' 1"
        by (rule joined_shift) (use moved k in \<open>auto simp: content_of_def\<close>)
      moreover have "?c' n = ?c n" "?c m = []" using moved [of m] False nm k by (auto simp: content_of_def)
      ultimately have "whole_log path n fs = whole_log path n fs'"
        using content first by (simp add: whole_log_def nm k content_of_def)
      then show ?thesis by simp
    qed
  qed
qed

lemma whole_log_append: "whole_log path n (fs(path \<mapsto> content_of fs path @ line)) = whole_log path n fs @ line"
proof -
  have "joined (\<lambda>i. content_of (fs(path \<mapsto> t)) (backup_path path i)) n = joined (\<lambda>i. content_of fs (backup_path path i)) n" for t
    by (rule joined_cong) (simp add: content_of_def)
  then show ?thesis by (simp add: whole_log_def content_of_def)
qed

lemma append_written:
  assumes "append_event flt opts path now payload l = (Log_written rotated old, l')"
  shows "\<exists>line fs. payload = Some line \<and> rotate_if_needed flt opts (trim_space path) (length line) (el_files l) = (Some (rotated, old), fs) \<and>
    el_files l' = fs(trim_space path \<mapsto> content_of fs (trim_space path) @ line) \<and>
    (\<exists>state. check_rate_limit opts now (el_rate l) = Some (True, state) \<and>
       el_rate l' = (case state of None \<Rightarrow> el_rate l | Some st \<Rightarrow> st))"
  using assms
  by (auto simp: append_event_def Let_def split: if_split_asm option.split_asm prod.split_asm bool.split_asm)

text \<open>
  C30. The log is one sequence of lines whatever the rotation does: with the backups read from the
  oldest to the newest and the file last, a written event is added at the end, and what a rotation
  drops is at the front, at most the content of the last backup (of the file itself where no
  backups are kept). A suppressed event changes nothing.
\<close>

theorem event_log_sequence:
  assumes "append_event flt opts path now payload l = (r, l')" "n = nat (lo_backups opts)"
  shows "(case r of
       Log_written rotated _ \<Rightarrow>
         (\<exists>line lost kept. payload = Some line \<and> whole_log (trim_space path) n (el_files l) = lost @ kept \<and>
            whole_log (trim_space path) n (el_files l') = kept @ line \<and>
            (lost = [] \<or> (rotated \<and> lost = content_of (el_files l)
               (if n = 0 then trim_space path else backup_path (trim_space path) n))))
     | Log_suppressed \<Rightarrow> l' = l
     | Log_error \<Rightarrow> el_rate l' = el_rate l)"
proof (cases r)
  case (Log_written rotated old)
  then obtain line fs where line: "payload = Some line"
      and rot: "rotate_if_needed flt opts (trim_space path) (length line) (el_files l) = (Some (rotated, old), fs)"
      and l': "el_files l' = fs(trim_space path \<mapsto> content_of fs (trim_space path) @ line)"
    using append_written assms(1) by blast
  from rotate_sequence [OF rot assms(2)] obtain lost where
    "whole_log (trim_space path) n (el_files l) = lost @ whole_log (trim_space path) n fs"
    "lost = [] \<or> (rotated \<and> lost = (if n = 0 then content_of (el_files l) (trim_space path)
       else content_of (el_files l) (backup_path (trim_space path) n)))" by blast
  then show ?thesis using line l' whole_log_append [of "trim_space path" n fs line] Log_written
    by (auto split: if_splits)
next
  case Log_suppressed
  then show ?thesis using assms(1)
    by (auto simp: append_event_def Let_def split: if_splits option.splits prod.splits bool.splits)
next
  case Log_error
  then show ?thesis using assms(1)
    by (auto simp: append_event_def Let_def split: if_splits option.splits prod.splits bool.splits)
qed

definition demo_log_options :: log_options where
  "demo_log_options = \<lparr>lo_max = 4, lo_backups = 1, lo_key = ''k'', lo_window = 60 * nanos, lo_limit = 2\<rparr>"

definition no_log_faults :: log_faults where
  "no_log_faults = \<lparr>lf_stat = (\<lambda>_. False), lf_rename = (\<lambda>_. False), lf_remove = False, lf_open = False, lf_cut = None, lf_state = False\<rparr>"

definition demo_log :: event_log where
  "demo_log = \<lparr>el_files = [''l'' \<mapsto> ''ab'', ''l.1'' \<mapsto> ''x''], el_rate = Rate_missing\<rparr>"

lemma demo_append: "\<exists>l. append_event no_log_faults demo_log_options ''l'' 0 (Some ''cde'') demo_log = (Log_written True ''l.1'', l)"
proof -
  have path: "backup_path ''l'' 1 = ''l.1''" by code_simp
  have "trim_space ''l'' = ''l''" "trim_space ''k'' = ''k''" by (rule trim_visible; simp add: visible_def)+
  then show ?thesis
    by (simp add: append_event_def check_rate_limit_def current_window_def rotate_if_needed_def demo_log_options_def no_log_faults_def
        demo_log_def path [simplified] Let_def nanos_def)
qed

theorem event_log_sequence_witness:
  "\<exists>l kept. append_event no_log_faults demo_log_options ''l'' 0 (Some ''cde'') demo_log = (Log_written True ''l.1'', l) \<and>
     whole_log ''l'' 1 (el_files l) = kept @ ''cde''"
proof -
  obtain l where l: "append_event no_log_faults demo_log_options ''l'' 0 (Some ''cde'') demo_log = (Log_written True ''l.1'', l)"
    using demo_append by blast
  have "trim_space ''l'' = ''l''" by (rule trim_visible) (simp add: visible_def)
  with event_log_sequence [OF l, of 1] l show ?thesis by (auto simp: demo_log_options_def)
qed

subsection \<open>Bounds\<close>

text \<open>Every file of the log has at most the given length.\<close>

definition log_small :: "int \<Rightarrow> string \<Rightarrow> (string \<rightharpoonup> string) \<Rightarrow> bool" where
  "log_small b path fs \<longleftrightarrow>
     int (length (content_of fs path)) \<le> b \<and> (\<forall>i. int (length (content_of fs (backup_path path i))) \<le> b)"

lemma content_of_upd [simp]: "content_of (fs(p := v)) q = (if q = p then (case v of None \<Rightarrow> [] | Some t \<Rightarrow> t) else content_of fs q)"
  by (simp add: content_of_def)

lemma content_of_Some: "fs p = Some t \<Longrightarrow> content_of fs p = t"
  by (simp add: content_of_def)

lemma shift_small:
  "0 \<le> b \<Longrightarrow> log_small b path fs \<Longrightarrow> log_small b path (snd (shift_backups flt path m fs))"
proof (induction m arbitrary: fs)
  case (Suc m)
  let ?src = "backup_path path (Suc m)" and ?dst = "backup_path path (Suc (Suc m))"
  show ?case
  proof (cases "fs ?src")
    case None
    then show ?thesis using Suc by (simp add: Let_def)
  next
    case (Some content)
    have "log_small b path (fs(?dst := None))" using Suc.prems by (simp add: log_small_def)
    moreover have "log_small b path ((if lf_remove flt then fs else fs(?dst := None))(?src := None, ?dst \<mapsto> content))"
      using Suc.prems content_of_Some [of fs ?src content] Some by (auto simp: log_small_def)
    ultimately show ?thesis using Suc Some by (simp add: Let_def)
  qed
qed simp

lemma rotate_small:
  assumes small: "log_small (lo_max opts) path fs" and pos: "0 < lo_max opts" and k: "int k \<le> lo_max opts"
    and run: "rotate_if_needed flt opts path k fs = (r, fs')"
  shows "log_small (lo_max opts) path fs' \<and> (r \<noteq> None \<longrightarrow> int (length (content_of fs' path)) + int k \<le> lo_max opts)"
proof (cases "lf_stat flt path \<or> fs path = None \<or> int (length (content_of fs path)) + int k \<le> lo_max opts")
  case True
  then have "fs' = fs" "r \<noteq> None \<longrightarrow> int (length (content_of fs path)) + int k \<le> lo_max opts"
    using run pos k by (auto simp: rotate_if_needed_def content_of_def split: if_splits option.splits)
  then show ?thesis using small by simp
next
  case False
  then obtain content where content: "fs path = Some content" "\<not> int (length content) + int k \<le> lo_max opts" "\<not> lf_stat flt path"
    by (auto simp: content_of_def)
  show ?thesis
  proof (cases "lo_backups opts \<le> 0")
    case True
    then show ?thesis using run content pos small k
      by (auto simp: rotate_if_needed_def log_small_def split: if_splits)
  next
    case False
    obtain ok fs1 where shift: "shift_backups flt path (nat (lo_backups opts - 1)) fs = (ok, fs1)" by fastforce
    have small1: "log_small (lo_max opts) path fs1"
      using shift_small [OF _ small, of flt "nat (lo_backups opts - 1)"] pos shift by simp
    have "int (length content) \<le> lo_max opts" using small content_of_Some [of fs path content] content(1) by (simp add: log_small_def)
    then show ?thesis using run content False pos small1 k
      by (cases ok; cases "lf_remove flt"; cases "lf_rename flt path")
        (auto simp: rotate_if_needed_def shift Let_def log_small_def)
  qed
qed

lemma append_small:
  assumes "log_small (lo_max opts) (trim_space path) (el_files l)" "0 < lo_max opts"
    "\<forall>line. payload = Some line \<longrightarrow> int (length line) \<le> lo_max opts"
  shows "log_small (lo_max opts) (trim_space path) (el_files (snd (append_event flt opts path now payload l)))"
proof (cases payload)
  case None
  then have "el_files (snd (append_event flt opts path now payload l)) = el_files l"
    by (auto simp: append_event_def Let_def split: option.splits prod.splits bool.splits)
  then show ?thesis using assms(1) by simp
next
  case (Some line)
  obtain r fs where rot: "rotate_if_needed flt opts (trim_space path) (length line) (el_files l) = (r, fs)" by fastforce
  note small = rotate_small [OF assms(1,2) _ rot]
  have files: "el_files (snd (append_event flt opts path now payload l)) \<in> {el_files l, fs} \<or>
      (r \<noteq> None \<and> (\<exists>n. el_files (snd (append_event flt opts path now payload l)) =
         fs(trim_space path \<mapsto> content_of fs (trim_space path) @ take n line)))"
  proof -
    have all: "\<exists>n. fs(trim_space path \<mapsto> content_of fs (trim_space path) @ line) =
        fs(trim_space path \<mapsto> content_of fs (trim_space path) @ take n line)"
      by (rule exI [of _ "length line"]) simp
    then show ?thesis
      by (cases r) (auto simp: append_event_def Some rot Let_def split: if_split_asm option.splits prod.splits bool.splits)
  qed
  have "log_small (lo_max opts) (trim_space path) (fs(trim_space path \<mapsto> content_of fs (trim_space path) @ take n line))" if "r \<noteq> None" for n
    using small that assms(3) Some by (auto simp: log_small_def min_def)
  then show ?thesis using files small assms(1,3) Some by auto
qed

text \<open>A run of events on one log.\<close>

fun append_run :: "log_options \<Rightarrow> string \<Rightarrow> (log_faults \<times> gotime \<times> string option) list \<Rightarrow> event_log \<Rightarrow> (gotime \<times> log_result) list \<times> event_log" where
  "append_run opts path [] l = ([], l)"
| "append_run opts path ((flt, now, payload) # es) l =
     (let (r, l1) = append_event flt opts path now payload l; (rs, l2) = append_run opts path es l1
      in ((now, r) # rs, l2))"

lemma joined_length: "(\<And>i. int (length (c i)) \<le> b) \<Longrightarrow> int (length (joined c n)) \<le> int n * b"
proof (induction n)
  case (Suc n)
  have "int (length (c (Suc n))) \<le> b" by (rule Suc.prems)
  then show ?case using Suc.IH [OF Suc.prems] by (simp add: algebra_simps)
qed simp

lemma append_run_small:
  assumes "log_small (lo_max opts) (trim_space path) (el_files l)" "0 < lo_max opts"
    "\<forall>(flt, now, payload)\<in>set es. \<forall>line. payload = Some line \<longrightarrow> int (length line) \<le> lo_max opts"
  shows "log_small (lo_max opts) (trim_space path) (el_files (snd (append_run opts path es l)))"
  using assms
proof (induction es arbitrary: l)
  case (Cons e es)
  obtain flt now payload where e: "e = (flt, now, payload)" by (cases e)
  have "log_small (lo_max opts) (trim_space path) (el_files (snd (append_event flt opts path now payload l)))"
    by (rule append_small) (use Cons.prems e in auto)
  from Cons.IH [OF this] Cons.prems show ?case by (simp add: e Let_def split_beta)
qed simp

text \<open>
  The log on the disk is bounded: while no single line is longer than the limit, the file and
  its backups together never exceed the limit times one more than the number of backups, whatever
  is written, in whatever order, and whatever the disk refuses, also when a write stops halfway.
\<close>

theorem event_log_bounded:
  assumes "log_small (lo_max opts) (trim_space path) (el_files l)" "0 < lo_max opts"
    "\<forall>(flt, now, payload)\<in>set es. \<forall>line. payload = Some line \<longrightarrow> int (length line) \<le> lo_max opts"
  shows "int (length (whole_log (trim_space path) n (el_files (snd (append_run opts path es l))))) \<le> (int n + 1) * lo_max opts"
proof -
  have small: "log_small (lo_max opts) (trim_space path) (el_files (snd (append_run opts path es l)))"
    by (rule append_run_small [OF assms])
  then show ?thesis
    using joined_length [of "\<lambda>i. content_of (el_files (snd (append_run opts path es l))) (backup_path (trim_space path) i)" "lo_max opts" n]
    by (simp add: whole_log_def log_small_def algebra_simps)
qed

theorem event_log_bounded_witness:
  "int (length (whole_log ''l'' 1 (el_files (snd (append_run demo_log_options ''l'' [(no_log_faults, 0, Some ''cde''), (no_log_faults, 1, None)] demo_log))))) \<le> 8"
proof -
  have trim: "trim_space ''l'' = ''l''" by (rule trim_visible) (simp add: visible_def)
  have "log_small 4 ''l'' (el_files demo_log)"
    by (simp add: log_small_def demo_log_def content_of_def)
  then show ?thesis
    using event_log_bounded [of demo_log_options "''l''" demo_log "[(no_log_faults, 0, Some ''cde''), (no_log_faults, 1, None)]" 1] trim
    by (simp add: demo_log_options_def)
qed

subsection \<open>The rate\<close>

text \<open>The events that were written between two times.\<close>

definition written_within :: "gotime \<Rightarrow> gotime \<Rightarrow> (gotime \<times> log_result) list \<Rightarrow> nat" where
  "written_within a b rs = length (filter (\<lambda>(t, r). a \<le> t \<and> t \<le> b \<and> (\<exists>x y. r = Log_written x y)) rs)"

text \<open>What is left of the limit at a time, by the saved state.\<close>

definition window_of :: "log_options \<Rightarrow> rate_file \<Rightarrow> rate_window option" where
  "window_of opts rate = (case rate of Rate_windows ws \<Rightarrow> ws (trim_space (lo_key opts)) | _ \<Rightarrow> None)"

definition limited :: "log_options \<Rightarrow> bool" where
  "limited opts \<longleftrightarrow> trim_space (lo_key opts) \<noteq> [] \<and> 0 < lo_limit opts \<and> 0 < lo_window opts"

text \<open>An event, where the state is saved: written and counted in the current window, or the state is as before.\<close>

lemma append_counts:
  assumes "limited opts" "append_event flt opts path now payload l = (r, l')"
  shows "(\<exists>x y. r = Log_written x y) \<and> rw_count (current_window opts now (window_of opts (el_rate l))) < lo_limit opts \<and>
      window_of opts (el_rate l') = Some ((current_window opts now (window_of opts (el_rate l)))
        \<lparr>rw_count := rw_count (current_window opts now (window_of opts (el_rate l))) + 1\<rparr>)
    \<or> (\<nexists>x y. r = Log_written x y) \<and> el_rate l' = el_rate l"
proof (cases "\<exists>x y. r = Log_written x y")
  case True
  then obtain x y state where "check_rate_limit opts now (el_rate l) = Some (True, state)"
      "el_rate l' = (case state of None \<Rightarrow> el_rate l | Some st \<Rightarrow> st)"
    using append_written assms(2) by blast
  then show ?thesis using True assms(1)
    by (auto simp: check_rate_limit_def limited_def window_of_def Let_def split: if_splits rate_file.splits)
next
  case False
  then show ?thesis using assms(2)
    by (auto simp: append_event_def Let_def split: if_splits option.splits prod.splits bool.splits)
qed

lemma current_kept:
  "window_of opts rate = Some \<lparr>rw_start = Some s, rw_count = c\<rparr> \<Longrightarrow> now < s + lo_window opts \<Longrightarrow>
     current_window opts now (window_of opts rate) = \<lparr>rw_start = Some s, rw_count = c\<rparr>"
  by (simp add: current_window_def time_before_def time_add_def)

lemma current_cases:
  "current_window opts now w = \<lparr>rw_start = Some (stamp_second now), rw_count = 0\<rparr> \<or>
     (\<exists>v s. w = Some v \<and> rw_start v = Some s \<and> now < s + lo_window opts \<and> current_window opts now w = v)"
  by (auto simp: current_window_def time_before_def time_add_def split: option.splits)

text \<open>Within one window no more is written than the limit leaves.\<close>

lemma run_in_window:
  assumes "limited opts" "window_of opts (el_rate l) = Some \<lparr>rw_start = Some s, rw_count = c\<rparr>"
    "b < s + lo_window opts"
  shows "c \<le> lo_limit opts \<Longrightarrow> \<forall>(flt, now, payload)\<in>set es. now \<le> b \<Longrightarrow>
    int (written_within a b (fst (append_run opts path es l))) \<le> lo_limit opts - c"
  using assms(2)
proof (induction es arbitrary: l c)
  case Nil
  then show ?case by (simp add: written_within_def)
next
  case (Cons e es)
  obtain flt now payload where e: "e = (flt, now, payload)" by (cases e)
  obtain r l1 where r: "append_event flt opts path now payload l = (r, l1)" by fastforce
  have cur: "current_window opts now (window_of opts (el_rate l)) = \<lparr>rw_start = Some s, rw_count = c\<rparr>"
    by (rule current_kept) (use Cons.prems e assms(3) in auto)
  have rest: "int (written_within a b (fst (append_run opts path es l1))) \<le> lo_limit opts - c'"
    if "c' \<le> lo_limit opts" "window_of opts (el_rate l1) = Some \<lparr>rw_start = Some s, rw_count = c'\<rparr>" for c'
    using Cons.IH [OF that(1) _ that(2)] Cons.prems by simp
  from append_counts [OF assms(1) r] show ?case
  proof
    assume "(\<exists>x y. r = Log_written x y) \<and> rw_count (current_window opts now (window_of opts (el_rate l))) < lo_limit opts \<and>
      window_of opts (el_rate l1) = Some ((current_window opts now (window_of opts (el_rate l)))
        \<lparr>rw_count := rw_count (current_window opts now (window_of opts (el_rate l))) + 1\<rparr>)"
    then have "window_of opts (el_rate l1) = Some \<lparr>rw_start = Some s, rw_count = c + 1\<rparr>" "c + 1 \<le> lo_limit opts"
      by (simp_all add: cur)
    from rest [OF this(2,1)] show ?thesis by (auto simp: e r Let_def split_beta written_within_def)
  next
    assume "(\<nexists>x y. r = Log_written x y) \<and> el_rate l1 = el_rate l"
    then show ?thesis using rest [OF Cons.prems(1)] Cons.prems(3) by (auto simp: e r Let_def split_beta written_within_def)
  qed
qed

definition rate_left :: "log_options \<Rightarrow> rate_file \<Rightarrow> int" where
  "rate_left opts rate = (case window_of opts rate of None \<Rightarrow> 0 | Some v \<Rightarrow> max 0 (lo_limit opts - rw_count v))"

lemma stamp_second_close: "now - nanos < stamp_second now"
  using pos_mod_bound [of nanos now] by (simp add: stamp_second_def nanos_def)

lemma run_over_reset:
  assumes lim: "limited opts" and width: "b \<le> a + lo_window opts - nanos"
  shows "\<forall>(flt, now, payload)\<in>set es. a \<le> now \<and> now \<le> b \<Longrightarrow>
    int (written_within a b (fst (append_run opts path es l))) \<le> rate_left opts (el_rate l) + lo_limit opts"
proof (induction es arbitrary: l)
  case Nil
  then show ?case using lim by (auto simp: written_within_def rate_left_def limited_def split: option.splits)
next
  case (Cons e es)
  obtain flt now payload where e: "e = (flt, now, payload)" by (cases e)
  obtain r l1 where r: "append_event flt opts path now payload l = (r, l1)" by fastforce
  have IH: "int (written_within a b (fst (append_run opts path es l1))) \<le> rate_left opts (el_rate l1) + lo_limit opts"
    by (rule Cons.IH) (use Cons.prems in auto)
  have head: "int (written_within a b (fst (append_run opts path (e # es) l))) \<le>
      (if \<exists>x y. r = Log_written x y then 1 else 0) + int (written_within a b (fst (append_run opts path es l1)))"
    by (simp add: e r Let_def split_beta written_within_def)
  let ?cur = "current_window opts now (window_of opts (el_rate l))"
  have pos: "0 < lo_limit opts" using lim by (simp add: limited_def)
  from append_counts [OF lim r] show ?case
  proof
    assume w: "(\<exists>x y. r = Log_written x y) \<and> rw_count ?cur < lo_limit opts \<and>
      window_of opts (el_rate l1) = Some (?cur\<lparr>rw_count := rw_count ?cur + 1\<rparr>)"
    from current_cases [of opts now "window_of opts (el_rate l)"] show ?thesis
    proof
      assume reset: "?cur = \<lparr>rw_start = Some (stamp_second now), rw_count = 0\<rparr>"
      have close: "b < stamp_second now + lo_window opts"
        using width Cons.prems e stamp_second_close [of now] by auto
      have "int (written_within a b (fst (append_run opts path es l1))) \<le> lo_limit opts - 1"
        by (rule run_in_window [OF lim _ close]) (use w reset Cons.prems pos in auto)
      moreover have "0 \<le> rate_left opts (el_rate l)" by (simp add: rate_left_def split: option.splits)
      ultimately show ?thesis using head w by simp
    next
      assume "\<exists>v s. window_of opts (el_rate l) = Some v \<and> rw_start v = Some s \<and> now < s + lo_window opts \<and> ?cur = v"
      then obtain v where v: "window_of opts (el_rate l) = Some v" "?cur = v" by blast
      then have "rate_left opts (el_rate l1) = rate_left opts (el_rate l) - 1"
        using w unfolding v(2) by (simp add: rate_left_def v(1))
      then show ?thesis using head IH w by simp
    qed
  next
    assume "(\<nexists>x y. r = Log_written x y) \<and> el_rate l1 = el_rate l"
    then show ?thesis using head IH by simp
  qed
qed

text \<open>
  C31. The limit of the event log is one per window, twice the limit across windows: where the limit is
  on (its three options set), of events whose times lie within a stretch that is a second shorter than
  the window, at most twice the limit are reported as written, whatever the saved state, the contents
  and the disk are; a saved count below zero, which the program never writes, lets that many more
  through. (The second is lost because the start of a window is saved with the precision of a second.)
\<close>

theorem event_rate_bounded:
  assumes "limited opts" "b \<le> a + lo_window opts - nanos"
    "\<forall>(flt, now, payload)\<in>set es. a \<le> now \<and> now \<le> b"
  shows "int (length (filter (\<lambda>(t, r). \<exists>x y. r = Log_written x y) (fst (append_run opts path es l)))) \<le>
    2 * lo_limit opts + (case window_of opts (el_rate l) of None \<Rightarrow> 0 | Some v \<Rightarrow> max 0 (- rw_count v))"
proof -
  have times: "\<forall>(flt, now, payload)\<in>set es. a \<le> now \<and> now \<le> b \<Longrightarrow>
      filter (\<lambda>(t, r). a \<le> t \<and> t \<le> b \<and> (\<exists>x y. r = Log_written x y)) (fst (append_run opts path es l)) =
      filter (\<lambda>(t, r). \<exists>x y. r = Log_written x y) (fst (append_run opts path es l))" for l
    by (induction es arbitrary: l) (auto simp: Let_def split_beta)
  have "rate_left opts (el_rate l) \<le>
      lo_limit opts + (case window_of opts (el_rate l) of None \<Rightarrow> 0 | Some v \<Rightarrow> max 0 (- rw_count v))"
    using assms(1) by (auto simp: rate_left_def limited_def split: option.splits)
  then show ?thesis
    using run_over_reset [OF assms(1-3), of path l] times [OF assms(3), of l] by (simp add: written_within_def)
qed

theorem event_rate_bounded_witness:
  "length (filter (\<lambda>(t, r). \<exists>x y. r = Log_written x y)
     (fst (append_run demo_log_options ''l'' (map (\<lambda>t. (no_log_faults, t * nanos, Some ''c'')) [0..50]) demo_log))) \<le> 4"
proof -
  have trim: "trim_space ''k'' = ''k''" by (rule trim_visible) (simp add: visible_def)
  have "int (length (filter (\<lambda>(t, r). \<exists>x y. r = Log_written x y)
     (fst (append_run demo_log_options ''l'' (map (\<lambda>t. (no_log_faults, t * nanos, Some ''c'')) [0..50]) demo_log)))) \<le> 2 * lo_limit demo_log_options"
    by (rule order_trans [OF event_rate_bounded [of _ "50 * nanos" 0]])
      (auto simp: limited_def demo_log_options_def demo_log_def window_of_def trim nanos_def)
  then show ?thesis by (simp add: demo_log_options_def)
qed

text \<open>
  An event whose count could not be saved is in the log although the call reports an error, and is
  not counted: while the state cannot be written, nothing is limited.
\<close>

lemma uncounted_event:
  assumes "append_event flt opts path now payload l = (r, l')" "lf_state flt" "limited opts"
  shows "el_rate l' = el_rate l \<and> r \<noteq> Log_written x y"
  using assms by (auto simp: append_event_def check_rate_limit_def limited_def Let_def
      split: if_splits option.splits prod.splits bool.splits)

end
