(* ===== verification/Flags.thy ===== *)
theory Flags
  imports Strings
begin

text \<open>
  Go's package flag as the command line program uses it (\<^verbatim>\<open>cmd/kiro-cli/main.go\<close>): text, switch and
  number flags, read from the arguments up to the first one that is no flag. A set of flags is a
  list of names with their kinds and defaults.
\<close>

datatype flag_value = Text_value (text_of: string) | Switch_value (switch_of: bool) | Number_value (number_of: int)

type_synonym flag_set = "(string \<times> flag_value) list"

type_synonym flag_values = "string \<rightharpoonup> flag_value"

subsection \<open>Values\<close>

definition parse_bool :: "string \<Rightarrow> bool option" where
  "parse_bool s =
     (if s \<in> set [''1'', ''t'', ''T'', ''TRUE'', ''true'', ''True''] then Some True
      else if s \<in> set [''0'', ''f'', ''F'', ''FALSE'', ''false'', ''False''] then Some False else None)"

text \<open>\<^verbatim>\<open>strconv.ParseInt(s, 0, 64)\<close>: a sign, a prefix for the base, digits and underscores between digits.\<close>

definition base_of :: "string \<Rightarrow> int \<times> string" where
  "base_of s =
     (if prefix ''0'' s
      then (if 3 \<le> length s \<and> lower_char (s ! 1) = CHR ''b'' then (2, drop 2 s)
            else if 3 \<le> length s \<and> lower_char (s ! 1) = CHR ''o'' then (8, drop 2 s)
            else if 3 \<le> length s \<and> lower_char (s ! 1) = CHR ''x'' then (16, drop 2 s)
            else (8, drop 1 s))
      else (10, s))"

definition digit_in :: "char \<Rightarrow> int option" where
  "digit_in c =
     (case digit_val c of Some d \<Rightarrow> Some d
      | None \<Rightarrow> (let n = of_char (lower_char c) :: nat
                 in if 97 \<le> n \<and> n \<le> 122 then Some (int n - 87) else None))"

fun uint_acc :: "int \<Rightarrow> int \<Rightarrow> string \<Rightarrow> int option" where
  "uint_acc base acc [] = Some acc"
| "uint_acc base acc (c # s) =
     (if c = CHR ''_'' then uint_acc base acc s
      else (case digit_in c of None \<Rightarrow> None
            | Some d \<Rightarrow> if base \<le> d then None else uint_acc base (acc * base + d) s))"

text \<open>The last character seen: a digit (or the prefix), an underscore, another, or none.\<close>

datatype last_seen = At_start | Seen_digit | Seen_underscore | Seen_other

fun underscores_loop :: "bool \<Rightarrow> last_seen \<Rightarrow> string \<Rightarrow> bool" where
  "underscores_loop hex i [] = (i \<noteq> Seen_underscore)"
| "underscores_loop hex i (c # s) =
     (if digit_val c \<noteq> None \<or> (hex \<and> (let n = of_char (lower_char c) :: nat in 97 \<le> n \<and> n \<le> 102))
      then underscores_loop hex Seen_digit s
      else if c = CHR ''_'' then (if i \<noteq> Seen_digit then False else underscores_loop hex Seen_underscore s)
      else if i = Seen_underscore then False else underscores_loop hex Seen_other s)"

definition underscores_ok :: "string \<Rightarrow> bool" where
  "underscores_ok s =
     (if 2 \<le> length s \<and> s ! 0 = CHR ''0'' \<and> lower_char (s ! 1) \<in> set ''box''
      then underscores_loop (lower_char (s ! 1) = CHR ''x'') Seen_digit (drop 2 s)
      else underscores_loop False At_start s)"

definition parse_int_any :: "string \<Rightarrow> int option" where
  "parse_int_any s0 =
     (let neg = prefix ''-'' s0; s = (if neg \<or> prefix ''+'' s0 then drop 1 s0 else s0)
      in if s = [] then None
         else
           let (base, digits) = base_of s
           in case uint_acc base 0 digits of
                None \<Rightarrow> None
              | Some n \<Rightarrow>
                  if CHR ''_'' \<in> set digits \<and> \<not> underscores_ok s then None
                  else if neg then (if n \<le> 2 ^ 63 then Some (- n) else None)
                  else if n < 2 ^ 63 then Some n else None)"

text \<open>The value a text gives to a flag of the kind of a default.\<close>

definition read_flag :: "flag_value \<Rightarrow> string \<Rightarrow> flag_value option" where
  "read_flag kind s =
     (case kind of
        Text_value _ \<Rightarrow> Some (Text_value s)
      | Switch_value _ \<Rightarrow> map_option Switch_value (parse_bool s)
      | Number_value _ \<Rightarrow> map_option Number_value (parse_int_any s))"

subsection \<open>Parsing\<close>

datatype flag_result = Parsed flag_values "string list" | Bad_flags | Help_wanted

text \<open>A name with its value after the first equality sign.\<close>

definition split_value :: "string \<Rightarrow> string \<times> string option" where
  "split_value s =
     (if CHR ''='' \<in> set s
      then (takeWhile (\<lambda>c. c \<noteq> CHR ''='') s, Some (tl (dropWhile (\<lambda>c. c \<noteq> CHR ''='') s))) else (s, None))"

function parse_flags :: "flag_set \<Rightarrow> flag_values \<Rightarrow> string list \<Rightarrow> flag_result" where
  "parse_flags fs v [] = Parsed v []"
| "parse_flags fs v (s # rest) =
     (if length s < 2 \<or> hd s \<noteq> CHR ''-'' then Parsed v (s # rest)
      else if s = ''--'' then Parsed v rest
      else
        let name0 = (if s ! 1 = CHR ''-'' then drop 2 s else drop 1 s); (name, given) = split_value name0
        in if name0 = [] \<or> hd name0 = CHR ''-'' \<or> hd name0 = CHR ''='' then Bad_flags
           else (case map_of fs name of
                   None \<Rightarrow> if name = ''help'' \<or> name = ''h'' then Help_wanted else Bad_flags
                 | Some kind \<Rightarrow>
                     (case (kind, given, rest) of
                        (Switch_value _, None, _) \<Rightarrow> parse_flags fs (v(name \<mapsto> Switch_value True)) rest
                      | (_, Some x, _) \<Rightarrow>
                          (case read_flag kind x of None \<Rightarrow> Bad_flags | Some y \<Rightarrow> parse_flags fs (v(name \<mapsto> y)) rest)
                      | (_, None, x # rest') \<Rightarrow>
                          (case read_flag kind x of None \<Rightarrow> Bad_flags | Some y \<Rightarrow> parse_flags fs (v(name \<mapsto> y)) rest')
                      | (_, None, []) \<Rightarrow> Bad_flags)))"
  by pat_completeness auto
termination by (relation "measure (\<lambda>(fs, v, args). length args)") auto

declare parse_flags.simps(2) [simp del]

definition parse_args :: "flag_set \<Rightarrow> string list \<Rightarrow> flag_result" where
  "parse_args fs args = parse_flags fs (map_of fs) args"

subsection \<open>What is given is read\<close>

text \<open>A name as the flags have them: no dash or equality sign at its front, no equality sign in it.\<close>

definition flag_name :: "string \<Rightarrow> bool" where
  "flag_name n \<longleftrightarrow> n \<noteq> [] \<and> hd n \<noteq> CHR ''-'' \<and> CHR ''='' \<notin> set n"

lemma split_value_given [simp]: "flag_name n \<Longrightarrow> split_value (n @ CHR ''='' # x) = (n, Some x)"
  by (simp add: split_value_def flag_name_def takeWhile_append dropWhile_append)

lemma split_value_bare [simp]: "flag_name n \<Longrightarrow> split_value n = (n, None)"
  by (simp add: split_value_def flag_name_def)

lemma name_head: "flag_name n \<Longrightarrow> hd n \<noteq> CHR ''=''"
  by (cases n) (auto simp: flag_name_def)

text \<open>The two ways to give a text flag, with any text.\<close>

lemma parse_given:
  assumes "flag_name n" "map_of fs n = Some (Text_value d)"
  shows "parse_flags fs v ((''--'' @ n @ ''='' @ x) # rest) = parse_flags fs (v(n \<mapsto> Text_value x)) rest"
    and "parse_flags fs v ((''--'' @ n) # x # rest) = parse_flags fs (v(n \<mapsto> Text_value x)) rest"
proof -
  have n: "n \<noteq> []" "hd n \<noteq> CHR ''-''" "hd n \<noteq> CHR ''=''" using assms(1) name_head by (auto simp: flag_name_def)
  have split: "split_value (n @ CHR ''='' # x) = (n, Some x)" "split_value n = (n, None)" using assms(1) by simp_all
  show "parse_flags fs v ((''--'' @ n @ ''='' @ x) # rest) = parse_flags fs (v(n \<mapsto> Text_value x)) rest"
    using n by (simp add: parse_flags.simps(2) split assms(2) read_flag_def)
  show "parse_flags fs v ((''--'' @ n) # x # rest) = parse_flags fs (v(n \<mapsto> Text_value x)) rest"
    using n by (simp add: parse_flags.simps(2) split assms(2) read_flag_def)
qed

definition given_arg :: "bool \<Rightarrow> string \<times> string \<Rightarrow> string list" where
  "given_arg joined_form nv = (if joined_form then [''--'' @ fst nv @ ''='' @ snd nv] else [''--'' @ fst nv, snd nv])"

fun give :: "flag_values \<Rightarrow> bool \<times> string \<times> string \<Rightarrow> flag_values" where
  "give v (form, n, x) = v(n \<mapsto> Text_value x)"

lemma parse_given_all:
  assumes "\<forall>(form, n, x)\<in>set gs. flag_name n \<and> (\<exists>d. map_of fs n = Some (Text_value d))"
  shows "parse_flags fs v (concat (map (\<lambda>(form, nv). given_arg form nv) gs) @ rest) =
    parse_flags fs (foldl give v gs) rest"
  using assms
proof (induction gs arbitrary: v)
  case (Cons g gs)
  obtain form n x where g: "g = (form, n, x)" by (cases g)
  then obtain d where d: "flag_name n" "map_of fs n = Some (Text_value d)" using Cons.prems by auto
  have IH: "parse_flags fs w (concat (map (\<lambda>(form, nv). given_arg form nv) gs) @ rest) =
      parse_flags fs (foldl give w gs) rest" for w
    by (rule Cons.IH) (use Cons.prems in simp)
  show ?case
    using parse_given [OF d, of v x "concat (map (\<lambda>(form, nv). given_arg form nv) gs) @ rest"] IH [of "v(n \<mapsto> Text_value x)"]
    by (cases form) (simp_all add: g given_arg_def)
qed simp

text \<open>
  What is given to the program is what it reads: for any texts, also ones that begin with a dash
  or contain equality signs or spaces, given to text flags in either of the two forms, the parser
  takes every one of them, the later winning, and leaves no argument over.
\<close>

theorem given_flags_read:
  assumes "\<forall>(form, n, x)\<in>set gs. flag_name n \<and> (\<exists>d. map_of fs n = Some (Text_value d))"
  shows "parse_args fs (concat (map (\<lambda>(form, nv). given_arg form nv) gs)) = Parsed (foldl give (map_of fs) gs) []"
  using parse_given_all [OF assms, of "map_of fs" "[]"] by (simp add: parse_args_def)

theorem given_flags_read_witness:
  "parse_args [(''mode'', Text_value []), (''x'', Switch_value False)] [''--mode'', ''--x=1'', ''--mode=a=b''] =
     Parsed ((map_of [(''mode'', Text_value []), (''x'', Switch_value False)])(''mode'' \<mapsto> Text_value ''a=b'')) []"
  using given_flags_read [of "[(False, ''mode'', ''--x=1''), (True, ''mode'', ''a=b'')]"
      "[(''mode'', Text_value []), (''x'', Switch_value False)]"]
  by (simp add: given_arg_def flag_name_def)

text \<open>A number in decimal notation is read as itself.\<close>

lemma digit_in_digit_char: "0 \<le> d \<Longrightarrow> d < 10 \<Longrightarrow> digit_in (digit_char d) = Some d"
  by (simp add: digit_in_def)

lemma nothing_after_positional: "s = [] \<or> hd s \<noteq> CHR ''-'' \<Longrightarrow> parse_args fs (s # rest) = Parsed (map_of fs) (s # rest)"
  by (auto simp: parse_args_def parse_flags.simps(2))

text \<open>A text value other than the one before comes from an argument, alone or after an equality sign.\<close>

lemma split_value_suffix: "split_value s = (n, Some x) \<Longrightarrow> suffix (''='' @ x) s"
proof -
  assume split: "split_value s = (n, Some x)"
  then have eq: "CHR ''='' \<in> set s" "x = tl (dropWhile (\<lambda>c. c \<noteq> CHR ''='') s)" by (auto simp: split_value_def split: if_splits)
  then have ne: "dropWhile (\<lambda>c. c \<noteq> CHR ''='') s \<noteq> []" by (simp add: dropWhile_eq_Nil_conv)
  have "hd (dropWhile (\<lambda>c. c \<noteq> CHR ''='') s) = CHR ''=''" using hd_dropWhile [OF ne] by simp
  then have "dropWhile (\<lambda>c. c \<noteq> CHR ''='') s = CHR ''='' # x" using eq(2) ne by (metis list.collapse)
  then show ?thesis using suffix_dropWhile [of "\<lambda>c. c \<noteq> CHR ''=''" s] by simp
qed

lemma read_flag_text: "read_flag kind s = Some (Text_value x) \<Longrightarrow> s = x"
  by (auto simp: read_flag_def split: flag_value.splits)

definition said :: "string list \<Rightarrow> string \<Rightarrow> bool" where
  "said args x \<longleftrightarrow> (\<exists>a\<in>set args. a = x \<or> suffix (''='' @ x) a)"

lemma said_subset: "set args \<subseteq> set args' \<Longrightarrow> said args x \<Longrightarrow> said args' x"
  by (auto simp: said_def)

text \<open>One argument, or an argument and its value, is read.\<close>

lemma parse_step:
  assumes "parse_flags fs v (s # rest) = Parsed v' r"
  shows "v' = v \<or> (\<exists>name y rest'. parse_flags fs (v(name \<mapsto> y)) rest' = Parsed v' r \<and> length rest' \<le> length rest \<and>
    set rest' \<subseteq> set rest \<and> (\<forall>x. y = Text_value x \<longrightarrow> said (s # rest) x))"
proof (cases "length s < 2 \<or> hd s \<noteq> CHR ''-'' \<or> s = ''--''")
  case True
  then show ?thesis using assms by (auto simp: parse_flags.simps(2) split: if_splits)
next
  case False
  define name0 where "name0 = (if s ! 1 = CHR ''-'' then drop 2 s else drop 1 s)"
  obtain name given where split: "split_value name0 = (name, given)" by fastforce
  have suf: "suffix name0 s" by (simp add: name0_def suffix_drop)
  have step: "parse_flags fs v (s # rest) =
      (if name0 = [] \<or> hd name0 = CHR ''-'' \<or> hd name0 = CHR ''='' then Bad_flags
       else (case map_of fs name of
               None \<Rightarrow> if name = ''help'' \<or> name = ''h'' then Help_wanted else Bad_flags
             | Some kind \<Rightarrow>
                 (case (kind, given, rest) of
                    (Switch_value _, None, _) \<Rightarrow> parse_flags fs (v(name \<mapsto> Switch_value True)) rest
                  | (_, Some x, _) \<Rightarrow>
                      (case read_flag kind x of None \<Rightarrow> Bad_flags | Some y \<Rightarrow> parse_flags fs (v(name \<mapsto> y)) rest)
                  | (_, None, x # rest') \<Rightarrow>
                      (case read_flag kind x of None \<Rightarrow> Bad_flags | Some y \<Rightarrow> parse_flags fs (v(name \<mapsto> y)) rest')
                  | (_, None, []) \<Rightarrow> Bad_flags)))"
  proof -
    have conds: "(length s < 2 \<or> hd s \<noteq> CHR ''-'') = False" "(s = ''--'') = False" using False by simp_all
    show ?thesis
      unfolding parse_flags.simps(2) name0_def [symmetric] Let_def split prod.case conds if_False by (rule refl)
  qed
  obtain kind where kind: "map_of fs name = Some kind" and ok: "\<not> (name0 = [] \<or> hd name0 = CHR ''-'' \<or> hd name0 = CHR ''='')"
    using assms step by (auto split: if_splits option.splits)
  show ?thesis
  proof (cases given)
    case (Some x)
    then obtain y where y: "read_flag kind x = Some y" "parse_flags fs (v(name \<mapsto> y)) rest = Parsed v' r"
      using assms step kind ok by (auto split: option.splits flag_value.splits)
    have "said (s # rest) z" if "y = Text_value z" for z
    proof -
      have "x = z" using read_flag_text y(1) that by blast
      then have "suffix (''='' @ z) s" using split_value_suffix split Some suf suffix_order.trans by blast
      then show ?thesis by (auto simp: said_def)
    qed
    then show ?thesis using y(2) by blast
  next
    case None
    show ?thesis
    proof (cases "\<exists>b. kind = Switch_value b")
      case True
      then have "parse_flags fs (v(name \<mapsto> Switch_value True)) rest = Parsed v' r"
        using assms step kind ok None by (auto split: list.splits)
      then show ?thesis by blast
    next
      case False
      then obtain x rest' y where "rest = x # rest'" "read_flag kind x = Some y" "parse_flags fs (v(name \<mapsto> y)) rest' = Parsed v' r"
        using assms step kind ok None by (cases kind) (auto split: list.splits option.splits)
      moreover have "said (s # x # rest') z" if "y = Text_value z" for z
        using read_flag_text \<open>read_flag kind x = Some y\<close> that by (auto simp: said_def)
      ultimately show ?thesis by (metis le_Suc_eq length_Cons order_refl set_subset_Cons)
    qed
  qed
qed

lemma text_from_args:
  "parse_flags fs v args = Parsed v' r \<Longrightarrow> v' n = Some (Text_value x) \<Longrightarrow> v n = Some (Text_value x) \<or> said args x"
proof (induction args arbitrary: v rule: length_induct)
  case (1 args)
  show ?case
  proof (cases args)
    case Nil
    then show ?thesis using 1 by simp
  next
    case (Cons s rest)
    from parse_step [OF 1(2) [unfolded Cons]] show ?thesis
    proof (elim disjE exE conjE)
      assume "v' = v"
      then show ?thesis using 1(3) by simp
    next
      fix name y rest'
      assume next_parse: "parse_flags fs (v(name \<mapsto> y)) rest' = Parsed v' r" and len: "length rest' \<le> length rest"
        and sub: "set rest' \<subseteq> set rest" and y: "\<forall>x. y = Text_value x \<longrightarrow> said (s # rest) x"
      have "(v(name \<mapsto> y)) n = Some (Text_value x) \<or> said rest' x"
        using 1(1) [rule_format, of rest' "v(name \<mapsto> y)"] Cons len next_parse 1(3) by simp
      then show ?thesis
      proof
        assume "(v(name \<mapsto> y)) n = Some (Text_value x)"
        then show ?thesis using y Cons by (auto split: if_splits)
      next
        assume "said rest' x"
        then show ?thesis using said_subset [of rest' args x] sub Cons by auto
      qed
    qed
  qed
qed

end
