(* ===== verification/CliUpdate.thy ===== *)
theory CliUpdate
  imports Updater
begin

text \<open>
  The update commands of the command line program, \<^verbatim>\<open>cmd/kiro-cli/update/update.go\<close>: the check,
  the installation with its backup and its way back, and the rollback.

  The state is the list of the disks the command has gone through, the newest first, so that a
  theorem about every element is one about a process that is killed in between. What a loss of power
  leaves of files that were never synced is not modelled here (see FileSteps). The master's answer,
  the download server, the clock, systemctl and the operations that fail are arguments.
\<close>

subsection \<open>Steps on the disk\<close>

datatype cli_op =
    Op_create | Op_read | Op_backup | Op_replace | Op_undo | Op_chmod | Op_restart | Op_out | Op_back
  | Op_restart_back | Op_remove | Op_stat

datatype cli_error =
    No_master | No_component | No_binary | No_service | Check_failed | Check_status nat | Check_undecodable
  | No_release_panic | Download_failed | Hash_unreadable | Hash_mismatch | Backup_refused fs_error | Replace_refused fs_error
  | Restart_refused | Rollback_refused fs_error | Rollback_restart_refused | Unhealthy_rolled_back
  | No_backup | Backup_hidden | Restore_refused fs_error

type_synonym disk_history = "file_system list"

definition do_rename :: "string \<Rightarrow> string \<Rightarrow> bool \<Rightarrow> disk_history \<Rightarrow> fs_error option \<times> disk_history" where
  "do_rename src dst faulty h = (case os_rename src dst faulty (hd h) of (e, s) \<Rightarrow> (e, s # h))"

definition do_remove :: "string \<Rightarrow> bool \<Rightarrow> disk_history \<Rightarrow> disk_history" where
  "do_remove path faulty h = (if faulty then hd h else os_remove path (hd h)) # h"

definition do_put :: "string \<Rightarrow> disk_file \<Rightarrow> disk_history \<Rightarrow> disk_history" where
  "do_put path f h = (hd h)\<lparr>fs_files := (fs_files (hd h))(path \<mapsto> f)\<rparr> # h"

definition normalize_sha :: "string \<Rightarrow> string" where
  "normalize_sha value0 =
     (let value1 = trim_space value0
      in go_lower (if prefix ''sha256:'' (go_lower value1) then drop 7 value1 else value1))"

definition file_digest :: "disk_file \<Rightarrow> string" where
  "file_digest f = hex_encode (sha256 (df_data f))"

subsection \<open>The check\<close>

text \<open>The master's answer to the request, which both commands send; None: not available.\<close>

definition cli_release :: "string \<Rightarrow> string \<Rightarrow> check_answer \<Rightarrow> cli_error + update_info option" where
  "cli_release master component answer =
     (if master = [] then Inl No_master
      else if component = [] then Inl No_component
      else (case answer of
              No_answer \<Rightarrow> Inl Check_failed
            | Status_answer code \<Rightarrow> if code \<noteq> 200 then Inl (Check_status code) else Inl Check_undecodable
            | Undecodable \<Rightarrow> Inl Check_undecodable
            | Decoded available release \<Rightarrow>
                if \<not> available then Inr None
                else (case release of None \<Rightarrow> Inl No_release_panic | Some i \<Rightarrow> Inr (Some i))))"

definition cli_endpoint :: "string \<Rightarrow> string" where
  "cli_endpoint master = trim_right_char CHR ''/'' master @ ''/api/v1/update/check''"

definition cli_channel :: "string \<Rightarrow> string" where
  "cli_channel channel = (if channel = [] then ''stable'' else channel)"

subsection \<open>The installation\<close>

text \<open>The file is created, then written; the error of closing it is not looked at.\<close>

definition cli_download :: "(cli_op \<Rightarrow> bool) \<Rightarrow> download_answer \<Rightarrow> string \<Rightarrow> disk_history \<Rightarrow> bool \<times> disk_history" where
  "cli_download faulty dl path h =
     (case da_status dl of None \<Rightarrow> (False, h)
      | Some code \<Rightarrow>
          if code < 200 \<or> 300 \<le> code \<or> faulty Op_create \<or> \<not> fs_dir (hd h) path then (False, h)
          else
            let mode = (case fs_files (hd h) path of None \<Rightarrow> 420 | Some g \<Rightarrow> df_mode g)
            in (da_complete dl \<and> da_takes dl \<le> minutes 5,
                do_put path \<lparr>df_data = da_body dl, df_mode = mode\<rparr> (do_put path \<lparr>df_data = [], df_mode = mode\<rparr> h)))"

text \<open>
  \<^verbatim>\<open>healthCheck\<close>: a clock reading and the output of \<^verbatim>\<open>systemctl is-active\<close> (None: it failed) per
  round; None: the rounds given do not reach the end.
\<close>

fun wait_active :: "gotime \<Rightarrow> (gotime \<times> string option) list \<Rightarrow> bool option" where
  "wait_active deadline [] = None"
| "wait_active deadline ((now, out) # rounds) =
     (if \<not> time_before now deadline then Some False
      else if map_option trim_space out = Some ''active'' then Some True
      else wait_active deadline rounds)"

text \<open>The steps after the verification, up to the restart: an error, or none and the service is to be probed.\<close>

definition cli_replace :: "(cli_op \<Rightarrow> bool) \<Rightarrow> string \<Rightarrow> disk_history \<Rightarrow> cli_error option \<times> disk_history" where
  "cli_replace faulty bin h =
     (let bak = bin @ ''.bak''; new = bin @ ''.download''
      in case do_rename bin bak (faulty Op_backup) h of
           (Some e, h1) \<Rightarrow> (Some (Backup_refused e), do_remove new (faulty Op_remove) h1)
         | (None, h1) \<Rightarrow>
             (case do_rename new bin (faulty Op_replace) h1 of
                (Some e, h2) \<Rightarrow> (Some (Replace_refused e), snd (do_rename bak bin (faulty Op_undo) h2))
              | (None, h2) \<Rightarrow>
                  let h3 = snd (os_chmod bin 493 (faulty Op_chmod) (hd h2)) # h2
                  in if faulty Op_restart
                     then (Some Restart_refused,
                           do_remove new (faulty Op_remove)
                             (snd (do_rename bak bin (faulty Op_back) (snd (do_rename bin new (faulty Op_out) h3)))))
                     else (None, h3)))"

definition cli_finish :: "(cli_op \<Rightarrow> bool) \<Rightarrow> string \<Rightarrow> bool \<Rightarrow> disk_history \<Rightarrow> cli_error option \<times> disk_history" where
  "cli_finish faulty bin healthy h =
     (let bak = bin @ ''.bak''
      in if healthy then (None, do_remove bak (faulty Op_remove) h)
         else (case do_rename bak bin (faulty Op_back) (do_remove bin (faulty Op_out) h) of
                 (Some e, h1) \<Rightarrow> (Some (Rollback_refused e), h1)
               | (None, h1) \<Rightarrow> (Some (if faulty Op_restart_back then Rollback_restart_refused else Unhealthy_rolled_back), h1)))"

text \<open>
  Everything after the check, and the command. Where the probe rounds given do not reach the end, the
  command is still probing (None, Cli_probing).
\<close>

definition cli_install :: "(cli_op \<Rightarrow> bool) \<Rightarrow> update_info \<Rightarrow> download_answer \<Rightarrow> gotime \<Rightarrow> (gotime \<times> string option) list \<Rightarrow> string \<Rightarrow>
    disk_history \<Rightarrow> cli_error option option \<times> disk_history" where
  "cli_install faulty info dl start rounds bin h =
     (let new = bin @ ''.download''
      in case cli_download faulty dl new h of
           (False, h1) \<Rightarrow> (Some (Some Download_failed), do_remove new (faulty Op_remove) h1)
         | (True, h1) \<Rightarrow>
             (case fs_files (hd h1) new of
                None \<Rightarrow> (Some (Some Hash_unreadable), do_remove new (faulty Op_remove) h1)
              | Some f \<Rightarrow>
                  if faulty Op_read then (Some (Some Hash_unreadable), do_remove new (faulty Op_remove) h1)
                  else if file_digest f \<noteq> normalize_sha (ui_sha info)
                  then (Some (Some Hash_mismatch), do_remove new (faulty Op_remove) h1)
                  else (case cli_replace faulty bin h1 of
                          (Some e, h2) \<Rightarrow> (Some (Some e), h2)
                        | (None, h2) \<Rightarrow>
                            (case wait_active (time_add start (seconds 30)) rounds of
                               None \<Rightarrow> (None, h2)
                             | Some healthy \<Rightarrow> (case cli_finish faulty bin healthy h2 of (e, h3) \<Rightarrow> (Some e, h3))))))"

datatype cli_outcome = Cli_failed cli_error | Cli_current | Cli_done | Cli_probing

definition cli_apply :: "(cli_op \<Rightarrow> bool) \<Rightarrow> check_answer \<Rightarrow> download_answer \<Rightarrow> gotime \<Rightarrow> (gotime \<times> string option) list \<Rightarrow>
    string \<Rightarrow> string \<Rightarrow> string \<Rightarrow> string \<Rightarrow> file_system \<Rightarrow> cli_outcome \<times> disk_history" where
  "cli_apply faulty answer dl start rounds master component bin service fs =
     (if master = [] then (Cli_failed No_master, [fs])
      else if component = [] then (Cli_failed No_component, [fs])
      else if bin = [] then (Cli_failed No_binary, [fs])
      else if service = [] then (Cli_failed No_service, [fs])
      else (case cli_release master component answer of
              Inl e \<Rightarrow> (Cli_failed e, [fs])
            | Inr None \<Rightarrow> (Cli_current, [fs])
            | Inr (Some i) \<Rightarrow>
                (case cli_install faulty i dl start rounds bin [fs] of
                   (None, h) \<Rightarrow> (Cli_probing, h)
                 | (Some None, h) \<Rightarrow> (Cli_done, h)
                 | (Some (Some e), h) \<Rightarrow> (Cli_failed e, h))))"

definition cli_rollback :: "(cli_op \<Rightarrow> bool) \<Rightarrow> string \<Rightarrow> string \<Rightarrow> file_system \<Rightarrow> cli_error option \<times> file_system" where
  "cli_rollback faulty bin service fs =
     (let bak = bin @ ''.bak''
      in if bin = [] then (Some No_binary, fs)
         else if service = [] then (Some No_service, fs)
         else if faulty Op_stat then (Some Backup_hidden, fs)
         else if fs_files fs bak = None then (Some No_backup, fs)
         else (case os_rename bak bin (faulty Op_back) fs of
                 (Some e, fs1) \<Rightarrow> (Some (Restore_refused e), fs1)
               | (None, fs1) \<Rightarrow> (if faulty Op_restart then Some Restart_refused else None, fs1)))"

subsection \<open>The old program is never lost\<close>

text \<open>
  A disk on which the old program is in place, and one on which it is the backup while the place is
  empty or holds a file the verification accepted.
\<close>

definition in_place :: "string \<Rightarrow> disk_file \<Rightarrow> file_system \<Rightarrow> bool" where
  "in_place bin old s \<longleftrightarrow> fs_files s bin = Some old"

definition set_aside :: "(disk_file \<Rightarrow> bool) \<Rightarrow> string \<Rightarrow> disk_file \<Rightarrow> file_system \<Rightarrow> bool" where
  "set_aside good bin old s \<longleftrightarrow> fs_files s (bin @ ''.bak'') = Some old \<and> (\<forall>f. fs_files s bin = Some f \<longrightarrow> good f)"

definition old_kept :: "(disk_file \<Rightarrow> bool) \<Rightarrow> string \<Rightarrow> disk_file \<Rightarrow> file_system \<Rightarrow> bool" where
  "old_kept good bin old s \<longleftrightarrow> in_place bin old s \<or> set_aside good bin old s"

lemma suffix_paths [simp]:
  "bin @ ''.bak'' \<noteq> bin" "bin \<noteq> bin @ ''.bak''" "bin @ ''.download'' \<noteq> bin" "bin \<noteq> bin @ ''.download''"
  "bin @ ''.download'' \<noteq> bin @ ''.bak''" "bin @ ''.bak'' \<noteq> bin @ ''.download''"
  by simp_all

lemma remove_cases: "do_remove path faulty h = s # h \<Longrightarrow> s = hd h \<or> s = os_remove path (hd h)"
  by (auto simp: do_remove_def)

lemma in_place_remove [simp]: "path \<noteq> bin \<Longrightarrow> in_place bin old (os_remove path s) = in_place bin old s"
  by (simp add: in_place_def os_remove_def)

lemma set_aside_remove: "path \<noteq> bin @ ''.bak'' \<Longrightarrow> set_aside good bin old s \<Longrightarrow> set_aside good bin old (os_remove path s)"
  by (simp add: set_aside_def os_remove_def)

lemma old_kept_remove_download:
  "old_kept good bin old s \<Longrightarrow> old_kept good bin old (os_remove (bin @ ''.download'') s)"
  by (auto simp: old_kept_def intro: set_aside_remove)

lemma all_remove_download:
  assumes "h \<noteq> []" "\<forall>s\<in>set h. old_kept good bin old s"
  shows "\<forall>s\<in>set (do_remove (bin @ ''.download'') faulty h). old_kept good bin old s"
  using assms by (auto simp: do_remove_def intro: old_kept_remove_download)

text \<open>The backup goes back into its place, or nothing happens.\<close>

lemma back_in_place:
  assumes "set_aside good bin old s" "os_rename (bin @ ''.bak'') bin faulty s = (e, s')"
  shows "old_kept good bin old s'" "e = None \<Longrightarrow> in_place bin old s'"
proof -
  show restored: "e = None \<Longrightarrow> in_place bin old s'"
    using os_rename_ok [of "bin @ ''.bak''" bin faulty s s'] assms by (simp add: set_aside_def in_place_def)
  show "old_kept good bin old s'"
  proof (cases e)
    case None
    then show ?thesis using restored by (simp add: old_kept_def)
  next
    case (Some x)
    then show ?thesis using os_rename_fails [of "bin @ ''.bak''" bin faulty s x s'] assms by (simp add: old_kept_def)
  qed
qed

text \<open>The program, accepted or not, goes out of its place.\<close>

lemma out_of_place:
  assumes "set_aside good bin old s" "os_rename bin (bin @ ''.download'') faulty s = (e, s')"
  shows "set_aside good bin old s'"
proof (cases e)
  case None
  have "fs_files s' bin = None"
    using assms(2) None by (auto simp: os_rename_def split: option.splits if_splits)
  then show ?thesis
    using os_rename_ok [of bin "bin @ ''.download''" faulty s s'] assms None by (simp add: set_aside_def)
next
  case (Some x)
  then show ?thesis using os_rename_fails [of bin "bin @ ''.download''" faulty s x s'] assms by simp
qed

lemma download_keeps_place:
  assumes "h \<noteq> []" "\<forall>s\<in>set h. in_place bin old s"
  shows "snd (cli_download faulty dl (bin @ ''.download'') h) \<noteq> []"
    and "\<forall>s\<in>set (snd (cli_download faulty dl (bin @ ''.download'') h)). in_place bin old s"
  using assms by (auto simp: cli_download_def do_put_def in_place_def Let_def split: option.splits)

lemma replace_keeps_old:
  assumes h: "h \<noteq> []" "\<forall>s\<in>set h. in_place bin old s" and new: "fs_files (hd h) (bin @ ''.download'') = Some f" "good f"
    and chmod: "\<And>g m. good g \<Longrightarrow> good (g\<lparr>df_mode := m\<rparr>)"
    and run: "cli_replace faulty bin h = (e, h')"
  shows "h' \<noteq> [] \<and> (\<forall>s\<in>set h'. old_kept good bin old s) \<and>
    (e = None \<longrightarrow> set_aside good bin old (hd h') \<and> (\<exists>g. fs_files (hd h') bin = Some g \<and> good g))"
proof -
  let ?bak = "bin @ ''.bak''" and ?new = "bin @ ''.download''"
  have old: "in_place bin old (hd h)" using h by simp
  have kept: "\<forall>s\<in>set h. old_kept good bin old s" using h by (simp add: old_kept_def)
  obtain e1 s1 where s1: "os_rename bin ?bak (faulty Op_backup) (hd h) = (e1, s1)" by fastforce
  show ?thesis
  proof (cases e1)
    case (Some x)
    then have "s1 = hd h" using os_rename_fails s1 by blast
    then have all: "\<forall>s\<in>set (s1 # h). old_kept good bin old s" using kept h(1) by simp
    have "e = Some (Backup_refused x)" "h' = do_remove ?new (faulty Op_remove) (s1 # h)"
      using run by (simp_all add: cli_replace_def do_rename_def Let_def s1 Some)
    then show ?thesis using all_remove_download [OF _ all, of "faulty Op_remove"] by (auto simp: do_remove_def)
  next
    case None
    have place1: "fs_files s1 bin = None"
      using s1 None by (auto simp: os_rename_def split: option.splits if_splits)
    have aside1: "set_aside good bin old s1" and new1: "fs_files s1 ?new = Some f"
      using os_rename_ok [of bin ?bak "faulty Op_backup" "hd h" s1] s1 None old new(1) place1
      by (simp_all add: set_aside_def in_place_def)
    obtain e2 s2 where s2: "os_rename ?new bin (faulty Op_replace) s1 = (e2, s2)" by fastforce
    show ?thesis
    proof (cases e2)
      case (Some x)
      then have "s2 = s1" using os_rename_fails s2 by blast
      obtain e3 s3 where s3: "os_rename ?bak bin (faulty Op_undo) s2 = (e3, s3)" by fastforce
      have "h' = s3 # s2 # s1 # h" "e = Some (Replace_refused x)"
        using run by (simp_all add: cli_replace_def do_rename_def Let_def s1 None s2 Some s3)
      then show ?thesis using kept aside1 \<open>s2 = s1\<close> back_in_place(1) [OF _ s3] by (simp add: old_kept_def)
    next
      case None2: None
      have aside2: "set_aside good bin old s2" and place2: "fs_files s2 bin = Some f"
        using os_rename_ok [of ?new bin "faulty Op_replace" s1 s2] s2 None2 aside1 new1 new(2)
        by (simp_all add: set_aside_def)
      obtain e3 s3 where s3: "os_chmod bin 493 (faulty Op_chmod) s2 = (e3, s3)" by fastforce
      have three: "set_aside good bin old s3 \<and> (\<exists>g. fs_files s3 bin = Some g \<and> good g)"
        using s3 aside2 place2 new(2) chmod by (auto simp: os_chmod_def set_aside_def split: if_splits)
      show ?thesis
      proof (cases "faulty Op_restart")
        case False
        then have "h' = s3 # s2 # s1 # h" "e = None"
          using run by (simp_all add: cli_replace_def do_rename_def Let_def s1 None s2 None2 s3)
        then show ?thesis using kept aside1 aside2 three by (simp add: old_kept_def)
      next
        case True
        obtain e4 s4 where s4: "os_rename bin ?new (faulty Op_out) s3 = (e4, s4)" by fastforce
        obtain e5 s5 where s5: "os_rename ?bak bin (faulty Op_back) s4 = (e5, s5)" by fastforce
        have aside4: "set_aside good bin old s4" using out_of_place three s4 by blast
        have all: "\<forall>s\<in>set (s5 # s4 # s3 # s2 # s1 # h). old_kept good bin old s"
          using kept aside1 aside2 three aside4 back_in_place(1) [OF aside4 s5] by (simp add: old_kept_def)
        have "h' = do_remove ?new (faulty Op_remove) (s5 # s4 # s3 # s2 # s1 # h)" "e = Some Restart_refused"
          using run True by (simp_all add: cli_replace_def do_rename_def Let_def s1 None s2 None2 s3 s4 s5)
        then show ?thesis using all_remove_download [OF _ all, of "faulty Op_remove"] by (auto simp: do_remove_def)
      qed
    qed
  qed
qed

lemma finish_keeps_old:
  assumes h: "h \<noteq> []" "\<forall>s\<in>set h. old_kept good bin old s" and aside: "set_aside good bin old (hd h)"
    and run: "cli_finish faulty bin healthy h = (e, h')"
  shows "h' \<noteq> [] \<and> (\<forall>s\<in>set (if e = None then tl h' else h'). old_kept good bin old s) \<and>
    (e = None \<longrightarrow> fs_files (hd h') bin = fs_files (hd h) bin)"
proof (cases healthy)
  case True
  then show ?thesis using run h by (auto simp: cli_finish_def do_remove_def os_remove_def Let_def)
next
  case False
  define s1 where "s1 = (if faulty Op_out then hd h else os_remove bin (hd h))"
  have aside1: "set_aside good bin old s1" using aside by (simp add: s1_def set_aside_remove)
  obtain e2 s2 where s2: "os_rename (bin @ ''.bak'') bin (faulty Op_back) s1 = (e2, s2)" by fastforce
  have "h' = s2 # s1 # h \<and> e \<noteq> None"
    using run False by (cases e2) (auto simp: cli_finish_def do_remove_def do_rename_def Let_def s1_def [symmetric] s2)
  then show ?thesis using h aside1 back_in_place(1) [OF aside1 s2] by (auto simp: old_kept_def)
qed

text \<open>A file is announced when its SHA-256 is the one of the release in the master's answer.\<close>

definition announced :: "check_answer \<Rightarrow> disk_file \<Rightarrow> bool" where
  "announced answer f \<longleftrightarrow> (\<exists>i. answer = Decoded True (Some i) \<and> file_digest f = normalize_sha (ui_sha i))"

lemma install_keeps_old:
  assumes run: "cli_install faulty i dl start rounds bin h = (r, h')"
    and h: "h \<noteq> []" "\<forall>s\<in>set h. in_place bin old s" and good: "\<And>f. good f = (file_digest f = normalize_sha (ui_sha i))"
  shows "h' \<noteq> [] \<and> (\<forall>s\<in>set (if r = Some None then tl h' else h'). old_kept good bin old s) \<and>
    (r = Some None \<longrightarrow> (\<exists>g. fs_files (hd h') bin = Some g \<and> good g))"
proof -
  obtain d h1 where dl: "cli_download faulty dl (bin @ ''.download'') h = (d, h1)" by fastforce
  have h1: "h1 \<noteq> []" "\<forall>s\<in>set h1. in_place bin old s" using download_keeps_place [OF h, of faulty dl] dl by simp_all
  then have "\<forall>s\<in>set h1. old_kept good bin old s" by (simp add: old_kept_def)
  then have gone: "\<forall>s\<in>set (do_remove (bin @ ''.download'') (faulty Op_remove) h1). old_kept good bin old s"
    by (rule all_remove_download [OF h1(1)])
  consider (refused) x where "r = Some (Some x)" "h' = do_remove (bin @ ''.download'') (faulty Op_remove) h1"
    | (replaced) f e h2 where "fs_files (hd h1) (bin @ ''.download'') = Some f" "good f" "cli_replace faulty bin h1 = (e, h2)"
        "(\<exists>x. e = Some x \<and> r = Some (Some x) \<and> h' = h2) \<or> e = None \<and> r = None \<and> h' = h2 \<or>
         e = None \<and> (\<exists>healthy x. cli_finish faulty bin healthy h2 = (x, h') \<and> r = Some x)"
    using run unfolding cli_install_def Let_def dl
    by (auto simp: good split: bool.splits option.splits if_splits prod.splits) blast
  then show ?thesis
  proof cases
    case refused
    then show ?thesis using gone by (simp add: do_remove_def)
  next
    case replaced
    have "good (g\<lparr>df_mode := m\<rparr>)" if "good g" for g m using that by (simp add: good file_digest_def)
    note kept = replace_keeps_old [OF h1 replaced(1,2) this replaced(3)]
    from replaced(4) show ?thesis
    proof (elim disjE exE conjE)
      fix healthy x assume "e = None" and fin: "cli_finish faulty bin healthy h2 = (x, h')" and "r = Some x"
      then show ?thesis using kept finish_keeps_old [OF _ _ _ fin, of good old] by auto
    qed (use kept in auto)
  qed
qed

text \<open>
  C29. An update by the command never loses the working program. For a program that exists, whatever
  operation fails, wherever the process is killed and however far the probes have come: on every disk
  the command goes through, the old program is in its place, or it is the backup and its place is
  empty or holds a file with the announced SHA-256. The one exception is the last disk of a success,
  which removes the backup: there a file with the announced SHA-256 is in place. Where no update is
  available there is one disk only, the first.
\<close>

theorem cli_apply_keeps_old:
  assumes "cli_apply faulty answer dl start rounds master component bin service fs = (r, h)"
    "fs_files fs bin = Some old"
  shows "h \<noteq> [] \<and> (\<forall>s\<in>set (if r = Cli_done then tl h else h). old_kept (announced answer) bin old s) \<and>
    (r = Cli_done \<longrightarrow> (\<exists>f. fs_files (hd h) bin = Some f \<and> announced answer f)) \<and>
    (r = Cli_current \<longrightarrow> h = [fs])"
proof -
  have start_ok: "old_kept (announced answer) bin old fs" using assms(2) by (simp add: old_kept_def in_place_def)
  consider (early) "r \<noteq> Cli_done" "h = [fs]"
    | (install) i x where "answer = Decoded True (Some i)" "cli_install faulty i dl start rounds bin [fs] = (x, h)"
        "r = (case x of None \<Rightarrow> Cli_probing | Some None \<Rightarrow> Cli_done | Some (Some e) \<Rightarrow> Cli_failed e)"
    using assms(1) unfolding cli_apply_def cli_release_def
    by (auto split: if_splits sum.splits option.splits check_answer.splits bool.splits prod.splits)
  then show ?thesis
  proof cases
    case early
    then show ?thesis using start_ok by simp
  next
    case install
    have good: "announced answer f = (file_digest f = normalize_sha (ui_sha i))" for f
      using install(1) by (simp add: announced_def)
    have "\<forall>s\<in>set [fs]. in_place bin old s" using assms(2) by (simp add: in_place_def)
    from install_keeps_old [OF install(2) _ this, of "announced answer"] good
    show ?thesis using install(3) by (simp split: option.splits)
  qed
qed

definition demo_answer :: check_answer where
  "demo_answer = Decoded True (Some \<lparr>ui_version = ''2'', ui_url = ''u'', ui_sha = ''SHA256:'' @ hex_encode (sha256 [7]), ui_notes = []\<rparr>)"

definition demo_update :: "(cli_op \<Rightarrow> bool) \<Rightarrow> cli_outcome \<times> disk_history" where
  "demo_update faulty = cli_apply faulty demo_answer \<lparr>da_status = Some 200, da_body = [7], da_takes = 0, da_complete = True\<rparr>
     0 [(nanos, Some ''active'')] ''m'' ''c'' ''/bin/w'' ''s'' demo_fs"

lemma hex_chars:
  "c \<in> set (hex_encode bs) \<Longrightarrow> (48 \<le> (of_char c :: nat) \<and> (of_char c :: nat) \<le> 57) \<or> (97 \<le> (of_char c :: nat) \<and> (of_char c :: nat) \<le> 102)"
proof -
  have digit: "(48 \<le> (of_char (hex_digit n) :: nat) \<and> (of_char (hex_digit n) :: nat) \<le> 57) \<or>
      (97 \<le> (of_char (hex_digit n) :: nat) \<and> (of_char (hex_digit n) :: nat) \<le> 102)" if "n < 16" for n
    using that by (simp add: hex_digit_def)
  assume "c \<in> set (hex_encode bs)"
  then obtain b :: u8 where "c = hex_digit (unat b div 16) \<or> c = hex_digit (unat b mod 16)"
    by (auto simp: hex_encode_def)
  moreover have "unat b div 16 < 16"
    using unat_u8_less [of b] by linarith
  moreover have "unat b mod 16 < 16" by simp
  ultimately show ?thesis using digit by metis
qed

lemma go_lower_ascii: "\<forall>c\<in>set s. (of_char c :: nat) < 128 \<Longrightarrow> go_lower s = map lower_char s"
  by (induction s) auto

text \<open>An announced digest is read with and without its label.\<close>

lemma normalize_labelled: "normalize_sha (''SHA256:'' @ hex_encode bs) = hex_encode bs"
proof -
  let ?s = "''SHA256:'' @ hex_encode bs"
  have hex: "lower_char c = c \<and> (of_char c :: nat) < 128 \<and> visible c" if "c \<in> set (hex_encode bs)" for c
    using hex_chars [OF that] by (auto simp: lower_char_def visible_def)
  have label: "map lower_char ''SHA256:'' = ''sha256:''" "\<forall>c\<in>set ''SHA256:''. (of_char c :: nat) < 128" by code_simp+
  have vis: "\<forall>c\<in>set ?s. visible c" using hex by (auto simp: visible_def)
  have trim: "trim_space ?s = ?s" by (rule trim_visible) (use vis in auto)
  have low: "go_lower ?s = ''sha256:'' @ hex_encode bs"
  proof -
    have "go_lower ?s = map lower_char ''SHA256:'' @ map lower_char (hex_encode bs)"
      using go_lower_ascii [of ?s] label(2) hex by (metis Un_iff map_append set_append)
    then show ?thesis using hex by (simp only: label(1)) (simp add: map_idI)
  qed
  have "go_lower (hex_encode bs) = hex_encode bs"
    by (subst go_lower_ascii) (use hex in \<open>auto simp: map_idI\<close>)
  then show ?thesis unfolding normalize_sha_def Let_def trim low by simp
qed

lemma demo_update_done: "\<exists>h. demo_update (\<lambda>_. False) = (Cli_done, h)"
proof -
  have "file_digest \<lparr>df_data = [7], df_mode = m\<rparr> = normalize_sha (''SHA256:'' @ hex_encode (sha256 [7]))" for m
    by (simp only: normalize_labelled file_digest_def disk_file.select_convs)
  then show ?thesis
    by (simp add: demo_update_def demo_answer_def cli_apply_def cli_release_def cli_install_def cli_download_def cli_replace_def
        cli_finish_def do_put_def do_rename_def do_remove_def os_rename_def os_chmod_def demo_fs_def Let_def time_before_def
        time_add_def seconds_def nanos_def i64_def minutes_def trim_visible visible_def)
qed

theorem cli_apply_keeps_old_witness:
  "\<exists>h f. demo_update (\<lambda>_. False) = (Cli_done, h) \<and> fs_files (hd h) ''/bin/w'' = Some f \<and> announced demo_answer f"
proof -
  obtain h where h: "demo_update (\<lambda>_. False) = (Cli_done, h)" using demo_update_done by blast
  from cli_apply_keeps_old [OF h [unfolded demo_update_def], of "\<lparr>df_data = [1, 2], df_mode = 493\<rparr>"] h
  show ?thesis by (simp add: demo_fs_def)
qed

text \<open>
  The two renames are not one: a process that is killed between them leaves no program in its place. And a
  success removes the backup, so that the rollback command has nothing to restore after it.
\<close>

lemma place_empty_between:
  assumes "os_rename bin (bin @ ''.bak'') (faulty Op_backup) (hd h) = (None, s)" "cli_replace faulty bin h = (e, h')"
  shows "s \<in> set h' \<and> fs_files s bin = None"
proof -
  have "fs_files s bin = None"
    using assms(1) by (auto simp: os_rename_def split: option.splits if_splits)
  moreover have "s \<in> set h'"
    using assms by (auto simp: cli_replace_def do_rename_def do_remove_def Let_def split: prod.splits option.splits if_splits)
  ultimately show ?thesis by simp
qed

lemma nothing_to_roll_back:
  assumes "cli_finish faulty bin True h = (None, h')" "\<not> faulty Op_remove" "bin \<noteq> []" "service \<noteq> []" "\<not> faulty' Op_stat"
  shows "cli_rollback faulty' bin service (hd h') = (Some No_backup, hd h')"
  using assms by (auto simp: cli_finish_def cli_rollback_def do_remove_def os_remove_def Let_def)

text \<open>The probes come to an end: the rounds are two seconds apart, and the first reading at or after the deadline ends them.\<close>

fun rounds_spaced :: "gotime \<Rightarrow> (gotime \<times> string option) list \<Rightarrow> bool" where
  "rounds_spaced t [] = True"
| "rounds_spaced t ((now, _) # rounds) = (t \<le> now \<and> rounds_spaced (now + 2 * nanos) rounds)"

lemma wait_active_ends:
  assumes "rounds_spaced t rounds" "deadline \<le> t + int n * (2 * nanos)" "n < length rounds"
  shows "wait_active deadline rounds \<noteq> None"
  using assms
proof (induction rounds arbitrary: t n)
  case (Cons r rounds)
  obtain now out where r: "r = (now, out)" by fastforce
  show ?case
  proof (cases n)
    case 0
    then show ?thesis using Cons.prems r by (auto simp: time_before_def)
  next
    case (Suc m)
    have "deadline \<le> (now + 2 * nanos) + int m * (2 * nanos)"
      using Cons.prems(1,2) unfolding Suc r by (simp add: algebra_simps)
    then show ?thesis using Cons.IH [of "now + 2 * nanos" m] Cons.prems Suc r by auto
  qed
qed simp

end
