(* ===== verification/OsRelease.thy ===== *)
theory OsRelease
  imports GoPath
begin

text \<open>
  The three readers of \<^verbatim>\<open>/etc/os-release\<close>: \<^verbatim>\<open>internal/client/install/osdetect.go\<close>, which mirrors
  the install script and decides what an installation has to do, the check of
  \<^verbatim>\<open>internal/shared/installer/installer.go\<close> and the one of
  \<^verbatim>\<open>internal/shared/diagnostics/preflight.go\<close>. The last two read the lines in the same way; the first
  also trims the key and accepts single quotes.
\<close>

definition trim_chars :: "char list \<Rightarrow> string \<Rightarrow> string" where
  "trim_chars cs s = rev (dropWhile (\<lambda>c. c \<in> set cs) (rev (dropWhile (\<lambda>c. c \<in> set cs) s)))"

definition cut_at :: "char \<Rightarrow> string \<Rightarrow> (string \<times> string) option" where
  "cut_at c s = map_option (\<lambda>i. (take i s, drop (Suc i) s)) (index_of c s)"

definition double_quote :: char where "double_quote = CHR 0x22"
definition single_quote :: char where "single_quote = CHR 0x27"

definition release_line :: "string \<Rightarrow> (string \<times> string) option" where
  "release_line raw =
     (let line = trim_space raw
      in if line = [] \<or> prefix ''#'' line then None
         else map_option (\<lambda>(key, val). (key, trim_chars [double_quote] (trim_space val))) (cut_at CHR ''='' line))"

definition release_line_mirror :: "string \<Rightarrow> (string \<times> string) option" where
  "release_line_mirror raw =
     (let line = trim_space raw
      in if line = [] \<or> prefix ''#'' line then None
         else map_option (\<lambda>(key, val). (trim_space key, trim_chars [double_quote, single_quote] (trim_space val)))
                (cut_at CHR ''='' line))"

text \<open>A later line takes the place of an earlier one; a missing key reads as the empty text.\<close>

definition read_lines :: "(string \<Rightarrow> (string \<times> string) option) \<Rightarrow> string \<Rightarrow> string \<Rightarrow> string" where
  "read_lines line text key =
     (case map_of (rev (List.map_filter line (split_on (CHR 0x0A) text))) key of None \<Rightarrow> [] | Some v \<Rightarrow> v)"

definition parse_os_release :: "string \<Rightarrow> string \<Rightarrow> string" where
  "parse_os_release = read_lines release_line_mirror"

subsection \<open>The install script's decisions\<close>

record os_info =
  osi_distro :: string
  osi_version :: string
  osi_manager :: string

datatype os_error = Unsupported_os | Missing_id

definition supported_distros :: "string list" where
  "supported_distros = [''Ubuntu'', ''Debian'', ''CentOS'', ''Rocky'', ''Fedora'', ''Arch'']"

definition distro_of :: "string \<Rightarrow> (string \<times> string) option" where
  "distro_of ident =
     map_of [(''ubuntu'', (''Ubuntu'', ''apt'')), (''debian'', (''Debian'', ''apt'')), (''centos'', (''CentOS'', ''yum'')),
       (''rocky'', (''Rocky'', ''dnf'')), (''fedora'', (''Fedora'', ''dnf'')), (''arch'', (''Arch'', ''pacman''))] (go_lower ident)"

definition detect_os :: "string \<Rightarrow> os_error + os_info" where
  "detect_os content =
     (let values = parse_os_release content; ident = values ''ID'';
          version = (if values ''VERSION_ID'' = [] then ''unknown'' else values ''VERSION_ID'')
      in if ident = [] then Inl Missing_id
         else (case distro_of ident of
                 None \<Rightarrow> Inl Unsupported_os
               | Some (distro, manager) \<Rightarrow> Inr \<lparr>osi_distro = distro, osi_version = version, osi_manager = manager\<rparr>))"

record install_state =
  ist_binary :: bool
  ist_version :: string
  ist_config :: bool
  ist_enabled :: bool
  ist_running :: bool

record install_decision =
  idn_download :: bool
  idn_stop :: bool
  idn_preserve :: bool
  idn_enable :: bool
  idn_run :: bool

definition decide_install_action :: "install_state \<Rightarrow> string \<Rightarrow> install_decision" where
  "decide_install_action s target =
     (let d = \<lparr>idn_download = False, idn_stop = False, idn_preserve = ist_config s, idn_enable = True, idn_run = True\<rparr>
      in if \<not> ist_binary s then d\<lparr>idn_download := True\<rparr>
         else if ist_version s = target then d
         else d\<lparr>idn_download := True, idn_stop := ist_running s\<rparr>)"

text \<open>What carrying out a decision makes of the machine.\<close>

definition carry_out :: "install_decision \<Rightarrow> string \<Rightarrow> install_state \<Rightarrow> install_state" where
  "carry_out d target s =
     \<lparr>ist_binary = ist_binary s \<or> idn_download d, ist_version = (if idn_download d then target else ist_version s),
      ist_config = True, ist_enabled = ist_enabled s \<or> idn_enable d, ist_running = (ist_running s \<and> \<not> idn_stop d) \<or> idn_run d\<rparr>"

text \<open>
  An installation that has been carried out needs nothing more: the second decision downloads
  nothing, stops nothing and keeps the configuration, and the binary has the wanted version; a
  running binary is never replaced without being stopped.
\<close>

lemma install_idempotent:
  "let s' = carry_out (decide_install_action s target) target s; d' = decide_install_action s' target
   in ist_binary s' \<and> ist_version s' = target \<and> ist_running s' \<and> \<not> idn_download d' \<and> \<not> idn_stop d' \<and> idn_preserve d' \<and>
      carry_out d' target s' = s'"
  by (auto simp: decide_install_action_def carry_out_def Let_def)

lemma running_binary_stopped:
  "ist_binary s \<Longrightarrow> ist_running s \<Longrightarrow> idn_download (decide_install_action s target) \<Longrightarrow> idn_stop (decide_install_action s target)"
  by (auto simp: decide_install_action_def Let_def split: if_splits)

lemma detected_supported: "detect_os content = Inr info \<Longrightarrow> osi_distro info \<in> set supported_distros \<and> osi_version info \<noteq> []"
  by (auto simp: detect_os_def distro_of_def supported_distros_def Let_def dest!: map_of_SomeD split: if_splits option.splits)

subsection \<open>The release checks of the installer and of the preflight\<close>

datatype release_error = Release_unreadable | Not_ubuntu string | Wrong_version string

definition validate_ubuntu_release :: "string option \<Rightarrow> release_error option" where
  "validate_ubuntu_release file =
     (case file of
        None \<Rightarrow> Some Release_unreadable
      | Some text \<Rightarrow>
          let values = read_lines release_line text
          in if values ''ID'' \<noteq> ''ubuntu'' then Some (Not_ubuntu (values ''ID''))
             else if prefix ''22.04'' (values ''VERSION_ID'') \<or> prefix ''24.04'' (values ''VERSION_ID'') then None
             else Some (Wrong_version (values ''VERSION_ID'')))"

record os_release =
  osr_id :: string
  osr_version :: string
  osr_pretty :: string

definition read_os_release :: "string option \<Rightarrow> os_release option" where
  "read_os_release file =
     (case file of
        None \<Rightarrow> None
      | Some text \<Rightarrow>
          let values = read_lines release_line text
          in if values ''ID'' = [] then None
             else Some \<lparr>osr_id = values ''ID'', osr_version = values ''VERSION_ID'',
                    osr_pretty = (if trim_space (values ''PRETTY_NAME'') \<noteq> [] then values ''PRETTY_NAME''
                                  else if trim_space (values ''ID'' @ '' '' @ values ''VERSION_ID'') \<noteq> []
                                       then values ''ID'' @ '' '' @ values ''VERSION_ID'' else [])\<rparr>)"

end
