(* ===== verification/SharedTypes.thy ===== *)
theory SharedTypes
  imports Complex_Main GoNet
begin

text \<open>
  The configuration types of \<^verbatim>\<open>internal/shared/config/types.go\<close>, a record per struct; sections
  with one level of fields of their own are kept as in the file, the single fields of \<^verbatim>\<open>admin\<close>,
  \<^verbatim>\<open>updates\<close>, \<^verbatim>\<open>telemetry\<close> of a tenant, \<^verbatim>\<open>paths\<close> and the sections of a provider are fields of the
  whole. A float64 of a YAML file is a rational, an infinity or not a number; only comparisons
  and tests for zero are made of it.
\<close>

datatype f64 = Finite rat | Infinite bool | Not_a_number

fun f64_less :: "f64 \<Rightarrow> f64 \<Rightarrow> bool" where
  "f64_less (Finite a) (Finite b) = (a < b)"
| "f64_less (Finite a) (Infinite neg) = (\<not> neg)"
| "f64_less (Infinite neg) (Finite b) = neg"
| "f64_less (Infinite neg1) (Infinite neg2) = (neg1 \<and> \<not> neg2)"
| "f64_less x y = False"

definition f64_zero :: "f64 \<Rightarrow> bool" where "f64_zero x \<longleftrightarrow> x = Finite 0"

datatype config_kind = Kind_tenant | Kind_advanced | Kind_provider

record runtime_paths =
  rpa_state :: string
  rpa_last_good :: string

record runtime_safety =
  rsa_dry_run :: bool
  rsa_need_admin :: bool
  rsa_rollback :: int
  rsa_console :: bool

record runtime_firewall =
  rfw_enabled :: bool
  rfw_conntrack :: bool
  rfw_ports :: "int list"
  rfw_ssh_admin :: bool
  rfw_admins :: "string list"
  rfw_block_secs :: int
  rfw_need_admin :: bool

record runtime_xdp =
  rxd_enabled :: bool
  rxd_mode :: string
  rxd_program :: string
  rxd_section :: string
  rxd_private :: bool
  rxd_malformed :: bool
  rxd_fragments :: bool
  rxd_rate_limit :: bool
  rxd_window :: int
  rxd_per_ip :: int
  rxd_per_subnet :: int
  rxd_syn :: int
  rxd_udp :: int
  rxd_icmp :: int
  rxd_allowlist :: string
  rxd_blocklist :: string

record runtime_origin_lock =
  rol_enabled :: bool
  rol_proxied :: bool
  rol_block_direct :: bool
  rol_v4_file :: string
  rol_v6_file :: string

record runtime_license =
  rli_file :: string
  rli_key :: string
  rli_need_valid :: bool
  rli_grace :: bool

record runtime_identity =
  rid_machine :: bool
  rid_primary_mac :: bool
  rid_all_macs :: bool
  rid_salt :: string

record runtime_upstream =
  rup_id :: string
  rup_url :: string

record runtime_pool =
  rbp_id :: string
  rbp_upstreams :: "runtime_upstream list"

record runtime_route =
  rro_path :: string
  rro_pool :: string
  rro_protection :: string
  rro_rpm :: int
  rro_cache :: int
  rro_body :: int
  rro_exclude :: "string list"

record runtime_site =
  rsi_id :: string
  rsi_domains :: "string list"
  rsi_tls :: string
  rsi_cert :: string
  rsi_key :: string
  rsi_pool :: string
  rsi_routes :: "runtime_route list"

record runtime_protection =
  rpr_profile :: string
  rpr_waf :: bool
  rpr_bot :: bool
  rpr_auto :: bool

record runtime_waf =
  rwf_enabled :: bool
  rwf_engine :: string
  rwf_crs :: bool
  rwf_anomaly :: int

record runtime_bot =
  rbo_enabled :: bool
  rbo_cookie :: bool
  rbo_js :: bool
  rbo_pow :: bool
  rbo_challenge :: int
  rbo_block :: int
  rbo_cookie_name :: string
  rbo_trusted :: "string list"

record runtime_updates =
  rud_enabled :: bool
  rud_channel :: string
  rud_manifest :: string
  rud_signed :: bool
  rud_auto_rollback :: bool

record runtime_security =
  rse_enabled :: bool
  rse_audit :: bool
  rse_integrity :: bool
  rse_paths :: "string list"
  rse_processes :: "string list"
  rse_web_users :: "string list"

record runtime_privacy =
  rpv_body :: bool
  rpv_cookie :: bool
  rpv_auth :: bool
  rpv_raw_ip :: bool
  rpv_hash_ip :: bool
  rpv_redact :: bool

record runtime_telemetry =
  rte_enabled :: bool
  rte_health :: bool
  rte_interval :: int
  rte_privacy :: runtime_privacy

record governor_baseline =
  gba_enabled :: bool
  gba_days :: int
  gba_samples :: int
  gba_store :: string

record governor_hysteresis =
  ghy_enabled :: bool
  ghy_hold :: int
  ghy_cooldown :: int
  ghy_recovery :: int

record governor_threshold =
  gth_cpu :: f64
  gth_ram :: f64
  gth_load :: f64
  gth_conntrack :: f64
  gth_latency :: f64

record governor_levels =
  gle_elevated :: governor_threshold
  gle_attack :: governor_threshold
  gle_lockdown :: governor_threshold

record governor_elevated =
  gea_tighten :: bool
  gea_challenge :: bool
  gea_cache :: bool

record governor_attack =
  gaa_block :: bool
  gaa_disable :: bool
  gaa_timeouts :: bool

record governor_lockdown =
  gla_admins_only :: bool
  gla_backend_first :: bool

record governor_actions =
  gac_elevated :: governor_elevated
  gac_attack :: governor_attack
  gac_lockdown :: governor_lockdown

record governor_config =
  gov_enabled :: bool
  gov_baseline :: governor_baseline
  gov_hysteresis :: governor_hysteresis
  gov_levels :: governor_levels
  gov_actions :: governor_actions

record runtime_config =
  rtc_kind :: config_kind
  rtc_mode :: string
  rtc_plan :: string
  rtc_paths :: runtime_paths
  rtc_safety :: runtime_safety
  rtc_license :: runtime_license
  rtc_identity :: runtime_identity
  rtc_firewall :: runtime_firewall
  rtc_xdp :: runtime_xdp
  rtc_origin_lock :: runtime_origin_lock
  rtc_admins :: "string list"
  rtc_interface :: string
  rtc_ssh_port :: int
  rtc_cloudflare :: bool
  rtc_tls :: string
  rtc_pools :: "runtime_pool list"
  rtc_sites :: "runtime_site list"
  rtc_protection :: runtime_protection
  rtc_waf :: runtime_waf
  rtc_bot :: runtime_bot
  rtc_governor :: governor_config
  rtc_updates :: runtime_updates
  rtc_security :: runtime_security
  rtc_telemetry :: runtime_telemetry

record tenant_route =
  tro_path :: string
  tro_backend :: string
  tro_protection :: string

record tenant_site =
  tsi_domains :: "string list"
  tsi_backend :: string
  tsi_routes :: "tenant_route list"

record tenant_website =
  twe_enabled :: bool
  twe_cloudflare :: bool
  twe_tls :: string
  twe_cert :: string
  twe_key :: string
  twe_sites :: "tenant_site list"

record tenant_server =
  tse_interface :: string
  tse_ssh_port :: int
  tse_ports :: "int list"

record tenant_protection =
  tpr_profile :: string
  tpr_waf :: bool
  tpr_bot :: bool
  tpr_auto :: bool

record tenant_config =
  ten_mode :: string
  ten_plan :: string
  ten_license :: string
  ten_admins :: "string list"
  ten_server :: tenant_server
  ten_website :: tenant_website
  ten_protection :: tenant_protection
  ten_auto_updates :: bool
  ten_telemetry :: bool

record advanced_safety =
  asa_dry_run :: bool
  asa_need_admin :: bool
  asa_rollback :: int
  asa_console :: bool

record advanced_xdp =
  axd_enabled :: bool
  axd_mode :: string
  axd_program :: string
  axd_section :: string
  axd_private :: bool
  axd_malformed :: bool
  axd_fragments :: bool
  axd_allowlist :: string
  axd_blocklist :: string

record server_ddos =
  sdd_per_ip :: int
  sdd_per_subnet :: int
  sdd_syn :: int
  sdd_udp :: int
  sdd_icmp :: int
  sdd_block_secs :: int
  sdd_grey_secs :: int

record nftables_config =
  nft_enabled :: bool
  nft_conntrack :: bool
  nft_ports :: "int list"
  nft_ssh_admin :: bool
  nft_admins :: "string list"

record server_protection =
  spr_interfaces :: "string list"
  spr_xdp :: advanced_xdp
  spr_ddos :: server_ddos
  spr_nft :: nftables_config

record cloudflare_config =
  clo_enabled :: bool
  clo_proxied :: bool
  clo_block_direct :: bool
  clo_v4_file :: string
  clo_v6_file :: string

record website_waf =
  wwa_enabled :: bool
  wwa_engine :: string
  wwa_crs :: bool
  wwa_anomaly :: int

record website_bot =
  wbo_enabled :: bool
  wbo_cookie :: bool
  wbo_js :: bool
  wbo_pow :: bool
  wbo_challenge :: int
  wbo_block :: int

record website_protection =
  wpr_enabled :: bool
  wpr_cloudflare :: cloudflare_config
  wpr_waf :: website_waf
  wpr_bot :: website_bot

record advanced_updates =
  aup_enabled :: bool
  aup_channel :: string
  aup_manifest :: string
  aup_signed :: bool
  aup_auto_rollback :: bool

record advanced_security =
  ase_enabled :: bool
  ase_audit :: bool
  ase_integrity :: bool
  ase_paths :: "string list"
  ase_processes :: "string list"

record advanced_telemetry =
  ate_enabled :: bool
  ate_health :: bool
  ate_interval :: int
  ate_privacy :: runtime_privacy

record advanced_license =
  ali_file :: string
  ali_key :: string
  ali_need_valid :: bool
  ali_grace :: bool

record server_identity =
  sid_machine :: bool
  sid_primary_mac :: bool
  sid_all_macs :: bool
  sid_salt :: string

record advanced_route =
  aro_path :: string
  aro_pool :: string
  aro_rpm :: int
  aro_cache :: int
  aro_body :: int
  aro_exclude :: "string list"

record advanced_tls =
  atl_mode :: string
  atl_cert :: string
  atl_key :: string

record advanced_site =
  asi_id :: string
  asi_domains :: "string list"
  asi_tls :: advanced_tls
  asi_policy :: string
  asi_pool :: string
  asi_routes :: "advanced_route list"

record config_upstream =
  cup_id :: string
  cup_url :: string

record config_pool =
  cbp_id :: string
  cbp_upstreams :: "config_upstream list"

record advanced_config =
  adv_mode :: string
  adv_profile :: string
  adv_role :: string
  adv_state_dir :: string
  adv_last_good :: string
  adv_license :: advanced_license
  adv_identity :: server_identity
  adv_safety :: advanced_safety
  adv_server :: server_protection
  adv_website :: website_protection
  adv_sites :: "advanced_site list"
  adv_pools :: "config_pool list"
  adv_governor :: governor_config
  adv_updates :: advanced_updates
  adv_security :: advanced_security
  adv_telemetry :: advanced_telemetry

record license_plan =
  lpl_modes :: "string list"
  lpl_features :: "string list"

record provider_config =
  pro_name :: string
  pro_role :: string
  pro_base_url :: string
  pro_signing_key :: string
  pro_public_key :: string
  pro_driver :: string
  pro_root_dir :: string
  pro_grace_days :: int
  pro_plans :: "(string \<times> license_plan) list"
  pro_channels :: "string list"
  pro_signed_artifacts :: bool
  pro_retention :: int

end
