(* ===== verification/Installer.thy ===== *)
theory Installer
  imports OsRelease Crypto SharedTypes
begin

text \<open>
  The lab installer, \<^verbatim>\<open>internal/shared/installer/installer.go\<close>: the install and uninstall plans, the
  staging of an installation below a root directory, and their application to the disk.

  The disk is a map from cleaned paths to files and directories, without symbolic links. What the
  disk does to a path, a shell command's effect and exit code, and the JSON encoding of the written
  manifests are arguments. A directory's mode is the one asked for, before the umask.
\<close>

subsection \<open>Plans\<close>

record install_options =
  io_config :: string
  io_root :: string
  io_agent :: string
  io_cli :: string
  io_provider :: string
  io_service :: string
  io_purge :: bool

record install_layout =
  il_config_dir :: string
  il_config_file :: string
  il_state_dir :: string
  il_last_good :: string
  il_log_dir :: string
  il_run_dir :: string
  il_bin_dir :: string
  il_agent :: string
  il_cli :: string
  il_provider :: string
  il_systemd_dir :: string
  il_service :: string

datatype step_action = Act_run | Act_mkdir | Act_copy | Act_remove

record layout_step =
  stp_name :: string
  stp_action :: step_action
  stp_source :: string
  stp_target :: string
  stp_command :: string
  stp_mode :: string
  stp_rollback :: string
  stp_root :: bool
  stp_creates :: bool
  stp_overwrites :: bool
  stp_destructive :: bool

record install_plan =
  ip_action :: string
  ip_root :: string
  ip_mode :: string
  ip_product :: string
  ip_layout :: install_layout
  ip_steps :: "layout_step list"
  ip_warnings :: "string list"

fun first_filled :: "string list \<Rightarrow> string" where
  "first_filled [] = []"
| "first_filled (v # vs) = (if trim_space v \<noteq> [] then trim_space v else first_filled vs)"

definition default_layout :: "runtime_config \<Rightarrow> install_layout" where
  "default_layout rt =
     (let state = first_filled [rpa_state (rtc_paths rt), ''/var/lib/kiro''];
          last_good = first_filled [rpa_last_good (rtc_paths rt), join_paths [state, ''last-good-config'']]
      in \<lparr>il_config_dir = ''/etc/kiro'', il_config_file = join_paths [''/etc/kiro'', ''kiro.yaml''],
          il_state_dir = state, il_last_good = last_good, il_log_dir = ''/var/log/kiro'', il_run_dir = ''/run/kiro'',
          il_bin_dir = ''/usr/local/bin'', il_agent = join_paths [''/usr/local/bin'', ''kiro-agent''],
          il_cli = join_paths [''/usr/local/bin'', ''kiro-cli''], il_provider = join_paths [''/usr/local/bin'', ''kiro-provider''],
          il_systemd_dir = ''/etc/systemd/system'',
          il_service = join_paths [''/etc/systemd/system'', ''kiro-agent.service'']\<rparr>)"

definition shell_arg :: "string \<Rightarrow> string" where
  "shell_arg v =
     (if v = [] then [single_quote, single_quote]
      else [single_quote]
        @ concat (map (\<lambda>c. if c = single_quote then [single_quote, double_quote, single_quote, double_quote, single_quote] else [c]) v)
        @ [single_quote])"

definition requires_root :: "string \<Rightarrow> install_options \<Rightarrow> bool" where
  "requires_root target opts \<longleftrightarrow>
     trim_space (io_root opts) = [] \<and>
     (target = [] \<or> (let p = clean_path target
                      in prefix ''/etc/'' p \<or> prefix ''/usr/'' p \<or> prefix ''/var/'' p \<or> prefix ''/run/'' p))"

definition empty_step :: layout_step where
  "empty_step = \<lparr>stp_name = [], stp_action = Act_run, stp_source = [], stp_target = [], stp_command = [], stp_mode = [],
     stp_rollback = [], stp_root = False, stp_creates = False, stp_overwrites = False, stp_destructive = False\<rparr>"

definition run_step :: "string \<Rightarrow> string \<Rightarrow> string \<Rightarrow> bool \<Rightarrow> layout_step" where
  "run_step name command rollback privileged =
     empty_step\<lparr>stp_name := name, stp_command := command, stp_rollback := rollback, stp_root := privileged\<rparr>"

definition mkdir_step :: "string \<Rightarrow> string \<Rightarrow> string \<Rightarrow> install_options \<Rightarrow> layout_step" where
  "mkdir_step name target mode opts =
     empty_step\<lparr>stp_name := name, stp_action := Act_mkdir, stp_target := target, stp_mode := mode,
       stp_root := requires_root target opts, stp_creates := True\<rparr>"

definition copy_step :: "string \<Rightarrow> string \<Rightarrow> string \<Rightarrow> string \<Rightarrow> install_options \<Rightarrow> string \<Rightarrow> layout_step" where
  "copy_step name source target mode opts rollback =
     empty_step\<lparr>stp_name := name, stp_action := Act_copy, stp_source := source, stp_target := target, stp_mode := mode,
       stp_rollback := rollback, stp_root := requires_root target opts, stp_creates := True, stp_overwrites := True\<rparr>"

definition remove_step :: "string \<Rightarrow> string \<Rightarrow> install_options \<Rightarrow> layout_step" where
  "remove_step name target opts =
     empty_step\<lparr>stp_name := name, stp_action := Act_remove, stp_target := target, stp_root := requires_root target opts,
       stp_destructive := True\<rparr>"

definition missing_binary_warnings :: "install_options \<Rightarrow> string list" where
  "missing_binary_warnings opts =
     (if trim_space (io_agent opts) = [] then [''agent binary source is empty; install plan will not copy kiro-agent''] else []) @
     (if trim_space (io_cli opts) = [] then [''cli binary source is empty; install plan will not copy kiro-cli''] else [])"

datatype install_error =
    Config_required | Root_required | Unsafe_root | Not_absolute | Escapes_root | Bad_mode | Source_empty
  | Disk_error | Command_error | Manifest_error | Ack_required | Needs_root | Wrong_release release_error

definition build_install_plan :: "runtime_config \<Rightarrow> install_options \<Rightarrow> install_error + install_plan" where
  "build_install_plan rt opts =
     (if trim_space (io_config opts) = [] then Inl Config_required
      else
        let l = default_layout rt;
            service = first_filled [io_service opts, ''deployments/systemd/kiro-agent.service''];
            preflight = (if trim_space (io_cli opts) \<noteq> [] then shell_arg (io_cli opts) else ''kiro-cli'')
        in Inr \<lparr>ip_action = ''install'', ip_root = trim_space (io_root opts), ip_mode = rtc_mode rt, ip_product = rtc_plan rt,
            ip_layout = l,
            ip_steps =
              [run_step ''preflight'' (preflight @ '' preflight --config '' @ shell_arg (io_config opts)) [] False,
               mkdir_step ''create_config_dir'' (il_config_dir l) ''0755'' opts,
               mkdir_step ''create_state_dir'' (il_state_dir l) ''0755'' opts,
               mkdir_step ''create_last_good_config_dir'' (il_last_good l) ''0755'' opts,
               mkdir_step ''create_log_dir'' (il_log_dir l) ''0755'' opts,
               mkdir_step ''create_run_dir'' (il_run_dir l) ''0755'' opts,
               copy_step ''install_config'' (io_config opts) (il_config_file l) ''0640'' opts
                 ''restore previous /etc/kiro/kiro.yaml from backup or last-good config'',
               copy_step ''install_systemd_service'' service (il_service l) ''0644'' opts
                 ''remove service file and run systemctl daemon-reload''] @
              (if trim_space (io_agent opts) \<noteq> []
               then [copy_step ''install_agent_binary'' (io_agent opts) (il_agent l) ''0755'' opts ''restore previous kiro-agent binary'']
               else []) @
              (if trim_space (io_cli opts) \<noteq> []
               then [copy_step ''install_cli_binary'' (io_cli opts) (il_cli l) ''0755'' opts ''restore previous kiro-cli binary'']
               else []) @
              (if trim_space (io_provider opts) \<noteq> []
               then [copy_step ''install_provider_binary'' (io_provider opts) (il_provider l) ''0755'' opts
                       ''restore previous kiro-provider binary'']
               else []) @
              [run_step ''firewall_dry_run_snapshot''
                 (''kiro-agent --config '' @ shell_arg (il_config_file l) @ '' --firewall-dry-run --firewall-snapshot-dir '' @
                  shell_arg (il_last_good l)) [] False,
               run_step ''proxy_dry_run'' (''kiro-agent --config '' @ shell_arg (il_config_file l) @ '' --proxy-dry-run'') [] False,
               run_step ''systemd_daemon_reload'' ''systemctl daemon-reload'' [] (requires_root [] opts),
               run_step ''enable_agent_service'' ''systemctl enable --now kiro-agent.service''
                 ''systemctl disable --now kiro-agent.service'' (requires_root [] opts)],
            ip_warnings = missing_binary_warnings opts\<rparr>)"

definition build_uninstall_plan :: "runtime_config \<Rightarrow> install_options \<Rightarrow> install_plan" where
  "build_uninstall_plan rt opts =
     (let l = default_layout rt
      in \<lparr>ip_action = ''uninstall'', ip_root = trim_space (io_root opts), ip_mode = rtc_mode rt, ip_product = rtc_plan rt,
          ip_layout = l,
          ip_steps =
            [run_step ''stop_agent_service'' ''systemctl disable --now kiro-agent.service'' [] (requires_root [] opts),
             remove_step ''remove_systemd_service'' (il_service l) opts,
             run_step ''systemd_daemon_reload'' ''systemctl daemon-reload'' [] (requires_root [] opts),
             remove_step ''remove_agent_binary'' (il_agent l) opts,
             remove_step ''remove_cli_binary'' (il_cli l) opts,
             remove_step ''remove_provider_binary'' (il_provider l) opts] @
            (if io_purge opts
             then [remove_step ''purge_config_dir'' (il_config_dir l) opts, remove_step ''purge_state_dir'' (il_state_dir l) opts,
                   remove_step ''purge_log_dir'' (il_log_dir l) opts, remove_step ''purge_run_dir'' (il_run_dir l) opts]
             else []),
          ip_warnings = (if io_purge opts then []
             else [''config, license, state, and logs are kept; pass purge when a destructive removal is intended''])\<rparr>)"

subsection \<open>Paths below the install root\<close>

definition rooted_path :: "string \<Rightarrow> string \<Rightarrow> install_error + string" where
  "rooted_path root0 target0 =
     (let root = clean_path (trim_space root0)
      in if root = ''.'' \<or> root = ''/'' \<or> root = [] then Inl Unsafe_root
         else
           let target = clean_path target0
           in if \<not> is_abs target then Inl Not_absolute
              else
                let stage = join_paths [root, trim_prefix ''/'' target]; clean_root = clean_path root
                in if stage \<noteq> clean_root \<and> \<not> prefix (clean_root @ ''/'') stage then Inl Escapes_root else Inr stage)"

definition resolved_target_path :: "install_options \<Rightarrow> string \<Rightarrow> install_error + string" where
  "resolved_target_path opts target =
     (if trim_space (io_root opts) \<noteq> [] then rooted_path (io_root opts) target
      else if \<not> is_abs target then Inl Not_absolute else Inr (clean_path target))"

text \<open>\<^verbatim>\<open>strconv.ParseUint(value, 8, 32)\<close>, with a fallback for the empty text.\<close>

fun octal_acc :: "nat \<Rightarrow> string \<Rightarrow> nat option" where
  "octal_acc n [] = Some n"
| "octal_acc n (c # cs) =
     (case digit_val c of None \<Rightarrow> None | Some d \<Rightarrow> if d < 8 then octal_acc (n * 8 + nat d) cs else None)"

definition parse_mode :: "string \<Rightarrow> nat \<Rightarrow> nat option" where
  "parse_mode raw fallback =
     (let value = trim_space raw
      in if value = [] then Some fallback
         else (case octal_acc 0 value of None \<Rightarrow> None | Some n \<Rightarrow> if n < 2 ^ 32 then Some n else None))"

subsection \<open>The disk\<close>

datatype disk_node = Dir_node nat | File_node "u8 list" nat

type_synonym disk_tree = "string \<rightharpoonup> disk_node"

datatype disk_fault = No_fault | Op_fault | Cut_fault nat

record install_env =
  ie_fault :: "string \<Rightarrow> disk_fault"
  ie_left :: "string \<Rightarrow> bool"
  ie_run :: "string \<Rightarrow> disk_tree \<Rightarrow> bool \<times> disk_tree"

text \<open>A path with its parents, the topmost first.\<close>

definition path_from :: "bool \<Rightarrow> string list \<Rightarrow> string" where
  "path_from rooted es = (if rooted then ''/'' else []) @ join_with ''/'' es"

definition up_to :: "string \<Rightarrow> string list" where
  "up_to p = map (\<lambda>n. path_from (is_abs p) (take n (path_elems p))) [1..<Suc (length (path_elems p))]"

definition parent_of :: "string \<Rightarrow> string" where
  "parent_of p = path_from (is_abs p) (butlast (path_elems p))"

definition is_file :: "disk_tree \<Rightarrow> string \<Rightarrow> bool" where
  "is_file t q \<longleftrightarrow> (case t q of Some (File_node _ _) \<Rightarrow> True | _ \<Rightarrow> False)"

definition add_dirs :: "nat \<Rightarrow> string list \<Rightarrow> disk_tree \<Rightarrow> disk_tree" where
  "add_dirs mode ps t = foldl (\<lambda>t q. if t q = None then t(q \<mapsto> Dir_node mode) else t) t ps"

definition make_dirs :: "install_env \<Rightarrow> nat \<Rightarrow> string \<Rightarrow> disk_tree \<Rightarrow> disk_tree option" where
  "make_dirs env mode p t =
     (if ie_fault env p = Op_fault \<or> (\<exists>q\<in>set (up_to p). is_file t q) then None
      else Some (add_dirs mode (up_to p) t))"

record staged_file =
  sf_target :: string
  sf_stage :: string
  sf_mode :: nat
  sf_sha :: string
  sf_size :: nat
  sf_source :: string

text \<open>
  The end of \<^verbatim>\<open>copyToTarget\<close> and \<^verbatim>\<open>copyToRoot\<close>, which are the same: the target is truncated before
  the source is read, so a source that is the target is empty by then, and a copy that is cut off
  leaves what has been written.
\<close>

definition copy_into :: "install_env \<Rightarrow> string \<Rightarrow> string \<Rightarrow> string \<Rightarrow> nat \<Rightarrow> disk_tree \<Rightarrow> (install_error + staged_file) \<times> disk_tree" where
  "copy_into env source target path mode t =
     (case make_dirs env 493 (parent_of path) t of
        None \<Rightarrow> (Inl Disk_error, t)
      | Some t1 \<Rightarrow>
          (case t1 (clean_path source) of
             Some (File_node bytes m) \<Rightarrow>
               (case t1 path of
                  Some (Dir_node _) \<Rightarrow> (Inl Disk_error, t1)
                | old \<Rightarrow>
                    let content = (if clean_path source = path then [] else bytes);
                        kept = (case old of Some (File_node _ m') \<Rightarrow> m' | _ \<Rightarrow> mode)
                    in case ie_fault env path of
                         Op_fault \<Rightarrow> (Inl Disk_error, t1)
                       | Cut_fault n \<Rightarrow> (Inl Disk_error, t1(path \<mapsto> File_node (take n content) kept))
                       | No_fault \<Rightarrow>
                           (Inr \<lparr>sf_target = clean_path target, sf_stage = path, sf_mode = mode mod 512,
                              sf_sha = hex_encode (sha256 content), sf_size = length content, sf_source = source\<rparr>,
                            t1(path \<mapsto> File_node content mode)))
           | _ \<Rightarrow> (Inl Disk_error, t1)))"

definition copy_to_target :: "install_env \<Rightarrow> string \<Rightarrow> string \<Rightarrow> string \<Rightarrow> disk_tree \<Rightarrow> (install_error + staged_file) \<times> disk_tree" where
  "copy_to_target env source0 target mode_text t =
     (let source = trim_space source0
      in if source = [] then (Inl Source_empty, t)
         else if \<not> is_abs target then (Inl Not_absolute, t)
         else (case parse_mode mode_text 420 of
                 None \<Rightarrow> (Inl Bad_mode, t)
               | Some mode \<Rightarrow> copy_into env source target (clean_path target) mode t))"

definition copy_to_root :: "install_env \<Rightarrow> string \<Rightarrow> string \<Rightarrow> string \<Rightarrow> string \<Rightarrow> disk_tree \<Rightarrow> (install_error + staged_file) \<times> disk_tree" where
  "copy_to_root env base source0 target mode_text t =
     (let source = trim_space source0
      in if source = [] then (Inl Source_empty, t)
         else (case rooted_path base target of
                 Inl e \<Rightarrow> (Inl e, t)
               | Inr path \<Rightarrow>
                   (case parse_mode mode_text 420 of
                      None \<Rightarrow> (Inl Bad_mode, t)
                    | Some mode \<Rightarrow> copy_into env source target path mode t)))"

definition copy_to_resolved_target :: "install_env \<Rightarrow> install_options \<Rightarrow> string \<Rightarrow> string \<Rightarrow> string \<Rightarrow> disk_tree \<Rightarrow>
    (install_error + staged_file) \<times> disk_tree" where
  "copy_to_resolved_target env opts source target mode_text t =
     (if trim_space (io_root opts) \<noteq> [] then copy_to_root env (io_root opts) source target mode_text t
      else copy_to_target env source target mode_text t)"

text \<open>\<^verbatim>\<open>os.RemoveAll\<close>: the path and all below it; a fault leaves part of them.\<close>

definition inside :: "string \<Rightarrow> string \<Rightarrow> bool" where
  "inside p q \<longleftrightarrow> is_abs p = is_abs q \<and> prefix (path_elems p) (path_elems q)"

definition remove_all :: "install_env \<Rightarrow> string \<Rightarrow> disk_tree \<Rightarrow> bool \<times> disk_tree" where
  "remove_all env p t =
     (let fine = (ie_fault env p = No_fault)
      in (fine, \<lambda>q. if inside p q \<and> (fine \<or> \<not> ie_left env q) then None else t q))"

subsection \<open>Steps\<close>

datatype step_status = No_status | Applied_step | Skipped_step

record applied_step =
  asp_name :: string
  asp_action :: step_action
  asp_status :: step_status
  asp_target :: string
  asp_command :: string
  asp_message :: string
  asp_sha :: string
  asp_size :: nat

definition fresh_applied :: "layout_step \<Rightarrow> applied_step" where
  "fresh_applied s = \<lparr>asp_name = stp_name s, asp_action = stp_action s, asp_status = No_status, asp_target = stp_target s,
     asp_command = stp_command s, asp_message = [], asp_sha = [], asp_size = 0\<rparr>"

definition run_command :: "install_env \<Rightarrow> bool \<Rightarrow> layout_step \<Rightarrow> disk_tree \<Rightarrow> (install_error option \<times> applied_step) \<times> disk_tree" where
  "run_command env run_steps s t =
     (let a = fresh_applied s
      in if \<not> run_steps
         then ((None, a\<lparr>asp_status := Skipped_step, asp_message := ''run step skipped for install-root lab apply''\<rparr>), t)
         else (case ie_run env (stp_command s) t of
                 (False, t') \<Rightarrow> ((Some Command_error, a), t')
               | (True, t') \<Rightarrow> ((None, a\<lparr>asp_status := Applied_step\<rparr>), t')))"

definition apply_install_step :: "install_env \<Rightarrow> install_options \<Rightarrow> bool \<Rightarrow> layout_step \<Rightarrow> disk_tree \<Rightarrow>
    (install_error option \<times> applied_step) \<times> disk_tree" where
  "apply_install_step env opts run_steps s t =
     (let a = fresh_applied s
      in case stp_action s of
           Act_mkdir \<Rightarrow>
             (case resolved_target_path opts (stp_target s) of
                Inl e \<Rightarrow> ((Some e, a), t)
              | Inr path \<Rightarrow>
                  (case parse_mode (stp_mode s) 493 of
                     None \<Rightarrow> ((Some Bad_mode, a), t)
                   | Some mode \<Rightarrow>
                       (case make_dirs env mode path t of
                          None \<Rightarrow> ((Some Disk_error, a), t)
                        | Some t' \<Rightarrow> ((None, a\<lparr>asp_status := Applied_step, asp_target := path\<rparr>), t'))))
         | Act_copy \<Rightarrow>
             (case copy_to_resolved_target env opts (stp_source s) (stp_target s) (stp_mode s) t of
                (Inl e, t') \<Rightarrow> ((Some e, a), t')
              | (Inr f, t') \<Rightarrow>
                  ((None, a\<lparr>asp_status := Applied_step, asp_target := sf_stage f, asp_sha := sf_sha f, asp_size := sf_size f\<rparr>), t'))
         | Act_run \<Rightarrow> run_command env run_steps s t
         | Act_remove \<Rightarrow> ((None, a\<lparr>asp_status := Skipped_step, asp_message := ''unsupported install step action''\<rparr>), t))"

definition apply_uninstall_step :: "install_env \<Rightarrow> install_options \<Rightarrow> bool \<Rightarrow> layout_step \<Rightarrow> disk_tree \<Rightarrow>
    (install_error option \<times> applied_step) \<times> disk_tree" where
  "apply_uninstall_step env opts run_steps s t =
     (let a = fresh_applied s
      in case stp_action s of
           Act_remove \<Rightarrow>
             (case resolved_target_path opts (stp_target s) of
                Inl e \<Rightarrow> ((Some e, a), t)
              | Inr path \<Rightarrow>
                  (case remove_all env path t of
                     (False, t') \<Rightarrow> ((Some Disk_error, a), t')
                   | (True, t') \<Rightarrow> ((None, a\<lparr>asp_status := Applied_step, asp_target := path\<rparr>), t')))
         | Act_run \<Rightarrow> run_command env run_steps s t
         | _ \<Rightarrow> ((None, a\<lparr>asp_status := Skipped_step, asp_message := ''unsupported uninstall step action''\<rparr>), t))"

text \<open>The loop over the steps stops at the first error; the step that failed is among the results.\<close>

fun apply_all :: "(layout_step \<Rightarrow> disk_tree \<Rightarrow> (install_error option \<times> applied_step) \<times> disk_tree) \<Rightarrow> layout_step list \<Rightarrow>
    disk_tree \<Rightarrow> (install_error option \<times> applied_step list) \<times> disk_tree" where
  "apply_all f [] t = ((None, []), t)"
| "apply_all f (s # rest) t =
     (case f s t of
        ((Some e, a), t') \<Rightarrow> ((Some e, [a]), t')
      | ((None, a), t') \<Rightarrow> (case apply_all f rest t' of ((e, as), t'') \<Rightarrow> ((e, a # as), t'')))"

subsection \<open>Staging and applying\<close>

record stage_result =
  srs_root :: string
  srs_manifest :: string
  srs_files :: "staged_file list"
  srs_dirs :: "string list"
  srs_skipped :: "(string \<times> step_action) list"

record apply_result =
  ars_action :: string
  ars_root :: string
  ars_manifest :: string
  ars_steps :: "applied_step list"
  ars_warnings :: "string list"

record apply_guard =
  ag_ack :: string
  ag_uid :: int
  ag_release :: string
  ag_skip_os :: bool
  ag_run_steps :: bool

text \<open>\<^verbatim>\<open>storage.WriteJSONAtomic\<close>: the directories, then the whole file or nothing.\<close>

definition write_manifest :: "install_env \<Rightarrow> u8 list option \<Rightarrow> string \<Rightarrow> disk_tree \<Rightarrow> install_error option \<times> disk_tree" where
  "write_manifest env json path t =
     (case make_dirs env 493 (parent_of path) t of
        None \<Rightarrow> (Some Manifest_error, t)
      | Some t1 \<Rightarrow>
          (case (json, t1 path, ie_fault env path) of
             (Some bytes, None, No_fault) \<Rightarrow> (None, t1(path \<mapsto> File_node bytes 384))
           | (Some bytes, Some (File_node _ _), No_fault) \<Rightarrow> (None, t1(path \<mapsto> File_node bytes 384))
           | _ \<Rightarrow> (Some Manifest_error, t1)))"

fun stage_steps :: "install_env \<Rightarrow> string \<Rightarrow> layout_step list \<Rightarrow> stage_result \<Rightarrow> disk_tree \<Rightarrow>
    (install_error + stage_result) \<times> disk_tree" where
  "stage_steps env base [] r t = (Inr r, t)"
| "stage_steps env base (s # rest) r t =
     (case stp_action s of
        Act_mkdir \<Rightarrow>
          (case rooted_path base (stp_target s) of
             Inl e \<Rightarrow> (Inl e, t)
           | Inr path \<Rightarrow>
               (case parse_mode (stp_mode s) 493 of
                  None \<Rightarrow> (Inl Bad_mode, t)
                | Some mode \<Rightarrow>
                    (case make_dirs env mode path t of
                       None \<Rightarrow> (Inl Disk_error, t)
                     | Some t' \<Rightarrow> stage_steps env base rest (r\<lparr>srs_dirs := srs_dirs r @ [path]\<rparr>) t')))
      | Act_copy \<Rightarrow>
          (case copy_to_root env base (stp_source s) (stp_target s) (stp_mode s) t of
             (Inl e, t') \<Rightarrow> (Inl e, t')
           | (Inr f, t') \<Rightarrow> stage_steps env base rest (r\<lparr>srs_files := srs_files r @ [f]\<rparr>) t')
      | _ \<Rightarrow> stage_steps env base rest (r\<lparr>srs_skipped := srs_skipped r @ [(stp_name s, stp_action s)]\<rparr>) t)"

text \<open>\<open>enc\<close> is the JSON encoding of the result.\<close>

definition stage_lab_install :: "(stage_result \<Rightarrow> u8 list option) \<Rightarrow> install_env \<Rightarrow> runtime_config \<Rightarrow> install_options \<Rightarrow> disk_tree \<Rightarrow>
    (install_error + stage_result) \<times> disk_tree" where
  "stage_lab_install enc env rt opts t =
     (if trim_space (io_root opts) = [] then (Inl Root_required, t)
      else case build_install_plan rt opts of
             Inl e \<Rightarrow> (Inl e, t)
           | Inr plan \<Rightarrow>
               (case stage_steps env (io_root opts) (ip_steps plan)
                       \<lparr>srs_root = clean_path (io_root opts), srs_manifest = [], srs_files = [], srs_dirs = [], srs_skipped = []\<rparr> t of
                  (Inl e, t1) \<Rightarrow> (Inl e, t1)
                | (Inr r, t1) \<Rightarrow>
                    (case rooted_path (io_root opts) (join_paths [il_state_dir (ip_layout plan), ''install-manifest.json'']) of
                       Inl e \<Rightarrow> (Inl e, t1)
                     | Inr path \<Rightarrow>
                         let r1 = r\<lparr>srs_manifest := path\<rparr>
                         in (case write_manifest env (enc r1) path t1 of
                               (Some e, t2) \<Rightarrow> (Inl e, t2)
                             | (None, t2) \<Rightarrow> (Inr r1, t2)))))"

definition validate_apply_guard :: "disk_tree \<Rightarrow> install_options \<Rightarrow> apply_guard \<Rightarrow> string \<Rightarrow> install_error option" where
  "validate_apply_guard t opts a want =
     (if trim_space (ag_ack a) \<noteq> want then Some Ack_required
      else if trim_space (io_root opts) = [] \<and> ag_uid a \<noteq> 0 then Some Needs_root
      else if ag_skip_os a then None
      else map_option Wrong_release
             (validate_ubuntu_release
                (case t (clean_path (first_filled [ag_release a, ''/etc/os-release''])) of
                   Some (File_node bytes _) \<Rightarrow> Some (string_of bytes)
                 | _ \<Rightarrow> None)))"

definition no_result :: apply_result where
  "no_result = \<lparr>ars_action = [], ars_root = [], ars_manifest = [], ars_steps = [], ars_warnings = []\<rparr>"

definition run_steps_of :: "install_options \<Rightarrow> apply_guard \<Rightarrow> bool" where
  "run_steps_of opts a \<longleftrightarrow> ag_run_steps a \<or> trim_space (io_root opts) = []"

definition apply_lab_install :: "(apply_result \<Rightarrow> u8 list option) \<Rightarrow> install_env \<Rightarrow> runtime_config \<Rightarrow> install_options \<Rightarrow> apply_guard \<Rightarrow>
    disk_tree \<Rightarrow> (install_error option \<times> apply_result) \<times> disk_tree" where
  "apply_lab_install enc env rt opts a t =
     (case validate_apply_guard t opts a ''KIRO_LAB_INSTALL_APPLY'' of
        Some e \<Rightarrow> ((Some e, no_result), t)
      | None \<Rightarrow>
          (case build_install_plan rt opts of
             Inl e \<Rightarrow> ((Some e, no_result), t)
           | Inr plan \<Rightarrow>
               (case apply_all (apply_install_step env opts (run_steps_of opts a)) (ip_steps plan) t of
                  ((e, steps), t1) \<Rightarrow>
                    let r = \<lparr>ars_action = ''install_apply_lab'', ars_root = trim_space (io_root opts), ars_manifest = [],
                             ars_steps = steps, ars_warnings = ip_warnings plan\<rparr>
                    in (case e of
                          Some err \<Rightarrow> ((Some err, r), t1)
                        | None \<Rightarrow>
                            (case resolved_target_path opts
                                    (join_paths [il_state_dir (ip_layout plan), ''install-apply-manifest.json'']) of
                               Inl err \<Rightarrow> ((Some err, r), t1)
                             | Inr path \<Rightarrow>
                                 let r1 = r\<lparr>ars_manifest := path\<rparr>
                                 in (case write_manifest env (enc r1) path t1 of (e1, t2) \<Rightarrow> ((e1, r1), t2)))))))"

definition apply_lab_uninstall :: "install_env \<Rightarrow> runtime_config \<Rightarrow> install_options \<Rightarrow> apply_guard \<Rightarrow> disk_tree \<Rightarrow>
    (install_error option \<times> apply_result) \<times> disk_tree" where
  "apply_lab_uninstall env rt opts a t =
     (case validate_apply_guard t opts a ''KIRO_LAB_UNINSTALL_APPLY'' of
        Some e \<Rightarrow> ((Some e, no_result), t)
      | None \<Rightarrow>
          let plan = build_uninstall_plan rt opts
          in (case apply_all (apply_uninstall_step env opts (run_steps_of opts a)) (ip_steps plan) t of
                ((e, steps), t1) \<Rightarrow>
                  ((e, \<lparr>ars_action = ''uninstall_apply_lab'', ars_root = trim_space (io_root opts), ars_manifest = [],
                        ars_steps = steps, ars_warnings = ip_warnings plan\<rparr>), t1)))"

end
