(* ===== verification/InstallFacts.thy ===== *)
theory InstallFacts
  imports Installer
begin

text \<open>
  What the installer guarantees: a path below an install root stays below it, an installation with a
  root changes nothing outside of it, uninstalling keeps the data, and a quoted argument is one word
  of the shell.
\<close>

subsection \<open>Paths below a root\<close>

lemma join_with_append:
  "xs \<noteq> [] \<Longrightarrow> ys \<noteq> [] \<Longrightarrow> join_with sep (xs @ ys) = join_with sep xs @ sep @ join_with sep ys"
  by (induction xs) (auto simp: join_with_Cons)

lemma clean_elems_extend:
  assumes "''..'' \<notin> set es"
  shows "clean_elems r (clean_elems r xs @ es) = clean_elems r xs @ es"
proof -
  have "foldl (push_elem r) [] (clean_elems r xs) = rev (clean_elems r xs)"
    using clean_clean_elems [of r xs] by (simp add: clean_elems_def)
  then show ?thesis by (simp add: clean_elems_def [of r "_ @ _"] foldl_push_plain [OF assms])
qed

lemma clean_path_from: "clean_path p = (if is_abs p \<or> clean_elems (is_abs p) (path_elems p) \<noteq> []
    then path_from (is_abs p) (clean_elems (is_abs p) (path_elems p)) else ''.'')"
proof -
  have "\<forall>e\<in>set (clean_elems (is_abs p) (path_elems p)). path_name e"
    by (rule clean_elems_names) (simp add: path_elems_names)
  from join_with_empty_iff [OF this] show ?thesis by (auto simp: clean_path_def path_from_def Let_def)
qed

lemma path_from_elems:
  assumes "\<forall>e\<in>set es. path_name e"
  shows "path_elems (path_from r es) = es" "is_abs (path_from r es) = (r \<or> False)"
proof -
  show "path_elems (path_from r es) = es" using path_elems_join [OF assms] by (simp add: path_from_def)
  have "\<not> is_abs (join_with ''/'' es)"
  proof (cases es)
    case (Cons e es')
    then show ?thesis using assms by (cases e) (auto simp: join_with_def is_abs_hd path_name_def)
  qed (simp add: join_with_def is_abs_def)
  then show "is_abs (path_from r es) = (r \<or> False)" by (simp add: path_from_def is_abs_hd)
qed

lemma rooted_stage:
  assumes "clean_path (trim_space base) \<noteq> ''.''" "clean_path (trim_space base) \<noteq> ''/''" "is_abs target"
  defines "b \<equiv> clean_path (trim_space base)" and "es \<equiv> clean_elems True (path_elems target)"
  shows "join_paths [b, trim_prefix ''/'' (clean_path target)] = path_from (is_abs b) (path_elems b @ es)"
    and "path_elems b \<noteq> []" and "b = path_from (is_abs b) (path_elems b)" and "b \<noteq> []"
proof -
  let ?r = "is_abs (trim_space base)"
  have b: "is_abs b = ?r" "path_elems b = clean_elems ?r (path_elems (trim_space base))"
    by (simp_all add: b_def clean_path_elems)
  show bs: "path_elems b \<noteq> []"
    using assms(1,2) clean_path_from [of "trim_space base"] b by (auto simp: b_def path_from_def join_with_def split: if_splits)
  show bf: "b = path_from (is_abs b) (path_elems b)"
    using clean_path_from [of "trim_space base"] bs unfolding b by (simp add: b_def)
  show "b \<noteq> []" using bs by auto
  have names: "\<forall>e\<in>set es. path_name e" unfolding es_def by (rule clean_elems_names) (simp add: path_elems_names)
  have rel: "trim_prefix ''/'' (clean_path target) = join_with ''/'' es"
    using assms(3) by (simp add: clean_path_def trim_prefix_def es_def Let_def)
  have "path_elems (b @ ''/'' @ join_with ''/'' es) = path_elems b @ es"
    by (simp only: path_elems_append path_elems_join [OF names])
  moreover have "is_abs (b @ ''/'' @ join_with ''/'' es) = ?r"
    using \<open>b \<noteq> []\<close> b(1) by (simp add: is_abs_hd)
  moreover have "clean_elems ?r (path_elems b @ es) = path_elems b @ es"
    unfolding b(2) by (rule clean_elems_extend) (simp add: es_def clean_elems_no_parent)
  ultimately show "join_paths [b, trim_prefix ''/'' (clean_path target)] = path_from (is_abs b) (path_elems b @ es)"
    unfolding rel join_two [OF \<open>b \<noteq> []\<close>] using bs b(1) by (subst clean_path_from) simp
qed

lemma rooted_path_form:
  "rooted_path base target =
     (if clean_path (trim_space base) \<in> {''.'', ''/''} then Inl Unsafe_root
      else if \<not> is_abs target then Inl Not_absolute
      else Inr (path_from (is_abs (trim_space base))
                  (path_elems (clean_path (trim_space base)) @ clean_elems True (path_elems target))))"
proof (cases "clean_path (trim_space base) \<in> {''.'', ''/''} \<or> \<not> is_abs target")
  case True
  then show ?thesis by (auto simp: rooted_path_def Let_def)
next
  case False
  let ?b = "clean_path (trim_space base)" and ?es = "clean_elems True (path_elems target)"
  have st: "join_paths [?b, trim_prefix ''/'' (clean_path target)] = path_from (is_abs ?b) (path_elems ?b @ ?es)"
      and bs: "path_elems ?b \<noteq> []" and bf: "?b = path_from (is_abs ?b) (path_elems ?b)" and ne: "?b \<noteq> []"
    using rooted_stage [of base target] False by simp_all
  have "path_from (is_abs ?b) (path_elems ?b @ ?es) = ?b \<or> prefix (?b @ ''/'') (path_from (is_abs ?b) (path_elems ?b @ ?es))"
  proof (cases "?es = []")
    case False
    have "path_from (is_abs ?b) (path_elems ?b @ ?es) = ?b @ ''/'' @ join_with ''/'' ?es"
      by (subst (3) bf) (simp only: path_from_def join_with_append [OF bs False] append_assoc)
    then show ?thesis by (metis append_assoc prefixI)
  qed (use bf in simp)
  then show ?thesis using False ne by (auto simp: rooted_path_def Let_def clean_path_idem st)
qed

lemma rooted_path_Inr:
  assumes "rooted_path base target = Inr p"
  defines "b \<equiv> clean_path (trim_space base)" and "es \<equiv> clean_elems True (path_elems target)"
  shows "inside b p" "path_elems b \<noteq> []" "path_elems p = path_elems b @ es" "''..'' \<notin> set es"
    "path_elems (clean_path target) = es"
proof -
  from assms(1) have unsafe: "b \<noteq> ''.''" "b \<noteq> ''/''" "is_abs target"
      and p: "p = path_from (is_abs (trim_space base)) (path_elems b @ es)"
    by (auto simp: rooted_path_form b_def es_def split: if_splits)
  have "\<forall>e\<in>set (path_elems b @ es). path_name e"
    using clean_elems_names [of "path_elems target" True] path_elems_names by (auto simp: es_def)
  note from_elems = path_from_elems [OF this, of "is_abs (trim_space base)"]
  show "path_elems p = path_elems b @ es" using from_elems by (simp add: p)
  then show "inside b p" using from_elems by (simp add: p inside_def b_def)
  show "path_elems b \<noteq> []" using rooted_stage(2) [of base target] unsafe by (simp add: b_def)
  show "''..'' \<notin> set es" by (simp add: es_def clean_elems_no_parent)
  show "path_elems (clean_path target) = es" using unsafe(3) by (simp add: es_def clean_path_elems)
qed

text \<open>
  C26. A path below an install root never leaves it: whatever the root and the target are, the
  result is refused because the root is the working directory, the root directory or the target is
  relative, or it has the elements of the root followed by those of the target without any double
  dot. The code's own test for an escape never fires.
\<close>

theorem rooted_path_confined:
  "rooted_path base target \<noteq> Inl Escapes_root \<and>
   (rooted_path base target = Inr p \<longrightarrow>
      inside (clean_path (trim_space base)) p \<and> path_elems (clean_path (trim_space base)) \<noteq> [] \<and>
      (\<exists>es. path_elems p = path_elems (clean_path (trim_space base)) @ es \<and> ''..'' \<notin> set es \<and>
            path_elems (clean_path target) = es))"
  using rooted_path_Inr [of base target p] by (auto simp: rooted_path_form)

lemma rooted_path_confined_witness:
  "inside ''/lab'' ''/lab/passwd'' \<and> rooted_path '' /lab'' ''/etc/../passwd'' = Inr ''/lab/passwd''"
proof -
  have trim: "trim_space '' /lab'' = ''/lab''"
    by (rule trim_space_first [where s = "''/lab''", simplified]) (simp_all add: visible_def)
  have names: "path_elems ''lab'' = [''lab'']" "path_elems ''/lab'' = [''lab'']" "path_elems ''/etc/../passwd'' = [''etc'', ''..'', ''passwd'']"
    by (simp_all add: path_elems_def)
  have run: "rooted_path '' /lab'' ''/etc/../passwd'' = Inr ''/lab/passwd''"
    by (simp add: rooted_path_form trim clean_path_def names clean_elems_def push_elem_def join_with_def is_abs_def path_from_def
        path_elems_def)
  have "clean_path (trim_space '' /lab'') = ''/lab''"
    by (simp add: trim clean_path_def names clean_elems_def push_elem_def join_with_def is_abs_def)
  then show ?thesis using run rooted_path_confined [of "'' /lab''" "''/etc/../passwd''" "''/lab/passwd''"] by metis
qed

subsection \<open>What an installation below a root touches\<close>

definition touches :: "string \<Rightarrow> disk_tree \<Rightarrow> disk_tree \<Rightarrow> bool" where
  "touches base t t' \<longleftrightarrow>
     (let b = clean_path (trim_space base)
      in \<forall>q. t' q = t q \<or> inside b q \<or> (inside q b \<and> t q = None \<and> (\<exists>m. t' q = Some (Dir_node m))))"

lemma touches_refl [simp]: "touches base t t"
  by (simp add: touches_def Let_def)

lemma touches_trans: "touches base t t' \<Longrightarrow> touches base t' t'' \<Longrightarrow> touches base t t''"
  unfolding touches_def Let_def by (metis option.distinct(1))

lemma touches_update: "inside (clean_path (trim_space base)) p \<Longrightarrow> touches base t (t(p := x))"
  by (auto simp: touches_def Let_def)

lemma touches_removal:
  "inside (clean_path (trim_space base)) p \<Longrightarrow> touches base t (snd (remove_all env p t))"
  by (auto simp: touches_def remove_all_def Let_def inside_def dest: prefix_order.trans)

lemma add_dirs_effect:
  "add_dirs m ps t q = t q \<or> q \<in> set ps \<and> t q = None \<and> add_dirs m ps t q = Some (Dir_node m)"
  unfolding add_dirs_def
proof (induction ps arbitrary: t)
  case (Cons p ps)
  show ?case using Cons.IH [of "if t p = None then t(p \<mapsto> Dir_node m) else t"] by (auto split: if_splits)
qed simp

lemma up_to_elems:
  assumes "q \<in> set (up_to p)"
  shows "is_abs q = is_abs p \<and> (\<exists>n. path_elems q = take n (path_elems p))"
proof -
  from assms obtain n where q: "q = path_from (is_abs p) (take n (path_elems p))" by (auto simp: up_to_def)
  have "\<forall>e\<in>set (take n (path_elems p)). path_name e" using path_elems_names in_set_takeD by metis
  then show ?thesis using path_from_elems q by auto
qed

lemma make_dirs_touches:
  assumes "make_dirs env m p t = Some t'" "inside (clean_path (trim_space base)) p \<or> inside p (clean_path (trim_space base))"
  shows "touches base t t'"
proof -
  have "inside (clean_path (trim_space base)) q \<or> inside q (clean_path (trim_space base))" if "q \<in> set (up_to p)" for q
  proof -
    obtain n where q: "is_abs q = is_abs p" "path_elems q = take n (path_elems p)" using up_to_elems [OF \<open>q \<in> _\<close>] by auto
    have "prefix (path_elems q) (path_elems p)" unfolding q(2) by (rule take_is_prefix)
    with assms(2) show ?thesis unfolding inside_def q(1) using prefix_same_cases prefix_order.trans by metis
  qed
  moreover have "t' = add_dirs m (up_to p) t" using assms(1) by (auto simp: make_dirs_def split: if_splits)
  ultimately show ?thesis using add_dirs_effect [of m "up_to p" t] unfolding touches_def Let_def by metis
qed

lemma parent_near:
  assumes "inside b p"
  shows "inside b (parent_of p) \<or> inside (parent_of p) b"
proof -
  have "\<forall>e\<in>set (butlast (path_elems p)). path_name e" using path_elems_names by (meson in_set_butlastD)
  note from_elems = path_from_elems [OF this, of "is_abs p"]
  have "prefix (butlast (path_elems p)) (path_elems p)" by (simp add: prefixeq_butlast)
  with assms prefix_same_cases show ?thesis unfolding inside_def parent_of_def using from_elems by fastforce
qed

lemma copy_into_touches:
  assumes "inside (clean_path (trim_space base)) path"
  shows "touches base t (snd (copy_into env source target path m t))"
proof (cases "make_dirs env 493 (parent_of path) t")
  case (Some t1)
  have "touches base t t1" by (rule make_dirs_touches [OF Some parent_near [OF assms]])
  moreover have "touches base t1 (snd (copy_into env source target path m t))"
    using touches_update [OF assms]
    by (auto simp: copy_into_def Some Let_def split: option.splits disk_node.splits disk_fault.splits)
  ultimately show ?thesis by (rule touches_trans)
qed (simp add: copy_into_def)

lemma write_manifest_touches:
  assumes "inside (clean_path (trim_space base)) path"
  shows "touches base t (snd (write_manifest env json path t))"
proof (cases "make_dirs env 493 (parent_of path) t")
  case (Some t1)
  have "touches base t t1" by (rule make_dirs_touches [OF Some parent_near [OF assms]])
  moreover have "touches base t1 (snd (write_manifest env json path t))"
    using touches_update [OF assms]
    by (auto simp: write_manifest_def Some split: option.splits disk_node.splits disk_fault.splits)
  ultimately show ?thesis by (rule touches_trans)
qed (simp add: write_manifest_def)

lemma resolved_inside:
  assumes "resolved_target_path opts target = Inr p" "trim_space (io_root opts) \<noteq> []"
  shows "inside (clean_path (trim_space (io_root opts))) p"
  using assms rooted_path_Inr(1) by (auto simp: resolved_target_path_def)

lemma copy_to_root_touches: "touches base t (snd (copy_to_root env base source target m t))"
  using copy_into_touches [OF rooted_path_Inr(1)]
  by (auto simp: copy_to_root_def Let_def split: sum.splits option.splits)

lemma install_step_touches:
  assumes "trim_space (io_root opts) \<noteq> []"
  shows "touches (io_root opts) t (snd (apply_install_step env opts False s t))"
proof (cases "stp_action s")
  case Act_mkdir
  then show ?thesis
    using make_dirs_touches [OF _ disjI1 [OF resolved_inside [OF _ assms]]]
    by (auto simp: apply_install_step_def Let_def split: sum.splits option.splits)
next
  case Act_copy
  have "touches (io_root opts) t (snd (copy_to_resolved_target env opts (stp_source s) (stp_target s) (stp_mode s) t))"
    using assms copy_to_root_touches by (simp add: copy_to_resolved_target_def)
  with Act_copy show ?thesis by (auto simp: apply_install_step_def Let_def split: sum.splits prod.splits)
qed (simp_all add: apply_install_step_def run_command_def Let_def)

lemma uninstall_step_touches:
  assumes "trim_space (io_root opts) \<noteq> []"
  shows "touches (io_root opts) t (snd (apply_uninstall_step env opts False s t))"
proof (cases "stp_action s")
  case Act_remove
  have "touches (io_root opts) t (snd (remove_all env p t))" if "resolved_target_path opts (stp_target s) = Inr p" for p
    by (rule touches_removal [OF resolved_inside [OF that assms]])
  with Act_remove show ?thesis
    by (fastforce simp: apply_uninstall_step_def Let_def split: sum.splits prod.splits bool.splits)
qed (simp_all add: apply_uninstall_step_def run_command_def Let_def)

lemma apply_all_touches:
  assumes "\<And>s t. touches base t (snd (f s t))"
  shows "touches base t (snd (apply_all f steps t))"
proof (induction steps arbitrary: t)
  case (Cons s steps)
  obtain e a t' where step: "f s t = ((e, a), t')" by (metis prod.exhaust)
  have first: "touches base t t'" using assms [of t s] by (simp add: step)
  show ?case
  proof (cases e)
    case None
    obtain e2 as t2 where tail: "apply_all f steps t' = ((e2, as), t2)" by (metis prod.exhaust)
    then have "touches base t' t2" using Cons.IH [of t'] by simp
    with first have "touches base t t2" by (rule touches_trans)
    then show ?thesis by (simp add: step None tail)
  qed (use first in \<open>simp add: step\<close>)
qed simp

lemma stage_steps_touches: "touches base t (snd (stage_steps env base steps r t))"
proof (induction steps arbitrary: r t)
  case (Cons s steps)
  show ?case
  proof (cases "stp_action s")
    case Act_mkdir
    have "touches base t t'" if "rooted_path base (stp_target s) = Inr p" "make_dirs env m p t = Some t'" for p m t'
      using make_dirs_touches [OF that(2) disjI1 [OF rooted_path_Inr(1) [OF that(1)]]] .
    then show ?thesis using Cons.IH touches_trans
      by (fastforce simp: Act_mkdir split: sum.splits option.splits)
  next
    case Act_copy
    obtain c t' where copy: "copy_to_root env base (stp_source s) (stp_target s) (stp_mode s) t = (c, t')" by (metis prod.exhaust)
    have "touches base t t'" using copy_to_root_touches [of base t env "stp_source s" "stp_target s" "stp_mode s"] by (simp add: copy)
    then show ?thesis using Cons.IH touches_trans by (cases c) (auto simp: Act_copy copy)
  qed (use Cons.IH in simp_all)
qed simp

lemma install_touches:
  assumes "trim_space (io_root opts) \<noteq> []" "\<not> ag_run_steps a"
  shows "touches (io_root opts) t (snd (apply_lab_install enc env rt opts a t))"
proof -
  have quiet: "run_steps_of opts a = False" using assms by (simp add: run_steps_of_def)
  have "touches (io_root opts) t (snd (apply_lab_install enc env rt opts a t))"
    if plan: "build_install_plan rt opts = Inr plan" and all: "apply_all (apply_install_step env opts False) (ip_steps plan) t = ((e, as), t1)"
    for plan e as t1
  proof -
    have first: "touches (io_root opts) t t1"
      using apply_all_touches [of "io_root opts" "apply_install_step env opts False", OF install_step_touches [OF assms(1)]] all
      by (metis snd_conv)
    have "touches (io_root opts) t1 (snd (write_manifest env json p t1))" if "resolved_target_path opts x = Inr p" for p json x
      by (rule write_manifest_touches [OF resolved_inside [OF that assms(1)]])
    with first have "touches (io_root opts) t (snd (write_manifest env json p t1))" if "resolved_target_path opts x = Inr p" for p json x
      using that touches_trans by blast
    then show ?thesis using first
      by (auto simp: apply_lab_install_def quiet plan all Let_def split: option.splits sum.splits prod.splits) (metis snd_conv)
  qed
  then show ?thesis
    by (cases "build_install_plan rt opts") (auto simp: apply_lab_install_def quiet split: option.splits prod.splits)
qed

lemma uninstall_touches:
  assumes "trim_space (io_root opts) \<noteq> []" "\<not> ag_run_steps a"
  shows "touches (io_root opts) t (snd (apply_lab_uninstall env rt opts a t))"
proof -
  have quiet: "run_steps_of opts a = False" using assms by (simp add: run_steps_of_def)
  have "touches (io_root opts) t (snd (apply_all (apply_uninstall_step env opts False) (ip_steps (build_uninstall_plan rt opts)) t))"
    by (rule apply_all_touches) (rule uninstall_step_touches [OF assms(1)])
  then show ?thesis by (auto simp: apply_lab_uninstall_def quiet Let_def split: option.splits prod.splits)
qed

lemma stage_touches:
  assumes "trim_space (io_root opts) \<noteq> []"
  shows "touches (io_root opts) t (snd (stage_lab_install enc env rt opts t))"
proof -
  have "touches (io_root opts) t (snd (stage_lab_install enc env rt opts t))"
    if plan: "build_install_plan rt opts = Inr plan"
      and all: "stage_steps env (io_root opts) (ip_steps plan)
        \<lparr>srs_root = clean_path (io_root opts), srs_manifest = [], srs_files = [], srs_dirs = [], srs_skipped = []\<rparr> t = (c, t1)"
    for plan c t1
  proof -
    have first: "touches (io_root opts) t t1"
      using stage_steps_touches [of "io_root opts" t env "ip_steps plan"] all by (metis snd_conv)
    have "touches (io_root opts) t1 (snd (write_manifest env json p t1))" if "rooted_path (io_root opts) x = Inr p" for p json x
      by (rule write_manifest_touches [OF rooted_path_Inr(1) [OF that]])
    with first have "touches (io_root opts) t (snd (write_manifest env json p t1))" if "rooted_path (io_root opts) x = Inr p" for p json x
      using that touches_trans by blast
    then show ?thesis using first
      by (auto simp: stage_lab_install_def assms plan all Let_def split: option.splits sum.splits prod.splits) (metis snd_conv)+
  qed
  then show ?thesis
    by (cases "build_install_plan rt opts") (auto simp: stage_lab_install_def assms split: prod.splits)
qed

lemma quiet_disk:
  "make_dirs (env\<lparr>ie_run := other\<rparr>) = make_dirs env" "copy_into (env\<lparr>ie_run := other\<rparr>) = copy_into env"
  "write_manifest (env\<lparr>ie_run := other\<rparr>) = write_manifest env"
proof -
  have fault: "ie_fault (env\<lparr>ie_run := other\<rparr>) = ie_fault env" by simp
  show dirs: "make_dirs (env\<lparr>ie_run := other\<rparr>) = make_dirs env" unfolding make_dirs_def fault by (rule refl)
  show "copy_into (env\<lparr>ie_run := other\<rparr>) = copy_into env" unfolding copy_into_def dirs fault by (rule refl)
  show "write_manifest (env\<lparr>ie_run := other\<rparr>) = write_manifest env" unfolding write_manifest_def dirs fault by (rule refl)
qed

lemma quiet_step: "apply_install_step (env\<lparr>ie_run := other\<rparr>) opts False = apply_install_step env opts False"
proof -
  have run: "run_command (env\<lparr>ie_run := other\<rparr>) False = run_command env False"
    by (intro ext) (simp add: run_command_def)
  have copy: "copy_to_resolved_target (env\<lparr>ie_run := other\<rparr>) = copy_to_resolved_target env"
    unfolding copy_to_resolved_target_def copy_to_root_def copy_to_target_def quiet_disk by (rule refl)
  show ?thesis unfolding apply_install_step_def run copy quiet_disk by (rule refl)
qed

text \<open>
  C27. A lab installation, staging or removal with an install root changes nothing outside of it,
  errors and cut-off copies included: what is not below the root is as before, but for the
  directories on the way to it that did not exist. And no command is run unless the caller asks for
  it: what commands would do plays no part.
\<close>

theorem lab_install_confined:
  assumes "trim_space (io_root opts) \<noteq> []" "\<not> ag_run_steps a"
  shows "touches (io_root opts) t (snd (apply_lab_install enc env rt opts a t)) \<and>
    touches (io_root opts) t (snd (apply_lab_uninstall env rt opts a t)) \<and>
    touches (io_root opts) t (snd (stage_lab_install enc2 env rt opts t)) \<and>
    apply_lab_install enc (env\<lparr>ie_run := other\<rparr>) rt opts a t = apply_lab_install enc env rt opts a t"
proof -
  have quiet: "run_steps_of opts a = False" using assms by (simp add: run_steps_of_def)
  have "apply_lab_install enc (env\<lparr>ie_run := other\<rparr>) rt opts a t = apply_lab_install enc env rt opts a t"
    unfolding apply_lab_install_def quiet quiet_step quiet_disk by (rule refl)
  then show ?thesis using install_touches [OF assms] uninstall_touches [OF assms] stage_touches [OF assms(1)] by blast
qed

definition lab_options :: install_options where
  "lab_options = \<lparr>io_config = ''/tmp/kiro.yaml'', io_root = ''/lab'', io_agent = [], io_cli = [], io_provider = [],
     io_service = [], io_purge = True\<rparr>"

definition lab_guard :: apply_guard where
  "lab_guard = \<lparr>ag_ack = ''KIRO_LAB_INSTALL_APPLY'', ag_uid = 1000, ag_release = [], ag_skip_os = True, ag_run_steps = False\<rparr>"

definition lab_env :: install_env where
  "lab_env = \<lparr>ie_fault = (\<lambda>p. if p = ''/lab/etc/kiro/kiro.yaml'' then Cut_fault 3 else No_fault), ie_left = (\<lambda>_. False),
     ie_run = (\<lambda>_ _. (False, Map.empty))\<rparr>"

lemma lab_install_confined_witness:
  "\<forall>rt t. touches ''/lab'' t (snd (apply_lab_install (\<lambda>_. Some []) lab_env rt lab_options lab_guard t))"
proof -
  have "trim_space ''/lab'' = ''/lab''" by (rule trim_visible) (simp_all add: visible_def)
  then have "trim_space (io_root lab_options) \<noteq> []" "\<not> ag_run_steps lab_guard" by (simp_all add: lab_options_def lab_guard_def)
  note confined = lab_install_confined [OF this, THEN conjunct1]
  show ?thesis using confined [of _ "\<lambda>_. Some []" lab_env] by (simp add: lab_options_def)
qed

subsection \<open>Removal\<close>

definition program_files :: "string list" where
  "program_files = [''/etc/systemd/system/kiro-agent.service'', ''/usr/local/bin/kiro-agent'', ''/usr/local/bin/kiro-cli'',
     ''/usr/local/bin/kiro-provider'']"

lemma layout_paths:
  "il_service (default_layout rt) = ''/etc/systemd/system/kiro-agent.service''"
  "il_agent (default_layout rt) = ''/usr/local/bin/kiro-agent''" "il_cli (default_layout rt) = ''/usr/local/bin/kiro-cli''"
  "il_provider (default_layout rt) = ''/usr/local/bin/kiro-provider''"
  by (simp_all add: default_layout_def Let_def join_paths_def join_with_def clean_path_def path_elems_def is_abs_def
      clean_elems_def push_elem_def)

lemma program_files_clean: "p \<in> set program_files \<Longrightarrow> is_abs p \<and> clean_path p = p"
  by (auto simp: program_files_def clean_path_def path_elems_def is_abs_def clean_elems_def push_elem_def join_with_def)

definition only_inside :: "string list \<Rightarrow> disk_tree \<Rightarrow> disk_tree \<Rightarrow> bool" where
  "only_inside ps t t' \<longleftrightarrow> (\<forall>q. t' q = t q \<or> (\<exists>p\<in>set ps. inside p q))"

lemma uninstall_step_inside:
  assumes "trim_space (io_root opts) = []" "\<forall>c t. snd (ie_run env c t) = t"
    "stp_action s = Act_run \<or> stp_action s = Act_remove \<and> stp_target s \<in> set program_files"
  shows "only_inside program_files t (snd (apply_uninstall_step env opts b s t))"
  using assms(3)
proof
  assume act: "stp_action s = Act_run"
  have "snd (run_command env b s t) = t"
    using assms(2) by (auto simp: run_command_def Let_def split: prod.splits bool.splits) (metis snd_conv)+
  with act show ?thesis by (simp add: apply_uninstall_step_def only_inside_def Let_def)
next
  assume act: "stp_action s = Act_remove \<and> stp_target s \<in> set program_files"
  then have "resolved_target_path opts (stp_target s) = Inr (stp_target s)"
    using program_files_clean assms(1) by (simp add: resolved_target_path_def)
  with act show ?thesis
    by (auto simp: apply_uninstall_step_def only_inside_def remove_all_def Let_def split: bool.splits)
qed

lemma apply_all_only_inside:
  assumes "\<forall>s\<in>set steps. \<forall>t. only_inside ps t (snd (f s t))"
  shows "only_inside ps t (snd (apply_all f steps t))"
  using assms
proof (induction steps arbitrary: t)
  case (Cons s steps)
  obtain e a t' where step: "f s t = ((e, a), t')" by (metis prod.exhaust)
  have first: "only_inside ps t t'" using Cons.prems step by (metis list.set_intros(1) snd_conv)
  obtain e2 as t2 where tail: "apply_all f steps t' = ((e2, as), t2)" by (metis prod.exhaust)
  have "only_inside ps t' t2" using Cons.IH [of t'] Cons.prems by (simp add: tail)
  with first have "only_inside ps t t2" unfolding only_inside_def by metis
  with first show ?case by (cases e) (simp_all add: step tail)
qed (simp add: only_inside_def)

text \<open>
  Uninstalling without purge, on the real system too, removes at most the service file and the
  three binaries: with commands that do not touch the disk themselves, everything that is not one of
  these four or below them is as before; in particular configuration, licence, state and logs.
\<close>

theorem uninstall_keeps_data:
  assumes "\<not> io_purge opts" "trim_space (io_root opts) = []" "\<forall>c t. snd (ie_run env c t) = t"
    "snd (apply_lab_uninstall env rt opts a t) q \<noteq> t q"
  shows "\<exists>p\<in>set program_files. inside p q"
proof -
  have "\<forall>s\<in>set (ip_steps (build_uninstall_plan rt opts)). stp_action s = Act_run \<or>
      stp_action s = Act_remove \<and> stp_target s \<in> set program_files"
    using assms(1) by (simp add: build_uninstall_plan_def run_step_def remove_step_def empty_step_def layout_paths program_files_def Let_def)
  then have "only_inside program_files t
      (snd (apply_all (apply_uninstall_step env opts b) (ip_steps (build_uninstall_plan rt opts)) t))" for b
    using uninstall_step_inside [OF assms(2,3)] by (intro apply_all_only_inside) blast
  then have "only_inside program_files t (snd (apply_lab_uninstall env rt opts a t))"
    by (auto simp: apply_lab_uninstall_def Let_def only_inside_def [of _ t t] split: option.splits prod.splits) (metis snd_conv)
  with assms(4) show ?thesis by (auto simp: only_inside_def)
qed

definition plain_uninstall :: install_options where
  "plain_uninstall = \<lparr>io_config = [], io_root = [], io_agent = [], io_cli = [], io_provider = [], io_service = [], io_purge = False\<rparr>"

definition root_guard :: apply_guard where
  "root_guard = \<lparr>ag_ack = ''KIRO_LAB_UNINSTALL_APPLY'', ag_uid = 0, ag_release = [], ag_skip_os = True, ag_run_steps = True\<rparr>"

definition fine_env :: install_env where
  "fine_env = \<lparr>ie_fault = (\<lambda>_. No_fault), ie_left = (\<lambda>_. False), ie_run = (\<lambda>_ t. (True, t))\<rparr>"

lemma uninstall_keeps_data_witness:
  "\<forall>rt t. snd (apply_lab_uninstall fine_env rt plain_uninstall root_guard t) ''/etc/kiro/kiro.yaml'' = t ''/etc/kiro/kiro.yaml''"
proof (intro allI, rule ccontr)
  fix rt t
  assume changed: "snd (apply_lab_uninstall fine_env rt plain_uninstall root_guard t) ''/etc/kiro/kiro.yaml'' \<noteq> t ''/etc/kiro/kiro.yaml''"
  have "\<exists>p\<in>set program_files. inside p ''/etc/kiro/kiro.yaml''"
    by (rule uninstall_keeps_data [OF _ _ _ changed]) (simp_all add: plain_uninstall_def fine_env_def)
  then show False by (simp add: program_files_def inside_def path_elems_def)
qed

text \<open>With purge, a state directory that a configuration names is removed whatever it is: the root too.\<close>

lemma purge_removes_state_dir:
  assumes "rpa_state (rtc_paths rt) = ''/''" "io_purge opts"
  shows "remove_step ''purge_state_dir'' ''/'' opts \<in> set (ip_steps (build_uninstall_plan rt opts))"
proof -
  have "trim_space ''/'' = ''/''" by (rule trim_visible) (simp_all add: visible_def)
  then have "il_state_dir (default_layout rt) = ''/''" using assms(1) by (simp add: default_layout_def Let_def)
  then show ?thesis using assms(2) by (simp add: build_uninstall_plan_def Let_def)
qed

lemma removing_root: "snd (remove_all fine_env ''/'' t) q = (if is_abs q then None else t q)"
  by (simp add: remove_all_def fine_env_def inside_def is_abs_def path_elems_def)

subsection \<open>Copies\<close>

text \<open>
  A file installed over itself, such as \<^verbatim>\<open>/etc/kiro/kiro.yaml\<close> given as the configuration, is
  emptied, and the step is reported as applied.
\<close>

lemma self_copy_empties:
  assumes "clean_path p = p" "is_abs p" "trim_space p = p" "t p = Some (File_node bytes m)" "make_dirs fine_env 493 (parent_of p) t = Some t"
  shows "snd (copy_to_target fine_env p p ''0640'' t) p = Some (File_node [] 416)"
proof -
  have "trim_space ''0640'' = ''0640''" by (rule trim_visible) (simp_all add: visible_def)
  then have "parse_mode ''0640'' 420 = Some 416" by (simp add: parse_mode_def digit_val_def)
  moreover have "p \<noteq> []" using assms(1) clean_path_nonempty by metis
  ultimately show ?thesis using assms by (simp add: copy_to_target_def copy_into_def fine_env_def Let_def)
qed

subsection \<open>Quoting\<close>

text \<open>
  The reading of a word by a POSIX shell, outside of quotes, in single and in double quotes; in
  double quotes an expansion is left to the shell and not modelled.
\<close>

datatype quoting = Bare | In_single | In_double

fun shell_word :: "quoting \<Rightarrow> string \<Rightarrow> (string \<times> string) option" where
  "shell_word Bare [] = Some ([], [])"
| "shell_word _ [] = None"
| "shell_word Bare (c # s) =
     (if c = single_quote then shell_word In_single s
      else if c = double_quote then shell_word In_double s
      else if c = CHR '' '' then Some ([], c # s)
      else if c \<in> set ''$`|&;<>()*?[]#~=%'' \<or> c = CHR 0x5C \<or> c = CHR 0x0A then None
      else map_option (\<lambda>(w, r). (c # w, r)) (shell_word Bare s))"
| "shell_word In_single (c # s) =
     (if c = single_quote then shell_word Bare s else map_option (\<lambda>(w, r). (c # w, r)) (shell_word In_single s))"
| "shell_word In_double (c # s) =
     (if c = double_quote then shell_word Bare s
      else if c \<in> set ''$`'' \<or> c = CHR 0x5C then None
      else map_option (\<lambda>(w, r). (c # w, r)) (shell_word In_double s))"

lemma shell_word_quoted:
  "shell_word In_single
     (concat (map (\<lambda>c. if c = single_quote then [single_quote, double_quote, single_quote, double_quote, single_quote] else [c]) v)
      @ [single_quote] @ rest) =
   map_option (\<lambda>(w, r). (v @ w, r)) (shell_word Bare rest)"
proof (induction v)
  case Nil
  then show ?case by (cases "shell_word Bare rest") simp_all
next
  case (Cons c v)
  then show ?case by (cases "shell_word Bare rest") (auto simp: single_quote_def double_quote_def)
qed

text \<open>
  A quoted argument is read by the shell as one word that is the argument, whatever characters
  it has, and the reading goes on after it: an option value cannot end the word, start a command or
  be expanded.
\<close>

theorem shell_arg_one_word:
  "shell_word Bare (shell_arg v) = Some (v, []) \<and> shell_word Bare (shell_arg v @ '' '' @ rest) = Some (v, '' '' @ rest)"
proof -
  have "shell_word Bare (shell_arg v @ rest) = map_option (\<lambda>(w, r). (v @ w, r)) (shell_word Bare rest)" for rest
  proof (cases "v = []")
    case True
    then show ?thesis by (cases "shell_word Bare rest") (simp_all add: shell_arg_def)
  next
    case False
    then show ?thesis using shell_word_quoted [of v rest] by (simp add: shell_arg_def)
  qed
  from this [of "[]"] this [of "'' '' @ rest"] show ?thesis by (simp add: single_quote_def double_quote_def)
qed

end
