(* ===== verification/SharedLoad.thy ===== *)
theory SharedLoad
  imports SharedTypes
begin

text \<open>
  Validation and loading of the configuration files, \<^verbatim>\<open>internal/shared/config/load.go\<close>. The YAML
  decoder and \<^verbatim>\<open>url.Parse\<close> are arguments: a file is what the decoder makes of it, and the parser
  gives scheme and host. A sequence of checks with early returns is the list of their results,
  the first error of which is returned; an error is the constant text of its message.
\<close>

type_synonym config_error = string

fun first_of :: "config_error option list \<Rightarrow> config_error option" where
  "first_of [] = None"
| "first_of (None # rest) = first_of rest"
| "first_of (Some e # rest) = Some e"

definition reject :: "bool \<Rightarrow> config_error \<Rightarrow> config_error option" where
  "reject bad msg = (if bad then Some msg else None)"

lemma first_of_None: "first_of xs = None \<longleftrightarrow> (\<forall>x\<in>set xs. x = None)"
proof (induction xs)
  case (Cons x xs)
  then show ?case by (cases x) simp_all
qed simp

lemma first_of_append: "first_of (xs @ ys) = (case first_of xs of None \<Rightarrow> first_of ys | Some e \<Rightarrow> Some e)"
  by (induction xs rule: first_of.induct) simp_all

lemma reject_None [simp]: "reject bad msg = None \<longleftrightarrow> \<not> bad"
  by (simp add: reject_def)

lemma reject_False [simp]: "reject False msg = None"
  by (simp add: reject_def)

definition blank_text :: "string \<Rightarrow> bool" where "blank_text s \<longleftrightarrow> trim_space s = []"

type_synonym url_scan = "string \<Rightarrow> (string \<times> string) option"

definition allowed_modes :: "string set" where "allowed_modes = {''server'', ''full''}"
definition allowed_profiles :: "string set" where "allowed_profiles = {''light'', ''balanced'', ''strict'', ''lockdown''}"
definition allowed_tls_modes :: "string set" where "allowed_tls_modes = {''flexible_http'', ''full_tls'', ''full_strict''}"
definition allowed_waf_engines :: "string set" where "allowed_waf_engines = {''coraza'', ''modsecurity''}"

definition validate_backend_url :: "url_scan \<Rightarrow> string \<Rightarrow> config_error option" where
  "validate_backend_url scan raw =
     (if blank_text raw then Some ''backend URL is required''
      else case scan raw of
             None \<Rightarrow> Some ''invalid URL''
           | Some (scheme, host) \<Rightarrow>
               if scheme \<noteq> ''http'' \<and> scheme \<noteq> ''https'' then Some ''backend URL must use http or https''
               else if host = [] then Some ''backend URL host is required'' else None)"

text \<open>The domains seen so far are threaded through the sites.\<close>

fun claim_domains :: "string set \<Rightarrow> string list \<Rightarrow> config_error + string set" where
  "claim_domains seen [] = Inr seen"
| "claim_domains seen (d # ds) = (if d \<in> seen then Inl ''duplicate domain'' else claim_domains (insert d seen) ds)"

subsection \<open>Tenant files\<close>

definition check_tenant_route :: "url_scan \<Rightarrow> tenant_route \<Rightarrow> config_error option" where
  "check_tenant_route scan r =
     first_of [reject (blank_text (tro_path r) \<or> \<not> prefix ''/'' (tro_path r)) ''route path must start with /'',
       validate_backend_url scan (tro_backend r)]"

fun check_tenant_sites :: "url_scan \<Rightarrow> string set \<Rightarrow> tenant_site list \<Rightarrow> config_error option" where
  "check_tenant_sites scan seen [] = None"
| "check_tenant_sites scan seen (s # rest) =
     (if tsi_domains s = [] then Some ''domains must not be empty''
      else case claim_domains seen (tsi_domains s) of
             Inl e \<Rightarrow> Some e
           | Inr seen' \<Rightarrow>
               (case first_of (validate_backend_url scan (tsi_backend s) # map (check_tenant_route scan) (tsi_routes s)) of
                  Some e \<Rightarrow> Some e
                | None \<Rightarrow> check_tenant_sites scan seen' rest))"

definition validate_tenant_website :: "url_scan \<Rightarrow> tenant_website \<Rightarrow> config_error option" where
  "validate_tenant_website scan w =
     first_of
      [reject (twe_tls w \<notin> allowed_tls_modes) ''invalid website.tls_mode'',
       reject (twe_tls w \<in> {''full_tls'', ''full_strict''} \<and> (blank_text (twe_cert w) \<or> blank_text (twe_key w)))
         ''website tls mode requires cert_file and key_file'',
       reject (twe_sites w = []) ''website.sites must contain at least one site'',
       check_tenant_sites scan {} (twe_sites w)]"

definition bad_port :: "int \<Rightarrow> bool" where "bad_port p \<longleftrightarrow> p \<le> 0 \<or> 65535 < p"

definition validate_tenant :: "url_scan \<Rightarrow> tenant_config \<Rightarrow> config_error option" where
  "validate_tenant scan c =
     first_of
      ([reject (ten_mode c \<notin> allowed_modes) ''invalid mode'',
        reject (blank_text (ten_plan c)) ''plan is required'',
        reject (blank_text (ten_license c)) ''license_key is required'',
        reject (ten_admins c = []) ''admin.allow_ips must contain at least one CIDR''] @
       map (\<lambda>cidr. reject (parse_cidr cidr = None) ''invalid admin allow CIDR'') (ten_admins c) @
       [reject (blank_text (tse_interface (ten_server c))) ''server.interface is required'',
        reject (bad_port (tse_ssh_port (ten_server c))) ''server.ssh_port must be between 1 and 65535'',
        reject (tpr_profile (ten_protection c) \<notin> allowed_profiles) ''invalid protection.profile'',
        if ten_mode c = ''full'' \<or> twe_enabled (ten_website c) then validate_tenant_website scan (ten_website c) else None])"

subsection \<open>Advanced files\<close>

definition out_of_percent :: "f64 \<Rightarrow> bool" where
  "out_of_percent v \<longleftrightarrow> f64_less v (Finite 0) \<or> f64_less (Finite 100) v"

definition validate_governor_threshold :: "governor_threshold \<Rightarrow> config_error option" where
  "validate_governor_threshold t =
     first_of [reject (out_of_percent (gth_cpu t)) ''cpu_percent must be between 0 and 100'',
       reject (out_of_percent (gth_ram t)) ''ram_available_percent must be between 0 and 100'',
       reject (f64_less (gth_load t) (Finite 0)) ''load1 must not be negative'',
       reject (out_of_percent (gth_conntrack t)) ''conntrack_percent must be between 0 and 100'',
       reject (f64_less (gth_latency t) (Finite 0)) ''backend_latency_ms must not be negative'']"

definition validate_resource_governor :: "governor_config \<Rightarrow> config_error option" where
  "validate_resource_governor g =
     (if \<not> gov_enabled g then None
      else first_of
       [reject (gba_days (gov_baseline g) < 0) ''learning_days must not be negative'',
        reject (gba_samples (gov_baseline g) < 0) ''min_samples must not be negative'',
        reject (ghy_hold (gov_hysteresis g) < 0) ''min_level_hold_seconds must not be negative'',
        reject (ghy_cooldown (gov_hysteresis g) < 0) ''cooldown_seconds must not be negative'',
        reject (ghy_recovery (gov_hysteresis g) < 0) ''require_recovery_samples must not be negative'',
        validate_governor_threshold (gle_elevated (gov_levels g)),
        validate_governor_threshold (gle_attack (gov_levels g)),
        validate_governor_threshold (gle_lockdown (gov_levels g))])"

definition validate_website_defense :: "website_protection \<Rightarrow> config_error option" where
  "validate_website_defense w =
     first_of
      ((if wwa_enabled (wpr_waf w) then
          [reject (blank_text (wwa_engine (wpr_waf w))) ''waf.engine is required when WAF is enabled'',
           reject (wwa_engine (wpr_waf w) \<notin> allowed_waf_engines) ''waf.engine must be coraza or modsecurity'',
           reject (wwa_anomaly (wpr_waf w) < 0) ''waf.anomaly_threshold must not be negative'']
        else []) @
       [reject (wbo_challenge (wpr_bot w) < 0 \<or> 100 < wbo_challenge (wpr_bot w)) ''bot.score_challenge must be between 0 and 100'',
        reject (wbo_block (wpr_bot w) < 0 \<or> 100 < wbo_block (wpr_bot w)) ''bot.score_block must be between 0 and 100'',
        reject (wbo_enabled (wpr_bot w) \<and> 0 < wbo_block (wpr_bot w) \<and> wbo_block (wpr_bot w) < wbo_challenge (wpr_bot w))
          ''bot.score_challenge must be less than or equal to score_block''])"

definition validate_advanced_xdp :: "advanced_xdp \<Rightarrow> config_error option" where
  "validate_advanced_xdp x =
     (if \<not> axd_enabled x then None
      else first_of
       ([reject (trim_space (axd_mode x) \<notin> {[], ''generic'', ''native'', ''offload''}) ''xdp.mode must be generic, native, or offload'',
         reject (\<not> blank_text (axd_section x) \<and> set (axd_section x) \<inter> {CHR '' '', CHR 0x09, CHR 0x0A, CHR 0x0D, CHR ''/''} \<noteq> {})
           ''xdp.section must be a simple ELF section name''] @
        map (\<lambda>path. reject (CHR 0x00 \<in> set path) ''xdp path contains NUL byte'')
          [axd_program x, axd_allowlist x, axd_blocklist x]))"

definition validate_server_ddos :: "server_ddos \<Rightarrow> config_error option" where
  "validate_server_ddos d =
     reject (sdd_per_ip d < 0 \<or> sdd_per_subnet d < 0 \<or> sdd_syn d < 0 \<or> sdd_udp d < 0 \<or> sdd_icmp d < 0 \<or>
       sdd_block_secs d < 0 \<or> sdd_grey_secs d < 0) ''ddos thresholds must not be negative''"

definition validate_advanced_updates :: "advanced_updates \<Rightarrow> config_error option" where
  "validate_advanced_updates u =
     (if \<not> aup_enabled u then None
      else first_of [reject (blank_text (aup_channel u)) ''updates.channel is required when updates are enabled'',
        reject (blank_text (aup_manifest u)) ''updates.manifest_url is required when updates are enabled''])"

definition validate_advanced_security :: "advanced_security \<Rightarrow> config_error option" where
  "validate_advanced_security s =
     (if \<not> ase_enabled s then None
      else first_of
       ([reject (ase_integrity s \<and> ase_paths s = []) ''file_integrity.paths must not be empty''] @
        map (\<lambda>path. reject (blank_text path) ''file_integrity.paths contains empty path'') (ase_paths s) @
        map (\<lambda>name. reject (blank_text name) ''alert_when_web_user_executes contains empty process name'') (ase_processes s)))"

definition validate_advanced_telemetry :: "advanced_telemetry \<Rightarrow> config_error option" where
  "validate_advanced_telemetry t = reject (ate_interval t < 0) ''send_interval_seconds must not be negative''"

fun check_pools :: "url_scan \<Rightarrow> string set \<Rightarrow> config_pool list \<Rightarrow> config_error option" where
  "check_pools scan seen [] = None"
| "check_pools scan seen (p # rest) =
     (case first_of
        ([reject (blank_text (cbp_id p)) ''backend pool id is required'',
          reject (cbp_id p \<in> seen) ''duplicate backend pool'',
          reject (cbp_upstreams p = []) ''backend pool must have upstreams''] @
         map (\<lambda>u. validate_backend_url scan (cup_url u)) (cbp_upstreams p)) of
        Some e \<Rightarrow> Some e
      | None \<Rightarrow> check_pools scan (insert (cbp_id p) seen) rest)"

definition check_advanced_route :: "string set \<Rightarrow> advanced_route \<Rightarrow> config_error option" where
  "check_advanced_route pools r =
     first_of [reject (blank_text (aro_path r) \<or> \<not> prefix ''/'' (aro_path r)) ''route path must start with /'',
       reject (aro_pool r \<noteq> [] \<and> aro_pool r \<notin> pools) ''route references unknown backend pool'']"

definition check_site_tls :: "advanced_tls \<Rightarrow> config_error option" where
  "check_site_tls t =
     (if atl_mode t = [] then None
      else first_of [reject (atl_mode t \<notin> allowed_tls_modes) ''invalid tls.origin_mode'',
        reject (atl_mode t \<in> {''full_tls'', ''full_strict''} \<and> (blank_text (atl_cert t) \<or> blank_text (atl_key t)))
          ''tls mode requires certificate_file and private_key_file''])"

fun check_advanced_sites :: "string set \<Rightarrow> string set \<Rightarrow> advanced_site list \<Rightarrow> config_error option" where
  "check_advanced_sites pools seen [] = None"
| "check_advanced_sites pools seen (s # rest) =
     (case first_of [reject (blank_text (asi_id s)) ''site id is required'', check_site_tls (asi_tls s),
                     reject (asi_domains s = []) ''site must have domains''] of
        Some e \<Rightarrow> Some e
      | None \<Rightarrow>
          (case claim_domains seen (asi_domains s) of
             Inl e \<Rightarrow> Some e
           | Inr seen' \<Rightarrow>
               (case first_of (reject (asi_pool s \<notin> pools) ''site references unknown default backend pool''
                               # map (check_advanced_route pools) (asi_routes s)) of
                  Some e \<Rightarrow> Some e
                | None \<Rightarrow> check_advanced_sites pools seen' rest)))"

definition validate_advanced :: "url_scan \<Rightarrow> advanced_config \<Rightarrow> config_error option" where
  "validate_advanced scan c =
     first_of
      ([reject (adv_role c \<noteq> ''protected_server'') ''advanced node_role must be protected_server'',
        reject (adv_mode c \<notin> allowed_modes) ''invalid mode'',
        reject (blank_text (adv_profile c)) ''deployment_profile is required''] @
       (if ali_need_valid (adv_license c) then
          [reject (blank_text (ali_file (adv_license c))) ''license.file is required when require_valid_license is true'',
           reject (blank_text (ali_key (adv_license c))) ''license.provider_public_key is required when require_valid_license is true'',
           reject (blank_text (sid_salt (adv_identity c))) ''server_identity.fingerprint_salt_id is required when license is enforced'']
        else []) @
       [reject (asa_rollback (adv_safety c) < 0) ''safety.rollback_timer_seconds must not be negative'',
        validate_resource_governor (adv_governor c),
        validate_advanced_xdp (spr_xdp (adv_server c)),
        validate_server_ddos (spr_ddos (adv_server c)),
        validate_website_defense (adv_website c),
        validate_advanced_updates (adv_updates c),
        validate_advanced_security (adv_security c),
        validate_advanced_telemetry (adv_telemetry c)] @
       map (\<lambda>p. reject (bad_port p) ''nftables.allow_ports contains invalid port'') (nft_ports (spr_nft (adv_server c))) @
       map (\<lambda>cidr. reject (parse_cidr cidr = None) ''invalid nftables.admin_ips CIDR'') (nft_admins (spr_nft (adv_server c))) @
       [reject (adv_pools c = []) ''backend_pools must not be empty'',
        check_pools scan {} (adv_pools c),
        reject (adv_mode c = ''full'' \<and> adv_sites c = []) ''sites must not be empty in full mode'',
        check_advanced_sites (cbp_id ` set (adv_pools c)) {} (adv_sites c)])"

subsection \<open>Provider files\<close>

text \<open>The plans of the map, in the order Go enumerates them.\<close>

definition check_plan :: "string \<times> license_plan \<Rightarrow> config_error option" where
  "check_plan = (\<lambda>(name, plan).
     first_of
      ([reject (blank_text name) ''licenses.plans contains empty plan name'',
        reject (lpl_modes plan = []) ''allowed_modes must not be empty''] @
       map (\<lambda>mode. reject (mode \<notin> allowed_modes) ''plan has invalid mode'') (lpl_modes plan) @
       [reject (lpl_features plan = []) ''features must not be empty'']))"

definition validate_provider :: "provider_config \<Rightarrow> config_error option" where
  "validate_provider c =
     first_of
      ([reject (pro_role c \<noteq> ''provider_license_server'') ''provider.node_role must be provider_license_server'',
        reject (blank_text (pro_name c)) ''provider.name is required'',
        reject (blank_text (pro_signing_key c)) ''provider.signing_key_file is required'',
        reject (blank_text (pro_public_key c)) ''provider.public_key_file is required'',
        reject (pro_driver c \<noteq> ''file'') ''storage.driver must be file in MVP'',
        reject (blank_text (pro_root_dir c)) ''storage.root_dir is required'',
        reject (pro_grace_days c < 0) ''licenses.default_grace_days must not be negative'',
        reject (pro_plans c = []) ''licenses.plans must not be empty''] @
       map check_plan (pro_plans c) @
       [reject (pro_retention c < 0) ''updates.rollback_retention must not be negative''] @
       map (\<lambda>ch. reject (blank_text ch) ''updates.channels contains empty channel'') (pro_channels c))"

subsection \<open>Loading\<close>

text \<open>A file that decodes to a map: the keys the loader probes, and the three typed decodings.\<close>

record config_doc =
  doc_has_provider :: bool
  doc_role :: "string option"
  doc_provider :: "provider_config option"
  doc_advanced :: "advanced_config option"
  doc_tenant :: "tenant_config option"

datatype config_source = Unreadable | Unparsable | Document config_doc

datatype any_config = Any_provider provider_config | Any_advanced advanced_config | Any_tenant tenant_config

record check_outcome =
  cho_path :: string
  cho_kind :: config_kind
  cho_mode :: string
  cho_plan :: string

definition load_file :: "url_scan \<Rightarrow> string \<Rightarrow> config_source \<Rightarrow> config_error + any_config \<times> check_outcome" where
  "load_file scan path src =
     (case src of
        Unreadable \<Rightarrow> Inl ''read''
      | Unparsable \<Rightarrow> Inl ''parse yaml''
      | Document d \<Rightarrow>
          if doc_has_provider d then
            (case doc_provider d of
               None \<Rightarrow> Inl ''decode''
             | Some c \<Rightarrow>
                 (case validate_provider c of Some e \<Rightarrow> Inl e
                  | None \<Rightarrow> Inr (Any_provider c, \<lparr>cho_path = path, cho_kind = Kind_provider, cho_mode = [], cho_plan = []\<rparr>)))
          else if doc_role d = Some ''protected_server'' then
            (case doc_advanced d of
               None \<Rightarrow> Inl ''decode''
             | Some c \<Rightarrow>
                 (case validate_advanced scan c of Some e \<Rightarrow> Inl e
                  | None \<Rightarrow> Inr (Any_advanced c, \<lparr>cho_path = path, cho_kind = Kind_advanced, cho_mode = adv_mode c,
                                                  cho_plan = adv_profile c\<rparr>)))
          else
            (case doc_tenant d of
               None \<Rightarrow> Inl ''decode''
             | Some c \<Rightarrow>
                 (case validate_tenant scan c of Some e \<Rightarrow> Inl e
                  | None \<Rightarrow> Inr (Any_tenant c, \<lparr>cho_path = path, cho_kind = Kind_tenant, cho_mode = ten_mode c,
                                                cho_plan = ten_plan c\<rparr>))))"

definition check_file :: "url_scan \<Rightarrow> string \<Rightarrow> config_source \<Rightarrow> config_error + check_outcome" where
  "check_file scan path src = map_sum id snd (load_file scan path src)"

definition load_provider_file :: "url_scan \<Rightarrow> string \<Rightarrow> config_source \<Rightarrow> config_error + provider_config" where
  "load_provider_file scan path src =
     (case load_file scan path src of
        Inl e \<Rightarrow> Inl e
      | Inr (c, r) \<Rightarrow>
          if cho_kind r \<noteq> Kind_provider then Inl ''expected provider config''
          else (case c of Any_provider p \<Rightarrow> Inr p | _ \<Rightarrow> Inl ''provider config type assertion failed''))"

end
