(* ===== verification/SharedRuntime.thy ===== *)
theory SharedRuntime
  imports SharedLoad
begin

text \<open>
  The expansion of a tenant or advanced configuration to the runtime configuration,
  \<^verbatim>\<open>internal/shared/config/runtime.go\<close>: defaults, normalisation, backend pools and sites.
\<close>

subsection \<open>Defaults and normalisation\<close>

definition default_runtime_waf :: "bool \<Rightarrow> runtime_waf" where
  "default_runtime_waf enabled = \<lparr>rwf_enabled = enabled, rwf_engine = ''coraza'', rwf_crs = enabled, rwf_anomaly = 5\<rparr>"

definition default_runtime_xdp :: "bool \<Rightarrow> runtime_xdp" where
  "default_runtime_xdp enabled =
     \<lparr>rxd_enabled = enabled, rxd_mode = ''generic'', rxd_program = ''/usr/lib/kiro/xdp/kiro_xdp_drop.o'',
      rxd_section = ''xdp'', rxd_private = False, rxd_malformed = False, rxd_fragments = False,
      rxd_rate_limit = False, rxd_window = 1, rxd_per_ip = 0, rxd_per_subnet = 0, rxd_syn = 0, rxd_udp = 0,
      rxd_icmp = 0, rxd_allowlist = [], rxd_blocklist = []\<rparr>"

definition or_text :: "string \<Rightarrow> string \<Rightarrow> string" where
  "or_text v d = (if v = [] then d else v)"

definition or_num :: "int \<Rightarrow> int \<Rightarrow> int" where
  "or_num v d = (if v = 0 then d else v)"

definition normalize_runtime_xdp :: "runtime_xdp \<Rightarrow> runtime_xdp" where
  "normalize_runtime_xdp x =
     (if \<not> rxd_enabled x then x
      else let d = default_runtime_xdp True
           in x\<lparr>rxd_mode := or_text (rxd_mode x) (rxd_mode d), rxd_program := or_text (rxd_program x) (rxd_program d),
                rxd_section := or_text (rxd_section x) (rxd_section d),
                rxd_window := if rxd_window x \<le> 0 then rxd_window d else rxd_window x\<rparr>)"

definition xdp_rate_limit_enabled :: "server_ddos \<Rightarrow> bool" where
  "xdp_rate_limit_enabled d \<longleftrightarrow> 0 < sdd_per_ip d \<or> 0 < sdd_per_subnet d \<or> 0 < sdd_syn d \<or> 0 < sdd_udp d \<or> 0 < sdd_icmp d"

definition normalize_runtime_waf :: "runtime_waf \<Rightarrow> runtime_waf" where
  "normalize_runtime_waf w =
     (if \<not> rwf_enabled w then w
      else let d = default_runtime_waf True
           in w\<lparr>rwf_engine := or_text (rwf_engine w) (rwf_engine d), rwf_anomaly := or_num (rwf_anomaly w) (rwf_anomaly d)\<rparr>)"

definition default_runtime_bot :: "bool \<Rightarrow> string list \<Rightarrow> runtime_bot" where
  "default_runtime_bot enabled trusted =
     \<lparr>rbo_enabled = enabled, rbo_cookie = enabled, rbo_js = False, rbo_pow = False, rbo_challenge = 50,
      rbo_block = 80, rbo_cookie_name = ''kiro_challenge'', rbo_trusted = trusted\<rparr>"

definition normalize_runtime_bot :: "runtime_bot \<Rightarrow> runtime_bot" where
  "normalize_runtime_bot b =
     (if \<not> rbo_enabled b then b
      else let d = default_runtime_bot True (rbo_trusted b)
           in b\<lparr>rbo_challenge := or_num (rbo_challenge b) (rbo_challenge d), rbo_block := or_num (rbo_block b) (rbo_block d),
                rbo_cookie_name := or_text (rbo_cookie_name b) (rbo_cookie_name d)\<rparr>)"

definition default_runtime_updates :: "bool \<Rightarrow> runtime_updates" where
  "default_runtime_updates enabled =
     \<lparr>rud_enabled = enabled, rud_channel = ''stable'', rud_manifest = [], rud_signed = True, rud_auto_rollback = True\<rparr>"

definition normalize_runtime_updates :: "runtime_updates \<Rightarrow> runtime_updates" where
  "normalize_runtime_updates u =
     (if \<not> rud_enabled u then u
      else let d = default_runtime_updates True
           in u\<lparr>rud_channel := or_text (rud_channel u) (rud_channel d),
                rud_signed := (if \<not> rud_signed u then rud_signed d else rud_signed u),
                rud_auto_rollback := (if \<not> rud_auto_rollback u then rud_auto_rollback d else rud_auto_rollback u)\<rparr>)"

definition default_runtime_security :: "bool \<Rightarrow> runtime_security" where
  "default_runtime_security enabled =
     \<lparr>rse_enabled = enabled, rse_audit = enabled, rse_integrity = enabled, rse_paths = [''/etc/kiro''],
      rse_processes = [''sh'', ''bash'', ''curl'', ''wget'', ''nc'', ''python'', ''perl''],
      rse_web_users = [''www-data'', ''nginx'', ''apache'', ''httpd'']\<rparr>"

definition normalize_runtime_security :: "runtime_security \<Rightarrow> runtime_security" where
  "normalize_runtime_security s =
     (if \<not> rse_enabled s then s
      else let d = default_runtime_security True
           in s\<lparr>rse_processes := if rse_processes s = [] then rse_processes d else rse_processes s,
                rse_web_users := if rse_web_users s = [] then rse_web_users d else rse_web_users s\<rparr>)"

definition default_runtime_telemetry :: "bool \<Rightarrow> runtime_telemetry" where
  "default_runtime_telemetry enabled =
     \<lparr>rte_enabled = enabled, rte_health = enabled, rte_interval = 3600,
      rte_privacy = \<lparr>rpv_body = False, rpv_cookie = False, rpv_auth = False, rpv_raw_ip = False, rpv_hash_ip = True,
                     rpv_redact = True\<rparr>\<rparr>"

definition normalize_runtime_telemetry :: "runtime_telemetry \<Rightarrow> runtime_telemetry" where
  "normalize_runtime_telemetry t =
     (let d = default_runtime_telemetry (rte_enabled t);
          p = rte_privacy t;
          t1 = (if rte_health t \<and> rte_interval t = 0 then t\<lparr>rte_interval := rte_interval d\<rparr> else t)
      in if \<not> rpv_body p \<and> \<not> rpv_cookie p \<and> \<not> rpv_auth p \<and> \<not> rpv_raw_ip p \<and> \<not> rpv_hash_ip p \<and> \<not> rpv_redact p
         then t1\<lparr>rte_privacy := rte_privacy d\<rparr> else t1)"

definition level_threshold :: "rat \<Rightarrow> rat \<Rightarrow> rat \<Rightarrow> rat \<Rightarrow> governor_threshold" where
  "level_threshold cpu ram conntrack latency =
     \<lparr>gth_cpu = Finite cpu, gth_ram = Finite ram, gth_load = Finite 0, gth_conntrack = Finite conntrack,
      gth_latency = Finite latency\<rparr>"

definition default_resource_governor :: "bool \<Rightarrow> string \<Rightarrow> governor_config" where
  "default_resource_governor enabled dir =
     (let state = (if dir = [] then ''/var/lib/kiro'' else dir)
      in \<lparr>gov_enabled = enabled,
          gov_baseline = \<lparr>gba_enabled = enabled, gba_days = 7, gba_samples = 1000, gba_store = state @ ''/baseline/baseline.json''\<rparr>,
          gov_hysteresis = \<lparr>ghy_enabled = enabled, ghy_hold = 120, ghy_cooldown = 600, ghy_recovery = 5\<rparr>,
          gov_levels = \<lparr>gle_elevated = level_threshold 75 20 60 800, gle_attack = level_threshold 85 15 75 1500,
                        gle_lockdown = level_threshold 95 8 90 3000\<rparr>,
          gov_actions = \<lparr>gac_elevated = \<lparr>gea_tighten = True, gea_challenge = True, gea_cache = True\<rparr>,
                         gac_attack = \<lparr>gaa_block = True, gaa_disable = True, gaa_timeouts = True\<rparr>,
                         gac_lockdown = \<lparr>gla_admins_only = True, gla_backend_first = True\<rparr>\<rparr>\<rparr>)"

definition zero_threshold :: "governor_threshold \<Rightarrow> bool" where
  "zero_threshold t \<longleftrightarrow> f64_zero (gth_cpu t) \<and> f64_zero (gth_ram t) \<and> f64_zero (gth_load t) \<and>
     f64_zero (gth_conntrack t) \<and> f64_zero (gth_latency t)"

definition zero_elevated_actions :: "governor_elevated \<Rightarrow> bool" where
  "zero_elevated_actions a \<longleftrightarrow> \<not> gea_tighten a \<and> \<not> gea_challenge a \<and> \<not> gea_cache a"

definition zero_attack_actions :: "governor_attack \<Rightarrow> bool" where
  "zero_attack_actions a \<longleftrightarrow> \<not> gaa_block a \<and> \<not> gaa_disable a \<and> \<not> gaa_timeouts a"

definition zero_lockdown_actions :: "governor_lockdown \<Rightarrow> bool" where
  "zero_lockdown_actions a \<longleftrightarrow> \<not> gla_admins_only a \<and> \<not> gla_backend_first a"

definition normalize_resource_governor :: "governor_config \<Rightarrow> string \<Rightarrow> governor_config" where
  "normalize_resource_governor g dir =
     (if \<not> gov_enabled g then g
      else
        let d = default_resource_governor True dir;
            b = gov_baseline g; l = gov_levels g; a = gov_actions g;
            b1 = b\<lparr>gba_store := or_text (gba_store b) (gba_store (gov_baseline d))\<rparr>;
            b2 = (if gba_enabled b1
                  then b1\<lparr>gba_days := or_num (gba_days b1) (gba_days (gov_baseline d)),
                          gba_samples := or_num (gba_samples b1) (gba_samples (gov_baseline d))\<rparr> else b1);
            l1 = l\<lparr>gle_elevated := if zero_threshold (gle_elevated l) then gle_elevated (gov_levels d) else gle_elevated l,
                   gle_attack := if zero_threshold (gle_attack l) then gle_attack (gov_levels d) else gle_attack l,
                   gle_lockdown := if zero_threshold (gle_lockdown l) then gle_lockdown (gov_levels d) else gle_lockdown l\<rparr>;
            a1 = a\<lparr>gac_elevated := if zero_elevated_actions (gac_elevated a) then gac_elevated (gov_actions d) else gac_elevated a,
                   gac_attack := if zero_attack_actions (gac_attack a) then gac_attack (gov_actions d) else gac_attack a,
                   gac_lockdown := if zero_lockdown_actions (gac_lockdown a) then gac_lockdown (gov_actions d) else gac_lockdown a\<rparr>
        in g\<lparr>gov_baseline := b2, gov_levels := l1, gov_actions := a1\<rparr>)"

subsection \<open>Validation of the result\<close>

fun check_runtime_pools :: "string set \<Rightarrow> runtime_pool list \<Rightarrow> config_error option" where
  "check_runtime_pools seen [] = None"
| "check_runtime_pools seen (p # rest) =
     (case first_of [reject (rbp_id p = []) ''runtime backend pool id is required'',
                     reject (rbp_id p \<in> seen) ''duplicate runtime backend pool'',
                     reject (rbp_upstreams p = []) ''runtime backend pool must have upstreams''] of
        Some e \<Rightarrow> Some e
      | None \<Rightarrow> check_runtime_pools (insert (rbp_id p) seen) rest)"

definition check_runtime_route :: "string set \<Rightarrow> runtime_route \<Rightarrow> config_error option" where
  "check_runtime_route pools r =
     first_of [reject (rro_path r = [] \<or> hd (rro_path r) \<noteq> CHR ''/'') ''runtime route path must start with /'',
       reject (rro_pool r \<notin> pools) ''runtime route references unknown backend pool'']"

fun check_runtime_sites :: "string set \<Rightarrow> string set \<Rightarrow> runtime_site list \<Rightarrow> config_error option" where
  "check_runtime_sites pools seen [] = None"
| "check_runtime_sites pools seen (s # rest) =
     (case first_of [reject (rsi_id s = []) ''runtime site id is required'',
                     reject (rsi_pool s \<notin> pools) ''runtime site references unknown backend pool''] of
        Some e \<Rightarrow> Some e
      | None \<Rightarrow>
          (case claim_domains seen (rsi_domains s) of
             Inl e \<Rightarrow> Some e
           | Inr seen' \<Rightarrow>
               (case first_of (map (check_runtime_route pools) (rsi_routes s)) of
                  Some e \<Rightarrow> Some e
                | None \<Rightarrow> check_runtime_sites pools seen' rest)))"

definition validate_runtime :: "runtime_config \<Rightarrow> config_error option" where
  "validate_runtime c =
     first_of [reject (rtc_mode c \<notin> allowed_modes) ''invalid runtime mode'',
       check_runtime_pools {} (rtc_pools c),
       check_runtime_sites (rbp_id ` set (rtc_pools c)) {} (rtc_sites c)]"

subsection \<open>Tenant\<close>

definition tenant_allow_ports :: "tenant_config \<Rightarrow> int list" where
  "tenant_allow_ports c =
     (if tse_ports (ten_server c) \<noteq> [] then tse_ports (ten_server c)
      else [tse_ssh_port (ten_server c)] @
        (if ten_mode c = ''full'' \<or> twe_enabled (ten_website c) then [80, 443] else []))"

text \<open>The index of the backends that have a pool, and the pools, the newest last.\<close>

type_synonym pool_state = "(string \<rightharpoonup> string) \<times> runtime_pool list"

definition pool_id_for_backend :: "string \<Rightarrow> pool_state \<Rightarrow> string \<times> pool_state" where
  "pool_id_for_backend backend = (\<lambda>(index, pools).
     (case index backend of
        Some i \<Rightarrow> (i, index, pools)
      | None \<Rightarrow>
          let i = ''backend_pool_'' @ fmt_int (int (card (dom index)) + 1)
          in (i, index(backend \<mapsto> i), pools @ [\<lparr>rbp_id = i, rbp_upstreams = [\<lparr>rup_id = ''upstream_1'', rup_url = backend\<rparr>]\<rparr>])))"

fun expand_tenant_routes :: "string \<Rightarrow> tenant_route list \<Rightarrow> pool_state \<Rightarrow> runtime_route list \<times> pool_state" where
  "expand_tenant_routes profile [] st = ([], st)"
| "expand_tenant_routes profile (r # rest) st =
     (let (pool, st1) = pool_id_for_backend (tro_backend r) st;
          (routes, st2) = expand_tenant_routes profile rest st1
      in (\<lparr>rro_path = tro_path r, rro_pool = pool, rro_protection = or_text (tro_protection r) profile, rro_rpm = 0,
           rro_cache = 0, rro_body = 0, rro_exclude = []\<rparr> # routes, st2))"

fun expand_tenant_sites :: "tenant_config \<Rightarrow> nat \<Rightarrow> tenant_site list \<Rightarrow> pool_state \<Rightarrow> runtime_site list \<times> pool_state" where
  "expand_tenant_sites c n [] st = ([], st)"
| "expand_tenant_sites c n (s # rest) st =
     (let (pool, st1) = pool_id_for_backend (tsi_backend s) st;
          (routes, st2) = expand_tenant_routes (tpr_profile (ten_protection c)) (tsi_routes s) st1;
          (sites, st3) = expand_tenant_sites c (Suc n) rest st2
      in (\<lparr>rsi_id = ''site_'' @ fmt_int (int n + 1), rsi_domains = tsi_domains s, rsi_tls = twe_tls (ten_website c),
           rsi_cert = twe_cert (ten_website c), rsi_key = twe_key (ten_website c), rsi_pool = pool,
           rsi_routes = routes\<rparr> # sites, st3))"

definition tenant_runtime :: "tenant_config \<Rightarrow> runtime_config" where
  "tenant_runtime c =
     \<lparr>rtc_kind = Kind_tenant, rtc_mode = ten_mode c, rtc_plan = ten_plan c,
      rtc_paths = \<lparr>rpa_state = ''/var/lib/kiro'', rpa_last_good = ''/var/lib/kiro/last-good-config''\<rparr>,
      rtc_safety = \<lparr>rsa_dry_run = True, rsa_need_admin = True, rsa_rollback = 60, rsa_console = True\<rparr>,
      rtc_license = \<lparr>rli_file = [], rli_key = [], rli_need_valid = False, rli_grace = False\<rparr>,
      rtc_identity = \<lparr>rid_machine = False, rid_primary_mac = False, rid_all_macs = False, rid_salt = []\<rparr>,
      rtc_firewall = \<lparr>rfw_enabled = True, rfw_conntrack = True, rfw_ports = tenant_allow_ports c, rfw_ssh_admin = True,
                      rfw_admins = ten_admins c, rfw_block_secs = 900, rfw_need_admin = True\<rparr>,
      rtc_xdp = default_runtime_xdp False,
      rtc_origin_lock = (let cf = twe_cloudflare (ten_website c)
        in \<lparr>rol_enabled = cf, rol_proxied = cf, rol_block_direct = cf, rol_v4_file = ''rules/cloudflare/ips-v4.txt'',
            rol_v6_file = ''rules/cloudflare/ips-v6.txt''\<rparr>),
      rtc_admins = ten_admins c, rtc_interface = tse_interface (ten_server c),
      rtc_ssh_port = or_num (tse_ssh_port (ten_server c)) 22,
      rtc_cloudflare = twe_cloudflare (ten_website c), rtc_tls = twe_tls (ten_website c),
      rtc_pools = [], rtc_sites = [],
      rtc_protection = \<lparr>rpr_profile = tpr_profile (ten_protection c), rpr_waf = tpr_waf (ten_protection c),
                        rpr_bot = tpr_bot (ten_protection c), rpr_auto = tpr_auto (ten_protection c)\<rparr>,
      rtc_waf = default_runtime_waf (tpr_waf (ten_protection c)),
      rtc_bot = default_runtime_bot (tpr_bot (ten_protection c)) (ten_admins c),
      rtc_governor = default_resource_governor (tpr_auto (ten_protection c)) ''/var/lib/kiro'',
      rtc_updates = default_runtime_updates (ten_auto_updates c),
      rtc_security = default_runtime_security False,
      rtc_telemetry = default_runtime_telemetry (ten_telemetry c)\<rparr>"

definition expand_tenant :: "url_scan \<Rightarrow> tenant_config \<Rightarrow> config_error + runtime_config" where
  "expand_tenant scan c =
     (case validate_tenant scan c of
        Some e \<Rightarrow> Inl e
      | None \<Rightarrow>
          if rtc_mode (tenant_runtime c) = ''server'' \<and> \<not> twe_enabled (ten_website c) then Inr (tenant_runtime c)
          else
            let (sites, index, pools) = expand_tenant_sites c 0 (twe_sites (ten_website c)) (Map.empty, []);
                rt = (tenant_runtime c)\<lparr>rtc_pools := pools, rtc_sites := sites\<rparr>
            in case validate_runtime rt of Some e \<Rightarrow> Inl e | None \<Rightarrow> Inr rt)"

subsection \<open>Advanced\<close>

fun ssh_port_from_allow_ports :: "int list \<Rightarrow> int" where
  "ssh_port_from_allow_ports [] = 22"
| "ssh_port_from_allow_ports (p # rest) = (if p = 22 then 22 else ssh_port_from_allow_ports rest)"

fun first_non_empty :: "string list \<Rightarrow> string" where
  "first_non_empty [] = []"
| "first_non_empty (v # rest) = (if v \<noteq> [] then v else first_non_empty rest)"

definition expand_pool :: "config_pool \<Rightarrow> runtime_pool" where
  "expand_pool p =
     \<lparr>rbp_id = cbp_id p, rbp_upstreams = map (\<lambda>u. \<lparr>rup_id = cup_id u, rup_url = cup_url u\<rparr>) (cbp_upstreams p)\<rparr>"

definition expand_route :: "advanced_route \<Rightarrow> runtime_route" where
  "expand_route r =
     \<lparr>rro_path = aro_path r, rro_pool = aro_pool r, rro_protection = [], rro_rpm = aro_rpm r, rro_cache = aro_cache r,
      rro_body = aro_body r, rro_exclude = aro_exclude r\<rparr>"

definition expand_site :: "string \<Rightarrow> advanced_site \<Rightarrow> runtime_site" where
  "expand_site tls s =
     \<lparr>rsi_id = asi_id s, rsi_domains = asi_domains s,
      rsi_tls = first_non_empty [atl_mode (asi_tls s), tls, ''flexible_http''],
      rsi_cert = atl_cert (asi_tls s), rsi_key = atl_key (asi_tls s), rsi_pool = asi_pool s,
      rsi_routes = map expand_route (asi_routes s)\<rparr>"

definition advanced_runtime :: "advanced_config \<Rightarrow> runtime_config" where
  "advanced_runtime c =
     (let nft = spr_nft (adv_server c); ddos = spr_ddos (adv_server c); xdp = spr_xdp (adv_server c);
          waf = wpr_waf (adv_website c); bot = wpr_bot (adv_website c); cf = wpr_cloudflare (adv_website c);
          lic = adv_license c; ident = adv_identity c; safe = adv_safety c;
          state = or_text (adv_state_dir c) ''/var/lib/kiro''
      in
      \<lparr>rtc_kind = Kind_advanced, rtc_mode = adv_mode c, rtc_plan = adv_profile c,
       rtc_paths = \<lparr>rpa_state = state, rpa_last_good = or_text (adv_last_good c) (state @ ''/last-good-config'')\<rparr>,
       rtc_safety = \<lparr>rsa_dry_run = asa_dry_run safe, rsa_need_admin = asa_need_admin safe,
                     rsa_rollback = or_num (asa_rollback safe) 60, rsa_console = asa_console safe\<rparr>,
       rtc_license = \<lparr>rli_file = ali_file lic, rli_key = ali_key lic, rli_need_valid = ali_need_valid lic, rli_grace = ali_grace lic\<rparr>,
       rtc_identity = \<lparr>rid_machine = sid_machine ident, rid_primary_mac = sid_primary_mac ident,
                       rid_all_macs = sid_all_macs ident, rid_salt = sid_salt ident\<rparr>,
       rtc_firewall = \<lparr>rfw_enabled = nft_enabled nft, rfw_conntrack = nft_conntrack nft, rfw_ports = nft_ports nft,
                       rfw_ssh_admin = nft_ssh_admin nft, rfw_admins = nft_admins nft,
                       rfw_block_secs = or_num (sdd_block_secs ddos) 900, rfw_need_admin = asa_need_admin safe\<rparr>,
       rtc_xdp = normalize_runtime_xdp
         \<lparr>rxd_enabled = axd_enabled xdp, rxd_mode = axd_mode xdp, rxd_program = axd_program xdp, rxd_section = axd_section xdp,
          rxd_private = axd_private xdp, rxd_malformed = axd_malformed xdp, rxd_fragments = axd_fragments xdp,
          rxd_rate_limit = xdp_rate_limit_enabled ddos, rxd_window = 1, rxd_per_ip = sdd_per_ip ddos,
          rxd_per_subnet = sdd_per_subnet ddos, rxd_syn = sdd_syn ddos, rxd_udp = sdd_udp ddos, rxd_icmp = sdd_icmp ddos,
          rxd_allowlist = axd_allowlist xdp, rxd_blocklist = axd_blocklist xdp\<rparr>,
       rtc_origin_lock = \<lparr>rol_enabled = clo_enabled cf, rol_proxied = clo_proxied cf, rol_block_direct = clo_block_direct cf,
                          rol_v4_file = clo_v4_file cf, rol_v6_file = clo_v6_file cf\<rparr>,
       rtc_admins = nft_admins nft,
       rtc_interface = (case spr_interfaces (adv_server c) of [] \<Rightarrow> [] | i # _ \<Rightarrow> i),
       rtc_ssh_port = or_num (ssh_port_from_allow_ports (nft_ports nft)) 22,
       rtc_cloudflare = False, rtc_tls = [],
       rtc_pools = map expand_pool (adv_pools c), rtc_sites = map (expand_site []) (adv_sites c),
       rtc_protection = \<lparr>rpr_profile = [], rpr_waf = False, rpr_bot = False, rpr_auto = False\<rparr>,
       rtc_waf = normalize_runtime_waf \<lparr>rwf_enabled = wwa_enabled waf, rwf_engine = wwa_engine waf, rwf_crs = wwa_crs waf,
                                        rwf_anomaly = wwa_anomaly waf\<rparr>,
       rtc_bot = normalize_runtime_bot
         \<lparr>rbo_enabled = wbo_enabled bot, rbo_cookie = wbo_cookie bot, rbo_js = wbo_js bot, rbo_pow = wbo_pow bot,
          rbo_challenge = wbo_challenge bot, rbo_block = wbo_block bot, rbo_cookie_name = [], rbo_trusted = nft_admins nft\<rparr>,
       rtc_governor = normalize_resource_governor (adv_governor c) state,
       rtc_updates = normalize_runtime_updates
         \<lparr>rud_enabled = aup_enabled (adv_updates c), rud_channel = aup_channel (adv_updates c),
          rud_manifest = aup_manifest (adv_updates c), rud_signed = aup_signed (adv_updates c),
          rud_auto_rollback = aup_auto_rollback (adv_updates c)\<rparr>,
       rtc_security = normalize_runtime_security
         \<lparr>rse_enabled = ase_enabled (adv_security c), rse_audit = ase_audit (adv_security c),
          rse_integrity = ase_integrity (adv_security c), rse_paths = ase_paths (adv_security c),
          rse_processes = ase_processes (adv_security c), rse_web_users = []\<rparr>,
       rtc_telemetry = normalize_runtime_telemetry
         \<lparr>rte_enabled = ate_enabled (adv_telemetry c), rte_health = ate_health (adv_telemetry c),
          rte_interval = ate_interval (adv_telemetry c), rte_privacy = ate_privacy (adv_telemetry c)\<rparr>\<rparr>)"

definition expand_advanced :: "url_scan \<Rightarrow> advanced_config \<Rightarrow> config_error + runtime_config" where
  "expand_advanced scan c =
     (case validate_advanced scan c of
        Some e \<Rightarrow> Inl e
      | None \<Rightarrow> (case validate_runtime (advanced_runtime c) of Some e \<Rightarrow> Inl e | None \<Rightarrow> Inr (advanced_runtime c)))"

definition load_runtime_file :: "url_scan \<Rightarrow> config_source \<Rightarrow> config_error + runtime_config" where
  "load_runtime_file scan src =
     (case src of
        Unreadable \<Rightarrow> Inl ''read''
      | Unparsable \<Rightarrow> Inl ''parse yaml''
      | Document d \<Rightarrow>
          if doc_has_provider d then Inl ''provider config cannot be expanded as protected-server runtime config''
          else if doc_role d = Some ''protected_server'' then
            (case doc_advanced d of
               None \<Rightarrow> Inl ''decode''
             | Some c \<Rightarrow> (case validate_advanced scan c of Some e \<Rightarrow> Inl e | None \<Rightarrow> expand_advanced scan c))
          else
            (case doc_tenant d of
               None \<Rightarrow> Inl ''decode''
             | Some c \<Rightarrow> (case validate_tenant scan c of Some e \<Rightarrow> Inl e | None \<Rightarrow> expand_tenant scan c)))"

end
