(* ===== verification/SharedFacts.thy ===== *)
theory SharedFacts
  imports SharedRuntime
begin

text \<open>
  What validation and expansion of the shared configuration guarantee: a valid tenant always
  expands, to a runtime that routes every domain and path as the tenant wrote it; a valid advanced
  configuration may still fail to expand, and when; what the normalisation leaves of the settings.
\<close>

subsection \<open>Pools of a tenant\<close>

definition pool_name :: "nat \<Rightarrow> string" where
  "pool_name k = ''backend_pool_'' @ fmt_int (int k + 1)"

definition pools_of :: "string list \<Rightarrow> runtime_pool list" where
  "pools_of bs = map (\<lambda>k. \<lparr>rbp_id = pool_name k, rbp_upstreams = [\<lparr>rup_id = ''upstream_1'', rup_url = bs ! k\<rparr>]\<rparr>) [0..<length bs]"

text \<open>The state after the backends \<open>bs\<close>, in the order of their first use.\<close>

definition pools_for :: "string list \<Rightarrow> pool_state \<Rightarrow> bool" where
  "pools_for bs st \<longleftrightarrow> distinct bs \<and> dom (fst st) = set bs \<and> snd st = pools_of bs \<and>
     (\<forall>k<length bs. fst st (bs ! k) = Some (pool_name k))"

definition leads_to :: "string list \<Rightarrow> string \<Rightarrow> string \<Rightarrow> bool" where
  "leads_to bs i b \<longleftrightarrow> (\<exists>k<length bs. i = pool_name k \<and> bs ! k = b)"

lemma leads_to_append: "leads_to bs i b \<Longrightarrow> leads_to (bs @ cs) i b"
  by (auto simp: leads_to_def nth_append)

lemma fmt_int_inject: "0 \<le> a \<Longrightarrow> 0 \<le> b \<Longrightarrow> fmt_int a = fmt_int b \<longleftrightarrow> a = b"
  unfolding fmt_int_def by (metis not_less option.inject parse_digits_fmt_nat)

lemma pool_name_inject [simp]: "pool_name k = pool_name l \<longleftrightarrow> k = l"
  by (simp add: pool_name_def fmt_int_inject)

lemma pool_name_nonempty [simp]: "pool_name k \<noteq> []"
  by (simp add: pool_name_def)

lemma pools_of_snoc: "pools_of (bs @ [b]) = pools_of bs @
    [\<lparr>rbp_id = pool_name (length bs), rbp_upstreams = [\<lparr>rup_id = ''upstream_1'', rup_url = b\<rparr>]\<rparr>]"
  by (simp add: pools_of_def nth_append)

lemma tenant_pool_step:
  assumes "pools_for bs st" "pool_id_for_backend b st = (i, st')"
  shows "\<exists>cs. pools_for (bs @ cs) st' \<and> leads_to (bs @ cs) i b"
proof (cases "fst st b")
  case (Some j)
  then have st': "i = j" "st' = st" using assms(2) by (auto simp: pool_id_for_backend_def split: prod.splits)
  from assms(1) Some have "b \<in> set bs" by (auto simp: pools_for_def)
  then obtain k where "k < length bs" "bs ! k = b" by (auto simp: in_set_conv_nth)
  with assms(1) Some have "leads_to bs i b" by (auto simp: pools_for_def leads_to_def st'(1))
  with assms(1) st'(2) show ?thesis by (intro exI [of _ "[]"]) simp
next
  case None
  have fin: "card (dom (fst st)) = length bs" using assms(1) by (simp add: pools_for_def distinct_card)
  from None have b: "b \<notin> set bs" using assms(1) by (auto simp: pools_for_def)
  have i: "i = pool_name (length bs)" and st': "st' = ((fst st)(b \<mapsto> i),
      snd st @ [\<lparr>rbp_id = i, rbp_upstreams = [\<lparr>rup_id = ''upstream_1'', rup_url = b\<rparr>]\<rparr>])"
    using assms(2) None fin by (auto simp: pool_id_for_backend_def pool_name_def Let_def split: prod.splits)
  have "pools_for (bs @ [b]) st'"
    using assms(1) b unfolding pools_for_def st' i
    by (auto simp: pools_of_snoc nth_append less_Suc_eq)
  moreover have "leads_to (bs @ [b]) i b" by (auto simp: leads_to_def i nth_append)
  ultimately show ?thesis by blast
qed

definition route_ok :: "string \<Rightarrow> string list \<Rightarrow> tenant_route \<Rightarrow> runtime_route \<Rightarrow> bool" where
  "route_ok profile bs r x \<longleftrightarrow> rro_path x = tro_path r \<and> leads_to bs (rro_pool x) (tro_backend r) \<and>
     rro_protection x = or_text (tro_protection r) profile"

definition site_ok :: "tenant_config \<Rightarrow> string list \<Rightarrow> tenant_site \<Rightarrow> runtime_site \<Rightarrow> bool" where
  "site_ok c bs s x \<longleftrightarrow> rsi_id x \<noteq> [] \<and> rsi_domains x = tsi_domains s \<and> rsi_tls x = twe_tls (ten_website c) \<and>
     leads_to bs (rsi_pool x) (tsi_backend s) \<and>
     list_all2 (route_ok (tpr_profile (ten_protection c)) bs) (tsi_routes s) (rsi_routes x)"

lemma route_ok_append: "route_ok p bs r x \<Longrightarrow> route_ok p (bs @ cs) r x"
  by (simp add: route_ok_def leads_to_append)

lemma routes_ok_append: "list_all2 (route_ok p bs) rs xs \<Longrightarrow> list_all2 (route_ok p (bs @ cs)) rs xs"
  by (erule list_all2_mono) (rule route_ok_append)

lemma site_ok_append: "site_ok c bs s x \<Longrightarrow> site_ok c (bs @ cs) s x"
  by (simp add: site_ok_def leads_to_append routes_ok_append)

lemma expand_routes_ok:
  "pools_for bs st \<Longrightarrow> expand_tenant_routes p rs st = (xs, st') \<Longrightarrow>
     \<exists>cs. pools_for (bs @ cs) st' \<and> list_all2 (route_ok p (bs @ cs)) rs xs"
proof (induction rs arbitrary: bs st xs st')
  case (Cons r rs)
  obtain i st1 where pool: "pool_id_for_backend (tro_backend r) st = (i, st1)" by (cases "pool_id_for_backend (tro_backend r) st")
  obtain ys st2 where rest: "expand_tenant_routes p rs st1 = (ys, st2)" by (cases "expand_tenant_routes p rs st1")
  from tenant_pool_step [OF Cons.prems(1) pool] obtain cs where cs: "pools_for (bs @ cs) st1" "leads_to (bs @ cs) i (tro_backend r)" by blast
  from Cons.IH [OF cs(1) rest] obtain ds where
    ds: "pools_for (bs @ cs @ ds) st2" "list_all2 (route_ok p (bs @ cs @ ds)) rs ys" by auto
  have "leads_to (bs @ cs @ ds) i (tro_backend r)" using leads_to_append [OF cs(2), of ds] by simp
  then have "\<And>x. rro_path x = tro_path r \<Longrightarrow> rro_pool x = i \<Longrightarrow> rro_protection x = or_text (tro_protection r) p \<Longrightarrow>
      route_ok p (bs @ cs @ ds) r x" by (simp add: route_ok_def)
  with Cons.prems(2) ds show ?case
    by (intro exI [of _ "cs @ ds"]) (auto simp: pool rest)
qed (auto intro: exI [of _ "[]"])

lemma expand_sites_ok:
  "pools_for bs st \<Longrightarrow> expand_tenant_sites c n ss st = (xs, st') \<Longrightarrow>
     \<exists>cs. pools_for (bs @ cs) st' \<and> list_all2 (site_ok c (bs @ cs)) ss xs"
proof (induction ss arbitrary: n bs st xs st')
  case (Cons s ss)
  let ?p = "tpr_profile (ten_protection c)"
  obtain i st1 where pool: "pool_id_for_backend (tsi_backend s) st = (i, st1)" by (cases "pool_id_for_backend (tsi_backend s) st")
  obtain ys st2 where routes: "expand_tenant_routes ?p (tsi_routes s) st1 = (ys, st2)"
    by (cases "expand_tenant_routes ?p (tsi_routes s) st1")
  obtain zs st3 where rest: "expand_tenant_sites c (Suc n) ss st2 = (zs, st3)" by (cases "expand_tenant_sites c (Suc n) ss st2")
  from tenant_pool_step [OF Cons.prems(1) pool] obtain cs where cs: "pools_for (bs @ cs) st1" "leads_to (bs @ cs) i (tsi_backend s)" by blast
  from expand_routes_ok [OF cs(1) routes] obtain ds where
    ds: "pools_for (bs @ cs @ ds) st2" "list_all2 (route_ok ?p (bs @ cs @ ds)) (tsi_routes s) ys" by auto
  from Cons.IH [OF ds(1) rest] obtain es where
    es: "pools_for (bs @ cs @ ds @ es) st3" "list_all2 (site_ok c (bs @ cs @ ds @ es)) ss zs" by auto
  have "leads_to (bs @ cs @ ds @ es) i (tsi_backend s)" using leads_to_append [OF cs(2), of "ds @ es"] by simp
  moreover have "list_all2 (route_ok ?p (bs @ cs @ ds @ es)) (tsi_routes s) ys" using routes_ok_append [OF ds(2), of es] by simp
  ultimately have "\<And>x. rsi_id x \<noteq> [] \<Longrightarrow> rsi_domains x = tsi_domains s \<Longrightarrow> rsi_tls x = twe_tls (ten_website c) \<Longrightarrow>
      rsi_pool x = i \<Longrightarrow> rsi_routes x = ys \<Longrightarrow> site_ok c (bs @ cs @ ds @ es) s x" by (simp add: site_ok_def)
  with Cons.prems(2) es show ?case
    by (intro exI [of _ "cs @ ds @ es"]) (auto simp: pool routes rest)
qed (auto intro: exI [of _ "[]"])

subsection \<open>The runtime of a tenant is valid\<close>

lemma check_runtime_pools_iff:
  "check_runtime_pools seen ps = None \<longleftrightarrow> distinct (map rbp_id ps) \<and> rbp_id ` set ps \<inter> seen = {} \<and>
     (\<forall>p\<in>set ps. rbp_id p \<noteq> [] \<and> rbp_upstreams p \<noteq> [])"
  by (induction ps arbitrary: seen) (auto simp: reject_def split: option.splits if_splits)

lemma pools_of_valid: "check_runtime_pools {} (pools_of bs) = None"
  by (auto simp: check_runtime_pools_iff pools_of_def distinct_map comp_def inj_on_def)

lemma leads_to_pool: "leads_to bs i b \<Longrightarrow> i \<in> rbp_id ` set (pools_of bs)"
  by (auto simp: leads_to_def pools_of_def image_iff)

lemma tenant_sites_valid:
  assumes "list_all2 (site_ok c bs) ss xs" "check_tenant_sites scan seen ss = None"
  shows "check_runtime_sites (rbp_id ` set (pools_of bs)) seen xs = None"
  using assms
proof (induction arbitrary: seen rule: list_all2_induct)
  case (Cons s ss x xs)
  let ?pools = "rbp_id ` set (pools_of bs)"
  from Cons.prems obtain seen' where dom: "claim_domains seen (tsi_domains s) = Inr seen'"
      and routes: "first_of (validate_backend_url scan (tsi_backend s) # map (check_tenant_route scan) (tsi_routes s)) = None"
      and rest: "check_tenant_sites scan seen' ss = None"
    by (auto split: if_splits sum.splits option.splits)
  have "check_runtime_route ?pools y = None" if "y \<in> set (rsi_routes x)" for y
  proof -
    from Cons.hyps(1) that obtain r where r: "r \<in> set (tsi_routes s)" "route_ok (tpr_profile (ten_protection c)) bs r y"
      unfolding site_ok_def by (metis list_all2_conv_all_nth in_set_conv_nth)
    with routes have "check_tenant_route scan r = None" by (simp add: first_of_None)
    then have "prefix ''/'' (tro_path r)" by (simp add: check_tenant_route_def first_of_None)
    with r(2) leads_to_pool show ?thesis
      by (auto simp: check_runtime_route_def first_of_None route_ok_def prefix_def)
  qed
  then have "first_of (map (check_runtime_route ?pools) (rsi_routes x)) = None" by (simp add: first_of_None)
  with Cons.hyps(1) dom Cons.IH [OF rest] show ?case
    by (auto simp: site_ok_def reject_def dest: leads_to_pool)
qed simp

definition pool_url :: "runtime_config \<Rightarrow> string \<Rightarrow> string option" where
  "pool_url rt i = map_option (\<lambda>p. rup_url (hd (rbp_upstreams p))) (find (\<lambda>p. rbp_id p = i) (rtc_pools rt))"

lemma pool_url_of: "rtc_pools rt = pools_of bs \<Longrightarrow> leads_to bs i b \<Longrightarrow> pool_url rt i = Some b"
proof -
  assume pools: "rtc_pools rt = pools_of bs" and "leads_to bs i b"
  then obtain k where k: "k < length bs" "i = pool_name k" "bs ! k = b" by (auto simp: leads_to_def)
  let ?p = "\<lparr>rbp_id = pool_name k, rbp_upstreams = [\<lparr>rup_id = ''upstream_1'', rup_url = b\<rparr>]\<rparr>"
  have "?p \<in> set (pools_of bs)" using k by (auto simp: pools_of_def image_iff)
  moreover have "distinct (map rbp_id (pools_of bs))" using pools_of_valid [of bs] by (simp add: check_runtime_pools_iff)
  ultimately have "find (\<lambda>p. rbp_id p = rbp_id ?p) (pools_of bs) = Some ?p" by (intro find_unique)
  then show ?thesis by (simp add: pool_url_def pools k(2))
qed


definition shows_sites :: "tenant_config \<Rightarrow> bool" where
  "shows_sites c \<longleftrightarrow> ten_mode c = ''full'' \<or> twe_enabled (ten_website c)"

lemma valid_tenant_facts:
  assumes "validate_tenant scan c = None"
  shows "ten_mode c \<in> allowed_modes" "shows_sites c \<Longrightarrow> check_tenant_sites scan {} (twe_sites (ten_website c)) = None"
    "\<not> bad_port (tse_ssh_port (ten_server c))"
  using assms
  by (simp_all add: validate_tenant_def first_of_None shows_sites_def validate_tenant_website_def split: if_splits)

lemma tenant_expands:
  assumes "validate_tenant scan c = None" "shows_sites c"
  shows "\<exists>rt bs. expand_tenant scan c = Inr rt \<and> validate_runtime rt = None \<and> rtc_pools rt = pools_of bs \<and>
    list_all2 (site_ok c bs) (twe_sites (ten_website c)) (rtc_sites rt)"
proof -
  obtain xs index pools where ex: "expand_tenant_sites c 0 (twe_sites (ten_website c)) (Map.empty, []) = (xs, index, pools)"
    by (cases "expand_tenant_sites c 0 (twe_sites (ten_website c)) (Map.empty, [])") auto
  have "pools_for [] (Map.empty, [])" by (simp add: pools_for_def pools_of_def)
  from expand_sites_ok [OF this ex] obtain bs where
    bs: "pools = pools_of bs" "list_all2 (site_ok c bs) (twe_sites (ten_website c)) xs"
    by (auto simp: pools_for_def)
  let ?rt = "(tenant_runtime c)\<lparr>rtc_pools := pools, rtc_sites := xs\<rparr>"
  have mode: "rtc_mode (tenant_runtime c) = ten_mode c" by (simp add: tenant_runtime_def)
  have valid: "validate_runtime ?rt = None"
    using valid_tenant_facts(1) [OF assms(1)] pools_of_valid [of bs]
      tenant_sites_valid [OF bs(2) valid_tenant_facts(2) [OF assms]]
    by (simp add: validate_runtime_def first_of_None mode bs(1))
  have "expand_tenant scan c = Inr ?rt"
  proof -
    have "\<not> (rtc_mode (tenant_runtime c) = ''server'' \<and> \<not> twe_enabled (ten_website c))"
      using assms(2) by (auto simp: mode shows_sites_def)
    then show ?thesis unfolding expand_tenant_def ex assms(1) Let_def prod.case option.case valid by (simp only: if_False)
  qed
  moreover have "rtc_pools ?rt = pools_of bs" "rtc_sites ?rt = xs" using bs(1) by simp_all
  ultimately show ?thesis using valid bs(2) by metis
qed

text \<open>
  C23. A valid tenant always expands, to a valid runtime that routes as the tenant wrote it: when
  the website is protected, the sites are the tenant's in order, with their domains, and the pool
  of a site or of a route has the backend written there, with the route's protection or, where
  it is empty, the tenant's profile; in server mode without a website there are no sites.
\<close>

theorem tenant_expansion_routes:
  assumes "validate_tenant scan c = None"
  shows "\<exists>rt. expand_tenant scan c = Inr rt \<and> validate_runtime rt = None \<and>
    (if shows_sites c
     then list_all2 (\<lambda>s x. rsi_domains x = tsi_domains s \<and> pool_url rt (rsi_pool x) = Some (tsi_backend s) \<and>
       list_all2 (\<lambda>r y. rro_path y = tro_path r \<and> pool_url rt (rro_pool y) = Some (tro_backend r) \<and>
         rro_protection y = or_text (tro_protection r) (tpr_profile (ten_protection c))) (tsi_routes s) (rsi_routes x))
       (twe_sites (ten_website c)) (rtc_sites rt)
     else rtc_sites rt = [])"
proof (cases "shows_sites c")
  case True
  from tenant_expands [OF assms True] obtain rt bs where
    rt: "expand_tenant scan c = Inr rt" "validate_runtime rt = None" "rtc_pools rt = pools_of bs"
      "list_all2 (site_ok c bs) (twe_sites (ten_website c)) (rtc_sites rt)" by blast
  from rt(4) have "list_all2 (\<lambda>s x. rsi_domains x = tsi_domains s \<and> pool_url rt (rsi_pool x) = Some (tsi_backend s) \<and>
       list_all2 (\<lambda>r y. rro_path y = tro_path r \<and> pool_url rt (rro_pool y) = Some (tro_backend r) \<and>
         rro_protection y = or_text (tro_protection r) (tpr_profile (ten_protection c))) (tsi_routes s) (rsi_routes x))
       (twe_sites (ten_website c)) (rtc_sites rt)"
    by (rule list_all2_mono)
      (auto simp: site_ok_def route_ok_def pool_url_of [OF rt(3)] elim!: list_all2_mono)
  with True rt(1,2) show ?thesis by auto
next
  case False
  have "ten_mode c = ''server''" "\<not> twe_enabled (ten_website c)"
    using False valid_tenant_facts(1) [OF assms] by (auto simp: shows_sites_def allowed_modes_def)
  then have "expand_tenant scan c = Inr (tenant_runtime c)" "validate_runtime (tenant_runtime c) = None"
    using assms by (simp_all add: expand_tenant_def validate_runtime_def tenant_runtime_def allowed_modes_def first_of_None)
  with False show ?thesis by (auto simp: tenant_runtime_def)
qed

subsection \<open>Advanced configurations\<close>

lemma check_pools_iff:
  "check_pools scan seen ps = None \<Longrightarrow> distinct (map cbp_id ps) \<and> cbp_id ` set ps \<inter> seen = {} \<and>
     (\<forall>p\<in>set ps. trim_space (cbp_id p) \<noteq> [] \<and> cbp_upstreams p \<noteq> [])"
  by (induction ps arbitrary: seen) (auto simp: reject_def blank_text_def first_of_None split: option.splits if_splits)

lemma expand_pool_ids [simp]: "rbp_id (expand_pool p) = cbp_id p" "rbp_upstreams (expand_pool p) = [] \<longleftrightarrow> cbp_upstreams p = []"
  by (simp_all add: expand_pool_def)

lemma advanced_pools_valid:
  assumes "check_pools scan {} ps = None"
  shows "check_runtime_pools {} (map expand_pool ps) = None"
  using check_pools_iff [OF assms] by (auto simp: check_runtime_pools_iff comp_def)

lemma advanced_sites_valid:
  "check_advanced_sites pools seen ss = None \<Longrightarrow> [] \<notin> pools \<Longrightarrow>
     check_runtime_sites pools seen (map (expand_site tls) ss) = None \<longleftrightarrow> (\<forall>s\<in>set ss. \<forall>r\<in>set (asi_routes s). aro_pool r \<noteq> [])"
proof (induction ss arbitrary: seen)
  case (Cons s ss)
  from Cons.prems(1) obtain seen' where dom: "claim_domains seen (asi_domains s) = Inr seen'"
      and id: "\<not> blank_text (asi_id s)"
      and routes: "first_of (reject (asi_pool s \<notin> pools) ''site references unknown default backend pool''
                               # map (check_advanced_route pools) (asi_routes s)) = None"
      and rest: "check_advanced_sites pools seen' ss = None"
    by (auto simp: reject_def split: if_splits sum.splits option.splits)
  have each: "check_runtime_route pools (expand_route r) = None \<longleftrightarrow> aro_pool r \<noteq> []" if "r \<in> set (asi_routes s)" for r
  proof -
    have "check_advanced_route pools r = None" using routes that by (simp add: first_of_None)
    with Cons.prems(2) show ?thesis
      by (auto simp: check_advanced_route_def check_runtime_route_def first_of_None expand_route_def prefix_def)
  qed
  have "asi_id s \<noteq> []" "asi_pool s \<in> pools" using id routes by (auto simp: blank_text_def first_of_None)
  moreover have "first_of (map (check_runtime_route pools) (map expand_route (asi_routes s))) = None \<longleftrightarrow>
      (\<forall>r\<in>set (asi_routes s). aro_pool r \<noteq> [])" using each by (auto simp: first_of_None)
  ultimately show ?case
    using dom Cons.IH [OF rest Cons.prems(2)] by (auto simp: expand_site_def reject_def comp_def split: option.splits)
qed simp

text \<open>
  C24. A valid advanced configuration expands exactly when every route names a backend pool. The
  validation allows a route without one, which would use the site's default, but the expansion
  does not fill it in and its own check then refuses it: the check of the file passes, and the
  load fails.
\<close>

theorem advanced_expansion_needs_pools:
  assumes "validate_advanced scan c = None"
  shows "(\<exists>rt. expand_advanced scan c = Inr rt) \<longleftrightarrow> (\<forall>s\<in>set (adv_sites c). \<forall>r\<in>set (asi_routes s). aro_pool r \<noteq> [])"
proof -
  let ?pools = "cbp_id ` set (adv_pools c)"
  from assms have mode: "adv_mode c \<in> allowed_modes" and pools: "check_pools scan {} (adv_pools c) = None"
      and sites: "check_advanced_sites ?pools {} (adv_sites c) = None"
    by (simp_all add: validate_advanced_def first_of_append first_of_None split: option.splits if_splits)
  have "[] \<notin> ?pools" using check_pools_iff [OF pools] by (auto simp: image_iff)
  from advanced_sites_valid [OF sites this, of "[]"] advanced_pools_valid [OF pools] mode
  have "validate_runtime (advanced_runtime c) = None \<longleftrightarrow> (\<forall>s\<in>set (adv_sites c). \<forall>r\<in>set (asi_routes s). aro_pool r \<noteq> [])"
    by (simp add: validate_runtime_def first_of_None advanced_runtime_def Let_def image_comp comp_def)
  then show ?thesis by (auto simp: expand_advanced_def assms split: option.splits)
qed


subsection \<open>What normalisation leaves\<close>

lemma or_idem [simp]: "or_text (or_text v d) d = or_text v d" "or_num (or_num n m) m = or_num n m"
  by (simp_all add: or_text_def or_num_def)

lemma normalize_idempotent:
  "normalize_runtime_xdp (normalize_runtime_xdp x) = normalize_runtime_xdp x"
  "normalize_runtime_waf (normalize_runtime_waf w) = normalize_runtime_waf w"
  "normalize_runtime_bot (normalize_runtime_bot b) = normalize_runtime_bot b"
  "normalize_runtime_updates (normalize_runtime_updates u) = normalize_runtime_updates u"
  "normalize_runtime_security (normalize_runtime_security s) = normalize_runtime_security s"
  by (simp_all add: normalize_runtime_xdp_def normalize_runtime_waf_def normalize_runtime_bot_def
      normalize_runtime_updates_def normalize_runtime_security_def Let_def default_runtime_bot_def
      default_runtime_updates_def default_runtime_security_def default_runtime_xdp_def)

definition privacy_silent :: "runtime_privacy \<Rightarrow> bool" where
  "privacy_silent p \<longleftrightarrow> \<not> rpv_body p \<and> \<not> rpv_cookie p \<and> \<not> rpv_auth p \<and> \<not> rpv_raw_ip p \<and> \<not> rpv_hash_ip p \<and> \<not> rpv_redact p"

lemma normalized_privacy:
  "rte_privacy (normalize_runtime_telemetry t) =
     (if privacy_silent (rte_privacy t) then \<lparr>rpv_body = False, rpv_cookie = False, rpv_auth = False, rpv_raw_ip = False,
        rpv_hash_ip = True, rpv_redact = True\<rparr> else rte_privacy t)"
  by (simp add: normalize_runtime_telemetry_def privacy_silent_def default_runtime_telemetry_def Let_def)

lemma default_levels: "\<not> zero_threshold (level_threshold cpu ram conntrack latency) \<or> cpu = 0"
  by (simp add: zero_threshold_def level_threshold_def f64_zero_def)

definition governor_effective :: "governor_config \<Rightarrow> bool" where
  "governor_effective g \<longleftrightarrow>
     \<not> zero_threshold (gle_elevated (gov_levels g)) \<and> \<not> zero_threshold (gle_attack (gov_levels g)) \<and>
     \<not> zero_threshold (gle_lockdown (gov_levels g)) \<and> \<not> zero_elevated_actions (gac_elevated (gov_actions g)) \<and>
     \<not> zero_attack_actions (gac_attack (gov_actions g)) \<and> \<not> zero_lockdown_actions (gac_lockdown (gov_actions g))"

lemma normalized_governor: "gov_enabled g \<Longrightarrow> governor_effective (normalize_resource_governor g dir)"
  by (simp add: normalize_resource_governor_def governor_effective_def default_resource_governor_def Let_def
      zero_threshold_def level_threshold_def f64_zero_def zero_elevated_actions_def zero_attack_actions_def
      zero_lockdown_actions_def)

lemma governor_keeps_enabled: "gov_enabled (normalize_resource_governor g dir) = gov_enabled g"
  by (simp add: normalize_resource_governor_def Let_def)

lemma valid_advanced_facts:
  assumes "validate_advanced scan c = None"
  shows "0 \<le> asa_rollback (adv_safety c)" "validate_website_defense (adv_website c) = None"
  using assms by (simp_all add: validate_advanced_def first_of_append first_of_None split: option.splits if_splits)

lemma valid_scores:
  assumes "validate_website_defense w = None"
  shows "0 \<le> wbo_challenge (wpr_bot w)" "0 \<le> wbo_block (wpr_bot w)" "wbo_challenge (wpr_bot w) \<le> 100"
    "wbo_enabled (wpr_bot w) \<Longrightarrow> 0 < wbo_block (wpr_bot w) \<Longrightarrow> wbo_challenge (wpr_bot w) \<le> wbo_block (wpr_bot w)"
  using assms by (auto simp: validate_website_defense_def first_of_append first_of_None split: option.splits if_splits)

text \<open>
  What an expanded advanced configuration guarantees whatever the file says: with updates on,
  manifests must be signed and a failed update is rolled back; the rollback timer is positive;
  an enabled resource governor has thresholds and actions at every level; telemetry never has all
  privacy switches off. It does not guarantee that the score that challenges a client is at most
  the score that blocks it: the validation compares the two before the defaults are filled in,
  and exactly in two cases they end up crossed.
\<close>

theorem advanced_runtime_settings:
  assumes "expand_advanced scan c = Inr rt"
  shows "(rud_enabled (rtc_updates rt) \<longrightarrow> rud_signed (rtc_updates rt) \<and> rud_auto_rollback (rtc_updates rt)) \<and>
    0 < rsa_rollback (rtc_safety rt) \<and>
    (gov_enabled (rtc_governor rt) \<longrightarrow> governor_effective (rtc_governor rt)) \<and>
    \<not> privacy_silent (rte_privacy (rtc_telemetry rt)) \<and>
    (let bot = wpr_bot (adv_website c)
     in rbo_block (rtc_bot rt) < rbo_challenge (rtc_bot rt) \<and> rbo_enabled (rtc_bot rt) \<longleftrightarrow>
        wbo_enabled bot \<and> (wbo_block bot = 0 \<and> 80 < wbo_challenge bot \<or>
                            wbo_challenge bot = 0 \<and> 0 < wbo_block bot \<and> wbo_block bot < 50))"
proof -
  have valid: "validate_advanced scan c = None" and rt: "rt = advanced_runtime c"
    using assms by (auto simp: expand_advanced_def split: option.splits)
  note scores = valid_scores [OF valid_advanced_facts(2) [OF valid]]
  have "rud_enabled (rtc_updates rt) \<longrightarrow> rud_signed (rtc_updates rt) \<and> rud_auto_rollback (rtc_updates rt)"
    by (simp add: rt advanced_runtime_def Let_def normalize_runtime_updates_def default_runtime_updates_def)
  moreover have "0 < rsa_rollback (rtc_safety rt)"
    using valid_advanced_facts(1) [OF valid] by (simp add: rt advanced_runtime_def Let_def or_num_def)
  moreover have "gov_enabled (rtc_governor rt) \<longrightarrow> governor_effective (rtc_governor rt)"
    by (simp add: rt advanced_runtime_def Let_def governor_keeps_enabled normalized_governor)
  moreover have "\<not> privacy_silent (rte_privacy (rtc_telemetry rt))"
    by (simp add: rt advanced_runtime_def Let_def normalized_privacy) (simp add: privacy_silent_def)
  moreover have "rbo_block (rtc_bot rt) < rbo_challenge (rtc_bot rt) \<and> rbo_enabled (rtc_bot rt) \<longleftrightarrow>
      wbo_enabled (wpr_bot (adv_website c)) \<and>
      (wbo_block (wpr_bot (adv_website c)) = 0 \<and> 80 < wbo_challenge (wpr_bot (adv_website c)) \<or>
       wbo_challenge (wpr_bot (adv_website c)) = 0 \<and> 0 < wbo_block (wpr_bot (adv_website c)) \<and>
       wbo_block (wpr_bot (adv_website c)) < 50)"
    using scores
    by (auto simp: rt advanced_runtime_def Let_def normalize_runtime_bot_def default_runtime_bot_def or_num_def)
  ultimately show ?thesis by (simp add: Let_def)
qed

text \<open>The SSH port of an advanced configuration is 22, whatever its allowed ports are.\<close>

lemma advanced_ssh_port: "rtc_ssh_port (advanced_runtime c) = 22"
proof -
  have "ssh_port_from_allow_ports ps = 22" for ps by (induction ps) simp_all
  then show ?thesis by (simp add: advanced_runtime_def Let_def or_num_def)
qed

text \<open>A threshold that is not a number passes the validation.\<close>

lemma nan_threshold_valid:
  "validate_governor_threshold \<lparr>gth_cpu = Not_a_number, gth_ram = Not_a_number, gth_load = Not_a_number,
     gth_conntrack = Not_a_number, gth_latency = Not_a_number\<rparr> = None"
  by (simp add: validate_governor_threshold_def out_of_percent_def first_of_None)

subsection \<open>Concrete configurations\<close>

definition demo_scan :: url_scan where
  "demo_scan u = (if prefix ''http://'' u then Some (''http'', drop 7 u) else None)"

definition demo_tenant :: tenant_config where
  "demo_tenant = \<lparr>ten_mode = ''full'', ten_plan = ''pro'', ten_license = ''K'', ten_admins = [''10.0.0.0/8''],
     ten_server = \<lparr>tse_interface = ''eth0'', tse_ssh_port = 2222, tse_ports = []\<rparr>,
     ten_website = \<lparr>twe_enabled = True, twe_cloudflare = False, twe_tls = ''flexible_http'', twe_cert = [], twe_key = [],
       twe_sites = [\<lparr>tsi_domains = [''a.example''], tsi_backend = ''http://b1'',
                     tsi_routes = [\<lparr>tro_path = ''/api'', tro_backend = ''http://b2'', tro_protection = []\<rparr>,
                                   \<lparr>tro_path = ''/'', tro_backend = ''http://b1'', tro_protection = ''strict''\<rparr>]\<rparr>]\<rparr>,
     ten_protection = \<lparr>tpr_profile = ''balanced'', tpr_waf = True, tpr_bot = True, tpr_auto = True\<rparr>,
     ten_auto_updates = True, ten_telemetry = False\<rparr>"

lemma visible_not_blank: "s \<noteq> [] \<Longrightarrow> \<forall>c\<in>set s. visible c \<Longrightarrow> \<not> blank_text s"
  by (simp add: blank_text_def trim_visible)

lemma demo_cidr: "parse_cidr ''10.0.0.0/8'' \<noteq> None"
  by code_simp

lemma demo_not_blank:
  "\<not> blank_text ''pro''" "\<not> blank_text ''K''" "\<not> blank_text ''eth0''" "\<not> blank_text ''http://b1''"
  "\<not> blank_text ''http://b2''" "\<not> blank_text ''/api''" "\<not> blank_text ''/''" "\<not> blank_text ''p''"
  "\<not> blank_text ''s''"
  by (rule visible_not_blank; simp add: visible_def)+

lemma demo_urls: "validate_backend_url demo_scan ''http://b1'' = None" "validate_backend_url demo_scan ''http://b2'' = None"
  by (simp_all add: validate_backend_url_def demo_not_blank demo_scan_def)

lemma demo_tenant_valid: "validate_tenant demo_scan demo_tenant = None"
proof -
  have "validate_tenant_website demo_scan (ten_website demo_tenant) = None"
    by (simp add: validate_tenant_website_def demo_tenant_def first_of_None allowed_tls_modes_def demo_urls
        check_tenant_route_def demo_not_blank)
  then show ?thesis
    by (simp add: validate_tenant_def first_of_None demo_tenant_def allowed_modes_def allowed_profiles_def demo_not_blank
        demo_cidr bad_port_def)
qed

theorem tenant_expansion_routes_witness:
  "\<exists>rt. expand_tenant demo_scan demo_tenant = Inr rt \<and> validate_runtime rt = None \<and> length (rtc_sites rt) = 1"
proof -
  have "shows_sites demo_tenant" by (simp add: shows_sites_def demo_tenant_def)
  with tenant_expansion_routes [OF demo_tenant_valid] obtain rt where
    "expand_tenant demo_scan demo_tenant = Inr rt" "validate_runtime rt = None"
    "length (twe_sites (ten_website demo_tenant)) = length (rtc_sites rt)"
    by (auto dest: list_all2_lengthD)
  then show ?thesis by (simp add: demo_tenant_def)
qed

definition demo_threshold :: governor_threshold where
  "demo_threshold = level_threshold 0 0 0 0"

definition demo_advanced :: "string \<Rightarrow> advanced_config" where
  "demo_advanced route_pool = \<lparr>adv_mode = ''full'', adv_profile = ''p'', adv_role = ''protected_server'', adv_state_dir = [],
     adv_last_good = [], adv_license = \<lparr>ali_file = [], ali_key = [], ali_need_valid = False, ali_grace = False\<rparr>,
     adv_identity = \<lparr>sid_machine = False, sid_primary_mac = False, sid_all_macs = False, sid_salt = []\<rparr>,
     adv_safety = \<lparr>asa_dry_run = False, asa_need_admin = False, asa_rollback = 0, asa_console = False\<rparr>,
     adv_server = \<lparr>spr_interfaces = [''eth0''],
       spr_xdp = \<lparr>axd_enabled = False, axd_mode = [], axd_program = [], axd_section = [], axd_private = False,
                  axd_malformed = False, axd_fragments = False, axd_allowlist = [], axd_blocklist = []\<rparr>,
       spr_ddos = \<lparr>sdd_per_ip = 0, sdd_per_subnet = 0, sdd_syn = 0, sdd_udp = 0, sdd_icmp = 0, sdd_block_secs = 0,
                   sdd_grey_secs = 0\<rparr>,
       spr_nft = \<lparr>nft_enabled = True, nft_conntrack = True, nft_ports = [2222], nft_ssh_admin = True,
                  nft_admins = [''10.0.0.0/8'']\<rparr>\<rparr>,
     adv_website = \<lparr>wpr_enabled = True,
       wpr_cloudflare = \<lparr>clo_enabled = False, clo_proxied = False, clo_block_direct = False, clo_v4_file = [], clo_v6_file = []\<rparr>,
       wpr_waf = \<lparr>wwa_enabled = False, wwa_engine = [], wwa_crs = False, wwa_anomaly = 0\<rparr>,
       wpr_bot = \<lparr>wbo_enabled = True, wbo_cookie = True, wbo_js = False, wbo_pow = False, wbo_challenge = 0, wbo_block = 30\<rparr>\<rparr>,
     adv_sites = [\<lparr>asi_id = ''s'', asi_domains = [''a.example''], asi_tls = \<lparr>atl_mode = [], atl_cert = [], atl_key = []\<rparr>,
                   asi_policy = [], asi_pool = ''p'',
                   asi_routes = [\<lparr>aro_path = ''/api'', aro_pool = route_pool, aro_rpm = 0, aro_cache = 0, aro_body = 0,
                                  aro_exclude = []\<rparr>]\<rparr>],
     adv_pools = [\<lparr>cbp_id = ''p'', cbp_upstreams = [\<lparr>cup_id = ''u'', cup_url = ''http://b1''\<rparr>]\<rparr>],
     adv_governor = \<lparr>gov_enabled = True, gov_baseline = \<lparr>gba_enabled = True, gba_days = 0, gba_samples = 0, gba_store = []\<rparr>,
       gov_hysteresis = \<lparr>ghy_enabled = False, ghy_hold = 0, ghy_cooldown = 0, ghy_recovery = 0\<rparr>,
       gov_levels = \<lparr>gle_elevated = demo_threshold, gle_attack = demo_threshold, gle_lockdown = demo_threshold\<rparr>,
       gov_actions = \<lparr>gac_elevated = \<lparr>gea_tighten = False, gea_challenge = False, gea_cache = False\<rparr>,
                      gac_attack = \<lparr>gaa_block = False, gaa_disable = False, gaa_timeouts = False\<rparr>,
                      gac_lockdown = \<lparr>gla_admins_only = False, gla_backend_first = False\<rparr>\<rparr>\<rparr>,
     adv_updates = \<lparr>aup_enabled = False, aup_channel = [], aup_manifest = [], aup_signed = False, aup_auto_rollback = False\<rparr>,
     adv_security = \<lparr>ase_enabled = False, ase_audit = False, ase_integrity = False, ase_paths = [], ase_processes = []\<rparr>,
     adv_telemetry = \<lparr>ate_enabled = False, ate_health = False, ate_interval = 0,
       ate_privacy = \<lparr>rpv_body = False, rpv_cookie = False, rpv_auth = False, rpv_raw_ip = False, rpv_hash_ip = False,
                      rpv_redact = False\<rparr>\<rparr>\<rparr>"

lemma demo_advanced_valid: "route_pool \<in> {[], ''p''} \<Longrightarrow> validate_advanced demo_scan (demo_advanced route_pool) = None"
proof -
  assume pool: "route_pool \<in> {[], ''p''}"
  have gov: "validate_resource_governor (adv_governor (demo_advanced route_pool)) = None"
    by (simp add: validate_resource_governor_def demo_advanced_def first_of_None validate_governor_threshold_def
        demo_threshold_def level_threshold_def out_of_percent_def)
  have web: "validate_website_defense (adv_website (demo_advanced route_pool)) = None"
    by (simp add: validate_website_defense_def demo_advanced_def first_of_None)
  have sites: "check_advanced_sites {''p''} {} (adv_sites (demo_advanced route_pool)) = None"
    using pool by (auto simp: demo_advanced_def first_of_None demo_not_blank check_site_tls_def check_advanced_route_def reject_def)
  have pools: "check_pools demo_scan {} (adv_pools (demo_advanced route_pool)) = None"
    by (simp add: demo_advanced_def first_of_None demo_not_blank demo_urls)
  show ?thesis
    unfolding validate_advanced_def
    using gov web sites pools
    by (simp add: first_of_None first_of_append)
      (simp add: demo_advanced_def allowed_modes_def demo_not_blank demo_cidr bad_port_def validate_advanced_xdp_def
        validate_server_ddos_def validate_advanced_updates_def validate_advanced_security_def validate_advanced_telemetry_def)
qed

theorem advanced_expansion_needs_pools_witness:
  "(\<exists>rt. expand_advanced demo_scan (demo_advanced ''p'') = Inr rt) \<and>
   \<not> (\<exists>rt. expand_advanced demo_scan (demo_advanced []) = Inr rt)"
  using advanced_expansion_needs_pools [OF demo_advanced_valid [of "''p''"]]
    advanced_expansion_needs_pools [OF demo_advanced_valid [of "[]"]]
  by (simp add: demo_advanced_def)

lemma demo_advanced_expands: "expand_advanced demo_scan (demo_advanced ''p'') = Inr (advanced_runtime (demo_advanced ''p''))"
proof -
  have valid: "validate_advanced demo_scan (demo_advanced ''p'') = None" by (rule demo_advanced_valid) simp
  let ?c = "demo_advanced ''p''"
  have pools: "check_pools demo_scan {} (adv_pools ?c) = None" and sites: "check_advanced_sites (cbp_id ` set (adv_pools ?c)) {} (adv_sites ?c) = None"
    and mode: "adv_mode ?c \<in> allowed_modes"
    using valid by (simp_all add: validate_advanced_def first_of_append first_of_None split: option.splits if_splits)
  have "\<forall>s\<in>set (adv_sites ?c). \<forall>r\<in>set (asi_routes s). aro_pool r \<noteq> []" "[] \<notin> cbp_id ` set (adv_pools ?c)"
    by (simp_all add: demo_advanced_def)
  with advanced_sites_valid [OF sites, of "[]"] advanced_pools_valid [OF pools] mode
  have "validate_runtime (advanced_runtime ?c) = None"
    by (simp add: validate_runtime_def first_of_None advanced_runtime_def Let_def image_comp comp_def)
  then show ?thesis by (simp add: expand_advanced_def valid)
qed

theorem advanced_runtime_settings_witness:
  "governor_effective (rtc_governor (advanced_runtime (demo_advanced ''p''))) \<and>
   rbo_block (rtc_bot (advanced_runtime (demo_advanced ''p''))) < rbo_challenge (rtc_bot (advanced_runtime (demo_advanced ''p'')))"
proof -
  have "gov_enabled (rtc_governor (advanced_runtime (demo_advanced ''p'')))"
    by (simp add: advanced_runtime_def Let_def governor_keeps_enabled) (simp add: demo_advanced_def)
  moreover have "wpr_bot (adv_website (demo_advanced ''p'')) =
      \<lparr>wbo_enabled = True, wbo_cookie = True, wbo_js = False, wbo_pow = False, wbo_challenge = 0, wbo_block = 30\<rparr>"
    by (simp add: demo_advanced_def)
  ultimately show ?thesis using advanced_runtime_settings [OF demo_advanced_expands] by (simp add: Let_def)
qed

end
