(* ===== verification/Diagnostics.thy ===== *)
theory Diagnostics
  imports SharedFacts OsRelease
begin

text \<open>
  The reports a protected server makes of itself, \<^verbatim>\<open>internal/shared/diagnostics\<close>
  (\<^verbatim>\<open>status.go\<close>, \<^verbatim>\<open>preflight.go\<close>, \<^verbatim>\<open>report.go\<close>, \<^verbatim>\<open>mode.go\<close>), the health checker of
  \<^verbatim>\<open>pkg/health/health.go\<close> and the go/no-go report of \<^verbatim>\<open>internal/shared/pilot/report.go\<close>.

  What the checks find on the machine is an argument: the operating system, the release file, the
  effective user, the writing of a probe file, the commands in the path. Times are given as the
  text they are rendered to. The YAML document is a tree of nodes; parsing and printing it are
  arguments.
\<close>

definition build_version :: string where "build_version = ''0.1.0-dev''"

subsection \<open>Checks\<close>

record diag_check =
  ck_name :: string
  ck_status :: string
  ck_message :: string
  ck_severity :: string

definition passed :: "string \<Rightarrow> string \<Rightarrow> diag_check" where
  "passed name msg = \<lparr>ck_name = name, ck_status = ''pass'', ck_message = msg, ck_severity = []\<rparr>"

definition warned :: "string \<Rightarrow> string \<Rightarrow> diag_check" where
  "warned name msg = \<lparr>ck_name = name, ck_status = ''warn'', ck_message = msg, ck_severity = ''medium''\<rparr>"

definition failed_check :: "string \<Rightarrow> string \<Rightarrow> string \<Rightarrow> diag_check" where
  "failed_check name severity msg = \<lparr>ck_name = name, ck_status = ''fail'', ck_message = msg, ck_severity = severity\<rparr>"

fun overall_loop :: "string \<Rightarrow> diag_check list \<Rightarrow> string" where
  "overall_loop status [] = status"
| "overall_loop status (c # cs) =
     (if ck_status c = ''fail'' then ''fail''
      else overall_loop (if ck_status c = ''warn'' then ''warn'' else status) cs)"

definition overall_status :: "diag_check list \<Rightarrow> string" where
  "overall_status cs = overall_loop ''pass'' cs"

definition mode_check :: "runtime_config \<Rightarrow> diag_check" where
  "mode_check rt =
     (if rtc_mode rt = ''server'' \<or> rtc_mode rt = ''full'' then passed ''mode'' ''mode is valid''
      else failed_check ''mode'' ''critical'' ''mode must be server or full'')"

definition admin_allowlist_check :: "runtime_config \<Rightarrow> diag_check" where
  "admin_allowlist_check rt =
     (if rtc_admins rt \<noteq> [] \<or> rfw_admins (rtc_firewall rt) \<noteq> [] then passed ''admin_allowlist'' ''admin allowlist is configured''
      else failed_check ''admin_allowlist'' ''critical'' ''admin allowlist is required before firewall apply'')"

definition firewall_safety_check :: "runtime_config \<Rightarrow> diag_check" where
  "firewall_safety_check rt =
     (if \<not> rfw_enabled (rtc_firewall rt) then warned ''firewall'' ''firewall is disabled''
      else if rfw_ssh_admin (rtc_firewall rt) \<and> rfw_admins (rtc_firewall rt) = []
      then failed_check ''firewall'' ''critical'' ''ssh_admin_only needs admin CIDRs''
      else passed ''firewall'' ''firewall safety settings are present'')"

definition full_mode_check :: "runtime_config \<Rightarrow> diag_check" where
  "full_mode_check rt =
     (if rtc_mode rt \<noteq> ''full'' then passed ''website_proxy'' ''server mode does not require website proxy''
      else if rtc_sites rt = [] \<or> rtc_pools rt = []
      then failed_check ''website_proxy'' ''critical'' ''full mode requires sites and backend pools''
      else passed ''website_proxy'' ''full mode has sites and backend pools'')"

definition privacy_check :: "runtime_config \<Rightarrow> diag_check" where
  "privacy_check rt =
     (let p = rte_privacy (rtc_telemetry rt)
      in if rpv_body p \<or> rpv_cookie p \<or> rpv_auth p then failed_check ''privacy'' ''high'' ''privacy config sends sensitive HTTP data''
         else if \<not> rpv_redact p then warned ''privacy'' ''support bundle redaction is disabled''
         else passed ''privacy'' ''sensitive telemetry is disabled by default'')"

record diag_report =
  dg_generated :: string
  dg_status :: string
  dg_checks :: "diag_check list"

definition config_checks :: "runtime_config \<Rightarrow> diag_check list" where
  "config_checks rt =
     [passed ''config'' ''runtime config expanded successfully'', mode_check rt, admin_allowlist_check rt,
      firewall_safety_check rt, full_mode_check rt, privacy_check rt]"

definition build_health :: "runtime_config \<Rightarrow> diag_report \<Rightarrow> string \<Rightarrow> diag_report" where
  "build_health rt preflight stamp =
     (let checks = config_checks rt @ dg_checks preflight
      in \<lparr>dg_generated = stamp, dg_status = overall_status checks, dg_checks = checks\<rparr>)"

subsection \<open>Preflight\<close>

record preflight_options =
  pf_release_path :: string
  pf_uid :: int
  pf_writable :: string
  pf_skip_commands :: bool

datatype write_probe = Mkdir_refused string | Write_refused string | Probe_written

record machine =
  mc_os :: string
  mc_release :: "string \<Rightarrow> string + string"
  mc_probe :: "string \<Rightarrow> write_probe"
  mc_lookup :: "string \<Rightarrow> string option"

definition goos_check :: "machine \<Rightarrow> diag_check" where
  "goos_check m = (if mc_os m = ''linux'' then passed ''os'' ''running on linux''
     else failed_check ''os'' ''critical'' ''kiro_waf targets Linux/Ubuntu hosts'')"

definition os_release_check :: "string + string \<Rightarrow> diag_check" where
  "os_release_check file =
     (let name = ''ubuntu_release''
      in case file of
           Inl e \<Rightarrow> warned name (''cannot read os-release: '' @ e)
         | Inr text \<Rightarrow>
             (case read_os_release (Some text) of
                None \<Rightarrow> warned name (''cannot read os-release: '' @ ''ID missing'')
              | Some r \<Rightarrow>
                  if osr_id r = ''ubuntu'' \<and> prefix ''22.04'' (osr_version r) then passed name ''Ubuntu 22.04 LTS detected''
                  else if osr_id r = ''ubuntu'' \<and> prefix ''24.04'' (osr_version r)
                  then warned name ''Ubuntu 24.04 detected; supported roadmap target, verify lab before production''
                  else warned name (''expected Ubuntu 22.04 LTS, got '' @ osr_pretty r)))"

definition root_check :: "int \<Rightarrow> diag_check" where
  "root_check euid = (if euid = 0 then passed ''root'' ''running with root privileges''
     else warned ''root'' ''root is required for firewall apply and some runtime checks'')"

definition state_dir_check :: "machine \<Rightarrow> runtime_config \<Rightarrow> string \<Rightarrow> diag_check" where
  "state_dir_check m rt writable =
     (let dir = (if trim_space writable \<noteq> [] then join_paths [writable, ''kiro-state-check''] else rpa_state (rtc_paths rt))
      in if trim_space dir = [] then failed_check ''state_dir'' ''high'' ''state dir is empty''
         else case mc_probe m dir of
                Mkdir_refused e \<Rightarrow> failed_check ''state_dir'' ''high'' (''cannot create state dir: '' @ e)
              | Write_refused e \<Rightarrow> failed_check ''state_dir'' ''high'' (''state dir is not writable: '' @ e)
              | Probe_written \<Rightarrow> passed ''state_dir'' ''state dir is writable'')"

definition command_check :: "machine \<Rightarrow> string \<Rightarrow> diag_check" where
  "command_check m name =
     (case mc_lookup m name of
        None \<Rightarrow> warned (''command_'' @ name) (name @ '' not found in PATH'')
      | Some path \<Rightarrow> passed (''command_'' @ name) path)"

definition needed_commands :: "runtime_config \<Rightarrow> string list" where
  "needed_commands rt =
     [''nft''] @ (if rxd_enabled (rtc_xdp rt) then [''ip'', ''bpftool'', ''clang'', ''llvm-objdump''] else []) @
     (if rtc_mode rt = ''full'' then [''nginx''] else []) @ [''systemctl'']"

definition build_preflight :: "machine \<Rightarrow> runtime_config \<Rightarrow> preflight_options \<Rightarrow> string \<Rightarrow> diag_report" where
  "build_preflight m rt opts stamp =
     (let release = (if trim_space (pf_release_path opts) \<noteq> [] then pf_release_path opts else ''/etc/os-release'');
          checks = [goos_check m, os_release_check (mc_release m release), root_check (pf_uid opts), admin_allowlist_check rt,
                    state_dir_check m rt (pf_writable opts)] @
                   (if pf_skip_commands opts then [] else map (command_check m) (needed_commands rt))
      in \<lparr>dg_generated = stamp, dg_status = overall_status checks, dg_checks = checks\<rparr>)"

subsection \<open>Status\<close>

fun kind_text :: "config_kind \<Rightarrow> string" where
  "kind_text Kind_tenant = ''tenant''"
| "kind_text Kind_advanced = ''advanced''"
| "kind_text Kind_provider = ''provider''"

record status_report =
  sr_generated :: string
  sr_version :: string
  sr_kind :: string
  sr_mode :: string
  sr_plan :: string
  sr_sites :: nat
  sr_pools :: nat
  sr_firewall :: bool
  sr_proxy :: bool
  sr_origin_lock :: bool
  sr_waf :: bool
  sr_bot :: bool
  sr_governor :: bool
  sr_updates :: bool
  sr_security :: bool
  sr_telemetry :: bool
  sr_state_dir :: string
  sr_last_good :: string

definition build_status :: "runtime_config \<Rightarrow> string \<Rightarrow> status_report" where
  "build_status rt stamp =
     \<lparr>sr_generated = stamp, sr_version = build_version, sr_kind = kind_text (rtc_kind rt), sr_mode = rtc_mode rt,
      sr_plan = rtc_plan rt, sr_sites = length (rtc_sites rt), sr_pools = length (rtc_pools rt),
      sr_firewall = rfw_enabled (rtc_firewall rt), sr_proxy = (rtc_mode rt = ''full'' \<and> 0 < length (rtc_sites rt)),
      sr_origin_lock = rol_enabled (rtc_origin_lock rt), sr_waf = rwf_enabled (rtc_waf rt), sr_bot = rbo_enabled (rtc_bot rt),
      sr_governor = gov_enabled (rtc_governor rt), sr_updates = rud_enabled (rtc_updates rt),
      sr_security = rse_enabled (rtc_security rt), sr_telemetry = rte_enabled (rtc_telemetry rt),
      sr_state_dir = rpa_state (rtc_paths rt), sr_last_good = rpa_last_good (rtc_paths rt)\<rparr>"

subsection \<open>The health of an expanded configuration\<close>

lemma overall_loop_fail: "overall_loop st cs = ''fail'' \<longleftrightarrow> st = ''fail'' \<and> cs = [] \<or> (\<exists>c\<in>set cs. ck_status c = ''fail'') \<or> st = ''fail'' \<and> (\<forall>c\<in>set cs. ck_status c \<noteq> ''warn'')"
  by (induction st cs rule: overall_loop.induct) auto

lemma overall_loop_append:
  "overall_loop st (cs @ ds) = (if \<exists>c\<in>set cs. ck_status c = ''fail'' then ''fail'' else overall_loop (overall_loop st cs) ds)"
  by (induction st cs rule: overall_loop.induct) auto

lemma overall_fail: "overall_status cs = ''fail'' \<longleftrightarrow> (\<exists>c\<in>set cs. ck_status c = ''fail'')"
  by (auto simp: overall_status_def overall_loop_fail)

lemma overall_pass: "(\<forall>c\<in>set cs. ck_status c = ''pass'') \<Longrightarrow> overall_loop st cs = st"
  by (induction st cs rule: overall_loop.induct) auto

lemma expanded_tenant_fields:
  assumes "expand_tenant scan c = Inr rt"
  shows "\<exists>ps ss. rt = (tenant_runtime c)\<lparr>rtc_pools := ps, rtc_sites := ss\<rparr>"
proof -
  have "tenant_runtime c = (tenant_runtime c)\<lparr>rtc_pools := [], rtc_sites := []\<rparr>" by (simp add: tenant_runtime_def)
  then show ?thesis using assms
    by (auto simp: expand_tenant_def Let_def split: option.splits if_splits prod.splits)
qed

lemma valid_site_has_pool: "validate_runtime rt = None \<Longrightarrow> rtc_sites rt \<noteq> [] \<Longrightarrow> rtc_pools rt \<noteq> []"
  by (cases "rtc_sites rt"; cases "rtc_pools rt") (auto simp: validate_runtime_def first_of_None split: option.splits)

lemma full_tenant_sites:
  assumes "validate_tenant scan c = None" "ten_mode c = ''full''" "expand_tenant scan c = Inr rt"
  shows "rtc_sites rt \<noteq> [] \<and> rtc_pools rt \<noteq> []"
proof -
  have shown: "shows_sites c" using assms(2) by (simp add: shows_sites_def)
  then obtain bs where "validate_runtime rt = None" "list_all2 (site_ok c bs) (twe_sites (ten_website c)) (rtc_sites rt)"
    using tenant_expands [OF assms(1) shown] assms(3) by auto
  moreover have "twe_sites (ten_website c) \<noteq> []"
    using assms(1,2) by (auto simp: validate_tenant_def validate_tenant_website_def first_of_None)
  ultimately show ?thesis using valid_site_has_pool by (metis list_all2_Nil2)
qed

text \<open>
  The health report never blames the configuration of a valid tenant: every check of the
  expanded configuration passes, so the status of the report is that of the machine's own checks.
  An accepted advanced configuration fails the report exactly when it has no administrator
  addresses or sends request bodies, cookies or authorization headers.
\<close>

theorem configuration_health:
  "(validate_tenant scan c = None \<longrightarrow>
     (\<exists>rt. expand_tenant scan c = Inr rt \<and> (\<forall>k\<in>set (config_checks rt). ck_status k = ''pass'') \<and>
        dg_status (build_health rt pre stamp) = overall_status (dg_checks pre))) \<and>
   (expand_advanced scan a = Inr rta \<longrightarrow>
     (overall_status (config_checks rta) = ''fail'' \<longleftrightarrow>
        nft_admins (spr_nft (adv_server a)) = [] \<or>
        (let p = ate_privacy (adv_telemetry a) in rpv_body p \<or> rpv_cookie p \<or> rpv_auth p)))"
proof (intro conjI impI)
  assume valid: "validate_tenant scan c = None"
  obtain rt where rt: "expand_tenant scan c = Inr rt"
  proof (cases "shows_sites c")
    case True
    then show ?thesis using tenant_expands [OF valid True] that by blast
  next
    case False
    then show ?thesis
      using valid_tenant_facts(1) [OF valid] valid that
      by (auto simp: expand_tenant_def shows_sites_def allowed_modes_def tenant_runtime_def)
  qed
  then obtain ps ss where fields: "rt = (tenant_runtime c)\<lparr>rtc_pools := ps, rtc_sites := ss\<rparr>"
    using expanded_tenant_fields by blast
  have "ten_mode c \<in> {''server'', ''full''}" "ten_admins c \<noteq> []"
    using valid by (auto simp: validate_tenant_def first_of_None allowed_modes_def)
  then have pass: "\<forall>k\<in>set (config_checks rt). ck_status k = ''pass''"
    using full_tenant_sites [OF valid _ rt]
    by (auto simp: config_checks_def mode_check_def admin_allowlist_check_def firewall_safety_check_def full_mode_check_def
        privacy_check_def passed_def fields tenant_runtime_def default_runtime_telemetry_def)
  have "overall_status (config_checks rt @ dg_checks pre) = overall_status (dg_checks pre)"
    unfolding overall_status_def overall_loop_append using pass overall_pass [OF pass] by auto
  then show "\<exists>rt. expand_tenant scan c = Inr rt \<and> (\<forall>k\<in>set (config_checks rt). ck_status k = ''pass'') \<and>
        dg_status (build_health rt pre stamp) = overall_status (dg_checks pre)"
    using rt pass by (auto simp: build_health_def Let_def)
next
  assume "expand_advanced scan a = Inr rta"
  then have valid: "validate_advanced scan a = None" and rta: "rta = advanced_runtime a" "validate_runtime rta = None"
    by (auto simp: expand_advanced_def split: option.splits)
  have mode: "rtc_mode rta \<in> {''server'', ''full''}" "rtc_mode rta = ''full'' \<longrightarrow> rtc_sites rta \<noteq> []"
    using valid by (auto simp: rta validate_advanced_def first_of_append first_of_None advanced_runtime_def Let_def allowed_modes_def)
  then have full: "ck_status (full_mode_check rta) = ''pass''" "ck_status (mode_check rta) = ''pass''"
    using valid_site_has_pool [OF rta(2)] by (auto simp: full_mode_check_def mode_check_def passed_def)
  have admins: "rtc_admins rta = nft_admins (spr_nft (adv_server a))" "rfw_admins (rtc_firewall rta) = nft_admins (spr_nft (adv_server a))"
    by (simp_all add: rta advanced_runtime_def Let_def)
  have "rte_privacy (rtc_telemetry rta) = (let p = ate_privacy (adv_telemetry a)
      in if privacy_silent p then \<lparr>rpv_body = False, rpv_cookie = False, rpv_auth = False, rpv_raw_ip = False,
           rpv_hash_ip = True, rpv_redact = True\<rparr> else p)"
    by (simp add: rta advanced_runtime_def Let_def normalized_privacy)
  then have privacy: "ck_status (privacy_check rta) = ''fail'' \<longleftrightarrow>
      (let p = ate_privacy (adv_telemetry a) in rpv_body p \<or> rpv_cookie p \<or> rpv_auth p)"
    by (auto simp: privacy_check_def failed_check_def warned_def passed_def Let_def privacy_silent_def)
  show "overall_status (config_checks rta) = ''fail'' \<longleftrightarrow>
        nft_admins (spr_nft (adv_server a)) = [] \<or>
        (let p = ate_privacy (adv_telemetry a) in rpv_body p \<or> rpv_cookie p \<or> rpv_auth p)"
    unfolding overall_fail using full privacy admins
    by (auto simp: config_checks_def admin_allowlist_check_def firewall_safety_check_def failed_check_def warned_def passed_def)
qed

lemma configuration_health_witness:
  "(\<exists>rt. expand_tenant demo_scan demo_tenant = Inr rt \<and> (\<forall>k\<in>set (config_checks rt). ck_status k = ''pass'')) \<and>
   overall_status (config_checks (advanced_runtime (demo_advanced ''p''))) \<noteq> ''fail''"
  using configuration_health [of demo_scan demo_tenant "\<lparr>dg_generated = [], dg_status = [], dg_checks = []\<rparr>" "''now''"
      "demo_advanced ''p''" "advanced_runtime (demo_advanced ''p'')"] demo_tenant_valid demo_advanced_expands
  by (auto simp: demo_advanced_def Let_def)

subsection \<open>The mode in the configuration file\<close>

datatype yaml_kind = Scalar_node | Mapping_node | Other_node

datatype yaml_node = Yaml_node (yn_kind: yaml_kind) (yn_tag: string) (yn_value: string) (yn_content: "yaml_node list")

definition text_node :: "string \<Rightarrow> yaml_node" where
  "text_node v = Yaml_node Scalar_node ''!!str'' v []"

text \<open>Keys and values alternate; the value keeps its content, which is not printed for a scalar.\<close>

fun set_mode_entry :: "string \<Rightarrow> yaml_node list \<Rightarrow> yaml_node list option" where
  "set_mode_entry mode (k # v # rest) =
     (if yn_value k = ''mode'' then Some (k # Yaml_node Scalar_node ''!!str'' mode (yn_content v) # rest)
      else map_option (\<lambda>r. k # v # r) (set_mode_entry mode rest))"
| "set_mode_entry mode rest = None"

definition set_mode_root :: "string \<Rightarrow> yaml_node \<Rightarrow> yaml_node" where
  "set_mode_root mode r =
     Yaml_node (yn_kind r) (yn_tag r) (yn_value r)
       (case set_mode_entry mode (yn_content r) of
          Some es \<Rightarrow> es
        | None \<Rightarrow> text_node ''mode'' # text_node mode # yn_content r)"

datatype mode_error = Bad_mode_name | Config_unreadable | Config_unparsable | Root_not_mapping | Config_unprintable
  | Config_unwritable | Mode_not_set

text \<open>\<open>parse\<close> gives the children of the document node; the last result is what is written.\<close>

definition set_mode_file :: "(string \<Rightarrow> yaml_node list option) \<Rightarrow> (yaml_node list \<Rightarrow> string option) \<Rightarrow> bool \<Rightarrow> string \<Rightarrow>
    string option \<Rightarrow> mode_error option \<times> string option" where
  "set_mode_file parse print writable mode file =
     (if mode \<noteq> ''server'' \<and> mode \<noteq> ''full'' then (Some Bad_mode_name, file)
      else case file of
             None \<Rightarrow> (Some Config_unreadable, file)
           | Some raw \<Rightarrow>
               (case parse raw of
                  None \<Rightarrow> (Some Config_unparsable, file)
                | Some [] \<Rightarrow> (Some Root_not_mapping, file)
                | Some (r # others) \<Rightarrow>
                    if yn_kind r \<noteq> Mapping_node then (Some Root_not_mapping, file)
                    else (case print (set_mode_root mode r # others) of
                            None \<Rightarrow> (Some Config_unprintable, file)
                          | Some out \<Rightarrow> if writable then (None, Some out) else (Some Config_unwritable, file))))"

text \<open>\<open>decode\<close> gives the value of the key mode where it is a text, after decoding into a map.\<close>

definition show_mode :: "(string \<Rightarrow> string option option) \<Rightarrow> string option \<Rightarrow> mode_error + string" where
  "show_mode decode file =
     (case file of
        None \<Rightarrow> Inl Config_unreadable
      | Some raw \<Rightarrow>
          (case decode raw of
             None \<Rightarrow> Inl Config_unparsable
           | Some m \<Rightarrow> (let mode = (case m of None \<Rightarrow> [] | Some v \<Rightarrow> v) in if mode = [] then Inl Mode_not_set else Inr mode)))"

fun mode_of_entries :: "yaml_node list \<Rightarrow> string option" where
  "mode_of_entries (k # v # rest) =
     (if yn_value k = ''mode'' then (if yn_kind v = Scalar_node \<and> yn_tag v = ''!!str'' then Some (yn_value v) else None)
      else mode_of_entries rest)"
| "mode_of_entries rest = None"

fun other_entries :: "yaml_node list \<Rightarrow> (yaml_node \<times> yaml_node) list" where
  "other_entries (k # v # rest) = (if yn_value k = ''mode'' then other_entries rest else (k, v) # other_entries rest)"
| "other_entries rest = []"

lemma set_mode_entry_some:
  "set_mode_entry mode es = Some fs \<Longrightarrow> mode_of_entries fs = Some mode \<and> other_entries fs = other_entries es"
  by (induction mode es arbitrary: fs rule: set_mode_entry.induct) (auto split: if_splits)

text \<open>
  Setting the mode and showing it agree, and no other entry of the file changes: where printing
  and decoding a document agree on the key mode, the mode shown after a successful change is the one
  set; it is one of the two modes, and without success the file is as before.
\<close>

theorem set_mode_then_show:
  assumes "set_mode_file parse print writable mode (Some raw) = (err, file')"
    "\<And>r rest out. print (r # rest) = Some out \<Longrightarrow> decode out = Some (mode_of_entries (yn_content r))"
  shows "(if err = None
          then show_mode decode file' = Inr mode \<and> mode \<in> {''server'', ''full''} \<and>
            (\<exists>r rest. parse raw = Some (r # rest) \<and> other_entries (yn_content (set_mode_root mode r)) = other_entries (yn_content r))
          else file' = Some raw)"
proof (cases "err = None")
  case True
  then obtain r rest out where run: "mode \<in> {''server'', ''full''}" "parse raw = Some (r # rest)"
      "print (set_mode_root mode r # rest) = Some out" "file' = Some out"
    using assms(1) by (simp add: set_mode_file_def split: if_splits option.splits list.splits) metis+
  have "mode_of_entries (yn_content (set_mode_root mode r)) = Some mode \<and>
      other_entries (yn_content (set_mode_root mode r)) = other_entries (yn_content r)"
    using set_mode_entry_some [of mode "yn_content r"]
    by (auto simp: set_mode_root_def text_node_def split: option.splits)
  then show ?thesis using True run assms(2) [OF run(3)] by (auto simp: show_mode_def)
next
  case False
  then show ?thesis using assms(1) by (auto simp: set_mode_file_def split: if_splits option.splits list.splits)
qed

definition demo_document :: "string \<Rightarrow> yaml_node list option" where
  "demo_document text = Some [Yaml_node Mapping_node [] [] [text_node ''plan'', text_node ''basic'']]"

definition demo_print :: "yaml_node list \<Rightarrow> string option" where
  "demo_print ns = (case ns of n # _ \<Rightarrow> map_option (\<lambda>m. m) (mode_of_entries (yn_content n)) | [] \<Rightarrow> None)"

lemma set_mode_then_show_witness:
  "show_mode (\<lambda>t. Some (Some t)) (snd (set_mode_file demo_document demo_print True ''full'' (Some ''plan: basic''))) = Inr ''full''"
proof -
  have run: "set_mode_file demo_document demo_print True ''full'' (Some ''plan: basic'') = (None, Some ''full'')"
    by (simp add: set_mode_file_def demo_document_def demo_print_def set_mode_root_def text_node_def)
  have law: "Some (Some out) = Some (mode_of_entries (yn_content r))" if "demo_print (r # rest) = Some out" for r rest out
    using that by (simp add: demo_print_def)
  show ?thesis using set_mode_then_show [OF run, of "\<lambda>t. Some (Some t)"] law by (simp add: run)
qed

subsection \<open>The health checker\<close>

datatype health_state = Healthy | Degraded | Unhealthy | Other_state string

record health_check =
  hc_name :: string
  hc_state :: health_state
  hc_message :: string
  hc_latency :: string

definition worse :: "health_state \<Rightarrow> health_state \<Rightarrow> health_state" where
  "worse overall s =
     (if s = Unhealthy then Unhealthy
      else if s = Degraded \<and> overall \<noteq> Unhealthy then Degraded else overall)"

definition checker_run :: "health_check list \<Rightarrow> health_state" where
  "checker_run checks = foldl worse Healthy (map hc_state checks)"

definition health_handler :: "health_check list \<Rightarrow> nat \<times> health_state" where
  "health_handler checks = ((if checker_run checks = Unhealthy then 503 else 200), checker_run checks)"

lemma foldl_worse:
  "foldl worse st ss = (if Unhealthy \<in> set (st # ss) \<and> (st = Unhealthy \<or> Unhealthy \<in> set ss) then Unhealthy
     else if Degraded \<in> set ss then Degraded else st)"
  by (induction ss arbitrary: st) (auto simp: worse_def)

text \<open>The report is as bad as the worst check, whatever their order; an unknown state counts for nothing.\<close>

lemma worst_check_reported:
  "checker_run checks =
     (if \<exists>c\<in>set checks. hc_state c = Unhealthy then Unhealthy
      else if \<exists>c\<in>set checks. hc_state c = Degraded then Degraded else Healthy)"
  by (simp add: checker_run_def foldl_worse image_iff) metis

end
