(* ===== verification/Support.thy ===== *)
theory Support
  imports Diagnostics
begin

text \<open>
  What leaves a server for support, \<^verbatim>\<open>internal/shared/support\<close>: the redaction of secrets
  (\<^verbatim>\<open>bundle.go\<close>), the support bundle, the export to the provider's inbox (\<^verbatim>\<open>export.go\<close>) and the
  incident report (\<^verbatim>\<open>incident.go\<close>).

  The three regular expressions are written out as the functions they are; under the flag for case
  they also accept the two characters outside ASCII that fold to k and s. A file is a text; the
  JSON encodings and the renderings of times are arguments. A write that fails leaves what has been
  written.
\<close>

subsection \<open>Redaction\<close>

definition kelvin :: string where "kelvin = [CHR 0xE2, CHR 0x84, CHR 0xAA]"
definition long_s :: string where "long_s = [CHR 0xC5, CHR 0xBF]"

text \<open>The rest after a word, read without regard to case.\<close>

fun fold_word :: "string \<Rightarrow> string \<Rightarrow> string option" where
  "fold_word [] s = Some s"
| "fold_word (p # ps) s =
     (if s \<noteq> [] \<and> lower_char (hd s) = p then fold_word ps (tl s)
      else if p = CHR ''k'' \<and> prefix kelvin s then fold_word ps (drop 3 s)
      else if p = CHR ''s'' \<and> prefix long_s s then fold_word ps (drop 2 s)
      else None)"

fun contains_fold :: "string \<Rightarrow> string \<Rightarrow> bool" where
  "contains_fold p [] = (fold_word p [] \<noteq> None)"
| "contains_fold p (c # s) = (fold_word p (c # s) \<noteq> None \<or> contains_fold p s)"

definition secret_words :: "string list" where
  "secret_words = [''password'', ''token'', ''secret'', ''apikey'', ''api_key'', ''api-key'', ''authorization'', ''cookie'', ''license_key'']"

definition secret_key :: "string \<Rightarrow> bool" where
  "secret_key s \<longleftrightarrow> (\<exists>w\<in>set secret_words. contains_fold w s)"

text \<open>\<^verbatim>\<open>yamlSecretLine\<close>: the text before the first colon has one of the words.\<close>

definition secret_line :: "string \<Rightarrow> bool" where
  "secret_line line \<longleftrightarrow> CHR '':'' \<in> set line \<and> secret_key (takeWhile (\<lambda>c. c \<noteq> CHR '':'') line)"

definition leading_whitespace :: "string \<Rightarrow> string" where
  "leading_whitespace s = takeWhile (\<lambda>c. c = CHR '' '' \<or> c = CHR 0x09) s"

definition redact_line :: "string \<Rightarrow> string" where
  "redact_line line =
     (if secret_line line then leading_whitespace line @ ''redacted_secret: <redacted>'' else line)"

definition regex_space :: "char \<Rightarrow> bool" where
  "regex_space c \<longleftrightarrow> c \<in> {CHR 0x09, CHR 0x0A, CHR 0x0C, CHR 0x0D, CHR '' ''}"

definition skip_space :: "string \<Rightarrow> string" where
  "skip_space s = dropWhile regex_space s"

text \<open>The rest after a quoted text without quotation marks, with that text.\<close>

definition quoted :: "string \<Rightarrow> (string \<times> string) option" where
  "quoted s =
     (case s of [] \<Rightarrow> None
      | c # r \<Rightarrow>
          if c = double_quote \<and> double_quote \<in> set r
          then Some (takeWhile (\<lambda>x. x \<noteq> double_quote) r, tl (dropWhile (\<lambda>x. x \<noteq> double_quote) r))
          else None)"

definition is_digit_char :: "char \<Rightarrow> bool" where "is_digit_char c \<longleftrightarrow> digit_val c \<noteq> None"

definition json_scalar :: "string \<Rightarrow> string option" where
  "json_scalar s =
     (case quoted s of
        Some (_, r) \<Rightarrow> Some r
      | None \<Rightarrow>
          if s \<noteq> [] \<and> is_digit_char (hd s) then Some (dropWhile is_digit_char s)
          else case fold_word ''true'' s of Some r \<Rightarrow> Some r
               | None \<Rightarrow> (case fold_word ''false'' s of Some r \<Rightarrow> Some r | None \<Rightarrow> fold_word ''null'' s))"

text \<open>\<^verbatim>\<open>jsonSecretPair\<close> at the front of a text: what follows the pair.\<close>

definition secret_pair :: "string \<Rightarrow> string option" where
  "secret_pair s =
     (case quoted s of
        None \<Rightarrow> None
      | Some (key, r) \<Rightarrow>
          if \<not> secret_key key then None
          else (case skip_space r of
                  c # r' \<Rightarrow> if c = CHR '':'' then json_scalar (skip_space r') else None
                | [] \<Rightarrow> None))"

lemma fold_word_shorter: "fold_word p s = Some r \<Longrightarrow> length r + length p \<le> length s"
proof (induction p arbitrary: s)
  case (Cons p ps)
  have len: "prefix kelvin s \<Longrightarrow> 3 \<le> length s" "prefix long_s s \<Longrightarrow> 2 \<le> length s"
    by (auto simp: kelvin_def long_s_def prefix_def)
  consider "s \<noteq> []" "fold_word ps (tl s) = Some r" | "prefix kelvin s" "fold_word ps (drop 3 s) = Some r"
    | "prefix long_s s" "fold_word ps (drop 2 s) = Some r"
    using Cons.prems by (auto split: if_splits)
  then show ?case
  proof cases
    case 1
    then show ?thesis using Cons.IH [OF 1(2)] by (cases s) simp_all
  next
    case 2
    then show ?thesis using Cons.IH [OF 2(2)] len(1) by simp
  next
    case 3
    then show ?thesis using Cons.IH [OF 3(2)] len(2) by simp
  qed
qed simp

lemma fold_word_le: "fold_word p s = Some r \<Longrightarrow> length r \<le> length s"
  using fold_word_shorter [of p s r] by simp

lemma quoted_shorter: "quoted s = Some (key, r) \<Longrightarrow> length r < length s"
proof (cases s)
  case (Cons c cs)
  have "length (tl (dropWhile (\<lambda>x. x \<noteq> double_quote) cs)) \<le> length cs"
    using length_dropWhile_le [of "\<lambda>x. x \<noteq> double_quote" cs] by simp
  then show "quoted s = Some (key, r) \<Longrightarrow> length r < length s" using Cons by (auto simp: quoted_def split: if_splits)
qed (simp add: quoted_def)

lemma json_scalar_shorter: "json_scalar s = Some r \<Longrightarrow> length r \<le> length s"
  by (auto simp: json_scalar_def length_dropWhile_le dest: fold_word_le quoted_shorter less_imp_le split: option.splits if_splits)

lemma secret_pair_shorter: "secret_pair s = Some r \<Longrightarrow> length r < length s"
proof -
  assume pair: "secret_pair s = Some r"
  then obtain key r1 c r2 where steps: "quoted s = Some (key, r1)" "skip_space r1 = c # r2" "json_scalar (skip_space r2) = Some r"
    by (auto simp: secret_pair_def split: option.splits if_splits list.splits)
  have "length r \<le> length (skip_space r2)" by (rule json_scalar_shorter [OF steps(3)])
  also have "\<dots> \<le> length r2" by (simp add: skip_space_def length_dropWhile_le)
  also have "\<dots> \<le> length r1" using length_dropWhile_le [of regex_space r1] steps(2) by (simp add: skip_space_def)
  also have "\<dots> < length s" by (rule quoted_shorter [OF steps(1)])
  finally show ?thesis .
qed

definition redacted_pair :: string where
  "redacted_pair = [double_quote] @ ''redacted_secret'' @ [double_quote, CHR '':'', double_quote] @ ''<redacted>'' @ [double_quote]"

function redact_pairs :: "string \<Rightarrow> string" where
  "redact_pairs [] = []"
| "redact_pairs (c # s) =
     (case secret_pair (c # s) of
        Some r \<Rightarrow> redacted_pair @ redact_pairs r
      | None \<Rightarrow> c # redact_pairs s)"
  by pat_completeness auto
termination by (relation "measure length") (auto dest: secret_pair_shorter)

text \<open>\<^verbatim>\<open>bearerToken\<close>.\<close>

definition token_char :: "char \<Rightarrow> bool" where
  "token_char c \<longleftrightarrow> (97 \<le> (of_char (lower_char c) :: nat) \<and> (of_char (lower_char c) :: nat) \<le> 122) \<or> is_digit_char c \<or> c \<in> set ''._~+/=-''"

function drop_token_chars :: "string \<Rightarrow> string" where
  "drop_token_chars s =
     (if s \<noteq> [] \<and> token_char (hd s) then drop_token_chars (tl s)
      else if prefix kelvin s then drop_token_chars (drop 3 s)
      else if prefix long_s s then drop_token_chars (drop 2 s)
      else s)"
  by pat_completeness auto
termination by (relation "measure length") (auto simp: kelvin_def long_s_def prefix_def)

declare drop_token_chars.simps [simp del]

definition bearer :: "string \<Rightarrow> string option" where
  "bearer s =
     (case fold_word ''bearer'' s of
        None \<Rightarrow> None
      | Some r \<Rightarrow>
          if r \<noteq> [] \<and> regex_space (hd r) \<and> drop_token_chars (skip_space r) \<noteq> skip_space r then Some (drop_token_chars (skip_space r)) else None)"

lemma drop_token_chars_shorter: "length (drop_token_chars s) \<le> length s"
proof (induction s rule: drop_token_chars.induct)
  case (1 s)
  have len: "length (tl s) \<le> length s" "length (drop 3 s) \<le> length s" "length (drop 2 s) \<le> length s" by simp_all
  show ?case
    by (subst drop_token_chars.simps) (use 1 len in \<open>auto intro: order_trans\<close>)
qed

lemma bearer_shorter: "bearer s = Some r \<Longrightarrow> length r < length s"
proof -
  assume "bearer s = Some r"
  then obtain r1 where r1: "fold_word ''bearer'' s = Some r1" "r = drop_token_chars (skip_space r1)"
    by (auto simp: bearer_def split: option.splits if_splits)
  have "length r \<le> length (skip_space r1)" unfolding r1(2) by (rule drop_token_chars_shorter)
  also have "\<dots> \<le> length r1" by (simp add: skip_space_def length_dropWhile_le)
  also have "\<dots> < length s" using fold_word_shorter [OF r1(1)] by simp
  finally show ?thesis .
qed

function redact_bearer :: "string \<Rightarrow> string" where
  "redact_bearer [] = []"
| "redact_bearer (c # s) =
     (case bearer (c # s) of
        Some r \<Rightarrow> ''Bearer <redacted>'' @ redact_bearer r
      | None \<Rightarrow> c # redact_bearer s)"
  by pat_completeness auto
termination by (relation "measure length") (auto dest: bearer_shorter)

definition newline :: char where "newline = CHR 0x0A"

definition redact_text :: "string \<Rightarrow> string" where
  "redact_text input =
     redact_bearer (redact_pairs (join_with [newline] (map redact_line (split_on newline input))))"

subsection \<open>The disk\<close>

text \<open>
  The files by the path the code uses, the directories, the paths whose look-up fails for another
  reason than absence, the directories that can be made, and where a write of a file stops.
\<close>

record report_disk =
  rk_files :: "string \<rightharpoonup> string"
  rk_dirs :: "string \<Rightarrow> bool"
  rk_denied :: "string \<Rightarrow> bool"
  rk_mkdir :: "string \<Rightarrow> bool"
  rk_cut :: "string \<Rightarrow> nat option"

datatype stat_result = Stat_found | Stat_missing | Stat_denied

definition rk_stat :: "report_disk \<Rightarrow> string \<Rightarrow> stat_result" where
  "rk_stat d p =
     (if rk_denied d p then Stat_denied else if rk_files d p \<noteq> None \<or> rk_dirs d p then Stat_found else Stat_missing)"

definition base_element :: "string \<Rightarrow> string" where
  "base_element p =
     (if p = [] then ''.''
      else (case rev (filter (\<lambda>e. e \<noteq> []) (split_on CHR ''/'' p)) of e # _ \<Rightarrow> e | [] \<Rightarrow> ''/''))"

definition write_text :: "string \<Rightarrow> string \<Rightarrow> report_disk \<Rightarrow> bool \<times> report_disk" where
  "write_text path content d =
     (case rk_cut d path of
        None \<Rightarrow> (True, d\<lparr>rk_files := (rk_files d)(path \<mapsto> content)\<rparr>)
      | Some n \<Rightarrow> (False, d\<lparr>rk_files := (rk_files d)(path \<mapsto> take n content)\<rparr>))"

text \<open>
  \<^verbatim>\<open>storage.WriteJSONAtomic\<close>: whole or not at all (theory FileSteps has its calls one by one).
  Its temporary file, a part of the same content, is not kept here.
\<close>

definition write_whole :: "string \<Rightarrow> string \<Rightarrow> report_disk \<Rightarrow> bool \<times> report_disk" where
  "write_whole path content d =
     (if rk_cut d path = None then (True, d\<lparr>rk_files := (rk_files d)(path \<mapsto> content)\<rparr>) else (False, d))"

definition write_redacted_copy :: "string \<Rightarrow> string \<Rightarrow> string \<Rightarrow> report_disk \<Rightarrow> string option \<times> report_disk" where
  "write_redacted_copy dir name source d =
     (case rk_files d source of
        None \<Rightarrow> (None, d)
      | Some raw \<Rightarrow>
          let path = join_paths [dir, name]
          in (case write_text path (redact_text raw) d of (True, d') \<Rightarrow> (Some path, d') | (False, d') \<Rightarrow> (None, d')))"

subsection \<open>The bundle\<close>

record bundle_options =
  bo_dir :: string
  bo_config :: string
  bo_alerts :: string
  bo_health :: string
  bo_now :: string

record bundle_summary =
  bs_generated :: string
  bs_mode :: string
  bs_plan :: string
  bs_kind :: string
  bs_redaction :: bool
  bs_security :: bool
  bs_telemetry :: bool
  bs_files :: "string list"

text \<open>
  One of the copies: where the path is given and, except for the configuration, the file is there.
  The result is None after an error.
\<close>

definition bundle_copy :: "bool \<Rightarrow> string \<Rightarrow> string \<Rightarrow> string \<Rightarrow> string list option \<times> report_disk \<Rightarrow> string list option \<times> report_disk" where
  "bundle_copy needs_stat dir name source = (\<lambda>(files, d).
     (case files of
        None \<Rightarrow> (None, d)
      | Some fs \<Rightarrow>
          if source = [] \<or> (needs_stat \<and> rk_stat d source \<noteq> Stat_found) then (Some fs, d)
          else (case write_redacted_copy dir name source d of
                  (None, d') \<Rightarrow> (None, d')
                | (Some path, d') \<Rightarrow> (Some (fs @ [path]), d'))))"

definition bundle_summary_of :: "runtime_config \<Rightarrow> string \<Rightarrow> string list \<Rightarrow> bundle_summary" where
  "bundle_summary_of rt now files =
     \<lparr>bs_generated = now, bs_mode = rtc_mode rt, bs_plan = rtc_plan rt, bs_kind = kind_text (rtc_kind rt), bs_redaction = True,
      bs_security = rse_enabled (rtc_security rt), bs_telemetry = rte_enabled (rtc_telemetry rt), bs_files = files\<rparr>"

definition build_bundle :: "(bundle_summary \<Rightarrow> string) \<Rightarrow> runtime_config \<Rightarrow> bundle_options \<Rightarrow> report_disk \<Rightarrow>
    string list option \<times> report_disk" where
  "build_bundle enc rt opts d =
     (if trim_space (bo_dir opts) = [] \<or> \<not> rk_mkdir d (bo_dir opts) then (None, d)
      else
        let dir = bo_dir opts; path = join_paths [dir, ''summary.json'']
        in case write_whole path (enc (bundle_summary_of rt (bo_now opts) [])) d of
             (False, d1) \<Rightarrow> (None, d1)
           | (True, d1) \<Rightarrow>
               (case bundle_copy True dir ''health-report.json'' (bo_health opts)
                       (bundle_copy True dir ''runtime-alerts.jsonl'' (bo_alerts opts)
                          (bundle_copy False dir ''config-redacted.yaml'' (bo_config opts) (Some [path], d1))) of
                  (None, d2) \<Rightarrow> (None, d2)
                | (Some files, d2) \<Rightarrow>
                    (case write_whole path (enc (bundle_summary_of rt (bo_now opts) (map base_element files))) d2 of
                       (False, d3) \<Rightarrow> (None, d3)
                     | (True, d3) \<Rightarrow> (Some files, d3))))"

subsection \<open>The export to the provider\<close>

record export_options =
  eo_dir :: string
  eo_server :: string
  eo_health :: string
  eo_alerts :: string
  eo_bundle :: string
  eo_incident :: string
  eo_stamp :: string
  eo_now :: string

fun first_trimmed :: "string list \<Rightarrow> string" where
  "first_trimmed [] = []"
| "first_trimmed (v # vs) = (if trim_space v \<noteq> [] then trim_space v else first_trimmed vs)"

definition export_items :: "export_options \<Rightarrow> (string \<times> string) list" where
  "export_items ex =
     [(''health-report.json'', eo_health ex), (''runtime-alerts.jsonl'', eo_alerts ex)] @
     (if trim_space (eo_bundle ex) \<noteq> [] then [(''support-summary.json'', join_paths [eo_bundle ex, ''summary.json''])] else []) @
     (if trim_space (eo_incident ex) \<noteq> []
      then [(''incident-report.json'', join_paths [eo_incident ex, ''incident-report.json'']),
            (''incident-report.md'', join_paths [eo_incident ex, ''incident-report.md''])] else [])"

fun export_loop :: "string \<Rightarrow> (string \<times> string) list \<Rightarrow> string list \<Rightarrow> report_disk \<Rightarrow> string list option \<times> report_disk" where
  "export_loop dir [] fs d = (Some fs, d)"
| "export_loop dir ((name, path) # rest) fs d =
     (if trim_space path = [] \<or> rk_stat d path = Stat_missing then export_loop dir rest fs d
      else if rk_stat d path = Stat_denied then (None, d)
      else (case write_redacted_copy dir name path d of
              (None, d') \<Rightarrow> (None, d')
            | (Some out, d') \<Rightarrow> export_loop dir rest (fs @ [out]) d'))"

definition export_provider_inbox :: "(string \<times> string \<times> string list \<Rightarrow> string) \<Rightarrow> export_options \<Rightarrow> report_disk \<Rightarrow>
    string list option \<times> report_disk" where
  "export_provider_inbox enc ex d =
     (if trim_space (eo_dir ex) = [] then (None, d)
      else
        let server = first_trimmed [eo_server ex, ''unknown-server'']; dir = join_paths [eo_dir ex, server, eo_stamp ex]
        in if \<not> rk_mkdir d dir then (None, d)
           else (case export_loop dir (export_items ex) [] d of
                   (None, d1) \<Rightarrow> (None, d1)
                 | (Some files, d1) \<Rightarrow>
                     let path = join_paths [dir, ''provider-inbox-index.json'']
                     in (case write_whole path (enc (eo_now ex, server, map base_element files)) d1 of
                           (False, d2) \<Rightarrow> (None, d2)
                         | (True, d2) \<Rightarrow> (Some (path # files), d2))))"

subsection \<open>Incidents\<close>

definition id_char :: "char \<Rightarrow> bool" where
  "id_char c \<longleftrightarrow> (97 \<le> (of_char (lower_char c) :: nat) \<and> (of_char (lower_char c) :: nat) \<le> 122) \<or> is_digit_char c \<or> c \<in> set ''_.-''"

text \<open>\<open>[^a-zA-Z0-9_.-]+\<close> replaced by an underscore.\<close>

function sanitize_id :: "string \<Rightarrow> string" where
  "sanitize_id [] = []"
| "sanitize_id (c # s) = (if id_char c then c # sanitize_id s else CHR ''_'' # sanitize_id (dropWhile (\<lambda>x. \<not> id_char x) s))"
  by pat_completeness auto
termination by (relation "measure length") (auto simp: less_Suc_eq_le length_dropWhile_le)

record incident_options =
  no_dir :: string
  no_config :: string
  no_id :: string
  no_type :: string
  no_severity :: string
  no_status :: string
  no_summary :: string
  no_started :: "string option"
  no_detected :: "string option"
  no_bundle :: string
  no_health :: string
  no_alerts :: string
  no_stamp :: string
  no_now :: string

record incident_report =
  nr_id :: string
  nr_generated :: string
  nr_version :: string
  nr_type :: string
  nr_severity :: string
  nr_status :: string
  nr_summary :: string
  nr_started :: string
  nr_detected :: string
  nr_mode :: string
  nr_plan :: string
  nr_kind :: string
  nr_bundle :: string
  nr_evidence :: "string list"
  nr_checklist :: "(string \<times> string) list"

definition incident_steps :: "string \<Rightarrow> string list" where
  "incident_steps raw =
     (let t = trim_space raw
      in if t = ''attack'' then
           [''preserve support bundle and current health report'', ''confirm admin access path before any firewall apply'',
            ''review governor level, WAF/bot decisions, firewall snapshot, and Cloudflare origin lock'',
            ''record mitigation actions and cooldown time'', ''do not run public attack traffic tests'']
         else if t = ''lost_ssh'' then
           [''use VPS/provider console or rescue access'', ''check pending firewall rollback state'',
            ''run firewall rollback or restore last-good config'', ''verify admin CIDR and SSH port before re-apply'',
            ''capture root cause before closing incident'']
         else if t = ''update_failed'' then
           [''do not confirm pending update'', ''run update rollback while pending state exists'',
            ''verify manifest signature, artifact checksum, and release metadata'',
            ''collect health report and support bundle after rollback'', ''publish corrected release or hold channel manifest'']
         else if t = ''origin_ip_leaked'' then
           [''confirm DNS records are proxied through Cloudflare'', ''enable or verify Cloudflare origin lock rules'',
            ''block direct origin HTTP/HTTPS where required'', ''rotate origin IP if exposure risk remains'',
            ''record leak source and customer-facing impact'']
         else if t = ''license_rebind'' then
           [''collect new machine fingerprint hash'', ''verify current license status and rebind quota'',
            ''run provider rebind workflow with reason'', ''export only license.json and provider public key to agent'',
            ''verify license locally on protected server'']
         else if t = ''runtime_security'' then
           [''preserve runtime alerts and file integrity snapshots'', ''isolate affected web application process if needed'',
            ''compare current files with baseline'', ''rotate application secrets outside support bundle'',
            ''document containment and recovery steps'']
         else [''collect support bundle'', ''collect health report'', ''record timeline'', ''document mitigation and rollback actions''])"

definition incident_evidence :: "incident_options \<Rightarrow> report_disk \<Rightarrow> string list" where
  "incident_evidence ino d =
     filter (\<lambda>p. p \<noteq> [] \<and> rk_stat d p = Stat_found) (map trim_space [no_config ino, no_health ino, no_alerts ino]) @
     (if no_bundle ino \<noteq> [] \<and> rk_stat d (join_paths [no_bundle ino, ''summary.json'']) = Stat_found
      then [join_paths [no_bundle ino, ''summary.json'']] else [])"

definition lines_text :: "string list \<Rightarrow> string" where
  "lines_text ls = concat (map (\<lambda>l. l @ [newline]) ls)"

definition render_incident :: "incident_report \<Rightarrow> string" where
  "render_incident r = lines_text (
     [''# Incident Report'', [], ''- Incident ID: '' @ nr_id r, ''- Generated At: '' @ nr_generated r, ''- Version: '' @ nr_version r,
      ''- Type: '' @ nr_type r, ''- Severity: '' @ nr_severity r, ''- Status: '' @ nr_status r, ''- Mode: '' @ nr_mode r,
      ''- Plan: '' @ nr_plan r] @
     (if nr_started r \<noteq> [] then [''- Started At: '' @ nr_started r] else []) @
     (if nr_detected r \<noteq> [] then [''- Detected At: '' @ nr_detected r] else []) @
     [[], ''## Summary'', [], redact_text (nr_summary r), [], ''## Evidence'', []] @
     (if nr_bundle r \<noteq> [] then [''- Support bundle: '' @ nr_bundle r] else []) @
     map (\<lambda>f. ''- '' @ f) (nr_evidence r) @
     [[], ''## Checklist'', []] @ map (\<lambda>(step, status). ''- ['' @ status @ ''] '' @ step) (nr_checklist r) @
     [[], ''## Timeline'', [], ''- Add operator timeline here.''])"

definition incident_report_of :: "runtime_config \<Rightarrow> incident_options \<Rightarrow> report_disk \<Rightarrow> string \<Rightarrow> string \<Rightarrow> incident_report" where
  "incident_report_of rt ino d kind ident =
     \<lparr>nr_id = ident, nr_generated = no_now ino, nr_version = build_version, nr_type = kind,
      nr_severity = first_trimmed [no_severity ino, ''medium''], nr_status = first_trimmed [no_status ino, ''open''],
      nr_summary = first_trimmed [no_summary ino, ''incident summary pending''],
      nr_started = (case no_started ino of None \<Rightarrow> [] | Some t \<Rightarrow> t),
      nr_detected = (case no_detected ino of None \<Rightarrow> [] | Some t \<Rightarrow> t),
      nr_mode = rtc_mode rt, nr_plan = rtc_plan rt, nr_kind = kind_text (rtc_kind rt),
      nr_bundle = trim_space (no_bundle ino), nr_evidence = incident_evidence ino d,
      nr_checklist = map (\<lambda>s. (s, '' '')) (incident_steps kind)\<rparr>"

definition build_incident_report :: "(incident_report \<Rightarrow> string) \<Rightarrow> runtime_config \<Rightarrow> incident_options \<Rightarrow> report_disk \<Rightarrow>
    incident_report option \<times> report_disk" where
  "build_incident_report enc rt ino d =
     (if trim_space (no_dir ino) = [] then (None, d)
      else
        let kind = first_trimmed [no_type ino, ''other''];
            ident = first_trimmed [no_id ino, sanitize_id (''inc_'' @ no_stamp ino @ ''_'' @ kind)];
            dir = join_paths [no_dir ino, ident]
        in if \<not> rk_mkdir d dir then (None, d)
           else
             let r = incident_report_of rt ino d kind ident
             in case write_whole (join_paths [dir, ''incident-report.json'']) (enc r) d of
                  (False, d1) \<Rightarrow> (None, d1)
                | (True, d1) \<Rightarrow>
                    (case write_text (join_paths [dir, ''incident-report.md'']) (render_incident r) d1 of
                       (False, d2) \<Rightarrow> (None, d2)
                     | (True, d2) \<Rightarrow> (Some r, d2)))"

subsection \<open>What is read does not show\<close>

text \<open>Two lines that differ in a secret only; two texts and two disks that differ in such lines.\<close>

definition same_line :: "string \<Rightarrow> string \<Rightarrow> bool" where
  "same_line a b \<longleftrightarrow> a = b \<or> (secret_line a \<and> secret_line b \<and> leading_whitespace a = leading_whitespace b)"

definition same_text :: "string \<Rightarrow> string \<Rightarrow> bool" where
  "same_text a b \<longleftrightarrow> list_all2 same_line (split_on newline a) (split_on newline b)"

definition same_disk :: "report_disk \<Rightarrow> report_disk \<Rightarrow> bool" where
  "same_disk d e \<longleftrightarrow>
     rk_dirs d = rk_dirs e \<and> rk_denied d = rk_denied e \<and> rk_mkdir d = rk_mkdir e \<and> rk_cut d = rk_cut e \<and>
     (\<forall>p. rel_option same_text (rk_files d p) (rk_files e p))"

lemma same_line_refl [simp]: "same_line a a"
  by (simp add: same_line_def)

lemma same_text_refl [simp]: "same_text a a"
  by (simp add: same_text_def list_all2_refl)

lemma redact_line_same: "same_line a b \<Longrightarrow> redact_line a = redact_line b"
  by (auto simp: same_line_def redact_line_def)

lemma redact_text_same: "same_text a b \<Longrightarrow> redact_text a = redact_text b"
proof -
  assume "same_text a b"
  then have "map redact_line (split_on newline a) = map redact_line (split_on newline b)"
    unfolding same_text_def by (induction rule: list_all2_induct) (simp_all add: redact_line_same)
  then show ?thesis by (simp add: redact_text_def)
qed

lemma same_disk_stat: "same_disk d e \<Longrightarrow> rk_stat d p = rk_stat e p"
proof -
  assume same: "same_disk d e"
  then have "rel_option same_text (rk_files d p) (rk_files e p)" by (simp add: same_disk_def)
  then have "(rk_files d p = None) = (rk_files e p = None)" by (cases "rk_files d p"; cases "rk_files e p") simp_all
  with same show ?thesis by (simp add: rk_stat_def same_disk_def)
qed

lemma same_disk_put: "same_disk d e \<Longrightarrow> same_disk (d\<lparr>rk_files := (rk_files d)(p \<mapsto> t)\<rparr>) (e\<lparr>rk_files := (rk_files e)(p \<mapsto> t)\<rparr>)"
  by (simp add: same_disk_def)

text \<open>A list of files both disks agree on.\<close>

definition agree :: "string list \<Rightarrow> report_disk \<Rightarrow> report_disk \<Rightarrow> bool" where
  "agree fs d e \<longleftrightarrow> (\<forall>p\<in>set fs. rk_files d p = rk_files e p)"

lemma agree_put: "agree fs d e \<Longrightarrow> agree (fs @ [p]) (d\<lparr>rk_files := (rk_files d)(p \<mapsto> t)\<rparr>) (e\<lparr>rk_files := (rk_files e)(p \<mapsto> t)\<rparr>)"
  by (simp add: agree_def)

lemma agree_put_in: "agree fs d e \<Longrightarrow> agree fs (d\<lparr>rk_files := (rk_files d)(p \<mapsto> t)\<rparr>) (e\<lparr>rk_files := (rk_files e)(p \<mapsto> t)\<rparr>)"
  by (simp add: agree_def)

text \<open>Since two disks \<open>a\<close> and \<open>b\<close>, only files with equal contents were written.\<close>

definition wrote_same :: "report_disk \<Rightarrow> report_disk \<Rightarrow> report_disk \<Rightarrow> report_disk \<Rightarrow> bool" where
  "wrote_same a b d e \<longleftrightarrow> (\<forall>p. rk_files d p = rk_files e p \<or> rk_files d p = rk_files a p \<and> rk_files e p = rk_files b p)"

lemma wrote_same_start: "wrote_same d e d e"
  by (simp add: wrote_same_def)

lemma wrote_same_put:
  "wrote_same a0 b0 d e \<Longrightarrow> wrote_same a0 b0 (d\<lparr>rk_files := (rk_files d)(p \<mapsto> t)\<rparr>) (e\<lparr>rk_files := (rk_files e)(p \<mapsto> t)\<rparr>)"
  by (auto simp: wrote_same_def)

text \<open>Two outcomes that agree in the result, in what was written, and in the files it names.\<close>

definition same_outcome :: "report_disk \<Rightarrow> report_disk \<Rightarrow> string list option \<times> report_disk \<Rightarrow>
    string list option \<times> report_disk \<Rightarrow> bool" where
  "same_outcome a0 b0 a b \<longleftrightarrow> fst a = fst b \<and> same_disk (snd a) (snd b) \<and> wrote_same a0 b0 (snd a) (snd b) \<and>
     (\<forall>fs. fst a = Some fs \<longrightarrow> agree fs (snd a) (snd b))"

lemma copy_same:
  assumes "same_disk d e"
  shows "fst (write_redacted_copy dir name src d) = fst (write_redacted_copy dir name src e) \<and>
    same_disk (snd (write_redacted_copy dir name src d)) (snd (write_redacted_copy dir name src e)) \<and>
    (\<forall>a0 b0. wrote_same a0 b0 d e \<longrightarrow>
      wrote_same a0 b0 (snd (write_redacted_copy dir name src d)) (snd (write_redacted_copy dir name src e))) \<and>
    (\<forall>path fs. fst (write_redacted_copy dir name src d) = Some path \<longrightarrow> agree fs d e \<longrightarrow>
      agree (fs @ [path]) (snd (write_redacted_copy dir name src d)) (snd (write_redacted_copy dir name src e)))"
proof -
  have rel: "rel_option same_text (rk_files d src) (rk_files e src)" and cut: "rk_cut e = rk_cut d"
    using assms by (simp_all add: same_disk_def)
  show ?thesis
  proof (cases "rk_files d src")
    case None
    with rel have "rk_files e src = None" by (cases "rk_files e src") simp_all
    with None assms show ?thesis by (simp add: write_redacted_copy_def)
  next
    case (Some raw)
    with rel obtain raw' where raw': "rk_files e src = Some raw'" "redact_text raw' = redact_text raw"
      by (cases "rk_files e src") (auto dest: redact_text_same)
    show ?thesis
      by (cases "rk_cut d (join_paths [dir, name])")
        (simp_all add: write_redacted_copy_def Some raw' write_text_def cut Let_def same_disk_put [OF assms] agree_put wrote_same_put)
  qed
qed

lemma bundle_copy_same:
  assumes "same_outcome a0 b0 a b"
  shows "same_outcome a0 b0 (bundle_copy q dir name src a) (bundle_copy q dir name src b)"
proof -
  obtain files d where a: "a = (files, d)" by (cases a)
  with assms obtain e where b: "b = (files, e)" and same: "same_disk d e" and wrote: "wrote_same a0 b0 d e"
      and agr: "\<And>fs. files = Some fs \<Longrightarrow> agree fs d e"
    by (cases b) (simp add: same_outcome_def)
  have copy: "fst (write_redacted_copy dir name src d) = fst (write_redacted_copy dir name src e)"
    "same_disk (snd (write_redacted_copy dir name src d)) (snd (write_redacted_copy dir name src e))"
    "wrote_same a0 b0 (snd (write_redacted_copy dir name src d)) (snd (write_redacted_copy dir name src e))"
    "\<And>path fs. fst (write_redacted_copy dir name src d) = Some path \<Longrightarrow> agree fs d e \<Longrightarrow>
      agree (fs @ [path]) (snd (write_redacted_copy dir name src d)) (snd (write_redacted_copy dir name src e))"
    using copy_same [OF same] wrote by blast+
  show ?thesis
  proof (cases files)
    case None
    then show ?thesis using same wrote by (simp add: a b bundle_copy_def same_outcome_def)
  next
    case (Some fs)
    note agr = agr [OF Some]
    show ?thesis
    proof (cases "src = [] \<or> (q \<and> rk_stat e src \<noteq> Stat_found)")
      case True
      then show ?thesis using same wrote agr by (auto simp: a b Some bundle_copy_def same_outcome_def same_disk_stat [OF same])
    next
      case False
      obtain r d' where d': "write_redacted_copy dir name src d = (r, d')" by (cases "write_redacted_copy dir name src d")
      obtain e' where e': "write_redacted_copy dir name src e = (r, e')"
        using copy(1) d' by (cases "write_redacted_copy dir name src e") simp
      show ?thesis
      proof (cases r)
        case None
        then show ?thesis using False copy(2,3) by (auto simp: a b Some bundle_copy_def same_outcome_def same_disk_stat [OF same] d' e')
      next
        case (Some path)
        have "agree (fs @ [path]) d' e'" using copy(4) [of path fs] agr Some d' e' by simp
        then show ?thesis using False copy(2,3)
          by (auto simp: a b Some \<open>files = Some fs\<close> bundle_copy_def same_outcome_def same_disk_stat [OF same] d' e')
      qed
    qed
  qed
qed

lemma whole_same:
  assumes "same_disk d e"
  shows "fst (write_whole path content d) = fst (write_whole path content e) \<and>
    same_disk (snd (write_whole path content d)) (snd (write_whole path content e)) \<and>
    (\<forall>a0 b0. wrote_same a0 b0 d e \<longrightarrow> wrote_same a0 b0 (snd (write_whole path content d)) (snd (write_whole path content e))) \<and>
    (\<forall>fs. agree fs d e \<longrightarrow> agree fs (snd (write_whole path content d)) (snd (write_whole path content e))) \<and>
    (\<forall>fs. fst (write_whole path content d) \<longrightarrow> agree fs d e \<longrightarrow>
       agree (path # fs) (snd (write_whole path content d)) (snd (write_whole path content e)))"
proof -
  have cut: "rk_cut e = rk_cut d" using assms by (simp add: same_disk_def)
  show ?thesis
    by (cases "rk_cut d path") (simp_all add: write_whole_def cut same_disk_put [OF assms] assms agree_def wrote_same_put)
qed

lemma build_bundle_same:
  assumes same: "same_disk d e"
  shows "same_outcome d e (build_bundle enc rt opts d) (build_bundle enc rt opts e)"
proof (cases "trim_space (bo_dir opts) = [] \<or> \<not> rk_mkdir d (bo_dir opts)")
  case True
  moreover have "rk_mkdir e = rk_mkdir d" using same by (simp add: same_disk_def)
  ultimately show ?thesis using same by (auto simp: build_bundle_def same_outcome_def wrote_same_start)
next
  case False
  have mk: "rk_mkdir e = rk_mkdir d" using same by (simp add: same_disk_def)
  define path where "path = join_paths [bo_dir opts, ''summary.json'']"
  define copies where "copies = (\<lambda>s. bundle_copy True (bo_dir opts) ''health-report.json'' (bo_health opts)
     (bundle_copy True (bo_dir opts) ''runtime-alerts.jsonl'' (bo_alerts opts)
        (bundle_copy False (bo_dir opts) ''config-redacted.yaml'' (bo_config opts) s)))"
  define fin where "fin = (\<lambda>(files, d2). case files of None \<Rightarrow> (None, d2)
     | Some files \<Rightarrow> (case write_whole path (enc (bundle_summary_of rt (bo_now opts) (map base_element files))) d2 of
                       (False, d3) \<Rightarrow> (None, d3) | (True, d3) \<Rightarrow> (Some files, d3)))"
  have unfolded: "build_bundle enc rt opts x =
      (case write_whole path (enc (bundle_summary_of rt (bo_now opts) [])) x of
         (False, d1) \<Rightarrow> (None, d1) | (True, d1) \<Rightarrow> fin (copies (Some [path], d1)))" if "rk_mkdir x = rk_mkdir d" for x
    using False that unfolding build_bundle_def path_def copies_def fin_def Let_def by simp
  have fin: "same_outcome a0 b0 (fin a) (fin b)" if outcome: "same_outcome a0 b0 a b" for a0 b0 a b
  proof -
    obtain files x where a: "a = (files, x)" by (cases a)
    with outcome obtain y where b: "b = (files, y)" and xy: "same_disk x y" and wrote: "wrote_same a0 b0 x y"
        and agr: "\<And>fs. files = Some fs \<Longrightarrow> agree fs x y"
      by (cases b) (simp add: same_outcome_def)
    show ?thesis
    proof (cases files)
      case None
      then show ?thesis using xy wrote by (simp add: a b fin_def same_outcome_def)
    next
      case (Some fs)
      show ?thesis
        using whole_same [OF xy, of path "enc (bundle_summary_of rt (bo_now opts) (map base_element fs))"] agr [OF Some] wrote
        by (auto simp: a b fin_def Some same_outcome_def split: prod.splits bool.splits)
    qed
  qed
  have copies: "same_outcome a0 b0 (copies a) (copies b)" if "same_outcome a0 b0 a b" for a0 b0 a b
    unfolding copies_def by (intro bundle_copy_same that)
  obtain w x where x: "write_whole path (enc (bundle_summary_of rt (bo_now opts) [])) d = (w, x)" by fastforce
  obtain v y where y: "write_whole path (enc (bundle_summary_of rt (bo_now opts) [])) e = (v, y)" by fastforce
  have whole: "v = w" "same_disk x y" "wrote_same d e x y" "w \<Longrightarrow> agree [path] x y"
    using whole_same [OF same, of path "enc (bundle_summary_of rt (bo_now opts) [])"] x y
    by (auto simp: agree_def wrote_same_start dest: spec [of _ "[]"])
  show ?thesis
  proof (cases w)
    case True
    then have "same_outcome d e (Some [path], x) (Some [path], y)" using whole by (simp add: same_outcome_def)
    then show ?thesis using True by (simp add: unfolded [OF mk] unfolded [OF refl] x y whole(1) fin copies)
  next
    case False
    then show ?thesis by (simp add: unfolded [OF mk] unfolded [OF refl] x y whole same_outcome_def)
  qed
qed

text \<open>A write, and a copy, concern their own paths.\<close>

lemma copy_elsewhere:
  "p \<noteq> join_paths [dir, name] \<Longrightarrow> rk_files (snd (write_redacted_copy dir name src d)) p = rk_files d p"
  by (simp add: write_redacted_copy_def write_text_def Let_def split: option.splits prod.splits)

lemma bundle_copy_elsewhere:
  "p \<noteq> join_paths [dir, name] \<Longrightarrow> rk_files (snd (bundle_copy q dir name src a)) p = rk_files (snd a) p"
  using copy_elsewhere [of p dir name src "snd a"]
  by (cases a) (auto simp: bundle_copy_def split: option.splits prod.splits)

text \<open>
  C28. The support bundle is the same whatever the secrets are. Where two disks differ in the secret
  lines of their files only (lines whose text before the first colon has one of the nine words,
  with the same indentation), the bundle is made or fails in the same way on both and names the same
  files; and, whether it was made or a write stopped in the middle, every file has equal contents on
  both disks afterwards or was left as it was on both, and the named files are equal: nothing of a
  secret on such a line, not even its length, is written.
\<close>

theorem bundle_hides_secrets:
  assumes "same_disk d e" "build_bundle enc rt opts d = (result, d')" "build_bundle enc rt opts e = (result', e')"
  shows "result' = result \<and>
    (\<forall>p. rk_files d' p = rk_files e' p \<or> rk_files d' p = rk_files d p \<and> rk_files e' p = rk_files e p) \<and>
    (\<forall>fs p. result = Some fs \<longrightarrow> p \<in> set fs \<longrightarrow> rk_files d' p = rk_files e' p)"
  using build_bundle_same [OF assms(1), of enc rt opts] assms(2,3)
  by (simp add: same_outcome_def agree_def wrote_same_def)

definition demo_disk :: "string \<Rightarrow> report_disk" where
  "demo_disk config = \<lparr>rk_files = [''c'' \<mapsto> config], rk_dirs = (\<lambda>_. False), rk_denied = (\<lambda>_. False),
     rk_mkdir = (\<lambda>_. True), rk_cut = (\<lambda>_. None)\<rparr>"

definition demo_bundle :: "runtime_config \<Rightarrow> report_disk \<Rightarrow> string list option \<times> report_disk" where
  "demo_bundle rt = build_bundle (\<lambda>b. bs_generated b) rt \<lparr>bo_dir = ''out'', bo_config = ''c'', bo_alerts = [], bo_health = [], bo_now = ''t''\<rparr>"

lemma demo_same: "same_disk (demo_disk (''api_token: aaa'' @ [newline] @ ''x: 1'')) (demo_disk (''api_token: b'' @ [newline] @ ''x: 1''))"
proof -
  have "same_text (''api_token: aaa'' @ [newline] @ ''x: 1'') (''api_token: b'' @ [newline] @ ''x: 1'')" by code_simp
  then show ?thesis by (simp add: same_disk_def demo_disk_def)
qed

theorem bundle_hides_secrets_witness:
  "\<forall>rt. fst (demo_bundle rt (demo_disk (''api_token: b'' @ [newline] @ ''x: 1''))) =
     fst (demo_bundle rt (demo_disk (''api_token: aaa'' @ [newline] @ ''x: 1'')))"
proof
  fix rt
  show "fst (demo_bundle rt (demo_disk (''api_token: b'' @ [newline] @ ''x: 1''))) =
     fst (demo_bundle rt (demo_disk (''api_token: aaa'' @ [newline] @ ''x: 1'')))"
    using bundle_hides_secrets [OF demo_same, of "\<lambda>b. bs_generated b" rt
      "\<lparr>bo_dir = ''out'', bo_config = ''c'', bo_alerts = [], bo_health = [], bo_now = ''t''\<rparr>"]
    by (metis demo_bundle_def prod.collapse)
qed

text \<open>What the line rule misses: the value of a block on the lines that follow, and a quotation mark in a value.\<close>

lemma block_value_shows:
  "redact_text (''password: |'' @ [newline] @ ''  hunter2'') = ''redacted_secret: <redacted>'' @ [newline] @ ''  hunter2''"
  by code_simp

lemma escaped_quote_shows:
  "redact_pairs ([double_quote] @ ''token'' @ [double_quote] @ '':'' @ [double_quote] @ ''a'' @ [CHR 0x5C, double_quote] @ ''rest'' @ [double_quote]) =
     redacted_pair @ ''rest'' @ [double_quote]"
  by code_simp

text \<open>A text value of a secret key is replaced whatever it is, as long as it has no quotation mark.\<close>

lemma quoted_text: "double_quote \<notin> set v \<Longrightarrow> quoted (double_quote # v @ double_quote # r) = Some (v, r)"
  by (simp add: quoted_def takeWhile_append2 dropWhile_append2 takeWhile_append dropWhile_append)

lemma pair_value_hidden:
  assumes "double_quote \<notin> set k" "secret_key k" "double_quote \<notin> set v"
  shows "redact_pairs (double_quote # k @ double_quote # CHR '':'' # double_quote # v @ double_quote # r) = redacted_pair @ redact_pairs r"
proof -
  have head: "skip_space (CHR '':'' # x) = CHR '':'' # x" "skip_space (double_quote # x) = double_quote # x" for x
    by (simp_all add: skip_space_def regex_space_def double_quote_def)
  have "secret_pair (double_quote # k @ double_quote # CHR '':'' # double_quote # v @ double_quote # r) = Some r"
    using assms by (simp add: secret_pair_def quoted_text head json_scalar_def)
  then show ?thesis by simp
qed

text \<open>The incident's summary: redacted in the Markdown report, as it is in the JSON report.\<close>

lemma incident_json_keeps_summary:
  "trim_space (no_summary ino) \<noteq> [] \<Longrightarrow> nr_summary (incident_report_of rt ino d kind ident) = trim_space (no_summary ino)"
  by (simp add: incident_report_of_def)

text \<open>A name of dots passes the replacement, so that a report can land beside the directory of incidents.\<close>

lemma parent_id_kept: "sanitize_id ''..'' = ''..''"
  by code_simp

end
