(* ===== verification/Pilot.thy ===== *)
theory Pilot
  imports Support
begin

text \<open>
  The go/no-go report of a pilot, \<^verbatim>\<open>internal/shared/pilot/report.go\<close>: the evidence, the checks, the
  decision and the two files. The disk is the one of the support bundle; the rounding of float64, the
  rendering of times and the JSON encoding are arguments.
\<close>

record pilot_options =
  po_dir :: string
  po_config :: string
  po_id :: string
  po_servers :: int
  po_started :: "gotime option"
  po_ended :: "gotime option"
  po_health :: string
  po_benchmark :: string
  po_benchmark_evidence :: string
  po_incident :: string
  po_update :: string
  po_revocation :: string
  po_proxy :: string

record evidence_item =
  ev_name :: string
  ev_status :: string
  ev_path :: string
  ev_detail :: string

record checklist_item =
  ci_name :: string
  ci_status :: string
  ci_detail :: string

record pilot_report =
  pr_id :: string
  pr_generated :: string
  pr_version :: string
  pr_mode :: string
  pr_plan :: string
  pr_kind :: string
  pr_servers :: int
  pr_started :: string
  pr_ended :: string
  pr_days :: int
  pr_decision :: string
  pr_evidence :: "evidence_item list"
  pr_checklist :: "checklist_item list"
  pr_blockers :: "string list"
  pr_notes :: "string list"

subsection \<open>Evidence and checks\<close>

definition evidence_of :: "bool \<Rightarrow> report_disk \<Rightarrow> string \<Rightarrow> string \<Rightarrow> string \<Rightarrow> evidence_item" where
  "evidence_of wants_dir d name path detail =
     (let p = trim_space path
      in \<lparr>ev_name = name,
          ev_status = (if p \<noteq> [] \<and> rk_stat d p = Stat_found \<and> rk_dirs d p = wants_dir then ''present'' else ''missing''),
          ev_path = p, ev_detail = detail\<rparr>)"

definition file_evidence :: "report_disk \<Rightarrow> string \<Rightarrow> string \<Rightarrow> string \<Rightarrow> evidence_item" where
  "file_evidence = evidence_of False"

definition dir_evidence :: "report_disk \<Rightarrow> string \<Rightarrow> string \<Rightarrow> string \<Rightarrow> evidence_item" where
  "dir_evidence = evidence_of True"

text \<open>
  \<^verbatim>\<open>endedAt.Sub(startedAt).Hours() / 24\<close> truncated: the whole hours plus the rest, each operation
  rounded.
\<close>

definition duration_days :: "(rat \<Rightarrow> rat) \<Rightarrow> duration \<Rightarrow> int" where
  "duration_days rnd d =
     (let hour = 3600 * nanos
      in \<lfloor>rnd (rnd (rnd (of_int (d div hour)) + rnd (rnd (of_int (d mod hour)) / of_int hour)) / 24)\<rfloor>)"

definition pilot_duration_days :: "(rat \<Rightarrow> rat) \<Rightarrow> gotime option \<Rightarrow> gotime \<Rightarrow> int" where
  "pilot_duration_days rnd started ended =
     (case started of None \<Rightarrow> 0
      | Some s \<Rightarrow> if time_before ended s then 0 else duration_days rnd (time_sub ended s))"

definition pass_fail :: "bool \<Rightarrow> string" where
  "pass_fail ok = (if ok then ''pass'' else ''fail'')"

fun evidence_status :: "evidence_item list \<Rightarrow> string \<Rightarrow> string" where
  "evidence_status [] name = ''fail''"
| "evidence_status (e # es) name =
     (if ev_name e = name then (if ev_status e = ''present'' then ''pass'' else ''fail'') else evidence_status es name)"

definition report_blockers :: "evidence_item list \<Rightarrow> checklist_item list \<Rightarrow> string list" where
  "report_blockers evidence checks =
     map (\<lambda>e. ''missing evidence: '' @ ev_name e) (filter (\<lambda>e. ev_status e \<noteq> ''present'') evidence) @
     map (\<lambda>c. ''failed check: '' @ ci_name c) (filter (\<lambda>c. ci_status c \<noteq> ''pass'') checks)"

definition pilot_evidence :: "pilot_options \<Rightarrow> report_disk \<Rightarrow> evidence_item list" where
  "pilot_evidence opts d =
     [file_evidence d ''config'' (po_config opts) ''runtime config used for pilot'',
      file_evidence d ''health_report'' (po_health opts) ''latest protected-server health report'',
      file_evidence d ''benchmark_report'' (po_benchmark opts) ''safe local benchmark report'',
      file_evidence d ''benchmark_evidence'' (po_benchmark_evidence opts) ''benchmark evidence checklist'',
      dir_evidence d ''incident_drill'' (po_incident opts) ''incident report directory from pilot drill'',
      file_evidence d ''update_rollback_drill'' (po_update opts) ''update apply/rollback or confirm evidence'',
      file_evidence d ''revocation_sync_drill'' (po_revocation opts) ''synced signed revocation list'',
      file_evidence d ''proxy_waf_bot_drill'' (po_proxy opts) ''generated proxy/WAF/Bot plan evidence'']"

definition pilot_checks :: "pilot_options \<Rightarrow> int \<Rightarrow> evidence_item list \<Rightarrow> checklist_item list" where
  "pilot_checks opts days evidence =
     [\<lparr>ci_name = ''pilot_server_count'', ci_status = pass_fail (3 \<le> po_servers opts \<and> po_servers opts \<le> 5),
       ci_detail = fmt_int (po_servers opts) @ '' servers; target is 3-5''\<rparr>,
      \<lparr>ci_name = ''pilot_duration'', ci_status = pass_fail (30 \<le> days), ci_detail = fmt_int days @ '' days; target is at least 30''\<rparr>,
      \<lparr>ci_name = ''update_rollback_drill'', ci_status = evidence_status evidence ''update_rollback_drill'',
       ci_detail = ''update path has collected evidence''\<rparr>,
      \<lparr>ci_name = ''incident_drill'', ci_status = evidence_status evidence ''incident_drill'', ci_detail = ''incident report exists''\<rparr>,
      \<lparr>ci_name = ''revocation_drill'', ci_status = evidence_status evidence ''revocation_sync_drill'',
       ci_detail = ''revocation sync evidence exists''\<rparr>,
      \<lparr>ci_name = ''waf_false_positive_drill'', ci_status = evidence_status evidence ''proxy_waf_bot_drill'',
       ci_detail = ''proxy/WAF/Bot evidence exists''\<rparr>]"

definition pilot_payload :: "(rat \<Rightarrow> rat) \<Rightarrow> (gotime \<Rightarrow> string) \<Rightarrow> runtime_config \<Rightarrow> pilot_options \<Rightarrow> gotime \<Rightarrow> string \<Rightarrow> report_disk \<Rightarrow>
    pilot_report" where
  "pilot_payload rnd render rt opts now ident d =
     (let ended = (case po_ended opts of None \<Rightarrow> now | Some t \<Rightarrow> t);
          evidence = pilot_evidence opts d;
          days = pilot_duration_days rnd (po_started opts) ended;
          checks = pilot_checks opts days evidence;
          blockers = report_blockers evidence checks
      in \<lparr>pr_id = ident, pr_generated = render now, pr_version = build_version, pr_mode = rtc_mode rt, pr_plan = rtc_plan rt,
          pr_kind = kind_text (rtc_kind rt), pr_servers = po_servers opts,
          pr_started = (case po_started opts of None \<Rightarrow> [] | Some t \<Rightarrow> render t), pr_ended = render ended,
          pr_days = days, pr_decision = (if blockers \<noteq> [] then ''hold'' else ''go''),
          pr_evidence = evidence, pr_checklist = checks, pr_blockers = blockers,
          pr_notes = [''Decision is evidence-based; missing drill evidence keeps the release candidate on hold.'',
                      ''Public DDoS capacity claims still require isolated benchmark evidence by VPS size.'']\<rparr>)"

subsection \<open>The two files\<close>

definition evidence_line :: "evidence_item \<Rightarrow> string" where
  "evidence_line e =
     ''- ['' @ ev_status e @ ''] '' @ ev_name e @ (if ev_path e \<noteq> [] then '': '' @ ev_path e else []) @
     (if ev_detail e \<noteq> [] then '' - '' @ ev_detail e else [])"

definition render_pilot :: "pilot_report \<Rightarrow> string" where
  "render_pilot r = lines_text (
     [''# Pilot Go/No-Go Report'', [], ''- Pilot ID: '' @ pr_id r, ''- Generated At: '' @ pr_generated r,
      ''- Version: '' @ pr_version r, ''- Mode: '' @ pr_mode r, ''- Plan: '' @ pr_plan r,
      ''- Server Count: '' @ fmt_int (pr_servers r), ''- Duration Days: '' @ fmt_int (pr_days r),
      ''- Decision: '' @ go_upper (pr_decision r), [], ''## Evidence'', []] @
     map evidence_line (pr_evidence r) @ [[], ''## Checklist'', []] @
     map (\<lambda>c. ''- ['' @ ci_status c @ ''] '' @ ci_name c @ '' - '' @ ci_detail c) (pr_checklist r) @
     (if pr_blockers r \<noteq> [] then [[], ''## Blockers'', []] @ map (\<lambda>b. ''- '' @ b) (pr_blockers r) else []))"

text \<open>The report, with the directory; \<open>stamp\<close> is the rendering of the default ID.\<close>

definition build_pilot_report :: "(rat \<Rightarrow> rat) \<Rightarrow> (gotime \<Rightarrow> string) \<Rightarrow> (gotime \<Rightarrow> string) \<Rightarrow> (pilot_report \<Rightarrow> string) \<Rightarrow>
    runtime_config \<Rightarrow> pilot_options \<Rightarrow> gotime \<Rightarrow> report_disk \<Rightarrow> (pilot_report \<times> string) option \<times> report_disk" where
  "build_pilot_report rnd render stamp enc rt opts now d =
     (if trim_space (po_dir opts) = [] then (None, d)
      else
        let given = trim_space (po_id opts);
            ident = sanitize_id (if given = [] then ''pilot_'' @ stamp now else given);
            dir = join_paths [po_dir opts, ident]
        in if \<not> rk_mkdir d dir then (None, d)
           else
             let r = pilot_payload rnd render rt opts now ident d
             in case write_whole (join_paths [dir, ''pilot-go-no-go.json'']) (enc r) d of
                  (False, d1) \<Rightarrow> (None, d1)
                | (True, d1) \<Rightarrow>
                    (case write_text (join_paths [dir, ''pilot-go-no-go.md'']) (render_pilot r) d1 of
                       (False, d2) \<Rightarrow> (None, d2)
                     | (True, d2) \<Rightarrow> (Some (r, dir), d2)))"

subsection \<open>The decision\<close>

lemma present_iff:
  "ev_status (evidence_of wants_dir d name path detail) = ''present'' \<longleftrightarrow>
     trim_space path \<noteq> [] \<and> rk_stat d (trim_space path) = Stat_found \<and> rk_dirs d (trim_space path) = wants_dir"
  by (simp add: evidence_of_def Let_def)

lemma blockers_empty:
  "report_blockers evidence checks = [] \<longleftrightarrow> (\<forall>e\<in>set evidence. ev_status e = ''present'') \<and> (\<forall>c\<in>set checks. ci_status c = ''pass'')"
  by (auto simp: report_blockers_def filter_empty_conv)

lemma evidence_of_name [simp]: "ev_name (evidence_of wants_dir d name path detail) = name"
  by (simp add: evidence_of_def Let_def)

lemma checks_pass:
  "(\<forall>e\<in>set (pilot_evidence opts d). ev_status e = ''present'') \<Longrightarrow>
   (\<forall>c\<in>set (pilot_checks opts days (pilot_evidence opts d)). ci_status c = ''pass'') \<longleftrightarrow>
     3 \<le> po_servers opts \<and> po_servers opts \<le> 5 \<and> 30 \<le> days"
  by (simp add: pilot_checks_def pilot_evidence_def file_evidence_def dir_evidence_def pass_fail_def)

text \<open>A duration of thirty days counts as thirty, with a rounding that is monotone and keeps the integers.\<close>

lemma thirty_days_count:
  assumes rnd: "\<And>x y. x \<le> y \<Longrightarrow> rnd x \<le> rnd y" "\<And>i. \<bar>i\<bar> \<le> 2 ^ 53 \<Longrightarrow> rnd (of_int i) = of_int i"
    and d: "30 * 24 * 3600 * nanos \<le> d"
  shows "30 \<le> duration_days rnd d"
proof -
  let ?hour = "3600 * nanos"
  have h: "720 \<le> d div ?hour" using zdiv_mono1 [OF d, of ?hour] by (simp add: nanos_def)
  have zero: "rnd 0 = 0" using rnd(2) [of 0] by simp
  have n720: "rnd 720 = 720" using rnd(2) [of 720] by simp
  have n30: "rnd 30 = 30" using rnd(2) [of 30] by simp
  have "(720 :: rat) \<le> of_int (d div ?hour)" using h by (metis of_int_le_iff of_int_numeral)
  then have a: "720 \<le> rnd (of_int (d div ?hour))" using rnd(1) [of 720 "of_int (d div ?hour)"] n720 by simp
  have "0 \<le> d mod ?hour" by (simp add: nanos_def)
  then have "0 \<le> rnd (of_int (d mod ?hour))" using rnd(1) [of 0 "of_int (d mod ?hour)"] zero by simp
  then have "0 \<le> rnd (of_int (d mod ?hour)) / of_int ?hour" by (simp add: nanos_def)
  then have "0 \<le> rnd (rnd (of_int (d mod ?hour)) / of_int ?hour)" using rnd(1) zero by fastforce
  then have "720 \<le> rnd (rnd (of_int (d div ?hour)) + rnd (rnd (of_int (d mod ?hour)) / of_int ?hour))"
    using rnd(1) [of 720] a n720 by force
  then have "30 \<le> rnd (rnd (rnd (of_int (d div ?hour)) + rnd (rnd (of_int (d mod ?hour)) / of_int ?hour)) / 24)"
    using rnd(1) [of 30] n30 by force
  then show ?thesis by (simp add: duration_days_def Let_def le_floor_iff)
qed

definition has_file :: "report_disk \<Rightarrow> string \<Rightarrow> bool" where
  "has_file d path \<longleftrightarrow> trim_space path \<noteq> [] \<and> rk_stat d (trim_space path) = Stat_found \<and> \<not> rk_dirs d (trim_space path)"

definition has_dir :: "report_disk \<Rightarrow> string \<Rightarrow> bool" where
  "has_dir d path \<longleftrightarrow> trim_space path \<noteq> [] \<and> rk_stat d (trim_space path) = Stat_found \<and> rk_dirs d (trim_space path)"

lemma evidence_complete:
  "(\<forall>e\<in>set (pilot_evidence opts d). ev_status e = ''present'') \<longleftrightarrow>
     list_all (has_file d) [po_config opts, po_health opts, po_benchmark opts, po_benchmark_evidence opts, po_update opts,
       po_revocation opts, po_proxy opts] \<and> has_dir d (po_incident opts)"
  by (auto simp: pilot_evidence_def file_evidence_def dir_evidence_def present_iff has_file_def has_dir_def)

lemma decision_by_blockers:
  "pr_decision (pilot_payload rnd render rt opts now ident d) = ''go'' \<longleftrightarrow>
     pr_blockers (pilot_payload rnd render rt opts now ident d) = []"
  by (simp add: pilot_payload_def Let_def)

text \<open>
  A pilot is a go exactly when nothing is missing: each of the seven files and the directory of
  the incident drill is there, the pilot had three to five servers, it had a start, and it lasted at
  least thirty days from it to its end (the time of the report where no end is given). Each missing
  thing alone makes it a hold.
\<close>

theorem pilot_go_iff:
  "pr_decision (pilot_payload rnd render rt opts now ident d) = ''go'' \<longleftrightarrow>
     list_all (has_file d) [po_config opts, po_health opts, po_benchmark opts, po_benchmark_evidence opts, po_update opts,
       po_revocation opts, po_proxy opts] \<and> has_dir d (po_incident opts) \<and>
     3 \<le> po_servers opts \<and> po_servers opts \<le> 5 \<and>
     (\<exists>s ended. po_started opts = Some s \<and> ended = (case po_ended opts of None \<Rightarrow> now | Some t \<Rightarrow> t) \<and>
        s \<le> ended \<and> 30 \<le> duration_days rnd (time_sub ended s))"
proof -
  define ended where "ended = (case po_ended opts of None \<Rightarrow> now | Some t \<Rightarrow> t)"
  define days where "days = pilot_duration_days rnd (po_started opts) ended"
  have days: "30 \<le> days \<longleftrightarrow> (\<exists>s. po_started opts = Some s \<and> s \<le> ended \<and> 30 \<le> duration_days rnd (time_sub ended s))"
    by (auto simp: days_def pilot_duration_days_def time_before_def split: option.splits)
  have "pr_decision (pilot_payload rnd render rt opts now ident d) = ''go'' \<longleftrightarrow>
      report_blockers (pilot_evidence opts d) (pilot_checks opts days (pilot_evidence opts d)) = []"
    by (simp add: decision_by_blockers pilot_payload_def Let_def days_def ended_def)
  also have "\<dots> \<longleftrightarrow> (\<forall>e\<in>set (pilot_evidence opts d). ev_status e = ''present'') \<and>
      3 \<le> po_servers opts \<and> po_servers opts \<le> 5 \<and> 30 \<le> days"
    using checks_pass [of opts d days] by (auto simp: blockers_empty)
  finally show ?thesis unfolding evidence_complete days ended_def by blast
qed

end
