(* ===== verification/MachineId.thy ===== *)
theory MachineId
  imports LicenseFile "HOL-Library.List_Lexorder" "HOL-Library.Char_ord" "HOL-Library.Multiset"
begin

text \<open>
  The collection of the machine's identity, \<^verbatim>\<open>internal/shared/machinefingerprint/fingerprint.go\<close>: the
  machine ID, the host name, the kernel release and the hardware addresses. What the files contain,
  the host name and the network interfaces the kernel lists are arguments.
\<close>

record net_interface =
  ni_name :: string
  ni_loopback :: bool
  ni_mac :: string

record collect_options =
  co_machine :: string
  co_route :: string
  co_kernel :: string
  co_host :: string

datatype collect_error = No_machine_id | No_hostname | No_interfaces

fun first_machine_id :: "(string \<Rightarrow> string option) \<Rightarrow> string list \<Rightarrow> string option" where
  "first_machine_id files [] = None"
| "first_machine_id files (p # ps) =
     (if trim_space p = [] then first_machine_id files ps
      else (case files p of
              None \<Rightarrow> first_machine_id files ps
            | Some raw \<Rightarrow> if trim_space raw \<noteq> [] then Some (trim_space raw) else first_machine_id files ps))"

definition read_machine_id :: "(string \<Rightarrow> string option) \<Rightarrow> string \<Rightarrow> string option" where
  "read_machine_id files path =
     first_machine_id files (if path = [] then [''/etc/machine-id'', ''/var/lib/dbus/machine-id''] else [path])"

text \<open>The addresses as texts, in small letters; an interface without one has the empty text.\<close>

definition physical_macs :: "net_interface list \<Rightarrow> string list" where
  "physical_macs ifs =
     sort (map (\<lambda>i. go_lower (ni_mac i)) (filter (\<lambda>i. \<not> ni_loopback i \<and> ni_mac i \<noteq> []) ifs))"

text \<open>\<^verbatim>\<open>bufio.Scanner\<close>: the lines, without a carriage return at their end; None: one of them is too long.\<close>

definition scan_lines :: "string \<Rightarrow> string list option" where
  "scan_lines s =
     (let raw = split_on (CHR 0x0A) s; ls = (if last raw = [] then butlast raw else raw)
      in if \<exists>l\<in>set ls. 65536 \<le> length l then None
         else Some (map (\<lambda>l. if l \<noteq> [] \<and> last l = CHR 0x0D then butlast l else l) ls))"

fun best_route :: "string \<Rightarrow> int \<Rightarrow> string list \<Rightarrow> string" where
  "best_route best metric [] = best"
| "best_route best metric (line # rest) =
     (let fields = go_fields line
      in if length fields < 8 \<or> fields ! 1 \<noteq> ''00000000'' then best_route best metric rest
         else
           let m = (case parse_int64 (fields ! 6) of None \<Rightarrow> 0 | Some k \<Rightarrow> k)
           in if best = [] \<or> m < metric then best_route (fields ! 0) m rest else best_route best metric rest)"

definition default_route_interface :: "(string \<Rightarrow> string option) \<Rightarrow> string \<Rightarrow> string option" where
  "default_route_interface files path =
     (case files path of
        None \<Rightarrow> None
      | Some s \<Rightarrow>
          (case scan_lines s of
             None \<Rightarrow> None
           | Some [] \<Rightarrow> None
           | Some (_ # rows) \<Rightarrow> let best = best_route [] i64_max rows in if best = [] then None else Some best))"

fun primary_mac_for :: "net_interface list \<Rightarrow> string \<Rightarrow> string" where
  "primary_mac_for [] name = []"
| "primary_mac_for (i # ifs) name =
     (if name = [] then [] else if ni_name i = name \<and> ni_mac i \<noteq> [] then go_lower (ni_mac i) else primary_mac_for ifs name)"

definition collect_machine :: "(string \<Rightarrow> string option) \<Rightarrow> string option \<Rightarrow> net_interface list option \<Rightarrow> collect_options \<Rightarrow>
    collect_error + machine_snapshot" where
  "collect_machine files host interfaces opts =
     (case read_machine_id files (co_machine opts) of
        None \<Rightarrow> Inl No_machine_id
      | Some ident \<Rightarrow>
          (case (if trim_space (co_host opts) = [] then host else Some (trim_space (co_host opts))) of
             None \<Rightarrow> Inl No_hostname
           | Some hostname \<Rightarrow>
               (case interfaces of
                  None \<Rightarrow> Inl No_interfaces
                | Some ifs \<Rightarrow>
                    let kernel = files (if co_kernel opts = [] then ''/proc/sys/kernel/osrelease'' else co_kernel opts);
                        macs = physical_macs ifs;
                        route = default_route_interface files (if co_route opts = [] then ''/proc/net/route'' else co_route opts);
                        mac = primary_mac_for ifs (case route of None \<Rightarrow> [] | Some n \<Rightarrow> n)
                    in Inr \<lparr>sn_machine = ident, sn_host = hostname,
                         sn_kernel = (case kernel of None \<Rightarrow> [] | Some raw \<Rightarrow> trim_space raw),
                         sn_mac = (if mac = [] \<and> macs \<noteq> [] then hd macs else mac), sn_macs = macs\<rparr>)))"

subsection \<open>The order of the interfaces\<close>

lemma physical_macs_order: "mset ifs = mset ifs' \<Longrightarrow> physical_macs ifs = physical_macs ifs'"
proof -
  assume "mset ifs = mset ifs'"
  then have "mset (map (\<lambda>i. go_lower (ni_mac i)) (filter (\<lambda>i. \<not> ni_loopback i \<and> ni_mac i \<noteq> []) ifs)) =
      mset (map (\<lambda>i. go_lower (ni_mac i)) (filter (\<lambda>i. \<not> ni_loopback i \<and> ni_mac i \<noteq> []) ifs'))"
    by (simp add: mset_map mset_filter)
  then show ?thesis unfolding physical_macs_def by (intro properties_for_sort) simp_all
qed

lemma primary_mac_by_name:
  "distinct (map ni_name ifs) \<Longrightarrow> name \<noteq> [] \<Longrightarrow>
     primary_mac_for ifs name = (case find (\<lambda>i. ni_name i = name) ifs of None \<Rightarrow> [] | Some i \<Rightarrow> go_lower (ni_mac i))"
proof (induction ifs)
  case (Cons i ifs)
  show ?case
  proof (cases "ni_name i = name")
    case True
    then have "find (\<lambda>i. ni_name i = name) ifs = None" using Cons.prems True by (simp add: find_None_iff) (metis image_eqI)
    then show ?thesis using True Cons by (cases "ni_mac i") simp_all
  next
    case False
    then show ?thesis using Cons by simp
  qed
qed simp

lemma find_by_name_order:
  assumes "mset ifs = mset ifs'" "distinct (map ni_name ifs)"
  shows "find (\<lambda>i. ni_name i = name) ifs = find (\<lambda>i. ni_name i = name) ifs'"
proof -
  have sets: "set ifs = set ifs'" using assms(1) by (rule mset_eq_setD)
  have inj: "inj_on ni_name (set ifs)" using assms(2) by (simp add: distinct_map)
  show ?thesis
  proof (cases "find (\<lambda>i. ni_name i = name) ifs")
    case None
    then show ?thesis using sets by (metis find_None_iff)
  next
    case (Some i)
    then have i: "i \<in> set ifs" "ni_name i = name" by (auto simp: find_Some_iff)
    obtain j where j: "find (\<lambda>i. ni_name i = name) ifs' = Some j"
      using i sets by (metis (mono_tags, lifting) find_None_iff not_None_eq)
    then have "j \<in> set ifs" "ni_name j = name" using sets by (auto simp: find_Some_iff)
    then show ?thesis using i inj j Some by (auto dest: inj_onD)
  qed
qed

lemma primary_mac_order:
  assumes "mset ifs = mset ifs'" "distinct (map ni_name ifs)"
  shows "primary_mac_for ifs name = primary_mac_for ifs' name"
proof (cases "name = []")
  case True
  moreover have "primary_mac_for xs [] = []" for xs by (cases xs) simp_all
  ultimately show ?thesis by simp
next
  case False
  have "distinct (map ni_name ifs')" using assms by (metis mset_eq_imp_distinct_iff mset_map)
  then show ?thesis
    using primary_mac_by_name [OF assms(2) False] primary_mac_by_name [OF _ False] find_by_name_order [OF assms] by simp
qed

text \<open>
  The fingerprint is the machine's, not the kernel's order of enumeration: on interfaces with
  different names, two collections that list the same interfaces in different orders give the same
  snapshot, and so the same licence fingerprint for every salt.
\<close>

theorem fingerprint_order_independent:
  assumes "mset ifs = mset ifs'" "distinct (map ni_name ifs)"
  shows "collect_machine files host (Some ifs) opts = collect_machine files host (Some ifs') opts"
  unfolding collect_machine_def Let_def option.case physical_macs_order [OF assms(1)] primary_mac_order [OF assms] ..

definition demo_files :: "string \<Rightarrow> string option" where
  "demo_files p = (if p = ''/etc/machine-id'' then Some ''id'' else None)"

definition demo_nets :: "net_interface list" where
  "demo_nets = [\<lparr>ni_name = ''a'', ni_loopback = False, ni_mac = ''B1''\<rparr>, \<lparr>ni_name = ''b'', ni_loopback = False, ni_mac = ''01''\<rparr>]"

definition demo_collect :: collect_options where
  "demo_collect = \<lparr>co_machine = [], co_route = [], co_kernel = [], co_host = ''h''\<rparr>"

theorem fingerprint_order_independent_witness:
  "collect_machine demo_files None (Some demo_nets) demo_collect = collect_machine demo_files None (Some (rev demo_nets)) demo_collect"
  by (rule fingerprint_order_independent) (simp_all add: demo_nets_def)

text \<open>
  Every interface with an address counts, also one of a container: when one is added, the list of
  addresses changes, and with it the fingerprint a licence is bound to.
\<close>

lemma virtual_interface_counts:
  assumes "\<not> ni_loopback i" "ni_mac i \<noteq> []"
  shows "length (physical_macs (i # ifs)) = Suc (length (physical_macs ifs))"
  using assms by (simp add: physical_macs_def)

end
