(* ===== verification/CliMain.thy ===== *)
theory CliMain
  imports Flags CliUpdate InstallFacts Pilot MachineId
begin

text \<open>
  The command line program, \<^verbatim>\<open>cmd/kiro-cli/main.go\<close>: the commands and their flags, what each passes
  to the components, and the exit status (0 success, 1 an error, 2 a misuse).

  A request is what remains of the arguments after the flags are read. The commands are grouped by
  the state they work on: reports, the configuration file, the installation, the update, and the
  support files; the arguments of the components are those of their theories.
\<close>

subsection \<open>Requests\<close>

datatype cli_request =
    Ask_version | Ask_fingerprint string | Ask_status string | Ask_health string string string bool
  | Ask_preflight string string string bool | Ask_mode_show string | Ask_mode_set string string
  | Ask_plan install_options | Ask_stage install_options | Ask_apply install_options apply_guard
  | Ask_uninstall_plan string install_options | Ask_uninstall string install_options apply_guard
  | Ask_check string string string string | Ask_update string string string string string string | Ask_rollback string string
  | Ask_incident string "string option" incident_options | Ask_pilot pilot_options string string | Ask_report string

definition config_default :: string where "config_default = ''/etc/kiro/kiro.yaml''"

definition config_flag :: "string \<times> flag_value" where
  "config_flag = (''config'', Text_value config_default)"

definition text_flag :: "string \<Rightarrow> string \<times> flag_value" where
  "text_flag name = (name, Text_value [])"

definition switch_flag :: "string \<Rightarrow> string \<times> flag_value" where
  "switch_flag name = (name, Switch_value False)"

definition text_in :: "flag_values \<Rightarrow> string \<Rightarrow> string" where
  "text_in v name = (case v name of Some (Text_value s) \<Rightarrow> s | _ \<Rightarrow> [])"

definition switch_in :: "flag_values \<Rightarrow> string \<Rightarrow> bool" where
  "switch_in v name = (case v name of Some (Switch_value b) \<Rightarrow> b | _ \<Rightarrow> False)"

definition number_in :: "flag_values \<Rightarrow> string \<Rightarrow> int" where
  "number_in v name = (case v name of Some (Number_value n) \<Rightarrow> n | _ \<Rightarrow> 0)"

text \<open>\<^verbatim>\<open>Parse\<close> under \<^verbatim>\<open>ExitOnError\<close>: 2 for an error, 0 for help.\<close>

definition with_flags :: "flag_set \<Rightarrow> string list \<Rightarrow> (flag_values \<Rightarrow> nat + cli_request) \<Rightarrow> nat + cli_request" where
  "with_flags fs args k = (case parse_args fs args of Parsed v _ \<Rightarrow> k v | Bad_flags \<Rightarrow> Inl 2 | Help_wanted \<Rightarrow> Inl 0)"

definition service_default :: string where "service_default = ''deployments/systemd/kiro-agent.service''"

definition install_flags :: flag_set where
  "install_flags = [config_flag, text_flag ''install-root'', text_flag ''agent-binary'', text_flag ''cli-binary'',
     text_flag ''provider-binary'', (''systemd-service'', Text_value service_default)]"

definition guard_flags :: flag_set where
  "guard_flags = [text_flag ''ack'', (''os-release'', Text_value ''/etc/os-release''), switch_flag ''skip-os-check'', switch_flag ''run-steps'']"

definition install_options_in :: "flag_values \<Rightarrow> install_options" where
  "install_options_in v =
     \<lparr>io_config = text_in v ''config'', io_root = text_in v ''install-root'', io_agent = text_in v ''agent-binary'',
      io_cli = text_in v ''cli-binary'', io_provider = text_in v ''provider-binary'', io_service = text_in v ''systemd-service'',
      io_purge = False\<rparr>"

definition uninstall_options_in :: "flag_values \<Rightarrow> install_options" where
  "uninstall_options_in v =
     \<lparr>io_config = [], io_root = text_in v ''install-root'', io_agent = [], io_cli = [], io_provider = [], io_service = [],
      io_purge = switch_in v ''purge''\<rparr>"

definition guard_in :: "int \<Rightarrow> flag_values \<Rightarrow> apply_guard" where
  "guard_in euid v =
     \<lparr>ag_ack = text_in v ''ack'', ag_uid = euid, ag_release = text_in v ''os-release'', ag_skip_os = switch_in v ''skip-os-check'',
      ag_run_steps = switch_in v ''run-steps''\<rparr>"

definition parse_mode_command :: "string list \<Rightarrow> nat + cli_request" where
  "parse_mode_command args =
     (case args of [] \<Rightarrow> Inl 2
      | c # rest \<Rightarrow>
          if c = ''show'' then with_flags [config_flag] rest (\<lambda>v. Inr (Ask_mode_show (text_in v ''config'')))
          else if c = ''set''
          then with_flags [config_flag, text_flag ''mode''] rest (\<lambda>v. Inr (Ask_mode_set (text_in v ''config'') (text_in v ''mode'')))
          else Inl 2)"

definition parse_install_command :: "int \<Rightarrow> string list \<Rightarrow> nat + cli_request" where
  "parse_install_command euid args =
     (case args of [] \<Rightarrow> Inl 2
      | c # rest \<Rightarrow>
          if c = ''plan'' then with_flags install_flags rest (\<lambda>v. Inr (Ask_plan (install_options_in v)))
          else if c = ''stage-lab'' then with_flags install_flags rest (\<lambda>v. Inr (Ask_stage (install_options_in v)))
          else if c = ''apply-lab''
          then with_flags (install_flags @ guard_flags) rest (\<lambda>v. Inr (Ask_apply (install_options_in v) (guard_in euid v)))
          else if c = ''uninstall-plan''
          then with_flags [config_flag, text_flag ''install-root'', switch_flag ''purge''] rest
                 (\<lambda>v. Inr (Ask_uninstall_plan (text_in v ''config'') (uninstall_options_in v)))
          else if c = ''uninstall-apply-lab''
          then with_flags ([config_flag, text_flag ''install-root'', switch_flag ''purge''] @ guard_flags) rest
                 (\<lambda>v. Inr (Ask_uninstall (text_in v ''config'') (uninstall_options_in v) (guard_in euid v)))
          else Inl 2)"

definition release_flags :: flag_set where
  "release_flags = [text_flag ''master-url'', (''component'', Text_value ''kiro-client-waf''), (''channel'', Text_value ''stable''),
     (''current-version'', Text_value build_version)]"

definition parse_update_command :: "string list \<Rightarrow> nat + cli_request" where
  "parse_update_command args =
     (case args of [] \<Rightarrow> Inl 2
      | c # rest \<Rightarrow>
          if c = ''check''
          then with_flags release_flags rest (\<lambda>v.
                 if text_in v ''master-url'' = [] then Inl 2
                 else Inr (Ask_check (text_in v ''master-url'') (text_in v ''component'') (text_in v ''channel'') (text_in v ''current-version'')))
          else if c = ''apply''
          then with_flags (release_flags @ [text_flag ''binary-path'', text_flag ''service'']) rest (\<lambda>v.
                 if text_in v ''master-url'' = [] \<or> text_in v ''binary-path'' = [] \<or> text_in v ''service'' = [] then Inl 2
                 else Inr (Ask_update (text_in v ''master-url'') (text_in v ''component'') (text_in v ''channel'')
                        (text_in v ''current-version'') (text_in v ''binary-path'') (text_in v ''service'')))
          else if c = ''rollback''
          then with_flags [text_flag ''binary-path'', text_flag ''service''] rest (\<lambda>v.
                 if text_in v ''binary-path'' = [] \<or> text_in v ''service'' = [] then Inl 2
                 else Inr (Ask_rollback (text_in v ''binary-path'') (text_in v ''service'')))
          else Inl 2)"

definition incident_flags :: flag_set where
  "incident_flags = [config_flag, text_flag ''output-dir'', text_flag ''incident-id'', (''type'', Text_value ''other''),
     (''severity'', Text_value ''medium''), (''status'', Text_value ''open''), text_flag ''summary'', text_flag ''started-at'',
     text_flag ''detected-at'', text_flag ''support-bundle-dir'', text_flag ''health-file'', text_flag ''alerts-file'']"

text \<open>The times stay texts until the configuration is loaded; the empty output directory is filled in then.\<close>

definition parse_incident_command :: "string \<Rightarrow> string \<Rightarrow> string list \<Rightarrow> nat + cli_request" where
  "parse_incident_command stamp now args =
     (case args of [] \<Rightarrow> Inl 2
      | c # rest \<Rightarrow>
          if c = ''report''
          then with_flags incident_flags rest (\<lambda>v. Inr (Ask_incident (text_in v ''config'')
                 (if text_in v ''output-dir'' = [] then None else Some (text_in v ''output-dir''))
                 \<lparr>no_dir = text_in v ''output-dir'', no_config = text_in v ''config'', no_id = text_in v ''incident-id'',
                  no_type = text_in v ''type'', no_severity = text_in v ''severity'', no_status = text_in v ''status'',
                  no_summary = text_in v ''summary'', no_started = Some (text_in v ''started-at''),
                  no_detected = Some (text_in v ''detected-at''), no_bundle = text_in v ''support-bundle-dir'',
                  no_health = text_in v ''health-file'', no_alerts = text_in v ''alerts-file'', no_stamp = stamp, no_now = now\<rparr>))
          else Inl 2)"

definition pilot_flags :: flag_set where
  "pilot_flags = [config_flag, text_flag ''output-dir'', text_flag ''pilot-id'', (''server-count'', Number_value 0),
     text_flag ''started-at'', text_flag ''ended-at'', text_flag ''health-file'', text_flag ''benchmark-file'',
     text_flag ''benchmark-evidence-file'', text_flag ''incident-dir'', text_flag ''update-evidence-file'',
     text_flag ''revocation-file'', text_flag ''proxy-evidence-file'']"

definition parse_pilot_command :: "string list \<Rightarrow> nat + cli_request" where
  "parse_pilot_command args =
     (case args of [] \<Rightarrow> Inl 2
      | c # rest \<Rightarrow>
          if c = ''report''
          then with_flags pilot_flags rest (\<lambda>v. Inr (Ask_pilot
                 \<lparr>po_dir = text_in v ''output-dir'', po_config = text_in v ''config'', po_id = text_in v ''pilot-id'',
                  po_servers = number_in v ''server-count'', po_started = None, po_ended = None,
                  po_health = text_in v ''health-file'', po_benchmark = text_in v ''benchmark-file'',
                  po_benchmark_evidence = text_in v ''benchmark-evidence-file'', po_incident = text_in v ''incident-dir'',
                  po_update = text_in v ''update-evidence-file'', po_revocation = text_in v ''revocation-file'',
                  po_proxy = text_in v ''proxy-evidence-file''\<rparr> (text_in v ''started-at'') (text_in v ''ended-at'')))
          else Inl 2)"

definition diagnostic_flags :: flag_set where
  "diagnostic_flags = [config_flag, (''os-release'', Text_value ''/etc/os-release''), text_flag ''preflight-writable-root'',
     switch_flag ''skip-command-checks'']"

text \<open>The arguments after the program's name.\<close>

definition parse_command :: "int \<Rightarrow> string \<Rightarrow> string \<Rightarrow> string list \<Rightarrow> nat + cli_request" where
  "parse_command euid stamp now args =
     (case args of [] \<Rightarrow> Inl 2
      | c # rest \<Rightarrow>
          if c = ''version'' then Inr Ask_version
          else if c = ''license''
          then (case rest of [] \<Rightarrow> Inl 2
                | s # rest' \<Rightarrow> if s \<noteq> ''fingerprint'' then Inl 2
                              else with_flags [text_flag ''salt''] rest' (\<lambda>v. Inr (Ask_fingerprint (text_in v ''salt''))))
          else if c = ''status'' then with_flags [config_flag] rest (\<lambda>v. Inr (Ask_status (text_in v ''config'')))
          else if c = ''health''
          then with_flags diagnostic_flags rest (\<lambda>v. Inr (Ask_health (text_in v ''config'') (text_in v ''os-release'')
                 (text_in v ''preflight-writable-root'') (switch_in v ''skip-command-checks'')))
          else if c = ''preflight''
          then with_flags diagnostic_flags rest (\<lambda>v. Inr (Ask_preflight (text_in v ''config'') (text_in v ''os-release'')
                 (text_in v ''preflight-writable-root'') (switch_in v ''skip-command-checks'')))
          else if c = ''mode'' then parse_mode_command rest
          else if c = ''install'' then parse_install_command euid rest
          else if c = ''update'' then parse_update_command rest
          else if c = ''incident'' then parse_incident_command stamp now rest
          else if c = ''pilot'' then parse_pilot_command rest
          else if c = ''report'' then with_flags [config_flag] rest (\<lambda>v. Inr (Ask_report (text_in v ''config'')))
          else Inl 2)"

end
