(* ===== verification/CliRun.thy ===== *)
theory CliRun
  imports CliMain
begin

text \<open>
  What the command line program does with a request, \<^verbatim>\<open>cmd/kiro-cli/main.go\<close>, and the system report
  (\<^verbatim>\<open>diagnostics/report.go\<close>). Each group of commands is a function on the state it works on; the
  result is the exit status and that state.
\<close>

subsection \<open>Reports\<close>

record go_runtime =
  gr_version :: string
  gr_os :: string
  gr_arch :: string
  gr_cpus :: int
  gr_goroutines :: int
  gr_alloc :: "64 word"
  gr_all :: "64 word"
  gr_sys :: "64 word"
  gr_gcs :: "32 word"

record system_report =
  sy_generated :: string
  sy_version :: string
  sy_runtime :: go_runtime
  sy_alloc :: rat
  sy_all :: rat
  sy_sys :: rat
  sy_mode :: string
  sy_plan :: string
  sy_sites :: nat

text \<open>The division of a float64 by 1024 is exact.\<close>

definition megabytes :: "(rat \<Rightarrow> rat) \<Rightarrow> 64 word \<Rightarrow> rat" where
  "megabytes rnd n = rnd (of_int (uint n)) / 1024 / 1024"

definition build_system_report :: "(rat \<Rightarrow> rat) \<Rightarrow> go_runtime \<Rightarrow> runtime_config \<Rightarrow> string \<Rightarrow> system_report" where
  "build_system_report rnd g rt stamp =
     \<lparr>sy_generated = stamp, sy_version = build_version, sy_runtime = g, sy_alloc = megabytes rnd (gr_alloc g),
      sy_all = megabytes rnd (gr_all g), sy_sys = megabytes rnd (gr_sys g), sy_mode = rtc_mode rt, sy_plan = rtc_plan rt,
      sy_sites = length (rtc_sites rt)\<rparr>"

record cli_world =
  cw_load :: "string \<Rightarrow> runtime_config option"
  cw_stdout :: bool
  cw_stamp :: string
  cw_euid :: int
  cw_machine :: machine
  cw_runtime :: go_runtime
  cw_files :: "string \<Rightarrow> string option"
  cw_host :: "string option"
  cw_nets :: "net_interface list option"

datatype cli_output =
    Out_text string | Out_status status_report | Out_diagnosis diag_report | Out_system system_report

definition json_exit :: "cli_world \<Rightarrow> nat" where
  "json_exit w = (if cw_stdout w then 0 else 1)"

definition with_runtime :: "cli_world \<Rightarrow> string \<Rightarrow> (runtime_config \<Rightarrow> nat \<times> 'a) \<Rightarrow> 'a \<Rightarrow> nat \<times> 'a" where
  "with_runtime w path k s = (case cw_load w path of None \<Rightarrow> (1, s) | Some rt \<Rightarrow> k rt)"

definition preflight_of :: "cli_world \<Rightarrow> runtime_config \<Rightarrow> string \<Rightarrow> string \<Rightarrow> bool \<Rightarrow> diag_report" where
  "preflight_of w rt release writable skips =
     build_preflight (cw_machine w) rt
       \<lparr>pf_release_path = release, pf_uid = cw_euid w, pf_writable = writable, pf_skip_commands = skips\<rparr> (cw_stamp w)"

fun exec_report :: "(rat \<Rightarrow> rat) \<Rightarrow> cli_world \<Rightarrow> cli_request \<Rightarrow> (nat \<times> cli_output option) option" where
  "exec_report rnd w Ask_version = Some (0, Some (Out_text build_version))"
| "exec_report rnd w (Ask_fingerprint salt) =
     Some (case collect_machine (cw_files w) (cw_host w) (cw_nets w) \<lparr>co_machine = [], co_route = [], co_kernel = [], co_host = []\<rparr> of
        Inl _ \<Rightarrow> (1, None)
      | Inr s \<Rightarrow> (0, Some (Out_text (machine_fingerprint salt s))))"
| "exec_report rnd w (Ask_status config) =
     Some (with_runtime w config (\<lambda>rt. (json_exit w, Some (Out_status (build_status rt (cw_stamp w))))) None)"
| "exec_report rnd w (Ask_health config release writable skips) =
     Some (with_runtime w config (\<lambda>rt. (json_exit w,
       Some (Out_diagnosis (build_health rt (preflight_of w rt release writable skips) (cw_stamp w))))) None)"
| "exec_report rnd w (Ask_preflight config release writable skips) =
     Some (with_runtime w config (\<lambda>rt. (json_exit w, Some (Out_diagnosis (preflight_of w rt release writable skips)))) None)"
| "exec_report rnd w (Ask_report config) =
     Some (with_runtime w config (\<lambda>rt. (json_exit w, Some (Out_system (build_system_report rnd (cw_runtime w) rt (cw_stamp w))))) None)"
| "exec_report rnd w _ = None"

subsection \<open>The mode\<close>

text \<open>The files by path; the arguments are those of \<open>show_mode\<close> and \<open>set_mode_file\<close>.\<close>

fun exec_mode :: "(string \<Rightarrow> string option option) \<Rightarrow> (string \<Rightarrow> yaml_node list option) \<Rightarrow> (yaml_node list \<Rightarrow> string option) \<Rightarrow>
    bool \<Rightarrow> cli_request \<Rightarrow> (string \<rightharpoonup> string) \<Rightarrow> ((nat \<times> string) \<times> (string \<rightharpoonup> string)) option" where
  "exec_mode decode parse print writable (Ask_mode_show config) files =
     Some (case show_mode decode (files config) of Inl _ \<Rightarrow> ((1, []), files) | Inr mode \<Rightarrow> ((0, mode), files))"
| "exec_mode decode parse print writable (Ask_mode_set config mode) files =
     Some (case set_mode_file parse print writable mode (files config) of
        (Some _, file') \<Rightarrow> ((1, []), files(config := file'))
      | (None, file') \<Rightarrow> ((0, mode), files(config := file')))"
| "exec_mode decode parse print writable _ files = None"

subsection \<open>The installation\<close>

fun exec_install :: "(stage_result \<Rightarrow> u8 list option) \<Rightarrow> (apply_result \<Rightarrow> u8 list option) \<Rightarrow> install_env \<Rightarrow> cli_world \<Rightarrow>
    cli_request \<Rightarrow> disk_tree \<Rightarrow> (nat \<times> disk_tree) option" where
  "exec_install enc_stage enc_apply env w (Ask_plan opts) t =
     Some (with_runtime w (io_config opts)
       (\<lambda>rt. (case build_install_plan rt opts of Inl _ \<Rightarrow> 1 | Inr _ \<Rightarrow> json_exit w, t)) t)"
| "exec_install enc_stage enc_apply env w (Ask_stage opts) t =
     Some (with_runtime w (io_config opts)
       (\<lambda>rt. case stage_lab_install enc_stage env rt opts t of (r, t') \<Rightarrow> (case r of Inl _ \<Rightarrow> 1 | Inr _ \<Rightarrow> json_exit w, t')) t)"
| "exec_install enc_stage enc_apply env w (Ask_apply opts a) t =
     Some (with_runtime w (io_config opts)
       (\<lambda>rt. case apply_lab_install enc_apply env rt opts a t of
               ((e, _), t') \<Rightarrow> (case e of Some _ \<Rightarrow> 1 | None \<Rightarrow> json_exit w, t')) t)"
| "exec_install enc_stage enc_apply env w (Ask_uninstall_plan config opts) t =
     Some (with_runtime w config (\<lambda>rt. (json_exit w, t)) t)"
| "exec_install enc_stage enc_apply env w (Ask_uninstall config opts a) t =
     Some (with_runtime w config
       (\<lambda>rt. case apply_lab_uninstall env rt opts a t of
               ((e, _), t') \<Rightarrow> (case e of Some _ \<Rightarrow> 1 | None \<Rightarrow> json_exit w, t')) t)"
| "exec_install enc_stage enc_apply env w _ t = None"

subsection \<open>The update\<close>

text \<open>A panic ends a Go program with status 2. No result: the probes given do not reach their end, or another command.\<close>

fun update_exit :: "cli_error \<Rightarrow> nat" where
  "update_exit No_release_panic = 2"
| "update_exit _ = 1"

fun exec_update :: "(cli_op \<Rightarrow> bool) \<Rightarrow> check_answer \<Rightarrow> download_answer \<Rightarrow> gotime \<Rightarrow> (gotime \<times> string option) list \<Rightarrow> cli_request \<Rightarrow>
    file_system \<Rightarrow> (nat \<times> disk_history) option" where
  "exec_update faulty answer dl start rounds (Ask_check master component channel version) fs =
     Some (case cli_release master component answer of Inl e \<Rightarrow> (update_exit e, [fs]) | Inr _ \<Rightarrow> (0, [fs]))"
| "exec_update faulty answer dl start rounds (Ask_update master component channel version bin service) fs =
     (case cli_apply faulty answer dl start rounds master component bin service fs of (r, h) \<Rightarrow>
        if r = Cli_probing then None else Some (case r of Cli_failed e \<Rightarrow> update_exit e | _ \<Rightarrow> 0, h))"
| "exec_update faulty answer dl start rounds (Ask_rollback bin service) fs =
     Some (case cli_rollback faulty bin service fs of (e, fs') \<Rightarrow> (case e of None \<Rightarrow> 0 | Some _ \<Rightarrow> 1, [fs', fs]))"
| "exec_update faulty answer dl start rounds _ fs = None"

subsection \<open>The support files\<close>

text \<open>\<^verbatim>\<open>parseOptionalTime\<close>: None, which ends the program with status 2, or a time, the zero time being none.\<close>

definition parse_optional_time :: "(string \<Rightarrow> gotime option) \<Rightarrow> string \<Rightarrow> gotime option option" where
  "parse_optional_time tm s =
     (if s = [] then Some None
      else (case tm s of None \<Rightarrow> None | Some t \<Rightarrow> Some (if t = zero_time then None else Some t)))"

fun exec_support :: "(rat \<Rightarrow> rat) \<Rightarrow> (string \<Rightarrow> gotime option) \<Rightarrow> (gotime \<Rightarrow> string) \<Rightarrow> (gotime \<Rightarrow> string) \<Rightarrow> (incident_report \<Rightarrow> string) \<Rightarrow>
    (pilot_report \<Rightarrow> string) \<Rightarrow> gotime \<Rightarrow> cli_world \<Rightarrow> cli_request \<Rightarrow> report_disk \<Rightarrow> (nat \<times> report_disk) option" where
  "exec_support rnd tm render stamp enc_i enc_p now w (Ask_incident config out opts) d =
     Some (with_runtime w config (\<lambda>rt.
       (case (parse_optional_time tm (the (no_started opts)), parse_optional_time tm (the (no_detected opts))) of
          (Some s, Some t) \<Rightarrow>
            (case build_incident_report enc_i rt
                    (opts\<lparr>no_dir := (case out of None \<Rightarrow> rpa_state (rtc_paths rt) @ ''/incidents'' | Some p \<Rightarrow> p),
                          no_started := map_option render s, no_detected := map_option render t\<rparr>) d of
               (r, d') \<Rightarrow> (if r = None then 1 else json_exit w, d'))
        | _ \<Rightarrow> (2, d))) d)"
| "exec_support rnd tm render stamp enc_i enc_p now w (Ask_pilot opts started ended) d =
     Some (with_runtime w (po_config opts) (\<lambda>rt.
       (case (parse_optional_time tm started, parse_optional_time tm ended) of
          (Some s, Some t) \<Rightarrow>
            (case build_pilot_report rnd render stamp enc_p rt
                    (opts\<lparr>po_dir := (if po_dir opts = [] then rpa_state (rtc_paths rt) @ ''/pilot-reports'' else po_dir opts),
                          po_started := s, po_ended := t\<rparr>) now d of
               (r, d') \<Rightarrow> (if r = None then 1 else json_exit w, d'))
        | _ \<Rightarrow> (2, d))) d)"
| "exec_support rnd tm render stamp enc_i enc_p now w _ d = None"

end
