(* ===== verification/CliFacts.thy ===== *)
theory CliFacts
  imports CliRun
begin

text \<open>
  What the command line program guarantees, from its arguments to the disk and the exit status.
\<close>

subsection \<open>Acknowledgement\<close>

lemma stage_needs_root: "snd (stage_lab_install enc env rt opts t) \<noteq> t \<Longrightarrow> trim_space (io_root opts) \<noteq> []"
  by (auto simp: stage_lab_install_def)

lemma guard_accepts:
  "validate_apply_guard t opts a want = None \<Longrightarrow> trim_space (ag_ack a) = want \<and> (trim_space (io_root opts) = [] \<longrightarrow> ag_uid a = 0)"
  by (auto simp: validate_apply_guard_def split: if_splits)

lemma apply_needs_guard:
  "snd (apply_lab_install enc env rt opts a t) \<noteq> t \<Longrightarrow> validate_apply_guard t opts a ''KIRO_LAB_INSTALL_APPLY'' = None"
  by (cases "validate_apply_guard t opts a ''KIRO_LAB_INSTALL_APPLY''") (simp_all add: apply_lab_install_def)

lemma uninstall_needs_guard:
  "snd (apply_lab_uninstall env rt opts a t) \<noteq> t \<Longrightarrow> validate_apply_guard t opts a ''KIRO_LAB_UNINSTALL_APPLY'' = None"
  by (cases "validate_apply_guard t opts a ''KIRO_LAB_UNINSTALL_APPLY''") (simp_all add: apply_lab_uninstall_def)

lemma with_flags_Inr:
  "with_flags fs args k = Inr req \<Longrightarrow> \<exists>v r. parse_args fs args = Parsed v r \<and> k v = Inr req"
  by (auto simp: with_flags_def split: flag_result.splits)

text \<open>The acknowledgement of a guard is empty or was said.\<close>

lemma ack_said:
  assumes "parse_args fs args = Parsed v r" "map_of fs ''ack'' = Some (Text_value [])" "text_in v ''ack'' \<noteq> []"
  shows "said args (text_in v ''ack'')"
proof -
  obtain x where x: "v ''ack'' = Some (Text_value x)" "text_in v ''ack'' = x"
    using assms(3) by (auto simp: text_in_def split: option.splits flag_value.splits)
  from text_from_args [OF assms(1) [unfolded parse_args_def] x(1)] assms(2,3) x(2) show ?thesis by auto
qed

lemma install_command_guard:
  assumes "parse_install_command euid args = Inr req"
  shows "(case req of
       Ask_apply opts a \<Rightarrow> ag_uid a = euid \<and> (ag_ack a \<noteq> [] \<longrightarrow> said args (ag_ack a))
     | Ask_uninstall c opts a \<Rightarrow> ag_uid a = euid \<and> (ag_ack a \<noteq> [] \<longrightarrow> said args (ag_ack a))
     | _ \<Rightarrow> True)"
proof (cases args)
  case Nil
  then show ?thesis using assms by (simp add: parse_install_command_def)
next
  case (Cons c rest)
  have sub: "said rest x \<Longrightarrow> said args x" for x by (rule said_subset [of rest]) (auto simp: Cons)
  have ack: "map_of (install_flags @ guard_flags) ''ack'' = Some (Text_value [])"
    "map_of ([config_flag, text_flag ''install-root'', switch_flag ''purge''] @ guard_flags) ''ack'' = Some (Text_value [])"
    by (simp_all add: install_flags_def guard_flags_def config_flag_def text_flag_def switch_flag_def)
  consider (other) "\<forall>opts a. req \<noteq> Ask_apply opts a" "\<forall>d opts a. req \<noteq> Ask_uninstall d opts a"
    | (install) v r where "parse_args (install_flags @ guard_flags) rest = Parsed v r"
        "req = Ask_apply (install_options_in v) (guard_in euid v)"
    | (uninstall) v r where "parse_args ([config_flag, text_flag ''install-root'', switch_flag ''purge''] @ guard_flags) rest = Parsed v r"
        "req = Ask_uninstall (text_in v ''config'') (uninstall_options_in v) (guard_in euid v)"
    using assms by (auto simp: parse_install_command_def Cons split: if_splits dest!: with_flags_Inr)
  then show ?thesis
  proof cases
    case other
    then show ?thesis by (auto split: cli_request.splits)
  next
    case install
    then show ?thesis using ack_said [OF install(1) ack(1)] sub by (auto simp: guard_in_def)
  next
    case uninstall
    then show ?thesis using ack_said [OF uninstall(1) ack(2)] sub by (auto simp: guard_in_def)
  qed
qed

lemma only_install_asks:
  assumes "parse_command euid stamp now args = Inr req"
    "(\<exists>opts a. req = Ask_apply opts a) \<or> (\<exists>d opts a. req = Ask_uninstall d opts a)"
  shows "\<exists>rest. args = ''install'' # rest \<and> parse_install_command euid rest = Inr req"
  using assms
  by (auto simp: parse_command_def parse_mode_command_def parse_update_command_def parse_incident_command_def
      parse_pilot_command_def split: list.splits if_splits dest!: with_flags_Inr)

text \<open>
  C32. Nothing is installed or removed that was not asked for in words. Whatever the arguments of the
  program, a command that changes the disk of the installation is a staging below an install root,
  or an installation or removal whose word of acknowledgement is an argument (alone or after an
  equality sign, spaces around it aside) and which has an install root or is run by root.
\<close>

theorem installation_acknowledged:
  assumes "parse_command euid stamp now args = Inr req"
    "exec_install enc_stage enc_apply env w req t = Some (code, t')" "t' \<noteq> t"
  shows "(\<exists>opts. req = Ask_stage opts \<and> trim_space (io_root opts) \<noteq> []) \<or>
    (\<exists>word opts a. said args word \<and> (trim_space (io_root opts) \<noteq> [] \<or> euid = 0) \<and>
       (req = Ask_apply opts a \<and> trim_space word = ''KIRO_LAB_INSTALL_APPLY'' \<or>
        (\<exists>config. req = Ask_uninstall config opts a \<and> trim_space word = ''KIRO_LAB_UNINSTALL_APPLY'')))"
proof -
  have guard: "(case req of
       Ask_apply opts a \<Rightarrow> ag_uid a = euid \<and> (ag_ack a \<noteq> [] \<longrightarrow> said args (ag_ack a))
     | Ask_uninstall c opts a \<Rightarrow> ag_uid a = euid \<and> (ag_ack a \<noteq> [] \<longrightarrow> said args (ag_ack a))
     | _ \<Rightarrow> True)"
  proof (cases "(\<exists>opts a. req = Ask_apply opts a) \<or> (\<exists>d opts a. req = Ask_uninstall d opts a)")
    case True
    then obtain rest where rest: "args = ''install'' # rest" "parse_install_command euid rest = Inr req"
      using only_install_asks [OF assms(1)] by blast
    have "said rest x \<Longrightarrow> said args x" for x by (rule said_subset [of rest]) (auto simp: rest(1))
    then show ?thesis using install_command_guard [OF rest(2)] by (auto split: cli_request.splits)
  next
    case False
    then show ?thesis by (auto split: cli_request.splits)
  qed
  show ?thesis
  proof (cases req)
    case (Ask_stage opts)
    then obtain rt where "snd (stage_lab_install enc_stage env rt opts t) \<noteq> t"
      using assms(2,3) by (auto simp: with_runtime_def split: option.splits prod.splits) (metis snd_conv)
    then show ?thesis using stage_needs_root Ask_stage by blast
  next
    case (Ask_apply opts a)
    then obtain rt where "snd (apply_lab_install enc_apply env rt opts a t) \<noteq> t"
      using assms(2,3) by (auto simp: with_runtime_def split: option.splits prod.splits) (metis snd_conv)+
    then have "validate_apply_guard t opts a ''KIRO_LAB_INSTALL_APPLY'' = None" by (rule apply_needs_guard)
    from guard_accepts [OF this] guard Ask_apply show ?thesis by (cases "ag_ack a = []") auto
  next
    case (Ask_uninstall config opts a)
    then obtain rt where "snd (apply_lab_uninstall env rt opts a t) \<noteq> t"
      using assms(2,3) by (auto simp: with_runtime_def split: option.splits prod.splits) (metis snd_conv)+
    then have "validate_apply_guard t opts a ''KIRO_LAB_UNINSTALL_APPLY'' = None" by (rule uninstall_needs_guard)
    from guard_accepts [OF this] guard Ask_uninstall show ?thesis by (cases "ag_ack a = []") auto
  qed (use assms(2,3) in \<open>auto simp: with_runtime_def split: option.splits\<close>)
qed

definition demo_args :: "string list" where
  "demo_args = [''install'', ''uninstall-apply-lab'', ''--ack=KIRO_LAB_UNINSTALL_APPLY'', ''--skip-os-check'']"

text \<open>A machine whose service manager fails, having written a file.\<close>

definition failing_env :: install_env where
  "failing_env = \<lparr>ie_fault = (\<lambda>_. No_fault), ie_left = (\<lambda>_. False), ie_run = (\<lambda>c t. (False, t(''/x'' \<mapsto> Dir_node 0)))\<rparr>"

definition demo_command :: cli_request where
  "demo_command = Ask_uninstall config_default
     \<lparr>io_config = [], io_root = [], io_agent = [], io_cli = [], io_provider = [], io_service = [], io_purge = False\<rparr>
     \<lparr>ag_ack = ''KIRO_LAB_UNINSTALL_APPLY'', ag_uid = 0, ag_release = ''/etc/os-release'', ag_skip_os = True, ag_run_steps = False\<rparr>"

lemma demo_command_parsed: "parse_command 0 [] [] demo_args = Inr demo_command"
  by code_simp

lemma demo_command_run:
  "exec_install (\<lambda>_. None) (\<lambda>_. None) failing_env (w\<lparr>cw_load := \<lambda>_. Some rt\<rparr>) demo_command Map.empty = Some (1, [''/x'' \<mapsto> Dir_node 0])"
proof -
  have trim: "trim_space ''KIRO_LAB_UNINSTALL_APPLY'' = ''KIRO_LAB_UNINSTALL_APPLY''" by (rule trim_visible) (simp add: visible_def)
  show ?thesis
    by (simp add: demo_command_def with_runtime_def apply_lab_uninstall_def validate_apply_guard_def trim build_uninstall_plan_def
        apply_uninstall_step_def run_command_def run_steps_of_def run_step_def failing_env_def empty_step_def fresh_applied_def Let_def)
qed

theorem installation_acknowledged_witness:
  "\<forall>w rt. \<exists>t' word. exec_install (\<lambda>_. None) (\<lambda>_. None) failing_env (w\<lparr>cw_load := \<lambda>_. Some rt\<rparr>) demo_command Map.empty = Some (1, t') \<and>
     t' \<noteq> Map.empty \<and> said demo_args word \<and> trim_space word = ''KIRO_LAB_UNINSTALL_APPLY''"
proof (intro allI)
  fix w :: cli_world and rt
  have "[''/x'' \<mapsto> Dir_node 0] \<noteq> Map.empty" by simp
  note run = demo_command_run [of rt w]
  from installation_acknowledged [OF demo_command_parsed run \<open>[''/x'' \<mapsto> Dir_node 0] \<noteq> Map.empty\<close>] run
  show "\<exists>t' word. exec_install (\<lambda>_. None) (\<lambda>_. None) failing_env (w\<lparr>cw_load := \<lambda>_. Some rt\<rparr>) demo_command Map.empty = Some (1, t') \<and>
     t' \<noteq> Map.empty \<and> said demo_args word \<and> trim_space word = ''KIRO_LAB_UNINSTALL_APPLY''"
    by (auto simp: demo_command_def)
qed

subsection \<open>Exit status\<close>

text \<open>The status of an update is 0 exactly when the announced program is installed or there is none.\<close>

lemma update_exit_zero:
  assumes "exec_update faulty answer dl start rounds (Ask_update m c ch v bin service) fs = Some (code, h)"
  shows "code = 0 \<longleftrightarrow> (\<exists>r. cli_apply faulty answer dl start rounds m c bin service fs = (r, h) \<and> (r = Cli_done \<or> r = Cli_current))"
proof -
  have nonzero: "update_exit e \<noteq> 0" for e by (cases e) simp_all
  obtain r where "cli_apply faulty answer dl start rounds m c bin service fs = (r, h)" "r \<noteq> Cli_probing"
      "code = (case r of Cli_failed e \<Rightarrow> update_exit e | _ \<Rightarrow> 0)"
    using assms by (auto split: prod.splits if_splits)
  then show ?thesis using nonzero by (cases r) auto
qed

text \<open>
  What the manual calls a misuse (status 2) and the program does not: a mode command without a mode
  fails with status 1, and a pilot report without a number of servers and times succeeds, as a hold.
\<close>

lemma mode_without_value:
  "parse_command euid s n [''mode'', ''set''] = Inr (Ask_mode_set config_default [])"
  "map_option fst (exec_mode d p q wr (Ask_mode_set config_default []) files) = Some (1, [])"
  by (code_simp, simp add: set_mode_file_def)

lemma pilot_without_values:
  "parse_command euid s n [''pilot'', ''report''] = Inr (Ask_pilot
     \<lparr>po_dir = [], po_config = config_default, po_id = [], po_servers = 0, po_started = None, po_ended = None, po_health = [],
      po_benchmark = [], po_benchmark_evidence = [], po_incident = [], po_update = [], po_revocation = [], po_proxy = []\<rparr> [] [])"
  by code_simp

end
