(* ===== verification/Mux.thy ===== *)
theory Mux
  imports GoPath GoNet
begin

text \<open>
  \<^verbatim>\<open>http.ServeMux\<close> of Go's standard library as both servers use it: patterns that are paths, without
  methods, hosts or wildcards. A pattern that ends in a slash takes every path below it, any other
  one only itself; the longest one that takes the path wins. Paths are compared segment by segment,
  each segment decoded on its own, so an encoded slash does not separate. Before that a path is
  cleaned by a redirect, and a path without its closing slash is redirected to the subtree of its
  name when nothing else takes it; only the first is not done for CONNECT.
\<close>

definition mux_clean :: "string \<Rightarrow> string" where
  "mux_clean p =
     (if p = [] then ''/''
      else let p = (if hd p = CHR ''/'' then p else CHR ''/'' # p); np = clean_path p
           in if last p = CHR ''/'' \<and> np \<noteq> ''/'' then np @ ''/'' else np)"

text \<open>\<^verbatim>\<open>url.PathUnescape\<close>; a text with a broken escape is taken as it is.\<close>

fun percent_decode :: "string \<Rightarrow> string option" where
  "percent_decode [] = Some []"
| "percent_decode (c # s) =
     (if c \<noteq> CHR ''%'' then map_option (Cons c) (percent_decode s)
      else case s of
        a # b # t \<Rightarrow>
          (case (hex_val a, hex_val b) of
             (Some x, Some y) \<Rightarrow> map_option (Cons (char_of (16 * x + y))) (percent_decode t)
           | _ \<Rightarrow> None)
      | _ \<Rightarrow> None)"

definition path_unescape :: "string \<Rightarrow> string" where
  "path_unescape s = (case percent_decode s of None \<Rightarrow> s | Some t \<Rightarrow> t)"

text \<open>The segments of a path; a closing slash is a segment of its own.\<close>

function path_segments :: "string \<Rightarrow> string list" where
  "path_segments s =
     (if s = [] then []
      else if s = ''/'' then [''/'']
      else path_unescape (takeWhile (\<lambda>c. c \<noteq> CHR ''/'') (tl s)) # path_segments (dropWhile (\<lambda>c. c \<noteq> CHR ''/'') (tl s)))"
  by auto
termination
proof (relation "measure length")
  fix s :: string
  assume "s \<noteq> []"
  then show "(dropWhile (\<lambda>c. c \<noteq> CHR ''/'') (tl s), s) \<in> measure length"
    using length_dropWhile_le [of "\<lambda>c. c \<noteq> CHR ''/''" "tl s"] by (cases s) simp_all
qed simp

declare path_segments.simps [simp del]

subsection \<open>Patterns\<close>

definition subtree :: "string \<Rightarrow> bool" where
  "subtree pat \<longleftrightarrow> pat \<noteq> [] \<and> last pat = CHR ''/''"

definition takes :: "string \<Rightarrow> string list \<Rightarrow> bool" where
  "takes pat segs \<longleftrightarrow>
     (if subtree pat then strict_prefix (butlast (path_segments pat)) segs else path_segments pat = segs)"

definition pattern_rank :: "string \<Rightarrow> nat" where
  "pattern_rank pat = (if subtree pat then 0 else 1) + length (path_segments pat)"

fun better :: "string \<Rightarrow> string option \<Rightarrow> string option" where
  "better p None = Some p"
| "better p (Some q) = (if pattern_rank q < pattern_rank p then Some p else Some q)"

definition mux_find :: "string list \<Rightarrow> string \<Rightarrow> string option" where
  "mux_find pats path = fold better (filter (\<lambda>p. takes p (path_segments path)) pats) None"

text \<open>A pattern of the path itself, and the subtree of the path's name.\<close>

definition has_exact :: "string list \<Rightarrow> string \<Rightarrow> bool" where
  "has_exact pats path \<longleftrightarrow> list_ex (\<lambda>p. \<not> subtree p \<and> path_segments p = path_segments path) pats"

definition has_subtree :: "string list \<Rightarrow> string \<Rightarrow> bool" where
  "has_subtree pats path \<longleftrightarrow> list_ex (\<lambda>p. subtree p \<and> path_segments p = path_segments (path @ ''/'')) pats"

subsection \<open>Routing\<close>

datatype routed = Target_refused | Redirect_to string | Unrouted | Routed string

text \<open>The method, the escaped path and the decoded path of the request.\<close>

definition mux_route :: "string list \<Rightarrow> string \<Rightarrow> string \<Rightarrow> string \<Rightarrow> routed" where
  "mux_route pats method escaped path =
     (let p = (if method = ''CONNECT'' then escaped else mux_clean escaped) in
      if escaped = ''*'' then Target_refused
      else if \<not> has_exact pats p \<and> \<not> subtree p \<and> has_subtree pats p then Redirect_to (mux_clean path @ ''/'')
      else if p \<noteq> escaped then Redirect_to p
      else case mux_find pats p of None \<Rightarrow> Unrouted | Some pat \<Rightarrow> Routed pat)"

subsection \<open>Which pattern\<close>

lemma better_either: "better p q = Some p \<or> (\<exists>q'. q = Some q' \<and> better p q = Some q')"
  by (cases q) simp_all

lemma fold_better:
  "fold better ps q = Some r \<Longrightarrow> (q = Some r \<or> r \<in> set ps) \<and>
     (\<forall>p\<in>set ps. pattern_rank p \<le> pattern_rank r) \<and> (\<forall>q'. q = Some q' \<longrightarrow> pattern_rank q' \<le> pattern_rank r)"
proof (induction ps arbitrary: q)
  case (Cons p ps)
  have step: "\<exists>q'. better p q = Some q' \<and> pattern_rank p \<le> pattern_rank q' \<and>
      (\<forall>q''. q = Some q'' \<longrightarrow> pattern_rank q'' \<le> pattern_rank q') \<and> (q' = p \<or> q = Some q')"
    by (cases q) auto
  then obtain q' where q': "better p q = Some q'" "pattern_rank p \<le> pattern_rank q'"
    "\<forall>q''. q = Some q'' \<longrightarrow> pattern_rank q'' \<le> pattern_rank q'" "q' = p \<or> q = Some q'" by blast
  then have "fold better ps (Some q') = Some r" using Cons.prems by simp
  note IH = Cons.IH [OF this]
  from IH have "pattern_rank q' \<le> pattern_rank r" "Some q' = Some r \<or> r \<in> set ps" "\<forall>p\<in>set ps. pattern_rank p \<le> pattern_rank r"
    by blast+
  with q'(2-4) show ?case by (metis le_trans list.set_intros set_ConsD option.inject)
qed simp

lemma fold_better_None: "fold better ps q = None \<longleftrightarrow> ps = [] \<and> q = None"
proof (induction ps arbitrary: q)
  case (Cons p ps)
  then show ?case by (cases q) simp_all
qed simp

text \<open>The pattern that is found is registered, takes the path, and no other that takes it ranks higher.\<close>

lemma mux_find_Some:
  assumes "mux_find pats path = Some pat"
  shows "pat \<in> set pats" "takes pat (path_segments path)"
    and "\<And>p. p \<in> set pats \<Longrightarrow> takes p (path_segments path) \<Longrightarrow> pattern_rank p \<le> pattern_rank pat"
  using fold_better [OF assms [unfolded mux_find_def]] by auto

lemma mux_find_None: "mux_find pats path = None \<longleftrightarrow> (\<forall>p\<in>set pats. \<not> takes p (path_segments path))"
  by (auto simp: mux_find_def fold_better_None filter_empty_conv)

lemma routed_pattern:
  assumes "mux_route pats m escaped path = Routed pat"
  shows "pat \<in> set pats" "takes pat (path_segments escaped)"
  using assms mux_find_Some(1,2) [of pats escaped pat]
  by (auto simp: mux_route_def Let_def split: if_split_asm option.split_asm)

lemma root_takes: "takes ''/'' segs \<longleftrightarrow> segs \<noteq> []"
  by (auto simp: takes_def subtree_def path_segments.simps strict_prefix_def)

lemma segments_empty: "path_segments s = [] \<longleftrightarrow> s = []"
  by (subst path_segments.simps) simp

text \<open>With a pattern for the root nothing is left unrouted.\<close>

lemma root_routes:
  assumes "''/'' \<in> set pats"
  shows "mux_route pats m escaped path \<noteq> Unrouted"
proof
  assume unrouted: "mux_route pats m escaped path = Unrouted"
  then have none: "mux_find pats escaped = None"
    and redirect: "has_exact pats escaped \<or> subtree escaped \<or> \<not> has_subtree pats escaped"
    by (auto simp: mux_route_def Let_def split: if_split_asm option.split_asm)
  then have empty: "escaped = []" using assms by (auto simp: mux_find_None root_takes segments_empty)
  have "has_subtree pats []" using assms by (auto simp: has_subtree_def list_ex_iff subtree_def intro!: bexI [of _ "''/''"])
  moreover have "\<not> has_exact pats []"
    using none by (auto simp: empty has_exact_def list_ex_iff mux_find_None takes_def)
  ultimately show False using redirect by (simp add: empty subtree_def)
qed

end
