(* ===== verification/ClientWaf.thy ===== *)
theory ClientWaf
  imports ProxyHandler Lockdown ClientConfig Mux
begin

text \<open>
  The assembled client, \<^verbatim>\<open>RunWithConfig\<close> of \<^verbatim>\<open>internal/client/client_waf.go\<close>: the components are
  made from the loaded configuration and wired into the request handler, the routes and the two
  middlewares are put around it, and the heartbeat loop and five cleanup tickers work on the same
  components. A run is any sequence of requests, ticks and heartbeats, each one step: the
  components are protected by their own locks, and the tickers share nothing else.

  The listening socket, the time-outs of the server and the signals are not modelled.
\<close>

subsection \<open>Wiring\<close>

record waf =
  wf_proxy :: proxy
  wf_lock :: lockdown
  wf_xdp_func :: bool
  wf_xdp_started :: bool

definition wire_config :: "client_config \<Rightarrow> proxy_config" where
  "wire_config c =
     \<lparr>pc_secret = bytes_of (cc_secret c), pc_cookie_ttl = seconds (cc_cookie_ttl c), pc_difficulty = cc_pow c,
      pc_hold_seconds = cc_hold c, pc_ban_duration = seconds (cc_ttl c), pc_challenge_ttl = seconds 90,
      pc_challenge_all = cc_challenge_all c, pc_transparent_ttl = seconds (cc_transparent c)\<rparr>"

definition wire_limiter :: "client_config \<Rightarrow> limiter" where
  "wire_limiter c = new_limiter \<lparr>soft_threshold = cc_rpm c, hard_threshold = cc_hard c, subnet_threshold = cc_subnet c,
     window_duration = seconds 60\<rparr>"

definition wire_escalation :: "client_config \<Rightarrow> esc_engine" where
  "wire_escalation c = new_esc_engine \<lparr>failure_threshold = cc_esc_threshold c, failure_window = minutes 5,
     cooldown = seconds (cc_esc_cooldown c)\<rparr> (cc_admins c)"

text \<open>The handler with its fields set; \<open>disk\<close> is what the blocklist file meets, \<open>func\<close> whether \<^verbatim>\<open>XDPStartupFunc\<close> is set.\<close>

definition wire_proxy :: "disk \<Rightarrow> client_config \<Rightarrow> proxy" where
  "wire_proxy dk c =
     (new_proxy_handler (wire_config c) (Some (wire_limiter c))
        (Some (new_ban_engine (cc_blocklist c) (go_fields (cc_sync c)) dk)) new_store)
     \<lparr>px_esc := Some (wire_escalation c),
      px_mgr_v2 := Some \<lparr>cm_secret = bytes_of (cc_secret c), cm_default_ttl = seconds (cc_cookie_ttl c)\<rparr>,
      px_cookie_limiter := Some (new_cookie_limiter (cc_cookie_rate c) (seconds 60)),
      px_cf := Some (new_cf_extractor (cc_trust c)), px_tls := True, px_loop := Some new_loop_detector\<rparr>"

definition wire_waf :: "bool \<Rightarrow> disk \<Rightarrow> client_config \<Rightarrow> waf" where
  "wire_waf func dk c = \<lparr>wf_proxy = wire_proxy dk c, wf_lock = new_lockdown (cc_admins c), wf_xdp_func = func,
     wf_xdp_started = False\<rparr>"

subsection \<open>Routes\<close>

text \<open>The two patterns the client registers.\<close>

definition waf_patterns :: "string list" where
  "waf_patterns = [''/healthz'', ''/'']"

datatype waf_reply = Moved string | Bad_request | Not_found | Healthz bool | Guarded "reply guarded"

record waf_response =
  wr_headers :: "(string \<times> string) list"
  wr_reply :: waf_reply

definition security_headers :: "waf_reply \<Rightarrow> waf_response" where
  "security_headers rep = \<lparr>wr_headers = [(''X-Content-Type-Options'', ''nosniff''), (''X-Frame-Options'', ''DENY'')],
     wr_reply = rep\<rparr>"

definition healthz_status :: "waf_reply \<Rightarrow> nat" where
  "healthz_status rep = (case rep of Healthz locked \<Rightarrow> if locked then 503 else 200 | _ \<Rightarrow> 0)"

definition dispatch :: "string \<Rightarrow> http_request \<Rightarrow> gotime \<Rightarrow> draws \<Rightarrow> waf \<Rightarrow> waf_reply \<times> waf" where
  "dispatch pat r now d w =
     (if pat = ''/healthz'' then (Healthz (lk_locked (wf_lock w)), w)
      else case lockdown_middleware (wf_lock w) (\<lambda>r. serve_http r now d (wf_proxy w)) r of
             Unavailable \<Rightarrow> (Guarded Unavailable, w)
           | Passed (rep, p) \<Rightarrow> (Guarded (Passed rep), w\<lparr>wf_proxy := p\<rparr>))"

definition handle_http :: "string \<Rightarrow> http_request \<Rightarrow> gotime \<Rightarrow> draws \<Rightarrow> waf \<Rightarrow> waf_response \<times> waf" where
  "handle_http escaped r now d w =
     apfst security_headers
       (case mux_route waf_patterns (rq_method r) escaped (rq_path r) of
          Target_refused \<Rightarrow> (Bad_request, w)
        | Redirect_to t \<Rightarrow> (Moved t, w)
        | Unrouted \<Rightarrow> (Not_found, w)
        | Routed pat \<Rightarrow> dispatch pat r now d w)"

subsection \<open>Runs\<close>

text \<open>The plan callback: the limiter it adjusts is the handler's.\<close>

definition enforce_plan :: "plan_config \<Rightarrow> proxy \<times> bool \<times> bool \<Rightarrow> proxy \<times> bool \<times> bool" where
  "enforce_plan c st =
     (case st of (p, func, started) \<Rightarrow>
        (case px_limiter p of None \<Rightarrow> st
         | Some l \<Rightarrow>
             let n = on_plan_config c \<lparr>nd_limiter = l, nd_xdp_func = func, nd_xdp_started = started\<rparr>
             in (p\<lparr>px_limiter := Some (nd_limiter n)\<rparr>, nd_xdp_func n, nd_xdp_started n)))"

definition waf_heartbeat :: "exchange \<Rightarrow> gotime \<Rightarrow> waf \<Rightarrow> waf" where
  "waf_heartbeat x now w =
     (case send_heartbeat (Some enforce_plan) x now (wf_lock w, (wf_proxy w, wf_xdp_func w, wf_xdp_started w)) of
        (l, p, func, started) \<Rightarrow> \<lparr>wf_proxy = p, wf_lock = l, wf_xdp_func = func, wf_xdp_started = started\<rparr>)"

datatype waf_event =
    Http_request string http_request gotime draws
  | Heartbeat exchange gotime
  | Store_tick gotime | Limiter_tick gotime | Escalation_tick gotime | Cookie_tick gotime | Loop_tick gotime

definition tick_proxy :: "waf_event \<Rightarrow> proxy \<Rightarrow> proxy" where
  "tick_proxy e p =
     (case e of
        Store_tick now \<Rightarrow> p\<lparr>px_store := challenge_cleanup now (px_store p)\<rparr>
      | Limiter_tick now \<Rightarrow> p\<lparr>px_limiter := map_option (limiter_cleanup now) (px_limiter p)\<rparr>
      | Escalation_tick now \<Rightarrow> p\<lparr>px_esc := map_option (esc_cleanup now) (px_esc p)\<rparr>
      | Cookie_tick now \<Rightarrow> p\<lparr>px_cookie_limiter := map_option (cookie_cleanup now) (px_cookie_limiter p)\<rparr>
      | Loop_tick now \<Rightarrow> p\<lparr>px_loop := map_option (loop_cleanup now) (px_loop p)\<rparr>
      | _ \<Rightarrow> p)"

fun waf_step :: "waf_event \<Rightarrow> waf \<Rightarrow> waf_response option \<times> waf" where
  "waf_step (Http_request escaped r now d) w = apfst Some (handle_http escaped r now d w)"
| "waf_step (Heartbeat x now) w = (None, waf_heartbeat x now w)"
| "waf_step e w = (None, w\<lparr>wf_proxy := tick_proxy e (wf_proxy w)\<rparr>)"

fun waf_run :: "waf_event list \<Rightarrow> waf \<Rightarrow> waf_response list \<times> waf" where
  "waf_run [] w = ([], w)"
| "waf_run (e # es) w =
     (let (rep, w1) = waf_step e w; (reps, w2) = waf_run es w1
      in ((case rep of None \<Rightarrow> reps | Some x \<Rightarrow> x # reps), w2))"

end
