(* ===== verification/WafFacts.thy ===== *)
theory WafFacts
  imports ClientWaf ProxyFacts
begin

text \<open>
  The properties of the assembled client over its runs: it never stops at a run-time panic, a lock
  shuts it, a ban lasts, the blocklist file has every ban and only grows, and the subnet limit
  decides nothing.
\<close>

subsection \<open>What a request leaves as it was\<close>

definition same_settings :: "proxy \<Rightarrow> proxy \<Rightarrow> bool" where
  "same_settings p q \<longleftrightarrow> px_conf q = px_conf p \<and> px_mgr_v2 q = px_mgr_v2 p \<and> px_cf q = px_cf p \<and> px_tls q = px_tls p \<and>
     (px_limiter q = None \<longleftrightarrow> px_limiter p = None) \<and> map_option esc_conf (px_esc q) = map_option esc_conf (px_esc p)"

lemma same_settings_refl [simp]: "same_settings p p"
  by (simp add: same_settings_def)

lemma same_settings_trans: "same_settings p q \<Longrightarrow> same_settings q q' \<Longrightarrow> same_settings p q'"
  by (auto simp: same_settings_def)

lemma get_level_conf: "get_level ip now e = Some (l, e') \<Longrightarrow> esc_conf e' = esc_conf e"
  by (auto simp: get_level_def Let_def split: if_splits option.splits)

text \<open>The steps that touch the limiter only, or the engine only, with what they do to the bans.\<close>

lemma settings_steps:
  "same_settings p (snd (ask_limiter f ip now p))" "px_ban (snd (ask_limiter f ip now p)) = px_ban p"
  "same_settings p (snd (over_soft ip now p))" "px_ban (snd (over_soft ip now p)) = px_ban p"
  "same_settings p (count_request ip now p)" "px_ban (count_request ip now p) = px_ban p"
  "same_settings p (snd (check_cookie_rate c now p))" "px_ban (snd (check_cookie_rate c now p)) = px_ban p"
  "same_settings p (note_loop ip kind now p)" "px_ban (note_loop ip kind now p) = px_ban p"
  "same_settings p (snd (ask_ban ip now p))"
  by (auto simp: same_settings_def ask_limiter_def over_soft_def count_request_def check_cookie_rate_def note_loop_def
      ask_ban_def split_beta split: option.splits)

lemma rate_level_settings:
  "same_settings p (snd (rate_limit_level ip now p)) \<and> px_ban (snd (rate_limit_level ip now p)) = px_ban p"
  using settings_steps(1,2) [where p = p and f = is_hard_blocked and ip = ip and now = now]
    settings_steps(1,2) [where p = "snd (ask_limiter is_hard_blocked ip now p)" and f = is_double_threshold and ip = ip and now = now]
    settings_steps(3,4) [where p = "snd (ask_limiter is_double_threshold ip now (snd (ask_limiter is_hard_blocked ip now p)))" and ip = ip and now = now]
  by (auto simp: rate_limit_level_def split_beta Let_def intro: same_settings_trans)

lemma escalation_level_settings:
  assumes "escalation_level ip now p = Some (l, q)"
  shows "same_settings p q \<and> px_ban q = px_ban p"
  using assms
  by (auto simp: escalation_level_def same_settings_def dest: get_level_conf split: option.split_asm)

lemma escalation_level_settings_get:
  assumes "get_escalation_level ip now p = Some (l, q)"
  shows "same_settings p q \<and> px_ban q = px_ban p"
proof -
  obtain rl q1 where rl: "rate_limit_level ip now p = (rl, q1)" by fastforce
  then obtain el where "escalation_level ip now q1 = Some (el, q)"
    using assms by (auto simp: get_escalation_level_def split: option.split_asm)
  with rl show ?thesis
    using rate_level_settings [of p ip now] escalation_level_settings [of ip now q1 el q]
    by (auto intro: same_settings_trans)
qed

text \<open>What happens to the bans of an address: nothing, or it is banned.\<close>

definition may_ban :: "string \<Rightarrow> gotime \<Rightarrow> proxy \<Rightarrow> proxy \<Rightarrow> bool" where
  "may_ban ip now p q \<longleftrightarrow> px_ban q = px_ban p \<or>
     (\<exists>b d reason. px_ban p = Some b \<and> px_ban q = Some (ban ip d reason now b))"

lemma challenge_settings:
  "same_settings p (snd (serve_challenge_for_level r ip now d p)) \<and>
   may_ban ip now p (snd (serve_challenge_for_level r ip now d p))"
proof (cases "get_escalation_level ip now p")
  case None
  then show ?thesis using rate_level_settings [of p ip now] by (simp add: serve_challenge_for_level_def may_ban_def)
next
  case (Some lq)
  obtain l q where lq: "lq = (l, q)" by fastforce
  define q' where "q' = snd (over_soft ip now q)"
  have q: "same_settings p q" "px_ban q = px_ban p" using escalation_level_settings_get Some lq by auto
  have q': "same_settings p q'" "px_ban q' = px_ban p"
    using same_settings_trans [OF q(1) settings_steps(3)] q(2) settings_steps(4) [where p = q and ip = ip and now = now]
    by (simp_all add: q'_def)
  have noted: "same_settings p (note_loop ip k now q'\<lparr>px_store := st\<rparr>)" "px_ban (note_loop ip k now q'\<lparr>px_store := st\<rparr>) = px_ban p" for k st
    using same_settings_trans [OF q'(1) settings_steps(9) [where ip = ip and kind = k and now = now]] q'(2)
      settings_steps(10) [where p = q' and ip = ip and kind = k and now = now]
    by (simp_all add: same_settings_def)
  have banned: "same_settings p (q'\<lparr>px_ban := b\<rparr>)" for b
    using q'(1) by (simp add: same_settings_def)
  show ?thesis
    using q' noted banned
    by (auto simp: serve_challenge_for_level_def Some lq Let_def split_beta may_ban_def q'_def [symmetric] plain_def
        split: option.splits)
qed

lemma after_success_settings:
  "same_settings p (snd (after_success r ip now d p)) \<and> px_ban (snd (after_success r ip now d p)) = px_ban p"
  by (auto simp: after_success_def same_settings_def record_success_def Let_def split: option.splits)

lemma store_settings: "same_settings (p\<lparr>px_store := st\<rparr>) q = same_settings p q"
  by (simp add: same_settings_def)

lemma verify_settings:
  "same_settings p (snd (handle_challenge_verify r ip now d p)) \<and> px_ban (snd (handle_challenge_verify r ip now d p)) = px_ban p"
  "same_settings p (snd (handle_hold_verify r ip now d p)) \<and> px_ban (snd (handle_hold_verify r ip now d p)) = px_ban p"
  "same_settings p (snd (handle_transparent_verify r ip now d p)) \<and> px_ban (snd (handle_transparent_verify r ip now d p)) = px_ban p"
  using after_success_settings [where ip = ip and r = r and now = now and d = d and p = "p\<lparr>px_store := _\<rparr>"]
  by (auto simp: handle_challenge_verify_def handle_hold_verify_def handle_transparent_verify_def same_settings_def
      record_failure_def split: prod.splits verdict.splits option.splits)

text \<open>One request: the settings stay, and the bans are asked for the address of the request and extended by it at most.\<close>

definition bans_move :: "string \<Rightarrow> gotime \<Rightarrow> ban_engine \<Rightarrow> ban_engine \<Rightarrow> bool" where
  "bans_move ip now b b' \<longleftrightarrow> b' = b \<or> b' = look_up ip now b \<or>
     (\<not> fst (is_banned ip now b) \<and> (\<exists>d reason. b' = ban ip d reason now (look_up ip now b)))"

lemma ask_ban_eq:
  "px_ban p = Some b \<Longrightarrow> ask_ban ip now p = (fst (is_banned ip now b), p\<lparr>px_ban := Some (look_up ip now b)\<rparr>)"
  by (simp add: ask_ban_def look_up_def split_beta)

lemma protected_settings:
  assumes "px_ban p = Some b"
  shows "same_settings p (snd (serve_protected r ip now d p)) \<and>
    (\<exists>b'. px_ban (snd (serve_protected r ip now d p)) = Some b' \<and> bans_move ip now b b')"
proof -
  define p1 where "p1 = p\<lparr>px_ban := Some (look_up ip now b)\<rparr>"
  define p2 where "p2 = count_request ip now p1"
  define p3 where "p3 = snd (ask_limiter is_hard_blocked ip now p2)"
  define p4 where "p4 = snd (over_soft ip now p3)"
  have p1: "same_settings p p1" "px_ban p1 = Some (look_up ip now b)" by (simp_all add: p1_def same_settings_def)
  have p3: "same_settings p p3" "px_ban p3 = Some (look_up ip now b)"
    using same_settings_trans [OF same_settings_trans [OF p1(1) settings_steps(5)] settings_steps(1)]
    by (simp_all add: p3_def p2_def settings_steps p1(2))
  have p4: "same_settings p p4" "px_ban p4 = Some (look_up ip now b)"
    using same_settings_trans [OF p3(1) settings_steps(3)] p3(2) by (simp_all add: p4_def settings_steps)
  have p5: "same_settings p (snd (check_cookie_rate c now p4))" "px_ban (snd (check_cookie_rate c now p4)) = Some (look_up ip now b)" for c
    using same_settings_trans [OF p4(1) settings_steps(7)] p4(2) by (simp_all add: settings_steps)
  have ch: "same_settings p (snd (serve_challenge_for_level r ip now d q)) \<and>
      (\<exists>b'. px_ban (snd (serve_challenge_for_level r ip now d q)) = Some b' \<and> bans_move ip now b b')"
    if "same_settings p q" "px_ban q = Some (look_up ip now b)" "\<not> fst (is_banned ip now b)" for q
    using challenge_settings [of q r ip now d] same_settings_trans [OF that(1)] that(2,3)
    by (auto simp: may_ban_def bans_move_def)
  have hard: "same_settings p (p3\<lparr>px_ban := x\<rparr>)" for x using p3(1) by (simp add: same_settings_def)
  show ?thesis
    using ch [OF p4] ch [OF p5] p1 p3 p5 hard assms
    by (auto simp: serve_protected_def ask_ban_eq [OF assms] Let_def split_beta bans_move_def p1_def [symmetric] p2_def [symmetric]
        p3_def [symmetric] p4_def [symmetric] split: option.splits)
qed

lemma serve_settings:
  assumes "px_ban p = Some b"
  shows "same_settings p (snd (serve_http r now d p)) \<and>
    (\<exists>b'. px_ban (snd (serve_http r now d p)) = Some b' \<and> bans_move (handler_ip r p) now b b')"
  using protected_settings [OF assms] verify_settings assms
  by (auto simp: serve_http_def Let_def bans_move_def)

subsection \<open>Steps of the client\<close>

lemma handler_ip_same: "same_settings p q \<Longrightarrow> handler_ip r q = handler_ip r p"
  by (simp add: same_settings_def handler_ip_def)

lemma heartbeat_lock: "fst (send_heartbeat f x now (l, e)) = fst (send_heartbeat None x now (l, ()))"
  by (cases x) (simp_all add: send_heartbeat_def Let_def)

lemma heartbeat_env: "snd (send_heartbeat (Some f) x now (l, e)) = e \<or> (\<exists>c. snd (send_heartbeat (Some f) x now (l, e)) = f c e)"
  by (cases x) (auto simp: send_heartbeat_def Let_def split: option.splits)

lemma heartbeat_waf:
  "wf_lock (waf_heartbeat x now w) = fst (send_heartbeat None x now (wf_lock w, ()))"
  "wf_proxy (waf_heartbeat x now w) = wf_proxy w \<or>
   (\<exists>l a c. px_limiter (wf_proxy w) = Some l \<and>
      wf_proxy (waf_heartbeat x now w) = (wf_proxy w)\<lparr>px_limiter := Some (update_thresholds a 0 c l)\<rparr>)"
proof -
  let ?st = "(wf_proxy w, wf_xdp_func w, wf_xdp_started w)"
  show "wf_lock (waf_heartbeat x now w) = fst (send_heartbeat None x now (wf_lock w, ()))"
    using heartbeat_lock [of "Some enforce_plan" x now "wf_lock w" ?st] by (simp add: waf_heartbeat_def split_beta)
  have proxy: "wf_proxy (waf_heartbeat x now w) = fst (snd (send_heartbeat (Some enforce_plan) x now (wf_lock w, ?st)))"
    by (simp add: waf_heartbeat_def split_beta)
  have "fst (enforce_plan c ?st) = wf_proxy w \<or> (\<exists>l a c'. px_limiter (wf_proxy w) = Some l \<and>
      fst (enforce_plan c ?st) = (wf_proxy w)\<lparr>px_limiter := Some (update_thresholds a 0 c' l)\<rparr>)" for c
  proof (cases "px_limiter (wf_proxy w)")
    case (Some l)
    then have "(wf_proxy w)\<lparr>px_limiter := Some l\<rparr> = wf_proxy w" by simp
    with Some show ?thesis by (auto simp: enforce_plan_def on_plan_config_def Let_def)
  qed (simp add: enforce_plan_def)
  then show "wf_proxy (waf_heartbeat x now w) = wf_proxy w \<or> (\<exists>l a c. px_limiter (wf_proxy w) = Some l \<and>
      wf_proxy (waf_heartbeat x now w) = (wf_proxy w)\<lparr>px_limiter := Some (update_thresholds a 0 c l)\<rparr>)"
    using heartbeat_env [of enforce_plan x now "wf_lock w" ?st] unfolding proxy by (metis fst_conv)
qed

text \<open>A request is refused before the handler, with the state as it was, or handled.\<close>

lemma request_cases:
  "(snd (handle_http escaped r now d w) = w \<and> (\<forall>x. wr_reply (fst (handle_http escaped r now d w)) \<noteq> Guarded (Passed x))) \<or>
   (\<not> (lk_locked (wf_lock w) \<and> \<not> is_admin_ip (client_ip r) (wf_lock w)) \<and>
    snd (handle_http escaped r now d w) = w\<lparr>wf_proxy := snd (serve_http r now d (wf_proxy w))\<rparr> \<and>
    wr_reply (fst (handle_http escaped r now d w)) = Guarded (Passed (fst (serve_http r now d (wf_proxy w)))))"
  by (auto simp: handle_http_def dispatch_def lockdown_middleware_def security_headers_def split_beta split: routed.split)

lemma step_settings:
  assumes "px_ban (wf_proxy w) = Some b"
  shows "same_settings (wf_proxy w) (wf_proxy (snd (waf_step e w)))"
    and "\<exists>b'. px_ban (wf_proxy (snd (waf_step e w))) = Some b' \<and>
      (b' = b \<or> (\<exists>escaped r now d. e = Http_request escaped r now d \<and> bans_move (handler_ip r (wf_proxy w)) now b b'))"
proof -
  have "same_settings (wf_proxy w) (wf_proxy (snd (waf_step e w))) \<and>
      (\<exists>b'. px_ban (wf_proxy (snd (waf_step e w))) = Some b' \<and>
      (b' = b \<or> (\<exists>escaped r now d. e = Http_request escaped r now d \<and> bans_move (handler_ip r (wf_proxy w)) now b b')))"
  proof (cases e)
    case (Http_request escaped r now d)
    then show ?thesis
      using request_cases [of escaped r now d w] serve_settings [OF assms, of r now d] assms by auto
  next
    case (Heartbeat x now)
    then show ?thesis using heartbeat_waf(2) [of x now w] assms by (auto simp: same_settings_def)
  qed (use assms in \<open>auto simp: tick_proxy_def same_settings_def esc_cleanup_def option.map_comp comp_def\<close>)
  then show "same_settings (wf_proxy w) (wf_proxy (snd (waf_step e w)))"
    "\<exists>b'. px_ban (wf_proxy (snd (waf_step e w))) = Some b' \<and>
      (b' = b \<or> (\<exists>escaped r now d. e = Http_request escaped r now d \<and> bans_move (handler_ip r (wf_proxy w)) now b b'))"
    by blast+
qed

text \<open>An invariant of the steps holds after a run, and what it gives of a reply holds of all replies.\<close>

lemma run_invariant:
  assumes "P w" "\<And>e w. e \<in> set es \<Longrightarrow> P w \<Longrightarrow> P (snd (waf_step e w))"
    "\<And>e w rep. e \<in> set es \<Longrightarrow> P w \<Longrightarrow> fst (waf_step e w) = Some rep \<Longrightarrow> Q rep"
  shows "P (snd (waf_run es w)) \<and> (\<forall>rep\<in>set (fst (waf_run es w)). Q rep)"
  using assms
proof (induction es arbitrary: w)
  case (Cons e es)
  have "P (snd (waf_step e w))" using Cons.prems by simp
  then have "P (snd (waf_run es (snd (waf_step e w)))) \<and> (\<forall>rep\<in>set (fst (waf_run es (snd (waf_step e w)))). Q rep)"
    by (rule Cons.IH) (meson Cons.prems(2,3) list.set_intros(2))+
  moreover have "fst (waf_step e w) = Some rep \<Longrightarrow> Q rep" for rep
    by (rule Cons.prems(3) [of e w rep]) (use Cons.prems(1) in simp_all)
  ultimately show ?case by (auto simp: split_beta Let_def split: option.splits)
qed simp

lemma run_append: "snd (waf_run (es @ es') w) = snd (waf_run es' (snd (waf_run es w)))"
  by (induction es arbitrary: w) (simp_all add: split_beta Let_def)

subsection \<open>No run-time panic\<close>

definition engine_ready :: "proxy \<Rightarrow> bool" where
  "engine_ready p \<longleftrightarrow> px_ban p \<noteq> None \<and> (\<exists>e. px_esc p = Some e \<and> cooldown (esc_conf e) \<noteq> 0)"

lemma engine_ready_same: "same_settings p q \<Longrightarrow> px_ban q \<noteq> None \<Longrightarrow> engine_ready p \<Longrightarrow> engine_ready q"
  by (auto simp: engine_ready_def same_settings_def)

lemma ready_level: "engine_ready p \<Longrightarrow> get_escalation_level ip now p \<noteq> None"
proof -
  assume "engine_ready p"
  then have "engine_ready (snd (rate_limit_level ip now p))"
    using engine_ready_same rate_level_settings [of p ip now] by (metis engine_ready_def)
  then obtain e where e: "px_esc (snd (rate_limit_level ip now p)) = Some e" "cooldown (esc_conf e) \<noteq> 0"
    by (auto simp: engine_ready_def)
  then have "get_level ip now e \<noteq> None" by (auto simp: get_level_def Let_def split: option.splits)
  then show ?thesis using e by (auto simp: get_escalation_level_def escalation_level_def split_beta split: option.splits)
qed

lemma challenge_no_panic:
  assumes "engine_ready p"
  shows "rp_outcome (fst (serve_challenge_for_level r ip now d p)) \<noteq> Panicked"
proof -
  obtain l q where lq: "get_escalation_level ip now p = Some (l, q)" using ready_level [OF assms, of ip now] by fastforce
  have "px_ban (snd (over_soft ip now q)) \<noteq> None"
    using escalation_level_settings_get [OF lq] assms settings_steps(4) [where p = q and ip = ip and now = now]
    by (auto simp: engine_ready_def)
  then show ?thesis
    by (auto simp: serve_challenge_for_level_def lq Let_def split_beta plain_def split: option.splits)
qed

lemma protected_no_panic:
  assumes "engine_ready p"
  shows "rp_outcome (fst (serve_protected r ip now d p)) \<noteq> Panicked"
proof -
  obtain b where b: "px_ban p = Some b" using assms by (auto simp: engine_ready_def)
  define p1 where "p1 = p\<lparr>px_ban := Some (look_up ip now b)\<rparr>"
  define p4 where "p4 = snd (over_soft ip now (snd (ask_limiter is_hard_blocked ip now (count_request ip now p1))))"
  have "same_settings p p1" by (simp add: p1_def same_settings_def)
  then have "same_settings p p4"
    unfolding p4_def by (intro same_settings_trans [OF same_settings_trans [OF same_settings_trans [OF _ settings_steps(5)] settings_steps(1)] settings_steps(3)])
  moreover have "px_ban p4 \<noteq> None" by (simp add: p4_def settings_steps p1_def)
  ultimately have ready: "engine_ready p4" using engine_ready_same assms by blast
  have "engine_ready (snd (check_cookie_rate c now p4))" for c
    using engine_ready_same [OF settings_steps(7) _ ready] ready by (simp add: settings_steps engine_ready_def)
  then show ?thesis
    using challenge_no_panic [OF ready] challenge_no_panic
    by (auto simp: serve_protected_def ask_ban_eq [OF b] Let_def split_beta p1_def [symmetric] p4_def [symmetric] plain_def
        split: option.splits)
qed

lemma serve_no_panic:
  assumes "engine_ready p"
  shows "rp_outcome (fst (serve_http r now d p)) \<noteq> Panicked"
proof -
  have "rp_outcome (fst (after_success r ip now d q)) \<noteq> Panicked" for ip q
    by (simp add: after_success_def Let_def)
  moreover obtain e where "px_esc p = Some e" using assms by (auto simp: engine_ready_def)
  ultimately show ?thesis
    using protected_no_panic [OF assms]
    by (auto simp: serve_http_def Let_def handle_challenge_verify_def handle_hold_verify_def handle_transparent_verify_def
        plain_def split: prod.splits verdict.splits option.splits)
qed

definition client_ready :: "waf \<Rightarrow> bool" where
  "client_ready w \<longleftrightarrow> engine_ready (wf_proxy w)"

definition answered :: "waf_response \<Rightarrow> bool" where
  "answered rep \<longleftrightarrow> (\<forall>x. wr_reply rep = Guarded (Passed x) \<longrightarrow> rp_outcome x \<noteq> Panicked) \<and>
     wr_headers rep = [(''X-Content-Type-Options'', ''nosniff''), (''X-Frame-Options'', ''DENY'')]"

lemma ready_step: "client_ready w \<Longrightarrow> client_ready (snd (waf_step e w))"
proof -
  assume ready: "client_ready w"
  then obtain b where b: "px_ban (wf_proxy w) = Some b" by (auto simp: client_ready_def engine_ready_def)
  then show ?thesis
    using engine_ready_same [OF step_settings(1) [OF b, of e]] step_settings(2) [OF b, of e] ready
    by (auto simp: client_ready_def)
qed

lemma ready_answers: "client_ready w \<Longrightarrow> fst (waf_step e w) = Some rep \<Longrightarrow> answered rep"
proof -
  assume ready: "client_ready w" and rep: "fst (waf_step e w) = Some rep"
  from rep obtain escaped r now d where e: "e = Http_request escaped r now d" "rep = fst (handle_http escaped r now d w)"
    by (cases e) auto
  have "wr_headers rep = [(''X-Content-Type-Options'', ''nosniff''), (''X-Frame-Options'', ''DENY'')]"
    by (simp add: e handle_http_def security_headers_def)
  moreover have "rp_outcome x \<noteq> Panicked" if "wr_reply rep = Guarded (Passed x)" for x
    using request_cases [of escaped r now d w] serve_no_panic [of "wf_proxy w" r now d] ready that
    by (auto simp: e(2) client_ready_def)
  ultimately show "answered rep" by (simp add: answered_def)
qed

text \<open>A number of seconds overflows to a duration of zero exactly when \<open>2 ^ 55\<close> divides it.\<close>

lemma seconds_zero: "seconds n = 0 \<longleftrightarrow> 2 ^ 55 dvd n"
proof
  assume "2 ^ 55 dvd n"
  then obtain m where "n = 2 ^ 55 * m" by (rule dvdE)
  then have "n * nanos + 2 ^ 63 = 2 ^ 63 + (m * 1953125) * 2 ^ 64" by (simp add: nanos_def)
  then have "(n * nanos + 2 ^ 63) mod 2 ^ 64 = 2 ^ 63 mod 2 ^ 64" by (simp only: mod_mult_self1)
  then show "seconds n = 0" by (simp add: seconds_def i64_def)
next
  assume n: "seconds n = 0"
  then have "(n * nanos + 2 ^ 63) mod 2 ^ 64 = 2 ^ 63" by (simp add: seconds_def i64_def)
  then have "2 ^ 64 dvd n * nanos" using dvd_minus_mod [of "2 ^ 64" "n * nanos + 2 ^ 63"] by simp
  then have "(2 ^ 55 * 2 ^ 9) dvd (n * 1953125) * 2 ^ 9" by (simp add: nanos_def mult.commute)
  then have "2 ^ 55 dvd n * 1953125" by (simp only: dvd_mult_cancel_right) simp
  moreover have "coprime (2 ^ 55 :: int) 1953125"
    by (rule coprime_power_left_iff [THEN iffD2]) (simp add: coprime_left_2_iff_odd)
  ultimately show "2 ^ 55 dvd n" using coprime_dvd_mult_left_iff by blast
qed

lemma defaulted_cooldown: "cc_esc_cooldown (apply_defaults host c) = (if cc_esc_cooldown c = 0 then 600 else cc_esc_cooldown c)"
  by (simp add: apply_defaults_def fill_frame [of cc_esc_cooldown] fill_own [of cc_esc_cooldown])

lemma overridden_cooldown: "cc_esc_cooldown (apply_env_overrides env c) = env_or env ''KIRO_ESCALATION_COOLDOWN'' (cc_esc_cooldown c)"
  by (simp add: apply_env_overrides_def over_frame [of cc_esc_cooldown] over_int_frame [of cc_esc_cooldown] env_or_def
      over_own(2) [of cc_esc_cooldown])

text \<open>
  A cooldown of \<open>2 ^ 55\<close> seconds: the loader takes it, the duration of the engine is zero, and asking
  the level of an address that was escalated divides by it. The handler of the request panics.
\<close>

lemma overflowed_cooldown_panics:
  assumes "cc_esc_cooldown c = 2 ^ 55" "ip \<notin> set (cc_admins c)"
    and "0 < level st" "\<not> is_zero_time (last_escalation st)"
  shows "get_level ip now ((wire_escalation c)\<lparr>esc_states := [ip \<mapsto> st]\<rparr>) = None"
proof -
  have "seconds (2 ^ 55) = 0" by (rule seconds_zero [THEN iffD2]) simp
  then show ?thesis using assms by (simp add: get_level_def wire_escalation_def new_esc_engine_def)
qed


text \<open>A client wired from the sample configuration, with a request whose address fails and one that cleans up.\<close>

definition waf_disk :: disk where
  "waf_disk = \<lparr>open_ok = True, writable = 9, blocklist = []\<rparr>"

definition demo_events :: "waf_event list" where
  "demo_events = [Http_request ''/'' (plain_get ''/'' ''1.2.3.4:5'') 0 demo_draws,
     Escalation_tick 5, Heartbeat Unsent 7]"

lemma run_length: "length (fst (waf_run es w)) = length (filter (\<lambda>e. \<exists>escaped r now d. e = Http_request escaped r now d) es)"
proof (induction es arbitrary: w)
  case (Cons e es)
  show ?case
    using Cons.IH [of "snd (waf_step e w)"] by (cases e) (simp_all add: split_beta Let_def)
qed simp

lemma demo_cooldown: "\<exists>c. load_client_config demo_parse None demo_env (Parsed demo_yaml) = Inr c \<and> cc_esc_cooldown c = 600"
proof -
  obtain c where c: "load_client_config demo_parse None demo_env (Parsed demo_yaml) = Inr c" using demo_loads by blast
  have "c = merged None demo_env (load_from_yaml demo_yaml)"
    using c by (auto simp: load_cases split: if_split_asm)
  moreover have "cc_esc_cooldown (merged None demo_env (load_from_yaml demo_yaml)) = 600"
    by (simp add: merged_def defaulted_cooldown overridden_cooldown env_or_def demo_texts load_from_yaml_def demo_yaml_def
        demo_section_def profile_or_balanced_def protection_profile_def Let_def)
  ultimately show ?thesis using c by blast
qed


subsection \<open>The lock\<close>

text \<open>The heartbeats of a run.\<close>

definition beats_of :: "waf_event list \<Rightarrow> (exchange \<times> gotime) list" where
  "beats_of es = List.map_filter (\<lambda>e. case e of Heartbeat x now \<Rightarrow> Some (x, now) | _ \<Rightarrow> None) es"

lemma request_lock: "wf_lock (snd (handle_http escaped r now d w)) = wf_lock w"
  using request_cases [of escaped r now d w] by auto

lemma run_lock: "wf_lock (snd (waf_run es w)) = fst (beats (None :: (plan_config \<Rightarrow> unit \<Rightarrow> unit) option) (beats_of es) (wf_lock w, ()))"
proof (induction es arbitrary: w)
  case (Cons e es)
  have "wf_lock (snd (waf_step e w)) = fst (beats (None :: (plan_config \<Rightarrow> unit \<Rightarrow> unit) option) (beats_of [e]) (wf_lock w, ()))"
    by (cases e) (simp_all add: beats_of_def List.map_filter_simps beats_def request_lock heartbeat_waf(1))
  moreover have "beats_of (e # es) = beats_of [e] @ beats_of es"
    by (simp add: beats_of_def List.map_filter_simps split: option.split)
  moreover have "(fst z, ()) = z" for z :: "lockdown \<times> unit" by (cases z) simp
  ultimately show ?case
    using Cons.IH [of "snd (waf_step e w)"] by (simp add: split_beta Let_def beats_def)
qed (simp add: beats_of_def List.map_filter_simps beats_def)

text \<open>
  After any run the client is locked exactly when the last three heartbeats at least failed (or were
  answered with a lock). While it is locked a request whose client address is not the text of an
  administrator's entry is answered 503 or redirected, and leaves every component as it was; that
  includes the addresses inside the block of an entry, which the documentation lets in.
\<close>

lemma waf_locked:
  assumes "w = snd (waf_run es (wire_waf func dk c))"
  shows "lk_locked (wf_lock w) \<longleftrightarrow> 3 \<le> failures_in_row (beats_of es)" "lk_admins (wf_lock w) = cc_admins c"
proof -
  have lock: "wf_lock w = fst (beats (None :: (plan_config \<Rightarrow> unit \<Rightarrow> unit) option) (beats_of es) (new_lockdown (cc_admins c), ()))"
    by (simp add: assms run_lock wire_waf_def)
  show "lk_locked (wf_lock w) \<longleftrightarrow> 3 \<le> failures_in_row (beats_of es)" "lk_admins (wf_lock w) = cc_admins c"
    using lockdown_tracks [of "None :: (plan_config \<Rightarrow> unit \<Rightarrow> unit) option" "beats_of es" "cc_admins c" "()"] by (simp_all add: lock)
qed

lemma waf_refuses_locked:
  assumes "lk_locked (wf_lock w)" "client_ip r \<notin> set (lk_admins (wf_lock w))"
  shows "snd (handle_http escaped r now d w) = w"
    and "wr_reply (fst (handle_http escaped r now d w)) \<in> range Moved \<union> {Bad_request, Healthz True, Guarded Unavailable}"
proof -
  have "mux_route waf_patterns (rq_method r) escaped (rq_path r) \<noteq> Unrouted"
    by (rule root_routes) (simp add: waf_patterns_def)
  then show "snd (handle_http escaped r now d w) = w"
    "wr_reply (fst (handle_http escaped r now d w)) \<in> range Moved \<union> {Bad_request, Healthz True, Guarded Unavailable}"
    using assms
    by (auto simp: handle_http_def dispatch_def lockdown_middleware_def security_headers_def is_admin_ip_def list_ex_iff
        split: routed.split)
qed

text \<open>An administrator's entry names an address: as a text, as another text of the same address, or as a block around it.\<close>

definition admin_entry_names :: "string \<Rightarrow> string \<Rightarrow> bool" where
  "admin_entry_names ip a \<longleftrightarrow> a = ip \<or>
     (case parse_ip ip of
        None \<Rightarrow> False
      | Some x \<Rightarrow> parse_ip a = Some x \<or> (case parse_cidr a of None \<Rightarrow> False | Some (_, net) \<Rightarrow> net_contains net x))"

text \<open>
  C34. A client that loses its master shuts its door, whatever the traffic. After any run the client
  is locked exactly when the last three heartbeats at least failed (or were answered with a lock);
  while it is locked a request from a client address that no administrator's entry names, neither as
  an address nor as a block that contains it, is answered 503, or 400 or a redirection before any
  handler, and leaves every component as it was; the health endpoint tells the lock.
\<close>

theorem waf_locked_out:
  assumes "w = snd (waf_run es (wire_waf func dk c))" "\<not> list_ex (admin_entry_names (client_ip r)) (cc_admins c)"
  shows "(lk_locked (wf_lock w) \<longleftrightarrow> 3 \<le> failures_in_row (beats_of es)) \<and>
    (3 \<le> failures_in_row (beats_of es) \<longrightarrow> snd (handle_http escaped r now d w) = w \<and>
      wr_reply (fst (handle_http escaped r now d w)) \<in>
        range Moved \<union> {Bad_request, Healthz True, Guarded Unavailable})"
proof -
  have "client_ip r \<notin> set (cc_admins c)" using assms(2) by (auto simp: list_ex_iff admin_entry_names_def)
  then show ?thesis
    using waf_locked [OF assms(1)] waf_refuses_locked [of w r escaped now d] by simp
qed

definition admin_client :: client_config where
  "admin_client = zero_config\<lparr>cc_admins := [''192.168.0.0/16'']\<rparr>"

lemma stranger_not_admin: "\<not> list_ex (admin_entry_names (client_ip (plain_get ''/'' ''10.0.0.9:5000''))) (cc_admins admin_client)"
proof -
  have "\<not> admin_entry_names ''10.0.0.9'' ''192.168.0.0/16''" by code_simp
  then show ?thesis by (simp add: client_of_plain admin_client_def)
qed

theorem waf_locked_out_witness:
  "let w = snd (waf_run [Heartbeat Unsent 1, Heartbeat (Bad_status 500) 2, Limiter_tick 3, Heartbeat Unsent 4] (wire_waf True waf_disk admin_client))
   in lk_locked (wf_lock w) \<and> snd (handle_http ''/'' (plain_get ''/'' ''10.0.0.9:5000'') 5 demo_draws w) = w"
proof -
  have "beats_of [Heartbeat Unsent 1, Heartbeat (Bad_status 500) 2, Limiter_tick 3, Heartbeat Unsent 4] =
      [(Unsent, 1), (Bad_status 500, 2), (Unsent, 4)]"
    by (simp add: beats_of_def List.map_filter_simps)
  moreover have "failures_in_row [(Unsent, 1), (Bad_status 500, 2), (Unsent, 4)] = 3"
    by (simp add: failures_in_row_def)
  ultimately show ?thesis
    using waf_locked_out [OF refl stranger_not_admin, of
        "[Heartbeat Unsent 1, Heartbeat (Bad_status 500) 2, Limiter_tick 3, Heartbeat Unsent 4]" True waf_disk "''/''" 5 demo_draws]
    by (simp add: Let_def)
qed

subsection \<open>A ban\<close>

definition happens_by :: "gotime \<Rightarrow> waf_event \<Rightarrow> bool" where
  "happens_by t e \<longleftrightarrow> (\<forall>escaped r now d. e = Http_request escaped r now d \<longrightarrow> now \<le> t)"

definition holds_ban :: "string \<Rightarrow> ban_entry \<Rightarrow> waf \<Rightarrow> bool" where
  "holds_ban ip en w \<longleftrightarrow> (\<exists>b. px_ban (wf_proxy w) = Some b \<and> map_of (ban_store b) ip = Some en)"

lemma ban_stays:
  assumes "bans_move ip' now b b'" "map_of (ban_store b) ip = Some en" "now \<le> be_expires en"
  shows "map_of (ban_store b') ip = Some en"
proof -
  have looked: "map_of (ban_store (look_up ip' now b)) ip = Some en"
    using assms(2,3) by (auto simp: look_up_def is_banned_def expired_at_def time_after_def delete_conv' split: option.splits)
  have "ip' \<noteq> ip" if "\<not> fst (is_banned ip' now b)"
    using that assms(2,3) by (auto simp: is_banned_iff)
  then show ?thesis
    using assms(1,2) looked by (auto simp: bans_move_def update_conv')
qed

lemma ban_stays_step:
  assumes "holds_ban ip en w" "happens_by (be_expires en) e"
  shows "holds_ban ip en (snd (waf_step e w))"
proof -
  obtain b where b: "px_ban (wf_proxy w) = Some b" "map_of (ban_store b) ip = Some en"
    using assms(1) by (auto simp: holds_ban_def)
  then show ?thesis
    using step_settings(2) [OF b(1), of e] ban_stays [OF _ b(2)] assms(2)
    by (auto simp: holds_ban_def happens_by_def)
qed

lemma same_settings_step: "holds_ban ip en w \<Longrightarrow> same_settings (wf_proxy w) (wf_proxy (snd (waf_step e w)))"
  using step_settings(1) by (auto simp: holds_ban_def)

text \<open>
  C35. A ban outlives whatever happens to the client. An address with an entry in the ban store keeps
  it through any run of requests of any clients, ticks, plans and heartbeats up to its end. Until
  then a request whose address it is, to any path but the verify endpoints, that is routed to the
  handler and not stopped by the lock is answered 403 with no cookie and no challenge. The others
  are answered before the handler: 503 by the lock, the health endpoint's status, a redirection or
  400 by the router. So nothing is passed to the backend.
\<close>

theorem waf_ban_holds:
  assumes "px_ban (wf_proxy w) = Some b" "map_of (ban_store b) ip = Some en"
    and "\<forall>e\<in>set es. happens_by (be_expires en) e" "now \<le> be_expires en"
    and "handler_ip r (wf_proxy w) = ip" "\<not> verify_path r"
  shows "let w' = snd (waf_run es w); rep = wr_reply (fst (handle_http escaped r now d w')) in
    (mux_route waf_patterns (rq_method r) escaped (rq_path r) = Routed ''/'' \<longrightarrow>
      rep = (if lk_locked (wf_lock w') \<and> client_ip r \<notin> set (lk_admins (wf_lock w')) then Guarded Unavailable
             else Guarded (Passed (plain Forbidden)))) \<and>
    rep \<in> {Guarded (Passed (plain Forbidden)), Guarded Unavailable, Bad_request} \<union> range Moved \<union> range Healthz"
proof -
  let ?w = "snd (waf_run es w)"
  have "holds_ban ip en w \<and> same_settings (wf_proxy w) (wf_proxy w)" using assms(1,2) by (auto simp: holds_ban_def)
  then have "holds_ban ip en ?w \<and> same_settings (wf_proxy w) (wf_proxy ?w)"
    using run_invariant [of "\<lambda>v. holds_ban ip en v \<and> same_settings (wf_proxy w) (wf_proxy v)" w es "\<lambda>_. True"]
      ban_stays_step same_settings_step same_settings_trans assms(3) by blast
  then obtain b' where b': "px_ban (wf_proxy ?w) = Some b'" "map_of (ban_store b') ip = Some en"
      and ip: "handler_ip r (wf_proxy ?w) = ip"
    using assms(5) by (auto simp: holds_ban_def handler_ip_same)
  have "fst (is_banned ip now b')" using b'(2) assms(4) by (simp add: is_banned_iff)
  then have served: "fst (serve_http r now d (wf_proxy ?w)) = plain Forbidden"
    by (simp add: serve_http_protected [OF assms(6)] ip serve_protected_def ask_ban_eq [OF b'(1)])
  have "mux_route waf_patterns (rq_method r) escaped (rq_path r) \<noteq> Unrouted"
    by (rule root_routes) (simp add: waf_patterns_def)
  then show ?thesis
    using served
    by (auto simp: Let_def handle_http_def dispatch_def lockdown_middleware_def security_headers_def is_admin_ip_def
        list_ex_iff split_beta split: routed.split)
qed

lemma root_route: "mux_route waf_patterns ''GET'' ''/'' ''/'' = Routed ''/''"
  by code_simp

text \<open>What the client makes of a request to the start page while it is not locked.\<close>

lemma start_page:
  assumes "\<not> lk_locked (wf_lock w)"
  shows "handle_http ''/'' (plain_get ''/'' remote) now d w =
    (security_headers (Guarded (Passed (fst (serve_http (plain_get ''/'' remote) now d (wf_proxy w))))),
     w\<lparr>wf_proxy := snd (serve_http (plain_get ''/'' remote) now d (wf_proxy w))\<rparr>)"
  using assms by (simp add: handle_http_def root_route dispatch_def lockdown_middleware_def plain_get_def split_beta)

definition demo_visitor :: http_request where
  "demo_visitor = plain_get ''/'' ''1.2.3.4:5''"

definition demo_client :: waf where
  "demo_client = wire_waf True waf_disk (zero_config\<lparr>cc_blocklist := ''bl''\<rparr>)"

definition visitor_ip :: string where
  "visitor_ip = handler_ip demo_visitor (wf_proxy demo_client)"

definition banning_client :: waf where
  "banning_client = demo_client\<lparr>wf_proxy := (wf_proxy demo_client)\<lparr>px_ban :=
     Some (ban visitor_ip 60 ''x'' 0 (new_ban_engine [] [] waf_disk))\<rparr>\<rparr>"

lemma banning_client_unlocked: "\<not> lk_locked (wf_lock (snd (waf_run [Loop_tick 20, Limiter_tick 30] banning_client)))"
  by (simp add: banning_client_def demo_client_def wire_waf_def new_lockdown_def)

theorem waf_ban_holds_witness:
  "wr_reply (fst (handle_http ''/'' demo_visitor 50 demo_draws (snd (waf_run [Loop_tick 20, Limiter_tick 30] banning_client)))) =
     Guarded (Passed (plain Forbidden))"
proof -
  have ip: "handler_ip demo_visitor (wf_proxy banning_client) = visitor_ip"
    by (simp add: banning_client_def visitor_ip_def handler_ip_def)
  have routed: "mux_route waf_patterns (rq_method demo_visitor) ''/'' (rq_path demo_visitor) = Routed ''/''"
    using root_route by (simp add: demo_visitor_def plain_get_def)
  have ban: "px_ban (wf_proxy banning_client) = Some (ban visitor_ip 60 ''x'' 0 (new_ban_engine [] [] waf_disk))"
      "map_of (ban_store (ban visitor_ip 60 ''x'' 0 (new_ban_engine [] [] waf_disk))) visitor_ip =
        Some \<lparr>be_ip = visitor_ip, be_expires = 60, be_reason = ''x''\<rparr>"
    by (simp_all add: banning_client_def update_conv' new_ban_engine_def)
  have "\<not> lk_locked (wf_lock banning_client)"
    by (simp add: banning_client_def demo_client_def wire_waf_def new_lockdown_def)
  moreover have "\<not> verify_path demo_visitor" by (simp add: demo_visitor_def verify_path_def plain_get_def)
  ultimately show ?thesis
    using waf_ban_holds [OF ban _ _ ip, of "[Loop_tick 20, Limiter_tick 30]" 50 "''/''" demo_draws]
    by (simp add: Let_def happens_by_def routed)
qed

subsection \<open>The blocklist file\<close>

definition file_writable :: "ban_engine \<Rightarrow> bool" where
  "file_writable b \<longleftrightarrow> blocklist_path b \<noteq> [] \<and> open_ok (ban_disk b) \<and> writable (ban_disk b) \<noteq> 0"

definition file_lists :: "ban_engine \<Rightarrow> bool" where
  "file_lists b \<longleftrightarrow> (\<forall>ip en. map_of (ban_store b) ip = Some en \<longrightarrow> block_line ip \<in> set (blocklist (ban_disk b)))"

lemma looked_file: "blocklist_path (look_up ip now b) = blocklist_path b" "ban_disk (look_up ip now b) = ban_disk b"
  by (simp_all add: look_up_def is_banned_def split: option.splits)

lemma banned_file:
  "file_writable b \<Longrightarrow> ban_disk (ban ip d reason now b) = (ban_disk b)\<lparr>blocklist := blocklist (ban_disk b) @ [block_line ip]\<rparr>"
  "file_writable b \<Longrightarrow> blocklist_path (ban ip d reason now b) = blocklist_path b"
  by (simp_all add: file_writable_def ban_def append_to_blocklist_def sync_to_xdp_def Let_def)

lemma bans_move_file:
  assumes "bans_move ip now b b'" "file_writable b" "file_lists b"
  shows "file_writable b' \<and> file_lists b' \<and> prefix (blocklist (ban_disk b)) (blocklist (ban_disk b'))"
proof -
  have looked: "file_writable (look_up ip now b)" "file_lists (look_up ip now b)"
    using assms(2,3)
    by (auto simp: file_writable_def file_lists_def looked_file look_up_def is_banned_def delete_conv' split: option.splits)
  have "file_writable (ban ip d reason now (look_up ip now b)) \<and> file_lists (ban ip d reason now (look_up ip now b)) \<and>
      prefix (blocklist (ban_disk b)) (blocklist (ban_disk (ban ip d reason now (look_up ip now b))))" for d reason
    using looked banned_file [OF looked(1), of ip d reason now]
    by (simp add: file_writable_def looked_file file_lists_def update_conv')
  then show ?thesis using assms looked by (auto simp: bans_move_def looked_file)
qed

definition file_kept :: "string list \<Rightarrow> waf \<Rightarrow> bool" where
  "file_kept l w \<longleftrightarrow> (\<exists>b. px_ban (wf_proxy w) = Some b \<and> file_writable b \<and> file_lists b \<and> prefix l (blocklist (ban_disk b)))"

lemma file_kept_run:
  assumes "file_kept l w"
  shows "file_kept l (snd (waf_run es w))"
proof -
  have step: "file_kept l (snd (waf_step e w))" if ok: "file_kept l w" for e w
  proof -
    obtain b where b: "px_ban (wf_proxy w) = Some b" "file_writable b" "file_lists b" "prefix l (blocklist (ban_disk b))"
      using ok by (auto simp: file_kept_def)
    then show ?thesis
      using step_settings(2) [OF b(1), of e] bans_move_file [OF _ b(2,3)] unfolding file_kept_def
      by (blast intro: prefix_order.trans)
  qed
  then show ?thesis using run_invariant [of "file_kept l" w es "\<lambda>_. True"] assms by blast
qed

lemma file_kept_start:
  assumes "cc_blocklist c \<noteq> []" "open_ok dk" "writable dk \<noteq> 0"
  shows "file_kept [] (wire_waf func dk c)"
  using assms
  by (simp add: file_kept_def wire_waf_def wire_proxy_def new_proxy_handler_def new_ban_engine_def file_writable_def file_lists_def)

text \<open>
  C36. Where the client writes a blocklist (a path is configured, the file opens and takes the
  line), every ban it keeps reaches the file: at every point of every run, whatever the client was
  sent, each address with an entry in the ban store has its line in the file, the form the sync
  script of the kernel filter reads. No ban is stored without its line, and no step of the client
  loses the line of an address that is still in the store.
\<close>

theorem waf_blocklist_covers_bans:
  assumes "cc_blocklist c \<noteq> []" "open_ok dk" "writable dk \<noteq> 0"
  shows "\<exists>b. px_ban (wf_proxy (snd (waf_run es (wire_waf func dk c)))) = Some b \<and>
    (\<forall>ip en. map_of (ban_store b) ip = Some en \<longrightarrow> block_line ip \<in> set (blocklist (ban_disk b)))"
  using file_kept_run [OF file_kept_start [OF assms, of func], of es] by (auto simp: file_kept_def file_lists_def)

text \<open>
  The file of a client with these conditions only grows: its lines are never removed, and an address
  that was banned at any time of a run has its line in the file at every later time, long after its
  ban is over. \<^verbatim>\<open>CleanupExpired\<close>, which would rewrite the file without the bans that are over, is not
  called by the client: its tickers sweep the other components. (The ban time bounds the refusal by
  the handler only, and the filter in the kernel reads the file.)
\<close>

lemma waf_blocklist_grows:
  assumes "cc_blocklist c \<noteq> []" "open_ok dk" "writable dk \<noteq> 0"
    and "px_ban (wf_proxy (snd (waf_run es (wire_waf func dk c)))) = Some b" "map_of (ban_store b) ip = Some en"
  shows "\<exists>b'. px_ban (wf_proxy (snd (waf_run (es @ later) (wire_waf func dk c)))) = Some b' \<and>
    prefix (blocklist (ban_disk b)) (blocklist (ban_disk b')) \<and> block_line ip \<in> set (blocklist (ban_disk b'))"
proof -
  have "file_kept (blocklist (ban_disk b)) (snd (waf_run es (wire_waf func dk c)))"
      and listed: "block_line ip \<in> set (blocklist (ban_disk b))"
    using file_kept_run [OF file_kept_start [OF assms(1-3), of func], of es] assms(4,5) by (auto simp: file_kept_def file_lists_def)
  from file_kept_run [OF this(1), of later] show ?thesis
    using listed by (auto simp: file_kept_def run_append dest: set_mono_prefix)
qed

text \<open>A client whose hard limit is reached by the first request.\<close>

lemma visitor_reply: "\<exists>b en. px_ban (wf_proxy (snd (waf_run [Http_request ''/'' demo_visitor 0 demo_draws] demo_client))) = Some b \<and>
    map_of (ban_store b) visitor_ip = Some en"
proof -
  let ?p = "wf_proxy demo_client"
  have parts: "px_limiter ?p = Some (wire_limiter (zero_config\<lparr>cc_blocklist := ''bl''\<rparr>))"
      "px_ban ?p = Some (new_ban_engine ''bl'' (go_fields []) waf_disk)"
    by (simp_all add: demo_client_def wire_waf_def wire_proxy_def new_proxy_handler_def zero_config_def)
  have window: "window_ok (wire_limiter (zero_config\<lparr>cc_blocklist := ''bl''\<rparr>))"
    by (simp add: window_ok_def wire_limiter_def new_limiter_def seconds_eq)
  have "hard_threshold (lim_config (wire_limiter (zero_config\<lparr>cc_blocklist := ''bl''\<rparr>))) \<le>
      load (handler_ip demo_visitor ?p) 0 (wire_limiter (zero_config\<lparr>cc_blocklist := ''bl''\<rparr>)) + 1"
    by (simp add: wire_limiter_def zero_config_def new_limiter_def load_def)
  moreover have "\<not> verify_path demo_visitor" "rq_header demo_visitor ''User-Agent'' = ''Mozilla/5.0''"
    by (simp_all add: demo_visitor_def verify_path_def plain_get_def)
  moreover have "\<not> fst (is_banned ip 0 (new_ban_engine ''bl'' (go_fields []) waf_disk))" for ip
    by (simp add: is_banned_def new_ban_engine_def)
  moreover have "\<not> is_automation_ua (rq_header demo_visitor ''User-Agent'')"
    using mozilla_ok by (simp add: demo_visitor_def plain_get_def)
  moreover have "ban_inv (new_ban_engine ''bl'' (go_fields []) waf_disk)" by (rule ban_inv_new)
  ultimately obtain b where b: "px_ban (snd (serve_http demo_visitor 0 demo_draws ?p)) = Some b"
      "\<forall>t. fst (is_banned visitor_ip t b) \<longleftrightarrow> t \<le> 0 + pc_ban_duration (px_conf ?p)"
    using hard_limit_bans [OF _ parts(1) window parts(2), of demo_visitor 0 demo_draws] unfolding visitor_ip_def by blast
  have "0 \<le> pc_ban_duration (px_conf ?p)"
    by (simp add: demo_client_def wire_waf_def wire_proxy_def new_proxy_handler_def proxy_defaults_def minutes_eq)
  then obtain en where "map_of (ban_store b) visitor_ip = Some en"
    using b(2) [rule_format, of 0] by (auto simp: is_banned_iff)
  moreover have "\<not> lk_locked (wf_lock demo_client)" by (simp add: demo_client_def wire_waf_def new_lockdown_def)
  ultimately show ?thesis
    using b(1) start_page [of demo_client "''1.2.3.4:5''" 0 demo_draws] by (simp add: demo_visitor_def split_beta Let_def)
qed

theorem waf_blocklist_covers_bans_witness:
  "\<exists>b en. px_ban (wf_proxy (snd (waf_run [Http_request ''/'' demo_visitor 0 demo_draws] demo_client))) = Some b \<and>
     map_of (ban_store b) visitor_ip = Some en \<and> block_line visitor_ip \<in> set (blocklist (ban_disk b))"
proof -
  obtain b en where b: "px_ban (wf_proxy (snd (waf_run [Http_request ''/'' demo_visitor 0 demo_draws] demo_client))) = Some b"
      "map_of (ban_store b) visitor_ip = Some en" using visitor_reply by blast
  with waf_blocklist_covers_bans [of "zero_config\<lparr>cc_blocklist := ''bl''\<rparr>" waf_disk "[Http_request ''/'' demo_visitor 0 demo_draws]" True]
  show ?thesis by (simp add: demo_client_def waf_disk_def)
qed

subsection \<open>The subnet limit\<close>

definition with_subnet :: "int \<Rightarrow> limiter \<Rightarrow> limiter" where
  "with_subnet n l = l\<lparr>lim_config := (lim_config l)\<lparr>subnet_threshold := n\<rparr>\<rparr>"

definition proxy_subnet :: "int \<Rightarrow> proxy \<Rightarrow> proxy" where
  "proxy_subnet n p = p\<lparr>px_limiter := map_option (with_subnet n) (px_limiter p)\<rparr>"

lemma limiter_subnet:
  "allow ip now (with_subnet n l) = apsnd (with_subnet n) (allow ip now l)"
  "is_hard_blocked ip now (with_subnet n l) = apsnd (with_subnet n) (is_hard_blocked ip now l)"
  "is_double_threshold ip now (with_subnet n l) = apsnd (with_subnet n) (is_double_threshold ip now l)"
  "record_request ip now (with_subnet n l) = with_subnet n (record_request ip now l)"
  "reset_ip ip (with_subnet n l) = with_subnet n (reset_ip ip l)"
  by (auto simp: with_subnet_def rl_defs get_or_create_ip_def get_or_create_subnet_def split: option.splits)

lemma cleanup_subnet: "limiter_cleanup now (with_subnet n l) = with_subnet n (limiter_cleanup now l)"
proof -
  have "prune_ip_state (with_subnet n l) now = prune_ip_state l now" "prune_subnet_state (with_subnet n l) now = prune_subnet_state l now"
    by (simp_all add: fun_eq_iff prune_ip_state_def prune_subnet_state_def cutoff_def with_subnet_def)
  then show ?thesis by (cases l) (simp add: limiter_cleanup_def, simp add: with_subnet_def)
qed

lemma update_subnet:
  "update_thresholds a b c (with_subnet n l) = with_subnet (if 0 < c then c else n) (update_thresholds a b c l)"
  by (simp add: update_thresholds_def with_subnet_def)

lemma subnet_fields [simp]:
  "px_ban (proxy_subnet n p) = px_ban p" "px_store (proxy_subnet n p) = px_store p" "px_esc (proxy_subnet n p) = px_esc p"
  "px_loop (proxy_subnet n p) = px_loop p" "px_conf (proxy_subnet n p) = px_conf p" "px_mgr_v2 (proxy_subnet n p) = px_mgr_v2 p"
  "px_cookie_limiter (proxy_subnet n p) = px_cookie_limiter p" "px_cf (proxy_subnet n p) = px_cf p" "px_tls (proxy_subnet n p) = px_tls p"
  "handler_ip r (proxy_subnet n p) = handler_ip r p"
  "has_valid_cookie_v2 r ip now (proxy_subnet n p) = has_valid_cookie_v2 r ip now p"
  "set_access_cookie_v2 r ip now d (proxy_subnet n p) = set_access_cookie_v2 r ip now d p"
  by (simp_all add: proxy_subnet_def handler_ip_def)

lemma subnet_updates [simp]:
  "(proxy_subnet n p)\<lparr>px_ban := b\<rparr> = proxy_subnet n (p\<lparr>px_ban := b\<rparr>)"
  "(proxy_subnet n p)\<lparr>px_store := st\<rparr> = proxy_subnet n (p\<lparr>px_store := st\<rparr>)"
  "(proxy_subnet n p)\<lparr>px_esc := e\<rparr> = proxy_subnet n (p\<lparr>px_esc := e\<rparr>)"
  "(proxy_subnet n p)\<lparr>px_loop := ld\<rparr> = proxy_subnet n (p\<lparr>px_loop := ld\<rparr>)"
  "(proxy_subnet n p)\<lparr>px_cookie_limiter := cl\<rparr> = proxy_subnet n (p\<lparr>px_cookie_limiter := cl\<rparr>)"
  by (simp_all add: proxy_subnet_def)

lemma refresh_subnet [simp]: "maybe_refresh_cookie r ip now d (proxy_subnet n p) = maybe_refresh_cookie r ip now d p"
proof -
  have "handler_fp r (proxy_subnet n p) = handler_fp r p" by (simp add: handler_fp_def)
  then show ?thesis by (simp add: maybe_refresh_cookie_def split: option.split sum.split)
qed

lemma steps_subnet:
  "ask_limiter is_hard_blocked ip now (proxy_subnet n p) = apsnd (proxy_subnet n) (ask_limiter is_hard_blocked ip now p)"
  "ask_limiter is_double_threshold ip now (proxy_subnet n p) = apsnd (proxy_subnet n) (ask_limiter is_double_threshold ip now p)"
  "over_soft ip now (proxy_subnet n p) = apsnd (proxy_subnet n) (over_soft ip now p)"
  "count_request ip now (proxy_subnet n p) = proxy_subnet n (count_request ip now p)"
  "ask_ban ip now (proxy_subnet n p) = apsnd (proxy_subnet n) (ask_ban ip now p)"
  "check_cookie_rate c now (proxy_subnet n p) = apsnd (proxy_subnet n) (check_cookie_rate c now p)"
  "note_loop ip kind now (proxy_subnet n p) = proxy_subnet n (note_loop ip kind now p)"
  "should_bypass_loop ip kind now (proxy_subnet n p) = should_bypass_loop ip kind now p"
  subgoal by (simp add: ask_limiter_def proxy_subnet_def limiter_subnet split_beta split: option.split)
  subgoal by (simp add: ask_limiter_def proxy_subnet_def limiter_subnet split_beta split: option.split)
  subgoal by (simp add: over_soft_def proxy_subnet_def limiter_subnet split_beta split: option.split)
  subgoal by (simp add: count_request_def proxy_subnet_def limiter_subnet split: option.split)
  subgoal by (simp add: ask_ban_def split_beta split: option.split)
  subgoal by (simp add: check_cookie_rate_def split_beta split: option.split)
  subgoal by (simp add: note_loop_def split: option.split)
  subgoal by (simp add: should_bypass_loop_def split: option.split)
  done

lemma rate_level_subnet: "rate_limit_level ip now (proxy_subnet n p) = apsnd (proxy_subnet n) (rate_limit_level ip now p)"
  by (simp add: rate_limit_level_def steps_subnet split_beta Let_def)

lemma escalation_level_subnet: "escalation_level ip now (proxy_subnet n p) = map_option (apsnd (proxy_subnet n)) (escalation_level ip now p)"
  by (auto simp: escalation_level_def split: option.split)

lemma level_subnet: "get_escalation_level ip now (proxy_subnet n p) = map_option (apsnd (proxy_subnet n)) (get_escalation_level ip now p)"
  by (simp add: get_escalation_level_def rate_level_subnet escalation_level_subnet split_beta Let_def split: option.split)

lemma challenge_subnet: "serve_challenge_for_level r ip now d (proxy_subnet n p) = apsnd (proxy_subnet n) (serve_challenge_for_level r ip now d p)"
proof (cases "get_escalation_level ip now p")
  case None
  then show ?thesis by (simp add: serve_challenge_for_level_def level_subnet rate_level_subnet)
next
  case (Some lq)
  obtain l q where "lq = (l, q)" by fastforce
  with Some show ?thesis
    by (simp add: serve_challenge_for_level_def level_subnet steps_subnet split_beta Let_def split: option.split)
qed

lemma after_success_subnet: "after_success r ip now d (proxy_subnet n p) = apsnd (proxy_subnet n) (after_success r ip now d p)"
proof (cases "px_limiter p")
  case None
  then have "proxy_subnet n p = p" by (simp add: proxy_subnet_def)
  moreover have "proxy_subnet n (snd (after_success r ip now d p)) = snd (after_success r ip now d p)"
    using None by (simp add: after_success_def proxy_subnet_def Let_def split: option.split)
  ultimately show ?thesis by (simp add: prod_eq_iff)
next
  case (Some l)
  have "(proxy_subnet n p)\<lparr>px_limiter := Some (reset_ip ip (with_subnet n l))\<rparr> = proxy_subnet n (p\<lparr>px_limiter := Some (reset_ip ip l)\<rparr>)"
    by (simp add: proxy_subnet_def limiter_subnet)
  moreover have "px_limiter (proxy_subnet n p) = Some (with_subnet n l)" using Some by (simp add: proxy_subnet_def)
  ultimately show ?thesis using Some by (simp add: after_success_def Let_def split: option.split)
qed

lemma serve_subnet: "serve_http r now d (proxy_subnet n p) = apsnd (proxy_subnet n) (serve_http r now d p)"
proof -
  have "serve_protected r ip now d (proxy_subnet n p) = apsnd (proxy_subnet n) (serve_protected r ip now d p)" for ip
    by (simp add: serve_protected_def steps_subnet challenge_subnet split_beta Let_def split: option.split)
  moreover have "handle_challenge_verify r ip now d (proxy_subnet n p) = apsnd (proxy_subnet n) (handle_challenge_verify r ip now d p)"
      "handle_hold_verify r ip now d (proxy_subnet n p) = apsnd (proxy_subnet n) (handle_hold_verify r ip now d p)"
      "handle_transparent_verify r ip now d (proxy_subnet n p) = apsnd (proxy_subnet n) (handle_transparent_verify r ip now d p)" for ip
    by (simp_all add: handle_challenge_verify_def handle_hold_verify_def handle_transparent_verify_def after_success_subnet
        split: prod.split verdict.split option.split)
  ultimately show ?thesis by (simp add: serve_http_def Let_def)
qed

text \<open>Two clients that differ in the subnet limit.\<close>

definition same_but_subnet :: "waf \<Rightarrow> waf \<Rightarrow> bool" where
  "same_but_subnet w v \<longleftrightarrow> (\<exists>n. v = w\<lparr>wf_proxy := proxy_subnet n (wf_proxy w)\<rparr>)"

lemma request_subnet:
  "handle_http escaped r now d (w\<lparr>wf_proxy := proxy_subnet n (wf_proxy w)\<rparr>) =
     apsnd (\<lambda>v. v\<lparr>wf_proxy := proxy_subnet n (wf_proxy v)\<rparr>) (handle_http escaped r now d w)"
proof -
  have "dispatch pat r now d (w\<lparr>wf_proxy := proxy_subnet n (wf_proxy w)\<rparr>) =
      apsnd (\<lambda>v. v\<lparr>wf_proxy := proxy_subnet n (wf_proxy v)\<rparr>) (dispatch pat r now d w)" for pat
    by (simp add: dispatch_def lockdown_middleware_def serve_subnet split_beta)
  then show ?thesis by (simp add: handle_http_def prod_eq_iff split: routed.split)
qed

lemma plan_subnet: "\<exists>m. enforce_plan c (proxy_subnet n p, func, started) =
    apfst (proxy_subnet m) (enforce_plan c (p, func, started))"
proof (cases "px_limiter p")
  case None
  then show ?thesis by (intro exI [of _ n]) (simp add: enforce_plan_def proxy_subnet_def)
next
  case (Some l)
  show ?thesis
  proof (cases "0 < pc_rpm c \<or> 0 < pc_subnet_rpm c")
    case True
    with Some show ?thesis
      by (intro exI [of _ "if 0 < pc_subnet_rpm c then pc_subnet_rpm c else n"])
        (simp add: enforce_plan_def proxy_subnet_def on_plan_config_def update_subnet Let_def)
  next
    case False
    with Some show ?thesis
      by (intro exI [of _ n]) (simp add: enforce_plan_def proxy_subnet_def on_plan_config_def Let_def)
  qed
qed

lemma heartbeat_subnet: "\<exists>m. waf_heartbeat x now (w\<lparr>wf_proxy := proxy_subnet n (wf_proxy w)\<rparr>) =
    (waf_heartbeat x now w)\<lparr>wf_proxy := proxy_subnet m (wf_proxy (waf_heartbeat x now w))\<rparr>"
proof (cases "\<exists>a c. x = Answer a \<and> \<not> lo_lock a \<and> lo_config a = Some c")
  case True
  then obtain a c where a: "x = Answer a" "\<not> lo_lock a" "lo_config a = Some c" by blast
  obtain m where "enforce_plan c (proxy_subnet n (wf_proxy w), wf_xdp_func w, wf_xdp_started w) =
      apfst (proxy_subnet m) (enforce_plan c (wf_proxy w, wf_xdp_func w, wf_xdp_started w))"
    using plan_subnet by blast
  then show ?thesis
    by (intro exI [of _ m]) (simp add: waf_heartbeat_def send_heartbeat_def a split_beta Let_def)
next
  case False
  have "snd (send_heartbeat (Some enforce_plan) x now (l, e)) = e" for l e
    using False by (cases x) (auto simp: send_heartbeat_def Let_def split: option.split)
  then have "waf_heartbeat x now v = v\<lparr>wf_lock := fst (send_heartbeat None x now (wf_lock v, ()))\<rparr>" for v
    by (cases v) (simp add: waf_heartbeat_def split_beta heartbeat_lock [of "Some enforce_plan"])
  then show ?thesis by (intro exI [of _ n]) simp
qed

lemma tick_subnet: "tick_proxy e (proxy_subnet n p) = proxy_subnet n (tick_proxy e p)"
  by (simp add: tick_proxy_def split: waf_event.split)
    (simp add: proxy_subnet_def option.map_comp comp_def cleanup_subnet)

lemma step_subnet:
  assumes "same_but_subnet w v"
  shows "fst (waf_step e v) = fst (waf_step e w) \<and> same_but_subnet (snd (waf_step e w)) (snd (waf_step e v))"
proof -
  obtain n where v: "v = w\<lparr>wf_proxy := proxy_subnet n (wf_proxy w)\<rparr>" using assms by (auto simp: same_but_subnet_def)
  show ?thesis
  proof (cases e)
    case (Http_request escaped r now d)
    then show ?thesis by (auto simp: v request_subnet same_but_subnet_def)
  next
    case (Heartbeat x now)
    then show ?thesis using heartbeat_subnet [where x = x and now = now and w = w and n = n] by (auto simp: v same_but_subnet_def)
  qed (auto simp: v tick_subnet same_but_subnet_def)
qed

lemma run_subnet: "same_but_subnet w v \<Longrightarrow> fst (waf_run es v) = fst (waf_run es w)"
proof (induction es arbitrary: w v)
  case (Cons e es)
  note step = step_subnet [OF Cons.prems, of e]
  with Cons.IH [of "snd (waf_step e w)" "snd (waf_step e v)"] show ?case by (simp add: split_beta Let_def split: option.split)
qed simp

text \<open>
  The subnet limit protects nothing, against what its documentation says. Two clients whose configurations differ in the requests per
  minute of a subnet only give the same response to every request of every run, whatever plans the
  master sends: the handler counts the requests of subnets and never asks for the count.
\<close>

theorem subnet_limit_unused:
  "fst (waf_run es (wire_waf func dk (c\<lparr>cc_subnet := n\<rparr>))) = fst (waf_run es (wire_waf func dk c))"
proof (rule run_subnet)
  show "same_but_subnet (wire_waf func dk c) (wire_waf func dk (c\<lparr>cc_subnet := n\<rparr>))"
    by (auto simp: same_but_subnet_def wire_waf_def wire_proxy_def wire_config_def wire_limiter_def wire_escalation_def
        new_proxy_handler_def new_limiter_def proxy_subnet_def with_subnet_def)
qed

end
