(* ===== verification/XdpMaps.thy ===== *)
theory XdpMaps
  imports Crypto GoNet
begin

text \<open>
  The configuration map of the kernel filter, \<^verbatim>\<open>internal/client/xdp/config_sync.go\<close>, and the
  text of \<^verbatim>\<open>bpftool\<close> that carries it, the readers of \<^verbatim>\<open>botnet_controller.go\<close>.

  The program \<^verbatim>\<open>bpftool\<close> is outside the repository: it is an argument, a function of its command
  line and of the kernel's state to success, output and the new state. What is assumed of it is
  the predicate \<open>bpf_law\<close>: an update that succeeds stores the bytes of its command line, a lookup
  prints the stored bytes in the raw format the code's comments give.
\<close>

type_synonym 'k bpftool = "string list \<Rightarrow> 'k \<Rightarrow> (bool \<times> string) \<times> 'k"

datatype xdp_error = Tool_failed | No_hex_bytes | Config_short | Random_failed | Few_bytes

subsection \<open>Bytes as hexadecimal words\<close>

definition hex_word :: "u8 \<Rightarrow> string" where
  "hex_word b = [hex_digit (unat b div 16), hex_digit (unat b mod 16)]"

definition hex_byte :: "u8 \<Rightarrow> string" where
  "hex_byte b = ''0x'' @ hex_word b"

definition bytes_to_hex :: "u8 list \<Rightarrow> string" where
  "bytes_to_hex bs = join_with '' '' (map hex_byte bs)"

text \<open>A word of two digits that \<^verbatim>\<open>ParseUint\<close> reads; every other word is passed over.\<close>

definition hex_token :: "string \<Rightarrow> u8 option" where
  "hex_token p =
     (case trim_prefix ''0x'' p of
        [a, b] \<Rightarrow> (case (hex_val a, hex_val b) of
                     (Some x, Some y) \<Rightarrow> Some (word_of_nat (16 * x + y)) | _ \<Rightarrow> None)
      | _ \<Rightarrow> None)"

fun hex_tokens :: "string list \<Rightarrow> u8 list" where
  "hex_tokens [] = []"
| "hex_tokens (p # ps) = (case hex_token p of None \<Rightarrow> hex_tokens ps | Some b \<Rightarrow> b # hex_tokens ps)"

definition parse_hex_string :: "string \<Rightarrow> u8 list" where
  "parse_hex_string s = hex_tokens (go_fields s)"

text \<open>What is between the first and the last quote of a line.\<close>

definition extract_hex_value :: "string \<Rightarrow> string" where
  "extract_hex_value line =
     (case (index_of CHR 0x22 line, last_index CHR 0x22 line) of
        (Some start, Some stop) \<Rightarrow> if stop \<le> start then [] else take (stop - Suc start) (drop (Suc start) line)
      | _ \<Rightarrow> [])"

fun parse_hex_lines :: "string list \<Rightarrow> u8 list" where
  "parse_hex_lines [] = []"
| "parse_hex_lines (raw # rest) =
     (let line = trim_space raw
      in (if line = [] then []
          else case index_sub ''value:'' line of
                 Some i \<Rightarrow> parse_hex_string (trim_space (drop (i + 6) line))
               | None \<Rightarrow>
                   if contains_sub ''0x'' line
                   then (if extract_hex_value line \<noteq> [] then parse_hex_string (extract_hex_value line)
                         else parse_hex_string line)
                   else []) @ parse_hex_lines rest)"

definition parse_hex_bytes :: "string \<Rightarrow> xdp_error + u8 list" where
  "parse_hex_bytes output =
     (let result = parse_hex_lines (split_on CHR 0x0A output)
      in if result = [] then Inl No_hex_bytes else Inr result)"

subsection \<open>Calls of bpftool\<close>

definition index_zero :: string where "index_zero = ''0x00 0x00 0x00 0x00''"

definition bpftool_map_update :: "'k bpftool \<Rightarrow> string \<Rightarrow> string \<Rightarrow> string \<Rightarrow> 'k \<Rightarrow> (xdp_error + unit) \<times> 'k" where
  "bpftool_map_update run map_name key_hex value_hex k =
     (case run ([''map'', ''update'', ''name'', map_name, ''key''] @ go_fields key_hex
                @ [''value''] @ go_fields value_hex) k of
        ((ok, out), k') \<Rightarrow> (if ok then Inr () else Inl Tool_failed, k'))"

definition read_config_map :: "'k bpftool \<Rightarrow> string \<Rightarrow> 'k \<Rightarrow> (xdp_error + u8 list) \<times> 'k" where
  "read_config_map run map_name k =
     (case run ([''map'', ''lookup'', ''name'', map_name, ''key''] @ go_fields index_zero) k of
        ((ok, out), k') \<Rightarrow> (if ok then parse_hex_bytes out else Inl Tool_failed, k'))"

definition write_config_map :: "'k bpftool \<Rightarrow> string \<Rightarrow> u8 list \<Rightarrow> 'k \<Rightarrow> (xdp_error + unit) \<times> 'k" where
  "write_config_map run map_name dat k =
     (case run ([''map'', ''update'', ''name'', map_name] @ [''key''] @ go_fields index_zero
                @ [''value''] @ go_fields (bytes_to_hex dat)) k of
        ((ok, out), k') \<Rightarrow> (if ok then Inr () else Inl Tool_failed, k'))"

definition write_botnet_mode_active :: "'k bpftool \<Rightarrow> string \<Rightarrow> u8 \<Rightarrow> 'k \<Rightarrow> (xdp_error + unit) \<times> 'k" where
  "write_botnet_mode_active run map_name v k =
     (case read_config_map run map_name k of
        (Inl e, k1) \<Rightarrow> (Inl e, k1)
      | (Inr bytes, k1) \<Rightarrow>
          if length bytes \<le> 48 then (Inl Config_short, k1)
          else write_config_map run map_name (bytes[48 := v]) k1)"

subsection \<open>The configuration\<close>

record xdp_config =
  xc_window :: u64
  xc_per_ip :: u32
  xc_syn :: u32
  xc_udp :: u32
  xc_icmp :: u32
  xc_drop_private :: u8
  xc_drop_malformed :: u8
  xc_rate_limit :: u8
  xc_drop_fragments :: u8
  xc_subnet24 :: u32
  xc_cookie_threshold :: u32
  xc_cookie_active :: u8
  xc_conn_tracker :: u8
  xc_geoip :: u8
  xc_pad :: u8
  xc_botnet_threshold :: u32
  xc_botnet_cooldown :: u32
  xc_botnet_active :: u8
  xc_pad_bn :: "u8 \<times> u8 \<times> u8"

text \<open>A write at an offset of the buffer.\<close>

definition put_at :: "nat \<Rightarrow> u8 list \<Rightarrow> u8 list \<Rightarrow> u8 list" where
  "put_at off bs buf = take off buf @ bs @ drop (off + length bs) buf"

definition serialize_xdp_config :: "xdp_config \<Rightarrow> u8 list" where
  "serialize_xdp_config c =
     (let buf = replicate 52 0;
          buf = put_at 0 (le_bytes 8 (xc_window c)) buf;
          buf = put_at 8 (le_bytes 4 (xc_per_ip c)) buf;
          buf = put_at 12 (le_bytes 4 (xc_syn c)) buf;
          buf = put_at 16 (le_bytes 4 (xc_udp c)) buf;
          buf = put_at 20 (le_bytes 4 (xc_icmp c)) buf;
          buf = buf[24 := xc_drop_private c];
          buf = buf[25 := xc_drop_malformed c];
          buf = buf[26 := xc_rate_limit c];
          buf = buf[27 := xc_drop_fragments c];
          buf = put_at 28 (le_bytes 4 (xc_subnet24 c)) buf;
          buf = put_at 32 (le_bytes 4 (xc_cookie_threshold c)) buf;
          buf = buf[36 := xc_cookie_active c];
          buf = buf[37 := xc_conn_tracker c];
          buf = buf[38 := xc_geoip c];
          buf = buf[39 := xc_pad c];
          buf = put_at 40 (le_bytes 4 (xc_botnet_threshold c)) buf;
          buf = put_at 44 (le_bytes 4 (xc_botnet_cooldown c)) buf;
          buf = buf[48 := xc_botnet_active c];
          buf = buf[49 := fst (xc_pad_bn c)];
          buf = buf[50 := fst (snd (xc_pad_bn c))];
          buf = buf[51 := snd (snd (xc_pad_bn c))]
      in buf)"

definition bytes_at :: "nat \<Rightarrow> nat \<Rightarrow> u8 list \<Rightarrow> u8 list" where
  "bytes_at lo hi dat = take (hi - lo) (drop lo dat)"

definition deserialize_xdp_config :: "u8 list \<Rightarrow> xdp_error + xdp_config" where
  "deserialize_xdp_config dat =
     (if length dat < 52 then Inl Config_short
      else Inr
        \<lparr>xc_window = le_word (bytes_at 0 8 dat),
         xc_per_ip = le_word (bytes_at 8 12 dat),
         xc_syn = le_word (bytes_at 12 16 dat),
         xc_udp = le_word (bytes_at 16 20 dat),
         xc_icmp = le_word (bytes_at 20 24 dat),
         xc_drop_private = dat ! 24,
         xc_drop_malformed = dat ! 25,
         xc_rate_limit = dat ! 26,
         xc_drop_fragments = dat ! 27,
         xc_subnet24 = le_word (bytes_at 28 32 dat),
         xc_cookie_threshold = le_word (bytes_at 32 36 dat),
         xc_cookie_active = dat ! 36,
         xc_conn_tracker = dat ! 37,
         xc_geoip = dat ! 38,
         xc_pad = dat ! 39,
         xc_botnet_threshold = le_word (bytes_at 40 44 dat),
         xc_botnet_cooldown = le_word (bytes_at 44 48 dat),
         xc_botnet_active = dat ! 48,
         xc_pad_bn = (dat ! 49, dat ! 50, dat ! 51)\<rparr>)"

record syn_cookie_key =
  sk_k0 :: u64
  sk_k1 :: u64

record config_sync =
  cy_config_map :: string
  cy_key_map :: string
  cy_interval :: duration
  cy_last_sync :: gotime
  cy_last_key :: syn_cookie_key
  cy_rotated :: bool

definition new_config_sync :: "duration \<Rightarrow> config_sync" where
  "new_config_sync interval =
     \<lparr>cy_config_map = ''kiro_config'', cy_key_map = ''syn_cookie_key_map'',
      cy_interval = (if interval \<le> 0 then 24 * 3600 * nanos else interval),
      cy_last_sync = zero_time, cy_last_key = \<lparr>sk_k0 = 0, sk_k1 = 0\<rparr>, cy_rotated = False\<rparr>"

definition write_config_to_map :: "'k bpftool \<Rightarrow> config_sync \<Rightarrow> u8 list \<Rightarrow> 'k \<Rightarrow> (xdp_error + unit) \<times> 'k" where
  "write_config_to_map run cs dat k = bpftool_map_update run (cy_config_map cs) index_zero (bytes_to_hex dat) k"

definition sync_config :: "'k bpftool \<Rightarrow> xdp_config \<Rightarrow> gotime \<Rightarrow> config_sync \<Rightarrow> 'k \<Rightarrow>
    (xdp_error + unit) \<times> config_sync \<times> 'k" where
  "sync_config run c now cs k =
     (case write_config_to_map run cs (serialize_xdp_config c) k of
        (Inl e, k') \<Rightarrow> (Inl e, cs, k')
      | (Inr _, k') \<Rightarrow> (Inr (), cs\<lparr>cy_last_sync := now\<rparr>, k'))"

definition read_config :: "'k bpftool \<Rightarrow> config_sync \<Rightarrow> 'k \<Rightarrow> (xdp_error + xdp_config) \<times> 'k" where
  "read_config run cs k =
     (case read_config_map run (cy_config_map cs) k of
        (Inl e, k') \<Rightarrow> (Inl e, k') | (Inr dat, k') \<Rightarrow> (deserialize_xdp_config dat, k'))"

text \<open>\<open>random\<close>: the sixteen bytes of \<^verbatim>\<open>crypto/rand\<close>, or none.\<close>

definition generate_syn_cookie_key :: "u8 list option \<Rightarrow> xdp_error + syn_cookie_key" where
  "generate_syn_cookie_key random =
     (case random of None \<Rightarrow> Inl Random_failed
      | Some buf \<Rightarrow> Inr \<lparr>sk_k0 = le_word (bytes_at 0 8 buf), sk_k1 = le_word (bytes_at 8 16 buf)\<rparr>)"

definition write_syn_cookie_key :: "'k bpftool \<Rightarrow> config_sync \<Rightarrow> syn_cookie_key \<Rightarrow> 'k \<Rightarrow> (xdp_error + unit) \<times> 'k" where
  "write_syn_cookie_key run cs key k =
     (let buf = replicate 16 0;
          buf = put_at 0 (le_bytes 8 (sk_k0 key)) buf;
          buf = put_at 8 (le_bytes 8 (sk_k1 key)) buf
      in bpftool_map_update run (cy_key_map cs) index_zero (bytes_to_hex buf) k)"

definition rotate_syn_cookie_key :: "'k bpftool \<Rightarrow> u8 list option \<Rightarrow> config_sync \<Rightarrow> 'k \<Rightarrow>
    (xdp_error + unit) \<times> config_sync \<times> 'k" where
  "rotate_syn_cookie_key run random cs k =
     (case generate_syn_cookie_key random of
        Inl e \<Rightarrow> (Inl e, cs, k)
      | Inr key \<Rightarrow>
          (case write_syn_cookie_key run cs key k of
             (Inl e, k') \<Rightarrow> (Inl e, cs, k')
           | (Inr _, k') \<Rightarrow> (Inr (), cs\<lparr>cy_last_key := key, cy_rotated := True\<rparr>, k')))"

text \<open>The background rotation: once at the start, then at every tick.\<close>

definition key_rotation :: "'k bpftool \<Rightarrow> u8 list option \<Rightarrow> u8 list option list \<Rightarrow> config_sync \<times> 'k \<Rightarrow> config_sync \<times> 'k" where
  "key_rotation run first ticks s =
     foldl (\<lambda>(cs, k) random. snd (rotate_syn_cookie_key run random cs k)) s (first # ticks)"

subsection \<open>Reading back what was written\<close>

lemma of_hex_digit: "n < 16 \<Longrightarrow> (of_char (hex_digit n) :: nat) = (if n < 10 then 48 + n else 87 + n)"
  by (simp add: hex_digit_def)

lemma hex_val_digit: "n < 16 \<Longrightarrow> hex_val (hex_digit n) = Some n"
  by (simp add: hex_val_def of_hex_digit)

lemma hex_digit_visible: "n < 16 \<Longrightarrow> visible (hex_digit n) \<and> hex_digit n \<noteq> CHR ''x''"
  using of_hex_digit [of n] by (auto simp: visible_def split: if_splits)

lemma nibbles: "unat (b :: u8) div 16 < 16" "unat (b :: u8) mod 16 < 16"
  using unat_u8_less [of b] by (simp_all add: less_mult_imp_div_less)

lemma hex_token_word [simp]: "hex_token (hex_word b) = Some b" "hex_token (hex_byte b) = Some b"
proof -
  have join: "16 * (unat b div 16) + unat b mod 16 = unat b" by simp
  have "trim_prefix ''0x'' (hex_word b) = hex_word b"
    using hex_digit_visible [OF nibbles(2) [of b]] by (auto simp: trim_prefix_def hex_word_def)
  then show "hex_token (hex_word b) = Some b"
    unfolding hex_token_def by (simp add: hex_word_def hex_val_digit nibbles join)
  have "trim_prefix ''0x'' (hex_byte b) = hex_word b" by (simp add: trim_prefix_def hex_byte_def)
  then show "hex_token (hex_byte b) = Some b"
    unfolding hex_token_def by (simp add: hex_word_def hex_val_digit nibbles join)
qed

lemma hex_words_plain: "w \<in> set (map hex_word bs) \<Longrightarrow> w \<noteq> [] \<and> (\<forall>c\<in>set w. visible c)"
  using hex_digit_visible [OF nibbles(1)] hex_digit_visible [OF nibbles(2)] by (auto simp: hex_word_def)

lemma hex_bytes_plain: "w \<in> set (map hex_byte bs) \<Longrightarrow> w \<noteq> [] \<and> (\<forall>c\<in>set w. visible c)"
proof -
  assume "w \<in> set (map hex_byte bs)"
  then obtain b where "w = CHR ''0'' # CHR ''x'' # hex_word b" by (auto simp: hex_byte_def)
  with hex_words_plain [of "hex_word b" "[b]"] show ?thesis by (simp add: visible_def)
qed

lemma fields_bytes_to_hex [simp]: "go_fields (bytes_to_hex bs) = map hex_byte bs"
  unfolding bytes_to_hex_def by (rule fields_join) (use hex_bytes_plain in blast)

lemma hex_tokens_bytes [simp]: "hex_tokens (map hex_byte bs) = bs" "hex_tokens (map hex_word bs) = bs"
  by (induction bs) simp_all

lemma parse_hex_roundtrip: "parse_hex_string (bytes_to_hex bs) = bs"
  by (simp add: parse_hex_string_def)

lemma length_put_at [simp]: "off + length bs \<le> length buf \<Longrightarrow> length (put_at off bs buf) = length buf"
  by (simp add: put_at_def)

lemma serialize_layout:
  "serialize_xdp_config c = le_bytes 8 (xc_window c) @ le_bytes 4 (xc_per_ip c) @ le_bytes 4 (xc_syn c) @
     le_bytes 4 (xc_udp c) @ le_bytes 4 (xc_icmp c) @
     [xc_drop_private c, xc_drop_malformed c, xc_rate_limit c, xc_drop_fragments c] @
     le_bytes 4 (xc_subnet24 c) @ le_bytes 4 (xc_cookie_threshold c) @
     [xc_cookie_active c, xc_conn_tracker c, xc_geoip c, xc_pad c] @
     le_bytes 4 (xc_botnet_threshold c) @ le_bytes 4 (xc_botnet_cooldown c) @
     [xc_botnet_active c, fst (xc_pad_bn c), fst (snd (xc_pad_bn c)), snd (snd (xc_pad_bn c))]"
  unfolding serialize_xdp_config_def Let_def
  by (simp add: put_at_def list_update_append numeral_eq_Suc replicate_Suc)


lemma le4: "le_word (le_bytes 4 (w :: u32)) = w"
  and le8: "le_word (le_bytes 8 (v :: u64)) = v"
  by (simp_all add: le_word_le_bytes)

lemma le4_bytes: "length bs = 4 \<Longrightarrow> le_bytes 4 (le_word bs :: u32) = bs"
  and le8_bytes: "length bs = 8 \<Longrightarrow> le_bytes 8 (le_word bs :: u64) = bs"
  using le_bytes_le_word [of bs, where 'a = 32] le_bytes_le_word [of bs, where 'a = 64] by simp_all

lemma length_serialize [simp]: "length (serialize_xdp_config c) = 52"
  by (simp add: serialize_layout)

lemma deserialize_serialize: "deserialize_xdp_config (serialize_xdp_config c @ pad) = Inr c"
  unfolding deserialize_xdp_config_def
  by (simp add: serialize_layout bytes_at_def nth_append le4 le8)

lemma serialize_deserialize:
  assumes "length dat = 52" "deserialize_xdp_config dat = Inr c"
  shows "serialize_xdp_config c = dat"
proof -
  have c: "c = projr (deserialize_xdp_config dat)" using assms(2) by simp
  have ex: "bytes_at lo hi dat = map (\<lambda>i. dat ! i) [lo..<hi]" if "lo \<le> hi" "hi \<le> 52" for lo hi
    using that assms(1) by (simp add: bytes_at_def list_eq_iff_nth_eq)
  have parts: "[0..<52] = [0..<8] @ [8..<12] @ [12..<16] @ [16..<20] @ [20..<24] @ [24, 25, 26, 27] @ [28..<32] @
      [32..<36] @ [36, 37, 38, 39] @ [40..<44] @ [44..<48] @ [48, 49, 50, 51]"
    by (simp add: upt_rec)
  have "serialize_xdp_config c = map (\<lambda>i. dat ! i) [0..<52]"
    unfolding serialize_layout c deserialize_xdp_config_def parts
    by (simp add: assms(1) ex le4_bytes le8_bytes del: upt.simps upt_rec_numeral)
  then show ?thesis using assms(1) map_nth [of dat] by simp
qed


subsection \<open>What bpftool is assumed to do\<close>

text \<open>
  \<open>cell k name\<close> is the value at index 0 of an array map in the kernel state \<open>k\<close>. A lookup
  prints key and value on a line and changes nothing; an update that reports success has stored
  the bytes of its command line in that map and nowhere else.
\<close>

definition lookup_line :: "u8 list \<Rightarrow> string" where
  "lookup_line v = ''key: 00 00 00 00  value: '' @ join_with '' '' (map hex_word v) @ [CHR 0x0A]"

definition bpf_law :: "'k bpftool \<Rightarrow> ('k \<Rightarrow> string \<Rightarrow> u8 list option) \<Rightarrow> bool" where
  "bpf_law run cell \<longleftrightarrow>
     (\<forall>k name v. cell k name = Some v \<longrightarrow>
        run ([''map'', ''lookup'', ''name'', name, ''key''] @ map hex_byte [0, 0, 0, 0]) k = ((True, lookup_line v), k)) \<and>
     (\<forall>k name bs out k'.
        run ([''map'', ''update'', ''name'', name, ''key''] @ map hex_byte [0, 0, 0, 0] @ [''value''] @ map hex_byte bs) k
          = ((True, out), k') \<longrightarrow> cell k' = (cell k)(name \<mapsto> bs))"

lemma join_words_chars: "c \<in> set (join_with '' '' (map hex_word v)) \<Longrightarrow> visible c \<or> c = CHR '' ''"
  by (rule join_chars [rotated]) (use hex_words_plain [of _ v] in blast)+

lemma join_words_ends:
  "v \<noteq> [] \<Longrightarrow> join_with '' '' (map hex_word v) \<noteq> [] \<and> visible (hd (join_with '' '' (map hex_word v))) \<and>
     visible (last (join_with '' '' (map hex_word v)))"
  by (rule join_ends) (use hex_words_plain [of _ v] in auto)

lemma bytes_to_hex_chars: "c \<in> set (bytes_to_hex v) \<Longrightarrow> visible c \<or> c = CHR '' ''"
  unfolding bytes_to_hex_def by (rule join_chars [rotated]) (use hex_bytes_plain [of _ v] in blast)+

lemma bytes_to_hex_ends:
  "v \<noteq> [] \<Longrightarrow> bytes_to_hex v \<noteq> [] \<and> visible (hd (bytes_to_hex v)) \<and> visible (last (bytes_to_hex v))"
  unfolding bytes_to_hex_def by (rule join_ends) (use hex_bytes_plain [of _ v] in auto)

lemma index_zero_fields: "go_fields index_zero = map hex_byte [0, 0, 0, 0]"
proof -
  have zero: "index_zero = bytes_to_hex [0, 0, 0, 0]"
    by (simp add: index_zero_def bytes_to_hex_def join_with_def hex_byte_def hex_word_def hex_digit_def)
      (simp add: char_of_def bit_0)
  show ?thesis unfolding zero by (rule fields_bytes_to_hex)
qed

lemma parse_lookup_line:
  assumes "v \<noteq> []"
  shows "parse_hex_bytes (lookup_line v) = Inr v"
proof -
  let ?w = "join_with '' '' (map hex_word v)"
  let ?l = "''key: 00 00 00 00  value: '' @ ?w"
  note ends = join_words_ends [OF assms]
  have "CHR 0x0A \<notin> set ?w" using join_words_chars [of "CHR 0x0A" v] by (auto simp: visible_def)
  then have "split_on CHR 0x0A (lookup_line v) = [?l, []]"
    using split_on_at [of "CHR 0x0A" ?l "[]"] by (simp add: lookup_line_def)
  moreover have "trim_space ?l = ?l"
    by (rule trim_ends) (use ends in \<open>auto simp: visible_def\<close>)
  moreover have "index_sub ''value:'' ?l = Some 18" by simp
  moreover have "trim_space (drop 24 ?l) = ?w"
    using trim_space_first [OF conjunct1 [OF ends]] ends by simp
  moreover have "parse_hex_string ?w = v"
    using fields_join [of "map hex_word v"] hex_words_plain [of _ v] by (simp add: parse_hex_string_def)
  ultimately show ?thesis using assms
    by (simp add: parse_hex_bytes_def)
qed


lemma read_config_map_law:
  "bpf_law run cell \<Longrightarrow> cell k name = Some v \<Longrightarrow> v \<noteq> [] \<Longrightarrow> read_config_map run name k = (Inr v, k)"
  unfolding read_config_map_def index_zero_fields bpf_law_def by (simp add: parse_lookup_line)

lemma update_law:
  assumes "bpf_law run cell" "bpftool_map_update run name index_zero (bytes_to_hex bs) k = (Inr u, k')"
  shows "cell k' = (cell k)(name \<mapsto> bs)"
  using assms unfolding bpftool_map_update_def index_zero_fields fields_bytes_to_hex bpf_law_def
  by (auto split: prod.splits if_splits)

lemma write_config_map_eq:
  "write_config_map run name dat k = bpftool_map_update run name index_zero (bytes_to_hex dat) k"
  by (simp add: write_config_map_def bpftool_map_update_def)

lemma bytes_at_update: "hi \<le> i \<Longrightarrow> bytes_at lo hi (v[i := b]) = bytes_at lo hi v"
  by (cases "lo \<le> i") (simp_all add: bytes_at_def drop_update_swap take_update_cancel diff_le_mono)

lemma mode_byte:
  assumes "deserialize_xdp_config v = Inr c"
  shows "deserialize_xdp_config (v[48 := b]) = Inr (c\<lparr>xc_botnet_active := b\<rparr>)"
  using assms by (auto simp: deserialize_xdp_config_def bytes_at_update split: if_splits)

text \<open>
  The configuration reaches the kernel map and back: what SyncConfig has written, ReadConfig
  reads, all fields included; and the botnet controller, which rewrites the whole value to clear
  one flag, changes that flag and no other field, and no other map.
\<close>

theorem config_map_fields:
  assumes "bpf_law run cell" "sync_config run c now cs k = (Inr (), cs', k1)"
    "write_botnet_mode_active run (cy_config_map cs) b k1 = (Inr (), k2)"
  shows "fst (read_config run cs' k1) = Inr c \<and>
    fst (read_config run cs' k2) = Inr (c\<lparr>xc_botnet_active := b\<rparr>) \<and>
    (\<forall>name. name \<noteq> cy_config_map cs \<longrightarrow> cell k2 name = cell k name) \<and> cy_last_sync cs' = now"
proof -
  let ?v = "serialize_xdp_config c" and ?n = "cy_config_map cs"
  from assms(2) have up: "bpftool_map_update run ?n index_zero (bytes_to_hex ?v) k = (Inr (), k1)"
      and cs': "cs' = cs\<lparr>cy_last_sync := now\<rparr>"
    by (auto simp: sync_config_def write_config_to_map_def split: prod.splits sum.splits)
  have cell1: "cell k1 = (cell k)(?n \<mapsto> ?v)" by (rule update_law [OF assms(1) up])
  have ne: "?v \<noteq> []" using length_serialize [of c] by (metis list.size(3) zero_neq_numeral)
  have read1: "read_config_map run ?n k1 = (Inr ?v, k1)"
    by (rule read_config_map_law [OF assms(1)]) (simp_all add: cell1 ne)
  with assms(3) have "bpftool_map_update run ?n index_zero (bytes_to_hex (?v[48 := b])) k1 = (Inr (), k2)"
    by (simp add: write_botnet_mode_active_def write_config_map_eq)
  then have cell2: "cell k2 = (cell k1)(?n \<mapsto> ?v[48 := b])" by (rule update_law [OF assms(1)])
  have "read_config_map run ?n k2 = (Inr (?v[48 := b]), k2)"
    by (rule read_config_map_law [OF assms(1)]) (simp_all add: cell2 ne)
  moreover have "deserialize_xdp_config ?v = Inr c" using deserialize_serialize [of c "[]"] by simp
  ultimately show ?thesis
    using read1 mode_byte [of ?v c b] by (simp add: read_config_def cs' cell1 cell2)
qed

text \<open>A kernel that obeys the law: a map of array values.\<close>

fun toy_bpftool :: "(string \<Rightarrow> u8 list option) bpftool" where
  "toy_bpftool args k =
     (case args of
        m # opr # nm # name # ky # rest \<Rightarrow>
          if opr = ''lookup'' then (case k name of None \<Rightarrow> ((False, []), k) | Some v \<Rightarrow> ((True, lookup_line v), k))
          else if opr = ''update'' then ((True, []), k(name \<mapsto> hex_tokens (drop 5 rest)))
          else ((False, []), k)
      | _ \<Rightarrow> ((False, []), k))"

lemma toy_law: "bpf_law toy_bpftool (\<lambda>k. k)"
  by (auto simp: bpf_law_def)

definition demo_xdp_config :: xdp_config where
  "demo_xdp_config = \<lparr>xc_window = 1000000000, xc_per_ip = 5000, xc_syn = 0, xc_udp = 0, xc_icmp = 0,
     xc_drop_private = 1, xc_drop_malformed = 1, xc_rate_limit = 1, xc_drop_fragments = 0, xc_subnet24 = 0,
     xc_cookie_threshold = 10000, xc_cookie_active = 0, xc_conn_tracker = 1, xc_geoip = 0, xc_pad = 0,
     xc_botnet_threshold = 5000, xc_botnet_cooldown = 30, xc_botnet_active = 1, xc_pad_bn = (0, 0, 0)\<rparr>"

lemma toy_update: "bpftool_map_update toy_bpftool name index_zero (bytes_to_hex bs) k = (Inr (), k(name \<mapsto> bs))"
  unfolding bpftool_map_update_def index_zero_fields fields_bytes_to_hex by simp

lemma toy_write:
  assumes "k name = Some v" "48 < length v"
  shows "write_botnet_mode_active toy_bpftool name b k = (Inr (), k(name \<mapsto> v[48 := b]))"
proof -
  have "v \<noteq> []" using assms(2) by auto
  with read_config_map_law [OF toy_law, of k name v] assms show ?thesis
    by (simp add: write_botnet_mode_active_def write_config_map_eq toy_update)
qed

theorem config_map_fields_witness:
  "\<exists>cs' k1 k2. fst (read_config toy_bpftool cs' k1) = Inr demo_xdp_config \<and>
     fst (read_config toy_bpftool cs' k2) = Inr (demo_xdp_config\<lparr>xc_botnet_active := 0\<rparr>)"
proof -
  let ?cs = "new_config_sync 0"
  let ?k1 = "Map.empty(cy_config_map ?cs \<mapsto> serialize_xdp_config demo_xdp_config)"
  have "sync_config toy_bpftool demo_xdp_config 7 ?cs Map.empty = (Inr (), ?cs\<lparr>cy_last_sync := 7\<rparr>, ?k1)"
    by (simp add: sync_config_def write_config_to_map_def toy_update)
  moreover have "write_botnet_mode_active toy_bpftool (cy_config_map ?cs) 0 ?k1 =
      (Inr (), ?k1(cy_config_map ?cs \<mapsto> (serialize_xdp_config demo_xdp_config)[48 := 0]))"
    by (rule toy_write) simp_all
  ultimately show ?thesis using config_map_fields [OF toy_law] by blast
qed

text \<open>
  C21. The layout of the configuration is a bijection between configurations and values of 52
  bytes: reading inverts writing, also when more bytes follow, writing inverts reading, and a
  shorter value is refused.
\<close>

theorem config_layout_bijective:
  "length (serialize_xdp_config c) = 52 \<and> deserialize_xdp_config (serialize_xdp_config c @ pad) = Inr c \<and>
   (length dat < 52 \<longrightarrow> deserialize_xdp_config dat = Inl Config_short) \<and>
   (length dat = 52 \<longrightarrow> (\<exists>d. deserialize_xdp_config dat = Inr d \<and> serialize_xdp_config d = dat))"
proof -
  have "\<exists>d. deserialize_xdp_config dat = Inr d \<and> serialize_xdp_config d = dat" if "length dat = 52"
  proof -
    have "\<exists>d. deserialize_xdp_config dat = Inr d" using that by (simp add: deserialize_xdp_config_def)
    with serialize_deserialize [OF that] show ?thesis by blast
  qed
  moreover have "length dat < 52 \<longrightarrow> deserialize_xdp_config dat = Inl Config_short"
    by (simp add: deserialize_xdp_config_def)
  ultimately show ?thesis by (simp add: deserialize_serialize)
qed

theorem config_layout_bijective_witness:
  "\<exists>d. deserialize_xdp_config (replicate 52 7) = Inr d \<and> serialize_xdp_config d = replicate 52 7"
  using config_layout_bijective [of demo_xdp_config "[]" "replicate 52 7"] by simp

text \<open>The key of the SYN cookies is written whole, low half first.\<close>

lemma cookie_key_bytes:
  "write_syn_cookie_key run cs key k =
     bpftool_map_update run (cy_key_map cs) index_zero (bytes_to_hex (le_bytes 8 (sk_k0 key) @ le_bytes 8 (sk_k1 key))) k"
  unfolding write_syn_cookie_key_def Let_def by (simp add: put_at_def)

lemma rotation_keeps_random:
  assumes "length buf = 16" "rotate_syn_cookie_key run (Some buf) cs k = (Inr (), cs', k')" "bpf_law run cell"
  shows "cell k' = (cell k)(cy_key_map cs \<mapsto> buf) \<and> cy_rotated cs'"
proof -
  have halves: "le_bytes 8 (le_word (bytes_at 0 8 buf) :: u64) @ le_bytes 8 (le_word (bytes_at 8 16 buf) :: u64) = buf"
    using assms(1) by (simp add: le8_bytes bytes_at_def)
  from assms(2) have "bpftool_map_update run (cy_key_map cs) index_zero (bytes_to_hex buf) k = (Inr (), k')"
      and "cy_rotated cs'"
    by (auto simp: rotate_syn_cookie_key_def generate_syn_cookie_key_def cookie_key_bytes halves
        split: prod.splits sum.splits)
  with update_law [OF assms(3)] show ?thesis by blast
qed

end
