(* ===== verification/Botnet.thy ===== *)
theory Botnet
  imports XdpMaps
begin

text \<open>
  The botnet controller, \<^verbatim>\<open>internal/client/xdp/botnet_controller.go\<close>: it reads the counters of
  new addresses of all CPUs from the kernel and clears the botnet mode when their sum has stayed
  below half the threshold for the cooldown. The kernel is reached through the \<open>bpftool\<close>
  argument of theory XdpMaps; the goroutine's ticks are a list of clock readings.
\<close>

record botnet_controller =
  bc_config_map :: string
  bc_rate_map :: string
  bc_threshold :: u32
  bc_cooldown :: duration
  bc_poll :: duration
  bc_below_since :: gotime
  bc_below :: bool
  bc_last_rate :: u32
  bc_active :: bool

record botnet_options =
  bo_threshold :: u32
  bo_cooldown :: u32
  bo_poll :: duration

definition new_botnet_controller :: "botnet_options \<Rightarrow> botnet_controller" where
  "new_botnet_controller o1 =
     (let threshold = (if bo_threshold o1 = 0 then 5000 else bo_threshold o1);
          cooldown = (if bo_cooldown o1 = 0 then 30 else bo_cooldown o1);
          poll = (if bo_poll o1 \<le> 0 then nanos else bo_poll o1)
      in \<lparr>bc_config_map = ''kiro_config'', bc_rate_map = ''new_ip_rate'', bc_threshold = threshold,
          bc_cooldown = i64 (int (unat cooldown) * nanos), bc_poll = poll,
          bc_below_since = zero_time, bc_below = False, bc_last_rate = 0, bc_active = False\<rparr>)"

subsection \<open>Reading the counters\<close>

definition extract_count_from_hex :: "string \<Rightarrow> xdp_error + u32" where
  "extract_count_from_hex hex =
     (let bytes = hex_tokens (go_fields (trim_space hex))
      in if length bytes < 12 then Inl Few_bytes else Inr (le_word (bytes_at 8 12 bytes)))"

definition count_or_zero :: "string \<Rightarrow> u32" where
  "count_or_zero hex = (case extract_count_from_hex hex of Inl _ \<Rightarrow> 0 | Inr n \<Rightarrow> n)"

definition line_count :: "string \<Rightarrow> u32" where
  "line_count raw =
     (let line = trim_space raw;
          quoted = (if contains_sub ''0x'' line \<and> extract_hex_value line \<noteq> []
                    then count_or_zero (extract_hex_value line) else 0)
      in if line = [] then 0
         else case index_of CHR '':'' line of
                Some idx \<Rightarrow>
                  if 0 < idx \<and> prefix ''cpu'' (trim_space (take idx line))
                  then count_or_zero (trim_space (drop (Suc idx) line)) else quoted
              | None \<Rightarrow> quoted)"

fun sum_counts :: "string list \<Rightarrow> u32 \<Rightarrow> u32" where
  "sum_counts [] acc = acc"
| "sum_counts (line # rest) acc = sum_counts rest (acc + line_count line)"

definition parse_per_cpu_counters :: "string \<Rightarrow> u32" where
  "parse_per_cpu_counters output = sum_counts (split_on CHR 0x0A output) 0"

definition read_new_ip_rate :: "'k bpftool \<Rightarrow> botnet_controller \<Rightarrow> 'k \<Rightarrow> (xdp_error + u32) \<times> 'k" where
  "read_new_ip_rate run c k =
     (case run ([''map'', ''lookup'', ''percpu'', ''name'', bc_rate_map c, ''key''] @ go_fields index_zero) k of
        ((ok, out), k') \<Rightarrow> (if ok then Inr (parse_per_cpu_counters out) else Inl Tool_failed, k'))"

subsection \<open>Polling\<close>

definition half_threshold :: "botnet_controller \<Rightarrow> u32" where
  "half_threshold c = bc_threshold c div 2"

definition botnet_poll :: "'k bpftool \<Rightarrow> gotime \<Rightarrow> botnet_controller \<times> 'k \<Rightarrow> botnet_controller \<times> 'k" where
  "botnet_poll run now = (\<lambda>(c, k).
     (case read_new_ip_rate run c k of
        (Inl _, k1) \<Rightarrow> (c, k1)
      | (Inr rate, k1) \<Rightarrow>
          let c1 = c\<lparr>bc_last_rate := rate\<rparr>
          in if rate < half_threshold c then
               (if \<not> bc_below c then (c1\<lparr>bc_below := True, bc_below_since := now\<rparr>, k1)
                else if bc_cooldown c \<le> time_sub now (bc_below_since c) \<and> bc_active c then
                  (case write_botnet_mode_active run (bc_config_map c) 0 k1 of
                     (Inl _, k2) \<Rightarrow> (c1, k2)
                   | (Inr _, k2) \<Rightarrow> (c1\<lparr>bc_active := False\<rparr>, k2))
                else (c1, k1))
             else (c1\<lparr>bc_below := False, bc_active := True\<rparr>, k1)))"

definition force_disable :: "'k bpftool \<Rightarrow> botnet_controller \<times> 'k \<Rightarrow> (xdp_error + unit) \<times> botnet_controller \<times> 'k" where
  "force_disable run = (\<lambda>(c, k).
     (case write_botnet_mode_active run (bc_config_map c) 0 k of
        (Inl e, k1) \<Rightarrow> (Inl e, c, k1)
      | (Inr _, k1) \<Rightarrow> (Inr (), c\<lparr>bc_active := False, bc_below := False\<rparr>, k1)))"

definition botnet_run :: "'k bpftool \<Rightarrow> gotime list \<Rightarrow> botnet_controller \<times> 'k \<Rightarrow> botnet_controller \<times> 'k" where
  "botnet_run run ticks s = foldl (\<lambda>s now. botnet_poll run now s) s ticks"

subsection \<open>The sum over the CPUs\<close>

text \<open>A line \<^verbatim>\<open>cpuN: bytes\<close> of the raw format.\<close>

definition cpu_line :: "nat \<Rightarrow> u8 list \<Rightarrow> string" where
  "cpu_line n bs = ''cpu'' @ fmt_nat (int n) @ '': '' @ join_with '' '' (map hex_word bs)"

definition counter_of :: "u8 list \<Rightarrow> u32" where
  "counter_of bs = le_word (bytes_at 8 12 bs)"

lemma fmt_nat_chars: "0 \<le> n \<Longrightarrow> c \<in> set (fmt_nat n) \<Longrightarrow> visible c \<and> c \<noteq> CHR '':'' \<and> c \<noteq> CHR 0x0A"
proof -
  assume "0 \<le> n" "c \<in> set (fmt_nat n)"
  then obtain d where d: "0 \<le> d" "d < 10" "c = digit_char d" using fmt_nat_digits by blast
  from d(1,2) have "d \<in> set [0, 1, 2, 3, 4, 5, 6, 7, 8, 9]" by simp presburger
  then have "visible (digit_char d) \<and> digit_char d \<noteq> CHR '':'' \<and> digit_char d \<noteq> CHR 0x0A"
    by (auto simp: digit_char_def visible_def char_of_def bit_simps)
  with d(3) show ?thesis by simp
qed


lemma words_twelve: "12 \<le> length (bs :: u8 list) \<Longrightarrow> bs \<noteq> []"
  by auto

lemma count_of_words:
  assumes "12 \<le> length bs"
  shows "count_or_zero (join_with '' '' (map hex_word bs)) = counter_of bs"
proof -
  have "trim_space (join_with '' '' (map hex_word bs)) = join_with '' '' (map hex_word bs)"
    using join_words_ends [OF words_twelve [OF assms]] by (intro trim_ends) auto
  moreover have "go_fields (join_with '' '' (map hex_word bs)) = map hex_word bs"
    by (rule fields_join) (use hex_words_plain in blast)
  ultimately show ?thesis
    using assms by (simp add: count_or_zero_def extract_count_from_hex_def counter_of_def)
qed

lemma line_count_cpu:
  assumes "12 \<le> length bs"
  shows "line_count (cpu_line n bs) = counter_of bs"
proof -
  let ?w = "join_with '' '' (map hex_word bs)" and ?p = "''cpu'' @ fmt_nat (int n)"
  note ends = join_words_ends [OF words_twelve [OF assms]]
  have line: "cpu_line n bs = ?p @ CHR '':'' # CHR '' '' # ?w" by (simp add: cpu_line_def)
  have trimmed: "trim_space (cpu_line n bs) = cpu_line n bs"
    by (rule trim_ends) (use ends in \<open>auto simp: cpu_line_def visible_def\<close>)
  have colon: "CHR '':'' \<notin> set ?p" using fmt_nat_chars [of "int n"] by auto
  have idx: "index_of CHR '':'' (cpu_line n bs) = Some (length ?p)"
    unfolding line using index_of_append [OF colon] by simp
  have vis: "\<forall>c\<in>set ?p. visible c" using fmt_nat_chars [of "int n"] by (auto simp: visible_def)
  have pre: "prefix ''cpu'' (trim_space (take (length ?p) (cpu_line n bs)))"
    unfolding line using trim_visible [OF vis] by simp
  have post: "trim_space (drop (Suc (length ?p)) (cpu_line n bs)) = ?w"
    unfolding line using trim_space_first [of ?w] ends by simp
  show ?thesis
    unfolding line_count_def trimmed idx Let_def option.case post count_of_words [OF assms]
    using pre line by simp
qed

lemma sum_counts_eq: "sum_counts ls acc = acc + sum_list (map line_count ls)"
  by (induction ls arbitrary: acc) (simp_all add: add.assoc)

definition cpu_dump :: "u8 list list \<Rightarrow> string" where
  "cpu_dump cpus = concat (map (\<lambda>(n, bs). cpu_line n bs @ [CHR 0x0A]) (zip [0..<length cpus] cpus))"

lemma cpu_line_no_newline: "CHR 0x0A \<notin> set (cpu_line n bs)"
  using join_words_chars [of "CHR 0x0A" bs] fmt_nat_chars [of "int n"] by (auto simp: cpu_line_def visible_def)

lemma split_dump:
  "split_on CHR 0x0A (concat (map (\<lambda>(n, bs). cpu_line n bs @ [CHR 0x0A]) xs)) =
     map (\<lambda>(n, bs). cpu_line n bs) xs @ [[]]"
  by (induction xs) (auto simp: split_on_at [OF cpu_line_no_newline])

lemma dump_sum:
  assumes "\<forall>bs\<in>set cpus. 12 \<le> length bs"
  shows "parse_per_cpu_counters (cpu_dump cpus) = sum_list (map counter_of cpus)"
proof -
  have "line_count [] = 0" by (simp add: line_count_def)
  moreover have "map (line_count \<circ> (\<lambda>(n, bs). cpu_line n bs)) (zip ns cpus) = map counter_of cpus"
    if "length ns = length cpus" for ns
    using assms that by (auto simp: list_eq_iff_nth_eq line_count_cpu)
  ultimately show ?thesis
    by (simp add: parse_per_cpu_counters_def sum_counts_eq cpu_dump_def split_dump)
qed

lemma json_line_count:
  assumes "13 \<le> length bs"
  shows "parse_per_cpu_counters ([CHR 0x22, CHR 0x22] @ '': '' @ [CHR 0x22] @ bytes_to_hex bs @ [CHR 0x22]) =
    le_word (bytes_at 9 13 bs)"
proof -
  from assms obtain b bs' where bs: "bs = b # bs'" and len: "12 \<le> length bs'" by (cases bs) auto
  let ?q = "CHR 0x22" and ?h = "bytes_to_hex bs"
  let ?line = "[?q, ?q] @ '': '' @ [?q] @ ?h @ [?q]"
  let ?ws = "[?q, CHR '':''] # (?q # hex_byte b) # map hex_byte bs'"
  have plain: "\<forall>w\<in>set ?ws. w \<noteq> [] \<and> (\<forall>c\<in>set w. visible c)"
    using hex_bytes_plain [of _ bs] unfolding bs by (auto simp: visible_def)
  have inner: "[?q, CHR '':'', CHR '' '', ?q] @ ?h = join_with '' '' ?ws"
    by (simp add: bytes_to_hex_def bs join_with_Cons)
  have ends: "visible (last ([?q, CHR '':'', CHR '' '', ?q] @ ?h))"
    using bytes_to_hex_ends [of bs] by (simp add: bs)
  have trimmed: "trim_space ?line = ?line" by (rule trim_ends) (simp_all add: visible_def)
  have nl: "CHR 0x0A \<notin> set ?line"
    using bytes_to_hex_chars [of "CHR 0x0A" bs] by (auto simp: visible_def)
  have start: "index_of ?q ?line = Some 0" "last_index ?q ?line = Some (length ?line - 1)"
    by (simp_all add: last_index_def)
  have quoted: "extract_hex_value ?line = [?q, CHR '':'', CHR '' '', ?q] @ ?h"
    unfolding extract_hex_value_def start by simp
  have zx: "contains_sub ''0x'' ?line"
    unfolding contains_sub_iff
    by (rule exI [of _ "[?q, ?q, CHR '':'', CHR '' '', ?q]"],
        rule exI [of _ "hex_word b @ (if bs' = [] then [] else '' '' @ join_with '' '' (map hex_byte bs')) @ [?q]"])
      (simp add: bytes_to_hex_def bs join_with_Cons hex_byte_def)
  have trim_inner: "trim_space ([?q, CHR '':'', CHR '' '', ?q] @ ?h) = [?q, CHR '':'', CHR '' '', ?q] @ ?h"
    using ends by (intro trim_ends) (auto simp: visible_def)
  have tokens: "hex_tokens ?ws = bs'"
  proof -
    have "hex_token [?q, CHR '':''] = None" "hex_token (?q # hex_byte b) = None"
      by (simp_all add: hex_token_def trim_prefix_def hex_val_def hex_byte_def hex_word_def)
    then show ?thesis by simp
  qed
  have "count_or_zero ([?q, CHR '':'', CHR '' '', ?q] @ ?h) = le_word (bytes_at 8 12 bs')"
    unfolding count_or_zero_def extract_count_from_hex_def trim_inner
    unfolding inner fields_join [OF plain] tokens using len by simp
  moreover have "trim_space [?q, ?q] = [?q, ?q]" by (rule trim_visible) (simp add: visible_def)
  ultimately have "line_count ?line = le_word (bytes_at 8 12 bs')"
    unfolding line_count_def trimmed Let_def quoted using zx by simp
  moreover have "bytes_at 9 13 bs = bytes_at 8 12 bs'" by (simp add: bs bytes_at_def)
  ultimately show ?thesis
    unfolding parse_per_cpu_counters_def split_on_none [OF nl] by simp
qed

text \<open>
  From the raw listing of the per-CPU map the controller reads the sum of the counters of all
  CPUs, modulo 2^32, whatever the number of CPUs. In the JSON form that the code also means to
  read, where a value follows its key on the line, the first byte is lost: the number read is
  the counter shifted down by a byte, with the padding byte on top.
\<close>

theorem counters_summed:
  assumes "\<forall>bs\<in>set cpus. 12 \<le> length bs" "13 \<le> length bs"
  shows "parse_per_cpu_counters (cpu_dump cpus) = sum_list (map counter_of cpus) \<and>
    parse_per_cpu_counters ([CHR 0x22, CHR 0x22] @ '': '' @ [CHR 0x22] @ bytes_to_hex bs @ [CHR 0x22]) =
      le_word (bytes_at 9 13 bs)"
proof
  show "parse_per_cpu_counters (cpu_dump cpus) = sum_list (map counter_of cpus)"
    by (rule dump_sum [OF assms(1)])
  show "parse_per_cpu_counters ([CHR 0x22, CHR 0x22] @ '': '' @ [CHR 0x22] @ bytes_to_hex bs @ [CHR 0x22]) =
      le_word (bytes_at 9 13 bs)"
    by (rule json_line_count [OF assms(2)])
qed


theorem counters_summed_witness:
  "parse_per_cpu_counters (cpu_dump [replicate 8 0 @ [232, 3, 0, 0], replicate 8 9 @ [244, 1, 0, 0, 7]]) = 1500 \<and>
   parse_per_cpu_counters ([CHR 0x22, CHR 0x22] @ '': '' @ [CHR 0x22] @
     bytes_to_hex (replicate 8 0 @ [136, 19, 0, 0] @ replicate 4 0) @ [CHR 0x22]) = 19"
proof -
  let ?cpus = "[replicate 8 0 @ [232, 3, 0, 0], replicate 8 9 @ [244, 1, 0, 0, 7]] :: u8 list list"
  let ?bs = "replicate 8 0 @ [136, 19, 0, 0] @ replicate 4 0 :: u8 list"
  have "sum_list (map counter_of ?cpus) = 1500" by (simp add: counter_of_def bytes_at_def)
  moreover have "(le_word (bytes_at 9 13 ?bs) :: u32) = 19" by (simp add: bytes_at_def)
  moreover have "\<forall>bs\<in>set ?cpus. 12 \<le> length bs" "13 \<le> length ?bs" by simp_all
  ultimately show ?thesis using counters_summed [of ?cpus ?bs] by simp
qed

subsection \<open>When the botnet mode ends\<close>

datatype botnet_event = Poll gotime | Force

definition botnet_event_step :: "'k bpftool \<Rightarrow> botnet_event \<Rightarrow> botnet_controller \<times> 'k \<Rightarrow> botnet_controller \<times> 'k" where
  "botnet_event_step run ev s = (case ev of Poll now \<Rightarrow> botnet_poll run now s | Force \<Rightarrow> snd (force_disable run s))"

definition botnet_events :: "'k bpftool \<Rightarrow> botnet_event list \<Rightarrow> botnet_controller \<times> 'k \<Rightarrow> botnet_controller \<times> 'k" where
  "botnet_events run evs s = foldl (\<lambda>s ev. botnet_event_step run ev s) s evs"

text \<open>The rates that were read, with the time of the poll.\<close>

definition reading :: "'k bpftool \<Rightarrow> botnet_event \<Rightarrow> botnet_controller \<times> 'k \<Rightarrow> (gotime \<times> u32) list" where
  "reading run ev s =
     (case ev of Force \<Rightarrow> []
      | Poll now \<Rightarrow> (case fst (read_new_ip_rate run (fst s) (snd s)) of Inl _ \<Rightarrow> [] | Inr r \<Rightarrow> [(now, r)]))"

fun readings :: "'k bpftool \<Rightarrow> botnet_event list \<Rightarrow> botnet_controller \<times> 'k \<Rightarrow> (gotime \<times> u32) list" where
  "readings run [] s = []"
| "readings run (ev # evs) s = reading run ev s @ readings run evs (botnet_event_step run ev s)"

lemma readings_append:
  "readings run (evs @ evs') s = readings run evs s @ readings run evs' (botnet_events run evs s)"
  by (induction evs arbitrary: s) (simp_all add: botnet_events_def)

definition quiet_since :: "u32 \<Rightarrow> gotime \<Rightarrow> (gotime \<times> u32) list \<Rightarrow> bool" where
  "quiet_since limit t h \<longleftrightarrow> (\<exists>h1 h2. h = h1 @ h2 \<and> h2 \<noteq> [] \<and> fst (hd h2) = t \<and> (\<forall>(u, r)\<in>set h2. r < limit))"

lemma quiet_sinceI: "r < limit \<Longrightarrow> quiet_since limit t (h @ [(t, r)])"
  unfolding quiet_since_def by (intro exI [of _ h] exI [of _ "[(t, r)]"]) simp

lemma quiet_since_snoc: "quiet_since limit t h \<Longrightarrow> r < limit \<Longrightarrow> quiet_since limit t (h @ [(u, r)])"
proof -
  assume "quiet_since limit t h" "r < limit"
  then obtain h1 h2 where "h = h1 @ h2" "h2 \<noteq> []" "fst (hd h2) = t" "\<forall>(u, r)\<in>set h2. r < limit"
    unfolding quiet_since_def by blast
  with \<open>r < limit\<close> show ?thesis
    unfolding quiet_since_def by (intro exI [of _ h1] exI [of _ "h2 @ [(u, r)]"]) auto
qed

definition botnet_inv :: "u32 \<Rightarrow> duration \<Rightarrow> (gotime \<times> u32) list \<Rightarrow> botnet_controller \<Rightarrow> bool" where
  "botnet_inv limit cool h c \<longleftrightarrow> half_threshold c = limit \<and> bc_cooldown c = cool \<and>
     (bc_below c \<longrightarrow> quiet_since limit (bc_below_since c) h)"

lemma botnet_step_inv:
  assumes "botnet_inv limit cool h (fst s)"
  shows "botnet_inv limit cool (h @ reading run ev s) (fst (botnet_event_step run ev s))"
proof (cases s)
  case (Pair c k)
  show ?thesis
  proof (cases ev)
    case Force
    with assms show ?thesis
      by (auto simp: Pair botnet_event_step_def reading_def force_disable_def botnet_inv_def half_threshold_def
          split: prod.splits sum.splits)
  next
    case (Poll now)
    obtain res k1 where read: "read_new_ip_rate run c k = (res, k1)" by (cases "read_new_ip_rate run c k") blast
    show ?thesis
    proof (cases res)
      case (Inl e)
      with assms read Poll show ?thesis
        by (simp add: Pair botnet_event_step_def reading_def botnet_poll_def)
    next
      case (Inr rate)
      have h: "h @ reading run ev s = h @ [(now, rate)]" by (simp add: Poll reading_def Pair read Inr)
      have "quiet_since limit (bc_below_since c) (h @ [(now, rate)])" if "bc_below c" "rate < limit"
        using that assms by (intro quiet_since_snoc) (simp_all add: botnet_inv_def Pair)
      moreover have "quiet_since limit now (h @ [(now, rate)])" if "rate < limit"
        using that by (rule quiet_sinceI)
      ultimately show ?thesis
        using assms unfolding h
        by (auto simp: Pair Poll botnet_event_step_def botnet_poll_def read Inr botnet_inv_def half_threshold_def Let_def
            split: prod.splits sum.splits)
    qed
  qed
qed

lemma botnet_events_inv:
  "botnet_inv limit cool h (fst s) \<Longrightarrow>
     botnet_inv limit cool (h @ readings run evs s) (fst (botnet_events run evs s))"
proof (induction evs arbitrary: h s)
  case (Cons ev evs)
  from Cons.IH [OF botnet_step_inv [OF Cons.prems, of run ev]] show ?case by (simp add: botnet_events_def)
qed (simp add: botnet_events_def)

text \<open>
  C22. The controller ends the botnet mode only after a quiet time: in a run of polls and forced
  disables of a new controller, in any order and with any answers of the kernel, a poll switches
  the mode off only when the last readings, this one included and for at least the cooldown, were
  all below half the threshold.
\<close>

theorem botnet_mode_ends_when_quiet:
  assumes "s = botnet_events run evs (new_botnet_controller cfg, k)" "bc_active (fst s)"
    "\<not> bc_active (fst (botnet_poll run now s))"
  shows "\<exists>t. quiet_since (half_threshold (fst s)) t (readings run (evs @ [Poll now]) (new_botnet_controller cfg, k)) \<and>
    bc_cooldown (fst s) \<le> time_sub now t"
proof -
  let ?n = "new_botnet_controller cfg"
  have "botnet_inv (half_threshold ?n) (bc_cooldown ?n) [] (fst (?n, k))"
    by (simp add: botnet_inv_def new_botnet_controller_def Let_def)
  from botnet_events_inv [OF this, of run evs] have inv: "botnet_inv (half_threshold (fst s)) (bc_cooldown (fst s)) (readings run evs (?n, k)) (fst s)"
    by (auto simp: assms(1) botnet_inv_def)
  obtain c k0 where s: "s = (c, k0)" by (cases s)
  obtain res k1 where read: "read_new_ip_rate run c k0 = (res, k1)" by (cases "read_new_ip_rate run c k0") blast
  from assms(2,3) obtain r where r: "res = Inr r" "r < half_threshold c" "bc_below c"
      "bc_cooldown c \<le> time_sub now (bc_below_since c)"
    by (auto simp: botnet_poll_def s read Let_def split: sum.splits if_splits)
  have "readings run (evs @ [Poll now]) (?n, k) = readings run evs (?n, k) @ [(now, r)]"
    using assms(1) by (simp add: readings_append reading_def s read r(1) flip: assms(1))
  with inv r s show ?thesis
    by (intro exI [of _ "bc_below_since c"]) (simp add: botnet_inv_def quiet_since_snoc)
qed


text \<open>A kernel that counts 5000 new addresses in the first poll and none later.\<close>

fun quiet_tool :: "nat bpftool" where
  "quiet_tool args k =
     (if args ! 2 = ''percpu''
      then ((True, cpu_dump [replicate 8 0 @ (if k = 0 then [136, 19, 0, 0] else [0, 0, 0, 0])]), Suc k)
      else if args ! 1 = ''lookup'' then ((True, lookup_line (replicate 52 1)), k) else ((True, []), k))"

definition demo_options :: botnet_options where
  "demo_options = \<lparr>bo_threshold = 0, bo_cooldown = 0, bo_poll = 0\<rparr>"

lemma quiet_read: "read_new_ip_rate quiet_tool c k = (Inr (if k = 0 then 5000 else 0), Suc k)"
proof -
  have "parse_per_cpu_counters (cpu_dump [replicate 8 0 @ (if k = 0 then [136, 19, 0, 0] else [0, 0, 0, 0])]) =
      sum_list (map counter_of [replicate 8 0 @ (if k = 0 then [136, 19, 0, 0] else [0, 0, 0, 0])])"
    by (rule dump_sum) simp
  then show ?thesis by (simp add: read_new_ip_rate_def counter_of_def bytes_at_def)
qed

lemma quiet_write: "write_botnet_mode_active quiet_tool name b k = (Inr (), k)"
proof -
  have "read_config_map quiet_tool name k = (Inr (replicate 52 1), k)"
    unfolding read_config_map_def index_zero_fields by (simp add: parse_lookup_line del: replicate.simps)
  then show ?thesis
    unfolding write_botnet_mode_active_def write_config_map_eq bpftool_map_update_def index_zero_fields by simp
qed

lemma demo_controller: "new_botnet_controller demo_options =
   \<lparr>bc_config_map = ''kiro_config'', bc_rate_map = ''new_ip_rate'', bc_threshold = 5000,
    bc_cooldown = 30000000000, bc_poll = 1000000000, bc_below_since = zero_time, bc_below = False,
    bc_last_rate = 0, bc_active = False\<rparr>"
  by (simp add: new_botnet_controller_def demo_options_def nanos_def i64_def)

theorem botnet_mode_ends_when_quiet_witness:
  "\<exists>t. quiet_since 2500 t (readings quiet_tool [Poll 0, Poll 10, Poll 40000000000] (new_botnet_controller demo_options, 0)) \<and>
     30000000000 \<le> time_sub 40000000000 t"
proof -
  let ?c = "new_botnet_controller demo_options"
  let ?s = "(?c\<lparr>bc_last_rate := 0, bc_active := True, bc_below := True, bc_below_since := 10\<rparr>, 2)"
  have s: "?s = botnet_events quiet_tool [Poll 0, Poll 10] (?c, 0)"
    by (simp add: botnet_events_def botnet_event_step_def botnet_poll_def quiet_read demo_controller half_threshold_def)
  have "\<not> bc_active (fst (botnet_poll quiet_tool 40000000000 ?s))"
    by (simp add: botnet_poll_def quiet_read quiet_write demo_controller half_threshold_def time_sub_def i64_max_def i64_min_def)
  from botnet_mode_ends_when_quiet [OF s _ this] show ?thesis
    by (simp add: half_threshold_def demo_controller del: readings.simps)
qed

text \<open>
  And it does end it: with readings below half the threshold and working writes, an active
  controller is inactive after polls that span the cooldown.
\<close>

lemma quiet_poll:
  assumes "read_new_ip_rate run c k = (Inr r, k1)" "r < half_threshold c" "bc_below c"
    "\<And>k. \<exists>k'. write_botnet_mode_active run (bc_config_map c) 0 k = (Inr (), k')"
  shows "\<exists>k2. botnet_poll run now (c, k) =
    (c\<lparr>bc_last_rate := r, bc_active := bc_active c \<and> \<not> bc_cooldown c \<le> time_sub now (bc_below_since c)\<rparr>, k2)"
proof -
  obtain k' where w: "write_botnet_mode_active run (bc_config_map c) 0 k1 = (Inr (), k')" using assms(4) by blast
  have same: "c\<lparr>bc_last_rate := r, bc_active := b\<rparr> = c\<lparr>bc_last_rate := r\<rparr>" if "bc_active c = b" for b
    using that by (cases c) simp
  show ?thesis
    by (auto simp: botnet_poll_def assms(1-3) w same Let_def)
qed

lemma quiet_run_keeps:
  assumes "\<And>k. \<exists>r k1. read_new_ip_rate run c k = (Inr r, k1) \<and> r < half_threshold c"
    "\<And>k. \<exists>k'. write_botnet_mode_active run (bc_config_map c) 0 k = (Inr (), k')" "bc_below c"
  shows "\<exists>r k2. botnet_run run ticks (c, k) =
    (c\<lparr>bc_last_rate := r, bc_active := bc_active c \<and> \<not> (\<exists>t\<in>set ticks. bc_cooldown c \<le> time_sub t (bc_below_since c))\<rparr>, k2)"
  using assms
proof (induction ticks arbitrary: c k)
  case Nil
  show ?case by (intro exI [of _ "bc_last_rate c"] exI [of _ k]) (simp add: botnet_run_def)
next
  case (Cons t ts)
  obtain r k1 where read: "read_new_ip_rate run c k = (Inr r, k1)" "r < half_threshold c" using Cons.prems(1) by blast
  from quiet_poll [OF read Cons.prems(3,2)] obtain k2 where
    poll: "botnet_poll run t (c, k) =
      (c\<lparr>bc_last_rate := r, bc_active := bc_active c \<and> \<not> bc_cooldown c \<le> time_sub t (bc_below_since c)\<rparr>, k2)" by blast
  let ?c = "c\<lparr>bc_last_rate := r, bc_active := bc_active c \<and> \<not> bc_cooldown c \<le> time_sub t (bc_below_since c)\<rparr>"
  have "read_new_ip_rate run ?c k = read_new_ip_rate run c k" "half_threshold ?c = half_threshold c" for k
    by (simp_all add: read_new_ip_rate_def half_threshold_def)
  with Cons.prems have "\<exists>r' k3. botnet_run run ts (?c, k2) = (?c\<lparr>bc_last_rate := r',
      bc_active := bc_active ?c \<and> \<not> (\<exists>t\<in>set ts. bc_cooldown ?c \<le> time_sub t (bc_below_since ?c))\<rparr>, k3)"
    by (intro Cons.IH) simp_all
  then obtain r' k3 where "botnet_run run ts (?c, k2) = (?c\<lparr>bc_last_rate := r',
      bc_active := bc_active ?c \<and> \<not> (\<exists>t\<in>set ts. bc_cooldown ?c \<le> time_sub t (bc_below_since ?c))\<rparr>, k3)" by blast
  moreover have "botnet_run run (t # ts) (c, k) = botnet_run run ts (?c, k2)" by (simp add: botnet_run_def poll)
  ultimately show ?case by (intro exI [of _ r'] exI [of _ k3]) auto
qed

text \<open>
  A controller that starts after the kernel has entered the botnet mode, and that never sees half
  the threshold itself, takes the mode for inactive: it writes nothing and the mode stays on.
\<close>

lemma fresh_controller_never_clears:
  assumes "\<And>c k. \<exists>r. read_new_ip_rate run c k = (Inr r, k) \<and> r < limit"
    "half_threshold c = limit" "\<not> bc_active c"
  shows "snd (botnet_run run ticks (c, k)) = k \<and> \<not> bc_active (fst (botnet_run run ticks (c, k)))"
  using assms(2,3)
proof (induction ticks arbitrary: c)
  case (Cons t ts)
  obtain r where r: "read_new_ip_rate run c k = (Inr r, k)" "r < limit" using assms(1) by blast
  then have "\<exists>c'. botnet_poll run t (c, k) = (c', k) \<and> half_threshold c' = limit \<and> \<not> bc_active c'"
    using Cons.prems by (auto simp: botnet_poll_def Let_def half_threshold_def)
  with Cons.IH show ?case by (auto simp: botnet_run_def)
qed (simp add: botnet_run_def)

text \<open>With a threshold of 1 no reading is below its half, 0, and the mode never ends.\<close>

lemma threshold_one_never_quiet: "bc_threshold c = 1 \<Longrightarrow> \<not> r < half_threshold c"
  by (simp add: half_threshold_def)

end
