(* ===== verification/GeoIp.thy ===== *)
theory GeoIp
  imports XdpMaps
begin

text \<open>
  The GeoIP loader, \<^verbatim>\<open>internal/client/xdp/geoip_loader.go\<close>: networks and their countries go
  from a CSV file into the kernel's prefix map, the blocked countries into a hash map. The reads
  of \<^verbatim>\<open>encoding/csv\<close> are an argument, the sequence of results its reader gives; the loop over
  them may not end, so it is a \<open>partial_function\<close>. A country code is text of the shape ISO uses:
  of characters outside ASCII only those with an ASCII upper case are mapped.
\<close>

subsection \<open>Encodings\<close>

definition encode_country_code :: "string \<Rightarrow> u16" where
  "encode_country_code cc =
     (case cc of a # b # _ \<Rightarrow> push_bit 8 (ucast (byte_of a)) OR ucast (byte_of b) | _ \<Rightarrow> 0)"

definition country_code_to_string :: "u16 \<Rightarrow> string" where
  "country_code_to_string code =
     (if code = 0 then [] else [chr_of (ucast (drop_bit 8 code)), chr_of (ucast (code AND 0xff))])"

definition to_le_hex32 :: "u32 \<Rightarrow> string" where
  "to_le_hex32 v = join_with '' '' (map hex_byte (le_bytes 4 v))"

definition to_le_hex16 :: "u16 \<Rightarrow> string" where
  "to_le_hex16 v = join_with '' '' (map hex_byte (le_bytes 2 v))"

text \<open>\<^verbatim>\<open>To4\<close> on the address of a network, which has four or sixteen bytes.\<close>

definition net_to4 :: "u8 list \<Rightarrow> u8 list option" where
  "net_to4 ip = (if length ip = 4 then Some ip else to4 ip)"

definition to_net_hex32 :: "u8 list \<Rightarrow> string" where
  "to_net_hex32 ip =
     (case net_to4 ip of None \<Rightarrow> ''0x00 0x00 0x00 0x00'' | Some ip4 \<Rightarrow> join_with '' '' (map hex_byte ip4))"

text \<open>The ones of \<^verbatim>\<open>Mask.Size\<close>; the masks that \<^verbatim>\<open>ParseCIDR\<close> makes are runs of ones.\<close>

fun leading_ones :: "u8 list \<Rightarrow> nat" where
  "leading_ones [] = 0"
| "leading_ones (b # bs) = (if b = 0xff then 8 + leading_ones bs else length (takeWhile (bit b) (rev [0..<8])))"

definition prefix_len_from_mask :: "u8 list \<Rightarrow> nat" where
  "prefix_len_from_mask m = leading_ones m"

definition format_lpm_key :: "u8 list \<Rightarrow> nat \<Rightarrow> string" where
  "format_lpm_key ip n = to_le_hex32 (word_of_nat n) @ '' '' @ to_net_hex32 ip"

subsection \<open>The file\<close>

record geoip_entry =
  ge_net :: ip_net
  ge_country :: string

datatype csv_read = Csv_record "string list" | Csv_error | Csv_eof

text \<open>The rows up to the end of the file; a read error skips the row.\<close>

partial_function (option) csv_rows :: "(nat \<Rightarrow> csv_read) \<Rightarrow> nat \<Rightarrow> string list list option" where
  "csv_rows rd n =
     (case rd n of
        Csv_eof \<Rightarrow> Some []
      | Csv_error \<Rightarrow> csv_rows rd (Suc n)
      | Csv_record r \<Rightarrow> Option.bind (csv_rows rd (Suc n)) (\<lambda>rs. Some (r # rs)))"

text \<open>The last column of that name.\<close>

definition column_of :: "string \<Rightarrow> string list \<Rightarrow> nat option" where
  "column_of name header =
     foldl (\<lambda>found (i, col). if trim_space (go_lower col) = name then Some i else found) None
       (zip [0..<length header] header)"

definition geoip_row :: "nat \<Rightarrow> nat \<Rightarrow> string list \<Rightarrow> geoip_entry option" where
  "geoip_row ni ci row =
     (if length row \<le> ni \<or> length row \<le> ci then None
      else
        let cc = trim_space (row ! ci)
        in if length cc \<noteq> 2 then None
           else case parse_cidr (trim_space (row ! ni)) of
                  None \<Rightarrow> None
                | Some (ip, n) \<Rightarrow>
                    if net_to4 (net_ip n) = None then None
                    else Some \<lparr>ge_net = n, ge_country = go_upper cc\<rparr>)"

datatype geoip_error = Open_failed | Header_failed | No_network_column | No_country_column | Blocklist_failed xdp_error

text \<open>\<open>None\<close>: the reader never comes to the end of the file.\<close>

definition parse_geoip_csv :: "(nat \<Rightarrow> csv_read) \<Rightarrow> (geoip_error + geoip_entry list) option" where
  "parse_geoip_csv rd =
     (case rd 0 of
        Csv_record header \<Rightarrow>
          (case (column_of ''network'' header, column_of ''country_iso_code'' header) of
             (None, _) \<Rightarrow> Some (Inl No_network_column)
           | (Some _, None) \<Rightarrow> Some (Inl No_country_column)
           | (Some ni, Some ci) \<Rightarrow>
               map_option (\<lambda>rows. Inr (List.map_filter (geoip_row ni ci) rows)) (csv_rows rd 1))
      | _ \<Rightarrow> Some (Inl Header_failed))"

subsection \<open>The loader\<close>

record geoip_loader =
  gl_geo_map :: string
  gl_block_map :: string
  gl_csv :: string
  gl_countries :: "string list"
  gl_refreshed :: gotime

definition new_geoip_loader :: geoip_loader where
  "new_geoip_loader = \<lparr>gl_geo_map = ''geoip_map'', gl_block_map = ''country_blocklist'', gl_csv = [],
     gl_countries = [], gl_refreshed = zero_time\<rparr>"

definition update_geoip_map :: "'k bpftool \<Rightarrow> string \<Rightarrow> geoip_entry \<Rightarrow> 'k \<Rightarrow> (xdp_error + unit) \<times> 'k" where
  "update_geoip_map run map_name e k =
     (case net_to4 (net_ip (ge_net e)) of
        None \<Rightarrow> (Inl Config_short, k)
      | Some ip4 \<Rightarrow>
          bpftool_map_update run map_name
            (to_le_hex32 (word_of_nat (prefix_len_from_mask (net_mask (ge_net e)))) @ '' '' @ to_net_hex32 ip4)
            (to_le_hex16 (encode_country_code (ge_country e))) k)"

definition update_country_blocklist :: "'k bpftool \<Rightarrow> string \<Rightarrow> string \<Rightarrow> 'k \<Rightarrow> (xdp_error + unit) \<times> 'k" where
  "update_country_blocklist run map_name cc k =
     bpftool_map_update run map_name (to_le_hex16 (encode_country_code cc)) ''0x01'' k"

text \<open>An entry that cannot be written is logged and passed over.\<close>

fun load_entries :: "'k bpftool \<Rightarrow> string \<Rightarrow> geoip_entry list \<Rightarrow> 'k \<Rightarrow> 'k" where
  "load_entries run map_name [] k = k"
| "load_entries run map_name (e # es) k = load_entries run map_name es (snd (update_geoip_map run map_name e k))"

definition load_from_csv :: "'k bpftool \<Rightarrow> string \<Rightarrow> (nat \<Rightarrow> csv_read) option \<Rightarrow> gotime \<Rightarrow> geoip_loader \<Rightarrow> 'k \<Rightarrow>
    ((geoip_error + unit) \<times> geoip_loader \<times> 'k) option" where
  "load_from_csv run path file now g k =
     (case file of None \<Rightarrow> Some (Inl Open_failed, g, k)
      | Some rd \<Rightarrow>
          (case parse_geoip_csv rd of
             None \<Rightarrow> None
           | Some (Inl e) \<Rightarrow> Some (Inl e, g, k)
           | Some (Inr es) \<Rightarrow>
               Some (Inr (), g\<lparr>gl_csv := path, gl_refreshed := now\<rparr>, load_entries run (gl_geo_map g) es k)))"

fun block_countries :: "'k bpftool \<Rightarrow> string \<Rightarrow> string list \<Rightarrow> 'k \<Rightarrow> (geoip_error + unit) \<times> 'k" where
  "block_countries run map_name [] k = (Inr (), k)"
| "block_countries run map_name (raw # rest) k =
     (let cc = trim_space (go_upper raw)
      in if length cc \<noteq> 2 then block_countries run map_name rest k
         else case update_country_blocklist run map_name cc k of
                (Inl e, k1) \<Rightarrow> (Inl (Blocklist_failed e), k1)
              | (Inr _, k1) \<Rightarrow> block_countries run map_name rest k1)"

definition load_blocked_countries :: "'k bpftool \<Rightarrow> string list \<Rightarrow> geoip_loader \<Rightarrow> 'k \<Rightarrow>
    (geoip_error + unit) \<times> geoip_loader \<times> 'k" where
  "load_blocked_countries run countries g k =
     (case block_countries run (gl_block_map g) countries k of
        (r, k1) \<Rightarrow> (r, g\<lparr>gl_countries := countries\<rparr>, k1))"

definition load_blocked_countries_from_env :: "'k bpftool \<Rightarrow> string \<Rightarrow> geoip_loader \<Rightarrow> 'k \<Rightarrow>
    (geoip_error + unit) \<times> geoip_loader \<times> 'k" where
  "load_blocked_countries_from_env run env g k =
     (if env = [] then (Inr (), g, k)
      else
        let cleaned = filter (\<lambda>c. c \<noteq> []) (map trim_space (split_on CHR '','' env))
        in if cleaned = [] then (Inr (), g, k) else load_blocked_countries run cleaned g k)"

definition parse_blocked_countries_env :: "string \<Rightarrow> string list" where
  "parse_blocked_countries_env env =
     (if env = [] then []
      else filter (\<lambda>p. length p = 2) (map (\<lambda>p. trim_space (go_upper p)) (split_on CHR '','' env)))"

definition geoip_refresh :: "'k bpftool \<Rightarrow> (nat \<Rightarrow> csv_read) option \<Rightarrow> gotime \<Rightarrow> geoip_loader \<times> 'k \<Rightarrow>
    (geoip_loader \<times> 'k) option" where
  "geoip_refresh run file now = (\<lambda>(g, k).
     (let after_csv = (if gl_csv g \<noteq> [] then map_option snd (load_from_csv run (gl_csv g) file now g k) else Some (g, k))
      in case after_csv of None \<Rightarrow> None
         | Some (g1, k1) \<Rightarrow>
             if gl_countries g \<noteq> [] then Some (snd (load_blocked_countries run (gl_countries g) g1 k1))
             else Some (g1, k1)))"

subsection \<open>The end of the file\<close>

lemma csv_rows_ends:
  assumes "csv_rows rd n = Some rs"
  shows "\<exists>m\<ge>n. rd m = Csv_eof"
proof (rule csv_rows.raw_induct [OF _ assms, where P = "\<lambda>rd n rs. \<exists>m\<ge>n. rd m = Csv_eof"])
  fix f :: "(nat \<Rightarrow> csv_read) \<Rightarrow> nat \<Rightarrow> string list list option" and rd n rs
  assume IH: "\<And>rd n rs. f rd n = Some rs \<Longrightarrow> \<exists>m\<ge>n. rd m = Csv_eof"
    and body: "(case rd n of Csv_record r \<Rightarrow> Option.bind (f rd (Suc n)) (\<lambda>rs. Some (r # rs))
      | Csv_error \<Rightarrow> f rd (Suc n) | Csv_eof \<Rightarrow> Some []) = Some rs"
  show "\<exists>m\<ge>n. rd m = Csv_eof"
  proof (cases "rd n = Csv_eof")
    case False
    with body obtain rs' where "f rd (Suc n) = Some rs'"
      by (auto simp: Option.bind_eq_Some_conv split: csv_read.splits)
    from IH [OF this] show ?thesis by (meson Suc_leD)
  qed blast
qed

lemma csv_rows_returns: "rd (n + d) = Csv_eof \<Longrightarrow> \<exists>rs. csv_rows rd n = Some rs"
proof (induction d arbitrary: n)
  case 0
  then show ?case by (simp add: csv_rows.simps)
next
  case (Suc d)
  then have "\<exists>rs. csv_rows rd (Suc n) = Some rs" by simp
  then obtain rs where "csv_rows rd (Suc n) = Some rs" by blast
  then show ?case by (cases "rd n") (simp_all add: csv_rows.simps)
qed

lemma csv_rows_iff: "csv_rows rd n = None \<longleftrightarrow> (\<forall>m\<ge>n. rd m \<noteq> Csv_eof)"
proof
  assume none: "csv_rows rd n = None"
  show "\<forall>m\<ge>n. rd m \<noteq> Csv_eof"
  proof (intro allI impI notI)
    fix m assume "n \<le> m" "rd m = Csv_eof"
    with csv_rows_returns [of rd n "m - n"] none show False by simp
  qed
next
  assume "\<forall>m\<ge>n. rd m \<noteq> Csv_eof"
  with csv_rows_ends show "csv_rows rd n = None" by (metis not_None_eq)
qed


text \<open>
  Loading a file returns unless the reader never reports the end of the file. A disk error
  that the reader reports again and again is such a case: every error is taken for a bad row and
  passed over, so the loop runs for ever, with the loader's mutex held.
\<close>

theorem csv_load_ends:
  "load_from_csv run path (Some rd) now g k = None \<longleftrightarrow>
     (\<exists>header. rd 0 = Csv_record header \<and> column_of ''network'' header \<noteq> None \<and>
        column_of ''country_iso_code'' header \<noteq> None \<and> Csv_eof \<notin> rd ` {1..})"
proof -
  have none: "csv_rows rd 1 = None \<longleftrightarrow> Csv_eof \<notin> rd ` {1..}"
    unfolding csv_rows_iff by (auto simp: image_iff) (drule_tac x = m in bspec, simp_all)
  have some: "Csv_eof \<in> rd ` {1..}" if "csv_rows rd 1 = Some rows" for rows
    using that none by (metis option.distinct(1))
  show ?thesis
    by (auto simp: load_from_csv_def parse_geoip_csv_def none dest: some simp flip: One_nat_def
        split: csv_read.splits option.splits sum.splits)
qed

subsection \<open>What the kernel maps hold\<close>

text \<open>
  The maps of the kernel state: an update that reports success has set the key of its command
  line in that map, one that reports failure has changed nothing.
\<close>

definition map_law :: "'k bpftool \<Rightarrow> ('k \<Rightarrow> string \<Rightarrow> u8 list \<Rightarrow> u8 list option) \<Rightarrow> bool" where
  "map_law run cell \<longleftrightarrow>
     (\<forall>k name ks vs ok out k'.
        run ([''map'', ''update'', ''name'', name, ''key''] @ map hex_byte ks @ [''value''] @ map hex_byte vs) k
          = ((ok, out), k') \<longrightarrow>
        cell k' = (if ok then (cell k)(name := (cell k name)(ks \<mapsto> vs)) else cell k))"

lemma map_update:
  assumes "map_law run cell" "go_fields key_hex = map hex_byte ks" "go_fields value_hex = map hex_byte vs"
    "bpftool_map_update run name key_hex value_hex k = (r, k')"
  shows "cell k' = (if isl r then cell k else (cell k)(name := (cell k name)(ks \<mapsto> vs)))"
proof -
  from assms(2-4) obtain ok out where
    "run ([''map'', ''update'', ''name'', name, ''key''] @ map hex_byte ks @ [''value''] @ map hex_byte vs) k
       = ((ok, out), k')" and r: "isl r \<longleftrightarrow> \<not> ok"
    by (auto simp: bpftool_map_update_def split: prod.splits)
  with assms(1) have "cell k' = (if ok then (cell k)(name := (cell k name)(ks \<mapsto> vs)) else cell k)"
    unfolding map_law_def by blast
  with r show ?thesis by simp
qed

lemma working_tool:
  assumes "\<forall>args k. fst (fst (run args k))" "bpftool_map_update run name a b k = (r, k')"
  shows "r = Inr ()"
proof -
  let ?args = "[''map'', ''update'', ''name'', name, ''key''] @ go_fields a @ [''value''] @ go_fields b"
  obtain ok out k1 where run: "run ?args k = ((ok, out), k1)" by (cases "run ?args k") auto
  from assms(1) have "fst (fst (run ?args k))" by blast
  with run assms(2) show ?thesis by (simp add: bpftool_map_update_def)
qed

lemma fields_hex [simp]: "go_fields (join_with '' '' (map hex_byte bs)) = map hex_byte bs"
  using fields_bytes_to_hex [of bs] by (simp add: bytes_to_hex_def)

lemma country_fields: "go_fields (to_le_hex16 v) = map hex_byte (le_bytes 2 v)"
  by (simp add: to_le_hex16_def)

lemma one_fields: "go_fields ''0x01'' = map hex_byte [1]"
proof -
  have "''0x01'' = bytes_to_hex [1]"
    by (simp add: bytes_to_hex_def join_with_def hex_byte_def hex_word_def hex_digit_def)
      (simp add: char_of_def bit_simps)
  then show ?thesis by (metis fields_bytes_to_hex)
qed

lemma net_to4_length: "net_to4 ip = Some ip4 \<Longrightarrow> length ip4 = 4"
  by (auto simp: net_to4_def to4_def split: if_splits)

definition lpm_key :: "geoip_entry \<Rightarrow> u8 list" where
  "lpm_key e = le_bytes 4 (word_of_nat (prefix_len_from_mask (net_mask (ge_net e))) :: u32) @ the (net_to4 (net_ip (ge_net e)))"

definition country_key :: "string \<Rightarrow> u8 list" where
  "country_key cc = le_bytes 2 (encode_country_code cc)"

lemma lpm_fields:
  assumes "net_to4 (net_ip (ge_net e)) = Some ip4"
  shows "go_fields (to_le_hex32 (word_of_nat (prefix_len_from_mask (net_mask (ge_net e)))) @ '' '' @ to_net_hex32 ip4)
    = map hex_byte (lpm_key e)"
proof -
  have "net_to4 ip4 = Some ip4" using net_to4_length [OF assms] by (simp add: net_to4_def)
  then show ?thesis
    unfolding to_le_hex32_def to_net_hex32_def lpm_key_def
    by (subst fields_join_suffix) (use hex_bytes_plain assms in \<open>simp_all\<close>)
qed

lemma update_geoip_law:
  assumes "map_law run cell" "net_to4 (net_ip (ge_net e)) \<noteq> None" "update_geoip_map run name e k = (r, k')"
  shows "cell k' = (if isl r then cell k else (cell k)(name := (cell k name)(lpm_key e \<mapsto> country_key (ge_country e))))"
proof -
  from assms(2) obtain ip4 where ip4: "net_to4 (net_ip (ge_net e)) = Some ip4" by blast
  show ?thesis
    using map_update [OF assms(1) lpm_fields [OF ip4] country_fields] assms(3)
    unfolding update_geoip_map_def ip4 option.case country_key_def by blast
qed

lemma update_block_law:
  assumes "map_law run cell" "update_country_blocklist run name cc k = (r, k')"
  shows "cell k' = (if isl r then cell k else (cell k)(name := (cell k name)(country_key cc \<mapsto> [1])))"
  using map_update [OF assms(1) country_fields one_fields] assms(2)
  unfolding update_country_blocklist_def country_key_def by blast

definition listed_codes :: "string list \<Rightarrow> string set" where
  "listed_codes countries = {cc \<in> (\<lambda>raw. trim_space (go_upper raw)) ` set countries. length cc = 2}"

lemma block_countries_law:
  assumes "map_law run cell" "block_countries run name countries k = (Inr u, k')"
  shows "cell k' = (cell k)(name := (\<lambda>key. if key \<in> country_key ` listed_codes countries then Some [1] else cell k name key))"
  using assms(2)
proof (induction countries arbitrary: k)
  case (Cons raw rest)
  let ?cc = "trim_space (go_upper raw)"
  show ?case
  proof (cases "length ?cc = 2")
    case False
    then have "listed_codes (raw # rest) = listed_codes rest" by (auto simp: listed_codes_def)
    with Cons False show ?thesis by simp
  next
    case True
    with Cons.prems obtain v k1 where up: "update_country_blocklist run name ?cc k = (Inr v, k1)"
        and rest: "block_countries run name rest k1 = (Inr u, k')"
      by (auto simp: Let_def split: prod.splits sum.splits)
    from update_block_law [OF assms(1) up]
    have "cell k1 = (cell k)(name := (cell k name)(country_key ?cc \<mapsto> [1]))" by simp
    moreover have "listed_codes (raw # rest) = insert ?cc (listed_codes rest)" using True by (auto simp: listed_codes_def)
    ultimately show ?thesis using Cons.IH [OF rest] by (auto simp: fun_eq_iff)
  qed
qed (simp add: listed_codes_def)

text \<open>
  Loading the blocked countries adds exactly the listed two-letter codes, in upper case, to
  the kernel's blocklist, each blocked; it removes none, so a country that has been taken off
  the list stays blocked; no other map changes.
\<close>

theorem blocklist_grows_exactly:
  assumes "map_law run cell" "load_blocked_countries run countries g k = (Inr (), g', k')"
  shows "cell k' (gl_block_map g) =
      (\<lambda>key. if key \<in> country_key ` listed_codes countries then Some [1] else cell k (gl_block_map g) key) \<and>
    (\<forall>name. name \<noteq> gl_block_map g \<longrightarrow> cell k' name = cell k name) \<and> gl_countries g' = countries"
proof -
  from assms(2) have "block_countries run (gl_block_map g) countries k = (Inr (), k')"
      and g': "g' = g\<lparr>gl_countries := countries\<rparr>"
    by (auto simp: load_blocked_countries_def split: prod.splits)
  from block_countries_law [OF assms(1) this(1)] show ?thesis by (simp add: g')
qed

lemma load_entries_other:
  assumes "map_law run cell" "\<forall>e\<in>set es. net_to4 (net_ip (ge_net e)) \<noteq> None" "key \<notin> lpm_key ` set es"
  shows "cell (load_entries run name es k) name key = cell k name key"
  using assms(2,3)
proof (induction es arbitrary: k)
  case (Cons e es)
  obtain r k1 where up: "update_geoip_map run name e k = (r, k1)" by (cases "update_geoip_map run name e k")
  from update_geoip_law [OF assms(1) _ up] Cons.prems
  have "cell k1 name key = cell k name key" by (auto split: if_splits)
  with Cons up show ?case by simp
qed simp

lemma parsed_entries_v4:
  "parse_geoip_csv rd = Some (Inr es) \<Longrightarrow> e \<in> set es \<Longrightarrow> net_to4 (net_ip (ge_net e)) \<noteq> None"
proof -
  assume "parse_geoip_csv rd = Some (Inr es)" "e \<in> set es"
  then obtain ni ci rows where "e \<in> set (List.map_filter (geoip_row ni ci) rows)"
    by (auto simp: parse_geoip_csv_def split: csv_read.splits option.splits)
  then obtain row where "geoip_row ni ci row = Some e" by (auto simp: List.map_filter_def)
  then show ?thesis by (auto simp: geoip_row_def Let_def split: if_splits option.splits)
qed

lemma load_entries_append: "load_entries run name (es @ es') k = load_entries run name es' (load_entries run name es k)"
  by (induction es arbitrary: k) simp_all

text \<open>
  A listed country is blocked: after a file and a list have been loaded by a tool that works,
  the kernel finds for every network of the file whose country is listed the code under which the
  blocklist says blocked, as long as no later row has the same network.
\<close>

theorem listed_network_blocked:
  assumes "map_law run cell" "\<forall>args k. fst (fst (run args k))"
    "load_from_csv run path (Some rd) now g k = Some (Inr (), g1, k1)"
    "parse_geoip_csv rd = Some (Inr (es @ e # es'))" "lpm_key e \<notin> lpm_key ` set es'"
    "load_blocked_countries run countries g1 k1 = (Inr (), g2, k2)"
    "ge_country e \<in> listed_codes countries" "gl_geo_map g \<noteq> gl_block_map g"
  shows "\<exists>v. cell k2 (gl_geo_map g) (lpm_key e) = Some v \<and> cell k2 (gl_block_map g) v = Some [1]"
proof -
  let ?n = "gl_geo_map g" and ?k0 = "load_entries run (gl_geo_map g) es k"
  have v4: "net_to4 (net_ip (ge_net x)) \<noteq> None" if "x \<in> set (es @ e # es')" for x
    using parsed_entries_v4 [OF assms(4) that] .
  from assms(3,4) have k1: "k1 = load_entries run ?n (e # es') ?k0" and g1: "gl_block_map g1 = gl_block_map g"
    by (auto simp: load_from_csv_def load_entries_append)
  obtain r k0' where up: "update_geoip_map run ?n e ?k0 = (r, k0')" by (cases "update_geoip_map run ?n e ?k0")
  have "\<not> isl r"
  proof -
    from v4 [of e] obtain ip4 where "net_to4 (net_ip (ge_net e)) = Some ip4" by auto
    with up have "r = Inr ()" by (intro working_tool [OF assms(2)]) (simp add: update_geoip_map_def)
    then show ?thesis by simp
  qed
  with update_geoip_law [OF assms(1) v4 [of e] up]
  have here: "cell k0' ?n (lpm_key e) = Some (country_key (ge_country e))" by simp
  have later: "cell k1 ?n (lpm_key e) = cell k0' ?n (lpm_key e)"
    unfolding k1 load_entries.simps up snd_conv
    by (rule load_entries_other [OF assms(1) _ assms(5)]) (use v4 in simp)
  from assms(6) have "block_countries run (gl_block_map g) countries k1 = (Inr (), k2)"
    by (auto simp: load_blocked_countries_def g1 split: prod.splits)
  note k2 = block_countries_law [OF assms(1) this]
  have "cell k2 ?n = cell k1 ?n" unfolding k2 using assms(8) by simp
  moreover have "cell k2 (gl_block_map g) (country_key (ge_country e)) = Some [1]"
    unfolding k2 using assms(7) by simp
  ultimately show ?thesis using here later by simp
qed


lemma encode_two: "encode_country_code [a, b] = push_bit 8 (ucast (byte_of a)) OR ucast (byte_of b)"
  by (simp add: encode_country_code_def)

text \<open>The two letters of a code are found back in it.\<close>

lemma country_code_roundtrip:
  assumes "length cc = 2" "encode_country_code cc \<noteq> 0"
  shows "country_code_to_string (encode_country_code cc) = cc"
proof -
  from assms(1) obtain a b where cc: "cc = [a, b]" by (auto simp: numeral_2_eq_2 length_Suc_conv)
  let ?w = "push_bit 8 (ucast (byte_of a)) OR ucast (byte_of b) :: u16"
  have "(ucast (drop_bit 8 ?w) :: u8) = byte_of a"
    by (rule bit_word_eqI) (auto simp: bit_ucast_iff bit_drop_bit_eq bit_or_iff bit_push_bit_iff dest: bit_imp_le_length)
  moreover have "(ucast (?w AND 0xff) :: u8) = byte_of b"
  proof -
    have low: "?w AND 0xff = take_bit 8 ?w" by (simp add: take_bit_eq_mask mask_eq_exp_minus_1)
    show ?thesis
      unfolding low
      by (intro bit_word_eqI) (auto simp: bit_ucast_iff bit_or_iff bit_push_bit_iff bit_take_bit_iff)
  qed
  ultimately show ?thesis using assms(2) by (simp add: cc encode_two country_code_to_string_def)
qed

text \<open>
  A network written as an IPv4-mapped IPv6 one passes the check for IPv4, but its prefix length
  is that of the 128-bit mask: more than the 32 bits of the kernel's key.
\<close>

lemma leading_ones_full: "leading_ones (replicate n 0xff @ m) = 8 * n + leading_ones m"
  by (induction n) simp_all

lemma mapped_prefix:
  "prefix_len_from_mask (replicate 15 0xff @ [0]) = 120" "to4 (replicate 10 0 @ [0xff, 0xff, 1, 2, 3, 0]) \<noteq> None"
proof -
  show "prefix_len_from_mask (replicate 15 0xff @ [0]) = 120"
    unfolding prefix_len_from_mask_def leading_ones_full by (simp add: upt_rec)
  show "to4 (replicate 10 0 @ [0xff, 0xff, 1, 2, 3, 0]) \<noteq> None"
    by (simp add: to4_def)
qed

subsection \<open>A kernel to run it on\<close>

type_synonym toy_maps = "string \<Rightarrow> u8 list \<Rightarrow> u8 list option"

fun key_value :: "string list \<Rightarrow> string list \<times> string list" where
  "key_value ws = (takeWhile (\<lambda>w. w \<noteq> ''value'') ws, drop 1 (dropWhile (\<lambda>w. w \<noteq> ''value'') ws))"

fun toy_maps_tool :: "toy_maps bpftool" where
  "toy_maps_tool args k =
     (case args of
        m # opr # nm # name # ky # rest \<Rightarrow>
          (case key_value rest of (a, b) \<Rightarrow> ((True, []), k(name := (k name)(hex_tokens a \<mapsto> hex_tokens b))))
      | _ \<Rightarrow> ((True, []), k))"

lemma toy_maps_law: "map_law toy_maps_tool (\<lambda>k. k)"
proof -
  have ne: "hex_byte b \<noteq> ''value''" for b by (simp add: hex_byte_def)
  have "key_value (map hex_byte ks @ ''value'' # map hex_byte vs) = (map hex_byte ks, map hex_byte vs)" for ks vs
    using ne by (induction ks) simp_all
  then show ?thesis by (auto simp: map_law_def simp del: key_value.simps)
qed

lemma toy_maps_works: "fst (fst (toy_maps_tool args k))"
  by (cases "(args, k)" rule: toy_maps_tool.cases) (auto split: list.splits prod.splits)


declare toy_maps_tool.simps [simp del]

definition demo_file :: "nat \<Rightarrow> csv_read" where
  "demo_file n = (if n = 0 then Csv_record [''network'', ''country_iso_code'']
     else if n = 1 then Csv_record [''1.0.0.0/8'', ''cn''] else Csv_eof)"

definition demo_entry :: geoip_entry where
  "demo_entry = \<lparr>ge_net = \<lparr>net_ip = [1, 0, 0, 0], net_mask = [0xff, 0, 0, 0]\<rparr>, ge_country = ''CN''\<rparr>"

lemma demo_row: "geoip_row 0 1 [''1.0.0.0/8'', ''cn''] = Some demo_entry"
  by code_simp

lemma demo_columns:
  "column_of ''network'' [''network'', ''country_iso_code''] = Some 0"
  "column_of ''country_iso_code'' [''network'', ''country_iso_code''] = Some 1"
  by code_simp+

lemma demo_geo_parse: "parse_geoip_csv demo_file = Some (Inr [demo_entry])"
proof -
  have "csv_rows demo_file 2 = Some []" by (simp add: csv_rows.simps demo_file_def)
  then have "csv_rows demo_file 1 = Some [[''1.0.0.0/8'', ''cn'']]"
    by (subst csv_rows.simps) (simp add: demo_file_def numeral_2_eq_2)
  moreover have "demo_file 0 = Csv_record [''network'', ''country_iso_code'']" by (simp add: demo_file_def)
  ultimately show ?thesis
    by (simp add: parse_geoip_csv_def demo_columns List.map_filter_def demo_row del: One_nat_def)
qed

lemma demo_codes: "trim_space (go_upper '' cn'') = ''CN''" "trim_space (go_upper ''x'') = ''X''"
  by code_simp+

lemma demo_listed: "listed_codes ['' cn'', ''x''] = {''CN''}"
  by (auto simp: listed_codes_def demo_codes simp del: go_upper.simps)

lemma toy_block: "\<exists>k'. load_blocked_countries toy_maps_tool ['' cn'', ''x''] g k = (Inr (), g\<lparr>gl_countries := ['' cn'', ''x'']\<rparr>, k')"
proof -
  obtain r k1 where up: "update_country_blocklist toy_maps_tool (gl_block_map g) ''CN'' k = (r, k1)"
    by (cases "update_country_blocklist toy_maps_tool (gl_block_map g) ''CN'' k")
  have "r = Inr ()"
    by (rule working_tool [of toy_maps_tool]) (use toy_maps_works up in \<open>simp_all add: update_country_blocklist_def\<close>)
  with up show ?thesis by (simp add: load_blocked_countries_def demo_codes del: go_upper.simps)
qed

theorem blocklist_grows_exactly_witness:
  "\<exists>k' :: toy_maps. k' ''country_blocklist'' = (\<lambda>key. if key = country_key ''CN'' then Some [1] else None)"
proof -
  let ?g = "new_geoip_loader"
  obtain k' where "load_blocked_countries toy_maps_tool ['' cn'', ''x''] ?g (\<lambda>_. Map.empty) =
      (Inr (), ?g\<lparr>gl_countries := ['' cn'', ''x'']\<rparr>, k')" using toy_block by blast
  from conjunct1 [OF blocklist_grows_exactly [OF toy_maps_law this]]
  show ?thesis by (intro exI [of _ k']) (simp add: demo_listed new_geoip_loader_def)
qed

theorem listed_network_blocked_witness:
  "\<exists>(k2 :: toy_maps) v. k2 ''geoip_map'' (lpm_key demo_entry) = Some v \<and> k2 ''country_blocklist'' v = Some [1]"
proof -
  let ?g = "new_geoip_loader"
  let ?g1 = "?g\<lparr>gl_csv := ''f'', gl_refreshed := 5\<rparr>"
  let ?k1 = "load_entries toy_maps_tool (gl_geo_map ?g) [demo_entry] (\<lambda>_. Map.empty)"
  have load: "load_from_csv toy_maps_tool ''f'' (Some demo_file) 5 ?g (\<lambda>_. Map.empty) = Some (Inr (), ?g1, ?k1)"
    by (simp add: load_from_csv_def demo_geo_parse)
  obtain k2 where block: "load_blocked_countries toy_maps_tool ['' cn'', ''x''] ?g1 ?k1 =
      (Inr (), ?g1\<lparr>gl_countries := ['' cn'', ''x'']\<rparr>, k2)" using toy_block by blast
  have parsed: "parse_geoip_csv demo_file = Some (Inr ([] @ demo_entry # []))" by (simp add: demo_geo_parse)
  have "ge_country demo_entry \<in> listed_codes ['' cn'', ''x'']" by (simp add: demo_listed demo_entry_def)
  moreover have "gl_geo_map ?g \<noteq> gl_block_map ?g" by (simp add: new_geoip_loader_def)
  ultimately have "\<exists>v. k2 (gl_geo_map ?g) (lpm_key demo_entry) = Some v \<and> k2 (gl_block_map ?g) v = Some [1]"
    by (intro listed_network_blocked [OF toy_maps_law _ load parsed _ block]) (simp_all add: toy_maps_works)
  then show ?thesis by (intro exI [of _ k2]) (simp add: new_geoip_loader_def)
qed

end
