(* ===== verification/XdpStart.thy ===== *)
theory XdpStart
  imports Botnet GeoIp ClientConfig
begin

text \<open>
  The start of the kernel filter's user space, \<^verbatim>\<open>cmd/kiro-client/main.go\<close>: the settings read from
  the environment and the components made in order. The callback of the plan runs it once. Its
  background loops (the daily refresh, the botnet controller, the key rotation) are the operations
  of their components; here is what happens before the function returns. The CSV file is an
  argument, None for a file that does not open.
\<close>

subsection \<open>Settings\<close>

text \<open>\<^verbatim>\<open>strconv.ParseUint(v, 10, bits)\<close>: digits, and a value of so many bits.\<close>

definition parse_uint :: "nat \<Rightarrow> string \<Rightarrow> int option" where
  "parse_uint bits v = (case parse_digits v of None \<Rightarrow> None | Some n \<Rightarrow> if n < 2 ^ bits then Some n else None)"

definition env_uint64 :: "environ \<Rightarrow> string \<Rightarrow> u64 \<Rightarrow> u64" where
  "env_uint64 env key fallback =
     (let v = trim_space (env key)
      in if v = [] then fallback
         else case parse_uint 64 v of None \<Rightarrow> fallback | Some n \<Rightarrow> word_of_int n)"

definition env_uint32 :: "environ \<Rightarrow> string \<Rightarrow> u32 \<Rightarrow> u32" where
  "env_uint32 env key fallback =
     (let v = trim_space (env key)
      in if v = [] then fallback
         else case parse_uint 32 v of None \<Rightarrow> fallback | Some n \<Rightarrow> word_of_int n)"

definition env_uint8_bool :: "environ \<Rightarrow> string \<Rightarrow> u8 \<Rightarrow> u8" where
  "env_uint8_bool env key fallback =
     (let v = trim_space (go_lower (env key))
      in if v = [] then fallback
         else if v \<in> {''1'', ''true'', ''yes''} then 1
         else if v \<in> {''0'', ''false'', ''no''} then 0
         else fallback)"

definition build_xdp_config :: "environ \<Rightarrow> xdp_config" where
  "build_xdp_config env =
     \<lparr>xc_window = env_uint64 env ''KIRO_XDP_WINDOW_NS'' 1000000000,
      xc_per_ip = env_uint32 env ''KIRO_XDP_PER_IP_PPS'' 3000,
      xc_syn = env_uint32 env ''KIRO_XDP_SYN_PER_IP_PER_SECOND'' 200,
      xc_udp = env_uint32 env ''KIRO_XDP_UDP_PER_IP_PER_SECOND'' 500,
      xc_icmp = env_uint32 env ''KIRO_XDP_ICMP_PER_IP_PER_SECOND'' 30,
      xc_drop_private = env_uint8_bool env ''KIRO_XDP_DROP_PRIVATE_SOURCE_IP'' 1,
      xc_drop_malformed = env_uint8_bool env ''KIRO_XDP_DROP_MALFORMED'' 1,
      xc_rate_limit = env_uint8_bool env ''KIRO_XDP_RATE_LIMIT_ENABLED'' 1,
      xc_drop_fragments = env_uint8_bool env ''KIRO_XDP_DROP_FRAGMENTS'' 1,
      xc_subnet24 = env_uint32 env ''KIRO_XDP_PER_SUBNET24_PPS'' 30000,
      xc_cookie_threshold = env_uint32 env ''KIRO_XDP_SYN_COOKIE_THRESHOLD'' 10000,
      xc_cookie_active = env_uint8_bool env ''KIRO_XDP_SYN_COOKIE_ACTIVE'' 0,
      xc_conn_tracker = env_uint8_bool env ''KIRO_XDP_CONN_TRACKER_ENABLED'' 1,
      xc_geoip = env_uint8_bool env ''KIRO_XDP_GEOIP_ENABLED'' 1,
      xc_pad = 0,
      xc_botnet_threshold = env_uint32 env ''KIRO_XDP_BOTNET_NEW_IP_THRESHOLD'' 5000,
      xc_botnet_cooldown = env_uint32 env ''KIRO_XDP_BOTNET_COOLDOWN_SECONDS'' 30,
      xc_botnet_active = env_uint8_bool env ''KIRO_XDP_BOTNET_MODE_ACTIVE'' 0,
      xc_pad_bn = (0, 0, 0)\<rparr>"

subsection \<open>The start\<close>

record xdp_parts =
  xp_geoip :: geoip_loader
  xp_botnet :: botnet_controller
  xp_sync :: config_sync

text \<open>None: the loop over the rows of the file does not end. Every error is logged and the start goes on.\<close>

definition start_xdp :: "'k bpftool \<Rightarrow> environ \<Rightarrow> string \<Rightarrow> (nat \<Rightarrow> csv_read) option \<Rightarrow> gotime \<Rightarrow> 'k \<Rightarrow> (xdp_parts \<times> 'k) option" where
  "start_xdp run env path file now k =
     (case (if path \<noteq> [] then load_from_csv run path file now new_geoip_loader k else Some (Inr (), new_geoip_loader, k)) of
        None \<Rightarrow> None
      | Some (_, g1, k1) \<Rightarrow>
          (case load_blocked_countries_from_env run (env ''KIRO_XDP_BLOCKED_COUNTRIES'') g1 k1 of
             (_, g2, k2) \<Rightarrow>
               let bc = new_botnet_controller \<lparr>bo_threshold = 5000, bo_cooldown = 30, bo_poll = nanos\<rparr>
               in (case sync_config run (build_xdp_config env) now (new_config_sync 0) k2 of
                     (_, cs, k3) \<Rightarrow> Some (\<lparr>xp_geoip = g2, xp_botnet = bc, xp_sync = cs\<rparr>, k3))))"

subsection \<open>What reaches the kernel\<close>

text \<open>The number an operator writes is the one that is used, or the default is.\<close>

lemma fmt_int_number: "0 \<le> n \<Longrightarrow> trim_space (fmt_int n) = fmt_int n \<and> fmt_int n \<noteq> [] \<and> parse_digits (fmt_int n) = Some n"
  using fmt_nat_chars [of n] trim_visible [of "fmt_nat n"] by (simp add: fmt_int_def)

lemma env_uint32_number:
  assumes "env key = fmt_int n" "0 \<le> n"
  shows "env_uint32 env key fallback = (if n < 2 ^ 32 then word_of_int n else fallback)"
  using fmt_int_number [OF assms(2)] by (simp add: env_uint32_def assms(1) parse_uint_def)

lemma env_uint64_number:
  assumes "env key = fmt_int n" "0 \<le> n"
  shows "env_uint64 env key fallback = (if n < 2 ^ 64 then word_of_int n else fallback)"
  using fmt_int_number [OF assms(2)] by (simp add: env_uint64_def assms(1) parse_uint_def)

text \<open>
  The settings of the environment are the filter's settings. After a start whose write to the
  kernel was reported, over a tool that obeys the law of maps, the configuration read back from the
  kernel is the one built from the environment, whatever became of the country data. A packet limit
  written as a number is that number, or the default when it does not fit 32 bits; one that is not
  set is the default.
\<close>

theorem xdp_start_configures:
  assumes "bpf_law run cell" "start_xdp run env path file now k = Some (parts, k')"
    and "cy_last_sync (xp_sync parts) = now" "now \<noteq> zero_time"
  shows "fst (read_config run (xp_sync parts) k') = Inr (build_xdp_config env)"
proof -
  obtain k2 r where sync: "sync_config run (build_xdp_config env) now (new_config_sync 0) k2 = (r, xp_sync parts, k')"
    using assms(2) by (auto simp: start_xdp_def Let_def split: option.split_asm prod.split_asm if_split_asm)
  obtain w k3 where w: "write_config_to_map run (new_config_sync 0) (serialize_xdp_config (build_xdp_config env)) k2 = (w, k3)"
    by fastforce
  have "\<not> isl w"
  proof
    assume "isl w"
    then have "xp_sync parts = new_config_sync 0" using sync w by (cases w) (simp_all add: sync_config_def)
    then show False using assms(3,4) by (simp add: new_config_sync_def)
  qed
  then obtain u where u: "w = Inr u" by (cases w) auto
  then have k3: "k3 = k'" and parts: "xp_sync parts = (new_config_sync 0)\<lparr>cy_last_sync := now\<rparr>"
    using sync w by (simp_all add: sync_config_def)
  have up: "bpftool_map_update run (cy_config_map (new_config_sync 0)) index_zero
        (bytes_to_hex (serialize_xdp_config (build_xdp_config env))) k2 = (Inr u, k')"
    using w by (simp add: write_config_to_map_def u k3)
  have cs: "cy_config_map (xp_sync parts) = cy_config_map (new_config_sync 0)" by (simp add: parts)
  have "serialize_xdp_config (build_xdp_config env) \<noteq> []" using length_serialize [of "build_xdp_config env"] by force
  then have "read_config_map run (cy_config_map (xp_sync parts)) k' = (Inr (serialize_xdp_config (build_xdp_config env)), k')"
    using read_config_map_law [OF assms(1)] update_law [OF assms(1) up] by (simp add: cs)
  then show ?thesis
    using deserialize_serialize [of "build_xdp_config env" "[]"] by (simp add: read_config_def)
qed

lemma xdp_packet_limit:
  "env ''KIRO_XDP_PER_IP_PPS'' = fmt_int n \<Longrightarrow> 0 \<le> n \<Longrightarrow>
     xc_per_ip (build_xdp_config env) = (if n < 2 ^ 32 then word_of_int n else 3000)"
  "trim_space (env ''KIRO_XDP_PER_IP_PPS'') = [] \<Longrightarrow> xc_per_ip (build_xdp_config env) = 3000"
  using env_uint32_number [where env = env and key = "''KIRO_XDP_PER_IP_PPS''" and n = n and fallback = 3000]
  by (simp_all add: build_xdp_config_def, simp add: env_uint32_def)

definition pps_env :: environ where
  "pps_env k = (if k = ''KIRO_XDP_PER_IP_PPS'' then fmt_int 4294967296 else [])"

theorem xdp_start_configures_witness:
  "\<exists>parts k'. start_xdp toy_bpftool pps_env [] None 7 Map.empty = Some (parts, k') \<and>
     fst (read_config toy_bpftool (xp_sync parts) k') = Inr (build_xdp_config pps_env) \<and>
     xc_per_ip (build_xdp_config pps_env) = 3000"
proof -
  obtain parts k' where start: "start_xdp toy_bpftool pps_env [] None 7 Map.empty = Some (parts, k')"
      "cy_last_sync (xp_sync parts) = 7"
    by (simp add: start_xdp_def pps_env_def load_blocked_countries_from_env_def sync_config_def write_config_to_map_def
        toy_update Let_def)
  show ?thesis
    using xdp_start_configures [OF toy_law start(1)] xdp_packet_limit(1) [of pps_env 4294967296] start
    by (simp add: pps_env_def zero_time_def nanos_def)
qed

text \<open>
  The threshold of the botnet controller and its cooldown are fixed: the two variables change the
  configuration in the kernel, not the controller that decides. And the countries are read from the
  environment: the entry of the configuration file is not an argument of the start.
\<close>

lemma controller_ignores_settings:
  "start_xdp run env path file now k = Some (parts, k') \<Longrightarrow>
     xp_botnet parts = new_botnet_controller \<lparr>bo_threshold = 5000, bo_cooldown = 30, bo_poll = nanos\<rparr>"
  by (auto simp: start_xdp_def Let_def split: option.split_asm prod.split_asm if_split_asm)

lemma no_countries_without_variable:
  assumes "start_xdp run env path file now k = Some (parts, k')" "env ''KIRO_XDP_BLOCKED_COUNTRIES'' = []"
  shows "gl_countries (xp_geoip parts) = []"
proof -
  have "gl_countries g = []" if "load_from_csv run path file now new_geoip_loader k = Some (r, g, k1)" for r g k1
    using that by (auto simp: load_from_csv_def new_geoip_loader_def split: option.split_asm sum.split_asm)
  then show ?thesis
    using assms
    by (auto simp: start_xdp_def load_blocked_countries_from_env_def new_geoip_loader_def Let_def
        split: option.split_asm prod.split_asm if_split_asm)
qed

end
