(* ===== verification/Docs.thy ===== *)
theory Docs
  imports Http
begin

text \<open>
  The documentation site, \<^verbatim>\<open>internal/master/handlers/docs.go\<close> and the tables of pages of
  \<^verbatim>\<open>docs_content*.go\<close>: the language and the page a path asks for, the sidebar, and the data a page is
  rendered from. A text outside ASCII is its bytes. The HTML of a page is the name of the constant
  that holds it. The template is an argument: how many bytes it had written when it failed, if it
  did; the date and the version are arguments too.
\<close>

subsection \<open>Data\<close>

record docs_page =
  dp_title :: string
  dp_content :: string

record lang_option =
  lg_code :: string
  lg_label :: string
  lg_active :: bool

record docs_item =
  di_id :: string
  di_title :: string
  di_path :: string
  di_active :: bool

record docs_section =
  ds_id :: string
  ds_title :: string
  ds_items :: "docs_item list"

record docs_page_data =
  dd_lang :: string
  dd_languages :: "lang_option list"
  dd_sections :: "docs_section list"
  dd_title :: string
  dd_content :: string
  dd_updated :: string
  dd_version :: string
  dd_path :: string
  dd_is_error :: bool
  dd_error :: string
  dd_page :: string

subsection \<open>The pages\<close>

definition build_english_pages :: "(string \<times> docs_page) list" where
  "build_english_pages =
     [(''quick-start'', \<lparr>dp_title = ''Quick Start'', dp_content = ''enQuickStart''\<rparr>),
      (''installation'', \<lparr>dp_title = ''Installation Guide'', dp_content = ''enInstallation''\<rparr>),
      (''cli-commands'', \<lparr>dp_title = ''CLI Commands'', dp_content = ''enCLICommands''\<rparr>),
      (''config-reference'', \<lparr>dp_title = ''Configuration Reference'', dp_content = ''enConfigReference''\<rparr>),
      (''common-issues'', \<lparr>dp_title = ''Common Issues'', dp_content = ''enTroubleshooting''\<rparr>),
      (''faq'', \<lparr>dp_title = ''FAQ'', dp_content = ''enFAQ''\<rparr>),
      (''cli'', \<lparr>dp_title = ''CLI Overview'', dp_content = ''enCLIOverview''\<rparr>),
      (''cli/version'', \<lparr>dp_title = ''version Command'', dp_content = ''enCLIVersion''\<rparr>),
      (''cli/license'', \<lparr>dp_title = ''license Command'', dp_content = ''enCLILicense''\<rparr>),
      (''cli/status'', \<lparr>dp_title = ''status Command'', dp_content = ''enCLIStatus''\<rparr>),
      (''cli/health'', \<lparr>dp_title = ''health Command'', dp_content = ''enCLIHealth''\<rparr>),
      (''cli/preflight'', \<lparr>dp_title = ''preflight Command'', dp_content = ''enCLIPreflight''\<rparr>),
      (''cli/mode'', \<lparr>dp_title = ''mode Command'', dp_content = ''enCLIMode''\<rparr>),
      (''cli/install'', \<lparr>dp_title = ''install Command'', dp_content = ''enCLIInstall''\<rparr>),
      (''cli/update'', \<lparr>dp_title = ''update Command'', dp_content = ''enCLIUpdate''\<rparr>),
      (''cli/incident'', \<lparr>dp_title = ''incident Command'', dp_content = ''enCLIIncident''\<rparr>),
      (''cli/pilot'', \<lparr>dp_title = ''pilot Command'', dp_content = ''enCLIPilot''\<rparr>),
      (''cli/report'', \<lparr>dp_title = ''report Command'', dp_content = ''enCLIReport''\<rparr>)]"

definition build_vietnamese_pages :: "(string \<times> docs_page) list" where
  "build_vietnamese_pages =
     [(''quick-start'', \<lparr>dp_title = ''B'' @ [CHR 0xE1, CHR 0xBA, CHR 0xAF] @ ''t '' @ [CHR 0xC4, CHR 0x90, CHR 0xE1, CHR 0xBA, CHR 0xA7] @ ''u Nhanh'', dp_content = ''viQuickStart''\<rparr>),
      (''installation'', \<lparr>dp_title = ''H'' @ [CHR 0xC6, CHR 0xB0, CHR 0xE1, CHR 0xBB, CHR 0x9B] @ ''ng D'' @ [CHR 0xE1, CHR 0xBA, CHR 0xAB] @ ''n C'' @ [CHR 0xC3, CHR 0xA0] @ ''i '' @ [CHR 0xC4, CHR 0x90, CHR 0xE1, CHR 0xBA, CHR 0xB7] @ ''t'', dp_content = ''viInstallation''\<rparr>),
      (''cli-commands'', \<lparr>dp_title = ''L'' @ [CHR 0xE1, CHR 0xBB, CHR 0x87] @ ''nh CLI'', dp_content = ''viCLICommands''\<rparr>),
      (''config-reference'', \<lparr>dp_title = ''Tham Chi'' @ [CHR 0xE1, CHR 0xBA, CHR 0xBF] @ ''u C'' @ [CHR 0xE1, CHR 0xBA, CHR 0xA5] @ ''u H'' @ [CHR 0xC3, CHR 0xAC] @ ''nh'', dp_content = ''viConfigReference''\<rparr>),
      (''common-issues'', \<lparr>dp_title = ''L'' @ [CHR 0xE1, CHR 0xBB, CHR 0x97] @ ''i Th'' @ [CHR 0xC6, CHR 0xB0, CHR 0xE1, CHR 0xBB, CHR 0x9D] @ ''ng G'' @ [CHR 0xE1, CHR 0xBA, CHR 0xB7] @ ''p'', dp_content = ''viTroubleshooting''\<rparr>),
      (''faq'', \<lparr>dp_title = ''C'' @ [CHR 0xC3, CHR 0xA2] @ ''u H'' @ [CHR 0xE1, CHR 0xBB, CHR 0x8F] @ ''i Th'' @ [CHR 0xC6, CHR 0xB0, CHR 0xE1, CHR 0xBB, CHR 0x9D] @ ''ng G'' @ [CHR 0xE1, CHR 0xBA, CHR 0xB7] @ ''p'', dp_content = ''viFAQ''\<rparr>),
      (''cli'', \<lparr>dp_title = ''T'' @ [CHR 0xE1, CHR 0xBB, CHR 0x95] @ ''ng Quan CLI'', dp_content = ''viCLIOverview''\<rparr>),
      (''cli/version'', \<lparr>dp_title = ''L'' @ [CHR 0xE1, CHR 0xBB, CHR 0x87] @ ''nh version'', dp_content = ''viCLIVersion''\<rparr>),
      (''cli/license'', \<lparr>dp_title = ''L'' @ [CHR 0xE1, CHR 0xBB, CHR 0x87] @ ''nh license'', dp_content = ''viCLILicense''\<rparr>),
      (''cli/status'', \<lparr>dp_title = ''L'' @ [CHR 0xE1, CHR 0xBB, CHR 0x87] @ ''nh status'', dp_content = ''viCLIStatus''\<rparr>),
      (''cli/health'', \<lparr>dp_title = ''L'' @ [CHR 0xE1, CHR 0xBB, CHR 0x87] @ ''nh health'', dp_content = ''viCLIHealth''\<rparr>),
      (''cli/preflight'', \<lparr>dp_title = ''L'' @ [CHR 0xE1, CHR 0xBB, CHR 0x87] @ ''nh preflight'', dp_content = ''viCLIPreflight''\<rparr>),
      (''cli/mode'', \<lparr>dp_title = ''L'' @ [CHR 0xE1, CHR 0xBB, CHR 0x87] @ ''nh mode'', dp_content = ''viCLIMode''\<rparr>),
      (''cli/install'', \<lparr>dp_title = ''L'' @ [CHR 0xE1, CHR 0xBB, CHR 0x87] @ ''nh install'', dp_content = ''viCLIInstall''\<rparr>),
      (''cli/update'', \<lparr>dp_title = ''L'' @ [CHR 0xE1, CHR 0xBB, CHR 0x87] @ ''nh update'', dp_content = ''viCLIUpdate''\<rparr>),
      (''cli/incident'', \<lparr>dp_title = ''L'' @ [CHR 0xE1, CHR 0xBB, CHR 0x87] @ ''nh incident'', dp_content = ''viCLIIncident''\<rparr>),
      (''cli/pilot'', \<lparr>dp_title = ''L'' @ [CHR 0xE1, CHR 0xBB, CHR 0x87] @ ''nh pilot'', dp_content = ''viCLIPilot''\<rparr>),
      (''cli/report'', \<lparr>dp_title = ''L'' @ [CHR 0xE1, CHR 0xBB, CHR 0x87] @ ''nh report'', dp_content = ''viCLIReport''\<rparr>)]"


definition build_content_pages :: "string \<Rightarrow> (string \<times> docs_page) list option" where
  "build_content_pages lang =
     (if lang = ''en'' then Some build_english_pages
      else if lang = ''vi'' then Some build_vietnamese_pages
      else None)"

subsection \<open>The sidebar\<close>

definition section_item :: "string \<Rightarrow> string \<Rightarrow> string \<Rightarrow> docs_item" where
  "section_item ident title path = \<lparr>di_id = ident, di_title = title, di_path = path, di_active = False\<rparr>"

definition english_sections :: "docs_section list" where
  "english_sections =
     [\<lparr>ds_id = ''getting-started'', ds_title = ''Getting Started'',
        ds_items = [section_item (''quick-start'') (''Quick Start'') (''/docs/en/quick-start''),
          section_item (''installation'') (''Installation'') (''/docs/en/installation'')]\<rparr>,
      \<lparr>ds_id = ''configuration'', ds_title = ''Configuration'',
        ds_items = [section_item (''config-reference'') (''Configuration Reference'') (''/docs/en/config-reference'')]\<rparr>,
      \<lparr>ds_id = ''cli'', ds_title = ''CLI Reference'',
        ds_items = [section_item (''cli'') (''CLI Overview'') (''/docs/en/cli''),
          section_item (''cli/version'') (''version'') (''/docs/en/cli/version''),
          section_item (''cli/license'') (''license'') (''/docs/en/cli/license''),
          section_item (''cli/status'') (''status'') (''/docs/en/cli/status''),
          section_item (''cli/health'') (''health'') (''/docs/en/cli/health''),
          section_item (''cli/preflight'') (''preflight'') (''/docs/en/cli/preflight''),
          section_item (''cli/mode'') (''mode'') (''/docs/en/cli/mode''),
          section_item (''cli/install'') (''install'') (''/docs/en/cli/install''),
          section_item (''cli/update'') (''update'') (''/docs/en/cli/update''),
          section_item (''cli/incident'') (''incident'') (''/docs/en/cli/incident''),
          section_item (''cli/pilot'') (''pilot'') (''/docs/en/cli/pilot''),
          section_item (''cli/report'') (''report'') (''/docs/en/cli/report'')]\<rparr>,
      \<lparr>ds_id = ''operation'', ds_title = ''Operation'',
        ds_items = [section_item (''cli-commands'') (''CLI Commands'') (''/docs/en/cli-commands'')]\<rparr>,
      \<lparr>ds_id = ''troubleshooting'', ds_title = ''Troubleshooting'',
        ds_items = [section_item (''common-issues'') (''Common Issues'') (''/docs/en/common-issues''),
          section_item (''faq'') (''FAQ'') (''/docs/en/faq'')]\<rparr>]"

definition vietnamese_sections :: "docs_section list" where
  "vietnamese_sections =
     [\<lparr>ds_id = ''getting-started'', ds_title = ''B'' @ [CHR 0xE1, CHR 0xBA, CHR 0xAF] @ ''t '' @ [CHR 0xC4, CHR 0x90, CHR 0xE1, CHR 0xBA, CHR 0xA7] @ ''u'',
        ds_items = [section_item (''quick-start'') (''B'' @ [CHR 0xE1, CHR 0xBA, CHR 0xAF] @ ''t '' @ [CHR 0xC4, CHR 0x90, CHR 0xE1, CHR 0xBA, CHR 0xA7] @ ''u Nhanh'') (''/docs/vi/quick-start''),
          section_item (''installation'') (''C'' @ [CHR 0xC3, CHR 0xA0] @ ''i '' @ [CHR 0xC4, CHR 0x90, CHR 0xE1, CHR 0xBA, CHR 0xB7] @ ''t'') (''/docs/vi/installation'')]\<rparr>,
      \<lparr>ds_id = ''configuration'', ds_title = ''C'' @ [CHR 0xE1, CHR 0xBA, CHR 0xA5] @ ''u H'' @ [CHR 0xC3, CHR 0xAC] @ ''nh'',
        ds_items = [section_item (''config-reference'') (''Tham Chi'' @ [CHR 0xE1, CHR 0xBA, CHR 0xBF] @ ''u C'' @ [CHR 0xE1, CHR 0xBA, CHR 0xA5] @ ''u H'' @ [CHR 0xC3, CHR 0xAC] @ ''nh'') (''/docs/vi/config-reference'')]\<rparr>,
      \<lparr>ds_id = ''cli'', ds_title = ''CLI Reference'',
        ds_items = [section_item (''cli'') (''T'' @ [CHR 0xE1, CHR 0xBB, CHR 0x95] @ ''ng Quan CLI'') (''/docs/vi/cli''),
          section_item (''cli/version'') (''version'') (''/docs/vi/cli/version''),
          section_item (''cli/license'') (''license'') (''/docs/vi/cli/license''),
          section_item (''cli/status'') (''status'') (''/docs/vi/cli/status''),
          section_item (''cli/health'') (''health'') (''/docs/vi/cli/health''),
          section_item (''cli/preflight'') (''preflight'') (''/docs/vi/cli/preflight''),
          section_item (''cli/mode'') (''mode'') (''/docs/vi/cli/mode''),
          section_item (''cli/install'') (''install'') (''/docs/vi/cli/install''),
          section_item (''cli/update'') (''update'') (''/docs/vi/cli/update''),
          section_item (''cli/incident'') (''incident'') (''/docs/vi/cli/incident''),
          section_item (''cli/pilot'') (''pilot'') (''/docs/vi/cli/pilot''),
          section_item (''cli/report'') (''report'') (''/docs/vi/cli/report'')]\<rparr>,
      \<lparr>ds_id = ''operation'', ds_title = ''V'' @ [CHR 0xE1, CHR 0xBA, CHR 0xAD] @ ''n H'' @ [CHR 0xC3, CHR 0xA0] @ ''nh'',
        ds_items = [section_item (''cli-commands'') (''L'' @ [CHR 0xE1, CHR 0xBB, CHR 0x87] @ ''nh CLI'') (''/docs/vi/cli-commands'')]\<rparr>,
      \<lparr>ds_id = ''troubleshooting'', ds_title = ''X'' @ [CHR 0xE1, CHR 0xBB, CHR 0xAD] @ '' L'' @ [CHR 0xC3, CHR 0xBD] @ '' S'' @ [CHR 0xE1, CHR 0xBB, CHR 0xB1] @ '' C'' @ [CHR 0xE1, CHR 0xBB, CHR 0x91],
        ds_items = [section_item (''common-issues'') (''L'' @ [CHR 0xE1, CHR 0xBB, CHR 0x97] @ ''i Th'' @ [CHR 0xC6, CHR 0xB0, CHR 0xE1, CHR 0xBB, CHR 0x9D] @ ''ng G'' @ [CHR 0xE1, CHR 0xBA, CHR 0xB7] @ ''p'') (''/docs/vi/common-issues''),
          section_item (''faq'') (''C'' @ [CHR 0xC3, CHR 0xA2] @ ''u H'' @ [CHR 0xE1, CHR 0xBB, CHR 0x8F] @ ''i Th'' @ [CHR 0xC6, CHR 0xB0, CHR 0xE1, CHR 0xBB, CHR 0x9D] @ ''ng G'' @ [CHR 0xE1, CHR 0xBA, CHR 0xB7] @ ''p'') (''/docs/vi/faq'')]\<rparr>]"

definition get_sections :: "string \<Rightarrow> docs_section list" where
  "get_sections lang = (if lang = ''en'' then english_sections else vietnamese_sections)"

definition docs_languages :: "string list" where
  "docs_languages = [''vi'', ''en'']"

subsection \<open>The path\<close>

text \<open>The path after \<^verbatim>\<open>/docs\<close> and one slash; \<^verbatim>\<open>strings.SplitN(path, "/", 2)\<close>.\<close>

definition docs_rest :: "string \<Rightarrow> string" where
  "docs_rest path = trim_prefix ''/'' (trim_prefix ''/docs'' path)"

definition split_two :: "string \<Rightarrow> string list" where
  "split_two s =
     (let a = takeWhile (\<lambda>c. c \<noteq> CHR ''/'') s
      in if a = s then [s] else [a, drop (Suc (length a)) s])"

definition parse_lang :: "string \<Rightarrow> string" where
  "parse_lang path =
     (let s = docs_rest path
      in if s = [] then ''vi''
         else if hd (split_two s) \<in> set docs_languages then hd (split_two s)
         else ''vi'')"

definition parse_page_id :: "string \<Rightarrow> string" where
  "parse_page_id path =
     (let s = docs_rest path; parts = split_two s
      in if s = [] then []
         else if hd parts \<in> set docs_languages
         then (if 1 < length parts \<and> parts ! 1 \<noteq> [] then parts ! 1 else [])
         else [])"

definition lang_label :: "string \<Rightarrow> string" where
  "lang_label lang =
     (if lang = ''vi'' then ''Ti'' @ [CHR 0xE1, CHR 0xBA, CHR 0xBF] @ ''ng Vi'' @ [CHR 0xE1, CHR 0xBB, CHR 0x87] @ ''t''
      else if lang = ''en'' then ''English''
      else [])"

definition build_lang_options :: "string \<Rightarrow> lang_option list" where
  "build_lang_options active = map (\<lambda>l. \<lparr>lg_code = l, lg_label = lang_label l, lg_active = (l = active)\<rparr>) docs_languages"

subsection \<open>A page\<close>

definition mark_active :: "string \<Rightarrow> docs_section list \<Rightarrow> docs_section list" where
  "mark_active page ss =
     map (\<lambda>s. s\<lparr>ds_items := map (\<lambda>i. if di_id i = page then i\<lparr>di_active := True\<rparr> else i) (ds_items s)\<rparr>) ss"

text \<open>The title and content a page that does not exist is shown with; the content by the title it has in it.\<close>

definition missing_title :: "string \<Rightarrow> string" where
  "missing_title lang =
     (if lang = ''en'' then ''Page Not Found''
      else ''Trang Kh'' @ [CHR 0xC3, CHR 0xB4] @ ''ng T'' @ [CHR 0xE1, CHR 0xBB, CHR 0x93] @ ''n T'' @ [CHR 0xE1, CHR 0xBA, CHR 0xA1] @ ''i'')"

definition default_title :: "string \<Rightarrow> string" where
  "default_title lang =
     (if lang = ''en'' then ''Kiro WAF Documentation''
      else ''T'' @ [CHR 0xC3, CHR 0xA0] @ ''i Li'' @ [CHR 0xE1, CHR 0xBB, CHR 0x87] @ ''u Kiro WAF'')"

definition build_page_data :: "string \<Rightarrow> string \<Rightarrow> string \<Rightarrow> string \<Rightarrow> docs_page_data" where
  "build_page_data today version lang path =
     (let page = parse_page_id path;
          (title, content) =
            (if page \<noteq> []
             then (case build_content_pages lang of
                     None \<Rightarrow> ([], [])
                   | Some pages \<Rightarrow>
                       (case map_of pages page of
                          Some p \<Rightarrow> (dp_title p, dp_content p)
                        | None \<Rightarrow> (missing_title lang, missing_title lang)))
             else ([], []))
      in \<lparr>dd_lang = lang, dd_languages = build_lang_options lang, dd_sections = mark_active page (get_sections lang),
          dd_title = (if title = [] then default_title lang else title), dd_content = content, dd_updated = today,
          dd_version = version, dd_path = path, dd_is_error = False, dd_error = [], dd_page = page\<rparr>)"

text \<open>The page shown when the documents are unavailable.\<close>

definition error_page :: "string \<Rightarrow> docs_page_data" where
  "error_page lang =
     \<lparr>dd_lang = lang, dd_languages = build_lang_options lang, dd_sections = [],
      dd_title =
        (if lang = ''en'' then ''Documentation Unavailable''
         else ''T'' @ [CHR 0xC3, CHR 0xA0] @ ''i Li'' @ [CHR 0xE1, CHR 0xBB, CHR 0x87] @ ''u Kh'' @ [CHR 0xC3, CHR 0xB4] @
           ''ng Kh'' @ [CHR 0xE1, CHR 0xBA, CHR 0xA3] @ '' D'' @ [CHR 0xE1, CHR 0xBB, CHR 0xA5] @ ''ng''),
      dd_content = [], dd_updated = [], dd_version = [], dd_path = [], dd_is_error = True,
      dd_error =
        (if lang = ''en'' then ''Documentation is temporarily unavailable. Please try again later.''
         else ''T'' @ [CHR 0xC3, CHR 0xA0] @ ''i li'' @ [CHR 0xE1, CHR 0xBB, CHR 0x87] @ ''u t'' @ [CHR 0xE1, CHR 0xBA, CHR 0xA1] @
           ''m th'' @ [CHR 0xE1, CHR 0xBB, CHR 0x9D] @ ''i kh'' @ [CHR 0xC3, CHR 0xB4] @ ''ng kh'' @ [CHR 0xE1, CHR 0xBA, CHR 0xA3] @
           '' d'' @ [CHR 0xE1, CHR 0xBB, CHR 0xA5] @ ''ng. Vui l'' @ [CHR 0xC3, CHR 0xB2] @ ''ng th'' @
           [CHR 0xE1, CHR 0xBB, CHR 0xAD] @ '' l'' @ [CHR 0xE1, CHR 0xBA, CHR 0xA1] @ ''i sau.''),
      dd_page = []\<rparr>"

text \<open>
  The pages a response consists of: one, or the beginning of one and the error page after it. The
  status of an error page is 503 only when nothing was written before it.
\<close>

datatype docs_response = Docs_refused | Docs_pages int "docs_page_data list"

definition serve_error_page :: "nat \<Rightarrow> string \<Rightarrow> int \<times> docs_page_data" where
  "serve_error_page written lang = (if written = 0 then 503 else 200, error_page lang)"

definition handle_docs :: "nat option \<Rightarrow> string \<Rightarrow> string \<Rightarrow> http_request \<Rightarrow> docs_response" where
  "handle_docs failed today version r =
     (if rq_method r \<noteq> ''GET'' then Docs_refused
      else
        let lang = parse_lang (rq_path r); page = build_page_data today version lang (rq_path r)
        in (case failed of
              None \<Rightarrow> Docs_pages 200 [page]
            | Some n \<Rightarrow> (case serve_error_page n lang of (code, e) \<Rightarrow> Docs_pages code (if n = 0 then [e] else [page, e]))))"

definition handle_docs_unavailable :: "http_request \<Rightarrow> int \<times> docs_page_data" where
  "handle_docs_unavailable r = serve_error_page 0 (parse_lang (rq_path r))"

subsection \<open>Paths and pages\<close>

lemma docs_rest_path: "docs_rest (''/docs/'' @ s) = s"
  by (simp add: docs_rest_def trim_prefix_def)

lemma split_two_slash: "CHR ''/'' \<notin> set a \<Longrightarrow> split_two (a @ CHR ''/'' # s) = [a, s]"
proof -
  assume "CHR ''/'' \<notin> set a"
  then have "takeWhile (\<lambda>c. c \<noteq> CHR ''/'') (a @ CHR ''/'' # s) = a" by (subst takeWhile_append2) auto
  then show ?thesis by (simp add: split_two_def)
qed

lemma split_two_one: "CHR ''/'' \<notin> set a \<Longrightarrow> split_two a = [a]"
proof -
  assume "CHR ''/'' \<notin> set a"
  then have "takeWhile (\<lambda>c. c \<noteq> CHR ''/'') a = a" by (subst takeWhile_eq_all_conv) auto
  then show ?thesis by (simp add: split_two_def)
qed

lemma docs_path:
  assumes "lang \<in> set docs_languages"
  shows "parse_lang (''/docs/'' @ lang @ CHR ''/'' # page) = lang"
    "parse_page_id (''/docs/'' @ lang @ CHR ''/'' # page) = page"
    "parse_lang (''/docs/'' @ lang) = lang" "parse_page_id (''/docs/'' @ lang) = []"
proof -
  have "CHR ''/'' \<notin> set lang" "lang \<noteq> []" using assms by (auto simp: docs_languages_def)
  with assms show "parse_lang (''/docs/'' @ lang @ CHR ''/'' # page) = lang"
    "parse_page_id (''/docs/'' @ lang @ CHR ''/'' # page) = page"
    "parse_lang (''/docs/'' @ lang) = lang" "parse_page_id (''/docs/'' @ lang) = []"
    unfolding parse_lang_def parse_page_id_def docs_rest_path by (simp_all add: split_two_slash split_two_one Let_def)
qed

text \<open>Every link of the sidebar is the path of its page in its language, and the pages are the linked ones.\<close>

definition items_of :: "docs_section list \<Rightarrow> docs_item list" where
  "items_of ss = concat (map ds_items ss)"

lemma sidebar_links:
  assumes "lang \<in> set docs_languages" "i \<in> set (items_of (get_sections lang))"
  shows "di_path i = ''/docs/'' @ lang @ CHR ''/'' # di_id i"
proof -
  have "lang = ''vi'' \<or> lang = ''en''" using assms(1) by (auto simp: docs_languages_def)
  then have "list_all (\<lambda>i. di_path i = ''/docs/'' @ lang @ CHR ''/'' # di_id i) (items_of (get_sections lang))"
    by (elim disjE) (simp_all add: items_of_def get_sections_def english_sections_def vietnamese_sections_def section_item_def)
  with assms(2) show ?thesis by (simp add: list_all_iff)
qed

definition sidebar_matches :: "string \<Rightarrow> (string \<times> docs_page) list \<Rightarrow> bool" where
  "sidebar_matches lang pages \<longleftrightarrow>
     (let links = map di_id (items_of (get_sections lang)); keys = map fst pages
      in list_all (\<lambda>k. k \<in> set links) keys \<and> list_all (\<lambda>k. k \<in> set keys) links \<and> distinct links \<and>
         list_all (\<lambda>(k, p). k \<noteq> [] \<and> dp_title p \<noteq> []) pages)"

lemma sidebar_english: "sidebar_matches ''en'' build_english_pages"
  by code_simp

lemma sidebar_vietnamese: "sidebar_matches ''vi'' build_vietnamese_pages"
  by code_simp

lemma sidebar_pages:
  assumes "lang \<in> set docs_languages" "build_content_pages lang = Some pages"
  shows "set (map di_id (items_of (get_sections lang))) = set (map fst pages) \<and> distinct (map di_id (items_of (get_sections lang))) \<and>
    list_all (\<lambda>(i, p). i \<noteq> [] \<and> dp_title p \<noteq> []) pages"
proof -
  have "lang = ''vi'' \<or> lang = ''en''" using assms(1) by (auto simp: docs_languages_def)
  then have "sidebar_matches lang pages"
    using assms(2) sidebar_english sidebar_vietnamese by (auto simp: build_content_pages_def)
  then show ?thesis by (auto simp: sidebar_matches_def Let_def list_all_iff)
qed

lemma items_mark_active:
  "items_of (mark_active page ss) = map (\<lambda>i. if di_id i = page then i\<lparr>di_active := True\<rparr> else i) (items_of ss)"
  by (induction ss) (simp_all add: items_of_def mark_active_def)

lemma items_not_active:
  "i \<in> set (items_of (get_sections lang)) \<Longrightarrow> \<not> di_active i"
proof -
  have "list_all (\<lambda>i. \<not> di_active i) (items_of (get_sections lang))"
    by (simp add: items_of_def get_sections_def english_sections_def vietnamese_sections_def section_item_def)
  then show "i \<in> set (items_of (get_sections lang)) \<Longrightarrow> \<not> di_active i" by (simp add: list_all_iff)
qed

lemma filter_key_one: "distinct (map f xs) \<Longrightarrow> k \<in> set (map f xs) \<Longrightarrow> \<exists>x. filter (\<lambda>x. f x = k) xs = [x]"
proof (induction xs)
  case (Cons x xs)
  then show ?case
    by (cases "f x = k") (auto simp: filter_empty_conv image_iff)
qed simp

text \<open>
  The documents hang together. In both languages the pages that exist are exactly those the sidebar
  links, the link of a page is a path that is read back as its language and page, and asking for it
  gives that page, under its title, with its entry marked and no other; any other page of a language
  is answered, with status 200, as not found.
\<close>

theorem docs_sidebar_complete:
  assumes "lang \<in> set docs_languages" "build_content_pages lang = Some pages"
    and "rq_method r = ''GET''" "rq_path r = ''/docs/'' @ lang @ CHR ''/'' # page" "page \<noteq> []"
  shows "\<exists>d. handle_docs None today version r = Docs_pages 200 [d] \<and> dd_lang d = lang \<and>
    (case map_of pages page of
       Some p \<Rightarrow> dd_title d = dp_title p \<and> dd_content d = dp_content p \<and>
         (\<exists>i. filter di_active (items_of (dd_sections d)) = [i] \<and> di_path i = rq_path r)
     | None \<Rightarrow> dd_title d = missing_title lang \<and> filter di_active (items_of (dd_sections d)) = [])"
proof -
  note path = docs_path(1,2) [OF assms(1), of page]
  note known = sidebar_pages [OF assms(1,2)]
  define d where "d = build_page_data today version lang (rq_path r)"
  have handled: "handle_docs None today version r = Docs_pages 200 [d]"
    using assms(3) path by (simp add: handle_docs_def d_def assms(4) Let_def)
  let ?items = "items_of (get_sections lang)"
  have active: "filter di_active (items_of (dd_sections d)) = map (\<lambda>i. i\<lparr>di_active := True\<rparr>) (filter (\<lambda>i. di_id i = page) ?items)"
  proof -
    have "filter di_active (map (\<lambda>i. if di_id i = page then i\<lparr>di_active := True\<rparr> else i) is) =
        map (\<lambda>i. i\<lparr>di_active := True\<rparr>) (filter (\<lambda>i. di_id i = page) is)" if "\<forall>i\<in>set is. \<not> di_active i" for "is" :: "docs_item list"
      using that by (induction "is") auto
    then show ?thesis
      using items_not_active [of _ lang] path by (simp add: d_def build_page_data_def assms(4) items_mark_active Let_def split_beta)
  qed
  show ?thesis
  proof (cases "map_of pages page")
    case None
    then have "page \<notin> set (map fst pages)" by (metis map_of_eq_None_iff set_map)
    then have "page \<notin> set (map di_id ?items)" using known by simp
    then have "filter (\<lambda>i. di_id i = page) ?items = []" by (auto simp: filter_empty_conv)
    moreover have "missing_title lang \<noteq> []" by (simp add: missing_title_def)
    ultimately show ?thesis
      using handled active None assms(2,5) path by (simp add: d_def build_page_data_def assms(4) Let_def)
  next
    case (Some p)
    then have "(page, p) \<in> set pages" by (rule map_of_SomeD)
    then have title: "dp_title p \<noteq> []" using known by (auto simp: list_all_iff)
    have "page \<in> fst ` set pages" using \<open>(page, p) \<in> set pages\<close> by force
    then have "page \<in> set (map di_id ?items)" using known by simp
    then obtain i where i: "filter (\<lambda>i. di_id i = page) ?items = [i]"
      using known filter_key_one [of di_id ?items page] by blast
    then have "i \<in> set ?items" "di_id i = page" using filter_set [of "\<lambda>i. di_id i = page" ?items] by auto
    then have "di_path i = rq_path r" using sidebar_links [OF assms(1)] by (simp add: assms(4))
    then show ?thesis
      using handled active i Some assms(2,5) path title by (simp add: d_def build_page_data_def assms(4) Let_def)
  qed
qed

theorem docs_sidebar_complete_witness:
  "\<exists>d. handle_docs None ''2025-01-01'' ''1'' (plain_get ''/docs/en/cli/mode'' ''1.2.3.4:5'') = Docs_pages 200 [d] \<and>
     dd_title d = ''mode Command'' \<and> dd_content d = ''enCLIMode''"
proof -
  have "map_of build_english_pages ''cli/mode'' = Some \<lparr>dp_title = ''mode Command'', dp_content = ''enCLIMode''\<rparr>"
    by (simp add: build_english_pages_def)
  then show ?thesis
    using docs_sidebar_complete [of "''en''" build_english_pages "plain_get ''/docs/en/cli/mode'' ''1.2.3.4:5''" "''cli/mode''"
        "''2025-01-01''" "''1''"]
    by (auto simp: docs_languages_def build_content_pages_def plain_get_def)
qed

text \<open>A template that fails after its first byte leaves half a page and the error page after it, with status 200.\<close>

lemma half_a_page:
  "rq_method r = ''GET'' \<Longrightarrow> 0 < n \<Longrightarrow> handle_docs (Some n) today version r =
     Docs_pages 200 [build_page_data today version (parse_lang (rq_path r)) (rq_path r), error_page (parse_lang (rq_path r))]"
  by (simp add: handle_docs_def serve_error_page_def Let_def)

end
