(* ===== verification/MasterServer.thy ===== *)
theory MasterServer
  imports AdminPanel Docs Mux Crypto "HOL-Library.Char_ord" "HOL-Library.List_Lexorder"
begin

text \<open>
  The assembled master, \<^verbatim>\<open>cmd/kiro-master/main.go\<close>: the environment, the routes of all packages on
  one multiplexer, and the middlewares around it; with the small handlers that have no theory of
  their own, the charts (\<^verbatim>\<open>handlers/charts.go\<close> and their queries), the download information
  (\<^verbatim>\<open>download.go\<close>), the home page, the install script, the page of a missing path and the static
  files. A body is given as what it decodes to, once for each handler that reads one. The file
  server of the standard library is not modelled: the reply has the path it is asked for. Neither
  are the socket, its time-outs and the signals; the five seconds a query has are a fault of it.
\<close>

subsection \<open>Charts\<close>

record hourly_count =
  hc_hour :: string
  hc_count :: nat

record release_point =
  pt_version :: string
  pt_created :: string

text \<open>
  \<open>hour\<close> is SQLite's \<^verbatim>\<open>strftime\<close> on the text a row was stored with, \<open>None\<close> for NULL, which a
  string cannot be scanned from. A group of the query is an hour with its rows.
\<close>

definition recent_hours :: "(gotime \<Rightarrow> string option) \<Rightarrow> gotime \<Rightarrow> master_db \<Rightarrow> string option list" where
  "recent_hours hour since d = map (\<lambda>h. hour (hb_created h)) (filter (\<lambda>h. since \<le> hb_created h) (db_heartbeats d))"

definition hourly_counts :: "string list \<Rightarrow> hourly_count list" where
  "hourly_counts hs = map (\<lambda>h. \<lparr>hc_hour = h, hc_count = length (filter (\<lambda>x. x = h) hs)\<rparr>) (sort (remdups hs))"

definition timeline_since :: "fault \<Rightarrow> (gotime \<Rightarrow> string option) \<Rightarrow> gotime \<Rightarrow> master_db \<Rightarrow> go_error + hourly_count list" where
  "timeline_since f hour since d =
     (case f of
        Some e \<Rightarrow> Inl (Wrapped ''db: get heartbeat timeline'' e)
      | None \<Rightarrow>
          let hs = recent_hours hour since d in
          if None \<in> set hs then Inl (Wrapped ''db: get heartbeat timeline scan'' (Driver_error ''converting NULL to string''))
          else Inr (hourly_counts (map the hs)))"

text \<open>The handlers' query asks the database for the time, to the second; the other one asks the clock.\<close>

definition get_heartbeat_timeline :: "fault \<Rightarrow> (gotime \<Rightarrow> string option) \<Rightarrow> gotime \<Rightarrow> master_db \<Rightarrow> go_error + hourly_count list" where
  "get_heartbeat_timeline f hour now d = timeline_since f hour ((unix_secs now - 86400) * nanos) d"

definition heartbeat_timeline_db :: "fault \<Rightarrow> (gotime \<Rightarrow> string option) \<Rightarrow> gotime \<Rightarrow> master_db \<Rightarrow> go_error + hourly_count list" where
  "heartbeat_timeline_db f hour now d = timeline_since f hour (time_add now (- (86400 * nanos))) d"

definition get_release_points :: "fault \<Rightarrow> (gotime \<Rightarrow> string) \<Rightarrow> master_db \<Rightarrow> go_error + release_point list" where
  "get_release_points f rfc3339 d = failing ''db: get release points'' f
     (map (\<lambda>r. \<lparr>pt_version = rl_version r, pt_created = rfc3339 (rl_created r)\<rparr>) (sort_key rl_created (db_releases d)))"

datatype chart_body = Chart_refused | Chart_timeout | Chart_error
  | Dashboard_chart "string \<rightharpoonup> nat" "hourly_count list" | Release_chart "release_point list"

text \<open>What a failed query is answered with.\<close>

definition chart_failure :: "go_error \<Rightarrow> int \<times> chart_body" where
  "chart_failure e = (if is_context_timeout e then (503, Chart_timeout) else (500, Chart_error))"

definition handle_charts_dashboard :: "fault \<Rightarrow> fault \<Rightarrow> (gotime \<Rightarrow> string option) \<Rightarrow> http_request \<Rightarrow> gotime \<Rightarrow> master_db \<Rightarrow>
    int \<times> chart_body" where
  "handle_charts_dashboard f g hour r now d =
     (if rq_method r \<noteq> ''GET'' then (405, Chart_refused)
      else case count_licenses_by_status f d of
        Inl e \<Rightarrow> chart_failure e
      | Inr counts \<Rightarrow>
          (case get_heartbeat_timeline g hour now d of
             Inl e \<Rightarrow> chart_failure e
           | Inr timeline \<Rightarrow> (200, Dashboard_chart counts timeline)))"

definition handle_charts_releases :: "fault \<Rightarrow> (gotime \<Rightarrow> string) \<Rightarrow> http_request \<Rightarrow> master_db \<Rightarrow> int \<times> chart_body" where
  "handle_charts_releases f rfc3339 r d =
     (if rq_method r \<noteq> ''GET'' then (405, Chart_refused)
      else case get_release_points f rfc3339 d of
        Inl e \<Rightarrow> chart_failure e
      | Inr points \<Rightarrow> (200, Release_chart points))"

subsection \<open>Download information\<close>

record download_info =
  wi_version :: string
  wi_client :: string
  wi_xdp :: string

definition releases_dir :: string where
  "releases_dir = ''/usr/local/share/kiro/releases/''"

definition trim_line_end :: "string \<Rightarrow> string" where
  "trim_line_end v = rev (dropWhile (\<lambda>c. c \<in> {CHR 0x0A, CHR 0x0D, CHR '' ''}) (rev v))"

definition release_version :: "string option \<Rightarrow> string" where
  "release_version file =
     (case file of None \<Rightarrow> ''1.0.0'' | Some v \<Rightarrow> if trim_line_end v = [] then ''1.0.0'' else trim_line_end v)"

definition compute_file_sha256 :: "string option \<Rightarrow> string" where
  "compute_file_sha256 file = (case file of None \<Rightarrow> [] | Some s \<Rightarrow> hex_encode (sha256 (bytes_of s)))"

datatype info_outcome = Info_refused int | Info download_info | Info_crashed

definition handle_download_info :: "heartbeat_faults \<Rightarrow> (string \<Rightarrow> string option) \<Rightarrow> http_request \<Rightarrow> gotime \<Rightarrow> master_db \<Rightarrow>
    info_outcome" where
  "handle_download_info f files r now d =
     (if rq_method r \<noteq> ''GET'' then Info_refused 405
      else if \<not> validate_license_key f r now d then Info_refused 401
      else if length (rq_header r ''X-License-Key'') < 8 then Info_crashed
      else Info \<lparr>wi_version = release_version (files (releases_dir @ ''VERSION'')),
                 wi_client = compute_file_sha256 (files (releases_dir @ ''kiro-client-waf'')),
                 wi_xdp = compute_file_sha256 (files (releases_dir @ ''xdp_filter.o''))\<rparr>)"

subsection \<open>Requests and replies\<close>

record server_request =
  sr_admin :: admin_request
  sr_escaped :: string
  sr_beat :: "heartbeat_request option"
  sr_update :: "update_request option"
  sr_register :: "register_request option"

text \<open>What one request meets: the faults of its queries, random draws, files and texts.\<close>

record server_inputs =
  si_beat :: heartbeat_faults
  si_update :: fault
  si_store :: fault
  si_download :: heartbeat_faults
  si_admin :: admin_faults
  si_chart :: fault
  si_timeline :: fault
  si_draws :: admin_draws
  si_id :: "u8 list option"
  si_key :: "u8 list option"
  si_present :: "string \<Rightarrow> bool"
  si_files :: "string \<Rightarrow> string option"
  si_script :: "string option"
  si_docs_failed :: "nat option"
  si_today :: string
  si_version :: string
  si_hour :: "gotime \<Rightarrow> string option"
  si_rfc3339 :: "gotime \<Rightarrow> string"

datatype server_reply =
    Api master_response | Admin admin_response | Documentation docs_response | Chart "int \<times> chart_body"
  | Download int | Artifact string | Download_info download_info | Home | Missing_page
  | Script_refused | Script string | Static_file string | Static_missing
  | Moved_permanently string | Bad_target | Plain_missing | Recovered

record server =
  sv_db :: master_db
  sv_limiter :: register_limiter

subsection \<open>Small handlers\<close>

definition handle_not_found :: server_reply where
  "handle_not_found = Missing_page"

definition handle_homepage :: "http_request \<Rightarrow> server_reply" where
  "handle_homepage r = (if rq_path r \<noteq> ''/'' then handle_not_found else Home)"

definition handle_install_script :: "string option \<Rightarrow> http_request \<Rightarrow> server_reply" where
  "handle_install_script script r =
     (if rq_method r \<noteq> ''GET'' then Script_refused
      else Script (case script of
        Some s \<Rightarrow> s
      | None \<Rightarrow> ''#!/bin/bash'' @ [CHR 0x0A] @ ''echo '' @ [CHR 0x27] @
          ''ERROR: Install script not available. Contact support@vpsgen.com'' @ [CHR 0x27, CHR 0x0A] @ ''exit 1'' @ [CHR 0x0A]))"

text \<open>\<^verbatim>\<open>http.StripPrefix\<close> takes the prefix off the decoded and off the escaped path, or refuses.\<close>

definition static_route :: "string \<Rightarrow> http_request \<Rightarrow> server_reply" where
  "static_route escaped r =
     (if prefix ''/static/'' (rq_path r) \<and> prefix ''/static/'' escaped
      then Static_file (trim_prefix ''/static/'' (rq_path r)) else Static_missing)"

text \<open>A run-time panic of a download is recovered by the outermost middleware.\<close>

definition download_route :: "string \<Rightarrow> server_inputs \<Rightarrow> http_request \<Rightarrow> gotime \<Rightarrow> master_db \<Rightarrow> server_reply" where
  "download_route name i r now d =
     (case handle_download (si_download i) (si_present i (releases_dir @ name)) r now d of
        Refused code \<Rightarrow> Download code | Served \<Rightarrow> Artifact name | Crashed \<Rightarrow> Recovered)"

definition info_route :: "server_inputs \<Rightarrow> http_request \<Rightarrow> gotime \<Rightarrow> master_db \<Rightarrow> server_reply" where
  "info_route i r now d =
     (case handle_download_info (si_download i) (si_files i) r now d of
        Info_refused code \<Rightarrow> Download code | Info x \<Rightarrow> Download_info x | Info_crashed \<Rightarrow> Recovered)"

subsection \<open>The routes\<close>

definition public_patterns :: "string list" where
  "public_patterns = [''/static/'', ''/'', ''/healthz'', ''/install'', ''/install.sh'', ''/api/v1/heartbeat'',
     ''/api/v1/update/check'', ''/api/v1/register'', ''/api/v1/charts/dashboard'', ''/api/v1/charts/releases'',
     ''/api/v1/download/client-waf'', ''/api/v1/download/xdp-filter'', ''/api/v1/download/info'', ''/docs'', ''/docs/'']"

definition admin_patterns :: "string list" where
  "admin_patterns = [''/admin/login'', ''/admin/logout'', ''/admin/'', ''/admin/licenses'', ''/admin/licenses/'',
     ''/admin/releases'', ''/admin/releases/'', ''/admin/heartbeats'']"

definition master_patterns :: "string list" where
  "master_patterns = public_patterns @ admin_patterns"

definition admin_pattern :: "admin_faults \<Rightarrow> admin_draws \<Rightarrow> admin_config \<Rightarrow> string \<Rightarrow> admin_handler" where
  "admin_pattern f dr cfg pat =
     (if pat = ''/admin/login'' then login_route f (dr_token dr) cfg
      else if pat = ''/admin/logout'' then session_protected f cfg (handle_admin_logout f)
      else if pat = ''/admin/'' then session_protected f cfg (handle_admin_dashboard f)
      else if pat = ''/admin/licenses'' then session_protected f cfg (handle_admin_licenses f (dr_id dr) (dr_key dr))
      else if pat = ''/admin/licenses/'' then session_protected f cfg (handle_admin_license_action f (dr_key dr))
      else if pat = ''/admin/releases'' then session_protected f cfg (handle_admin_releases f)
      else if pat = ''/admin/releases/'' then session_protected f cfg (handle_admin_release_action f)
      else session_protected f cfg (handle_admin_heartbeats f))"

definition faulty_store :: "fault \<Rightarrow> master_db license_store_ops" where
  "faulty_store f = \<lparr>st_create = create_license f, st_get = get_license_by_license_id f,
     st_update = update_license f, st_list = list_licenses f\<rparr>"

text \<open>The handlers that read only.\<close>

definition read_route :: "server_inputs \<Rightarrow> server_request \<Rightarrow> gotime \<Rightarrow> master_db \<Rightarrow> string \<Rightarrow> server_reply" where
  "read_route i q now d pat =
     (let r = aq_http (sr_admin q) in
      if pat = ''/static/'' then static_route (sr_escaped q) r
      else if pat = ''/healthz'' then Api (handle_healthz r)
      else if pat \<in> {''/install'', ''/install.sh''} then handle_install_script (si_script i) r
      else if pat = ''/api/v1/update/check'' then Api (handle_update_check (si_update i) r (sr_update q) d)
      else if pat = ''/api/v1/charts/dashboard''
      then Chart (handle_charts_dashboard (si_chart i) (si_timeline i) (si_hour i) r now d)
      else if pat = ''/api/v1/charts/releases'' then Chart (handle_charts_releases (si_chart i) (si_rfc3339 i) r d)
      else if pat = ''/api/v1/download/client-waf'' then download_route ''kiro-client-waf'' i r now d
      else if pat = ''/api/v1/download/xdp-filter'' then download_route ''xdp_filter.o'' i r now d
      else if pat = ''/api/v1/download/info'' then info_route i r now d
      else if pat \<in> {''/docs'', ''/docs/''}
      then Documentation (handle_docs (si_docs_failed i) (si_today i) (si_version i) r)
      else handle_homepage r)"

definition serve_pattern :: "admin_config \<Rightarrow> server_inputs \<Rightarrow> server_request \<Rightarrow> gotime \<Rightarrow> string \<Rightarrow> server \<Rightarrow> server_reply \<times> server" where
  "serve_pattern cfg i q now pat s =
     (let r = aq_http (sr_admin q) in
      if pat \<in> set admin_patterns
      then (case admin_pattern (si_admin i) (si_draws i) cfg pat (sr_admin q) now (sv_db s) of
              (rep, d) \<Rightarrow> (Admin rep, s\<lparr>sv_db := d\<rparr>))
      else if pat = ''/api/v1/heartbeat''
      then (case handle_heartbeat (si_beat i) r (sr_beat q) now (sv_db s) of (rep, d) \<Rightarrow> (Api rep, s\<lparr>sv_db := d\<rparr>))
      else if pat = ''/api/v1/register''
      then (case handle_register (faulty_store (si_store i)) (si_id i) (si_key i) r (sr_register q) now (sv_limiter s, sv_db s) of
              (rep, rl, d) \<Rightarrow> (Api rep, \<lparr>sv_db = d, sv_limiter = rl\<rparr>))
      else (read_route i q now (sv_db s) pat, s))"

definition serve_request :: "admin_config \<Rightarrow> server_inputs \<Rightarrow> server_request \<Rightarrow> gotime \<Rightarrow> server \<Rightarrow> server_reply \<times> server" where
  "serve_request cfg i q now s =
     (let r = aq_http (sr_admin q) in
      case mux_route master_patterns (rq_method r) (sr_escaped q) (rq_path r) of
        Target_refused \<Rightarrow> (Bad_target, s)
      | Redirect_to t \<Rightarrow> (Moved_permanently t, s)
      | Unrouted \<Rightarrow> (Plain_missing, s)
      | Routed pat \<Rightarrow> serve_pattern cfg i q now pat s)"

type_synonym served = "server_inputs \<times> server_request \<times> gotime"

fun master_run :: "admin_config \<Rightarrow> served list \<Rightarrow> server \<Rightarrow> server_reply list \<times> server" where
  "master_run cfg [] s = ([], s)"
| "master_run cfg ((i, q, now) # es) s =
     (let (rep, s1) = serve_request cfg i q now s; (reps, s2) = master_run cfg es s1 in (rep # reps, s2))"

text \<open>\<^verbatim>\<open>recoveryMiddleware\<close>: what is written for a recovered panic.\<close>

definition recovered_response :: "int \<times> string" where
  "recovered_response = (500, ''internal server error'')"

subsection \<open>The start\<close>

definition env_or_default :: "(string \<Rightarrow> string) \<Rightarrow> string \<Rightarrow> string \<Rightarrow> string" where
  "env_or_default env key def = (if env key \<noteq> [] then env key else def)"

definition parse_admin_ips :: "string \<Rightarrow> string list" where
  "parse_admin_ips s = (if s = [] then [] else filter (\<lambda>ip. ip \<noteq> []) (map trim_space (split_on CHR '','' s)))"

record master_start =
  ms_addr :: string
  ms_db :: string
  ms_admin :: admin_config
  ms_limiter :: register_limiter

text \<open>\<open>parse\<close> is \<^verbatim>\<open>time.ParseDuration\<close>; an error ends the program.\<close>

definition start_master :: "(string \<Rightarrow> duration option) \<Rightarrow> (string \<Rightarrow> string) \<Rightarrow> string + master_start" where
  "start_master parse env =
     (if env ''KIRO_MASTER_ADMIN_KEY'' = [] then Inl ''KIRO_MASTER_ADMIN_KEY is required''
      else case parse (env_or_default env ''KIRO_MASTER_SESSION_TTL'' ''12h'') of
        None \<Rightarrow> Inl ''invalid KIRO_MASTER_SESSION_TTL''
      | Some ttl \<Rightarrow> Inr
          \<lparr>ms_addr = env_or_default env ''KIRO_MASTER_ADDR'' '':8080'',
           ms_db = env_or_default env ''KIRO_MASTER_DB'' ''/var/lib/kiro-master/master.db'',
           ms_admin = \<lparr>ac_key = env ''KIRO_MASTER_ADMIN_KEY'', ac_allowed = parse_admin_ips (env ''KIRO_MASTER_ADMIN_IPS''),
             ac_ttl = ttl\<rparr>,
           ms_limiter = new_register_limiter 10 (3600 * nanos)\<rparr>)"

end
