(* ===== verification/MasterFacts.thy ===== *)
theory MasterFacts
  imports MasterServer
begin

text \<open>
  What the assembled master guarantees: which of its routes change the database, for whom, and
  what is left to a request that has neither the admin key nor a session.
\<close>

subsection \<open>Which routes write\<close>

text \<open>The licence a stranger may leave behind, and the terms of a licence that stay.\<close>

definition same_terms :: "license \<Rightarrow> license \<Rightarrow> bool" where
  "same_terms l l' \<longleftrightarrow> l' = l\<lparr>li_status := li_status l', li_last_heartbeat := li_last_heartbeat l'\<rparr> \<and>
     (li_status l' = li_status l \<or> li_status l = ''active'' \<and> li_status l' = ''expired'')"

definition free_licence :: "license \<Rightarrow> bool" where
  "free_licence l \<longleftrightarrow> li_plan l = ''community'' \<and> li_valid_days l = 0 \<and> is_zero_time (li_expires l)"

definition row_kept :: "license option \<Rightarrow> license option \<Rightarrow> bool" where
  "row_kept x y \<longleftrightarrow> (case x of None \<Rightarrow> (\<forall>l'. y = Some l' \<longrightarrow> free_licence l')
     | Some l \<Rightarrow> (\<exists>l'. y = Some l' \<and> same_terms l l'))"

definition db_kept :: "string set \<Rightarrow> master_db \<Rightarrow> master_db \<Rightarrow> bool" where
  "db_kept T d d' \<longleftrightarrow> table_ok d' \<and> db_releases d' = db_releases d \<and> as_token ` set (db_sessions d') \<subseteq> T \<and>
     (\<forall>k. row_kept (row_of k d) (row_of k d'))"

lemma same_terms_refl: "same_terms l l"
  by (simp add: same_terms_def)

lemma same_terms_trans:
  assumes "same_terms a b" "same_terms b c"
  shows "same_terms a c"
proof -
  have b: "b = a\<lparr>li_status := li_status b, li_last_heartbeat := li_last_heartbeat b\<rparr>"
    and c: "c = b\<lparr>li_status := li_status c, li_last_heartbeat := li_last_heartbeat c\<rparr>"
    using assms by (auto simp: same_terms_def)
  have "c = a\<lparr>li_status := li_status c, li_last_heartbeat := li_last_heartbeat c\<rparr>"
    by (subst c, subst b) simp
  then show ?thesis using assms unfolding same_terms_def by auto
qed

lemma same_terms_free: "same_terms a b \<Longrightarrow> free_licence a \<Longrightarrow> free_licence b"
  unfolding same_terms_def free_licence_def
  by (elim conjE, erule ssubst) simp

lemma row_kept_trans: "row_kept x y \<Longrightarrow> row_kept y z \<Longrightarrow> row_kept x z"
  using same_terms_trans same_terms_free by (fastforce simp: row_kept_def split: option.splits)

lemma kept_trans: "db_kept T d d' \<Longrightarrow> db_kept T d' d'' \<Longrightarrow> db_kept T d d''"
  unfolding db_kept_def using row_kept_trans by (metis (no_types, lifting))

lemma kept_same:
  assumes "table_ok d" "as_token ` set (db_sessions d) \<subseteq> T" "db_licenses d' = db_licenses d"
    "db_next_id d' = db_next_id d" "db_releases d' = db_releases d" "db_sessions d' = db_sessions d"
  shows "db_kept T d d'"
  using assms by (auto simp: db_kept_def table_ok_def row_of_def row_kept_def same_terms_refl split: option.split)

subsection \<open>A stranger\<close>

text \<open>A request that has no token of \<open>T\<close> as its session and does not send the admin key.\<close>

definition stranger :: "admin_config \<Rightarrow> string set \<Rightarrow> admin_request \<Rightarrow> bool" where
  "stranger cfg T q \<longleftrightarrow> (\<forall>t. aq_session q = Some t \<longrightarrow> t \<notin> T) \<and> \<not> right_key cfg q"

lemma stranger_no_session:
  assumes "stranger cfg T q" "as_token ` set (db_sessions d) \<subseteq> T"
  shows "\<not> session_live f cfg q now d"
  using assms
  by (auto simp: stranger_def session_live_def get_session_by_token_def failing_def find_Some_iff split: option.splits)
    (metis imageI nth_mem subsetD)

definition only_attempts :: "master_db \<Rightarrow> master_db \<Rightarrow> bool" where
  "only_attempts d d' \<longleftrightarrow> (\<exists>x. d' = d\<lparr>db_attempts := x\<rparr>)"

lemma only_attempts_refl: "only_attempts d d"
  unfolding only_attempts_def by (rule exI [of _ "db_attempts d"]) simp

lemma only_attempts_log: "only_attempts d (snd (log_login_attempt f ip ok now d))"
  using only_attempts_refl [of d] by (auto simp: only_attempts_def log_login_attempt_def split: option.split)

lemma stranger_login:
  assumes "\<not> right_key cfg q"
  shows "only_attempts d (snd (login_route f tb cfg q now d))"
proof -
  have "only_attempts d (snd (handle_admin_login f tb cfg q now d))"
    using assms only_attempts_refl only_attempts_log by (simp add: handle_admin_login_def right_key_def split: option.split)
  then show ?thesis
    using only_attempts_refl by (simp add: login_route_def admin_ip_allowlist_def admin_brute_force_def Let_def split: sum.split)
qed

lemma if_in: "a \<in> S \<Longrightarrow> b \<in> S \<Longrightarrow> (if c then a else b) \<in> S"
  by simp

lemma admin_pattern_guarded:
  "admin_pattern f dr cfg pat \<in> insert (login_route f (dr_token dr) cfg) (range (session_protected f cfg))"
  unfolding admin_pattern_def by (intro if_in) (rule insertI1, (rule insertI2, rule rangeI)+)

lemma stranger_admin:
  assumes "stranger cfg T q" "as_token ` set (db_sessions d) \<subseteq> T"
  shows "only_attempts d (snd (admin_pattern f dr cfg pat q now d))"
proof -
  have "snd (session_protected f cfg h q now d) = d" for h
    by (subst session_protected_cases) (simp add: stranger_no_session [OF assms])
  then show ?thesis
    using admin_pattern_guarded [of f dr cfg pat] stranger_login [of cfg q] assms(1) only_attempts_refl
    by (auto simp: stranger_def)
qed

lemma writes_frame:
  "db_releases (snd (update_license_status g lid st d)) = db_releases d"
  "db_sessions (snd (update_license_status g lid st d)) = db_sessions d"
  "db_releases (snd (update_license_heartbeat g lid now d)) = db_releases d"
  "db_sessions (snd (update_license_heartbeat g lid now d)) = db_sessions d"
  "db_releases (snd (log_heartbeat g hb d)) = db_releases d"
  "db_sessions (snd (log_heartbeat g hb d)) = db_sessions d"
  by (simp_all add: update_license_status_def update_license_heartbeat_def log_heartbeat_def map_rows_def split: option.split)

lemma heartbeat_tables:
  assumes "d' = snd (handle_heartbeat f r body now d)"
  shows "db_releases d' = db_releases d \<and> db_sessions d' = db_sessions d"
  using heartbeat_writes [OF assms]
  by (auto simp: Let_def marked_def writes_frame)

lemma beat_terms: "rel_option (\<lambda>l l'. beat_of l l' now \<and> P l l') x y \<Longrightarrow> row_kept x y"
  by (cases x; cases y) (auto simp: row_kept_def beat_of_def same_terms_def)

lemma heartbeat_kept:
  assumes "table_ok d" "as_token ` set (db_sessions d) \<subseteq> T"
  shows "db_kept T d (snd (handle_heartbeat f r body now d))"
proof -
  note changes = heartbeat_changes [OF assms(1), where f = f and r = r and body = body and now = now, unfolded split_beta]
  have "row_kept (row_of k d) (row_of k (snd (handle_heartbeat f r body now d)))" for k
    by (rule beat_terms [OF spec [OF conjunct2 [OF changes]]])
  then show ?thesis
    using changes heartbeat_tables [OF refl, of f r body now d] assms(2) by (simp add: db_kept_def)
qed

text \<open>A registration adds one free licence, or nothing.\<close>

lemma find_append: "find P (xs @ ys) = (case find P xs of None \<Rightarrow> find P ys | Some x \<Rightarrow> Some x)"
  by (induction xs) simp_all

lemma create_kept:
  assumes "table_ok d" "as_token ` set (db_sessions d) \<subseteq> T" "free_licence l"
  shows "db_kept T d (snd (create_license f l d))"
proof -
  have "row_kept (row_of k d) (row_of k (snd (create_license f l d)))" for k
    using assms(3)
    by (cases "row_of k d")
      (auto simp: create_license_def Let_def row_of_def row_kept_def same_terms_refl find_append free_licence_def
        split: option.split)
  then show ?thesis
    using table_ok_create [OF assms(1), of f l] assms(2)
    by (auto simp: db_kept_def create_license_def Let_def split: option.splits)
qed

lemma register_kept:
  assumes "table_ok d" "as_token ` set (db_sessions d) \<subseteq> T"
  shows "db_kept T d (snd (snd (handle_register (faulty_store f) ib kb r body now (rl, d))))"
proof -
  have same: "db_kept T d d" using assms by (simp add: kept_same)
  have "db_kept T d (snd (create_community_license (faulty_store f) ib kb c n fp now d))" for c n fp
    by (simp add: create_community_license_def faulty_store_def Let_def split_beta create_kept [OF assms] same
        free_licence_def is_zero_time_def split: option.split sum.split)
  then show ?thesis
    using same by (auto simp: handle_register_def Let_def split_beta split: option.split sum.split)
qed

subsection \<open>Runs without the key\<close>

lemma stranger_kept:
  assumes "table_ok (sv_db s)" "as_token ` set (db_sessions (sv_db s)) \<subseteq> T" "stranger cfg T (sr_admin q)"
  shows "db_kept T (sv_db s) (sv_db (snd (serve_request cfg i q now s)))"
proof -
  note tables = assms(1,2)
  have same: "db_kept T (sv_db s) (sv_db s)" using kept_same [OF tables] by simp
  have admin: "db_kept T (sv_db s) (snd (admin_pattern f dr cfg pat (sr_admin q) now (sv_db s)))" for f dr pat
    using stranger_admin [OF assms(3,2), of f dr pat now] kept_same [OF tables] by (auto simp: only_attempts_def)
  have "db_kept T (sv_db s) (sv_db (snd (serve_pattern cfg i q now pat s)))" for pat
    using same admin heartbeat_kept [OF tables] register_kept [OF tables] by (simp add: serve_pattern_def Let_def split_beta)
  then show ?thesis by (simp add: serve_request_def Let_def same split: routed.split)
qed

lemma strangers_kept:
  assumes "table_ok (sv_db s)" "as_token ` set (db_sessions (sv_db s)) \<subseteq> T"
    and "\<And>i q now. (i, q, now) \<in> set es \<Longrightarrow> stranger cfg T (sr_admin q)"
  shows "db_kept T (sv_db s) (sv_db (snd (master_run cfg es s)))"
  using assms
proof (induction es arbitrary: s)
  case (Cons e es)
  obtain i q now where e: "e = (i, q, now)" by (cases e)
  let ?s = "snd (serve_request cfg i q now s)"
  have step: "db_kept T (sv_db s) (sv_db ?s)" using stranger_kept [OF Cons.prems(1,2) Cons.prems(3) [of i q now]] e by simp
  then have "db_kept T (sv_db ?s) (sv_db (snd (master_run cfg es ?s)))"
    using Cons.prems(3) by (intro Cons.IH) (auto simp: db_kept_def)
  with step kept_trans show ?case by (auto simp: e split_beta Let_def)
qed (simp add: kept_same)

text \<open>
  C39. Only the admin key opens the database of the assembled master. Over any run of requests, to
  whatever routes and whatever they decode to, with any faults of the queries: if none of them sends
  the admin key or the token of a session there was at the start, no release is added or removed,
  no licence disappears and none of its columns changes but the last heartbeat and a status that
  goes from active to expired, and a licence that appears is a community licence without expiry.
\<close>

theorem master_needs_key:
  assumes "table_ok (sv_db s)"
    and "\<forall>(i, q, now)\<in>set es. \<not> right_key cfg (sr_admin q) \<and>
      (\<forall>t. aq_session (sr_admin q) = Some t \<longrightarrow> t \<notin> as_token ` set (db_sessions (sv_db s)))"
    and "d' = sv_db (snd (master_run cfg es s))"
  shows "db_releases d' = db_releases (sv_db s) \<and>
    (\<forall>k l. row_of k (sv_db s) = Some l \<longrightarrow> (\<exists>l'. row_of k d' = Some l' \<and>
       l' = l\<lparr>li_status := li_status l', li_last_heartbeat := li_last_heartbeat l'\<rparr> \<and>
       (li_status l' = li_status l \<or> li_status l = ''active'' \<and> li_status l' = ''expired''))) \<and>
    (\<forall>k l'. row_of k (sv_db s) = None \<and> row_of k d' = Some l' \<longrightarrow>
       li_plan l' = ''community'' \<and> li_valid_days l' = 0 \<and> is_zero_time (li_expires l'))"
proof -
  let ?T = "as_token ` set (db_sessions (sv_db s))"
  have "stranger cfg ?T (sr_admin q)" if "(i, q, now) \<in> set es" for i q now
    using assms(2) that unfolding stranger_def by fastforce
  from strangers_kept [OF assms(1) subset_refl this]
  have rows: "db_releases d' = db_releases (sv_db s)" "row_kept (row_of k (sv_db s)) (row_of k d')" for k
    by (simp_all add: db_kept_def assms(3))
  show ?thesis
  proof (intro conjI allI impI)
    fix k l assume "row_of k (sv_db s) = Some l"
    then show "\<exists>l'. row_of k d' = Some l' \<and>
       l' = l\<lparr>li_status := li_status l', li_last_heartbeat := li_last_heartbeat l'\<rparr> \<and>
       (li_status l' = li_status l \<or> li_status l = ''active'' \<and> li_status l' = ''expired'')"
      using rows(2) [of k] by (simp add: row_kept_def same_terms_def)
  next
    fix k l' assume "row_of k (sv_db s) = None \<and> row_of k d' = Some l'"
    then show "li_plan l' = ''community''" "li_valid_days l' = 0" "is_zero_time (li_expires l')"
      using rows(2) [of k] by (simp_all add: row_kept_def free_licence_def)
  qed (rule rows)
qed

definition demo_inputs :: server_inputs where
  "demo_inputs = \<lparr>si_beat = no_faults, si_update = None, si_store = None, si_download = no_faults, si_admin = no_admin_faults,
     si_chart = None, si_timeline = None, si_draws = no_draws, si_id = Some [7], si_key = Some [8], si_present = (\<lambda>_. True),
     si_files = (\<lambda>_. None), si_script = None, si_docs_failed = None, si_today = ''2025-01-01'', si_version = ''1'',
     si_hour = (\<lambda>t. Some (fmt_int (t div 3600000000000))), si_rfc3339 = fmt_int\<rparr>"

definition server_request_to :: "string \<Rightarrow> string \<Rightarrow> server_request" where
  "server_request_to m path = \<lparr>sr_admin = panel_request m path, sr_escaped = path, sr_beat = Some (beat_body ''K1''),
     sr_update = None, sr_register = Some \<lparr>gq_hostname = ''host'', gq_fingerprint = ''fp''\<rparr>\<rparr>"

definition demo_server :: server where
  "demo_server = \<lparr>sv_db = sample_db, sv_limiter = new_register_limiter 10 (3600 * nanos)\<rparr>"

definition demo_requests :: "served list" where
  "demo_requests = [(demo_inputs, server_request_to ''POST'' ''/admin/licenses/1/revoke'', 5),
     (demo_inputs, server_request_to ''POST'' ''/api/v1/register'', 6),
     (demo_inputs, server_request_to ''POST'' ''/api/v1/heartbeat'', 7)]"

theorem master_needs_key_witness:
  "let d' = sv_db (snd (master_run sample_admin demo_requests demo_server))
   in db_releases d' = [] \<and> (\<exists>l'. row_of ''L2'' d' = Some l' \<and> li_plan l' = li_plan sample_license \<and> li_status l' = ''suspended'')"
proof -
  let ?d' = "sv_db (snd (master_run sample_admin demo_requests demo_server))"
  have row: "row_of ''L2'' (sv_db demo_server) =
      Some (sample_license\<lparr>li_id := 2, li_license_id := ''L2'', li_key := ''K2'', li_status := ''suspended''\<rparr>)"
    by (simp add: demo_server_def sample_db_def row_of_def sample_license_def)
  have "\<forall>(i, q, now)\<in>set demo_requests. \<not> right_key sample_admin (sr_admin q) \<and>
      (\<forall>t. aq_session (sr_admin q) = Some t \<longrightarrow> t \<notin> as_token ` set (db_sessions (sv_db demo_server)))"
    by (simp add: demo_requests_def server_request_to_def panel_request_def login_request_def right_key_def
        form_value_def sample_admin_def)
  note unchanged = master_needs_key [where s = demo_server and es = demo_requests and cfg = sample_admin, OF _ this refl]
  have ok: "table_ok (sv_db demo_server)" using sample_db_ok by (simp add: demo_server_def)
  obtain l' where "row_of ''L2'' ?d' = Some l'"
    and l': "l' = (sample_license\<lparr>li_id := 2, li_license_id := ''L2'', li_key := ''K2'', li_status := ''suspended''\<rparr>)
        \<lparr>li_status := li_status l', li_last_heartbeat := li_last_heartbeat l'\<rparr>" "li_status l' = ''suspended''"
    using unchanged [OF ok] row by force
  moreover have "li_plan l' = li_plan sample_license" by (subst l'(1)) simp
  moreover have "db_releases ?d' = []" using unchanged [OF ok] by (simp add: demo_server_def sample_db_def)
  ultimately show ?thesis by (simp add: Let_def)
qed

subsection \<open>Routing\<close>

text \<open>Every request is answered by a handler, a redirect or a refusal of its target.\<close>

lemma master_answers: "fst (serve_request cfg i q now s) \<noteq> Plain_missing"
proof -
  let ?r = "aq_http (sr_admin q)"
  have route: "mux_route master_patterns (rq_method ?r) (sr_escaped q) (rq_path ?r) \<noteq> Unrouted"
    by (rule root_routes) (simp add: master_patterns_def public_patterns_def)
  have "fst (serve_pattern cfg i q now pat s) \<noteq> Plain_missing" for pat
    by (simp add: serve_pattern_def read_route_def static_route_def handle_install_script_def handle_homepage_def
        handle_not_found_def download_route_def info_route_def Let_def split_beta
        split: download_outcome.split info_outcome.split)
  then show ?thesis using route by (simp add: serve_request_def Let_def split: routed.split)
qed

text \<open>An encoded slash does not separate: the path of a licence's action written so reaches the dashboard, which does not know it.\<close>

lemma route_of_paths:
  "mux_route master_patterns ''GET'' ''/api/v1/charts/dashboard'' ''/api/v1/charts/dashboard'' = Routed ''/api/v1/charts/dashboard''"
  "mux_route master_patterns ''POST'' ''/admin/licenses%2F1'' ''/admin/licenses/1'' = Routed ''/admin/''"
  "mux_route master_patterns ''POST'' ''/admin/licenses/1/revoke'' ''/admin/licenses/1/revoke'' = Routed ''/admin/licenses/''"
  "mux_route master_patterns ''GET'' ''/admin'' ''/admin'' = Redirect_to ''/admin/''"
  "mux_route master_patterns ''GET'' ''/docs'' ''/docs'' = Routed ''/docs''"
  by code_simp+

text \<open>The charts of the panel have no guard: whoever asks is told how many licences of each status there are.\<close>

lemma charts_public:
  assumes "sr_escaped q = ''/api/v1/charts/dashboard''" "rq_path (aq_http (sr_admin q)) = ''/api/v1/charts/dashboard''"
    "rq_method (aq_http (sr_admin q)) = ''GET''" "si_chart i = None"
    "get_heartbeat_timeline (si_timeline i) (si_hour i) now (sv_db s) = Inr timeline"
  shows "\<exists>counts. serve_request cfg i q now s = (Chart (200, Dashboard_chart counts timeline), s) \<and>
    count_licenses_by_status None (sv_db s) = Inr counts"
  using assms
  by (simp add: serve_request_def route_of_paths Let_def serve_pattern_def admin_patterns_def read_route_def
      handle_charts_dashboard_def count_licenses_by_status_def failing_def)

subsection \<open>The timeline\<close>

lemma counts_sum_up: "set hs \<subseteq> set ds \<Longrightarrow> distinct ds \<Longrightarrow> sum_list (map (\<lambda>h. length (filter (\<lambda>x. x = h) hs)) ds) = length hs"
proof (induction hs)
  case (Cons a hs)
  have "length (filter (\<lambda>x. x = h) (a # hs)) = (if h = a then 1 else 0) + length (filter (\<lambda>x. x = h) hs)" for h
    by simp
  then show ?case using Cons
    by (simp add: sum_list_addf sum_list_distinct_conv_sum_set sum.delta)
qed simp

text \<open>
  The timeline of the charts has every heartbeat of the last day once: its hours are strictly
  ascending, none is empty, and the counts sum up to the heartbeats.
\<close>

theorem timeline_complete:
  assumes "get_heartbeat_timeline f hour now d = Inr cs"
  shows "sorted_wrt (<) (map hc_hour cs) \<and> (\<forall>c\<in>set cs. 0 < hc_count c) \<and>
    sum_list (map hc_count cs) = length (filter (\<lambda>h. (unix_secs now - 86400) * nanos \<le> hb_created h) (db_heartbeats d))"
proof -
  define hs where "hs = map the (recent_hours hour ((unix_secs now - 86400) * nanos) d)"
  have cs: "cs = hourly_counts hs"
    using assms by (auto simp: get_heartbeat_timeline_def timeline_since_def Let_def hs_def split: option.splits if_splits)
  have "sorted_wrt (<) (map hc_hour cs)"
    by (simp add: cs hourly_counts_def comp_def strict_sorted_iff)
  moreover have "\<forall>c\<in>set cs. 0 < hc_count c"
    by (auto simp: cs hourly_counts_def filter_empty_conv)
  moreover have "sum_list (map hc_count cs) = length hs"
    using counts_sum_up [of hs "sort (remdups hs)"] by (simp add: cs hourly_counts_def comp_def)
  ultimately show ?thesis by (simp add: hs_def recent_hours_def)
qed

text \<open>The two queries of the timeline differ only in the fraction of the second they are asked in.\<close>

lemma timelines_agree:
  assumes "now = unix_secs now * nanos"
  shows "get_heartbeat_timeline f hour now d = heartbeat_timeline_db f hour now d"
proof -
  have "time_add now (- (86400 * nanos)) = (unix_secs now - 86400) * nanos"
    using assms by (simp add: time_add_def left_diff_distrib)
  then show ?thesis by (simp add: get_heartbeat_timeline_def heartbeat_timeline_db_def)
qed

subsection \<open>From a registration to its heartbeats\<close>

definition posts_to :: "string \<Rightarrow> server_request \<Rightarrow> bool" where
  "posts_to path q \<longleftrightarrow> rq_method (aq_http (sr_admin q)) = ''POST'' \<and> rq_path (aq_http (sr_admin q)) = path \<and> sr_escaped q = path"

lemma api_routes:
  "mux_route master_patterns ''POST'' ''/api/v1/register'' ''/api/v1/register'' = Routed ''/api/v1/register''"
  "mux_route master_patterns ''POST'' ''/api/v1/heartbeat'' ''/api/v1/heartbeat'' = Routed ''/api/v1/heartbeat''"
  by code_simp+

lemma serve_heartbeat:
  "posts_to ''/api/v1/heartbeat'' q \<Longrightarrow> fst (serve_request cfg i q now s) =
     Api (fst (handle_heartbeat (si_beat i) (aq_http (sr_admin q)) (sr_beat q) now (sv_db s)))"
  by (simp add: serve_request_def posts_to_def api_routes serve_pattern_def admin_patterns_def split_beta Let_def)

lemma serve_register:
  "posts_to ''/api/v1/register'' q \<Longrightarrow> serve_request cfg i q now s =
     (case handle_register (faulty_store (si_store i)) (si_id i) (si_key i) (aq_http (sr_admin q)) (sr_register q) now
         (sv_limiter s, sv_db s) of
        (rep, rl, d) \<Rightarrow> (Api rep, \<lparr>sv_db = d, sv_limiter = rl\<rparr>))"
  by (simp add: serve_request_def posts_to_def api_routes serve_pattern_def admin_patterns_def)

text \<open>A heartbeat with the key of a licence without expiry, found by that key.\<close>

lemma free_heartbeat:
  assumes "table_ok d" "l \<in> set (db_licenses d)" "li_status l \<noteq> ''revoked''" "li_status l \<noteq> ''suspended''"
    "is_zero_time (li_expires l)" "rq_method r = ''POST''" "hq_key q = li_key l" "li_key l \<noteq> []" "hq_node q \<noteq> []"
    "hf_lookup f = None" "\<not> binary_mismatch q l"
  shows "\<exists>h. fst (handle_heartbeat f r (Some q) now d) = (200, Heartbeat_json h) \<and>
    hr_valid h \<and> \<not> hr_lock h \<and> hr_plan h = li_plan l \<and> hr_status h = li_status l"
proof -
  have "find (\<lambda>x. li_key x = li_key l) (db_licenses d) = Some l"
    using find_unique [of li_key "db_licenses d" l] assms(1,2) by (simp add: table_ok_def)
  then have "find_license f (hq_key q) d = Inr (Some l)"
    using assms(7,10) by (simp add: find_license_def get_license_by_key_def failing_def)
  moreover have "\<not> license_expired now l" using assms(5) by (simp add: license_expired_def)
  ultimately show ?thesis
    using assms(3,4,6-9,11) by (auto simp: handle_heartbeat_def answer_heartbeat_eq binary_mismatch_def)
qed

text \<open>
  C12. A registration of the assembled master gives a licence that works from then on. Assumed are a
  working store and random bytes that name no licence yet, a registration that the limiter grants
  with a host name and a fingerprint, and afterwards any requests to whatever routes, in any order
  and with any faults, of which none sends the admin key or the token of a session there is. Then
  the registration answers with a key, and after all of these every heartbeat that sends this key,
  with the registered fingerprint or none and with its look-up working, is answered valid, with the
  community plan and no lock, at any instant.
\<close>

theorem registration_then_heartbeat:
  assumes "table_ok (sv_db s)" "posts_to ''/api/v1/register'' q" "si_store i = None"
    and "sr_register q = Some \<lparr>gq_hostname = host, gq_fingerprint = fp\<rparr>" "host \<noteq> []" "fp \<noteq> []"
    and "si_id i = Some ib" "si_key i = Some kb" "kb \<noteq> []"
    and "\<forall>l\<in>set (db_licenses (sv_db s)). li_license_id l \<noteq> hex_encode ib \<and> li_key l \<noteq> hex_encode kb"
    and "fst (register_allow (master_client_ip (aq_http (sr_admin q))) now (sv_limiter s))"
    and "serve_request cfg i q now s = (rep, s1)"
    and "\<forall>(i, q, now)\<in>set es. \<not> right_key cfg (sr_admin q) \<and>
      (\<forall>t. aq_session (sr_admin q) = Some t \<longrightarrow> t \<notin> as_token ` set (db_sessions (sv_db s)))"
    and "posts_to ''/api/v1/heartbeat'' q'" "hf_lookup (si_beat i') = None"
    and "sr_beat q' = Some \<lparr>hq_key = hex_encode kb, hq_node = node, hq_fp = fp'\<rparr>" "node \<noteq> []" "fp' = fp \<or> fp' = []"
  shows "rep = Api (200, Register_json \<lparr>gr_key = hex_encode kb, gr_id = hex_encode ib, gr_plan = ''community'',
      gr_status = ''active''\<rparr>) \<and>
    (\<exists>h. fst (serve_request cfg i' q' later (snd (master_run cfg es s1))) = Api (200, Heartbeat_json h) \<and>
      hr_valid h \<and> \<not> hr_lock h \<and> hr_plan h = ''community'')"
proof -
  let ?T = "as_token ` set (db_sessions (sv_db s))" and ?d = "sv_db s"
  define l where "l = \<lparr>li_id = db_next_id ?d, li_license_id = hex_encode ib, li_key = hex_encode kb,
    li_customer_id = fp, li_customer_name = host, li_client_ip = [], li_fingerprint = fp, li_plan = ''community'',
    li_status = ''active'', li_valid_days = 0, li_created = now, li_expires = zero_time,
    li_last_heartbeat = zero_time, li_notes = []\<rparr>"
  have fresh: "\<not> list_ex (\<lambda>x. li_license_id x = hex_encode ib \<or> li_key x = hex_encode kb) (db_licenses ?d)"
    using assms(10) by (auto simp: list_ex_iff)
  let ?d1 = "?d\<lparr>db_licenses := db_licenses ?d @ [l], db_next_id := db_next_id ?d + 1\<rparr>"
  have cr: "create_license None (l\<lparr>li_id := 0\<rparr>) ?d = (Inr l, ?d1)"
    using fresh by (simp add: create_license_def l_def Let_def)
  have reg: "rep = Api (200, Register_json \<lparr>gr_key = hex_encode kb, gr_id = hex_encode ib, gr_plan = ''community'',
      gr_status = ''active''\<rparr>)" and d1: "sv_db s1 = ?d1"
    using assms(2-8,11,12) cr
    by (auto simp: serve_register posts_to_def handle_register_def create_community_license_def faulty_store_def
        Let_def case_prod_unfold l_def)
  have ok: "table_ok (sv_db s1)" using table_ok_create [OF assms(1), of None "l\<lparr>li_id := 0\<rparr>"] cr d1 by simp
  have none: "find (\<lambda>x. li_license_id x = hex_encode ib) (db_licenses ?d) = None"
    using assms(10) by (simp add: find_None_iff)
  have row: "row_of (hex_encode ib) (sv_db s1) = Some l"
    using none by (simp add: d1 row_of_def find_append l_def)
  let ?d2 = "sv_db (snd (master_run cfg es s1))"
  have "db_kept ?T (sv_db s1) ?d2"
    by (rule strangers_kept [OF ok]) (use assms(13) in \<open>fastforce simp: d1 stranger_def\<close>)+
  then have ok2: "table_ok ?d2" and "row_kept (Some l) (row_of (hex_encode ib) ?d2)"
    using row by (auto simp: db_kept_def dest: spec [of _ "hex_encode ib"])
  then obtain l' where l': "row_of (hex_encode ib) ?d2 = Some l'" "same_terms l l'" by (auto simp: row_kept_def)
  have mem: "l' \<in> set (db_licenses ?d2)" using l'(1) by (auto simp: row_of_def find_Some_iff)
  have same: "l' = l\<lparr>li_status := li_status l', li_last_heartbeat := li_last_heartbeat l'\<rparr>"
    "li_status l' \<in> {''active'', ''expired''}"
    using l'(2) by (auto simp: same_terms_def l_def)
  have fields: "li_key l' = hex_encode kb" "li_plan l' = ''community''" "li_fingerprint l' = fp" "is_zero_time (li_expires l')"
    by (subst same(1), simp add: l_def is_zero_time_def)+
  have "hex_encode kb \<noteq> []" using assms(9) by (cases kb) (auto simp: hex_encode_def)
  then show ?thesis
    using free_heartbeat [OF ok2 mem, of "aq_http (sr_admin q')" "\<lparr>hq_key = hex_encode kb, hq_node = node, hq_fp = fp'\<rparr>"
        "si_beat i'" later] same(2) fields assms(14-18) reg
    by (auto simp: serve_heartbeat posts_to_def binary_mismatch_def)
qed

theorem registration_then_heartbeat_witness:
  "\<exists>h. fst (serve_request sample_admin demo_inputs ((server_request_to ''POST'' ''/api/v1/heartbeat'')\<lparr>sr_beat :=
      Some \<lparr>hq_key = hex_encode [8], hq_node = ''n'', hq_fp = []\<rparr>\<rparr>) 99
      (snd (master_run sample_admin demo_requests
        (snd (serve_request sample_admin demo_inputs (server_request_to ''POST'' ''/api/v1/register'') 4 demo_server))))) =
    Api (200, Heartbeat_json h) \<and> hr_valid h \<and> \<not> hr_lock h \<and> hr_plan h = ''community''"
proof -
  let ?q = "server_request_to ''POST'' ''/api/v1/register''"
  let ?q' = "(server_request_to ''POST'' ''/api/v1/heartbeat'')\<lparr>sr_beat := Some \<lparr>hq_key = hex_encode [8], hq_node = ''n'', hq_fp = []\<rparr>\<rparr>"
  obtain rep s1 where run: "serve_request sample_admin demo_inputs ?q 4 demo_server = (rep, s1)" by fastforce
  have reqs: "\<forall>(i, q, now)\<in>set demo_requests. \<not> right_key sample_admin (sr_admin q) \<and>
      (\<forall>t. aq_session (sr_admin q) = Some t \<longrightarrow> t \<notin> as_token ` set (db_sessions (sv_db demo_server)))"
    by (simp add: demo_requests_def server_request_to_def panel_request_def login_request_def right_key_def
        form_value_def sample_admin_def)
  have posts: "posts_to ''/api/v1/register'' ?q" "posts_to ''/api/v1/heartbeat'' ?q'"
    by (simp_all add: posts_to_def server_request_to_def panel_request_def login_request_def plain_get_def)
  have fresh: "\<forall>l\<in>set (db_licenses (sv_db demo_server)). li_license_id l \<noteq> hex_encode [7] \<and> li_key l \<noteq> hex_encode [8]"
    by code_simp
  have "table_ok (sv_db demo_server)" using sample_db_ok by (simp add: demo_server_def)
  moreover have "fst (register_allow (master_client_ip (aq_http (sr_admin ?q))) 4 (sv_limiter demo_server))"
    by (simp add: register_allow_def demo_server_def new_register_limiter_def Let_def)
  ultimately show ?thesis
    using registration_then_heartbeat [where s = demo_server and q = ?q and es = demo_requests and i = demo_inputs and
        i' = demo_inputs and q' = ?q' and fp = "''fp''" and fp' = "[]" and host = "''host''" and node = "''n''" and ib = "[7]" and kb = "[8]",
        OF _ posts(1) _ _ _ _ _ _ _ fresh _ run reqs posts(2)] run
    by (simp add: demo_inputs_def server_request_to_def no_faults_def)
qed

end
