(* ===== verification/Lifecycle.thy ===== *)
theory Lifecycle
  imports Main
begin

text \<open>
  Starting and stopping the health monitor, \<^verbatim>\<open>Start\<close>, \<^verbatim>\<open>Stop\<close> and the loop of
  \<^verbatim>\<open>internal/client/monitor/monitor.go\<close>, as the steps of concurrent callers and loops: the mutex
  is released between the test of the running flag and what follows it, the cancel function is set
  and read without the mutex, and a loop reads the channel it will close when it begins to run. A
  caller is a number; a context and a channel are the number of their creation. What a tick does is
  the subject of theory Monitor.
\<close>

subsection \<open>States and steps\<close>

datatype phase = Idle | Starting | Spawning nat | Stopping | Reading | Waiting nat | Clearing

datatype loop = Entering nat | Looping nat nat | Ended | Panicked

record life =
  ml_running :: bool
  ml_cancel :: "nat option"
  ml_done :: nat
  ml_contexts :: nat
  ml_channels :: nat
  ml_cancelled :: "nat set"
  ml_closed :: "nat set"
  ml_parent_done :: bool
  ml_callers :: "nat \<Rightarrow> phase"
  ml_loops :: "loop list"

definition new_life :: life where
  "new_life = \<lparr>ml_running = False, ml_cancel = None, ml_done = 0, ml_contexts = 0, ml_channels = 1, ml_cancelled = {},
     ml_closed = {}, ml_parent_done = False, ml_callers = (\<lambda>_. Idle), ml_loops = []\<rparr>"

definition goes :: "nat \<Rightarrow> phase \<Rightarrow> life \<Rightarrow> life" where
  "goes i p s = s\<lparr>ml_callers := (ml_callers s)(i := p)\<rparr>"

datatype life_act = Call_start nat | Make_context nat | Go_run nat
  | Call_stop nat | Call_cancel nat | Read_done nat | Wake nat | Clear nat
  | Enter nat | Leave nat | Parent_ends

inductive life_step :: "life_act \<Rightarrow> life \<Rightarrow> life \<Rightarrow> bool" where
  start_refused: "ml_callers s i = Idle \<Longrightarrow> ml_running s \<Longrightarrow> life_step (Call_start i) s s"
| start: "ml_callers s i = Idle \<Longrightarrow> \<not> ml_running s \<Longrightarrow>
    life_step (Call_start i) s (goes i Starting (s\<lparr>ml_running := True, ml_done := ml_channels s, ml_channels := Suc (ml_channels s)\<rparr>))"
| make_context: "ml_callers s i = Starting \<Longrightarrow>
    life_step (Make_context i) s (goes i (Spawning (ml_contexts s))
      (s\<lparr>ml_cancel := Some (ml_contexts s), ml_contexts := Suc (ml_contexts s)\<rparr>))"
| go_run: "ml_callers s i = Spawning c \<Longrightarrow> life_step (Go_run i) s (goes i Idle (s\<lparr>ml_loops := ml_loops s @ [Entering c]\<rparr>))"
| stop_refused: "ml_callers s i = Idle \<Longrightarrow> \<not> ml_running s \<Longrightarrow> life_step (Call_stop i) s s"
| stop: "ml_callers s i = Idle \<Longrightarrow> ml_running s \<Longrightarrow> life_step (Call_stop i) s (goes i Stopping s)"
| call_cancel: "ml_callers s i = Stopping \<Longrightarrow>
    life_step (Call_cancel i) s (goes i Reading (s\<lparr>ml_cancelled := set_option (ml_cancel s) \<union> ml_cancelled s\<rparr>))"
| read_done: "ml_callers s i = Reading \<Longrightarrow> life_step (Read_done i) s (goes i (Waiting (ml_done s)) s)"
| wake: "ml_callers s i = Waiting ch \<Longrightarrow> ch \<in> ml_closed s \<Longrightarrow> life_step (Wake i) s (goes i Clearing s)"
| clear: "ml_callers s i = Clearing \<Longrightarrow> life_step (Clear i) s (goes i Idle (s\<lparr>ml_running := False\<rparr>))"
| enter: "j < length (ml_loops s) \<Longrightarrow> ml_loops s ! j = Entering c \<Longrightarrow>
    life_step (Enter j) s (s\<lparr>ml_loops := (ml_loops s)[j := Looping c (ml_done s)]\<rparr>)"
| leave: "j < length (ml_loops s) \<Longrightarrow> ml_loops s ! j = Looping c ch \<Longrightarrow> c \<in> ml_cancelled s \<or> ml_parent_done s \<Longrightarrow>
    ch \<notin> ml_closed s \<Longrightarrow>
    life_step (Leave j) s (s\<lparr>ml_loops := (ml_loops s)[j := Ended], ml_closed := insert ch (ml_closed s)\<rparr>)"
| leave_panics: "j < length (ml_loops s) \<Longrightarrow> ml_loops s ! j = Looping c ch \<Longrightarrow> c \<in> ml_cancelled s \<or> ml_parent_done s \<Longrightarrow>
    ch \<in> ml_closed s \<Longrightarrow> life_step (Leave j) s (s\<lparr>ml_loops := (ml_loops s)[j := Panicked]\<rparr>)"
| parent_ends: "life_step Parent_ends s (s\<lparr>ml_parent_done := True\<rparr>)"

inductive_simps step_simps:
  "life_step (Call_start i) s t" "life_step (Make_context i) s t" "life_step (Go_run i) s t"
  "life_step (Call_stop i) s t" "life_step (Call_cancel i) s t" "life_step (Read_done i) s t"
  "life_step (Wake i) s t" "life_step (Clear i) s t" "life_step (Enter j) s t" "life_step (Leave j) s t"
  "life_step Parent_ends s t"

inductive life_path :: "life_act list \<Rightarrow> life \<Rightarrow> life \<Rightarrow> bool" where
  none: "life_path [] s s"
| more: "life_step a s t \<Longrightarrow> life_path as t u \<Longrightarrow> life_path (a # as) s u"

inductive_simps path_simps: "life_path [] s t" "life_path (a # as) s t"

text \<open>The calls one after the other: a call begins when no other one is under way.\<close>

definition calls :: "life_act \<Rightarrow> bool" where
  "calls a \<longleftrightarrow> (\<exists>i. a = Call_start i \<or> a = Call_stop i)"

inductive used_alone :: "life \<Rightarrow> bool" where
  new: "used_alone new_life"
| next_step: "used_alone s \<Longrightarrow> life_step a s t \<Longrightarrow> (calls a \<longrightarrow> (\<forall>i. ml_callers s i = Idle)) \<Longrightarrow> used_alone t"

subsection \<open>The invariant\<close>

definition alive :: "loop \<Rightarrow> bool" where
  "alive l \<longleftrightarrow> l \<noteq> Ended \<and> l \<noteq> Panicked"

definition quiet :: "life \<Rightarrow> bool" where
  "quiet s \<longleftrightarrow> (\<forall>l\<in>set (ml_loops s). l = Ended)"

text \<open>All loops but the last have ended; the last has the context the cancel function is for.\<close>

definition one_loop :: "nat \<Rightarrow> life \<Rightarrow> bool" where
  "one_loop c s \<longleftrightarrow> ml_cancel s = Some c \<and>
     (\<exists>ls l. ml_loops s = ls @ [l] \<and> (\<forall>x\<in>set ls. x = Ended) \<and>
        (l \<in> {Entering c, Looping c (ml_done s)} \<and> ml_done s \<notin> ml_closed s \<or> l = Ended \<and> ml_done s \<in> ml_closed s))"

fun phase_ok :: "phase \<Rightarrow> life \<Rightarrow> bool" where
  "phase_ok Idle s = (if ml_running s then \<exists>c. one_loop c s else quiet s)"
| "phase_ok Starting s = (ml_running s \<and> quiet s \<and> ml_done s \<notin> ml_closed s)"
| "phase_ok (Spawning c) s = (ml_running s \<and> quiet s \<and> ml_done s \<notin> ml_closed s \<and> ml_cancel s = Some c)"
| "phase_ok Stopping s = (ml_running s \<and> (\<exists>c. one_loop c s))"
| "phase_ok Reading s = (ml_running s \<and> (\<exists>c. one_loop c s \<and> c \<in> ml_cancelled s))"
| "phase_ok (Waiting ch) s = (ml_running s \<and> ch = ml_done s \<and> (\<exists>c. one_loop c s \<and> c \<in> ml_cancelled s))"
| "phase_ok Clearing s = (ml_running s \<and> quiet s)"

definition life_inv :: "life \<Rightarrow> bool" where
  "life_inv s \<longleftrightarrow> (\<forall>ch\<in>ml_closed s. ch < ml_channels s) \<and> ml_done s < ml_channels s \<and>
     (\<exists>i. (\<forall>j. j \<noteq> i \<longrightarrow> ml_callers s j = Idle) \<and> phase_ok (ml_callers s i) s)"

lemma new_life_inv: "life_inv new_life"
  by (simp add: life_inv_def new_life_def quiet_def)

lemma phase_ok_goes: "phase_ok p (goes i q s) = phase_ok p s"
  by (cases p) (simp_all add: goes_def one_loop_def quiet_def)

lemma goes_simps:
  "ml_running (goes i q s) = ml_running s" "ml_cancel (goes i q s) = ml_cancel s" "ml_done (goes i q s) = ml_done s"
  "ml_closed (goes i q s) = ml_closed s" "ml_channels (goes i q s) = ml_channels s" "ml_loops (goes i q s) = ml_loops s"
  "ml_callers (goes i q s) = (ml_callers s)(i := q)" "ml_cancelled (goes i q s) = ml_cancelled s"
  "ml_parent_done (goes i q s) = ml_parent_done s"
  by (simp_all add: goes_def)

text \<open>A step of a caller: the others stay idle.\<close>

lemma inv_caller:
  assumes "\<forall>j. j \<noteq> i \<longrightarrow> ml_callers s j = Idle" "\<forall>ch\<in>ml_closed t. ch < ml_channels t" "ml_done t < ml_channels t"
    "ml_callers t = (ml_callers s)(i := q)" "phase_ok q t"
  shows "life_inv t"
  unfolding life_inv_def using assms by (intro conjI exI [of _ i]) auto

lemma busy_caller:
  assumes "\<forall>j. j \<noteq> i \<longrightarrow> ml_callers s j = Idle" "ml_callers s k \<noteq> Idle"
  shows "k = i"
  using assms by auto

text \<open>A step of a loop, and the end of the parent.\<close>

lemma last_loop:
  assumes "one_loop c s" "j < length (ml_loops s)" "ml_loops s ! j \<noteq> Ended"
  shows "\<exists>ls. ml_loops s = ls @ [ml_loops s ! j] \<and> j = length ls \<and> (\<forall>x\<in>set ls. x = Ended)"
proof -
  obtain ls l where l: "ml_loops s = ls @ [l]" "\<forall>x\<in>set ls. x = Ended" using assms(1) by (auto simp: one_loop_def)
  then have "j = length ls" using assms(2,3) by (auto simp: nth_append split: if_split_asm)
  with l show ?thesis by simp
qed

lemma quiet_no_loop: "quiet s \<Longrightarrow> j < length (ml_loops s) \<Longrightarrow> ml_loops s ! j = Ended"
  by (simp add: quiet_def)

lemma one_loop_enter:
  assumes "one_loop c s" "j < length (ml_loops s)" "ml_loops s ! j = Entering d"
  shows "one_loop c (s\<lparr>ml_loops := (ml_loops s)[j := Looping d (ml_done s)]\<rparr>)"
proof -
  obtain ls where ls: "ml_loops s = ls @ [Entering d]" "j = length ls" "\<forall>x\<in>set ls. x = Ended"
    using last_loop [OF assms(1,2)] assms(3) by auto
  with assms(1) show ?thesis by (auto simp: one_loop_def)
qed

lemma one_loop_leave:
  assumes "one_loop c s" "j < length (ml_loops s)" "ml_loops s ! j = Looping d ch"
  shows "ch = ml_done s \<and> ch \<notin> ml_closed s \<and>
    one_loop c (s\<lparr>ml_loops := (ml_loops s)[j := Ended], ml_closed := insert ch (ml_closed s)\<rparr>)"
proof -
  obtain ls where ls: "ml_loops s = ls @ [Looping d ch]" "j = length ls" "\<forall>x\<in>set ls. x = Ended"
    using last_loop [OF assms(1,2)] assms(3) by auto
  with assms(1) show ?thesis by (auto simp: one_loop_def)
qed

text \<open>What a phase says of the loops: none, or one.\<close>

lemma phase_cases: "phase_ok p s \<Longrightarrow> quiet s \<or> (\<exists>c. one_loop c s)"
  by (cases p) (auto split: if_split_asm)

lemma phase_loop_step:
  assumes "phase_ok p s" "\<not> quiet s" "\<And>c. one_loop c s \<Longrightarrow> one_loop c t"
    and "ml_running t = ml_running s" "ml_done t = ml_done s" "ml_cancelled t = ml_cancelled s"
  shows "phase_ok p t"
  using assms by (cases p) (auto split: if_split_asm)

lemma one_loop_frame:
  "ml_cancel t = ml_cancel s \<Longrightarrow> ml_loops t = ml_loops s \<Longrightarrow> ml_done t = ml_done s \<Longrightarrow> ml_closed t = ml_closed s \<Longrightarrow>
     one_loop c t = one_loop c s"
  by (simp add: one_loop_def)

lemma fresh_loop:
  "quiet s \<Longrightarrow> ml_cancel s = Some c \<Longrightarrow> ml_done s \<notin> ml_closed s \<Longrightarrow> one_loop c (s\<lparr>ml_loops := ml_loops s @ [Entering c]\<rparr>)"
  by (auto simp: one_loop_def quiet_def)

lemma waiting_over: "one_loop c s \<Longrightarrow> ml_done s \<in> ml_closed s \<Longrightarrow> quiet s"
  by (auto simp: one_loop_def quiet_def)

lemma life_inv_step:
  assumes inv: "life_inv s" and step: "life_step a s t" and alone: "calls a \<longrightarrow> (\<forall>i. ml_callers s i = Idle)"
  shows "life_inv t"
proof -
  obtain i where idle: "\<forall>j. j \<noteq> i \<longrightarrow> ml_callers s j = Idle" and ok: "phase_ok (ml_callers s i) s"
    and chans: "\<forall>ch\<in>ml_closed s. ch < ml_channels s" "ml_done s < ml_channels s"
    using inv by (auto simp: life_inv_def)
  note caller = inv_caller [OF idle]
  note busy = busy_caller [OF idle]
  from step show ?thesis
  proof cases
    case (start k)
    then have "\<forall>j. j \<noteq> k \<longrightarrow> ml_callers s j = Idle" "phase_ok Idle s" using alone ok by (auto simp: calls_def)
    then show ?thesis
      using start chans by (intro inv_caller [of k s _ Starting]) (auto simp: goes_simps phase_ok_goes quiet_def less_Suc_eq)
  next
    case (make_context k)
    then have "k = i" using busy [of k] by simp
    then show ?thesis
      using make_context ok chans by (intro caller [of _ "Spawning (ml_contexts s)"]) (auto simp: goes_simps phase_ok_goes quiet_def)
  next
    case (go_run k c)
    then have "k = i" using busy [of k] by simp
    then show ?thesis
      using go_run ok chans fresh_loop [of s c] by (intro caller [of _ Idle]) (auto simp: goes_simps phase_ok_goes)
  next
    case (stop k)
    then have "\<forall>j. j \<noteq> k \<longrightarrow> ml_callers s j = Idle" "phase_ok Idle s" using alone ok by (auto simp: calls_def)
    then show ?thesis
      using stop chans by (intro inv_caller [of k s _ Stopping]) (auto simp: goes_simps phase_ok_goes)
  next
    case (call_cancel k)
    then have "k = i" using busy [of k] by simp
    then obtain c where "ml_running s" "one_loop c s" using call_cancel ok by auto
    moreover from this have "one_loop c (s\<lparr>ml_cancelled := set_option (ml_cancel s) \<union> ml_cancelled s\<rparr>)" "ml_cancel s = Some c"
      by (auto simp: one_loop_def)
    ultimately show ?thesis
      using call_cancel chans \<open>k = i\<close> by (intro caller [of _ Reading]) (auto simp: goes_simps phase_ok_goes)
  next
    case (read_done k)
    then have "k = i" using busy [of k] by simp
    then show ?thesis
      using read_done ok chans by (intro caller [of _ "Waiting (ml_done s)"]) (auto simp: goes_simps phase_ok_goes)
  next
    case (wake k ch)
    then have "k = i" using busy [of k] by simp
    then show ?thesis
      using wake ok chans by (intro caller [of _ Clearing]) (auto simp: goes_simps phase_ok_goes waiting_over)
  next
    case (clear k)
    then have "k = i" using busy [of k] by simp
    then show ?thesis
      using clear ok chans by (intro caller [of _ Idle]) (auto simp: goes_simps phase_ok_goes quiet_def)
  next
    case (enter j c)
    then have "\<not> quiet s" using quiet_no_loop [of s j] by auto
    then have "phase_ok (ml_callers s i) t"
      using phase_loop_step [OF ok] one_loop_enter [OF _ enter(3,4)] enter(2) by simp
    then show ?thesis using enter idle chans by (auto simp: life_inv_def intro!: exI [of _ i])
  next
    case (leave j c ch)
    then have nq: "\<not> quiet s" using quiet_no_loop [of s j] by auto
    have "one_loop d t" if "one_loop d s" for d using one_loop_leave [OF that leave(3,4)] unfolding leave(2) by blast
    then have "phase_ok (ml_callers s i) t"
      using phase_loop_step [OF ok nq] leave(2) by simp
    moreover have "ch = ml_done s" using phase_cases [OF ok] nq one_loop_leave [OF _ leave(3,4)] by auto
    ultimately show ?thesis using leave idle chans by (auto simp: life_inv_def intro!: exI [of _ i])
  next
    case (leave_panics j c ch)
    then have "\<not> quiet s" using quiet_no_loop [of s j] by auto
    then show ?thesis using phase_cases [OF ok] one_loop_leave [OF _ leave_panics(3,4)] leave_panics(6) by auto
  next
    case parent_ends
    have "phase_ok (ml_callers s i) t"
      using ok by (cases "ml_callers s i") (auto simp: parent_ends one_loop_def quiet_def)
    then show ?thesis using parent_ends idle chans by (auto simp: life_inv_def intro!: exI [of _ i])
  qed (use inv in simp_all)
qed

lemma used_alone_inv: "used_alone s \<Longrightarrow> life_inv s"
  by (induction rule: used_alone.induct) (auto intro: new_life_inv life_inv_step)

lemma path_append: "life_path as s t \<Longrightarrow> life_path bs t u \<Longrightarrow> life_path (as @ bs) s u"
  by (induction rule: life_path.induct) (auto intro: life_path.intros)

lemma alone_path: "life_path as s t \<Longrightarrow> used_alone s \<Longrightarrow> (\<And>a. a \<in> set as \<Longrightarrow> \<not> calls a) \<Longrightarrow> used_alone t"
  by (induction rule: life_path.induct) (auto intro: used_alone.next_step)

text \<open>A loop whose context is cancelled ends: it may still have to begin.\<close>

lemma looping_ends:
  assumes "ml_loops s = ls @ [Looping c ch]" "ch \<notin> ml_closed s" "c \<in> ml_cancelled s"
  shows "\<exists>t. life_path [Leave (length ls)] s t \<and> ml_callers t = ml_callers s \<and> ch \<in> ml_closed t"
  using assms by (auto simp: path_simps step_simps)

lemma loop_ends:
  assumes "one_loop c s" "c \<in> ml_cancelled s"
  shows "\<exists>as t. life_path as s t \<and> (\<forall>a\<in>set as. \<not> calls a \<and> a \<noteq> Parent_ends) \<and> ml_callers t = ml_callers s \<and> ml_done s \<in> ml_closed t"
proof -
  obtain ls l where l: "ml_loops s = ls @ [l]"
    "l \<in> {Entering c, Looping c (ml_done s)} \<and> ml_done s \<notin> ml_closed s \<or> l = Ended \<and> ml_done s \<in> ml_closed s"
    using assms(1) by (auto simp: one_loop_def)
  then consider "ml_done s \<in> ml_closed s" | "l = Looping c (ml_done s)" "ml_done s \<notin> ml_closed s"
    | "l = Entering c" "ml_done s \<notin> ml_closed s" by auto
  then show ?thesis
  proof cases
    case 1
    then show ?thesis by (intro exI [of _ "[]"] exI [of _ s]) (simp add: path_simps)
  next
    case 2
    with looping_ends [of s ls c] l(1) assms(2) show ?thesis
      by (intro exI [of _ "[Leave (length ls)]"]) (auto simp: calls_def)
  next
    case 3
    let ?t = "s\<lparr>ml_loops := ls @ [Looping c (ml_done s)]\<rparr>"
    have enter: "life_path [Enter (length ls)] s ?t" using l(1) 3 by (simp add: path_simps step_simps)
    obtain u where "life_path [Leave (length ls)] ?t u" "ml_callers u = ml_callers s" "ml_done s \<in> ml_closed u"
      using looping_ends [of ?t ls c "ml_done s"] 3 assms(2) by auto
    with path_append [OF enter] show ?thesis
      by (intro exI [of _ "[Enter (length ls), Leave (length ls)]"] exI [of _ u]) (auto simp: calls_def)
  qed
qed

subsection \<open>One call after the other\<close>

text \<open>
  C40. Used one call after the other, the monitor has one loop. In every state such use reaches at most
  one loop is alive and no loop stops at a double close; where no call is under way the running flag
  tells whether there can be a loop; and a Stop that waits can always return, by the steps of the loop
  and its own, leaving no loop and the monitor ready for the next Start.
\<close>

theorem monitor_lifecycle:
  assumes "used_alone s"
  shows "length (filter alive (ml_loops s)) \<le> 1 \<and> Panicked \<notin> set (ml_loops s) \<and>
    ((\<forall>i. ml_callers s i = Idle) \<and> \<not> ml_running s \<longrightarrow> filter alive (ml_loops s) = []) \<and>
    (\<forall>i ch. ml_callers s i = Waiting ch \<longrightarrow> (\<exists>as t. life_path as s t \<and> (\<forall>a\<in>set as. \<not> calls a \<and> a \<noteq> Parent_ends) \<and>
       used_alone t \<and> (\<forall>j. ml_callers t j = Idle) \<and> \<not> ml_running t \<and> filter alive (ml_loops t) = []))"
proof -
  have quiet_filter: "quiet t \<Longrightarrow> filter alive (ml_loops t) = [] \<and> Panicked \<notin> set (ml_loops t)" for t
    by (auto simp: quiet_def alive_def filter_empty_conv)
  obtain k where idle: "\<forall>j. j \<noteq> k \<longrightarrow> ml_callers s j = Idle" and ok: "phase_ok (ml_callers s k) s"
    using used_alone_inv [OF assms] by (auto simp: life_inv_def)
  have "length (filter alive (ml_loops s)) \<le> 1 \<and> Panicked \<notin> set (ml_loops s)"
    using phase_cases [OF ok] quiet_filter [of s] by (auto simp: one_loop_def alive_def filter_empty_conv)
  moreover have "filter alive (ml_loops s) = []" if "\<forall>i. ml_callers s i = Idle" "\<not> ml_running s"
    using that ok quiet_filter by simp
  moreover have "\<exists>as t. life_path as s t \<and> (\<forall>a\<in>set as. \<not> calls a \<and> a \<noteq> Parent_ends) \<and> used_alone t \<and>
      (\<forall>j. ml_callers t j = Idle) \<and> \<not> ml_running t \<and> filter alive (ml_loops t) = []" if "ml_callers s i = Waiting ch" for i ch
  proof -
    note waits = that
    have i: "i = k" using busy_caller [OF idle, of i] waits by simp
    obtain c where c: "ch = ml_done s" "one_loop c s" "c \<in> ml_cancelled s" using ok waits i by auto
    obtain as t where t: "life_path as s t" "\<forall>a\<in>set as. \<not> calls a \<and> a \<noteq> Parent_ends" "ml_callers t = ml_callers s" "ch \<in> ml_closed t"
      using loop_ends [OF c(2,3)] c(1) by blast
    define u where "u = goes i Idle ((goes i Clearing t)\<lparr>ml_running := False\<rparr>)"
    have "life_path [Wake i, Clear i] t u"
      using t(3,4) waits by (auto simp: path_simps step_simps goes_simps u_def)
    from path_append [OF t(1) this] have path: "life_path (as @ [Wake i, Clear i]) s u" .
    have own: "\<forall>a\<in>set (as @ [Wake i, Clear i]). \<not> calls a \<and> a \<noteq> Parent_ends" using t(2) by (auto simp: calls_def)
    have after: "used_alone u" by (rule alone_path [OF path assms]) (use own in blast)
    have all_idle: "\<forall>j. ml_callers u j = Idle" and stopped: "\<not> ml_running u"
      using t(3) idle i by (auto simp: goes_simps u_def)
    have "quiet u" using used_alone_inv [OF after] all_idle stopped by (auto simp: life_inv_def)
    then show ?thesis using path own after all_idle stopped quiet_filter by blast
  qed
  ultimately show ?thesis by blast
qed

text \<open>A witness: started, ticking, and a Stop that waits.\<close>

definition waiting_life :: life where
  "waiting_life = \<lparr>ml_running = True, ml_cancel = Some 0, ml_done = 1, ml_contexts = 1, ml_channels = 2, ml_cancelled = {0},
     ml_closed = {}, ml_parent_done = False, ml_callers = (\<lambda>_. Idle)(7 := Waiting 1), ml_loops = [Looping 0 1]\<rparr>"

lemma waiting_used_alone: "used_alone waiting_life"
proof -
  let ?s1 = "new_life\<lparr>ml_running := True, ml_done := 1, ml_channels := 2, ml_callers := (\<lambda>_. Idle)(7 := Starting)\<rparr>"
  have 1: "used_alone ?s1"
    by (rule used_alone.next_step [OF used_alone.new, of "Call_start 7"]) (auto simp: step_simps goes_def new_life_def)
  let ?s2 = "?s1\<lparr>ml_cancel := Some 0, ml_contexts := 1, ml_callers := (\<lambda>_. Idle)(7 := Spawning 0)\<rparr>"
  have 2: "used_alone ?s2"
    by (rule used_alone.next_step [OF 1, of "Make_context 7"]) (auto simp: step_simps goes_def new_life_def calls_def)
  let ?s3 = "?s2\<lparr>ml_loops := [Entering 0], ml_callers := (\<lambda>_. Idle)\<rparr>"
  have 3: "used_alone ?s3"
    by (rule used_alone.next_step [OF 2, of "Go_run 7"]) (auto simp: step_simps goes_def new_life_def calls_def)
  let ?s4 = "?s3\<lparr>ml_loops := [Looping 0 1]\<rparr>"
  have 4: "used_alone ?s4"
    by (rule used_alone.next_step [OF 3, of "Enter 0"]) (auto simp: step_simps new_life_def calls_def)
  let ?s5 = "?s4\<lparr>ml_callers := (\<lambda>_. Idle)(7 := Stopping)\<rparr>"
  have 5: "used_alone ?s5"
    by (rule used_alone.next_step [OF 4, of "Call_stop 7"]) (auto simp: step_simps goes_def new_life_def)
  let ?s6 = "?s5\<lparr>ml_callers := (\<lambda>_. Idle)(7 := Reading), ml_cancelled := {0}\<rparr>"
  have 6: "used_alone ?s6"
    by (rule used_alone.next_step [OF 5, of "Call_cancel 7"]) (auto simp: step_simps goes_def new_life_def calls_def)
  show ?thesis
    by (rule used_alone.next_step [OF 6, of "Read_done 7"]) (auto simp: step_simps goes_def new_life_def calls_def waiting_life_def)
qed

theorem monitor_lifecycle_witness:
  "length (filter alive (ml_loops waiting_life)) \<le> 1 \<and> (\<exists>as t. life_path as waiting_life t \<and> \<not> ml_running t)"
proof -
  have "ml_callers waiting_life 7 = Waiting 1" by (simp add: waiting_life_def)
  then show ?thesis using monitor_lifecycle [OF waiting_used_alone] by blast
qed

subsection \<open>Calls that overlap\<close>

text \<open>Nothing makes callers take turns; what all of them together can reach.\<close>

definition life_reach :: "life \<Rightarrow> bool" where
  "life_reach s \<longleftrightarrow> (\<exists>as. life_path as new_life s)"

text \<open>
  Two Stops that overlap: the second clears the flag of the Start that came between them, a third
  Start is let in, and the two loops then close one channel; the second close stops the program.
\<close>

definition race_acts :: "life_act list" where
  "race_acts = [Call_start 0, Make_context 0, Go_run 0, Enter 0,
     Call_stop 1, Call_stop 2, Call_cancel 1, Call_cancel 2, Read_done 1, Read_done 2, Leave 0, Wake 1, Clear 1, Wake 2,
     Call_start 0, Make_context 0, Go_run 0, Clear 2, Call_start 3, Make_context 3, Go_run 3, Enter 1, Enter 2,
     Parent_ends, Leave 1, Leave 2]"

lemma overlapping_stops_panic: "\<exists>s. life_reach s \<and> Panicked \<in> set (ml_loops s)"
  unfolding life_reach_def
  by (rule exI, rule conjI, rule exI [of _ race_acts])
    (simp add: race_acts_def path_simps step_simps goes_def new_life_def, simp)

text \<open>
  A Stop between the two halves of a Start finds the flag set and no cancel function: it waits for a
  loop nobody has cancelled. Whatever steps are possible then, but for new calls and the end of the
  parent, leave it waiting.
\<close>

definition stuck :: "life \<Rightarrow> bool" where
  "stuck s \<longleftrightarrow> ml_callers s 1 = Waiting 1 \<and> (\<forall>i. i \<noteq> 1 \<longrightarrow> ml_callers s i = Idle) \<and> 1 \<notin> ml_closed s \<and>
     ml_cancelled s = {} \<and> \<not> ml_parent_done s"

lemma stuck_phase:
  assumes "stuck s"
  shows "ml_callers s i \<noteq> Starting" "ml_callers s i \<noteq> Spawning c" "ml_callers s i \<noteq> Stopping" "ml_callers s i \<noteq> Reading"
    "ml_callers s i \<noteq> Clearing" "ml_callers s i = Waiting ch \<Longrightarrow> ch = 1"
  using assms by (cases "i = 1"; simp add: stuck_def)+

lemma stuck_step:
  assumes "stuck s" "life_step a s t" "\<not> calls a" "a \<noteq> Parent_ends"
  shows "stuck t"
  using assms(2)
proof cases
  case (wake i ch)
  then show ?thesis using stuck_phase(6) [OF assms(1)] assms(1) by (auto simp: stuck_def)
qed (use assms(1,3,4) stuck_phase(1-5) [OF assms(1)] in \<open>auto simp: stuck_def calls_def\<close>)

lemma early_stop_waits:
  "\<exists>s. life_reach s \<and> stuck s \<and>
     (\<forall>as t. life_path as s t \<and> (\<forall>a\<in>set as. \<not> calls a \<and> a \<noteq> Parent_ends) \<longrightarrow> ml_callers t 1 = Waiting 1)"
proof -
  let ?acts = "[Call_start 0, Call_stop 1, Call_cancel 1, Read_done 1, Make_context 0, Go_run 0, Enter 0]"
  obtain s where s: "life_path ?acts new_life s" "stuck s"
    by (simp add: path_simps step_simps goes_def new_life_def stuck_def)
  have "stuck t" if "life_path as s t" "\<forall>a\<in>set as. \<not> calls a \<and> a \<noteq> Parent_ends" for as t
    using that s(2) by (induction rule: life_path.induct) (auto dest: stuck_step)
  then have "ml_callers t 1 = Waiting 1" if "life_path as s t" "\<forall>a\<in>set as. \<not> calls a \<and> a \<noteq> Parent_ends" for as t
    using that by (simp add: stuck_def)
  with s show ?thesis unfolding life_reach_def by blast
qed

end
