(* ===== verification/AdminPages.thy ===== *)
theory AdminPages
  imports Strings GoNet
begin

text \<open>
  What the admin pages are rendered from, \<^verbatim>\<open>internal/master/templates/admin/render.go\<close>: titles, the
  active entry of the navigation, and the flash message, which travels from one request to the next
  in the query of a redirect. A query is escaped and parsed as package \<^verbatim>\<open>net/url\<close> does. The templates
  and their parsing at start-up are not modelled.
\<close>

subsection \<open>Queries\<close>

definition unreserved :: "char \<Rightarrow> bool" where
  "unreserved c \<longleftrightarrow> (let n = of_char c :: nat in
     48 \<le> n \<and> n \<le> 57 \<or> 65 \<le> n \<and> n \<le> 90 \<or> 97 \<le> n \<and> n \<le> 122 \<or> c \<in> {CHR ''-'', CHR ''_'', CHR ''.'', CHR ''~''})"

definition upper_hex :: "nat \<Rightarrow> char" where
  "upper_hex n = char_of (if n < 10 then 48 + n else 55 + n)"

definition escape_char :: "char \<Rightarrow> string" where
  "escape_char c =
     (if unreserved c then [c]
      else if c = CHR '' '' then [CHR ''+'']
      else let n = of_char c :: nat in [CHR ''%'', upper_hex (n div 16), upper_hex (n mod 16)])"

definition query_escape :: "string \<Rightarrow> string" where
  "query_escape s = concat (map escape_char s)"

fun query_unescape :: "string \<Rightarrow> string option" where
  "query_unescape [] = Some []"
| "query_unescape (c # s) =
     (if c = CHR ''%''
      then (case s of
        a # b # t \<Rightarrow>
          (case (hex_val a, hex_val b) of
             (Some x, Some y) \<Rightarrow> map_option (Cons (char_of (16 * x + y))) (query_unescape t)
           | _ \<Rightarrow> None)
      | _ \<Rightarrow> None)
      else map_option (Cons (if c = CHR ''+'' then CHR '' '' else c)) (query_unescape s))"

text \<open>\<^verbatim>\<open>url.ParseQuery\<close>, its errors dropped as \<^verbatim>\<open>URL.Query\<close> does: a part with a semicolon or a broken escape is left out.\<close>

definition query_pair :: "string \<Rightarrow> (string \<times> string) option" where
  "query_pair part =
     (if part = [] \<or> CHR '';'' \<in> set part then None
      else let key = before_sep CHR ''='' part; value0 = drop (Suc (length key)) part
           in case (query_unescape key, query_unescape value0) of
                (Some k, Some v) \<Rightarrow> Some (k, v) | _ \<Rightarrow> None)"

definition parse_query :: "string \<Rightarrow> (string \<times> string) list" where
  "parse_query q = List.map_filter query_pair (split_on CHR ''&'' q)"

definition query_get :: "(string \<times> string) list \<Rightarrow> string \<Rightarrow> string" where
  "query_get vs key = (case map_of vs key of None \<Rightarrow> [] | Some v \<Rightarrow> v)"

subsection \<open>Pages\<close>

record page_data =
  pd_title :: string
  pd_active :: string
  pd_success :: string
  pd_error :: string
  pd_warning :: string
  pd_info :: string

definition flash_from_request :: "string \<Rightarrow> page_data" where
  "flash_from_request q =
     (let vs = parse_query q
      in \<lparr>pd_title = [], pd_active = [], pd_success = query_get vs ''flash_success'', pd_error = query_get vs ''flash_error'',
          pd_warning = query_get vs ''flash_warning'', pd_info = query_get vs ''flash_info''\<rparr>)"

definition redirect_with_flash :: "string \<Rightarrow> string \<Rightarrow> string \<Rightarrow> string" where
  "redirect_with_flash base kind message = base @ ''?'' @ kind @ ''='' @ query_escape message"

text \<open>The text after the first question mark, as the next request has it.\<close>

definition raw_query :: "string \<Rightarrow> string" where
  "raw_query u = drop (Suc (length (before_sep CHR ''?'' u))) u"

definition titled :: "string \<Rightarrow> string \<Rightarrow> page_data \<Rightarrow> page_data" where
  "titled active def d = d\<lparr>pd_active := active, pd_title := (if pd_title d = [] then def else pd_title d)\<rparr>"

definition render_dashboard :: "page_data \<Rightarrow> page_data" where
  "render_dashboard = titled ''dashboard'' (''T'' @ [CHR 0xE1, CHR 0xBB, CHR 0x95] @ ''ng quan'')"

definition render_licenses :: "page_data \<Rightarrow> page_data" where
  "render_licenses = titled ''licenses'' (''Qu'' @ [CHR 0xE1, CHR 0xBA, CHR 0xA3] @ ''n l'' @ [CHR 0xC3, CHR 0xBD] @ '' License'')"

definition render_license_form :: "bool \<Rightarrow> page_data \<Rightarrow> page_data" where
  "render_license_form is_edit = titled ''licenses''
     (if is_edit then ''S'' @ [CHR 0xE1, CHR 0xBB, CHR 0xAD] @ ''a License''
      else ''T'' @ [CHR 0xE1, CHR 0xBA, CHR 0xA1] @ ''o License'')"

definition render_releases :: "page_data \<Rightarrow> page_data" where
  "render_releases = titled ''releases''
     (''Qu'' @ [CHR 0xE1, CHR 0xBA, CHR 0xA3] @ ''n l'' @ [CHR 0xC3, CHR 0xBD] @ '' Ph'' @ [CHR 0xC3, CHR 0xA1] @ ''t H'' @ [CHR 0xC3, CHR 0xA0] @ ''nh'')"

definition render_release_form :: "page_data \<Rightarrow> page_data" where
  "render_release_form = titled ''releases''
     ([CHR 0xC4, CHR 0x90, CHR 0xC4, CHR 0x83] @ ''ng Ph'' @ [CHR 0xC3, CHR 0xA1] @ ''t H'' @ [CHR 0xC3, CHR 0xA0] @ ''nh'')"

definition render_heartbeats :: "page_data \<Rightarrow> page_data" where
  "render_heartbeats = titled ''heartbeats'' ''Heartbeat Log''"

text \<open>The function \<^verbatim>\<open>slice\<close> of the templates; None is a run-time panic, an error of the template.\<close>

definition slice_text :: "string \<Rightarrow> int \<Rightarrow> int \<Rightarrow> string option" where
  "slice_text s a b =
     (if int (length s) \<le> a then Some []
      else let b = min b (int (length s)) in if a < 0 \<or> b < a then None else Some (take (nat (b - a)) (drop (nat a) s)))"

definition is_recent_heartbeat :: "gotime \<Rightarrow> gotime \<Rightarrow> duration \<Rightarrow> bool" where
  "is_recent_heartbeat now t within \<longleftrightarrow> time_sub now t \<le> within"

subsection \<open>The flash message arrives\<close>

lemma hex_val_upper: "n < 16 \<Longrightarrow> hex_val (upper_hex n) = Some n"
  by (auto simp: hex_val_def upper_hex_def of_char_of Let_def)

lemma char_nibbles: "char_of (16 * ((of_char c :: nat) div 16) + of_char c mod 16) = c"
  by simp

lemma unescape_char: "query_unescape (escape_char c @ s) = map_option (Cons c) (query_unescape s)"
proof -
  have low: "(of_char c :: nat) div 16 < 16" using of_char_less [of c] by (simp add: less_mult_imp_div_less)
  have plain: "c \<noteq> CHR ''%'' \<and> c \<noteq> CHR ''+''" if "unreserved c" using that by (auto simp: unreserved_def)
  show ?thesis
    using plain low by (auto simp: escape_char_def Let_def hex_val_upper)
qed

lemma query_roundtrip: "query_unescape (query_escape s) = Some s"
  by (induction s) (simp_all add: query_escape_def unescape_char)

lemma upper_hex_plain: "n < 16 \<Longrightarrow> unreserved (upper_hex n)"
  by (auto simp: unreserved_def upper_hex_def of_char_of Let_def)

lemma escaped_chars: "set (query_escape s) \<subseteq> {c. unreserved c} \<union> {CHR ''%'', CHR ''+''}"
proof (induction s)
  case (Cons c s)
  have "(of_char c :: nat) div 16 < 16" using of_char_less [of c] by (simp add: less_mult_imp_div_less)
  then have "set (escape_char c) \<subseteq> {c. unreserved c} \<union> {CHR ''%'', CHR ''+''}"
    by (simp add: escape_char_def Let_def upper_hex_plain)
  with Cons show ?case by (simp add: query_escape_def)
qed (simp add: query_escape_def)

lemma one_pair:
  assumes "\<forall>c\<in>set kind. unreserved c" "kind \<noteq> []"
  shows "parse_query (kind @ ''='' @ query_escape message) = [(kind, message)]"
proof -
  have kind: "c \<notin> set kind" if "\<not> unreserved c" for c using assms(1) that by blast
  have apart: "CHR ''&'' \<notin> set (kind @ ''='' @ query_escape message)" "CHR '';'' \<notin> set (kind @ ''='' @ query_escape message)"
    "CHR ''='' \<notin> set kind"
    using escaped_chars [of message] kind by (auto simp: unreserved_def)
  have "before_sep CHR ''='' (kind @ CHR ''='' # query_escape message) = kind"
    using apart(3) by (simp add: before_sep_def takeWhile_sep)
  moreover have "query_unescape kind = Some kind"
    using assms(1) by (induction kind) (auto simp: unreserved_def)
  ultimately have "query_pair (kind @ CHR ''='' # query_escape message) = Some (kind, message)"
    using apart(2) by (simp add: query_pair_def query_roundtrip)
  then show ?thesis
    using apart(1) by (simp add: parse_query_def split_on_none List.map_filter_simps)
qed

text \<open>
  A flash message arrives. Whatever its bytes, the message a handler redirects with is the message
  the next page shows, in the box of its kind, and the other three boxes are empty.
\<close>

theorem flash_roundtrip:
  assumes "CHR ''?'' \<notin> set base" "kind \<in> {''flash_success'', ''flash_error'', ''flash_warning'', ''flash_info''}"
  shows "flash_from_request (raw_query (redirect_with_flash base kind message)) =
    \<lparr>pd_title = [], pd_active = [], pd_success = (if kind = ''flash_success'' then message else []),
     pd_error = (if kind = ''flash_error'' then message else []),
     pd_warning = (if kind = ''flash_warning'' then message else []),
     pd_info = (if kind = ''flash_info'' then message else [])\<rparr>"
proof -
  have "before_sep CHR ''?'' (redirect_with_flash base kind message) = base"
    using assms(1) by (simp add: redirect_with_flash_def before_sep_def takeWhile_sep)
  then have raw: "raw_query (redirect_with_flash base kind message) = kind @ ''='' @ query_escape message"
    by (simp add: raw_query_def) (simp add: redirect_with_flash_def)
  have "\<forall>c\<in>set kind. unreserved c" "kind \<noteq> []" using assms(2) by (auto simp: unreserved_def)
  then have "parse_query (raw_query (redirect_with_flash base kind message)) = [(kind, message)]"
    unfolding raw by (rule one_pair)
  then show ?thesis by (simp add: flash_from_request_def query_get_def)
qed

theorem flash_roundtrip_witness:
  "pd_error (flash_from_request (raw_query (redirect_with_flash ''/admin/licenses'' ''flash_error'' ''50% & more; a=b''))) =
     ''50% & more; a=b''"
  using flash_roundtrip [of "''/admin/licenses''" "''flash_error''" "''50% & more; a=b''"] by simp

end
