(* ===== verification/ExpiryTicks.thy ===== *)
theory ExpiryTicks
  imports Plan
begin

text \<open>
  The periodic expiry check of the plan manager, \<^verbatim>\<open>StartPeriodicExpiryChecker\<close> of
  \<^verbatim>\<open>internal/master/plan/plan.go\<close>: every tick is a pass over the licences, whose events are sent to
  a channel with room for one list; a list that finds it full is dropped, and so are the events of a
  pass that ended with an error. The receiver takes a list when it likes.
\<close>

record ('s, 'h) checker =
  ck_store :: 's
  ck_history :: 'h
  ck_channel :: "downgrade_event list option"

definition checker_tick :: "'s license_store_ops \<Rightarrow> 'h history \<Rightarrow> nat option \<Rightarrow> gotime \<Rightarrow> ('s, 'h) checker \<Rightarrow> ('s, 'h) checker" where
  "checker_tick ops rec cancel now c =
     (case check_expiry ops rec cancel now (ck_store c, ck_history c) of
        ((es, err), (s, h)) \<Rightarrow>
          \<lparr>ck_store = s, ck_history = h,
           ck_channel = (if err \<noteq> None \<or> es = [] then ck_channel c
                         else case ck_channel c of None \<Rightarrow> Some es | Some old \<Rightarrow> Some old)\<rparr>)"

definition checker_receive :: "('s, 'h) checker \<Rightarrow> downgrade_event list \<times> ('s, 'h) checker" where
  "checker_receive c = (case ck_channel c of None \<Rightarrow> [] | Some es \<Rightarrow> es, c\<lparr>ck_channel := None\<rparr>)"

text \<open>A receiver that keeps up: after every tick it takes what there is.\<close>

fun checker_rounds :: "'s license_store_ops \<Rightarrow> 'h history \<Rightarrow> gotime list \<Rightarrow> ('s, 'h) checker \<Rightarrow> downgrade_event list \<times> ('s, 'h) checker" where
  "checker_rounds ops rec [] c = ([], c)"
| "checker_rounds ops rec (t # ts) c =
     (let (es, c1) = checker_receive (checker_tick ops rec None t c); (es', c2) = checker_rounds ops rec ts c1
      in (es @ es', c2))"

text \<open>The tick that finds a licence due, and what becomes of the licence.\<close>

definition due_tick :: "gotime list \<Rightarrow> license \<Rightarrow> gotime option" where
  "due_tick ts l = find (\<lambda>t. due t l) ts"

definition after_ticks :: "gotime list \<Rightarrow> license \<Rightarrow> license" where
  "after_ticks ts l = (if due_tick ts l = None then l else downgraded l)"

lemma downgraded_ticks: "due_tick ts (downgraded l) = None"
  by (simp add: due_tick_def find_None_iff not_due_downgraded)

lemma due_tick_Cons: "due_tick (t # ts) l = (if due t l then Some t else due_tick ts l)"
  by (simp add: due_tick_def)

lemma due_tick_due: "due_tick ts l = Some t \<Longrightarrow> due t l"
  by (auto simp: due_tick_def find_Some_iff)

context license_store begin

text \<open>One tick and the receipt of its events.\<close>

lemma tick_received:
  assumes "inv (ck_store c)" "ck_channel c = None"
  shows "\<exists>es c'. checker_receive (checker_tick ops rec None t c) = (es, c') \<and> inv (ck_store c') \<and> ck_channel c' = None \<and>
    row (ck_store c') = (\<lambda>k. map_option (\<lambda>l. if due t l then downgraded l else l) (row (ck_store c) k)) \<and>
    set es = {expiry_event t l | k l. row (ck_store c) k = Some l \<and> due t l} \<and> distinct (map de_license_id es)"
proof -
  obtain es s' h' did where p: "check_expiry ops rec None t (ck_store c, ck_history c) = ((es, None), (s', h'))" "inv s'" "\<forall>l. did l"
    "row s' = (\<lambda>k. map_option (\<lambda>l. if due t l \<and> did l then downgraded l else l) (row (ck_store c) k))"
    "set es = {expiry_event t l | k l. row (ck_store c) k = Some l \<and> due t l \<and> did l}" "distinct (map de_license_id es)"
    using check_expiry_pass [OF assms(1), of rec None t "ck_history c"] by auto
  then show ?thesis
    by (intro exI [of _ es] exI [of _ "\<lparr>ck_store = s', ck_history = h', ck_channel = None\<rparr>"])
      (auto simp: checker_receive_def checker_tick_def assms(2))
qed

lemma rounds_report:
  assumes "inv (ck_store c)" "ck_channel c = None"
  shows "\<exists>es c'. checker_rounds ops rec ts c = (es, c') \<and> inv (ck_store c') \<and>
    row (ck_store c') = (\<lambda>k. map_option (after_ticks ts) (row (ck_store c) k)) \<and>
    set es = {expiry_event t l | k l t. row (ck_store c) k = Some l \<and> due_tick ts l = Some t} \<and>
    distinct (map de_license_id es)"
  using assms
proof (induction ts arbitrary: c)
  case Nil
  then show ?case by (auto simp: after_ticks_def due_tick_def option.map_ident)
next
  case (Cons t ts)
  obtain es c1 where r: "checker_receive (checker_tick ops rec None t c) = (es, c1)" "inv (ck_store c1)" "ck_channel c1 = None"
    "row (ck_store c1) = (\<lambda>k. map_option (\<lambda>l. if due t l then downgraded l else l) (row (ck_store c) k))"
    "set es = {expiry_event t l | k l. row (ck_store c) k = Some l \<and> due t l}" "distinct (map de_license_id es)"
    using tick_received [OF Cons.prems, of rec t] by blast
  obtain es' c2 where r': "checker_rounds ops rec ts c1 = (es', c2)" "inv (ck_store c2)"
    "row (ck_store c2) = (\<lambda>k. map_option (after_ticks ts) (row (ck_store c1) k))"
    "set es' = {expiry_event u l | k l u. row (ck_store c1) k = Some l \<and> due_tick ts l = Some u}" "distinct (map de_license_id es')"
    using Cons.IH [OF r(2,3)] by blast
  have later: "set es' = {expiry_event u l | k l u. row (ck_store c) k = Some l \<and> \<not> due t l \<and> due_tick ts l = Some u}"
    unfolding r'(4) r(4) using downgraded_ticks by (auto split: if_split_asm) (metis option.distinct(1))+
  have "row (ck_store c2) = (\<lambda>k. map_option (after_ticks (t # ts)) (row (ck_store c) k))"
    unfolding r'(3) r(4) by (auto simp: option.map_comp comp_def after_ticks_def due_tick_Cons downgraded_ticks intro!: ext option.map_cong0)
  moreover have "set (es @ es') = {expiry_event u l | k l u. row (ck_store c) k = Some l \<and> due_tick (t # ts) l = Some u}"
  proof -
    have first: "due_tick (t # ts) l = Some u \<longleftrightarrow> due t l \<and> u = t \<or> \<not> due t l \<and> due_tick ts l = Some u" for l u
      by (auto simp: due_tick_Cons)
    show ?thesis unfolding set_append later r(5) first by blast
  qed
  moreover have "distinct (map de_license_id (es @ es'))"
  proof -
    have "k = li_license_id l" if "row (ck_store c) k = Some l" for k l using row_id [OF Cons.prems(1) that] by simp
    then have "de_license_id ` set es \<inter> de_license_id ` set es' = {}"
      unfolding later r(5) by (auto simp: expiry_event_def)
    with r(6) r'(5) show ?thesis by simp
  qed
  ultimately show ?case using r(1) r'(1,2) by simp
qed

end



text \<open>With a list still in the channel, the events of the next tick are lost, though its licences are downgraded.\<close>

lemma full_channel_loses_events:
  assumes "table_ok (ck_store c)" "ck_channel c = Some old" "row_of k (ck_store c) = Some l" "due t l"
  shows "row_of k (ck_store (checker_tick db_store rec None t c)) = Some (downgraded l) \<and>
    ck_channel (checker_tick db_store rec None t c) = Some old"
proof -
  obtain es s' h' where p: "check_expiry db_store rec None t (ck_store c, ck_history c) = ((es, None), (s', h'))"
    "\<forall>k. row_of k s' = map_option (\<lambda>l. if due t l then downgraded l else l) (row_of k (ck_store c))"
    using licences.check_expiry_full [OF assms(1), of rec t "ck_history c"] by blast
  then show ?thesis using assms(2-4) by (simp add: checker_tick_def)
qed

end
