(* ===== verification/Spec2Isabelle.thy ===== *)
theory Spec2Isabelle
  imports ProxyFacts AntiReplay ClientConfig ConnPool HotPath Offline Traffic Snapshot UpdateApply
    EventLog CliFacts WafFacts XdpStart MasterFacts
    Lifecycle AdminPages ExpiryTicks
begin

text \<open>
  Kiro WAF is a web application firewall in Go in two programs.  The CLIENT (cmd/kiro-client,
  internal/client) runs before a web server: it decides for every request whether it is passed
  on, challenged, or refused, bans addresses in a blocklist that a kernel filter reads, and
  reports to the MASTER (cmd/kiro-master, internal/master), which keeps licences, releases and
  heartbeats in a database, answers heartbeats with a plan or a lock, and has an admin panel.

  PARTS AND THEORIES

  Foundations.  Prelude: lists, maps, options and the collections of rewrite rules.  Strings: Go's
  strings package on byte strings, decimal and hexadecimal numbers.  GoNet: net.ParseIP, ParseCIDR
  and SplitHostPort.  Http: requests, headers and JSON bodies.  Crypto: SHA-256, HMAC, base64 and
  FNV-1a on words.  Contracts: the locales that state what one component promises to another; they
  are interpreted in the theory of the providing component.

  Client.  Ban (ban/engine.go): store, blocklist file, kernel sync.  RateLimit
  (ratelimit/limiter.go): sliding windows.  CookieLimit (ratelimit/cookie_limiter.go).
  Escalation (escalation/engine.go).  Challenge (challenge/pow.go, hold.go, transparent.go),
  AntiReplay (challenge/antireplay.go), LoopDetect (challenge/loopdetect.go).  Cookie
  (cookie/hmac.go, cookie/manager_v2.go).  Detect (ua/detector.go, cf/extractor.go,
  fingerprint/tls.go).  ProxyHandler (proxy.go) composes them to the handler of one request, and
  ProxyFacts states what the composition guarantees.  Lockdown (errors.go, loops.go, the plan
  callback of client_waf.go): the heartbeat loops and the lock.  ClientConfig (config_load.go,
  config_validate.go, config_yaml.go, the older loader of client_waf.go).

  Client, around the handler (internal/client/proxy, monitor, updater).  Slots (semaphore.go): the
  two counting semaphores, through the locale slot_discipline.  ConnPool (connpool.go): each
  operation as the steps of a goroutine, since its mutex is released in between, and Stats as its
  three readings; its theorems are about every interleaving.  HotPath (hotpath.go, pool.go, gc.go).  Monitor (alert.go, config.go,
  monitor.go, types.go, xdp_checker.go): health checks and restarts.  Lifecycle (Start, Stop and run
  of monitor.go): concurrent callers and loops as an inductive step relation.  Offline (offline.go),
  Traffic (traffic.go), Snapshot (snapshot.go).  Updater (updater.go, systemd.go): download, apply,
  rollback over a map of files.

  Client, user space of the kernel filter (internal/client/xdp).  XdpMaps (config_sync.go and the
  bpftool calls of botnet_controller.go): the layout of the configuration and the text of map
  values.  Botnet (botnet_controller.go): the per-CPU counters and the botnet mode.  GeoIp
  (geoip_loader.go): the CSV file and the two maps.  bpftool is an argument of the definitions, a
  command of arguments and a kernel state; what is relied on is named: bpf_law and map_law say
  that an update that succeeds stores the value under the key and nothing else, and that a lookup
  prints it.

  Client, assembled.  ClientWaf (RunWithConfig of client_waf.go): the components made from a loaded
  configuration and wired, the routes and middlewares, the heartbeat loop and the five cleanup
  tickers; a run is any sequence of requests, ticks and heartbeats.  WafFacts states what holds in
  every run.  XdpStart (cmd/kiro-client/main.go): the start of the kernel filter from the
  environment.

  Shared (internal/shared).  LicenseFile (licenseverify/license.go,
  machinefingerprint/fingerprint.go): signed licences and revocation lists.  UpdateManifest
  (update/manifest.go, version.go): signed manifests.  FileSteps: the replacement of a file through a temporary
  one (copyFile of update/apply.go, WriteJSONAtomic of storage/storage.go), a system call at a time,
  where each call succeeds, fails or is the one before which the process is killed; a disk records
  which files were never synced.  UpdateApply (update/apply.go, download.go): download, installation
  and rollback made of these steps; what it guarantees holds after a kill of the process, not after a
  loss of power (power_cut_loses_update).  SharedTypes (config/types.go), SharedLoad (config/load.go) and SharedRuntime
  (config/runtime.go): the configuration of a protected server, its validation and its expansion;
  SharedFacts states what they guarantee together.  An error of the validation is the text of its
  message without the values in it, the checks are run in the order of the code and the first
  error is the result; a float64 is a rational, an infinity or no number.  GoPath: path/filepath on
  Unix.  OsRelease (client/install/osdetect.go and the readers of os-release), Installer and
  InstallFacts (installer/installer.go): plans, staging, installation and removal over a map of
  paths, below an install root.  Diagnostics (diagnostics/*.go, pkg/health): status, preflight and
  health reports and the mode switch on the YAML node tree.  Support (support/*.go): redaction,
  support bundle, export and incident report; the theorem compares two disks that differ in secrets.
  MachineId (machinefingerprint/fingerprint.go): the data of the machine the fingerprint is made of.
  EventLog (eventlog/eventlog.go): append, rotation and rate limit.  Pilot (pilot/report.go): the
  evidence and the decision of a pilot.

  Command line (cmd/kiro-cli).  Flags: the flag package of Go, as far as the program uses it.
  CliMain (main.go): arguments to requests.  CliRun: requests to reports, writes and exit status.
  CliUpdate (update/update.go): check, update and rollback.  CliFacts states what the program as a
  whole guarantees about installations.

  Master.  LicenseDb (db/*.go): the tables as values, a query as a function of the database and a
  driver fault.  Plan (plan/plan.go): over a record of store operations, interpreted on LicenseDb.
  MasterApi (handlers/api.go, register.go, dbtimeout.go).  AdminAuth (handlers/admin_auth.go) and
  AdminPanel (handlers/admin.go, download.go).  Docs (handlers/docs.go, docs_content*.go): the
  documentation site; a text is the name of its variable.  MasterServer (cmd/kiro-master/main.go and
  the handlers without a theory of their own) puts all of it on one multiplexer, and MasterFacts
  states what holds over any run of requests, from a registration to its later heartbeats among it.  Mux: http.ServeMux, for both servers.  AdminPages
  (templates/admin/render.go): titles and the flash message of a redirect.  ExpiryTicks: the
  periodic expiry check of plan.go and its channel.

  WHAT THE LEMMAS SHOW

  Each component has the functional behaviour of its operations on every branch, an invariant kept
  by every operation, and a statement over arbitrary runs of its operations: a window limiter
  answers as the log of requests says, a ban lasts exactly its time, a token is redeemed at most
  once.  The handler's theorems compose them: what was necessarily true of a request that reached
  the backend.  On the master's side: what a heartbeat answers and changes, who may reach the admin
  routes; and client and master are composed in Lockdown: when the client locks.

  CONVENTIONS

  A clock reading is an argument (now) in nanoseconds; runs quantify over them.  Random values are
  arguments.  Go maps are HOL maps, or association lists where the code enumerates them.  Request
  counters, which Go keeps in int, are unbounded integers: 2^63 requests are out of reach; products
  of durations, which do overflow for configured values, are wrapped to 64 bits.  Words of the hash
  functions have their width.  Every error return, and every panic the code can reach, is a value
  of a result type.  A driver error is an input of each query; JSON and YAML decoding and url.Parse
  are arguments that stand for their results.  A mutex-protected operation is one step; the
  operations interleave in runs.  (GetLevel of escalation/engine.go, which takes its lock twice, is
  one step too.)  The days of grace of a licence are days of 24 hours, as they are in UTC.

  Loops are structural recursions over the list the code ranges over, so no fuel is needed; the
  truncation of a snapshot, the search of an idle connection and the trimming of a header end by
  a measure.  The wait loop of the updater runs over the rounds given; None says that they do not
  reach its end, and it is shown to end within the timeout.  The CSV loop (GeoIp.csv_rows) really
  may not end: it is a partial function, and when it ends is a theorem.

  Other arguments: the rounding of float64 (Traffic), Ed25519, PEM and X.509 (LicenseFile), gzip
  (Snapshot), what a file operation meets on the disk (Updater, Installer, Support), socket errors
  (ConnPool), the outcomes of commands (Installer), the probes of the machine (Diagnostics).

  NOT MODELLED

  HTML and documentation text and the templates that render it, logging, sockets and signals of the
  servers, the SQL schema and engine, the reverse proxy's transport, the kernel program (it is C),
  the text of the installer's unit files.
\<close>

end
